(* ===== verification/Ballot_Prelude.thy ===== *)
theory Ballot_Prelude
  imports Main "HOL-Library.Word" "HOL-Library.List_Lexorder" "HOL-Library.Multiset"
begin

text \<open>
  Shared vocabulary of the development: machine integers, byte strings, the \<open>Result\<close> type
  and its \<open>?\<close> operator, the slice operations of the Rust standard library that the crates use
  (\<open>windows(2)\<close>, \<open>sort\<close>, \<open>binary_search_by\<close>), and the list lemmas the components share.

  Conventions. A Rust \<open>u8\<close>, \<open>u16\<close>, \<open>u32\<close> or \<open>u64\<close> is a word of that width; a \<open>usize\<close> is a
  natural number, and every conversion between the two carries its range check, for a 64-bit
  target (\<open>usize_max\<close>). A \<open>Vec\<close> or slice is a list; \<open>len()\<close> is \<open>length\<close>.
\<close>

section \<open>Machine integers\<close>

type_synonym u8 = "8 word"
type_synonym u16 = "16 word"
type_synonym u32 = "32 word"
type_synonym u64 = "64 word"
type_synonym bytes = "u8 list"

definition usize_max :: nat where
  "usize_max = 18446744073709551615"

text \<open>\<open>usize::checked_add\<close>.\<close>

definition checked_add_usize :: "nat \<Rightarrow> nat \<Rightarrow> nat option" where
  "checked_add_usize a b = (if a + b \<le> usize_max then Some (a + b) else None)"

text \<open>\<open>u64::try_from(usize)\<close> and \<open>usize::try_from(u64)\<close> as partial conversions.\<close>

definition u64_of_usize :: "nat \<Rightarrow> u64 option" where
  "u64_of_usize n = (if n < 2 ^ 64 then Some (word_of_nat n) else None)"

definition usize_of_u64 :: "u64 \<Rightarrow> nat option" where
  "usize_of_u64 v = (if unat v \<le> usize_max then Some (unat v) else None)"

text \<open>\<open>u16::try_from(u64)\<close>.\<close>

definition u16_of_u64 :: "u64 \<Rightarrow> u16 option" where
  "u16_of_u64 v = (if unat v < 65536 then Some (ucast v) else None)"

text \<open>\<open>u64::checked_add\<close>.\<close>

definition checked_add_u64 :: "u64 \<Rightarrow> u64 \<Rightarrow> u64 option" where
  "checked_add_u64 a b = (if unat a + unat b < 2 ^ 64 then Some (a + b) else None)"

lemma unat_u64_bound: "unat (v :: u64) < 18446744073709551616"
  using unsigned_less [of v] by simp

lemma usize_of_u64_total [simp]: "usize_of_u64 v = Some (unat v)"
  using unat_u64_bound [of v] by (simp add: usize_of_u64_def usize_max_def)

lemma u64_of_usize_Some_iff: "u64_of_usize n = Some v \<longleftrightarrow> n < 2 ^ 64 \<and> unat v = n"
proof -
  have "unat (word_of_nat n :: u64) = n" if "n < 2 ^ 64"
    using that by (simp add: unat_of_nat take_bit_nat_eq_self)
  then show ?thesis
    by (auto simp: u64_of_usize_def)
qed

lemma u64_of_usize_unat [simp]: "u64_of_usize (unat v) = Some v"
  using unat_u64_bound [of v] by (simp add: u64_of_usize_def)

lemma unat_ucast_u64_u16: "unat v < 65536 \<Longrightarrow> unat (ucast (v :: u64) :: u16) = unat v"
  by (simp add: unsigned_ucast_eq unsigned_take_bit_eq take_bit_nat_eq_self)

lemma unat_ucast_u16_u64: "unat (ucast (w :: u16) :: u64) = unat w"
  using unsigned_less [of w, where 'a = nat]
  by (simp add: unsigned_ucast_eq unsigned_take_bit_eq take_bit_nat_eq_self)

lemma u16_of_u64_Some_iff: "u16_of_u64 v = Some w \<longleftrightarrow> v = ucast w"
proof -
  have "unat w < 65536" using unsigned_less [of w, where 'a = nat] by simp
  then show ?thesis
    by (auto simp: u16_of_u64_def word_unat_eq_iff unat_ucast_u64_u16 unat_ucast_u16_u64)
qed

lemma checked_add_u64_Some:
  "checked_add_u64 a b = Some c \<longleftrightarrow> unat c = unat a + unat b"
proof
  assume "checked_add_u64 a b = Some c"
  then show "unat c = unat a + unat b"
    by (auto simp: checked_add_u64_def unat_word_ariths split: if_splits)
next
  assume "unat c = unat a + unat b"
  moreover from this have "unat a + unat b < 2 ^ 64"
    using unat_u64_bound [of c] by simp
  moreover from calculation have "c = a + b"
    by (simp add: word_unat_eq_iff unat_word_ariths)
  ultimately show "checked_add_u64 a b = Some c"
    by (simp add: checked_add_u64_def)
qed

section \<open>Results\<close>

datatype ('a, 'e) result = Ok 'a | Err 'e

primrec and_then :: "('a, 'e) result \<Rightarrow> ('a \<Rightarrow> ('b, 'e) result) \<Rightarrow> ('b, 'e) result" where
  "and_then (Ok x) f = f x"
| "and_then (Err e) f = Err e"

primrec map_err :: "('e \<Rightarrow> 'f) \<Rightarrow> ('a, 'e) result \<Rightarrow> ('a, 'f) result" where
  "map_err f (Ok x) = Ok x"
| "map_err f (Err e) = Err (f e)"

primrec map_ok :: "('a \<Rightarrow> 'b) \<Rightarrow> ('a, 'e) result \<Rightarrow> ('b, 'e) result" where
  "map_ok f (Ok x) = Ok (f x)"
| "map_ok f (Err e) = Err e"

primrec ok_or :: "'e \<Rightarrow> 'a option \<Rightarrow> ('a, 'e) result" where
  "ok_or e (Some x) = Ok x"
| "ok_or e None = Err e"

primrec is_ok :: "('a, 'e) result \<Rightarrow> bool" where
  "is_ok (Ok x) = True"
| "is_ok (Err e) = False"

text \<open>
  Inversion rules. A decoder is a chain of \<open>and_then\<close> steps; \<open>result_inv\<close> collects the rules
  that take a successful chain apart into the success of each step.
\<close>

named_theorems result_inv

lemma and_then_Ok_iff [result_inv]:
  "and_then m f = Ok y \<longleftrightarrow> (\<exists>x. m = Ok x \<and> f x = Ok y)"
  by (cases m) auto

lemma and_then_Err_iff:
  "and_then m f = Err e \<longleftrightarrow> m = Err e \<or> (\<exists>x. m = Ok x \<and> f x = Err e)"
  by (cases m) auto

lemma map_err_Ok_iff [result_inv]: "map_err f m = Ok y \<longleftrightarrow> m = Ok y"
  by (cases m) auto

lemma map_ok_Ok_iff [result_inv]: "map_ok f m = Ok y \<longleftrightarrow> (\<exists>x. m = Ok x \<and> y = f x)"
  by (cases m) auto

lemma ok_or_Ok_iff [result_inv]: "ok_or e m = Ok y \<longleftrightarrow> m = Some y"
  by (cases m) auto

lemma if_Err_Ok_iff [result_inv]: "(if b then Err e else m) = Ok y \<longleftrightarrow> \<not> b \<and> m = Ok y"
  by simp

lemma and_then_assoc: "and_then (and_then m f) g = and_then m (\<lambda>x. and_then (f x) g)"
  by (cases m) auto

lemma is_ok_iff: "is_ok m \<longleftrightarrow> (\<exists>x. m = Ok x)"
  by (cases m) auto

text \<open>\<open>iter().map(f).collect::<Result<Vec<_>, _>>()\<close>: the first error wins.\<close>

fun collect_results :: "('a \<Rightarrow> ('b, 'e) result) \<Rightarrow> 'a list \<Rightarrow> ('b list, 'e) result" where
  "collect_results f [] = Ok []"
| "collect_results f (x # xs) =
     and_then (f x) (\<lambda>y. and_then (collect_results f xs) (\<lambda>ys. Ok (y # ys)))"

lemma collect_results_Ok_iff:
  "collect_results f xs = Ok ys \<longleftrightarrow> list_all2 (\<lambda>x y. f x = Ok y) xs ys"
  by (induction xs arbitrary: ys) (auto simp: result_inv list_all2_Cons1)

lemma collect_results_all: "(\<And>x. x \<in> set xs \<Longrightarrow> f x = Ok (g x)) \<Longrightarrow> collect_results f xs = Ok (map g xs)"
  by (auto simp: collect_results_Ok_iff list_all2_conv_all_nth)

section \<open>Slices\<close>

text \<open>\<open>windows(2).any(p)\<close> and the early-return loop \<open>for pair in windows(2)\<close>.\<close>

fun windows2_any :: "('a \<Rightarrow> 'a \<Rightarrow> bool) \<Rightarrow> 'a list \<Rightarrow> bool" where
  "windows2_any p (x # y # xs) = (p x y \<or> windows2_any p (y # xs))"
| "windows2_any p xs = False"

fun windows2_check :: "('a \<Rightarrow> 'a \<Rightarrow> (unit, 'e) result) \<Rightarrow> 'a list \<Rightarrow> (unit, 'e) result" where
  "windows2_check c (x # y # xs) = and_then (c x y) (\<lambda>_. windows2_check c (y # xs))"
| "windows2_check c xs = Ok ()"

lemma windows2_any_eq_iff:
  "sorted xs \<Longrightarrow> windows2_any (=) xs \<longleftrightarrow> \<not> distinct xs"
proof (induction xs rule: induct_list012)
  case (3 x y zs)
  then show ?case by (auto simp: order.antisym)
qed auto

lemma windows2_any_map: "windows2_any (\<lambda>x y. p (f x) (f y)) xs = windows2_any p (map f xs)"
  by (induction xs rule: induct_list012) auto

lemma windows2_check_map:
  "windows2_check (\<lambda>x y. c (f x) (f y)) xs = windows2_check c (map f xs)"
  by (induction xs rule: induct_list012) auto

lemma windows2_any_sorted_wrt:
  assumes "transp r"
  shows "\<not> windows2_any (\<lambda>x y. \<not> r x y) xs \<longleftrightarrow> sorted_wrt r xs"
proof (induction xs rule: induct_list012)
  case (3 x y zs)
  then show ?case using assms by (auto dest: transpD)
qed auto

lemma strictly_sorted_iff: "sorted_wrt (<) (xs :: 'a::linorder list) \<longleftrightarrow> sorted xs \<and> distinct xs"
  by (simp add: strict_sorted_iff)

lemma windows2_check_sorted_wrt:
  assumes "transp r" and "\<And>a b. c a b = Ok () \<longleftrightarrow> r a b"
  shows "windows2_check c xs = Ok () \<longleftrightarrow> sorted_wrt r xs"
proof (induction xs rule: induct_list012)
  case (3 x y zs)
  then show ?case using assms(1) by (auto simp: result_inv assms(2) dest: transpD)
qed auto

lemma windows2_check_Ok_iff:
  fixes xs :: "'a::linorder list"
  assumes "\<And>a b. c a b = Ok () \<longleftrightarrow> a < b"
  shows "windows2_check c xs = Ok () \<longleftrightarrow> sorted_wrt (<) xs"
  by (rule windows2_check_sorted_wrt) (auto simp: assms)

text \<open>\<open>binary_search_by\<close> over a slice ordered by the key \<open>f\<close>.\<close>

function bsearch :: "('a \<Rightarrow> 'k::linorder) \<Rightarrow> 'k \<Rightarrow> 'a list \<Rightarrow> nat \<Rightarrow> nat \<Rightarrow> nat option" where
  "bsearch f k xs lo hi =
     (if lo < hi then
        (let mid = (lo + hi) div 2 in
         if f (xs ! mid) = k then Some mid
         else if f (xs ! mid) < k then bsearch f k xs (Suc mid) hi
         else bsearch f k xs lo mid)
      else None)"
  by pat_completeness auto
termination
  by (relation "measure (\<lambda>(f, k, xs, lo, hi). hi - lo)") auto

declare bsearch.simps [simp del]

definition binary_search_by :: "('a \<Rightarrow> 'k::linorder) \<Rightarrow> 'k \<Rightarrow> 'a list \<Rightarrow> nat option" where
  "binary_search_by f k xs = bsearch f k xs 0 (length xs)"

lemma bsearch_correct:
  assumes "sorted (map f xs)" and "hi \<le> length xs"
  shows "case bsearch f k xs lo hi of
           Some i \<Rightarrow> lo \<le> i \<and> i < hi \<and> f (xs ! i) = k
         | None \<Rightarrow> \<forall>i. lo \<le> i \<and> i < hi \<longrightarrow> f (xs ! i) \<noteq> k"
  using assms
proof (induction f k xs lo hi rule: bsearch.induct)
  case (1 f k xs lo hi)
  let ?mid = "(lo + hi) div 2"
  have mono: "f (xs ! i) \<le> f (xs ! j)" if "i \<le> j" "j < length xs" for i j
    using sorted_nth_mono [OF "1.prems"(1), of i j] that by simp
  show ?case
  proof (cases "lo < hi")
    case False
    then show ?thesis by (auto simp: bsearch.simps [of f k xs lo hi])
  next
    case lohi: True
    then have mid: "lo \<le> ?mid" "?mid < hi" by auto
    consider (eq) "f (xs ! ?mid) = k" | (lt) "f (xs ! ?mid) < k" | (gt) "k < f (xs ! ?mid)"
      by (meson linorder_less_linear)
    then show ?thesis
    proof cases
      case eq
      then show ?thesis using lohi mid by (simp add: bsearch.simps [of f k xs lo hi])
    next
      case lt
      have skip: "f (xs ! i) \<noteq> k" if "lo \<le> i" "i < Suc ?mid" for i
        using mono [of i ?mid] that lt mid "1.prems"(2) by auto
      have step: "bsearch f k xs lo hi = bsearch f k xs (Suc ?mid) hi"
        using lohi lt by (auto simp: bsearch.simps [of f k xs lo hi] Let_def)
      show ?thesis
        using "1.IH"(1) [OF lohi refl _ lt "1.prems"] lt mid skip
        unfolding step by (auto split: option.splits) (metis linorder_not_less)
    next
      case gt
      have skip: "f (xs ! i) \<noteq> k" if "?mid \<le> i" "i < hi" for i
        using mono [of ?mid i] that gt "1.prems"(2) by auto
      have step: "bsearch f k xs lo hi = bsearch f k xs lo ?mid"
        using lohi gt by (auto simp: bsearch.simps [of f k xs lo hi] Let_def)
      have ngt: "\<not> f (xs ! ?mid) < k" and neq: "f (xs ! ?mid) \<noteq> k"
        using gt by auto
      show ?thesis
        using "1.IH"(2) [OF lohi refl neq ngt "1.prems"(1)] mid skip "1.prems"(2)
        unfolding step
        by (auto split: option.splits) (metis linorder_not_less)
    qed
  qed
qed

lemma binary_search_by_iff:
  assumes "sorted (map f xs)"
  shows "(\<exists>i. binary_search_by f k xs = Some i) \<longleftrightarrow> k \<in> f ` set xs"
  using bsearch_correct [OF assms order_refl, where k = k and lo = 0]
  by (fastforce simp: binary_search_by_def in_set_conv_nth split: option.splits)

lemma binary_search_by_Some:
  assumes "sorted (map f xs)" and "binary_search_by f k xs = Some i"
  shows "i < length xs \<and> f (xs ! i) = k"
  using bsearch_correct [OF assms(1) order_refl, where k = k and lo = 0] assms(2)
  by (simp add: binary_search_by_def)

section \<open>Lists\<close>

lemma sort_key_eq_Nil_iff [simp]: "sort_key f xs = [] \<longleftrightarrow> xs = []"
  by (metis length_0_conv length_sort)

lemma sort_cong_mset: "mset xs = mset ys \<Longrightarrow> sort xs = sort ys"
  by (metis mset_sort properties_for_sort sorted_sort)

lemma sort_key_sorted_id: "sorted (map f xs) \<Longrightarrow> sort_key f xs = xs"
  by (induction xs) (auto simp: insort_is_Cons)

lemma sort_key_cong_mset:
  assumes "mset xs = mset ys" and "distinct (map f xs)"
  shows "sort_key f xs = sort_key f ys"
proof -
  have "distinct (map f ys)"
    using assms by (metis mset_eq_imp_distinct_iff mset_map)
  moreover have "inj_on f (set xs)"
    using assms(2) by (simp add: distinct_map)
  ultimately show ?thesis
    using assms by (intro map_sorted_distinct_set_unique [of f])
      (auto simp: distinct_map dest: mset_eq_setD)
qed

section \<open>Chunks\<close>

text \<open>\<open>slice::chunks\<close>, which is only ever called with a positive chunk size.\<close>

function chunks :: "nat \<Rightarrow> 'a list \<Rightarrow> 'a list list" where
  "chunks n xs = (if xs = [] \<or> n = 0 then [] else take n xs # chunks n (drop n xs))"
  by pat_completeness auto
termination
  by (relation "measure (\<lambda>(n, xs). length xs)") auto

declare chunks.simps [simp del]

lemma concat_chunks: "0 < n \<Longrightarrow> concat (chunks n xs) = xs"
proof (induction n xs rule: chunks.induct)
  case (1 n xs)
  then show ?case by (subst chunks.simps) (auto simp del: concat_eq_Nil_conv)
qed

lemma length_chunks: "c \<in> set (chunks n xs) \<Longrightarrow> c \<noteq> [] \<and> length c \<le> n"
proof (induction n xs rule: chunks.induct)
  case (1 n xs)
  then show ?case by (auto simp: chunks.simps [of n xs] split: if_splits)
qed

end
