(* ===== verification/Rust_Text.thy ===== *)
theory Rust_Text
  imports Ballot_Prelude
begin

text \<open>
  Rust's \<open>String\<close> and \<open>&str\<close>: a sequence of bytes that is valid UTF-8. The model keeps the
  bytes, so \<open>len()\<close>, \<open>as_bytes()\<close>, \<open>==\<close> and \<open>cmp\<close> are those of the byte list;
  \<open>core::str::from_utf8\<close> is the decoder below (the well-formed byte sequences of the Unicode
  standard, table 3-7) and \<open>chars()\<close> its result, a list of scalar values.
\<close>

type_synonym rstring = bytes

definition lit :: "string \<Rightarrow> rstring" where
  "lit s = map of_char s"

definition is_cont :: "u8 \<Rightarrow> bool" where
  "is_cont c \<longleftrightarrow> 128 \<le> unat c \<and> unat c \<le> 191"

definition second_ok :: "nat \<Rightarrow> u8 \<Rightarrow> bool" where
  "second_ok n c \<longleftrightarrow>
     (if n = 224 then 160 \<le> unat c \<and> unat c \<le> 191
      else if n = 237 then 128 \<le> unat c \<and> unat c \<le> 159
      else if n = 240 then 144 \<le> unat c \<and> unat c \<le> 191
      else if n = 244 then 128 \<le> unat c \<and> unat c \<le> 143
      else is_cont c)"

fun utf8_decode :: "bytes \<Rightarrow> nat list option" where
  "utf8_decode [] = Some []"
| "utf8_decode (b # bs) =
     (let n = unat b in
      if n < 128 then map_option (Cons n) (utf8_decode bs)
      else if 194 \<le> n \<and> n \<le> 223 then
        (case bs of
           c # r \<Rightarrow>
             if is_cont c
             then map_option (Cons ((n - 192) * 64 + (unat c - 128))) (utf8_decode r)
             else None
         | [] \<Rightarrow> None)
      else if 224 \<le> n \<and> n \<le> 239 then
        (case bs of
           c # d # r \<Rightarrow>
             if second_ok n c \<and> is_cont d
             then map_option (Cons ((n - 224) * 4096 + (unat c - 128) * 64 + (unat d - 128)))
                    (utf8_decode r)
             else None
         | _ \<Rightarrow> None)
      else if 240 \<le> n \<and> n \<le> 244 then
        (case bs of
           c # d # e # r \<Rightarrow>
             if second_ok n c \<and> is_cont d \<and> is_cont e
             then map_option (Cons ((n - 240) * 262144 + (unat c - 128) * 4096
                                    + (unat d - 128) * 64 + (unat e - 128)))
                    (utf8_decode r)
             else None
         | _ \<Rightarrow> None)
      else None)"

definition utf8_valid :: "bytes \<Rightarrow> bool" where
  "utf8_valid bs \<longleftrightarrow> utf8_decode bs \<noteq> None"

text \<open>\<open>chars()\<close> of a string; on bytes that are no string (which Rust's type excludes) it is empty.\<close>

definition chars :: "rstring \<Rightarrow> nat list" where
  "chars s = (case utf8_decode s of Some cs \<Rightarrow> cs | None \<Rightarrow> [])"

text \<open>\<open>char::is_whitespace\<close>: the code points with the Unicode property White\_Space.\<close>

definition is_whitespace :: "nat \<Rightarrow> bool" where
  "is_whitespace c \<longleftrightarrow>
     (9 \<le> c \<and> c \<le> 13) \<or> c = 32 \<or> c = 133 \<or> c = 160 \<or> c = 5760 \<or> (8192 \<le> c \<and> c \<le> 8202)
     \<or> c = 8232 \<or> c = 8233 \<or> c = 8239 \<or> c = 8287 \<or> c = 12288"

text \<open>\<open>str::trim\<close>, on the scalar values, and the test \<open>trim().is_empty()\<close>.\<close>

definition trim_chars :: "nat list \<Rightarrow> nat list" where
  "trim_chars cs = rev (dropWhile is_whitespace (rev (dropWhile is_whitespace cs)))"

definition trim_is_empty :: "rstring \<Rightarrow> bool" where
  "trim_is_empty s \<longleftrightarrow> trim_chars (chars s) = []"

lemma trim_is_empty_iff: "trim_is_empty s \<longleftrightarrow> (\<forall>c \<in> set (chars s). is_whitespace c)"
proof -
  have "dropWhile is_whitespace cs \<noteq> [] \<Longrightarrow>
          \<exists>c \<in> set (dropWhile is_whitespace cs). \<not> is_whitespace c" for cs
    by (metis hd_dropWhile hd_in_set)
  then show ?thesis
    by (auto simp: trim_is_empty_def trim_chars_def dropWhile_eq_Nil_conv
        dest: set_dropWhileD)
qed

lemma trim_is_empty_Nil [simp]: "trim_is_empty []"
  by (simp add: trim_is_empty_def trim_chars_def chars_def)

lemma utf8_decode_ascii:
  "list_all (\<lambda>b. unat b < 128) bs \<Longrightarrow> utf8_decode bs = Some (map unat bs)"
  by (induction bs) auto

lemma utf8_valid_ascii: "list_all (\<lambda>b. unat b < 128) bs \<Longrightarrow> utf8_valid bs"
  by (simp add: utf8_valid_def utf8_decode_ascii)

lemma utf8_valid_Nil [simp]: "utf8_valid []"
  by (simp add: utf8_valid_def)

end
