(* ===== verification/Protocol_Core.thy ===== *)
theory Protocol_Core
  imports Rust_Text
begin

text \<open>
  The protocol crate without its CBOR layer (crates/protocol/src: lib.rs, limits.rs,
  commitment.rs, hashing.rs, scope.rs): validation codes, resource limits, 32-byte commitments,
  domain-separated hash framing, hash providers and the election scope.

  A \<open>ProtocolError\<close> is modelled by its \<open>ValidationCode\<close>; its message is a fixed explanation for
  the code path that no crate inspects. BLAKE3 is third-party code and is an argument of the
  production provider; the test-only provider is modelled in full.
\<close>

unbundle bit_operations_syntax

section \<open>Validation codes\<close>

datatype validation_code =
    UnsupportedProtocolVersion
  | WrongManifestHash
  | UnsupportedProofSuite
  | MalformedProof
  | EmptyNullifier
  | DuplicateNullifier
  | InvalidData
  | ProtocolLimitExceeded
  | InvalidCbor
  | NonCanonicalCbor
  | UnexpectedCborType
  | TrailingCborData
  | EmptyElectionId
  | EmptyProposalQuestion
  | InvalidProposalQuestion
  | NonNfcProposalQuestion
  | EmptyProofSuiteId
  | EmptyGovernanceSourceRevision
  | EmptyRegistry
  | EmptyGovernanceKey
  | DuplicateGovernanceKey
  | EmptyCandidateSet
  | EmptyCandidateId
  | EmptyCandidateDisplayName
  | DuplicateCandidateId
  | CandidateSetCommitmentMismatch
  | InvalidSelectionLimits
  | SelectionCountOutOfRange
  | DuplicateSelection
  | UnknownCandidateId
  | InvalidLifecycleTransition
  | ElectionNotOpen
  | LifecycleCommitmentMismatch
  | InvalidIngestSequence
  | DuplicateBallotDecision
  | BallotDecisionDigestMismatch
  | IncompleteVerificationTranscript
  | EmptyArchiveFileSet
  | EmptyArchivePath
  | InvalidArchivePath
  | DuplicateArchivePath
  | ArchiveFileDigestMismatch
  | EmptyHashAlgorithmId
  | UnsupportedHashAlgorithm
  | InvalidArchiveManifest
  | ArchiveManifestHashMismatch

primrec code_as_str :: "validation_code \<Rightarrow> rstring" where
  "code_as_str UnsupportedProtocolVersion = lit ''UNSUPPORTED_PROTOCOL_VERSION''"
| "code_as_str WrongManifestHash = lit ''WRONG_MANIFEST_HASH''"
| "code_as_str UnsupportedProofSuite = lit ''UNSUPPORTED_PROOF_SUITE''"
| "code_as_str MalformedProof = lit ''MALFORMED_PROOF''"
| "code_as_str EmptyNullifier = lit ''EMPTY_NULLIFIER''"
| "code_as_str DuplicateNullifier = lit ''DUPLICATE_NULLIFIER''"
| "code_as_str InvalidData = lit ''INVALID_DATA''"
| "code_as_str ProtocolLimitExceeded = lit ''PROTOCOL_LIMIT_EXCEEDED''"
| "code_as_str InvalidCbor = lit ''INVALID_CBOR''"
| "code_as_str NonCanonicalCbor = lit ''NON_CANONICAL_CBOR''"
| "code_as_str UnexpectedCborType = lit ''UNEXPECTED_CBOR_TYPE''"
| "code_as_str TrailingCborData = lit ''TRAILING_CBOR_DATA''"
| "code_as_str EmptyElectionId = lit ''EMPTY_ELECTION_ID''"
| "code_as_str EmptyProposalQuestion = lit ''EMPTY_PROPOSAL_QUESTION''"
| "code_as_str InvalidProposalQuestion = lit ''INVALID_PROPOSAL_QUESTION''"
| "code_as_str NonNfcProposalQuestion = lit ''NON_NFC_PROPOSAL_QUESTION''"
| "code_as_str EmptyProofSuiteId = lit ''EMPTY_PROOF_SUITE_ID''"
| "code_as_str EmptyGovernanceSourceRevision = lit ''EMPTY_GOVERNANCE_SOURCE_REVISION''"
| "code_as_str EmptyRegistry = lit ''EMPTY_REGISTRY''"
| "code_as_str EmptyGovernanceKey = lit ''EMPTY_GOVERNANCE_KEY''"
| "code_as_str DuplicateGovernanceKey = lit ''DUPLICATE_GOVERNANCE_KEY''"
| "code_as_str EmptyCandidateSet = lit ''EMPTY_CANDIDATE_SET''"
| "code_as_str EmptyCandidateId = lit ''EMPTY_CANDIDATE_ID''"
| "code_as_str EmptyCandidateDisplayName = lit ''EMPTY_CANDIDATE_DISPLAY_NAME''"
| "code_as_str DuplicateCandidateId = lit ''DUPLICATE_CANDIDATE_ID''"
| "code_as_str CandidateSetCommitmentMismatch = lit ''CANDIDATE_SET_COMMITMENT_MISMATCH''"
| "code_as_str InvalidSelectionLimits = lit ''INVALID_SELECTION_LIMITS''"
| "code_as_str SelectionCountOutOfRange = lit ''SELECTION_COUNT_OUT_OF_RANGE''"
| "code_as_str DuplicateSelection = lit ''DUPLICATE_SELECTION''"
| "code_as_str UnknownCandidateId = lit ''UNKNOWN_CANDIDATE_ID''"
| "code_as_str InvalidLifecycleTransition = lit ''INVALID_LIFECYCLE_TRANSITION''"
| "code_as_str ElectionNotOpen = lit ''ELECTION_NOT_OPEN''"
| "code_as_str LifecycleCommitmentMismatch = lit ''LIFECYCLE_COMMITMENT_MISMATCH''"
| "code_as_str InvalidIngestSequence = lit ''INVALID_INGEST_SEQUENCE''"
| "code_as_str DuplicateBallotDecision = lit ''DUPLICATE_BALLOT_DECISION''"
| "code_as_str BallotDecisionDigestMismatch = lit ''BALLOT_DECISION_DIGEST_MISMATCH''"
| "code_as_str IncompleteVerificationTranscript = lit ''INCOMPLETE_VERIFICATION_TRANSCRIPT''"
| "code_as_str EmptyArchiveFileSet = lit ''EMPTY_ARCHIVE_FILE_SET''"
| "code_as_str EmptyArchivePath = lit ''EMPTY_ARCHIVE_PATH''"
| "code_as_str InvalidArchivePath = lit ''INVALID_ARCHIVE_PATH''"
| "code_as_str DuplicateArchivePath = lit ''DUPLICATE_ARCHIVE_PATH''"
| "code_as_str ArchiveFileDigestMismatch = lit ''ARCHIVE_FILE_DIGEST_MISMATCH''"
| "code_as_str EmptyHashAlgorithmId = lit ''EMPTY_HASH_ALGORITHM_ID''"
| "code_as_str UnsupportedHashAlgorithm = lit ''UNSUPPORTED_HASH_ALGORITHM''"
| "code_as_str InvalidArchiveManifest = lit ''INVALID_ARCHIVE_MANIFEST''"
| "code_as_str ArchiveManifestHashMismatch = lit ''ARCHIVE_MANIFEST_HASH_MISMATCH''"

type_synonym 'a presult = "('a, validation_code) result"

section \<open>Resource limits\<close>

definition MAX_CANONICAL_OBJECT_BYTES :: nat where "MAX_CANONICAL_OBJECT_BYTES = 1048576"
definition MAX_ARCHIVE_PATH_BYTES :: nat where "MAX_ARCHIVE_PATH_BYTES = 1024"
definition MAX_ARCHIVE_FILES :: nat where "MAX_ARCHIVE_FILES = 65536"
definition MAX_HASH_ALGORITHM_ID_BYTES :: nat where "MAX_HASH_ALGORITHM_ID_BYTES = 128"
definition MAX_REGISTRY_MEMBERS :: nat where "MAX_REGISTRY_MEMBERS = 4096"
definition MAX_GOVERNANCE_KEY_BYTES :: nat where "MAX_GOVERNANCE_KEY_BYTES = 128"
definition MAX_CANDIDATES :: nat where "MAX_CANDIDATES = 256"
definition MAX_CANDIDATE_ID_BYTES :: nat where "MAX_CANDIDATE_ID_BYTES = 128"
definition MAX_CANDIDATE_DISPLAY_NAME_BYTES :: nat where "MAX_CANDIDATE_DISPLAY_NAME_BYTES = 512"
definition MAX_ELECTION_ID_BYTES :: nat where "MAX_ELECTION_ID_BYTES = 128"
definition MAX_PROPOSAL_QUESTION_BYTES :: nat where "MAX_PROPOSAL_QUESTION_BYTES = 512"
definition MAX_PROOF_SUITE_ID_BYTES :: nat where "MAX_PROOF_SUITE_ID_BYTES = 128"
definition MAX_GOVERNANCE_REVISION_BYTES :: nat where "MAX_GOVERNANCE_REVISION_BYTES = 256"
definition MAX_PROOF_STATEMENT_BYTES :: nat where "MAX_PROOF_STATEMENT_BYTES = 4096"
definition MAX_BALLOT_KIND_ID_BYTES :: nat where "MAX_BALLOT_KIND_ID_BYTES = 64"
definition MAX_BALLOT_CONFIDENTIALITY_ID_BYTES :: nat where "MAX_BALLOT_CONFIDENTIALITY_ID_BYTES = 64"
definition MAX_PROOF_BYTES :: nat where "MAX_PROOF_BYTES = 65536"
definition MAX_NULLIFIER_BYTES :: nat where "MAX_NULLIFIER_BYTES = 128"

lemmas limits_def =
  MAX_CANONICAL_OBJECT_BYTES_def MAX_ARCHIVE_PATH_BYTES_def MAX_ARCHIVE_FILES_def
  MAX_HASH_ALGORITHM_ID_BYTES_def MAX_REGISTRY_MEMBERS_def MAX_GOVERNANCE_KEY_BYTES_def
  MAX_CANDIDATES_def MAX_CANDIDATE_ID_BYTES_def MAX_CANDIDATE_DISPLAY_NAME_BYTES_def
  MAX_ELECTION_ID_BYTES_def MAX_PROPOSAL_QUESTION_BYTES_def MAX_PROOF_SUITE_ID_BYTES_def
  MAX_GOVERNANCE_REVISION_BYTES_def MAX_PROOF_STATEMENT_BYTES_def MAX_BALLOT_KIND_ID_BYTES_def
  MAX_BALLOT_CONFIDENTIALITY_ID_BYTES_def MAX_PROOF_BYTES_def MAX_NULLIFIER_BYTES_def

definition PROTOCOL_VERSION_V1 :: u16 where "PROTOCOL_VERSION_V1 = 1"

definition TEST_ONLY_SUITE_ID :: rstring where
  "TEST_ONLY_SUITE_ID = lit ''TEST_ONLY_NOT_ANONYMOUS_NOT_FOR_BINDING_ELECTIONS''"

section \<open>Fixed-size byte arrays\<close>

text \<open>\<open>[u8; 32]\<close>; \<open>array32\<close> is \<open><[u8; 32]>::try_from\<close>, \<open>mk32\<close> the array of 32 known bytes.\<close>

typedef bytes32 = "{bs :: bytes. length bs = 32}" morphisms arr_bytes Abs_bytes32
  by (rule exI [of _ "replicate 32 0"]) simp

declare arr_bytes_inverse [code abstype]

definition mk32 :: "bytes \<Rightarrow> bytes32" where
  "mk32 bs = Abs_bytes32 (if length bs = 32 then bs else replicate 32 0)"

lemma arr_bytes_mk32_code [code abstract]:
  "arr_bytes (mk32 bs) = (if length bs = 32 then bs else replicate 32 0)"
  by (simp add: mk32_def Abs_bytes32_inverse)

definition array32 :: "bytes \<Rightarrow> bytes32 option" where
  "array32 bs = (if length bs = 32 then Some (mk32 bs) else None)"

lemma length_arr_bytes [simp]: "length (arr_bytes a) = 32"
  using arr_bytes [of a] by simp

lemma arr_bytes_mk32 [simp]: "length bs = 32 \<Longrightarrow> arr_bytes (mk32 bs) = bs"
  by (simp add: arr_bytes_mk32_code)

lemma mk32_arr_bytes [simp]: "mk32 (arr_bytes a) = a"
  by (simp add: mk32_def arr_bytes_inverse)

lemma array32_arr_bytes [simp]: "array32 (arr_bytes a) = Some a"
  by (simp add: array32_def)

lemma array32_Some_iff: "array32 bs = Some a \<longleftrightarrow> bs = arr_bytes a"
  by (auto simp: array32_def)

lemma arr_bytes_eq_iff [simp]: "arr_bytes a = arr_bytes b \<longleftrightarrow> a = b"
  by (simp add: arr_bytes_inject)

instantiation bytes32 :: equal
begin
definition equal_bytes32 :: "bytes32 \<Rightarrow> bytes32 \<Rightarrow> bool" where
  "equal_bytes32 a b \<longleftrightarrow> arr_bytes a = arr_bytes b"
instance
  by standard (simp add: equal_bytes32_def)
end

instantiation bytes32 :: linorder
begin
definition less_eq_bytes32 :: "bytes32 \<Rightarrow> bytes32 \<Rightarrow> bool" where
  "less_eq_bytes32 a b \<longleftrightarrow> arr_bytes a \<le> arr_bytes b"
definition less_bytes32 :: "bytes32 \<Rightarrow> bytes32 \<Rightarrow> bool" where
  "less_bytes32 a b \<longleftrightarrow> arr_bytes a < arr_bytes b"
instance
  by standard (auto simp: less_eq_bytes32_def less_bytes32_def less_le)
end

datatype manifest_hash = ManifestHash (manifest_hash_bytes: bytes32)
datatype election_scope = ElectionScope (election_scope_bytes: bytes32)
datatype registry_commitment = RegistryCommitment (registry_commitment_bytes: bytes32)
datatype candidate_set_commitment =
  CandidateSetCommitment (candidate_set_commitment_bytes: bytes32)
datatype ballot_payload_hash = BallotPayloadHash (ballot_payload_hash_bytes: bytes32)

section \<open>Hash framing\<close>

definition HASH_FRAME_PREFIX :: bytes where
  "HASH_FRAME_PREFIX = lit ''TARI_CC_PRIVATE_BALLOT_HASH_FRAME_V1''"

datatype hash_domain =
    RegistrySnapshotV1
  | CandidateSetV1
  | ElectionManifestV1
  | ElectionManifestV2
  | ApprovalBallotPayloadV1
  | BallotPackageV1
  | ElectionScopeV1
  | ProofStatementV1
  | ArchiveFileV1
  | ArchiveManifestV1
  | TransportDescriptorV1
  | TransportRetryCapabilityV1
  | TransportBatchLeafV1
  | TransportBatchNodeV1
  | TransportBatchSetV1
  | ElectionStatusStatementV1

primrec domain_label :: "hash_domain \<Rightarrow> rstring" where
  "domain_label RegistrySnapshotV1 = lit ''tari-cc-private-ballot/registry-snapshot/v1''"
| "domain_label CandidateSetV1 = lit ''tari-cc-private-ballot/candidate-set/v1''"
| "domain_label ElectionManifestV1 = lit ''tari-cc-private-ballot/election-manifest/v1''"
| "domain_label ElectionManifestV2 = lit ''tari-cc-private-ballot/election-manifest/v2''"
| "domain_label ApprovalBallotPayloadV1 = lit ''tari-cc-private-ballot/approval-ballot-payload/v1''"
| "domain_label BallotPackageV1 = lit ''tari-cc-private-ballot/ballot-package/v1''"
| "domain_label ElectionScopeV1 = lit ''tari-cc-private-ballot/election-scope/v1''"
| "domain_label ProofStatementV1 = lit ''tari-cc-private-ballot/proof-statement/v1''"
| "domain_label ArchiveFileV1 = lit ''tari-cc-private-ballot/archive-file/v1''"
| "domain_label ArchiveManifestV1 = lit ''tari-cc-private-ballot/archive-manifest/v1''"
| "domain_label TransportDescriptorV1 = lit ''tari-cc-private-ballot/transport-descriptor/v1''"
| "domain_label TransportRetryCapabilityV1 = lit ''tari-cc-private-ballot/transport-retry-capability/v1''"
| "domain_label TransportBatchLeafV1 = lit ''tari-cc-private-ballot/transport-batch-leaf/v1''"
| "domain_label TransportBatchNodeV1 = lit ''tari-cc-private-ballot/transport-batch-node/v1''"
| "domain_label TransportBatchSetV1 = lit ''tari-cc-private-ballot/transport-batch-set/v1''"
| "domain_label ElectionStatusStatementV1 = lit ''tari-cc-private-ballot/election-status/v1''"

text \<open>The trait \<open>HashProvider\<close>: an algorithm identifier and a function on framed bytes.\<close>

record hash_provider =
  hp_algorithm_id :: rstring
  hp_hash :: "bytes \<Rightarrow> bytes32"

definition BLAKE3_256_HASH_ALGORITHM_ID_V1 :: rstring where
  "BLAKE3_256_HASH_ALGORITHM_ID_V1 = lit ''BLAKE3-256/tari-cc-private-ballot/v1''"

text \<open>\<open>Blake3HashProviderV1\<close>, over the third-party function \<open>blake3::hash\<close>.\<close>

definition Blake3HashProviderV1 :: "(bytes \<Rightarrow> bytes32) \<Rightarrow> hash_provider" where
  "Blake3HashProviderV1 blake3 =
     \<lparr>hp_algorithm_id = BLAKE3_256_HASH_ALGORITHM_ID_V1, hp_hash = blake3\<rparr>"

definition domain_separated_input :: "hash_domain \<Rightarrow> bytes \<Rightarrow> bytes" where
  "domain_separated_input d canonical_object_bytes =
     HASH_FRAME_PREFIX @ [0] @ domain_label d @ [0] @ canonical_object_bytes"

definition hash_domain_separated :: "hash_provider \<Rightarrow> hash_domain \<Rightarrow> bytes \<Rightarrow> bytes32" where
  "hash_domain_separated provider d canonical_object_bytes =
     hp_hash provider (domain_separated_input d canonical_object_bytes)"

definition derive_election_scope :: "hash_provider \<Rightarrow> manifest_hash \<Rightarrow> election_scope" where
  "derive_election_scope provider h =
     ElectionScope (hash_domain_separated provider ElectionScopeV1
       (arr_bytes (manifest_hash_bytes h)))"

section \<open>The test-only hash provider\<close>

definition TEST_ONLY_HASH_ALGORITHM_ID :: rstring where
  "TEST_ONLY_HASH_ALGORITHM_ID = lit ''TEST_ONLY_DETERMINISTIC_HASH_NOT_CRYPTOGRAPHIC''"

fun test_hash_absorb :: "nat \<Rightarrow> u64 \<Rightarrow> bytes \<Rightarrow> bytes \<Rightarrow> u64 \<times> bytes" where
  "test_hash_absorb i state out [] = (state, out)"
| "test_hash_absorb i state out (b # bs) =
     (let lane = i mod 32;
          shift = (lane mod 8) * 8;
          s1 = state XOR word_rotl (i mod 64) (ucast b + word_of_nat i);
          s2 = word_rotl 13 s1 * 0x100000001b3;
          cell = out ! lane + ucast (drop_bit shift s2) + word_rotl (lane mod 8) b
      in test_hash_absorb (Suc i) s2 (out[lane := cell]) bs)"

fun test_hash_finish :: "nat \<Rightarrow> u64 \<Rightarrow> bytes \<Rightarrow> bytes" where
  "test_hash_finish lane state [] = []"
| "test_hash_finish lane state (b # bs) =
     (let s1 = state XOR (word_of_nat lane * 0x9e3779b97f4a7c15);
          s2 = word_rotl 17 s1 * 0x94d049bb133111eb
      in (b XOR ucast (drop_bit ((lane mod 8) * 8) s2)) # test_hash_finish (Suc lane) s2 bs)"

definition test_only_hash :: "bytes \<Rightarrow> bytes32" where
  "test_only_hash framed_input =
     (let (state, out) = test_hash_absorb 0 0x9e3779b97f4a7c15 (replicate 32 0) framed_input
      in mk32 (test_hash_finish 0 state out))"

definition TestOnlyDeterministicHasher :: hash_provider where
  "TestOnlyDeterministicHasher =
     \<lparr>hp_algorithm_id = TEST_ONLY_HASH_ALGORITHM_ID, hp_hash = test_only_hash\<rparr>"

lemma length_test_hash_absorb: "length (snd (test_hash_absorb i s out bs)) = length out"
  by (induction i s out bs rule: test_hash_absorb.induct) (simp_all add: Let_def)

lemma length_test_hash_finish: "length (test_hash_finish l s bs) = length bs"
  by (induction l s bs rule: test_hash_finish.induct) (simp_all add: Let_def)

text \<open>The final array conversion of the test-only provider never meets a wrong length.\<close>

lemma test_only_hash_bytes:
  "arr_bytes (test_only_hash bs) =
     (let (state, out) = test_hash_absorb 0 0x9e3779b97f4a7c15 (replicate 32 0) bs
      in test_hash_finish 0 state out)"
  using length_test_hash_absorb [of 0 "0x9e3779b97f4a7c15" "replicate 32 0" bs]
  by (auto simp: test_only_hash_def length_test_hash_finish split: prod.splits)

section \<open>Domain separation\<close>

text \<open>
  No label contains the separator byte and the labels are pairwise different, so a frame
  determines its domain and its object bytes.
\<close>

lemma domain_label_no_zero: "0 \<notin> set (domain_label d)"
  by (cases d) (simp_all add: lit_def)

lemma frame_prefix_no_zero: "0 \<notin> set HASH_FRAME_PREFIX"
  by (simp add: HASH_FRAME_PREFIX_def lit_def)

definition all_domains :: "hash_domain list" where
  "all_domains = [RegistrySnapshotV1, CandidateSetV1, ElectionManifestV1, ElectionManifestV2, ApprovalBallotPayloadV1, BallotPackageV1,
     ElectionScopeV1, ProofStatementV1, ArchiveFileV1, ArchiveManifestV1, TransportDescriptorV1,
     TransportRetryCapabilityV1, TransportBatchLeafV1, TransportBatchNodeV1, TransportBatchSetV1, ElectionStatusStatementV1]"

lemma in_all_domains: "d \<in> set all_domains"
  by (cases d) (simp_all add: all_domains_def)

lemma distinct_domain_labels: "distinct (map domain_label all_domains)"
  by code_simp

lemma domain_label_inject: "domain_label d = domain_label e \<longleftrightarrow> d = e"
  using distinct_domain_labels in_all_domains [of d] in_all_domains [of e]
  by (auto simp: distinct_map inj_on_def)

lemma split_at_zero:
  assumes "a @ 0 # x = b @ 0 # y" and "0 \<notin> set a" and "0 \<notin> set b"
  shows "a = b \<and> x = (y :: bytes)"
  using assms
proof (induction a arbitrary: b)
  case Nil
  then show ?case by (cases b) auto
next
  case (Cons c a)
  then show ?case by (cases b) auto
qed

lemma domain_separated_input_eq_iff:
  "domain_separated_input d x = domain_separated_input e y \<longleftrightarrow> d = e \<and> x = y"
  using split_at_zero [of "domain_label d" x "domain_label e" y]
  by (auto simp: domain_separated_input_def domain_label_no_zero domain_label_inject)

text \<open>
  Equal digests of two different (domain, object) pairs exhibit a collision of the hash
  function itself: the two frames are different and hash to the same value.
\<close>

definition is_collision :: "(bytes \<Rightarrow> bytes32) \<Rightarrow> bytes \<Rightarrow> bytes \<Rightarrow> bool" where
  "is_collision h x y \<longleftrightarrow> x \<noteq> y \<and> h x = h y"

lemma hash_domain_separated_collision:
  assumes "hash_domain_separated p d x = hash_domain_separated p e y"
    and "(d, x) \<noteq> (e, y)"
  shows "is_collision (hp_hash p) (domain_separated_input d x) (domain_separated_input e y)"
  using assms by (auto simp: is_collision_def hash_domain_separated_def domain_separated_input_eq_iff)

text \<open>
  The hash function collides on the framed encodings of two given objects. Binding theorems name the
  colliding inputs: that some collision exists holds of every function to 32 bytes.
\<close>

definition encodings_collide ::
  "hash_provider \<Rightarrow> hash_domain \<Rightarrow> bytes presult \<Rightarrow> hash_domain \<Rightarrow> bytes presult \<Rightarrow> bool" where
  "encodings_collide p d r e r' \<longleftrightarrow>
     (\<exists>bs cs. r = Ok bs \<and> r' = Ok cs
        \<and> is_collision (hp_hash p) (domain_separated_input d bs) (domain_separated_input e cs))"

end
