(* ===== verification/Cbor.thy ===== *)
theory Cbor
  imports Protocol_Core
begin

text \<open>
  Deterministic CBOR (crates/protocol/src/cbor.rs): the canonical writer, the strict reader, and
  the contract between them. The reader keeps the whole input and an offset, as in the code; a
  read returns the value with the advanced reader. \<open>cbor_codec\<close> is the interface the object
  codecs of the other crates are built on: a reader routine that accepts exactly the encodings a
  writer routine produces.
\<close>

unbundle bit_operations_syntax

section \<open>Arguments\<close>

definition MAJOR_UNSIGNED :: u8 where "MAJOR_UNSIGNED = 0"
definition MAJOR_BYTE_STRING :: u8 where "MAJOR_BYTE_STRING = 2"
definition MAJOR_TEXT_STRING :: u8 where "MAJOR_TEXT_STRING = 3"
definition MAJOR_ARRAY :: u8 where "MAJOR_ARRAY = 4"
definition MAJOR_MAP :: u8 where "MAJOR_MAP = 5"

lemmas major_defs =
  MAJOR_UNSIGNED_def MAJOR_BYTE_STRING_def MAJOR_TEXT_STRING_def MAJOR_ARRAY_def MAJOR_MAP_def

text \<open>\<open>to_be_bytes\<close> of an integer of \<open>n\<close> bytes, and \<open>from_be_bytes\<close>.\<close>

primrec be_bytes :: "nat \<Rightarrow> nat \<Rightarrow> bytes" where
  "be_bytes 0 v = []"
| "be_bytes (Suc n) v = word_of_nat (v div 256 ^ n) # be_bytes n v"

primrec from_be_bytes :: "bytes \<Rightarrow> nat" where
  "from_be_bytes [] = 0"
| "from_be_bytes (b # bs) = unat b * 256 ^ length bs + from_be_bytes bs"

definition encode_argument :: "u8 \<Rightarrow> u64 \<Rightarrow> bytes \<Rightarrow> bytes" where
  "encode_argument major value output =
     (if value \<le> 23 then output @ [push_bit 5 major OR ucast value]
      else if value \<le> 255 then output @ [push_bit 5 major OR 24] @ [ucast value]
      else if value \<le> 65535 then output @ [push_bit 5 major OR 25] @ be_bytes 2 (unat value)
      else if value \<le> 4294967295 then output @ [push_bit 5 major OR 26] @ be_bytes 4 (unat value)
      else output @ [push_bit 5 major OR 27] @ be_bytes 8 (unat value))"

section \<open>Writer\<close>

record cbor_writer =
  w_output :: bytes

definition new_writer :: cbor_writer where
  "new_writer = \<lparr>w_output = []\<rparr>"

definition into_bytes :: "cbor_writer \<Rightarrow> bytes" where
  "into_bytes w = w_output w"

definition write_unsigned :: "u64 \<Rightarrow> cbor_writer \<Rightarrow> cbor_writer" where
  "write_unsigned value w = w\<lparr>w_output := encode_argument MAJOR_UNSIGNED value (w_output w)\<rparr>"

definition write_byte_string :: "bytes \<Rightarrow> cbor_writer \<Rightarrow> cbor_writer presult" where
  "write_byte_string value w =
     and_then (ok_or InvalidCbor (u64_of_usize (length value))) (\<lambda>len.
     Ok (w\<lparr>w_output := encode_argument MAJOR_BYTE_STRING len (w_output w) @ value\<rparr>))"

definition write_text_string :: "rstring \<Rightarrow> cbor_writer \<Rightarrow> cbor_writer presult" where
  "write_text_string value w =
     and_then (ok_or InvalidCbor (u64_of_usize (length value))) (\<lambda>len.
     Ok (w\<lparr>w_output := encode_argument MAJOR_TEXT_STRING len (w_output w) @ value\<rparr>))"

definition write_array_len :: "nat \<Rightarrow> cbor_writer \<Rightarrow> cbor_writer presult" where
  "write_array_len len w =
     and_then (ok_or InvalidCbor (u64_of_usize len)) (\<lambda>len.
     Ok (w\<lparr>w_output := encode_argument MAJOR_ARRAY len (w_output w)\<rparr>))"

definition write_map_len :: "nat \<Rightarrow> cbor_writer \<Rightarrow> cbor_writer presult" where
  "write_map_len len w =
     and_then (ok_or InvalidCbor (u64_of_usize len)) (\<lambda>len.
     Ok (w\<lparr>w_output := encode_argument MAJOR_MAP len (w_output w)\<rparr>))"

definition write_bool :: "bool \<Rightarrow> cbor_writer \<Rightarrow> cbor_writer" where
  "write_bool value w = w\<lparr>w_output := w_output w @ [if value then 0xf5 else 0xf4]\<rparr>"

section \<open>Reader\<close>

record cbor_reader =
  r_input :: bytes
  r_offset :: nat

type_synonym 'a read = "('a \<times> cbor_reader) presult"

definition new_reader :: "bytes \<Rightarrow> cbor_reader" where
  "new_reader bs = \<lparr>r_input = bs, r_offset = 0\<rparr>"

definition finish :: "cbor_reader \<Rightarrow> unit presult" where
  "finish r = (if r_offset r \<noteq> length (r_input r) then Err TrailingCborData else Ok ())"

definition read_byte :: "cbor_reader \<Rightarrow> u8 read" where
  "read_byte r =
     (if r_offset r < length (r_input r) then Ok (r_input r ! r_offset r, r\<lparr>r_offset := r_offset r + 1\<rparr>)
      else Err InvalidCbor)"

text \<open>\<open>input.get(offset..end)\<close>: the slice, when \<open>offset \<le> end \<le> len\<close>.\<close>

definition get_slice :: "bytes \<Rightarrow> nat \<Rightarrow> nat \<Rightarrow> bytes option" where
  "get_slice bs lo hi =
     (if lo \<le> hi \<and> hi \<le> length bs then Some (take (hi - lo) (drop lo bs)) else None)"

definition read_exact :: "nat \<Rightarrow> cbor_reader \<Rightarrow> bytes read" where
  "read_exact len r =
     and_then (ok_or InvalidCbor (checked_add_usize (r_offset r) len)) (\<lambda>stop.
     and_then (ok_or InvalidCbor (get_slice (r_input r) (r_offset r) stop)) (\<lambda>slice.
     Ok (slice, r\<lparr>r_offset := stop\<rparr>)))"

definition take_bytes :: "u64 \<Rightarrow> cbor_reader \<Rightarrow> bytes read" where
  "take_bytes len r =
     and_then (ok_or InvalidCbor (usize_of_u64 len)) (\<lambda>len.
     and_then (ok_or InvalidCbor (checked_add_usize (r_offset r) len)) (\<lambda>stop.
     and_then (ok_or InvalidCbor (get_slice (r_input r) (r_offset r) stop)) (\<lambda>slice.
     Ok (slice, r\<lparr>r_offset := stop\<rparr>))))"

definition read_argument :: "u8 \<Rightarrow> cbor_reader \<Rightarrow> u64 read" where
  "read_argument expected_major r =
     and_then (read_byte r) (\<lambda>(initial, r).
     let major = drop_bit 5 initial; additional = initial AND 0x1f in
     if major \<noteq> expected_major then Err UnexpectedCborType
     else if additional \<le> 23 then Ok (ucast additional, r)
     else if additional = 24 then
       and_then (read_byte r) (\<lambda>(b, r).
       let value = ucast b :: u64 in
       if value < 24 then Err NonCanonicalCbor else Ok (value, r))
     else if additional = 25 then
       and_then (read_exact 2 r) (\<lambda>(bs, r).
       let value = word_of_nat (from_be_bytes bs) :: u64 in
       if value \<le> 255 then Err NonCanonicalCbor else Ok (value, r))
     else if additional = 26 then
       and_then (read_exact 4 r) (\<lambda>(bs, r).
       let value = word_of_nat (from_be_bytes bs) :: u64 in
       if value \<le> 65535 then Err NonCanonicalCbor else Ok (value, r))
     else if additional = 27 then
       and_then (read_exact 8 r) (\<lambda>(bs, r).
       let value = word_of_nat (from_be_bytes bs) :: u64 in
       if value \<le> 4294967295 then Err NonCanonicalCbor else Ok (value, r))
     else if additional = 31 then Err NonCanonicalCbor
     else Err InvalidCbor)"

definition read_unsigned :: "cbor_reader \<Rightarrow> u64 read" where
  "read_unsigned r = read_argument MAJOR_UNSIGNED r"

definition read_byte_string :: "cbor_reader \<Rightarrow> bytes read" where
  "read_byte_string r =
     and_then (read_argument MAJOR_BYTE_STRING r) (\<lambda>(len, r). take_bytes len r)"

definition read_text_string :: "cbor_reader \<Rightarrow> rstring read" where
  "read_text_string r =
     and_then (read_argument MAJOR_TEXT_STRING r) (\<lambda>(len, r).
     and_then (take_bytes len r) (\<lambda>(bs, r).
     if utf8_valid bs then Ok (bs, r) else Err InvalidCbor))"

definition read_array_len :: "cbor_reader \<Rightarrow> nat read" where
  "read_array_len r =
     and_then (read_argument MAJOR_ARRAY r) (\<lambda>(len, r).
     and_then (ok_or InvalidCbor (usize_of_u64 len)) (\<lambda>n. Ok (n, r)))"

definition read_map_len :: "cbor_reader \<Rightarrow> nat read" where
  "read_map_len r =
     and_then (read_argument MAJOR_MAP r) (\<lambda>(len, r).
     and_then (ok_or InvalidCbor (usize_of_u64 len)) (\<lambda>n. Ok (n, r)))"

definition read_bool :: "cbor_reader \<Rightarrow> bool read" where
  "read_bool r =
     and_then (read_byte r) (\<lambda>(initial, r).
     if initial = 0xf4 then Ok (False, r)
     else if initial = 0xf5 then Ok (True, r)
     else Err UnexpectedCborType)"

text \<open>The loop \<open>for _ in 0..n { out.push(f(reader)?) }\<close> of the object decoders.\<close>

primrec read_many :: "(cbor_reader \<Rightarrow> 'a read) \<Rightarrow> nat \<Rightarrow> cbor_reader \<Rightarrow> 'a list read" where
  "read_many f 0 r = Ok ([], r)"
| "read_many f (Suc n) r =
     and_then (f r) (\<lambda>(x, r). and_then (read_many f n r) (\<lambda>(xs, r). Ok (x # xs, r)))"

text \<open>The loop \<open>for x in xs { write(x)? }\<close> of the object encoders.\<close>

primrec write_all :: "('a \<Rightarrow> cbor_writer \<Rightarrow> cbor_writer presult) \<Rightarrow> 'a list \<Rightarrow> cbor_writer \<Rightarrow> cbor_writer presult" where
  "write_all f [] w = Ok w"
| "write_all f (x # xs) w = and_then (f x w) (write_all f xs)"

section \<open>Big-endian integers\<close>

lemma u8_exhaust:
  assumes "list_all (\<lambda>n. P (word_of_nat n)) [0..<256]"
  shows "P (b :: u8)"
proof -
  have "unat b \<in> set [0..<256]" using unsigned_less [of b, where 'a = nat] by simp
  with assms have "P (word_of_nat (unat b))" unfolding list_all_iff by (rule bspec)
  then show ?thesis by simp
qed

lemma length_be_bytes [simp]: "length (be_bytes n v) = n"
  by (induction n) simp_all

lemma unat_u8_bound: "unat (b :: u8) < 256"
  using unsigned_less [of b, where 'a = nat] by simp

lemma from_be_bytes_bound: "from_be_bytes bs < 256 ^ length bs"
proof (induction bs)
  case (Cons b bs)
  have "unat b * 256 ^ length bs + from_be_bytes bs < (unat b + 1) * 256 ^ length bs"
    using Cons by simp
  also have "\<dots> \<le> 256 * 256 ^ length bs"
    using unat_u8_bound [of b] by (intro mult_right_mono) auto
  finally show ?case by simp
qed simp

lemma unat_word_of_nat_u8: "unat (word_of_nat n :: u8) = n mod 256"
  by (simp add: unat_of_nat take_bit_eq_mod)

lemma from_be_be_mod: "from_be_bytes (be_bytes n v) = v mod 256 ^ n"
proof (induction n)
  case (Suc n)
  have "v mod 256 ^ Suc n = (v div 256 ^ n mod 256) * 256 ^ n + v mod 256 ^ n"
    by (metis mod_mult2_eq mult.commute power_Suc add.commute)
  then show ?case using Suc by (simp add: unat_word_of_nat_u8)
qed simp

lemma from_be_be [simp]: "v < 256 ^ n \<Longrightarrow> from_be_bytes (be_bytes n v) = v"
  by (simp add: from_be_be_mod)

lemma from_be_bytes_inj:
  "length as = length bs \<Longrightarrow> from_be_bytes as = from_be_bytes bs \<Longrightarrow> as = bs"
proof (induction as bs rule: list_induct2)
  case (Cons a as b bs)
  let ?m = "256 ^ length bs :: nat"
  have eq: "unat a * ?m + from_be_bytes as = unat b * ?m + from_be_bytes bs"
    using Cons by simp
  have bd: "from_be_bytes as < ?m" "from_be_bytes bs < ?m"
    using from_be_bytes_bound [of as] from_be_bytes_bound [of bs] Cons.hyps by simp_all
  have "(unat a * ?m + from_be_bytes as) div ?m = unat a"
    "(unat b * ?m + from_be_bytes bs) div ?m = unat b"
    using bd by simp_all
  with eq have "unat a = unat b" by metis
  with eq Cons.IH show ?case by (simp add: word_unat_eq_iff)
qed simp

lemma be_from_be [simp]: "be_bytes (length bs) (from_be_bytes bs) = bs"
  using from_be_bytes_bound [of bs] by (intro from_be_bytes_inj) simp_all

lemma be_from_be_length: "length bs = n \<Longrightarrow> be_bytes n (from_be_bytes bs) = bs"
  using be_from_be [of bs] by simp

section \<open>Initial bytes\<close>

lemma initial_byte_join: "push_bit 5 (drop_bit 5 b) OR (b AND 31) = (b :: u8)"
  by (rule u8_exhaust) code_simp

lemma initial_byte_bounds: "unat (b AND 31 :: u8) < 32 \<and> unat (drop_bit 5 b :: u8) < 8"
  by (rule u8_exhaust [where P = "\<lambda>b. unat (b AND 31) < 32 \<and> unat (drop_bit 5 b) < 8"]) code_simp

lemma initial_byte_table:
  "list_all (\<lambda>m. list_all (\<lambda>a.
      drop_bit 5 (push_bit 5 (word_of_nat m) OR word_of_nat a) = (word_of_nat m :: u8)
      \<and> (push_bit 5 (word_of_nat m) OR word_of_nat a) AND 31 = (word_of_nat a :: u8)) [0..<32]) [0..<8]"
  by code_simp

lemma initial_byte_split:
  assumes "unat (m :: u8) < 8" and "unat (a :: u8) < 32"
  shows "drop_bit 5 (push_bit 5 m OR a) = m" and "(push_bit 5 m OR a) AND 31 = a"
proof -
  have "unat m \<in> set [0..<8]" "unat a \<in> set [0..<32]" using assms by auto
  then have "drop_bit 5 (push_bit 5 (word_of_nat (unat m)) OR word_of_nat (unat a)) = (word_of_nat (unat m) :: u8)
      \<and> (push_bit 5 (word_of_nat (unat m)) OR word_of_nat (unat a)) AND 31 = (word_of_nat (unat a) :: u8)"
    using initial_byte_table unfolding list_all_iff by blast
  then show "drop_bit 5 (push_bit 5 m OR a) = m" and "(push_bit 5 m OR a) AND 31 = a"
    by simp_all
qed

section \<open>Reader positions\<close>

text \<open>
  \<open>rd pre rest\<close> is the reader that has consumed \<open>pre\<close> and has \<open>rest\<close> ahead of it; \<open>fits\<close> says
  that a byte sequence is one a \<open>usize\<close> can index, as every Rust slice is.
\<close>

definition rd :: "bytes \<Rightarrow> bytes \<Rightarrow> cbor_reader" where
  "rd pre rest = \<lparr>r_input = pre @ rest, r_offset = length pre\<rparr>"

definition fits :: "bytes \<Rightarrow> bool" where
  "fits bs \<longleftrightarrow> length bs \<le> usize_max"

lemma new_reader_rd: "new_reader bs = rd [] bs"
  by (simp add: new_reader_def rd_def)

lemma finish_rd [simp]: "finish (rd pre rest) = (if rest = [] then Ok () else Err TrailingCborData)"
  by (simp add: finish_def rd_def)

lemma read_byte_rd [simp]:
  "read_byte (rd pre []) = Err InvalidCbor"
  "read_byte (rd pre (b # rest)) = Ok (b, rd (pre @ [b]) rest)"
  by (simp_all add: read_byte_def rd_def nth_append)

lemma read_byte_Ok:
  "read_byte (rd pre bs) = Ok (b, r) \<longleftrightarrow> (\<exists>rest. bs = b # rest \<and> r = rd (pre @ [b]) rest)"
  by (cases bs) auto

lemma read_exact_rd:
  "read_exact (length v) (rd pre (v @ rest)) =
     (if length pre + length v \<le> usize_max then Ok (v, rd (pre @ v) rest) else Err InvalidCbor)"
  by (simp add: read_exact_def rd_def checked_add_usize_def get_slice_def)

lemma read_exact_Ok:
  assumes "read_exact n (rd pre bs) = Ok (v, r)"
  shows "length v = n \<and> (\<exists>rest. bs = v @ rest \<and> r = rd (pre @ v) rest)"
proof -
  from assms have n: "n \<le> length bs" and v: "v = take n bs"
    and r: "r = \<lparr>r_input = pre @ bs, r_offset = length pre + n\<rparr>"
    by (auto simp: read_exact_def rd_def checked_add_usize_def get_slice_def result_inv
        split: if_splits)
  then show ?thesis
    by (intro conjI exI [of _ "drop n bs"]) (simp_all add: rd_def)
qed

lemma take_bytes_read_exact: "take_bytes len r = read_exact (unat len) r"
  by (simp add: take_bytes_def read_exact_def)

section \<open>Codecs\<close>

text \<open>
  A reading routine \<open>rd_item\<close> is the strict decoder of the encoding \<open>enc\<close> on the values \<open>ok\<close>: it
  reads back what was written, wherever it stands in the input, and it accepts nothing else.
\<close>

locale cbor_codec =
  fixes rd_item :: "cbor_reader \<Rightarrow> 'v read" and enc :: "'v \<Rightarrow> bytes" and ok :: "'v \<Rightarrow> bool"
  assumes read_enc: "ok v \<Longrightarrow> fits (pre @ enc v @ rest) \<Longrightarrow>
      rd_item (rd pre (enc v @ rest)) = Ok (v, rd (pre @ enc v) rest)"
    and enc_read: "rd_item (rd pre bs) = Ok (v, r) \<Longrightarrow>
      ok v \<and> (\<exists>rest. bs = enc v @ rest \<and> r = rd (pre @ enc v) rest)"
begin

lemma read_enc_end:
  "ok v \<Longrightarrow> fits (pre @ enc v) \<Longrightarrow> rd_item (rd pre (enc v)) = Ok (v, rd (pre @ enc v) [])"
  using read_enc [of v pre "[]"] by simp

text \<open>No encoding is a proper prefix of another and equal encodings have equal values.\<close>

lemma prefix_free:
  assumes "ok v" and "ok w" and "enc v @ s = enc w @ t" and "fits (enc v @ s)"
  shows "v = w \<and> s = t"
  using read_enc [of v "[]" s] read_enc [of w "[]" t] assms by (auto simp: rd_def)

lemma read_many_enc:
  assumes "list_all ok vs" and "fits (pre @ concat (map enc vs) @ rest)"
  shows "read_many rd_item (length vs) (rd pre (concat (map enc vs) @ rest))
         = Ok (vs, rd (pre @ concat (map enc vs)) rest)"
  using assms
proof (induction vs arbitrary: pre)
  case (Cons v vs)
  then show ?case using Cons.IH [of "pre @ enc v"] by (simp add: read_enc)
qed simp

lemma enc_read_many:
  assumes "read_many rd_item n (rd pre bs) = Ok (vs, r)"
  shows "(length vs = n \<and> list_all ok vs) \<and>
    (\<exists>rest. bs = concat (map enc vs) @ rest \<and> r = rd (pre @ concat (map enc vs)) rest)"
  using assms
proof (induction n arbitrary: pre bs vs)
  case (Suc n)
  from Suc.prems obtain v r1 vs' where
    v: "rd_item (rd pre bs) = Ok (v, r1)" and
    vs': "read_many rd_item n r1 = Ok (vs', r)" and vs: "vs = v # vs'"
    by (auto simp: result_inv)
  from enc_read [OF v] obtain rest where
    "ok v" "bs = enc v @ rest" "r1 = rd (pre @ enc v) rest" by blast
  with Suc.IH [of "pre @ enc v" rest vs'] vs vs' show ?case by auto
qed simp

text \<open>An item passed through a checking constructor.\<close>

lemma codec_validated:
  assumes new: "\<And>v w. new v = Ok w \<longleftrightarrow> valid w \<and> v = proj w" and ok: "\<And>w. valid w \<Longrightarrow> ok (proj w)"
  shows "cbor_codec (\<lambda>r. and_then (rd_item r) (\<lambda>(v, r). and_then (new v) (\<lambda>w. Ok (w, r))))
           (\<lambda>w. enc (proj w)) valid"
  by unfold_locales (auto simp: result_inv read_enc ok new dest!: enc_read)

lemma codec_read_many:
  "cbor_codec (read_many rd_item n) (\<lambda>vs. concat (map enc vs)) (\<lambda>vs. length vs = n \<and> list_all ok vs)"
  by unfold_locales (use read_many_enc enc_read_many in blast)+

end

section \<open>The argument codec\<close>

definition enc_arg :: "u8 \<Rightarrow> u64 \<Rightarrow> bytes" where
  "enc_arg major v = encode_argument major v []"

lemma encode_argument_append: "encode_argument major v out = out @ enc_arg major v"
  by (simp add: enc_arg_def encode_argument_def)

lemma initial_byte_read:
  assumes "unat (m :: u8) < 8" and "unat (a :: u8) < 32"
  shows "read_argument m (rd pre ((push_bit 5 m OR a) # bs)) =
     (let r = rd (pre @ [push_bit 5 m OR a]) bs in
     if a \<le> 23 then Ok (ucast a, r)
     else if a = 24 then
       and_then (read_byte r) (\<lambda>(b, r).
       if (ucast b :: u64) < 24 then Err NonCanonicalCbor else Ok (ucast b, r))
     else if a = 25 then
       and_then (read_exact 2 r) (\<lambda>(bs, r).
       if (word_of_nat (from_be_bytes bs) :: u64) \<le> 255 then Err NonCanonicalCbor
       else Ok (word_of_nat (from_be_bytes bs), r))
     else if a = 26 then
       and_then (read_exact 4 r) (\<lambda>(bs, r).
       if (word_of_nat (from_be_bytes bs) :: u64) \<le> 65535 then Err NonCanonicalCbor
       else Ok (word_of_nat (from_be_bytes bs), r))
     else if a = 27 then
       and_then (read_exact 8 r) (\<lambda>(bs, r).
       if (word_of_nat (from_be_bytes bs) :: u64) \<le> 4294967295 then Err NonCanonicalCbor
       else Ok (word_of_nat (from_be_bytes bs), r))
     else if a = 31 then Err NonCanonicalCbor
     else Err InvalidCbor)"
  using initial_byte_split [OF assms]
  by (simp add: read_argument_def Let_def)

lemma read_exact_append:
  assumes "fits (pre @ v @ rest)" "length v = n"
  shows "read_exact n (rd pre (v @ rest)) = Ok (v, rd (pre @ v) rest)"
  using assms read_exact_rd [of v pre rest] by (auto simp: fits_def)

lemma u64_le_iff: "(v :: u64) \<le> w \<longleftrightarrow> unat v \<le> unat w"
  by (simp add: word_le_nat_alt)

lemma unat_ucast_u64_u8: "unat v < 256 \<Longrightarrow> unat (ucast (v :: u64) :: u8) = unat v"
  by (simp add: unsigned_ucast_eq unsigned_take_bit_eq take_bit_nat_eq_self)

lemma unat_ucast_u8_u64: "unat (ucast (b :: u8) :: u64) = unat b"
  using unat_u8_bound [of b]
  by (simp add: unsigned_ucast_eq unsigned_take_bit_eq take_bit_nat_eq_self)

lemma ucast_u64_u8: "v \<le> (255 :: u64) \<Longrightarrow> ucast (ucast v :: u8) = v"
  by (simp add: word_unat_eq_iff u64_le_iff unat_ucast_u64_u8 unat_ucast_u8_u64)

lemma ucast_u8_u64 [simp]: "ucast (ucast b :: u64) = (b :: u8)"
  using unat_u8_bound [of b]
  by (simp add: word_unat_eq_iff unat_ucast_u64_u8 unat_ucast_u8_u64)

lemma unat_u8_le [simp]: "unat (b :: u8) \<le> 255"
  using unat_u8_bound [of b] by simp

lemma ucast_u8_small: "v \<le> (23 :: u64) \<Longrightarrow> unat (ucast v :: u8) = unat v"
  by (simp add: u64_le_iff unat_ucast_u64_u8)

lemma read_argument_enc:
  assumes m: "unat m < 8" and "fits (pre @ enc_arg m v @ rest)"
  shows "read_argument m (rd pre (enc_arg m v @ rest)) = Ok (v, rd (pre @ enc_arg m v) rest)"
proof -
  have v: "unat v < 256 ^ 8" using unat_u64_bound [of v] by simp
  consider "v \<le> 23" | "\<not> v \<le> 23" "v \<le> 255" | "\<not> v \<le> 255" "v \<le> 65535"
    | "\<not> v \<le> 65535" "v \<le> 4294967295" | "\<not> v \<le> 4294967295" by blast
  then show ?thesis
  proof cases
    case 1
    then have "unat (ucast v :: u8) < 32" "(ucast v :: u8) \<le> 23"
      using ucast_u8_small [OF 1] by (auto simp: word_le_nat_alt u64_le_iff)
    moreover have "ucast (ucast v :: u8) = v" using 1 ucast_u64_u8 [of v] by (simp add: u64_le_iff)
    ultimately show ?thesis using 1 m by (simp add: enc_arg_def encode_argument_def initial_byte_read)
  next
    case 2
    then show ?thesis using m
      by (simp add: enc_arg_def encode_argument_def initial_byte_read ucast_u64_u8 word_less_nat_alt u64_le_iff)
  next
    case 3
    moreover from 3 have "\<not> v \<le> 23" by (simp add: u64_le_iff)
    ultimately show ?thesis using m assms(2)
      by (simp add: enc_arg_def encode_argument_def initial_byte_read read_exact_append u64_le_iff)
  next
    case 4
    moreover from 4 have "\<not> v \<le> 23" "\<not> v \<le> 255" by (simp_all add: u64_le_iff)
    ultimately show ?thesis using m assms(2)
      by (simp add: enc_arg_def encode_argument_def initial_byte_read read_exact_append u64_le_iff)
  next
    case 5
    moreover from 5 have "\<not> v \<le> 23" "\<not> v \<le> 255" "\<not> v \<le> 65535" by (simp_all add: u64_le_iff)
    ultimately show ?thesis using m assms(2) v
      by (simp add: enc_arg_def encode_argument_def initial_byte_read read_exact_append u64_le_iff)
  qed
qed

lemma from_be_bytes_u64:
  assumes "length ds \<le> 8"
  shows "unat (word_of_nat (from_be_bytes ds) :: u64) = from_be_bytes ds"
proof -
  have "(256 :: nat) ^ length ds \<le> 256 ^ 8" using assms by (intro power_increasing) auto
  then have "from_be_bytes ds < 2 ^ 64" using from_be_bytes_bound [of ds] by simp
  then show ?thesis by (simp add: unat_of_nat take_bit_nat_eq_self)
qed

lemma read_argument_Ok:
  assumes "read_argument m (rd pre bs) = Ok (v, r)"
  shows "\<exists>rest. bs = enc_arg m v @ rest \<and> r = rd (pre @ enc_arg m v) rest"
proof -
  obtain b cs where bs: "bs = b # cs" using assms by (cases bs) (auto simp: read_argument_def)
  define a where "a = b AND 31"
  have m: "drop_bit 5 b = m" using assms bs by (auto simp: read_argument_def Let_def split: if_splits)
  have b: "b = push_bit 5 m OR a" using initial_byte_join [of b] m by (simp add: a_def)
  have bd: "unat m < 8" "unat a < 32" using initial_byte_bounds [of b] m by (simp_all add: a_def)
  note red = assms [unfolded bs b initial_byte_read [OF bd] Let_def]
  have be: "unat v < 256 ^ n \<and> (\<exists>rest. cs = be_bytes n (unat v) @ rest \<and> r = rd (pre @ b # be_bytes n (unat v)) rest)"
    if "read_exact n (rd (pre @ [push_bit 5 m OR a]) cs) = Ok (ds, r)"
      "v = word_of_nat (from_be_bytes ds)" "n \<le> 8" for n ds
    using read_exact_Ok [OF that(1)] be_from_be_length [of ds n] from_be_bytes_u64 [of ds] that b
      from_be_bytes_bound [of ds]
    by auto
  consider "a \<le> 23" | "a = 24" | "a = 25" | "a = 26" | "a = 27"
    using red by (auto split: if_splits)
  then show ?thesis
  proof cases
    case 1
    then have "unat a \<le> 23" by (simp add: word_le_nat_alt)
    then show ?thesis using red bs b 1
      by (auto simp: enc_arg_def encode_argument_def u64_le_iff unat_ucast_u8_u64)
  next
    case 2
    then obtain c rest where "cs = c # rest" "v = ucast c" "\<not> unat c \<le> 23"
      "r = rd (pre @ [b, c]) rest"
      using red b by (auto simp: result_inv read_byte_Ok word_less_nat_alt unat_ucast_u8_u64
          split: if_splits)
    with 2 show ?thesis using bs b
      by (simp add: enc_arg_def encode_argument_def u64_le_iff unat_ucast_u8_u64)
  next
    case 3
    then obtain ds where ds: "read_exact 2 (rd (pre @ [push_bit 5 m OR a]) cs) = Ok (ds, r)"
        "v = word_of_nat (from_be_bytes ds)" and "\<not> v \<le> 255"
      using red by (auto simp: result_inv split: if_splits)
    moreover note be [OF ds]
    ultimately have lo: "255 < unat v" and "unat v < 256 ^ 2"
      and "\<exists>rest. cs = be_bytes 2 (unat v) @ rest \<and> r = rd (pre @ b # be_bytes 2 (unat v)) rest"
      by (simp_all add: u64_le_iff)
    with 3 show ?thesis using bs b
      by (auto simp: enc_arg_def encode_argument_def u64_le_iff)
  next
    case 4
    then obtain ds where ds: "read_exact 4 (rd (pre @ [push_bit 5 m OR a]) cs) = Ok (ds, r)"
        "v = word_of_nat (from_be_bytes ds)" and "\<not> v \<le> 65535"
      using red by (auto simp: result_inv split: if_splits)
    moreover note be [OF ds]
    ultimately have lo: "65535 < unat v" and "unat v < 256 ^ 4"
      and "\<exists>rest. cs = be_bytes 4 (unat v) @ rest \<and> r = rd (pre @ b # be_bytes 4 (unat v)) rest"
      by (simp_all add: u64_le_iff)
    with 4 show ?thesis using bs b
      by (auto simp: enc_arg_def encode_argument_def u64_le_iff)
  next
    case 5
    then obtain ds where ds: "read_exact 8 (rd (pre @ [push_bit 5 m OR a]) cs) = Ok (ds, r)"
        "v = word_of_nat (from_be_bytes ds)" and "\<not> v \<le> 4294967295"
      using red by (auto simp: result_inv split: if_splits)
    moreover note be [OF ds]
    ultimately have lo: "4294967295 < unat v" and "unat v < 256 ^ 8"
      and "\<exists>rest. cs = be_bytes 8 (unat v) @ rest \<and> r = rd (pre @ b # be_bytes 8 (unat v)) rest"
      by (simp_all add: u64_le_iff)
    with 5 show ?thesis using bs b
      by (auto simp: enc_arg_def encode_argument_def u64_le_iff)
  qed
qed

section \<open>The codecs of the primitive items\<close>

lemma argument_codec: "unat m < 8 \<Longrightarrow> cbor_codec (read_argument m) (enc_arg m) (\<lambda>_. True)"
  by unfold_locales (auto simp: read_argument_enc dest!: read_argument_Ok)

definition enc_unsigned :: "u64 \<Rightarrow> bytes" where
  "enc_unsigned v = enc_arg MAJOR_UNSIGNED v"

definition enc_len :: "u8 \<Rightarrow> nat \<Rightarrow> bytes" where
  "enc_len major n = enc_arg major (word_of_nat n)"

definition enc_bytes :: "bytes \<Rightarrow> bytes" where
  "enc_bytes v = enc_len MAJOR_BYTE_STRING (length v) @ v"

definition enc_text :: "rstring \<Rightarrow> bytes" where
  "enc_text v = enc_len MAJOR_TEXT_STRING (length v) @ v"

definition enc_bool :: "bool \<Rightarrow> bytes" where
  "enc_bool v = [if v then 0xf5 else 0xf4]"

definition len_ok :: "nat \<Rightarrow> bool" where
  "len_ok n \<longleftrightarrow> n < 2 ^ 64"

lemma unat_len: "len_ok n \<Longrightarrow> unat (word_of_nat n :: u64) = n"
  by (simp add: len_ok_def unat_of_nat take_bit_nat_eq_self)

lemma len_ok_unat [simp]: "len_ok (unat (v :: u64))"
  using unat_u64_bound [of v] by (simp add: len_ok_def)

lemma fits_len_ok: "fits bs \<Longrightarrow> len_ok (length bs)"
  by (simp add: fits_def len_ok_def usize_max_def)

text \<open>A header byte string of major type \<open>m\<close> followed by that many bytes.\<close>

definition read_block :: "u8 \<Rightarrow> cbor_reader \<Rightarrow> bytes read" where
  "read_block m r = and_then (read_argument m r) (\<lambda>(len, r). take_bytes len r)"

lemma block_codec:
  assumes "unat m < 8"
  shows "cbor_codec (read_block m) (\<lambda>v. enc_len m (length v) @ v) (\<lambda>v. len_ok (length v))"
proof -
  have "read_block m (rd pre ((enc_len m (length v) @ v) @ rest)) = Ok (v, rd (pre @ enc_len m (length v) @ v) rest)"
    if "len_ok (length v)" "fits (pre @ (enc_len m (length v) @ v) @ rest)" for pre v rest
    using that read_argument_enc [OF assms, of pre "word_of_nat (length v)" "v @ rest"]
    by (simp add: read_block_def enc_len_def take_bytes_read_exact unat_len read_exact_append)
  moreover have "len_ok (length v) \<and> (\<exists>rest. bs = (enc_len m (length v) @ v) @ rest
      \<and> r = rd (pre @ enc_len m (length v) @ v) rest)"
    if "read_block m (rd pre bs) = Ok (v, r)" for pre bs v r
    using that
    by (auto simp: read_block_def result_inv take_bytes_read_exact enc_len_def
        dest!: read_argument_Ok read_exact_Ok)
  ultimately show ?thesis by unfold_locales
qed

lemma len_codec:
  assumes "unat m < 8"
  shows "cbor_codec (\<lambda>r. and_then (read_argument m r) (\<lambda>(len, r).
     and_then (ok_or InvalidCbor (usize_of_u64 len)) (\<lambda>n. Ok (n, r)))) (enc_len m) len_ok"
  by unfold_locales (use read_argument_enc [OF assms] in
    \<open>auto simp: enc_len_def unat_len result_inv dest!: read_argument_Ok\<close>)

lemma major_bound [simp]:
  "unat MAJOR_UNSIGNED < 8" "unat MAJOR_BYTE_STRING < 8" "unat MAJOR_TEXT_STRING < 8"
  "unat MAJOR_ARRAY < 8" "unat MAJOR_MAP < 8"
  by (simp_all add: major_defs)

interpretation unsigned_c: cbor_codec read_unsigned enc_unsigned "\<lambda>_. True"
  using argument_codec [of MAJOR_UNSIGNED]
  by (simp add: read_unsigned_def [abs_def] enc_unsigned_def [abs_def])

interpretation bytes_c: cbor_codec read_byte_string enc_bytes "\<lambda>v. len_ok (length v)"
  using block_codec [of MAJOR_BYTE_STRING]
  by (simp add: read_byte_string_def [abs_def] enc_bytes_def [abs_def] read_block_def [abs_def])

interpretation array_c: cbor_codec read_array_len "enc_len MAJOR_ARRAY" len_ok
  using len_codec [of MAJOR_ARRAY] by (simp add: read_array_len_def [abs_def])

interpretation map_c: cbor_codec read_map_len "enc_len MAJOR_MAP" len_ok
  using len_codec [of MAJOR_MAP] by (simp add: read_map_len_def [abs_def])

interpretation bool_c: cbor_codec read_bool enc_bool "\<lambda>_. True"
  by unfold_locales
    (auto simp: read_bool_def enc_bool_def result_inv read_byte_Ok split: if_splits)

lemma read_text_string_block:
  "read_text_string r = and_then (read_block MAJOR_TEXT_STRING r)
     (\<lambda>(bs, r). if utf8_valid bs then Ok (bs, r) else Err InvalidCbor)"
  by (auto simp: read_text_string_def read_block_def and_then_assoc intro!: arg_cong2 [of _ _ _ _ and_then])

interpretation text_c: cbor_codec read_text_string enc_text "\<lambda>v. len_ok (length v) \<and> utf8_valid v"
proof -
  note c = block_codec [of MAJOR_TEXT_STRING, simplified]
  show "cbor_codec read_text_string enc_text (\<lambda>v. len_ok (length v) \<and> utf8_valid v)"
    by unfold_locales
      (auto simp: read_text_string_block enc_text_def result_inv cbor_codec.read_enc [OF c, simplified] 
        dest!: cbor_codec.enc_read [OF c] split: if_splits)
qed

section \<open>What the writer appends\<close>

lemma write_infallible [simp]:
  "write_unsigned v \<lparr>w_output = out\<rparr> = \<lparr>w_output = out @ enc_unsigned v\<rparr>"
  "write_bool b \<lparr>w_output = out\<rparr> = \<lparr>w_output = out @ enc_bool b\<rparr>"
  by (simp_all add: write_unsigned_def write_bool_def enc_unsigned_def enc_bool_def
      encode_argument_append)

lemma u64_of_usize_ok: "len_ok n \<Longrightarrow> u64_of_usize n = Some (word_of_nat n)"
  by (simp add: u64_of_usize_def len_ok_def)

lemma write_fallible [simp]:
  "len_ok (length v) \<Longrightarrow> write_byte_string v \<lparr>w_output = out\<rparr> = Ok \<lparr>w_output = out @ enc_bytes v\<rparr>"
  "len_ok (length v) \<Longrightarrow> write_text_string v \<lparr>w_output = out\<rparr> = Ok \<lparr>w_output = out @ enc_text v\<rparr>"
  "len_ok n \<Longrightarrow> write_array_len n \<lparr>w_output = out\<rparr> = Ok \<lparr>w_output = out @ enc_len MAJOR_ARRAY n\<rparr>"
  "len_ok n \<Longrightarrow> write_map_len n \<lparr>w_output = out\<rparr> = Ok \<lparr>w_output = out @ enc_len MAJOR_MAP n\<rparr>"
  by (simp_all add: write_byte_string_def write_text_string_def write_array_len_def
      write_map_len_def u64_of_usize_ok enc_bytes_def enc_text_def enc_len_def encode_argument_append)

lemma writer_simps [simp]: "new_writer = \<lparr>w_output = []\<rparr>" "into_bytes \<lparr>w_output = out\<rparr> = out"
  by (simp_all add: new_writer_def into_bytes_def)

lemma write_all_append:
  assumes "\<And>x out. x \<in> set xs \<Longrightarrow> f x \<lparr>w_output = out\<rparr> = Ok \<lparr>w_output = out @ enc x\<rparr>"
  shows "write_all f xs \<lparr>w_output = out\<rparr> = Ok \<lparr>w_output = out @ concat (map enc xs)\<rparr>"
  using assms by (induction xs arbitrary: out) auto

section \<open>Sizes\<close>

lemma len_ok_le: "n \<le> m \<Longrightarrow> len_ok m \<Longrightarrow> len_ok n"
  by (simp add: len_ok_def)

lemma len_ok_numeral [simp]: "len_ok 0" "len_ok 1" "len_ok (numeral k) \<longleftrightarrow> numeral k < (2 :: nat) ^ 64"
  by (simp_all add: len_ok_def)

lemma length_enc_arg: "length (enc_arg m v) \<le> 9"
  by (simp add: enc_arg_def encode_argument_def)

lemma length_enc_arg_u16: "v \<le> 65535 \<Longrightarrow> length (enc_arg m v) \<le> 3"
  by (simp add: enc_arg_def encode_argument_def)

lemma length_enc_unsigned: "length (enc_unsigned v) \<le> 9"
  by (simp add: enc_unsigned_def length_enc_arg)

lemma length_enc_len: "n \<le> 65535 \<Longrightarrow> length (enc_len m n) \<le> 3"
  by (simp add: enc_len_def length_enc_arg_u16 u64_le_iff unat_of_nat take_bit_nat_eq_self)

lemma length_enc_bytes: "length v \<le> 65535 \<Longrightarrow> length (enc_bytes v) \<le> 3 + length v"
  using length_enc_len [of "length v"] by (simp add: enc_bytes_def)

lemma length_enc_text: "length v \<le> 65535 \<Longrightarrow> length (enc_text v) \<le> 3 + length v"
  using length_enc_len [of "length v"] by (simp add: enc_text_def)

lemma length_concat_map_le:
  "(\<And>x. x \<in> set xs \<Longrightarrow> length (f x) \<le> k) \<Longrightarrow> length (concat (map f xs)) \<le> length xs * k"
  by (induction xs) (force simp: add_mono)+

lemma fits_le: "length bs \<le> n \<Longrightarrow> n \<le> usize_max \<Longrightarrow> fits bs"
  by (simp add: fits_def)

section \<open>Sequences\<close>

text \<open>An array whose elements are items of one codec, as registries, candidate sets and file lists are.\<close>

definition enc_seq :: "('v \<Rightarrow> bytes) \<Rightarrow> 'v list \<Rightarrow> bytes" where
  "enc_seq enc vs = enc_len MAJOR_ARRAY (length vs) @ concat (map enc vs)"

context cbor_codec
begin

lemma seq_read:
  assumes "list_all ok vs" and "len_ok (length vs)" and "fits (enc_seq enc vs)"
  shows "read_array_len (rd [] (enc_seq enc vs)) =
           Ok (length vs, rd (enc_len MAJOR_ARRAY (length vs)) (concat (map enc vs)))"
    and "read_many rd_item (length vs) (rd (enc_len MAJOR_ARRAY (length vs)) (concat (map enc vs))) =
           Ok (vs, rd (enc_seq enc vs) [])"
  using assms array_c.read_enc [of "length vs" "[]" "concat (map enc vs)"]
    read_many_enc [of vs "enc_len MAJOR_ARRAY (length vs)" "[]"]
  by (simp_all add: enc_seq_def)

lemma seq_readD:
  assumes "read_array_len (rd [] bs) = Ok (n, r)" and "read_many rd_item n r = Ok (vs, r')"
    and "finish r' = Ok u"
  shows "bs = enc_seq enc vs \<and> list_all ok vs \<and> length vs = n"
proof -
  from array_c.enc_read [OF assms(1)] obtain rest where
    bs: "bs = enc_len MAJOR_ARRAY n @ rest" and r: "r = rd (enc_len MAJOR_ARRAY n) rest" by auto
  from enc_read_many [OF assms(2) [unfolded r]] assms(3) bs show ?thesis
    by (auto simp: enc_seq_def split: if_splits)
qed

end

lemma write_seq:
  assumes "len_ok (length xs)"
    and "\<And>x out. x \<in> set xs \<Longrightarrow> f x \<lparr>w_output = out\<rparr> = Ok \<lparr>w_output = out @ enc x\<rparr>"
  shows "and_then (write_array_len (length xs) \<lparr>w_output = out\<rparr>) (write_all f xs)
           = Ok \<lparr>w_output = out @ enc_seq enc xs\<rparr>"
  using assms write_all_append [of xs f enc] by (simp add: enc_seq_def)

lemma length_enc_seq:
  assumes "\<And>x. x \<in> set xs \<Longrightarrow> length (enc x) \<le> k" and "length xs \<le> 65535"
  shows "length (enc_seq enc xs) \<le> 3 + length xs * k"
  using length_enc_len [OF assms(2), of MAJOR_ARRAY] length_concat_map_le [of xs enc k] assms(1)
  by (simp add: enc_seq_def)

lemma enc_seq_map: "enc_seq enc (map f xs) = enc_seq (\<lambda>x. enc (f x)) xs"
  by (simp add: enc_seq_def comp_def)

section \<open>Object codecs\<close>

text \<open>
  The contract of a canonical object codec: decoding accepts exactly the encodings of
  well-formed objects. So an object has one encoding and a byte string one meaning.
\<close>

locale object_codec =
  fixes decode :: "bytes \<Rightarrow> 'v presult" and encode :: "'v \<Rightarrow> bytes presult" and wf_obj :: "'v \<Rightarrow> bool"
  assumes decode_encode: "wf_obj v \<Longrightarrow> encode v = Ok bs \<Longrightarrow> decode bs = Ok v"
    and encode_decode: "decode bs = Ok v \<Longrightarrow> wf_obj v \<and> encode v = Ok bs"
begin

lemma decode_iff: "decode bs = Ok v \<longleftrightarrow> wf_obj v \<and> encode v = Ok bs"
  using decode_encode encode_decode by blast

lemma encode_inj: "wf_obj v \<Longrightarrow> wf_obj w \<Longrightarrow> encode v = Ok bs \<Longrightarrow> encode w = Ok bs \<Longrightarrow> v = w"
  by (metis decode_encode result.inject(1))

lemma decode_inj: "decode bs = Ok v \<Longrightarrow> decode cs = Ok v \<Longrightarrow> bs = cs"
  by (metis encode_decode result.inject(1))

text \<open>Equal digests of two well-formed objects mean equal objects or a collision of the hash.\<close>

lemma digest_binding:
  assumes "wf_obj v" "wf_obj w" "encode v = Ok bs" "encode w = Ok cs"
    and "hash_domain_separated p d bs = hash_domain_separated p d cs"
  shows "v = w \<or> encodings_collide p d (encode v) d (encode w)"
  using hash_domain_separated_collision [OF assms(5)] encode_inj [OF assms(1,2,3)] assms(3,4)
  by (cases "bs = cs") (simp_all add: encodings_collide_def)

end

end
