(* ===== verification/Candidates.thy ===== *)
theory Candidates
  imports Cbor
begin

text \<open>
  Candidates, approval limits and approval payloads (crates/ballot/src/lib.rs and canonical.rs):
  the checked constructors, membership by binary search, the canonical encodings of a candidate
  set and of a payload, and their digests.
\<close>

section \<open>Candidates\<close>

datatype candidate_id = CandidateId (candidate_id_bytes: bytes)

instantiation candidate_id :: linorder
begin
definition less_eq_candidate_id :: "candidate_id \<Rightarrow> candidate_id \<Rightarrow> bool" where
  "less_eq_candidate_id a b \<longleftrightarrow> candidate_id_bytes a \<le> candidate_id_bytes b"
definition less_candidate_id :: "candidate_id \<Rightarrow> candidate_id \<Rightarrow> bool" where
  "less_candidate_id a b \<longleftrightarrow> candidate_id_bytes a < candidate_id_bytes b"
instance
  by standard (auto simp: less_eq_candidate_id_def less_candidate_id_def intro: candidate_id.expand)
end

definition CandidateId_new :: "bytes \<Rightarrow> candidate_id presult" where
  "CandidateId_new bs =
     (if bs = [] then Err EmptyCandidateId
      else if length bs > MAX_CANDIDATE_ID_BYTES then Err ProtocolLimitExceeded
      else Ok (CandidateId bs))"

record candidate_definition =
  cd_id :: candidate_id
  cd_display_name :: rstring

definition CandidateDefinition_new :: "candidate_id \<Rightarrow> rstring \<Rightarrow> candidate_definition presult" where
  "CandidateDefinition_new cid display_name =
     (if trim_is_empty display_name then Err EmptyCandidateDisplayName
      else if length display_name > MAX_CANDIDATE_DISPLAY_NAME_BYTES then Err ProtocolLimitExceeded
      else Ok \<lparr>cd_id = cid, cd_display_name = display_name\<rparr>)"

record candidate_set =
  cs_candidates :: "candidate_definition list"

definition CandidateSet_new :: "candidate_definition list \<Rightarrow> candidate_set presult" where
  "CandidateSet_new candidates =
     (if candidates = [] then Err EmptyCandidateSet
      else if length candidates > MAX_CANDIDATES then Err ProtocolLimitExceeded
      else
        let candidates = sort_key cd_id candidates in
        if windows2_any (\<lambda>a b. cd_id a = cd_id b) candidates then Err DuplicateCandidateId
        else Ok \<lparr>cs_candidates = candidates\<rparr>)"

definition candidate_set_len :: "candidate_set \<Rightarrow> nat" where
  "candidate_set_len cs = length (cs_candidates cs)"

definition candidate_set_contains :: "candidate_set \<Rightarrow> candidate_id \<Rightarrow> bool" where
  "candidate_set_contains cs cid = (binary_search_by cd_id cid (cs_candidates cs) \<noteq> None)"

section \<open>Approval limits and payloads\<close>

record approval_limits =
  al_minimum :: nat
  al_maximum :: nat
  al_allow_abstention :: bool

definition ApprovalLimits_new :: "nat \<Rightarrow> nat \<Rightarrow> bool \<Rightarrow> approval_limits presult" where
  "ApprovalLimits_new minimum maximum allow_abstention =
     (if minimum > maximum then Err InvalidSelectionLimits
      else Ok \<lparr>al_minimum = minimum, al_maximum = maximum,
               al_allow_abstention = allow_abstention\<rparr>)"

record approval_ballot_payload =
  bp_selections :: "candidate_id list"

definition ApprovalBallotPayload_new ::
  "candidate_id list \<Rightarrow> candidate_set \<Rightarrow> approval_limits \<Rightarrow> approval_ballot_payload presult" where
  "ApprovalBallotPayload_new selections candidates limits =
     (if al_maximum limits > candidate_set_len candidates then Err InvalidSelectionLimits
      else if selections = [] then
        (if al_allow_abstention limits then Ok \<lparr>bp_selections = selections\<rparr>
         else Err SelectionCountOutOfRange)
      else if length selections < al_minimum limits \<or> length selections > al_maximum limits then
        Err SelectionCountOutOfRange
      else
        let selections = sort selections in
        if windows2_any (=) selections then Err DuplicateSelection
        else if \<exists>cid \<in> set selections. \<not> candidate_set_contains candidates cid then
          Err UnknownCandidateId
        else Ok \<lparr>bp_selections = selections\<rparr>)"

definition is_abstention :: "approval_ballot_payload \<Rightarrow> bool" where
  "is_abstention p \<longleftrightarrow> bp_selections p = []"

section \<open>Canonical forms\<close>

definition write_candidate :: "candidate_definition \<Rightarrow> cbor_writer \<Rightarrow> cbor_writer presult" where
  "write_candidate c w =
     and_then (write_array_len 2 w) (\<lambda>w.
     and_then (write_byte_string (candidate_id_bytes (cd_id c)) w) (\<lambda>w.
     write_text_string (cd_display_name c) w))"

definition candidate_set_to_canonical_cbor :: "candidate_set \<Rightarrow> bytes presult" where
  "candidate_set_to_canonical_cbor cs =
     and_then (write_array_len (length (cs_candidates cs)) new_writer) (\<lambda>w.
     and_then (write_all write_candidate (cs_candidates cs) w) (\<lambda>w.
     let encoded = into_bytes w in
     if length encoded > MAX_CANONICAL_OBJECT_BYTES then Err ProtocolLimitExceeded
     else Ok encoded))"

definition read_candidate_id :: "cbor_reader \<Rightarrow> candidate_id read" where
  "read_candidate_id r =
     and_then (read_byte_string r) (\<lambda>(bs, r).
     and_then (CandidateId_new bs) (\<lambda>cid. Ok (cid, r)))"

definition read_candidate :: "cbor_reader \<Rightarrow> candidate_definition read" where
  "read_candidate r =
     and_then (read_array_len r) (\<lambda>(n, r).
     if n \<noteq> 2 then Err InvalidCbor
     else
       and_then (read_candidate_id r) (\<lambda>(cid, r).
       and_then (read_text_string r) (\<lambda>(display_name, r).
       and_then (CandidateDefinition_new cid display_name) (\<lambda>c. Ok (c, r)))))"

definition candidate_pair_check :: "candidate_id \<Rightarrow> candidate_id \<Rightarrow> unit presult" where
  "candidate_pair_check a b =
     (if a = b then Err DuplicateCandidateId
      else if a > b then Err NonCanonicalCbor
      else Ok ())"

definition candidate_set_from_canonical_cbor :: "bytes \<Rightarrow> candidate_set presult" where
  "candidate_set_from_canonical_cbor encoded =
     (if length encoded > MAX_CANONICAL_OBJECT_BYTES then Err ProtocolLimitExceeded
      else
        and_then (read_array_len (new_reader encoded)) (\<lambda>(candidate_count, r).
        if candidate_count = 0 then Err EmptyCandidateSet
        else if candidate_count > MAX_CANDIDATES then Err ProtocolLimitExceeded
        else
          and_then (read_many read_candidate candidate_count r) (\<lambda>(candidates, r).
          and_then (finish r) (\<lambda>_.
          and_then (windows2_check (\<lambda>a b. candidate_pair_check (cd_id a) (cd_id b)) candidates) (\<lambda>_.
          CandidateSet_new candidates)))))"

definition candidate_set_canonical_commitment ::
  "hash_provider \<Rightarrow> candidate_set \<Rightarrow> candidate_set_commitment presult" where
  "candidate_set_canonical_commitment provider cs =
     and_then (candidate_set_to_canonical_cbor cs) (\<lambda>encoded.
     Ok (CandidateSetCommitment (hash_domain_separated provider CandidateSetV1 encoded)))"

definition payload_to_canonical_cbor :: "approval_ballot_payload \<Rightarrow> bytes presult" where
  "payload_to_canonical_cbor p =
     and_then (write_array_len (length (bp_selections p)) new_writer) (\<lambda>w.
     and_then (write_all (\<lambda>cid. write_byte_string (candidate_id_bytes cid)) (bp_selections p) w) (\<lambda>w.
     let encoded = into_bytes w in
     if length encoded > MAX_CANONICAL_OBJECT_BYTES then Err ProtocolLimitExceeded
     else Ok encoded))"

definition selection_pair_check :: "candidate_id \<Rightarrow> candidate_id \<Rightarrow> unit presult" where
  "selection_pair_check a b =
     (if a = b then Err DuplicateSelection
      else if a > b then Err NonCanonicalCbor
      else Ok ())"

definition payload_from_canonical_cbor ::
  "candidate_set \<Rightarrow> approval_limits \<Rightarrow> bytes \<Rightarrow> approval_ballot_payload presult" where
  "payload_from_canonical_cbor candidates limits encoded =
     (if length encoded > MAX_CANONICAL_OBJECT_BYTES then Err ProtocolLimitExceeded
      else
        and_then (read_array_len (new_reader encoded)) (\<lambda>(selection_count, r).
        if selection_count > MAX_CANDIDATES then Err ProtocolLimitExceeded
        else
          and_then (read_many read_candidate_id selection_count r) (\<lambda>(selections, r).
          and_then (finish r) (\<lambda>_.
          and_then (windows2_check selection_pair_check selections) (\<lambda>_.
          ApprovalBallotPayload_new selections candidates limits)))))"

definition payload_canonical_hash ::
  "hash_provider \<Rightarrow> approval_ballot_payload \<Rightarrow> ballot_payload_hash presult" where
  "payload_canonical_hash provider p =
     and_then (payload_to_canonical_cbor p) (\<lambda>encoded.
     Ok (BallotPayloadHash (hash_domain_separated provider ApprovalBallotPayloadV1 encoded)))"

section \<open>Well-formedness\<close>

definition wf_candidate_id :: "candidate_id \<Rightarrow> bool" where
  "wf_candidate_id cid \<longleftrightarrow>
     candidate_id_bytes cid \<noteq> [] \<and> length (candidate_id_bytes cid) \<le> MAX_CANDIDATE_ID_BYTES"

definition wf_candidate :: "candidate_definition \<Rightarrow> bool" where
  "wf_candidate c \<longleftrightarrow>
     wf_candidate_id (cd_id c) \<and> \<not> trim_is_empty (cd_display_name c)
     \<and> length (cd_display_name c) \<le> MAX_CANDIDATE_DISPLAY_NAME_BYTES
     \<and> utf8_valid (cd_display_name c)"

definition wf_candidate_set :: "candidate_set \<Rightarrow> bool" where
  "wf_candidate_set cs \<longleftrightarrow>
     cs_candidates cs \<noteq> [] \<and> length (cs_candidates cs) \<le> MAX_CANDIDATES
     \<and> sorted_wrt (<) (map cd_id (cs_candidates cs)) \<and> list_all wf_candidate (cs_candidates cs)"

definition wf_payload :: "candidate_set \<Rightarrow> approval_limits \<Rightarrow> approval_ballot_payload \<Rightarrow> bool" where
  "wf_payload cs limits p \<longleftrightarrow>
     al_maximum limits \<le> candidate_set_len cs
     \<and> (if bp_selections p = [] then al_allow_abstention limits
        else al_minimum limits \<le> length (bp_selections p)
             \<and> length (bp_selections p) \<le> al_maximum limits)
     \<and> length (bp_selections p) \<le> MAX_CANDIDATES
     \<and> sorted_wrt (<) (bp_selections p)
     \<and> list_all wf_candidate_id (bp_selections p)
     \<and> (\<forall>cid \<in> set (bp_selections p). candidate_set_contains cs cid)"

lemma CandidateId_new_Ok_iff [result_inv]:
  "CandidateId_new bs = Ok cid \<longleftrightarrow> wf_candidate_id cid \<and> bs = candidate_id_bytes cid"
  by (cases cid) (auto simp: CandidateId_new_def wf_candidate_id_def)

lemma CandidateDefinition_new_Ok_iff [result_inv]:
  "CandidateDefinition_new cid nm = Ok c \<longleftrightarrow>
     c = \<lparr>cd_id = cid, cd_display_name = nm\<rparr> \<and> \<not> trim_is_empty nm
     \<and> length nm \<le> MAX_CANDIDATE_DISPLAY_NAME_BYTES"
  by (auto simp: CandidateDefinition_new_def)

lemma CandidateSet_new_Ok_iff:
  "CandidateSet_new cds = Ok cs \<longleftrightarrow>
     cds \<noteq> [] \<and> length cds \<le> MAX_CANDIDATES \<and> distinct (map cd_id cds)
     \<and> cs_candidates cs = sort_key cd_id cds"
proof -
  have "windows2_any (\<lambda>a b. cd_id a = cd_id b) (sort_key cd_id cds) \<longleftrightarrow> \<not> distinct (map cd_id cds)"
    unfolding windows2_any_map [of "(=)" cd_id]
    by (simp add: windows2_any_eq_iff) (metis mset_eq_imp_distinct_iff mset_map mset_sort)
  then show ?thesis
    by (cases cs) (auto simp: CandidateSet_new_def Let_def)
qed

lemma CandidateSet_new_wf:
  assumes "CandidateSet_new cds = Ok cs" and "list_all wf_candidate cds"
  shows "wf_candidate_set cs"
proof -
  have "distinct (map cd_id (sort_key cd_id cds))"
    using assms by (metis CandidateSet_new_Ok_iff mset_eq_imp_distinct_iff mset_map mset_sort)
  then show ?thesis
    using assms by (auto simp: CandidateSet_new_Ok_iff wf_candidate_set_def strictly_sorted_iff list_all_iff)
qed

lemma CandidateSet_new_perm:
  assumes "mset xs = mset ys"
  shows "CandidateSet_new xs = Ok cs \<longleftrightarrow> CandidateSet_new ys = Ok cs"
proof -
  have "distinct (map cd_id xs) = distinct (map cd_id ys)"
    using assms by (metis mset_eq_imp_distinct_iff mset_map)
  moreover have "xs = [] \<longleftrightarrow> ys = []" using assms by auto
  ultimately show ?thesis
    using mset_eq_length [OF assms] sort_key_cong_mset [OF assms, of cd_id]
    by (auto simp: CandidateSet_new_Ok_iff)
qed

lemma candidate_set_contains_iff:
  assumes "wf_candidate_set cs"
  shows "candidate_set_contains cs cid \<longleftrightarrow> cid \<in> cd_id ` set (cs_candidates cs)"
  using assms binary_search_by_iff [of cd_id "cs_candidates cs" cid]
  by (auto simp: candidate_set_contains_def wf_candidate_set_def strictly_sorted_iff)

lemma ApprovalBallotPayload_new_Ok_iff:
  "ApprovalBallotPayload_new sel cs limits = Ok p \<longleftrightarrow>
     bp_selections p = sort sel \<and> al_maximum limits \<le> candidate_set_len cs
     \<and> (if sel = [] then al_allow_abstention limits
        else al_minimum limits \<le> length sel \<and> length sel \<le> al_maximum limits)
     \<and> distinct sel \<and> (\<forall>cid \<in> set sel. candidate_set_contains cs cid)"
  by (cases p) (auto simp: ApprovalBallotPayload_new_def Let_def windows2_any_eq_iff)

lemma ApprovalBallotPayload_new_wf:
  assumes "ApprovalBallotPayload_new sel cs limits = Ok p" and "list_all wf_candidate_id sel"
    and "wf_candidate_set cs"
  shows "wf_payload cs limits p"
  using assms
  by (auto simp: ApprovalBallotPayload_new_Ok_iff wf_payload_def strictly_sorted_iff list_all_iff
      wf_candidate_set_def candidate_set_len_def)

section \<open>The codecs\<close>

lemma pair_checks_Ok [simp]:
  "candidate_pair_check a b = Ok u \<longleftrightarrow> a < b" "selection_pair_check a b = Ok u \<longleftrightarrow> a < b"
  by (auto simp: candidate_pair_check_def selection_pair_check_def not_less)

lemma wf_candidate_id_len_ok: "wf_candidate_id cid \<Longrightarrow> len_ok (length (candidate_id_bytes cid))"
  by (auto simp: wf_candidate_id_def limits_def len_ok_def)

lemma wf_candidate_len_ok: "wf_candidate c \<Longrightarrow> len_ok (length (cd_display_name c))"
  by (auto simp: wf_candidate_def limits_def len_ok_def)

interpretation candidate_id_c:
  cbor_codec read_candidate_id "\<lambda>cid. enc_bytes (candidate_id_bytes cid)" wf_candidate_id
  unfolding read_candidate_id_def [abs_def]
  by (rule bytes_c.codec_validated [where proj = candidate_id_bytes and valid = wf_candidate_id])
    (auto simp: result_inv wf_candidate_id_len_ok)

definition candidate_enc :: "candidate_definition \<Rightarrow> bytes" where
  "candidate_enc c =
     enc_len MAJOR_ARRAY 2 @ enc_bytes (candidate_id_bytes (cd_id c)) @ enc_text (cd_display_name c)"

interpretation candidate_c: cbor_codec read_candidate candidate_enc wf_candidate
proof unfold_locales
  fix c :: candidate_definition and pre rest
  assume "wf_candidate c" and "fits (pre @ candidate_enc c @ rest)"
  then show "read_candidate (rd pre (candidate_enc c @ rest)) = Ok (c, rd (pre @ candidate_enc c) rest)"
    using wf_candidate_len_ok [of c]
    by (simp add: read_candidate_def candidate_enc_def array_c.read_enc candidate_id_c.read_enc
        text_c.read_enc wf_candidate_def CandidateDefinition_new_def)
next
  fix pre bs c r
  assume "read_candidate (rd pre bs) = Ok (c, r)"
  then show "wf_candidate c \<and> (\<exists>rest. bs = candidate_enc c @ rest \<and> r = rd (pre @ candidate_enc c) rest)"
    by (auto simp: read_candidate_def result_inv candidate_enc_def wf_candidate_def
        dest!: array_c.enc_read candidate_id_c.enc_read text_c.enc_read split: if_splits)
qed

definition candidate_set_enc :: "candidate_set \<Rightarrow> bytes" where
  "candidate_set_enc cs = enc_seq candidate_enc (cs_candidates cs)"

definition payload_enc :: "approval_ballot_payload \<Rightarrow> bytes" where
  "payload_enc p = enc_seq (\<lambda>cid. enc_bytes (candidate_id_bytes cid)) (bp_selections p)"

lemma length_candidate_enc: "wf_candidate c \<Longrightarrow> length (candidate_enc c) \<le> 649"
  using length_enc_bytes [of "candidate_id_bytes (cd_id c)"] length_enc_text [of "cd_display_name c"]
    length_enc_len [of 2 MAJOR_ARRAY]
  by (simp add: candidate_enc_def wf_candidate_def wf_candidate_id_def limits_def)

lemma length_candidate_set_enc:
  "wf_candidate_set cs \<Longrightarrow> length (candidate_set_enc cs) \<le> MAX_CANONICAL_OBJECT_BYTES"
  using length_enc_seq [of "cs_candidates cs" candidate_enc 649] length_candidate_enc
  by (simp add: candidate_set_enc_def wf_candidate_set_def list_all_iff limits_def)

lemma length_payload_enc:
  assumes "list_all wf_candidate_id (bp_selections p)" and "length (bp_selections p) \<le> MAX_CANDIDATES"
  shows "length (payload_enc p) \<le> MAX_CANONICAL_OBJECT_BYTES"
proof -
  have "length (enc_bytes (candidate_id_bytes cid)) \<le> 131" if "cid \<in> set (bp_selections p)" for cid
    using assms that length_enc_bytes [of "candidate_id_bytes cid"]
    by (auto simp: list_all_iff wf_candidate_id_def limits_def)
  then show ?thesis
    using length_enc_seq [of "bp_selections p" "\<lambda>cid. enc_bytes (candidate_id_bytes cid)" 131] assms(2)
    by (simp add: payload_enc_def limits_def)
qed

lemma write_candidate_append:
  "wf_candidate c \<Longrightarrow> write_candidate c \<lparr>w_output = out\<rparr> = Ok \<lparr>w_output = out @ candidate_enc c\<rparr>"
  using wf_candidate_len_ok [of c] wf_candidate_id_len_ok [of "cd_id c"]
  by (simp add: write_candidate_def candidate_enc_def wf_candidate_def)

lemma candidate_set_to_canonical_cbor_eq:
  assumes "wf_candidate_set cs"
  shows "candidate_set_to_canonical_cbor cs = Ok (candidate_set_enc cs)"
proof -
  have "and_then (write_array_len (length (cs_candidates cs)) \<lparr>w_output = []\<rparr>)
      (write_all write_candidate (cs_candidates cs)) = Ok \<lparr>w_output = [] @ candidate_set_enc cs\<rparr>"
    unfolding candidate_set_enc_def using assms
    by (intro write_seq) (auto simp: wf_candidate_set_def limits_def len_ok_def list_all_iff write_candidate_append)
  then show ?thesis
    using length_candidate_set_enc [OF assms]
    by (simp add: candidate_set_to_canonical_cbor_def flip: and_then_assoc)
qed

lemma payload_to_canonical_cbor_eq:
  assumes "list_all wf_candidate_id (bp_selections p)" and "length (bp_selections p) \<le> MAX_CANDIDATES"
  shows "payload_to_canonical_cbor p = Ok (payload_enc p)"
proof -
  have "len_ok (length (bp_selections p))"
    using assms(2) by (simp add: limits_def len_ok_def)
  then have "and_then (write_array_len (length (bp_selections p)) \<lparr>w_output = []\<rparr>)
      (write_all (\<lambda>cid. write_byte_string (candidate_id_bytes cid)) (bp_selections p))
      = Ok \<lparr>w_output = [] @ payload_enc p\<rparr>"
    unfolding payload_enc_def using assms
    by (intro write_seq) (auto simp: list_all_iff wf_candidate_id_len_ok)
  then show ?thesis
    using length_payload_enc [OF assms]
    by (simp add: payload_to_canonical_cbor_def flip: and_then_assoc)
qed

lemma candidate_set_decode_enc:
  assumes wf: "wf_candidate_set cs"
  shows "candidate_set_from_canonical_cbor (candidate_set_enc cs) = Ok cs"
proof -
  let ?cs = "cs_candidates cs"
  have c: "list_all wf_candidate ?cs" "len_ok (length ?cs)" "fits (enc_seq candidate_enc ?cs)"
    using wf length_candidate_set_enc [OF wf]
    by (auto simp: wf_candidate_set_def limits_def len_ok_def fits_def usize_max_def candidate_set_enc_def)
  have "windows2_check (\<lambda>a b. candidate_pair_check (cd_id a) (cd_id b)) ?cs = Ok ()"
    using wf unfolding windows2_check_map [of candidate_pair_check cd_id]
    by (simp add: windows2_check_Ok_iff wf_candidate_set_def)
  moreover have "CandidateSet_new ?cs = Ok cs"
    using wf by (simp add: CandidateSet_new_Ok_iff wf_candidate_set_def strictly_sorted_iff sort_key_sorted_id)
  ultimately show ?thesis
    using wf length_candidate_set_enc [OF wf] candidate_c.seq_read [OF c]
    by (simp add: candidate_set_from_canonical_cbor_def new_reader_rd wf_candidate_set_def candidate_set_enc_def)
qed

lemma candidate_set_decode_Ok:
  assumes "candidate_set_from_canonical_cbor bs = Ok cs"
  shows "wf_candidate_set cs \<and> candidate_set_enc cs = bs"
proof -
  from assms obtain n cds r r' where
    n: "read_array_len (rd [] bs) = Ok (n, r)"
    and cds: "read_many read_candidate n r = Ok (cds, r')" and fin: "finish r' = Ok ()"
    and chk: "windows2_check (\<lambda>a b. candidate_pair_check (cd_id a) (cd_id b)) cds = Ok ()"
    and new: "CandidateSet_new cds = Ok cs"
    by (auto simp: candidate_set_from_canonical_cbor_def new_reader_rd result_inv split: if_splits)
  note k = candidate_c.seq_readD [OF n cds fin]
  have "sorted_wrt (<) (map cd_id cds)"
    using chk unfolding windows2_check_map [of candidate_pair_check cd_id]
    by (simp add: windows2_check_Ok_iff)
  then have "cs_candidates cs = cds"
    using new by (simp add: CandidateSet_new_Ok_iff strictly_sorted_iff sort_key_sorted_id)
  then show ?thesis
    using CandidateSet_new_wf [OF new] k by (simp add: candidate_set_enc_def)
qed

interpretation candidate_set_codec:
  object_codec candidate_set_from_canonical_cbor candidate_set_to_canonical_cbor wf_candidate_set
  by unfold_locales
    (auto simp: candidate_set_to_canonical_cbor_eq candidate_set_decode_enc
      dest: candidate_set_decode_Ok)

lemma payload_decode_enc:
  assumes wf: "wf_payload cs limits p"
  shows "payload_from_canonical_cbor cs limits (payload_enc p) = Ok p"
proof -
  let ?s = "bp_selections p"
  have len: "length (payload_enc p) \<le> MAX_CANONICAL_OBJECT_BYTES"
    using wf by (intro length_payload_enc) (auto simp: wf_payload_def)
  then have c: "list_all wf_candidate_id ?s" "len_ok (length ?s)"
    "fits (enc_seq (\<lambda>cid. enc_bytes (candidate_id_bytes cid)) ?s)"
    using wf by (auto simp: wf_payload_def limits_def len_ok_def fits_def usize_max_def payload_enc_def)
  have "windows2_check selection_pair_check ?s = Ok ()"
    using wf by (simp add: windows2_check_Ok_iff wf_payload_def)
  moreover have "ApprovalBallotPayload_new ?s cs limits = Ok p"
    using wf by (auto simp: ApprovalBallotPayload_new_Ok_iff wf_payload_def strictly_sorted_iff sort_key_sorted_id)
  ultimately show ?thesis
    using wf len candidate_id_c.seq_read [OF c]
    by (simp add: payload_from_canonical_cbor_def new_reader_rd wf_payload_def payload_enc_def)
qed

lemma payload_decode_Ok:
  assumes "payload_from_canonical_cbor cs limits bs = Ok p"
  shows "wf_payload cs limits p \<and> payload_enc p = bs"
proof -
  from assms obtain n sel r r' where
    n: "read_array_len (rd [] bs) = Ok (n, r)" "n \<le> MAX_CANDIDATES"
    and sel: "read_many read_candidate_id n r = Ok (sel, r')" and fin: "finish r' = Ok ()"
    and sorted: "sorted_wrt (<) sel"
    and new: "ApprovalBallotPayload_new sel cs limits = Ok p"
    by (auto simp: payload_from_canonical_cbor_def new_reader_rd result_inv windows2_check_Ok_iff
        split: if_splits)
  note k = candidate_id_c.seq_readD [OF n(1) sel fin]
  have "bp_selections p = sel"
    using new sorted by (simp add: ApprovalBallotPayload_new_Ok_iff strictly_sorted_iff sort_key_sorted_id)
  then show ?thesis
    using new k sorted n(2)
    by (auto simp: ApprovalBallotPayload_new_Ok_iff wf_payload_def payload_enc_def)
qed

lemma wf_payload_ids:
  "wf_payload cs limits p \<Longrightarrow> list_all wf_candidate_id (bp_selections p)"
  "wf_payload cs limits p \<Longrightarrow> length (bp_selections p) \<le> MAX_CANDIDATES"
  by (simp_all add: wf_payload_def)

interpretation payload_codec:
  object_codec "payload_from_canonical_cbor cs limits" payload_to_canonical_cbor "wf_payload cs limits"
  for cs limits
  by unfold_locales
    (auto simp: payload_to_canonical_cbor_eq payload_decode_enc wf_payload_ids
      dest!: payload_decode_Ok)

end
