(* ===== verification/Election_Manifest.thy ===== *)
theory Election_Manifest
  imports Candidates
begin

text \<open>
  Election manifests (crates/ballot/src/manifest.rs, manifest_canonical.rs, manifest_scope.rs):
  version one, version two with its proposal question, the version-dispatching enum, canonical
  CBOR, the manifest hash and the election scope derived from it.

  Version two has the fields of version one and a proposal question; its record extends the one
  of version one, and the routines that write and read the common fields are shared. Unicode
  normalisation is third-party code: \<open>nfc\<close> maps the scalar values of a string to those of its
  normal form C.
\<close>

section \<open>Identifiers and the proposal question\<close>

datatype election_id = ElectionId (election_id_bytes: bytes)

definition ElectionId_new :: "bytes \<Rightarrow> election_id presult" where
  "ElectionId_new bs =
     (if bs = [] then Err EmptyElectionId
      else if length bs > MAX_ELECTION_ID_BYTES then Err ProtocolLimitExceeded
      else Ok (ElectionId bs))"

datatype proposal_question = ProposalQuestion (proposal_question_str: rstring)

definition is_forbidden_control :: "nat \<Rightarrow> bool" where
  "is_forbidden_control scalar \<longleftrightarrow> scalar \<le> 0x1f \<or> (0x7f \<le> scalar \<and> scalar \<le> 0x9f)"

definition ProposalQuestion_new :: "(nat list \<Rightarrow> nat list) \<Rightarrow> rstring \<Rightarrow> proposal_question presult" where
  "ProposalQuestion_new nfc value =
     (if value = [] \<or> list_all is_whitespace (chars value) then Err EmptyProposalQuestion
      else if length value > MAX_PROPOSAL_QUESTION_BYTES then Err ProtocolLimitExceeded
      else if (case chars value of c # _ \<Rightarrow> is_whitespace c | [] \<Rightarrow> False) then
        Err InvalidProposalQuestion
      else if (case rev (chars value) of c # _ \<Rightarrow> is_whitespace c | [] \<Rightarrow> False) then
        Err InvalidProposalQuestion
      else if list_ex (\<lambda>c. c = 10 \<or> c = 13) (chars value) then Err InvalidProposalQuestion
      else if list_ex is_forbidden_control (chars value) then Err InvalidProposalQuestion
      else if nfc (chars value) \<noteq> chars value then Err NonNfcProposalQuestion
      else Ok (ProposalQuestion value))"

datatype ballot_kind_v1 = NonBindingApprovalPilot

primrec ballot_kind_as_str :: "ballot_kind_v1 \<Rightarrow> rstring" where
  "ballot_kind_as_str NonBindingApprovalPilot = lit ''NON_BINDING_APPROVAL_PILOT''"

definition ballot_kind_from_identifier :: "rstring \<Rightarrow> ballot_kind_v1 presult" where
  "ballot_kind_from_identifier value =
     (if value = lit ''NON_BINDING_APPROVAL_PILOT'' then Ok NonBindingApprovalPilot
      else Err InvalidData)"

datatype ballot_confidentiality_v1 = Public

primrec ballot_confidentiality_as_str :: "ballot_confidentiality_v1 \<Rightarrow> rstring" where
  "ballot_confidentiality_as_str Public = lit ''PUBLIC''"

definition ballot_confidentiality_from_identifier :: "rstring \<Rightarrow> ballot_confidentiality_v1 presult" where
  "ballot_confidentiality_from_identifier value =
     (if value = lit ''PUBLIC'' then Ok Public else Err InvalidData)"

section \<open>Manifests\<close>

record election_manifest_v1 =
  em_protocol_version :: u16
  em_election_id :: election_id
  em_ballot_kind :: ballot_kind_v1
  em_ballot_confidentiality :: ballot_confidentiality_v1
  em_registry_commitment :: registry_commitment
  em_candidate_set_commitment :: candidate_set_commitment
  em_proof_suite_id :: rstring
  em_approval_limits :: approval_limits
  em_governance_source_revision :: rstring

record election_manifest_v2 = election_manifest_v1 +
  em_proposal_question :: proposal_question

record election_manifest_v2_input = election_manifest_v1 +
  emi_proposal_question :: rstring

text \<open>\<open>ElectionManifestV1Input\<close> has the fields of the manifest it is validated into.\<close>

type_synonym election_manifest_v1_input = election_manifest_v1

datatype election_manifest = V1 election_manifest_v1 | V2 election_manifest_v2

text \<open>The checks that both constructors make on their common fields, in their order.\<close>

definition check_manifest_fields :: "'a election_manifest_v1_scheme \<Rightarrow> unit presult" where
  "check_manifest_fields inp =
     (if em_protocol_version inp \<noteq> PROTOCOL_VERSION_V1 then Err UnsupportedProtocolVersion
      else if trim_is_empty (em_proof_suite_id inp) then Err EmptyProofSuiteId
      else if length (em_proof_suite_id inp) > MAX_PROOF_SUITE_ID_BYTES then
        Err ProtocolLimitExceeded
      else if trim_is_empty (em_governance_source_revision inp) then
        Err EmptyGovernanceSourceRevision
      else if length (em_governance_source_revision inp) > MAX_GOVERNANCE_REVISION_BYTES then
        Err ProtocolLimitExceeded
      else Ok ())"

definition ElectionManifestV1_new :: "election_manifest_v1_input \<Rightarrow> election_manifest_v1 presult" where
  "ElectionManifestV1_new inp = and_then (check_manifest_fields inp) (\<lambda>_. Ok inp)"

definition ElectionManifestV2_new ::
  "(nat list \<Rightarrow> nat list) \<Rightarrow> election_manifest_v2_input \<Rightarrow> election_manifest_v2 presult" where
  "ElectionManifestV2_new nfc inp =
     and_then (check_manifest_fields inp) (\<lambda>_.
     and_then (ProposalQuestion_new nfc (emi_proposal_question inp)) (\<lambda>question.
     Ok \<lparr>em_protocol_version = em_protocol_version inp,
         em_election_id = em_election_id inp,
         em_ballot_kind = em_ballot_kind inp,
         em_ballot_confidentiality = em_ballot_confidentiality inp,
         em_registry_commitment = em_registry_commitment inp,
         em_candidate_set_commitment = em_candidate_set_commitment inp,
         em_proof_suite_id = em_proof_suite_id inp,
         em_approval_limits = em_approval_limits inp,
         em_governance_source_revision = em_governance_source_revision inp,
         em_proposal_question = question\<rparr>))"

subsection \<open>Accessors of the version-dispatching enum\<close>

primrec manifest_schema_version :: "election_manifest \<Rightarrow> u16" where
  "manifest_schema_version (V1 m) = 1"
| "manifest_schema_version (V2 m) = 2"

primrec manifest_protocol_version :: "election_manifest \<Rightarrow> u16" where
  "manifest_protocol_version (V1 m) = em_protocol_version m"
| "manifest_protocol_version (V2 m) = em_protocol_version m"

primrec manifest_election_id :: "election_manifest \<Rightarrow> election_id" where
  "manifest_election_id (V1 m) = em_election_id m"
| "manifest_election_id (V2 m) = em_election_id m"

primrec manifest_ballot_kind :: "election_manifest \<Rightarrow> ballot_kind_v1" where
  "manifest_ballot_kind (V1 m) = em_ballot_kind m"
| "manifest_ballot_kind (V2 m) = em_ballot_kind m"

primrec manifest_ballot_confidentiality :: "election_manifest \<Rightarrow> ballot_confidentiality_v1" where
  "manifest_ballot_confidentiality (V1 m) = em_ballot_confidentiality m"
| "manifest_ballot_confidentiality (V2 m) = em_ballot_confidentiality m"

primrec manifest_registry_commitment :: "election_manifest \<Rightarrow> registry_commitment" where
  "manifest_registry_commitment (V1 m) = em_registry_commitment m"
| "manifest_registry_commitment (V2 m) = em_registry_commitment m"

primrec manifest_candidate_set_commitment :: "election_manifest \<Rightarrow> candidate_set_commitment" where
  "manifest_candidate_set_commitment (V1 m) = em_candidate_set_commitment m"
| "manifest_candidate_set_commitment (V2 m) = em_candidate_set_commitment m"

primrec manifest_proof_suite_id :: "election_manifest \<Rightarrow> rstring" where
  "manifest_proof_suite_id (V1 m) = em_proof_suite_id m"
| "manifest_proof_suite_id (V2 m) = em_proof_suite_id m"

primrec manifest_approval_limits :: "election_manifest \<Rightarrow> approval_limits" where
  "manifest_approval_limits (V1 m) = em_approval_limits m"
| "manifest_approval_limits (V2 m) = em_approval_limits m"

primrec manifest_governance_source_revision :: "election_manifest \<Rightarrow> rstring" where
  "manifest_governance_source_revision (V1 m) = em_governance_source_revision m"
| "manifest_governance_source_revision (V2 m) = em_governance_source_revision m"

primrec manifest_proposal_question :: "election_manifest \<Rightarrow> rstring option" where
  "manifest_proposal_question (V1 m) = None"
| "manifest_proposal_question (V2 m) = Some (proposal_question_str (em_proposal_question m))"

section \<open>Canonical form\<close>

definition MANIFEST_FIELD_COUNT_V1 :: nat where "MANIFEST_FIELD_COUNT_V1 = 9"
definition MANIFEST_FIELD_COUNT_V2 :: nat where "MANIFEST_FIELD_COUNT_V2 = 10"
definition APPROVAL_LIMIT_FIELD_COUNT_V1 :: nat where "APPROVAL_LIMIT_FIELD_COUNT_V1 = 3"

lemmas field_counts =
  MANIFEST_FIELD_COUNT_V1_def MANIFEST_FIELD_COUNT_V2_def APPROVAL_LIMIT_FIELD_COUNT_V1_def

definition write_approval_limits :: "approval_limits \<Rightarrow> cbor_writer \<Rightarrow> cbor_writer presult" where
  "write_approval_limits limits w =
     and_then (write_array_len APPROVAL_LIMIT_FIELD_COUNT_V1 w) (\<lambda>w.
     and_then (ok_or ProtocolLimitExceeded (u64_of_usize (al_minimum limits))) (\<lambda>minimum.
     let w = write_unsigned minimum w in
     and_then (ok_or ProtocolLimitExceeded (u64_of_usize (al_maximum limits))) (\<lambda>maximum.
     let w = write_unsigned maximum w in
     Ok (write_bool (al_allow_abstention limits) w))))"

text \<open>The common fields, in the order both versions write them, after an array header of \<open>field_count\<close>.\<close>

definition write_manifest_fields ::
  "nat \<Rightarrow> 'a election_manifest_v1_scheme \<Rightarrow> cbor_writer \<Rightarrow> cbor_writer presult" where
  "write_manifest_fields field_count m w =
     and_then (write_array_len field_count w) (\<lambda>w.
     let w = write_unsigned (ucast (em_protocol_version m)) w in
     and_then (write_byte_string (election_id_bytes (em_election_id m)) w) (\<lambda>w.
     and_then (write_text_string (ballot_kind_as_str (em_ballot_kind m)) w) (\<lambda>w.
     and_then (write_text_string (ballot_confidentiality_as_str (em_ballot_confidentiality m)) w) (\<lambda>w.
     and_then (write_byte_string (arr_bytes (registry_commitment_bytes (em_registry_commitment m))) w) (\<lambda>w.
     and_then (write_byte_string
       (arr_bytes (candidate_set_commitment_bytes (em_candidate_set_commitment m))) w) (\<lambda>w.
     and_then (write_text_string (em_proof_suite_id m) w) (\<lambda>w.
     and_then (write_approval_limits (em_approval_limits m) w) (\<lambda>w.
     write_text_string (em_governance_source_revision m) w))))))))"

definition manifest_v1_to_canonical_cbor :: "election_manifest_v1 \<Rightarrow> bytes presult" where
  "manifest_v1_to_canonical_cbor m =
     and_then (write_manifest_fields MANIFEST_FIELD_COUNT_V1 m new_writer) (\<lambda>w.
     let encoded = into_bytes w in
     if length encoded > MAX_CANONICAL_OBJECT_BYTES then Err ProtocolLimitExceeded
     else Ok encoded)"

definition manifest_v2_to_canonical_cbor :: "election_manifest_v2 \<Rightarrow> bytes presult" where
  "manifest_v2_to_canonical_cbor m =
     and_then (write_manifest_fields MANIFEST_FIELD_COUNT_V2 m new_writer) (\<lambda>w.
     and_then (write_text_string (proposal_question_str (em_proposal_question m)) w) (\<lambda>w.
     let encoded = into_bytes w in
     if length encoded > MAX_CANONICAL_OBJECT_BYTES then Err ProtocolLimitExceeded
     else Ok encoded))"

definition read_commitment :: "cbor_reader \<Rightarrow> bytes32 read" where
  "read_commitment r =
     and_then (read_byte_string r) (\<lambda>(bs, r).
     and_then (ok_or InvalidCbor (array32 bs)) (\<lambda>a. Ok (a, r)))"

definition read_u16 :: "cbor_reader \<Rightarrow> u16 read" where
  "read_u16 r =
     and_then (read_unsigned r) (\<lambda>(v, r).
     and_then (ok_or InvalidCbor (u16_of_u64 v)) (\<lambda>w. Ok (w, r)))"

definition read_usize :: "cbor_reader \<Rightarrow> nat read" where
  "read_usize r =
     and_then (read_unsigned r) (\<lambda>(v, r).
     and_then (ok_or InvalidCbor (usize_of_u64 v)) (\<lambda>n. Ok (n, r)))"

definition read_election_id :: "cbor_reader \<Rightarrow> election_id read" where
  "read_election_id r =
     and_then (read_byte_string r) (\<lambda>(bs, r).
     and_then (ElectionId_new bs) (\<lambda>e. Ok (e, r)))"

definition read_ballot_kind :: "cbor_reader \<Rightarrow> ballot_kind_v1 read" where
  "read_ballot_kind r =
     and_then (read_text_string r) (\<lambda>(s, r).
     and_then (ballot_kind_from_identifier s) (\<lambda>k. Ok (k, r)))"

definition read_ballot_confidentiality :: "cbor_reader \<Rightarrow> ballot_confidentiality_v1 read" where
  "read_ballot_confidentiality r =
     and_then (read_text_string r) (\<lambda>(s, r).
     and_then (ballot_confidentiality_from_identifier s) (\<lambda>k. Ok (k, r)))"

definition read_approval_limits :: "cbor_reader \<Rightarrow> approval_limits read" where
  "read_approval_limits r =
     and_then (read_array_len r) (\<lambda>(n, r).
     if n \<noteq> APPROVAL_LIMIT_FIELD_COUNT_V1 then Err InvalidCbor
     else
       and_then (read_usize r) (\<lambda>(minimum_selections, r).
       and_then (read_usize r) (\<lambda>(maximum_selections, r).
       and_then (read_bool r) (\<lambda>(allow_abstention, r).
       and_then (ApprovalLimits_new minimum_selections maximum_selections allow_abstention)
         (\<lambda>limits. Ok (limits, r))))))"

definition read_manifest_fields :: "nat \<Rightarrow> cbor_reader \<Rightarrow> election_manifest_v1_input read" where
  "read_manifest_fields field_count r =
     and_then (read_array_len r) (\<lambda>(n, r).
     if n \<noteq> field_count then Err InvalidCbor
     else
       and_then (read_u16 r) (\<lambda>(protocol_version, r).
       and_then (read_election_id r) (\<lambda>(election_id, r).
       and_then (read_ballot_kind r) (\<lambda>(ballot_kind, r).
       and_then (read_ballot_confidentiality r) (\<lambda>(ballot_confidentiality, r).
       and_then (read_commitment r) (\<lambda>(registry_commitment, r).
       and_then (read_commitment r) (\<lambda>(candidate_set_commitment, r).
       and_then (read_text_string r) (\<lambda>(proof_suite_id, r).
       and_then (read_approval_limits r) (\<lambda>(approval_limits, r).
       and_then (read_text_string r) (\<lambda>(governance_source_revision, r).
       Ok (\<lparr>em_protocol_version = protocol_version,
            em_election_id = election_id,
            em_ballot_kind = ballot_kind,
            em_ballot_confidentiality = ballot_confidentiality,
            em_registry_commitment = RegistryCommitment registry_commitment,
            em_candidate_set_commitment = CandidateSetCommitment candidate_set_commitment,
            em_proof_suite_id = proof_suite_id,
            em_approval_limits = approval_limits,
            em_governance_source_revision = governance_source_revision\<rparr>, r)))))))))))"

definition manifest_v1_from_canonical_cbor :: "bytes \<Rightarrow> election_manifest_v1 presult" where
  "manifest_v1_from_canonical_cbor encoded =
     (if length encoded > MAX_CANONICAL_OBJECT_BYTES then Err ProtocolLimitExceeded
      else
        and_then (read_manifest_fields MANIFEST_FIELD_COUNT_V1 (new_reader encoded)) (\<lambda>(inp, r).
        and_then (finish r) (\<lambda>_. ElectionManifestV1_new inp)))"

definition manifest_v2_from_canonical_cbor ::
  "(nat list \<Rightarrow> nat list) \<Rightarrow> bytes \<Rightarrow> election_manifest_v2 presult" where
  "manifest_v2_from_canonical_cbor nfc encoded =
     (if length encoded > MAX_CANONICAL_OBJECT_BYTES then Err ProtocolLimitExceeded
      else
        and_then (read_manifest_fields MANIFEST_FIELD_COUNT_V2 (new_reader encoded)) (\<lambda>(inp, r).
        and_then (read_text_string r) (\<lambda>(proposal_question, r).
        and_then (finish r) (\<lambda>_.
        ElectionManifestV2_new nfc
          (election_manifest_v1.extend inp \<lparr>emi_proposal_question = proposal_question\<rparr>)))))"

definition manifest_from_canonical_cbor ::
  "(nat list \<Rightarrow> nat list) \<Rightarrow> bytes \<Rightarrow> election_manifest presult" where
  "manifest_from_canonical_cbor nfc encoded =
     (if length encoded > MAX_CANONICAL_OBJECT_BYTES then Err ProtocolLimitExceeded
      else
        and_then (read_array_len (new_reader encoded)) (\<lambda>(n, r).
        if n = MANIFEST_FIELD_COUNT_V1 then map_ok V1 (manifest_v1_from_canonical_cbor encoded)
        else if n = MANIFEST_FIELD_COUNT_V2 then map_ok V2 (manifest_v2_from_canonical_cbor nfc encoded)
        else Err InvalidCbor))"

primrec manifest_to_canonical_cbor :: "election_manifest \<Rightarrow> bytes presult" where
  "manifest_to_canonical_cbor (V1 m) = manifest_v1_to_canonical_cbor m"
| "manifest_to_canonical_cbor (V2 m) = manifest_v2_to_canonical_cbor m"

section \<open>Hash and scope\<close>

definition manifest_v1_canonical_hash ::
  "hash_provider \<Rightarrow> election_manifest_v1 \<Rightarrow> manifest_hash presult" where
  "manifest_v1_canonical_hash provider m =
     and_then (manifest_v1_to_canonical_cbor m) (\<lambda>encoded.
     Ok (ManifestHash (hash_domain_separated provider ElectionManifestV1 encoded)))"

definition manifest_v2_canonical_hash ::
  "hash_provider \<Rightarrow> election_manifest_v2 \<Rightarrow> manifest_hash presult" where
  "manifest_v2_canonical_hash provider m =
     and_then (manifest_v2_to_canonical_cbor m) (\<lambda>encoded.
     Ok (ManifestHash (hash_domain_separated provider ElectionManifestV2 encoded)))"

primrec manifest_canonical_hash :: "hash_provider \<Rightarrow> election_manifest \<Rightarrow> manifest_hash presult" where
  "manifest_canonical_hash provider (V1 m) = manifest_v1_canonical_hash provider m"
| "manifest_canonical_hash provider (V2 m) = manifest_v2_canonical_hash provider m"

definition manifest_v1_canonical_scope ::
  "hash_provider \<Rightarrow> election_manifest_v1 \<Rightarrow> election_scope presult" where
  "manifest_v1_canonical_scope provider m =
     and_then (manifest_v1_canonical_hash provider m) (\<lambda>h. Ok (derive_election_scope provider h))"

definition manifest_v2_canonical_scope ::
  "hash_provider \<Rightarrow> election_manifest_v2 \<Rightarrow> election_scope presult" where
  "manifest_v2_canonical_scope provider m =
     and_then (manifest_v2_canonical_hash provider m) (\<lambda>h. Ok (derive_election_scope provider h))"

primrec manifest_canonical_scope :: "hash_provider \<Rightarrow> election_manifest \<Rightarrow> election_scope presult" where
  "manifest_canonical_scope provider (V1 m) = manifest_v1_canonical_scope provider m"
| "manifest_canonical_scope provider (V2 m) = manifest_v2_canonical_scope provider m"

section \<open>Well-formed manifests\<close>

definition wf_election_id :: "election_id \<Rightarrow> bool" where
  "wf_election_id e \<longleftrightarrow>
     election_id_bytes e \<noteq> [] \<and> length (election_id_bytes e) \<le> MAX_ELECTION_ID_BYTES"

definition wf_limits :: "approval_limits \<Rightarrow> bool" where
  "wf_limits l \<longleftrightarrow> al_minimum l \<le> al_maximum l \<and> al_maximum l \<le> usize_max"

definition wf_question :: "(nat list \<Rightarrow> nat list) \<Rightarrow> rstring \<Rightarrow> bool" where
  "wf_question nfc q \<longleftrightarrow>
     q \<noteq> [] \<and> (\<exists>c \<in> set (chars q). \<not> is_whitespace c)
     \<and> length q \<le> MAX_PROPOSAL_QUESTION_BYTES
     \<and> (chars q \<noteq> [] \<longrightarrow> \<not> is_whitespace (hd (chars q)) \<and> \<not> is_whitespace (last (chars q)))
     \<and> (\<forall>c \<in> set (chars q). \<not> is_forbidden_control c)
     \<and> nfc (chars q) = chars q"

text \<open>What the byte level guarantees of the common fields, before the constructor's checks.\<close>

definition wf_manifest_fields :: "'a election_manifest_v1_scheme \<Rightarrow> bool" where
  "wf_manifest_fields m \<longleftrightarrow>
     wf_election_id (em_election_id m) \<and> wf_limits (em_approval_limits m)
     \<and> len_ok (length (em_proof_suite_id m)) \<and> utf8_valid (em_proof_suite_id m)
     \<and> len_ok (length (em_governance_source_revision m)) \<and> utf8_valid (em_governance_source_revision m)"

definition wf_manifest_v1 :: "'a election_manifest_v1_scheme \<Rightarrow> bool" where
  "wf_manifest_v1 m \<longleftrightarrow>
     wf_manifest_fields m \<and> em_protocol_version m = PROTOCOL_VERSION_V1
     \<and> \<not> trim_is_empty (em_proof_suite_id m)
     \<and> length (em_proof_suite_id m) \<le> MAX_PROOF_SUITE_ID_BYTES
     \<and> \<not> trim_is_empty (em_governance_source_revision m)
     \<and> length (em_governance_source_revision m) \<le> MAX_GOVERNANCE_REVISION_BYTES"

definition wf_manifest_v2 :: "(nat list \<Rightarrow> nat list) \<Rightarrow> election_manifest_v2 \<Rightarrow> bool" where
  "wf_manifest_v2 nfc m \<longleftrightarrow>
     wf_manifest_v1 m \<and> wf_question nfc (proposal_question_str (em_proposal_question m))
     \<and> utf8_valid (proposal_question_str (em_proposal_question m))"

primrec wf_manifest :: "(nat list \<Rightarrow> nat list) \<Rightarrow> election_manifest \<Rightarrow> bool" where
  "wf_manifest nfc (V1 m) = wf_manifest_v1 m"
| "wf_manifest nfc (V2 m) = wf_manifest_v2 nfc m"

lemma ElectionId_new_Ok_iff [result_inv]:
  "ElectionId_new bs = Ok e \<longleftrightarrow> wf_election_id e \<and> bs = election_id_bytes e"
  by (cases e) (auto simp: ElectionId_new_def wf_election_id_def)

lemma ApprovalLimits_new_Ok_iff [result_inv]:
  "ApprovalLimits_new mn mx ab = Ok l \<longleftrightarrow>
     mn \<le> mx \<and> l = \<lparr>al_minimum = mn, al_maximum = mx, al_allow_abstention = ab\<rparr>"
  by (auto simp: ApprovalLimits_new_def)

lemma ProposalQuestion_new_Ok_iff [result_inv]:
  "ProposalQuestion_new nfc v = Ok q \<longleftrightarrow> q = ProposalQuestion v \<and> wf_question nfc v"
proof -
  have "is_forbidden_control 10" "is_forbidden_control 13" by (simp_all add: is_forbidden_control_def)
  then have nl: "list_ex is_forbidden_control cs" if "list_ex (\<lambda>c. c = 10 \<or> c = 13) cs" for cs
    using that by (auto simp: list_ex_iff)
  have hd: "(case cs of c # _ \<Rightarrow> is_whitespace c | [] \<Rightarrow> False) \<longleftrightarrow> cs \<noteq> [] \<and> is_whitespace (hd cs)" for cs
    by (cases cs) auto
  show ?thesis
    unfolding ProposalQuestion_new_def wf_question_def hd
    using nl [of "chars v"] by (auto simp: list_all_iff list_ex_iff hd_rev)
qed

lemma check_manifest_fields_Ok_iff:
  "wf_manifest_fields m \<and> check_manifest_fields m = Ok u \<longleftrightarrow> wf_manifest_v1 m"
  by (auto simp: check_manifest_fields_def wf_manifest_v1_def)

section \<open>The codecs\<close>

lemma ballot_kind_from_identifier_Ok_iff [result_inv]:
  "ballot_kind_from_identifier s = Ok k \<longleftrightarrow> s = ballot_kind_as_str k"
  by (cases k) (auto simp: ballot_kind_from_identifier_def)

lemma ballot_confidentiality_from_identifier_Ok_iff [result_inv]:
  "ballot_confidentiality_from_identifier s = Ok k \<longleftrightarrow> s = ballot_confidentiality_as_str k"
  by (cases k) (auto simp: ballot_confidentiality_from_identifier_def)

lemma as_str_valid [simp]:
  "length (ballot_kind_as_str k) = 26" "utf8_valid (ballot_kind_as_str k)"
  "length (ballot_confidentiality_as_str c) = 6" "utf8_valid (ballot_confidentiality_as_str c)"
  by (cases k; cases c; simp add: lit_def utf8_valid_ascii)+

interpretation commitment_c: cbor_codec read_commitment "\<lambda>a. enc_bytes (arr_bytes a)" "\<lambda>_. True"
  unfolding read_commitment_def [abs_def]
  by (rule bytes_c.codec_validated [where proj = arr_bytes and valid = "\<lambda>_. True"])
    (auto simp: result_inv array32_Some_iff)

interpretation u16_c: cbor_codec read_u16 "\<lambda>v. enc_unsigned (ucast v)" "\<lambda>_. True"
  unfolding read_u16_def [abs_def]
  by (rule unsigned_c.codec_validated [where proj = ucast and valid = "\<lambda>_. True"])
    (auto simp: result_inv u16_of_u64_Some_iff)

interpretation usize_c: cbor_codec read_usize "\<lambda>n. enc_unsigned (word_of_nat n)" "\<lambda>n. n \<le> usize_max"
proof -
  have "ok_or InvalidCbor (usize_of_u64 v) = Ok n \<longleftrightarrow> n \<le> usize_max \<and> v = word_of_nat n" for v n
    using unat_u64_bound [of v] unat_len [of n]
    by (auto simp: usize_max_def len_ok_def)
  then show "cbor_codec read_usize (\<lambda>n. enc_unsigned (word_of_nat n)) (\<lambda>n. n \<le> usize_max)"
    unfolding read_usize_def [abs_def]
    by (intro unsigned_c.codec_validated [where proj = word_of_nat]) auto
qed

interpretation election_id_c: cbor_codec read_election_id "\<lambda>e. enc_bytes (election_id_bytes e)" wf_election_id
  unfolding read_election_id_def [abs_def]
  by (rule bytes_c.codec_validated [where proj = election_id_bytes and valid = wf_election_id])
    (auto simp: result_inv wf_election_id_def limits_def len_ok_def)

interpretation ballot_kind_c: cbor_codec read_ballot_kind "\<lambda>k. enc_text (ballot_kind_as_str k)" "\<lambda>_. True"
  unfolding read_ballot_kind_def [abs_def]
  by (rule text_c.codec_validated [where proj = ballot_kind_as_str and valid = "\<lambda>_. True"])
    (auto simp: result_inv)

interpretation ballot_confidentiality_c:
  cbor_codec read_ballot_confidentiality "\<lambda>k. enc_text (ballot_confidentiality_as_str k)" "\<lambda>_. True"
  unfolding read_ballot_confidentiality_def [abs_def]
  by (rule text_c.codec_validated [where proj = ballot_confidentiality_as_str and valid = "\<lambda>_. True"])
    (auto simp: result_inv)

definition limits_enc :: "approval_limits \<Rightarrow> bytes" where
  "limits_enc l = enc_len MAJOR_ARRAY APPROVAL_LIMIT_FIELD_COUNT_V1
     @ enc_unsigned (word_of_nat (al_minimum l)) @ enc_unsigned (word_of_nat (al_maximum l))
     @ enc_bool (al_allow_abstention l)"

lemma field_counts_ok [simp]:
  "len_ok MANIFEST_FIELD_COUNT_V1" "len_ok MANIFEST_FIELD_COUNT_V2" "len_ok APPROVAL_LIMIT_FIELD_COUNT_V1"
  by (simp_all add: field_counts)

interpretation limits_c: cbor_codec read_approval_limits limits_enc wf_limits
proof unfold_locales
  fix l pre rest
  assume "wf_limits l" and "fits (pre @ limits_enc l @ rest)"
  then show "read_approval_limits (rd pre (limits_enc l @ rest)) = Ok (l, rd (pre @ limits_enc l) rest)"
    by (simp add: read_approval_limits_def limits_enc_def array_c.read_enc usize_c.read_enc
        bool_c.read_enc wf_limits_def ApprovalLimits_new_def)
next
  fix pre bs l r
  assume "read_approval_limits (rd pre bs) = Ok (l, r)"
  then show "wf_limits l \<and> (\<exists>rest. bs = limits_enc l @ rest \<and> r = rd (pre @ limits_enc l) rest)"
    by (auto simp: read_approval_limits_def result_inv limits_enc_def wf_limits_def
        dest!: array_c.enc_read usize_c.enc_read bool_c.enc_read split: if_splits)
qed

definition manifest_fields_enc :: "nat \<Rightarrow> 'a election_manifest_v1_scheme \<Rightarrow> bytes" where
  "manifest_fields_enc field_count m =
     enc_len MAJOR_ARRAY field_count @ enc_unsigned (ucast (em_protocol_version m))
     @ enc_bytes (election_id_bytes (em_election_id m))
     @ enc_text (ballot_kind_as_str (em_ballot_kind m))
     @ enc_text (ballot_confidentiality_as_str (em_ballot_confidentiality m))
     @ enc_bytes (arr_bytes (registry_commitment_bytes (em_registry_commitment m)))
     @ enc_bytes (arr_bytes (candidate_set_commitment_bytes (em_candidate_set_commitment m)))
     @ enc_text (em_proof_suite_id m) @ limits_enc (em_approval_limits m)
     @ enc_text (em_governance_source_revision m)"

lemmas manifest_item_read =
  array_c.read_enc u16_c.read_enc election_id_c.read_enc ballot_kind_c.read_enc
  ballot_confidentiality_c.read_enc commitment_c.read_enc text_c.read_enc limits_c.read_enc

lemma read_manifest_fields_enc:
  assumes "len_ok n" "wf_manifest_fields m" "fits (pre @ manifest_fields_enc n m @ rest)"
  shows "read_manifest_fields n (rd pre (manifest_fields_enc n m @ rest))
         = Ok (election_manifest_v1.truncate m, rd (pre @ manifest_fields_enc n m) rest)"
  using assms
  by (simp add: read_manifest_fields_def manifest_fields_enc_def manifest_item_read
      wf_manifest_fields_def election_manifest_v1.truncate_def)

lemma read_manifest_fields_Ok:
  assumes "read_manifest_fields n (rd pre bs) = Ok (m, r)"
  shows "wf_manifest_fields m \<and> (\<exists>rest. bs = manifest_fields_enc n m @ rest
           \<and> r = rd (pre @ manifest_fields_enc n m) rest)"
  using assms
  by (auto simp: read_manifest_fields_def result_inv manifest_fields_enc_def wf_manifest_fields_def
      dest!: array_c.enc_read u16_c.enc_read election_id_c.enc_read ballot_kind_c.enc_read
        ballot_confidentiality_c.enc_read commitment_c.enc_read text_c.enc_read limits_c.enc_read
      split: if_splits)

lemma write_approval_limits_append:
  "wf_limits l \<Longrightarrow> write_approval_limits l \<lparr>w_output = out\<rparr> = Ok \<lparr>w_output = out @ limits_enc l\<rparr>"
  by (simp add: write_approval_limits_def limits_enc_def wf_limits_def u64_of_usize_def usize_max_def)

lemma write_manifest_fields_append:
  assumes "len_ok n" "wf_manifest_fields m"
  shows "write_manifest_fields n m \<lparr>w_output = out\<rparr> = Ok \<lparr>w_output = out @ manifest_fields_enc n m\<rparr>"
proof -
  have "len_ok (length (election_id_bytes (em_election_id m)))"
    using assms by (auto simp: wf_manifest_fields_def wf_election_id_def limits_def len_ok_def)
  then show ?thesis
    using assms by (simp add: write_manifest_fields_def manifest_fields_enc_def
        write_approval_limits_append wf_manifest_fields_def)
qed

lemma length_limits_enc: "length (limits_enc l) \<le> 22"
  using length_enc_len [of 3 MAJOR_ARRAY] length_enc_unsigned [of "word_of_nat (al_minimum l)"]
    length_enc_unsigned [of "word_of_nat (al_maximum l)"]
  by (simp add: limits_enc_def field_counts enc_bool_def)

lemma length_manifest_fields_enc:
  assumes "wf_manifest_v1 m" "n \<le> 10"
  shows "length (manifest_fields_enc n m) \<le> 1000"
  using assms length_enc_len [of n MAJOR_ARRAY] length_enc_unsigned [of "ucast (em_protocol_version m)"]
    length_enc_bytes [of "election_id_bytes (em_election_id m)"]
    length_enc_text [of "ballot_kind_as_str (em_ballot_kind m)"]
    length_enc_text [of "ballot_confidentiality_as_str (em_ballot_confidentiality m)"]
    length_enc_bytes [of "arr_bytes (registry_commitment_bytes (em_registry_commitment m))"]
    length_enc_bytes [of "arr_bytes (candidate_set_commitment_bytes (em_candidate_set_commitment m))"]
    length_enc_text [of "em_proof_suite_id m"] length_limits_enc [of "em_approval_limits m"]
    length_enc_text [of "em_governance_source_revision m"]
  by (simp add: manifest_fields_enc_def wf_manifest_v1_def wf_manifest_fields_def wf_election_id_def limits_def)

subsection \<open>Version one\<close>

lemma manifest_v1_to_canonical_cbor_eq:
  "wf_manifest_v1 m \<Longrightarrow>
     manifest_v1_to_canonical_cbor m = Ok (manifest_fields_enc MANIFEST_FIELD_COUNT_V1 m)"
  using length_manifest_fields_enc [of m MANIFEST_FIELD_COUNT_V1]
  by (simp add: manifest_v1_to_canonical_cbor_def write_manifest_fields_append wf_manifest_v1_def
      limits_def field_counts)

lemma fits_manifest_fields_enc:
  "wf_manifest_v1 m \<Longrightarrow> n \<le> 10 \<Longrightarrow> length bs \<le> 1000 \<Longrightarrow> fits (manifest_fields_enc n m @ bs)"
  using length_manifest_fields_enc [of m n] by (simp add: fits_def usize_max_def)

lemma manifest_v1_decode_enc:
  assumes "wf_manifest_v1 m"
  shows "manifest_v1_from_canonical_cbor (manifest_fields_enc MANIFEST_FIELD_COUNT_V1 m) = Ok m"
proof -
  have "read_manifest_fields MANIFEST_FIELD_COUNT_V1 (rd [] (manifest_fields_enc MANIFEST_FIELD_COUNT_V1 m))
      = Ok (m, rd (manifest_fields_enc MANIFEST_FIELD_COUNT_V1 m) [])"
    using read_manifest_fields_enc [of MANIFEST_FIELD_COUNT_V1 m "[]" "[]"]
      fits_manifest_fields_enc [OF assms, of MANIFEST_FIELD_COUNT_V1 "[]"] assms
    by (simp add: wf_manifest_v1_def field_counts election_manifest_v1.truncate_def)
  moreover have "check_manifest_fields m = Ok ()"
    using assms check_manifest_fields_Ok_iff by blast
  moreover have "length (manifest_fields_enc MANIFEST_FIELD_COUNT_V1 m) \<le> MAX_CANONICAL_OBJECT_BYTES"
    using length_manifest_fields_enc [OF assms, of MANIFEST_FIELD_COUNT_V1]
    by (simp add: field_counts limits_def)
  ultimately show ?thesis
    by (simp add: manifest_v1_from_canonical_cbor_def new_reader_rd ElectionManifestV1_new_def)
qed

lemma manifest_v1_decode_Ok:
  assumes "manifest_v1_from_canonical_cbor bs = Ok m"
  shows "wf_manifest_v1 m \<and> manifest_fields_enc MANIFEST_FIELD_COUNT_V1 m = bs"
proof -
  from assms obtain r where r: "read_manifest_fields MANIFEST_FIELD_COUNT_V1 (rd [] bs) = Ok (m, r)"
    "finish r = Ok ()" "check_manifest_fields m = Ok ()"
    by (auto simp: manifest_v1_from_canonical_cbor_def new_reader_rd ElectionManifestV1_new_def
        result_inv)
  from read_manifest_fields_Ok [OF r(1)] r(2,3) show ?thesis
    using check_manifest_fields_Ok_iff [of m "()"] by (auto split: if_splits)
qed

interpretation manifest_v1_codec:
  object_codec manifest_v1_from_canonical_cbor manifest_v1_to_canonical_cbor wf_manifest_v1
  by unfold_locales
    (auto simp: manifest_v1_to_canonical_cbor_eq manifest_v1_decode_enc dest!: manifest_v1_decode_Ok)

subsection \<open>Version two\<close>

definition manifest_v2_enc :: "election_manifest_v2 \<Rightarrow> bytes" where
  "manifest_v2_enc m = manifest_fields_enc MANIFEST_FIELD_COUNT_V2 m
     @ enc_text (proposal_question_str (em_proposal_question m))"

lemma question_len_ok: "wf_question nfc q \<Longrightarrow> len_ok (length q)"
  by (auto simp: wf_question_def limits_def len_ok_def)

lemma length_question_enc: "wf_question nfc q \<Longrightarrow> length (enc_text q) \<le> 515"
  using length_enc_text [of q] by (simp add: wf_question_def limits_def)

lemma length_manifest_v2_enc: "wf_manifest_v2 nfc m \<Longrightarrow> length (manifest_v2_enc m) \<le> MAX_CANONICAL_OBJECT_BYTES"
  using length_manifest_fields_enc [of m MANIFEST_FIELD_COUNT_V2]
    length_question_enc [of nfc "proposal_question_str (em_proposal_question m)"]
  by (simp add: manifest_v2_enc_def wf_manifest_v2_def limits_def field_counts)

lemma manifest_v2_to_canonical_cbor_eq:
  assumes "wf_manifest_v2 nfc m"
  shows "manifest_v2_to_canonical_cbor m = Ok (manifest_v2_enc m)"
  using length_manifest_v2_enc [OF assms] assms
    question_len_ok [of nfc "proposal_question_str (em_proposal_question m)"]
  by (simp add: manifest_v2_to_canonical_cbor_def write_manifest_fields_append wf_manifest_v1_def
      wf_manifest_v2_def manifest_v2_enc_def)

lemma manifest_fields_enc_truncate [simp]:
  "manifest_fields_enc n (election_manifest_v1.truncate m) = manifest_fields_enc n m"
  by (simp add: manifest_fields_enc_def election_manifest_v1.truncate_def)

lemma ElectionManifestV2_new_Ok_iff:
  "wf_manifest_fields inp \<and> ElectionManifestV2_new nfc
       (election_manifest_v1.extend inp \<lparr>emi_proposal_question = q\<rparr>) = Ok m \<longleftrightarrow>
     wf_manifest_v1 m \<and> wf_question nfc q \<and> inp = election_manifest_v1.truncate m
     \<and> em_proposal_question m = ProposalQuestion q"
  by (cases inp; cases m)
    (auto simp: ElectionManifestV2_new_def result_inv election_manifest_v1.extend_def
      election_manifest_v1.truncate_def check_manifest_fields_def wf_manifest_v1_def wf_manifest_fields_def)

lemma manifest_v2_decode_enc:
  assumes wf: "wf_manifest_v2 nfc m"
  shows "manifest_v2_from_canonical_cbor nfc (manifest_v2_enc m) = Ok m"
proof -
  obtain q where q: "em_proposal_question m = ProposalQuestion q" by (cases "em_proposal_question m")
  have m1: "wf_manifest_v1 m" "wf_question nfc q" "utf8_valid q" using wf q by (simp_all add: wf_manifest_v2_def)
  have fit: "fits (manifest_fields_enc MANIFEST_FIELD_COUNT_V2 m @ enc_text q)"
    using length_question_enc [OF m1(2)] m1(1)
    by (intro fits_manifest_fields_enc) (simp_all add: field_counts)
  have "read_manifest_fields MANIFEST_FIELD_COUNT_V2 (rd [] (manifest_v2_enc m))
      = Ok (election_manifest_v1.truncate m, rd (manifest_fields_enc MANIFEST_FIELD_COUNT_V2 m) (enc_text q))"
    using read_manifest_fields_enc [of MANIFEST_FIELD_COUNT_V2 m "[]" "enc_text q"] m1 fit q
    by (simp add: wf_manifest_v1_def manifest_v2_enc_def)
  moreover have "read_text_string (rd (manifest_fields_enc MANIFEST_FIELD_COUNT_V2 m) (enc_text q))
      = Ok (q, rd (manifest_v2_enc m) [])"
    using m1 fit q question_len_ok [OF m1(2)] by (simp add: text_c.read_enc_end manifest_v2_enc_def)
  moreover have "ElectionManifestV2_new nfc (election_manifest_v1.extend (election_manifest_v1.truncate m)
      \<lparr>emi_proposal_question = q\<rparr>) = Ok m"
    using m1 q ElectionManifestV2_new_Ok_iff by blast
  ultimately show ?thesis
    using length_manifest_v2_enc [OF wf] by (simp add: manifest_v2_from_canonical_cbor_def new_reader_rd)
qed

lemma manifest_v2_decode_Ok:
  assumes "manifest_v2_from_canonical_cbor nfc bs = Ok m"
  shows "wf_manifest_v2 nfc m \<and> manifest_v2_enc m = bs"
proof -
  from assms obtain inp r q r' where
    inp: "read_manifest_fields MANIFEST_FIELD_COUNT_V2 (rd [] bs) = Ok (inp, r)" and
    q: "read_text_string r = Ok (q, r')" and fin: "finish r' = Ok ()" and
    new: "ElectionManifestV2_new nfc (election_manifest_v1.extend inp \<lparr>emi_proposal_question = q\<rparr>) = Ok m"
    by (auto simp: manifest_v2_from_canonical_cbor_def new_reader_rd result_inv split: if_splits)
  from read_manifest_fields_Ok [OF inp] obtain rest where
    m: "wf_manifest_fields inp" "bs = manifest_fields_enc MANIFEST_FIELD_COUNT_V2 inp @ rest"
    "r = rd (manifest_fields_enc MANIFEST_FIELD_COUNT_V2 inp) rest" by auto
  from text_c.enc_read [OF q [unfolded m(3)]] fin have "rest = enc_text q" "utf8_valid q"
    by (auto split: if_splits)
  with m new ElectionManifestV2_new_Ok_iff [of inp nfc q m] show ?thesis
    by (simp add: wf_manifest_v2_def manifest_v2_enc_def)
qed

interpretation manifest_v2_codec:
  object_codec "manifest_v2_from_canonical_cbor nfc" manifest_v2_to_canonical_cbor "wf_manifest_v2 nfc"
  for nfc
  by unfold_locales
    (auto simp: manifest_v2_to_canonical_cbor_eq manifest_v2_decode_enc dest!: manifest_v2_decode_Ok)

subsection \<open>The dispatching codec\<close>

lemma manifest_fields_enc_header:
  "len_ok n \<Longrightarrow> fits (manifest_fields_enc n m @ rest) \<Longrightarrow>
     \<exists>r. read_array_len (rd [] (manifest_fields_enc n m @ rest)) = Ok (n, r)"
  by (simp add: manifest_fields_enc_def array_c.read_enc [where pre = "[]", simplified])

interpretation manifest_codec:
  object_codec "manifest_from_canonical_cbor nfc" manifest_to_canonical_cbor "wf_manifest nfc"
  for nfc
proof unfold_locales
  fix m bs
  assume wf: "wf_manifest nfc m" and enc: "manifest_to_canonical_cbor m = Ok bs"
  show "manifest_from_canonical_cbor nfc bs = Ok m"
  proof (cases m)
    case (V1 m1)
    then have bs: "bs = manifest_fields_enc MANIFEST_FIELD_COUNT_V1 m1"
      using wf enc by (simp add: manifest_v1_to_canonical_cbor_eq)
    have "fits (manifest_fields_enc MANIFEST_FIELD_COUNT_V1 m1 @ [])"
      using wf V1 by (intro fits_manifest_fields_enc) (simp_all add: field_counts)
    from manifest_fields_enc_header [OF _ this] show ?thesis
      using wf V1 bs length_manifest_fields_enc [of m1 MANIFEST_FIELD_COUNT_V1] manifest_v1_decode_enc [of m1]
      by (auto simp: manifest_from_canonical_cbor_def new_reader_rd limits_def field_counts)
  next
    case (V2 m2)
    let ?q = "proposal_question_str (em_proposal_question m2)"
    have bs: "bs = manifest_v2_enc m2"
      using wf enc V2 by (simp add: manifest_v2_to_canonical_cbor_eq)
    have "fits (manifest_fields_enc MANIFEST_FIELD_COUNT_V2 m2 @ enc_text ?q)"
      using wf V2 length_question_enc [of nfc ?q]
      by (intro fits_manifest_fields_enc) (simp_all add: field_counts wf_manifest_v2_def)
    from manifest_fields_enc_header [OF _ this] show ?thesis
      using wf V2 bs length_manifest_v2_enc [of nfc m2] manifest_v2_decode_enc [of nfc m2]
      by (auto simp: manifest_from_canonical_cbor_def new_reader_rd manifest_v2_enc_def field_counts)
  qed
next
  fix bs m
  assume "manifest_from_canonical_cbor nfc bs = Ok m"
  then show "wf_manifest nfc m \<and> manifest_to_canonical_cbor m = Ok bs"
    by (auto simp: manifest_from_canonical_cbor_def result_inv manifest_v1_codec.decode_iff
        manifest_v2_codec.decode_iff split: if_splits)
qed

text \<open>
  The two versions hash under different domains, so a manifest hash identifies the manifest and
  its version, unless two frames collide.
\<close>

primrec manifest_domain :: "election_manifest \<Rightarrow> hash_domain" where
  "manifest_domain (V1 m) = ElectionManifestV1"
| "manifest_domain (V2 m) = ElectionManifestV2"

lemma manifest_canonical_hash_Ok_iff:
  "manifest_canonical_hash p m = Ok h \<longleftrightarrow>
     (\<exists>bs. manifest_to_canonical_cbor m = Ok bs
        \<and> h = ManifestHash (hash_domain_separated p (manifest_domain m) bs))"
  by (cases m) (auto simp: manifest_v1_canonical_hash_def manifest_v2_canonical_hash_def result_inv)

lemma manifest_canonical_scope_eq:
  "manifest_canonical_scope p m = and_then (manifest_canonical_hash p m) (\<lambda>h. Ok (derive_election_scope p h))"
  by (cases m) (simp_all add: manifest_v1_canonical_scope_def manifest_v2_canonical_scope_def)

lemma manifest_to_canonical_cbor_total:
  "wf_manifest nfc m \<Longrightarrow> \<exists>bs. manifest_to_canonical_cbor m = Ok bs"
  by (cases m) (auto simp: manifest_v1_to_canonical_cbor_eq manifest_v2_to_canonical_cbor_eq)

lemma manifest_hash_binding:
  assumes "wf_manifest nfc m" "wf_manifest nfc m'"
    and "manifest_canonical_hash p m = Ok h" "manifest_canonical_hash p m' = Ok h"
  shows "m = m' \<or> encodings_collide p (manifest_domain m) (manifest_to_canonical_cbor m)
    (manifest_domain m') (manifest_to_canonical_cbor m')"
proof -
  from assms(3,4) obtain bs bs' where
    enc: "manifest_to_canonical_cbor m = Ok bs" "manifest_to_canonical_cbor m' = Ok bs'" and
    eq: "hash_domain_separated p (manifest_domain m) bs = hash_domain_separated p (manifest_domain m') bs'"
    by (auto simp: manifest_canonical_hash_Ok_iff)
  show ?thesis
  proof (cases "(manifest_domain m, bs) = (manifest_domain m', bs')")
    case True
    then show ?thesis using manifest_codec.encode_inj [OF assms(1,2) enc(1)] enc(2) by simp
  next
    case False
    then show ?thesis using hash_domain_separated_collision [OF eq False] enc by (simp add: encodings_collide_def)
  qed
qed

end
