(* ===== verification/Ballot_Package.thy ===== *)
theory Ballot_Package
  imports Election_Manifest
begin

text \<open>
  Ballot packages (crates/ballot/src/package.rs): the self-contained submission of one voter, its
  envelope decoded before the candidate set is known, the binding check against a manifest, and
  the canonical form and hash of the package.
\<close>

definition BALLOT_PACKAGE_V1_FIELD_COUNT :: nat where "BALLOT_PACKAGE_V1_FIELD_COUNT = 5"

record ballot_package_v1 =
  pk_protocol_version :: u16
  pk_manifest_hash :: manifest_hash
  pk_proof_suite_id :: rstring
  pk_proof :: bytes
  pk_payload :: approval_ballot_payload

text \<open>\<open>BallotPackageV1Input\<close> has the fields of the package it is validated into.\<close>

type_synonym ballot_package_v1_input = ballot_package_v1

record ballot_package_envelope_v1 =
  ev_protocol_version :: u16
  ev_manifest_hash :: manifest_hash
  ev_proof_suite_id :: rstring
  ev_proof :: bytes
  ev_payload_bytes :: bytes

definition BallotPackageV1_new :: "ballot_package_v1_input \<Rightarrow> ballot_package_v1 presult" where
  "BallotPackageV1_new inp =
     (if pk_protocol_version inp \<noteq> PROTOCOL_VERSION_V1 then Err UnsupportedProtocolVersion
      else if trim_is_empty (pk_proof_suite_id inp) then Err EmptyProofSuiteId
      else if length (pk_proof_suite_id inp) > MAX_PROOF_SUITE_ID_BYTES then
        Err ProtocolLimitExceeded
      else if length (pk_proof inp) > MAX_PROOF_BYTES then Err ProtocolLimitExceeded
      else Ok \<lparr>pk_protocol_version = pk_protocol_version inp,
               pk_manifest_hash = pk_manifest_hash inp,
               pk_proof_suite_id = pk_proof_suite_id inp,
               pk_proof = pk_proof inp,
               pk_payload = pk_payload inp\<rparr>)"

definition package_to_canonical_cbor :: "ballot_package_v1 \<Rightarrow> bytes presult" where
  "package_to_canonical_cbor p =
     and_then (payload_to_canonical_cbor (pk_payload p)) (\<lambda>payload_bytes.
     and_then (write_array_len BALLOT_PACKAGE_V1_FIELD_COUNT new_writer) (\<lambda>w.
     let w = write_unsigned (ucast (pk_protocol_version p)) w in
     and_then (write_byte_string (arr_bytes (manifest_hash_bytes (pk_manifest_hash p))) w) (\<lambda>w.
     and_then (write_text_string (pk_proof_suite_id p) w) (\<lambda>w.
     and_then (write_byte_string payload_bytes w) (\<lambda>w.
     and_then (write_byte_string (pk_proof p) w) (\<lambda>w.
     let encoded = into_bytes w in
     if length encoded > MAX_CANONICAL_OBJECT_BYTES then Err ProtocolLimitExceeded
     else Ok encoded))))))"

definition envelope_to_canonical_cbor :: "ballot_package_envelope_v1 \<Rightarrow> bytes presult" where
  "envelope_to_canonical_cbor e =
     and_then (write_array_len BALLOT_PACKAGE_V1_FIELD_COUNT new_writer) (\<lambda>w.
     let w = write_unsigned (ucast (ev_protocol_version e)) w in
     and_then (write_byte_string (arr_bytes (manifest_hash_bytes (ev_manifest_hash e))) w) (\<lambda>w.
     and_then (write_text_string (ev_proof_suite_id e) w) (\<lambda>w.
     and_then (write_byte_string (ev_payload_bytes e) w) (\<lambda>w.
     and_then (write_byte_string (ev_proof e) w) (\<lambda>w.
     let encoded = into_bytes w in
     if length encoded > MAX_CANONICAL_OBJECT_BYTES then Err ProtocolLimitExceeded
     else Ok encoded)))))"

definition read_manifest_hash :: "cbor_reader \<Rightarrow> manifest_hash read" where
  "read_manifest_hash r =
     and_then (read_byte_string r) (\<lambda>(bs, r).
     and_then (ok_or InvalidData (array32 bs)) (\<lambda>a. Ok (ManifestHash a, r)))"

definition envelope_from_canonical_cbor :: "bytes \<Rightarrow> ballot_package_envelope_v1 presult" where
  "envelope_from_canonical_cbor encoded =
     (if length encoded > MAX_CANONICAL_OBJECT_BYTES then Err ProtocolLimitExceeded
      else
        and_then (read_array_len (new_reader encoded)) (\<lambda>(n, r).
        if n \<noteq> BALLOT_PACKAGE_V1_FIELD_COUNT then Err InvalidCbor
        else
          and_then (read_u16 r) (\<lambda>(protocol_version, r).
          and_then (read_manifest_hash r) (\<lambda>(manifest_hash, r).
          and_then (read_text_string r) (\<lambda>(proof_suite_id, r).
          and_then (read_byte_string r) (\<lambda>(payload_bytes, r).
          and_then (read_byte_string r) (\<lambda>(proof_bytes, r).
          if trim_is_empty proof_suite_id then Err EmptyProofSuiteId
          else if length proof_suite_id > MAX_PROOF_SUITE_ID_BYTES then Err ProtocolLimitExceeded
          else if length proof_bytes > MAX_PROOF_BYTES then Err ProtocolLimitExceeded
          else
            and_then (finish r) (\<lambda>_.
            let envelope = \<lparr>ev_protocol_version = protocol_version,
                            ev_manifest_hash = manifest_hash,
                            ev_proof_suite_id = proof_suite_id,
                            ev_proof = proof_bytes,
                            ev_payload_bytes = payload_bytes\<rparr> in
            if ev_protocol_version envelope \<noteq> PROTOCOL_VERSION_V1 then
              Err UnsupportedProtocolVersion
            else
              and_then (envelope_to_canonical_cbor envelope) (\<lambda>reencoded.
              if reencoded \<noteq> encoded then Err NonCanonicalCbor
              else Ok envelope)))))))))"

definition envelope_validate_manifest_binding ::
  "ballot_package_envelope_v1 \<Rightarrow> manifest_hash \<Rightarrow> rstring \<Rightarrow> unit presult" where
  "envelope_validate_manifest_binding e expected_manifest_hash expected_proof_suite_id =
     (if ev_manifest_hash e \<noteq> expected_manifest_hash then Err WrongManifestHash
      else if ev_proof_suite_id e \<noteq> expected_proof_suite_id then Err UnsupportedProofSuite
      else Ok ())"

definition package_validate_manifest_binding ::
  "ballot_package_v1 \<Rightarrow> manifest_hash \<Rightarrow> rstring \<Rightarrow> unit presult" where
  "package_validate_manifest_binding p expected_manifest_hash expected_proof_suite_id =
     (if pk_manifest_hash p \<noteq> expected_manifest_hash then Err WrongManifestHash
      else if pk_proof_suite_id p \<noteq> expected_proof_suite_id then Err UnsupportedProofSuite
      else Ok ())"

definition into_ballot_package ::
  "ballot_package_envelope_v1 \<Rightarrow> candidate_set \<Rightarrow> approval_limits \<Rightarrow> ballot_package_v1 presult" where
  "into_ballot_package e candidates limits =
     and_then (payload_from_canonical_cbor candidates limits (ev_payload_bytes e)) (\<lambda>payload.
     and_then (payload_to_canonical_cbor payload) (\<lambda>reencoded.
     if reencoded \<noteq> ev_payload_bytes e then Err NonCanonicalCbor
     else
       BallotPackageV1_new
         \<lparr>pk_protocol_version = ev_protocol_version e,
          pk_manifest_hash = ev_manifest_hash e,
          pk_proof_suite_id = ev_proof_suite_id e,
          pk_proof = ev_proof e,
          pk_payload = payload\<rparr>))"

definition package_from_canonical_cbor ::
  "candidate_set \<Rightarrow> approval_limits \<Rightarrow> bytes \<Rightarrow> ballot_package_v1 presult" where
  "package_from_canonical_cbor candidates limits encoded =
     and_then (envelope_from_canonical_cbor encoded) (\<lambda>e. into_ballot_package e candidates limits)"

definition package_canonical_hash :: "hash_provider \<Rightarrow> ballot_package_v1 \<Rightarrow> bytes32 presult" where
  "package_canonical_hash provider p =
     and_then (package_to_canonical_cbor p) (\<lambda>encoded.
     Ok (hash_domain_separated provider BallotPackageV1 encoded))"

section \<open>Well-formed envelopes and packages\<close>

definition wf_envelope :: "ballot_package_envelope_v1 \<Rightarrow> bool" where
  "wf_envelope e \<longleftrightarrow>
     ev_protocol_version e = PROTOCOL_VERSION_V1 \<and> utf8_valid (ev_proof_suite_id e)
     \<and> \<not> trim_is_empty (ev_proof_suite_id e)
     \<and> length (ev_proof_suite_id e) \<le> MAX_PROOF_SUITE_ID_BYTES
     \<and> length (ev_proof e) \<le> MAX_PROOF_BYTES \<and> len_ok (length (ev_payload_bytes e))"

definition wf_package :: "candidate_set \<Rightarrow> approval_limits \<Rightarrow> ballot_package_v1 \<Rightarrow> bool" where
  "wf_package cs limits p \<longleftrightarrow>
     pk_protocol_version p = PROTOCOL_VERSION_V1 \<and> utf8_valid (pk_proof_suite_id p)
     \<and> \<not> trim_is_empty (pk_proof_suite_id p)
     \<and> length (pk_proof_suite_id p) \<le> MAX_PROOF_SUITE_ID_BYTES
     \<and> length (pk_proof p) \<le> MAX_PROOF_BYTES \<and> wf_payload cs limits (pk_payload p)"

lemma BallotPackageV1_new_Ok_iff:
  "BallotPackageV1_new inp = Ok p \<longleftrightarrow>
     p = inp \<and> pk_protocol_version p = PROTOCOL_VERSION_V1 \<and> \<not> trim_is_empty (pk_proof_suite_id p)
     \<and> length (pk_proof_suite_id p) \<le> MAX_PROOF_SUITE_ID_BYTES \<and> length (pk_proof p) \<le> MAX_PROOF_BYTES"
  by (cases inp) (auto simp: BallotPackageV1_new_def)

section \<open>The codecs\<close>

interpretation manifest_hash_c:
  cbor_codec read_manifest_hash "\<lambda>h. enc_bytes (arr_bytes (manifest_hash_bytes h))" "\<lambda>_. True"
  by unfold_locales
    (auto simp: read_manifest_hash_def bytes_c.read_enc result_inv array32_Some_iff
      dest!: bytes_c.enc_read)

definition envelope_enc :: "ballot_package_envelope_v1 \<Rightarrow> bytes" where
  "envelope_enc e =
     enc_len MAJOR_ARRAY BALLOT_PACKAGE_V1_FIELD_COUNT @ enc_unsigned (ucast (ev_protocol_version e))
     @ enc_bytes (arr_bytes (manifest_hash_bytes (ev_manifest_hash e)))
     @ enc_text (ev_proof_suite_id e) @ enc_bytes (ev_payload_bytes e) @ enc_bytes (ev_proof e)"

lemma wf_envelope_len_ok:
  assumes "wf_envelope e"
  shows "len_ok (length (ev_proof_suite_id e))" "len_ok (length (ev_proof e))"
    "len_ok (length (ev_payload_bytes e))" "len_ok BALLOT_PACKAGE_V1_FIELD_COUNT"
  using assms by (auto simp: wf_envelope_def limits_def len_ok_def BALLOT_PACKAGE_V1_FIELD_COUNT_def)

lemma envelope_to_canonical_cbor_eq:
  "wf_envelope e \<Longrightarrow> envelope_to_canonical_cbor e =
     (if length (envelope_enc e) > MAX_CANONICAL_OBJECT_BYTES then Err ProtocolLimitExceeded
      else Ok (envelope_enc e))"
  by (simp add: envelope_to_canonical_cbor_def envelope_enc_def wf_envelope_len_ok)

lemma envelope_eta:
  "ev_protocol_version e = v \<Longrightarrow> \<lparr>ev_protocol_version = v, ev_manifest_hash = ev_manifest_hash e,
     ev_proof_suite_id = ev_proof_suite_id e, ev_proof = ev_proof e,
     ev_payload_bytes = ev_payload_bytes e\<rparr> = e"
  by (cases e) simp

lemma envelope_decode_enc:
  assumes "wf_envelope e" "length (envelope_enc e) \<le> MAX_CANONICAL_OBJECT_BYTES"
  shows "envelope_from_canonical_cbor (envelope_enc e) = Ok e"
proof -
  have "fits (envelope_enc e)"
    using assms(2) by (simp add: fits_def limits_def usize_max_def)
  then show ?thesis
    using assms wf_envelope_len_ok [OF assms(1)] envelope_to_canonical_cbor_eq [OF assms(1)]
    unfolding envelope_from_canonical_cbor_def new_reader_rd
    by (simp add: envelope_enc_def array_c.read_enc [where pre = "[]", simplified] u16_c.read_enc
        manifest_hash_c.read_enc text_c.read_enc bytes_c.read_enc bytes_c.read_enc_end wf_envelope_def
        envelope_eta)
qed

lemma envelope_decode_Ok:
  assumes "envelope_from_canonical_cbor bs = Ok e"
  shows "wf_envelope e \<and> envelope_to_canonical_cbor e = Ok bs"
  using assms
  by (auto simp: envelope_from_canonical_cbor_def new_reader_rd result_inv wf_envelope_def Let_def
      dest!: array_c.enc_read u16_c.enc_read manifest_hash_c.enc_read text_c.enc_read bytes_c.enc_read
      split: if_splits)

interpretation envelope_codec:
  object_codec envelope_from_canonical_cbor envelope_to_canonical_cbor wf_envelope
  by unfold_locales
    (auto simp: envelope_to_canonical_cbor_eq envelope_decode_enc dest!: envelope_decode_Ok
      split: if_splits)

definition envelope_of :: "ballot_package_v1 \<Rightarrow> ballot_package_envelope_v1" where
  "envelope_of p =
     \<lparr>ev_protocol_version = pk_protocol_version p, ev_manifest_hash = pk_manifest_hash p,
      ev_proof_suite_id = pk_proof_suite_id p, ev_proof = pk_proof p,
      ev_payload_bytes = payload_enc (pk_payload p)\<rparr>"

lemma package_to_canonical_cbor_envelope:
  assumes "wf_package cs limits p"
  shows "package_to_canonical_cbor p = envelope_to_canonical_cbor (envelope_of p)"
  using assms payload_to_canonical_cbor_eq [of "pk_payload p"] wf_payload_ids [of cs limits "pk_payload p"]
  by (simp add: wf_package_def package_to_canonical_cbor_def envelope_to_canonical_cbor_def envelope_of_def)

lemma wf_envelope_of:
  assumes "wf_package cs limits p"
  shows "wf_envelope (envelope_of p)"
  using assms length_payload_enc [of "pk_payload p"] wf_payload_ids [of cs limits "pk_payload p"]
  by (auto simp: wf_package_def wf_envelope_def envelope_of_def limits_def len_ok_def)

lemma into_ballot_package_Ok_iff:
  assumes "wf_envelope e"
  shows "into_ballot_package e cs limits = Ok p \<longleftrightarrow> wf_package cs limits p \<and> e = envelope_of p"
  using assms
  by (cases e; cases p)
    (auto simp: into_ballot_package_def result_inv payload_codec.decode_iff BallotPackageV1_new_Ok_iff
      wf_envelope_def wf_package_def envelope_of_def payload_to_canonical_cbor_eq wf_payload_ids)

interpretation package_codec:
  object_codec "package_from_canonical_cbor cs limits" package_to_canonical_cbor "wf_package cs limits"
  for cs limits
proof unfold_locales
  fix p bs
  assume wf: "wf_package cs limits p" and "package_to_canonical_cbor p = Ok bs"
  then have "envelope_from_canonical_cbor bs = Ok (envelope_of p)"
    by (simp add: package_to_canonical_cbor_envelope envelope_codec.decode_encode wf_envelope_of)
  then show "package_from_canonical_cbor cs limits bs = Ok p"
    using wf by (simp add: package_from_canonical_cbor_def into_ballot_package_Ok_iff wf_envelope_of)
next
  fix bs p
  assume "package_from_canonical_cbor cs limits bs = Ok p"
  then obtain e where e: "envelope_from_canonical_cbor bs = Ok e"
    and p: "into_ballot_package e cs limits = Ok p"
    by (auto simp: package_from_canonical_cbor_def result_inv)
  from envelope_codec.encode_decode [OF e] p show
    "wf_package cs limits p \<and> package_to_canonical_cbor p = Ok bs"
    by (auto simp: into_ballot_package_Ok_iff package_to_canonical_cbor_envelope)
qed

text \<open>A well-formed package always fits the object limit.\<close>

lemma package_to_canonical_cbor_total:
  assumes wf: "wf_package cs limits p"
  shows "package_to_canonical_cbor p = Ok (envelope_enc (envelope_of p))"
proof -
  note ids = wf_payload_ids [of cs limits "pk_payload p"]
  have "length (enc_bytes (payload_enc (pk_payload p))) \<le> 33542"
  proof -
    have "length (enc_bytes (candidate_id_bytes cid)) \<le> 131"
      if "cid \<in> set (bp_selections (pk_payload p))" for cid
      using wf that ids(1) length_enc_bytes [of "candidate_id_bytes cid"]
      by (auto simp: wf_package_def list_all_iff wf_candidate_id_def limits_def)
    then have "length (payload_enc (pk_payload p)) \<le> 3 + 256 * 131"
      using length_enc_seq [of "bp_selections (pk_payload p)" "\<lambda>cid. enc_bytes (candidate_id_bytes cid)" 131]
        ids(2) wf by (simp add: payload_enc_def wf_package_def limits_def)
    then show ?thesis using length_enc_bytes [of "payload_enc (pk_payload p)"] by simp
  qed
  moreover have "length (enc_bytes (pk_proof p)) \<le> 65545"
    using wf length_enc_arg [of MAJOR_BYTE_STRING "word_of_nat (length (pk_proof p))"]
    by (simp add: enc_bytes_def enc_len_def wf_package_def limits_def)
  moreover have "length (enc_text (pk_proof_suite_id p)) \<le> 131"
    using wf length_enc_text [of "pk_proof_suite_id p"] by (simp add: wf_package_def limits_def)
  moreover note length_enc_len [of 5 MAJOR_ARRAY] length_enc_unsigned [of "ucast (pk_protocol_version p)"]
    length_enc_bytes [of "arr_bytes (manifest_hash_bytes (pk_manifest_hash p))"]
  ultimately have "length (envelope_enc (envelope_of p)) \<le> MAX_CANONICAL_OBJECT_BYTES"
    by (simp add: envelope_enc_def envelope_of_def BALLOT_PACKAGE_V1_FIELD_COUNT_def limits_def)
  then show ?thesis
    using wf by (simp add: package_to_canonical_cbor_envelope envelope_to_canonical_cbor_eq wf_envelope_of)
qed

end
