(* ===== verification/Proof_Statement.thy ===== *)
theory Proof_Statement
  imports Cbor
begin

text \<open>
  The proof statement (crates/protocol/src/proof_statement.rs): the public values an anonymous
  proof authenticates, their checked construction, their canonical encoding and the transcript
  bytes handed to a proof suite.
\<close>

definition PROOF_STATEMENT_VERSION_V1 :: u16 where "PROOF_STATEMENT_VERSION_V1 = 1"

record proof_statement_v1 =
  ps_protocol_version :: u16
  ps_proof_suite_id :: rstring
  ps_manifest_hash :: manifest_hash
  ps_election_scope :: election_scope
  ps_registry_commitment :: registry_commitment
  ps_ballot_payload_hash :: ballot_payload_hash
  ps_ballot_kind_id :: rstring
  ps_ballot_confidentiality_id :: rstring

text \<open>\<open>ProofStatementV1Input\<close> has the fields of the statement it is validated into.\<close>

type_synonym proof_statement_v1_input = proof_statement_v1

definition validate_identifier :: "rstring \<Rightarrow> nat \<Rightarrow> validation_code \<Rightarrow> unit presult" where
  "validate_identifier value maximum_bytes empty_code =
     (if trim_is_empty value then Err empty_code
      else if length value > maximum_bytes then Err ProtocolLimitExceeded
      else Ok ())"

definition ProofStatementV1_new :: "proof_statement_v1_input \<Rightarrow> proof_statement_v1 presult" where
  "ProofStatementV1_new inp =
     (if ps_protocol_version inp \<noteq> PROTOCOL_VERSION_V1 then Err UnsupportedProtocolVersion
      else
        and_then (validate_identifier (ps_proof_suite_id inp) MAX_PROOF_SUITE_ID_BYTES
                    EmptyProofSuiteId) (\<lambda>_.
        and_then (validate_identifier (ps_ballot_kind_id inp) MAX_BALLOT_KIND_ID_BYTES
                    InvalidData) (\<lambda>_.
        and_then (validate_identifier (ps_ballot_confidentiality_id inp)
                    MAX_BALLOT_CONFIDENTIALITY_ID_BYTES InvalidData) (\<lambda>_.
        Ok \<lparr>ps_protocol_version = ps_protocol_version inp,
            ps_proof_suite_id = ps_proof_suite_id inp,
            ps_manifest_hash = ps_manifest_hash inp,
            ps_election_scope = ps_election_scope inp,
            ps_registry_commitment = ps_registry_commitment inp,
            ps_ballot_payload_hash = ps_ballot_payload_hash inp,
            ps_ballot_kind_id = ps_ballot_kind_id inp,
            ps_ballot_confidentiality_id = ps_ballot_confidentiality_id inp\<rparr>))))"

definition statement_to_canonical_cbor :: "proof_statement_v1 \<Rightarrow> bytes presult" where
  "statement_to_canonical_cbor s =
     and_then (write_array_len 9 new_writer) (\<lambda>w.
     let w = write_unsigned (ucast PROOF_STATEMENT_VERSION_V1) w;
         w = write_unsigned (ucast (ps_protocol_version s)) w in
     and_then (write_text_string (ps_proof_suite_id s) w) (\<lambda>w.
     and_then (write_byte_string (arr_bytes (manifest_hash_bytes (ps_manifest_hash s))) w) (\<lambda>w.
     and_then (write_byte_string (arr_bytes (election_scope_bytes (ps_election_scope s))) w) (\<lambda>w.
     and_then (write_byte_string
       (arr_bytes (registry_commitment_bytes (ps_registry_commitment s))) w) (\<lambda>w.
     and_then (write_byte_string
       (arr_bytes (ballot_payload_hash_bytes (ps_ballot_payload_hash s))) w) (\<lambda>w.
     and_then (write_text_string (ps_ballot_kind_id s) w) (\<lambda>w.
     and_then (write_text_string (ps_ballot_confidentiality_id s) w) (\<lambda>w.
     let encoded = into_bytes w in
     if length encoded > MAX_PROOF_STATEMENT_BYTES then Err ProtocolLimitExceeded
     else Ok encoded))))))))"

definition transcript_bytes :: "proof_statement_v1 \<Rightarrow> bytes presult" where
  "transcript_bytes s =
     and_then (statement_to_canonical_cbor s) (\<lambda>canonical.
     Ok (domain_separated_input ProofStatementV1 canonical))"

section \<open>Well-formed statements\<close>

text \<open>
  What the constructor guarantees, with the UTF-8 validity that Rust's string type carries.
\<close>

definition wf_statement :: "proof_statement_v1 \<Rightarrow> bool" where
  "wf_statement s \<longleftrightarrow>
     ps_protocol_version s = PROTOCOL_VERSION_V1
     \<and> \<not> trim_is_empty (ps_proof_suite_id s)
     \<and> length (ps_proof_suite_id s) \<le> MAX_PROOF_SUITE_ID_BYTES
     \<and> \<not> trim_is_empty (ps_ballot_kind_id s)
     \<and> length (ps_ballot_kind_id s) \<le> MAX_BALLOT_KIND_ID_BYTES
     \<and> \<not> trim_is_empty (ps_ballot_confidentiality_id s)
     \<and> length (ps_ballot_confidentiality_id s) \<le> MAX_BALLOT_CONFIDENTIALITY_ID_BYTES"

definition statement_strings_valid :: "proof_statement_v1 \<Rightarrow> bool" where
  "statement_strings_valid s \<longleftrightarrow>
     utf8_valid (ps_proof_suite_id s) \<and> utf8_valid (ps_ballot_kind_id s)
     \<and> utf8_valid (ps_ballot_confidentiality_id s)"

lemma validate_identifier_Ok_iff [result_inv]:
  "validate_identifier v n c = Ok u \<longleftrightarrow> \<not> trim_is_empty v \<and> length v \<le> n"
  by (auto simp: validate_identifier_def)

lemma ProofStatementV1_new_Ok_iff:
  "ProofStatementV1_new inp = Ok s \<longleftrightarrow> s = inp \<and> wf_statement inp"
  by (cases inp) (auto simp: ProofStatementV1_new_def wf_statement_def result_inv)

text \<open>The encoding as one concatenation.\<close>

definition statement_enc :: "proof_statement_v1 \<Rightarrow> bytes" where
  "statement_enc s =
     enc_len MAJOR_ARRAY 9 @ enc_unsigned (ucast PROOF_STATEMENT_VERSION_V1)
     @ enc_unsigned (ucast (ps_protocol_version s)) @ enc_text (ps_proof_suite_id s)
     @ enc_bytes (arr_bytes (manifest_hash_bytes (ps_manifest_hash s)))
     @ enc_bytes (arr_bytes (election_scope_bytes (ps_election_scope s)))
     @ enc_bytes (arr_bytes (registry_commitment_bytes (ps_registry_commitment s)))
     @ enc_bytes (arr_bytes (ballot_payload_hash_bytes (ps_ballot_payload_hash s)))
     @ enc_text (ps_ballot_kind_id s) @ enc_text (ps_ballot_confidentiality_id s)"

lemma length_statement_enc:
  assumes "wf_statement s"
  shows "length (statement_enc s) \<le> MAX_PROOF_STATEMENT_BYTES"
proof -
  have 32: "length (enc_bytes (arr_bytes a)) \<le> 35" for a
    using length_enc_bytes [of "arr_bytes a"] by simp
  show ?thesis
    using assms length_enc_text [of "ps_proof_suite_id s"] length_enc_text [of "ps_ballot_kind_id s"]
      length_enc_text [of "ps_ballot_confidentiality_id s"]
      32 [of "manifest_hash_bytes (ps_manifest_hash s)"]
      32 [of "election_scope_bytes (ps_election_scope s)"]
      32 [of "registry_commitment_bytes (ps_registry_commitment s)"]
      32 [of "ballot_payload_hash_bytes (ps_ballot_payload_hash s)"]
      length_enc_len [of 9 MAJOR_ARRAY] length_enc_unsigned [of "ucast (ps_protocol_version s)"]
      length_enc_unsigned [of "ucast PROOF_STATEMENT_VERSION_V1"]
    by (simp add: statement_enc_def wf_statement_def limits_def)
qed

lemma statement_len_ok:
  assumes "wf_statement s"
  shows "len_ok (length (ps_proof_suite_id s))" "len_ok (length (ps_ballot_kind_id s))"
    "len_ok (length (ps_ballot_confidentiality_id s))"
  using assms by (auto simp: wf_statement_def limits_def len_ok_def)

lemma statement_to_canonical_cbor_eq:
  "wf_statement s \<Longrightarrow> statement_to_canonical_cbor s = Ok (statement_enc s)"
  using length_statement_enc [of s]
  by (simp add: statement_to_canonical_cbor_def statement_len_ok statement_enc_def)

text \<open>Every field can be read back from the encoding, so the encoding determines the statement.\<close>

lemma statement_enc_inject:
  assumes "wf_statement s" "wf_statement t" "statement_strings_valid s" "statement_strings_valid t"
    and eq: "statement_enc s = statement_enc t"
  shows "s = t"
proof -
  let ?body = "\<lambda>s. enc_text (ps_proof_suite_id s)
     @ enc_bytes (arr_bytes (manifest_hash_bytes (ps_manifest_hash s)))
     @ enc_bytes (arr_bytes (election_scope_bytes (ps_election_scope s)))
     @ enc_bytes (arr_bytes (registry_commitment_bytes (ps_registry_commitment s)))
     @ enc_bytes (arr_bytes (ballot_payload_hash_bytes (ps_ballot_payload_hash s)))
     @ enc_text (ps_ballot_kind_id s) @ enc_text (ps_ballot_confidentiality_id s)"
  have ver: "ps_protocol_version s = ps_protocol_version t"
    using assms by (simp add: wf_statement_def)
  then have body: "?body s = ?body t" using eq by (simp add: statement_enc_def)
  have fit: "fits (?body s)"
    using length_statement_enc [OF assms(1)]
    by (auto simp: statement_enc_def fits_def limits_def usize_max_def)
  note ok = statement_len_ok [OF assms(1)] statement_len_ok [OF assms(2)]
  have read: "read_text_string (rd [] (?body s)) = read_text_string (rd [] (?body t))"
    using body by simp
  let ?chain = "\<lambda>r. and_then (read_text_string r) (\<lambda>(a, r).
    and_then (read_byte_string r) (\<lambda>(b, r). and_then (read_byte_string r) (\<lambda>(c, r).
    and_then (read_byte_string r) (\<lambda>(d, r). and_then (read_byte_string r) (\<lambda>(e, r).
    and_then (read_text_string r) (\<lambda>(f, r). and_then (read_text_string r) (\<lambda>(g, r).
    Ok (a, b, c, d, e, f, g, r))))))))"
  have chain: "?chain (rd [] (?body s)) = Ok (ps_proof_suite_id s,
      arr_bytes (manifest_hash_bytes (ps_manifest_hash s)),
      arr_bytes (election_scope_bytes (ps_election_scope s)),
      arr_bytes (registry_commitment_bytes (ps_registry_commitment s)),
      arr_bytes (ballot_payload_hash_bytes (ps_ballot_payload_hash s)),
      ps_ballot_kind_id s, ps_ballot_confidentiality_id s, rd (?body s) [])"
    if "wf_statement s" "statement_strings_valid s" "fits (?body s)" for s
    using that statement_len_ok [OF that(1)]
    by (simp add: text_c.read_enc bytes_c.read_enc text_c.read_enc_end statement_strings_valid_def)
  have "?chain (rd [] (?body s)) = ?chain (rd [] (?body t))" using body by simp
  with chain [OF assms(1,3) fit] chain [OF assms(2,4)] fit body ver show ?thesis
    by (cases s; cases t)
      (simp add: manifest_hash.expand election_scope.expand registry_commitment.expand
        ballot_payload_hash.expand)
qed

lemma transcript_bytes_eq:
  "wf_statement s \<Longrightarrow>
     transcript_bytes s = Ok (domain_separated_input ProofStatementV1 (statement_enc s))"
  by (simp add: transcript_bytes_def statement_to_canonical_cbor_eq)

end
