(* ===== verification/Lifecycle.thy ===== *)
theory Lifecycle
  imports Proof_Statement
begin

text \<open>
  The election lifecycle (crates/ballot/src/lifecycle.rs): Draft, Frozen, Open, Closed, Verified,
  Finalized, with the frozen manifest hash and registry commitment, and the gate that a verified
  ballot statement passes. Each transition method is an operation; \<open>lifecycle_step\<close> is the
  transition relation they generate and \<open>lifecycle_reachable\<close> the states an election can be in.
\<close>

datatype election_lifecycle_state_v1 = Draft | Frozen | Open | Closed | Verified | Finalized

primrec lifecycle_state_as_str :: "election_lifecycle_state_v1 \<Rightarrow> rstring" where
  "lifecycle_state_as_str Draft = lit ''DRAFT''"
| "lifecycle_state_as_str Frozen = lit ''FROZEN''"
| "lifecycle_state_as_str Open = lit ''OPEN''"
| "lifecycle_state_as_str Closed = lit ''CLOSED''"
| "lifecycle_state_as_str Verified = lit ''VERIFIED''"
| "lifecycle_state_as_str Finalized = lit ''FINALIZED''"

text \<open>The derived order of the enum is the order of its constructors.\<close>

primrec lifecycle_rank :: "election_lifecycle_state_v1 \<Rightarrow> nat" where
  "lifecycle_rank Draft = 0"
| "lifecycle_rank Frozen = 1"
| "lifecycle_rank Open = 2"
| "lifecycle_rank Closed = 3"
| "lifecycle_rank Verified = 4"
| "lifecycle_rank Finalized = 5"

lemma lifecycle_rank_inject: "lifecycle_rank s = lifecycle_rank t \<longleftrightarrow> s = t"
  by (cases s; cases t; simp)

instantiation election_lifecycle_state_v1 :: linorder
begin
definition less_eq_election_lifecycle_state_v1 ::
  "election_lifecycle_state_v1 \<Rightarrow> election_lifecycle_state_v1 \<Rightarrow> bool" where
  "less_eq_election_lifecycle_state_v1 s t \<longleftrightarrow> lifecycle_rank s \<le> lifecycle_rank t"
definition less_election_lifecycle_state_v1 ::
  "election_lifecycle_state_v1 \<Rightarrow> election_lifecycle_state_v1 \<Rightarrow> bool" where
  "less_election_lifecycle_state_v1 s t \<longleftrightarrow> lifecycle_rank s < lifecycle_rank t"
instance
  by standard (auto simp: less_eq_election_lifecycle_state_v1_def
      less_election_lifecycle_state_v1_def lifecycle_rank_inject)
end

record election_lifecycle_v1 =
  lc_state :: election_lifecycle_state_v1
  lc_frozen_manifest_hash :: "manifest_hash option"
  lc_frozen_registry_commitment :: "registry_commitment option"

definition lifecycle_new :: election_lifecycle_v1 where
  "lifecycle_new =
     \<lparr>lc_state = Draft, lc_frozen_manifest_hash = None, lc_frozen_registry_commitment = None\<rparr>"

definition lifecycle_is_open :: "election_lifecycle_v1 \<Rightarrow> bool" where
  "lifecycle_is_open l \<longleftrightarrow> lc_state l = Open"

definition transition :: "election_lifecycle_state_v1 \<Rightarrow> election_lifecycle_state_v1 \<Rightarrow>
    election_lifecycle_v1 \<Rightarrow> election_lifecycle_v1 presult" where
  "transition expected next_state l =
     (if lc_state l \<noteq> expected then Err InvalidLifecycleTransition
      else Ok (l\<lparr>lc_state := next_state\<rparr>))"

definition freeze :: "manifest_hash \<Rightarrow> registry_commitment \<Rightarrow>
    election_lifecycle_v1 \<Rightarrow> election_lifecycle_v1 presult" where
  "freeze manifest_hash registry_commitment l =
     (if lc_state l \<noteq> Draft then Err InvalidLifecycleTransition
      else Ok (l\<lparr>lc_frozen_manifest_hash := Some manifest_hash,
                 lc_frozen_registry_commitment := Some registry_commitment,
                 lc_state := Frozen\<rparr>))"

definition open_election :: "election_lifecycle_v1 \<Rightarrow> election_lifecycle_v1 presult" where
  "open_election l = transition Frozen Open l"

definition close_election :: "election_lifecycle_v1 \<Rightarrow> election_lifecycle_v1 presult" where
  "close_election l = transition Open Closed l"

definition mark_verified :: "election_lifecycle_v1 \<Rightarrow> election_lifecycle_v1 presult" where
  "mark_verified l = transition Closed Verified l"

definition finalize :: "election_lifecycle_v1 \<Rightarrow> election_lifecycle_v1 presult" where
  "finalize l = transition Verified Finalized l"

definition validate_ballot_statement :: "election_lifecycle_v1 \<Rightarrow> proof_statement_v1 \<Rightarrow> unit presult" where
  "validate_ballot_statement l statement =
     (if \<not> (lc_state l = Open \<or> lc_state l = Closed) then Err ElectionNotOpen
      else case lc_frozen_manifest_hash l of
        None \<Rightarrow> Err InvalidLifecycleTransition
      | Some manifest_hash \<Rightarrow>
        (case lc_frozen_registry_commitment l of
           None \<Rightarrow> Err InvalidLifecycleTransition
         | Some registry_commitment \<Rightarrow>
             if manifest_hash_bytes (ps_manifest_hash statement) \<noteq> manifest_hash_bytes manifest_hash then
               Err WrongManifestHash
             else if registry_commitment_bytes (ps_registry_commitment statement)
                     \<noteq> registry_commitment_bytes registry_commitment then
               Err LifecycleCommitmentMismatch
             else Ok ()))"

section \<open>The transition system\<close>

inductive lifecycle_step :: "election_lifecycle_v1 \<Rightarrow> election_lifecycle_v1 \<Rightarrow> bool" where
  step_freeze: "freeze mh rc l = Ok l' \<Longrightarrow> lifecycle_step l l'"
| step_open: "open_election l = Ok l' \<Longrightarrow> lifecycle_step l l'"
| step_close: "close_election l = Ok l' \<Longrightarrow> lifecycle_step l l'"
| step_mark_verified: "mark_verified l = Ok l' \<Longrightarrow> lifecycle_step l l'"
| step_finalize: "finalize l = Ok l' \<Longrightarrow> lifecycle_step l l'"

inductive_cases lifecycle_stepE: "lifecycle_step l l'"

inductive lifecycle_reachable :: "election_lifecycle_v1 \<Rightarrow> bool" where
  reach_new: "lifecycle_reachable lifecycle_new"
| reach_step: "lifecycle_reachable l \<Longrightarrow> lifecycle_step l l' \<Longrightarrow> lifecycle_reachable l'"

lemmas lifecycle_ops_def =
  freeze_def open_election_def close_election_def mark_verified_def finalize_def transition_def

text \<open>Every successful operation moves exactly one state forward.\<close>

lemma lifecycle_step_rank:
  assumes "lifecycle_step l l'"
  shows "lifecycle_rank (lc_state l') = Suc (lifecycle_rank (lc_state l))"
  using assms by cases (auto simp: lifecycle_ops_def split: if_splits)

lemma lifecycle_step_keeps_frozen:
  assumes "lifecycle_step l l'" and "lc_state l \<noteq> Draft"
  shows "lc_frozen_manifest_hash l' = lc_frozen_manifest_hash l
    \<and> lc_frozen_registry_commitment l' = lc_frozen_registry_commitment l"
  using assms by cases (auto simp: lifecycle_ops_def split: if_splits)

lemma lifecycle_steps_keep_frozen:
  assumes "lifecycle_step\<^sup>*\<^sup>* l l'" and "lc_state l \<noteq> Draft"
  shows "lc_state l' \<noteq> Draft \<and> lifecycle_rank (lc_state l) \<le> lifecycle_rank (lc_state l')
    \<and> lc_frozen_manifest_hash l' = lc_frozen_manifest_hash l
    \<and> lc_frozen_registry_commitment l' = lc_frozen_registry_commitment l"
  using assms
proof (induction rule: rtranclp_induct)
  case (step y z)
  then show ?case
    using lifecycle_step_rank [of y z] lifecycle_step_keeps_frozen [of y z]
    by (cases "lc_state z") auto
qed simp

text \<open>The commitments are present exactly when the election has left Draft.\<close>

lemma lifecycle_inv:
  assumes "lifecycle_reachable l"
  shows "(lc_state l = Draft \<longleftrightarrow> lc_frozen_manifest_hash l = None)
    \<and> (lc_state l = Draft \<longleftrightarrow> lc_frozen_registry_commitment l = None)"
  using assms
proof (induction rule: lifecycle_reachable.induct)
  case (reach_step l l')
  from reach_step.hyps(2) reach_step.IH show ?case
    by cases (auto simp: lifecycle_ops_def split: if_splits)
qed (simp add: lifecycle_new_def)

lemma validate_ballot_statement_Ok_iff:
  "validate_ballot_statement l s = Ok u \<longleftrightarrow>
     (lc_state l = Open \<or> lc_state l = Closed)
     \<and> lc_frozen_manifest_hash l = Some (ps_manifest_hash s)
     \<and> lc_frozen_registry_commitment l = Some (ps_registry_commitment s)"
  by (auto simp: validate_ballot_statement_def manifest_hash.expand registry_commitment.expand
      split: option.splits if_splits)

text \<open>In a reachable state the missing-commitment branches of the gate are dead.\<close>

lemma validate_ballot_statement_reachable:
  assumes "lifecycle_reachable l"
  shows "validate_ballot_statement l s \<noteq> Err InvalidLifecycleTransition"
  using lifecycle_inv [OF assms]
  by (auto simp: validate_ballot_statement_def split: option.splits)

end
