(* ===== verification/Proof_Verifier.thy ===== *)
theory Proof_Verifier
  imports Proof_Statement "HOL-Library.Sublist"
begin

text \<open>
  The sealed proof-verifier interface (crates/crypto/src/verification.rs) and its test-only
  implementation (test_only_verifier.rs). The trait \<open>ProofVerifierV1\<close> is the record
  \<open>proof_verifier_v1\<close>; \<open>proof_verifier\<close> and \<open>batch_proof_verifier\<close> state what its clients rely
  on, and the test-only verifier is shown to meet both.
\<close>

section \<open>The interface\<close>

datatype verified_nullifier = VerifiedNullifier (nullifier_bytes: bytes)

instantiation verified_nullifier :: linorder
begin
definition less_eq_verified_nullifier :: "verified_nullifier \<Rightarrow> verified_nullifier \<Rightarrow> bool" where
  "less_eq_verified_nullifier a b \<longleftrightarrow> nullifier_bytes a \<le> nullifier_bytes b"
definition less_verified_nullifier :: "verified_nullifier \<Rightarrow> verified_nullifier \<Rightarrow> bool" where
  "less_verified_nullifier a b \<longleftrightarrow> nullifier_bytes a < nullifier_bytes b"
instance
  by standard (auto simp: less_eq_verified_nullifier_def less_verified_nullifier_def
      intro: verified_nullifier.expand)
end

definition VerifiedNullifier_new :: "bytes \<Rightarrow> verified_nullifier presult" where
  "VerifiedNullifier_new bs =
     (if bs = [] then Err EmptyNullifier
      else if length bs > MAX_NULLIFIER_BYTES then Err ProtocolLimitExceeded
      else Ok (VerifiedNullifier bs))"

record verified_proof_v1 =
  vp_statement :: proof_statement_v1
  vp_nullifier :: verified_nullifier

definition VerifiedProofV1_new :: "proof_statement_v1 \<Rightarrow> verified_nullifier \<Rightarrow> verified_proof_v1" where
  "VerifiedProofV1_new statement nullifier = \<lparr>vp_statement = statement, vp_nullifier = nullifier\<rparr>"

record proof_batch_input_v1 =
  bi_statement :: proof_statement_v1
  bi_proof_bytes :: bytes

record proof_verifier_v1 =
  pv_suite_id :: rstring
  pv_verify :: "proof_statement_v1 \<Rightarrow> bytes \<Rightarrow> verified_proof_v1 presult"
  pv_verify_batch :: "proof_batch_input_v1 list \<Rightarrow> verified_proof_v1 presult list"

text \<open>The provided method \<open>verify_batch_v1\<close> of the trait: one \<open>verify\<close> per input, in order.\<close>

definition default_verify_batch ::
  "(proof_statement_v1 \<Rightarrow> bytes \<Rightarrow> verified_proof_v1 presult) \<Rightarrow>
   proof_batch_input_v1 list \<Rightarrow> verified_proof_v1 presult list" where
  "default_verify_batch verify inputs =
     map (\<lambda>inp. verify (bi_statement inp) (bi_proof_bytes inp)) inputs"

definition wf_nullifier :: "verified_nullifier \<Rightarrow> bool" where
  "wf_nullifier n \<longleftrightarrow> nullifier_bytes n \<noteq> [] \<and> length (nullifier_bytes n) \<le> MAX_NULLIFIER_BYTES"

lemma VerifiedNullifier_new_Ok_iff [result_inv]:
  "VerifiedNullifier_new bs = Ok n \<longleftrightarrow> wf_nullifier n \<and> bs = nullifier_bytes n"
  by (cases n) (auto simp: VerifiedNullifier_new_def wf_nullifier_def)

text \<open>
  What the verification pipeline relies on: a verifier only accepts statements of its own suite,
  it answers for the statement it was asked about, and it yields a valid nullifier.
\<close>

locale proof_verifier =
  fixes V :: proof_verifier_v1
  assumes verify_statement: "pv_verify V s pf = Ok v \<Longrightarrow> vp_statement v = s"
    and verify_suite: "pv_verify V s pf = Ok v \<Longrightarrow> ps_proof_suite_id s = pv_suite_id V"
    and verify_nullifier: "pv_verify V s pf = Ok v \<Longrightarrow> wf_nullifier (vp_nullifier v)"

text \<open>An override of \<open>verify_batch_v1\<close> must keep the per-input semantics of the default.\<close>

locale batch_proof_verifier = proof_verifier +
  assumes batch_individual: "pv_verify_batch V inputs = default_verify_batch (pv_verify V) inputs"
begin

lemma batch_length: "length (pv_verify_batch V inputs) = length inputs"
  by (simp add: batch_individual default_verify_batch_def)

lemma batch_append: "pv_verify_batch V (xs @ ys) = pv_verify_batch V xs @ pv_verify_batch V ys"
  by (simp add: batch_individual default_verify_batch_def)

end

section \<open>The test-only verifier\<close>

definition TEST_ONLY_PROOF_MARKER :: rstring where
  "TEST_ONLY_PROOF_MARKER = lit ''TEST_ONLY_NOT_ANONYMOUS_NOT_FOR_BINDING_ELECTIONS''"

definition SELF_CONTAINED_NULLIFIER_LENGTH_BYTES :: nat where
  "SELF_CONTAINED_NULLIFIER_LENGTH_BYTES = 2"

record test_only_proof_verifier_v1 =
  to_legacy_nullifier :: "verified_nullifier option"

definition TestOnlyProofVerifierV1_new :: "bytes \<Rightarrow> test_only_proof_verifier_v1 presult" where
  "TestOnlyProofVerifierV1_new nullifier =
     and_then (VerifiedNullifier_new nullifier) (\<lambda>n. Ok \<lparr>to_legacy_nullifier = Some n\<rparr>)"

definition test_only_replay :: test_only_proof_verifier_v1 where
  "test_only_replay = \<lparr>to_legacy_nullifier = None\<rparr>"

definition test_only_proof_for :: "proof_statement_v1 \<Rightarrow> bytes presult" where
  "test_only_proof_for statement =
     and_then (transcript_bytes statement) (\<lambda>transcript.
     let marker = TEST_ONLY_PROOF_MARKER in
     and_then (ok_or ProtocolLimitExceeded (checked_add_usize (length marker) (length transcript)))
       (\<lambda>total_length.
     if total_length > MAX_PROOF_BYTES then Err ProtocolLimitExceeded
     else Ok (marker @ transcript)))"

definition test_only_proof_for_with_nullifier :: "proof_statement_v1 \<Rightarrow> bytes \<Rightarrow> bytes presult" where
  "test_only_proof_for_with_nullifier statement nullifier =
     and_then (VerifiedNullifier_new nullifier) (\<lambda>verified_nullifier.
     let nbs = nullifier_bytes verified_nullifier in
     if length nbs > 65535 then Err ProtocolLimitExceeded
     else
       and_then (transcript_bytes statement) (\<lambda>transcript.
       let marker = TEST_ONLY_PROOF_MARKER in
       and_then (ok_or ProtocolLimitExceeded
         (Option.bind (checked_add_usize (length marker) SELF_CONTAINED_NULLIFIER_LENGTH_BYTES) (\<lambda>n.
          Option.bind (checked_add_usize n (length nbs)) (\<lambda>n.
          checked_add_usize n (length transcript))))) (\<lambda>total_length.
       if total_length > MAX_PROOF_BYTES then Err ProtocolLimitExceeded
       else Ok (marker @ be_bytes 2 (length nbs) @ nbs @ transcript))))"

definition verify_self_contained ::
  "proof_statement_v1 \<Rightarrow> bytes \<Rightarrow> bytes \<Rightarrow> verified_proof_v1 presult" where
  "verify_self_contained statement proof_bytes transcript =
     (let marker_length = length TEST_ONLY_PROOF_MARKER in
      and_then (ok_or ProtocolLimitExceeded
        (checked_add_usize marker_length SELF_CONTAINED_NULLIFIER_LENGTH_BYTES)) (\<lambda>length_end.
      if length proof_bytes < length_end then Err InvalidData
      else
        let nullifier_length =
          from_be_bytes [proof_bytes ! marker_length, proof_bytes ! (marker_length + 1)] in
        if nullifier_length > MAX_NULLIFIER_BYTES then Err ProtocolLimitExceeded
        else
          and_then (ok_or ProtocolLimitExceeded (checked_add_usize length_end nullifier_length))
            (\<lambda>nullifier_end.
          and_then (ok_or ProtocolLimitExceeded
            (checked_add_usize nullifier_end (length transcript))) (\<lambda>expected_length.
          if length proof_bytes \<noteq> expected_length then Err InvalidData
          else
            and_then (VerifiedNullifier_new
              (take (nullifier_end - length_end) (drop length_end proof_bytes))) (\<lambda>nullifier.
            if drop nullifier_end proof_bytes \<noteq> transcript then Err InvalidData
            else Ok (VerifiedProofV1_new statement nullifier))))))"

definition test_only_verify ::
  "test_only_proof_verifier_v1 \<Rightarrow> proof_statement_v1 \<Rightarrow> bytes \<Rightarrow> verified_proof_v1 presult" where
  "test_only_verify v statement proof_bytes =
     (if ps_proof_suite_id statement \<noteq> TEST_ONLY_SUITE_ID then Err InvalidData
      else if length proof_bytes > MAX_PROOF_BYTES then Err ProtocolLimitExceeded
      else if \<not> prefix TEST_ONLY_PROOF_MARKER proof_bytes then Err InvalidData
      else
        and_then (transcript_bytes statement) (\<lambda>transcript.
        and_then (test_only_proof_for statement) (\<lambda>legacy_expected.
        if proof_bytes = legacy_expected then
          (case to_legacy_nullifier v of
             None \<Rightarrow> Err InvalidData
           | Some nullifier \<Rightarrow> Ok (VerifiedProofV1_new statement nullifier))
        else if to_legacy_nullifier v \<noteq> None then Err InvalidData
        else verify_self_contained statement proof_bytes transcript)))"

text \<open>The test-only implementation of the trait; it keeps the provided batch method.\<close>

definition TestOnlyProofVerifierV1 :: "test_only_proof_verifier_v1 \<Rightarrow> proof_verifier_v1" where
  "TestOnlyProofVerifierV1 v =
     \<lparr>pv_suite_id = TEST_ONLY_SUITE_ID, pv_verify = test_only_verify v,
      pv_verify_batch = default_verify_batch (test_only_verify v)\<rparr>"

section \<open>What the test-only verifier accepts\<close>

lemma verify_self_contained_Ok_iff:
  assumes "prefix TEST_ONLY_PROOF_MARKER pf" and "length pf \<le> usize_max"
  shows "verify_self_contained s pf tr = Ok v \<longleftrightarrow>
     (\<exists>n. wf_nullifier n \<and> v = VerifiedProofV1_new s n
        \<and> pf = TEST_ONLY_PROOF_MARKER @ be_bytes 2 (length (nullifier_bytes n)) @ nullifier_bytes n @ tr)"
    (is "?L \<longleftrightarrow> ?R")
proof -
  let ?m = "length TEST_ONLY_PROOF_MARKER"
  from assms(1) obtain q where q: "pf = TEST_ONLY_PROOF_MARKER @ q" by (auto simp: prefix_def)
  have small: "wf_nullifier n \<Longrightarrow> length (nullifier_bytes n) < 65536" for n
    by (simp add: wf_nullifier_def limits_def)
  show ?thesis
  proof
    assume L: ?L
    then have "2 \<le> length q"
      by (auto simp: verify_self_contained_def Let_def q SELF_CONTAINED_NULLIFIER_LENGTH_BYTES_def
          checked_add_usize_def result_inv split: if_splits)
    then obtain b c t where t: "q = b # c # t" by (cases q; cases "tl q") auto
    let ?n = "from_be_bytes [b, c]"
    from L obtain n where n: "wf_nullifier n" "take ?n t = nullifier_bytes n"
      and l: "length t = ?n + length tr" and d: "drop ?n t = tr" and v: "v = VerifiedProofV1_new s n"
      unfolding verify_self_contained_def Let_def q t SELF_CONTAINED_NULLIFIER_LENGTH_BYTES_def
      by (auto simp: checked_add_usize_def result_inv nth_append split: if_splits)
    have len: "length (nullifier_bytes n) = ?n" using n(2) l by (metis length_take le_add1 min.absorb2)
    have "be_bytes 2 ?n = [b, c]" using be_from_be [of "[b, c]"] by (simp only: length_Cons list.size numeral_2_eq_2 One_nat_def)
    with n v d len show ?R
      by (intro exI [of _ n]) (simp add: q t del: from_be_bytes.simps, metis append_take_drop_id)
  next
    assume ?R
    then obtain n where n: "wf_nullifier n" "v = VerifiedProofV1_new s n"
      "pf = TEST_ONLY_PROOF_MARKER @ be_bytes 2 (length (nullifier_bytes n)) @ nullifier_bytes n @ tr" by blast
    obtain b c where bc: "be_bytes 2 (length (nullifier_bytes n)) = [b, c]"
      by (simp add: numeral_2_eq_2)
    have fb: "from_be_bytes [b, c] = length (nullifier_bytes n)"
      using from_be_be [of "length (nullifier_bytes n)" 2] small [OF n(1)] unfolding bc by simp
    from n assms(2) show ?L
      unfolding verify_self_contained_def Let_def n(3) bc
      by (simp add: checked_add_usize_def SELF_CONTAINED_NULLIFIER_LENGTH_BYTES_def nth_append fb
          VerifiedNullifier_new_def wf_nullifier_def del: from_be_bytes.simps)
  qed
qed

lemma test_only_replay_Ok_iff:
  assumes "wf_statement s" and "ps_proof_suite_id s = TEST_ONLY_SUITE_ID"
    and len: "length pf \<le> MAX_PROOF_BYTES" and tr: "transcript_bytes s = Ok tr"
    and "pf \<noteq> TEST_ONLY_PROOF_MARKER @ tr"
  shows "test_only_verify test_only_replay s pf = Ok v \<longleftrightarrow>
    (\<exists>n. wf_nullifier n \<and> v = \<lparr>vp_statement = s, vp_nullifier = n\<rparr>
       \<and> pf = TEST_ONLY_PROOF_MARKER @ be_bytes 2 (length (nullifier_bytes n)) @ nullifier_bytes n @ tr)"
proof (cases "prefix TEST_ONLY_PROOF_MARKER pf")
  case True
  have tr_eq: "tr = domain_separated_input ProofStatementV1 (statement_enc s)"
    using tr transcript_bytes_eq [OF assms(1)] by simp
  have "length (TEST_ONLY_PROOF_MARKER @ tr) \<le> MAX_PROOF_BYTES"
    using length_statement_enc [OF assms(1)]
    by (simp add: tr_eq domain_separated_input_def HASH_FRAME_PREFIX_def TEST_ONLY_PROOF_MARKER_def
        lit_def limits_def)
  then have "test_only_proof_for s = Ok (TEST_ONLY_PROOF_MARKER @ tr)"
    by (simp add: test_only_proof_for_def tr Let_def checked_add_usize_def limits_def usize_max_def)
  moreover have "length pf \<le> usize_max" using len by (simp add: limits_def usize_max_def)
  ultimately show ?thesis
    using assms True verify_self_contained_Ok_iff [OF True, of s tr v]
    by (simp add: test_only_verify_def test_only_replay_def VerifiedProofV1_new_def)
next
  case False
  then show ?thesis using assms by (auto simp: test_only_verify_def prefix_def)
qed

lemma test_only_verify_statement:
  assumes "test_only_verify v s pf = Ok p"
  shows "vp_statement p = s \<and> ps_proof_suite_id s = TEST_ONLY_SUITE_ID
    \<and> (wf_nullifier (vp_nullifier p) \<or> to_legacy_nullifier v = Some (vp_nullifier p))"
  using assms
  by (auto simp: test_only_verify_def verify_self_contained_def Let_def VerifiedProofV1_new_def
      result_inv split: if_splits option.splits)

definition wf_test_only :: "test_only_proof_verifier_v1 \<Rightarrow> bool" where
  "wf_test_only v \<longleftrightarrow> (\<forall>n. to_legacy_nullifier v = Some n \<longrightarrow> wf_nullifier n)"

lemma test_only_constructors_wf:
  "wf_test_only test_only_replay"
  "TestOnlyProofVerifierV1_new bs = Ok v \<Longrightarrow> wf_test_only v"
  by (auto simp: wf_test_only_def test_only_replay_def TestOnlyProofVerifierV1_new_def result_inv)

lemma test_only_contract:
  assumes "wf_test_only v"
  shows "batch_proof_verifier (TestOnlyProofVerifierV1 v)"
  by unfold_locales
    (use assms in \<open>auto simp: TestOnlyProofVerifierV1_def wf_test_only_def
      dest: test_only_verify_statement\<close>)

interpretation test_only: batch_proof_verifier "TestOnlyProofVerifierV1 test_only_replay"
  by (rule test_only_contract) (rule test_only_constructors_wf)

end
