(* ===== verification/Registry.thy ===== *)
theory Registry
  imports Cbor
begin

text \<open>
  The registry crate (crates/registry/src): governance keys and their provisioning, the frozen
  registry snapshot, its canonical CBOR form and its commitment.
\<close>

section \<open>Keys\<close>

datatype governance_public_key = GovernancePublicKey (gpk_bytes: bytes)

instantiation governance_public_key :: linorder
begin
definition less_eq_governance_public_key :: "governance_public_key \<Rightarrow> governance_public_key \<Rightarrow> bool" where
  "less_eq_governance_public_key a b \<longleftrightarrow> gpk_bytes a \<le> gpk_bytes b"
definition less_governance_public_key :: "governance_public_key \<Rightarrow> governance_public_key \<Rightarrow> bool" where
  "less_governance_public_key a b \<longleftrightarrow> gpk_bytes a < gpk_bytes b"
instance
  by standard (auto simp: less_eq_governance_public_key_def less_governance_public_key_def
      intro: governance_public_key.expand)
end

definition GovernancePublicKey_new :: "bytes \<Rightarrow> governance_public_key presult" where
  "GovernancePublicKey_new bs =
     (if bs = [] then Err EmptyGovernanceKey
      else if length bs > MAX_GOVERNANCE_KEY_BYTES then Err ProtocolLimitExceeded
      else Ok (GovernancePublicKey bs))"

datatype voter_key_provisioning_v1 = GeneratedByVoter | ImportedByVoter

primrec provisioning_as_str :: "voter_key_provisioning_v1 \<Rightarrow> rstring" where
  "provisioning_as_str GeneratedByVoter = lit ''VOTER_GENERATED''"
| "provisioning_as_str ImportedByVoter = lit ''VOTER_IMPORTED''"

record voter_governance_key_registration_v1 =
  vr_public_key :: governance_public_key
  vr_provisioning :: voter_key_provisioning_v1

section \<open>Snapshots\<close>

datatype registry_entry = RegistryEntry (governance_key: governance_public_key)

instantiation registry_entry :: linorder
begin
definition less_eq_registry_entry :: "registry_entry \<Rightarrow> registry_entry \<Rightarrow> bool" where
  "less_eq_registry_entry a b \<longleftrightarrow> governance_key a \<le> governance_key b"
definition less_registry_entry :: "registry_entry \<Rightarrow> registry_entry \<Rightarrow> bool" where
  "less_registry_entry a b \<longleftrightarrow> governance_key a < governance_key b"
instance
  by standard (auto simp: less_eq_registry_entry_def less_registry_entry_def
      intro: registry_entry.expand)
end

definition from_voter_registration :: "voter_governance_key_registration_v1 \<Rightarrow> registry_entry" where
  "from_voter_registration registration = RegistryEntry (vr_public_key registration)"

definition from_snapshot_public_key :: "governance_public_key \<Rightarrow> registry_entry" where
  "from_snapshot_public_key k = RegistryEntry k"

record registry_snapshot =
  rs_entries :: "registry_entry list"

definition RegistrySnapshot_new :: "registry_entry list \<Rightarrow> registry_snapshot presult" where
  "RegistrySnapshot_new entries =
     (if entries = [] then Err EmptyRegistry
      else if length entries > MAX_REGISTRY_MEMBERS then Err ProtocolLimitExceeded
      else
        let entries = sort entries in
        if windows2_any (=) entries then Err DuplicateGovernanceKey
        else Ok \<lparr>rs_entries = entries\<rparr>)"

section \<open>Canonical form\<close>

definition registry_to_canonical_cbor :: "registry_snapshot \<Rightarrow> bytes presult" where
  "registry_to_canonical_cbor s =
     and_then (write_array_len (length (rs_entries s)) new_writer) (\<lambda>w.
     and_then (write_all (\<lambda>e. write_byte_string (gpk_bytes (governance_key e))) (rs_entries s) w) (\<lambda>w.
     let encoded = into_bytes w in
     if length encoded > MAX_CANONICAL_OBJECT_BYTES then Err ProtocolLimitExceeded
     else Ok encoded))"

definition read_governance_key :: "cbor_reader \<Rightarrow> governance_public_key read" where
  "read_governance_key r =
     and_then (read_byte_string r) (\<lambda>(bs, r).
     and_then (GovernancePublicKey_new bs) (\<lambda>k. Ok (k, r)))"

definition registry_pair_check :: "governance_public_key \<Rightarrow> governance_public_key \<Rightarrow> unit presult" where
  "registry_pair_check a b =
     (if a = b then Err DuplicateGovernanceKey
      else if a > b then Err NonCanonicalCbor
      else Ok ())"

definition registry_from_canonical_cbor :: "bytes \<Rightarrow> registry_snapshot presult" where
  "registry_from_canonical_cbor encoded =
     (if length encoded > MAX_CANONICAL_OBJECT_BYTES then Err ProtocolLimitExceeded
      else
        and_then (read_array_len (new_reader encoded)) (\<lambda>(member_count, r).
        if member_count = 0 then Err EmptyRegistry
        else if member_count > MAX_REGISTRY_MEMBERS then Err ProtocolLimitExceeded
        else
          and_then (read_many read_governance_key member_count r) (\<lambda>(keys, r).
          and_then (finish r) (\<lambda>_.
          and_then (windows2_check registry_pair_check keys) (\<lambda>_.
          RegistrySnapshot_new (map from_snapshot_public_key keys))))))"

definition registry_canonical_commitment ::
  "hash_provider \<Rightarrow> registry_snapshot \<Rightarrow> registry_commitment presult" where
  "registry_canonical_commitment provider s =
     and_then (registry_to_canonical_cbor s) (\<lambda>encoded.
     Ok (RegistryCommitment (hash_domain_separated provider RegistrySnapshotV1 encoded)))"

section \<open>Well-formed snapshots\<close>

definition wf_governance_key :: "governance_public_key \<Rightarrow> bool" where
  "wf_governance_key k \<longleftrightarrow> gpk_bytes k \<noteq> [] \<and> length (gpk_bytes k) \<le> MAX_GOVERNANCE_KEY_BYTES"

definition wf_registry :: "registry_snapshot \<Rightarrow> bool" where
  "wf_registry s \<longleftrightarrow>
     rs_entries s \<noteq> [] \<and> length (rs_entries s) \<le> MAX_REGISTRY_MEMBERS
     \<and> sorted_wrt (<) (rs_entries s)
     \<and> list_all wf_governance_key (map governance_key (rs_entries s))"

lemma GovernancePublicKey_new_Ok_iff [result_inv]:
  "GovernancePublicKey_new bs = Ok k \<longleftrightarrow> wf_governance_key k \<and> bs = gpk_bytes k"
  by (cases k) (auto simp: GovernancePublicKey_new_def wf_governance_key_def)

text \<open>The constructor, on every branch.\<close>

lemma RegistrySnapshot_new_Ok_iff:
  "RegistrySnapshot_new es = Ok s \<longleftrightarrow>
     es \<noteq> [] \<and> length es \<le> MAX_REGISTRY_MEMBERS \<and> distinct es \<and> rs_entries s = sort es"
  by (cases s) (auto simp: RegistrySnapshot_new_def Let_def windows2_any_eq_iff)

lemma RegistrySnapshot_new_wf:
  assumes "RegistrySnapshot_new es = Ok s" and "list_all (\<lambda>e. wf_governance_key (governance_key e)) es"
  shows "wf_registry s"
  using assms
  by (auto simp: RegistrySnapshot_new_Ok_iff wf_registry_def strictly_sorted_iff list_all_iff)

lemma RegistrySnapshot_new_perm:
  assumes "mset es = mset fs"
  shows "RegistrySnapshot_new es = RegistrySnapshot_new fs"
  using sort_cong_mset [OF assms] mset_eq_length [OF assms]
  by (cases "es = []") (auto simp: RegistrySnapshot_new_def)

section \<open>The codec\<close>

lemma registry_pair_check_Ok [simp]: "registry_pair_check a b = Ok u \<longleftrightarrow> a < b"
  by (auto simp: registry_pair_check_def not_less)

interpretation governance_key_c: cbor_codec read_governance_key "\<lambda>k. enc_bytes (gpk_bytes k)" wf_governance_key
  unfolding read_governance_key_def [abs_def]
  by (rule bytes_c.codec_validated [where proj = gpk_bytes and valid = wf_governance_key])
    (auto simp: result_inv wf_governance_key_def limits_def len_ok_def)

definition registry_enc :: "registry_snapshot \<Rightarrow> bytes" where
  "registry_enc s = enc_seq (\<lambda>e. enc_bytes (gpk_bytes (governance_key e))) (rs_entries s)"

lemma length_registry_enc:
  assumes "wf_registry s"
  shows "length (registry_enc s) \<le> MAX_CANONICAL_OBJECT_BYTES"
proof -
  have "length (enc_bytes (gpk_bytes (governance_key e))) \<le> 131" if "e \<in> set (rs_entries s)" for e
    using assms that length_enc_bytes [of "gpk_bytes (governance_key e)"]
    by (auto simp: wf_registry_def list_all_iff wf_governance_key_def limits_def)
  then show ?thesis
    using length_enc_seq [of "rs_entries s" "\<lambda>e. enc_bytes (gpk_bytes (governance_key e))" 131] assms
    by (simp add: registry_enc_def wf_registry_def limits_def)
qed

lemma registry_to_canonical_cbor_eq:
  assumes "wf_registry s"
  shows "registry_to_canonical_cbor s = Ok (registry_enc s)"
proof -
  have "len_ok (length (gpk_bytes (governance_key e)))" if "e \<in> set (rs_entries s)" for e
    using assms that by (auto simp: wf_registry_def list_all_iff wf_governance_key_def limits_def len_ok_def)
  moreover have "len_ok (length (rs_entries s))"
    using assms by (auto simp: wf_registry_def limits_def len_ok_def)
  ultimately have "and_then (write_array_len (length (rs_entries s)) \<lparr>w_output = []\<rparr>)
      (write_all (\<lambda>e. write_byte_string (gpk_bytes (governance_key e))) (rs_entries s))
    = Ok \<lparr>w_output = [] @ registry_enc s\<rparr>"
    unfolding registry_enc_def by (intro write_seq) simp_all
  then show ?thesis
    using length_registry_enc [OF assms]
    by (simp add: registry_to_canonical_cbor_def flip: and_then_assoc)
qed

lemma registry_decode_enc:
  assumes wf: "wf_registry s"
  shows "registry_from_canonical_cbor (registry_enc s) = Ok s"
proof -
  let ?keys = "map governance_key (rs_entries s)"
  have fit: "fits (registry_enc s)"
    using length_registry_enc [OF wf] by (simp add: fits_def limits_def usize_max_def)
  have enc: "registry_enc s = enc_seq (\<lambda>k. enc_bytes (gpk_bytes k)) ?keys"
    by (simp add: registry_enc_def enc_seq_map)
  have keys: "list_all wf_governance_key ?keys" "len_ok (length ?keys)"
    and chk: "windows2_check registry_pair_check ?keys = Ok ()"
    using wf by (auto simp: wf_registry_def limits_def len_ok_def sorted_wrt_map windows2_check_Ok_iff
        less_registry_entry_def [abs_def])
  have new: "RegistrySnapshot_new (map from_snapshot_public_key ?keys) = Ok s"
    using wf by (auto simp: RegistrySnapshot_new_Ok_iff wf_registry_def strictly_sorted_iff
        from_snapshot_public_key_def comp_def sort_key_sorted_id)
  show ?thesis
    using wf chk new length_registry_enc [OF wf]
      governance_key_c.seq_read [OF keys fit [unfolded enc], folded enc]
    by (simp add: registry_from_canonical_cbor_def new_reader_rd wf_registry_def)
qed

lemma registry_decode_Ok:
  assumes "registry_from_canonical_cbor bs = Ok s"
  shows "wf_registry s \<and> registry_enc s = bs"
proof -
  from assms obtain n keys r r' where
    n: "read_array_len (rd [] bs) = Ok (n, r)"
    and keys: "read_many read_governance_key n r = Ok (keys, r')" and fin: "finish r' = Ok ()"
    and sorted: "sorted_wrt (<) keys"
    and new: "RegistrySnapshot_new (map from_snapshot_public_key keys) = Ok s"
    by (auto simp: registry_from_canonical_cbor_def new_reader_rd result_inv windows2_check_Ok_iff
        split: if_splits)
  note k = governance_key_c.seq_readD [OF n keys fin]
  have "sorted_wrt (<) (map from_snapshot_public_key keys)"
    using sorted by (simp add: sorted_wrt_map less_registry_entry_def from_snapshot_public_key_def)
  then have es: "rs_entries s = map from_snapshot_public_key keys"
    using new by (simp add: RegistrySnapshot_new_Ok_iff strictly_sorted_iff sort_key_sorted_id)
  have "wf_registry s"
    using RegistrySnapshot_new_wf [OF new] k
    by (simp add: list_all_iff from_snapshot_public_key_def)
  then show ?thesis
    using es k by (simp add: registry_enc_def enc_seq_map from_snapshot_public_key_def)
qed

interpretation registry_codec: object_codec registry_from_canonical_cbor registry_to_canonical_cbor wf_registry
  by unfold_locales
    (auto simp: registry_to_canonical_cbor_eq registry_decode_enc dest: registry_decode_Ok)

end
