(* ===== verification/Triptych.thy ===== *)
theory Triptych
  imports Proof_Verifier Registry
begin

text \<open>
  The Triptych adapter (crates/crypto/src: ristretto.rs, triptych_adapter.rs,
  triptych_prototype.rs, triptych_verifier.rs, and crates/verifier/src/triptych_registry.rs): proof
  envelopes, ring parameters, the scope generator preimage, individual verification and the batch
  verifier with its shared election context and its blame path.

  The curve, the BLAKE3 XOF, Merlin transcripts and the Triptych proof system itself are
  dependencies: they are the fields of \<open>triptych_lib\<close>. Two versions of the curve library are in
  use, one by the envelope and one by the statement builder. \<open>triptych_batch_sound\<close> is the one
  documented property of the proof system that the batch theorem needs.
\<close>

section \<open>Dependencies\<close>

record 'pt curve =
  cv_decompress :: "bytes32 \<Rightarrow> 'pt option"
  cv_is_identity :: "'pt \<Rightarrow> bool"
  cv_compress :: "'pt \<Rightarrow> bytes32"

record ('q, 'pt, 'pp, 'is, 'ts, 'pf, 'tr) triptych_lib =
  tl_dalek :: "'q curve"
  tl_dalek_v4 :: "'pt curve"
  tl_basepoint :: 'pt
  tl_blake3_xof64 :: "bytes \<Rightarrow> bytes"
  tl_from_uniform_bytes :: "bytes \<Rightarrow> 'pt"
  tl_new_with_generators :: "nat \<Rightarrow> nat \<Rightarrow> 'pt \<Rightarrow> 'pt \<Rightarrow> 'pp option"
  tl_new_with_padding :: "'pt list \<Rightarrow> 'pp \<Rightarrow> 'is option"
  tl_statement_new :: "'pp \<Rightarrow> 'is \<Rightarrow> 'pt \<Rightarrow> 'ts option"
  tl_proof_from_bytes :: "bytes \<Rightarrow> 'pf option"
  tl_proof_to_bytes :: "'pf \<Rightarrow> bytes"
  tl_transcript_new :: "bytes \<Rightarrow> 'tr"
  tl_append_message :: "bytes \<Rightarrow> bytes \<Rightarrow> 'tr \<Rightarrow> 'tr"
  tl_verify_batch :: "'ts list \<Rightarrow> 'pf list \<Rightarrow> 'tr list \<Rightarrow> bool"

text \<open>\<open>TriptychProof::verify\<close> is a batch of one.\<close>

definition triptych_verify ::
  "('q, 'pt, 'pp, 'is, 'ts, 'pf, 'tr) triptych_lib \<Rightarrow> 'pf \<Rightarrow> 'ts \<Rightarrow> 'tr \<Rightarrow> bool" where
  "triptych_verify L p s t = tl_verify_batch L [s] [p] [t]"

text \<open>
  \<open>TriptychProof::verify_batch_with_full_blame\<close>: either the batch verifies, or the error carries
  the indexes of the proofs that fail on their own.
\<close>

datatype proof_error = FailedBatchVerificationWithFullBlame "nat list" | OtherProofError

definition verify_batch_with_full_blame ::
  "('q, 'pt, 'pp, 'is, 'ts, 'pf, 'tr) triptych_lib \<Rightarrow> 'ts list \<Rightarrow> 'pf list \<Rightarrow> 'tr list \<Rightarrow>
   (unit, proof_error) result" where
  "verify_batch_with_full_blame L ss ps ts =
     (if tl_verify_batch L ss ps ts then Ok ()
      else Err (FailedBatchVerificationWithFullBlame (map fst (filter (\<lambda>(i, s, p, t). \<not> triptych_verify L p s t)
                   (zip [0..<length ss] (zip ss (zip ps ts)))))))"

text \<open>If any proof is invalid, batch verification fails.\<close>

definition triptych_batch_sound :: "('q, 'pt, 'pp, 'is, 'ts, 'pf, 'tr) triptych_lib \<Rightarrow> bool" where
  "triptych_batch_sound L \<longleftrightarrow>
     (\<forall>ss ps ts. tl_verify_batch L ss ps ts \<longrightarrow>
        length ss = length ps \<longrightarrow> length ss = length ts \<longrightarrow>
        (\<forall>i < length ss. triptych_verify L (ps ! i) (ss ! i) (ts ! i)))"

section \<open>Ristretto keys\<close>

definition decode_non_identity :: "'q curve \<Rightarrow> bytes32 \<Rightarrow> 'q presult" where
  "decode_non_identity c encoded =
     (case cv_decompress c encoded of
        None \<Rightarrow> Err InvalidData
      | Some point \<Rightarrow> if cv_is_identity c point then Err InvalidData else Ok point)"

datatype ristretto_public_key_v1 = RistrettoPublicKeyV1 (ristretto_key_bytes: bytes32)

definition RistrettoPublicKeyV1_from_bytes :: "'q curve \<Rightarrow> bytes \<Rightarrow> ristretto_public_key_v1 presult" where
  "RistrettoPublicKeyV1_from_bytes c bs =
     and_then (ok_or InvalidData (array32 bs)) (\<lambda>encoded.
     and_then (decode_non_identity c encoded) (\<lambda>point.
     if cv_compress c point \<noteq> encoded then Err InvalidData
     else Ok (RistrettoPublicKeyV1 encoded)))"

section \<open>Proof envelopes\<close>

definition TARI_TRIPTYCH_PROOF_ENVELOPE_VERSION_V1 :: u16 where
  "TARI_TRIPTYCH_PROOF_ENVELOPE_VERSION_V1 = 1"

definition TARI_TRIPTYCH_PROOF_ENVELOPE_HEADER_BYTES :: nat where
  "TARI_TRIPTYCH_PROOF_ENVELOPE_HEADER_BYTES = 2 + 32"

text \<open>\<open>to_le_bytes\<close> and \<open>from_le_bytes\<close>.\<close>

definition le_bytes :: "nat \<Rightarrow> nat \<Rightarrow> bytes" where
  "le_bytes n v = rev (be_bytes n v)"

definition from_le_bytes :: "bytes \<Rightarrow> nat" where
  "from_le_bytes bs = from_be_bytes (rev bs)"

record tari_triptych_proof_envelope_v1 =
  te_linking_tag :: bytes32
  te_triptych_proof :: bytes

definition validate_linking_tag :: "'q curve \<Rightarrow> bytes32 \<Rightarrow> unit presult" where
  "validate_linking_tag c encoded =
     and_then (map_err (\<lambda>_. MalformedProof) (decode_non_identity c encoded)) (\<lambda>point.
     if cv_compress c point \<noteq> encoded then Err MalformedProof else Ok ())"

definition triptych_envelope_new ::
  "'q curve \<Rightarrow> bytes32 \<Rightarrow> bytes \<Rightarrow> tari_triptych_proof_envelope_v1 presult" where
  "triptych_envelope_new c linking_tag triptych_proof =
     and_then (validate_linking_tag c linking_tag) (\<lambda>_.
     if triptych_proof = [] then Err MalformedProof
     else
       and_then (ok_or ProtocolLimitExceeded (checked_add_usize
         TARI_TRIPTYCH_PROOF_ENVELOPE_HEADER_BYTES (length triptych_proof))) (\<lambda>total_length.
       if total_length > MAX_PROOF_BYTES then Err ProtocolLimitExceeded
       else Ok \<lparr>te_linking_tag = linking_tag, te_triptych_proof = triptych_proof\<rparr>))"

definition triptych_envelope_from_bytes ::
  "'q curve \<Rightarrow> bytes \<Rightarrow> tari_triptych_proof_envelope_v1 presult" where
  "triptych_envelope_from_bytes c encoded =
     (if length encoded > MAX_PROOF_BYTES then Err ProtocolLimitExceeded
      else if length encoded \<le> TARI_TRIPTYCH_PROOF_ENVELOPE_HEADER_BYTES then Err MalformedProof
      else
        let version = word_of_nat (from_le_bytes [encoded ! 0, encoded ! 1]) :: u16 in
        if version \<noteq> TARI_TRIPTYCH_PROOF_ENVELOPE_VERSION_V1 then Err MalformedProof
        else
          let linking_tag =
            mk32 (take (TARI_TRIPTYCH_PROOF_ENVELOPE_HEADER_BYTES - 2) (drop 2 encoded)) in
          triptych_envelope_new c linking_tag
            (drop TARI_TRIPTYCH_PROOF_ENVELOPE_HEADER_BYTES encoded))"

definition triptych_envelope_to_bytes :: "tari_triptych_proof_envelope_v1 \<Rightarrow> bytes" where
  "triptych_envelope_to_bytes e =
     le_bytes 2 (unat TARI_TRIPTYCH_PROOF_ENVELOPE_VERSION_V1)
     @ arr_bytes (te_linking_tag e) @ te_triptych_proof e"

section \<open>Ring parameters and the scope generator\<close>

definition SCOPE_GENERATOR_DOMAIN_V1 :: rstring where
  "SCOPE_GENERATOR_DOMAIN_V1 = lit ''tari-cc-private-ballot-triptych-scope-generator-v1''"

definition TRIPTYCH_RING_BASE_V1 :: nat where "TRIPTYCH_RING_BASE_V1 = 2"
definition TRIPTYCH_MINIMUM_EXPONENT_V1 :: nat where "TRIPTYCH_MINIMUM_EXPONENT_V1 = 2"

text \<open>\<open>u32::checked_pow\<close> of the ring base.\<close>

definition checked_pow_u32 :: "nat \<Rightarrow> nat \<Rightarrow> nat option" where
  "checked_pow_u32 b e = (if b ^ e < 2 ^ 32 then Some (b ^ e) else None)"

function ring_exponent_loop :: "nat \<Rightarrow> nat \<Rightarrow> nat \<Rightarrow> nat presult" where
  "ring_exponent_loop registry_size exponent capacity =
     (if capacity < registry_size then
        (if exponent + 1 \<ge> 2 ^ 32 then Err ProtocolLimitExceeded
         else
           case checked_pow_u32 TRIPTYCH_RING_BASE_V1 (exponent + 1) of
             None \<Rightarrow> Err ProtocolLimitExceeded
           | Some capacity' \<Rightarrow> ring_exponent_loop registry_size (exponent + 1) capacity')
      else Ok exponent)"
  by pat_completeness auto
termination
  by (relation "measure (\<lambda>(n, e, c). 2 ^ 32 - e)") auto

declare ring_exponent_loop.simps [simp del]

definition ring_exponent_v1 :: "nat \<Rightarrow> nat presult" where
  "ring_exponent_v1 registry_size =
     (if registry_size = 0 then Err MalformedProof
      else if registry_size \<ge> 2 ^ 32 then Err ProtocolLimitExceeded
      else
        and_then (ok_or ProtocolLimitExceeded
          (checked_pow_u32 TRIPTYCH_RING_BASE_V1 TRIPTYCH_MINIMUM_EXPONENT_V1)) (\<lambda>capacity.
        ring_exponent_loop registry_size TRIPTYCH_MINIMUM_EXPONENT_V1 capacity))"

definition scope_generator_preimage_v1 :: "u16 \<Rightarrow> rstring \<Rightarrow> bytes \<Rightarrow> bytes presult" where
  "scope_generator_preimage_v1 protocol_version proof_suite_id election_scope =
     (if length proof_suite_id \<ge> 2 ^ 32 then Err ProtocolLimitExceeded
      else if length election_scope \<ge> 2 ^ 32 then Err ProtocolLimitExceeded
      else Ok (SCOPE_GENERATOR_DOMAIN_V1 @ le_bytes 8 (unat protocol_version)
               @ le_bytes 4 (length proof_suite_id) @ proof_suite_id
               @ le_bytes 4 (length election_scope) @ election_scope))"

definition derive_scope_generator_v1 ::
  "('q, 'pt, 'pp, 'is, 'ts, 'pf, 'tr) triptych_lib \<Rightarrow> u16 \<Rightarrow> rstring \<Rightarrow> bytes \<Rightarrow> 'pt presult" where
  "derive_scope_generator_v1 L protocol_version proof_suite_id election_scope =
     and_then (scope_generator_preimage_v1 protocol_version proof_suite_id election_scope) (\<lambda>preimage.
     let generator = tl_from_uniform_bytes L (tl_blake3_xof64 L preimage) in
     if cv_is_identity (tl_dalek_v4 L) generator \<or> generator = tl_basepoint L then Err MalformedProof
     else Ok generator)"

definition decode_non_identity_v4 :: "'pt curve \<Rightarrow> bytes32 \<Rightarrow> 'pt presult" where
  "decode_non_identity_v4 c encoded =
     and_then (ok_or MalformedProof (cv_decompress c encoded)) (\<lambda>point.
     if cv_is_identity c point \<or> cv_compress c point \<noteq> encoded then Err MalformedProof
     else Ok point)"

definition parse_sorted_registry_keys_v1 :: "'pt curve \<Rightarrow> bytes32 list \<Rightarrow> 'pt list presult" where
  "parse_sorted_registry_keys_v1 c registry_keys =
     (if windows2_any (\<lambda>a b. a \<ge> b) registry_keys then Err MalformedProof
      else collect_results (decode_non_identity_v4 c) registry_keys)"

definition validate_triptych_registry_keys_v1 :: "'pt curve \<Rightarrow> bytes32 list \<Rightarrow> unit presult" where
  "validate_triptych_registry_keys_v1 c registry_keys =
     and_then (ring_exponent_v1 (length registry_keys)) (\<lambda>_.
     and_then (parse_sorted_registry_keys_v1 c registry_keys) (\<lambda>_. Ok ()))"

definition build_triptych_election_context_v1 ::
  "('q, 'pt, 'pp, 'is, 'ts, 'pf, 'tr) triptych_lib \<Rightarrow> u16 \<Rightarrow> rstring \<Rightarrow> bytes \<Rightarrow> bytes32 list \<Rightarrow>
   ('pp \<times> 'is) presult" where
  "build_triptych_election_context_v1 L protocol_version proof_suite_id election_scope registry_keys =
     and_then (ring_exponent_v1 (length registry_keys)) (\<lambda>exponent.
     and_then (derive_scope_generator_v1 L protocol_version proof_suite_id election_scope) (\<lambda>scope_generator.
     and_then (ok_or MalformedProof (tl_new_with_generators L TRIPTYCH_RING_BASE_V1 exponent
       (tl_basepoint L) scope_generator)) (\<lambda>parameters.
     and_then (parse_sorted_registry_keys_v1 (tl_dalek_v4 L) registry_keys) (\<lambda>verification_keys.
     and_then (ok_or MalformedProof (tl_new_with_padding L verification_keys parameters)) (\<lambda>input_set.
     Ok (parameters, input_set))))))"

definition finish_triptych_statement_v1 ::
  "('q, 'pt, 'pp, 'is, 'ts, 'pf, 'tr) triptych_lib \<Rightarrow> 'pp \<times> 'is \<Rightarrow> bytes32 \<Rightarrow> 'ts presult" where
  "finish_triptych_statement_v1 L context linking_tag =
     and_then (decode_non_identity_v4 (tl_dalek_v4 L) linking_tag) (\<lambda>tag.
     ok_or MalformedProof (tl_statement_new L (fst context) (snd context) tag))"

definition build_triptych_statement_v1 ::
  "('q, 'pt, 'pp, 'is, 'ts, 'pf, 'tr) triptych_lib \<Rightarrow> u16 \<Rightarrow> rstring \<Rightarrow> bytes \<Rightarrow> bytes32 list \<Rightarrow>
   bytes32 \<Rightarrow> 'ts presult" where
  "build_triptych_statement_v1 L protocol_version proof_suite_id election_scope registry_keys linking_tag =
     and_then (build_triptych_election_context_v1 L protocol_version proof_suite_id election_scope
       registry_keys) (\<lambda>context.
     finish_triptych_statement_v1 L context linking_tag)"

definition parse_canonical_triptych_proof_v1 ::
  "('q, 'pt, 'pp, 'is, 'ts, 'pf, 'tr) triptych_lib \<Rightarrow> bytes \<Rightarrow> 'pf presult" where
  "parse_canonical_triptych_proof_v1 L proof_bytes =
     and_then (ok_or MalformedProof (tl_proof_from_bytes L proof_bytes)) (\<lambda>pf.
     if tl_proof_to_bytes L pf \<noteq> proof_bytes then Err MalformedProof else Ok pf)"

section \<open>The verifier\<close>

definition TARI_TRIPTYCH_PROOF_SUITE_ID_V1 :: rstring where
  "TARI_TRIPTYCH_PROOF_SUITE_ID_V1 = lit ''TARI_TRIPTYCH_PROTOTYPE_V1''"

definition TARI_TRIPTYCH_TRANSCRIPT_LABEL_V1 :: bytes where
  "TARI_TRIPTYCH_TRANSCRIPT_LABEL_V1 = lit ''tari-cc-private-ballot-triptych-v1''"

definition PROOF_STATEMENT_TRANSCRIPT_LABEL_V1 :: bytes where
  "PROOF_STATEMENT_TRANSCRIPT_LABEL_V1 = lit ''proof_statement_v1''"

record tari_triptych_verifier_v1 =
  tv_registry_commitment :: registry_commitment
  tv_registry_keys :: "bytes32 list"

definition tari_triptych_verifier_new ::
  "'pt curve \<Rightarrow> registry_commitment \<Rightarrow> bytes32 list \<Rightarrow> tari_triptych_verifier_v1 presult" where
  "tari_triptych_verifier_new c commitment registry_keys =
     and_then (validate_triptych_registry_keys_v1 c registry_keys) (\<lambda>_.
     Ok \<lparr>tv_registry_commitment = commitment, tv_registry_keys = registry_keys\<rparr>)"

definition build_tari_triptych_verifier_from_registry_v1 ::
  "'pt curve \<Rightarrow> registry_snapshot \<Rightarrow> hash_provider \<Rightarrow> tari_triptych_verifier_v1 presult" where
  "build_tari_triptych_verifier_from_registry_v1 c registry provider =
     and_then (registry_canonical_commitment provider registry) (\<lambda>commitment.
     and_then (collect_results (\<lambda>e. ok_or InvalidData (array32 (gpk_bytes (governance_key e))))
       (rs_entries registry)) (\<lambda>registry_keys.
     tari_triptych_verifier_new c commitment registry_keys))"

definition triptych_transcript_v1 ::
  "('q, 'pt, 'pp, 'is, 'ts, 'pf, 'tr) triptych_lib \<Rightarrow> proof_statement_v1 \<Rightarrow> 'tr presult" where
  "triptych_transcript_v1 L statement =
     (let transcript = tl_transcript_new L TARI_TRIPTYCH_TRANSCRIPT_LABEL_V1 in
      and_then (transcript_bytes statement) (\<lambda>statement_bytes.
      Ok (tl_append_message L PROOF_STATEMENT_TRANSCRIPT_LABEL_V1 statement_bytes transcript)))"

definition tari_triptych_verify ::
  "('q, 'pt, 'pp, 'is, 'ts, 'pf, 'tr) triptych_lib \<Rightarrow> tari_triptych_verifier_v1 \<Rightarrow>
   proof_statement_v1 \<Rightarrow> bytes \<Rightarrow> verified_proof_v1 presult" where
  "tari_triptych_verify L v statement proof_bytes =
     (if ps_proof_suite_id statement \<noteq> TARI_TRIPTYCH_PROOF_SUITE_ID_V1 then Err InvalidData
      else if ps_registry_commitment statement \<noteq> tv_registry_commitment v then Err InvalidData
      else
        and_then (triptych_envelope_from_bytes (tl_dalek L) proof_bytes) (\<lambda>envelope.
        and_then (build_triptych_statement_v1 L (ps_protocol_version statement)
          (ps_proof_suite_id statement) (arr_bytes (election_scope_bytes (ps_election_scope statement)))
          (tv_registry_keys v) (te_linking_tag envelope)) (\<lambda>triptych_statement.
        and_then (parse_canonical_triptych_proof_v1 L (te_triptych_proof envelope)) (\<lambda>pf.
        and_then (triptych_transcript_v1 L statement) (\<lambda>transcript.
        if \<not> triptych_verify L pf triptych_statement transcript then Err MalformedProof
        else
          and_then (VerifiedNullifier_new (arr_bytes (te_linking_tag envelope))) (\<lambda>nullifier.
          Ok (VerifiedProofV1_new statement nullifier)))))))"

subsection \<open>Batch verification\<close>

record election_context_key =
  ck_protocol_version :: u16
  ck_proof_suite_id :: rstring
  ck_election_scope :: bytes

record ('ts, 'pf, 'tr) prepared_batch_item =
  pi_input_index :: nat
  pi_proof_statement :: proof_statement_v1
  pi_triptych_statement :: 'ts
  pi_proof :: 'pf
  pi_transcript :: 'tr
  pi_linking_tag :: bytes32

text \<open>
  \<open>prepare_batch_item\<close> updates the shared context through a mutable reference; the model returns
  the context beside the result, also when the result is an error after the context was built.
\<close>

definition context_for ::
  "('q, 'pt, 'pp, 'is, 'ts, 'pf, 'tr) triptych_lib \<Rightarrow> tari_triptych_verifier_v1 \<Rightarrow>
   proof_statement_v1 \<Rightarrow> (election_context_key \<times> 'pp \<times> 'is) option \<Rightarrow>
   (election_context_key \<times> 'pp \<times> 'is) presult" where
  "context_for L v statement context =
     (let key = \<lparr>ck_protocol_version = ps_protocol_version statement,
                 ck_proof_suite_id = ps_proof_suite_id statement,
                 ck_election_scope = arr_bytes (election_scope_bytes (ps_election_scope statement))\<rparr> in
      case context of
        Some (existing, built) \<Rightarrow>
          if existing = key then Ok (existing, built)
          else map_ok (Pair key) (build_triptych_election_context_v1 L (ps_protocol_version statement)
                 (ps_proof_suite_id statement)
                 (arr_bytes (election_scope_bytes (ps_election_scope statement))) (tv_registry_keys v))
      | None \<Rightarrow>
          map_ok (Pair key) (build_triptych_election_context_v1 L (ps_protocol_version statement)
            (ps_proof_suite_id statement)
            (arr_bytes (election_scope_bytes (ps_election_scope statement))) (tv_registry_keys v)))"

definition prepare_batch_item ::
  "('q, 'pt, 'pp, 'is, 'ts, 'pf, 'tr) triptych_lib \<Rightarrow> tari_triptych_verifier_v1 \<Rightarrow>
   proof_statement_v1 \<Rightarrow> bytes \<Rightarrow> (election_context_key \<times> 'pp \<times> 'is) option \<Rightarrow>
   ('ts, 'pf, 'tr) prepared_batch_item presult \<times> (election_context_key \<times> 'pp \<times> 'is) option" where
  "prepare_batch_item L v statement proof_bytes context =
     (if ps_proof_suite_id statement \<noteq> TARI_TRIPTYCH_PROOF_SUITE_ID_V1 then (Err InvalidData, context)
      else if ps_registry_commitment statement \<noteq> tv_registry_commitment v then (Err InvalidData, context)
      else
        case triptych_envelope_from_bytes (tl_dalek L) proof_bytes of
          Err e \<Rightarrow> (Err e, context)
        | Ok envelope \<Rightarrow>
          (case context_for L v statement context of
             Err e \<Rightarrow> (Err e, context)
           | Ok (key, built) \<Rightarrow>
             (and_then (finish_triptych_statement_v1 L built (te_linking_tag envelope)) (\<lambda>triptych_statement.
              and_then (parse_canonical_triptych_proof_v1 L (te_triptych_proof envelope)) (\<lambda>pf.
              and_then (triptych_transcript_v1 L statement) (\<lambda>transcript.
              Ok \<lparr>pi_input_index = 0, pi_proof_statement = statement,
                  pi_triptych_statement = triptych_statement, pi_proof = pf,
                  pi_transcript = transcript, pi_linking_tag = te_linking_tag envelope\<rparr>))),
              Some (key, built))))"

definition blame_prepared_batch ::
  "('q, 'pt, 'pp, 'is, 'ts, 'pf, 'tr) triptych_lib \<Rightarrow> ('ts, 'pf, 'tr) prepared_batch_item list \<Rightarrow>
   bool list" where
  "blame_prepared_batch L prepared =
     (case verify_batch_with_full_blame L (map pi_triptych_statement prepared) (map pi_proof prepared)
             (map pi_transcript prepared) of
        Ok _ \<Rightarrow> replicate (length prepared) True
      | Err (FailedBatchVerificationWithFullBlame indexes) \<Rightarrow>
          fold (\<lambda>i flags. flags[i := False]) indexes (replicate (length prepared) True)
      | Err OtherProofError \<Rightarrow> replicate (length prepared) False)"

definition batch_item_result ::
  "('ts, 'pf, 'tr) prepared_batch_item \<Rightarrow> bool \<Rightarrow> verified_proof_v1 presult" where
  "batch_item_result item valid =
     (if valid then
        (case VerifiedNullifier_new (arr_bytes (pi_linking_tag item)) of
           Ok nullifier \<Rightarrow> Ok (VerifiedProofV1_new (pi_proof_statement item) nullifier)
         | Err e \<Rightarrow> Err e)
      else Err MalformedProof)"

definition run_prepared_batch ::
  "('q, 'pt, 'pp, 'is, 'ts, 'pf, 'tr) triptych_lib \<Rightarrow> ('ts, 'pf, 'tr) prepared_batch_item list \<Rightarrow>
   verified_proof_v1 presult option list \<Rightarrow> verified_proof_v1 presult option list" where
  "run_prepared_batch L prepared results =
     (if prepared = [] then results
      else
        let valid_flags =
          (if tl_verify_batch L (map pi_triptych_statement prepared) (map pi_proof prepared)
                (map pi_transcript prepared)
           then replicate (length prepared) True
           else blame_prepared_batch L prepared) in
        fold (\<lambda>(item, valid) results.
                results[pi_input_index item := Some (batch_item_result item valid)])
          (zip prepared valid_flags) results)"

text \<open>The preparation loop of \<open>verify_batch_v1\<close>, over the inputs from position \<open>index\<close> on.\<close>

fun prepare_batch_loop ::
  "('q, 'pt, 'pp, 'is, 'ts, 'pf, 'tr) triptych_lib \<Rightarrow> tari_triptych_verifier_v1 \<Rightarrow> nat \<Rightarrow>
   proof_batch_input_v1 list \<Rightarrow> (election_context_key \<times> 'pp \<times> 'is) option \<Rightarrow>
   ('ts, 'pf, 'tr) prepared_batch_item list \<Rightarrow> verified_proof_v1 presult option list \<Rightarrow>
   ('ts, 'pf, 'tr) prepared_batch_item list \<times> verified_proof_v1 presult option list" where
  "prepare_batch_loop L v index [] context prepared results = (prepared, results)"
| "prepare_batch_loop L v index (inp # inputs) context prepared results =
     (case prepare_batch_item L v (bi_statement inp) (bi_proof_bytes inp) context of
        (Ok item, context') \<Rightarrow>
          prepare_batch_loop L v (Suc index) inputs context'
            (prepared @ [item\<lparr>pi_input_index := index, pi_proof_statement := bi_statement inp\<rparr>]) results
      | (Err e, context') \<Rightarrow>
          prepare_batch_loop L v (Suc index) inputs context' prepared (results[index := Some (Err e)]))"

definition tari_triptych_verify_batch ::
  "('q, 'pt, 'pp, 'is, 'ts, 'pf, 'tr) triptych_lib \<Rightarrow> tari_triptych_verifier_v1 \<Rightarrow>
   proof_batch_input_v1 list \<Rightarrow> verified_proof_v1 presult list" where
  "tari_triptych_verify_batch L v inputs =
     (let (prepared, results) =
        prepare_batch_loop L v 0 inputs None [] (replicate (length inputs) None) in
      map (\<lambda>r. case r of Some x \<Rightarrow> x | None \<Rightarrow> Err InvalidData) (run_prepared_batch L prepared results))"

definition TariTriptychPrototypeVerifierV1 ::
  "('q, 'pt, 'pp, 'is, 'ts, 'pf, 'tr) triptych_lib \<Rightarrow> tari_triptych_verifier_v1 \<Rightarrow> proof_verifier_v1" where
  "TariTriptychPrototypeVerifierV1 L v =
     \<lparr>pv_suite_id = TARI_TRIPTYCH_PROOF_SUITE_ID_V1, pv_verify = tari_triptych_verify L v,
      pv_verify_batch = tari_triptych_verify_batch L v\<rparr>"

section \<open>Proof envelopes round-trip\<close>

definition wf_triptych_envelope :: "'q curve \<Rightarrow> tari_triptych_proof_envelope_v1 \<Rightarrow> bool" where
  "wf_triptych_envelope c e \<longleftrightarrow>
     validate_linking_tag c (te_linking_tag e) = Ok () \<and> te_triptych_proof e \<noteq> []
     \<and> TARI_TRIPTYCH_PROOF_ENVELOPE_HEADER_BYTES + length (te_triptych_proof e) \<le> MAX_PROOF_BYTES"

lemma triptych_envelope_new_Ok_iff:
  "triptych_envelope_new c tag pf = Ok e \<longleftrightarrow>
     e = \<lparr>te_linking_tag = tag, te_triptych_proof = pf\<rparr> \<and> wf_triptych_envelope c e"
  by (auto simp: triptych_envelope_new_def wf_triptych_envelope_def result_inv checked_add_usize_def
      limits_def usize_max_def)

lemma le_bytes_version: "le_bytes 2 (unat TARI_TRIPTYCH_PROOF_ENVELOPE_VERSION_V1) = [1, 0]"
  by (simp add: le_bytes_def TARI_TRIPTYCH_PROOF_ENVELOPE_VERSION_V1_def numeral_2_eq_2)

lemma le_version_iff:
  "(word_of_nat (from_le_bytes [a, b]) :: u16) = TARI_TRIPTYCH_PROOF_ENVELOPE_VERSION_V1 \<longleftrightarrow> a = 1 \<and> b = 0"
proof -
  have "from_le_bytes [a, b] < 65536"
    using from_be_bytes_bound [of "[b, a]"] by (simp add: from_le_bytes_def)
  then have "unat (word_of_nat (from_le_bytes [a, b]) :: u16) = from_le_bytes [a, b]"
    by (simp add: unat_of_nat take_bit_nat_eq_self)
  moreover have "x * 256 + y = 1 \<longleftrightarrow> y = 1 \<and> x = 0" for x y :: nat
    by (cases x) auto
  then have "from_le_bytes [a, b] = 1 \<longleftrightarrow> a = 1 \<and> b = 0"
    by (simp add: from_le_bytes_def word_unat_eq_iff)
  ultimately show ?thesis
    by (auto simp: TARI_TRIPTYCH_PROOF_ENVELOPE_VERSION_V1_def word_unat_eq_iff)
qed

lemma triptych_envelope_decode_Ok:
  assumes "triptych_envelope_from_bytes c bs = Ok e"
  shows "wf_triptych_envelope c e \<and> triptych_envelope_to_bytes e = bs"
proof -
  from assms have len: "34 < length bs"
    and ver: "bs ! 0 = 1" "bs ! 1 = 0"
    and new: "triptych_envelope_new c (mk32 (take 32 (drop 2 bs))) (drop 34 bs) = Ok e"
    by (auto simp: triptych_envelope_from_bytes_def TARI_TRIPTYCH_PROOF_ENVELOPE_HEADER_BYTES_def
        Let_def le_version_iff split: if_splits)
  have "bs = take 2 bs @ take 32 (drop 2 bs) @ drop 34 bs"
    by (metis append_take_drop_id drop_drop numeral_plus_numeral add_num_simps(5) add_num_simps(2) add_num_simps(3) add.commute)
  moreover have "take 2 bs = [1, 0]"
    using len ver by (cases bs; cases "tl bs") auto
  ultimately show ?thesis
    using new len
    by (auto simp: triptych_envelope_new_Ok_iff triptych_envelope_to_bytes_def le_bytes_version)
qed

lemma triptych_envelope_decode_enc:
  assumes "wf_triptych_envelope c e"
  shows "triptych_envelope_from_bytes c (triptych_envelope_to_bytes e) = Ok e"
proof -
  have v: "(word_of_nat (from_le_bytes [1, 0]) :: u16) = TARI_TRIPTYCH_PROOF_ENVELOPE_VERSION_V1"
    by (simp add: le_version_iff)
  have "triptych_envelope_new c (te_linking_tag e) (te_triptych_proof e) = Ok e"
    using assms by (simp add: triptych_envelope_new_Ok_iff)
  then show ?thesis
    using assms v
    by (simp add: triptych_envelope_from_bytes_def triptych_envelope_to_bytes_def le_bytes_version
        TARI_TRIPTYCH_PROOF_ENVELOPE_HEADER_BYTES_def wf_triptych_envelope_def)
qed

interpretation triptych_envelope_codec:
  object_codec "triptych_envelope_from_bytes c" "\<lambda>e. Ok (triptych_envelope_to_bytes e)" "wf_triptych_envelope c"
  for c
  by unfold_locales (auto simp: triptych_envelope_decode_enc dest: triptych_envelope_decode_Ok)

section \<open>Ring exponents\<close>

lemma ring_exponent_loop_least:
  assumes "n \<le> 2 ^ 31"
  shows "\<exists>k \<ge> e. ring_exponent_loop n e (2 ^ e) = Ok k \<and> n \<le> 2 ^ k \<and> (k = e \<or> 2 ^ (k - 1) < n)"
proof (induction "32 - e" arbitrary: e rule: less_induct)
  case less
  show ?case
  proof (cases "2 ^ e < n")
    case False
    then show ?thesis by (intro exI [of _ e]) (simp add: ring_exponent_loop.simps [of n e])
  next
    case True
    then have "(2 :: nat) ^ e < 2 ^ 31" using assms by (rule order_less_le_trans)
    then have e: "e < 31" by (rule power_less_imp_less_exp [rotated]) simp
    then have "(2 :: nat) ^ Suc e < 2 ^ 32" by (intro power_strict_increasing) auto
    then have step: "ring_exponent_loop n e (2 ^ e) = ring_exponent_loop n (Suc e) (2 ^ Suc e)"
      using True e
      by (simp add: ring_exponent_loop.simps [of n e] checked_pow_u32_def TRIPTYCH_RING_BASE_V1_def)
    have "32 - Suc e < 32 - e" using e by simp
    from less [OF this] obtain k where
      "k \<ge> Suc e" "ring_exponent_loop n (Suc e) (2 ^ Suc e) = Ok k" "n \<le> 2 ^ k"
      "k = Suc e \<or> 2 ^ (k - 1) < n" by blast
    with step True show ?thesis by (intro exI [of _ k]) auto
  qed
qed

lemma ring_exponent_v1_least:
  assumes "0 < n" "n \<le> 2 ^ 31"
  shows "\<exists>k. ring_exponent_v1 n = Ok k \<and> 2 \<le> k \<and> n \<le> 2 ^ k \<and> (\<forall>j. 2 \<le> j \<longrightarrow> n \<le> 2 ^ j \<longrightarrow> k \<le> j)"
proof -
  from ring_exponent_loop_least [OF assms(2), of 2] obtain k where
    k: "k \<ge> 2" "ring_exponent_loop n 2 4 = Ok k" "n \<le> 2 ^ k" "k = 2 \<or> 2 ^ (k - 1) < n" by auto
  have "k \<le> j" if "2 \<le> j" "n \<le> 2 ^ j" for j
  proof (rule ccontr)
    assume "\<not> k \<le> j"
    then have "(2 :: nat) ^ j \<le> 2 ^ (k - 1)" by (intro power_increasing) auto
    with that(2) have "n \<le> 2 ^ (k - 1)" by (rule order_trans)
    with k(4) that \<open>\<not> k \<le> j\<close> show False by auto
  qed
  with k assms show ?thesis
    by (intro exI [of _ k])
      (simp add: ring_exponent_v1_def checked_pow_u32_def TRIPTYCH_RING_BASE_V1_def
        TRIPTYCH_MINIMUM_EXPONENT_V1_def)
qed

section \<open>The scope generator preimage\<close>

lemma length_le_bytes [simp]: "length (le_bytes n v) = n"
  by (simp add: le_bytes_def)

lemma le_bytes_inject: "v < 256 ^ n \<Longrightarrow> w < 256 ^ n \<Longrightarrow> le_bytes n v = le_bytes n w \<longleftrightarrow> v = w"
  unfolding le_bytes_def rev_is_rev_conv by (metis from_be_be)

lemma unat_u16_bound: "unat (v :: u16) < 65536"
  using unsigned_less [of v, where 'a = nat] by simp

lemma scope_generator_preimage_inject:
  assumes "scope_generator_preimage_v1 v s e = Ok x" and "scope_generator_preimage_v1 v' s' e' = Ok x"
  shows "v = v' \<and> s = s' \<and> e = e'"
proof -
  from assms have len: "length s < 256 ^ 4" "length s' < 256 ^ 4" "length e < 256 ^ 4" "length e' < 256 ^ 4"
    and eq: "le_bytes 8 (unat v) @ le_bytes 4 (length s) @ s @ le_bytes 4 (length e) @ e
      = le_bytes 8 (unat v') @ le_bytes 4 (length s') @ s' @ le_bytes 4 (length e') @ e'"
    by (auto simp: scope_generator_preimage_v1_def split: if_splits)
  have "unat v < 256 ^ 8" "unat v' < 256 ^ 8" using unat_u16_bound [of v] unat_u16_bound [of v'] by simp_all
  with eq have 1: "v = v'" and eq1: "le_bytes 4 (length s) @ s @ le_bytes 4 (length e) @ e
      = le_bytes 4 (length s') @ s' @ le_bytes 4 (length e') @ e'"
    by (simp_all add: le_bytes_inject word_unat_eq_iff)
  from eq1 len have ls: "length s = length s'"
    and eq2: "s @ le_bytes 4 (length e) @ e = s' @ le_bytes 4 (length e') @ e'"
    by (simp_all add: le_bytes_inject)
  with len show ?thesis using 1 by (simp add: le_bytes_inject)
qed

section \<open>The batch verifier answers as the individual one\<close>

definition context_ok ::
  "('q, 'pt, 'pp, 'is, 'ts, 'pf, 'tr) triptych_lib \<Rightarrow> tari_triptych_verifier_v1 \<Rightarrow>
   (election_context_key \<times> 'pp \<times> 'is) option \<Rightarrow> bool" where
  "context_ok L v context \<longleftrightarrow>
     (\<forall>k built. context = Some (k, built) \<longrightarrow>
        build_triptych_election_context_v1 L (ck_protocol_version k) (ck_proof_suite_id k)
          (ck_election_scope k) (tv_registry_keys v) = Ok built)"

definition item_valid ::
  "('q, 'pt, 'pp, 'is, 'ts, 'pf, 'tr) triptych_lib \<Rightarrow> ('ts, 'pf, 'tr) prepared_batch_item \<Rightarrow> bool" where
  "item_valid L item \<longleftrightarrow> triptych_verify L (pi_proof item) (pi_triptych_statement item) (pi_transcript item)"

text \<open>Reusing the cached context gives what building it again would give.\<close>

lemma context_for_eq:
  assumes "context_ok L v context"
  shows "context_for L v s context =
    map_ok (Pair \<lparr>ck_protocol_version = ps_protocol_version s, ck_proof_suite_id = ps_proof_suite_id s,
                  ck_election_scope = arr_bytes (election_scope_bytes (ps_election_scope s))\<rparr>)
      (build_triptych_election_context_v1 L (ps_protocol_version s) (ps_proof_suite_id s)
         (arr_bytes (election_scope_bytes (ps_election_scope s))) (tv_registry_keys v))"
  using assms by (auto simp: context_for_def context_ok_def Let_def split: option.splits)

lemma batch_item_result_eq:
  "batch_item_result item valid =
     (if valid then and_then (VerifiedNullifier_new (arr_bytes (pi_linking_tag item)))
        (\<lambda>n. Ok (VerifiedProofV1_new (pi_proof_statement item) n)) else Err MalformedProof)"
  by (cases "VerifiedNullifier_new (arr_bytes (pi_linking_tag item))") (simp_all add: batch_item_result_def)

lemma prepare_batch_item_spec:
  assumes ok: "context_ok L v context" and prep: "prepare_batch_item L v s pf context = (res, context')"
  shows "context_ok L v context'"
    and "tari_triptych_verify L v s pf = and_then res (\<lambda>item. batch_item_result item (item_valid L item))"
    and "res = Ok item \<Longrightarrow> pi_proof_statement item = s"
proof -
  let ?build = "build_triptych_election_context_v1 L (ps_protocol_version s) (ps_proof_suite_id s)
         (arr_bytes (election_scope_bytes (ps_election_scope s))) (tv_registry_keys v)"
  note defs = prepare_batch_item_def context_for_eq [OF ok]
  show "context_ok L v context'"
    using ok prep unfolding defs
    by (cases ?build) (auto simp: context_ok_def split: if_splits result.splits)
  show "tari_triptych_verify L v s pf = and_then res (\<lambda>item. batch_item_result item (item_valid L item))"
    using prep unfolding defs
    by (cases ?build; cases "triptych_envelope_from_bytes (tl_dalek L) pf")
      (auto simp: tari_triptych_verify_def build_triptych_statement_v1_def and_then_assoc
        batch_item_result_eq item_valid_def split: if_splits result.splits
        intro!: arg_cong2 [of _ _ _ _ and_then] ext)
  show "pi_proof_statement item = s" if "res = Ok item"
    using prep that unfolding defs
    by (cases ?build) (auto simp: result_inv split: if_splits result.splits)
qed

lemma prepare_batch_loop_spec:
  assumes "prepare_batch_loop L v idx (drop idx all) ctx prep res = (prep', res')"
    and "context_ok L v ctx" and "idx \<le> length all" and "length res = length all"
    and "\<And>it. it \<in> set prep \<Longrightarrow> batch_item_result it (item_valid L it)
          = tari_triptych_verify L v (bi_statement (all ! pi_input_index it)) (bi_proof_bytes (all ! pi_input_index it))"
    and "\<And>j. j < idx \<Longrightarrow> res ! j
          = Some (tari_triptych_verify L v (bi_statement (all ! j)) (bi_proof_bytes (all ! j)))
          \<or> j \<in> pi_input_index ` set prep"
  shows "length res' = length all
    \<and> (\<forall>it \<in> set prep'. batch_item_result it (item_valid L it)
        = tari_triptych_verify L v (bi_statement (all ! pi_input_index it)) (bi_proof_bytes (all ! pi_input_index it)))
    \<and> (\<forall>j < length all. res' ! j
        = Some (tari_triptych_verify L v (bi_statement (all ! j)) (bi_proof_bytes (all ! j)))
        \<or> j \<in> pi_input_index ` set prep')"
  using assms
proof (induction "length all - idx" arbitrary: idx ctx prep res)
  case 0
  then show ?case by auto
next
  case (Suc n)
  let ?inp = "all ! idx"
  have idx: "idx < length all" using Suc.hyps(2) by simp
  then have drop: "drop idx all = ?inp # drop (Suc idx) all" by (rule Cons_nth_drop_Suc [symmetric])
  have n: "n = length all - Suc idx" using Suc.hyps(2) by simp
  obtain r c' where prep: "prepare_batch_item L v (bi_statement ?inp) (bi_proof_bytes ?inp) ctx = (r, c')"
    by fastforce
  note spec = prepare_batch_item_spec [OF Suc.prems(2) prep]
  show ?case
  proof (cases r)
    case (Err e)
    have "prepare_batch_loop L v (Suc idx) (drop (Suc idx) all) c' prep (res[idx := Some (Err e)]) = (prep', res')"
      using Suc.prems(1) by (simp add: drop prep Err)
    then show ?thesis
      by (rule Suc.hyps(1) [OF n _ spec(1)])
        (use idx Suc.prems spec(2) Err in \<open>auto simp: nth_list_update less_Suc_eq\<close>)
  next
    case (Ok item)
    let ?item = "item\<lparr>pi_input_index := idx, pi_proof_statement := bi_statement ?inp\<rparr>"
    have loop: "prepare_batch_loop L v (Suc idx) (drop (Suc idx) all) c' (prep @ [?item]) res = (prep', res')"
      using Suc.prems(1) by (simp add: drop prep Ok)
    have "batch_item_result ?item (item_valid L ?item) = batch_item_result item (item_valid L item)"
      using spec(3) [OF Ok] by (simp add: batch_item_result_eq item_valid_def)
    then have item: "batch_item_result ?item (item_valid L ?item)
        = tari_triptych_verify L v (bi_statement ?inp) (bi_proof_bytes ?inp)"
      using spec(2) Ok by simp
    show ?thesis
      by (rule Suc.hyps(1) [OF n loop spec(1)])
        (use idx Suc.prems item in \<open>auto simp: less_Suc_eq\<close>)
  qed
qed

text \<open>Under batch soundness the flags of either path are those of individual verification.\<close>

lemma fold_clear_nth:
  "j < length fl \<Longrightarrow> fold (\<lambda>i flags. flags[i := False]) idxs fl ! j \<longleftrightarrow> fl ! j \<and> j \<notin> set idxs"
proof (induction idxs arbitrary: fl)
  case (Cons i idxs)
  then show ?case by (cases "i = j") auto
qed simp

lemma length_fold_clear: "length (fold (\<lambda>i flags. flags[i := False]) idxs fl) = length fl"
  by (induction idxs arbitrary: fl) auto

lemma blame_prepared_batch_eq:
  assumes "\<not> tl_verify_batch L (map pi_triptych_statement prepared) (map pi_proof prepared) (map pi_transcript prepared)"
  shows "blame_prepared_batch L prepared = map (item_valid L) prepared"
proof (rule nth_equalityI)
  let ?z = "zip [0..<length prepared] (zip (map pi_triptych_statement prepared)
      (zip (map pi_proof prepared) (map pi_transcript prepared)))"
  have mem: "j \<in> set (map fst (filter (\<lambda>(i, s, p, t). \<not> triptych_verify L p s t) ?z)) \<longleftrightarrow>
      \<not> item_valid L (prepared ! j)" if "j < length prepared" for j
    using that by (force simp: set_zip item_valid_def image_iff)
  show "length (blame_prepared_batch L prepared) = length (map (item_valid L) prepared)"
    using assms by (simp add: blame_prepared_batch_def verify_batch_with_full_blame_def length_fold_clear)
  fix j assume "j < length (blame_prepared_batch L prepared)"
  then have j: "j < length prepared"
    using assms by (simp add: blame_prepared_batch_def verify_batch_with_full_blame_def length_fold_clear)
  show "blame_prepared_batch L prepared ! j = map (item_valid L) prepared ! j"
    using assms j mem [OF j]
    by (simp add: blame_prepared_batch_def verify_batch_with_full_blame_def fold_clear_nth)
qed

lemma batch_writeback:
  assumes "\<forall>it \<in> set items. val it = f (pi_input_index it)"
  shows "length (fold (\<lambda>it rs. rs[pi_input_index it := Some (val it)]) items rs) = length rs
    \<and> (\<forall>j < length rs. rs ! j = Some (f j) \<or> j \<in> pi_input_index ` set items \<longrightarrow>
        fold (\<lambda>it rs. rs[pi_input_index it := Some (val it)]) items rs ! j = Some (f j))"
  using assms
proof (induction items arbitrary: rs)
  case (Cons it items)
  let ?rs = "rs[pi_input_index it := Some (val it)]"
  have "?rs ! j = Some (f j)" if "rs ! j = Some (f j)" "j < length rs" for j
    using that Cons.prems by (cases "pi_input_index it = j") auto
  then show ?case
    using Cons.IH [of ?rs] Cons.prems by (auto simp: nth_list_update)
qed simp

lemma run_prepared_batch_eq:
  assumes "triptych_batch_sound L"
  shows "run_prepared_batch L prepared results =
    fold (\<lambda>it rs. rs[pi_input_index it := Some (batch_item_result it (item_valid L it))]) prepared results"
proof -
  let ?ok = "tl_verify_batch L (map pi_triptych_statement prepared) (map pi_proof prepared) (map pi_transcript prepared)"
  have "replicate (length prepared) True = map (item_valid L) prepared" if ?ok
    using assms that by (intro nth_equalityI)
      (force simp: triptych_batch_sound_def item_valid_def)+
  then have "(if ?ok then replicate (length prepared) True else blame_prepared_batch L prepared)
      = map (item_valid L) prepared"
    using blame_prepared_batch_eq [of L prepared] by simp
  moreover have "zip prepared (map (item_valid L) prepared) = map (\<lambda>it. (it, item_valid L it)) prepared"
    by (simp add: zip_map2 zip_same_conv_map)
  ultimately show ?thesis
    by (simp add: run_prepared_batch_def Let_def fold_map comp_def)
qed

lemma tari_triptych_verify_batch_eq:
  assumes "triptych_batch_sound L"
  shows "tari_triptych_verify_batch L v inputs = default_verify_batch (tari_triptych_verify L v) inputs"
proof -
  let ?f = "\<lambda>j. tari_triptych_verify L v (bi_statement (inputs ! j)) (bi_proof_bytes (inputs ! j))"
  obtain prepared results where loop:
    "prepare_batch_loop L v 0 inputs None [] (replicate (length inputs) None) = (prepared, results)"
    by fastforce
  from prepare_batch_loop_spec [of L v 0 inputs None "[]" "replicate (length inputs) None" prepared results] loop
  have len: "length results = length inputs"
    and items: "\<forall>it \<in> set prepared. batch_item_result it (item_valid L it) = ?f (pi_input_index it)"
    and res: "\<forall>j < length inputs. results ! j = Some (?f j) \<or> j \<in> pi_input_index ` set prepared"
    by (simp_all add: context_ok_def)
  have "run_prepared_batch L prepared results = map Some (map ?f [0..<length inputs])"
    unfolding run_prepared_batch_eq [OF assms]
    using batch_writeback [OF items, of results] len res by (intro nth_equalityI) auto
  then show ?thesis
    by (intro nth_equalityI) (simp_all add: tari_triptych_verify_batch_def loop default_verify_batch_def)
qed

section \<open>The contract\<close>

lemma tari_triptych_verify_Ok:
  assumes "tari_triptych_verify L v s pf = Ok p"
  shows "vp_statement p = s \<and> ps_proof_suite_id s = TARI_TRIPTYCH_PROOF_SUITE_ID_V1
    \<and> ps_registry_commitment s = tv_registry_commitment v \<and> wf_nullifier (vp_nullifier p)
    \<and> (\<exists>e. triptych_envelope_from_bytes (tl_dalek L) pf = Ok e
          \<and> nullifier_bytes (vp_nullifier p) = arr_bytes (te_linking_tag e))"
  using assms
  by (auto simp: tari_triptych_verify_def VerifiedProofV1_new_def result_inv split: if_splits)

interpretation triptych: proof_verifier "TariTriptychPrototypeVerifierV1 L v" for L v
  by unfold_locales (auto simp: TariTriptychPrototypeVerifierV1_def dest: tari_triptych_verify_Ok)

lemma triptych_contract:
  assumes "triptych_batch_sound L"
  shows "batch_proof_verifier (TariTriptychPrototypeVerifierV1 L v)"
  by unfold_locales
    (simp add: TariTriptychPrototypeVerifierV1_def tari_triptych_verify_batch_eq [OF assms])

end
