(* ===== verification/Ingestion.thy ===== *)
theory Ingestion
  imports Ballot_Package Lifecycle Triptych
begin

text \<open>
  The verifier crate (crates/verifier/src: lib.rs, proof_statement.rs, proof_suite_policy.rs,
  proof_verification.rs, approval_ingestion.rs): reconstruction of the proof statement, individual
  and batch verification of ballot packages, and the acceptance ledger that keeps the first valid
  ballot of each nullifier.

  The trait \<open>ElectionManifestModel\<close> is implemented by both manifest versions and by the enum over
  them; the generic functions are modelled at the enum. A failed operation leaves the ledger as it
  was, so a fallible method returns the new ledger on success only.
\<close>

section \<open>Statements\<close>

definition reconstruct_approval_proof_statement ::
  "election_manifest \<Rightarrow> approval_ballot_payload \<Rightarrow> hash_provider \<Rightarrow> proof_statement_v1 presult" where
  "reconstruct_approval_proof_statement manifest payload provider =
     and_then (manifest_canonical_hash provider manifest) (\<lambda>manifest_hash.
     and_then (manifest_canonical_scope provider manifest) (\<lambda>election_scope.
     and_then (payload_canonical_hash provider payload) (\<lambda>ballot_payload_hash.
     ProofStatementV1_new
       \<lparr>ps_protocol_version = manifest_protocol_version manifest,
        ps_proof_suite_id = manifest_proof_suite_id manifest,
        ps_manifest_hash = manifest_hash,
        ps_election_scope = election_scope,
        ps_registry_commitment = manifest_registry_commitment manifest,
        ps_ballot_payload_hash = ballot_payload_hash,
        ps_ballot_kind_id = ballot_kind_as_str (manifest_ballot_kind manifest),
        ps_ballot_confidentiality_id =
          ballot_confidentiality_as_str (manifest_ballot_confidentiality manifest)\<rparr>)))"

definition production_policy_validate :: "rstring \<Rightarrow> unit presult" where
  "production_policy_validate proof_suite_id =
     (if proof_suite_id \<noteq> TARI_TRIPTYCH_PROOF_SUITE_ID_V1 then Err UnsupportedProofSuite else Ok ())"

section \<open>Proof verification\<close>

record verified_approval_ballot_v1 =
  vb_proof :: verified_proof_v1
  vb_payload :: approval_ballot_payload

definition reconstruct_verification_statement ::
  "election_manifest \<Rightarrow> approval_ballot_payload \<Rightarrow> bytes \<Rightarrow> hash_provider \<Rightarrow> proof_verifier_v1 \<Rightarrow>
   proof_statement_v1 presult" where
  "reconstruct_verification_statement manifest payload proof_bytes provider V =
     (if proof_bytes = [] then Err InvalidData
      else if length proof_bytes > MAX_PROOF_BYTES then Err ProtocolLimitExceeded
      else if manifest_proof_suite_id manifest \<noteq> pv_suite_id V then Err InvalidData
      else reconstruct_approval_proof_statement manifest payload provider)"

definition bind_verified_statement ::
  "proof_statement_v1 \<Rightarrow> approval_ballot_payload \<Rightarrow> verified_proof_v1 \<Rightarrow>
   verified_approval_ballot_v1 presult" where
  "bind_verified_statement statement payload verified =
     (if vp_statement verified \<noteq> statement then Err InvalidData
      else Ok \<lparr>vb_proof = verified, vb_payload = payload\<rparr>)"

definition verify_approval_proof ::
  "election_manifest \<Rightarrow> approval_ballot_payload \<Rightarrow> bytes \<Rightarrow> hash_provider \<Rightarrow> proof_verifier_v1 \<Rightarrow>
   verified_approval_ballot_v1 presult" where
  "verify_approval_proof manifest payload proof_bytes provider V =
     and_then (reconstruct_verification_statement manifest payload proof_bytes provider V) (\<lambda>statement.
     and_then (pv_verify V statement proof_bytes) (\<lambda>verified.
     bind_verified_statement statement payload verified))"

section \<open>The acceptance ledger\<close>

record accepted_ballot =
  ab_verified_proof :: verified_proof_v1
  ab_payload :: approval_ballot_payload

record ballot_acceptance_ledger =
  bl_seen_nullifiers :: "verified_nullifier set"
  bl_accepted_ballots :: "accepted_ballot list"

definition ledger_new :: ballot_acceptance_ledger where
  "ledger_new = \<lparr>bl_seen_nullifiers = {}, bl_accepted_ballots = []\<rparr>"

definition accept_verified ::
  "election_lifecycle_v1 \<Rightarrow> verified_approval_ballot_v1 \<Rightarrow> ballot_acceptance_ledger \<Rightarrow>
   ballot_acceptance_ledger presult" where
  "accept_verified lifecycle ballot ledger =
     and_then (validate_ballot_statement lifecycle (vp_statement (vb_proof ballot))) (\<lambda>_.
     let nullifier = vp_nullifier (vb_proof ballot) in
     if nullifier \<in> bl_seen_nullifiers ledger then Err DuplicateNullifier
     else Ok \<lparr>bl_seen_nullifiers = insert nullifier (bl_seen_nullifiers ledger),
              bl_accepted_ballots = bl_accepted_ballots ledger
                @ [\<lparr>ab_verified_proof = vb_proof ballot, ab_payload = vb_payload ballot\<rparr>]\<rparr>)"

section \<open>Package ingestion\<close>

record prepared_approval_ballot_v1 =
  pb_statement :: proof_statement_v1
  pb_payload :: approval_ballot_payload
  pb_proof_bytes :: bytes

definition prepare_approval_ballot_package_v1 ::
  "bytes \<Rightarrow> election_manifest \<Rightarrow> candidate_set \<Rightarrow> hash_provider \<Rightarrow> proof_verifier_v1 \<Rightarrow>
   prepared_approval_ballot_v1 presult" where
  "prepare_approval_ballot_package_v1 package_bytes manifest candidates provider V =
     and_then (envelope_from_canonical_cbor package_bytes) (\<lambda>envelope.
     and_then (manifest_canonical_hash provider manifest) (\<lambda>manifest_hash.
     and_then (envelope_validate_manifest_binding envelope manifest_hash
       (manifest_proof_suite_id manifest)) (\<lambda>_.
     and_then (production_policy_validate (manifest_proof_suite_id manifest)) (\<lambda>_.
     and_then (candidate_set_canonical_commitment provider candidates) (\<lambda>commitment.
     if commitment \<noteq> manifest_candidate_set_commitment manifest then Err CandidateSetCommitmentMismatch
     else
       and_then (into_ballot_package envelope candidates (manifest_approval_limits manifest)) (\<lambda>package.
       and_then (reconstruct_verification_statement manifest (pk_payload package) (pk_proof package)
         provider V) (\<lambda>statement.
       Ok \<lparr>pb_statement = statement, pb_payload = pk_payload package,
           pb_proof_bytes = pk_proof package\<rparr>)))))))"

definition ingest_approval_ballot_package_v1 ::
  "bytes \<Rightarrow> election_manifest \<Rightarrow> candidate_set \<Rightarrow> election_lifecycle_v1 \<Rightarrow> hash_provider \<Rightarrow>
   proof_verifier_v1 \<Rightarrow> ballot_acceptance_ledger \<Rightarrow> ballot_acceptance_ledger presult" where
  "ingest_approval_ballot_package_v1 package_bytes manifest candidates lifecycle provider V ledger =
     and_then (prepare_approval_ballot_package_v1 package_bytes manifest candidates provider V) (\<lambda>prepared.
     and_then (pv_verify V (pb_statement prepared) (pb_proof_bytes prepared)) (\<lambda>verified.
     and_then (bind_verified_statement (pb_statement prepared) (pb_payload prepared) verified) (\<lambda>ballot.
     accept_verified lifecycle ballot ledger)))"

text \<open>
  The batch verifier: every package is prepared, the prepared proofs go through one batch call,
  and the results are taken back in order, one per prepared package.
\<close>

fun rejoin_batch_results ::
  "prepared_approval_ballot_v1 presult list \<Rightarrow> verified_proof_v1 presult list \<Rightarrow>
   verified_approval_ballot_v1 presult list" where
  "rejoin_batch_results [] crypto_results = []"
| "rejoin_batch_results (Err e # items) crypto_results = Err e # rejoin_batch_results items crypto_results"
| "rejoin_batch_results (Ok prepared # items) [] = Err InvalidData # rejoin_batch_results items []"
| "rejoin_batch_results (Ok prepared # items) (verified # crypto_results) =
     and_then verified (bind_verified_statement (pb_statement prepared) (pb_payload prepared))
     # rejoin_batch_results items crypto_results"

fun ok_items :: "('a, 'e) result list \<Rightarrow> 'a list" where
  "ok_items [] = []"
| "ok_items (Ok x # items) = x # ok_items items"
| "ok_items (Err e # items) = ok_items items"

definition verify_approval_ballot_packages_batch_v1 ::
  "bytes list \<Rightarrow> election_manifest \<Rightarrow> candidate_set \<Rightarrow> hash_provider \<Rightarrow> proof_verifier_v1 \<Rightarrow>
   verified_approval_ballot_v1 presult list" where
  "verify_approval_ballot_packages_batch_v1 packages manifest candidates provider V =
     (let prepared = map (\<lambda>package_bytes.
            prepare_approval_ballot_package_v1 package_bytes manifest candidates provider V) packages;
          batch_inputs = map (\<lambda>item. \<lparr>bi_statement = pb_statement item,
            bi_proof_bytes = pb_proof_bytes item\<rparr>) (ok_items prepared);
          crypto_results = pv_verify_batch V batch_inputs
      in rejoin_batch_results prepared crypto_results)"

section \<open>The ledger invariant\<close>

definition ledger_inv :: "ballot_acceptance_ledger \<Rightarrow> bool" where
  "ledger_inv l \<longleftrightarrow>
     distinct (map (vp_nullifier \<circ> ab_verified_proof) (bl_accepted_ballots l))
     \<and> bl_seen_nullifiers l = set (map (vp_nullifier \<circ> ab_verified_proof) (bl_accepted_ballots l))"

lemma ledger_inv_new: "ledger_inv ledger_new"
  by (simp add: ledger_inv_def ledger_new_def)

lemma accept_verified_Ok_iff:
  "accept_verified lc b l = Ok l' \<longleftrightarrow>
     validate_ballot_statement lc (vp_statement (vb_proof b)) = Ok ()
     \<and> vp_nullifier (vb_proof b) \<notin> bl_seen_nullifiers l
     \<and> l' = \<lparr>bl_seen_nullifiers = insert (vp_nullifier (vb_proof b)) (bl_seen_nullifiers l),
             bl_accepted_ballots = bl_accepted_ballots l
               @ [\<lparr>ab_verified_proof = vb_proof b, ab_payload = vb_payload b\<rparr>]\<rparr>"
  by (auto simp: accept_verified_def result_inv Let_def)

lemma accept_verified_inv: "accept_verified lc b l = Ok l' \<Longrightarrow> ledger_inv l \<Longrightarrow> ledger_inv l'"
  by (auto simp: accept_verified_Ok_iff ledger_inv_def)

lemma accept_verified_duplicate:
  assumes "ledger_inv l" and "validate_ballot_statement lc (vp_statement (vb_proof b)) = Ok ()"
  shows "accept_verified lc b l = Err DuplicateNullifier \<longleftrightarrow>
    (\<exists>a \<in> set (bl_accepted_ballots l). vp_nullifier (ab_verified_proof a) = vp_nullifier (vb_proof b))"
  using assms by (auto simp: accept_verified_def Let_def ledger_inv_def image_iff)

section \<open>What ingestion accepts\<close>

text \<open>The package a voter's bytes decode to, under the candidate set and limits of a manifest.\<close>

lemma statement_strings_valid_reconstructed:
  assumes "reconstruct_approval_proof_statement m payload p = Ok s" and "wf_manifest nfc m"
  shows "statement_strings_valid s \<and> wf_statement s"
  using assms
  by (cases m) (auto simp: reconstruct_approval_proof_statement_def result_inv ProofStatementV1_new_Ok_iff
      statement_strings_valid_def wf_manifest_v2_def wf_manifest_v1_def wf_manifest_fields_def)

lemma reconstruct_approval_proof_statement_Ok:
  assumes "reconstruct_approval_proof_statement m payload p = Ok s"
  shows "manifest_canonical_hash p m = Ok (ps_manifest_hash s)
    \<and> payload_canonical_hash p payload = Ok (ps_ballot_payload_hash s)
    \<and> ps_election_scope s = derive_election_scope p (ps_manifest_hash s)
    \<and> ps_registry_commitment s = manifest_registry_commitment m
    \<and> ps_proof_suite_id s = manifest_proof_suite_id m \<and> wf_statement s"
  using assms
  by (auto simp: reconstruct_approval_proof_statement_def result_inv ProofStatementV1_new_Ok_iff
      manifest_canonical_scope_eq)

lemma prepare_Ok:
  assumes "prepare_approval_ballot_package_v1 bs m cs p V = Ok pb"
  shows "\<exists>pkg. package_from_canonical_cbor cs (manifest_approval_limits m) bs = Ok pkg
      \<and> manifest_canonical_hash p m = Ok (pk_manifest_hash pkg)
      \<and> pk_proof_suite_id pkg = manifest_proof_suite_id m
      \<and> manifest_proof_suite_id m = TARI_TRIPTYCH_PROOF_SUITE_ID_V1
      \<and> pv_suite_id V = TARI_TRIPTYCH_PROOF_SUITE_ID_V1
      \<and> candidate_set_canonical_commitment p cs = Ok (manifest_candidate_set_commitment m)
      \<and> reconstruct_approval_proof_statement m (pk_payload pkg) p = Ok (pb_statement pb)
      \<and> pb_payload pb = pk_payload pkg \<and> pb_proof_bytes pb = pk_proof pkg \<and> pk_proof pkg \<noteq> []"
proof -
  from assms obtain e pkg where
    e: "envelope_from_canonical_cbor bs = Ok e"
    and bind: "manifest_canonical_hash p m = Ok (ev_manifest_hash e)"
      "ev_proof_suite_id e = manifest_proof_suite_id m"
    and pol: "manifest_proof_suite_id m = TARI_TRIPTYCH_PROOF_SUITE_ID_V1"
    and com: "candidate_set_canonical_commitment p cs = Ok (manifest_candidate_set_commitment m)"
    and pkg: "into_ballot_package e cs (manifest_approval_limits m) = Ok pkg"
    and rest: "reconstruct_verification_statement m (pk_payload pkg) (pk_proof pkg) p V = Ok (pb_statement pb)"
      "pb_payload pb = pk_payload pkg" "pb_proof_bytes pb = pk_proof pkg"
    by (auto simp: prepare_approval_ballot_package_v1_def result_inv envelope_validate_manifest_binding_def
        production_policy_validate_def split: if_splits)
  have "e = envelope_of pkg"
    using pkg envelope_codec.encode_decode [OF e] by (simp add: into_ballot_package_Ok_iff)
  with e bind pol com pkg rest show ?thesis
    by (intro exI [of _ pkg])
      (auto simp: package_from_canonical_cbor_def envelope_of_def reconstruct_verification_statement_def
        split: if_splits)
qed

context proof_verifier
begin

text \<open>The statement check after verification never fires for a conforming verifier.\<close>

lemma bind_verified:
  "pv_verify V s pf = Ok v \<Longrightarrow> bind_verified_statement s payload v = Ok \<lparr>vb_proof = v, vb_payload = payload\<rparr>"
  by (simp add: bind_verified_statement_def verify_statement)

lemma ingest_Ok:
  assumes "ingest_approval_ballot_package_v1 bs m cs lc p V l = Ok l'"
  shows "\<exists>pkg v. package_from_canonical_cbor cs (manifest_approval_limits m) bs = Ok pkg
      \<and> manifest_canonical_hash p m = Ok (pk_manifest_hash pkg)
      \<and> candidate_set_canonical_commitment p cs = Ok (manifest_candidate_set_commitment m)
      \<and> reconstruct_approval_proof_statement m (pk_payload pkg) p = Ok (vp_statement v)
      \<and> pv_verify V (vp_statement v) (pk_proof pkg) = Ok v
      \<and> wf_nullifier (vp_nullifier v)
      \<and> accept_verified lc \<lparr>vb_proof = v, vb_payload = pk_payload pkg\<rparr> l = Ok l'"
proof -
  from assms obtain pb v b where
    pb: "prepare_approval_ballot_package_v1 bs m cs p V = Ok pb"
    and v: "pv_verify V (pb_statement pb) (pb_proof_bytes pb) = Ok v"
    and b: "bind_verified_statement (pb_statement pb) (pb_payload pb) v = Ok b"
    and acc: "accept_verified lc b l = Ok l'"
    by (auto simp: ingest_approval_ballot_package_v1_def result_inv)
  from prepare_Ok [OF pb] obtain pkg where "package_from_canonical_cbor cs (manifest_approval_limits m) bs = Ok pkg"
    "manifest_canonical_hash p m = Ok (pk_manifest_hash pkg)"
    "candidate_set_canonical_commitment p cs = Ok (manifest_candidate_set_commitment m)"
    "reconstruct_approval_proof_statement m (pk_payload pkg) p = Ok (pb_statement pb)"
    "pb_payload pb = pk_payload pkg" "pb_proof_bytes pb = pk_proof pkg" by blast
  with verify_statement [OF v] verify_nullifier [OF v] v b acc bind_verified [OF v] show ?thesis
    by (intro exI [of _ pkg] exI [of _ v]) simp
qed

end

section \<open>Batch verification\<close>

definition verify_package ::
  "election_manifest \<Rightarrow> candidate_set \<Rightarrow> hash_provider \<Rightarrow> proof_verifier_v1 \<Rightarrow> bytes \<Rightarrow>
   verified_approval_ballot_v1 presult" where
  "verify_package m cs p V bs =
     and_then (prepare_approval_ballot_package_v1 bs m cs p V) (\<lambda>pb.
     and_then (pv_verify V (pb_statement pb) (pb_proof_bytes pb)) (\<lambda>v.
     bind_verified_statement (pb_statement pb) (pb_payload pb) v))"

lemma ingest_verify_package:
  "ingest_approval_ballot_package_v1 bs m cs lc p V l =
     and_then (verify_package m cs p V bs) (\<lambda>b. accept_verified lc b l)"
  by (simp add: ingest_approval_ballot_package_v1_def verify_package_def and_then_assoc)

lemma rejoin_individual:
  "rejoin_batch_results prepared
     (map (\<lambda>pb. pv_verify V (pb_statement pb) (pb_proof_bytes pb)) (ok_items prepared))
   = map (\<lambda>r. and_then r (\<lambda>pb. and_then (pv_verify V (pb_statement pb) (pb_proof_bytes pb))
        (bind_verified_statement (pb_statement pb) (pb_payload pb)))) prepared"
proof (induction prepared)
  case (Cons r prepared)
  then show ?case by (cases r) simp_all
qed simp

context batch_proof_verifier
begin

lemma batch_packages_individual:
  "verify_approval_ballot_packages_batch_v1 packages m cs p V = map (verify_package m cs p V) packages"
  using rejoin_individual [where V = V and prepared = "map (\<lambda>bs. prepare_approval_ballot_package_v1 bs m cs p V) packages"]
  by (simp add: verify_approval_ballot_packages_batch_v1_def batch_individual default_verify_batch_def
      verify_package_def comp_def)

end

section \<open>Ledgers that ingestion can build\<close>

inductive ledger_reachable ::
  "election_manifest \<Rightarrow> candidate_set \<Rightarrow> hash_provider \<Rightarrow> proof_verifier_v1 \<Rightarrow>
   ballot_acceptance_ledger \<Rightarrow> bool"
  for m cs p V where
  ledger_start: "ledger_reachable m cs p V ledger_new"
| ledger_ingest: "ledger_reachable m cs p V l \<Longrightarrow>
    ingest_approval_ballot_package_v1 bs m cs lc p V l = Ok l' \<Longrightarrow> ledger_reachable m cs p V l'"

definition counted_ballot ::
  "election_manifest \<Rightarrow> candidate_set \<Rightarrow> hash_provider \<Rightarrow> accepted_ballot \<Rightarrow> bool" where
  "counted_ballot m cs p b \<longleftrightarrow>
     wf_payload cs (manifest_approval_limits m) (ab_payload b)
     \<and> reconstruct_approval_proof_statement m (ab_payload b) p = Ok (vp_statement (ab_verified_proof b))
     \<and> wf_nullifier (vp_nullifier (ab_verified_proof b))"

context proof_verifier
begin

lemma ledger_reachable_inv:
  assumes "ledger_reachable m cs p V l"
  shows "ledger_inv l \<and> (\<forall>b \<in> set (bl_accepted_ballots l). counted_ballot m cs p b)"
  using assms
proof (induction rule: ledger_reachable.induct)
  case ledger_start
  show ?case using ledger_inv_new by (simp add: ledger_new_def)
next
  case (ledger_ingest l bs lc l')
  from ingest_Ok [OF ledger_ingest.hyps(2)] obtain pkg v where
    pkg: "package_from_canonical_cbor cs (manifest_approval_limits m) bs = Ok pkg"
    and st: "reconstruct_approval_proof_statement m (pk_payload pkg) p = Ok (vp_statement v)"
    and n: "wf_nullifier (vp_nullifier v)"
    and acc: "accept_verified lc \<lparr>vb_proof = v, vb_payload = pk_payload pkg\<rparr> l = Ok l'" by blast
  have "counted_ballot m cs p \<lparr>ab_verified_proof = v, ab_payload = pk_payload pkg\<rparr>"
    using package_codec.encode_decode [OF pkg] st n by (simp add: counted_ballot_def wf_package_def)
  with ledger_ingest.IH accept_verified_inv [OF acc] acc show ?case
    by (simp add: accept_verified_Ok_iff)
qed

end

end
