(* ===== verification/Ordered_Map.thy ===== *)
theory Ordered_Map
  imports Ballot_Prelude
begin

text \<open>
  The standard library's \<open>BTreeMap\<close>, as the crates use it: insertion (which overwrites), lookup,
  and iteration in key order. The model is an association list kept in strictly increasing key
  order; \<open>ordered_map\<close> is the interface its clients rely on.
\<close>

type_synonym ('k, 'v) btree_map = "('k \<times> 'v) list"

definition bt_new :: "('k, 'v) btree_map" where
  "bt_new = []"

fun bt_insert :: "'k::linorder \<Rightarrow> 'v \<Rightarrow> ('k, 'v) btree_map \<Rightarrow> ('k, 'v) btree_map" where
  "bt_insert k v [] = [(k, v)]"
| "bt_insert k v ((k', v') # m) =
     (if k < k' then (k, v) # (k', v') # m
      else if k = k' then (k, v) # m
      else (k', v') # bt_insert k v m)"

definition bt_get :: "('k, 'v) btree_map \<Rightarrow> 'k \<Rightarrow> 'v option" where
  "bt_get m k = map_of m k"

definition bt_inv :: "('k::linorder, 'v) btree_map \<Rightarrow> bool" where
  "bt_inv m \<longleftrightarrow> sorted_wrt (<) (map fst m)"

text \<open>
  The contract: lookup after insertion, the invariant of iteration order, and agreement of
  iteration with lookup. Everything else follows, in particular that lookup determines iteration.
\<close>

locale ordered_map =
  fixes new :: 'm and ins :: "'k::linorder \<Rightarrow> 'v \<Rightarrow> 'm \<Rightarrow> 'm" and get :: "'m \<Rightarrow> 'k \<Rightarrow> 'v option"
    and entries :: "'m \<Rightarrow> ('k \<times> 'v) list" and inv :: "'m \<Rightarrow> bool"
  assumes inv_new: "inv new"
    and inv_ins: "inv m \<Longrightarrow> inv (ins k v m)"
    and get_new: "get new k = None"
    and get_ins: "inv m \<Longrightarrow> get (ins k v m) = (get m)(k \<mapsto> v)"
    and entries_sorted: "inv m \<Longrightarrow> sorted_wrt (<) (map fst (entries m))"
    and entries_get: "inv m \<Longrightarrow> get m k = map_of (entries m) k"
begin

lemma keys: "inv m \<Longrightarrow> map fst (entries m) = sorted_list_of_set (dom (get m))"
proof -
  assume inv: "inv m"
  have "dom (get m) = set (map fst (entries m))"
    using entries_get [OF inv] by (auto simp: dom_map_of_conv_image_fst [symmetric] dom_def)
  then show ?thesis
    using entries_sorted [OF inv]
    by (simp add: strictly_sorted_iff sorted_list_of_set.idem_if_sorted_distinct
        del: set_map)
qed

lemma entries_eq: "inv m \<Longrightarrow> entries m = map (\<lambda>k. (k, the (get m k))) (sorted_list_of_set (dom (get m)))"
proof -
  assume inv: "inv m"
  have d: "distinct (map fst (entries m))"
    using entries_sorted [OF inv] by (simp add: strictly_sorted_iff)
  have "entries m = map (\<lambda>k. (k, the (get m k))) (map fst (entries m))"
    using d map_of_is_SomeI [OF d] unfolding entries_get [OF inv] map_map comp_def
    by (intro map_idI [symmetric]) (auto simp: prod_eq_iff)
  then show ?thesis using keys [OF inv] by simp
qed

text \<open>Lookup determines the map's iteration.\<close>

lemma entries_ext: "inv m \<Longrightarrow> inv m' \<Longrightarrow> get m = get m' \<Longrightarrow> entries m = entries m'"
  by (simp add: entries_eq)

lemma get_fold_ins:
  "inv m \<Longrightarrow> inv (fold (\<lambda>k. ins k v) ks m)
    \<and> get (fold (\<lambda>k. ins k v) ks m) = (\<lambda>k. if k \<in> set ks then Some v else get m k)"
  by (induction ks arbitrary: m) (auto simp: inv_ins get_ins)

end

lemma map_of_bt_insert: "map_of (bt_insert k v m) = (map_of m)(k \<mapsto> v)"
  by (induction k v m rule: bt_insert.induct) auto

lemma set_bt_insert_keys: "set (map fst (bt_insert k v m)) = insert k (set (map fst m))"
  by (induction k v m rule: bt_insert.induct) auto

lemma bt_inv_insert: "bt_inv m \<Longrightarrow> bt_inv (bt_insert k v m)"
proof (induction k v m rule: bt_insert.induct)
  case (2 k v k' v' m)
  then show ?case
    using set_bt_insert_keys [of k v m] by (auto simp: bt_inv_def)
qed (simp add: bt_inv_def)

interpretation bt: ordered_map bt_new bt_insert bt_get "\<lambda>m. m" bt_inv
  by unfold_locales
    (auto simp: bt_inv_insert map_of_bt_insert bt_get_def [abs_def] bt_new_def, auto simp: bt_inv_def)

end
