(* ===== verification/Tally.thy ===== *)
theory Tally
  imports Candidates Ordered_Map
begin

text \<open>
  The tally crate (crates/tally/src/lib.rs): counting accepted approval ballots with overflow
  checks, and the leading result. The counter map is a \<open>BTreeMap\<close> from candidate to \<open>u64\<close>.
\<close>

record candidate_count =
  cc_candidate_id :: candidate_id
  cc_approvals :: u64

datatype leading_result =
    NoApprovals
  | SingleLeader candidate_id u64
  | Tie "candidate_id list" u64

record approval_tally =
  at_accepted_ballots :: u64
  at_abstentions :: u64
  at_counts :: "candidate_count list"

fun tally_selections ::
  "candidate_id list \<Rightarrow> (candidate_id, u64) btree_map \<Rightarrow> (candidate_id, u64) btree_map presult" where
  "tally_selections [] counts = Ok counts"
| "tally_selections (cid # selections) counts =
     (case bt_get counts cid of
        None \<Rightarrow> Err UnknownCandidateId
      | Some current \<Rightarrow>
          and_then (ok_or InvalidData (checked_add_u64 current 1)) (\<lambda>next_count.
          tally_selections selections (bt_insert cid next_count counts)))"

fun tally_ballots ::
  "approval_ballot_payload list \<Rightarrow> u64 \<times> u64 \<times> (candidate_id, u64) btree_map \<Rightarrow>
   (u64 \<times> u64 \<times> (candidate_id, u64) btree_map) presult" where
  "tally_ballots [] st = Ok st"
| "tally_ballots (ballot # ballots) (accepted_ballots, abstentions, counts) =
     and_then (ok_or InvalidData (checked_add_u64 accepted_ballots 1)) (\<lambda>accepted_ballots.
     and_then (if is_abstention ballot then ok_or InvalidData (checked_add_u64 abstentions 1)
               else Ok abstentions) (\<lambda>abstentions.
     and_then (tally_selections (bp_selections ballot) counts) (\<lambda>counts.
     tally_ballots ballots (accepted_ballots, abstentions, counts))))"

definition initial_counts :: "candidate_set \<Rightarrow> (candidate_id, u64) btree_map" where
  "initial_counts candidates =
     fold (\<lambda>cid. bt_insert cid 0) (map cd_id (cs_candidates candidates)) bt_new"

definition tally_from_ballots :: "candidate_set \<Rightarrow> approval_ballot_payload list \<Rightarrow> approval_tally presult" where
  "tally_from_ballots candidates ballots =
     and_then (tally_ballots ballots (0, 0, initial_counts candidates))
       (\<lambda>(accepted_ballots, abstentions, counts).
     Ok \<lparr>at_accepted_ballots = accepted_ballots, at_abstentions = abstentions,
         at_counts = map (\<lambda>(cid, approvals). \<lparr>cc_candidate_id = cid, cc_approvals = approvals\<rparr>) counts\<rparr>)"

definition leading_result_of :: "approval_tally \<Rightarrow> leading_result" where
  "leading_result_of t =
     (if at_counts t = [] then NoApprovals
      else
        let maximum = Max (set (map cc_approvals (at_counts t))) in
        if maximum = 0 then NoApprovals
        else
          let candidate_ids =
            map cc_candidate_id (filter (\<lambda>c. cc_approvals c = maximum) (at_counts t)) in
          if length candidate_ids = 1 then SingleLeader (candidate_ids ! 0) maximum
          else Tie candidate_ids maximum)"

section \<open>The reference count\<close>

definition approvals_of :: "approval_ballot_payload list \<Rightarrow> candidate_id \<Rightarrow> nat" where
  "approvals_of ballots cid = length (filter (\<lambda>b. cid \<in> set (bp_selections b)) ballots)"

text \<open>A ballot that can be counted: no repeated selection, every selection a candidate.\<close>

definition countable_ballot :: "candidate_set \<Rightarrow> approval_ballot_payload \<Rightarrow> bool" where
  "countable_ballot cs b \<longleftrightarrow>
     distinct (bp_selections b) \<and> set (bp_selections b) \<subseteq> cd_id ` set (cs_candidates cs)"

lemma countable_ballot_wf:
  "wf_candidate_set cs \<Longrightarrow> wf_payload cs limits b \<Longrightarrow> countable_ballot cs b"
  by (auto simp: countable_ballot_def wf_payload_def strictly_sorted_iff candidate_set_contains_iff)

lemma approvals_of_le: "approvals_of ballots cid \<le> length ballots"
  by (simp add: approvals_of_def)

lemma approvals_of_perm: "mset bs = mset bs' \<Longrightarrow> approvals_of bs cid = approvals_of bs' cid"
  unfolding approvals_of_def by (metis mset_filter size_mset)

text \<open>When the ballots carry pairwise different keys, approvals are counted by key.\<close>

lemma approvals_of_distinct_keys:
  assumes "distinct (map key xs)"
  shows "approvals_of (map pay xs) cid = card {n. \<exists>x \<in> set xs. n = key x \<and> cid \<in> set (bp_selections (pay x))}"
proof -
  let ?f = "filter (\<lambda>x. cid \<in> set (bp_selections (pay x))) xs"
  have "{n. \<exists>x \<in> set xs. n = key x \<and> cid \<in> set (bp_selections (pay x))} = set (map key ?f)" by auto
  moreover have "distinct (map key ?f)" using assms by (simp add: distinct_map_filter)
  ultimately show ?thesis
    by (simp add: approvals_of_def filter_map comp_def distinct_card del: set_map)
qed

lemma tally_counts_ext:
  assumes "map cc_candidate_id xs = map cc_candidate_id ys"
    and "map (unat \<circ> cc_approvals) xs = map (unat \<circ> cc_approvals) ys"
  shows "xs = (ys :: candidate_count list)"
proof (rule nth_equalityI)
  show len: "length xs = length ys" using assms(1) by (metis length_map)
  fix i assume "i < length xs"
  then have "cc_candidate_id (xs ! i) = cc_candidate_id (ys ! i)" "unat (cc_approvals (xs ! i)) = unat (cc_approvals (ys ! i))"
    using assms len by (metis nth_map, metis comp_apply nth_map)
  then show "xs ! i = ys ! i" by (cases "xs ! i"; cases "ys ! i") (simp add: word_unat_eq_iff)
qed

section \<open>Counting\<close>

definition counts_nat :: "(candidate_id, u64) btree_map \<Rightarrow> candidate_id \<Rightarrow> nat option" where
  "counts_nat m cid = map_option unat (bt_get m cid)"

lemma initial_counts_get:
  "bt_inv (initial_counts cs)
    \<and> counts_nat (initial_counts cs) = (\<lambda>cid. if cid \<in> cd_id ` set (cs_candidates cs) then Some 0 else None)"
  using bt.get_fold_ins [OF bt.inv_new, where ks = "map cd_id (cs_candidates cs)" and v = "0 :: u64"]
  by (auto simp: initial_counts_def counts_nat_def bt.get_new)

lemma checked_add_one:
  assumes "unat c + 1 < 2 ^ 64"
  shows "\<exists>d. checked_add_u64 c 1 = Some d \<and> unat d = unat c + 1"
  using assms by (intro exI [of _ "c + 1"]) (simp add: checked_add_u64_def unat_word_ariths)

lemma tally_selections_spec:
  assumes "bt_inv m" and "distinct sel" and "\<forall>cid \<in> set sel. \<exists>n. counts_nat m cid = Some n \<and> n + 1 < 2 ^ 64"
  shows "\<exists>m'. tally_selections sel m = Ok m' \<and> bt_inv m'
    \<and> counts_nat m' = (\<lambda>cid. map_option (\<lambda>n. n + (if cid \<in> set sel then 1 else 0)) (counts_nat m cid))"
  using assms
proof (induction sel arbitrary: m)
  case Nil
  have "map_option (\<lambda>n. n + 0) x = x" for x :: "nat option" by (cases x) auto
  with Nil show ?case by simp
next
  case (Cons cid sel)
  from Cons.prems(3) obtain c where c: "bt_get m cid = Some c" "unat c + 1 < 2 ^ 64"
    by (auto simp: counts_nat_def)
  from checked_add_one [OF c(2)] obtain d where d: "checked_add_u64 c 1 = Some d" "unat d = unat c + 1" by blast
  let ?m = "bt_insert cid d m"
  have get: "counts_nat ?m = (counts_nat m)(cid \<mapsto> unat c + 1)"
    using bt.get_ins [OF Cons.prems(1), of cid d] d by (auto simp: counts_nat_def)
  have "\<exists>m'. tally_selections sel ?m = Ok m' \<and> bt_inv m'
    \<and> counts_nat m' = (\<lambda>k. map_option (\<lambda>n. n + (if k \<in> set sel then 1 else 0)) (counts_nat ?m k))"
    using Cons.prems by (intro Cons.IH) (auto simp: bt_inv_insert get)
  then obtain m' where m': "tally_selections sel ?m = Ok m'" "bt_inv m'"
    "counts_nat m' = (\<lambda>k. map_option (\<lambda>n. n + (if k \<in> set sel then 1 else 0)) (counts_nat ?m k))" by blast
  have "counts_nat m' = (\<lambda>k. map_option (\<lambda>n. n + (if k \<in> set (cid # sel) then 1 else 0)) (counts_nat m k))"
    unfolding m'(3) get using Cons.prems(2) c(1) by (auto simp: counts_nat_def fun_eq_iff)
  with m' c d show ?case by simp
qed

lemma tally_ballots_spec:
  assumes "bt_inv m" and "\<forall>b \<in> set ballots. countable_ballot cs b"
    and "dom (counts_nat m) = cd_id ` set (cs_candidates cs)"
    and "unat acc + length ballots < 2 ^ 64" and "unat abst \<le> unat acc"
    and "\<And>cid n. counts_nat m cid = Some n \<Longrightarrow> n \<le> unat acc"
  shows "\<exists>acc' abst' m'. tally_ballots ballots (acc, abst, m) = Ok (acc', abst', m')
    \<and> unat acc' = unat acc + length ballots
    \<and> unat abst' = unat abst + length (filter is_abstention ballots) \<and> bt_inv m'
    \<and> counts_nat m' = (\<lambda>cid. map_option (\<lambda>n. n + approvals_of ballots cid) (counts_nat m cid))"
  using assms
proof (induction ballots arbitrary: acc abst m)
  case Nil
  have "map_option (\<lambda>n. n + 0) x = x" for x :: "nat option" by (cases x) auto
  with Nil show ?case by (simp add: approvals_of_def)
next
  case (Cons b ballots)
  from checked_add_one [of acc] Cons.prems(4) obtain acc1 where
    acc1: "checked_add_u64 acc 1 = Some acc1" "unat acc1 = unat acc + 1" by auto
  from checked_add_one [of abst] Cons.prems(4,5) obtain abst1 where
    "checked_add_u64 abst 1 = Some abst1" "unat abst1 = unat abst + 1" by auto
  then obtain abst2 where
    abst2: "(if is_abstention b then ok_or InvalidData (checked_add_u64 abst 1) else Ok abst) = Ok abst2"
    "unat abst2 = unat abst + (if is_abstention b then 1 else 0)" by (cases "is_abstention b") auto
  have "\<exists>n. counts_nat m cid = Some n \<and> n + 1 < 2 ^ 64" if "cid \<in> set (bp_selections b)" for cid
  proof -
    have "cid \<in> dom (counts_nat m)" using that Cons.prems(2,3) by (auto simp: countable_ballot_def)
    then obtain n where "counts_nat m cid = Some n" by blast
    with Cons.prems(4) Cons.prems(6) [OF this] show ?thesis by auto
  qed
  then obtain m1 where m1: "tally_selections (bp_selections b) m = Ok m1" "bt_inv m1"
    and get: "counts_nat m1 = (\<lambda>cid. map_option (\<lambda>n. n + (if cid \<in> set (bp_selections b) then 1 else 0)) (counts_nat m cid))"
    using tally_selections_spec [OF Cons.prems(1), of "bp_selections b"] Cons.prems(2)
    by (auto simp: countable_ballot_def)
  have "\<exists>acc' abst' m'. tally_ballots ballots (acc1, abst2, m1) = Ok (acc', abst', m')
    \<and> unat acc' = unat acc1 + length ballots
    \<and> unat abst' = unat abst2 + length (filter is_abstention ballots) \<and> bt_inv m'
    \<and> counts_nat m' = (\<lambda>cid. map_option (\<lambda>n. n + approvals_of ballots cid) (counts_nat m1 cid))"
  proof (rule Cons.IH [OF m1(2)])
    show "\<forall>b \<in> set ballots. countable_ballot cs b" using Cons.prems(2) by simp
    show "dom (counts_nat m1) = cd_id ` set (cs_candidates cs)"
      using Cons.prems(3) by (simp add: get dom_map_option)
    show "unat acc1 + length ballots < 2 ^ 64" using Cons.prems(4) acc1(2) by simp
    show "unat abst2 \<le> unat acc1" using Cons.prems(5) acc1(2) abst2(2) by simp
    show "n \<le> unat acc1" if "counts_nat m1 cid = Some n" for cid n
      using that Cons.prems(6) [of cid] acc1(2) by (auto simp: get split: if_splits)
  qed
  then obtain acc' abst' m' where res: "tally_ballots ballots (acc1, abst2, m1) = Ok (acc', abst', m')"
    "unat acc' = unat acc1 + length ballots"
    "unat abst' = unat abst2 + length (filter is_abstention ballots)" "bt_inv m'"
    "counts_nat m' = (\<lambda>cid. map_option (\<lambda>n. n + approvals_of ballots cid) (counts_nat m1 cid))" by blast
  have "counts_nat m' = (\<lambda>cid. map_option (\<lambda>n. n + approvals_of (b # ballots) cid) (counts_nat m cid))"
    unfolding res(5) get by (auto simp: approvals_of_def fun_eq_iff option.map_comp comp_def intro!: option.map_cong)
  with res acc1 abst2 m1 show ?case by auto
qed

text \<open>
  Countable ballots are tallied without error, and every candidate of the set is listed once, in
  canonical order, with the number of ballots that approve it.
\<close>

lemma tally_from_ballots_counts:
  assumes wf: "wf_candidate_set cs" and ok: "\<forall>b \<in> set ballots. countable_ballot cs b"
    and len: "length ballots < 2 ^ 64"
  shows "\<exists>t. tally_from_ballots cs ballots = Ok t
    \<and> unat (at_accepted_ballots t) = length ballots
    \<and> unat (at_abstentions t) = length (filter is_abstention ballots)
    \<and> map cc_candidate_id (at_counts t) = map cd_id (cs_candidates cs)
    \<and> map (unat \<circ> cc_approvals) (at_counts t) = map (approvals_of ballots \<circ> cd_id) (cs_candidates cs)"
proof -
  let ?ids = "map cd_id (cs_candidates cs)"
  have "\<exists>acc' abst' m'. tally_ballots ballots (0, 0, initial_counts cs) = Ok (acc', abst', m')
    \<and> unat acc' = unat (0 :: u64) + length ballots
    \<and> unat abst' = unat (0 :: u64) + length (filter is_abstention ballots) \<and> bt_inv m'
    \<and> counts_nat m' = (\<lambda>cid. map_option (\<lambda>n. n + approvals_of ballots cid) (counts_nat (initial_counts cs) cid))"
    by (rule tally_ballots_spec [OF _ ok]) (use initial_counts_get [of cs] len in \<open>auto split: if_splits\<close>)
  then obtain acc abst m where run: "tally_ballots ballots (0, 0, initial_counts cs) = Ok (acc, abst, m)"
    and n: "unat acc = length ballots" "unat abst = length (filter is_abstention ballots)" "bt_inv m"
    and get: "counts_nat m = (\<lambda>cid. if cid \<in> set ?ids then Some (approvals_of ballots cid) else None)"
    using initial_counts_get [of cs] by (auto simp: fun_eq_iff)
  have "dom (bt_get m) = dom (counts_nat m)" by (auto simp: counts_nat_def dom_def)
  also have "\<dots> = set ?ids" by (auto simp: get split: if_splits)
  finally have dom: "dom (bt_get m) = set ?ids" .
  have keys: "map fst m = ?ids"
    using bt.keys [OF n(3)] wf dom
    by (simp add: wf_candidate_set_def strictly_sorted_iff sorted_list_of_set.idem_if_sorted_distinct del: set_map)
  have "m = map (\<lambda>k. (k, the (bt_get m k))) ?ids"
    using bt.entries_eq [OF n(3)] bt.keys [OF n(3)] keys dom by simp
  moreover have "unat (the (bt_get m k)) = approvals_of ballots k" if "k \<in> set ?ids" for k
    using fun_cong [OF get, of k] that by (auto simp: counts_nat_def)
  ultimately have "map (unat \<circ> snd) m = map (approvals_of ballots) ?ids"
    by (smt (verit, best) comp_apply list.map_comp map_eq_conv snd_conv)
  with run n keys show ?thesis
    by (auto simp: tally_from_ballots_def comp_def case_prod_beta)
qed

text \<open>A selection outside the candidate set stops the tally, whatever the order of the ballots.\<close>

lemma tally_selections_Ok_known:
  "tally_selections sel m = Ok m' \<Longrightarrow> bt_inv m \<Longrightarrow>
     bt_inv m' \<and> set sel \<subseteq> dom (bt_get m) \<and> dom (bt_get m') = dom (bt_get m)"
proof (induction sel m arbitrary: m' rule: tally_selections.induct)
  case (2 cid sel m)
  from "2.prems" obtain c d where c: "bt_get m cid = Some c" and d: "checked_add_u64 c 1 = Some d"
    and rest: "tally_selections sel (bt_insert cid d m) = Ok m'"
    by (auto simp: result_inv split: option.splits)
  have "bt_inv m' \<and> set sel \<subseteq> dom (bt_get (bt_insert cid d m))
      \<and> dom (bt_get m') = dom (bt_get (bt_insert cid d m))"
    using "2.IH" [OF c rest] bt_inv_insert [OF "2.prems"(2)] by simp
  with c "2.prems"(2) show ?case by (auto simp: bt.get_ins)
qed auto

lemma tally_ballots_Ok_known:
  "tally_ballots ballots (acc, abst, m) = Ok st \<Longrightarrow> bt_inv m \<Longrightarrow>
     \<forall>b \<in> set ballots. set (bp_selections b) \<subseteq> dom (bt_get m)"
proof (induction ballots arbitrary: acc abst m)
  case (Cons b ballots)
  then show ?case
    by (auto simp: result_inv dest!: tally_selections_Ok_known) blast+
qed simp

section \<open>The leading result\<close>

lemma leading_result_spec:
  assumes "distinct (map cc_candidate_id (at_counts t))"
  shows "case leading_result_of t of
      NoApprovals \<Rightarrow> \<forall>c \<in> set (at_counts t). cc_approvals c = 0
    | SingleLeader cid n \<Rightarrow> n \<noteq> 0
        \<and> (\<exists>c \<in> set (at_counts t). cc_candidate_id c = cid \<and> cc_approvals c = n)
        \<and> (\<forall>c \<in> set (at_counts t). cc_candidate_id c \<noteq> cid \<longrightarrow> cc_approvals c < n)
    | Tie cids n \<Rightarrow> n \<noteq> 0 \<and> 2 \<le> length cids
        \<and> cids = map cc_candidate_id (filter (\<lambda>c. cc_approvals c = n) (at_counts t))
        \<and> (\<forall>c \<in> set (at_counts t). cc_approvals c \<le> n)"
proof (cases "at_counts t = []")
  case True
  then show ?thesis by (simp add: leading_result_of_def)
next
  case False
  define mx where "mx = Max (set (map cc_approvals (at_counts t)))"
  have le: "\<forall>c \<in> set (at_counts t). cc_approvals c \<le> mx" by (simp add: mx_def)
  have "mx \<in> set (map cc_approvals (at_counts t))" unfolding mx_def using False by (intro Max_in) auto
  then have ne: "filter (\<lambda>c. cc_approvals c = mx) (at_counts t) \<noteq> []"
    by (auto simp: filter_empty_conv)
  let ?f = "filter (\<lambda>c. cc_approvals c = mx) (at_counts t)"
  have lead: "leading_result_of t = (if mx = 0 then NoApprovals
      else if length ?f = 1 then SingleLeader (map cc_candidate_id ?f ! 0) mx
      else Tie (map cc_candidate_id ?f) mx)"
    using False by (simp only: leading_result_of_def mx_def Let_def length_map if_False)
  show ?thesis
  proof (cases "mx = 0")
    case True
    then show ?thesis using le by (simp add: lead)
  next
    case nz: False
    show ?thesis
    proof (cases "length ?f = 1")
      case True
      then obtain c where c: "?f = [c]" by (auto simp: length_Suc_conv)
      then have "c \<in> set (at_counts t)" "cc_approvals c = mx" by (auto simp: filter_eq_Cons_iff)
      moreover have "cc_approvals c' < mx" if "c' \<in> set (at_counts t)" "cc_candidate_id c' \<noteq> cc_candidate_id c" for c'
      proof -
        have "c' \<notin> set ?f" using c that(2) by auto
        then show ?thesis using that(1) le by (auto simp: less_le)
      qed
      ultimately show ?thesis
        using nz c by (auto simp: lead)
    next
      case multi: False
      then have "2 \<le> length ?f" using ne by (cases ?f; cases "tl ?f") auto
      with nz multi le show ?thesis
        by (simp add: lead)
    qed
  qed
qed

end
