(* ===== verification/Example_Election.thy ===== *)
theory Example_Election
  imports Ingestion Tally
begin

text \<open>
  A small concrete election: a registry, two candidates, a manifest, a lifecycle in the open
  state, a dependency record for the proof system, one ballot package and the ledger after its
  ingestion. The witnesses of the properties are stated on these objects.
\<close>

section \<open>Objects\<close>

definition zero32 :: bytes32 where
  "zero32 = mk32 (replicate 32 0)"

definition zero_digest :: "bytes \<Rightarrow> bytes32" where
  "zero_digest bs = zero32"

definition const_hash :: hash_provider where
  "const_hash = Blake3HashProviderV1 zero_digest"

definition ex_statement :: proof_statement_v1 where
  "ex_statement =
     \<lparr>ps_protocol_version = 1, ps_proof_suite_id = lit ''S'', ps_manifest_hash = ManifestHash zero32,
      ps_election_scope = ElectionScope zero32, ps_registry_commitment = RegistryCommitment zero32,
      ps_ballot_payload_hash = BallotPayloadHash zero32, ps_ballot_kind_id = lit ''K'',
      ps_ballot_confidentiality_id = lit ''C''\<rparr>"

definition ex_test_statement :: proof_statement_v1 where
  "ex_test_statement = ex_statement\<lparr>ps_proof_suite_id := TEST_ONLY_SUITE_ID\<rparr>"

definition ex_registry :: registry_snapshot where
  "ex_registry = \<lparr>rs_entries = [RegistryEntry (GovernancePublicKey [1]), RegistryEntry (GovernancePublicKey [2])]\<rparr>"

definition ex_candidates :: candidate_set where
  "ex_candidates =
     \<lparr>cs_candidates = [\<lparr>cd_id = CandidateId [1], cd_display_name = lit ''A''\<rparr>,
                       \<lparr>cd_id = CandidateId [2], cd_display_name = lit ''B''\<rparr>]\<rparr>"

definition ex_limits :: approval_limits where
  "ex_limits = \<lparr>al_minimum = 1, al_maximum = 2, al_allow_abstention = True\<rparr>"

definition ex_manifest :: election_manifest where
  "ex_manifest = V1
     \<lparr>em_protocol_version = 1, em_election_id = ElectionId [7],
      em_ballot_kind = NonBindingApprovalPilot, em_ballot_confidentiality = Public,
      em_registry_commitment = RegistryCommitment zero32,
      em_candidate_set_commitment = CandidateSetCommitment zero32,
      em_proof_suite_id = lit ''TARI_TRIPTYCH_PROTOTYPE_V1'', em_approval_limits = ex_limits,
      em_governance_source_revision = lit ''r''\<rparr>"

definition ex_package :: ballot_package_v1 where
  "ex_package =
     \<lparr>pk_protocol_version = 1, pk_manifest_hash = ManifestHash zero32, pk_proof_suite_id = lit ''S'',
      pk_proof = [9], pk_payload = \<lparr>bp_selections = []\<rparr>\<rparr>"

definition toy_curve :: "bool curve" where
  "toy_curve = \<lparr>cv_decompress = (\<lambda>b. if b = zero32 then Some True else None), cv_is_identity = (\<lambda>_. False), cv_compress = (\<lambda>_. zero32)\<rparr>"

definition toy_lib :: "(bool, bool, unit, unit, unit, bytes, bytes) triptych_lib" where
  "toy_lib = \<lparr>tl_dalek = toy_curve, tl_dalek_v4 = toy_curve, tl_basepoint = False,
    tl_blake3_xof64 = (\<lambda>_. []), tl_from_uniform_bytes = (\<lambda>_. True), tl_new_with_generators = (\<lambda>_ _ _ _. Some ()),
    tl_new_with_padding = (\<lambda>_ _. Some ()), tl_statement_new = (\<lambda>_ _ _. Some ()), tl_proof_from_bytes = Some,
    tl_proof_to_bytes = id, tl_transcript_new = id, tl_append_message = (\<lambda>l m t. t @ l @ m),
    tl_verify_batch = (\<lambda>ss ps ts. list_all (\<lambda>p. p \<noteq> [0]) ps)\<rparr>"

definition toy_verifier :: tari_triptych_verifier_v1 where
  "toy_verifier = \<lparr>tv_registry_commitment = RegistryCommitment zero32, tv_registry_keys = [zero32]\<rparr>"

definition ex_lifecycle :: election_lifecycle_v1 where
  "ex_lifecycle = \<lparr>lc_state = Open, lc_frozen_manifest_hash = Some (ManifestHash zero32),
     lc_frozen_registry_commitment = Some (RegistryCommitment zero32)\<rparr>"

definition ex_vote :: ballot_package_v1 where
  "ex_vote = \<lparr>pk_protocol_version = 1, pk_manifest_hash = ManifestHash zero32,
     pk_proof_suite_id = TARI_TRIPTYCH_PROOF_SUITE_ID_V1,
     pk_proof = [1, 0] @ replicate 32 0 @ [9], pk_payload = \<lparr>bp_selections = [CandidateId [2]]\<rparr>\<rparr>"

definition ex_vote_bytes :: bytes where
  "ex_vote_bytes = (case package_to_canonical_cbor ex_vote of Ok bs \<Rightarrow> bs | Err _ \<Rightarrow> [])"

definition ex_vote_statement :: proof_statement_v1 where
  "ex_vote_statement =
     \<lparr>ps_protocol_version = 1, ps_proof_suite_id = TARI_TRIPTYCH_PROOF_SUITE_ID_V1,
      ps_manifest_hash = ManifestHash zero32, ps_election_scope = ElectionScope zero32,
      ps_registry_commitment = RegistryCommitment zero32,
      ps_ballot_payload_hash = BallotPayloadHash zero32,
      ps_ballot_kind_id = ballot_kind_as_str NonBindingApprovalPilot,
      ps_ballot_confidentiality_id = ballot_confidentiality_as_str Public\<rparr>"

definition ex_verified :: verified_proof_v1 where
  "ex_verified = \<lparr>vp_statement = ex_vote_statement, vp_nullifier = VerifiedNullifier (replicate 32 0)\<rparr>"

definition ex_ledger :: ballot_acceptance_ledger where
  "ex_ledger = \<lparr>bl_seen_nullifiers = {VerifiedNullifier (replicate 32 0)},
     bl_accepted_ballots = [\<lparr>ab_verified_proof = ex_verified, ab_payload = pk_payload ex_vote\<rparr>]\<rparr>"

section \<open>Their well-formedness, and one ingestion\<close>

lemma ex_statement_wf: "wf_statement ex_statement" "statement_strings_valid ex_statement"
  by (simp_all add: wf_statement_def statement_strings_valid_def ex_statement_def PROTOCOL_VERSION_V1_def
      limits_def lit_def trim_is_empty_def chars_def trim_chars_def is_whitespace_def utf8_valid_def)

lemma ex_test_statement_wf:
  "wf_statement ex_test_statement" "ps_proof_suite_id ex_test_statement = TEST_ONLY_SUITE_ID"
  by (simp_all add: wf_statement_def ex_test_statement_def ex_statement_def PROTOCOL_VERSION_V1_def
      TEST_ONLY_SUITE_ID_def limits_def lit_def trim_is_empty_def chars_def trim_chars_def is_whitespace_def)

lemma ex_registry_wf: "wf_registry ex_registry"
  by (simp add: wf_registry_def ex_registry_def limits_def wf_governance_key_def
      less_registry_entry_def less_governance_public_key_def)

lemma ex_candidates_wf: "wf_candidate_set ex_candidates"
  by (simp add: wf_candidate_set_def ex_candidates_def limits_def wf_candidate_def wf_candidate_id_def
      less_candidate_id_def lit_def trim_is_empty_def chars_def trim_chars_def is_whitespace_def utf8_valid_def)

lemma ex_manifest_wf: "wf_manifest id ex_manifest"
  by (simp add: ex_manifest_def wf_manifest_v1_def wf_manifest_fields_def wf_election_id_def wf_limits_def
      ex_limits_def limits_def usize_max_def len_ok_def PROTOCOL_VERSION_V1_def lit_def trim_is_empty_def chars_def
      trim_chars_def is_whitespace_def utf8_valid_def)

lemma const_hash_digest [simp]: "hash_domain_separated const_hash d x = zero32"
  by (simp add: hash_domain_separated_def const_hash_def Blake3HashProviderV1_def zero_digest_def)

lemma ex_manifest_hash: "manifest_canonical_hash const_hash ex_manifest = Ok (ManifestHash zero32)"
  using manifest_to_canonical_cbor_total [OF ex_manifest_wf] by (auto simp: manifest_canonical_hash_Ok_iff)

lemma ex_contains: "candidate_set_contains ex_candidates (CandidateId [2])"
  using candidate_set_contains_iff [OF ex_candidates_wf] by (simp add: ex_candidates_def)

lemma ex_vote_wf: "wf_package ex_candidates ex_limits ex_vote"
  by (simp add: wf_package_def ex_vote_def wf_payload_def ex_limits_def candidate_set_len_def ex_contains
      PROTOCOL_VERSION_V1_def limits_def lit_def TARI_TRIPTYCH_PROOF_SUITE_ID_V1_def trim_is_empty_def chars_def
      trim_chars_def is_whitespace_def utf8_valid_def wf_candidate_id_def)
    (simp add: ex_candidates_def)

lemma ex_payload_wf: "wf_payload ex_candidates ex_limits (pk_payload ex_vote)"
  using ex_vote_wf by (simp add: wf_package_def)

lemma ex_abstention_wf: "wf_payload ex_candidates ex_limits \<lparr>bp_selections = []\<rparr>"
  by (simp add: wf_payload_def ex_limits_def candidate_set_len_def ex_candidates_def limits_def)

lemma ex_vote_envelope: "envelope_from_canonical_cbor ex_vote_bytes = Ok (envelope_of ex_vote)"
  using package_to_canonical_cbor_total [OF ex_vote_wf] package_to_canonical_cbor_envelope [OF ex_vote_wf]
  by (intro envelope_codec.decode_encode wf_envelope_of [OF ex_vote_wf]) (simp add: ex_vote_bytes_def)

lemma ex_vote_into: "into_ballot_package (envelope_of ex_vote) ex_candidates ex_limits = Ok ex_vote"
  using ex_vote_wf by (simp add: into_ballot_package_Ok_iff [OF wf_envelope_of [OF ex_vote_wf]])

lemma ex_payload_hash:
  "wf_payload ex_candidates ex_limits b \<Longrightarrow> payload_canonical_hash const_hash b = Ok (BallotPayloadHash zero32)"
  using wf_payload_ids [of ex_candidates ex_limits b]
  by (simp add: payload_canonical_hash_def payload_to_canonical_cbor_eq)

lemma ex_vote_statement_wf: "wf_statement ex_vote_statement"
  by (simp add: wf_statement_def ex_vote_statement_def PROTOCOL_VERSION_V1_def limits_def lit_def
      TARI_TRIPTYCH_PROOF_SUITE_ID_V1_def trim_is_empty_def chars_def trim_chars_def is_whitespace_def)

lemma ex_reconstruct:
  assumes "wf_payload ex_candidates ex_limits b"
  shows "reconstruct_approval_proof_statement ex_manifest b const_hash = Ok ex_vote_statement"
proof -
  have "ProofStatementV1_new ex_vote_statement = Ok ex_vote_statement"
    by (simp add: ProofStatementV1_new_Ok_iff ex_vote_statement_wf)
  then show ?thesis
    by (simp add: reconstruct_approval_proof_statement_def manifest_canonical_scope_eq ex_manifest_hash
        derive_election_scope_def ex_payload_hash [OF assms] ex_vote_statement_def)
      (simp add: ex_manifest_def TARI_TRIPTYCH_PROOF_SUITE_ID_V1_def)
qed

lemma toy_lib_sound: "triptych_batch_sound toy_lib"
  by (auto simp: triptych_batch_sound_def triptych_verify_def toy_lib_def list_all_length)

lemma zero32_bytes [simp]: "arr_bytes zero32 = replicate 32 0"
  by (simp add: zero32_def)

lemma toy_envelope:
  "triptych_envelope_from_bytes toy_curve (pk_proof ex_vote) = Ok \<lparr>te_linking_tag = zero32, te_triptych_proof = [9]\<rparr>"
  using triptych_envelope_decode_enc [of toy_curve "\<lparr>te_linking_tag = zero32, te_triptych_proof = [9]\<rparr>"]
  by (simp add: triptych_envelope_to_bytes_def le_bytes_version ex_vote_def wf_triptych_envelope_def
      validate_linking_tag_def decode_non_identity_def toy_curve_def limits_def
      TARI_TRIPTYCH_PROOF_ENVELOPE_HEADER_BYTES_def)

lemma toy_ring: "ring_exponent_v1 (Suc 0) = Ok 2"
  by (simp add: ring_exponent_v1_def checked_pow_u32_def TRIPTYCH_RING_BASE_V1_def
      TRIPTYCH_MINIMUM_EXPONENT_V1_def ring_exponent_loop.simps)

lemma toy_decode: "decode_non_identity_v4 toy_curve zero32 = Ok True" "\<not> cv_is_identity toy_curve True"
  by (simp_all add: decode_non_identity_v4_def toy_curve_def)

lemma ex_vote_verified:
  "tari_triptych_verify toy_lib toy_verifier ex_vote_statement (pk_proof ex_vote) = Ok ex_verified"
  using transcript_bytes_eq [OF ex_vote_statement_wf]
  by (simp add: tari_triptych_verify_def toy_lib_def toy_verifier_def toy_envelope build_triptych_statement_v1_def
      build_triptych_election_context_v1_def toy_ring derive_scope_generator_v1_def scope_generator_preimage_v1_def
      finish_triptych_statement_v1_def toy_decode parse_sorted_registry_keys_v1_def
      parse_canonical_triptych_proof_v1_def triptych_transcript_v1_def triptych_verify_def
      VerifiedNullifier_new_def VerifiedProofV1_new_def ex_verified_def limits_def Let_def)
    (simp add: ex_vote_statement_def TARI_TRIPTYCH_PROOF_SUITE_ID_V1_def lit_def)

lemma ex_ingest:
  "ingest_approval_ballot_package_v1 ex_vote_bytes ex_manifest ex_candidates ex_lifecycle const_hash
     (TariTriptychPrototypeVerifierV1 toy_lib toy_verifier) ledger_new = Ok ex_ledger"
proof -
  have "candidate_set_canonical_commitment const_hash ex_candidates = Ok (CandidateSetCommitment zero32)"
    by (simp add: candidate_set_canonical_commitment_def candidate_set_to_canonical_cbor_eq [OF ex_candidates_wf])
  moreover have "manifest_proof_suite_id ex_manifest = TARI_TRIPTYCH_PROOF_SUITE_ID_V1"
    "manifest_approval_limits ex_manifest = ex_limits"
    "manifest_candidate_set_commitment ex_manifest = CandidateSetCommitment zero32"
    by (simp_all add: ex_manifest_def TARI_TRIPTYCH_PROOF_SUITE_ID_V1_def)
  moreover have "pk_proof ex_vote \<noteq> []" "length (pk_proof ex_vote) \<le> MAX_PROOF_BYTES"
    "envelope_validate_manifest_binding (envelope_of ex_vote) (ManifestHash zero32) TARI_TRIPTYCH_PROOF_SUITE_ID_V1 = Ok ()"
    by (simp_all add: ex_vote_def limits_def envelope_validate_manifest_binding_def envelope_of_def)
  moreover have "validate_ballot_statement ex_lifecycle ex_vote_statement = Ok ()"
    by (simp add: validate_ballot_statement_Ok_iff ex_lifecycle_def ex_vote_statement_def)
  ultimately show ?thesis
    by (simp add: ingest_approval_ballot_package_v1_def prepare_approval_ballot_package_v1_def
        ex_vote_envelope ex_manifest_hash production_policy_validate_def ex_vote_into
        reconstruct_verification_statement_def TariTriptychPrototypeVerifierV1_def ex_reconstruct [OF ex_payload_wf]
        ex_vote_verified bind_verified_statement_def accept_verified_def Let_def ledger_new_def ex_ledger_def ex_verified_def)
qed

end
