(* ===== verification/Encoding_Properties.thy ===== *)
theory Encoding_Properties
  imports Example_Election
begin

text \<open>
  Properties of the byte-level formats: canonical CBOR arguments, hash framing, proof statements,
  registries, candidate sets, payloads, manifests and packages.
\<close>

section \<open>CBOR and hash framing\<close>

text \<open>
  The strict reader accepts a CBOR argument exactly when the input starts with the
  bytes the canonical writer produces for it, and it stops right after them: every value has one
  accepted encoding, the shortest, and every other first byte, longer form, reserved or
  indefinite form and truncation is rejected.
\<close>

lemma cbor_argument_canonical:
  assumes "unat m < 8" and "fits bs"
  shows "read_argument m (new_reader bs) = Ok (v, r) \<longleftrightarrow>
    (\<exists>rest. bs = encode_argument m v [] @ rest
       \<and> r = \<lparr>r_input = bs, r_offset = length (encode_argument m v [])\<rparr>)"
  using read_argument_enc [OF assms(1), of "[]" v] assms(2)
  by (auto simp: new_reader_rd rd_def enc_arg_def dest!: read_argument_Ok [where pre = "[]", unfolded rd_def, simplified])

text \<open>
  Domain separation: the bytes handed to the hash function determine both the domain
  and the object, so no object of one kind can be presented as an object of another kind.
\<close>

lemma hash_frame_injective:
  "domain_separated_input d x = domain_separated_input e y \<longleftrightarrow> d = e \<and> x = y"
  by (rule domain_separated_input_eq_iff)

text \<open>
  The digest of the test-only provider is the 32 bytes its two passes compute: the
  array conversion at its end never falls back.
\<close>

lemma test_only_hash_total:
  "arr_bytes (hp_hash TestOnlyDeterministicHasher bs) =
     (let (state, out) = test_hash_absorb 0 0x9e3779b97f4a7c15 (replicate 32 0) bs
      in test_hash_finish 0 state out)"
  by (simp add: TestOnlyDeterministicHasher_def test_only_hash_bytes)

section \<open>Proof statements\<close>

text \<open>
  Every valid proof statement has transcript bytes, and they determine the statement:
  a proof over a transcript cannot be reused for another manifest, scope, registry, payload or
  suite.
\<close>

lemma transcript_binds_statement:
  assumes "wf_statement s" and "wf_statement t"
    and "statement_strings_valid s" and "statement_strings_valid t"
  shows "(\<exists>bs. transcript_bytes s = Ok bs) \<and> (transcript_bytes s = transcript_bytes t \<longleftrightarrow> s = t)"
  using transcript_bytes_eq [OF assms(1)] transcript_bytes_eq [OF assms(2)]
    statement_enc_inject [OF assms]
  by (auto simp: domain_separated_input_eq_iff)

section \<open>Registries\<close>

text \<open>
  The registry decoder accepts exactly the canonical encodings of well-formed
  registries: decoding and encoding are inverse, and no registry has a second accepted encoding.
\<close>

lemma registry_codec_exact:
  "registry_from_canonical_cbor bs = Ok s \<longleftrightarrow> wf_registry s \<and> registry_to_canonical_cbor s = Ok bs"
  by (rule registry_codec.decode_iff)

text \<open>
  A registry built from any order of the same entries is the same snapshot (or the
  same error), so its commitment does not depend on the order of registration.
\<close>

lemma registry_order_independent:
  assumes "mset es = mset fs"
  shows "RegistrySnapshot_new es = RegistrySnapshot_new fs"
  by (rule RegistrySnapshot_new_perm [OF assms])

text \<open>
  Every well-formed registry has a commitment, and two registries with the same
  commitment are equal or their framed canonical encodings are a collision of the hash function.
\<close>

lemma registry_commitment_binding:
  assumes "wf_registry s" and "wf_registry t"
  shows "(\<exists>c. registry_canonical_commitment p s = Ok c)
    \<and> (registry_canonical_commitment p s = registry_canonical_commitment p t \<longrightarrow>
        s = t \<or> encodings_collide p RegistrySnapshotV1 (registry_to_canonical_cbor s)
          RegistrySnapshotV1 (registry_to_canonical_cbor t))"
  using registry_to_canonical_cbor_eq [OF assms(1)] registry_to_canonical_cbor_eq [OF assms(2)]
    registry_codec.digest_binding [OF assms registry_to_canonical_cbor_eq [OF assms(1)]
      registry_to_canonical_cbor_eq [OF assms(2)], of p RegistrySnapshotV1]
  by (auto simp: registry_canonical_commitment_def)

section \<open>Candidates and payloads\<close>

text \<open>
  The candidate-set decoder accepts exactly the canonical encodings of well-formed
  candidate sets.
\<close>

lemma candidate_set_codec_exact:
  "candidate_set_from_canonical_cbor bs = Ok cs \<longleftrightarrow>
     wf_candidate_set cs \<and> candidate_set_to_canonical_cbor cs = Ok bs"
  by (rule candidate_set_codec.decode_iff)

text \<open>
  On every candidate set that the constructor returns, membership by binary search is
  membership in the list the set was built from.
\<close>

lemma candidate_lookup_exact:
  assumes "CandidateSet_new cds = Ok cs" and "list_all wf_candidate cds"
  shows "candidate_set_contains cs cid \<longleftrightarrow> cid \<in> cd_id ` set cds"
  using candidate_set_contains_iff [OF CandidateSet_new_wf [OF assms]] assms(1)
  by (simp add: CandidateSet_new_Ok_iff)

text \<open>
  An approval payload is accepted exactly when the limits fit the candidate set, an empty
  selection is an allowed abstention and a non-empty one has a permitted size, no candidate is
  selected twice and every selection is a candidate; the accepted payload lists the selections in
  canonical order.
\<close>

lemma payload_accepted_iff:
  "ApprovalBallotPayload_new sel cs limits = Ok p \<longleftrightarrow>
     bp_selections p = sort sel \<and> al_maximum limits \<le> candidate_set_len cs
     \<and> (if sel = [] then al_allow_abstention limits
        else al_minimum limits \<le> length sel \<and> length sel \<le> al_maximum limits)
     \<and> distinct sel \<and> (\<forall>cid \<in> set sel. candidate_set_contains cs cid)"
  by (rule ApprovalBallotPayload_new_Ok_iff)

text \<open>
  Under a candidate set and limits, the payload decoder accepts exactly the canonical
  encodings of the payloads that satisfy them.
\<close>

lemma payload_codec_exact:
  "payload_from_canonical_cbor cs limits bs = Ok p \<longleftrightarrow>
     wf_payload cs limits p \<and> payload_to_canonical_cbor p = Ok bs"
  by (rule payload_codec.decode_iff)

section \<open>Manifests\<close>

text \<open>
  C30: The version-dispatching manifest decoder accepts exactly the canonical encodings of
  well-formed manifests of either version, and returns the manifest that was encoded.
\<close>

theorem manifest_codec_exact:
  "manifest_from_canonical_cbor nfc bs = Ok m \<longleftrightarrow>
     wf_manifest nfc m \<and> manifest_to_canonical_cbor m = Ok bs"
  by (rule manifest_codec.decode_iff)

text \<open>
  Every well-formed manifest has a canonical hash, and two manifests with the same
  hash, of whatever versions, are equal or their framed canonical encodings collide.
\<close>

lemma manifest_hash_identifies:
  assumes "wf_manifest nfc m" and "wf_manifest nfc m'"
  shows "(\<exists>h. manifest_canonical_hash p m = Ok h)
    \<and> (manifest_canonical_hash p m = manifest_canonical_hash p m' \<longrightarrow>
        m = m' \<or> encodings_collide p (manifest_domain m) (manifest_to_canonical_cbor m)
          (manifest_domain m') (manifest_to_canonical_cbor m'))"
proof -
  obtain h where h: "manifest_canonical_hash p m = Ok h"
    using manifest_to_canonical_cbor_total [OF assms(1)] by (auto simp: manifest_canonical_hash_Ok_iff)
  with manifest_hash_binding [OF assms h] show ?thesis by auto
qed

text \<open>
  A proposal question is accepted exactly when it is non-blank, within the size
  limit, neither starts nor ends with whitespace, contains no control character (newlines
  included) and is its own normal form; the accepted value is the input unchanged.
\<close>

lemma proposal_question_accepted_iff:
  "ProposalQuestion_new nfc v = Ok q \<longleftrightarrow>
     q = ProposalQuestion v \<and> v \<noteq> [] \<and> (\<exists>c \<in> set (chars v). \<not> is_whitespace c)
     \<and> length v \<le> MAX_PROPOSAL_QUESTION_BYTES
     \<and> (chars v = [] \<or> \<not> (is_whitespace (hd (chars v)) \<or> is_whitespace (last (chars v))))
     \<and> list_all (\<lambda>c. \<not> is_forbidden_control c) (chars v) \<and> nfc (chars v) = chars v"
  by (auto simp: ProposalQuestion_new_Ok_iff wf_question_def list_all_iff)

section \<open>Ballot packages\<close>

text \<open>
  C29: The package decoder accepts exactly the canonical encodings of well-formed packages: a
  voter's bytes have one meaning, and a package cannot be re-encoded into a second accepted form.
\<close>

theorem package_codec_exact:
  "package_from_canonical_cbor cs limits bs = Ok p \<longleftrightarrow>
     wf_package cs limits p \<and> package_to_canonical_cbor p = Ok bs"
  by (rule package_codec.decode_iff)

text \<open>
  A well-formed package always encodes within the object limit: the limits on its fields
  are tight enough that the size check of the encoder never rejects it.
\<close>

lemma package_always_encodes:
  assumes "wf_package cs limits p"
  shows "\<exists>bs. package_to_canonical_cbor p = Ok bs \<and> length bs \<le> MAX_CANONICAL_OBJECT_BYTES"
  using package_to_canonical_cbor_total [OF assms] envelope_to_canonical_cbor_eq [OF wf_envelope_of [OF assms]]
    package_to_canonical_cbor_envelope [OF assms]
  by (auto split: if_splits)

end
