(* ===== verification/Election_Properties.thy ===== *)
theory Election_Properties
  imports Example_Election
begin

text \<open>
  Properties of the running election: the lifecycle, proof verification by the Triptych adapter,
  ingestion and the acceptance ledger, and the tally.
\<close>

section \<open>Lifecycle\<close>

text \<open>
  In every lifecycle state an election can reach, the frozen manifest hash and the
  frozen registry commitment are present exactly when the election has left Draft; so the ballot
  gate never meets its missing-commitment branches.
\<close>

lemma lifecycle_commitments_present:
  assumes "lifecycle_reachable l"
  shows "(lc_state l \<noteq> Draft) = (lc_frozen_manifest_hash l \<noteq> None)
    \<and> (lc_state l \<noteq> Draft) = (lc_frozen_registry_commitment l \<noteq> None)
    \<and> validate_ballot_statement l s \<noteq> Err InvalidLifecycleTransition"
  using lifecycle_inv [OF assms] validate_ballot_statement_reachable [OF assms, of s] by metis



text \<open>
  Every successful transition advances the election by exactly one state in the order
  Draft, Frozen, Open, Closed, Verified, Finalized; a transition from any other state is an error.
\<close>

lemma lifecycle_one_step_forward:
  "(\<exists>l'. lifecycle_step l l' \<and> lc_state l' = s) \<longleftrightarrow> lifecycle_rank s = Suc (lifecycle_rank (lc_state l))"
proof
  assume "lifecycle_rank s = Suc (lifecycle_rank (lc_state l))"
  then consider "lc_state l = Draft" "s = Frozen" | "lc_state l = Frozen" "s = Open"
    | "lc_state l = Open" "s = Closed" | "lc_state l = Closed" "s = Verified"
    | "lc_state l = Verified" "s = Finalized"
    by (cases "lc_state l"; cases s; simp)
  then show "\<exists>l'. lifecycle_step l l' \<and> lc_state l' = s"
  proof cases
    case 1
    let ?l' = "l\<lparr>lc_frozen_manifest_hash := Some (ManifestHash zero32),
      lc_frozen_registry_commitment := Some (RegistryCommitment zero32), lc_state := Frozen\<rparr>"
    have "freeze (ManifestHash zero32) (RegistryCommitment zero32) l = Ok ?l'"
      using 1 by (simp add: freeze_def)
    then have "lifecycle_step l ?l'" by (rule step_freeze)
    moreover have "lc_state ?l' = s" using 1 by simp
    ultimately show ?thesis by blast
  qed (auto simp: lifecycle_ops_def intro!: exI [of _ "l\<lparr>lc_state := s\<rparr>"]
      intro: lifecycle_step.intros)
qed (auto dest: lifecycle_step_rank)

section \<open>The Triptych adapter\<close>

text \<open>
  The proof envelope decoder accepts exactly the byte strings that encode an envelope
  with a canonical non-identity linking tag and a non-empty proof within the size limit.
\<close>

lemma triptych_envelope_exact:
  "triptych_envelope_from_bytes c bs = Ok e \<longleftrightarrow>
     wf_triptych_envelope c e \<and> triptych_envelope_to_bytes e = bs"
  using triptych_envelope_codec.decode_iff [of c bs e] by simp

text \<open>
  C35: For every registry size up to \<open>2 ^ 31\<close> the exponent search ends with the least
  exponent of at least two whose ring holds the registry.
\<close>

theorem ring_exponent_least:
  assumes "0 < n" and "n \<le> 2 ^ 31"
  shows "\<exists>k. ring_exponent_v1 n = Ok k \<and> 2 \<le> k \<and> n \<le> 2 ^ k \<and> (\<forall>j. 2 \<le> j \<longrightarrow> n \<le> 2 ^ j \<longrightarrow> k \<le> j)"
  by (rule ring_exponent_v1_least [OF assms])

theorem ring_exponent_least_witness:
  "\<exists>k. ring_exponent_v1 4096 = Ok k \<and> 2 \<le> k \<and> 4096 \<le> (2 :: nat) ^ k"
  using ring_exponent_least [of 4096] by auto

text \<open>
  The scope-generator preimage determines the protocol version, the proof suite and the
  election scope: two elections with different scopes never hash the same preimage.
\<close>

lemma scope_preimage_injective:
  assumes "scope_generator_preimage_v1 v s e = Ok x" and "scope_generator_preimage_v1 v' s' e' = Ok x"
  shows "v = v' \<and> s = s' \<and> e = e'"
  by (rule scope_generator_preimage_inject [OF assms])

text \<open>
  C7: The batch verifier of the Triptych adapter, with its shared election context and its
  blame path, returns for every input of any batch what individual verification returns for it,
  errors included, provided a batch that verifies contains no invalid proof.
\<close>

theorem triptych_batch_equals_individual:
  assumes "triptych_batch_sound L"
  shows "tari_triptych_verify_batch L v inputs =
    map (\<lambda>inp. tari_triptych_verify L v (bi_statement inp) (bi_proof_bytes inp)) inputs"
  using tari_triptych_verify_batch_eq [OF assms] by (simp add: default_verify_batch_def)

theorem triptych_batch_equals_individual_witness:
  "tari_triptych_verify_batch toy_lib toy_verifier
     [\<lparr>bi_statement = ex_vote_statement, bi_proof_bytes = pk_proof ex_vote\<rparr>] = [Ok ex_verified]"
  using triptych_batch_equals_individual [OF toy_lib_sound, of toy_verifier
      "[\<lparr>bi_statement = ex_vote_statement, bi_proof_bytes = pk_proof ex_vote\<rparr>]"]
  by (simp add: ex_vote_verified)

text \<open>
  The replay form of the test-only verifier accepts a proof for a valid statement of its
  suite exactly when the proof is the marker, the length of a valid nullifier, the nullifier and
  the statement's transcript, and it reports that nullifier.
\<close>

lemma test_only_accepts_iff:
  assumes "wf_statement s" and "ps_proof_suite_id s = TEST_ONLY_SUITE_ID"
    and "length pf \<le> MAX_PROOF_BYTES" and "transcript_bytes s = Ok tr"
    and "pf \<noteq> TEST_ONLY_PROOF_MARKER @ tr"
  shows "test_only_verify test_only_replay s pf = Ok v \<longleftrightarrow>
    (\<exists>n. wf_nullifier n \<and> v = \<lparr>vp_statement = s, vp_nullifier = n\<rparr>
       \<and> pf = TEST_ONLY_PROOF_MARKER @ be_bytes 2 (length (nullifier_bytes n)) @ nullifier_bytes n @ tr)"
  by (rule test_only_replay_Ok_iff [OF assms])

section \<open>Ingestion and the ledger\<close>

text \<open>
  C3: In every ledger that ingestion through the Triptych adapter can build, no nullifier
  counts twice, and every counted ballot has a payload that satisfies the manifest's limits over
  the candidate set and a proof statement that is the one reconstructed from the manifest and
  that payload.
\<close>

theorem ledger_one_ballot_per_nullifier:
  assumes "ledger_reachable m cs p (TariTriptychPrototypeVerifierV1 L v) l"
  shows "distinct (map (vp_nullifier \<circ> ab_verified_proof) (bl_accepted_ballots l))
    \<and> bl_seen_nullifiers l = set (map (vp_nullifier \<circ> ab_verified_proof) (bl_accepted_ballots l))
    \<and> list_all (counted_ballot m cs p) (bl_accepted_ballots l)"
  using triptych.ledger_reachable_inv [OF assms] by (simp add: ledger_inv_def list_all_iff)

theorem ledger_one_ballot_per_nullifier_witness:
  "list_all (counted_ballot ex_manifest ex_candidates const_hash) (bl_accepted_ballots ex_ledger)
   \<and> length (bl_accepted_ballots ex_ledger) = 1"
  using ledger_one_ballot_per_nullifier [OF ledger_ingest [OF ledger_start ex_ingest]]
  by (simp add: ex_ledger_def)

text \<open>
  A verified ballot that passes the lifecycle gate is rejected as a duplicate exactly
  when an accepted ballot already has its nullifier; the first valid ballot counts.
\<close>

lemma duplicate_nullifier_rejected:
  assumes "ledger_reachable m cs p (TariTriptychPrototypeVerifierV1 L v) l"
    and "validate_ballot_statement lc (vp_statement (vb_proof b)) = Ok ()"
  shows "accept_verified lc b l = Err DuplicateNullifier \<longleftrightarrow>
    (\<exists>a \<in> set (bl_accepted_ballots l). vp_nullifier (ab_verified_proof a) = vp_nullifier (vb_proof b))"
  using triptych.ledger_reachable_inv [OF assms(1)] accept_verified_duplicate [OF _ assms(2)] by blast

text \<open>
  C2: What ingestion accepts: the bytes are the canonical encoding of a package bound to
  this manifest's hash, the candidate set is the committed one, the verifier accepted the package's
  proof for the statement reconstructed from manifest and payload, the lifecycle is Open, or Closed
  (the drain after the close), with this manifest hash and registry commitment frozen, the nullifier
  has not been seen, and exactly that ballot and that nullifier are added.
\<close>

theorem ingest_accepts_only_bound_ballots:
  assumes "ingest_approval_ballot_package_v1 bs m cs lc p (TariTriptychPrototypeVerifierV1 L v) l = Ok l'"
  shows "\<exists>pkg pf. package_from_canonical_cbor cs (manifest_approval_limits m) bs = Ok pkg
    \<and> manifest_canonical_hash p m = Ok (pk_manifest_hash pkg)
    \<and> candidate_set_canonical_commitment p cs = Ok (manifest_candidate_set_commitment m)
    \<and> reconstruct_approval_proof_statement m (pk_payload pkg) p = Ok (vp_statement pf)
    \<and> tari_triptych_verify L v (vp_statement pf) (pk_proof pkg) = Ok pf
    \<and> (lc_state lc = Open \<or> lc_state lc = Closed)
    \<and> lc_frozen_manifest_hash lc = Some (pk_manifest_hash pkg)
    \<and> lc_frozen_registry_commitment lc = Some (manifest_registry_commitment m)
    \<and> vp_nullifier pf \<notin> bl_seen_nullifiers l
    \<and> bl_seen_nullifiers l' = insert (vp_nullifier pf) (bl_seen_nullifiers l)
    \<and> bl_accepted_ballots l' = bl_accepted_ballots l
        @ [\<lparr>ab_verified_proof = pf, ab_payload = pk_payload pkg\<rparr>]"
proof -
  from triptych.ingest_Ok [OF assms] obtain pkg pf where
    a: "package_from_canonical_cbor cs (manifest_approval_limits m) bs = Ok pkg"
      "manifest_canonical_hash p m = Ok (pk_manifest_hash pkg)"
      "candidate_set_canonical_commitment p cs = Ok (manifest_candidate_set_commitment m)"
    and s: "reconstruct_approval_proof_statement m (pk_payload pkg) p = Ok (vp_statement pf)"
    and v: "pv_verify (TariTriptychPrototypeVerifierV1 L v) (vp_statement pf) (pk_proof pkg) = Ok pf"
    and acc: "accept_verified lc \<lparr>vb_proof = pf, vb_payload = pk_payload pkg\<rparr> l = Ok l'" by blast
  from a s v acc reconstruct_approval_proof_statement_Ok [OF s] show ?thesis
    by (intro exI [of _ pkg] exI [of _ pf])
      (auto simp: accept_verified_Ok_iff validate_ballot_statement_Ok_iff TariTriptychPrototypeVerifierV1_def)
qed

theorem ingest_accepts_only_bound_ballots_witness:
  "\<exists>pkg pf. package_from_canonical_cbor ex_candidates (manifest_approval_limits ex_manifest) ex_vote_bytes = Ok pkg
     \<and> vp_nullifier pf \<notin> bl_seen_nullifiers ledger_new
     \<and> bl_accepted_ballots ex_ledger = [\<lparr>ab_verified_proof = pf, ab_payload = pk_payload pkg\<rparr>]"
  using ingest_accepts_only_bound_ballots [OF ex_ingest] by (force simp: ledger_new_def)

text \<open>
  C8: Batch verification of ballot packages returns, package by package and in order, what
  preparing and verifying each package on its own returns, for any mix of malformed, invalid and
  valid packages.
\<close>

theorem package_batch_equals_individual:
  assumes "triptych_batch_sound L"
  shows "verify_approval_ballot_packages_batch_v1 packages m cs p (TariTriptychPrototypeVerifierV1 L v) =
    map (\<lambda>bs. and_then (prepare_approval_ballot_package_v1 bs m cs p (TariTriptychPrototypeVerifierV1 L v)) (\<lambda>pb.
               and_then (tari_triptych_verify L v (pb_statement pb) (pb_proof_bytes pb))
                 (bind_verified_statement (pb_statement pb) (pb_payload pb)))) packages"
  using batch_proof_verifier.batch_packages_individual [OF triptych_contract [OF assms]]
  by (simp add: verify_package_def [abs_def] TariTriptychPrototypeVerifierV1_def)

theorem package_batch_equals_individual_witness:
  "\<exists>b e. verify_approval_ballot_packages_batch_v1 [ex_vote_bytes, []] ex_manifest ex_candidates const_hash
     (TariTriptychPrototypeVerifierV1 toy_lib toy_verifier) = [Ok b, Err e]"
proof -
  let ?V = "TariTriptychPrototypeVerifierV1 toy_lib toy_verifier"
  have "\<exists>b. and_then (prepare_approval_ballot_package_v1 ex_vote_bytes ex_manifest ex_candidates const_hash ?V) (\<lambda>pb.
      and_then (tari_triptych_verify toy_lib toy_verifier (pb_statement pb) (pb_proof_bytes pb))
        (bind_verified_statement (pb_statement pb) (pb_payload pb))) = Ok b"
    using ex_ingest by (auto simp: ingest_approval_ballot_package_v1_def result_inv TariTriptychPrototypeVerifierV1_def)
  moreover have "\<exists>e. prepare_approval_ballot_package_v1 [] ex_manifest ex_candidates const_hash ?V = Err e"
    by (simp add: prepare_approval_ballot_package_v1_def envelope_from_canonical_cbor_def read_array_len_def
        read_argument_def read_byte_def new_reader_def)
  ultimately show ?thesis
    using package_batch_equals_individual [OF toy_lib_sound, of "[ex_vote_bytes, []]" ex_manifest ex_candidates
        const_hash toy_verifier] by auto
qed

text \<open>
  C33: In every ledger that ingestion can build, the payload counted for an accepted ballot is
  the one whose hash is in the statement its proof was verified for: any well-formed payload with
  that hash is the counted one, unless the framed encodings of the two collide.
\<close>

theorem counted_payload_unforgeable:
  assumes "ledger_reachable m cs p (TariTriptychPrototypeVerifierV1 L v) l"
    and "a \<in> set (bl_accepted_ballots l)"
    and "wf_payload cs (manifest_approval_limits m) q"
    and "payload_canonical_hash p q = Ok (ps_ballot_payload_hash (vp_statement (ab_verified_proof a)))"
  shows "ab_payload a = q
    \<or> encodings_collide p ApprovalBallotPayloadV1 (payload_to_canonical_cbor (ab_payload a))
        ApprovalBallotPayloadV1 (payload_to_canonical_cbor q)"
proof -
  from triptych.ledger_reachable_inv [OF assms(1)] assms(2) have "counted_ballot m cs p a" by blast
  then have wf: "wf_payload cs (manifest_approval_limits m) (ab_payload a)"
    and h: "payload_canonical_hash p (ab_payload a) = payload_canonical_hash p q"
    using reconstruct_approval_proof_statement_Ok assms(4) by (fastforce simp: counted_ballot_def)+
  note enc = payload_to_canonical_cbor_eq [OF wf_payload_ids [OF wf]]
    payload_to_canonical_cbor_eq [OF wf_payload_ids [OF assms(3)]]
  have "hash_domain_separated p ApprovalBallotPayloadV1 (payload_enc (ab_payload a))
      = hash_domain_separated p ApprovalBallotPayloadV1 (payload_enc q)"
    using h by (simp add: payload_canonical_hash_def enc)
  from payload_codec.digest_binding [OF wf assms(3) enc this] show ?thesis by blast
qed

theorem counted_payload_unforgeable_witness:
  "encodings_collide const_hash ApprovalBallotPayloadV1 (payload_to_canonical_cbor (pk_payload ex_vote))
     ApprovalBallotPayloadV1 (payload_to_canonical_cbor \<lparr>bp_selections = []\<rparr>)"
proof -
  let ?a = "\<lparr>ab_verified_proof = ex_verified, ab_payload = pk_payload ex_vote\<rparr>"
  have a: "?a \<in> set (bl_accepted_ballots ex_ledger)" by (simp add: ex_ledger_def)
  have wf: "wf_payload ex_candidates (manifest_approval_limits ex_manifest) \<lparr>bp_selections = []\<rparr>"
    using ex_abstention_wf by (simp add: ex_manifest_def)
  have h: "payload_canonical_hash const_hash \<lparr>bp_selections = []\<rparr>
      = Ok (ps_ballot_payload_hash (vp_statement (ab_verified_proof ?a)))"
    using reconstruct_approval_proof_statement_Ok [OF ex_reconstruct [OF ex_abstention_wf]]
    by (simp add: ex_verified_def)
  from counted_payload_unforgeable [OF ledger_ingest [OF ledger_start ex_ingest] a wf h] show ?thesis
    by (simp add: ex_vote_def)
qed

section \<open>The tally\<close>

text \<open>
  When a tally is produced, every selection of every ballot is a candidate of the
  set: a ballot for a different candidate set cannot be counted, wherever it stands.
\<close>

lemma tally_rejects_foreign_selections:
  assumes "tally_from_ballots cs ballots = Ok t"
  shows "\<forall>b \<in> set ballots. set (bp_selections b) \<subseteq> cd_id ` set (cs_candidates cs)"
proof -
  have "dom (bt_get (initial_counts cs)) = dom (counts_nat (initial_counts cs))"
    by (auto simp: counts_nat_def dom_def)
  also have "\<dots> = cd_id ` set (cs_candidates cs)"
    using initial_counts_get [of cs] by (auto split: if_splits)
  finally have dom: "dom (bt_get (initial_counts cs)) = cd_id ` set (cs_candidates cs)" .
  from assms obtain st where "tally_ballots ballots (0, 0, initial_counts cs) = Ok st"
    by (auto simp: tally_from_ballots_def result_inv)
  from tally_ballots_Ok_known [OF this] initial_counts_get [of cs] dom show ?thesis by simp
qed

text \<open>
  C6: Over ballots without repeated selections, a tally is produced exactly when every selection
  of every ballot is a candidate of the set; it never overflows, and it lists every candidate of
  the set once, in canonical order, with exactly the number of ballots that select it, beside the
  number of ballots and of abstentions.
\<close>

theorem tally_counts_exact:
  assumes "wf_candidate_set cs" and "\<forall>b \<in> set ballots. distinct (bp_selections b)"
    and "length ballots < 2 ^ 64"
  shows "((\<exists>t. tally_from_ballots cs ballots = Ok t) \<longleftrightarrow>
      (\<forall>b \<in> set ballots. set (bp_selections b) \<subseteq> cd_id ` set (cs_candidates cs)))
    \<and> (\<forall>t. tally_from_ballots cs ballots = Ok t \<longrightarrow>
        unat (at_accepted_ballots t) = length ballots
        \<and> unat (at_abstentions t) = length (filter is_abstention ballots)
        \<and> map cc_candidate_id (at_counts t) = map cd_id (cs_candidates cs)
        \<and> map (unat \<circ> cc_approvals) (at_counts t) = map (approvals_of ballots \<circ> cd_id) (cs_candidates cs))"
proof -
  have "countable_ballot cs b" if "tally_from_ballots cs ballots = Ok t" "b \<in> set ballots" for t b
    using tally_rejects_foreign_selections [OF that(1)] assms(2) that(2) by (simp add: countable_ballot_def)
  moreover have "\<forall>b \<in> set ballots. countable_ballot cs b"
    if "\<forall>b \<in> set ballots. set (bp_selections b) \<subseteq> cd_id ` set (cs_candidates cs)"
    using that assms(2) by (simp add: countable_ballot_def)
  ultimately show ?thesis
    using tally_from_ballots_counts [OF assms(1) _ assms(3)] tally_rejects_foreign_selections by fastforce
qed

theorem tally_counts_exact_witness:
  "(\<exists>t. tally_from_ballots ex_candidates [\<lparr>bp_selections = [CandidateId [2]]\<rparr>, \<lparr>bp_selections = []\<rparr>] = Ok t
     \<and> map (unat \<circ> cc_approvals) (at_counts t) = [0, 1] \<and> unat (at_abstentions t) = 1)
   \<and> (\<nexists>t. tally_from_ballots ex_candidates [\<lparr>bp_selections = [CandidateId [9]]\<rparr>] = Ok t)"
proof -
  let ?bs = "[\<lparr>bp_selections = [CandidateId [2]]\<rparr>, \<lparr>bp_selections = []\<rparr>]"
  let ?foreign = "[\<lparr>bp_selections = [CandidateId [9]]\<rparr>]"
  have d: "\<forall>b \<in> set ?bs. distinct (bp_selections b)" "\<forall>b \<in> set ?foreign. distinct (bp_selections b)"
    by simp_all
  have n: "length ?bs < 2 ^ 64" "length ?foreign < 2 ^ 64" by simp_all
  from tally_counts_exact [OF ex_candidates_wf d(1) n(1)] obtain t where
    "tally_from_ballots ex_candidates ?bs = Ok t"
    by (auto simp: ex_candidates_def)
  with tally_counts_exact [OF ex_candidates_wf d(1) n(1)] tally_counts_exact [OF ex_candidates_wf d(2) n(2)]
  show ?thesis by (auto simp: ex_candidates_def approvals_of_def is_abstention_def)
qed

text \<open>
  The tally does not depend on the order in which the ballots arrived.
\<close>

lemma tally_order_independent:
  assumes "wf_candidate_set cs" and "\<forall>b \<in> set ballots. countable_ballot cs b"
    and "length ballots < 2 ^ 64" and "mset ballots = mset ballots'"
  shows "tally_from_ballots cs ballots = tally_from_ballots cs ballots'"
proof -
  have b': "\<forall>b \<in> set ballots'. countable_ballot cs b" "length ballots' < 2 ^ 64"
    using assms by (auto dest: mset_eq_setD mset_eq_length)
  obtain t where t: "tally_from_ballots cs ballots = Ok t" "unat (at_accepted_ballots t) = length ballots"
    "unat (at_abstentions t) = length (filter is_abstention ballots)"
    "map cc_candidate_id (at_counts t) = map cd_id (cs_candidates cs)"
    "map (unat \<circ> cc_approvals) (at_counts t) = map (approvals_of ballots \<circ> cd_id) (cs_candidates cs)"
    using tally_from_ballots_counts [OF assms(1-3)] by blast
  obtain t' where t': "tally_from_ballots cs ballots' = Ok t'" "unat (at_accepted_ballots t') = length ballots'"
    "unat (at_abstentions t') = length (filter is_abstention ballots')"
    "map cc_candidate_id (at_counts t') = map cd_id (cs_candidates cs)"
    "map (unat \<circ> cc_approvals) (at_counts t') = map (approvals_of ballots' \<circ> cd_id) (cs_candidates cs)"
    using tally_from_ballots_counts [OF assms(1) b'] by blast
  have "length (filter is_abstention ballots) = length (filter is_abstention ballots')"
    using assms(4) by (metis mset_filter size_mset)
  then have "at_accepted_ballots t = at_accepted_ballots t'" "at_abstentions t = at_abstentions t'"
    using t t' mset_eq_length [OF assms(4)] by (simp_all add: word_unat_eq_iff)
  moreover have "at_counts t = at_counts t'"
    using t(4,5) t'(4,5) approvals_of_perm [OF assms(4)]
    by (intro tally_counts_ext) (simp_all add: comp_def)
  ultimately show ?thesis using t t' by (cases t; cases t') simp
qed

text \<open>
  The leading result: no approvals exactly when nobody has one; a single leader has
  strictly more approvals than every other candidate; a tie lists, in order, the two or more
  candidates that share the maximum.
\<close>

lemma leading_result_correct:
  assumes "distinct (map cc_candidate_id (at_counts t))"
  shows "case leading_result_of t of
      NoApprovals \<Rightarrow> \<forall>c \<in> set (at_counts t). cc_approvals c = 0
    | SingleLeader cid n \<Rightarrow> n \<noteq> 0
        \<and> (\<exists>c \<in> set (at_counts t). cc_candidate_id c = cid \<and> cc_approvals c = n)
        \<and> (\<forall>c \<in> set (at_counts t). cc_candidate_id c \<noteq> cid \<longrightarrow> cc_approvals c < n)
    | Tie cids n \<Rightarrow> n \<noteq> 0 \<and> 2 \<le> length cids
        \<and> cids = map cc_candidate_id (filter (\<lambda>c. cc_approvals c = n) (at_counts t))
        \<and> (\<forall>c \<in> set (at_counts t). cc_approvals c \<le> n)"
  by (rule leading_result_spec [OF assms])

text \<open>
  A run of ingestion with what was ingested: the package bytes and the lifecycle state at the time,
  one entry per accepted package, in order.
\<close>

inductive ledger_run ::
  "election_manifest \<Rightarrow> candidate_set \<Rightarrow> hash_provider \<Rightarrow> proof_verifier_v1 \<Rightarrow>
   (bytes \<times> election_lifecycle_v1) list \<Rightarrow> ballot_acceptance_ledger \<Rightarrow> bool"
  for m cs p V where
  run_start: "ledger_run m cs p V [] ledger_new"
| run_ingest: "ledger_run m cs p V ingested l \<Longrightarrow>
    ingest_approval_ballot_package_v1 bs m cs lc p V l = Ok l' \<Longrightarrow>
    ledger_run m cs p V (ingested @ [(bs, lc)]) l'"

lemma ledger_run_reachable: "ledger_run m cs p V ingested l \<Longrightarrow> ledger_reachable m cs p V l"
  by (induction rule: ledger_run.induct) (auto intro: ledger_reachable.intros)

text \<open>What each accepted ballot of such a run was.\<close>

lemma ledger_run_origin:
  assumes "ledger_run m cs p (TariTriptychPrototypeVerifierV1 L v) ingested l"
  shows "list_all2 (\<lambda>(bs, lc) b. \<exists>pkg.
      package_from_canonical_cbor cs (manifest_approval_limits m) bs = Ok pkg
      \<and> manifest_canonical_hash p m = Ok (pk_manifest_hash pkg)
      \<and> (lc_state lc = Open \<or> lc_state lc = Closed)
      \<and> lc_frozen_manifest_hash lc = Some (pk_manifest_hash pkg)
      \<and> lc_frozen_registry_commitment lc = Some (manifest_registry_commitment m)
      \<and> reconstruct_approval_proof_statement m (pk_payload pkg) p = Ok (vp_statement (ab_verified_proof b))
      \<and> tari_triptych_verify L v (vp_statement (ab_verified_proof b)) (pk_proof pkg) = Ok (ab_verified_proof b)
      \<and> ab_payload b = pk_payload pkg) ingested (bl_accepted_ballots l)"
  using assms
proof (induction rule: ledger_run.induct)
  case run_start
  show ?case by (simp add: ledger_new_def)
next
  case (run_ingest ingested l bs lc l')
  from triptych.ingest_Ok [OF run_ingest.hyps(2)] obtain pkg pf where
    pkg: "package_from_canonical_cbor cs (manifest_approval_limits m) bs = Ok pkg"
      "manifest_canonical_hash p m = Ok (pk_manifest_hash pkg)"
    and s: "reconstruct_approval_proof_statement m (pk_payload pkg) p = Ok (vp_statement pf)"
    and v: "pv_verify (TariTriptychPrototypeVerifierV1 L v) (vp_statement pf) (pk_proof pkg) = Ok pf"
    and acc: "accept_verified lc \<lparr>vb_proof = pf, vb_payload = pk_payload pkg\<rparr> l = Ok l'" by blast
  have "bl_accepted_ballots l' = bl_accepted_ballots l @ [\<lparr>ab_verified_proof = pf, ab_payload = pk_payload pkg\<rparr>]"
    and "validate_ballot_statement lc (vp_statement pf) = Ok ()"
    using acc by (simp_all add: accept_verified_Ok_iff)
  with run_ingest.IH pkg s v reconstruct_approval_proof_statement_Ok [OF s] show ?case
    by (auto simp: validate_ballot_statement_Ok_iff TariTriptychPrototypeVerifierV1_def
        intro!: list_all2_appendI)
qed

text \<open>
  C1: End to end: for every ledger that a run of ingestion builds over a committed candidate set,
  the accepted ballots are, one for one and in order, the packages ingested, each the canonical
  encoding of a package bound to this manifest, ingested while the lifecycle was Open, or Closed (the
  drain after the close), with this manifest hash and registry commitment frozen, its proof
  verified for the statement reconstructed from the counted payload; and the tally of the ballots
  succeeds and gives each candidate the number of accepted ballots, one per nullifier, that select it.
\<close>

theorem election_tally_end_to_end:
  assumes "ledger_run m cs p (TariTriptychPrototypeVerifierV1 L v) ingested l" and "wf_candidate_set cs"
    and "length (bl_accepted_ballots l) < 2 ^ 64"
  shows "list_all2 (\<lambda>(bs, lc) b. \<exists>pkg.
        package_from_canonical_cbor cs (manifest_approval_limits m) bs = Ok pkg
        \<and> manifest_canonical_hash p m = Ok (pk_manifest_hash pkg)
        \<and> (lc_state lc = Open \<or> lc_state lc = Closed)
        \<and> lc_frozen_manifest_hash lc = Some (pk_manifest_hash pkg)
        \<and> lc_frozen_registry_commitment lc = Some (manifest_registry_commitment m)
        \<and> reconstruct_approval_proof_statement m (pk_payload pkg) p = Ok (vp_statement (ab_verified_proof b))
        \<and> tari_triptych_verify L v (vp_statement (ab_verified_proof b)) (pk_proof pkg) = Ok (ab_verified_proof b)
        \<and> ab_payload b = pk_payload pkg) ingested (bl_accepted_ballots l)
    \<and> (\<exists>t. tally_from_ballots cs (map ab_payload (bl_accepted_ballots l)) = Ok t
        \<and> unat (at_accepted_ballots t) = card (bl_seen_nullifiers l)
        \<and> map cc_candidate_id (at_counts t) = map cd_id (cs_candidates cs)
        \<and> map (unat \<circ> cc_approvals) (at_counts t) = map (\<lambda>c. card {n. \<exists>b \<in> set (bl_accepted_ballots l).
            n = vp_nullifier (ab_verified_proof b) \<and> cd_id c \<in> set (bp_selections (ab_payload b))}) (cs_candidates cs))"
proof -
  let ?bs = "bl_accepted_ballots l" and ?nul = "vp_nullifier \<circ> ab_verified_proof"
  from triptych.ledger_reachable_inv [OF ledger_run_reachable [OF assms(1)]] have inv: "distinct (map ?nul ?bs)"
    "bl_seen_nullifiers l = set (map ?nul ?bs)" and "\<forall>b \<in> set ?bs. counted_ballot m cs p b"
    by (simp_all add: ledger_inv_def)
  then have ok: "\<forall>b \<in> set (map ab_payload ?bs). countable_ballot cs b"
    using countable_ballot_wf [OF assms(2)] by (auto simp: counted_ballot_def)
  have "approvals_of (map ab_payload ?bs) cid
      = card {n. \<exists>b \<in> set ?bs. n = ?nul b \<and> cid \<in> set (bp_selections (ab_payload b))}" for cid
    by (rule approvals_of_distinct_keys [OF inv(1)])
  moreover have "card (bl_seen_nullifiers l) = length ?bs"
    using distinct_card [OF inv(1)] inv(2) by simp
  ultimately have "\<exists>t. tally_from_ballots cs (map ab_payload ?bs) = Ok t
      \<and> unat (at_accepted_ballots t) = card (bl_seen_nullifiers l)
      \<and> map cc_candidate_id (at_counts t) = map cd_id (cs_candidates cs)
      \<and> map (unat \<circ> cc_approvals) (at_counts t) = map (\<lambda>c. card {n. \<exists>b \<in> set ?bs.
          n = vp_nullifier (ab_verified_proof b) \<and> cd_id c \<in> set (bp_selections (ab_payload b))}) (cs_candidates cs)"
    using tally_from_ballots_counts [OF assms(2) ok] assms(3) by (simp add: comp_def) blast
  with ledger_run_origin [OF assms(1)] show ?thesis by (rule conjI)
qed

theorem election_tally_end_to_end_witness:
  "ledger_run ex_manifest ex_candidates const_hash (TariTriptychPrototypeVerifierV1 toy_lib toy_verifier)
     [(ex_vote_bytes, ex_lifecycle)] ex_ledger
   \<and> (\<exists>t. tally_from_ballots ex_candidates (map ab_payload (bl_accepted_ballots ex_ledger)) = Ok t
        \<and> unat (at_accepted_ballots t) = 1)"
proof -
  have run: "ledger_run ex_manifest ex_candidates const_hash (TariTriptychPrototypeVerifierV1 toy_lib toy_verifier)
      [(ex_vote_bytes, ex_lifecycle)] ex_ledger"
    using run_ingest [OF run_start ex_ingest] by simp
  have "length (bl_accepted_ballots ex_ledger) < 2 ^ 64" by (simp add: ex_ledger_def)
  from election_tally_end_to_end [OF run ex_candidates_wf this] run show ?thesis
    by (auto simp: ex_ledger_def)
qed

end
