(* ===== verification/Archive_Files.thy ===== *)
theory Archive_Files
  imports Cbor
begin

text \<open>
  The file catalog of an archive (\<open>crates/archive/src/file_entry.rs\<close>): portable relative paths,
  file digests, and the catalog sorted by path without case-colliding entries.
\<close>

section \<open>ASCII strings\<close>

text \<open>The standard-library string operations the path checks use, on the bytes of the string.\<close>

definition SLASH :: u8 where "SLASH = 0x2f"
definition DOT :: u8 where "DOT = 0x2e"

definition is_ascii :: "rstring \<Rightarrow> bool" where
  "is_ascii s \<longleftrightarrow> list_all (\<lambda>b. b < 128) s"

definition ascii_lower :: "u8 \<Rightarrow> u8" where
  "ascii_lower b = (if 0x41 \<le> b \<and> b \<le> 0x5a then b + 32 else b)"

definition ascii_upper :: "u8 \<Rightarrow> u8" where
  "ascii_upper b = (if 0x61 \<le> b \<and> b \<le> 0x7a then b - 32 else b)"

definition to_ascii_lowercase :: "rstring \<Rightarrow> rstring" where
  "to_ascii_lowercase s = map ascii_lower s"

definition to_ascii_uppercase :: "rstring \<Rightarrow> rstring" where
  "to_ascii_uppercase s = map ascii_upper s"

definition starts_with :: "rstring \<Rightarrow> rstring \<Rightarrow> bool" where
  "starts_with s pre \<longleftrightarrow> take (length pre) s = pre"

definition ends_with :: "rstring \<Rightarrow> rstring \<Rightarrow> bool" where
  "ends_with s suf \<longleftrightarrow> starts_with (rev s) (rev suf)"

text \<open>\<open>str::split\<close> at one separator: \<open>n\<close> separators give \<open>n + 1\<close> segments, empty ones included.\<close>

fun split_at_byte :: "u8 \<Rightarrow> rstring \<Rightarrow> rstring list" where
  "split_at_byte c [] = [[]]"
| "split_at_byte c (b # s) =
     (if b = c then [] # split_at_byte c s
      else (case split_at_byte c s of
              seg # segs \<Rightarrow> (b # seg) # segs
            | [] \<Rightarrow> [[b]]))"

section \<open>Paths\<close>

datatype archive_path_v1 = ArchivePathV1 (archive_path_str: rstring)

instantiation archive_path_v1 :: linorder
begin
definition less_eq_archive_path_v1 :: "archive_path_v1 \<Rightarrow> archive_path_v1 \<Rightarrow> bool" where
  "less_eq_archive_path_v1 a b \<longleftrightarrow> archive_path_str a \<le> archive_path_str b"
definition less_archive_path_v1 :: "archive_path_v1 \<Rightarrow> archive_path_v1 \<Rightarrow> bool" where
  "less_archive_path_v1 a b \<longleftrightarrow> archive_path_str a < archive_path_str b"
instance
  by standard (auto simp: less_eq_archive_path_v1_def less_archive_path_v1_def archive_path_v1.expand)
end

definition is_allowed_path_byte :: "u8 \<Rightarrow> bool" where
  "is_allowed_path_byte b \<longleftrightarrow>
     (0x30 \<le> b \<and> b \<le> 0x39) \<or> (0x41 \<le> b \<and> b \<le> 0x5a) \<or> (0x61 \<le> b \<and> b \<le> 0x7a)
     \<or> b \<in> {0x2d, 0x5f, DOT, SLASH}"

definition is_windows_reserved_name :: "rstring \<Rightarrow> bool" where
  "is_windows_reserved_name v \<longleftrightarrow> v \<in> set (map lit
     [''CON'', ''PRN'', ''AUX'', ''NUL'',
      ''COM1'', ''COM2'', ''COM3'', ''COM4'', ''COM5'', ''COM6'', ''COM7'', ''COM8'', ''COM9'',
      ''LPT1'', ''LPT2'', ''LPT3'', ''LPT4'', ''LPT5'', ''LPT6'', ''LPT7'', ''LPT8'', ''LPT9''])"

definition validate_segment :: "rstring \<Rightarrow> unit presult" where
  "validate_segment segment =
     (if segment = [] then Err InvalidArchivePath
      else if segment = lit ''.'' \<or> segment = lit ''..'' then Err InvalidArchivePath
      else if ends_with segment [DOT] then Err InvalidArchivePath
      else
        let stem = takeWhile (\<lambda>b. b \<noteq> DOT) segment;
            reserved_name = to_ascii_uppercase stem in
        if is_windows_reserved_name reserved_name then Err InvalidArchivePath
        else Ok ())"

primrec validate_segments :: "rstring list \<Rightarrow> unit presult" where
  "validate_segments [] = Ok ()"
| "validate_segments (segment # segments) =
     and_then (validate_segment segment) (\<lambda>_. validate_segments segments)"

definition ArchivePathV1_new :: "rstring \<Rightarrow> archive_path_v1 presult" where
  "ArchivePathV1_new path =
     (if path = [] then Err EmptyArchivePath
      else if length path > MAX_ARCHIVE_PATH_BYTES then Err ProtocolLimitExceeded
      else if \<not> is_ascii path then Err InvalidArchivePath
      else if starts_with path [SLASH] \<or> ends_with path [SLASH] then Err InvalidArchivePath
      else if 0x5c \<in> set path \<or> 0x3a \<in> set path then Err InvalidArchivePath
      else if \<not> list_all is_allowed_path_byte path then Err InvalidArchivePath
      else and_then (validate_segments (split_at_byte SLASH path)) (\<lambda>_. Ok (ArchivePathV1 path)))"

definition portable_collision_key :: "archive_path_v1 \<Rightarrow> rstring" where
  "portable_collision_key p = to_ascii_lowercase (archive_path_str p)"

section \<open>Digests and entries\<close>

datatype archive_file_digest_v1 = ArchiveFileDigestV1 (archive_file_digest_bytes: bytes32)

definition digest_for_bytes :: "hash_provider \<Rightarrow> bytes \<Rightarrow> archive_file_digest_v1" where
  "digest_for_bytes provider bs = ArchiveFileDigestV1 (hash_domain_separated provider ArchiveFileV1 bs)"

definition digest_verify_bytes ::
  "hash_provider \<Rightarrow> bytes \<Rightarrow> archive_file_digest_v1 \<Rightarrow> unit presult" where
  "digest_verify_bytes provider bs digest =
     (if digest_for_bytes provider bs \<noteq> digest then Err ArchiveFileDigestMismatch else Ok ())"

record archive_file_entry_v1 =
  fe_path :: archive_path_v1
  fe_digest :: archive_file_digest_v1

definition entry_for_bytes ::
  "archive_path_v1 \<Rightarrow> hash_provider \<Rightarrow> bytes \<Rightarrow> archive_file_entry_v1" where
  "entry_for_bytes path provider bs = \<lparr>fe_path = path, fe_digest = digest_for_bytes provider bs\<rparr>"

definition entry_verify_bytes ::
  "hash_provider \<Rightarrow> bytes \<Rightarrow> archive_file_entry_v1 \<Rightarrow> unit presult" where
  "entry_verify_bytes provider bs e = digest_verify_bytes provider bs (fe_digest e)"

section \<open>The catalog\<close>

record archive_file_catalog_v1 =
  fc_entries :: "archive_file_entry_v1 list"

primrec check_portable_paths :: "rstring set \<Rightarrow> archive_file_entry_v1 list \<Rightarrow> unit presult" where
  "check_portable_paths portable_paths [] = Ok ()"
| "check_portable_paths portable_paths (e # es) =
     (let key = portable_collision_key (fe_path e) in
      if key \<in> portable_paths then Err DuplicateArchivePath
      else check_portable_paths (insert key portable_paths) es)"

definition ArchiveFileCatalogV1_new ::
  "archive_file_entry_v1 list \<Rightarrow> archive_file_catalog_v1 presult" where
  "ArchiveFileCatalogV1_new entries =
     (if entries = [] then Err EmptyArchiveFileSet
      else if length entries > MAX_ARCHIVE_FILES then Err ProtocolLimitExceeded
      else
        let entries = sort_key fe_path entries in
        and_then (check_portable_paths {} entries) (\<lambda>_. Ok \<lparr>fc_entries = entries\<rparr>))"

section \<open>What a path can name\<close>

text \<open>
  The meaning of a path to a file system: segment by segment, with \<open>.\<close> naming the current
  directory and \<open>..\<close> its parent; \<open>None\<close> means that the walk leaves the starting directory.
\<close>

fun walk :: "rstring list \<Rightarrow> rstring list \<Rightarrow> rstring list option" where
  "walk dir [] = Some dir"
| "walk dir (seg # segs) =
     (if seg = [] \<or> seg = lit ''.'' then walk dir segs
      else if seg = lit ''..'' then (if dir = [] then None else walk (butlast dir) segs)
      else walk (dir @ [seg]) segs)"

definition join_segments :: "rstring list \<Rightarrow> rstring" where
  "join_segments segs = concat (map (\<lambda>s. SLASH # s) segs)"

lemma split_at_byte_nonempty [simp]: "split_at_byte c s \<noteq> []"
  by (induction s) (auto split: list.splits)

lemma join_split: "join_segments (split_at_byte SLASH s) = SLASH # s"
proof (induction s)
  case (Cons b s)
  then show ?case by (cases "split_at_byte SLASH s") (auto simp: join_segments_def)
qed (simp add: join_segments_def)

lemma split_at_byte_inject: "split_at_byte SLASH s = split_at_byte SLASH t \<longleftrightarrow> s = t"
  by (metis join_split list.inject)

lemma validate_segments_Ok_iff:
  "validate_segments segs = Ok u \<longleftrightarrow> (\<forall>seg \<in> set segs. validate_segment seg = Ok ())"
  by (induction segs) (auto simp: result_inv)

lemma validate_segment_walk:
  "validate_segment seg = Ok u \<Longrightarrow> seg \<noteq> [] \<and> seg \<noteq> lit ''.'' \<and> seg \<noteq> lit ''..''"
  by (auto simp: validate_segment_def split: if_splits)

lemma walk_validated:
  "(\<forall>seg \<in> set segs. validate_segment seg = Ok ()) \<Longrightarrow> walk dir segs = Some (dir @ segs)"
  by (induction segs arbitrary: dir) (auto dest: validate_segment_walk)

section \<open>Well-formed paths and catalogs\<close>

definition wf_archive_path :: "archive_path_v1 \<Rightarrow> bool" where
  "wf_archive_path p \<longleftrightarrow>
     archive_path_str p \<noteq> [] \<and> length (archive_path_str p) \<le> MAX_ARCHIVE_PATH_BYTES
     \<and> list_all is_allowed_path_byte (archive_path_str p)
     \<and> (\<forall>seg \<in> set (split_at_byte SLASH (archive_path_str p)). validate_segment seg = Ok ())"

definition wf_file_catalog :: "archive_file_catalog_v1 \<Rightarrow> bool" where
  "wf_file_catalog c \<longleftrightarrow>
     fc_entries c \<noteq> [] \<and> length (fc_entries c) \<le> MAX_ARCHIVE_FILES
     \<and> sorted_wrt (<) (map fe_path (fc_entries c))
     \<and> distinct (map (\<lambda>e. portable_collision_key (fe_path e)) (fc_entries c))
     \<and> list_all (\<lambda>e. wf_archive_path (fe_path e)) (fc_entries c)"

lemma allowed_path_byte_ascii: "is_allowed_path_byte b \<Longrightarrow> b < 128 \<and> b \<noteq> 0x5c \<and> b \<noteq> 0x3a"
  by (auto simp: is_allowed_path_byte_def DOT_def SLASH_def intro: le_less_trans)

lemma allowed_path_ascii: "list_all is_allowed_path_byte s \<Longrightarrow> is_ascii s \<and> 0x5c \<notin> set s \<and> 0x3a \<notin> set s"
  by (auto simp: is_ascii_def list_all_iff dest: allowed_path_byte_ascii)


lemma starts_with_single: "starts_with s [c] \<longleftrightarrow> s \<noteq> [] \<and> hd s = c"
  by (cases s) (auto simp: starts_with_def)

lemma ends_with_single: "ends_with s [c] \<longleftrightarrow> s \<noteq> [] \<and> last s = c"
  by (cases s rule: rev_cases) (auto simp: ends_with_def starts_with_single)

lemma split_at_byte_append: "split_at_byte c (s @ c # t) = split_at_byte c s @ split_at_byte c t"
proof (induction s)
  case (Cons b s)
  then show ?case by (cases "split_at_byte c s") auto
qed simp

lemma split_boundary:
  assumes "s \<noteq> []" and "hd s = c \<or> last s = c"
  shows "[] \<in> set (split_at_byte c s)"
proof -
  from assms consider t where "s = [] @ c # t" | t where "s = t @ c # []"
    by (metis append_Nil append_butlast_last_id list.collapse)
  then show ?thesis by cases (auto simp: split_at_byte_append simp del: append_Nil)
qed

lemma ArchivePathV1_new_Ok_iff [result_inv]:
  "ArchivePathV1_new path = Ok p \<longleftrightarrow> wf_archive_path p \<and> path = archive_path_str p"
proof -
  have "\<not> (starts_with path [SLASH] \<or> ends_with path [SLASH])"
    if "path \<noteq> []" "\<forall>seg \<in> set (split_at_byte SLASH path). validate_segment seg = Ok ()"
    using that split_boundary [of path SLASH]
    by (auto simp: starts_with_single ends_with_single dest: validate_segment_walk)
  then show ?thesis
    by (cases p) (auto simp: ArchivePathV1_new_def wf_archive_path_def result_inv
        validate_segments_Ok_iff dest: allowed_path_ascii)
qed

lemma allowed_path_byte_unat: "is_allowed_path_byte b \<Longrightarrow> unat b < 128"
  using allowed_path_byte_ascii [of b] by (simp add: word_less_nat_alt)

lemma wf_archive_path_text:
  "wf_archive_path p \<Longrightarrow> utf8_valid (archive_path_str p) \<and> len_ok (length (archive_path_str p))"
  by (auto simp: wf_archive_path_def limits_def len_ok_def list_all_iff allowed_path_byte_unat
      intro!: utf8_valid_ascii)

lemma check_portable_paths_Ok_iff:
  "check_portable_paths seen es = Ok u \<longleftrightarrow>
     distinct (map (\<lambda>e. portable_collision_key (fe_path e)) es)
     \<and> (\<forall>e \<in> set es. portable_collision_key (fe_path e) \<notin> seen)"
  by (induction es arbitrary: seen) (auto simp: Let_def image_iff)

lemma distinct_map_sort_key: "distinct (map g (sort_key f xs)) \<longleftrightarrow> distinct (map g xs)"
  by (metis mset_eq_imp_distinct_iff mset_map mset_sort)

lemma ArchiveFileCatalogV1_new_Ok_iff:
  "ArchiveFileCatalogV1_new es = Ok c \<longleftrightarrow>
     es \<noteq> [] \<and> length es \<le> MAX_ARCHIVE_FILES
     \<and> distinct (map (\<lambda>e. portable_collision_key (fe_path e)) es)
     \<and> fc_entries c = sort_key fe_path es"
  by (cases c) (auto simp: ArchiveFileCatalogV1_new_def Let_def result_inv check_portable_paths_Ok_iff
      distinct_map_sort_key)

lemma distinct_paths_of_keys:
  "distinct (map (\<lambda>e. portable_collision_key (fe_path e)) es) \<Longrightarrow> distinct (map fe_path es)"
  by (auto simp: distinct_map inj_on_def)

lemma ArchiveFileCatalogV1_new_wf:
  assumes "ArchiveFileCatalogV1_new es = Ok c" and "list_all (\<lambda>e. wf_archive_path (fe_path e)) es"
  shows "wf_file_catalog c"
  using assms distinct_paths_of_keys [of es]
  by (auto simp: ArchiveFileCatalogV1_new_Ok_iff wf_file_catalog_def strictly_sorted_iff
      list_all_iff distinct_map_sort_key)

lemma ArchiveFileCatalogV1_new_sorted:
  assumes "wf_file_catalog c"
  shows "ArchiveFileCatalogV1_new (fc_entries c) = Ok c"
  using assms
  by (simp add: ArchiveFileCatalogV1_new_Ok_iff wf_file_catalog_def strictly_sorted_iff sort_key_sorted_id)

lemma digest_verify_bytes_Ok_iff [result_inv]:
  "digest_verify_bytes provider bs d = Ok u \<longleftrightarrow> d = digest_for_bytes provider bs"
  by (auto simp: digest_verify_bytes_def)

end
