(* ===== verification/Archive_Manifest.thy ===== *)
theory Archive_Manifest
  imports Archive_Files Election_Manifest
begin

text \<open>
  The archive manifest (\<open>crates/archive/src/manifest.rs\<close>): the catalog of the content files bound
  to an election manifest and a hash algorithm, its two versions, canonical form and archive hash.
\<close>

definition ARCHIVE_MANIFEST_VERSION_V1 :: u16 where "ARCHIVE_MANIFEST_VERSION_V1 = 1"
definition ARCHIVE_MANIFEST_VERSION_V2 :: u16 where "ARCHIVE_MANIFEST_VERSION_V2 = 2"

definition ARCHIVE_FINAL_LIFECYCLE_STATE_FINALIZED_V1 :: rstring where
  "ARCHIVE_FINAL_LIFECYCLE_STATE_FINALIZED_V1 = lit ''FINALIZED''"

definition ARCHIVE_MANIFEST_CANONICAL_PATH :: rstring where
  "ARCHIVE_MANIFEST_CANONICAL_PATH = lit ''archive-manifest.cbor''"

definition ARCHIVE_SIGNATURE_PATH_PREFIX :: rstring where
  "ARCHIVE_SIGNATURE_PATH_PREFIX = lit ''archive-signatures/''"

definition ARCHIVE_MANIFEST_FIELD_COUNT_V1 :: nat where "ARCHIVE_MANIFEST_FIELD_COUNT_V1 = 4"
definition ARCHIVE_MANIFEST_FIELD_COUNT_V2 :: nat where "ARCHIVE_MANIFEST_FIELD_COUNT_V2 = 5"
definition ARCHIVE_FILE_ENTRY_FIELD_COUNT_V1 :: nat where "ARCHIVE_FILE_ENTRY_FIELD_COUNT_V1 = 2"

lemmas archive_consts =
  ARCHIVE_MANIFEST_VERSION_V1_def ARCHIVE_MANIFEST_VERSION_V2_def
  ARCHIVE_MANIFEST_FIELD_COUNT_V1_def ARCHIVE_MANIFEST_FIELD_COUNT_V2_def
  ARCHIVE_FILE_ENTRY_FIELD_COUNT_V1_def

datatype archive_hash_v1 = ArchiveHashV1 (archive_hash_bytes: bytes32)

record archive_manifest_v1 =
  am_version :: u16
  am_election_manifest_hash :: manifest_hash
  am_hash_algorithm_id :: rstring
  am_final_lifecycle_state :: "rstring option"
  am_files :: archive_file_catalog_v1

primrec validate_catalog_entries :: "archive_file_entry_v1 list \<Rightarrow> unit presult" where
  "validate_catalog_entries [] = Ok ()"
| "validate_catalog_entries (e # es) =
     (let path = archive_path_str (fe_path e) in
      if path = ARCHIVE_MANIFEST_CANONICAL_PATH then Err InvalidArchiveManifest
      else if starts_with path ARCHIVE_SIGNATURE_PATH_PREFIX then Err InvalidArchiveManifest
      else validate_catalog_entries es)"

definition validate_catalog_scope :: "archive_file_catalog_v1 \<Rightarrow> unit presult" where
  "validate_catalog_scope files = validate_catalog_entries (fc_entries files)"

definition archive_manifest_new_with_lifecycle ::
  "u16 \<Rightarrow> manifest_hash \<Rightarrow> rstring \<Rightarrow> rstring option \<Rightarrow> archive_file_catalog_v1 \<Rightarrow>
   archive_manifest_v1 presult" where
  "archive_manifest_new_with_lifecycle version election_manifest_hash hash_algorithm_id final_state files =
     and_then
       (if version = ARCHIVE_MANIFEST_VERSION_V1 then
          (if final_state \<noteq> None then Err InvalidArchiveManifest else Ok ())
        else if version = ARCHIVE_MANIFEST_VERSION_V2 then
          (if final_state \<noteq> Some ARCHIVE_FINAL_LIFECYCLE_STATE_FINALIZED_V1 then Err InvalidArchiveManifest
           else Ok ())
        else Err UnsupportedProtocolVersion) (\<lambda>_.
     if trim_is_empty hash_algorithm_id then Err EmptyHashAlgorithmId
     else if length hash_algorithm_id > MAX_HASH_ALGORITHM_ID_BYTES then Err ProtocolLimitExceeded
     else
       and_then (validate_catalog_scope files) (\<lambda>_.
       Ok \<lparr>am_version = version, am_election_manifest_hash = election_manifest_hash,
           am_hash_algorithm_id = hash_algorithm_id, am_final_lifecycle_state = final_state,
           am_files = files\<rparr>))"

definition ArchiveManifestV1_new ::
  "u16 \<Rightarrow> manifest_hash \<Rightarrow> rstring \<Rightarrow> archive_file_catalog_v1 \<Rightarrow> archive_manifest_v1 presult" where
  "ArchiveManifestV1_new version election_manifest_hash hash_algorithm_id files =
     archive_manifest_new_with_lifecycle version election_manifest_hash hash_algorithm_id None files"

definition archive_manifest_for_provider ::
  "manifest_hash \<Rightarrow> archive_file_catalog_v1 \<Rightarrow> hash_provider \<Rightarrow> archive_manifest_v1 presult" where
  "archive_manifest_for_provider election_manifest_hash files provider =
     ArchiveManifestV1_new ARCHIVE_MANIFEST_VERSION_V1 election_manifest_hash
       (hp_algorithm_id provider) files"

definition archive_manifest_finalized_for_provider ::
  "manifest_hash \<Rightarrow> archive_file_catalog_v1 \<Rightarrow> hash_provider \<Rightarrow> archive_manifest_v1 presult" where
  "archive_manifest_finalized_for_provider election_manifest_hash files provider =
     archive_manifest_new_with_lifecycle ARCHIVE_MANIFEST_VERSION_V2 election_manifest_hash
       (hp_algorithm_id provider) (Some ARCHIVE_FINAL_LIFECYCLE_STATE_FINALIZED_V1) files"

definition is_finalized_archive_manifest :: "archive_manifest_v1 \<Rightarrow> bool" where
  "is_finalized_archive_manifest m \<longleftrightarrow>
     am_version m = ARCHIVE_MANIFEST_VERSION_V2
     \<and> am_final_lifecycle_state m = Some ARCHIVE_FINAL_LIFECYCLE_STATE_FINALIZED_V1"

section \<open>Canonical form\<close>

definition write_file_entry :: "archive_file_entry_v1 \<Rightarrow> cbor_writer \<Rightarrow> cbor_writer presult" where
  "write_file_entry e w =
     and_then (write_array_len ARCHIVE_FILE_ENTRY_FIELD_COUNT_V1 w) (\<lambda>w.
     and_then (write_text_string (archive_path_str (fe_path e)) w) (\<lambda>w.
     write_byte_string (arr_bytes (archive_file_digest_bytes (fe_digest e))) w))"

definition archive_manifest_to_canonical_cbor :: "archive_manifest_v1 \<Rightarrow> bytes presult" where
  "archive_manifest_to_canonical_cbor m =
     (let field_count = (if am_version m = ARCHIVE_MANIFEST_VERSION_V2
                         then ARCHIVE_MANIFEST_FIELD_COUNT_V2 else ARCHIVE_MANIFEST_FIELD_COUNT_V1) in
      and_then (write_array_len field_count new_writer) (\<lambda>w.
      let w = write_unsigned (ucast (am_version m)) w in
      and_then (write_byte_string (arr_bytes (manifest_hash_bytes (am_election_manifest_hash m))) w) (\<lambda>w.
      and_then (write_text_string (am_hash_algorithm_id m) w) (\<lambda>w.
      and_then
        (if am_version m = ARCHIVE_MANIFEST_VERSION_V2 then
           write_text_string (case am_final_lifecycle_state m of
               Some state \<Rightarrow> state | None \<Rightarrow> ARCHIVE_FINAL_LIFECYCLE_STATE_FINALIZED_V1) w
         else Ok w) (\<lambda>w.
      and_then (write_array_len (length (fc_entries (am_files m))) w) (\<lambda>w.
      and_then (write_all write_file_entry (fc_entries (am_files m)) w) (\<lambda>w.
      let encoded = into_bytes w in
      if length encoded > MAX_CANONICAL_OBJECT_BYTES then Err ProtocolLimitExceeded
      else Ok encoded)))))))"

definition read_digest :: "cbor_reader \<Rightarrow> bytes32 read" where
  "read_digest r =
     and_then (read_byte_string r) (\<lambda>(bs, r).
     and_then (ok_or InvalidCbor (array32 bs)) (\<lambda>a. Ok (a, r)))"

definition read_file_entry :: "cbor_reader \<Rightarrow> archive_file_entry_v1 read" where
  "read_file_entry r =
     and_then (read_array_len r) (\<lambda>(n, r).
     if n \<noteq> ARCHIVE_FILE_ENTRY_FIELD_COUNT_V1 then Err InvalidCbor
     else
       and_then (read_text_string r) (\<lambda>(path, r).
       and_then (ArchivePathV1_new path) (\<lambda>path.
       and_then (read_digest r) (\<lambda>(digest, r).
       Ok (\<lparr>fe_path = path, fe_digest = ArchiveFileDigestV1 digest\<rparr>, r)))))"

definition file_pair_check :: "archive_path_v1 \<Rightarrow> archive_path_v1 \<Rightarrow> unit presult" where
  "file_pair_check a b = (if a > b then Err NonCanonicalCbor else Ok ())"

text \<open>The decoder up to the file list: version, election manifest hash, algorithm and final state.\<close>

definition read_archive_header ::
  "cbor_reader \<Rightarrow> (u16 \<times> manifest_hash \<times> rstring \<times> rstring option) read" where
  "read_archive_header r =
     and_then (read_array_len r) (\<lambda>(field_count, r).
     if field_count \<noteq> ARCHIVE_MANIFEST_FIELD_COUNT_V1 \<and> field_count \<noteq> ARCHIVE_MANIFEST_FIELD_COUNT_V2
     then Err InvalidCbor
     else
       and_then (read_u16 r) (\<lambda>(version, r).
       if version = ARCHIVE_MANIFEST_VERSION_V1 \<and> field_count \<noteq> ARCHIVE_MANIFEST_FIELD_COUNT_V1 then
         Err InvalidCbor
       else if version = ARCHIVE_MANIFEST_VERSION_V2 \<and> field_count \<noteq> ARCHIVE_MANIFEST_FIELD_COUNT_V2 then
         Err InvalidCbor
       else if version \<noteq> ARCHIVE_MANIFEST_VERSION_V1 \<and> version \<noteq> ARCHIVE_MANIFEST_VERSION_V2 then
         Err UnsupportedProtocolVersion
       else
         and_then (read_digest r) (\<lambda>(election_manifest_hash, r).
         and_then (read_text_string r) (\<lambda>(hash_algorithm_id, r).
         if trim_is_empty hash_algorithm_id then Err EmptyHashAlgorithmId
         else if length hash_algorithm_id > MAX_HASH_ALGORITHM_ID_BYTES then Err ProtocolLimitExceeded
         else
           and_then
             (if version = ARCHIVE_MANIFEST_VERSION_V2 then
                and_then (read_text_string r) (\<lambda>(state, r).
                if state \<noteq> ARCHIVE_FINAL_LIFECYCLE_STATE_FINALIZED_V1 then Err InvalidArchiveManifest
                else Ok (Some state, r))
              else Ok (None, r)) (\<lambda>(final_state, r).
           Ok ((version, ManifestHash election_manifest_hash, hash_algorithm_id, final_state), r))))))"

definition archive_manifest_from_canonical_cbor :: "bytes \<Rightarrow> archive_manifest_v1 presult" where
  "archive_manifest_from_canonical_cbor encoded =
     (if length encoded > MAX_CANONICAL_OBJECT_BYTES then Err ProtocolLimitExceeded
      else
        and_then (read_archive_header (new_reader encoded))
          (\<lambda>((version, election_manifest_hash, hash_algorithm_id, final_state), r).
        and_then (read_array_len r) (\<lambda>(file_count, r).
        if file_count = 0 then Err EmptyArchiveFileSet
        else if file_count > MAX_ARCHIVE_FILES then Err ProtocolLimitExceeded
        else
          and_then (read_many read_file_entry file_count r) (\<lambda>(entries, r).
          and_then (finish r) (\<lambda>_.
          and_then (windows2_check (\<lambda>a b. file_pair_check (fe_path a) (fe_path b)) entries) (\<lambda>_.
          and_then (ArchiveFileCatalogV1_new entries) (\<lambda>files.
          archive_manifest_new_with_lifecycle version election_manifest_hash hash_algorithm_id
            final_state files)))))))"

definition validate_hash_provider :: "hash_provider \<Rightarrow> archive_manifest_v1 \<Rightarrow> unit presult" where
  "validate_hash_provider provider m =
     (if hp_algorithm_id provider \<noteq> am_hash_algorithm_id m then Err UnsupportedHashAlgorithm else Ok ())"

definition archive_manifest_canonical_hash ::
  "hash_provider \<Rightarrow> archive_manifest_v1 \<Rightarrow> archive_hash_v1 presult" where
  "archive_manifest_canonical_hash provider m =
     and_then (validate_hash_provider provider m) (\<lambda>_.
     and_then (archive_manifest_to_canonical_cbor m) (\<lambda>encoded.
     Ok (ArchiveHashV1 (hash_domain_separated provider ArchiveManifestV1 encoded))))"

definition archive_manifest_verify_hash ::
  "hash_provider \<Rightarrow> archive_hash_v1 \<Rightarrow> archive_manifest_v1 \<Rightarrow> unit presult" where
  "archive_manifest_verify_hash provider expected m =
     and_then (archive_manifest_canonical_hash provider m) (\<lambda>actual.
     if actual \<noteq> expected then Err ArchiveManifestHashMismatch else Ok ())"

section \<open>Well-formed archive manifests\<close>

definition catalog_in_scope :: "archive_file_catalog_v1 \<Rightarrow> bool" where
  "catalog_in_scope c \<longleftrightarrow>
     (\<forall>e \<in> set (fc_entries c). archive_path_str (fe_path e) \<noteq> ARCHIVE_MANIFEST_CANONICAL_PATH
        \<and> \<not> starts_with (archive_path_str (fe_path e)) ARCHIVE_SIGNATURE_PATH_PREFIX)"

definition version_state_ok :: "u16 \<Rightarrow> rstring option \<Rightarrow> bool" where
  "version_state_ok version final_state \<longleftrightarrow>
     (version = ARCHIVE_MANIFEST_VERSION_V1 \<and> final_state = None)
     \<or> (version = ARCHIVE_MANIFEST_VERSION_V2
        \<and> final_state = Some ARCHIVE_FINAL_LIFECYCLE_STATE_FINALIZED_V1)"

definition wf_archive_manifest :: "archive_manifest_v1 \<Rightarrow> bool" where
  "wf_archive_manifest m \<longleftrightarrow>
     version_state_ok (am_version m) (am_final_lifecycle_state m)
     \<and> \<not> trim_is_empty (am_hash_algorithm_id m) \<and> utf8_valid (am_hash_algorithm_id m)
     \<and> length (am_hash_algorithm_id m) \<le> MAX_HASH_ALGORITHM_ID_BYTES
     \<and> wf_file_catalog (am_files m) \<and> catalog_in_scope (am_files m)"

lemma validate_catalog_scope_Ok_iff [result_inv]:
  "validate_catalog_scope c = Ok u \<longleftrightarrow> catalog_in_scope c"
proof -
  have "validate_catalog_entries es = Ok u \<longleftrightarrow>
      (\<forall>e \<in> set es. archive_path_str (fe_path e) \<noteq> ARCHIVE_MANIFEST_CANONICAL_PATH
         \<and> \<not> starts_with (archive_path_str (fe_path e)) ARCHIVE_SIGNATURE_PATH_PREFIX)" for es
    by (induction es) (auto simp: Let_def)
  then show ?thesis by (simp add: validate_catalog_scope_def catalog_in_scope_def)
qed

lemma archive_manifest_new_Ok_iff:
  "archive_manifest_new_with_lifecycle v h a st files = Ok m \<longleftrightarrow>
     m = \<lparr>am_version = v, am_election_manifest_hash = h, am_hash_algorithm_id = a,
          am_final_lifecycle_state = st, am_files = files\<rparr>
     \<and> version_state_ok v st \<and> \<not> trim_is_empty a \<and> length a \<le> MAX_HASH_ALGORITHM_ID_BYTES
     \<and> catalog_in_scope files"
  by (auto simp: archive_manifest_new_with_lifecycle_def version_state_ok_def result_inv archive_consts)


section \<open>The codec\<close>

interpretation digest_c: cbor_codec read_digest "\<lambda>a. enc_bytes (arr_bytes a)" "\<lambda>_. True"
  unfolding read_digest_def [abs_def]
  by (rule bytes_c.codec_validated [where proj = arr_bytes and valid = "\<lambda>_. True"])
    (auto simp: result_inv array32_Some_iff)

definition file_entry_enc :: "archive_file_entry_v1 \<Rightarrow> bytes" where
  "file_entry_enc e = enc_len MAJOR_ARRAY ARCHIVE_FILE_ENTRY_FIELD_COUNT_V1
     @ enc_text (archive_path_str (fe_path e))
     @ enc_bytes (arr_bytes (archive_file_digest_bytes (fe_digest e)))"

interpretation file_entry_c: cbor_codec read_file_entry file_entry_enc "\<lambda>e. wf_archive_path (fe_path e)"
proof unfold_locales
  fix e :: archive_file_entry_v1 and pre rest
  assume "wf_archive_path (fe_path e)" and "fits (pre @ file_entry_enc e @ rest)"
  moreover from this(1) have "ArchivePathV1_new (archive_path_str (fe_path e)) = Ok (fe_path e)"
    by (simp add: result_inv)
  ultimately show "read_file_entry (rd pre (file_entry_enc e @ rest)) = Ok (e, rd (pre @ file_entry_enc e) rest)"
    using wf_archive_path_text [of "fe_path e"]
    by (simp add: read_file_entry_def file_entry_enc_def array_c.read_enc text_c.read_enc
        digest_c.read_enc archive_consts)
next
  fix pre bs e r
  assume "read_file_entry (rd pre bs) = Ok (e, r)"
  then show "wf_archive_path (fe_path e) \<and> (\<exists>rest. bs = file_entry_enc e @ rest \<and> r = rd (pre @ file_entry_enc e) rest)"
    by (auto simp: read_file_entry_def result_inv file_entry_enc_def
        dest!: array_c.enc_read text_c.enc_read digest_c.enc_read split: if_splits)
qed

definition archive_header_enc :: "u16 \<times> manifest_hash \<times> rstring \<times> rstring option \<Rightarrow> bytes" where
  "archive_header_enc = (\<lambda>(version, h, a, st).
     enc_len MAJOR_ARRAY (if version = ARCHIVE_MANIFEST_VERSION_V2
       then ARCHIVE_MANIFEST_FIELD_COUNT_V2 else ARCHIVE_MANIFEST_FIELD_COUNT_V1)
     @ enc_unsigned (ucast version) @ enc_bytes (arr_bytes (manifest_hash_bytes h)) @ enc_text a
     @ (case st of Some state \<Rightarrow> enc_text state | None \<Rightarrow> []))"

definition wf_archive_header :: "u16 \<times> manifest_hash \<times> rstring \<times> rstring option \<Rightarrow> bool" where
  "wf_archive_header = (\<lambda>(version, h, a, st).
     version_state_ok version st \<and> \<not> trim_is_empty a \<and> utf8_valid a
     \<and> length a \<le> MAX_HASH_ALGORITHM_ID_BYTES)"

lemma finalized_text [simp]:
  "utf8_valid ARCHIVE_FINAL_LIFECYCLE_STATE_FINALIZED_V1"
  "length ARCHIVE_FINAL_LIFECYCLE_STATE_FINALIZED_V1 = 9"
  by (simp_all add: ARCHIVE_FINAL_LIFECYCLE_STATE_FINALIZED_V1_def lit_def utf8_valid_ascii)

lemma archive_counts_ok [simp]:
  "len_ok ARCHIVE_MANIFEST_FIELD_COUNT_V1" "len_ok ARCHIVE_MANIFEST_FIELD_COUNT_V2"
  "len_ok ARCHIVE_FILE_ENTRY_FIELD_COUNT_V1"
  "ARCHIVE_MANIFEST_VERSION_V1 \<noteq> ARCHIVE_MANIFEST_VERSION_V2"
  "ARCHIVE_MANIFEST_VERSION_V2 \<noteq> ARCHIVE_MANIFEST_VERSION_V1"
  "ARCHIVE_MANIFEST_FIELD_COUNT_V1 \<noteq> ARCHIVE_MANIFEST_FIELD_COUNT_V2"
  "ARCHIVE_MANIFEST_FIELD_COUNT_V2 \<noteq> ARCHIVE_MANIFEST_FIELD_COUNT_V1"
  by (simp_all add: archive_consts)

lemma algorithm_len_ok: "length a \<le> MAX_HASH_ALGORITHM_ID_BYTES \<Longrightarrow> len_ok (length a)"
  by (simp add: limits_def len_ok_def)

interpretation archive_header_c: cbor_codec read_archive_header archive_header_enc wf_archive_header
proof unfold_locales
  fix h pre rest
  assume "wf_archive_header h" and "fits (pre @ archive_header_enc h @ rest)"
  then show "read_archive_header (rd pre (archive_header_enc h @ rest)) = Ok (h, rd (pre @ archive_header_enc h) rest)"
    by (cases h) (auto simp: read_archive_header_def archive_header_enc_def wf_archive_header_def
        version_state_ok_def array_c.read_enc u16_c.read_enc digest_c.read_enc text_c.read_enc
        algorithm_len_ok)
next
  fix pre bs h r
  assume "read_archive_header (rd pre bs) = Ok (h, r)"
  then show "wf_archive_header h \<and> (\<exists>rest. bs = archive_header_enc h @ rest \<and> r = rd (pre @ archive_header_enc h) rest)"
    by (auto simp: read_archive_header_def result_inv archive_header_enc_def wf_archive_header_def
        version_state_ok_def dest!: array_c.enc_read u16_c.enc_read digest_c.enc_read text_c.enc_read
        split: if_splits)
qed

definition archive_manifest_header ::
  "archive_manifest_v1 \<Rightarrow> u16 \<times> manifest_hash \<times> rstring \<times> rstring option" where
  "archive_manifest_header m =
     (am_version m, am_election_manifest_hash m, am_hash_algorithm_id m, am_final_lifecycle_state m)"

definition archive_manifest_enc :: "archive_manifest_v1 \<Rightarrow> bytes" where
  "archive_manifest_enc m =
     archive_header_enc (archive_manifest_header m) @ enc_seq file_entry_enc (fc_entries (am_files m))"

lemma wf_archive_manifest_iff:
  "wf_archive_manifest m \<longleftrightarrow>
     wf_archive_header (archive_manifest_header m) \<and> wf_file_catalog (am_files m) \<and> catalog_in_scope (am_files m)"
  by (auto simp: wf_archive_manifest_def wf_archive_header_def archive_manifest_header_def)

lemma write_file_entry_append:
  "wf_archive_path (fe_path e) \<Longrightarrow>
     write_file_entry e \<lparr>w_output = out\<rparr> = Ok \<lparr>w_output = out @ file_entry_enc e\<rparr>"
  using wf_archive_path_text [of "fe_path e"] by (simp add: write_file_entry_def file_entry_enc_def)

lemma archive_manifest_to_canonical_cbor_eq:
  assumes "wf_archive_manifest m"
  shows "archive_manifest_to_canonical_cbor m =
     (if length (archive_manifest_enc m) > MAX_CANONICAL_OBJECT_BYTES then Err ProtocolLimitExceeded
      else Ok (archive_manifest_enc m))"
proof -
  have files: "len_ok (length (fc_entries (am_files m)))"
    "\<And>e. e \<in> set (fc_entries (am_files m)) \<Longrightarrow> wf_archive_path (fe_path e)"
    using assms by (auto simp: wf_archive_manifest_def wf_file_catalog_def limits_def len_ok_def list_all_iff)
  have "write_all write_file_entry (fc_entries (am_files m)) \<lparr>w_output = out\<rparr>
      = Ok \<lparr>w_output = out @ concat (map file_entry_enc (fc_entries (am_files m)))\<rparr>" for out
    using files(2) by (intro write_all_append) (simp add: write_file_entry_append)
  then show ?thesis
    using assms files(1)
    by (auto simp: archive_manifest_to_canonical_cbor_def Let_def archive_manifest_enc_def
        archive_header_enc_def archive_manifest_header_def enc_seq_def wf_archive_manifest_def
        version_state_ok_def algorithm_len_ok)
qed

lemma file_pair_check_Ok: "file_pair_check a b = Ok () \<longleftrightarrow> a \<le> b"
  by (auto simp: file_pair_check_def)

lemma file_order_check_iff:
  "windows2_check (\<lambda>a b. file_pair_check (fe_path a) (fe_path b)) es = Ok () \<longleftrightarrow> sorted (map fe_path es)"
  unfolding windows2_check_map [of file_pair_check fe_path]
  by (rule windows2_check_sorted_wrt) (auto simp: file_pair_check_Ok)

lemma archive_manifest_decode_enc:
  assumes wf: "wf_archive_manifest m" and len: "length (archive_manifest_enc m) \<le> MAX_CANONICAL_OBJECT_BYTES"
  shows "archive_manifest_from_canonical_cbor (archive_manifest_enc m) = Ok m"
proof -
  let ?es = "fc_entries (am_files m)" and ?h = "archive_manifest_header m"
  let ?pre = "archive_header_enc ?h @ enc_len MAJOR_ARRAY (length ?es)"
  have fit: "fits (archive_manifest_enc m)"
    using len by (simp add: fits_def limits_def usize_max_def)
  have cat: "wf_file_catalog (am_files m)" and scope: "catalog_in_scope (am_files m)"
    and hdr: "wf_archive_header ?h"
    using wf by (simp_all add: wf_archive_manifest_iff)
  have es: "list_all (\<lambda>e. wf_archive_path (fe_path e)) ?es" "len_ok (length ?es)" "?es \<noteq> []"
    "length ?es \<le> MAX_ARCHIVE_FILES" "sorted (map fe_path ?es)"
    using cat by (auto simp: wf_file_catalog_def limits_def len_ok_def strictly_sorted_iff)
  have "read_archive_header (rd [] (archive_manifest_enc m)) =
      Ok (?h, rd (archive_header_enc ?h) (enc_seq file_entry_enc ?es))"
    using archive_header_c.read_enc [OF hdr, of "[]"] fit by (simp add: archive_manifest_enc_def)
  moreover have "read_array_len (rd (archive_header_enc ?h) (enc_seq file_entry_enc ?es)) =
      Ok (length ?es, rd ?pre (concat (map file_entry_enc ?es)))"
    using array_c.read_enc [OF es(2)] fit by (simp add: archive_manifest_enc_def enc_seq_def)
  moreover have "read_many read_file_entry (length ?es) (rd ?pre (concat (map file_entry_enc ?es))) =
      Ok (?es, rd (archive_manifest_enc m) [])"
    using file_entry_c.read_many_enc [OF es(1), of ?pre "[]"] fit
    by (simp add: archive_manifest_enc_def enc_seq_def)
  moreover have "archive_manifest_new_with_lifecycle (am_version m) (am_election_manifest_hash m)
      (am_hash_algorithm_id m) (am_final_lifecycle_state m) (am_files m) = Ok m"
    using hdr scope by (simp add: archive_manifest_new_Ok_iff wf_archive_header_def archive_manifest_header_def)
  ultimately show ?thesis
    using es len ArchiveFileCatalogV1_new_sorted [OF cat] file_order_check_iff [THEN iffD2, OF es(5)]
    by (simp add: archive_manifest_from_canonical_cbor_def new_reader_rd archive_manifest_header_def)
qed

lemma archive_manifest_decode_Ok:
  assumes "archive_manifest_from_canonical_cbor bs = Ok m"
  shows "wf_archive_manifest m \<and> archive_manifest_enc m = bs \<and> length bs \<le> MAX_CANONICAL_OBJECT_BYTES"
proof -
  from assms obtain v h a st r n r1 es r2 files where
    hdr: "read_archive_header (rd [] bs) = Ok ((v, h, a, st), r)"
    and n: "read_array_len r = Ok (n, r1)"
    and es: "read_many read_file_entry n r1 = Ok (es, r2)" and fin: "finish r2 = Ok ()"
    and sorted: "sorted (map fe_path es)"
    and files: "ArchiveFileCatalogV1_new es = Ok files"
    and new: "archive_manifest_new_with_lifecycle v h a st files = Ok m"
    and len: "length bs \<le> MAX_CANONICAL_OBJECT_BYTES"
    by (auto simp: archive_manifest_from_canonical_cbor_def new_reader_rd result_inv
        file_order_check_iff split: if_splits)
  from archive_header_c.enc_read [OF hdr] obtain rest where
    wfh: "wf_archive_header (v, h, a, st)" and bs: "bs = archive_header_enc (v, h, a, st) @ rest"
    and r: "r = rd (archive_header_enc (v, h, a, st)) rest" by auto
  from array_c.enc_read [OF n [unfolded r]] obtain rest1 where
    rest: "rest = enc_len MAJOR_ARRAY n @ rest1"
    and r1: "r1 = rd (archive_header_enc (v, h, a, st) @ enc_len MAJOR_ARRAY n) rest1" by auto
  from file_entry_c.enc_read_many [OF es [unfolded r1]] fin have
    items: "list_all (\<lambda>e. wf_archive_path (fe_path e)) es" "length es = n"
    and rest1: "rest1 = concat (map file_entry_enc es)" by (auto split: if_splits)
  have entries: "fc_entries files = es"
    using files sorted by (simp add: ArchiveFileCatalogV1_new_Ok_iff sort_key_sorted_id)
  show ?thesis
    using new wfh ArchiveFileCatalogV1_new_wf [OF files items(1)] bs rest rest1 items(2) entries len
    by (auto simp: archive_manifest_new_Ok_iff wf_archive_manifest_iff archive_manifest_header_def
        archive_manifest_enc_def enc_seq_def)
qed

interpretation archive_manifest_codec:
  object_codec archive_manifest_from_canonical_cbor archive_manifest_to_canonical_cbor wf_archive_manifest
  by unfold_locales
    (auto simp: archive_manifest_to_canonical_cbor_eq archive_manifest_decode_enc not_less
      dest!: archive_manifest_decode_Ok split: if_splits)

end
