(* ===== verification/Archive_Directory.thy ===== *)
theory Archive_Directory
  imports Archive_Manifest
begin

text \<open>
  The file-system side of the archive verifier (\<open>crates/archive/src/verifier.rs\<close>: \<open>read_bounded\<close>,
  \<open>read_bounded_archive_file\<close>, \<open>enumerate_disk_files\<close>). The archive directory is a tree that does not
  change during one verification; entry names are text. A file may be unreadable, a directory may
  refuse to be listed, and a node may be neither file nor directory (a link or a device).
\<close>

section \<open>Directory trees\<close>

datatype fs_node =
    FileNode (readable: bool) (content: bytes)
  | DirNode (listable: bool) (children: "(rstring \<times> fs_node) list")
  | OtherNode

datatype io_error = NotFound | OtherIo

text \<open>\<open>symlink_metadata\<close> of a path below the directory, given by its components.\<close>

fun lookup_node :: "rstring list \<Rightarrow> fs_node \<Rightarrow> (fs_node, io_error) result" where
  "lookup_node [] n = Ok n"
| "lookup_node (c # cs) (DirNode l es) =
     (case map_of es c of None \<Rightarrow> Err NotFound | Some n \<Rightarrow> lookup_node cs n)"
| "lookup_node (c # cs) (FileNode r bs) = Err OtherIo"
| "lookup_node (c # cs) OtherNode = Err OtherIo"

datatype archive_verifier_error = FileNotFound | IoFailure | ProtocolLimitExceededIo

primrec verifier_error_code :: "archive_verifier_error \<Rightarrow> rstring" where
  "verifier_error_code FileNotFound = lit ''GUI_FILE_NOT_FOUND''"
| "verifier_error_code IoFailure = lit ''GUI_IO_ERROR''"
| "verifier_error_code ProtocolLimitExceededIo = lit ''PROTOCOL_LIMIT_EXCEEDED''"

definition metadata_error :: "io_error \<Rightarrow> archive_verifier_error" where
  "metadata_error e = (if e = NotFound then FileNotFound else IoFailure)"

definition GOVERNANCE_DOCUMENT_ARCHIVE_PATH :: rstring where
  "GOVERNANCE_DOCUMENT_ARCHIVE_PATH = lit ''governance/source.bin''"

definition MAX_GOVERNANCE_DOCUMENT_BYTES :: nat where
  "MAX_GOVERNANCE_DOCUMENT_BYTES = 50 * 1024 * 1024"

text \<open>Reading a regular file of at most \<open>limit\<close> bytes.\<close>

definition read_limited :: "nat \<Rightarrow> rstring list \<Rightarrow> fs_node \<Rightarrow> (bytes, archive_verifier_error) result" where
  "read_limited limit path dir =
     and_then (map_err metadata_error (lookup_node path dir)) (\<lambda>node.
     case node of
       FileNode r bs \<Rightarrow>
         if length bs > limit then Err ProtocolLimitExceededIo
         else if r then Ok bs else Err IoFailure
     | _ \<Rightarrow> Err IoFailure)"

definition read_bounded :: "rstring list \<Rightarrow> fs_node \<Rightarrow> (bytes, archive_verifier_error) result" where
  "read_bounded path dir = read_limited MAX_CANONICAL_OBJECT_BYTES path dir"

definition read_bounded_archive_file ::
  "fs_node \<Rightarrow> rstring \<Rightarrow> (bytes, archive_verifier_error) result" where
  "read_bounded_archive_file dir relative =
     read_limited (if relative = GOVERNANCE_DOCUMENT_ARCHIVE_PATH then MAX_GOVERNANCE_DOCUMENT_BYTES
                   else MAX_CANONICAL_OBJECT_BYTES)
       (split_at_byte SLASH relative) dir"

section \<open>Enumeration\<close>

text \<open>
  The components of a path joined by slashes; \<open>enumerate_disk_files\<close> walks the tree with a stack,
  skips what is neither file nor directory, the archive manifest and the detached signatures.
\<close>

fun join_path :: "rstring list \<Rightarrow> rstring" where
  "join_path [] = []"
| "join_path [c] = c"
| "join_path (c # cs) = c @ SLASH # join_path cs"

definition excluded_path :: "rstring \<Rightarrow> bool" where
  "excluded_path canonical \<longleftrightarrow>
     canonical = ARCHIVE_MANIFEST_CANONICAL_PATH \<or> starts_with canonical ARCHIVE_SIGNATURE_PATH_PREFIX"

fun scan_entries ::
  "rstring list \<Rightarrow> (rstring \<times> fs_node) list \<Rightarrow> (rstring list \<times> fs_node) list \<Rightarrow> rstring set \<Rightarrow>
   (rstring list \<times> fs_node) list \<times> rstring set" where
  "scan_entries prefix [] stack files = (stack, files)"
| "scan_entries prefix ((name, node) # entries) stack files =
     (let path = prefix @ [name] in
      case node of
        DirNode l es \<Rightarrow> scan_entries prefix entries ((path, node) # stack) files
      | OtherNode \<Rightarrow> scan_entries prefix entries stack files
      | FileNode r bs \<Rightarrow>
          (let canonical = join_path path in
           if excluded_path canonical then scan_entries prefix entries stack files
           else scan_entries prefix entries stack (insert canonical files)))"

definition stack_size :: "(rstring list \<times> fs_node) list \<Rightarrow> nat" where
  "stack_size stack = sum_list (map (\<lambda>(p, n). size n) stack)"

lemma scan_entries_size:
  "stack_size (fst (scan_entries prefix entries stack files))
     \<le> stack_size stack + size_list (size_prod (\<lambda>_. 0) size) entries"
proof (induction prefix entries stack files rule: scan_entries.induct)
  case (2 prefix name node entries stack files)
  then show ?case
    by (cases node) (fastforce simp: Let_def stack_size_def)+
qed simp

text \<open>A popped entry is a directory: the code pushes nothing else but the archive directory itself.\<close>

function enumerate_loop ::
  "(rstring list \<times> fs_node) list \<Rightarrow> rstring set \<Rightarrow> (rstring set, archive_verifier_error) result" where
  "enumerate_loop [] files = Ok files"
| "enumerate_loop ((path, DirNode l es) # stack) files =
     (if \<not> l then Err IoFailure
      else let (stack, files) = scan_entries path es stack files in enumerate_loop stack files)"
| "enumerate_loop ((path, FileNode r bs) # stack) files = Err IoFailure"
| "enumerate_loop ((path, OtherNode) # stack) files = Err IoFailure"
  by pat_completeness auto
termination
proof (relation "measure (\<lambda>(stack, files). stack_size stack)")
  fix path l es and stack :: "(rstring list \<times> fs_node) list" and files x stack' files'
  assume "x = scan_entries path es stack files" and "(stack', files') = x"
  then have "stack' = fst (scan_entries path es stack files)" by (metis fst_conv)
  then show "((stack', files'), (path, DirNode l es) # stack, files) \<in> measure (\<lambda>(stack, files). stack_size stack)"
    using scan_entries_size [of path es stack files] by (simp add: stack_size_def)
qed simp

definition enumerate_disk_files :: "fs_node \<Rightarrow> (rstring set, archive_verifier_error) result" where
  "enumerate_disk_files dir = enumerate_loop [([], dir)] {}"

section \<open>What enumeration finds\<close>

text \<open>The regular files below a node, by recursion over the tree.\<close>

fun tree_files :: "rstring list \<Rightarrow> fs_node \<Rightarrow> rstring list set" where
  "tree_files p (FileNode r bs) = {p}"
| "tree_files p (DirNode l es) = (\<Union>(name, n) \<in> set es. tree_files (p @ [name]) n)"
| "tree_files p OtherNode = {}"

fun all_listable :: "fs_node \<Rightarrow> bool" where
  "all_listable (DirNode l es) = (l \<and> (\<forall>(name, n) \<in> set es. all_listable n))"
| "all_listable (FileNode r bs) = True"
| "all_listable OtherNode = True"

definition listed :: "rstring list set \<Rightarrow> rstring set" where
  "listed ps = {s \<in> join_path ` ps. \<not> excluded_path s}"

definition stack_files :: "(rstring list \<times> fs_node) list \<Rightarrow> rstring list set" where
  "stack_files stack = (\<Union>(p, n) \<in> set stack. tree_files p n)"

definition is_dir :: "fs_node \<Rightarrow> bool" where
  "is_dir n \<longleftrightarrow> (\<exists>l es. n = DirNode l es)"

lemma is_dir_simps [simp]: "is_dir (DirNode l es)" "\<not> is_dir (FileNode r bs)" "\<not> is_dir OtherNode"
  by (simp_all add: is_dir_def)

lemma listed_simps [simp]:
  "listed {} = {}" "listed (a \<union> b) = listed a \<union> listed b"
  "listed (insert p ps) = (if excluded_path (join_path p) then listed ps else insert (join_path p) (listed ps))"
  by (auto simp: listed_def)

lemma stack_files_Cons [simp]: "stack_files ((p, n) # stack) = tree_files p n \<union> stack_files stack"
  by (simp add: stack_files_def)

lemma scan_entries_files:
  "scan_entries prefix entries stack files = (stack', files') \<Longrightarrow>
   files' \<union> listed (stack_files stack') =
     files \<union> listed (stack_files stack) \<union> listed (\<Union>(name, n) \<in> set entries. tree_files (prefix @ [name]) n)"
proof (induction entries arbitrary: stack files)
  case (Cons e entries)
  obtain name node where e: "e = (name, node)" by fastforce
  show ?case
  proof (cases node)
    case (FileNode r bs)
    then show ?thesis
      using Cons.prems Cons.IH by (simp add: e Let_def Un_assoc split: if_splits)
  next
    case (DirNode l es)
    then have "scan_entries prefix entries ((prefix @ [name], node) # stack) files = (stack', files')"
      using Cons.prems by (simp add: e Let_def)
    from Cons.IH [OF this] show ?thesis by (simp add: e Un_ac)
  next
    case OtherNode
    then show ?thesis using Cons by (simp add: e Let_def)
  qed
qed simp

lemma scan_entries_listable:
  "scan_entries prefix entries stack files = (stack', files') \<Longrightarrow>
   (\<forall>x \<in> set stack'. all_listable (snd x)) \<longleftrightarrow>
     (\<forall>x \<in> set stack. all_listable (snd x)) \<and> (\<forall>x \<in> set entries. all_listable (snd x))"
proof (induction entries arbitrary: stack files)
  case (Cons e entries)
  obtain name node where e: "e = (name, node)" by fastforce
  show ?case
  proof (cases node)
    case (DirNode l es)
    then have "scan_entries prefix entries ((prefix @ [name], node) # stack) files = (stack', files')"
      using Cons.prems by (simp add: e Let_def)
    from Cons.IH [OF this] show ?thesis by (auto simp: e simp del: all_listable.simps)
  qed (use Cons in \<open>simp_all add: e Let_def split: if_splits\<close>)
qed simp

lemma scan_entries_dirs:
  "scan_entries prefix entries stack files = (stack', files') \<Longrightarrow>
   \<forall>x \<in> set stack. is_dir (snd x) \<Longrightarrow> \<forall>x \<in> set stack'. is_dir (snd x)"
proof (induction entries arbitrary: stack files)
  case (Cons e entries)
  obtain name node where e: "e = (name, node)" by fastforce
  show ?case
  proof (cases node)
    case (DirNode l es)
    then have "scan_entries prefix entries ((prefix @ [name], node) # stack) files = (stack', files')" "is_dir node"
      using Cons.prems by (simp_all add: e Let_def is_dir_def)
    with Cons.IH [OF this(1)] Cons.prems(2) show ?thesis by simp
  qed (use Cons in \<open>simp_all add: e Let_def split: if_splits\<close>)
qed simp

lemma enumerate_loop_spec:
  assumes "\<forall>x \<in> set stack. is_dir (snd x)"
  shows "enumerate_loop stack files =
    (if \<forall>x \<in> set stack. all_listable (snd x) then Ok (files \<union> listed (stack_files stack)) else Err IoFailure)"
  using assms
proof (induction stack files rule: enumerate_loop.induct)
  case (1 files)
  show ?case by (simp add: stack_files_def)
next
  case (2 path l es stack files)
  obtain stack' files' where sc: "scan_entries path es stack files = (stack', files')" by fastforce
  note fl = scan_entries_files [OF sc] and ls = scan_entries_listable [OF sc]
  show ?case
  proof (cases l)
    case True
    have "enumerate_loop stack' files' =
        (if \<forall>x \<in> set stack'. all_listable (snd x) then Ok (files' \<union> listed (stack_files stack')) else Err IoFailure)"
      using "2.IH" [OF _ sc [symmetric] refl] True scan_entries_dirs [OF sc] "2.prems" by simp
    then show ?thesis
      unfolding fl ls using True sc by (simp add: Un_ac case_prod_beta conj_commute)
  qed simp
qed (simp_all add: is_dir_def)

lemma enumerate_disk_files_eq:
  assumes "is_dir dir"
  shows "enumerate_disk_files dir = (if all_listable dir then Ok (listed (tree_files [] dir)) else Err IoFailure)"
  using enumerate_loop_spec [of "[([], dir)]" "{}"] assms
  by (simp add: enumerate_disk_files_def stack_files_def)

end
