(* ===== verification/Replay_Transcript.thy ===== *)
theory Replay_Transcript
  imports Protocol_Core
begin

text \<open>
  The verification transcript (\<open>crates/archive/src/replay.rs\<close>): submissions numbered in ingest
  order, and one decision per submission, recorded in the same order.
\<close>

datatype ballot_package_digest_v1 = BallotPackageDigestV1 (package_digest_bytes: bytes32)

datatype ingest_sequence_v1 = IngestSequenceV1 (sequence_value: u64)

definition sequence_from_index :: "nat \<Rightarrow> ingest_sequence_v1 presult" where
  "sequence_from_index index =
     and_then (ok_or ProtocolLimitExceeded (u64_of_usize index)) (\<lambda>value. Ok (IngestSequenceV1 value))"

record submission_record_v1 =
  sr_sequence :: ingest_sequence_v1
  sr_package_digest :: ballot_package_digest_v1
  sr_received_before_close :: bool

datatype ballot_decision_outcome_v1 = Accepted | Rejected validation_code

primrec is_accepted :: "ballot_decision_outcome_v1 \<Rightarrow> bool" where
  "is_accepted Accepted = True"
| "is_accepted (Rejected code) = False"

primrec rejection_code :: "ballot_decision_outcome_v1 \<Rightarrow> validation_code option" where
  "rejection_code Accepted = None"
| "rejection_code (Rejected code) = Some code"

record ballot_decision_v1 =
  bd_sequence :: ingest_sequence_v1
  bd_package_digest :: ballot_package_digest_v1
  bd_outcome :: ballot_decision_outcome_v1

record verification_transcript_v1 =
  vt_manifest_hash :: manifest_hash
  vt_submissions :: "submission_record_v1 list"
  vt_decisions :: "ballot_decision_v1 list"

definition transcript_new :: "manifest_hash \<Rightarrow> verification_transcript_v1" where
  "transcript_new h = \<lparr>vt_manifest_hash = h, vt_submissions = [], vt_decisions = []\<rparr>"

definition record_submission ::
  "ballot_package_digest_v1 \<Rightarrow> bool \<Rightarrow> verification_transcript_v1 \<Rightarrow>
   (ingest_sequence_v1 \<times> verification_transcript_v1) presult" where
  "record_submission package_digest received_before_close t =
     and_then (sequence_from_index (length (vt_submissions t))) (\<lambda>sequence.
     Ok (sequence, t\<lparr>vt_submissions := vt_submissions t @
       [\<lparr>sr_sequence = sequence, sr_package_digest = package_digest,
         sr_received_before_close = received_before_close\<rparr>]\<rparr>))"

definition record_decision ::
  "ingest_sequence_v1 \<Rightarrow> ballot_package_digest_v1 \<Rightarrow> ballot_decision_outcome_v1 \<Rightarrow>
   verification_transcript_v1 \<Rightarrow> verification_transcript_v1 presult" where
  "record_decision sequence package_digest outcome t =
     and_then (sequence_from_index (length (vt_decisions t))) (\<lambda>expected.
     if sequence_value sequence < sequence_value expected then Err DuplicateBallotDecision
     else if sequence_value sequence > sequence_value expected then Err InvalidIngestSequence
     else
       and_then (ok_or InvalidIngestSequence (usize_of_u64 (sequence_value sequence))) (\<lambda>index.
       if index \<ge> length (vt_submissions t) then Err InvalidIngestSequence
       else if sr_package_digest (vt_submissions t ! index) \<noteq> package_digest then
         Err BallotDecisionDigestMismatch
       else Ok (t\<lparr>vt_decisions := vt_decisions t @
         [\<lparr>bd_sequence = sequence, bd_package_digest = package_digest, bd_outcome = outcome\<rparr>]\<rparr>)))"

definition next_undecided_submission :: "verification_transcript_v1 \<Rightarrow> submission_record_v1 option" where
  "next_undecided_submission t =
     (if length (vt_decisions t) < length (vt_submissions t)
      then Some (vt_submissions t ! length (vt_decisions t)) else None)"

definition accepted_count :: "verification_transcript_v1 \<Rightarrow> nat" where
  "accepted_count t = length (filter (\<lambda>d. is_accepted (bd_outcome d)) (vt_decisions t))"

definition rejected_count :: "verification_transcript_v1 \<Rightarrow> nat" where
  "rejected_count t = length (vt_decisions t) - accepted_count t"

fun check_pairs :: "submission_record_v1 list \<Rightarrow> ballot_decision_v1 list \<Rightarrow> unit presult" where
  "check_pairs (s # ss) (d # ds) =
     (if sr_sequence s \<noteq> bd_sequence d then Err InvalidIngestSequence
      else if sr_package_digest s \<noteq> bd_package_digest d then Err BallotDecisionDigestMismatch
      else check_pairs ss ds)"
| "check_pairs ss ds = Ok ()"

definition validate_complete :: "verification_transcript_v1 \<Rightarrow> unit presult" where
  "validate_complete t =
     (if length (vt_submissions t) \<noteq> length (vt_decisions t) then Err IncompleteVerificationTranscript
      else check_pairs (vt_submissions t) (vt_decisions t))"

section \<open>The transcript invariant\<close>

text \<open>
  Submissions carry their position; decisions are a prefix of the submissions, in order, with the
  sequence and the digest of the submission they decide.
\<close>

definition transcript_inv :: "verification_transcript_v1 \<Rightarrow> bool" where
  "transcript_inv t \<longleftrightarrow>
     length (vt_submissions t) \<le> 2 ^ 64
     \<and> length (vt_decisions t) \<le> length (vt_submissions t)
     \<and> (\<forall>i < length (vt_submissions t).
          sr_sequence (vt_submissions t ! i) = IngestSequenceV1 (word_of_nat i))
     \<and> (\<forall>i < length (vt_decisions t).
          bd_sequence (vt_decisions t ! i) = sr_sequence (vt_submissions t ! i)
          \<and> bd_package_digest (vt_decisions t ! i) = sr_package_digest (vt_submissions t ! i))"

inductive transcript_reachable :: "manifest_hash \<Rightarrow> verification_transcript_v1 \<Rightarrow> bool" for h where
  new: "transcript_reachable h (transcript_new h)"
| submission: "transcript_reachable h t \<Longrightarrow> record_submission d b t = Ok (s, t') \<Longrightarrow> transcript_reachable h t'"
| decision: "transcript_reachable h t \<Longrightarrow> record_decision s d outcome t = Ok t' \<Longrightarrow> transcript_reachable h t'"

lemma sequence_from_index_Ok_iff:
  "sequence_from_index n = Ok s \<longleftrightarrow> n < 2 ^ 64 \<and> s = IngestSequenceV1 (word_of_nat n)"
  by (auto simp: sequence_from_index_def result_inv u64_of_usize_def split: if_splits)

lemma transcript_inv_new: "transcript_inv (transcript_new h)"
  by (simp add: transcript_inv_def transcript_new_def)

lemma record_submission_inv:
  assumes "transcript_inv t" and "record_submission d b t = Ok (s, t')"
  shows "transcript_inv t'"
  using assms
  by (auto simp: transcript_inv_def record_submission_def result_inv sequence_from_index_Ok_iff
      nth_append less_Suc_eq)

lemma record_decision_Ok_iff:
  assumes "transcript_inv t"
  shows "record_decision s d outcome t = Ok t' \<longleftrightarrow>
     length (vt_decisions t) < length (vt_submissions t)
     \<and> s = sr_sequence (vt_submissions t ! length (vt_decisions t))
     \<and> d = sr_package_digest (vt_submissions t ! length (vt_decisions t))
     \<and> t' = t\<lparr>vt_decisions := vt_decisions t @
          [\<lparr>bd_sequence = s, bd_package_digest = d, bd_outcome = outcome\<rparr>]\<rparr>"
proof -
  let ?n = "length (vt_decisions t)"
  have n: "?n < length (vt_submissions t) \<Longrightarrow> unat (word_of_nat ?n :: u64) = ?n"
    using assms by (simp add: transcript_inv_def unat_of_nat take_bit_nat_eq_self)
  have seq: "?n < length (vt_submissions t) \<Longrightarrow>
      sr_sequence (vt_submissions t ! ?n) = IngestSequenceV1 (word_of_nat ?n)"
    using assms by (simp add: transcript_inv_def)
  show ?thesis
  proof (cases "?n < 2 ^ 64")
    case True
    then have u: "unat (word_of_nat ?n :: u64) = ?n"
      by (simp add: unat_of_nat take_bit_nat_eq_self)
    show ?thesis
      using True u seq
      by (cases s) (auto simp: record_decision_def result_inv sequence_from_index_def u64_of_usize_def
          usize_of_u64_def usize_max_def not_less not_le)
  next
    case False
    then show ?thesis
      using assms by (auto simp: record_decision_def result_inv sequence_from_index_Ok_iff transcript_inv_def)
  qed
qed

lemma record_decision_inv:
  assumes "transcript_inv t" and "record_decision s d outcome t = Ok t'"
  shows "transcript_inv t'"
  using assms record_decision_Ok_iff [OF assms(1), of s d outcome t']
  by (auto simp: transcript_inv_def nth_append less_Suc_eq)

lemma transcript_reachable_inv: "transcript_reachable h t \<Longrightarrow> transcript_inv t \<and> vt_manifest_hash t = h"
proof (induction rule: transcript_reachable.induct)
  case (submission t d b s t')
  then show ?case
    by (auto intro: record_submission_inv) (auto simp: record_submission_def result_inv)
next
  case (decision t s d outcome t')
  then show ?case by (auto intro: record_decision_inv simp: record_decision_Ok_iff)
qed (simp_all add: transcript_inv_new, simp add: transcript_new_def)

lemma check_pairs_Ok_iff:
  "length ss = length ds \<Longrightarrow> check_pairs ss ds = Ok () \<longleftrightarrow>
     (\<forall>i < length ds. sr_sequence (ss ! i) = bd_sequence (ds ! i)
        \<and> sr_package_digest (ss ! i) = bd_package_digest (ds ! i))"
  by (induction ss ds rule: check_pairs.induct) (auto simp: less_Suc_eq_0_disj)

text \<open>On reachable transcripts the final check fails only for undecided submissions.\<close>

lemma validate_complete_iff:
  assumes "transcript_inv t"
  shows "validate_complete t =
    (if next_undecided_submission t = None then Ok () else Err IncompleteVerificationTranscript)"
proof (cases "length (vt_submissions t) = length (vt_decisions t)")
  case True
  then have "check_pairs (vt_submissions t) (vt_decisions t) = Ok ()"
    using assms by (simp add: check_pairs_Ok_iff transcript_inv_def)
  then show ?thesis using True by (simp add: validate_complete_def next_undecided_submission_def)
next
  case False
  then show ?thesis
    using assms by (auto simp: validate_complete_def next_undecided_submission_def transcript_inv_def)
qed

text \<open>A submission followed at once by its decision, as a replay records them.\<close>

lemma record_both:
  assumes inv: "transcript_inv t" and eq: "length (vt_decisions t) = length (vt_submissions t)"
    and len: "length (vt_submissions t) < 2 ^ 64"
  shows "\<exists>s t1 t'. record_submission d b t = Ok (s, t1) \<and> record_decision s d outcome t1 = Ok t'
     \<and> transcript_inv t' \<and> length (vt_decisions t') = length (vt_submissions t')
     \<and> t' = t\<lparr>vt_submissions := vt_submissions t @ [\<lparr>sr_sequence = s, sr_package_digest = d,
              sr_received_before_close = b\<rparr>],
            vt_decisions := vt_decisions t @ [\<lparr>bd_sequence = s, bd_package_digest = d, bd_outcome = outcome\<rparr>]\<rparr>"
proof -
  obtain s t1 where sub: "record_submission d b t = Ok (s, t1)"
    and t1: "t1 = t\<lparr>vt_submissions := vt_submissions t @ [\<lparr>sr_sequence = s, sr_package_digest = d,
       sr_received_before_close = b\<rparr>]\<rparr>"
    using len by (auto simp: record_submission_def sequence_from_index_def u64_of_usize_def)
  have inv1: "transcript_inv t1" by (rule record_submission_inv [OF inv sub])
  define t' where "t' = t1\<lparr>vt_decisions := vt_decisions t1 @
      [\<lparr>bd_sequence = s, bd_package_digest = d, bd_outcome = outcome\<rparr>]\<rparr>"
  have dec: "record_decision s d outcome t1 = Ok t'"
    unfolding record_decision_Ok_iff [OF inv1] using t1 eq by (simp add: t'_def nth_append)
  show ?thesis
    using sub dec record_decision_inv [OF inv1 dec] t1 eq by (auto simp: t'_def)
qed

end
