(* ===== verification/Archive_Replay.thy ===== *)
theory Archive_Replay
  imports Replay_Transcript Ingestion Tally
begin

text \<open>
  The replay of an archive's submissions (\<open>crates/archive/src/verifier.rs\<close>, the artifacts and the
  replay session): production replay verifies the packages in batches and applies the results in
  order; the retained serial replay ingests one package at a time. Both are modelled, and shown to
  be the same function.
\<close>

type_synonym 'a code_result = "('a, rstring) result"

abbreviation code_err :: "'a presult \<Rightarrow> 'a code_result" where
  "code_err \<equiv> map_err code_as_str"

section \<open>Election artifacts\<close>

record archive_election_artifacts_v1 =
  ea_manifest :: election_manifest
  ea_registry :: registry_snapshot
  ea_candidates :: candidate_set
  ea_manifest_hash :: manifest_hash
  ea_registry_commitment :: registry_commitment

definition artifacts_from_bytes ::
  "(nat list \<Rightarrow> nat list) \<Rightarrow> (bytes \<Rightarrow> bytes32) \<Rightarrow> bytes \<Rightarrow> bytes \<Rightarrow> bytes \<Rightarrow>
   archive_election_artifacts_v1 code_result" where
  "artifacts_from_bytes nfc blake3 manifest_bytes registry_bytes candidate_bytes =
     and_then (code_err (manifest_from_canonical_cbor nfc manifest_bytes)) (\<lambda>manifest.
     and_then (code_err (registry_from_canonical_cbor registry_bytes)) (\<lambda>registry.
     and_then (code_err (candidate_set_from_canonical_cbor candidate_bytes)) (\<lambda>candidates.
     let provider = Blake3HashProviderV1 blake3 in
     and_then (code_err (registry_canonical_commitment provider registry)) (\<lambda>registry_commitment.
     if registry_commitment \<noteq> manifest_registry_commitment manifest then
       Err (lit ''GUI_REGISTRY_COMMITMENT_MISMATCH'')
     else
       and_then (code_err (candidate_set_canonical_commitment provider candidates)) (\<lambda>commitment.
       if commitment \<noteq> manifest_candidate_set_commitment manifest then
         Err (code_as_str CandidateSetCommitmentMismatch)
       else
         and_then (code_err (manifest_canonical_hash provider manifest)) (\<lambda>manifest_hash.
         and_then (code_err (production_policy_validate (manifest_proof_suite_id manifest))) (\<lambda>_.
         Ok \<lparr>ea_manifest = manifest, ea_registry = registry, ea_candidates = candidates,
             ea_manifest_hash = manifest_hash, ea_registry_commitment = registry_commitment\<rparr>)))))))"

section \<open>The replay session\<close>

record archive_replay_session_v1 =
  ss_artifacts :: archive_election_artifacts_v1
  ss_verifier :: tari_triptych_verifier_v1
  ss_lifecycle :: election_lifecycle_v1
  ss_ledger :: ballot_acceptance_ledger
  ss_transcript :: verification_transcript_v1

definition session_new ::
  "'pt curve \<Rightarrow> (bytes \<Rightarrow> bytes32) \<Rightarrow> archive_election_artifacts_v1 \<Rightarrow>
   archive_replay_session_v1 code_result" where
  "session_new curve blake3 artifacts =
     and_then (code_err (build_tari_triptych_verifier_from_registry_v1 curve (ea_registry artifacts)
       (Blake3HashProviderV1 blake3))) (\<lambda>verifier.
     and_then (code_err (freeze (ea_manifest_hash artifacts) (ea_registry_commitment artifacts)
       lifecycle_new)) (\<lambda>lifecycle.
     Ok \<lparr>ss_artifacts = artifacts, ss_verifier = verifier, ss_lifecycle = lifecycle,
         ss_ledger = ledger_new, ss_transcript = transcript_new (ea_manifest_hash artifacts)\<rparr>))"

definition session_open :: "archive_replay_session_v1 \<Rightarrow> archive_replay_session_v1 code_result" where
  "session_open s =
     and_then (code_err (open_election (ss_lifecycle s))) (\<lambda>lifecycle.
     Ok (s\<lparr>ss_lifecycle := lifecycle\<rparr>))"

definition package_digest :: "(bytes \<Rightarrow> bytes32) \<Rightarrow> bytes \<Rightarrow> ballot_package_digest_v1" where
  "package_digest blake3 package_bytes =
     BallotPackageDigestV1 (hash_domain_separated (Blake3HashProviderV1 blake3) BallotPackageV1 package_bytes)"

definition apply_verified ::
  "(bytes \<Rightarrow> bytes32) \<Rightarrow> bytes \<Rightarrow> verified_approval_ballot_v1 presult \<Rightarrow>
   archive_replay_session_v1 \<Rightarrow> archive_replay_session_v1 code_result" where
  "apply_verified blake3 package_bytes verification s =
     (let digest = package_digest blake3 package_bytes in
      and_then (code_err (record_submission digest True (ss_transcript s))) (\<lambda>(sequence, transcript).
      let (outcome, ledger) =
        (case verification of
           Ok ballot \<Rightarrow>
             (case accept_verified (ss_lifecycle s) ballot (ss_ledger s) of
                Ok ledger \<Rightarrow> (Accepted, ledger)
              | Err code \<Rightarrow> (Rejected code, ss_ledger s))
         | Err code \<Rightarrow> (Rejected code, ss_ledger s)) in
      and_then (code_err (record_decision sequence digest outcome transcript)) (\<lambda>transcript.
      Ok (s\<lparr>ss_ledger := ledger, ss_transcript := transcript\<rparr>))))"

fun apply_all ::
  "(bytes \<Rightarrow> bytes32) \<Rightarrow> (bytes \<times> verified_approval_ballot_v1 presult) list \<Rightarrow>
   archive_replay_session_v1 \<Rightarrow> archive_replay_session_v1 code_result" where
  "apply_all blake3 [] s = Ok s"
| "apply_all blake3 ((package_bytes, verification) # rest) s =
     and_then (apply_verified blake3 package_bytes verification s) (apply_all blake3 rest)"

definition ARCHIVE_REPLAY_BATCH_SIZE_V1 :: nat where
  "ARCHIVE_REPLAY_BATCH_SIZE_V1 = 16"

definition replay_batched ::
  "('q, 'pt, 'pp, 'is, 'ts, 'pf, 'tr) triptych_lib \<Rightarrow> (bytes \<Rightarrow> bytes32) \<Rightarrow> bytes list \<Rightarrow>
   archive_replay_session_v1 \<Rightarrow> archive_replay_session_v1 code_result" where
  "replay_batched L blake3 packages s =
     (let results = concat (map (\<lambda>chunk. verify_approval_ballot_packages_batch_v1 chunk
            (ea_manifest (ss_artifacts s)) (ea_candidates (ss_artifacts s))
            (Blake3HashProviderV1 blake3) (TariTriptychPrototypeVerifierV1 L (ss_verifier s)))
          (chunks ARCHIVE_REPLAY_BATCH_SIZE_V1 packages)) in
      if length results \<noteq> length packages then Err (code_as_str InvalidData)
      else apply_all blake3 (zip packages results) s)"

definition intake_ballot ::
  "('q, 'pt, 'pp, 'is, 'ts, 'pf, 'tr) triptych_lib \<Rightarrow> (bytes \<Rightarrow> bytes32) \<Rightarrow> bytes \<Rightarrow>
   archive_replay_session_v1 \<Rightarrow> archive_replay_session_v1 code_result" where
  "intake_ballot L blake3 package_bytes s =
     (let digest = package_digest blake3 package_bytes in
      and_then (code_err (record_submission digest True (ss_transcript s))) (\<lambda>(sequence, transcript).
      let (outcome, ledger) =
        (case ingest_approval_ballot_package_v1 package_bytes (ea_manifest (ss_artifacts s))
                (ea_candidates (ss_artifacts s)) (ss_lifecycle s) (Blake3HashProviderV1 blake3)
                (TariTriptychPrototypeVerifierV1 L (ss_verifier s)) (ss_ledger s) of
           Ok ledger \<Rightarrow> (Accepted, ledger)
         | Err code \<Rightarrow> (Rejected code, ss_ledger s)) in
      and_then (code_err (record_decision sequence digest outcome transcript)) (\<lambda>transcript.
      Ok (s\<lparr>ss_ledger := ledger, ss_transcript := transcript\<rparr>))))"

fun replay_serial_for_test ::
  "('q, 'pt, 'pp, 'is, 'ts, 'pf, 'tr) triptych_lib \<Rightarrow> (bytes \<Rightarrow> bytes32) \<Rightarrow> bytes list \<Rightarrow>
   archive_replay_session_v1 \<Rightarrow> archive_replay_session_v1 code_result" where
  "replay_serial_for_test L blake3 [] s = Ok s"
| "replay_serial_for_test L blake3 (package_bytes # packages) s =
     and_then (intake_ballot L blake3 package_bytes s) (replay_serial_for_test L blake3 packages)"

definition direct_tally :: "archive_replay_session_v1 \<Rightarrow> approval_tally code_result" where
  "direct_tally s =
     code_err (tally_from_ballots (ea_candidates (ss_artifacts s))
       (map ab_payload (bl_accepted_ballots (ss_ledger s))))"

section \<open>Batched replay is serial replay\<close>

text \<open>The verdict on one package, as both replays see it.\<close>

definition session_verdict ::
  "('q, 'pt, 'pp, 'is, 'ts, 'pf, 'tr) triptych_lib \<Rightarrow> (bytes \<Rightarrow> bytes32) \<Rightarrow>
   archive_replay_session_v1 \<Rightarrow> bytes \<Rightarrow> verified_approval_ballot_v1 presult" where
  "session_verdict L blake3 s package_bytes =
     verify_package (ea_manifest (ss_artifacts s)) (ea_candidates (ss_artifacts s))
       (Blake3HashProviderV1 blake3) (TariTriptychPrototypeVerifierV1 L (ss_verifier s)) package_bytes"

lemma intake_ballot_apply:
  "intake_ballot L blake3 bs s = apply_verified blake3 bs (session_verdict L blake3 s bs) s"
  by (cases "session_verdict L blake3 s bs")
    (auto simp: intake_ballot_def apply_verified_def ingest_verify_package session_verdict_def Let_def
      split: prod.splits result.splits intro!: arg_cong2 [where f = and_then])

lemma apply_verified_frame:
  assumes "apply_verified blake3 bs v s = Ok s'"
  shows "ss_artifacts s' = ss_artifacts s \<and> ss_verifier s' = ss_verifier s \<and> ss_lifecycle s' = ss_lifecycle s"
  using assms by (auto simp: apply_verified_def Let_def result_inv case_prod_beta)

lemma session_verdict_frame:
  "ss_artifacts s' = ss_artifacts s \<Longrightarrow> ss_verifier s' = ss_verifier s \<Longrightarrow>
     session_verdict L blake3 s' = session_verdict L blake3 s"
  by (simp add: session_verdict_def fun_eq_iff)

lemma apply_all_serial:
  assumes "\<And>bs. f bs = session_verdict L blake3 s bs"
  shows "apply_all blake3 (map (\<lambda>bs. (bs, f bs)) packages) s = replay_serial_for_test L blake3 packages s"
  using assms
proof (induction packages arbitrary: s)
  case (Cons bs packages)
  show ?case
  proof (cases "apply_verified blake3 bs (f bs) s")
    case (Ok s')
    have "f bs' = session_verdict L blake3 s' bs'" for bs'
      using Cons.prems session_verdict_frame apply_verified_frame [OF Ok] by metis
    then show ?thesis using Cons Ok by (simp add: intake_ballot_apply)
  qed (use Cons.prems in \<open>simp add: intake_ballot_apply\<close>)
qed simp

lemma replay_batched_serial:
  assumes "triptych_batch_sound L"
  shows "replay_batched L blake3 packages s = replay_serial_for_test L blake3 packages s"
proof -
  note batch = batch_proof_verifier.batch_packages_individual [OF triptych_contract [OF assms]]
  have "concat (map (\<lambda>chunk. map (session_verdict L blake3 s) chunk) (chunks ARCHIVE_REPLAY_BATCH_SIZE_V1 packages))
      = map (session_verdict L blake3 s) packages"
    using concat_chunks [of ARCHIVE_REPLAY_BATCH_SIZE_V1 packages]
    by (simp add: ARCHIVE_REPLAY_BATCH_SIZE_V1_def flip: map_concat)
  then show ?thesis
    using apply_all_serial [of "session_verdict L blake3 s" L blake3 s packages]
    by (simp add: replay_batched_def batch session_verdict_def [abs_def] Let_def zip_map2 zip_same_conv_map comp_def)
qed


section \<open>What a replay leaves behind\<close>

text \<open>
  A session in the middle of a replay: the lifecycle is the frozen and opened one, the ledger is
  one that ingestion can build, every submission so far is decided, and the accepted decisions are
  as many as the ledger's ballots.
\<close>

definition session_inv ::
  "('q, 'pt, 'pp, 'is, 'ts, 'pf, 'tr) triptych_lib \<Rightarrow> (bytes \<Rightarrow> bytes32) \<Rightarrow> archive_replay_session_v1 \<Rightarrow> bool" where
  "session_inv L blake3 s \<longleftrightarrow>
     ledger_reachable (ea_manifest (ss_artifacts s)) (ea_candidates (ss_artifacts s))
       (Blake3HashProviderV1 blake3) (TariTriptychPrototypeVerifierV1 L (ss_verifier s)) (ss_ledger s)
     \<and> transcript_inv (ss_transcript s)
     \<and> length (vt_decisions (ss_transcript s)) = length (vt_submissions (ss_transcript s))
     \<and> accepted_count (ss_transcript s) = length (bl_accepted_ballots (ss_ledger s))"

lemma session_inv_new:
  assumes "session_new c blake3 a = Ok s"
  shows "session_inv L blake3 s"
proof -
  have "accepted_count (transcript_new h) = length (bl_accepted_ballots ledger_new)"
    "length (vt_decisions (transcript_new h)) = length (vt_submissions (transcript_new h))" for h
    by (simp_all add: accepted_count_def transcript_new_def ledger_new_def)
  then show ?thesis
    using assms transcript_inv_new by (auto simp: session_new_def result_inv session_inv_def ledger_start)
qed

lemma session_inv_open: "session_open s = Ok s' \<Longrightarrow> session_inv L blake3 s \<Longrightarrow> session_inv L blake3 s'"
  by (auto simp: session_open_def result_inv session_inv_def)

lemma accepted_count_snoc:
  "accepted_count (t\<lparr>vt_submissions := ss, vt_decisions := ds @ [d]\<rparr>) =
     length (filter (\<lambda>d. is_accepted (bd_outcome d)) ds) + (if is_accepted (bd_outcome d) then 1 else 0)"
  by (simp add: accepted_count_def)

text \<open>One step of the replay always succeeds, short of 2 to the 64 submissions.\<close>

lemma intake_ballot_total:
  assumes inv: "session_inv L blake3 s" and len: "length (vt_submissions (ss_transcript s)) < 2 ^ 64"
  shows "\<exists>s'. intake_ballot L blake3 bs s = Ok s' \<and> session_inv L blake3 s'
    \<and> map sr_package_digest (vt_submissions (ss_transcript s')) =
        map sr_package_digest (vt_submissions (ss_transcript s)) @ [package_digest blake3 bs]
    \<and> ss_artifacts s' = ss_artifacts s \<and> ss_verifier s' = ss_verifier s \<and> ss_lifecycle s' = ss_lifecycle s"
proof -
  let ?d = "package_digest blake3 bs" and ?t = "ss_transcript s"
  let ?ing = "ingest_approval_ballot_package_v1 bs (ea_manifest (ss_artifacts s))
    (ea_candidates (ss_artifacts s)) (ss_lifecycle s) (Blake3HashProviderV1 blake3)
    (TariTriptychPrototypeVerifierV1 L (ss_verifier s)) (ss_ledger s)"
  define outcome where "outcome = (case ?ing of Ok _ \<Rightarrow> Accepted | Err code \<Rightarrow> Rejected code)"
  define ledger where "ledger = (case ?ing of Ok l \<Rightarrow> l | Err _ \<Rightarrow> ss_ledger s)"
  from inv len record_both [of ?t ?d True outcome] obtain q t1 t' where
    sub: "record_submission ?d True ?t = Ok (q, t1)" and dec: "record_decision q ?d outcome t1 = Ok t'"
    and t': "transcript_inv t'" "length (vt_decisions t') = length (vt_submissions t')"
    and eq: "t' = ?t\<lparr>vt_submissions := vt_submissions ?t @ [\<lparr>sr_sequence = q, sr_package_digest = ?d,
              sr_received_before_close = True\<rparr>],
            vt_decisions := vt_decisions ?t @ [\<lparr>bd_sequence = q, bd_package_digest = ?d, bd_outcome = outcome\<rparr>]\<rparr>"
    unfolding session_inv_def by blast
  have "intake_ballot L blake3 bs s = Ok (s\<lparr>ss_ledger := ledger, ss_transcript := t'\<rparr>)"
    using sub dec by (cases ?ing) (simp_all add: intake_ballot_def outcome_def ledger_def)
  moreover have "ledger_reachable (ea_manifest (ss_artifacts s)) (ea_candidates (ss_artifacts s))
       (Blake3HashProviderV1 blake3) (TariTriptychPrototypeVerifierV1 L (ss_verifier s)) ledger"
    using inv by (cases ?ing) (auto simp: ledger_def session_inv_def intro: ledger_ingest)
  moreover have "accepted_count t' = length (bl_accepted_ballots ledger)"
  proof (cases ?ing)
    case (Ok l)
    from triptych.ingest_Ok [OF Ok] show ?thesis
      using inv Ok eq by (auto simp: outcome_def ledger_def accept_verified_Ok_iff accepted_count_def session_inv_def)
  qed (use inv eq in \<open>auto simp: outcome_def ledger_def accepted_count_def session_inv_def\<close>)
  ultimately show ?thesis using t' eq by (simp add: session_inv_def)
qed

lemma replay_serial_total:
  assumes "session_inv L blake3 s" and "length (vt_submissions (ss_transcript s)) + length packages \<le> 2 ^ 64"
  shows "\<exists>s'. replay_serial_for_test L blake3 packages s = Ok s' \<and> session_inv L blake3 s'
    \<and> map sr_package_digest (vt_submissions (ss_transcript s')) =
        map sr_package_digest (vt_submissions (ss_transcript s)) @ map (package_digest blake3) packages
    \<and> ss_artifacts s' = ss_artifacts s \<and> ss_verifier s' = ss_verifier s \<and> ss_lifecycle s' = ss_lifecycle s"
  using assms
proof (induction packages arbitrary: s)
  case (Cons bs packages)
  from intake_ballot_total [OF Cons.prems(1), of bs] Cons.prems(2) obtain s1 where
    s1: "intake_ballot L blake3 bs s = Ok s1" "session_inv L blake3 s1"
    and sub: "map sr_package_digest (vt_submissions (ss_transcript s1)) =
        map sr_package_digest (vt_submissions (ss_transcript s)) @ [package_digest blake3 bs]"
    and fr: "ss_artifacts s1 = ss_artifacts s" "ss_verifier s1 = ss_verifier s" "ss_lifecycle s1 = ss_lifecycle s"
    by auto
  have "length (vt_submissions (ss_transcript s1)) = Suc (length (vt_submissions (ss_transcript s)))"
    using arg_cong [OF sub, of length] by simp
  with Cons.IH [OF s1(2)] Cons.prems(2) obtain s' where
    "replay_serial_for_test L blake3 packages s1 = Ok s'" "session_inv L blake3 s'"
    "map sr_package_digest (vt_submissions (ss_transcript s')) =
        map sr_package_digest (vt_submissions (ss_transcript s1)) @ map (package_digest blake3) packages"
    "ss_artifacts s' = ss_artifacts s1" "ss_verifier s' = ss_verifier s1" "ss_lifecycle s' = ss_lifecycle s1"
    by auto
  with s1 sub fr show ?case by auto
qed simp

text \<open>The invariant keeps through any successful replay, whatever its length.\<close>

lemma replay_serial_inv:
  assumes "session_inv L blake3 s" and "replay_serial_for_test L blake3 packages s = Ok s'"
  shows "session_inv L blake3 s' \<and> ss_artifacts s' = ss_artifacts s \<and> ss_verifier s' = ss_verifier s
    \<and> length (vt_decisions (ss_transcript s')) = length (vt_decisions (ss_transcript s)) + length packages"
  using assms
proof (induction packages arbitrary: s)
  case (Cons bs packages)
  then obtain s1 where s1: "intake_ballot L blake3 bs s = Ok s1"
    and rest: "replay_serial_for_test L blake3 packages s1 = Ok s'" by (auto simp: result_inv)
  have lt: "length (vt_submissions (ss_transcript s)) < 2 ^ 64"
    using s1 by (auto simp: intake_ballot_def record_submission_def sequence_from_index_Ok_iff result_inv Let_def)
  from intake_ballot_total [OF Cons.prems(1) lt, of bs] s1 have
    inv1: "session_inv L blake3 s1" and fr: "ss_artifacts s1 = ss_artifacts s" "ss_verifier s1 = ss_verifier s"
    and sub: "map sr_package_digest (vt_submissions (ss_transcript s1)) =
        map sr_package_digest (vt_submissions (ss_transcript s)) @ [package_digest blake3 bs]"
    by auto
  have "length (vt_decisions (ss_transcript s1)) = Suc (length (vt_decisions (ss_transcript s)))"
    using inv1 Cons.prems(1) arg_cong [OF sub, of length] by (simp add: session_inv_def)
  with Cons.IH [OF inv1 rest] fr show ?case by simp
qed simp

end
