(* ===== verification/Transport_Binding.thy ===== *)
theory Transport_Binding
  imports Election_Manifest
begin

text \<open>
  The public binding of the sealed transport batches into an archive
  (\<open>crates/archive/src/transport_binding.rs\<close>). The code always hashes with BLAKE3; the model takes
  the BLAKE3 function as the argument \<open>blake3\<close>.
\<close>

definition TRANSPORT_ARCHIVE_BINDING_PATH_V1 :: rstring where
  "TRANSPORT_ARCHIVE_BINDING_PATH_V1 = lit ''transport/archive-binding-v1.cbor''"

definition TRANSPORT_ARCHIVE_BINDING_TYPE_ID_V1 :: rstring where
  "TRANSPORT_ARCHIVE_BINDING_TYPE_ID_V1 = lit ''TARI_CC_PRIVATE_BALLOT_TRANSPORT_ARCHIVE_BINDING_V1''"

definition TRANSPORT_BATCH_SET_ALGORITHM_ID_V1 :: rstring where
  "TRANSPORT_BATCH_SET_ALGORITHM_ID_V1 = lit ''TARI_CC_PRIVATE_BALLOT_TRANSPORT_BATCH_SET_V1''"

definition TB_VERSION :: u64 where "TB_VERSION = 1"
definition TB_FIELD_COUNT :: nat where "TB_FIELD_COUNT = 9"
definition TB_BATCH_FIELD_COUNT :: nat where "TB_BATCH_FIELD_COUNT = 4"
definition TB_MAX_BATCHES :: nat where "TB_MAX_BATCHES = 4096"

lemmas transport_consts =
  TB_VERSION_def TB_FIELD_COUNT_def TB_BATCH_FIELD_COUNT_def TB_MAX_BATCHES_def

record transport_archive_batch_v1 =
  ba_batch_id :: u64
  ba_root :: bytes32
  ba_accepted_unique_count :: u64
  ba_reduced_anonymity :: bool

record transport_archive_binding_v1 =
  tb_election_id :: bytes
  tb_manifest_hash :: manifest_hash
  tb_descriptor_fingerprint :: bytes32
  tb_descriptor_generation :: u64
  tb_batches :: "transport_archive_batch_v1 list"
  tb_final_batch_set_commitment :: bytes32

definition batch_set_commitment ::
  "(bytes \<Rightarrow> bytes32) \<Rightarrow> transport_archive_batch_v1 list \<Rightarrow> bytes32" where
  "batch_set_commitment blake3 batches =
     (let roots = sort (map ba_root batches) in
      hash_domain_separated (Blake3HashProviderV1 blake3) TransportBatchSetV1
        (concat (map arr_bytes roots)))"

definition TransportArchiveBindingV1_new ::
  "(bytes \<Rightarrow> bytes32) \<Rightarrow> bytes \<Rightarrow> manifest_hash \<Rightarrow> bytes32 \<Rightarrow> u64 \<Rightarrow>
   transport_archive_batch_v1 list \<Rightarrow> transport_archive_binding_v1 presult" where
  "TransportArchiveBindingV1_new blake3 election_id manifest_hash fingerprint generation batches =
     (if election_id = [] \<or> length election_id > 128 then Err InvalidData
      else if batches = [] \<or> length batches > TB_MAX_BATCHES then Err InvalidData
      else
        let batches = sort_key ba_batch_id batches in
        if windows2_any (\<lambda>a b. ba_batch_id a = ba_batch_id b) batches then Err InvalidData
        else Ok \<lparr>tb_election_id = election_id, tb_manifest_hash = manifest_hash,
                 tb_descriptor_fingerprint = fingerprint, tb_descriptor_generation = generation,
                 tb_batches = batches,
                 tb_final_batch_set_commitment = batch_set_commitment blake3 batches\<rparr>)"

definition verify_commitment ::
  "(bytes \<Rightarrow> bytes32) \<Rightarrow> transport_archive_binding_v1 \<Rightarrow> unit presult" where
  "verify_commitment blake3 b =
     and_then (TransportArchiveBindingV1_new blake3 (tb_election_id b) (tb_manifest_hash b)
       (tb_descriptor_fingerprint b) (tb_descriptor_generation b) (tb_batches b)) (\<lambda>rebuilt.
     if tb_batches rebuilt \<noteq> tb_batches b
        \<or> tb_final_batch_set_commitment rebuilt \<noteq> tb_final_batch_set_commitment b
     then Err InvalidData else Ok ())"

definition write_batch :: "transport_archive_batch_v1 \<Rightarrow> cbor_writer \<Rightarrow> cbor_writer presult" where
  "write_batch b w =
     and_then (write_array_len TB_BATCH_FIELD_COUNT w) (\<lambda>w.
     let w = write_unsigned (ba_batch_id b) w in
     and_then (write_byte_string (arr_bytes (ba_root b)) w) (\<lambda>w.
     let w = write_unsigned (ba_accepted_unique_count b) w in
     Ok (write_bool (ba_reduced_anonymity b) w)))"

definition binding_to_canonical_cbor ::
  "(bytes \<Rightarrow> bytes32) \<Rightarrow> transport_archive_binding_v1 \<Rightarrow> bytes presult" where
  "binding_to_canonical_cbor blake3 b =
     and_then (verify_commitment blake3 b) (\<lambda>_.
     and_then (write_array_len TB_FIELD_COUNT new_writer) (\<lambda>w.
     let w = write_unsigned TB_VERSION w in
     and_then (write_text_string TRANSPORT_ARCHIVE_BINDING_TYPE_ID_V1 w) (\<lambda>w.
     and_then (write_byte_string (tb_election_id b) w) (\<lambda>w.
     and_then (write_byte_string (arr_bytes (manifest_hash_bytes (tb_manifest_hash b))) w) (\<lambda>w.
     and_then (write_byte_string (arr_bytes (tb_descriptor_fingerprint b)) w) (\<lambda>w.
     let w = write_unsigned (tb_descriptor_generation b) w in
     and_then (write_text_string TRANSPORT_BATCH_SET_ALGORITHM_ID_V1 w) (\<lambda>w.
     and_then (write_array_len (length (tb_batches b)) w) (\<lambda>w.
     and_then (write_all write_batch (tb_batches b) w) (\<lambda>w.
     and_then (write_byte_string (arr_bytes (tb_final_batch_set_commitment b)) w) (\<lambda>w.
     let bytes = into_bytes w in
     if length bytes > MAX_CANONICAL_OBJECT_BYTES then Err ProtocolLimitExceeded
     else Ok bytes))))))))))"

definition read_fixed :: "cbor_reader \<Rightarrow> bytes32 read" where
  "read_fixed r =
     and_then (read_byte_string r) (\<lambda>(bs, r).
     and_then (ok_or InvalidData (array32 bs)) (\<lambda>a. Ok (a, r)))"

definition read_batch :: "cbor_reader \<Rightarrow> transport_archive_batch_v1 read" where
  "read_batch r =
     and_then (read_array_len r) (\<lambda>(n, r).
     if n \<noteq> TB_BATCH_FIELD_COUNT then Err InvalidData
     else
       and_then (read_unsigned r) (\<lambda>(batch_id, r).
       and_then (read_fixed r) (\<lambda>(root, r).
       and_then (read_unsigned r) (\<lambda>(accepted_unique_count, r).
       and_then (read_bool r) (\<lambda>(reduced_anonymity, r).
       Ok (\<lparr>ba_batch_id = batch_id, ba_root = root,
            ba_accepted_unique_count = accepted_unique_count,
            ba_reduced_anonymity = reduced_anonymity\<rparr>, r))))))"

definition read_binding_header :: "cbor_reader \<Rightarrow> unit read" where
  "read_binding_header r =
     and_then (read_array_len r) (\<lambda>(n, r).
     if n \<noteq> TB_FIELD_COUNT then Err InvalidData
     else
       and_then (read_unsigned r) (\<lambda>(version, r).
       if version \<noteq> TB_VERSION then Err InvalidData
       else
         and_then (read_text_string r) (\<lambda>(type_id, r).
         if type_id \<noteq> TRANSPORT_ARCHIVE_BINDING_TYPE_ID_V1 then Err InvalidData
         else Ok ((), r))))"

definition binding_from_canonical_cbor ::
  "(bytes \<Rightarrow> bytes32) \<Rightarrow> bytes \<Rightarrow> transport_archive_binding_v1 presult" where
  "binding_from_canonical_cbor blake3 bytes =
     (if length bytes > MAX_CANONICAL_OBJECT_BYTES then Err ProtocolLimitExceeded
      else
        and_then (read_binding_header (new_reader bytes)) (\<lambda>(_, r).
        and_then (read_byte_string r) (\<lambda>(election_id, r).
        and_then (read_fixed r) (\<lambda>(manifest_hash, r).
        and_then (read_fixed r) (\<lambda>(fingerprint, r).
        and_then (read_unsigned r) (\<lambda>(generation, r).
        and_then (read_text_string r) (\<lambda>(algorithm, r).
        if algorithm \<noteq> TRANSPORT_BATCH_SET_ALGORITHM_ID_V1 then Err InvalidData
        else
          and_then (read_array_len r) (\<lambda>(count, r).
          if count = 0 \<or> count > TB_MAX_BATCHES then Err InvalidData
          else
            and_then (read_many read_batch count r) (\<lambda>(batches, r).
            and_then (read_fixed r) (\<lambda>(commitment, r).
            and_then (finish r) (\<lambda>_.
            and_then (TransportArchiveBindingV1_new blake3 election_id (ManifestHash manifest_hash)
              fingerprint generation batches) (\<lambda>binding.
            if tb_final_batch_set_commitment binding \<noteq> commitment then Err NonCanonicalCbor
            else
              and_then (binding_to_canonical_cbor blake3 binding) (\<lambda>reencoded.
              if reencoded \<noteq> bytes then Err NonCanonicalCbor
              else Ok binding)))))))))))))"

section \<open>Well-formed bindings\<close>

definition wf_binding :: "(bytes \<Rightarrow> bytes32) \<Rightarrow> transport_archive_binding_v1 \<Rightarrow> bool" where
  "wf_binding blake3 b \<longleftrightarrow>
     tb_election_id b \<noteq> [] \<and> length (tb_election_id b) \<le> 128
     \<and> tb_batches b \<noteq> [] \<and> length (tb_batches b) \<le> TB_MAX_BATCHES
     \<and> sorted_wrt (<) (map ba_batch_id (tb_batches b))
     \<and> tb_final_batch_set_commitment b = batch_set_commitment blake3 (tb_batches b)"

lemma TransportArchiveBindingV1_new_Ok_iff:
  "TransportArchiveBindingV1_new blake3 eid mh fp gen bs = Ok b \<longleftrightarrow>
     eid \<noteq> [] \<and> length eid \<le> 128 \<and> bs \<noteq> [] \<and> length bs \<le> TB_MAX_BATCHES
     \<and> distinct (map ba_batch_id bs)
     \<and> b = \<lparr>tb_election_id = eid, tb_manifest_hash = mh, tb_descriptor_fingerprint = fp,
            tb_descriptor_generation = gen, tb_batches = sort_key ba_batch_id bs,
            tb_final_batch_set_commitment = batch_set_commitment blake3 (sort_key ba_batch_id bs)\<rparr>"
proof -
  have "windows2_any (\<lambda>a b. ba_batch_id a = ba_batch_id b) (sort_key ba_batch_id bs)
      \<longleftrightarrow> \<not> distinct (map ba_batch_id bs)"
    unfolding windows2_any_map [of "(=)" ba_batch_id]
    by (simp add: windows2_any_eq_iff) (metis mset_eq_imp_distinct_iff mset_map mset_sort)
  then show ?thesis by (auto simp: TransportArchiveBindingV1_new_def Let_def)
qed

lemma binding_new_wf:
  assumes "TransportArchiveBindingV1_new blake3 eid mh fp gen bs = Ok b"
  shows "wf_binding blake3 b"
proof -
  have "distinct (map ba_batch_id (sort_key ba_batch_id bs))" if "distinct (map ba_batch_id bs)"
    using that by (metis mset_eq_imp_distinct_iff mset_map mset_sort)
  then show ?thesis
    using assms by (auto simp: TransportArchiveBindingV1_new_Ok_iff wf_binding_def strictly_sorted_iff)
qed

lemma binding_new_rebuild:
  assumes "wf_binding blake3 b"
  shows "TransportArchiveBindingV1_new blake3 (tb_election_id b) (tb_manifest_hash b)
       (tb_descriptor_fingerprint b) (tb_descriptor_generation b) (tb_batches b) = Ok b"
  using assms
  by (simp add: TransportArchiveBindingV1_new_Ok_iff wf_binding_def strictly_sorted_iff sort_key_sorted_id)

section \<open>The codec\<close>

interpretation fixed_c: cbor_codec read_fixed "\<lambda>a. enc_bytes (arr_bytes a)" "\<lambda>_. True"
  unfolding read_fixed_def [abs_def]
  by (rule bytes_c.codec_validated [where proj = arr_bytes and valid = "\<lambda>_. True"])
    (auto simp: result_inv array32_Some_iff)

definition batch_enc :: "transport_archive_batch_v1 \<Rightarrow> bytes" where
  "batch_enc b = enc_len MAJOR_ARRAY TB_BATCH_FIELD_COUNT @ enc_unsigned (ba_batch_id b)
     @ enc_bytes (arr_bytes (ba_root b)) @ enc_unsigned (ba_accepted_unique_count b)
     @ enc_bool (ba_reduced_anonymity b)"

lemma transport_counts_ok [simp]: "len_ok TB_FIELD_COUNT" "len_ok TB_BATCH_FIELD_COUNT"
  by (simp_all add: transport_consts)

interpretation batch_c: cbor_codec read_batch batch_enc "\<lambda>_. True"
proof unfold_locales
  fix b :: transport_archive_batch_v1 and pre rest
  assume "fits (pre @ batch_enc b @ rest)"
  then show "read_batch (rd pre (batch_enc b @ rest)) = Ok (b, rd (pre @ batch_enc b) rest)"
    by (simp add: read_batch_def batch_enc_def array_c.read_enc unsigned_c.read_enc fixed_c.read_enc
        bool_c.read_enc)
next
  fix pre bs b r
  assume "read_batch (rd pre bs) = Ok (b, r)"
  then show "True \<and> (\<exists>rest. bs = batch_enc b @ rest \<and> r = rd (pre @ batch_enc b) rest)"
    by (auto simp: read_batch_def result_inv batch_enc_def dest!: array_c.enc_read unsigned_c.enc_read
        fixed_c.enc_read bool_c.enc_read split: if_splits)
qed

definition binding_header_enc :: bytes where
  "binding_header_enc = enc_len MAJOR_ARRAY TB_FIELD_COUNT @ enc_unsigned TB_VERSION
     @ enc_text TRANSPORT_ARCHIVE_BINDING_TYPE_ID_V1"

lemma transport_texts [simp]:
  "utf8_valid TRANSPORT_ARCHIVE_BINDING_TYPE_ID_V1" "length TRANSPORT_ARCHIVE_BINDING_TYPE_ID_V1 = 51"
  "utf8_valid TRANSPORT_BATCH_SET_ALGORITHM_ID_V1" "length TRANSPORT_BATCH_SET_ALGORITHM_ID_V1 = 45"
  by (simp_all add: TRANSPORT_ARCHIVE_BINDING_TYPE_ID_V1_def TRANSPORT_BATCH_SET_ALGORITHM_ID_V1_def
      lit_def utf8_valid_ascii)

lemma read_binding_header_enc:
  "fits (pre @ binding_header_enc @ rest) \<Longrightarrow>
     read_binding_header (rd pre (binding_header_enc @ rest)) = Ok ((), rd (pre @ binding_header_enc) rest)"
  by (simp add: read_binding_header_def binding_header_enc_def array_c.read_enc unsigned_c.read_enc
      text_c.read_enc)

definition binding_enc :: "transport_archive_binding_v1 \<Rightarrow> bytes" where
  "binding_enc b = binding_header_enc @ enc_bytes (tb_election_id b)
     @ enc_bytes (arr_bytes (manifest_hash_bytes (tb_manifest_hash b)))
     @ enc_bytes (arr_bytes (tb_descriptor_fingerprint b))
     @ enc_unsigned (tb_descriptor_generation b)
     @ enc_text TRANSPORT_BATCH_SET_ALGORITHM_ID_V1
     @ enc_len MAJOR_ARRAY (length (tb_batches b)) @ concat (map batch_enc (tb_batches b))
     @ enc_bytes (arr_bytes (tb_final_batch_set_commitment b))"

lemma wf_binding_len_ok:
  "wf_binding blake3 b \<Longrightarrow> len_ok (length (tb_election_id b)) \<and> len_ok (length (tb_batches b))"
  by (auto simp: wf_binding_def transport_consts len_ok_def)

lemma length_batch_enc: "length (batch_enc b) \<le> 57"
  using length_enc_len [of 4 MAJOR_ARRAY] length_enc_unsigned [of "ba_batch_id b"]
    length_enc_unsigned [of "ba_accepted_unique_count b"] length_enc_bytes [of "arr_bytes (ba_root b)"]
  by (simp add: batch_enc_def transport_consts enc_bool_def)

text \<open>The limits on a binding keep it far below the object limit, so a valid one always encodes.\<close>

lemma length_binding_enc:
  assumes "wf_binding blake3 b"
  shows "length (binding_enc b) \<le> MAX_CANONICAL_OBJECT_BYTES"
proof -
  have "length (concat (map batch_enc (tb_batches b))) \<le> 4096 * 57"
    using length_concat_map_le [of "tb_batches b" batch_enc 57] length_batch_enc assms
    by (auto simp: wf_binding_def transport_consts)
  then show ?thesis
    using assms length_enc_len [of 9 MAJOR_ARRAY] length_enc_unsigned [of 1]
      length_enc_text [of TRANSPORT_ARCHIVE_BINDING_TYPE_ID_V1]
      length_enc_text [of TRANSPORT_BATCH_SET_ALGORITHM_ID_V1]
      length_enc_bytes [of "tb_election_id b"] length_enc_bytes [of "arr_bytes (tb_descriptor_fingerprint b)"]
      length_enc_bytes [of "arr_bytes (manifest_hash_bytes (tb_manifest_hash b))"]
      length_enc_bytes [of "arr_bytes (tb_final_batch_set_commitment b)"]
      length_enc_unsigned [of "tb_descriptor_generation b"]
      length_enc_len [of "length (tb_batches b)" MAJOR_ARRAY]
    by (simp add: binding_enc_def binding_header_enc_def wf_binding_def transport_consts limits_def)
qed

lemma write_batch_append: "write_batch b \<lparr>w_output = out\<rparr> = Ok \<lparr>w_output = out @ batch_enc b\<rparr>"
  by (simp add: write_batch_def batch_enc_def)

lemma binding_to_canonical_cbor_eq:
  assumes "wf_binding blake3 b"
  shows "binding_to_canonical_cbor blake3 b = Ok (binding_enc b)"
proof -
  have "write_all write_batch (tb_batches b) \<lparr>w_output = out\<rparr>
      = Ok \<lparr>w_output = out @ concat (map batch_enc (tb_batches b))\<rparr>" for out
    by (intro write_all_append) (simp add: write_batch_append)
  moreover have "verify_commitment blake3 b = Ok ()"
    using assms by (simp add: verify_commitment_def binding_new_rebuild)
  ultimately show ?thesis
    using wf_binding_len_ok [OF assms] length_binding_enc [OF assms]
    by (simp add: binding_to_canonical_cbor_def binding_enc_def binding_header_enc_def)
qed

lemma binding_decode_enc:
  assumes wf: "wf_binding blake3 b"
  shows "binding_from_canonical_cbor blake3 (binding_enc b) = Ok b"
proof -
  have fit: "fits (binding_enc b)"
    using length_binding_enc [OF wf] by (simp add: fits_def limits_def usize_max_def)
  have n: "tb_batches b \<noteq> []" "length (tb_batches b) \<le> TB_MAX_BATCHES"
    using wf by (simp_all add: wf_binding_def)
  have many: "read_many read_batch (length (tb_batches b))
      (rd pre (concat (map batch_enc (tb_batches b)) @ rest))
    = Ok (tb_batches b, rd (pre @ concat (map batch_enc (tb_batches b))) rest)"
    if "fits (pre @ concat (map batch_enc (tb_batches b)) @ rest)" for pre rest
    using batch_c.read_many_enc [of "tb_batches b" pre rest] that by (simp add: list_all_iff)
  show ?thesis
    using fit n wf_binding_len_ok [OF wf] length_binding_enc [OF wf]
    unfolding binding_from_canonical_cbor_def
    by (simp add: new_reader_rd binding_enc_def read_binding_header_enc [of "[]", simplified]
        bytes_c.read_enc fixed_c.read_enc fixed_c.read_enc_end unsigned_c.read_enc text_c.read_enc
        array_c.read_enc many binding_new_rebuild [OF wf] binding_to_canonical_cbor_eq [OF wf])
qed

lemma binding_decode_Ok:
  assumes "binding_from_canonical_cbor blake3 bs = Ok b"
  shows "wf_binding blake3 b \<and> binding_to_canonical_cbor blake3 b = Ok bs"
  using assms
  by (auto simp: binding_from_canonical_cbor_def result_inv split: if_splits dest: binding_new_wf)

interpretation binding_codec:
  object_codec "binding_from_canonical_cbor blake3" "binding_to_canonical_cbor blake3" "wf_binding blake3"
  for blake3
  by unfold_locales
    (auto simp: binding_to_canonical_cbor_eq binding_decode_enc dest: binding_decode_Ok)

section \<open>The accepted count of a binding\<close>

text \<open>
  The archive verifier adds the counts of the batches with \<open>Iterator::sum\<close>, which in a release
  build wraps around at 64 bits.
\<close>

definition transport_accepted_sum :: "transport_archive_batch_v1 list \<Rightarrow> u64" where
  "transport_accepted_sum batches = sum_list (map ba_accepted_unique_count batches)"

end
