(* ===== verification/Archive_Verifier.thy ===== *)
theory Archive_Verifier
  imports Archive_Directory Archive_Replay Transport_Binding Ordered_Map
begin

text \<open>
  The offline archive verifier (\<open>crates/archive/src/verifier.rs\<close>): it re-establishes the identity of
  an archive directory from the bytes on disk, checks the election artifacts, the transport binding
  and the governance pin, replays the ballots, and rebuilds the archive hash. Integrity failures
  give a report with a failing stage; only file-system failures are errors.
\<close>

section \<open>Constants\<close>

definition ELECTION_MANIFEST_ARCHIVE_PATH :: rstring where
  "ELECTION_MANIFEST_ARCHIVE_PATH = lit ''election-manifest.cbor''"
definition CANDIDATE_SET_ARCHIVE_PATH :: rstring where
  "CANDIDATE_SET_ARCHIVE_PATH = lit ''candidate-set.cbor''"
definition VOTER_REGISTRY_ARCHIVE_PATH :: rstring where
  "VOTER_REGISTRY_ARCHIVE_PATH = lit ''voter-registry.cbor''"
definition SUBMISSIONS_ARCHIVE_DIR :: rstring where
  "SUBMISSIONS_ARCHIVE_DIR = lit ''submissions''"
definition GOVERNANCE_PIN_PREFIX_BLAKE3 :: rstring where
  "GOVERNANCE_PIN_PREFIX_BLAKE3 = lit ''blake3:''"
definition GOVERNANCE_PIN_PREFIX_GIT :: rstring where
  "GOVERNANCE_PIN_PREFIX_GIT = lit ''git:''"
definition BLAKE3_DIGEST_HEX_LEN :: nat where "BLAKE3_DIGEST_HEX_LEN = 64"
definition GIT_SHA_HEX_LEN :: nat where "GIT_SHA_HEX_LEN = 40"

definition STAGE_ARCHIVE_MANIFEST :: rstring where "STAGE_ARCHIVE_MANIFEST = lit ''ARCHIVE_MANIFEST''"
definition STAGE_CATALOG_FILES :: rstring where "STAGE_CATALOG_FILES = lit ''CATALOG_FILES''"
definition STAGE_ELECTION_ARTIFACTS :: rstring where "STAGE_ELECTION_ARTIFACTS = lit ''ELECTION_ARTIFACTS''"
definition STAGE_GOVERNANCE_PIN :: rstring where "STAGE_GOVERNANCE_PIN = lit ''GOVERNANCE_PIN''"
definition STAGE_BALLOT_REPLAY :: rstring where "STAGE_BALLOT_REPLAY = lit ''BALLOT_REPLAY''"
definition STAGE_ARCHIVE_HASH :: rstring where "STAGE_ARCHIVE_HASH = lit ''ARCHIVE_HASH''"
definition STAGE_TRANSPORT_BINDING :: rstring where "STAGE_TRANSPORT_BINDING = lit ''TRANSPORT_BINDING''"

section \<open>Text helpers\<close>

definition hex_digit :: "u8 \<Rightarrow> u8" where
  "hex_digit n = (lit ''0123456789abcdef'') ! unat n"

definition to_lower_hex_slice :: "bytes \<Rightarrow> rstring" where
  "to_lower_hex_slice bs = concat (map (\<lambda>b. [hex_digit (drop_bit 4 b), hex_digit (b AND 0x0f)]) bs)"

definition to_lower_hex :: "bytes32 \<Rightarrow> rstring" where
  "to_lower_hex a = to_lower_hex_slice (arr_bytes a)"

definition is_lowercase_hex :: "rstring \<Rightarrow> bool" where
  "is_lowercase_hex value = list_all (\<lambda>b. (0x30 \<le> b \<and> b \<le> 0x39) \<or> (0x61 \<le> b \<and> b \<le> 0x66)) value"

section \<open>Reports\<close>

record archive_directory_file_check_v1 =
  fk_path :: rstring
  fk_present :: bool
  fk_digest_ok :: bool

datatype archive_governance_pin_fact_v1 = Matched | Mismatch | Missing | OperatorAttested | NotApplicable

record archive_tally_count_v1 =
  tc_candidate_id_hex :: rstring
  tc_candidate_id_text :: "rstring option"
  tc_display_name :: rstring
  tc_approvals :: u64

datatype archive_leading_result_v1 =
    ArchiveNoApprovals
  | ArchiveSingleLeader rstring rstring u64
  | ArchiveTie "rstring list" u64

record archive_tally_summary_v1 =
  ts_accepted_ballots :: u64
  ts_abstentions :: u64
  ts_counts :: "archive_tally_count_v1 list"
  ts_leading :: archive_leading_result_v1

record archive_directory_verification_v1 =
  dv_verified :: bool
  dv_finalized :: bool
  dv_failure_stage :: "rstring option"
  dv_failure_code :: "rstring option"
  dv_file_count :: nat
  dv_files :: "archive_directory_file_check_v1 list"
  dv_ballot_package_count :: nat
  dv_accepted_count :: nat
  dv_rejected_count :: nat
  dv_transcript_complete :: bool
  dv_tally :: "archive_tally_summary_v1 option"
  dv_archive_hash_hex :: "rstring option"
  dv_recomputed_archive_hash_hex :: "rstring option"
  dv_archive_hash_consistent :: bool
  dv_election_manifest_hash_hex :: "rstring option"
  dv_election_manifest_schema_version :: "u16 option"
  dv_proposal_question :: "rstring option"
  dv_election_id_hex :: "rstring option"
  dv_ballot_kind_id :: "rstring option"
  dv_ballot_confidentiality_id :: "rstring option"
  dv_proof_suite_id :: "rstring option"
  dv_registry_commitment_hex :: "rstring option"
  dv_option_set_commitment_hex :: "rstring option"
  dv_eligible_voter_count :: "u64 option"
  dv_governance_source_matches_pin :: archive_governance_pin_fact_v1
  dv_transport_binding_present :: bool
  dv_transport_binding_verified :: bool
  dv_transport_batch_set_commitment_hex :: "rstring option"
  dv_transport_accepted_count :: "u64 option"
  dv_transport_reduced_anonymity :: "bool option"

definition empty_report :: archive_directory_verification_v1 where
  "empty_report =
     \<lparr>dv_verified = False, dv_finalized = False, dv_failure_stage = None, dv_failure_code = None,
      dv_file_count = 0, dv_files = [], dv_ballot_package_count = 0, dv_accepted_count = 0,
      dv_rejected_count = 0, dv_transcript_complete = False, dv_tally = None,
      dv_archive_hash_hex = None, dv_recomputed_archive_hash_hex = None,
      dv_archive_hash_consistent = False, dv_election_manifest_hash_hex = None,
      dv_election_manifest_schema_version = None, dv_proposal_question = None,
      dv_election_id_hex = None, dv_ballot_kind_id = None, dv_ballot_confidentiality_id = None,
      dv_proof_suite_id = None, dv_registry_commitment_hex = None,
      dv_option_set_commitment_hex = None, dv_eligible_voter_count = None,
      dv_governance_source_matches_pin = NotApplicable, dv_transport_binding_present = False,
      dv_transport_binding_verified = False, dv_transport_batch_set_commitment_hex = None,
      dv_transport_accepted_count = None, dv_transport_reduced_anonymity = None\<rparr>"

definition fail ::
  "archive_directory_verification_v1 \<Rightarrow> rstring \<Rightarrow> rstring \<Rightarrow> archive_directory_verification_v1" where
  "fail result stage code =
     result\<lparr>dv_verified := False, dv_failure_stage := Some stage, dv_failure_code := Some code\<rparr>"

section \<open>Establishing the identity\<close>

type_synonym file_map = "(rstring, bytes) btree_map"

record established_identity_v1 =
  ei_archive_hash :: archive_hash_v1
  ei_archive_manifest :: archive_manifest_v1
  ei_files :: file_map
  ei_result :: archive_directory_verification_v1

datatype establish_outcome_v1 =
    Failed archive_directory_verification_v1
  | Established established_identity_v1

definition entry_path :: "archive_file_entry_v1 \<Rightarrow> rstring" where
  "entry_path e = archive_path_str (fe_path e)"

text \<open>The \<open>BTreeSet\<close> of the catalog's paths, as the increasing list its iteration gives.\<close>

definition catalog_paths :: "archive_manifest_v1 \<Rightarrow> rstring list" where
  "catalog_paths m = sort (remdups (map entry_path (fc_entries (am_files m))))"

text \<open>The loop that reads and digests every catalog file; \<open>Err\<close> inside is the early failing report.\<close>

fun read_catalog ::
  "hash_provider \<Rightarrow> fs_node \<Rightarrow> archive_file_entry_v1 list \<Rightarrow> archive_directory_verification_v1 \<Rightarrow> file_map \<Rightarrow>
   ((archive_directory_verification_v1 \<times> file_map, archive_directory_verification_v1) result,
    archive_verifier_error) result" where
  "read_catalog provider dir [] result files = Ok (Ok (result, files))"
| "read_catalog provider dir (e # es) result files =
     and_then (read_bounded_archive_file dir (entry_path e)) (\<lambda>bs.
     let digest_ok = is_ok (entry_verify_bytes provider bs e);
         result = result\<lparr>dv_files := dv_files result
           @ [\<lparr>fk_path = entry_path e, fk_present = True, fk_digest_ok = digest_ok\<rparr>]\<rparr> in
     if \<not> digest_ok then Ok (Err (fail result STAGE_CATALOG_FILES (lit ''ARCHIVE_FILE_DIGEST_MISMATCH'')))
     else read_catalog provider dir es result (bt_insert (entry_path e) bs files))"

definition establish_catalog ::
  "(bytes \<Rightarrow> bytes32) \<Rightarrow> fs_node \<Rightarrow> archive_manifest_v1 \<Rightarrow>
   (establish_outcome_v1, archive_verifier_error) result" where
  "establish_catalog blake3 dir m =
     (let provider = Blake3HashProviderV1 blake3; result = empty_report in
      and_then (map_err (\<lambda>_. IoFailure) (archive_manifest_canonical_hash provider m)) (\<lambda>archive_hash.
      let result = result\<lparr>dv_archive_hash_hex := Some (to_lower_hex (archive_hash_bytes archive_hash)),
                          dv_file_count := length (fc_entries (am_files m))\<rparr> in
      and_then (enumerate_disk_files dir) (\<lambda>disk_files.
      if \<exists>p \<in> set (catalog_paths m). p \<notin> disk_files then
        Ok (Failed (fail (result\<lparr>dv_files := dv_files result @ map (\<lambda>e.
            \<lparr>fk_path = entry_path e, fk_present = entry_path e \<in> disk_files, fk_digest_ok = False\<rparr>)
              (fc_entries (am_files m))\<rparr>)
          STAGE_CATALOG_FILES (lit ''GUI_ARCHIVE_MISSING_FILE'')))
      else if \<exists>p \<in> disk_files. p \<notin> set (catalog_paths m) then
        Ok (Failed (fail result STAGE_CATALOG_FILES (lit ''GUI_ARCHIVE_UNEXPECTED_FILE'')))
      else
        and_then (read_catalog provider dir (fc_entries (am_files m)) result bt_new) (\<lambda>outcome.
        case outcome of
          Err failed \<Rightarrow> Ok (Failed failed)
        | Ok (result, files) \<Rightarrow>
            Ok (Established \<lparr>ei_archive_hash = archive_hash, ei_archive_manifest = m,
                             ei_files = files, ei_result = result\<rparr>)))))"

text \<open>The argument is what \<open>symlink_metadata\<close> of the archive directory gives.\<close>

definition establish_identity_and_catalog ::
  "(bytes \<Rightarrow> bytes32) \<Rightarrow> (fs_node, io_error) result \<Rightarrow> (establish_outcome_v1, archive_verifier_error) result" where
  "establish_identity_and_catalog blake3 root =
     and_then (map_err metadata_error root) (\<lambda>dir.
     if \<not> is_dir dir then Err IoFailure
     else
       case read_bounded [ARCHIVE_MANIFEST_CANONICAL_PATH] dir of
         Err e \<Rightarrow>
           Ok (Failed (fail empty_report STAGE_ARCHIVE_MANIFEST
             (if e = FileNotFound then lit ''GUI_ARCHIVE_MISSING_FILE'' else verifier_error_code e)))
       | Ok manifest_bytes \<Rightarrow>
           (case archive_manifest_from_canonical_cbor manifest_bytes of
              Err code \<Rightarrow> Ok (Failed (fail empty_report STAGE_ARCHIVE_MANIFEST (code_as_str code)))
            | Ok m \<Rightarrow>
                (case validate_hash_provider (Blake3HashProviderV1 blake3) m of
                   Err code \<Rightarrow> Ok (Failed (fail empty_report STAGE_ARCHIVE_MANIFEST (code_as_str code)))
                 | Ok _ \<Rightarrow> establish_catalog blake3 dir m)))"

section \<open>The governance pin\<close>

datatype governance_source_pin_kind = Blake3Digest | GitCommit | Unrecognized

record governance_source_pin_v1 =
  gp_kind :: governance_source_pin_kind
  gp_format_valid :: bool
  gp_digest_hex :: "rstring option"

definition is_content_digest :: "governance_source_pin_v1 \<Rightarrow> bool" where
  "is_content_digest pin \<longleftrightarrow> gp_kind pin = Blake3Digest \<and> gp_format_valid pin"

definition is_git_commit :: "governance_source_pin_v1 \<Rightarrow> bool" where
  "is_git_commit pin \<longleftrightarrow> gp_kind pin = GitCommit \<and> gp_format_valid pin"

definition unrecognized_pin :: governance_source_pin_v1 where
  "unrecognized_pin = \<lparr>gp_kind = Unrecognized, gp_format_valid = False, gp_digest_hex = None\<rparr>"

definition validate_governance_source_pin :: "rstring \<Rightarrow> governance_source_pin_v1" where
  "validate_governance_source_pin revision =
     (if length revision > MAX_GOVERNANCE_REVISION_BYTES then unrecognized_pin
      else if starts_with revision GOVERNANCE_PIN_PREFIX_BLAKE3 then
        (let hex_part = drop (length GOVERNANCE_PIN_PREFIX_BLAKE3) revision;
             normalized_hex = to_ascii_lowercase hex_part in
         if length hex_part = BLAKE3_DIGEST_HEX_LEN \<and> is_lowercase_hex normalized_hex then
           \<lparr>gp_kind = Blake3Digest, gp_format_valid = True, gp_digest_hex = Some normalized_hex\<rparr>
         else unrecognized_pin)
      else if starts_with revision GOVERNANCE_PIN_PREFIX_GIT then
        (let hex_part = drop (length GOVERNANCE_PIN_PREFIX_GIT) revision;
             normalized_hex = to_ascii_lowercase hex_part in
         if length hex_part = GIT_SHA_HEX_LEN \<and> is_lowercase_hex normalized_hex then
           \<lparr>gp_kind = GitCommit, gp_format_valid = True, gp_digest_hex = None\<rparr>
         else unrecognized_pin)
      else unrecognized_pin)"

section \<open>The tally summary\<close>

definition display_name_of :: "candidate_set \<Rightarrow> bytes \<Rightarrow> rstring" where
  "display_name_of candidates id_bytes =
     (case find (\<lambda>c. candidate_id_bytes (cd_id c) = id_bytes) (cs_candidates candidates) of
        Some c \<Rightarrow> cd_display_name c
      | None \<Rightarrow> [])"

definition summarize_tally :: "approval_tally \<Rightarrow> candidate_set \<Rightarrow> archive_tally_summary_v1" where
  "summarize_tally tally candidates =
     \<lparr>ts_accepted_ballots = at_accepted_ballots tally,
      ts_abstentions = at_abstentions tally,
      ts_counts = map (\<lambda>c. let id_bytes = candidate_id_bytes (cc_candidate_id c) in
        \<lparr>tc_candidate_id_hex = to_lower_hex_slice id_bytes,
         tc_candidate_id_text = (if utf8_valid id_bytes then Some id_bytes else None),
         tc_display_name = display_name_of candidates id_bytes,
         tc_approvals = cc_approvals c\<rparr>) (at_counts tally),
      ts_leading = (case leading_result_of tally of
          NoApprovals \<Rightarrow> ArchiveNoApprovals
        | SingleLeader cid approvals \<Rightarrow>
            ArchiveSingleLeader (to_lower_hex_slice (candidate_id_bytes cid))
              (display_name_of candidates (candidate_id_bytes cid)) approvals
        | Tie cids approvals \<Rightarrow>
            ArchiveTie (map (\<lambda>cid. to_lower_hex_slice (candidate_id_bytes cid)) cids) approvals)\<rparr>"


section \<open>The remaining stages\<close>

text \<open>
  Indexing the file map. The code panics on an absent key; for an established identity every
  catalog path has a file (shown below), so the fallback is never taken.
\<close>

definition file_bytes :: "file_map \<Rightarrow> rstring \<Rightarrow> bytes" where
  "file_bytes files path = (case bt_get files path of Some bs \<Rightarrow> bs | None \<Rightarrow> [])"

text \<open>A stage returns the updated report and its result, or the failing report.\<close>

type_synonym 'a stage = "('a, archive_directory_verification_v1) result"

definition stage_err ::
  "archive_directory_verification_v1 \<Rightarrow> rstring \<Rightarrow> 'a code_result \<Rightarrow> 'a stage" where
  "stage_err result stage r = map_err (fail result stage) r"

definition record_artifacts ::
  "archive_election_artifacts_v1 \<Rightarrow> archive_directory_verification_v1 \<Rightarrow> archive_directory_verification_v1" where
  "record_artifacts artifacts result =
     (let manifest = ea_manifest artifacts in
      result\<lparr>dv_election_manifest_hash_hex := Some (to_lower_hex (manifest_hash_bytes (ea_manifest_hash artifacts))),
             dv_election_manifest_schema_version := Some (manifest_schema_version manifest),
             dv_proposal_question := manifest_proposal_question manifest,
             dv_election_id_hex := Some (to_lower_hex_slice (election_id_bytes (manifest_election_id manifest))),
             dv_ballot_kind_id := Some (ballot_kind_as_str (manifest_ballot_kind manifest)),
             dv_ballot_confidentiality_id :=
               Some (ballot_confidentiality_as_str (manifest_ballot_confidentiality manifest)),
             dv_proof_suite_id := Some (manifest_proof_suite_id manifest),
             dv_registry_commitment_hex :=
               Some (to_lower_hex (registry_commitment_bytes (manifest_registry_commitment manifest))),
             dv_option_set_commitment_hex :=
               Some (to_lower_hex (candidate_set_commitment_bytes (manifest_candidate_set_commitment manifest))),
             dv_eligible_voter_count := Some (word_of_nat (length (rs_entries (ea_registry artifacts))))\<rparr>)"

definition stage_artifacts ::
  "(nat list \<Rightarrow> nat list) \<Rightarrow> (bytes \<Rightarrow> bytes32) \<Rightarrow> archive_manifest_v1 \<Rightarrow> file_map \<Rightarrow>
   archive_directory_verification_v1 \<Rightarrow>
   (archive_directory_verification_v1 \<times> archive_election_artifacts_v1) stage" where
  "stage_artifacts nfc blake3 m files result =
     (if list_ex (\<lambda>path. path \<notin> set (catalog_paths m))
           [ELECTION_MANIFEST_ARCHIVE_PATH, VOTER_REGISTRY_ARCHIVE_PATH, CANDIDATE_SET_ARCHIVE_PATH] then
        Err (fail result STAGE_ELECTION_ARTIFACTS (lit ''GUI_ARCHIVE_MISSING_ARTIFACT''))
      else
        and_then (stage_err result STAGE_ELECTION_ARTIFACTS
          (artifacts_from_bytes nfc blake3 (file_bytes files ELECTION_MANIFEST_ARCHIVE_PATH)
            (file_bytes files VOTER_REGISTRY_ARCHIVE_PATH) (file_bytes files CANDIDATE_SET_ARCHIVE_PATH)))
          (\<lambda>artifacts. Ok (record_artifacts artifacts result, artifacts)))"

definition stage_transport ::
  "(bytes \<Rightarrow> bytes32) \<Rightarrow> file_map \<Rightarrow> archive_election_artifacts_v1 \<Rightarrow> archive_directory_verification_v1 \<Rightarrow>
   archive_directory_verification_v1 stage" where
  "stage_transport blake3 files artifacts result =
     (case bt_get files TRANSPORT_ARCHIVE_BINDING_PATH_V1 of
        None \<Rightarrow> Ok result
      | Some bs \<Rightarrow>
          (let result = result\<lparr>dv_transport_binding_present := True\<rparr> in
           and_then (stage_err result STAGE_TRANSPORT_BINDING
             (code_err (binding_from_canonical_cbor blake3 bs))) (\<lambda>binding.
           if tb_manifest_hash binding \<noteq> ea_manifest_hash artifacts
              \<or> tb_election_id binding \<noteq> election_id_bytes (manifest_election_id (ea_manifest artifacts)) then
             Err (fail result STAGE_TRANSPORT_BINDING (lit ''GUI_TRANSPORT_ARCHIVE_BINDING_MISMATCH''))
           else Ok (result\<lparr>dv_transport_binding_verified := True,
               dv_transport_batch_set_commitment_hex :=
                 Some (to_lower_hex_slice (arr_bytes (tb_final_batch_set_commitment binding))),
               dv_transport_accepted_count := Some (transport_accepted_sum (tb_batches binding)),
               dv_transport_reduced_anonymity := Some (list_ex ba_reduced_anonymity (tb_batches binding))\<rparr>))))"

definition stage_governance ::
  "archive_manifest_v1 \<Rightarrow> archive_election_artifacts_v1 \<Rightarrow> archive_directory_verification_v1 \<Rightarrow>
   archive_directory_verification_v1 stage" where
  "stage_governance m artifacts result =
     (let pin = validate_governance_source_pin (manifest_governance_source_revision (ea_manifest artifacts)) in
      if is_content_digest pin then
        (case gp_digest_hex pin of
           None \<Rightarrow> Err (fail result STAGE_GOVERNANCE_PIN (lit ''GUI_GOVERNANCE_ARCHIVE_PIN_MISMATCH''))
         | Some pin_hex \<Rightarrow>
             (case find (\<lambda>e. entry_path e = GOVERNANCE_DOCUMENT_ARCHIVE_PATH) (fc_entries (am_files m)) of
                None \<Rightarrow> Err (fail (result\<lparr>dv_governance_source_matches_pin := Missing\<rparr>)
                  STAGE_GOVERNANCE_PIN (lit ''GUI_GOVERNANCE_ARCHIVE_DOCUMENT_MISSING''))
              | Some e \<Rightarrow>
                  if to_lower_hex (archive_file_digest_bytes (fe_digest e)) = pin_hex then
                    Ok (result\<lparr>dv_governance_source_matches_pin := Matched\<rparr>)
                  else Err (fail (result\<lparr>dv_governance_source_matches_pin := Mismatch\<rparr>)
                    STAGE_GOVERNANCE_PIN (lit ''GUI_GOVERNANCE_ARCHIVE_PIN_MISMATCH''))))
      else if is_git_commit pin then Ok (result\<lparr>dv_governance_source_matches_pin := OperatorAttested\<rparr>)
      else Ok (result\<lparr>dv_governance_source_matches_pin := NotApplicable\<rparr>))"

definition submission_paths :: "archive_manifest_v1 \<Rightarrow> rstring list" where
  "submission_paths m = filter (\<lambda>p. starts_with p (SUBMISSIONS_ARCHIVE_DIR @ [SLASH])) (catalog_paths m)"

type_synonym replay_strategy =
  "archive_replay_session_v1 \<Rightarrow> bytes list \<Rightarrow> archive_replay_session_v1 code_result"

definition stage_replay ::
  "'pt curve \<Rightarrow> (bytes \<Rightarrow> bytes32) \<Rightarrow> archive_manifest_v1 \<Rightarrow> file_map \<Rightarrow> archive_election_artifacts_v1 \<Rightarrow>
   replay_strategy \<Rightarrow> archive_directory_verification_v1 \<Rightarrow>
   (archive_directory_verification_v1 \<times> archive_replay_session_v1) stage" where
  "stage_replay curve blake3 m files artifacts replay result =
     (let result = result\<lparr>dv_ballot_package_count := length (submission_paths m)\<rparr> in
      and_then (stage_err result STAGE_BALLOT_REPLAY (session_new curve blake3 artifacts)) (\<lambda>session.
      and_then (stage_err result STAGE_BALLOT_REPLAY (session_open session)) (\<lambda>session.
      and_then (stage_err result STAGE_BALLOT_REPLAY
        (replay session (map (file_bytes files) (submission_paths m)))) (\<lambda>session.
      and_then (stage_err result STAGE_BALLOT_REPLAY
        (code_err (validate_complete (ss_transcript session)))) (\<lambda>_.
      let result = result\<lparr>dv_transcript_complete := True,
                          dv_accepted_count := accepted_count (ss_transcript session),
                          dv_rejected_count := rejected_count (ss_transcript session)\<rparr> in
      and_then (stage_err result STAGE_BALLOT_REPLAY (direct_tally session)) (\<lambda>tally.
      Ok (result\<lparr>dv_tally := Some (summarize_tally tally (ea_candidates (ss_artifacts session)))\<rparr>,
          session)))))))"

definition rebuild_manifest ::
  "(bytes \<Rightarrow> bytes32) \<Rightarrow> archive_manifest_v1 \<Rightarrow> file_map \<Rightarrow> manifest_hash \<Rightarrow>
   (archive_manifest_v1, archive_verifier_error) result" where
  "rebuild_manifest blake3 m files manifest_hash =
     (let provider = Blake3HashProviderV1 blake3 in
      and_then (collect_results (\<lambda>(path, bs).
          and_then (map_err (\<lambda>_. IoFailure) (ArchivePathV1_new path)) (\<lambda>archive_path.
          Ok (entry_for_bytes archive_path provider bs))) files) (\<lambda>rebuilt_entries.
      and_then (map_err (\<lambda>_. IoFailure) (ArchiveFileCatalogV1_new rebuilt_entries)) (\<lambda>rebuilt_catalog.
      map_err (\<lambda>_. IoFailure)
        (if is_finalized_archive_manifest m
         then archive_manifest_finalized_for_provider manifest_hash rebuilt_catalog provider
         else archive_manifest_for_provider manifest_hash rebuilt_catalog provider))))"

definition stage_archive_hash ::
  "(bytes \<Rightarrow> bytes32) \<Rightarrow> established_identity_v1 \<Rightarrow> manifest_hash \<Rightarrow> archive_directory_verification_v1 \<Rightarrow>
   (archive_directory_verification_v1, archive_verifier_error) result" where
  "stage_archive_hash blake3 ei manifest_hash result =
     and_then (rebuild_manifest blake3 (ei_archive_manifest ei) (ei_files ei) manifest_hash) (\<lambda>rebuilt.
     and_then (map_err (\<lambda>_. IoFailure)
       (archive_manifest_canonical_hash (Blake3HashProviderV1 blake3) rebuilt)) (\<lambda>recomputed_hash.
     let result = result\<lparr>dv_recomputed_archive_hash_hex :=
             Some (to_lower_hex (archive_hash_bytes recomputed_hash)),
           dv_archive_hash_consistent :=
             (rebuilt = ei_archive_manifest ei \<and> recomputed_hash = ei_archive_hash ei)\<rparr> in
     if \<not> dv_archive_hash_consistent result then
       Ok (fail result STAGE_ARCHIVE_HASH (lit ''ARCHIVE_MANIFEST_HASH_MISMATCH''))
     else Ok (result\<lparr>dv_verified := True,
                     dv_finalized := is_finalized_archive_manifest (ei_archive_manifest ei)\<rparr>)))"

definition finish_verification_replaying ::
  "'pt curve \<Rightarrow> (nat list \<Rightarrow> nat list) \<Rightarrow> (bytes \<Rightarrow> bytes32) \<Rightarrow> established_identity_v1 \<Rightarrow>
   replay_strategy \<Rightarrow> (archive_directory_verification_v1, archive_verifier_error) result" where
  "finish_verification_replaying curve nfc blake3 ei replay =
     (let m = ei_archive_manifest ei; files = ei_files ei in
      case
        and_then (stage_artifacts nfc blake3 m files (ei_result ei)) (\<lambda>(result, artifacts).
        and_then (stage_transport blake3 files artifacts result) (\<lambda>result.
        and_then (stage_governance m artifacts result) (\<lambda>result.
        stage_replay curve blake3 m files artifacts replay result)))
      of
        Err failed \<Rightarrow> Ok failed
      | Ok (result, session) \<Rightarrow>
          stage_archive_hash blake3 ei (ea_manifest_hash (ss_artifacts session)) result)"

definition finish_verification ::
  "('q, 'pt, 'pp, 'is, 'ts, 'pf, 'tr) triptych_lib \<Rightarrow> (nat list \<Rightarrow> nat list) \<Rightarrow> (bytes \<Rightarrow> bytes32) \<Rightarrow>
   established_identity_v1 \<Rightarrow> (archive_directory_verification_v1, archive_verifier_error) result" where
  "finish_verification L nfc blake3 ei =
     finish_verification_replaying (tl_dalek_v4 L) nfc blake3 ei
       (\<lambda>session packages. replay_batched L blake3 packages session)"

definition finish_verification_serial_for_test ::
  "('q, 'pt, 'pp, 'is, 'ts, 'pf, 'tr) triptych_lib \<Rightarrow> (nat list \<Rightarrow> nat list) \<Rightarrow> (bytes \<Rightarrow> bytes32) \<Rightarrow>
   established_identity_v1 \<Rightarrow> (archive_directory_verification_v1, archive_verifier_error) result" where
  "finish_verification_serial_for_test L nfc blake3 ei =
     finish_verification_replaying (tl_dalek_v4 L) nfc blake3 ei
       (\<lambda>session packages. replay_serial_for_test L blake3 packages session)"

definition verify_archive_directory_v1 ::
  "('q, 'pt, 'pp, 'is, 'ts, 'pf, 'tr) triptych_lib \<Rightarrow> (nat list \<Rightarrow> nat list) \<Rightarrow> (bytes \<Rightarrow> bytes32) \<Rightarrow>
   (fs_node, io_error) result \<Rightarrow> (archive_directory_verification_v1, archive_verifier_error) result" where
  "verify_archive_directory_v1 L nfc blake3 root =
     and_then (establish_identity_and_catalog blake3 root) (\<lambda>outcome.
     case outcome of
       Failed result \<Rightarrow> Ok result
     | Established ei \<Rightarrow> finish_verification L nfc blake3 ei)"

definition verify_archive_directory_serial_for_test ::
  "('q, 'pt, 'pp, 'is, 'ts, 'pf, 'tr) triptych_lib \<Rightarrow> (nat list \<Rightarrow> nat list) \<Rightarrow> (bytes \<Rightarrow> bytes32) \<Rightarrow>
   (fs_node, io_error) result \<Rightarrow> (archive_directory_verification_v1, archive_verifier_error) result" where
  "verify_archive_directory_serial_for_test L nfc blake3 root =
     and_then (establish_identity_and_catalog blake3 root) (\<lambda>outcome.
     case outcome of
       Failed result \<Rightarrow> Ok result
     | Established ei \<Rightarrow> finish_verification_serial_for_test L nfc blake3 ei)"

end
