(* ===== verification/Archive_Soundness.thy ===== *)
theory Archive_Soundness
  imports Archive_Verifier
begin

text \<open>
  What the archive verifier establishes: the facts behind an established identity, the rebuilt
  manifest, and what a verified report says of the directory, the artifacts and the replay.
\<close>

lemma case_result_eq_iff:
  "(case r of Ok x \<Rightarrow> f x | Err e \<Rightarrow> g e) = y \<longleftrightarrow> (\<exists>x. r = Ok x \<and> f x = y) \<or> (\<exists>e. r = Err e \<and> g e = y)"
  by (cases r) auto

section \<open>The file map\<close>

lemma bt_insert_snoc:
  "(\<And>x. x \<in> set (map fst m) \<Longrightarrow> x < k) \<Longrightarrow> bt_insert k v m = m @ [(k, v)]"
  by (induction k v m rule: bt_insert.induct) (auto simp: not_less less_imp_le order.strict_implies_not_eq)

lemma fold_bt_insert_sorted:
  assumes "sorted_wrt (<) (map fst m @ map f es)"
  shows "fold (\<lambda>e. bt_insert (f e) (g e)) es m = m @ map (\<lambda>e. (f e, g e)) es"
  using assms
proof (induction es arbitrary: m)
  case (Cons e es)
  have "bt_insert (f e) (g e) m = m @ [(f e, g e)]"
    using Cons.prems by (intro bt_insert_snoc) (auto simp: sorted_wrt_append)
  moreover have "sorted_wrt (<) (map fst (m @ [(f e, g e)]) @ map f es)"
    using Cons.prems by simp
  ultimately show ?case using Cons.IH [of "m @ [(f e, g e)]"] by simp
qed simp

definition file_content :: "fs_node \<Rightarrow> archive_file_entry_v1 \<Rightarrow> bytes" where
  "file_content dir e = (case read_bounded_archive_file dir (entry_path e) of Ok bs \<Rightarrow> bs | Err _ \<Rightarrow> [])"

definition entry_on_disk :: "hash_provider \<Rightarrow> fs_node \<Rightarrow> archive_file_entry_v1 \<Rightarrow> bool" where
  "entry_on_disk provider dir e \<longleftrightarrow>
     (\<exists>bs. read_bounded_archive_file dir (entry_path e) = Ok bs \<and> fe_digest e = digest_for_bytes provider bs)"

definition checked_ok :: "archive_file_entry_v1 \<Rightarrow> archive_directory_file_check_v1" where
  "checked_ok e = \<lparr>fk_path = entry_path e, fk_present = True, fk_digest_ok = True\<rparr>"

lemma read_catalog_Ok:
  assumes "read_catalog provider dir es result files = Ok (Ok (result', files'))"
  shows "(\<forall>e \<in> set es. entry_on_disk provider dir e)
    \<and> files' = fold (\<lambda>e. bt_insert (entry_path e) (file_content dir e)) es files
    \<and> result' = result\<lparr>dv_files := dv_files result @ map checked_ok es\<rparr>"
  using assms
proof (induction es arbitrary: result files)
  case (Cons e es)
  then obtain bs where bs: "read_bounded_archive_file dir (entry_path e) = Ok bs" by (auto simp: result_inv)
  with Cons.prems have ok: "is_ok (entry_verify_bytes provider bs e)" by (auto simp: Let_def split: if_splits)
  then have dig: "fe_digest e = digest_for_bytes provider bs"
    by (auto simp: is_ok_iff entry_verify_bytes_def result_inv)
  from Cons.prems bs ok have "read_catalog provider dir es (result\<lparr>dv_files := dv_files result
       @ [\<lparr>fk_path = entry_path e, fk_present = True, fk_digest_ok = True\<rparr>]\<rparr>)
       (bt_insert (entry_path e) bs files) = Ok (Ok (result', files'))" by (simp add: Let_def)
  from Cons.IH [OF this] show ?case using bs dig by (auto simp: entry_on_disk_def file_content_def checked_ok_def)
qed simp

section \<open>Established identities\<close>

definition archive_identity ::
  "(bytes \<Rightarrow> bytes32) \<Rightarrow> fs_node \<Rightarrow> archive_manifest_v1 \<Rightarrow> bool" where
  "archive_identity blake3 dir m \<longleftrightarrow>
     is_dir dir \<and> all_listable dir
     \<and> (\<exists>bs. read_bounded [ARCHIVE_MANIFEST_CANONICAL_PATH] dir = Ok bs
          \<and> archive_manifest_from_canonical_cbor bs = Ok m)
     \<and> am_hash_algorithm_id m = BLAKE3_256_HASH_ALGORITHM_ID_V1
     \<and> listed (tree_files [] dir) = entry_path ` set (fc_entries (am_files m))
     \<and> (\<forall>e \<in> set (fc_entries (am_files m)). entry_on_disk (Blake3HashProviderV1 blake3) dir e)"

definition archive_files :: "fs_node \<Rightarrow> archive_manifest_v1 \<Rightarrow> file_map" where
  "archive_files dir m = map (\<lambda>e. (entry_path e, file_content dir e)) (fc_entries (am_files m))"

lemma identity_wf: "archive_identity blake3 dir m \<Longrightarrow> wf_archive_manifest m"
  by (auto simp: archive_identity_def dest: archive_manifest_codec.encode_decode)

lemma sorted_entry_paths:
  "wf_archive_manifest m \<Longrightarrow> sorted_wrt (<) (map entry_path (fc_entries (am_files m)))"
  by (simp add: wf_archive_manifest_def wf_file_catalog_def sorted_wrt_map entry_path_def less_archive_path_v1_def)

lemma catalog_paths_eq:
  assumes "wf_archive_manifest m"
  shows "catalog_paths m = map entry_path (fc_entries (am_files m))"
  using sorted_entry_paths [OF assms]
  by (simp add: catalog_paths_def strictly_sorted_iff sort_key_sorted_id distinct_remdups_id)

text \<open>The report of an established identity is determined by its manifest.\<close>

definition established_report :: "archive_manifest_v1 \<Rightarrow> archive_hash_v1 \<Rightarrow> archive_directory_verification_v1" where
  "established_report m h =
     empty_report\<lparr>dv_archive_hash_hex := Some (to_lower_hex (archive_hash_bytes h)),
       dv_file_count := length (fc_entries (am_files m)),
       dv_files := map checked_ok (fc_entries (am_files m))\<rparr>"

lemma establish_Established:
  assumes "establish_identity_and_catalog blake3 root = Ok (Established ei)"
  shows "\<exists>dir m. root = Ok dir \<and> archive_identity blake3 dir m
    \<and> ei_archive_manifest ei = m \<and> ei_files ei = archive_files dir m
    \<and> archive_manifest_canonical_hash (Blake3HashProviderV1 blake3) m = Ok (ei_archive_hash ei)
    \<and> ei_result ei = established_report m (ei_archive_hash ei)"
proof -
  let ?p = "Blake3HashProviderV1 blake3"
  from assms obtain dir bs m where root: "root = Ok dir" and dir: "is_dir dir"
    and bs: "read_bounded [ARCHIVE_MANIFEST_CANONICAL_PATH] dir = Ok bs"
    and m: "archive_manifest_from_canonical_cbor bs = Ok m"
    and alg: "validate_hash_provider ?p m = Ok ()"
    and cat: "establish_catalog blake3 dir m = Ok (Established ei)"
    by (auto simp: establish_identity_and_catalog_def result_inv case_result_eq_iff)
  have wf: "wf_archive_manifest m" using archive_manifest_codec.encode_decode [OF m] by simp
  from cat obtain h disk r files where
    h: "archive_manifest_canonical_hash ?p m = Ok h" and disk: "enumerate_disk_files dir = Ok disk"
    and sub: "\<forall>p \<in> disk. p \<in> set (catalog_paths m)" "\<forall>p \<in> set (catalog_paths m). p \<in> disk"
    and rd: "read_catalog ?p dir (fc_entries (am_files m))
       (empty_report\<lparr>dv_archive_hash_hex := Some (to_lower_hex (archive_hash_bytes h)),
          dv_file_count := length (fc_entries (am_files m))\<rparr>) bt_new = Ok (Ok (r, files))"
    and ei: "ei = \<lparr>ei_archive_hash = h, ei_archive_manifest = m, ei_files = files, ei_result = r\<rparr>"
    by (auto simp: establish_catalog_def result_inv case_result_eq_iff Let_def split: if_splits)
  have set: "disk = set (catalog_paths m)" using sub by blast
  from disk enumerate_disk_files_eq [OF dir] have "all_listable dir" "disk = listed (tree_files [] dir)"
    by (auto split: if_splits)
  moreover have "files = archive_files dir m"
    using read_catalog_Ok [OF rd] fold_bt_insert_sorted [of bt_new entry_path] sorted_entry_paths [OF wf]
    by (simp add: archive_files_def bt_new_def)
  moreover have "r = established_report m h"
    using read_catalog_Ok [OF rd] by (simp add: empty_report_def established_report_def)
  moreover have "am_hash_algorithm_id m = BLAKE3_256_HASH_ALGORITHM_ID_V1"
    using alg by (auto simp: validate_hash_provider_def Blake3HashProviderV1_def split: if_splits)
  ultimately show ?thesis
    using root dir bs m h set ei read_catalog_Ok [OF rd] catalog_paths_eq [OF wf]
    by (auto simp: archive_identity_def)
qed

lemma read_catalog_all:
  assumes "\<forall>e \<in> set es. entry_on_disk provider dir e"
  shows "read_catalog provider dir es result files =
    Ok (Ok (result\<lparr>dv_files := dv_files result @ map checked_ok es\<rparr>,
            fold (\<lambda>e. bt_insert (entry_path e) (file_content dir e)) es files))"
  using assms
proof (induction es arbitrary: result files)
  case (Cons e es)
  then obtain bs where bs: "read_bounded_archive_file dir (entry_path e) = Ok bs" "fe_digest e = digest_for_bytes provider bs"
    by (auto simp: entry_on_disk_def)
  then have "entry_verify_bytes provider bs e = Ok ()" by (simp add: entry_verify_bytes_def result_inv)
  with Cons bs show ?case by (simp add: Let_def file_content_def checked_ok_def)
qed simp

text \<open>Conversely, a directory with these properties is established.\<close>

lemma establish_complete:
  assumes id: "archive_identity blake3 dir m"
    and hash: "archive_manifest_canonical_hash (Blake3HashProviderV1 blake3) m = Ok h"
  shows "establish_identity_and_catalog blake3 (Ok dir) = Ok (Established
    \<lparr>ei_archive_hash = h, ei_archive_manifest = m, ei_files = archive_files dir m,
     ei_result = established_report m h\<rparr>)"
proof -
  have wf: "wf_archive_manifest m" by (rule identity_wf [OF id])
  have rd: "read_catalog (Blake3HashProviderV1 blake3) dir (fc_entries (am_files m)) r bt_new
      = Ok (Ok (r\<lparr>dv_files := dv_files r @ map checked_ok (fc_entries (am_files m))\<rparr>, archive_files dir m))" for r
    using id read_catalog_all [of "fc_entries (am_files m)" "Blake3HashProviderV1 blake3" dir r bt_new]
      fold_bt_insert_sorted [of bt_new entry_path "fc_entries (am_files m)" "file_content dir"] sorted_entry_paths [OF wf]
    by (simp add: archive_identity_def archive_files_def bt_new_def)
  have "enumerate_disk_files dir = Ok (set (catalog_paths m))"
    using id by (simp add: archive_identity_def enumerate_disk_files_eq catalog_paths_eq [OF wf])
  moreover have "validate_hash_provider (Blake3HashProviderV1 blake3) m = Ok ()"
    using id by (simp add: archive_identity_def validate_hash_provider_def Blake3HashProviderV1_def)
  ultimately show ?thesis
    using id rd hash
    by (auto simp: archive_identity_def establish_identity_and_catalog_def establish_catalog_def
        established_report_def empty_report_def)
qed

lemma file_bytes_archive:
  assumes "wf_archive_manifest m" and "e \<in> set (fc_entries (am_files m))"
  shows "file_bytes (archive_files dir m) (entry_path e) = file_content dir e"
proof -
  have "distinct (map fst (archive_files dir m))"
    using sorted_entry_paths [OF assms(1)] by (simp add: archive_files_def strictly_sorted_iff comp_def)
  moreover have "(entry_path e, file_content dir e) \<in> set (archive_files dir m)"
    using assms(2) by (auto simp: archive_files_def)
  ultimately show ?thesis by (simp add: file_bytes_def bt_get_def)
qed

lemma read_catalog_failed:
  "read_catalog provider dir es result files = Ok (Err f) \<Longrightarrow> \<not> dv_verified f"
proof (induction es arbitrary: result files)
  case (Cons e es)
  then obtain bs where "read_bounded_archive_file dir (entry_path e) = Ok bs" by (auto simp: result_inv)
  with Cons show ?case by (auto simp: Let_def fail_def split: if_splits)
qed simp

lemma failed_not_verified:
  "establish_identity_and_catalog blake3 root = Ok (Failed r) \<Longrightarrow> \<not> dv_verified r"
  by (auto simp: establish_identity_and_catalog_def establish_catalog_def result_inv case_result_eq_iff
      fail_def Let_def split: if_splits dest: read_catalog_failed)

section \<open>The rebuilt manifest\<close>

text \<open>
  For an established identity the rebuild from the bytes reproduces the catalog, so it never fails
  and differs from the archived manifest at most in the election manifest hash.
\<close>

lemma rebuild_manifest_eq:
  assumes id: "archive_identity blake3 dir m"
  shows "rebuild_manifest blake3 m (archive_files dir m) h = Ok (m\<lparr>am_election_manifest_hash := h\<rparr>)"
proof -
  let ?p = "Blake3HashProviderV1 blake3" and ?es = "fc_entries (am_files m)"
  have wf: "wf_archive_manifest m" by (rule identity_wf [OF id])
  have cat: "wf_file_catalog (am_files m)" and scope: "catalog_in_scope (am_files m)"
    using wf by (simp_all add: wf_archive_manifest_def)
  have "and_then (map_err (\<lambda>_. IoFailure) (ArchivePathV1_new (entry_path e)))
      (\<lambda>archive_path. Ok (entry_for_bytes archive_path ?p (file_content dir e))) = Ok e" if "e \<in> set ?es" for e
  proof -
    have "ArchivePathV1_new (entry_path e) = Ok (fe_path e)"
      using cat that by (auto simp: wf_file_catalog_def list_all_iff result_inv entry_path_def)
    moreover have "fe_digest e = digest_for_bytes ?p (file_content dir e)"
      using id that by (auto simp: archive_identity_def entry_on_disk_def file_content_def)
    ultimately show ?thesis by (simp add: entry_for_bytes_def)
  qed
  then have "collect_results (\<lambda>(path, bs).
      and_then (map_err (\<lambda>_. IoFailure) (ArchivePathV1_new path)) (\<lambda>archive_path.
      Ok (entry_for_bytes archive_path ?p bs))) (archive_files dir m) = Ok ?es"
    by (auto simp: collect_results_Ok_iff archive_files_def list_all2_conv_all_nth)
  moreover have "hp_algorithm_id ?p = am_hash_algorithm_id m"
    using id by (simp add: archive_identity_def Blake3HashProviderV1_def)
  moreover have "(if is_finalized_archive_manifest m
        then archive_manifest_finalized_for_provider h (am_files m) ?p
        else archive_manifest_for_provider h (am_files m) ?p) = Ok (m\<lparr>am_election_manifest_hash := h\<rparr>)"
    using wf scope calculation(2)
    by (auto simp: archive_manifest_finalized_for_provider_def archive_manifest_for_provider_def
        ArchiveManifestV1_new_def archive_manifest_new_Ok_iff is_finalized_archive_manifest_def
        wf_archive_manifest_def version_state_ok_def)
  ultimately show ?thesis
    using ArchiveFileCatalogV1_new_sorted [OF cat] by (simp add: rebuild_manifest_def)
qed

lemma length_enc_rehash:
  "length (archive_manifest_enc (m\<lparr>am_election_manifest_hash := h\<rparr>)) = length (archive_manifest_enc m)"
  by (simp add: archive_manifest_enc_def archive_header_enc_def archive_manifest_header_def enc_bytes_def)

lemma canonical_hash_rehash:
  assumes "wf_archive_manifest m" and "archive_manifest_canonical_hash p m = Ok a"
  shows "\<exists>b. archive_manifest_canonical_hash p (m\<lparr>am_election_manifest_hash := h\<rparr>) = Ok b"
proof -
  have "wf_archive_manifest (m\<lparr>am_election_manifest_hash := h\<rparr>)"
    using assms(1) by (simp add: wf_archive_manifest_def)
  then show ?thesis
    using assms by (auto simp: archive_manifest_canonical_hash_def result_inv validate_hash_provider_def
        archive_manifest_to_canonical_cbor_eq length_enc_rehash split: if_splits)
qed

lemma stage_archive_hash_eq:
  assumes id: "archive_identity blake3 dir (ei_archive_manifest ei)"
    and files: "ei_files ei = archive_files dir (ei_archive_manifest ei)"
    and hash: "archive_manifest_canonical_hash (Blake3HashProviderV1 blake3) (ei_archive_manifest ei) = Ok (ei_archive_hash ei)"
  shows "\<exists>result'. stage_archive_hash blake3 ei h result = Ok result'
    \<and> dv_verified result' = (h = am_election_manifest_hash (ei_archive_manifest ei))
    \<and> dv_finalized result' = (if h = am_election_manifest_hash (ei_archive_manifest ei)
        then is_finalized_archive_manifest (ei_archive_manifest ei) else dv_finalized result)
    \<and> dv_tally result' = dv_tally result \<and> dv_accepted_count result' = dv_accepted_count result
    \<and> dv_rejected_count result' = dv_rejected_count result"
proof -
  let ?m = "ei_archive_manifest ei"
  obtain b where b: "archive_manifest_canonical_hash (Blake3HashProviderV1 blake3)
      (?m\<lparr>am_election_manifest_hash := h\<rparr>) = Ok b"
    using canonical_hash_rehash [OF identity_wf [OF id] hash] by blast
  show ?thesis
  proof (cases "h = am_election_manifest_hash ?m")
    case True
    then have "?m\<lparr>am_election_manifest_hash := h\<rparr> = ?m" by simp
    with b hash rebuild_manifest_eq [OF id, of h] files True show ?thesis
      by (simp add: stage_archive_hash_def)
  next
    case False
    then have "?m\<lparr>am_election_manifest_hash := h\<rparr> \<noteq> ?m"
      by (metis archive_manifest_v1.select_convs(2) archive_manifest_v1.surjective archive_manifest_v1.update_convs(2))
    with b rebuild_manifest_eq [OF id, of h] files False show ?thesis
      by (simp add: stage_archive_hash_def fail_def)
  qed
qed


section \<open>The stages of a verified report\<close>

lemma fail_not_verified [simp]: "\<not> dv_verified (fail r st c)"
  by (simp add: fail_def)

lemma stage_err_simps [simp]:
  "stage_err r st (Ok x) = Ok x" "stage_err r st (Err c) = Err (fail r st c)"
  "stage_err r st v = Ok x \<longleftrightarrow> v = Ok x"
  by (simp_all add: stage_err_def result_inv)

lemma stage_err_Err_iff: "stage_err r st v = Err f \<longleftrightarrow> (\<exists>c. v = Err c \<and> f = fail r st c)"
  by (cases v) auto

lemma stage_Err_not_verified:
  "stage_artifacts nfc blake3 m files r = Err f \<Longrightarrow> \<not> dv_verified f"
  "stage_transport blake3 files a r = Err f \<Longrightarrow> \<not> dv_verified f"
  "stage_governance m a r = Err f \<Longrightarrow> \<not> dv_verified f"
  "stage_replay c blake3 m files a replay r = Err f \<Longrightarrow> \<not> dv_verified f"
  by (auto simp: stage_artifacts_def stage_transport_def stage_governance_def stage_replay_def Let_def
      and_then_Err_iff stage_err_Err_iff split: if_splits option.splits)

lemma stage_replay_Ok:
  assumes "stage_replay c blake3 m files a replay r = Ok (r', s)"
  shows "\<exists>s0 s1 t. session_new c blake3 a = Ok s0 \<and> session_open s0 = Ok s1
    \<and> replay s1 (map (file_bytes files) (submission_paths m)) = Ok s
    \<and> validate_complete (ss_transcript s) = Ok () \<and> direct_tally s = Ok t
    \<and> dv_tally r' = Some (summarize_tally t (ea_candidates (ss_artifacts s)))
    \<and> dv_accepted_count r' = accepted_count (ss_transcript s)
    \<and> dv_rejected_count r' = rejected_count (ss_transcript s)"
  using assms by (auto simp: stage_replay_def Let_def result_inv)

lemma finish_verified:
  assumes fin: "finish_verification_replaying c nfc blake3 ei replay = Ok rep" and "dv_verified rep"
    and id: "archive_identity blake3 dir (ei_archive_manifest ei)"
    and files: "ei_files ei = archive_files dir (ei_archive_manifest ei)"
    and hash: "archive_manifest_canonical_hash (Blake3HashProviderV1 blake3) (ei_archive_manifest ei) = Ok (ei_archive_hash ei)"
  shows "\<exists>r r1 r2 r3 a r4 s. stage_artifacts nfc blake3 (ei_archive_manifest ei) (ei_files ei) r = Ok (r1, a)
    \<and> stage_transport blake3 (ei_files ei) a r1 = Ok r2
    \<and> stage_governance (ei_archive_manifest ei) a r2 = Ok r3
    \<and> stage_replay c blake3 (ei_archive_manifest ei) (ei_files ei) a replay r3 = Ok (r4, s)
    \<and> ea_manifest_hash (ss_artifacts s) = am_election_manifest_hash (ei_archive_manifest ei)
    \<and> dv_finalized rep = is_finalized_archive_manifest (ei_archive_manifest ei)
    \<and> dv_tally rep = dv_tally r4 \<and> dv_accepted_count rep = dv_accepted_count r4
    \<and> dv_rejected_count rep = dv_rejected_count r4"
proof -
  let ?m = "ei_archive_manifest ei"
  obtain r1 a r2 r3 r4 s where
    st: "stage_artifacts nfc blake3 ?m (ei_files ei) (ei_result ei) = Ok (r1, a)"
      "stage_transport blake3 (ei_files ei) a r1 = Ok r2" "stage_governance ?m a r2 = Ok r3"
      "stage_replay c blake3 ?m (ei_files ei) a replay r3 = Ok (r4, s)"
    and h: "stage_archive_hash blake3 ei (ea_manifest_hash (ss_artifacts s)) r4 = Ok rep"
    using fin \<open>dv_verified rep\<close>
    by (auto simp: finish_verification_replaying_def Let_def case_result_eq_iff and_then_Err_iff
        and_then_Ok_iff dest: stage_Err_not_verified)
  have "ea_manifest_hash (ss_artifacts s) = am_election_manifest_hash ?m
      \<and> dv_finalized rep = is_finalized_archive_manifest ?m
      \<and> dv_tally rep = dv_tally r4 \<and> dv_accepted_count rep = dv_accepted_count r4
      \<and> dv_rejected_count rep = dv_rejected_count r4"
    using stage_archive_hash_eq [OF id files hash, of "ea_manifest_hash (ss_artifacts s)" r4] h \<open>dv_verified rep\<close>
    by auto
  with st show ?thesis by blast
qed

section \<open>What a verified archive shows\<close>

text \<open>The packages of an archive: the contents of its submission files, in path order.\<close>

definition archived_packages :: "fs_node \<Rightarrow> archive_manifest_v1 \<Rightarrow> bytes list" where
  "archived_packages dir m = map (file_bytes (archive_files dir m)) (submission_paths m)"

definition archived_artifacts ::
  "(nat list \<Rightarrow> nat list) \<Rightarrow> (bytes \<Rightarrow> bytes32) \<Rightarrow> fs_node \<Rightarrow> archive_manifest_v1 \<Rightarrow>
   archive_election_artifacts_v1 code_result" where
  "archived_artifacts nfc blake3 dir m =
     artifacts_from_bytes nfc blake3 (file_bytes (archive_files dir m) ELECTION_MANIFEST_ARCHIVE_PATH)
       (file_bytes (archive_files dir m) VOTER_REGISTRY_ARCHIVE_PATH)
       (file_bytes (archive_files dir m) CANDIDATE_SET_ARCHIVE_PATH)"

text \<open>The session after the one-by-one replay of the packages of an archive.\<close>

definition archived_session ::
  "('q, 'pt, 'pp, 'is, 'ts, 'pf, 'tr) triptych_lib \<Rightarrow> (bytes \<Rightarrow> bytes32) \<Rightarrow> fs_node \<Rightarrow> archive_manifest_v1 \<Rightarrow>
   archive_election_artifacts_v1 \<Rightarrow> archive_replay_session_v1 code_result" where
  "archived_session L blake3 dir m a =
     and_then (session_new (tl_dalek_v4 L) blake3 a) (\<lambda>s.
     and_then (session_open s) (replay_serial_for_test L blake3 (archived_packages dir m)))"

lemma verified_archive:
  assumes sound: "triptych_batch_sound L"
    and ver: "verify_archive_directory_v1 L nfc blake3 root = Ok rep" and verified: "dv_verified rep"
  shows "\<exists>dir m a s t. root = Ok dir \<and> archive_identity blake3 dir m
    \<and> archived_artifacts nfc blake3 dir m = Ok a
    \<and> am_election_manifest_hash m = ea_manifest_hash a
    \<and> archived_session L blake3 dir m a = Ok s
    \<and> ss_artifacts s = a \<and> session_inv L blake3 s
    \<and> length (vt_decisions (ss_transcript s)) = length (archived_packages dir m)
    \<and> direct_tally s = Ok t \<and> dv_tally rep = Some (summarize_tally t (ea_candidates a))
    \<and> dv_accepted_count rep = length (bl_accepted_ballots (ss_ledger s))
    \<and> dv_accepted_count rep + dv_rejected_count rep = length (archived_packages dir m)
    \<and> dv_finalized rep = is_finalized_archive_manifest m"
proof -
  from ver obtain outcome where o: "establish_identity_and_catalog blake3 root = Ok outcome"
    by (auto simp: verify_archive_directory_v1_def result_inv)
  obtain ei where est: "establish_identity_and_catalog blake3 root = Ok (Established ei)"
    and fin: "finish_verification L nfc blake3 ei = Ok rep"
    using ver verified o failed_not_verified
    by (cases outcome) (auto simp: verify_archive_directory_v1_def)
  from establish_Established [OF est] obtain dir m where root: "root = Ok dir"
    and id: "archive_identity blake3 dir m" and m: "ei_archive_manifest ei = m"
    and files: "ei_files ei = archive_files dir m"
    and hash: "archive_manifest_canonical_hash (Blake3HashProviderV1 blake3) m = Ok (ei_archive_hash ei)" by auto
  from finish_verified [OF fin [unfolded finish_verification_def] verified, of dir] id m files hash
  obtain r r1 r2 r3 a r4 s where st1: "stage_artifacts nfc blake3 m (archive_files dir m) r = Ok (r1, a)"
    and st4: "stage_replay (tl_dalek_v4 L) blake3 m (archive_files dir m) a
        (\<lambda>session packages. replay_batched L blake3 packages session) r3 = Ok (r4, s)"
    and mh: "ea_manifest_hash (ss_artifacts s) = am_election_manifest_hash m"
    and rep: "dv_finalized rep = is_finalized_archive_manifest m" "dv_tally rep = dv_tally r4"
      "dv_accepted_count rep = dv_accepted_count r4" "dv_rejected_count rep = dv_rejected_count r4"
    by auto
  from stage_replay_Ok [OF st4] obtain s0 s1 t where
    s0: "session_new (tl_dalek_v4 L) blake3 a = Ok s0" and s1: "session_open s0 = Ok s1"
    and replay: "replay_batched L blake3 (archived_packages dir m) s1 = Ok s"
    and t: "direct_tally s = Ok t" "dv_tally r4 = Some (summarize_tally t (ea_candidates (ss_artifacts s)))"
      "dv_accepted_count r4 = accepted_count (ss_transcript s)" "dv_rejected_count r4 = rejected_count (ss_transcript s)"
    by (auto simp: archived_packages_def)
  have s1_fields: "ss_artifacts s1 = a" "vt_decisions (ss_transcript s1) = []"
    using s0 s1 by (auto simp: session_new_def session_open_def result_inv transcript_new_def)
  have inv: "session_inv L blake3 s \<and> ss_artifacts s = a
      \<and> length (vt_decisions (ss_transcript s)) = length (archived_packages dir m)"
    using replay_serial_inv [OF session_inv_open [OF s1 session_inv_new [OF s0]], of L "archived_packages dir m" s]
      replay s1_fields by (simp add: replay_batched_serial [OF sound])
  have "accepted_count (ss_transcript s) \<le> length (vt_decisions (ss_transcript s))"
    by (simp add: accepted_count_def)
  moreover have "archived_session L blake3 dir m a = Ok s"
    using s0 s1 replay by (simp add: archived_session_def replay_batched_serial [OF sound])
  moreover have "archived_artifacts nfc blake3 dir m = Ok a"
    using st1 by (auto simp: stage_artifacts_def archived_artifacts_def result_inv split: if_splits)
  ultimately show ?thesis
    using root id inv mh rep t
    by (intro exI [of _ dir] exI [of _ m] exI [of _ a] exI [of _ s] exI [of _ t])
      (auto simp: session_inv_def rejected_count_def)
qed


section \<open>The archive hash identifies the archive\<close>

text \<open>The inputs that are hashed for an archive: the framed manifest and the framed file contents.\<close>

definition archive_hash_inputs :: "archive_manifest_v1 \<Rightarrow> file_map \<Rightarrow> bytes set" where
  "archive_hash_inputs m files =
     insert (domain_separated_input ArchiveManifestV1 (archive_manifest_enc m))
       ((\<lambda>f. domain_separated_input ArchiveFileV1 (snd f)) ` set files)"

definition archives_collide :: "(bytes \<Rightarrow> bytes32) \<Rightarrow> established_identity_v1 \<Rightarrow> established_identity_v1 \<Rightarrow> bool" where
  "archives_collide blake3 ei ei' \<longleftrightarrow>
     (\<exists>x \<in> archive_hash_inputs (ei_archive_manifest ei) (ei_files ei).
      \<exists>y \<in> archive_hash_inputs (ei_archive_manifest ei') (ei_files ei'). is_collision blake3 x y)"

lemma hp_hash_blake3 [simp]: "hp_hash (Blake3HashProviderV1 blake3) = blake3"
  by (simp add: Blake3HashProviderV1_def)

lemma archive_hash_binding:
  assumes "archive_identity blake3 dir m" and "archive_identity blake3 dir' m'"
    and "archive_manifest_canonical_hash (Blake3HashProviderV1 blake3) m = Ok h"
    and "archive_manifest_canonical_hash (Blake3HashProviderV1 blake3) m' = Ok h"
    and free: "\<And>x y. x \<in> archive_hash_inputs m (archive_files dir m) \<Longrightarrow>
      y \<in> archive_hash_inputs m' (archive_files dir' m') \<Longrightarrow> \<not> is_collision blake3 x y"
  shows "m = m' \<and> archive_files dir m = archive_files dir' m'"
proof -
  let ?p = "Blake3HashProviderV1 blake3"
  note wf = identity_wf [OF assms(1)] identity_wf [OF assms(2)]
  from assms(3,4) obtain bs cs where enc: "archive_manifest_to_canonical_cbor m = Ok bs"
    "archive_manifest_to_canonical_cbor m' = Ok cs"
    and eq: "hash_domain_separated ?p ArchiveManifestV1 bs = hash_domain_separated ?p ArchiveManifestV1 cs"
    by (auto simp: archive_manifest_canonical_hash_def result_inv)
  have "bs = archive_manifest_enc m" "cs = archive_manifest_enc m'"
    using enc wf by (auto simp: archive_manifest_to_canonical_cbor_eq split: if_splits)
  then have m: "m = m'"
    using archive_manifest_codec.digest_binding [OF wf enc eq] free enc
    by (auto simp: encodings_collide_def archive_hash_inputs_def)
  have "file_content dir e = file_content dir' e" if e: "e \<in> set (fc_entries (am_files m))" for e
  proof (rule ccontr)
    assume ne: "file_content dir e \<noteq> file_content dir' e"
    from assms(1,2) e m have "entry_on_disk ?p dir e" "entry_on_disk ?p dir' e"
      by (auto simp: archive_identity_def)
    then have "hash_domain_separated ?p ArchiveFileV1 (file_content dir e)
        = hash_domain_separated ?p ArchiveFileV1 (file_content dir' e)"
      by (auto simp: entry_on_disk_def file_content_def digest_for_bytes_def)
    from hash_domain_separated_collision [OF this] ne have "is_collision blake3
        (domain_separated_input ArchiveFileV1 (file_content dir e))
        (domain_separated_input ArchiveFileV1 (file_content dir' e))" by simp
    moreover have "domain_separated_input ArchiveFileV1 (file_content d e) \<in> archive_hash_inputs m (archive_files d m)" for d
      using e by (force simp: archive_hash_inputs_def archive_files_def)
    ultimately show False using free m by blast
  qed
  then show ?thesis using m by (auto simp: archive_files_def)
qed

lemma established_determined:
  assumes "establish_identity_and_catalog blake3 root = Ok (Established ei)"
    and "establish_identity_and_catalog blake3 root' = Ok (Established ei')"
    and "ei_archive_hash ei = ei_archive_hash ei'"
  shows "ei = ei' \<or> archives_collide blake3 ei ei'"
proof (cases "archives_collide blake3 ei ei'")
  case False
  from establish_Established [OF assms(1)] establish_Established [OF assms(2)] obtain dir m dir' m' where
    h: "archive_identity blake3 dir m" "archive_identity blake3 dir' m'"
    "archive_manifest_canonical_hash (Blake3HashProviderV1 blake3) m = Ok (ei_archive_hash ei)"
    "archive_manifest_canonical_hash (Blake3HashProviderV1 blake3) m' = Ok (ei_archive_hash ei')"
    and e: "ei_archive_manifest ei = m" "ei_files ei = archive_files dir m"
      "ei_result ei = established_report m (ei_archive_hash ei)"
      "ei_archive_manifest ei' = m'" "ei_files ei' = archive_files dir' m'"
      "ei_result ei' = established_report m' (ei_archive_hash ei')"
    by auto
  from h(4) assms(3) have "archive_manifest_canonical_hash (Blake3HashProviderV1 blake3) m' = Ok (ei_archive_hash ei)"
    by simp
  with archive_hash_binding [OF h(1-3)] False have "m = m' \<and> archive_files dir m = archive_files dir' m'"
    unfolding archives_collide_def e by blast
  with e assms(3) show ?thesis by auto
qed simp

end
