(* ===== verification/Archive_Memo.thy ===== *)
theory Archive_Memo
  imports Archive_Soundness
begin

text \<open>
  The verification memo (\<open>crates/archive/src/verification_memo.rs\<close>): a bounded cache of verified
  reports keyed by directory and archive hash, with one verification in flight per key. Requests
  run concurrently; every critical section of the code is one atomic step of \<open>memo_step\<close>. A lock is
  poisoned only by a thread that panics while holding it; such executions are not modelled.
\<close>

section \<open>State\<close>

definition ARCHIVE_VERIFICATION_MEMO_CAPACITY_V1 :: nat where
  "ARCHIVE_VERIFICATION_MEMO_CAPACITY_V1 = 4"

record archive_memo_key_v1 =
  mk_canonical_dir :: rstring
  mk_archive_hash :: archive_hash_v1

type_synonym verification_result = "(archive_directory_verification_v1, archive_verifier_error) result"

text \<open>A \<open>HashMap\<close> as an association list with one pair per key; its order carries no meaning.\<close>

definition hm_insert :: "'k \<Rightarrow> 'v \<Rightarrow> ('k \<times> 'v) list \<Rightarrow> ('k \<times> 'v) list" where
  "hm_insert k v m = (k, v) # filter (\<lambda>x. fst x \<noteq> k) m"

definition hm_remove :: "'k \<Rightarrow> ('k \<times> 'v) list \<Rightarrow> ('k \<times> 'v) list" where
  "hm_remove k m = filter (\<lambda>x. fst x \<noteq> k) m"

record memo_state_v1 =
  me_entries :: "(archive_memo_key_v1 \<times> archive_directory_verification_v1) list"
  me_recency :: "archive_memo_key_v1 list"
  me_in_flight :: "(archive_memo_key_v1 \<times> nat) list"

definition memo_state_new :: memo_state_v1 where
  "memo_state_new = \<lparr>me_entries = [], me_recency = [], me_in_flight = []\<rparr>"

definition memo_capacity :: "nat \<Rightarrow> nat" where
  "memo_capacity capacity = max capacity 1"

definition touch :: "archive_memo_key_v1 \<Rightarrow> memo_state_v1 \<Rightarrow> memo_state_v1" where
  "touch key s = s\<lparr>me_recency := filter (\<lambda>k. k \<noteq> key) (me_recency s) @ [key]\<rparr>"

section \<open>The critical sections\<close>

datatype memo_claim = Hit archive_directory_verification_v1 | Join nat | Own nat

text \<open>The locked block of \<open>get_or_finish\<close>; \<open>fresh\<close> is the flight object that is allocated if needed.\<close>

definition claim :: "archive_memo_key_v1 \<Rightarrow> nat \<Rightarrow> memo_state_v1 \<Rightarrow> memo_claim \<times> memo_state_v1" where
  "claim key fresh s =
     (case map_of (me_entries s) key of
        Some entry \<Rightarrow> (Hit entry, touch key s)
      | None \<Rightarrow>
          (let s = (if list_ex (\<lambda>(k, _). mk_canonical_dir k = mk_canonical_dir key) (me_entries s)
                    then s\<lparr>me_entries := filter (\<lambda>(k, _). mk_canonical_dir k \<noteq> mk_canonical_dir key) (me_entries s),
                           me_recency := filter (\<lambda>k. mk_canonical_dir k \<noteq> mk_canonical_dir key) (me_recency s)\<rparr>
                    else s) in
           case map_of (me_in_flight s) key of
             Some flight \<Rightarrow> (Join flight, s)
           | None \<Rightarrow> (Own fresh, s\<lparr>me_in_flight := hm_insert key fresh (me_in_flight s)\<rparr>)))"

fun evict ::
  "nat \<Rightarrow> ('k \<times> 'v) list \<Rightarrow> 'k list \<Rightarrow> ('k \<times> 'v) list \<times> 'k list" where
  "evict capacity entries [] = (entries, [])"
| "evict capacity entries (evicted # recency) =
     (if length entries > capacity then evict capacity (hm_remove evicted entries) recency
      else (entries, evicted # recency))"

text \<open>The locked block of \<open>publish_completion\<close>.\<close>

definition publish :: "nat \<Rightarrow> archive_memo_key_v1 \<Rightarrow> verification_result \<Rightarrow> memo_state_v1 \<Rightarrow> memo_state_v1" where
  "publish capacity key result s =
     (let s = s\<lparr>me_in_flight := hm_remove key (me_in_flight s)\<rparr> in
      case result of
        Err _ \<Rightarrow> s
      | Ok report \<Rightarrow>
          if dv_verified report then
            (let s = touch key (s\<lparr>me_entries := hm_insert key report (me_entries s)\<rparr>);
                 (entries, recency) = evict capacity (me_entries s) (me_recency s) in
             s\<lparr>me_entries := entries, me_recency := recency\<rparr>)
          else s)"

section \<open>Concurrent requests\<close>

text \<open>
  The life of one request to \<open>verify\<close> on the directory \<open>root\<close>: it ends at once when the identity is not
  established or on a hit; otherwise it owns the flight of its key or waits for the owner. The owner
  publishes into the memo and then, under the flight's own lock, hands out the result.
\<close>

datatype request =
    Idle
  | Owning "(fs_node, io_error) result" archive_memo_key_v1 established_identity_v1 nat
  | Publishing "(fs_node, io_error) result" nat verification_result
  | Waiting "(fs_node, io_error) result" archive_memo_key_v1 established_identity_v1 nat
  | Finished "(fs_node, io_error) result" verification_result

record memo_world =
  mw_memo :: memo_state_v1
  mw_flights :: "verification_result option list"
  mw_requests :: "nat \<Rightarrow> request"

definition memo_world_new :: memo_world where
  "memo_world_new = \<lparr>mw_memo = memo_state_new, mw_flights = [], mw_requests = (\<lambda>_. Idle)\<rparr>"

definition start_request ::
  "(fs_node, io_error) result \<Rightarrow> rstring \<Rightarrow> established_identity_v1 \<Rightarrow> nat \<Rightarrow> memo_world \<Rightarrow> memo_world" where
  "start_request root canonical_dir ei t w =
     (let key = \<lparr>mk_canonical_dir = canonical_dir, mk_archive_hash = ei_archive_hash ei\<rparr>;
          (c, s) = claim key (length (mw_flights w)) (mw_memo w) in
      case c of
        Hit report \<Rightarrow> w\<lparr>mw_memo := s, mw_requests := (mw_requests w)(t := Finished root (Ok report))\<rparr>
      | Join flight \<Rightarrow> w\<lparr>mw_memo := s, mw_requests := (mw_requests w)(t := Waiting root key ei flight)\<rparr>
      | Own flight \<Rightarrow> w\<lparr>mw_memo := s, mw_flights := mw_flights w @ [None],
                         mw_requests := (mw_requests w)(t := Owning root key ei flight)\<rparr>)"

inductive memo_step ::
  "('q, 'pt, 'pp, 'is, 'ts, 'pf, 'tr) triptych_lib \<Rightarrow> (nat list \<Rightarrow> nat list) \<Rightarrow> (bytes \<Rightarrow> bytes32) \<Rightarrow>
   nat \<Rightarrow> memo_world \<Rightarrow> memo_world \<Rightarrow> bool"
  for L nfc blake3 capacity where
  step_error: "mw_requests w t = Idle \<Longrightarrow> establish_identity_and_catalog blake3 root = Err e \<Longrightarrow>
    memo_step L nfc blake3 capacity w (w\<lparr>mw_requests := (mw_requests w)(t := Finished root (Err e))\<rparr>)"
| step_failed: "mw_requests w t = Idle \<Longrightarrow> establish_identity_and_catalog blake3 root = Ok (Failed r) \<Longrightarrow>
    memo_step L nfc blake3 capacity w (w\<lparr>mw_requests := (mw_requests w)(t := Finished root (Ok r))\<rparr>)"
| step_start: "mw_requests w t = Idle \<Longrightarrow> establish_identity_and_catalog blake3 root = Ok (Established ei) \<Longrightarrow>
    memo_step L nfc blake3 capacity w (start_request root canonical_dir ei t w)"
| step_publish: "mw_requests w t = Owning root key ei flight \<Longrightarrow>
    result = finish_verification L nfc blake3 ei \<Longrightarrow>
    memo_step L nfc blake3 capacity w (w\<lparr>mw_memo := publish (memo_capacity capacity) key result (mw_memo w),
      mw_requests := (mw_requests w)(t := Publishing root flight result)\<rparr>)"
| step_announce: "mw_requests w t = Publishing root flight result \<Longrightarrow>
    memo_step L nfc blake3 capacity w (w\<lparr>mw_flights := (mw_flights w)[flight := Some result],
      mw_requests := (mw_requests w)(t := Finished root result)\<rparr>)"
| step_wake: "mw_requests w t = Waiting root key ei flight \<Longrightarrow> flight < length (mw_flights w) \<Longrightarrow>
    mw_flights w ! flight = Some result \<Longrightarrow>
    memo_step L nfc blake3 capacity w (w\<lparr>mw_requests := (mw_requests w)(t := Finished root result)\<rparr>)"

inductive memo_reachable ::
  "('q, 'pt, 'pp, 'is, 'ts, 'pf, 'tr) triptych_lib \<Rightarrow> (nat list \<Rightarrow> nat list) \<Rightarrow> (bytes \<Rightarrow> bytes32) \<Rightarrow>
   nat \<Rightarrow> memo_world \<Rightarrow> bool"
  for L nfc blake3 capacity where
  memo_start: "memo_reachable L nfc blake3 capacity memo_world_new"
| memo_next: "memo_reachable L nfc blake3 capacity w \<Longrightarrow> memo_step L nfc blake3 capacity w w' \<Longrightarrow>
    memo_reachable L nfc blake3 capacity w'"


section \<open>The cache is bounded\<close>

definition memo_inv :: "nat \<Rightarrow> memo_state_v1 \<Rightarrow> bool" where
  "memo_inv capacity s \<longleftrightarrow>
     distinct (map fst (me_entries s)) \<and> distinct (me_recency s)
     \<and> set (me_recency s) = fst ` set (me_entries s)
     \<and> length (me_entries s) \<le> memo_capacity capacity"

lemma hm_keys [simp]:
  "fst ` set (hm_insert k v m) = insert k (fst ` set m)" "fst ` set (hm_remove k m) = fst ` set m - {k}"
  by (auto simp: hm_insert_def hm_remove_def image_iff)

lemma hm_distinct [simp]:
  "distinct (map fst m) \<Longrightarrow> distinct (map fst (hm_insert k v m))"
  "distinct (map fst m) \<Longrightarrow> distinct (map fst (hm_remove k m))"
  by (auto simp: hm_insert_def hm_remove_def distinct_map inj_on_def)

lemma evict_inv:
  assumes "distinct (map fst entries)" "distinct recency" "set recency = fst ` set entries"
    and "evict capacity entries recency = (entries', recency')"
  shows "distinct (map fst entries') \<and> distinct recency' \<and> set recency' = fst ` set entries'
    \<and> length entries' \<le> capacity \<and> set entries' \<subseteq> set entries"
  using assms
proof (induction capacity entries recency rule: evict.induct)
  case (2 capacity entries evicted recency)
  show ?case
  proof (cases "length entries > capacity")
    case True
    have "set recency = fst ` set (hm_remove evicted entries)" using "2.prems" by auto
    with 2 True have "distinct (map fst entries') \<and> distinct recency' \<and> set recency' = fst ` set entries'
        \<and> length entries' \<le> capacity \<and> set entries' \<subseteq> set (hm_remove evicted entries)" by simp
    then show ?thesis by (auto simp: hm_remove_def)
  next
    case False
    then have "entries' = entries" "recency' = evicted # recency" using "2.prems"(4) by simp_all
    then show ?thesis using "2.prems" False by simp
  qed
qed simp

text \<open>The front of the recency list goes first, so with room for one entry the newest one stays.\<close>

lemma evict_keeps_last:
  assumes "distinct (map fst entries)" "distinct (recency @ [k])" "set (recency @ [k]) = fst ` set entries"
    and "0 < capacity" "evict capacity entries (recency @ [k]) = (entries', recency')"
  shows "k \<in> set recency'"
  using assms
proof (induction recency arbitrary: entries)
  case Nil
  then have "fst ` set entries = {k}" by simp
  then have "length entries = 1"
    using distinct_card [OF Nil.prems(1)] by simp
  then show ?case using Nil.prems by (auto split: if_splits)
next
  case (Cons x recency)
  show ?case
  proof (cases "length entries > capacity")
    case True
    have "set (recency @ [k]) = fst ` set (hm_remove x entries)" using Cons.prems(2,3) by auto
    then show ?thesis using Cons.IH [of "hm_remove x entries"] Cons.prems True by simp
  qed (use Cons.prems in auto)
qed

lemma touch_inv:
  "key \<in> fst ` set (me_entries s) \<Longrightarrow> memo_inv capacity s \<Longrightarrow> memo_inv capacity (touch key s)"
  by (auto simp: memo_inv_def touch_def)

lemma claim_inv:
  assumes "memo_inv capacity s" and "claim key fresh s = (c, s')"
  shows "memo_inv capacity s'"
proof (cases "map_of (me_entries s) key")
  case (Some entry)
  then have "key \<in> fst ` set (me_entries s)" by (metis domI dom_map_of_conv_image_fst)
  then show ?thesis using assms Some by (auto simp: claim_def intro: touch_inv)
next
  case None
  have "memo_inv capacity (s\<lparr>me_entries := filter (\<lambda>(k, _). mk_canonical_dir k \<noteq> d) (me_entries s),
      me_recency := filter (\<lambda>k. mk_canonical_dir k \<noteq> d) (me_recency s)\<rparr>)" for d
    using assms(1) by (force simp: memo_inv_def distinct_map inj_on_def intro: order_trans [OF length_filter_le])
  moreover have "memo_inv capacity (s1\<lparr>me_in_flight := f\<rparr>) = memo_inv capacity s1" for s1 f
    by (simp add: memo_inv_def)
  ultimately show ?thesis
    using assms None by (auto simp: claim_def Let_def split: option.splits if_splits)
qed

lemma publish_inv:
  assumes "memo_inv capacity s"
  shows "memo_inv capacity (publish (memo_capacity capacity) key result s)"
proof (cases result)
  case (Ok report)
  obtain es rs where ev: "evict (memo_capacity capacity) (hm_insert key report (me_entries s))
      (filter (\<lambda>k. k \<noteq> key) (me_recency s) @ [key]) = (es, rs)" by fastforce
  have "distinct (map fst es) \<and> distinct rs \<and> set rs = fst ` set es \<and> length es \<le> memo_capacity capacity"
    using assms evict_inv [OF _ _ _ ev] by (auto simp: memo_inv_def)
  then show ?thesis
    using assms Ok ev by (simp add: publish_def touch_def memo_inv_def Let_def)
qed (use assms in \<open>simp add: publish_def memo_inv_def\<close>)

lemma memo_reachable_inv:
  "memo_reachable L nfc blake3 capacity w \<Longrightarrow> memo_inv capacity (mw_memo w)"
proof (induction rule: memo_reachable.induct)
  case (memo_next w w')
  from memo_next(2,3) show ?case
    by cases (auto simp: start_request_def Let_def publish_inv split: prod.splits memo_claim.splits
        intro: claim_inv)
qed (simp add: memo_world_new_def memo_state_new_def memo_inv_def)


section \<open>The memo is transparent\<close>

text \<open>The directories that have been requested so far; a request is never forgotten.\<close>

primrec request_root :: "request \<Rightarrow> (fs_node, io_error) result option" where
  "request_root Idle = None"
| "request_root (Owning root key ei flight) = Some root"
| "request_root (Publishing root flight result) = Some root"
| "request_root (Waiting root key ei flight) = Some root"
| "request_root (Finished root result) = Some root"

definition requested :: "memo_world \<Rightarrow> (fs_node, io_error) result set" where
  "requested w = {root. \<exists>t. request_root (mw_requests w t) = Some root}"

lemma requestedI: "request_root (mw_requests w t) = Some root \<Longrightarrow> root \<in> requested w"
  by (auto simp: requested_def)

lemma requested_upd:
  "request_root (rs t) = None \<or> request_root q = request_root (rs t) \<Longrightarrow>
     {root. \<exists>t. request_root (rs t) = Some root} \<subseteq> {root. \<exists>t'. request_root ((rs(t := q)) t') = Some root}"
  by (auto; metis option.distinct(1) fun_upd_apply)

lemma memo_step_requested:
  assumes "memo_step L nfc blake3 capacity w w'"
  shows "requested w \<subseteq> requested w'"
  using assms
proof cases
  case (step_start t root ei d)
  then show ?thesis
    using requested_upd [of "mw_requests w" t]
    by (auto simp: requested_def start_request_def Let_def simp del: fun_upd_apply split: prod.splits memo_claim.splits)
qed (use requested_upd [of "mw_requests w"] in \<open>auto simp: requested_def simp del: fun_upd_apply\<close>)

text \<open>
  \<open>result\<close> is the outcome of the remaining stages for an established identity with this archive hash,
  of a directory of \<open>R\<close>. An answer is the report of the unmemoised verifier, or the hashed inputs of
  the directory and of another requested directory contain a collision.
\<close>

definition result_for ::
  "(fs_node, io_error) result set \<Rightarrow> ('q, 'pt, 'pp, 'is, 'ts, 'pf, 'tr) triptych_lib \<Rightarrow> (nat list \<Rightarrow> nat list) \<Rightarrow> (bytes \<Rightarrow> bytes32) \<Rightarrow>
   archive_hash_v1 \<Rightarrow> verification_result \<Rightarrow> bool" where
  "result_for R L nfc blake3 h result \<longleftrightarrow>
     (\<exists>root \<in> R. \<exists>ei. establish_identity_and_catalog blake3 root = Ok (Established ei)
        \<and> ei_archive_hash ei = h \<and> result = finish_verification L nfc blake3 ei)"

definition answer_ok ::
  "(fs_node, io_error) result set \<Rightarrow> ('q, 'pt, 'pp, 'is, 'ts, 'pf, 'tr) triptych_lib \<Rightarrow> (nat list \<Rightarrow> nat list) \<Rightarrow> (bytes \<Rightarrow> bytes32) \<Rightarrow>
   (fs_node, io_error) result \<Rightarrow> verification_result \<Rightarrow> bool" where
  "answer_ok R L nfc blake3 root result \<longleftrightarrow>
     result = verify_archive_directory_v1 L nfc blake3 root
     \<or> (\<exists>root' \<in> R. \<exists>ei ei'. establish_identity_and_catalog blake3 root = Ok (Established ei)
          \<and> establish_identity_and_catalog blake3 root' = Ok (Established ei') \<and> archives_collide blake3 ei ei')"

lemma result_for_answer:
  assumes "establish_identity_and_catalog blake3 root = Ok (Established ei)"
    and "result_for R L nfc blake3 (ei_archive_hash ei) result"
  shows "answer_ok R L nfc blake3 root result"
  using assms established_determined [OF assms(1)]
  by (force simp: result_for_def answer_ok_def verify_archive_directory_v1_def)

text \<open>The invariant, with the archive hash each flight was started for as a ghost component.\<close>

primrec request_inv ::
  "(fs_node, io_error) result set \<Rightarrow> ('q, 'pt, 'pp, 'is, 'ts, 'pf, 'tr) triptych_lib \<Rightarrow> (nat list \<Rightarrow> nat list) \<Rightarrow> (bytes \<Rightarrow> bytes32) \<Rightarrow>
   archive_hash_v1 list \<Rightarrow> request \<Rightarrow> bool" where
  "request_inv R L nfc blake3 hs Idle = True"
| "request_inv R L nfc blake3 hs (Owning root key ei flight) =
     (establish_identity_and_catalog blake3 root = Ok (Established ei) \<and> flight < length hs
      \<and> hs ! flight = ei_archive_hash ei \<and> mk_archive_hash key = ei_archive_hash ei)"
| "request_inv R L nfc blake3 hs (Publishing root flight result) =
     (flight < length hs \<and> result_for R L nfc blake3 (hs ! flight) result \<and> answer_ok R L nfc blake3 root result)"
| "request_inv R L nfc blake3 hs (Waiting root key ei flight) =
     (establish_identity_and_catalog blake3 root = Ok (Established ei) \<and> flight < length hs
      \<and> hs ! flight = ei_archive_hash ei)"
| "request_inv R L nfc blake3 hs (Finished root result) = answer_ok R L nfc blake3 root result"

definition cache_inv ::
  "(fs_node, io_error) result set \<Rightarrow> ('q, 'pt, 'pp, 'is, 'ts, 'pf, 'tr) triptych_lib \<Rightarrow> (nat list \<Rightarrow> nat list) \<Rightarrow> (bytes \<Rightarrow> bytes32) \<Rightarrow>
   archive_hash_v1 list \<Rightarrow> memo_state_v1 \<Rightarrow> bool" where
  "cache_inv R L nfc blake3 hs s \<longleftrightarrow>
     (\<forall>(k, r) \<in> set (me_entries s). dv_verified r \<and> result_for R L nfc blake3 (mk_archive_hash k) (Ok r))
     \<and> (\<forall>(k, f) \<in> set (me_in_flight s). f < length hs \<and> hs ! f = mk_archive_hash k)"

text \<open>The request that will set a flight's outcome.\<close>

primrec owns :: "nat \<Rightarrow> request \<Rightarrow> bool" where
  "owns f Idle = False"
| "owns f (Owning root key ei flight) = (flight = f)"
| "owns f (Publishing root flight result) = (flight = f)"
| "owns f (Waiting root key ei flight) = False"
| "owns f (Finished root result) = False"

definition has_owner :: "nat \<Rightarrow> (nat \<Rightarrow> request) \<Rightarrow> bool" where
  "has_owner f requests \<longleftrightarrow> (\<exists>t. owns f (requests t))"

definition flight_inv ::
  "(fs_node, io_error) result set \<Rightarrow> ('q, 'pt, 'pp, 'is, 'ts, 'pf, 'tr) triptych_lib \<Rightarrow> (nat list \<Rightarrow> nat list) \<Rightarrow> (bytes \<Rightarrow> bytes32) \<Rightarrow>
   archive_hash_v1 list \<Rightarrow> verification_result option list \<Rightarrow> (nat \<Rightarrow> request) \<Rightarrow> bool" where
  "flight_inv R L nfc blake3 hs flights requests \<longleftrightarrow>
     length hs = length flights
     \<and> (\<forall>f < length hs. case flights ! f of
           Some r \<Rightarrow> result_for R L nfc blake3 (hs ! f) r
         | None \<Rightarrow> has_owner f requests)"

definition world_inv ::
  "(fs_node, io_error) result set \<Rightarrow> ('q, 'pt, 'pp, 'is, 'ts, 'pf, 'tr) triptych_lib \<Rightarrow> (nat list \<Rightarrow> nat list) \<Rightarrow> (bytes \<Rightarrow> bytes32) \<Rightarrow>
   archive_hash_v1 list \<Rightarrow> memo_world \<Rightarrow> bool" where
  "world_inv R L nfc blake3 hs w \<longleftrightarrow>
     cache_inv R L nfc blake3 hs (mw_memo w)
     \<and> flight_inv R L nfc blake3 hs (mw_flights w) (mw_requests w)
     \<and> (\<forall>t. request_inv R L nfc blake3 hs (mw_requests w t))"

lemma has_owner_upd:
  "has_owner f rs \<Longrightarrow> owns f (rs t) \<longrightarrow> owns f q \<Longrightarrow> has_owner f (rs(t := q))"
  "owns f q \<Longrightarrow> has_owner f (rs(t := q))"
  unfolding has_owner_def by (metis fun_upd_apply)+

lemma flight_inv_upd:
  assumes "flight_inv R L nfc blake3 hs fls rs" and "\<And>f. owns f (rs t) \<Longrightarrow> owns f q"
  shows "flight_inv R L nfc blake3 hs fls (rs(t := q))"
  using assms(1) has_owner_upd(1) [of _ rs t q] assms(2)
  by (auto simp: flight_inv_def split: option.splits)

lemma flight_inv_new:
  assumes "flight_inv R L nfc blake3 hs fls rs" and "rs t = Idle"
  shows "flight_inv R L nfc blake3 (hs @ [h]) (fls @ [None]) (rs(t := Owning root key ei (length fls)))"
proof -
  have "flight_inv R L nfc blake3 hs fls (rs(t := Owning root key ei (length fls)))"
    using assms by (intro flight_inv_upd) auto
  then show ?thesis
    by (auto simp: flight_inv_def nth_append less_Suc_eq has_owner_upd(2) split: option.splits)
qed

lemma flight_inv_announce:
  assumes "flight_inv R L nfc blake3 hs fls rs" and "rs t = Publishing root f r"
    and "f < length hs" and "result_for R L nfc blake3 (hs ! f) r"
  shows "flight_inv R L nfc blake3 hs (fls[f := Some r]) (rs(t := Finished root r))"
  unfolding flight_inv_def
proof (intro conjI allI impI)
  fix g assume g: "g < length hs"
  show "case fls[f := Some r] ! g of Some r \<Rightarrow> result_for R L nfc blake3 (hs ! g) r
      | None \<Rightarrow> has_owner g (rs(t := Finished root r))"
  proof (cases "g = f")
    case False
    then show ?thesis
      using assms(1,2) g has_owner_upd(1) [of g rs t "Finished root r"]
      by (auto simp: flight_inv_def split: option.splits)
  qed (use assms g in \<open>simp add: flight_inv_def\<close>)
qed (use assms in \<open>simp add: flight_inv_def\<close>)

lemma request_inv_mono: "request_inv R L nfc blake3 hs r \<Longrightarrow> request_inv R L nfc blake3 (hs @ [h]) r"
  by (cases r) (auto simp: nth_append)

lemma touch_simps [simp]:
  "me_entries (touch k s) = me_entries s" "me_in_flight (touch k s) = me_in_flight s"
  by (simp_all add: touch_def)

lemma claim_cases:
  assumes "claim key fresh s = (c, s')"
  obtains (hit) r where "c = Hit r" "(key, r) \<in> set (me_entries s)" "me_entries s' = me_entries s"
      "me_in_flight s' = me_in_flight s"
  | (join) f where "c = Join f" "(key, f) \<in> set (me_in_flight s)" "set (me_entries s') \<subseteq> set (me_entries s)"
      "me_in_flight s' = me_in_flight s"
  | (own) "c = Own fresh" "set (me_entries s') \<subseteq> set (me_entries s)"
      "me_in_flight s' = hm_insert key fresh (me_in_flight s)"
proof (cases "map_of (me_entries s) key")
  case (Some r)
  then show ?thesis using assms hit [of r] by (auto simp: claim_def dest: map_of_SomeD)
next
  case None
  define s1 where "s1 = (if list_ex (\<lambda>(k, _). mk_canonical_dir k = mk_canonical_dir key) (me_entries s)
      then s\<lparr>me_entries := filter (\<lambda>(k, _). mk_canonical_dir k \<noteq> mk_canonical_dir key) (me_entries s),
             me_recency := filter (\<lambda>k. mk_canonical_dir k \<noteq> mk_canonical_dir key) (me_recency s)\<rparr>
      else s)"
  have s1: "set (me_entries s1) \<subseteq> set (me_entries s)" "me_in_flight s1 = me_in_flight s"
    by (auto simp: s1_def)
  have "claim key fresh s = (case map_of (me_in_flight s1) key of
      Some flight \<Rightarrow> (Join flight, s1)
    | None \<Rightarrow> (Own fresh, s1\<lparr>me_in_flight := hm_insert key fresh (me_in_flight s1)\<rparr>))"
    using None by (simp only: claim_def option.case s1_def Let_def)
  then show ?thesis
    using assms s1 join own by (cases "map_of (me_in_flight s) key") (auto dest: map_of_SomeD)
qed

lemma evict_subset: "set (fst (evict cap es rs)) \<subseteq> set es"
  by (induction cap es rs rule: evict.induct) (auto simp: hm_remove_def)

lemma publish_entries:
  "set (me_entries (publish cap key result s)) \<subseteq>
     set (me_entries s) \<union> {(key, r) | r. result = Ok r \<and> dv_verified r}"
  "set (me_in_flight (publish cap key result s)) \<subseteq> set (me_in_flight s)"
proof -
  show "set (me_in_flight (publish cap key result s)) \<subseteq> set (me_in_flight s)"
    by (cases result) (auto simp: publish_def Let_def hm_remove_def split: prod.splits)
  show "set (me_entries (publish cap key result s)) \<subseteq>
     set (me_entries s) \<union> {(key, r) | r. result = Ok r \<and> dv_verified r}"
  proof (cases result)
    case (Ok r)
    obtain es rs where e: "evict cap (hm_insert key r (me_entries s)) (me_recency (touch key s)) = (es, rs)" by fastforce
    have "set es \<subseteq> set (hm_insert key r (me_entries s))"
      by (metis e evict_subset fst_conv)
    then have "set es \<subseteq> insert (key, r) (set (me_entries s))" by (auto simp: hm_insert_def)
    then show ?thesis using Ok e by (auto simp: publish_def touch_def Let_def)
  qed (simp add: publish_def)
qed


lemma cache_inv_subset:
  assumes "cache_inv R L nfc blake3 hs s" and "set (me_entries s') \<subseteq> set (me_entries s)"
    and "set (me_in_flight s') \<subseteq> set (me_in_flight s)"
  shows "cache_inv R L nfc blake3 hs s'"
  using assms by (auto simp: cache_inv_def)

lemma cache_inv_mono: "cache_inv R L nfc blake3 hs s \<Longrightarrow> cache_inv R L nfc blake3 (hs @ [h]) s"
  by (auto simp: cache_inv_def nth_append)

lemma world_inv_upd:
  assumes "world_inv R L nfc blake3 hs w" and "cache_inv R L nfc blake3 hs s"
    and "request_inv R L nfc blake3 hs q" and "\<And>f. owns f (mw_requests w t) \<Longrightarrow> owns f q"
  shows "world_inv R L nfc blake3 hs (w\<lparr>mw_memo := s, mw_requests := (mw_requests w)(t := q)\<rparr>)"
  using assms flight_inv_upd [of R L nfc blake3 hs "mw_flights w" "mw_requests w" t q]
  by (simp add: world_inv_def)

lemma start_request_inv:
  assumes inv: "world_inv R L nfc blake3 hs w" and idle: "mw_requests w t = Idle"
    and est: "establish_identity_and_catalog blake3 root = Ok (Established ei)"
  shows "\<exists>hs'. world_inv R L nfc blake3 hs' (start_request root d ei t w)"
proof -
  let ?key = "\<lparr>mk_canonical_dir = d, mk_archive_hash = ei_archive_hash ei\<rparr>"
  obtain c s where cl: "claim ?key (length (mw_flights w)) (mw_memo w) = (c, s)" by fastforce
  have cache: "cache_inv R L nfc blake3 hs (mw_memo w)" and len: "length hs = length (mw_flights w)"
    using inv by (simp_all add: world_inv_def flight_inv_def)
  from cl show ?thesis
  proof (cases rule: claim_cases)
    case (hit r)
    have "answer_ok R L nfc blake3 root (Ok r)"
      using cache hit by (intro result_for_answer [OF est]) (auto simp: cache_inv_def)
    moreover have "cache_inv R L nfc blake3 hs s" using hit by (intro cache_inv_subset [OF cache]) auto
    ultimately show ?thesis
      using hit cl idle world_inv_upd [OF inv, of s "Finished root (Ok r)" t] by (auto simp: start_request_def)
  next
    case (join f)
    have "f < length hs \<and> hs ! f = ei_archive_hash ei" using cache join by (auto simp: cache_inv_def)
    moreover have "cache_inv R L nfc blake3 hs s" using join by (intro cache_inv_subset [OF cache]) auto
    ultimately show ?thesis
      using join cl idle est world_inv_upd [OF inv, of s "Waiting root ?key ei f" t]
      by (auto simp: start_request_def)
  next
    case own
    let ?hs = "hs @ [ei_archive_hash ei]"
    have last: "?hs ! length (mw_flights w) = ei_archive_hash ei" by (simp flip: len)
    have "cache_inv R L nfc blake3 ?hs s"
      using cache_inv_mono [OF cache, of "ei_archive_hash ei"] own last len
      by (auto simp: cache_inv_def hm_insert_def)
    moreover have "flight_inv R L nfc blake3 ?hs (mw_flights w @ [None])
        ((mw_requests w)(t := Owning root ?key ei (length (mw_flights w))))"
      using inv idle by (intro flight_inv_new) (simp_all add: world_inv_def)
    moreover have "request_inv R L nfc blake3 ?hs (mw_requests w t')" for t'
      using inv by (simp add: world_inv_def request_inv_mono)
    ultimately have "world_inv R L nfc blake3 ?hs (start_request root d ei t w)"
      using own cl len est last by (simp add: start_request_def world_inv_def)
    then show ?thesis by blast
  qed
qed

lemma memo_step_inv:
  assumes "memo_step L nfc blake3 capacity w w'" and inv: "world_inv R L nfc blake3 hs w" and sub: "requested w \<subseteq> R"
  shows "\<exists>hs'. world_inv R L nfc blake3 hs' w'"
proof -
  have cache: "cache_inv R L nfc blake3 hs (mw_memo w)" and req: "\<And>t. request_inv R L nfc blake3 hs (mw_requests w t)"
    and fl: "flight_inv R L nfc blake3 hs (mw_flights w) (mw_requests w)"
    using inv by (simp_all add: world_inv_def)
  note upd = world_inv_upd [OF inv cache, simplified]
  from assms(1) show ?thesis
  proof cases
    case (step_error t root e)
    then have "request_inv R L nfc blake3 hs (Finished root (Err e))"
      by (simp add: answer_ok_def verify_archive_directory_v1_def)
    then show ?thesis using step_error upd [of "Finished root (Err e)" t] by auto
  next
    case (step_failed t root r)
    then have "request_inv R L nfc blake3 hs (Finished root (Ok r))"
      by (simp add: answer_ok_def verify_archive_directory_v1_def)
    then show ?thesis using step_failed upd [of "Finished root (Ok r)" t] by auto
  next
    case (step_start t root ei d)
    then show ?thesis using start_request_inv [OF inv] by simp
  next
    case (step_publish t root key ei f result)
    have q: "request_inv R L nfc blake3 hs (Owning root key ei f)" using req [of t] step_publish by simp
    then have res: "result_for R L nfc blake3 (ei_archive_hash ei) result"
      using step_publish requestedI [of w t root] sub by (auto simp: result_for_def)
    have "cache_inv R L nfc blake3 hs (publish (memo_capacity capacity) key result (mw_memo w))"
      using cache q res publish_entries [of "memo_capacity capacity" key result "mw_memo w"]
      by (fastforce simp: cache_inv_def)
    moreover have "request_inv R L nfc blake3 hs (Publishing root f result)"
      using q res by (auto intro: result_for_answer)
    ultimately show ?thesis
      using step_publish world_inv_upd [OF inv, of _ "Publishing root f result" t] by auto
  next
    case (step_announce t root f result)
    have q: "request_inv R L nfc blake3 hs (Publishing root f result)" using req [of t] step_announce by simp
    then show ?thesis
      using flight_inv_announce [OF fl, of t root f result] step_announce cache req
      by (auto simp: world_inv_def intro!: exI [of _ hs])
  next
    case (step_wake t root key ei f result)
    have q: "request_inv R L nfc blake3 hs (Waiting root key ei f)" using req [of t] step_wake by simp
    then have "result_for R L nfc blake3 (ei_archive_hash ei) result"
      using fl step_wake by (auto simp: flight_inv_def split: option.splits)
    then have "request_inv R L nfc blake3 hs (Finished root result)" using q by (auto intro: result_for_answer)
    then show ?thesis using step_wake upd [of "Finished root result" t] by auto
  qed
qed

lemma memo_reachable_world_inv:
  "memo_reachable L nfc blake3 capacity w \<Longrightarrow> requested w \<subseteq> R \<Longrightarrow> \<exists>hs. world_inv R L nfc blake3 hs w"
proof (induction rule: memo_reachable.induct)
  case memo_start
  have "world_inv R L nfc blake3 [] memo_world_new"
    by (simp add: world_inv_def memo_world_new_def memo_state_new_def cache_inv_def flight_inv_def)
  then show ?case by blast
next
  case (memo_next w w')
  have "requested w \<subseteq> R" using memo_step_requested [OF memo_next(2)] memo_next(4) by blast
  then show ?case using memo_step_inv [OF memo_next(2)] memo_next(3) by blast
qed


section \<open>No request waits forever\<close>

text \<open>
  A waiting request's flight is settled or has an owner, and the owner needs no other request: two
  of its steps settle the flight, and then the waiting request can finish.
\<close>

lemma settle_flight:
  assumes "owns f (mw_requests w t)" and "mw_requests w t' = Waiting root key ei f" and "f < length (mw_flights w)"
  shows "\<exists>w1 r. (memo_step L nfc blake3 capacity)\<^sup>*\<^sup>* w w1 \<and> mw_requests w1 t' = Waiting root key ei f
    \<and> f < length (mw_flights w1) \<and> mw_flights w1 ! f = Some r"
proof -
  have tt: "t \<noteq> t'" using assms by auto
  have announce: "\<exists>w1. memo_step L nfc blake3 capacity w0 w1 \<and> mw_requests w1 t' = Waiting root key ei f
      \<and> f < length (mw_flights w1) \<and> mw_flights w1 ! f = Some r"
    if "mw_requests w0 t = Publishing root0 f r" "mw_requests w0 t' = Waiting root key ei f"
      "f < length (mw_flights w0)" for w0 root0 r
    using that tt
    by (intro exI [of _ "w0\<lparr>mw_flights := (mw_flights w0)[f := Some r],
        mw_requests := (mw_requests w0)(t := Finished root0 r)\<rparr>"] conjI step_announce [OF that(1)]) simp_all
  show ?thesis
  proof (cases "mw_requests w t")
    case (Owning root0 key0 ei0 f0)
    then have [simp]: "f0 = f" using assms(1) by simp
    define r where "r = finish_verification L nfc blake3 ei0"
    define w0 where "w0 = w\<lparr>mw_memo := publish (memo_capacity capacity) key0 r (mw_memo w),
        mw_requests := (mw_requests w)(t := Publishing root0 f r)\<rparr>"
    have "memo_step L nfc blake3 capacity w w0"
      using step_publish [OF Owning r_def] by (simp add: w0_def)
    moreover obtain w1 where "memo_step L nfc blake3 capacity w0 w1" "mw_requests w1 t' = Waiting root key ei f"
      "f < length (mw_flights w1)" "mw_flights w1 ! f = Some r"
      using announce [of w0 root0 r] assms(2,3) tt by (auto simp: w0_def)
    ultimately show ?thesis by (meson converse_rtranclp_into_rtranclp rtranclp.rtrancl_refl)
  next
    case (Publishing root0 f0 r)
    then show ?thesis
      using announce [of w root0 r] assms by (auto intro: r_into_rtranclp)
  qed (use assms in auto)
qed

lemma waiting_can_finish:
  assumes "memo_reachable L nfc blake3 capacity w" and "mw_requests w t = Waiting root key ei f"
  shows "\<exists>w' r. (memo_step L nfc blake3 capacity)\<^sup>*\<^sup>* w w' \<and> mw_requests w' t = Finished root r"
proof -
  obtain hs where inv: "world_inv (requested w) L nfc blake3 hs w"
    using memo_reachable_world_inv [OF assms(1) subset_refl] by blast
  have f: "f < length (mw_flights w)"
    using inv assms(2) by (metis flight_inv_def request_inv.simps(4) world_inv_def)
  have "\<exists>w1 r. (memo_step L nfc blake3 capacity)\<^sup>*\<^sup>* w w1 \<and> mw_requests w1 t = Waiting root key ei f
      \<and> f < length (mw_flights w1) \<and> mw_flights w1 ! f = Some r"
  proof (cases "mw_flights w ! f")
    case None
    then obtain t0 where "owns f (mw_requests w t0)"
      using inv f by (force simp: world_inv_def flight_inv_def has_owner_def split: option.splits)
    then show ?thesis using settle_flight assms(2) f by blast
  qed (use assms(2) f in blast)
  then obtain w1 r where w1: "(memo_step L nfc blake3 capacity)\<^sup>*\<^sup>* w w1" "mw_requests w1 t = Waiting root key ei f"
    "f < length (mw_flights w1)" "mw_flights w1 ! f = Some r" by blast
  from step_wake [OF w1(2-4), of L nfc blake3 capacity] w1(1)
  have "(memo_step L nfc blake3 capacity)\<^sup>*\<^sup>* w (w1\<lparr>mw_requests := (mw_requests w1)(t := Finished root r)\<rparr>)"
    by (rule rtranclp.rtrancl_into_rtrancl [rotated])
  moreover have "mw_requests (w1\<lparr>mw_requests := (mw_requests w1)(t := Finished root r)\<rparr>) t = Finished root r"
    by simp
  ultimately show ?thesis by blast
qed

lemma memo_reachable_steps:
  assumes "memo_reachable L nfc blake3 capacity w" and "(memo_step L nfc blake3 capacity)\<^sup>*\<^sup>* w w'"
  shows "memo_reachable L nfc blake3 capacity w'"
  using assms(2) assms(1) by (induction rule: rtranclp_induct) (auto intro: memo_next)

lemma finished_answer:
  assumes "memo_reachable L nfc blake3 capacity w" and "mw_requests w t = Finished root r"
  shows "answer_ok (requested w) L nfc blake3 root r"
proof -
  obtain hs where "world_inv (requested w) L nfc blake3 hs w"
    using memo_reachable_world_inv [OF assms(1) subset_refl] by blast
  then show ?thesis using assms(2) by (metis request_inv.simps(5) world_inv_def)
qed

lemma cached_reports_verified:
  assumes "memo_reachable L nfc blake3 capacity w" and "(k, r) \<in> set (me_entries (mw_memo w))"
  shows "dv_verified r"
proof -
  obtain hs where "world_inv (requested w) L nfc blake3 hs w"
    using memo_reachable_world_inv [OF assms(1) subset_refl] by blast
  then show ?thesis using assms(2) by (auto simp: world_inv_def cache_inv_def)
qed

end
