(* ===== verification/Example_Archive.thy ===== *)
theory Example_Archive
  imports Example_Election Archive_Memo
begin

text \<open>
  A finalized archive of the example election with one submission, and its verification. The
  witnesses of the archive properties are stated on it.
\<close>

section \<open>Objects\<close>

definition ar_registry :: registry_snapshot where
  "ar_registry = \<lparr>rs_entries = [RegistryEntry (GovernancePublicKey (replicate 32 0))]\<rparr>"

definition ar_entry :: "string \<Rightarrow> archive_file_entry_v1" where
  "ar_entry s = \<lparr>fe_path = ArchivePathV1 (lit s), fe_digest = ArchiveFileDigestV1 zero32\<rparr>"

definition ar_manifest :: archive_manifest_v1 where
  "ar_manifest =
     \<lparr>am_version = 2, am_election_manifest_hash = ManifestHash zero32,
      am_hash_algorithm_id = BLAKE3_256_HASH_ALGORITHM_ID_V1,
      am_final_lifecycle_state = Some ARCHIVE_FINAL_LIFECYCLE_STATE_FINALIZED_V1,
      am_files = \<lparr>fc_entries = map ar_entry [''candidate-set.cbor'', ''election-manifest.cbor'',
         ''submissions/0001.cbor'', ''voter-registry.cbor'']\<rparr>\<rparr>"

definition ar_manifest_bytes :: bytes where
  "ar_manifest_bytes = archive_manifest_enc ar_manifest"

definition ok_bytes :: "bytes presult \<Rightarrow> bytes" where
  "ok_bytes r = (case r of Ok bs \<Rightarrow> bs | Err _ \<Rightarrow> [])"

definition ar_dir :: fs_node where
  "ar_dir = DirNode True
     [(lit ''archive-manifest.cbor'', FileNode True ar_manifest_bytes),
      (lit ''submissions'', DirNode True [(lit ''0001.cbor'', FileNode True ex_vote_bytes)]),
      (lit ''candidate-set.cbor'', FileNode True (ok_bytes (candidate_set_to_canonical_cbor ex_candidates))),
      (lit ''voter-registry.cbor'', FileNode True (ok_bytes (registry_to_canonical_cbor ar_registry))),
      (lit ''election-manifest.cbor'', FileNode True (ok_bytes (manifest_to_canonical_cbor ex_manifest)))]"

definition ar_artifacts :: archive_election_artifacts_v1 where
  "ar_artifacts = \<lparr>ea_manifest = ex_manifest, ea_registry = ar_registry, ea_candidates = ex_candidates,
     ea_manifest_hash = ManifestHash zero32, ea_registry_commitment = RegistryCommitment zero32\<rparr>"

section \<open>The archive manifest\<close>

lemma ar_path_wf:
  "wf_archive_path (ArchivePathV1 (lit ''candidate-set.cbor''))"
  "wf_archive_path (ArchivePathV1 (lit ''election-manifest.cbor''))"
  "wf_archive_path (ArchivePathV1 (lit ''submissions/0001.cbor''))"
  "wf_archive_path (ArchivePathV1 (lit ''voter-registry.cbor''))"
  by (simp_all add: wf_archive_path_def lit_def limits_def is_allowed_path_byte_def SLASH_def DOT_def
      validate_segment_def ends_with_single to_ascii_uppercase_def ascii_upper_def is_windows_reserved_name_def)

lemma ar_manifest_wf: "wf_archive_manifest ar_manifest"
  using ar_path_wf
  by (simp add: wf_archive_manifest_def ar_manifest_def version_state_ok_def archive_consts wf_file_catalog_def
      ar_entry_def catalog_in_scope_def limits_def less_archive_path_v1_def portable_collision_key_def
      to_ascii_lowercase_def ascii_lower_def ARCHIVE_MANIFEST_CANONICAL_PATH_def ARCHIVE_SIGNATURE_PATH_PREFIX_def
      starts_with_def BLAKE3_256_HASH_ALGORITHM_ID_V1_def trim_is_empty_def chars_def trim_chars_def
      is_whitespace_def utf8_valid_ascii lit_def)


lemma length_file_entry_enc: "length (archive_path_str (fe_path e)) \<le> 1024 \<Longrightarrow> length (file_entry_enc e) \<le> 1065"
  using length_enc_len [of 2 MAJOR_ARRAY] length_enc_text [of "archive_path_str (fe_path e)"]
    length_enc_bytes [of "arr_bytes (archive_file_digest_bytes (fe_digest e))"]
  by (simp add: file_entry_enc_def archive_consts)

lemma ar_manifest_size: "length (archive_manifest_enc ar_manifest) \<le> MAX_CANONICAL_OBJECT_BYTES"
proof -
  have "length (enc_seq file_entry_enc (fc_entries (am_files ar_manifest))) \<le> 3 + 4 * 1065"
    using length_enc_seq [of "fc_entries (am_files ar_manifest)" file_entry_enc 1065]
    by (fastforce simp: ar_manifest_def ar_entry_def lit_def intro: length_file_entry_enc)
  moreover have "length (archive_header_enc (archive_manifest_header ar_manifest)) \<le> 1000"
    using length_enc_len [of 5 MAJOR_ARRAY] length_enc_unsigned [of 2] length_enc_bytes [of "arr_bytes zero32"]
      length_enc_text [of BLAKE3_256_HASH_ALGORITHM_ID_V1] length_enc_text [of ARCHIVE_FINAL_LIFECYCLE_STATE_FINALIZED_V1]
    by (simp add: archive_header_enc_def archive_manifest_header_def ar_manifest_def archive_consts)
      (simp add: BLAKE3_256_HASH_ALGORITHM_ID_V1_def lit_def)
  ultimately show ?thesis by (simp add: archive_manifest_enc_def limits_def)
qed

lemma ar_manifest_decode: "archive_manifest_from_canonical_cbor ar_manifest_bytes = Ok ar_manifest"
  unfolding ar_manifest_bytes_def by (rule archive_manifest_decode_enc [OF ar_manifest_wf ar_manifest_size])

lemma ar_manifest_hash:
  "archive_manifest_canonical_hash (Blake3HashProviderV1 zero_digest) ar_manifest = Ok (ArchiveHashV1 zero32)"
  using ar_manifest_size
  by (simp add: archive_manifest_canonical_hash_def archive_manifest_to_canonical_cbor_eq [OF ar_manifest_wf]
      validate_hash_provider_def flip: const_hash_def)
    (simp add: ar_manifest_def const_hash_def Blake3HashProviderV1_def)

section \<open>The identity\<close>

lemma ar_registry_wf: "wf_registry ar_registry"
  by (simp add: wf_registry_def ar_registry_def limits_def wf_governance_key_def)

lemma ar_sizes:
  "length (ok_bytes (candidate_set_to_canonical_cbor ex_candidates)) \<le> MAX_CANONICAL_OBJECT_BYTES"
  "length (ok_bytes (registry_to_canonical_cbor ar_registry)) \<le> MAX_CANONICAL_OBJECT_BYTES"
  "length (ok_bytes (manifest_to_canonical_cbor ex_manifest)) \<le> MAX_CANONICAL_OBJECT_BYTES"
  "length ex_vote_bytes \<le> MAX_CANONICAL_OBJECT_BYTES"
  "length ar_manifest_bytes \<le> MAX_CANONICAL_OBJECT_BYTES"
proof -
  show "length ex_vote_bytes \<le> MAX_CANONICAL_OBJECT_BYTES"
    using ex_vote_envelope by (auto simp: envelope_from_canonical_cbor_def split: if_splits)
  obtain bs where bs: "manifest_to_canonical_cbor ex_manifest = Ok bs"
    using manifest_to_canonical_cbor_total [OF ex_manifest_wf] by blast
  from manifest_codec.decode_encode [OF ex_manifest_wf bs]
  show "length (ok_bytes (manifest_to_canonical_cbor ex_manifest)) \<le> MAX_CANONICAL_OBJECT_BYTES"
    by (auto simp: manifest_from_canonical_cbor_def ok_bytes_def bs split: if_splits)
qed (use length_candidate_set_enc [OF ex_candidates_wf] length_registry_enc [OF ar_registry_wf] ar_manifest_size in
  \<open>simp_all add: ok_bytes_def candidate_set_to_canonical_cbor_eq [OF ex_candidates_wf]
     registry_to_canonical_cbor_eq [OF ar_registry_wf] ar_manifest_bytes_def\<close>)

lemma ar_reads:
  "read_bounded [ARCHIVE_MANIFEST_CANONICAL_PATH] ar_dir = Ok ar_manifest_bytes"
  "read_bounded_archive_file ar_dir (lit ''candidate-set.cbor'') = Ok (ok_bytes (candidate_set_to_canonical_cbor ex_candidates))"
  "read_bounded_archive_file ar_dir (lit ''election-manifest.cbor'') = Ok (ok_bytes (manifest_to_canonical_cbor ex_manifest))"
  "read_bounded_archive_file ar_dir (lit ''submissions/0001.cbor'') = Ok ex_vote_bytes"
  "read_bounded_archive_file ar_dir (lit ''voter-registry.cbor'') = Ok (ok_bytes (registry_to_canonical_cbor ar_registry))"
  using ar_sizes
  by (simp_all add: read_bounded_def read_bounded_archive_file_def read_limited_def ar_dir_def
      ARCHIVE_MANIFEST_CANONICAL_PATH_def GOVERNANCE_DOCUMENT_ARCHIVE_PATH_def lit_def SLASH_def not_less)

lemma ar_content:
  "file_content ar_dir (ar_entry ''candidate-set.cbor'') = ok_bytes (candidate_set_to_canonical_cbor ex_candidates)"
  "file_content ar_dir (ar_entry ''election-manifest.cbor'') = ok_bytes (manifest_to_canonical_cbor ex_manifest)"
  "file_content ar_dir (ar_entry ''submissions/0001.cbor'') = ex_vote_bytes"
  "file_content ar_dir (ar_entry ''voter-registry.cbor'') = ok_bytes (registry_to_canonical_cbor ar_registry)"
  by (simp_all add: file_content_def entry_path_def ar_entry_def ar_reads)

lemma ar_identity: "archive_identity zero_digest ar_dir ar_manifest"
proof -
  have "listed (tree_files [] ar_dir) = entry_path ` set (fc_entries (am_files ar_manifest))"
    by (simp add: ar_dir_def excluded_path_def ARCHIVE_MANIFEST_CANONICAL_PATH_def ARCHIVE_SIGNATURE_PATH_PREFIX_def
        starts_with_def lit_def SLASH_def ar_manifest_def ar_entry_def entry_path_def) auto
  moreover have "digest_for_bytes (Blake3HashProviderV1 zero_digest) bs = ArchiveFileDigestV1 zero32" for bs
    by (simp add: digest_for_bytes_def flip: const_hash_def)
  then have "\<forall>e \<in> set (fc_entries (am_files ar_manifest)). entry_on_disk (Blake3HashProviderV1 zero_digest) ar_dir e"
    by (simp add: ar_manifest_def entry_on_disk_def entry_path_def ar_entry_def ar_reads)
  moreover have "is_dir ar_dir" "all_listable ar_dir"
    "am_hash_algorithm_id ar_manifest = BLAKE3_256_HASH_ALGORITHM_ID_V1"
    by (simp_all add: ar_dir_def ar_manifest_def)
  ultimately show ?thesis by (simp add: archive_identity_def ar_reads ar_manifest_decode)
qed

definition ar_established :: established_identity_v1 where
  "ar_established = \<lparr>ei_archive_hash = ArchiveHashV1 zero32, ei_archive_manifest = ar_manifest,
     ei_files = archive_files ar_dir ar_manifest, ei_result = established_report ar_manifest (ArchiveHashV1 zero32)\<rparr>"

lemma ar_establish: "establish_identity_and_catalog zero_digest (Ok ar_dir) = Ok (Established ar_established)"
  unfolding ar_established_def by (rule establish_complete [OF ar_identity ar_manifest_hash])

section \<open>Artifacts and replay\<close>

lemma ar_file_bytes:
  "file_bytes (archive_files ar_dir ar_manifest) (lit ''candidate-set.cbor'') = ok_bytes (candidate_set_to_canonical_cbor ex_candidates)"
  "file_bytes (archive_files ar_dir ar_manifest) (lit ''election-manifest.cbor'') = ok_bytes (manifest_to_canonical_cbor ex_manifest)"
  "file_bytes (archive_files ar_dir ar_manifest) (lit ''submissions/0001.cbor'') = ex_vote_bytes"
  "file_bytes (archive_files ar_dir ar_manifest) (lit ''voter-registry.cbor'') = ok_bytes (registry_to_canonical_cbor ar_registry)"
  using file_bytes_archive [OF ar_manifest_wf, of "ar_entry ''candidate-set.cbor''" ar_dir]
    file_bytes_archive [OF ar_manifest_wf, of "ar_entry ''election-manifest.cbor''" ar_dir]
    file_bytes_archive [OF ar_manifest_wf, of "ar_entry ''submissions/0001.cbor''" ar_dir]
    file_bytes_archive [OF ar_manifest_wf, of "ar_entry ''voter-registry.cbor''" ar_dir]
  by (simp_all add: ar_content) (simp_all add: entry_path_def ar_entry_def ar_manifest_def)

lemma ar_registry_commitment:
  "registry_canonical_commitment const_hash ar_registry = Ok (RegistryCommitment zero32)"
  by (simp add: registry_canonical_commitment_def registry_to_canonical_cbor_eq [OF ar_registry_wf])

lemma ex_candidates_commitment:
  "candidate_set_canonical_commitment const_hash ex_candidates = Ok (CandidateSetCommitment zero32)"
  by (simp add: candidate_set_canonical_commitment_def candidate_set_to_canonical_cbor_eq [OF ex_candidates_wf])

lemma ex_manifest_fields:
  "manifest_registry_commitment ex_manifest = RegistryCommitment zero32"
  "manifest_candidate_set_commitment ex_manifest = CandidateSetCommitment zero32"
  "manifest_proof_suite_id ex_manifest = TARI_TRIPTYCH_PROOF_SUITE_ID_V1"
  "manifest_governance_source_revision ex_manifest = lit ''r''"
  by (simp_all add: ex_manifest_def TARI_TRIPTYCH_PROOF_SUITE_ID_V1_def)

lemma ar_decodes:
  "manifest_from_canonical_cbor id (ok_bytes (manifest_to_canonical_cbor ex_manifest)) = Ok ex_manifest"
  "registry_from_canonical_cbor (ok_bytes (registry_to_canonical_cbor ar_registry)) = Ok ar_registry"
  "candidate_set_from_canonical_cbor (ok_bytes (candidate_set_to_canonical_cbor ex_candidates)) = Ok ex_candidates"
proof -
  obtain bs where bs: "manifest_to_canonical_cbor ex_manifest = Ok bs"
    using manifest_to_canonical_cbor_total [OF ex_manifest_wf] by blast
  show "manifest_from_canonical_cbor id (ok_bytes (manifest_to_canonical_cbor ex_manifest)) = Ok ex_manifest"
    using manifest_codec.decode_encode [OF ex_manifest_wf bs] by (simp add: ok_bytes_def bs)
qed (simp_all add: ok_bytes_def registry_to_canonical_cbor_eq [OF ar_registry_wf] registry_decode_enc [OF ar_registry_wf]
    candidate_set_to_canonical_cbor_eq [OF ex_candidates_wf] candidate_set_decode_enc [OF ex_candidates_wf])

lemma ar_artifacts_decode: "archived_artifacts id zero_digest ar_dir ar_manifest = Ok ar_artifacts"
  by (simp add: archived_artifacts_def artifacts_from_bytes_def ELECTION_MANIFEST_ARCHIVE_PATH_def
      VOTER_REGISTRY_ARCHIVE_PATH_def CANDIDATE_SET_ARCHIVE_PATH_def ar_file_bytes ar_registry_commitment ar_decodes
      ex_candidates_commitment ex_manifest_fields ex_manifest_hash production_policy_validate_def
      ar_artifacts_def flip: const_hash_def)

lemma ar_verifier: "build_tari_triptych_verifier_from_registry_v1 toy_curve ar_registry const_hash = Ok toy_verifier"
proof -
  have "array32 (replicate 32 0) = Some zero32"
    by (simp add: array32_def zero32_def)
  moreover have "validate_triptych_registry_keys_v1 toy_curve [zero32] = Ok ()"
    by (simp add: validate_triptych_registry_keys_v1_def toy_ring toy_decode parse_sorted_registry_keys_v1_def)
  moreover note ar_registry_commitment
  ultimately show ?thesis
    by (simp add: build_tari_triptych_verifier_from_registry_v1_def tari_triptych_verifier_new_def toy_verifier_def)
      (simp add: ar_registry_def)
qed

lemma ar_session_new:
  "session_new toy_curve zero_digest ar_artifacts = Ok \<lparr>ss_artifacts = ar_artifacts, ss_verifier = toy_verifier,
     ss_lifecycle = ex_lifecycle\<lparr>lc_state := Frozen\<rparr>, ss_ledger = ledger_new,
     ss_transcript = transcript_new (ManifestHash zero32)\<rparr>"
  by (simp add: session_new_def ar_artifacts_def freeze_def lifecycle_new_def ex_lifecycle_def ar_verifier flip: const_hash_def)

lemma ar_session_open:
  "session_open \<lparr>ss_artifacts = ar_artifacts, ss_verifier = toy_verifier,
     ss_lifecycle = ex_lifecycle\<lparr>lc_state := Frozen\<rparr>, ss_ledger = ledger_new,
     ss_transcript = transcript_new (ManifestHash zero32)\<rparr>
   = Ok \<lparr>ss_artifacts = ar_artifacts, ss_verifier = toy_verifier, ss_lifecycle = ex_lifecycle,
     ss_ledger = ledger_new, ss_transcript = transcript_new (ManifestHash zero32)\<rparr>"
  by (simp add: session_open_def open_election_def transition_def ex_lifecycle_def)

definition ar_session :: archive_replay_session_v1 where
  "ar_session = \<lparr>ss_artifacts = ar_artifacts, ss_verifier = toy_verifier, ss_lifecycle = ex_lifecycle,
     ss_ledger = ex_ledger, ss_transcript = \<lparr>vt_manifest_hash = ManifestHash zero32,
       vt_submissions = [\<lparr>sr_sequence = IngestSequenceV1 0, sr_package_digest = BallotPackageDigestV1 zero32,
         sr_received_before_close = True\<rparr>],
       vt_decisions = [\<lparr>bd_sequence = IngestSequenceV1 0, bd_package_digest = BallotPackageDigestV1 zero32,
         bd_outcome = Accepted\<rparr>]\<rparr>\<rparr>"

lemma ar_replay:
  "replay_serial_for_test toy_lib zero_digest [ex_vote_bytes]
     \<lparr>ss_artifacts = ar_artifacts, ss_verifier = toy_verifier, ss_lifecycle = ex_lifecycle,
      ss_ledger = ledger_new, ss_transcript = transcript_new (ManifestHash zero32)\<rparr> = Ok ar_session"
  using ex_ingest
  by (simp add: intake_ballot_def ar_artifacts_def flip: const_hash_def)
    (simp add: package_digest_def record_submission_def record_decision_def transcript_new_def sequence_from_index_def
      u64_of_usize_def usize_of_u64_def ar_session_def ar_artifacts_def Let_def flip: const_hash_def)

lemma ar_packages: "archived_packages ar_dir ar_manifest = [ex_vote_bytes]"
proof -
  have "submission_paths ar_manifest = [lit ''submissions/0001.cbor'']"
    by (simp add: submission_paths_def catalog_paths_eq [OF ar_manifest_wf])
      (simp add: ar_manifest_def ar_entry_def entry_path_def SUBMISSIONS_ARCHIVE_DIR_def SLASH_def lit_def starts_with_def)
  then show ?thesis by (simp add: archived_packages_def ar_file_bytes)
qed

lemma ar_archived_session: "archived_session toy_lib zero_digest ar_dir ar_manifest ar_artifacts = Ok ar_session"
proof -
  have "tl_dalek_v4 toy_lib = toy_curve" by (simp add: toy_lib_def)
  then show ?thesis by (simp add: archived_session_def ar_session_new ar_session_open ar_packages ar_replay
        del: replay_serial_for_test.simps)
qed

section \<open>The verified report\<close>

lemma ar_direct_tally: "\<exists>t. direct_tally ar_session = Ok t"
proof -
  have "countable_ballot ex_candidates (pk_payload ex_vote)"
    using ex_vote_wf countable_ballot_wf [OF ex_candidates_wf] by (auto simp: wf_package_def)
  with tally_from_ballots_counts [OF ex_candidates_wf, of "[pk_payload ex_vote]"] show ?thesis
    by (auto simp: direct_tally_def ar_session_def ex_ledger_def ar_artifacts_def)
qed

lemma ar_stage_replay:
  "\<exists>r'. stage_replay toy_curve zero_digest ar_manifest (archive_files ar_dir ar_manifest) ar_artifacts
     (\<lambda>session packages. replay_batched toy_lib zero_digest packages session) r = Ok (r', ar_session)"
proof -
  have "map (file_bytes (archive_files ar_dir ar_manifest)) (submission_paths ar_manifest) = [ex_vote_bytes]"
    using ar_packages by (simp add: archived_packages_def)
  moreover have "validate_complete (ss_transcript ar_session) = Ok ()"
    by (simp add: validate_complete_def ar_session_def)
  ultimately show ?thesis
    using ar_direct_tally
    by (auto simp: stage_replay_def ar_session_new ar_session_open replay_batched_serial [OF toy_lib_sound]
        ar_replay Let_def simp del: replay_serial_for_test.simps)
qed

lemma ar_verified:
  "\<exists>rep. verify_archive_directory_v1 toy_lib id zero_digest (Ok ar_dir) = Ok rep \<and> dv_verified rep"
proof -
  let ?f = "archive_files ar_dir ar_manifest" and ?r = "established_report ar_manifest (ArchiveHashV1 zero32)"
  have ei: "ei_archive_manifest ar_established = ar_manifest" "ei_files ar_established = ?f"
    "ei_result ar_established = ?r" "ei_archive_hash ar_established = ArchiveHashV1 zero32"
    by (simp_all add: ar_established_def)
  have paths: "catalog_paths ar_manifest = map lit [''candidate-set.cbor'', ''election-manifest.cbor'',
         ''submissions/0001.cbor'', ''voter-registry.cbor'']"
    by (simp add: catalog_paths_eq [OF ar_manifest_wf]) (simp add: ar_manifest_def ar_entry_def entry_path_def)
  have 1: "stage_artifacts id zero_digest ar_manifest ?f ?r = Ok (record_artifacts ar_artifacts ?r, ar_artifacts)"
    using ar_artifacts_decode
    by (simp add: stage_artifacts_def archived_artifacts_def paths ELECTION_MANIFEST_ARCHIVE_PATH_def
        VOTER_REGISTRY_ARCHIVE_PATH_def CANDIDATE_SET_ARCHIVE_PATH_def)
  have "bt_get ?f TRANSPORT_ARCHIVE_BINDING_PATH_V1 = None"
    by (simp add: bt_get_def map_of_eq_None_iff archive_files_def TRANSPORT_ARCHIVE_BINDING_PATH_V1_def lit_def
        ar_manifest_def ar_entry_def entry_path_def)
  then have 2: "stage_transport zero_digest ?f ar_artifacts r = Ok r" for r by (simp add: stage_transport_def)
  have "validate_governance_source_pin (lit ''r'') = unrecognized_pin"
    by (simp add: validate_governance_source_pin_def starts_with_def GOVERNANCE_PIN_PREFIX_BLAKE3_def
        GOVERNANCE_PIN_PREFIX_GIT_def lit_def)
  then have 3: "\<exists>r'. stage_governance ar_manifest ar_artifacts r = Ok r'" for r
    by (simp add: stage_governance_def ar_artifacts_def ex_manifest_fields unrecognized_pin_def
        is_content_digest_def is_git_commit_def)
  obtain r3 where r3: "stage_governance ar_manifest ar_artifacts (record_artifacts ar_artifacts ?r) = Ok r3"
    using 3 by blast
  obtain r' where r': "stage_replay toy_curve zero_digest ar_manifest ?f ar_artifacts
      (\<lambda>session packages. replay_batched toy_lib zero_digest packages session) r3 = Ok (r', ar_session)"
    using ar_stage_replay by blast
  have "tl_dalek_v4 toy_lib = toy_curve" "ea_manifest_hash (ss_artifacts ar_session) = ManifestHash zero32"
    by (simp_all add: toy_lib_def ar_session_def ar_artifacts_def)
  with r3 r' have 4: "finish_verification toy_lib id zero_digest ar_established
      = stage_archive_hash zero_digest ar_established (ManifestHash zero32) r'"
    by (simp add: finish_verification_def finish_verification_replaying_def ei 1 2)
  have "am_election_manifest_hash ar_manifest = ManifestHash zero32" by (simp add: ar_manifest_def)
  with stage_archive_hash_eq [of zero_digest ar_dir ar_established "ManifestHash zero32" r'] ar_identity ar_manifest_hash
  show ?thesis by (auto simp: verify_archive_directory_v1_def ar_establish 4 ei)
qed

section \<open>A run of the memo\<close>

text \<open>Two concurrent requests for the archive: the first owns the flight, the second waits for it.\<close>

definition ar_key :: archive_memo_key_v1 where
  "ar_key = \<lparr>mk_canonical_dir = lit ''a'', mk_archive_hash = ArchiveHashV1 zero32\<rparr>"

definition ar_world1 :: memo_world where
  "ar_world1 = start_request (Ok ar_dir) (lit ''a'') ar_established 0 memo_world_new"

definition ar_world2 :: memo_world where
  "ar_world2 = start_request (Ok ar_dir) (lit ''a'') ar_established 1 ar_world1"

lemma ar_world1_eq:
  "ar_world1 = \<lparr>mw_memo = \<lparr>me_entries = [], me_recency = [], me_in_flight = [(ar_key, 0)]\<rparr>,
     mw_flights = [None], mw_requests = (\<lambda>_. Idle)(0 := Owning (Ok ar_dir) ar_key ar_established 0)\<rparr>"
  by (simp add: ar_world1_def start_request_def claim_def memo_world_new_def memo_state_new_def hm_insert_def
      ar_key_def ar_established_def Let_def)

lemma ar_world2_waits: "mw_requests ar_world2 1 = Waiting (Ok ar_dir) ar_key ar_established 0"
proof -
  have "\<lparr>mk_canonical_dir = lit ''a'', mk_archive_hash = ei_archive_hash ar_established\<rparr> = ar_key"
    by (simp add: ar_key_def ar_established_def)
  then show ?thesis by (simp add: ar_world2_def ar_world1_eq start_request_def claim_def)
qed

lemma ar_world2_reachable: "memo_reachable toy_lib id zero_digest capacity ar_world2"
proof -
  have "memo_reachable toy_lib id zero_digest capacity ar_world1"
    unfolding ar_world1_def
    by (rule memo_next [OF memo_start step_start [OF _ ar_establish]]) (simp add: memo_world_new_def)
  then show ?thesis
    unfolding ar_world2_def by (rule memo_next [OF _ step_start [OF _ ar_establish]]) (simp add: ar_world1_eq)
qed

lemma ar_run_finishes:
  "\<exists>w r. memo_reachable toy_lib id zero_digest capacity w \<and> mw_requests w 1 = Finished (Ok ar_dir) r"
  using waiting_can_finish [OF ar_world2_reachable ar_world2_waits] memo_reachable_steps [OF ar_world2_reachable] by blast

end
