(* ===== verification/Archive_Properties.thy ===== *)
theory Archive_Properties
  imports Example_Archive
begin

text \<open>
  Properties of the archive: its files and manifest, the replay of its submissions, what a verified
  report establishes, and the verification memo.
\<close>

section \<open>Verification\<close>

text \<open>
  C4: A directory that is reported as verified is the archive it claims to
  be. Its manifest decodes; the regular files on disk are exactly the catalogued ones and each has
  the catalogued digest; the election artifacts decode, agree with each other's commitments, and
  their manifest hash is the one archived; the reported counts and tally are those of ingesting the
  archived packages one by one into an empty ledger, so that every package is either accepted or
  rejected and no two accepted ballots share a nullifier.
\<close>

theorem verified_archive_sound:
  assumes "triptych_batch_sound L" and "verify_archive_directory_v1 L nfc blake3 root = Ok rep" and "dv_verified rep"
  shows "\<exists>dir bs m a s t. root = Ok dir
    \<and> read_bounded [ARCHIVE_MANIFEST_CANONICAL_PATH] dir = Ok bs \<and> archive_manifest_from_canonical_cbor bs = Ok m
    \<and> listed (tree_files [] dir) = entry_path ` set (fc_entries (am_files m))
    \<and> (\<forall>e \<in> set (fc_entries (am_files m)). entry_on_disk (Blake3HashProviderV1 blake3) dir e)
    \<and> archived_artifacts nfc blake3 dir m = Ok a \<and> am_election_manifest_hash m = ea_manifest_hash a
    \<and> archived_session L blake3 dir m a = Ok s
    \<and> distinct (map (\<lambda>b. vp_nullifier (ab_verified_proof b)) (bl_accepted_ballots (ss_ledger s)))
    \<and> direct_tally s = Ok t \<and> dv_tally rep = Some (summarize_tally t (ea_candidates a))
    \<and> dv_accepted_count rep = length (bl_accepted_ballots (ss_ledger s))
    \<and> dv_accepted_count rep + dv_rejected_count rep = length (archived_packages dir m)
    \<and> dv_finalized rep = is_finalized_archive_manifest m"
proof -
  from verified_archive [OF assms] obtain dir m a s t where
    *: "root = Ok dir" "archive_identity blake3 dir m" "archived_artifacts nfc blake3 dir m = Ok a"
      "am_election_manifest_hash m = ea_manifest_hash a" "archived_session L blake3 dir m a = Ok s"
      "session_inv L blake3 s" "direct_tally s = Ok t" "dv_tally rep = Some (summarize_tally t (ea_candidates a))"
      "dv_accepted_count rep = length (bl_accepted_ballots (ss_ledger s))"
      "dv_accepted_count rep + dv_rejected_count rep = length (archived_packages dir m)"
      "dv_finalized rep = is_finalized_archive_manifest m" by blast
  have "ledger_inv (ss_ledger s)" using *(6) unfolding session_inv_def by (blast dest: triptych.ledger_reachable_inv)
  then have "distinct (map (\<lambda>b. vp_nullifier (ab_verified_proof b)) (bl_accepted_ballots (ss_ledger s)))"
    by (simp add: ledger_inv_def comp_def)
  moreover obtain bs where "read_bounded [ARCHIVE_MANIFEST_CANONICAL_PATH] dir = Ok bs"
    "archive_manifest_from_canonical_cbor bs = Ok m" "listed (tree_files [] dir) = entry_path ` set (fc_entries (am_files m))"
    "\<forall>e \<in> set (fc_entries (am_files m)). entry_on_disk (Blake3HashProviderV1 blake3) dir e"
    using *(2) by (auto simp: archive_identity_def)
  ultimately show ?thesis
    using * by (intro exI [of _ dir] exI [of _ bs] exI [of _ m] exI [of _ a] exI [of _ s] exI [of _ t]) simp
qed

theorem verified_archive_sound_witness:
  "\<exists>rep s t. verify_archive_directory_v1 toy_lib id zero_digest (Ok ar_dir) = Ok rep \<and> dv_finalized rep
     \<and> direct_tally s = Ok t \<and> dv_tally rep = Some (summarize_tally t ex_candidates)
     \<and> dv_accepted_count rep + dv_rejected_count rep = 1"
proof -
  obtain rep where rep: "verify_archive_directory_v1 toy_lib id zero_digest (Ok ar_dir) = Ok rep" "dv_verified rep"
    using ar_verified by blast
  from verified_archive_sound [OF toy_lib_sound rep] obtain bs m a s t where
    "read_bounded [ARCHIVE_MANIFEST_CANONICAL_PATH] ar_dir = Ok bs" "archive_manifest_from_canonical_cbor bs = Ok m"
    and a: "archived_artifacts id zero_digest ar_dir m = Ok a" "direct_tally s = Ok t"
    "dv_tally rep = Some (summarize_tally t (ea_candidates a))"
    "dv_accepted_count rep + dv_rejected_count rep = length (archived_packages ar_dir m)"
    "dv_finalized rep = is_finalized_archive_manifest m" by blast
  then have m: "m = ar_manifest" by (simp add: ar_reads ar_manifest_decode)
  with a have "a = ar_artifacts" by (simp add: ar_artifacts_decode)
  moreover have "is_finalized_archive_manifest ar_manifest"
    by (simp add: is_finalized_archive_manifest_def ar_manifest_def archive_consts)
  ultimately show ?thesis using rep a m by (auto simp: ar_packages ar_artifacts_def)
qed

text \<open>
  C9: The production verifier, which replays submissions in batches of
  16, returns for every directory what the retained serial verifier returns: the same report, with
  the same failing stage and code, or the same error.
\<close>

theorem archive_batched_equals_serial:
  assumes "triptych_batch_sound L"
  shows "verify_archive_directory_v1 L nfc blake3 root = verify_archive_directory_serial_for_test L nfc blake3 root"
proof -
  have "finish_verification L nfc blake3 = finish_verification_serial_for_test L nfc blake3"
    by (simp add: fun_eq_iff finish_verification_def finish_verification_serial_for_test_def
        replay_batched_serial [OF assms])
  then show ?thesis
    unfolding verify_archive_directory_v1_def verify_archive_directory_serial_for_test_def by (rule arg_cong)
qed

theorem archive_batched_equals_serial_witness:
  "\<exists>rep. verify_archive_directory_serial_for_test toy_lib id zero_digest (Ok ar_dir) = Ok rep \<and> dv_verified rep"
  using ar_verified by (simp add: archive_batched_equals_serial [OF toy_lib_sound])

text \<open>
  C27: Two directories whose identities are established with the same archive
  hash are the same archive: the same manifest, the same files with the same contents, and so the
  same outcome of every later stage, unless two of the inputs hashed for them collide.
\<close>

theorem archive_hash_identifies:
  assumes "establish_identity_and_catalog blake3 root = Ok (Established ei)"
    and "establish_identity_and_catalog blake3 root' = Ok (Established ei')"
    and "ei_archive_hash ei = ei_archive_hash ei'"
  shows "(ei = ei' \<and> verify_archive_directory_v1 L nfc blake3 root = verify_archive_directory_v1 L nfc blake3 root')
    \<or> archives_collide blake3 ei ei'"
  using established_determined [OF assms] assms by (auto simp: verify_archive_directory_v1_def)

text \<open>
  A second directory: the example archive with its only package replaced. Under the constant hash of
  the example it is established with the same archive hash, so its inputs must collide.
\<close>

definition ar_tampered :: fs_node where
  "ar_tampered = DirNode True
     [(lit ''archive-manifest.cbor'', FileNode True ar_manifest_bytes),
      (lit ''submissions'', DirNode True [(lit ''0001.cbor'', FileNode True [])]),
      (lit ''candidate-set.cbor'', FileNode True (ok_bytes (candidate_set_to_canonical_cbor ex_candidates))),
      (lit ''voter-registry.cbor'', FileNode True (ok_bytes (registry_to_canonical_cbor ar_registry))),
      (lit ''election-manifest.cbor'', FileNode True (ok_bytes (manifest_to_canonical_cbor ex_manifest)))]"

lemma ar_tampered_reads:
  "read_bounded [ARCHIVE_MANIFEST_CANONICAL_PATH] ar_tampered = Ok ar_manifest_bytes"
  "read_bounded_archive_file ar_tampered (lit ''candidate-set.cbor'') = Ok (ok_bytes (candidate_set_to_canonical_cbor ex_candidates))"
  "read_bounded_archive_file ar_tampered (lit ''election-manifest.cbor'') = Ok (ok_bytes (manifest_to_canonical_cbor ex_manifest))"
  "read_bounded_archive_file ar_tampered (lit ''submissions/0001.cbor'') = Ok []"
  "read_bounded_archive_file ar_tampered (lit ''voter-registry.cbor'') = Ok (ok_bytes (registry_to_canonical_cbor ar_registry))"
  using ar_sizes
  by (simp_all add: read_bounded_def read_bounded_archive_file_def read_limited_def ar_tampered_def
      ARCHIVE_MANIFEST_CANONICAL_PATH_def GOVERNANCE_DOCUMENT_ARCHIVE_PATH_def lit_def SLASH_def not_less)

lemma ar_tampered_identity: "archive_identity zero_digest ar_tampered ar_manifest"
proof -
  have "listed (tree_files [] ar_tampered) = entry_path ` set (fc_entries (am_files ar_manifest))"
    by (simp add: ar_tampered_def excluded_path_def ARCHIVE_MANIFEST_CANONICAL_PATH_def ARCHIVE_SIGNATURE_PATH_PREFIX_def
        starts_with_def lit_def SLASH_def ar_manifest_def ar_entry_def entry_path_def) auto
  moreover have "digest_for_bytes (Blake3HashProviderV1 zero_digest) bs = ArchiveFileDigestV1 zero32" for bs
    by (simp add: digest_for_bytes_def flip: const_hash_def)
  then have "\<forall>e \<in> set (fc_entries (am_files ar_manifest)). entry_on_disk (Blake3HashProviderV1 zero_digest) ar_tampered e"
    by (simp add: ar_manifest_def entry_on_disk_def entry_path_def ar_entry_def ar_tampered_reads)
  moreover have "is_dir ar_tampered" "all_listable ar_tampered"
    "am_hash_algorithm_id ar_manifest = BLAKE3_256_HASH_ALGORITHM_ID_V1"
    by (simp_all add: ar_tampered_def ar_manifest_def)
  ultimately show ?thesis by (simp add: archive_identity_def ar_tampered_reads ar_manifest_decode)
qed

definition ar_tampered_established :: established_identity_v1 where
  "ar_tampered_established = ar_established\<lparr>ei_files := archive_files ar_tampered ar_manifest\<rparr>"

lemma ar_tampered_establish:
  "establish_identity_and_catalog zero_digest (Ok ar_tampered) = Ok (Established ar_tampered_established)"
  using establish_complete [OF ar_tampered_identity ar_manifest_hash]
  by (simp add: ar_tampered_established_def ar_established_def)

lemma ar_tampered_differs: "ei_files ar_established \<noteq> ei_files ar_tampered_established"
proof -
  have "ex_vote_bytes \<noteq> []"
    using ex_vote_envelope by (auto simp: envelope_from_canonical_cbor_def read_array_len_def read_argument_def
        read_byte_def new_reader_def)
  then show ?thesis
    by (simp add: ar_tampered_established_def ar_established_def archive_files_def ar_manifest_def file_content_def
        entry_path_def ar_entry_def ar_reads ar_tampered_reads)
qed

theorem archive_hash_identifies_witness:
  "establish_identity_and_catalog zero_digest (Ok ar_dir) = Ok (Established ar_established)
   \<and> establish_identity_and_catalog zero_digest (Ok ar_tampered) = Ok (Established ar_tampered_established)
   \<and> ei_files ar_established \<noteq> ei_files ar_tampered_established
   \<and> archives_collide zero_digest ar_established ar_tampered_established"
proof -
  have "ei_archive_hash ar_established = ei_archive_hash ar_tampered_established"
    by (simp add: ar_tampered_established_def)
  from archive_hash_identifies [OF ar_establish ar_tampered_establish this, of toy_lib id] ar_tampered_differs
  have "archives_collide zero_digest ar_established ar_tampered_established" by auto
  with ar_establish ar_tampered_establish ar_tampered_differs show ?thesis by blast
qed

section \<open>Replay\<close>

text \<open>
  C28: A replay of up to \<open>2 ^ 64\<close> packages, of whatever bytes, never
  fails: it ends with a complete transcript that lists every package's digest in order, each with a
  decision, and as many accepted decisions as the ledger has ballots.
\<close>

theorem replay_decides_every_package:
  assumes "triptych_batch_sound L" and "session_new c blake3 a = Ok s0" and "session_open s0 = Ok s1"
    and "length packages \<le> 2 ^ 64"
  shows "\<exists>s. replay_batched L blake3 packages s1 = Ok s
    \<and> map sr_package_digest (vt_submissions (ss_transcript s)) = map (package_digest blake3) packages
    \<and> map bd_package_digest (vt_decisions (ss_transcript s)) = map (package_digest blake3) packages
    \<and> validate_complete (ss_transcript s) = Ok ()
    \<and> accepted_count (ss_transcript s) = length (bl_accepted_ballots (ss_ledger s))"
proof -
  have inv: "session_inv L blake3 s1" by (rule session_inv_open [OF assms(3) session_inv_new [OF assms(2)]])
  have e: "vt_submissions (ss_transcript s1) = []"
    using assms(2,3) by (auto simp: session_new_def session_open_def result_inv transcript_new_def)
  from replay_serial_total [OF inv, of packages] e assms(4) obtain s where
    s: "replay_serial_for_test L blake3 packages s1 = Ok s" "session_inv L blake3 s"
      "map sr_package_digest (vt_submissions (ss_transcript s)) = map (package_digest blake3) packages" by auto
  let ?t = "ss_transcript s"
  have t: "transcript_inv ?t" "length (vt_decisions ?t) = length (vt_submissions ?t)"
    using s(2) by (simp_all add: session_inv_def)
  then have "map bd_package_digest (vt_decisions ?t) = map sr_package_digest (vt_submissions ?t)"
    by (auto simp: transcript_inv_def intro: nth_equalityI)
  with s t show ?thesis
    by (auto simp: replay_batched_serial [OF assms(1)] validate_complete_iff next_undecided_submission_def session_inv_def)
qed

theorem replay_decides_every_package_witness:
  "\<exists>s s1. replay_batched toy_lib zero_digest [[], ex_vote_bytes] s1 = Ok s
     \<and> length (vt_decisions (ss_transcript s)) = 2 \<and> validate_complete (ss_transcript s) = Ok ()"
proof -
  from replay_decides_every_package [OF toy_lib_sound ar_session_new ar_session_open, of "[[], ex_vote_bytes]"]
  obtain s s1 where "replay_batched toy_lib zero_digest [[], ex_vote_bytes] s1 = Ok s"
    and d: "map bd_package_digest (vt_decisions (ss_transcript s)) = map (package_digest zero_digest) [[], ex_vote_bytes]"
    and "validate_complete (ss_transcript s) = Ok ()" by auto
  moreover have "length (vt_decisions (ss_transcript s)) = 2" using arg_cong [OF d, of length] by simp
  ultimately show ?thesis by blast
qed

text \<open>
  In every transcript that recording can reach, the
  submissions carry their positions as sequence numbers, and the decisions are, in order, decisions
  on a prefix of the submissions with their digests. A decision is recorded exactly for the next
  undecided submission, and the completeness check fails exactly when one is left undecided.
\<close>

lemma transcript_decisions_follow_submissions:
  assumes "transcript_reachable h t"
  shows "(\<forall>i < length (vt_submissions t). sr_sequence (vt_submissions t ! i) = IngestSequenceV1 (word_of_nat i))
    \<and> map (\<lambda>d. (bd_sequence d, bd_package_digest d)) (vt_decisions t) =
        map (\<lambda>s. (sr_sequence s, sr_package_digest s)) (take (length (vt_decisions t)) (vt_submissions t))
    \<and> ((\<exists>t'. record_decision q d outcome t = Ok t') \<longleftrightarrow>
        (\<exists>s. next_undecided_submission t = Some s \<and> sr_sequence s = q \<and> sr_package_digest s = d))
    \<and> (validate_complete t = Ok () \<longleftrightarrow> next_undecided_submission t = None)"
proof -
  have inv: "transcript_inv t" using transcript_reachable_inv [OF assms] by blast
  have "map (\<lambda>d. (bd_sequence d, bd_package_digest d)) (vt_decisions t) =
      map (\<lambda>s. (sr_sequence s, sr_package_digest s)) (take (length (vt_decisions t)) (vt_submissions t))"
    using inv by (intro nth_equalityI) (auto simp: transcript_inv_def)
  moreover have "(\<exists>t'. record_decision q d outcome t = Ok t') \<longleftrightarrow>
      (\<exists>s. next_undecided_submission t = Some s \<and> sr_sequence s = q \<and> sr_package_digest s = d)"
    by (auto simp: record_decision_Ok_iff [OF inv] next_undecided_submission_def)
  ultimately show ?thesis
    using inv validate_complete_iff [OF inv] by (simp add: transcript_inv_def)
qed

section \<open>Files and encodings\<close>

text \<open>
  C31: An accepted archive path names a file below the archive directory on
  every platform: split at its slashes, it walks down one non-empty segment after the other, never
  through the current or the parent directory, and it has no backslash, colon or leading slash.
\<close>

theorem archive_path_confined:
  assumes "ArchivePathV1_new path = Ok p"
  shows "archive_path_str p = path
    \<and> walk [] (split_at_byte SLASH path) = Some (split_at_byte SLASH path)
    \<and> [] \<notin> set (split_at_byte SLASH path) \<and> hd path \<noteq> SLASH \<and> 0x5c \<notin> set path \<and> 0x3a \<notin> set path"
proof -
  have wf: "wf_archive_path p" "path = archive_path_str p" using assms by (simp_all add: result_inv)
  have segs: "\<forall>seg \<in> set (split_at_byte SLASH path). validate_segment seg = Ok ()"
    and ne: "path \<noteq> []" using wf by (simp_all add: wf_archive_path_def)
  have "[] \<notin> set (split_at_byte SLASH path)" using segs validate_segment_walk by blast
  moreover from this have "hd path \<noteq> SLASH" using split_boundary [OF ne] by blast
  ultimately show ?thesis
    using walk_validated [OF segs, of "[]"] wf allowed_path_ascii by (auto simp: wf_archive_path_def)
qed

theorem archive_path_confined_witness:
  "walk [] (split_at_byte SLASH (lit ''submissions/0001.cbor'')) = Some [lit ''submissions'', lit ''0001.cbor'']
   \<and> ArchivePathV1_new (lit ''submissions/0001.cbor'') = Ok (ArchivePathV1 (lit ''submissions/0001.cbor''))"
proof -
  have p: "ArchivePathV1_new (lit ''submissions/0001.cbor'') = Ok (ArchivePathV1 (lit ''submissions/0001.cbor''))"
    using ar_path_wf by (simp add: result_inv)
  from archive_path_confined [OF p] p show ?thesis by (simp add: lit_def SLASH_def)
qed

text \<open>
  A catalog is built from a list of entries exactly when the list is
  non-empty, within the file limit and free of paths that a case-insensitive file system would
  confuse; the catalog holds the same entries in strictly ascending order of path.
\<close>

lemma archive_catalog_accepted_iff:
  "ArchiveFileCatalogV1_new es = Ok c \<longleftrightarrow>
     es \<noteq> [] \<and> length es \<le> MAX_ARCHIVE_FILES
     \<and> distinct (map (\<lambda>e. to_ascii_lowercase (archive_path_str (fe_path e))) es)
     \<and> mset (fc_entries c) = mset es \<and> sorted_wrt (<) (map fe_path (fc_entries c))"
proof -
  have "fc_entries c = sort_key fe_path es \<longleftrightarrow> mset (fc_entries c) = mset es \<and> sorted_wrt (<) (map fe_path (fc_entries c))"
    if d: "distinct (map (\<lambda>e. portable_collision_key (fe_path e)) es)"
  proof -
    have "distinct (map fe_path es)" by (rule distinct_paths_of_keys [OF d])
    then have "inj_on fe_path (set es)" "distinct (map fe_path (sort_key fe_path es))"
      by (simp_all add: distinct_map distinct_map_sort_key)
    then have inj: "inj_on fe_path (set es)" and asc: "sorted_wrt (<) (map fe_path (sort_key fe_path es))"
      by (simp_all add: strictly_sorted_iff)
    show ?thesis
    proof
      assume r: "mset (fc_entries c) = mset es \<and> sorted_wrt (<) (map fe_path (fc_entries c))"
      then have "sort_key fe_path es = fc_entries c"
        by (intro sort_key_inj_key_eq inj) (simp_all add: strictly_sorted_iff)
      then show "fc_entries c = sort_key fe_path es" by (rule sym)
    qed (simp add: asc)
  qed
  then show ?thesis
    by (auto simp: ArchiveFileCatalogV1_new_Ok_iff portable_collision_key_def)
qed

text \<open>
  The archive-manifest decoder accepts exactly the canonical
  encodings of well-formed archive manifests of either version.
\<close>

lemma archive_manifest_codec_exact:
  "archive_manifest_from_canonical_cbor bs = Ok m \<longleftrightarrow>
     wf_archive_manifest m \<and> archive_manifest_to_canonical_cbor m = Ok bs"
  by (rule archive_manifest_codec.decode_iff)

text \<open>
  The transport-binding decoder accepts exactly the canonical
  encodings of bindings whose batches are strictly ascending and whose final commitment is the
  commitment of those batches.
\<close>

lemma transport_binding_codec_exact:
  "binding_from_canonical_cbor blake3 bs = Ok b \<longleftrightarrow>
     wf_binding blake3 b \<and> binding_to_canonical_cbor blake3 b = Ok bs"
  by (rule binding_codec.decode_iff)

section \<open>The memo\<close>

text \<open>
  C24: However concurrent requests interleave, a request on a directory is answered
  with the report the unmemoised verifier gives for that directory, unless the inputs hashed for it
  collide with those of another directory that was requested.
\<close>

theorem memo_transparent:
  assumes "memo_reachable L nfc blake3 capacity w" and "mw_requests w t = Finished root result"
  shows "result = verify_archive_directory_v1 L nfc blake3 root
    \<or> (\<exists>root' ei ei'. root' \<in> requested w
         \<and> establish_identity_and_catalog blake3 root = Ok (Established ei)
         \<and> establish_identity_and_catalog blake3 root' = Ok (Established ei') \<and> archives_collide blake3 ei ei')"
  using finished_answer [OF assms] unfolding answer_ok_def by blast

theorem memo_transparent_witness:
  "\<exists>w result. memo_reachable toy_lib id zero_digest 4 w \<and> mw_requests w 1 = Finished (Ok ar_dir) result
     \<and> (result = verify_archive_directory_v1 toy_lib id zero_digest (Ok ar_dir)
        \<or> (\<exists>ei ei'. archives_collide zero_digest ei ei'))"
proof -
  obtain w r where w: "memo_reachable toy_lib id zero_digest 4 w" "mw_requests w 1 = Finished (Ok ar_dir) r"
    using ar_run_finishes by blast
  from memo_transparent [OF w] w show ?thesis by blast
qed

text \<open>
  In every reachable state the memo holds at most its capacity of reports (at least
  one), one per key, each of them verified, and its recency list is a permutation of its keys.
\<close>

lemma memo_bounded:
  assumes "memo_reachable L nfc blake3 capacity w"
  shows "length (me_entries (mw_memo w)) \<le> max capacity 1
    \<and> distinct (map fst (me_entries (mw_memo w)))
    \<and> mset (me_recency (mw_memo w)) = mset (map fst (me_entries (mw_memo w)))
    \<and> ((k, r) \<in> set (me_entries (mw_memo w)) \<longrightarrow> dv_verified r)"
proof -
  have inv: "memo_inv capacity (mw_memo w)" by (rule memo_reachable_inv [OF assms])
  then have "mset (me_recency (mw_memo w)) = mset (map fst (me_entries (mw_memo w)))"
    using set_eq_iff_mset_eq_distinct [of "me_recency (mw_memo w)" "map fst (me_entries (mw_memo w))"]
    by (simp add: memo_inv_def)
  then show ?thesis
    using inv cached_reports_verified [OF assms] by (auto simp: memo_inv_def memo_capacity_def)
qed

text \<open>
  C32: No request waits for a verification that nobody performs: from every
  reachable state in which a request waits for another one's result, there is a continuation in which
  it is answered.
\<close>

theorem memo_waiters_finish:
  assumes "memo_reachable L nfc blake3 capacity w" and "mw_requests w t = Waiting root key ei flight"
  shows "\<exists>w' result. (memo_step L nfc blake3 capacity)\<^sup>*\<^sup>* w w' \<and> mw_requests w' t = Finished root result"
  by (rule waiting_can_finish [OF assms])

theorem memo_waiters_finish_witness:
  "\<exists>w' result. (memo_step toy_lib id zero_digest 4)\<^sup>*\<^sup>* ar_world2 w' \<and> mw_requests w' 1 = Finished (Ok ar_dir) result"
  by (rule memo_waiters_finish [OF ar_world2_reachable ar_world2_waits])

section \<open>Two observations\<close>

text \<open>
  Links and devices are invisible to the enumeration of the directory, so a directory with such an
  extra entry is established and verified like the directory without it.
\<close>

lemma special_files_ignored:
  "enumerate_disk_files (DirNode l (es @ [(name, OtherNode)])) = enumerate_disk_files (DirNode l es)"
  by (simp add: enumerate_disk_files_eq)

text \<open>The reported number of transport submissions is a sum modulo \<open>2 ^ 64\<close> of archived counts.\<close>

lemma transport_accepted_wraps:
  "transport_accepted_sum
     [\<lparr>ba_batch_id = 1, ba_root = r, ba_accepted_unique_count = 0x8000000000000000, ba_reduced_anonymity = False\<rparr>,
      \<lparr>ba_batch_id = 2, ba_root = r, ba_accepted_unique_count = 0x8000000000000001, ba_reduced_anonymity = False\<rparr>] = 1"
  by (simp add: transport_accepted_sum_def)

end
