(* ===== verification/Election_Session.thy ===== *)
theory Election_Session
  imports Archive_Verifier
begin

text \<open>
  The organizer's election session (\<open>crates/gui-core/src/session.rs\<close>, \<open>artifacts.rs\<close>, \<open>intake.rs\<close>,
  \<open>participation.rs\<close> and the errors they use): artifacts, lifecycle, intake of packages, the inbox
  index, durable snapshots and their replay, tally and participation. The messages of errors and the
  instrumentation counters are left out.
\<close>

section \<open>Errors\<close>

datatype gui_error_category =
    InvalidInput | UnsupportedFormat | BindingMismatch | ProofFailure | DuplicateBallot
  | InvalidLifecycleTransitionCategory | ArchiveIntegrity | FileIo | AnchorArtifactIntegrity | Unavailable

record gui_core_error =
  ge_code :: rstring
  ge_category :: gui_error_category
  ge_context :: "rstring option"

type_synonym 'a gresult = "('a, gui_core_error) result"

definition gui_error :: "string \<Rightarrow> gui_error_category \<Rightarrow> string \<Rightarrow> gui_core_error" where
  "gui_error code category ctx = \<lparr>ge_code = lit code, ge_category = category, ge_context = Some (lit ctx)\<rparr>"

definition category_for_validation :: "validation_code \<Rightarrow> gui_error_category" where
  "category_for_validation code =
     (if code = DuplicateNullifier then DuplicateBallot
      else if code = MalformedProof then ProofFailure
      else if code \<in> {WrongManifestHash, CandidateSetCommitmentMismatch, LifecycleCommitmentMismatch,
        BallotDecisionDigestMismatch} then BindingMismatch
      else if code \<in> {InvalidLifecycleTransition, ElectionNotOpen} then InvalidLifecycleTransitionCategory
      else if code \<in> {UnsupportedProtocolVersion, UnsupportedHashAlgorithm, UnsupportedProofSuite} then UnsupportedFormat
      else if code \<in> {ArchiveFileDigestMismatch, ArchiveManifestHashMismatch, InvalidArchiveManifest,
        EmptyArchiveFileSet, EmptyArchivePath, InvalidArchivePath, DuplicateArchivePath, InvalidIngestSequence,
        DuplicateBallotDecision, IncompleteVerificationTranscript} then ArchiveIntegrity
      else InvalidInput)"

definition from_protocol :: "string \<Rightarrow> validation_code \<Rightarrow> gui_core_error" where
  "from_protocol ctx code =
     \<lparr>ge_code = code_as_str code, ge_category = category_for_validation code, ge_context = Some (lit ctx)\<rparr>"

abbreviation gui_err :: "string \<Rightarrow> 'a presult \<Rightarrow> 'a gresult" where
  "gui_err ctx \<equiv> map_err (from_protocol ctx)"

section \<open>Artifacts\<close>

record gui_election_artifacts_v1 =
  ga_manifest :: election_manifest
  ga_registry :: registry_snapshot
  ga_candidates :: candidate_set
  ga_manifest_hash :: manifest_hash
  ga_registry_commitment :: registry_commitment
  ga_candidate_set_commitment :: candidate_set_commitment

definition gui_artifacts_from_bytes ::
  "(nat list \<Rightarrow> nat list) \<Rightarrow> (bytes \<Rightarrow> bytes32) \<Rightarrow> bytes \<Rightarrow> bytes \<Rightarrow> bytes \<Rightarrow> gui_election_artifacts_v1 gresult" where
  "gui_artifacts_from_bytes nfc blake3 manifest_bytes registry_bytes candidate_bytes =
     and_then (gui_err ''manifest'' (manifest_from_canonical_cbor nfc manifest_bytes)) (\<lambda>manifest.
     and_then (gui_err ''registry'' (registry_from_canonical_cbor registry_bytes)) (\<lambda>registry.
     and_then (gui_err ''candidates'' (candidate_set_from_canonical_cbor candidate_bytes)) (\<lambda>candidates.
     let provider = Blake3HashProviderV1 blake3 in
     and_then (gui_err ''registry'' (registry_canonical_commitment provider registry)) (\<lambda>registry_commitment.
     if registry_commitment \<noteq> manifest_registry_commitment manifest then
       Err (gui_error ''GUI_REGISTRY_COMMITMENT_MISMATCH'' BindingMismatch ''registry'')
     else
       and_then (gui_err ''candidates'' (candidate_set_canonical_commitment provider candidates)) (\<lambda>commitment.
       if commitment \<noteq> manifest_candidate_set_commitment manifest then
         Err (from_protocol ''candidates'' CandidateSetCommitmentMismatch)
       else
         and_then (gui_err ''manifest'' (manifest_canonical_hash provider manifest)) (\<lambda>manifest_hash.
         and_then (gui_err ''manifest'' (production_policy_validate (manifest_proof_suite_id manifest))) (\<lambda>_.
         Ok \<lparr>ga_manifest = manifest, ga_registry = registry, ga_candidates = candidates,
             ga_manifest_hash = manifest_hash, ga_registry_commitment = registry_commitment,
             ga_candidate_set_commitment = commitment\<rparr>)))))))"

text \<open>The display summary of the artifacts.\<close>

record gui_candidate_summary_v1 =
  cm_machine_id_hex :: rstring
  cm_machine_id_text :: "rstring option"
  cm_display_name :: rstring

record gui_election_summary_v1 =
  es_manifest_schema_version :: u16
  es_election_id_hex :: rstring
  es_election_id_text :: "rstring option"
  es_lifecycle_state :: "rstring option"
  es_manifest_hash_hex :: rstring
  es_registry_commitment_hex :: rstring
  es_candidate_set_commitment_hex :: rstring
  es_voter_count :: nat
  es_proof_suite_id :: rstring
  es_ballot_kind :: rstring
  es_ballot_confidentiality :: rstring
  es_approval_min :: nat
  es_approval_max :: nat
  es_abstention_allowed :: bool
  es_governance_source_revision :: rstring
  es_proposal_question :: "rstring option"
  es_candidates :: "gui_candidate_summary_v1 list"

definition utf8_text :: "bytes \<Rightarrow> rstring option" where
  "utf8_text bs = (if utf8_valid bs then Some bs else None)"

definition summary_with_lifecycle :: "rstring option \<Rightarrow> gui_election_artifacts_v1 \<Rightarrow> gui_election_summary_v1" where
  "summary_with_lifecycle lifecycle_state a =
     (let manifest = ga_manifest a; id_bytes = election_id_bytes (manifest_election_id manifest) in
      \<lparr>es_manifest_schema_version = manifest_schema_version manifest,
       es_election_id_hex = to_lower_hex_slice id_bytes,
       es_election_id_text = utf8_text id_bytes,
       es_lifecycle_state = lifecycle_state,
       es_manifest_hash_hex = to_lower_hex (manifest_hash_bytes (ga_manifest_hash a)),
       es_registry_commitment_hex = to_lower_hex (registry_commitment_bytes (ga_registry_commitment a)),
       es_candidate_set_commitment_hex = to_lower_hex (candidate_set_commitment_bytes (ga_candidate_set_commitment a)),
       es_voter_count = length (rs_entries (ga_registry a)),
       es_proof_suite_id = manifest_proof_suite_id manifest,
       es_ballot_kind = ballot_kind_as_str (manifest_ballot_kind manifest),
       es_ballot_confidentiality = ballot_confidentiality_as_str (manifest_ballot_confidentiality manifest),
       es_approval_min = al_minimum (manifest_approval_limits manifest),
       es_approval_max = al_maximum (manifest_approval_limits manifest),
       es_abstention_allowed = al_allow_abstention (manifest_approval_limits manifest),
       es_governance_source_revision = manifest_governance_source_revision manifest,
       es_proposal_question = manifest_proposal_question manifest,
       es_candidates = map (\<lambda>c. let cid = candidate_id_bytes (cd_id c) in
         \<lparr>cm_machine_id_hex = to_lower_hex_slice cid, cm_machine_id_text = utf8_text cid,
          cm_display_name = cd_display_name c\<rparr>) (cs_candidates (ga_candidates a))\<rparr>)"

section \<open>Intake results\<close>

datatype gui_intake_category =
  IntakeAccepted | IntakeDuplicate | IntakeWrongElection | IntakeMalformedProof | IntakeUnsupportedSuite | IntakeInvalid

definition from_validation :: "validation_code \<Rightarrow> gui_intake_category" where
  "from_validation code =
     (if code = DuplicateNullifier then IntakeDuplicate
      else if code \<in> {WrongManifestHash, LifecycleCommitmentMismatch, CandidateSetCommitmentMismatch} then
        IntakeWrongElection
      else if code = MalformedProof then IntakeMalformedProof
      else if code = UnsupportedProofSuite then IntakeUnsupportedSuite
      else IntakeInvalid)"

record gui_ballot_intake_result_v1 =
  ir_accepted :: bool
  ir_code :: rstring
  ir_category :: gui_intake_category
  ir_package_digest_hex :: rstring

definition intake_result :: "ballot_package_digest_v1 \<Rightarrow> ballot_decision_outcome_v1 \<Rightarrow> gui_ballot_intake_result_v1" where
  "intake_result digest outcome =
     (let result = \<lparr>ir_accepted = is_accepted outcome, ir_code = lit ''ACCEPTED'', ir_category = IntakeAccepted,
                    ir_package_digest_hex = to_lower_hex (package_digest_bytes digest)\<rparr> in
      if is_accepted outcome then result
      else case rejection_code outcome of
        None \<Rightarrow> result
      | Some code \<Rightarrow>
          result\<lparr>ir_code := (if code = DuplicateNullifier then lit ''DUPLICATE_BALLOT'' else code_as_str code),
                 ir_category := from_validation code\<rparr>)"

section \<open>The session\<close>

record transcript_decision_index_entry_v1 =
  ix_sequence :: ingest_sequence_v1
  ix_outcome :: ballot_decision_outcome_v1

text \<open>The file metadata the inbox cache compares; the modification time is an opaque stamp.\<close>

record private_inbox_file_validation_v1 =
  fv_byte_len :: u64
  fv_modified :: nat

record gui_election_session_v1 =
  gs_artifacts :: gui_election_artifacts_v1
  gs_verifier :: tari_triptych_verifier_v1
  gs_lifecycle :: election_lifecycle_v1
  gs_ledger :: ballot_acceptance_ledger
  gs_transcript :: verification_transcript_v1
  gs_packages :: "bytes list"
  gs_digest_index :: "ballot_package_digest_v1 \<rightharpoonup> transcript_decision_index_entry_v1"
  gs_inbox_cache :: "ballot_package_digest_v1 \<rightharpoonup> private_inbox_file_validation_v1"

definition gui_session_new ::
  "'pt curve \<Rightarrow> (bytes \<Rightarrow> bytes32) \<Rightarrow> gui_election_artifacts_v1 \<Rightarrow> gui_election_session_v1 gresult" where
  "gui_session_new curve blake3 artifacts =
     and_then (gui_err ''registry'' (build_tari_triptych_verifier_from_registry_v1 curve (ga_registry artifacts)
       (Blake3HashProviderV1 blake3))) (\<lambda>verifier.
     and_then (gui_err ''lifecycle'' (freeze (ga_manifest_hash artifacts) (ga_registry_commitment artifacts)
       lifecycle_new)) (\<lambda>lifecycle.
     Ok \<lparr>gs_artifacts = artifacts, gs_verifier = verifier, gs_lifecycle = lifecycle, gs_ledger = ledger_new,
         gs_transcript = transcript_new (ga_manifest_hash artifacts), gs_packages = [],
         gs_digest_index = Map.empty, gs_inbox_cache = Map.empty\<rparr>))"

definition lifecycle_op ::
  "(election_lifecycle_v1 \<Rightarrow> election_lifecycle_v1 presult) \<Rightarrow> gui_election_session_v1 \<Rightarrow> gui_election_session_v1 gresult" where
  "lifecycle_op f s = and_then (gui_err ''lifecycle'' (f (gs_lifecycle s))) (\<lambda>l. Ok (s\<lparr>gs_lifecycle := l\<rparr>))"

definition gui_open :: "gui_election_session_v1 \<Rightarrow> gui_election_session_v1 gresult" where
  "gui_open = lifecycle_op open_election"

definition gui_close :: "gui_election_session_v1 \<Rightarrow> gui_election_session_v1 gresult" where
  "gui_close = lifecycle_op close_election"

definition gui_mark_verified :: "gui_election_session_v1 \<Rightarrow> gui_election_session_v1 gresult" where
  "gui_mark_verified = lifecycle_op mark_verified"

definition gui_finalize :: "gui_election_session_v1 \<Rightarrow> gui_election_session_v1 gresult" where
  "gui_finalize = lifecycle_op finalize"

definition record_private_intake_digest_index_entry ::
  "ingest_sequence_v1 \<Rightarrow> ballot_package_digest_v1 \<Rightarrow> ballot_decision_outcome_v1 \<Rightarrow>
   gui_election_session_v1 \<Rightarrow> gui_election_session_v1" where
  "record_private_intake_digest_index_entry sequence digest outcome s =
     (case gs_digest_index s digest of
        Some _ \<Rightarrow> s
      | None \<Rightarrow> s\<lparr>gs_digest_index := (gs_digest_index s)(digest \<mapsto> \<lparr>ix_sequence = sequence, ix_outcome = outcome\<rparr>)\<rparr>)"

text \<open>The end of an intake: the decision is recorded, indexed, and the package kept.\<close>

definition conclude_intake ::
  "ingest_sequence_v1 \<Rightarrow> ballot_package_digest_v1 \<Rightarrow> ballot_decision_outcome_v1 \<Rightarrow> ballot_acceptance_ledger \<Rightarrow>
   verification_transcript_v1 \<Rightarrow> bytes \<Rightarrow> gui_election_session_v1 \<Rightarrow> gui_election_session_v1 gresult" where
  "conclude_intake sequence digest outcome ledger transcript package_bytes s =
     and_then (gui_err ''transcript'' (record_decision sequence digest outcome transcript)) (\<lambda>transcript.
     let s = record_private_intake_digest_index_entry sequence digest outcome
               (s\<lparr>gs_ledger := ledger, gs_transcript := transcript\<rparr>) in
     Ok (s\<lparr>gs_packages := gs_packages s @ [package_bytes]\<rparr>))"

definition process_intake_package_with_digest ::
  "('q, 'pt, 'pp, 'is, 'ts, 'pf, 'tr) triptych_lib \<Rightarrow> (bytes \<Rightarrow> bytes32) \<Rightarrow> bytes \<Rightarrow> ballot_package_digest_v1 \<Rightarrow>
   gui_election_session_v1 \<Rightarrow> (gui_ballot_intake_result_v1 \<times> gui_election_session_v1) gresult" where
  "process_intake_package_with_digest L blake3 package_bytes digest s =
     and_then (gui_err ''transcript'' (record_submission digest True (gs_transcript s))) (\<lambda>(sequence, transcript).
     let (outcome, ledger) =
       (case ingest_approval_ballot_package_v1 package_bytes (ga_manifest (gs_artifacts s))
               (ga_candidates (gs_artifacts s)) (gs_lifecycle s) (Blake3HashProviderV1 blake3)
               (TariTriptychPrototypeVerifierV1 L (gs_verifier s)) (gs_ledger s) of
          Ok ledger \<Rightarrow> (Accepted, ledger)
        | Err code \<Rightarrow> (Rejected code, gs_ledger s)) in
     and_then (conclude_intake sequence digest outcome ledger transcript package_bytes s) (\<lambda>s.
     Ok (intake_result digest outcome, s)))"

definition intake_ballot_package_bytes ::
  "('q, 'pt, 'pp, 'is, 'ts, 'pf, 'tr) triptych_lib \<Rightarrow> (bytes \<Rightarrow> bytes32) \<Rightarrow> bytes \<Rightarrow>
   gui_election_session_v1 \<Rightarrow> (gui_ballot_intake_result_v1 \<times> gui_election_session_v1) gresult" where
  "intake_ballot_package_bytes L blake3 package_bytes s =
     (if lc_state (gs_lifecycle s) \<noteq> Open then
        Err \<lparr>ge_code = code_as_str ElectionNotOpen, ge_category = InvalidLifecycleTransitionCategory,
             ge_context = Some (lit ''lifecycle'')\<rparr>
      else process_intake_package_with_digest L blake3 package_bytes (package_digest blake3 package_bytes) s)"

section \<open>The inbox\<close>

definition ensure_inbox_reconciliation_lifecycle :: "gui_election_session_v1 \<Rightarrow> unit gresult" where
  "ensure_inbox_reconciliation_lifecycle s =
     (if lc_state (gs_lifecycle s) \<in> {Draft, Frozen, Verified, Finalized} then
        Err \<lparr>ge_code = code_as_str ElectionNotOpen, ge_category = InvalidLifecycleTransitionCategory,
             ge_context = Some (lit ''lifecycle'')\<rparr>
      else Ok ())"

definition index_inconsistent :: gui_core_error where
  "index_inconsistent =
     gui_error ''GUI_PRIVATE_INTAKE_DIGEST_INDEX_INCONSISTENT'' ArchiveIntegrity ''private-intake-inbox''"

definition indexed_inbox_reconciliation_result ::
  "ballot_package_digest_v1 \<Rightarrow> gui_election_session_v1 \<Rightarrow> gui_ballot_intake_result_v1 option gresult" where
  "indexed_inbox_reconciliation_result digest s =
     (case gs_digest_index s digest of
        None \<Rightarrow> Ok None
      | Some entry \<Rightarrow>
          and_then (ok_or index_inconsistent (usize_of_u64 (sequence_value (ix_sequence entry)))) (\<lambda>index.
          if index \<ge> length (vt_decisions (gs_transcript s)) then Err index_inconsistent
          else
            let authoritative = vt_decisions (gs_transcript s) ! index in
            if bd_sequence authoritative \<noteq> ix_sequence entry \<or> bd_package_digest authoritative \<noteq> digest
               \<or> bd_outcome authoritative \<noteq> ix_outcome entry then
              Err index_inconsistent
            else
              let outcome = (if is_accepted (ix_outcome entry) then Rejected DuplicateNullifier else ix_outcome entry) in
              Ok (Some (intake_result digest outcome))))"

definition reconcile_accepted_package_bytes_from_inbox ::
  "('q, 'pt, 'pp, 'is, 'ts, 'pf, 'tr) triptych_lib \<Rightarrow> (bytes \<Rightarrow> bytes32) \<Rightarrow> bytes \<Rightarrow>
   gui_election_session_v1 \<Rightarrow> (gui_ballot_intake_result_v1 \<times> gui_election_session_v1) gresult" where
  "reconcile_accepted_package_bytes_from_inbox L blake3 package_bytes s =
     and_then (ensure_inbox_reconciliation_lifecycle s) (\<lambda>_.
     let digest = package_digest blake3 package_bytes in
     and_then (indexed_inbox_reconciliation_result digest s) (\<lambda>known.
     case known of
       Some result \<Rightarrow> Ok (result, s)
     | None \<Rightarrow> process_intake_package_with_digest L blake3 package_bytes digest s))"

definition reconcile_cached_inbox_digest ::
  "ballot_package_digest_v1 \<Rightarrow> u64 \<Rightarrow> nat \<Rightarrow> gui_election_session_v1 \<Rightarrow> gui_ballot_intake_result_v1 option gresult" where
  "reconcile_cached_inbox_digest digest byte_len modified s =
     and_then (ensure_inbox_reconciliation_lifecycle s) (\<lambda>_.
     case gs_inbox_cache s digest of
       None \<Rightarrow> Ok None
     | Some cached \<Rightarrow>
         if fv_byte_len cached \<noteq> byte_len \<or> fv_modified cached \<noteq> modified then Ok None
         else indexed_inbox_reconciliation_result digest s)"

definition remember_validated_inbox_file ::
  "ballot_package_digest_v1 \<Rightarrow> u64 \<Rightarrow> nat \<Rightarrow> gui_election_session_v1 \<Rightarrow> gui_election_session_v1" where
  "remember_validated_inbox_file digest byte_len modified s =
     s\<lparr>gs_inbox_cache := (gs_inbox_cache s)(digest \<mapsto> \<lparr>fv_byte_len = byte_len, fv_modified = modified\<rparr>)\<rparr>"

section \<open>Durable snapshots\<close>

record gui_election_session_snapshot_v1 =
  sn_lifecycle_state :: election_lifecycle_state_v1
  sn_manifest_bytes :: bytes
  sn_registry_bytes :: bytes
  sn_candidate_bytes :: bytes
  sn_packages :: "bytes list"

definition to_durable_snapshot :: "gui_election_session_v1 \<Rightarrow> gui_election_session_snapshot_v1 gresult" where
  "to_durable_snapshot s =
     and_then (gui_err ''manifest'' (manifest_to_canonical_cbor (ga_manifest (gs_artifacts s)))) (\<lambda>manifest_bytes.
     and_then (gui_err ''registry'' (registry_to_canonical_cbor (ga_registry (gs_artifacts s)))) (\<lambda>registry_bytes.
     and_then (gui_err ''candidates'' (candidate_set_to_canonical_cbor (ga_candidates (gs_artifacts s)))) (\<lambda>candidate_bytes.
     Ok \<lparr>sn_lifecycle_state = lc_state (gs_lifecycle s), sn_manifest_bytes = manifest_bytes,
         sn_registry_bytes = registry_bytes, sn_candidate_bytes = candidate_bytes, sn_packages = gs_packages s\<rparr>)))"

definition workspace_invalid_state :: gui_core_error where
  "workspace_invalid_state = gui_error ''GUI_WORKSPACE_INVALID_STATE'' ArchiveIntegrity ''election-workspace''"

fun intake_all ::
  "('q, 'pt, 'pp, 'is, 'ts, 'pf, 'tr) triptych_lib \<Rightarrow> (bytes \<Rightarrow> bytes32) \<Rightarrow> bytes list \<Rightarrow>
   gui_election_session_v1 \<Rightarrow> gui_election_session_v1 gresult" where
  "intake_all L blake3 [] s = Ok s"
| "intake_all L blake3 (package # packages) s =
     and_then (intake_ballot_package_bytes L blake3 package s) (\<lambda>(_, s). intake_all L blake3 packages s)"

primrec apply_terminal_lifecycle ::
  "election_lifecycle_state_v1 \<Rightarrow> gui_election_session_v1 \<Rightarrow> gui_election_session_v1 gresult" where
  "apply_terminal_lifecycle Open s = Ok s"
| "apply_terminal_lifecycle Closed s = gui_close s"
| "apply_terminal_lifecycle Verified s = and_then (gui_close s) gui_mark_verified"
| "apply_terminal_lifecycle Finalized s = and_then (gui_close s) (\<lambda>s. and_then (gui_mark_verified s) gui_finalize)"
| "apply_terminal_lifecycle Draft s = Err workspace_invalid_state"
| "apply_terminal_lifecycle Frozen s = Err workspace_invalid_state"

text \<open>Both reconstructions share the frame; they differ in how the packages are replayed.\<close>

definition reconstruct_with ::
  "'pt curve \<Rightarrow> (nat list \<Rightarrow> nat list) \<Rightarrow> (bytes \<Rightarrow> bytes32) \<Rightarrow>
   (bytes list \<Rightarrow> gui_election_session_v1 \<Rightarrow> gui_election_session_v1 gresult) \<Rightarrow>
   gui_election_session_snapshot_v1 \<Rightarrow> gui_election_session_v1 gresult" where
  "reconstruct_with curve nfc blake3 replay snapshot =
     (if sn_lifecycle_state snapshot = Draft then Err workspace_invalid_state
      else
        and_then (gui_artifacts_from_bytes nfc blake3 (sn_manifest_bytes snapshot) (sn_registry_bytes snapshot)
          (sn_candidate_bytes snapshot)) (\<lambda>artifacts.
        and_then (gui_session_new curve blake3 artifacts) (\<lambda>session.
        if sn_lifecycle_state snapshot = Frozen then
          (if sn_packages snapshot \<noteq> [] then Err workspace_invalid_state else Ok session)
        else
          and_then (gui_open session) (\<lambda>session.
          and_then (replay (sn_packages snapshot) session) (\<lambda>session.
          apply_terminal_lifecycle (sn_lifecycle_state snapshot) session)))))"

definition from_durable_snapshot ::
  "('q, 'pt, 'pp, 'is, 'ts, 'pf, 'tr) triptych_lib \<Rightarrow> (nat list \<Rightarrow> nat list) \<Rightarrow> (bytes \<Rightarrow> bytes32) \<Rightarrow>
   gui_election_session_snapshot_v1 \<Rightarrow> gui_election_session_v1 gresult" where
  "from_durable_snapshot L nfc blake3 = reconstruct_with (tl_dalek_v4 L) nfc blake3 (intake_all L blake3)"

definition replayed_clone ::
  "('q, 'pt, 'pp, 'is, 'ts, 'pf, 'tr) triptych_lib \<Rightarrow> (nat list \<Rightarrow> nat list) \<Rightarrow> (bytes \<Rightarrow> bytes32) \<Rightarrow>
   gui_election_session_v1 \<Rightarrow> gui_election_session_v1 gresult" where
  "replayed_clone L nfc blake3 s = and_then (to_durable_snapshot s) (from_durable_snapshot L nfc blake3)"

section \<open>Tally and participation\<close>

definition gui_direct_tally :: "gui_election_session_v1 \<Rightarrow> approval_tally gresult" where
  "gui_direct_tally s =
     gui_err ''tally'' (tally_from_ballots (ga_candidates (gs_artifacts s))
       (map ab_payload (bl_accepted_ballots (gs_ledger s))))"

text \<open>The tally summary of the application (\<open>gui-core/src/tally.rs\<close>).\<close>

record gui_tally_count_v1 =
  gc_candidate_id_hex :: rstring
  gc_candidate_id_text :: "rstring option"
  gc_display_name :: rstring
  gc_approvals :: u64

datatype gui_leading_result_v1 =
    GuiNoApprovals
  | GuiSingleLeader rstring rstring u64
  | GuiTie "rstring list" u64

record gui_tally_summary_v1 =
  gt_accepted_ballots :: u64
  gt_abstentions :: u64
  gt_counts :: "gui_tally_count_v1 list"
  gt_leading :: gui_leading_result_v1

definition gui_summarize_tally :: "approval_tally \<Rightarrow> candidate_set \<Rightarrow> gui_tally_summary_v1" where
  "gui_summarize_tally tally candidates =
     \<lparr>gt_accepted_ballots = at_accepted_ballots tally,
      gt_abstentions = at_abstentions tally,
      gt_counts = map (\<lambda>c. let id_bytes = candidate_id_bytes (cc_candidate_id c) in
        \<lparr>gc_candidate_id_hex = to_lower_hex_slice id_bytes,
         gc_candidate_id_text = (if utf8_valid id_bytes then Some id_bytes else None),
         gc_display_name = display_name_of candidates id_bytes,
         gc_approvals = cc_approvals c\<rparr>) (at_counts tally),
      gt_leading = (case leading_result_of tally of
          NoApprovals \<Rightarrow> GuiNoApprovals
        | SingleLeader cid approvals \<Rightarrow>
            GuiSingleLeader (to_lower_hex_slice (candidate_id_bytes cid))
              (display_name_of candidates (candidate_id_bytes cid)) approvals
        | Tie cids approvals \<Rightarrow>
            GuiTie (map (\<lambda>cid. to_lower_hex_slice (candidate_id_bytes cid)) cids) approvals)\<rparr>"

definition gui_tally :: "gui_election_session_v1 \<Rightarrow> gui_tally_summary_v1 gresult" where
  "gui_tally s =
     (if lc_state (gs_lifecycle s) \<notin> {Closed, Verified, Finalized} then
        Err (gui_error ''GUI_TALLY_NOT_AVAILABLE_BEFORE_CLOSE'' InvalidLifecycleTransitionCategory ''tally'')
      else
        and_then (gui_direct_tally s) (\<lambda>tally.
        Ok (gui_summarize_tally tally (ga_candidates (gs_artifacts s)))))"

definition SMALL_ELECTORATE_THRESHOLD :: nat where
  "SMALL_ELECTORATE_THRESHOLD = 25"

datatype participation_visibility = Live | Coarse | SealedUntilClose

datatype result_visibility = Sealed | Disclosed

datatype coarse_participation_bucket =
    ZeroToTwentyFour | TwentyFiveToFortyNine | FiftyToSeventyFour | SeventyFiveToNinetyNine | OneHundred

definition from_basis_points :: "32 word \<Rightarrow> coarse_participation_bucket" where
  "from_basis_points bps =
     (if bps \<ge> 10000 then OneHundred
      else if bps \<ge> 7500 then SeventyFiveToNinetyNine
      else if bps \<ge> 5000 then FiftyToSeventyFour
      else if bps \<ge> 2500 then TwentyFiveToFortyNine
      else ZeroToTwentyFour)"

text \<open>\<open>u64::saturating_mul\<close>, \<open>u64::saturating_sub\<close> and \<open>u64::try_from(usize).unwrap_or(u64::MAX)\<close>.\<close>

definition saturating_mul_u64 :: "u64 \<Rightarrow> u64 \<Rightarrow> u64" where
  "saturating_mul_u64 a b = (if unat a * unat b < 2 ^ 64 then a * b else - 1)"

definition saturating_sub_u64 :: "u64 \<Rightarrow> u64 \<Rightarrow> u64" where
  "saturating_sub_u64 a b = (if b \<le> a then a - b else 0)"

definition u64_or_max :: "nat \<Rightarrow> u64" where
  "u64_or_max n = (case u64_of_usize n of Some v \<Rightarrow> v | None \<Rightarrow> - 1)"

definition participation_basis_points :: "u64 \<Rightarrow> u64 \<Rightarrow> 32 word" where
  "participation_basis_points accepted eligible =
     (if eligible = 0 then 0
      else if accepted \<ge> eligible then 10000
      else
        let bps = saturating_mul_u64 accepted 10000 div eligible in
        if bps > 10000 then 10000
        else if unat bps < 2 ^ 32 then ucast bps else 10000)"

primrec participation_visibility_for :: "election_lifecycle_state_v1 \<Rightarrow> participation_visibility" where
  "participation_visibility_for Draft = SealedUntilClose"
| "participation_visibility_for Frozen = SealedUntilClose"
| "participation_visibility_for Open = SealedUntilClose"
| "participation_visibility_for Closed = Live"
| "participation_visibility_for Verified = Live"
| "participation_visibility_for Finalized = Live"

primrec result_visibility_for :: "election_lifecycle_state_v1 \<Rightarrow> result_visibility" where
  "result_visibility_for Draft = Sealed"
| "result_visibility_for Frozen = Sealed"
| "result_visibility_for Open = Sealed"
| "result_visibility_for Closed = Disclosed"
| "result_visibility_for Verified = Disclosed"
| "result_visibility_for Finalized = Disclosed"

record gui_participation_summary_v1 =
  pt_lifecycle_state :: rstring
  pt_participation_visibility :: participation_visibility
  pt_result_visibility :: result_visibility
  pt_eligible_voters :: u64
  pt_accepted_ballots :: "u64 option"
  pt_participation_basis_points :: "32 word option"
  pt_remaining_eligible_capacity :: "u64 option"
  pt_coarse_bucket :: "coarse_participation_bucket option"
  pt_small_electorate :: bool

definition participation_summary :: "gui_election_session_v1 \<Rightarrow> gui_participation_summary_v1" where
  "participation_summary s =
     (let state = lc_state (gs_lifecycle s);
          visibility = participation_visibility_for state;
          members = length (rs_entries (ga_registry (gs_artifacts s)));
          eligible = u64_or_max members;
          accepted = u64_or_max (length (bl_accepted_ballots (gs_ledger s)));
          bps = participation_basis_points accepted eligible;
          (accepted_opt, bps_opt, remaining_opt, coarse_opt) =
            (case visibility of
               Live \<Rightarrow> (Some accepted, Some bps, Some (saturating_sub_u64 eligible accepted), None)
             | Coarse \<Rightarrow> (None, None, None, Some (from_basis_points bps))
             | SealedUntilClose \<Rightarrow> (None, None, None, None)) in
      \<lparr>pt_lifecycle_state = lifecycle_state_as_str state, pt_participation_visibility = visibility,
       pt_result_visibility = result_visibility_for state, pt_eligible_voters = eligible,
       pt_accepted_ballots = accepted_opt, pt_participation_basis_points = bps_opt,
       pt_remaining_eligible_capacity = remaining_opt, pt_coarse_bucket = coarse_opt,
       pt_small_electorate = (members < SMALL_ELECTORATE_THRESHOLD)\<rparr>)"

definition gui_session_summary :: "gui_election_session_v1 \<Rightarrow> gui_election_summary_v1" where
  "gui_session_summary s =
     summary_with_lifecycle (Some (lifecycle_state_as_str (lc_state (gs_lifecycle s)))) (gs_artifacts s)"

end
