(* ===== verification/Historical_Replay.thy ===== *)
theory Historical_Replay
  imports Election_Session
begin

text \<open>
  The bounded parallel reconstruction of a session (\<open>crates/gui-core/src/historical_replay.rs\<close> and
  the parallel methods of \<open>session.rs\<close>). Batches of packages are verified by a pool of workers that
  draw batch indices from one atomic cursor and store each result in the slot of its index; the
  results are then applied in package order. The interleaving of the workers is a schedule: the list
  of the workers that take the next atomic step. A schedule in which some worker has not run to its
  end is a scope that is not joined yet, and has no result. A reconstruction that has not got its
  permit from the worker budget has no result either; how several of them share the budget is the
  subject of \<open>Replay_Budget\<close>.
\<close>

section \<open>Configuration\<close>

definition DEFAULT_HISTORICAL_REPLAY_BATCH_SIZE_V1 :: nat where
  "DEFAULT_HISTORICAL_REPLAY_BATCH_SIZE_V1 = 16"
definition DEFAULT_HISTORICAL_REPLAY_PARALLEL_THRESHOLD_V1 :: nat where
  "DEFAULT_HISTORICAL_REPLAY_PARALLEL_THRESHOLD_V1 = 24"
definition HISTORICAL_REPLAY_HARD_WORKER_CAP_V1 :: nat where
  "HISTORICAL_REPLAY_HARD_WORKER_CAP_V1 = 8"

record historical_replay_config_v1 =
  hr_worker_count :: "nat option"
  hr_batch_size :: nat
  hr_parallel_threshold :: nat

definition default_historical_replay_config :: historical_replay_config_v1 where
  "default_historical_replay_config =
     \<lparr>hr_worker_count = None, hr_batch_size = DEFAULT_HISTORICAL_REPLAY_BATCH_SIZE_V1,
      hr_parallel_threshold = DEFAULT_HISTORICAL_REPLAY_PARALLEL_THRESHOLD_V1\<rparr>"

definition effective_worker_hint :: "historical_replay_config_v1 \<Rightarrow> nat" where
  "effective_worker_hint config = (case hr_worker_count config of Some n \<Rightarrow> max n 1 | None \<Rightarrow> 2)"

definition uses_parallel_path :: "historical_replay_config_v1 \<Rightarrow> nat \<Rightarrow> bool" where
  "uses_parallel_path config package_count \<longleftrightarrow>
     package_count \<ge> max (hr_parallel_threshold config) 1 \<and> effective_worker_hint config \<noteq> 1"

text \<open>
  The saturating addition of the source is capped by the package count, itself a \<open>usize\<close>, so that a
  plain addition gives the same end.
\<close>

function batch_ranges_from :: "nat \<Rightarrow> nat \<Rightarrow> nat \<Rightarrow> (nat \<times> nat) list" where
  "batch_ranges_from package_count batch_size start =
     (if start < package_count then
        let stop = min (start + max batch_size 1) package_count in
        (start, stop) # batch_ranges_from package_count batch_size stop
      else [])"
  by pat_completeness auto
termination
  by (relation "measure (\<lambda>(n, b, start). n - start)") auto

declare batch_ranges_from.simps [simp del]

definition batch_ranges :: "nat \<Rightarrow> nat \<Rightarrow> (nat \<times> nat) list" where
  "batch_ranges package_count batch_size = batch_ranges_from package_count batch_size 0"

section \<open>The worker budget\<close>

text \<open>
  The process-wide budget: the number under its mutex and the total. \<open>None\<close> is a poisoned mutex.
  The argument of \<open>global_crypto_budget\<close> is what \<open>available_parallelism\<close> reports.
\<close>

record global_crypto_budget_v1 =
  cb_available :: nat
  cb_total :: nat

definition global_crypto_budget :: "nat option \<Rightarrow> global_crypto_budget_v1" where
  "global_crypto_budget parallelism =
     (let total = (case parallelism of Some n \<Rightarrow> max (n - 1) 1 | None \<Rightarrow> 1) in
      \<lparr>cb_available = total, cb_total = total\<rparr>)"

text \<open>
  One round of \<open>acquire_up_to\<close> with the mutex held: the permits it takes, or \<open>None\<close> when none is
  available and the caller goes to sleep on the condition variable, to try again when it is woken.
\<close>

definition acquire_up_to ::
  "nat \<Rightarrow> global_crypto_budget_v1 option \<Rightarrow> (nat \<times> global_crypto_budget_v1 option) option" where
  "acquire_up_to desired budget =
     (case budget of
        None \<Rightarrow> Some (0, None)
      | Some b \<Rightarrow>
          if cb_available b = 0 then None
          else
            let granted = min (max desired 1) (cb_available b) in
            Some (granted, Some (b\<lparr>cb_available := cb_available b - granted\<rparr>)))"

text \<open>The budget after a release, and whether the release notifies the sleepers.\<close>

definition release :: "nat \<Rightarrow> global_crypto_budget_v1 option \<Rightarrow> global_crypto_budget_v1 option \<times> bool" where
  "release n budget =
     (if n = 0 then (budget, False)
      else case budget of
        None \<Rightarrow> (None, False)
      | Some b \<Rightarrow> (Some (b\<lparr>cb_available := min (min (cb_available b + n) usize_max) (cb_total b)\<rparr>), True))"

definition permit_count :: "nat \<Rightarrow> nat" where
  "permit_count granted = max granted 1"

definition desired_workers :: "nat \<Rightarrow> nat" where
  "desired_workers batch_count = min (max batch_count 1) HISTORICAL_REPLAY_HARD_WORKER_CAP_V1"

text \<open>
  The worker count. \<open>granted\<close> is the permit that \<open>acquire_up_to\<close> has returned for the desired workers,
  \<open>None\<close> as long as it has not returned; a forced count asks for no permit.
\<close>

definition resolve_workers :: "nat \<Rightarrow> historical_replay_config_v1 \<Rightarrow> nat option \<Rightarrow> nat option" where
  "resolve_workers batch_count config granted =
     (case hr_worker_count config of
        Some forced \<Rightarrow> Some (min (max forced 1) (max batch_count 1))
      | None \<Rightarrow> map_option (\<lambda>n. max (min (permit_count n) (max batch_count 1)) 1) granted)"

section \<open>The worker pool\<close>

definition executor_unavailable :: gui_core_error where
  "executor_unavailable =
     gui_error ''GUI_HISTORICAL_REPLAY_EXECUTOR_UNAVAILABLE'' Unavailable ''historical-replay''"

definition store_slot :: "nat \<Rightarrow> 'a \<Rightarrow> 'a option list \<Rightarrow> 'a option list gresult" where
  "store_slot index value slots =
     (if index < length slots then Ok (slots[index := Some value]) else Err executor_unavailable)"

text \<open>A worker is about to draw an index, computes the unit it drew, or has left its loop.\<close>

datatype worker = Fetching | Working nat | Exited

record 'a pool =
  pl_cursor :: nat
  pl_slots :: "'a option list"
  pl_workers :: "worker list"

definition pool_start :: "nat \<Rightarrow> nat \<Rightarrow> 'a pool" where
  "pool_start unit_count workers =
     \<lparr>pl_cursor = 0, pl_slots = replicate unit_count None, pl_workers = replicate workers Fetching\<rparr>"

text \<open>One atomic step of a worker; a store that fails is ignored, as in the source.\<close>

definition worker_step :: "nat \<Rightarrow> (nat \<Rightarrow> 'a) \<Rightarrow> nat \<Rightarrow> 'a pool \<Rightarrow> 'a pool" where
  "worker_step unit_count work w p =
     (if w < length (pl_workers p) then
        case pl_workers p ! w of
          Fetching \<Rightarrow>
            let index = pl_cursor p in
            p\<lparr>pl_cursor := index + 1,
              pl_workers := (pl_workers p)[w := (if index \<ge> unit_count then Exited else Working index)]\<rparr>
        | Working index \<Rightarrow>
            p\<lparr>pl_slots := (case store_slot index (work index) (pl_slots p) of Ok slots \<Rightarrow> slots | Err _ \<Rightarrow> pl_slots p),
              pl_workers := (pl_workers p)[w := Fetching]\<rparr>
        | Exited \<Rightarrow> p
      else p)"

definition pool_run :: "nat \<Rightarrow> (nat \<Rightarrow> 'a) \<Rightarrow> nat list \<Rightarrow> 'a pool \<Rightarrow> 'a pool" where
  "pool_run unit_count work schedule p = fold (worker_step unit_count work) schedule p"

definition joined :: "'a pool \<Rightarrow> bool" where
  "joined p \<longleftrightarrow> list_all (\<lambda>w. w = Exited) (pl_workers p)"

fun store_all :: "(nat \<Rightarrow> 'a) \<Rightarrow> nat list \<Rightarrow> 'a option list \<Rightarrow> 'a option list gresult" where
  "store_all work [] slots = Ok slots"
| "store_all work (index # indices) slots =
     and_then (store_slot index (work index) slots) (store_all work indices)"

fun collect_slots :: "'a option list \<Rightarrow> 'a list gresult" where
  "collect_slots [] = Ok []"
| "collect_slots (slot # slots) =
     and_then (ok_or executor_unavailable slot) (\<lambda>value.
     and_then (collect_slots slots) (\<lambda>values. Ok (value # values)))"

text \<open>\<open>None\<close>: the schedule ends before the scope is joined.\<close>

definition run_bounded :: "nat \<Rightarrow> nat \<Rightarrow> (nat \<Rightarrow> 'a) \<Rightarrow> nat list \<Rightarrow> 'a list gresult option" where
  "run_bounded unit_count workers work schedule =
     (let workers = min (max workers 1) (max unit_count 1) in
      if workers \<le> 1 then
        Some (and_then (store_all work [0..<unit_count] (replicate unit_count None)) collect_slots)
      else
        let p = pool_run unit_count work schedule (pool_start unit_count workers) in
        if joined p then Some (collect_slots (pl_slots p)) else None)"

section \<open>Parallel reconstruction\<close>

definition verify_batch ::
  "('q, 'pt, 'pp, 'is, 'ts, 'pf, 'tr) triptych_lib \<Rightarrow> (bytes \<Rightarrow> bytes32) \<Rightarrow> bytes list \<Rightarrow> gui_election_artifacts_v1 \<Rightarrow>
   tari_triptych_verifier_v1 \<Rightarrow> (nat \<times> nat) list \<Rightarrow> nat \<Rightarrow> verified_approval_ballot_v1 presult list" where
  "verify_batch L blake3 packages artifacts verifier batches batch_index =
     (if batch_index < length batches then
        let (start, stop) = batches ! batch_index in
        verify_approval_ballot_packages_batch_v1 (take (stop - start) (drop start packages))
          (ga_manifest artifacts) (ga_candidates artifacts) (Blake3HashProviderV1 blake3)
          (TariTriptychPrototypeVerifierV1 L verifier)
      else [])"

definition parallel_verify_packages ::
  "('q, 'pt, 'pp, 'is, 'ts, 'pf, 'tr) triptych_lib \<Rightarrow> (bytes \<Rightarrow> bytes32) \<Rightarrow> bytes list \<Rightarrow> gui_election_artifacts_v1 \<Rightarrow>
   tari_triptych_verifier_v1 \<Rightarrow> historical_replay_config_v1 \<Rightarrow> nat option \<Rightarrow> nat list \<Rightarrow>
   verified_approval_ballot_v1 presult list gresult option" where
  "parallel_verify_packages L blake3 packages artifacts verifier config granted schedule =
     (let batches = batch_ranges (length packages) (max (hr_batch_size config) 1) in
      if batches = [] then Some (Ok [])
      else
        case resolve_workers (length batches) config granted of
          None \<Rightarrow> None
        | Some workers \<Rightarrow>
            map_option (\<lambda>r. and_then r (\<lambda>per_batch. Ok (concat per_batch)))
              (run_bounded (length batches) workers (verify_batch L blake3 packages artifacts verifier batches) schedule))"

fun apply_verified_packages_in_order ::
  "(bytes \<Rightarrow> bytes32) \<Rightarrow> (bytes \<times> verified_approval_ballot_v1 presult) list \<Rightarrow>
   gui_election_session_v1 \<Rightarrow> gui_election_session_v1 gresult" where
  "apply_verified_packages_in_order blake3 [] s = Ok s"
| "apply_verified_packages_in_order blake3 ((package_bytes, verify_result) # rest) s =
     (let digest = package_digest blake3 package_bytes in
      and_then (gui_err ''transcript'' (record_submission digest True (gs_transcript s))) (\<lambda>(sequence, transcript).
      let (outcome, ledger) =
        (case verify_result of
           Ok verified \<Rightarrow>
             (case accept_verified (gs_lifecycle s) verified (gs_ledger s) of
                Ok ledger \<Rightarrow> (Accepted, ledger)
              | Err code \<Rightarrow> (Rejected code, gs_ledger s))
         | Err code \<Rightarrow> (Rejected code, gs_ledger s)) in
      and_then (conclude_intake sequence digest outcome ledger transcript package_bytes s)
        (apply_verified_packages_in_order blake3 rest)))"

definition replay_packages_parallel ::
  "('q, 'pt, 'pp, 'is, 'ts, 'pf, 'tr) triptych_lib \<Rightarrow> (bytes \<Rightarrow> bytes32) \<Rightarrow> historical_replay_config_v1 \<Rightarrow>
   nat option \<Rightarrow> nat list \<Rightarrow> bytes list \<Rightarrow> gui_election_session_v1 \<Rightarrow>
   gui_election_session_v1 gresult option" where
  "replay_packages_parallel L blake3 config granted schedule packages s =
     map_option (\<lambda>r. and_then r (\<lambda>verify_results.
       if length verify_results \<noteq> length packages then
         Err (gui_error ''GUI_HISTORICAL_REPLAY_RESULT_MISMATCH'' Unavailable ''historical-replay'')
       else apply_verified_packages_in_order blake3 (zip packages verify_results) s))
     (parallel_verify_packages L blake3 packages (gs_artifacts s) (gs_verifier s) config granted schedule)"

text \<open>Sequencing inside a computation that may still wait for the pool.\<close>

definition and_then_later :: "('a, 'e) result \<Rightarrow> ('a \<Rightarrow> ('b, 'e) result option) \<Rightarrow> ('b, 'e) result option" where
  "and_then_later r f = (case r of Err e \<Rightarrow> Some (Err e) | Ok x \<Rightarrow> f x)"

definition reconstruct_parallel_inner ::
  "('q, 'pt, 'pp, 'is, 'ts, 'pf, 'tr) triptych_lib \<Rightarrow> (nat list \<Rightarrow> nat list) \<Rightarrow> (bytes \<Rightarrow> bytes32) \<Rightarrow>
   historical_replay_config_v1 \<Rightarrow> nat option \<Rightarrow> nat list \<Rightarrow>
   gui_election_session_snapshot_v1 \<Rightarrow> gui_election_session_v1 gresult option" where
  "reconstruct_parallel_inner L nfc blake3 config granted schedule snapshot =
     (if sn_lifecycle_state snapshot = Draft then Some (Err workspace_invalid_state)
      else
        and_then_later (gui_artifacts_from_bytes nfc blake3 (sn_manifest_bytes snapshot) (sn_registry_bytes snapshot)
          (sn_candidate_bytes snapshot)) (\<lambda>artifacts.
        and_then_later (gui_session_new (tl_dalek_v4 L) blake3 artifacts) (\<lambda>session.
        if sn_lifecycle_state snapshot = Frozen then
          (if sn_packages snapshot \<noteq> [] then Some (Err workspace_invalid_state) else Some (Ok session))
        else
          and_then_later (gui_open session) (\<lambda>session.
          map_option (\<lambda>r. and_then r (apply_terminal_lifecycle (sn_lifecycle_state snapshot)))
            (if uses_parallel_path config (length (sn_packages snapshot)) then
               replay_packages_parallel L blake3 config granted schedule (sn_packages snapshot) session
             else Some (intake_all L blake3 (sn_packages snapshot) session))))))"

section \<open>The pool computes every unit, whatever the schedule\<close>

definition pool_inv :: "nat \<Rightarrow> nat \<Rightarrow> (nat \<Rightarrow> 'a) \<Rightarrow> 'a pool \<Rightarrow> bool" where
  "pool_inv n k work p \<longleftrightarrow>
     length (pl_slots p) = n \<and> length (pl_workers p) = k
     \<and> (\<forall>i < n. i < pl_cursor p \<longrightarrow> pl_slots p ! i = Some (work i) \<or> Working i \<in> set (pl_workers p))
     \<and> (Exited \<in> set (pl_workers p) \<longrightarrow> n \<le> pl_cursor p)"

lemma pool_inv_start: "pool_inv n k work (pool_start n k)"
  by (auto simp: pool_inv_def pool_start_def)

lemma in_set_update_other: "x \<in> set xs \<Longrightarrow> x \<noteq> xs ! w \<Longrightarrow> x \<in> set (xs[w := y])"
  by (auto simp: in_set_conv_nth) (metis nth_list_update_neq)

lemma worker_step_inv:
  assumes "pool_inv n k work p"
  shows "pool_inv n k work (worker_step n work w p)"
proof (cases "w < length (pl_workers p)")
  case w: True
  show ?thesis
  proof (cases "pl_workers p ! w")
    case Fetching
    then have keep: "Working i \<in> set (pl_workers p) \<Longrightarrow> Working i \<in> set ((pl_workers p)[w := x])" for i x
      by (intro in_set_update_other) auto
    show ?thesis
      using assms Fetching w keep
      by (auto simp: pool_inv_def worker_step_def Let_def less_Suc_eq set_update_memI dest!: set_update_subset_insert [THEN subsetD])
  next
    case (Working j)
    then have keep: "Working i \<in> set (pl_workers p) \<Longrightarrow> i \<noteq> j \<Longrightarrow> Working i \<in> set ((pl_workers p)[w := x])" for i x
      by (intro in_set_update_other) auto
    show ?thesis
      using assms Working w keep
      by (auto simp: pool_inv_def worker_step_def store_slot_def nth_list_update dest!: set_update_subset_insert [THEN subsetD])
  qed (use assms w in \<open>simp add: worker_step_def\<close>)
qed (use assms in \<open>simp add: worker_step_def\<close>)

lemma pool_run_inv: "pool_inv n k work p \<Longrightarrow> pool_inv n k work (pool_run n work schedule p)"
  unfolding pool_run_def by (induction schedule arbitrary: p) (auto intro: worker_step_inv)

lemma pool_joined_slots:
  assumes "pool_inv n k work p" and "joined p" and "0 < k"
  shows "pl_slots p = map (Some \<circ> work) [0..<n]"
proof -
  have "pl_workers p \<noteq> []" using assms by (auto simp: pool_inv_def)
  then have "Exited \<in> set (pl_workers p)" "Working i \<notin> set (pl_workers p)" for i
    using assms(2) by (cases "pl_workers p"; auto simp: joined_def list_all_iff)+
  then show ?thesis using assms(1) by (auto simp: pool_inv_def intro!: nth_equalityI)
qed

lemma collect_slots_all: "collect_slots (map (Some \<circ> work) is) = Ok (map work is)"
  by (induction "is") (simp_all add: ok_or_def)

lemma store_all_replicate:
  "store_all work [0..<n] (replicate n None) = Ok (map (Some \<circ> work) [0..<n])"
proof -
  have "store_all work [m..<n] (map (Some \<circ> work) [0..<m] @ replicate (n - m) None)
      = Ok (map (Some \<circ> work) [0..<n])" if "m \<le> n" for m
    using that
  proof (induction "n - m" arbitrary: m)
    case (Suc d)
    then have m: "m < n" "[m..<n] = m # [Suc m..<n]" "n - m = Suc (n - Suc m)" by (auto simp: upt_conv_Cons)
    have "(map (Some \<circ> work) [0..<m] @ replicate (n - m) None)[m := Some (work m)]
        = map (Some \<circ> work) [0..<Suc m] @ replicate (n - Suc m) None"
      using m by (simp add: list_update_append)
    then have "store_all work [m..<n] (map (Some \<circ> work) [0..<m] @ replicate (n - m) None)
        = store_all work [Suc m..<n] (map (Some \<circ> work) [0..<Suc m] @ replicate (n - Suc m) None)"
      using m(1, 2) by (simp add: store_slot_def)
    also have "\<dots> = Ok (map (Some \<circ> work) [0..<n])" using Suc.hyps(2) m(1) by (intro Suc.hyps(1)) auto
    finally show ?case .
  qed simp
  from this [of 0] show ?thesis by simp
qed

lemma run_bounded_result:
  assumes "run_bounded n workers work schedule = Some r"
  shows "r = Ok (map work [0..<n])"
proof (cases "min (max workers 1) (max n 1) \<le> 1")
  case True
  then show ?thesis using assms by (simp add: run_bounded_def Let_def store_all_replicate collect_slots_all)
next
  case False
  define k where "k = min (max workers 1) (max n 1)"
  define p where "p = pool_run n work schedule (pool_start n k)"
  have "joined p" and r: "r = collect_slots (pl_slots p)" and k: "0 < k"
    using assms False unfolding run_bounded_def Let_def k_def [symmetric] p_def [symmetric]
    by (simp_all split: if_splits)
  then show ?thesis
    using pool_joined_slots [OF pool_run_inv [OF pool_inv_start [of n k work]], of schedule]
    by (simp add: collect_slots_all flip: p_def)
qed

text \<open>Every step that does something uses one unit of a budget of two per unit and one per worker.\<close>

primrec worker_debt :: "worker \<Rightarrow> nat" where
  "worker_debt Fetching = 1"
| "worker_debt (Working i) = 2"
| "worker_debt Exited = 0"

definition pool_debt :: "nat \<Rightarrow> 'a pool \<Rightarrow> nat" where
  "pool_debt n p = 2 * (n - pl_cursor p) + sum_list (map worker_debt (pl_workers p))"

lemma pool_debt_start: "pool_debt n (pool_start n k) = 2 * n + k"
  by (simp add: pool_debt_def pool_start_def sum_list_replicate)

lemma sum_list_map_update:
  "w < length xs \<Longrightarrow> sum_list (map f (xs[w := y])) + f (xs ! w) = sum_list (map f xs) + (f y :: nat)"
  by (induction xs arbitrary: w) (auto split: nat.splits)

lemma worker_step_debt:
  assumes "w < length (pl_workers p)" and "pl_workers p ! w \<noteq> Exited"
  shows "pool_debt n p = Suc (pool_debt n (worker_step n work w p))"
  using assms sum_list_map_update [OF assms(1), of worker_debt Fetching]
    sum_list_map_update [OF assms(1), of worker_debt Exited]
    sum_list_map_update [OF assms(1), of worker_debt "Working (pl_cursor p)"]
  by (cases "pl_workers p ! w") (auto simp: pool_debt_def worker_step_def Let_def)

lemma worker_step_idle: "w \<ge> length (pl_workers p) \<or> pl_workers p ! w = Exited \<Longrightarrow> worker_step n work w p = p"
  by (auto simp: worker_step_def)

lemma pool_debt_zero: "pool_debt n p = 0 \<Longrightarrow> joined p"
  by (auto simp: pool_debt_def joined_def list_all_iff sum_list_eq_0_iff) (metis worker.exhaust worker_debt.simps less_numeral_extra(1) neq0_conv zero_neq_numeral zero_neq_one)

lemma pool_completes: "\<exists>rest. joined (pool_run n work rest p)"
proof (induction "pool_debt n p" arbitrary: p rule: less_induct)
  case less
  show ?case
  proof (cases "joined p")
    case True
    then show ?thesis by (intro exI [of _ "[]"]) (simp add: pool_run_def)
  next
    case False
    then obtain w where w: "w < length (pl_workers p)" "pl_workers p ! w \<noteq> Exited"
      by (auto simp: joined_def list_all_iff in_set_conv_nth)
    from less [of "worker_step n work w p"] worker_step_debt [OF w, of n work] obtain rest where
      "joined (pool_run n work rest (worker_step n work w p))" by auto
    then show ?thesis by (intro exI [of _ "w # rest"]) (simp add: pool_run_def)
  qed
qed

lemma run_bounded_completes: "\<exists>rest. run_bounded n workers work (schedule @ rest) = Some (Ok (map work [0..<n]))"
proof -
  define k where "k = min (max workers 1) (max n 1)"
  from pool_completes obtain rest where
    "joined (pool_run n work rest (pool_run n work schedule (pool_start n k)))" by blast
  then have "run_bounded n workers work (schedule @ rest) \<noteq> None"
    unfolding run_bounded_def Let_def k_def [symmetric] by (simp add: pool_run_def)
  then show ?thesis using run_bounded_result by (intro exI [of _ rest]) fastforce
qed

section \<open>Parallel reconstruction is serial reconstruction\<close>

lemma batch_ranges_chunks:
  "map (\<lambda>(a, b). take (b - a) (drop a xs)) (batch_ranges_from (length xs) n start) = chunks (max n 1) (drop start xs)"
proof (induction "length xs" n start rule: batch_ranges_from.induct)
  case (1 n start)
  show ?case
  proof (cases "start < length xs")
    case True
    let ?stop = "min (start + max n 1) (length xs)"
    have "chunks (max n 1) (drop start xs) = take (max n 1) (drop start xs) # chunks (max n 1) (drop ?stop xs)"
      using True by (subst chunks.simps) (simp add: drop_drop add.commute min_def)
    moreover have "take (?stop - start) (drop start xs) = take (max n 1) (drop start xs)"
      by (simp add: min_def)
    ultimately show ?thesis using 1 [OF True refl] True by (simp add: batch_ranges_from.simps [of _ _ start] Let_def)
  qed (simp add: batch_ranges_from.simps chunks.simps)
qed

definition gui_verdict ::
  "('q, 'pt, 'pp, 'is, 'ts, 'pf, 'tr) triptych_lib \<Rightarrow> (bytes \<Rightarrow> bytes32) \<Rightarrow>
   gui_election_artifacts_v1 \<Rightarrow> tari_triptych_verifier_v1 \<Rightarrow> bytes \<Rightarrow> verified_approval_ballot_v1 presult" where
  "gui_verdict L blake3 artifacts verifier package_bytes =
     verify_package (ga_manifest artifacts) (ga_candidates artifacts)
       (Blake3HashProviderV1 blake3) (TariTriptychPrototypeVerifierV1 L verifier) package_bytes"

lemma verify_batches:
  assumes "triptych_batch_sound L"
  shows "concat (map (verify_batch L blake3 packages a v (batch_ranges (length packages) (max n 1)))
      [0..<length (batch_ranges (length packages) (max n 1))]) = map (gui_verdict L blake3 a v) packages"
proof -
  note batch = batch_proof_verifier.batch_packages_individual [OF triptych_contract [OF assms]]
  define rs where "rs = batch_ranges (length packages) (max n 1)"
  have slices: "map (\<lambda>(a, b). take (b - a) (drop a packages)) rs = chunks (max n 1) packages"
    using batch_ranges_chunks [of packages "max n 1" 0] by (simp add: rs_def batch_ranges_def)
  have "map (verify_batch L blake3 packages a v rs) [0..<length rs]
      = map (map (gui_verdict L blake3 a v)) (map (\<lambda>(a, b). take (b - a) (drop a packages)) rs)"
    by (rule nth_equalityI) (auto simp: verify_batch_def batch gui_verdict_def [abs_def] case_prod_beta Let_def)
  then show ?thesis
    unfolding rs_def [symmetric] slices using concat_chunks [of "max n 1" packages] by (simp flip: map_concat)
qed

lemma parallel_verify_packages_result:
  assumes "triptych_batch_sound L"
    and "parallel_verify_packages L blake3 packages a v config granted schedule = Some r"
  shows "r = Ok (map (gui_verdict L blake3 a v) packages)"
  using assms(2) verify_batches [OF assms(1), of blake3 packages a v "hr_batch_size config"]
  by (auto simp: parallel_verify_packages_def Let_def dest!: run_bounded_result split: if_splits option.splits)

lemma parallel_verify_packages_completes:
  assumes "hr_worker_count config = None \<longrightarrow> granted \<noteq> None"
  shows "\<exists>rest. parallel_verify_packages L blake3 packages a v config granted (schedule @ rest) \<noteq> None"
proof -
  define rs where "rs = batch_ranges (length packages) (max (hr_batch_size config) 1)"
  from assms obtain k where "resolve_workers (length rs) config granted = Some k"
    by (cases "hr_worker_count config") (auto simp: resolve_workers_def)
  with run_bounded_completes [of "length rs" k "verify_batch L blake3 packages a v rs" schedule] show ?thesis
    by (auto simp: parallel_verify_packages_def Let_def rs_def)
qed

lemma process_intake_verdict:
  "process_intake_package_with_digest L blake3 bs (package_digest blake3 bs) s =
     (let digest = package_digest blake3 bs in
      and_then (gui_err ''transcript'' (record_submission digest True (gs_transcript s))) (\<lambda>(sequence, transcript).
      let (outcome, ledger) =
        (case gui_verdict L blake3 (gs_artifacts s) (gs_verifier s) bs of
           Ok verified \<Rightarrow>
             (case accept_verified (gs_lifecycle s) verified (gs_ledger s) of
                Ok ledger \<Rightarrow> (Accepted, ledger)
              | Err code \<Rightarrow> (Rejected code, gs_ledger s))
         | Err code \<Rightarrow> (Rejected code, gs_ledger s)) in
      and_then (conclude_intake sequence digest outcome ledger transcript bs s) (\<lambda>s. Ok (intake_result digest outcome, s))))"
  by (cases "gui_verdict L blake3 (gs_artifacts s) (gs_verifier s) bs")
    (auto simp: process_intake_package_with_digest_def ingest_verify_package gui_verdict_def Let_def
      split: prod.splits result.splits intro!: arg_cong2 [where f = and_then])

lemma conclude_intake_frame:
  assumes "conclude_intake q d outcome ledger t bs s = Ok s'"
  shows "gs_artifacts s' = gs_artifacts s \<and> gs_verifier s' = gs_verifier s \<and> gs_lifecycle s' = gs_lifecycle s
    \<and> gs_inbox_cache s' = gs_inbox_cache s \<and> gs_packages s' = gs_packages s @ [bs]"
  using assms by (auto simp: conclude_intake_def record_private_intake_digest_index_entry_def Let_def result_inv
      split: option.splits)

lemma apply_in_order_serial:
  assumes "lc_state (gs_lifecycle s) = Open" and "a = gs_artifacts s" and "v = gs_verifier s"
  shows "apply_verified_packages_in_order blake3 (map (\<lambda>bs. (bs, gui_verdict L blake3 a v bs)) packages) s
    = intake_all L blake3 packages s"
  using assms
proof (induction packages arbitrary: s)
  case (Cons bs packages)
  have rest: "apply_verified_packages_in_order blake3 (map (\<lambda>bs. (bs, gui_verdict L blake3 a v bs)) packages) s1
      = intake_all L blake3 packages s1" if "conclude_intake q d outcome ledger t bs s = Ok s1" for q d outcome ledger t s1
    using conclude_intake_frame [OF that] Cons.prems by (intro Cons.IH) simp_all
  have "and_then (conclude_intake q d outcome ledger t bs s)
      (apply_verified_packages_in_order blake3 (map (\<lambda>bs. (bs, gui_verdict L blake3 a v bs)) packages))
    = and_then (and_then (conclude_intake q d outcome ledger t bs s) (\<lambda>s. Ok (intake_result d outcome, s)))
      (\<lambda>(_, s). intake_all L blake3 packages s)" for q d outcome ledger t
    using rest by (cases "conclude_intake q d outcome ledger t bs s") simp_all
  then show ?case
    using Cons.prems
    by (auto simp: intake_ballot_package_bytes_def process_intake_verdict Let_def and_then_assoc case_prod_beta
        intro!: arg_cong2 [where f = and_then])
qed simp

lemma replay_packages_parallel_serial:
  assumes "triptych_batch_sound L" and "lc_state (gs_lifecycle s) = Open"
    and "replay_packages_parallel L blake3 config granted schedule packages s = Some r"
  shows "r = intake_all L blake3 packages s"
  using assms(3) apply_in_order_serial [OF assms(2) refl refl, of blake3 L packages]
  by (auto simp: replay_packages_parallel_def zip_map2 zip_same_conv_map comp_def
      dest!: parallel_verify_packages_result [OF assms(1)])

lemma gui_open_state: "gui_open s = Ok s' \<Longrightarrow> lc_state (gs_lifecycle s') = Open"
  by (auto simp: gui_open_def lifecycle_op_def result_inv open_election_def transition_def split: if_splits)

lemma reconstruct_parallel_serial:
  assumes "triptych_batch_sound L"
    and "reconstruct_parallel_inner L nfc blake3 config granted schedule snapshot = Some r"
  shows "r = from_durable_snapshot L nfc blake3 snapshot"
proof -
  note defs = reconstruct_parallel_inner_def from_durable_snapshot_def reconstruct_with_def and_then_later_def
  let ?a = "gui_artifacts_from_bytes nfc blake3 (sn_manifest_bytes snapshot) (sn_registry_bytes snapshot)
    (sn_candidate_bytes snapshot)"
  show ?thesis
  proof (cases ?a)
    case a: (Ok a)
    show ?thesis
    proof (cases "gui_session_new (tl_dalek_v4 L) blake3 a")
      case s0: (Ok s0)
      show ?thesis
      proof (cases "gui_open s0")
        case (Ok s)
        note serial = replay_packages_parallel_serial [OF assms(1) gui_open_state [OF Ok]]
        show ?thesis using assms(2) a s0 Ok by (simp add: defs split: if_splits) (auto dest: serial)
      qed (use assms(2) a s0 in \<open>simp add: defs split: if_splits\<close>)
    qed (use assms(2) a in \<open>simp add: defs split: if_splits\<close>)
  qed (use assms(2) in \<open>simp add: defs split: if_splits\<close>)
qed

lemma reconstruct_parallel_completes:
  assumes "hr_worker_count config = None \<longrightarrow> granted \<noteq> None"
  shows "\<exists>rest. reconstruct_parallel_inner L nfc blake3 config granted (schedule @ rest) snapshot \<noteq> None"
proof (cases "\<exists>a s0 s. gui_artifacts_from_bytes nfc blake3 (sn_manifest_bytes snapshot) (sn_registry_bytes snapshot)
    (sn_candidate_bytes snapshot) = Ok a \<and> gui_session_new (tl_dalek_v4 L) blake3 a = Ok s0 \<and> gui_open s0 = Ok s")
  case True
  then obtain a s0 s where "gui_artifacts_from_bytes nfc blake3 (sn_manifest_bytes snapshot)
      (sn_registry_bytes snapshot) (sn_candidate_bytes snapshot) = Ok a"
    "gui_session_new (tl_dalek_v4 L) blake3 a = Ok s0" "gui_open s0 = Ok s" by blast
  moreover from parallel_verify_packages_completes [OF assms] obtain rest where
    "parallel_verify_packages L blake3 (sn_packages snapshot) (gs_artifacts s) (gs_verifier s) config granted (schedule @ rest) \<noteq> None"
    by blast
  ultimately show ?thesis
    by (intro exI [of _ rest]) (auto simp: reconstruct_parallel_inner_def and_then_later_def replay_packages_parallel_def)
next
  case False
  then show ?thesis
    by (intro exI [of _ "[]"])
      (auto simp: reconstruct_parallel_inner_def and_then_later_def split: result.splits)
qed

end
