(* ===== verification/Replay_Budget.thy ===== *)
theory Replay_Budget
  imports Historical_Replay
begin

text \<open>
  Several reconstructions sharing the process-wide worker budget
  (\<open>crates/gui-core/src/historical_replay.rs\<close>, \<open>GlobalCryptoBudgetV1\<close>). A reconstruction under the
  worker policy takes permits before it starts its pool; when none is available it sleeps on the
  condition variable until a release notifies the sleepers, and then tries again. Its permits are
  returned when its pool is joined. The steps of the reconstructions, and those of the workers inside
  each, interleave freely.
\<close>

section \<open>Reconstructions and their steps\<close>

text \<open>
  A reconstruction is about to ask for its permit, sleeps on the condition variable, runs its pool
  with the permit it holds (\<open>None\<close>: it never asks for one) and the steps its workers have taken, or
  has finished.
\<close>

datatype replay_phase =
    ReplayRequesting
  | ReplaySleeping
  | ReplayRunning "nat option" "nat list"
  | ReplayFinished "gui_election_session_v1 gresult"

record replay_job =
  rj_config :: historical_replay_config_v1
  rj_snapshot :: gui_election_session_snapshot_v1
  rj_phase :: replay_phase

record replay_system =
  rp_budget :: "global_crypto_budget_v1 option"
  rp_jobs :: "replay_job list"

text \<open>Whether a reconstruction comes to \<open>acquire_up_to\<close>: without a permit it then has no result.\<close>

definition needs_permit ::
  "('q, 'pt, 'pp, 'is, 'ts, 'pf, 'tr) triptych_lib \<Rightarrow> (nat list \<Rightarrow> nat list) \<Rightarrow> (bytes \<Rightarrow> bytes32) \<Rightarrow>
   replay_job \<Rightarrow> bool" where
  "needs_permit L nfc blake3 j \<longleftrightarrow>
     hr_worker_count (rj_config j) = None
     \<and> reconstruct_parallel_inner L nfc blake3 (rj_config j) None [] (rj_snapshot j) = None"

definition job_batches :: "replay_job \<Rightarrow> nat" where
  "job_batches j = length (batch_ranges (length (sn_packages (rj_snapshot j))) (max (hr_batch_size (rj_config j)) 1))"

definition held :: "replay_phase \<Rightarrow> nat" where
  "held ph = (case ph of ReplayRunning (Some n) _ \<Rightarrow> n | _ \<Rightarrow> 0)"

definition set_phase :: "nat \<Rightarrow> replay_phase \<Rightarrow> replay_job list \<Rightarrow> replay_job list" where
  "set_phase i ph jobs = jobs[i := (jobs ! i)\<lparr>rj_phase := ph\<rparr>]"

text \<open>\<open>notify_all\<close>: every sleeper goes back to its loop and looks at the budget again.\<close>

definition notify_all :: "replay_job list \<Rightarrow> replay_job list" where
  "notify_all jobs = map (\<lambda>j. if rj_phase j = ReplaySleeping then j\<lparr>rj_phase := ReplayRequesting\<rparr> else j) jobs"

text \<open>
  The steps of the program. The permit is dropped when the pool is joined; what the reconstruction
  does afterwards is local to it, so its result is then determined.
\<close>

inductive replay_step ::
  "('q, 'pt, 'pp, 'is, 'ts, 'pf, 'tr) triptych_lib \<Rightarrow> (nat list \<Rightarrow> nat list) \<Rightarrow> (bytes \<Rightarrow> bytes32) \<Rightarrow>
   replay_system \<Rightarrow> replay_system \<Rightarrow> bool"
  for L nfc blake3 where
  replay_unbudgeted:
    "i < length (rp_jobs sys) \<Longrightarrow> rj_phase (rp_jobs sys ! i) = ReplayRequesting \<Longrightarrow>
     \<not> needs_permit L nfc blake3 (rp_jobs sys ! i) \<Longrightarrow>
     replay_step L nfc blake3 sys (sys\<lparr>rp_jobs := set_phase i (ReplayRunning None []) (rp_jobs sys)\<rparr>)"
| replay_acquire:
    "i < length (rp_jobs sys) \<Longrightarrow> rj_phase (rp_jobs sys ! i) = ReplayRequesting \<Longrightarrow>
     needs_permit L nfc blake3 (rp_jobs sys ! i) \<Longrightarrow>
     acquire_up_to (desired_workers (job_batches (rp_jobs sys ! i))) (rp_budget sys) = Some (granted, budget) \<Longrightarrow>
     replay_step L nfc blake3 sys
       (sys\<lparr>rp_budget := budget, rp_jobs := set_phase i (ReplayRunning (Some granted) []) (rp_jobs sys)\<rparr>)"
| replay_sleep:
    "i < length (rp_jobs sys) \<Longrightarrow> rj_phase (rp_jobs sys ! i) = ReplayRequesting \<Longrightarrow>
     needs_permit L nfc blake3 (rp_jobs sys ! i) \<Longrightarrow>
     acquire_up_to (desired_workers (job_batches (rp_jobs sys ! i))) (rp_budget sys) = None \<Longrightarrow>
     replay_step L nfc blake3 sys (sys\<lparr>rp_jobs := set_phase i ReplaySleeping (rp_jobs sys)\<rparr>)"
| replay_work:
    "i < length (rp_jobs sys) \<Longrightarrow> rj_phase (rp_jobs sys ! i) = ReplayRunning permit schedule \<Longrightarrow>
     replay_step L nfc blake3 sys (sys\<lparr>rp_jobs := set_phase i (ReplayRunning permit (schedule @ [w])) (rp_jobs sys)\<rparr>)"
| replay_finish:
    "i < length (rp_jobs sys) \<Longrightarrow> rj_phase (rp_jobs sys ! i) = ReplayRunning permit schedule \<Longrightarrow>
     reconstruct_parallel_inner L nfc blake3 (rj_config (rp_jobs sys ! i)) permit schedule
       (rj_snapshot (rp_jobs sys ! i)) = Some r \<Longrightarrow>
     release (held (ReplayRunning permit schedule)) (rp_budget sys) = (budget, notified) \<Longrightarrow>
     replay_step L nfc blake3 sys
       (sys\<lparr>rp_budget := budget,
            rp_jobs := (if notified then notify_all else id) (set_phase i (ReplayFinished r) (rp_jobs sys))\<rparr>)"

text \<open>A sleeper on a condition variable may also wake without having been notified.\<close>

inductive spurious_wakeup :: "replay_system \<Rightarrow> replay_system \<Rightarrow> bool" where
  "i < length (rp_jobs sys) \<Longrightarrow> rj_phase (rp_jobs sys ! i) = ReplaySleeping \<Longrightarrow>
   spurious_wakeup sys (sys\<lparr>rp_jobs := set_phase i ReplayRequesting (rp_jobs sys)\<rparr>)"

definition replay_start :: "replay_system \<Rightarrow> bool" where
  "replay_start sys \<longleftrightarrow> list_all (\<lambda>j. rj_phase j = ReplayRequesting) (rp_jobs sys)
     \<and> (rp_budget sys = None
        \<or> (\<exists>parallelism. rp_budget sys = Some (global_crypto_budget parallelism)
             \<and> (\<forall>n. parallelism = Some n \<longrightarrow> n \<le> usize_max)))"

definition replay_reachable ::
  "('q, 'pt, 'pp, 'is, 'ts, 'pf, 'tr) triptych_lib \<Rightarrow> (nat list \<Rightarrow> nat list) \<Rightarrow> (bytes \<Rightarrow> bytes32) \<Rightarrow>
   replay_system \<Rightarrow> replay_system \<Rightarrow> bool" where
  "replay_reachable L nfc blake3 start sys \<longleftrightarrow>
     replay_start start \<and> (sup (replay_step L nfc blake3) spurious_wakeup)\<^sup>*\<^sup>* start sys"

definition all_finished :: "replay_system \<Rightarrow> bool" where
  "all_finished sys \<longleftrightarrow> list_all (\<lambda>j. \<exists>r. rj_phase j = ReplayFinished r) (rp_jobs sys)"

section \<open>The permits are conserved, and nobody sleeps beside a free permit\<close>

definition held_total :: "replay_job list \<Rightarrow> nat" where
  "held_total jobs = sum_list (map (held \<circ> rj_phase) jobs)"

definition budget_inv :: "replay_system \<Rightarrow> bool" where
  "budget_inv sys \<longleftrightarrow>
     (case rp_budget sys of
        None \<Rightarrow> \<forall>j \<in> set (rp_jobs sys). rj_phase j \<noteq> ReplaySleeping
      | Some b \<Rightarrow>
          0 < cb_total b \<and> cb_total b \<le> usize_max \<and> cb_available b + held_total (rp_jobs sys) = cb_total b
          \<and> ((\<exists>j \<in> set (rp_jobs sys). rj_phase j = ReplaySleeping) \<longrightarrow> cb_available b = 0))"

text \<open>What holds of one reconstruction: its permit if it needs one, and the serial result once finished.\<close>

definition job_inv ::
  "('q, 'pt, 'pp, 'is, 'ts, 'pf, 'tr) triptych_lib \<Rightarrow> (nat list \<Rightarrow> nat list) \<Rightarrow> (bytes \<Rightarrow> bytes32) \<Rightarrow>
   replay_job \<Rightarrow> bool" where
  "job_inv L nfc blake3 j \<longleftrightarrow>
     (case rj_phase j of
        ReplayRunning permit schedule \<Rightarrow> needs_permit L nfc blake3 j \<longrightarrow> permit \<noteq> None
      | ReplayFinished r \<Rightarrow> r = from_durable_snapshot L nfc blake3 (rj_snapshot j)
      | _ \<Rightarrow> True)"

lemma held_simps [simp]:
  "held ReplayRequesting = 0" "held ReplaySleeping = 0" "held (ReplayRunning None s) = 0" "held (ReplayRunning (Some n) s) = n" "held (ReplayFinished r) = 0"
  by (simp_all add: held_def)

lemma held_total_set_phase:
  assumes "i < length jobs"
  shows "held_total (set_phase i ph jobs) + held (rj_phase (jobs ! i)) = held_total jobs + held ph"
  using assms elem_le_sum_list [of i "map (held \<circ> rj_phase) jobs"]
  by (simp add: held_total_def set_phase_def map_update sum_list_update)

lemma held_total_notify [simp]: "held_total (notify_all jobs) = held_total jobs"
  by (induction jobs) (auto simp: held_total_def notify_all_def)

lemma notify_all_awake: "j \<in> set (notify_all jobs) \<Longrightarrow> rj_phase j \<noteq> ReplaySleeping"
  by (auto simp: notify_all_def)

lemma set_phase_members: "j \<in> set (set_phase i ph jobs) \<Longrightarrow> i < length jobs \<Longrightarrow> j \<in> set jobs \<or> j = (jobs ! i)\<lparr>rj_phase := ph\<rparr>"
  by (auto simp: set_phase_def dest: set_update_subset_insert [THEN subsetD])

lemma held_le_total: "i < length jobs \<Longrightarrow> held (rj_phase (jobs ! i)) \<le> held_total jobs"
  using elem_le_sum_list [of i "map (held \<circ> rj_phase) jobs"] by (simp add: held_total_def)

lemma budget_inv_start: "replay_start sys \<Longrightarrow> budget_inv sys"
proof -
  assume start: "replay_start sys"
  then have "held_total (rp_jobs sys) = 0" and "\<forall>j \<in> set (rp_jobs sys). rj_phase j \<noteq> ReplaySleeping"
    by (auto simp: replay_start_def held_total_def list_all_iff)
  with start show ?thesis
    by (auto simp: replay_start_def budget_inv_def global_crypto_budget_def Let_def usize_max_def split: option.splits)
qed

text \<open>A step that changes no permits and puts nobody to sleep beside a free permit.\<close>

lemma budget_inv_set_phase:
  assumes "budget_inv sys" and "i < length (rp_jobs sys)" and "held ph = held (rj_phase (rp_jobs sys ! i))"
    and "ph = ReplaySleeping \<Longrightarrow> acquire_up_to n (rp_budget sys) = None"
  shows "budget_inv (sys\<lparr>rp_jobs := set_phase i ph (rp_jobs sys)\<rparr>)"
proof -
  have total: "held_total (set_phase i ph (rp_jobs sys)) = held_total (rp_jobs sys)"
    using held_total_set_phase [OF assms(2), of ph] assms(3) by simp
  have "\<exists>j \<in> set (rp_jobs sys). rj_phase j = ReplaySleeping" if "j \<in> set (set_phase i ph (rp_jobs sys))" "rj_phase j = ReplaySleeping"
    "ph \<noteq> ReplaySleeping" for j
    using set_phase_members [OF that(1) assms(2)] that by auto
  then show ?thesis
    using assms(1, 4) total
    by (cases "ph = ReplaySleeping") (auto simp: budget_inv_def acquire_up_to_def Let_def split: option.splits if_splits)
qed

lemma budget_inv_step:
  assumes "replay_step L nfc blake3 sys sys'" and "budget_inv sys"
  shows "budget_inv sys'"
  using assms
proof (induction rule: replay_step.induct)
  case (replay_unbudgeted i sys)
  then show ?case by (intro budget_inv_set_phase) simp_all
next
  case (replay_acquire i sys granted budget)
  let ?jobs = "set_phase i (ReplayRunning (Some granted) []) (rp_jobs sys)"
  have total: "held_total ?jobs = held_total (rp_jobs sys) + granted"
    using held_total_set_phase [OF replay_acquire.hyps(1), of "ReplayRunning (Some granted) []"] replay_acquire.hyps(2) by simp
  have "\<exists>j \<in> set (rp_jobs sys). rj_phase j = ReplaySleeping" if "j \<in> set ?jobs" "rj_phase j = ReplaySleeping" for j
    using set_phase_members [OF that(1) replay_acquire.hyps(1)] that by auto
  with replay_acquire.hyps(4) replay_acquire.prems total show ?case
    by (auto simp: budget_inv_def acquire_up_to_def Let_def split: option.splits if_splits)
next
  case (replay_sleep i sys)
  then show ?case by (intro budget_inv_set_phase) simp_all
next
  case (replay_work i sys permit schedule w)
  then show ?case by (intro budget_inv_set_phase) (auto simp: held_def)
next
  case (replay_finish i sys permit schedule r budget notified)
  let ?jobs = "set_phase i (ReplayFinished r) (rp_jobs sys)"
  let ?n = "held (ReplayRunning permit schedule)"
  have total: "held_total ?jobs + ?n = held_total (rp_jobs sys)"
    using held_total_set_phase [OF replay_finish.hyps(1), of "ReplayFinished r"] replay_finish.hyps(2) by simp
  have asleep: "\<exists>j \<in> set (rp_jobs sys). rj_phase j = ReplaySleeping" if "j \<in> set ?jobs" "rj_phase j = ReplaySleeping" for j
    using set_phase_members [OF that(1) replay_finish.hyps(1)] that by auto
  show ?case
  proof (cases "rp_budget sys")
    case None
    with replay_finish asleep show ?thesis by (auto simp: budget_inv_def release_def split: if_splits)
  next
    case (Some b)
    with replay_finish.prems have b: "0 < cb_total b" "cb_total b \<le> usize_max"
      "cb_available b + held_total (rp_jobs sys) = cb_total b" by (simp_all add: budget_inv_def)
    show ?thesis
    proof (cases "?n = 0")
      case True
      then have "budget = Some b" "\<not> notified" using Some replay_finish.hyps(4) by (auto simp: release_def)
      with Some True replay_finish.prems total asleep show ?thesis by (auto simp: budget_inv_def)
    next
      case False
      then have "min (min (cb_available b + ?n) usize_max) (cb_total b) = cb_available b + ?n"
        using b total by simp
      then have "budget = Some (b\<lparr>cb_available := cb_available b + ?n\<rparr>)" "notified"
        using Some False replay_finish.hyps(4) by (auto simp: release_def)
      with b total notify_all_awake show ?thesis by (auto simp: budget_inv_def)
    qed
  qed
qed

lemma budget_inv_wakeup: "spurious_wakeup sys sys' \<Longrightarrow> budget_inv sys \<Longrightarrow> budget_inv sys'"
  by (induction rule: spurious_wakeup.induct) (rule budget_inv_set_phase, simp_all)

section \<open>Every reconstruction gets the serial result\<close>

lemma reconstruct_unpermitted:
  assumes "hr_worker_count config = None"
  shows "reconstruct_parallel_inner L nfc blake3 config None s snapshot
    = reconstruct_parallel_inner L nfc blake3 config None s' snapshot"
proof -
  have "parallel_verify_packages L blake3 packages a v config None s
      = parallel_verify_packages L blake3 packages a v config None s'" for packages a v
    using assms by (simp add: parallel_verify_packages_def resolve_workers_def Let_def)
  then show ?thesis unfolding reconstruct_parallel_inner_def replay_packages_parallel_def by presburger
qed

lemma running_job_completes:
  assumes "job_inv L nfc blake3 j" and "rj_phase j = ReplayRunning permit schedule"
  shows "\<exists>rest r. reconstruct_parallel_inner L nfc blake3 (rj_config j) permit (schedule @ rest) (rj_snapshot j) = Some r"
proof (cases "hr_worker_count (rj_config j) = None \<and> permit = None")
  case True
  with assms have "reconstruct_parallel_inner L nfc blake3 (rj_config j) None [] (rj_snapshot j) \<noteq> None"
    by (auto simp: job_inv_def needs_permit_def)
  then have "reconstruct_parallel_inner L nfc blake3 (rj_config j) None (schedule @ []) (rj_snapshot j) \<noteq> None"
    using reconstruct_unpermitted [of "rj_config j" L nfc blake3 schedule "rj_snapshot j" "[]"] True by simp
  with True show ?thesis by blast
next
  case False
  then have "hr_worker_count (rj_config j) = None \<longrightarrow> permit \<noteq> None" by auto
  from reconstruct_parallel_completes [OF this] show ?thesis by blast
qed

lemma job_inv_members:
  assumes "\<forall>j \<in> set jobs. job_inv L nfc blake3 j" and "i < length jobs"
    and "job_inv L nfc blake3 ((jobs ! i)\<lparr>rj_phase := ph\<rparr>)"
  shows "\<forall>j \<in> set (set_phase i ph jobs). job_inv L nfc blake3 j"
  using assms set_phase_members by blast

lemma job_inv_notify:
  "\<forall>j \<in> set jobs. job_inv L nfc blake3 j \<Longrightarrow> \<forall>j \<in> set (notify_all jobs). job_inv L nfc blake3 j"
  by (auto simp: notify_all_def job_inv_def)

lemma needs_permit_phase [simp]: "needs_permit L nfc blake3 (j\<lparr>rj_phase := ph\<rparr>) = needs_permit L nfc blake3 j"
  by (simp add: needs_permit_def)

lemma job_inv_step:
  assumes "replay_step L nfc blake3 sys sys'" and "triptych_batch_sound L"
    and "\<forall>j \<in> set (rp_jobs sys). job_inv L nfc blake3 j"
  shows "\<forall>j \<in> set (rp_jobs sys'). job_inv L nfc blake3 j"
  using assms
proof (induction rule: replay_step.induct)
  case (replay_work i sys permit schedule w)
  from replay_work.prems(2) replay_work.hyps(1) have "job_inv L nfc blake3 (rp_jobs sys ! i)" by simp
  with replay_work.hyps(2) have "job_inv L nfc blake3 ((rp_jobs sys ! i)\<lparr>rj_phase := ReplayRunning permit (schedule @ [w])\<rparr>)"
    by (simp add: job_inv_def)
  from job_inv_members [OF replay_work.prems(2) replay_work.hyps(1) this] show ?case by simp
next
  case (replay_finish i sys permit schedule r budget notified)
  have "job_inv L nfc blake3 ((rp_jobs sys ! i)\<lparr>rj_phase := ReplayFinished r\<rparr>)"
    using reconstruct_parallel_serial [OF assms(2) replay_finish.hyps(3)] by (simp add: job_inv_def)
  from job_inv_members [OF replay_finish.prems(2) replay_finish.hyps(1) this] have "\<forall>j \<in> set (set_phase i (ReplayFinished r) (rp_jobs sys)). job_inv L nfc blake3 j" .
  with job_inv_notify [OF this] show ?case by simp
next
  case (replay_unbudgeted i sys)
  have "job_inv L nfc blake3 ((rp_jobs sys ! i)\<lparr>rj_phase := ReplayRunning None []\<rparr>)"
    using replay_unbudgeted.hyps(3) by (simp add: job_inv_def)
  from job_inv_members [OF replay_unbudgeted.prems(2) replay_unbudgeted.hyps(1) this] show ?case by simp
next
  case (replay_acquire i sys granted budget)
  have "job_inv L nfc blake3 ((rp_jobs sys ! i)\<lparr>rj_phase := ReplayRunning (Some granted) []\<rparr>)" by (simp add: job_inv_def)
  from job_inv_members [OF replay_acquire.prems(2) replay_acquire.hyps(1) this] show ?case by simp
next
  case (replay_sleep i sys)
  have "job_inv L nfc blake3 ((rp_jobs sys ! i)\<lparr>rj_phase := ReplaySleeping\<rparr>)" by (simp add: job_inv_def)
  from job_inv_members [OF replay_sleep.prems(2) replay_sleep.hyps(1) this] show ?case by simp
qed

lemma job_inv_wakeup:
  assumes "spurious_wakeup sys sys'" and "\<forall>j \<in> set (rp_jobs sys). job_inv L nfc blake3 j"
  shows "\<forall>j \<in> set (rp_jobs sys'). job_inv L nfc blake3 j"
  using assms
proof (induction rule: spurious_wakeup.induct)
  case (1 i sys)
  have "job_inv L nfc blake3 ((rp_jobs sys ! i)\<lparr>rj_phase := ReplayRequesting\<rparr>)" by (simp add: job_inv_def)
  from job_inv_members [OF 1(3) 1(1) this] show ?case by simp
qed

definition replay_inv where
  "replay_inv L nfc blake3 sys \<longleftrightarrow> budget_inv sys \<and> (\<forall>j \<in> set (rp_jobs sys). job_inv L nfc blake3 j)"

lemma replay_inv_step:
  "replay_step L nfc blake3 sys sys' \<Longrightarrow> triptych_batch_sound L \<Longrightarrow> replay_inv L nfc blake3 sys \<Longrightarrow> replay_inv L nfc blake3 sys'"
  using budget_inv_step job_inv_step unfolding replay_inv_def by blast

lemma replay_reachable_inv:
  assumes "replay_reachable L nfc blake3 start sys" and "triptych_batch_sound L"
  shows "replay_inv L nfc blake3 sys"
proof -
  from assms(1) have run: "(sup (replay_step L nfc blake3) spurious_wakeup)\<^sup>*\<^sup>* start sys" and "replay_start start"
    by (simp_all add: replay_reachable_def)
  then have "replay_inv L nfc blake3 start"
    using budget_inv_start by (auto simp: replay_inv_def replay_start_def job_inv_def list_all_iff)
  with run show ?thesis
  proof (induction rule: rtranclp_induct)
    case (step sys' sys'')
    then show ?case
      using replay_inv_step [OF _ assms(2)] budget_inv_wakeup job_inv_wakeup unfolding replay_inv_def sup_apply sup_bool_def
      by blast
  qed
qed

section \<open>No reconstruction waits for ever\<close>

definition unfinished :: "replay_system \<Rightarrow> nat" where
  "unfinished sys = length (filter (\<lambda>j. \<forall>r. rj_phase j \<noteq> ReplayFinished r) (rp_jobs sys))"

text \<open>The reconstructions themselves stay what they are.\<close>

definition job_of :: "replay_job \<Rightarrow> historical_replay_config_v1 \<times> gui_election_session_snapshot_v1" where
  "job_of j = (rj_config j, rj_snapshot j)"

lemma jobs_set_phase: "i < length jobs \<Longrightarrow> map job_of (set_phase i ph jobs) = map job_of jobs"
  by (rule nth_equalityI) (auto simp: set_phase_def job_of_def nth_list_update)

lemma jobs_notify: "map job_of (notify_all jobs) = map job_of jobs"
  by (simp add: notify_all_def job_of_def)

lemma jobs_step: "replay_step L nfc blake3 sys sys' \<Longrightarrow> map job_of (rp_jobs sys') = map job_of (rp_jobs sys)"
  by (induction rule: replay_step.induct) (auto simp: jobs_set_phase jobs_notify)

lemma jobs_steps: "(replay_step L nfc blake3)\<^sup>*\<^sup>* sys sys' \<Longrightarrow> map job_of (rp_jobs sys') = map job_of (rp_jobs sys)"
  by (induction rule: rtranclp_induct) (simp_all add: jobs_step)

text \<open>A running reconstruction can be run to its end, whatever the others do.\<close>

lemma running_works:
  assumes "i < length (rp_jobs sys)" and "rj_phase (rp_jobs sys ! i) = ReplayRunning permit schedule"
  shows "(replay_step L nfc blake3)\<^sup>*\<^sup>* sys (sys\<lparr>rp_jobs := set_phase i (ReplayRunning permit (schedule @ rest)) (rp_jobs sys)\<rparr>)"
  using assms
proof (induction rest rule: rev_induct)
  case Nil
  then have "set_phase i (ReplayRunning permit schedule) (rp_jobs sys) = rp_jobs sys"
    by (metis list_update_id replay_job.surjective replay_job.update_convs(3) set_phase_def old.unit.exhaust)
  then show ?case by simp
next
  case (snoc w rest)
  let ?sys = "sys\<lparr>rp_jobs := set_phase i (ReplayRunning permit (schedule @ rest)) (rp_jobs sys)\<rparr>"
  have "replay_step L nfc blake3 ?sys (?sys\<lparr>rp_jobs := set_phase i (ReplayRunning permit ((schedule @ rest) @ [w])) (rp_jobs ?sys)\<rparr>)"
    by (rule replay_work) (use snoc.prems in \<open>simp_all add: set_phase_def\<close>)
  moreover have "?sys\<lparr>rp_jobs := set_phase i (ReplayRunning permit ((schedule @ rest) @ [w])) (rp_jobs ?sys)\<rparr>
      = sys\<lparr>rp_jobs := set_phase i (ReplayRunning permit (schedule @ rest @ [w])) (rp_jobs sys)\<rparr>"
    using snoc.prems by (simp add: set_phase_def)
  ultimately show ?case using snoc.IH [OF snoc.prems] by (metis rtranclp.rtrancl_into_rtrancl)
qed

lemma unfinished_notify: "length (filter (\<lambda>j. \<forall>r. rj_phase j \<noteq> ReplayFinished r) (notify_all jobs))
    = length (filter (\<lambda>j. \<forall>r. rj_phase j \<noteq> ReplayFinished r) jobs)"
  by (induction jobs) (auto simp: notify_all_def)

lemma unfinished_set_finished:
  assumes "i < length jobs" and "rj_phase (jobs ! i) = ReplayRunning permit schedule"
  shows "length (filter (\<lambda>j. \<forall>r. rj_phase j \<noteq> ReplayFinished r) (set_phase i (ReplayFinished r) jobs))
    < length (filter (\<lambda>j. \<forall>r. rj_phase j \<noteq> ReplayFinished r) jobs)"
  using assms
proof (induction jobs arbitrary: i)
  case (Cons j jobs)
  then show ?case by (cases i) (auto simp: set_phase_def)
qed simp

lemma running_finishes:
  assumes inv: "replay_inv L nfc blake3 sys" and i: "i < length (rp_jobs sys)"
    and run: "rj_phase (rp_jobs sys ! i) = ReplayRunning permit schedule"
  shows "\<exists>sys'. (replay_step L nfc blake3)\<^sup>*\<^sup>* sys sys' \<and> unfinished sys' < unfinished sys"
proof -
  from inv i have "job_inv L nfc blake3 (rp_jobs sys ! i)" by (simp add: replay_inv_def)
  from running_job_completes [OF this run] obtain rest r where
    r: "reconstruct_parallel_inner L nfc blake3 (rj_config (rp_jobs sys ! i)) permit (schedule @ rest)
      (rj_snapshot (rp_jobs sys ! i)) = Some r" by blast
  let ?sys = "sys\<lparr>rp_jobs := set_phase i (ReplayRunning permit (schedule @ rest)) (rp_jobs sys)\<rparr>"
  obtain budget notified where rel: "release (held (ReplayRunning permit (schedule @ rest))) (rp_budget ?sys) = (budget, notified)"
    by fastforce
  let ?sys' = "?sys\<lparr>rp_budget := budget,
    rp_jobs := (if notified then notify_all else id) (set_phase i (ReplayFinished r) (rp_jobs ?sys))\<rparr>"
  have "replay_step L nfc blake3 ?sys ?sys'"
    by (rule replay_finish [OF _ _ _ rel]) (use i r in \<open>simp_all add: set_phase_def\<close>)
  with running_works [OF i run, of L nfc blake3 rest] have "(replay_step L nfc blake3)\<^sup>*\<^sup>* sys ?sys'" by simp
  moreover have "set_phase i (ReplayFinished r) (rp_jobs ?sys) = set_phase i (ReplayFinished r) (rp_jobs sys)"
    using i by (simp add: set_phase_def)
  then have "unfinished ?sys' < unfinished sys"
    using unfinished_set_finished [OF i run, of r] unfinished_notify by (simp add: unfinished_def)
  ultimately show ?thesis by blast
qed

lemma unfinished_requesting:
  assumes "i < length (rp_jobs sys)" and "rj_phase (rp_jobs sys ! i) = ReplayRequesting"
  shows "unfinished (sys\<lparr>rp_budget := budget, rp_jobs := set_phase i (ReplayRunning permit s) (rp_jobs sys)\<rparr>) = unfinished sys"
proof -
  have "length (filter (\<lambda>j. \<forall>r. rj_phase j \<noteq> ReplayFinished r) (set_phase i (ReplayRunning permit s) jobs))
    = length (filter (\<lambda>j. \<forall>r. rj_phase j \<noteq> ReplayFinished r) jobs)" if "i < length jobs" "rj_phase (jobs ! i) = ReplayRequesting" for jobs
    using that
  proof (induction jobs arbitrary: i)
    case (Cons j jobs)
    then show ?case by (cases i) (auto simp: set_phase_def)
  qed simp
  from this [OF assms] show ?thesis by (simp add: unfinished_def)
qed

text \<open>
  In every state with an unfinished reconstruction one more can finish: a running one if there is
  one, and otherwise every permit is back, nobody sleeps, and the next request is granted.
\<close>

lemma one_more_finishes:
  assumes sound: "triptych_batch_sound L" and inv: "replay_inv L nfc blake3 sys" and un: "\<not> all_finished sys"
  shows "\<exists>sys'. (replay_step L nfc blake3)\<^sup>*\<^sup>* sys sys' \<and> unfinished sys' < unfinished sys"
proof (cases "\<exists>i < length (rp_jobs sys). \<exists>permit schedule. rj_phase (rp_jobs sys ! i) = ReplayRunning permit schedule")
  case True
  with running_finishes [OF inv] show ?thesis by blast
next
  case False
  from un obtain i where i: "i < length (rp_jobs sys)" and ph: "\<And>r. rj_phase (rp_jobs sys ! i) \<noteq> ReplayFinished r"
    by (auto simp: all_finished_def list_all_iff in_set_conv_nth)
  have "held_total (rp_jobs sys) = 0"
    using False by (auto simp: held_total_def held_def in_set_conv_nth split: replay_phase.splits option.splits)
  then have free: "rp_budget sys = Some b \<Longrightarrow> cb_available b = cb_total b \<and> 0 < cb_total b" for b
    using inv by (simp add: replay_inv_def budget_inv_def)
  have "rj_phase (rp_jobs sys ! i) \<noteq> ReplaySleeping"
    using inv free i by (cases "rp_budget sys") (auto simp: replay_inv_def budget_inv_def)
  with ph False i have req: "rj_phase (rp_jobs sys ! i) = ReplayRequesting" by (cases "rj_phase (rp_jobs sys ! i)") auto
  have "\<exists>budget permit. replay_step L nfc blake3 sys
      (sys\<lparr>rp_budget := budget, rp_jobs := set_phase i (ReplayRunning permit []) (rp_jobs sys)\<rparr>)"
  proof (cases "needs_permit L nfc blake3 (rp_jobs sys ! i)")
    case True
    obtain granted budget where
      "acquire_up_to (desired_workers (job_batches (rp_jobs sys ! i))) (rp_budget sys) = Some (granted, budget)"
      using free by (cases "rp_budget sys") (auto simp: acquire_up_to_def Let_def)
    from replay_acquire [OF i req True this] show ?thesis by blast
  next
    case False
    from replay_unbudgeted [OF i req False] show ?thesis
      by (intro exI [of _ "rp_budget sys"] exI [of _ None]) simp
  qed
  then obtain budget permit where step: "replay_step L nfc blake3 sys
      (sys\<lparr>rp_budget := budget, rp_jobs := set_phase i (ReplayRunning permit []) (rp_jobs sys)\<rparr>)" (is "replay_step L nfc blake3 sys ?sys") by blast
  have "replay_inv L nfc blake3 ?sys" by (rule replay_inv_step [OF step sound inv])
  from running_finishes [OF this, of i permit "[]"] i obtain sys' where
    "(replay_step L nfc blake3)\<^sup>*\<^sup>* ?sys sys'" "unfinished sys' < unfinished ?sys" by (auto simp: set_phase_def)
  with step unfinished_requesting [OF i req, where budget = budget and permit = permit and s = "[]"] show ?thesis
    by (metis converse_rtranclp_into_rtranclp)
qed

lemma replay_inv_steps:
  "(replay_step L nfc blake3)\<^sup>*\<^sup>* sys sys' \<Longrightarrow> triptych_batch_sound L \<Longrightarrow> replay_inv L nfc blake3 sys \<Longrightarrow> replay_inv L nfc blake3 sys'"
  by (induction rule: rtranclp_induct) (auto intro: replay_inv_step)

lemma all_can_finish:
  assumes "triptych_batch_sound L" and "replay_inv L nfc blake3 sys"
  shows "\<exists>sys'. (replay_step L nfc blake3)\<^sup>*\<^sup>* sys sys' \<and> all_finished sys'"
  using assms(2)
proof (induction "unfinished sys" arbitrary: sys rule: less_induct)
  case less
  show ?case
  proof (cases "all_finished sys")
    case False
    from one_more_finishes [OF assms(1) less.prems False] obtain sys1 where
      s1: "(replay_step L nfc blake3)\<^sup>*\<^sup>* sys sys1" "unfinished sys1 < unfinished sys" by blast
    from less.hyps [OF s1(2) replay_inv_steps [OF s1(1) assms(1) less.prems]] s1(1) show ?thesis
      by (meson rtranclp_trans)
  qed blast
qed

end
