(* ===== verification/Session_Invariants.thy ===== *)
theory Session_Invariants
  imports Historical_Replay
begin

text \<open>
  The organizer sessions that the operations of a session can build, and what holds of them: the
  durable snapshot of a session replays to the session, and the digest index of the inbox is the
  linear search of the transcript that it replaced.
\<close>

section \<open>Reachable sessions\<close>

inductive gui_reachable ::
  "('q, 'pt, 'pp, 'is, 'ts, 'pf, 'tr) triptych_lib \<Rightarrow> (nat list \<Rightarrow> nat list) \<Rightarrow> (bytes \<Rightarrow> bytes32) \<Rightarrow>
   gui_election_session_v1 \<Rightarrow> bool" for L nfc blake3 where
  gr_new: "gui_artifacts_from_bytes nfc blake3 mb rb cb = Ok a \<Longrightarrow> gui_session_new (tl_dalek_v4 L) blake3 a = Ok s \<Longrightarrow>
    gui_reachable L nfc blake3 s"
| gr_open: "gui_reachable L nfc blake3 s \<Longrightarrow> gui_open s = Ok s' \<Longrightarrow> gui_reachable L nfc blake3 s'"
| gr_close: "gui_reachable L nfc blake3 s \<Longrightarrow> gui_close s = Ok s' \<Longrightarrow> gui_reachable L nfc blake3 s'"
| gr_mark_verified: "gui_reachable L nfc blake3 s \<Longrightarrow> gui_mark_verified s = Ok s' \<Longrightarrow> gui_reachable L nfc blake3 s'"
| gr_finalize: "gui_reachable L nfc blake3 s \<Longrightarrow> gui_finalize s = Ok s' \<Longrightarrow> gui_reachable L nfc blake3 s'"
| gr_intake: "gui_reachable L nfc blake3 s \<Longrightarrow> intake_ballot_package_bytes L blake3 bs s = Ok (r, s') \<Longrightarrow>
    gui_reachable L nfc blake3 s'"
| gr_reconcile: "gui_reachable L nfc blake3 s \<Longrightarrow> reconcile_accepted_package_bytes_from_inbox L blake3 bs s = Ok (r, s') \<Longrightarrow>
    gui_reachable L nfc blake3 s'"
| gr_remember: "gui_reachable L nfc blake3 s \<Longrightarrow> gui_reachable L nfc blake3 (remember_validated_inbox_file d n m s)"

lemmas lifecycle_ops = gui_open_def gui_close_def gui_mark_verified_def gui_finalize_def lifecycle_op_def
  open_election_def close_election_def mark_verified_def finalize_def transition_def

section \<open>Replaying a session\<close>

text \<open>Intake reads the lifecycle only through a gate that treats an open and a closed election alike.\<close>

definition with_state ::
  "election_lifecycle_state_v1 \<Rightarrow> (ballot_package_digest_v1 \<rightharpoonup> private_inbox_file_validation_v1) \<Rightarrow>
   gui_election_session_v1 \<Rightarrow> gui_election_session_v1" where
  "with_state st cache s = s\<lparr>gs_lifecycle := (gs_lifecycle s)\<lparr>lc_state := st\<rparr>, gs_inbox_cache := cache\<rparr>"

lemma with_state_sel [simp]:
  "gs_artifacts (with_state st c s) = gs_artifacts s" "gs_verifier (with_state st c s) = gs_verifier s"
  "gs_ledger (with_state st c s) = gs_ledger s" "gs_transcript (with_state st c s) = gs_transcript s"
  "gs_packages (with_state st c s) = gs_packages s" "gs_digest_index (with_state st c s) = gs_digest_index s"
  "gs_inbox_cache (with_state st c s) = c" "lc_state (gs_lifecycle (with_state st c s)) = st"
  "with_state st' c' (with_state st c s) = with_state st' c' s"
  by (simp_all add: with_state_def)

lemma accept_verified_state:
  assumes "st \<in> {Open, Closed}" and "lc_state l \<in> {Open, Closed}"
  shows "accept_verified (l\<lparr>lc_state := st\<rparr>) b ledger = accept_verified l b ledger"
proof -
  have "validate_ballot_statement (l\<lparr>lc_state := st\<rparr>) x = validate_ballot_statement l x" for x
    using assms by (auto simp: validate_ballot_statement_def cong: option.case_cong)
  then show ?thesis by (simp add: accept_verified_def)
qed

lemma conclude_intake_state:
  "conclude_intake q d outcome ledger t bs (with_state st c s) =
     and_then (conclude_intake q d outcome ledger t bs s) (\<lambda>s'. Ok (with_state st c s'))"
  by (cases "record_decision q d outcome t")
    (auto simp: conclude_intake_def record_private_intake_digest_index_entry_def with_state_def Let_def split: option.splits)

lemma process_state:
  assumes "st \<in> {Open, Closed}" and "lc_state (gs_lifecycle s) \<in> {Open, Closed}"
  shows "process_intake_package_with_digest L blake3 bs (package_digest blake3 bs) (with_state st c s) =
    and_then (process_intake_package_with_digest L blake3 bs (package_digest blake3 bs) s)
      (\<lambda>(r, s'). Ok (r, with_state st c s'))"
proof -
  have lc: "accept_verified (gs_lifecycle (with_state st c s)) b ledger = accept_verified (gs_lifecycle s) b ledger" for b ledger
    using accept_verified_state [OF assms] by (simp add: with_state_def)
  show ?thesis
    unfolding process_intake_verdict lc with_state_sel conclude_intake_state
    by (cases "record_submission (package_digest blake3 bs) True (gs_transcript s)")
      (auto simp: Let_def and_then_assoc case_prod_beta)
qed

lemma process_frame:
  assumes "process_intake_package_with_digest L blake3 bs (package_digest blake3 bs) s = Ok (r, s')"
  shows "gs_artifacts s' = gs_artifacts s \<and> gs_verifier s' = gs_verifier s \<and> gs_lifecycle s' = gs_lifecycle s
    \<and> gs_inbox_cache s' = gs_inbox_cache s \<and> gs_packages s' = gs_packages s @ [bs]"
  using assms unfolding process_intake_verdict
  by (auto simp: Let_def case_prod_beta result_inv dest!: conclude_intake_frame)

lemma intake_all_snoc:
  "intake_all L blake3 (ps @ [bs]) s =
     and_then (intake_all L blake3 ps s) (\<lambda>s. and_then (intake_ballot_package_bytes L blake3 bs s) (\<lambda>(r, s'). Ok s'))"
proof (induction ps arbitrary: s)
  case Nil
  show ?case by (cases "intake_ballot_package_bytes L blake3 bs s") auto
next
  case (Cons p ps)
  then show ?case by (cases "intake_ballot_package_bytes L blake3 p s") auto
qed

lemma intake_all_frame:
  "intake_all L blake3 ps s = Ok s' \<Longrightarrow> lc_state (gs_lifecycle s) = Open \<Longrightarrow>
     gs_artifacts s' = gs_artifacts s \<and> gs_verifier s' = gs_verifier s \<and> gs_lifecycle s' = gs_lifecycle s
     \<and> gs_inbox_cache s' = gs_inbox_cache s \<and> gs_packages s' = gs_packages s @ ps"
proof (induction ps arbitrary: s)
  case (Cons p ps)
  then obtain r s1 where p: "process_intake_package_with_digest L blake3 p (package_digest blake3 p) s = Ok (r, s1)"
    and rest: "intake_all L blake3 ps s1 = Ok s'"
    by (auto simp: intake_ballot_package_bytes_def result_inv)
  with Cons.IH [OF rest] Cons.prems(2) process_frame [OF p] show ?case by simp
qed simp

text \<open>The session is what its packages give, up to the lifecycle state and the cache.\<close>

definition replays ::
  "('q, 'pt, 'pp, 'is, 'ts, 'pf, 'tr) triptych_lib \<Rightarrow> (bytes \<Rightarrow> bytes32) \<Rightarrow> gui_election_session_v1 \<Rightarrow> bool" where
  "replays L blake3 s \<longleftrightarrow>
     (\<exists>s0 c. gui_session_new (tl_dalek_v4 L) blake3 (gs_artifacts s) = Ok s0
       \<and> (s = with_state Frozen c s0
          \<or> (\<exists>s1 s2 st. st \<in> {Open, Closed, Verified, Finalized} \<and> gui_open s0 = Ok s1
              \<and> intake_all L blake3 (gs_packages s) s1 = Ok s2 \<and> s = with_state st c s2)))"

lemma gui_session_new_Ok:
  assumes "gui_session_new c blake3 a = Ok s"
  shows "gs_artifacts s = a \<and> lc_state (gs_lifecycle s) = Frozen \<and> gs_packages s = [] \<and> gs_inbox_cache s = Map.empty
    \<and> gs_digest_index s = Map.empty \<and> gs_ledger s = ledger_new \<and> gs_transcript s = transcript_new (ga_manifest_hash a)"
  using assms by (auto simp: gui_session_new_def result_inv freeze_def split: if_splits)

lemma gui_open_frozen: "lc_state (gs_lifecycle s) = Frozen \<Longrightarrow> gui_open s = Ok (with_state Open (gs_inbox_cache s) s)"
  by (simp add: lifecycle_ops with_state_def)

lemma with_state_same: "lc_state (gs_lifecycle s) = st \<Longrightarrow> with_state st (gs_inbox_cache s) s = s"
  by (auto simp: with_state_def)

lemma replays_new:
  assumes "gui_session_new (tl_dalek_v4 L) blake3 a = Ok s"
  shows "replays L blake3 s"
proof -
  note new = gui_session_new_Ok [OF assms]
  show ?thesis
    unfolding replays_def using new assms with_state_same [of s Frozen]
    by (intro exI [of _ s] exI [of _ "gs_inbox_cache s"]) simp
qed

lemma replays_cases:
  assumes "replays L blake3 s"
  obtains (frozen) s0 c where "gui_session_new (tl_dalek_v4 L) blake3 (gs_artifacts s) = Ok s0"
      "lc_state (gs_lifecycle s) = Frozen" "s = with_state Frozen c s0"
  | (running) s0 s1 s2 st c where "gui_session_new (tl_dalek_v4 L) blake3 (gs_artifacts s) = Ok s0"
      "gui_open s0 = Ok s1" "intake_all L blake3 (gs_packages s) s1 = Ok s2" "lc_state (gs_lifecycle s2) = Open"
      "st \<in> {Open, Closed, Verified, Finalized}" "lc_state (gs_lifecycle s) = st" "s = with_state st c s2"
proof -
  from assms obtain s0 c where s0: "gui_session_new (tl_dalek_v4 L) blake3 (gs_artifacts s) = Ok s0"
    and or: "s = with_state Frozen c s0 \<or> (\<exists>s1 s2 st. st \<in> {Open, Closed, Verified, Finalized} \<and> gui_open s0 = Ok s1
              \<and> intake_all L blake3 (gs_packages s) s1 = Ok s2 \<and> s = with_state st c s2)"
    unfolding replays_def by blast
  from or show thesis
  proof
    assume "s = with_state Frozen c s0"
    with s0 frozen show thesis by simp
  next
    assume "\<exists>s1 s2 st. st \<in> {Open, Closed, Verified, Finalized} \<and> gui_open s0 = Ok s1
              \<and> intake_all L blake3 (gs_packages s) s1 = Ok s2 \<and> s = with_state st c s2"
    then obtain s1 s2 st where st: "st \<in> {Open, Closed, Verified, Finalized}" and s1: "gui_open s0 = Ok s1"
      and s2: "intake_all L blake3 (gs_packages s) s1 = Ok s2" and s: "s = with_state st c s2" by blast
    have "lc_state (gs_lifecycle s2) = Open"
      using intake_all_frame [OF s2 gui_open_state [OF s1]] gui_open_state [OF s1] by simp
    moreover have "lc_state (gs_lifecycle s) = st" using s by simp
    ultimately show thesis using running [OF s0 s1 s2 _ st _ s] by blast
  qed
qed

lemma replays_runningI:
  assumes "gui_session_new (tl_dalek_v4 L) blake3 (gs_artifacts s) = Ok s0" and "gui_open s0 = Ok s1"
    and "intake_all L blake3 (gs_packages s) s1 = Ok s2" and "st \<in> {Open, Closed, Verified, Finalized}"
    and "s = with_state st c s2"
  shows "replays L blake3 s"
  unfolding replays_def using assms by blast

lemma replays_open:
  assumes "replays L blake3 s" and "gui_open s = Ok s'"
  shows "replays L blake3 s'"
  using assms(1)
proof (cases rule: replays_cases)
  case (frozen s0 c)
  have s0: "gs_packages s0 = []" "lc_state (gs_lifecycle s0) = Frozen" using gui_session_new_Ok [OF frozen(1)] by simp_all
  have s': "s' = with_state Open (gs_inbox_cache s) s" using assms(2) gui_open_frozen [OF frozen(2)] by simp
  have "gs_packages s' = gs_packages s0" unfolding s' by (subst frozen(3)) simp
  with s0 have "intake_all L blake3 (gs_packages s') (with_state Open (gs_inbox_cache s0) s0)
      = Ok (with_state Open (gs_inbox_cache s0) s0)" by simp
  moreover have "s' = with_state Open (gs_inbox_cache s) (with_state Open (gs_inbox_cache s0) s0)"
    unfolding s' by (subst (2) frozen(3)) simp
  moreover have "gs_artifacts s' = gs_artifacts s" unfolding s' by simp
  ultimately show ?thesis
    using frozen(1) by (intro replays_runningI [OF _ gui_open_frozen [OF s0(2)], of L blake3 s'
        "with_state Open (gs_inbox_cache s0) s0" Open "gs_inbox_cache s"]) simp_all
next
  case (running s0 s1 s2 st c)
  then have "lc_state (gs_lifecycle s) \<noteq> Frozen" by auto
  with assms(2) show ?thesis by (simp add: lifecycle_ops)
qed

lemma replays_advance:
  assumes "replays L blake3 s" and "lc_state (gs_lifecycle s) \<notin> {Draft, Frozen}"
    and "st \<in> {Open, Closed, Verified, Finalized}"
  shows "replays L blake3 (with_state st c s)"
  using assms(1)
proof (cases rule: replays_cases)
  case (running s0 s1 s2 st' c')
  have "with_state st c s = with_state st c s2" by (subst running(7)) simp
  moreover have "gui_session_new (tl_dalek_v4 L) blake3 (gs_artifacts (with_state st c s)) = Ok s0"
    "intake_all L blake3 (gs_packages (with_state st c s)) s1 = Ok s2" using running(1, 3) by simp_all
  ultimately show ?thesis using replays_runningI [OF _ running(2) _ assms(3)] by blast
qed (use assms(2) in simp)

lemma replays_process:
  assumes "replays L blake3 s" and "lc_state (gs_lifecycle s) \<in> {Open, Closed}"
    and p: "process_intake_package_with_digest L blake3 bs (package_digest blake3 bs) s = Ok (r, s')"
  shows "replays L blake3 s'"
  using assms(1)
proof (cases rule: replays_cases)
  case (running s0 s1 s2 st c)
  have st: "st \<in> {Open, Closed}" using running assms(2) by simp
  have "and_then (process_intake_package_with_digest L blake3 bs (package_digest blake3 bs) s2)
      (\<lambda>(r, s'). Ok (r, with_state st c s')) = Ok (r, s')"
    using p process_state [OF st, of s2 L blake3 bs c] running by simp
  then obtain s3 where s3: "process_intake_package_with_digest L blake3 bs (package_digest blake3 bs) s2 = Ok (r, s3)"
    and s': "s' = with_state st c s3" by (auto simp: result_inv)
  have "intake_all L blake3 (gs_packages s @ [bs]) s1 = Ok s3"
    using running(3, 4) s3 by (simp add: intake_all_snoc intake_ballot_package_bytes_def)
  moreover note process_frame [OF p]
  ultimately show ?thesis
    using running s' by (intro replays_runningI [of L blake3 s' s0 s1 s3 st c]) simp_all
qed (use assms(2) in simp)

lemma gui_advance:
  "gui_close s = Ok s' \<Longrightarrow> s' = with_state Closed (gs_inbox_cache s) s \<and> lc_state (gs_lifecycle s) = Open"
  "gui_mark_verified s = Ok s' \<Longrightarrow> s' = with_state Verified (gs_inbox_cache s) s \<and> lc_state (gs_lifecycle s) = Closed"
  "gui_finalize s = Ok s' \<Longrightarrow> s' = with_state Finalized (gs_inbox_cache s) s \<and> lc_state (gs_lifecycle s) = Verified"
  by (auto simp: lifecycle_ops with_state_def split: if_splits)

lemma intake_process:
  "intake_ballot_package_bytes L blake3 bs s = Ok (r, s') \<Longrightarrow>
     lc_state (gs_lifecycle s) = Open \<and>
     process_intake_package_with_digest L blake3 bs (package_digest blake3 bs) s = Ok (r, s')"
  by (auto simp: intake_ballot_package_bytes_def split: if_splits)

lemma reconcile_process:
  assumes "reconcile_accepted_package_bytes_from_inbox L blake3 bs s = Ok (r, s')"
  shows "lc_state (gs_lifecycle s) \<in> {Open, Closed} \<and>
    (s' = s \<or> process_intake_package_with_digest L blake3 bs (package_digest blake3 bs) s = Ok (r, s'))"
  using assms by (cases "lc_state (gs_lifecycle s)")
    (auto simp: reconcile_accepted_package_bytes_from_inbox_def ensure_inbox_reconciliation_lifecycle_def Let_def
      result_inv split: if_splits option.splits)

lemma replays_remember:
  assumes "replays L blake3 s"
  shows "replays L blake3 (remember_validated_inbox_file d n m s)"
proof -
  obtain c where eq: "remember_validated_inbox_file d n m s = with_state (lc_state (gs_lifecycle s)) c s"
    by (simp add: remember_validated_inbox_file_def with_state_def)
  from assms show ?thesis
  proof (cases rule: replays_cases)
    case (frozen s0 c0)
    then show ?thesis unfolding eq replays_def by (intro exI [of _ s0] exI [of _ c]) simp
  next
    case (running s0 s1 s2 st c0)
    then show ?thesis unfolding eq by (intro replays_advance [OF assms]) auto
  qed
qed

lemma gui_reachable_replays:
  assumes "gui_reachable L nfc blake3 s"
  shows "replays L blake3 s"
  using assms
proof (induction rule: gui_reachable.induct)
  case (gr_close s s')
  then show ?case using gui_advance(1) [of s s'] replays_advance [of L blake3 s] by auto
next
  case (gr_mark_verified s s')
  then show ?case using gui_advance(2) [of s s'] replays_advance [of L blake3 s] by auto
next
  case (gr_finalize s s')
  then show ?case using gui_advance(3) [of s s'] replays_advance [of L blake3 s] by auto
next
  case (gr_intake s bs r s')
  then show ?case using intake_process replays_process by blast
next
  case (gr_reconcile s bs r s')
  then show ?case using reconcile_process replays_process by blast
qed (blast intro: replays_new replays_open replays_remember)+

section \<open>Durable snapshots\<close>

text \<open>The artifacts of a session encode to the bytes they were decoded from.\<close>

definition artifacts_from ::
  "(nat list \<Rightarrow> nat list) \<Rightarrow> (bytes \<Rightarrow> bytes32) \<Rightarrow> gui_election_artifacts_v1 \<Rightarrow> bytes \<Rightarrow> bytes \<Rightarrow> bytes \<Rightarrow> bool" where
  "artifacts_from nfc blake3 a mb rb cb \<longleftrightarrow>
     gui_artifacts_from_bytes nfc blake3 mb rb cb = Ok a \<and> manifest_to_canonical_cbor (ga_manifest a) = Ok mb
     \<and> registry_to_canonical_cbor (ga_registry a) = Ok rb \<and> candidate_set_to_canonical_cbor (ga_candidates a) = Ok cb
     \<and> wf_registry (ga_registry a) \<and> wf_candidate_set (ga_candidates a)"

lemma artifacts_fromI:
  assumes "gui_artifacts_from_bytes nfc blake3 mb rb cb = Ok a"
  shows "artifacts_from nfc blake3 a mb rb cb"
proof -
  from assms have "manifest_from_canonical_cbor nfc mb = Ok (ga_manifest a)"
    "registry_from_canonical_cbor rb = Ok (ga_registry a)"
    "candidate_set_from_canonical_cbor cb = Ok (ga_candidates a)"
    by (auto simp: gui_artifacts_from_bytes_def Let_def result_inv split: if_splits)
  then show ?thesis
    using assms manifest_codec.encode_decode registry_codec.encode_decode candidate_set_codec.encode_decode
    unfolding artifacts_from_def by metis
qed

lemma process_artifacts:
  "process_intake_package_with_digest L blake3 bs (package_digest blake3 bs) s = Ok (r, s') \<Longrightarrow> gs_artifacts s' = gs_artifacts s"
  using process_frame by blast

lemma gui_reachable_artifacts:
  assumes "gui_reachable L nfc blake3 s"
  shows "\<exists>mb rb cb. artifacts_from nfc blake3 (gs_artifacts s) mb rb cb"
  using assms
proof (induction rule: gui_reachable.induct)
  case (gr_new mb rb cb a s)
  then show ?case using artifacts_fromI gui_session_new_Ok by metis
next
  case (gr_intake s bs r s')
  then show ?case using intake_process process_artifacts by metis
next
  case (gr_reconcile s bs r s')
  then show ?case using reconcile_process process_artifacts by metis
qed (auto simp: lifecycle_ops remember_validated_inbox_file_def split: if_splits, blast+)

lemma terminal_lifecycle:
  assumes "lc_state (gs_lifecycle s) = Open" and "st \<in> {Open, Closed, Verified, Finalized}"
  shows "apply_terminal_lifecycle st s = Ok (with_state st (gs_inbox_cache s) s)"
  using assms with_state_same [OF assms(1)] by (auto simp: lifecycle_ops with_state_def)

lemma replayed_clone_eq:
  assumes "gui_reachable L nfc blake3 s"
  shows "replayed_clone L nfc blake3 s = Ok (s\<lparr>gs_inbox_cache := Map.empty\<rparr>)"
proof -
  from gui_reachable_artifacts [OF assms] obtain mb rb cb where
    a: "artifacts_from nfc blake3 (gs_artifacts s) mb rb cb" by blast
  have snap: "to_durable_snapshot s = Ok \<lparr>sn_lifecycle_state = lc_state (gs_lifecycle s), sn_manifest_bytes = mb,
      sn_registry_bytes = rb, sn_candidate_bytes = cb, sn_packages = gs_packages s\<rparr>"
    using a by (simp add: to_durable_snapshot_def artifacts_from_def)
  have dec: "gui_artifacts_from_bytes nfc blake3 mb rb cb = Ok (gs_artifacts s)" using a by (simp add: artifacts_from_def)
  have empty: "s\<lparr>gs_inbox_cache := Map.empty\<rparr> = with_state (lc_state (gs_lifecycle s)) Map.empty s"
    by (simp add: with_state_def)
  from gui_reachable_replays [OF assms] show ?thesis
  proof (cases rule: replays_cases)
    case (frozen s0 c)
    have s0: "gs_packages s0 = []" "lc_state (gs_lifecycle s0) = Frozen" "gs_inbox_cache s0 = Map.empty"
      using gui_session_new_Ok [OF frozen(1)] by simp_all
    have "with_state Frozen Map.empty s = with_state Frozen Map.empty s0" by (subst frozen(3)) simp
    also have "\<dots> = s0" using with_state_same [OF s0(2)] s0(3) by simp
    finally have "with_state Frozen Map.empty s = s0" .
    moreover have "gs_packages s = []" using s0(1) by (subst frozen(3)) simp
    ultimately show ?thesis
      unfolding empty using snap dec frozen(1, 2)
      by (simp add: replayed_clone_def from_durable_snapshot_def reconstruct_with_def)
  next
    case (running s0 s1 s2 st c)
    have cache: "gs_inbox_cache s2 = Map.empty"
      using intake_all_frame [OF running(3) gui_open_state [OF running(2)]] running(2) gui_session_new_Ok [OF running(1)]
      by (auto simp: lifecycle_ops split: if_splits)
    have "with_state st Map.empty s = with_state st Map.empty s2" by (subst running(7)) simp
    with terminal_lifecycle [OF running(4, 5)] cache show ?thesis
      unfolding empty running(6) using snap dec running(1-3, 5, 6)
      by (auto simp: replayed_clone_def from_durable_snapshot_def reconstruct_with_def)
  qed
qed

section \<open>The digest index\<close>

text \<open>The search that the index replaced: the earliest decision on a digest.\<close>

definition earliest_decision :: "ballot_package_digest_v1 \<Rightarrow> gui_election_session_v1 \<Rightarrow> ballot_decision_v1 option" where
  "earliest_decision d s = find (\<lambda>e. bd_package_digest e = d) (vt_decisions (gs_transcript s))"

definition gui_inv ::
  "('q, 'pt, 'pp, 'is, 'ts, 'pf, 'tr) triptych_lib \<Rightarrow> (bytes \<Rightarrow> bytes32) \<Rightarrow> gui_election_session_v1 \<Rightarrow> bool" where
  "gui_inv L blake3 s \<longleftrightarrow>
     transcript_inv (gs_transcript s)
     \<and> length (vt_decisions (gs_transcript s)) = length (vt_submissions (gs_transcript s))
     \<and> map bd_package_digest (vt_decisions (gs_transcript s)) = map (package_digest blake3) (gs_packages s)
     \<and> accepted_count (gs_transcript s) = length (bl_accepted_ballots (gs_ledger s))
     \<and> ledger_reachable (ga_manifest (gs_artifacts s)) (ga_candidates (gs_artifacts s))
         (Blake3HashProviderV1 blake3) (TariTriptychPrototypeVerifierV1 L (gs_verifier s)) (gs_ledger s)
     \<and> (\<forall>d. gs_digest_index s d = map_option (\<lambda>e. \<lparr>ix_sequence = bd_sequence e, ix_outcome = bd_outcome e\<rparr>)
           (earliest_decision d s))"

lemma find_snoc: "find P (xs @ [x]) = (case find P xs of Some y \<Rightarrow> Some y | None \<Rightarrow> if P x then Some x else None)"
  by (induction xs) auto

text \<open>What one intake does: it always decides, short of 2 to the 64 packages.\<close>

lemma process_total:
  assumes inv: "gui_inv L blake3 s" and len: "length (gs_packages s) < 2 ^ 64"
  shows "\<exists>outcome s'. process_intake_package_with_digest L blake3 bs (package_digest blake3 bs) s =
      Ok (intake_result (package_digest blake3 bs) outcome, s') \<and> gui_inv L blake3 s'
    \<and> earliest_decision (package_digest blake3 bs) s' \<noteq> None
    \<and> (earliest_decision (package_digest blake3 bs) s = None \<longrightarrow>
        map_option bd_outcome (earliest_decision (package_digest blake3 bs) s') = Some outcome)"
proof -
  let ?d = "package_digest blake3 bs" and ?t = "gs_transcript s"
  let ?ing = "ingest_approval_ballot_package_v1 bs (ga_manifest (gs_artifacts s))
    (ga_candidates (gs_artifacts s)) (gs_lifecycle s) (Blake3HashProviderV1 blake3)
    (TariTriptychPrototypeVerifierV1 L (gs_verifier s)) (gs_ledger s)"
  define outcome where "outcome = (case ?ing of Ok _ \<Rightarrow> Accepted | Err code \<Rightarrow> Rejected code)"
  define ledger where "ledger = (case ?ing of Ok l \<Rightarrow> l | Err _ \<Rightarrow> gs_ledger s)"
  have lens: "length (vt_submissions ?t) = length (gs_packages s)"
    using inv unfolding gui_inv_def by (metis length_map)
  with inv len record_both [of ?t ?d True outcome] obtain q t1 t' where
    sub: "record_submission ?d True ?t = Ok (q, t1)" and dec: "record_decision q ?d outcome t1 = Ok t'"
    and t': "transcript_inv t'" "length (vt_decisions t') = length (vt_submissions t')"
    and eq: "t' = ?t\<lparr>vt_submissions := vt_submissions ?t @ [\<lparr>sr_sequence = q, sr_package_digest = ?d,
              sr_received_before_close = True\<rparr>],
            vt_decisions := vt_decisions ?t @ [\<lparr>bd_sequence = q, bd_package_digest = ?d, bd_outcome = outcome\<rparr>]\<rparr>"
    unfolding gui_inv_def by auto
  define s1 where "s1 = record_private_intake_digest_index_entry q ?d outcome (s\<lparr>gs_ledger := ledger, gs_transcript := t'\<rparr>)"
  define s' where "s' = s1\<lparr>gs_packages := gs_packages s1 @ [bs]\<rparr>"
  have run: "process_intake_package_with_digest L blake3 bs ?d s = Ok (intake_result ?d outcome, s')"
    using sub dec by (cases ?ing) (simp_all add: process_intake_package_with_digest_def conclude_intake_def outcome_def
        ledger_def s1_def s'_def Let_def)
  have s': "gs_transcript s' = t'" "gs_ledger s' = ledger" "gs_packages s' = gs_packages s @ [bs]"
    "gs_artifacts s' = gs_artifacts s" "gs_verifier s' = gs_verifier s"
    "gs_digest_index s' = (case gs_digest_index s ?d of Some _ \<Rightarrow> gs_digest_index s
       | None \<Rightarrow> (gs_digest_index s)(?d \<mapsto> \<lparr>ix_sequence = q, ix_outcome = outcome\<rparr>))"
    by (auto simp: s'_def s1_def record_private_intake_digest_index_entry_def split: option.splits)
  have early: "earliest_decision d s' = (case earliest_decision d s of Some e \<Rightarrow> Some e
     | None \<Rightarrow> if ?d = d then Some \<lparr>bd_sequence = q, bd_package_digest = ?d, bd_outcome = outcome\<rparr> else None)" for d
    by (simp add: earliest_decision_def s'(1) eq find_snoc)
  have "ledger_reachable (ga_manifest (gs_artifacts s)) (ga_candidates (gs_artifacts s))
       (Blake3HashProviderV1 blake3) (TariTriptychPrototypeVerifierV1 L (gs_verifier s)) ledger"
    using inv by (cases ?ing) (auto simp: ledger_def gui_inv_def intro: ledger_ingest)
  moreover have "accepted_count t' = length (bl_accepted_ballots ledger)"
  proof (cases ?ing)
    case (Ok l)
    from triptych.ingest_Ok [OF Ok] show ?thesis
      using inv Ok eq by (auto simp: outcome_def ledger_def accept_verified_Ok_iff accepted_count_def gui_inv_def)
  qed (use inv eq in \<open>auto simp: outcome_def ledger_def accepted_count_def gui_inv_def\<close>)
  moreover have "gs_digest_index s' d = map_option (\<lambda>e. \<lparr>ix_sequence = bd_sequence e, ix_outcome = bd_outcome e\<rparr>)
      (earliest_decision d s')" for d
    using inv by (cases "earliest_decision ?d s"; cases "earliest_decision d s") (auto simp: s'(6) early gui_inv_def)
  ultimately have "gui_inv L blake3 s'"
    using inv t' eq by (simp add: gui_inv_def s')
  moreover have "earliest_decision ?d s' \<noteq> None" by (simp add: early split: option.splits)
  ultimately show ?thesis
    using run early [of ?d] by (intro exI [of _ outcome] exI [of _ s']) simp
qed

lemma process_inv:
  assumes inv: "gui_inv L blake3 s"
    and p: "process_intake_package_with_digest L blake3 bs (package_digest blake3 bs) s = Ok (r, s')"
  shows "gui_inv L blake3 s'"
proof -
  have "length (vt_submissions (gs_transcript s)) = length (gs_packages s)"
    using inv unfolding gui_inv_def by (metis length_map)
  moreover have "length (vt_submissions (gs_transcript s)) < 2 ^ 64"
    using p by (auto simp: process_intake_package_with_digest_def record_submission_def sequence_from_index_Ok_iff
        result_inv case_prod_beta)
  ultimately have "length (gs_packages s) < 2 ^ 64" by simp
  from process_total [OF inv this, of bs] p show ?thesis by auto
qed

lemma gui_inv_with_state: "gui_inv L blake3 (with_state st c s) \<longleftrightarrow> gui_inv L blake3 s"
  by (simp add: gui_inv_def earliest_decision_def)

lemma gui_reachable_inv:
  assumes "gui_reachable L nfc blake3 s"
  shows "gui_inv L blake3 s"
  using assms
proof (induction rule: gui_reachable.induct)
  case (gr_new mb rb cb a s)
  from gui_session_new_Ok [OF gr_new(2)] show ?case
    by (auto simp: gui_inv_def transcript_inv_new earliest_decision_def accepted_count_def ledger_new_def
        transcript_new_def ledger_start [unfolded ledger_new_def] transcript_inv_def)
next
  case (gr_open s s')
  then show ?case by (auto simp: lifecycle_ops gui_inv_def earliest_decision_def split: if_splits)
next
  case (gr_close s s')
  then show ?case using gui_advance(1) gui_inv_with_state by metis
next
  case (gr_mark_verified s s')
  then show ?case using gui_advance(2) gui_inv_with_state by metis
next
  case (gr_finalize s s')
  then show ?case using gui_advance(3) gui_inv_with_state by metis
next
  case (gr_intake s bs r s')
  then show ?case using intake_process process_inv by blast
next
  case (gr_reconcile s bs r s')
  then show ?case using reconcile_process process_inv by blast
next
  case (gr_remember s d n m)
  then show ?case by (simp add: remember_validated_inbox_file_def gui_inv_def earliest_decision_def)
qed

text \<open>What the inbox answers for a package that already has a decision.\<close>

definition repeated_outcome :: "ballot_decision_outcome_v1 \<Rightarrow> ballot_decision_outcome_v1" where
  "repeated_outcome outcome = (if is_accepted outcome then Rejected DuplicateNullifier else outcome)"

lemma repeated_outcome_idem [simp]: "repeated_outcome (repeated_outcome x) = repeated_outcome x"
  by (simp add: repeated_outcome_def)

lemma indexed_result_search:
  assumes "gui_inv L blake3 s"
  shows "indexed_inbox_reconciliation_result d s =
    Ok (map_option (\<lambda>e. intake_result d (repeated_outcome (bd_outcome e))) (earliest_decision d s))"
proof (cases "earliest_decision d s")
  case None
  then show ?thesis using assms by (simp add: indexed_inbox_reconciliation_result_def gui_inv_def)
next
  case (Some e)
  then obtain i where i: "i < length (vt_decisions (gs_transcript s))" "e = vt_decisions (gs_transcript s) ! i"
      "bd_package_digest e = d"
    by (auto simp: earliest_decision_def find_Some_iff)
  have lim: "i < length (vt_submissions (gs_transcript s))" "length (vt_submissions (gs_transcript s)) \<le> 2 ^ 64"
    using assms i(1) by (auto simp: gui_inv_def transcript_inv_def)
  then have seq: "bd_sequence e = IngestSequenceV1 (word_of_nat i)"
    using assms i by (simp add: gui_inv_def transcript_inv_def)
  have "unat (word_of_nat i :: u64) = i" using lim by (simp add: unat_of_nat take_bit_nat_eq_self)
  moreover have "gs_digest_index s d = Some \<lparr>ix_sequence = bd_sequence e, ix_outcome = bd_outcome e\<rparr>"
    using assms Some by (simp add: gui_inv_def)
  ultimately show ?thesis
    using Some i seq by (simp add: indexed_inbox_reconciliation_result_def repeated_outcome_def ok_or_def)
qed

lemma ensure_inbox_Ok: "lc_state (gs_lifecycle s) \<in> {Open, Closed} \<Longrightarrow> ensure_inbox_reconciliation_lifecycle s = Ok ()"
  by (auto simp: ensure_inbox_reconciliation_lifecycle_def)

lemma reconcile_decided:
  assumes "gui_inv L blake3 s" and "lc_state (gs_lifecycle s) \<in> {Open, Closed}"
    and "earliest_decision (package_digest blake3 bs) s = Some e"
  shows "reconcile_accepted_package_bytes_from_inbox L blake3 bs s =
    Ok (intake_result (package_digest blake3 bs) (repeated_outcome (bd_outcome e)), s)"
  using assms by (simp add: reconcile_accepted_package_bytes_from_inbox_def ensure_inbox_Ok indexed_result_search)

lemma reconcile_twice:
  assumes inv: "gui_inv L blake3 s" and st: "lc_state (gs_lifecycle s) \<in> {Open, Closed}"
    and len: "length (gs_packages s) < 2 ^ 64"
  shows "\<exists>outcome s'. reconcile_accepted_package_bytes_from_inbox L blake3 bs s =
        Ok (intake_result (package_digest blake3 bs) outcome, s')
    \<and> reconcile_accepted_package_bytes_from_inbox L blake3 bs s' =
        Ok (intake_result (package_digest blake3 bs) (repeated_outcome outcome), s')"
proof (cases "earliest_decision (package_digest blake3 bs) s")
  case (Some e)
  then show ?thesis
    using reconcile_decided [OF inv st, of bs]
    by (intro exI [of _ "repeated_outcome (bd_outcome e)"] exI [of _ s]) simp
next
  case None
  from process_total [OF inv len, of bs] None obtain outcome s' e where
    p: "process_intake_package_with_digest L blake3 bs (package_digest blake3 bs) s =
      Ok (intake_result (package_digest blake3 bs) outcome, s')" and inv': "gui_inv L blake3 s'"
    and e: "earliest_decision (package_digest blake3 bs) s' = Some e" "bd_outcome e = outcome"
    by auto
  have "reconcile_accepted_package_bytes_from_inbox L blake3 bs s =
      Ok (intake_result (package_digest blake3 bs) outcome, s')"
    using p None ensure_inbox_Ok [OF st] indexed_result_search [OF inv]
    by (simp add: reconcile_accepted_package_bytes_from_inbox_def)
  with reconcile_decided [OF inv' _ e(1)] process_frame [OF p] st e(2) show ?thesis by auto
qed

section \<open>Participation\<close>

lemma participation_basis_points_exact:
  assumes "unat eligible * 10000 < 2 ^ 64"
  shows "unat (participation_basis_points accepted eligible) =
    (if eligible = 0 then 0 else min 10000 (unat accepted * 10000 div unat eligible))"
proof (cases "eligible = 0 \<or> eligible \<le> accepted")
  case True
  have "10000 \<le> unat accepted * 10000 div unat eligible" if "eligible \<noteq> 0" "eligible \<le> accepted"
  proof -
    have "unat eligible * 10000 \<le> unat accepted * 10000" using that by (simp add: word_le_nat_alt)
    then have "unat eligible * 10000 div unat eligible \<le> unat accepted * 10000 div unat eligible" by (rule div_le_mono)
    with that show ?thesis by (simp add: unat_eq_0)
  qed
  with True show ?thesis by (auto simp: participation_basis_points_def)
next
  case False
  then have lt: "unat accepted < unat eligible" and pos: "0 < unat eligible" by (auto simp: not_le word_less_nat_alt unat_gt_0)
  have small: "unat accepted * 10000 < 2 ^ 64" using lt assms by simp
  have mul: "unat (accepted * 10000) = unat accepted * 10000"
    using small by (simp add: unat_mult_lem [THEN iffD1])
  have le: "unat accepted * 10000 div unat eligible \<le> 10000"
    using lt less_mult_imp_div_less [of "unat accepted * 10000" 10000 "unat eligible"] by simp
  define bps where "bps = accepted * 10000 div eligible"
  have bps: "unat bps = unat accepted * 10000 div unat eligible" by (simp add: bps_def unat_div_distrib mul)
  have "bps \<le> 10000" using le bps by (simp add: word_le_nat_alt)
  moreover have "unat (ucast bps :: 32 word) = unat bps" using le bps by (simp add: unsigned_ucast_eq take_bit_nat_eq_self)
  ultimately show ?thesis
    using False small le bps unfolding participation_basis_points_def saturating_mul_u64_def
    by (auto simp: Let_def not_le simp flip: bps_def)
qed

lemma u64_or_max_small [simp]: "n < 2 ^ 64 \<Longrightarrow> unat (u64_or_max n) = n"
  by (simp add: u64_or_max_def u64_of_usize_def unat_of_nat take_bit_nat_eq_self)

lemma registry_size:
  assumes "gui_reachable L nfc blake3 s"
  shows "0 < length (rs_entries (ga_registry (gs_artifacts s))) \<and> length (rs_entries (ga_registry (gs_artifacts s))) \<le> 4096"
  using gui_reachable_artifacts [OF assms] by (auto simp: artifacts_from_def wf_registry_def limits_def)

lemma saturating_sub_u64_unat: "unat (saturating_sub_u64 a b) = unat a - unat b"
  by (auto simp: saturating_sub_u64_def unat_sub word_le_nat_alt)

lemma accepted_ballots_count:
  assumes "gui_inv L blake3 s"
  shows "accepted_count (gs_transcript s) = length (bl_accepted_ballots (gs_ledger s))
    \<and> length (bl_accepted_ballots (gs_ledger s)) \<le> length (gs_packages s)"
proof -
  have "length (vt_decisions (gs_transcript s)) = length (gs_packages s)"
    using assms unfolding gui_inv_def by (metis length_map)
  moreover have "accepted_count (gs_transcript s) \<le> length (vt_decisions (gs_transcript s))"
    by (simp add: accepted_count_def)
  ultimately show ?thesis using assms by (simp add: gui_inv_def)
qed

text \<open>The accepted ballots of a reachable session can be counted.\<close>

lemma reachable_direct_tally:
  assumes "gui_reachable L nfc blake3 s" and "length (gs_packages s) < 2 ^ 64"
  defines "cs \<equiv> ga_candidates (gs_artifacts s)" and "bs \<equiv> map ab_payload (bl_accepted_ballots (gs_ledger s))"
  shows "\<exists>t. tally_from_ballots cs bs = Ok t \<and> unat (at_accepted_ballots t) = accepted_count (gs_transcript s)
    \<and> map (unat \<circ> cc_approvals) (at_counts t) = map (approvals_of bs \<circ> cd_id) (cs_candidates cs)"
proof -
  have inv: "gui_inv L blake3 s" by (rule gui_reachable_inv [OF assms(1)])
  have k: "accepted_count (gs_transcript s) = length bs" "length bs \<le> length (gs_packages s)"
    using accepted_ballots_count [OF inv] by (simp_all add: bs_def)
  have cs: "wf_candidate_set cs" using gui_reachable_artifacts [OF assms(1)] by (auto simp: artifacts_from_def cs_def)
  have "\<forall>b \<in> set (bl_accepted_ballots (gs_ledger s)). counted_ballot (ga_manifest (gs_artifacts s)) cs (Blake3HashProviderV1 blake3) b"
    using inv triptych.ledger_reachable_inv unfolding gui_inv_def cs_def by blast
  then have "\<forall>b \<in> set bs. countable_ballot cs b"
    using countable_ballot_wf [OF cs] by (auto simp: counted_ballot_def bs_def)
  from tally_from_ballots_counts [OF cs this] k assms(2) show ?thesis by auto
qed

end
