(* ===== verification/Example_Session.thy ===== *)
theory Example_Session
  imports Session_Invariants Example_Archive
begin

text \<open>
  A session on the example election: freshly opened, after one accepted vote, and closed. The witnesses
  of the properties of sessions and of the transport gateway use it.
\<close>

section \<open>An example session\<close>

definition xs_artifacts :: gui_election_artifacts_v1 where
  "xs_artifacts = \<lparr>ga_manifest = ex_manifest, ga_registry = ar_registry, ga_candidates = ex_candidates,
     ga_manifest_hash = ManifestHash zero32, ga_registry_commitment = RegistryCommitment zero32,
     ga_candidate_set_commitment = CandidateSetCommitment zero32\<rparr>"

definition xs_open :: gui_election_session_v1 where
  "xs_open = \<lparr>gs_artifacts = xs_artifacts, gs_verifier = toy_verifier, gs_lifecycle = ex_lifecycle,
     gs_ledger = ledger_new, gs_transcript = transcript_new (ManifestHash zero32), gs_packages = [],
     gs_digest_index = Map.empty, gs_inbox_cache = Map.empty\<rparr>"

text \<open>The session after the example vote arrived while voting was open.\<close>

definition xs_voted :: gui_election_session_v1 where
  "xs_voted = xs_open\<lparr>gs_ledger := ex_ledger, gs_transcript := ss_transcript ar_session, gs_packages := [ex_vote_bytes],
     gs_digest_index := [BallotPackageDigestV1 zero32 \<mapsto> \<lparr>ix_sequence = IngestSequenceV1 0, ix_outcome = Accepted\<rparr>]\<rparr>"

definition xs_closed :: gui_election_session_v1 where
  "xs_closed = with_state Closed Map.empty xs_voted"

definition xs_snapshot :: gui_election_session_snapshot_v1 where
  "xs_snapshot = \<lparr>sn_lifecycle_state = Closed, sn_manifest_bytes = ok_bytes (manifest_to_canonical_cbor ex_manifest),
     sn_registry_bytes = ok_bytes (registry_to_canonical_cbor ar_registry),
     sn_candidate_bytes = ok_bytes (candidate_set_to_canonical_cbor ex_candidates), sn_packages = [ex_vote_bytes]\<rparr>"

lemma xs_artifacts_decode:
  "gui_artifacts_from_bytes id zero_digest (ok_bytes (manifest_to_canonical_cbor ex_manifest))
     (ok_bytes (registry_to_canonical_cbor ar_registry)) (ok_bytes (candidate_set_to_canonical_cbor ex_candidates))
   = Ok xs_artifacts"
  by (simp add: gui_artifacts_from_bytes_def ar_decodes ar_registry_commitment ex_candidates_commitment
      ex_manifest_fields ex_manifest_hash production_policy_validate_def xs_artifacts_def flip: const_hash_def)

lemma xs_new: "gui_session_new toy_curve zero_digest xs_artifacts = Ok (with_state Frozen Map.empty xs_open)"
  by (simp add: gui_session_new_def xs_artifacts_def freeze_def lifecycle_new_def ex_lifecycle_def ar_verifier
      xs_open_def with_state_def flip: const_hash_def)

lemma toy_lib_v4 [simp]: "tl_dalek_v4 toy_lib = toy_curve"
  by (simp add: toy_lib_def)

lemma xs_digest: "package_digest zero_digest bs = BallotPackageDigestV1 zero32"
  by (simp add: package_digest_def flip: const_hash_def)

lemma xs_intake:
  "intake_ballot_package_bytes toy_lib zero_digest ex_vote_bytes xs_open
   = Ok (intake_result (BallotPackageDigestV1 zero32) Accepted, xs_voted)"
proof -
  have "lc_state (gs_lifecycle xs_open) = Open" by (simp add: xs_open_def ex_lifecycle_def)
  then show ?thesis
    using ex_ingest
    by (simp add: intake_ballot_package_bytes_def process_intake_package_with_digest_def xs_digest
        record_submission_def sequence_from_index_def u64_of_usize_def xs_open_def xs_artifacts_def flip: const_hash_def)
      (simp add: conclude_intake_def record_decision_def sequence_from_index_def usize_of_u64_def transcript_new_def
        record_private_intake_digest_index_entry_def u64_of_usize_def xs_voted_def xs_open_def ar_session_def Let_def
        xs_artifacts_def)
qed

lemma xs_reachable:
  "gui_reachable toy_lib id zero_digest xs_open" "gui_reachable toy_lib id zero_digest xs_voted"
  "gui_reachable toy_lib id zero_digest xs_closed"
proof -
  have "gui_reachable toy_lib id zero_digest (with_state Frozen Map.empty xs_open)"
    using xs_new by (intro gr_new [OF xs_artifacts_decode]) simp
  moreover have "gui_open (with_state Frozen Map.empty xs_open) = Ok xs_open"
    by (simp add: gui_open_frozen) (simp add: with_state_def xs_open_def ex_lifecycle_def)
  ultimately show op: "gui_reachable toy_lib id zero_digest xs_open" by (rule gr_open)
  then show voted: "gui_reachable toy_lib id zero_digest xs_voted" by (rule gr_intake [OF _ xs_intake])
  have "gui_close xs_voted = Ok xs_closed"
    by (simp add: lifecycle_ops xs_closed_def with_state_def xs_voted_def xs_open_def ex_lifecycle_def)
  with voted show "gui_reachable toy_lib id zero_digest xs_closed" by (rule gr_close)
qed

lemma xs_states:
  "lc_state (gs_lifecycle xs_open) = Open" "lc_state (gs_lifecycle xs_voted) = Open" "lc_state (gs_lifecycle xs_closed) = Closed"
  "gs_packages xs_open = []" "gs_packages xs_voted = [ex_vote_bytes]" "gs_packages xs_closed = [ex_vote_bytes]"
  by (simp_all add: xs_closed_def xs_voted_def xs_open_def ex_lifecycle_def)

lemma xs_same: "gs_artifacts xs_voted = gs_artifacts xs_open" "gs_lifecycle xs_voted = gs_lifecycle xs_open"
  by (simp_all add: xs_voted_def)

lemma xs_vote_size: "length ex_vote_bytes \<le> 1000"
proof -
  have eq: "ex_vote_bytes = envelope_enc (envelope_of ex_vote)"
    using package_to_canonical_cbor_total [OF ex_vote_wf] by (simp add: ex_vote_bytes_def)
  have "length (payload_enc (pk_payload ex_vote)) \<le> 13"
    using length_enc_len [of 1 MAJOR_ARRAY] length_enc_bytes [of "[2]"] by (simp add: payload_enc_def ex_vote_def enc_seq_def)
  then show ?thesis
    unfolding eq
    using length_enc_len [of 5 MAJOR_ARRAY] length_enc_unsigned [of 1] length_enc_bytes [of "arr_bytes zero32"]
      length_enc_text [of TARI_TRIPTYCH_PROOF_SUITE_ID_V1] length_enc_bytes [of "payload_enc (pk_payload ex_vote)"]
      length_enc_bytes [of "pk_proof ex_vote"]
    by (simp add: envelope_enc_def envelope_of_def BALLOT_PACKAGE_V1_FIELD_COUNT_def ex_vote_def
        TARI_TRIPTYCH_PROOF_SUITE_ID_V1_def lit_def)
qed

end
