(* ===== verification/Session_Properties.thy ===== *)
theory Session_Properties
  imports Replay_Budget Example_Session
begin

text \<open>
  Properties of the organizer's session: durable snapshots, parallel reconstruction, the inbox,
  tally and participation, each with a witness on the example election.
\<close>

section \<open>Durable snapshots\<close>

text \<open>
  C14: A session that was built from decoded artifacts by any sequence of
  lifecycle operations, intakes and inbox reconciliations is rebuilt from its durable snapshot: replaying
  the recorded packages, including those that arrived after the close, gives back the same artifacts,
  verifier, lifecycle, ledger, transcript, packages and digest index. Only the file cache starts empty.
\<close>

theorem session_snapshot_roundtrip:
  assumes "gui_reachable L nfc blake3 s"
  shows "replayed_clone L nfc blake3 s = Ok (s\<lparr>gs_inbox_cache := Map.empty\<rparr>)"
  using assms by (rule replayed_clone_eq)

theorem session_snapshot_roundtrip_witness:
  "replayed_clone toy_lib id zero_digest xs_closed = Ok xs_closed"
  using session_snapshot_roundtrip [OF xs_reachable(3)] by (simp add: xs_closed_def with_state_def)

text \<open>
  C15: Any number of reconstructions run at the same time, in any configuration, and share one
  worker budget; their steps and those of their workers interleave freely, and sleepers may wake
  without a reason. Under the batch soundness of the proof library each that finishes has what the
  serial reconstruction of its snapshot gives, errors included. The permits in the budget and those
  held always add up to its total. And from every state that can be reached, the program's own steps,
  without any spurious wake-up, can bring all of them to their end: none waits for ever for a permit.
\<close>

theorem parallel_reconstruction_serial:
  assumes "triptych_batch_sound L" and "replay_reachable L nfc blake3 start sys"
  shows "(\<forall>j \<in> set (rp_jobs sys). \<forall>r. rj_phase j = ReplayFinished r \<longrightarrow> r = from_durable_snapshot L nfc blake3 (rj_snapshot j))
    \<and> (\<forall>b. rp_budget sys = Some b \<longrightarrow> cb_available b + (\<Sum>j\<leftarrow>rp_jobs sys. held (rj_phase j)) = cb_total b)
    \<and> (\<exists>sys'. (replay_step L nfc blake3)\<^sup>*\<^sup>* sys sys' \<and> map rj_phase (rp_jobs sys') =
        map (\<lambda>j. ReplayFinished (from_durable_snapshot L nfc blake3 (rj_snapshot j))) (rp_jobs sys))"
proof -
  note inv = replay_reachable_inv [OF assms(2, 1)]
  from all_can_finish [OF assms(1) inv] obtain sys' where
    run: "(replay_step L nfc blake3)\<^sup>*\<^sup>* sys sys'" and fin: "all_finished sys'" by blast
  from replay_inv_steps [OF run assms(1) inv] fin have "map rj_phase (rp_jobs sys') =
      map (\<lambda>j. ReplayFinished (from_durable_snapshot L nfc blake3 (rj_snapshot j))) (rp_jobs sys')"
    by (fastforce simp: replay_inv_def all_finished_def list_all_iff job_inv_def)
  also have "\<dots> = map (\<lambda>(_, sn). ReplayFinished (from_durable_snapshot L nfc blake3 sn)) (map job_of (rp_jobs sys'))"
    by (simp add: job_of_def)
  also have "\<dots> = map (\<lambda>j. ReplayFinished (from_durable_snapshot L nfc blake3 (rj_snapshot j))) (rp_jobs sys)"
    unfolding jobs_steps [OF run] by (simp add: job_of_def)
  finally show ?thesis
    using run inv by (auto simp: replay_inv_def budget_inv_def job_inv_def held_total_def comp_def)
qed

text \<open>
  Two reconstructions of the example session on a machine with two processors, so with a budget of one
  permit: the first has it and the second sleeps.
\<close>

definition xs_job :: "replay_phase \<Rightarrow> replay_job" where
  "xs_job ph = \<lparr>rj_config = \<lparr>hr_worker_count = None, hr_batch_size = 1, hr_parallel_threshold = 1\<rparr>,
     rj_snapshot = xs_snapshot, rj_phase = ph\<rparr>"

definition xs_replays :: "replay_phase \<Rightarrow> replay_phase \<Rightarrow> nat \<Rightarrow> replay_system" where
  "xs_replays a b n = \<lparr>rp_budget = Some \<lparr>cb_available = n, cb_total = 1\<rparr>, rp_jobs = [xs_job a, xs_job b]\<rparr>"

lemma xs_gui_open: "gui_open (with_state Frozen Map.empty xs_open) = Ok xs_open"
  by (simp add: gui_open_def lifecycle_op_def open_election_def transition_def with_state_def xs_open_def ex_lifecycle_def)

lemma xs_needs_permit: "needs_permit toy_lib id zero_digest (xs_job ph)"
proof -
  have "batch_ranges 1 1 \<noteq> []" by (simp add: batch_ranges_def batch_ranges_from.simps [of _ _ 0])
  then have "parallel_verify_packages toy_lib zero_digest [ex_vote_bytes] a v (rj_config (xs_job ph)) None [] = None" for a v
    by (simp add: parallel_verify_packages_def xs_job_def resolve_workers_def)
  then show ?thesis
    by (simp add: needs_permit_def reconstruct_parallel_inner_def and_then_later_def xs_artifacts_decode xs_new xs_gui_open
        replay_packages_parallel_def uses_parallel_path_def effective_worker_hint_def xs_job_def xs_snapshot_def)
qed

lemma xs_second_sleeps:
  "replay_reachable toy_lib id zero_digest (xs_replays ReplayRequesting ReplayRequesting 1) (xs_replays (ReplayRunning (Some 1) []) ReplaySleeping 0)"
proof -
  let ?step = "replay_step toy_lib id zero_digest"
  have set: "(xs_job a)\<lparr>rj_phase := b\<rparr> = xs_job b" "rj_phase (xs_job a) = a" for a b by (simp_all add: xs_job_def)
  have "?step (xs_replays ReplayRequesting ReplayRequesting 1)
      ((xs_replays ReplayRequesting ReplayRequesting 1)\<lparr>rp_budget := Some \<lparr>cb_available = 0, cb_total = 1\<rparr>,
        rp_jobs := set_phase 0 (ReplayRunning (Some 1) []) (rp_jobs (xs_replays ReplayRequesting ReplayRequesting 1))\<rparr>)"
    by (rule replay_acquire) (simp_all add: xs_replays_def set xs_needs_permit acquire_up_to_def)
  then have "?step (xs_replays ReplayRequesting ReplayRequesting 1) (xs_replays (ReplayRunning (Some 1) []) ReplayRequesting 0)"
    by (simp add: xs_replays_def set_phase_def set)
  moreover have "?step (xs_replays (ReplayRunning (Some 1) []) ReplayRequesting 0)
      ((xs_replays (ReplayRunning (Some 1) []) ReplayRequesting 0)\<lparr>
        rp_jobs := set_phase 1 ReplaySleeping (rp_jobs (xs_replays (ReplayRunning (Some 1) []) ReplayRequesting 0))\<rparr>)"
    by (rule replay_sleep) (simp_all add: xs_replays_def set xs_needs_permit acquire_up_to_def)
  then have "?step (xs_replays (ReplayRunning (Some 1) []) ReplayRequesting 0) (xs_replays (ReplayRunning (Some 1) []) ReplaySleeping 0)"
    by (simp add: xs_replays_def set_phase_def set)
  moreover have "replay_start (xs_replays ReplayRequesting ReplayRequesting 1)"
    by (auto simp: replay_start_def xs_replays_def xs_job_def global_crypto_budget_def usize_max_def intro!: exI [of _ "Some 2"])
  ultimately show ?thesis
    unfolding replay_reachable_def by (intro conjI rtranclp_trans [OF r_into_rtranclp r_into_rtranclp]) auto
qed

theorem parallel_reconstruction_serial_witness:
  "\<exists>sys'. (replay_step toy_lib id zero_digest)\<^sup>*\<^sup>* (xs_replays (ReplayRunning (Some 1) []) ReplaySleeping 0) sys'
     \<and> map rj_phase (rp_jobs sys') = replicate 2 (ReplayFinished (from_durable_snapshot toy_lib id zero_digest xs_snapshot))"
  using parallel_reconstruction_serial [OF toy_lib_sound xs_second_sleeps]
  by (simp add: xs_replays_def xs_job_def numeral_2_eq_2)

section \<open>The inbox\<close>

text \<open>
  In every reachable session the digest index answers exactly as the linear
  search of the transcript for the earliest decision on the digest would: the consistency errors of the
  index are never raised, an unknown digest is unknown, and a known one gives its recorded rejection, or
  a duplicate when it had been accepted.
\<close>

lemma inbox_index_is_search:
  assumes "gui_reachable L nfc blake3 s"
  shows "indexed_inbox_reconciliation_result d s =
    Ok (map_option (\<lambda>e. intake_result d (if is_accepted (bd_outcome e) then Rejected DuplicateNullifier else bd_outcome e))
      (find (\<lambda>e. bd_package_digest e = d) (vt_decisions (gs_transcript s))))"
  using indexed_result_search [OF gui_reachable_inv [OF assms]]
  by (simp add: earliest_decision_def repeated_outcome_def)

text \<open>
  Reconciling a package from the inbox, while voting is open or in
  the drain after it, always gives a decision, and reconciling the same package again leaves the session
  as it is and answers with the same rejection, or with a duplicate if the package had been accepted.
\<close>

lemma inbox_reconciliation_idempotent:
  assumes "gui_reachable L nfc blake3 s" and "lc_state (gs_lifecycle s) \<in> {Open, Closed}"
    and "length (gs_packages s) < 2 ^ 64"
  shows "\<exists>outcome s'. reconcile_accepted_package_bytes_from_inbox L blake3 bs s =
        Ok (intake_result (package_digest blake3 bs) outcome, s')
    \<and> reconcile_accepted_package_bytes_from_inbox L blake3 bs s' =
        Ok (intake_result (package_digest blake3 bs)
              (if is_accepted outcome then Rejected DuplicateNullifier else outcome), s')"
  using reconcile_twice [OF gui_reachable_inv [OF assms(1)] assms(2, 3)] by (simp add: repeated_outcome_def)

section \<open>Disclosure\<close>

text \<open>
  C37: Before the close nothing that a session shows depends on the ballots: two
  sessions of the same election in the same lifecycle state, with whatever ballots each has received,
  give the same tally error, the same participation summary, without any count, and the same election
  summary.
\<close>

theorem sealed_before_close:
  assumes "gs_artifacts s = gs_artifacts s'" and "gs_lifecycle s = gs_lifecycle s'"
    and "lc_state (gs_lifecycle s) \<in> {Draft, Frozen, Open}"
  shows "gui_tally s = gui_tally s' \<and> \<not> is_ok (gui_tally s)
    \<and> participation_summary s = participation_summary s'
    \<and> pt_accepted_ballots (participation_summary s) = None
    \<and> pt_participation_basis_points (participation_summary s) = None
    \<and> pt_remaining_eligible_capacity (participation_summary s) = None
    \<and> pt_coarse_bucket (participation_summary s) = None
    \<and> gui_session_summary s = gui_session_summary s'"
  using assms by (auto simp: gui_tally_def participation_summary_def gui_session_summary_def Let_def is_ok_def)

theorem sealed_before_close_witness:
  "participation_summary xs_open = participation_summary xs_voted \<and> \<not> is_ok (gui_tally xs_voted)"
  using sealed_before_close [of xs_open xs_voted] by (auto simp: xs_states xs_same)

text \<open>
  C38: After the close the participation summary is exact, with no wrap-around of the
  64-bit arithmetic: the counts are the registry size and the number of accepted ballots, the remaining
  capacity is their difference, at least zero, and the participation is the floor of the ratio in basis
  points, at most 10000.
\<close>

theorem participation_exact:
  assumes "gui_reachable L nfc blake3 s" and "lc_state (gs_lifecycle s) \<in> {Closed, Verified, Finalized}"
    and "length (gs_packages s) < 2 ^ 64"
  shows "\<exists>eligible accepted. eligible = length (rs_entries (ga_registry (gs_artifacts s)))
    \<and> accepted = accepted_count (gs_transcript s)
    \<and> unat (pt_eligible_voters (participation_summary s)) = eligible
    \<and> map_option unat (pt_accepted_ballots (participation_summary s)) = Some accepted
    \<and> map_option unat (pt_remaining_eligible_capacity (participation_summary s)) = Some (eligible - accepted)
    \<and> map_option unat (pt_participation_basis_points (participation_summary s)) =
        Some (min 10000 (accepted * 10000 div eligible))"
proof -
  let ?n = "length (rs_entries (ga_registry (gs_artifacts s)))" and ?k = "length (bl_accepted_ballots (gs_ledger s))"
  have inv: "gui_inv L blake3 s" by (rule gui_reachable_inv [OF assms(1)])
  have k: "accepted_count (gs_transcript s) = ?k" "?k \<le> length (gs_packages s)"
    using accepted_ballots_count [OF inv] by simp_all
  have n: "0 < ?n" "?n \<le> 4096" using registry_size [OF assms(1)] by auto
  have un: "unat (u64_or_max ?n) = ?n" "unat (u64_or_max ?k) = ?k" using n k assms(3) by simp_all
  then have "u64_or_max ?n \<noteq> 0" using n(1) by (metis unat_0 less_numeral_extra(3))
  with participation_basis_points_exact [of "u64_or_max ?n" "u64_or_max ?k"] un n
  have "unat (participation_basis_points (u64_or_max ?k) (u64_or_max ?n)) = min 10000 (?k * 10000 div ?n)" by simp
  with assms(2) k(1) un show ?thesis
    by (auto simp: participation_summary_def saturating_sub_u64_unat Let_def)
qed

theorem participation_exact_witness:
  "\<exists>eligible accepted. eligible = length (rs_entries (ga_registry (gs_artifacts xs_closed)))
    \<and> accepted = accepted_count (gs_transcript xs_closed)
    \<and> unat (pt_eligible_voters (participation_summary xs_closed)) = eligible
    \<and> map_option unat (pt_accepted_ballots (participation_summary xs_closed)) = Some accepted
    \<and> map_option unat (pt_remaining_eligible_capacity (participation_summary xs_closed)) = Some (eligible - accepted)
    \<and> map_option unat (pt_participation_basis_points (participation_summary xs_closed)) =
        Some (min 10000 (accepted * 10000 div eligible))"
  by (rule participation_exact [OF xs_reachable(3)]) (simp_all add: xs_states)

text \<open>
  After the close a reachable session always has a tally, and it is the count of
  its accepted decisions: the number of accepted ballots is the number of accepted decisions of the
  transcript, and each candidate, in the order of the candidate set, has as many approvals as accepted
  ballots name it.
\<close>

lemma session_tally_counts:
  assumes "gui_reachable L nfc blake3 s" and "lc_state (gs_lifecycle s) \<in> {Closed, Verified, Finalized}"
    and "length (gs_packages s) < 2 ^ 64"
  shows "\<exists>t. gui_tally s = Ok t \<and> unat (gt_accepted_ballots t) = accepted_count (gs_transcript s)
    \<and> map (unat \<circ> gc_approvals) (gt_counts t) =
        map (approvals_of (map ab_payload (bl_accepted_ballots (gs_ledger s))) \<circ> cd_id)
          (cs_candidates (ga_candidates (gs_artifacts s)))"
  using reachable_direct_tally [OF assms(1, 3)] assms(2)
  by (auto simp: gui_tally_def gui_direct_tally_def gui_summarize_tally_def comp_def Let_def)

end
