(* ===== verification/Transport_Messages.thy ===== *)
theory Transport_Messages
  imports Transport_Binding
begin

text \<open>
  The messages of the private transport (\<open>crates/gui-core/src/transport.rs\<close>): authority roots, signed
  transport descriptors, the store that pins one descriptor per election and generation, sealed ballot
  envelopes and authenticated receipts, with their canonical encodings. Ed25519 and HPKE are third-party
  code: the records \<open>ed25519\<close> and \<open>hpke\<close> hold the functions that the source calls.
\<close>

section \<open>Constants, errors and dependencies\<close>

definition DESCRIPTOR_VERSION :: u64 where "DESCRIPTOR_VERSION = 1"
definition ENVELOPE_VERSION :: u64 where "ENVELOPE_VERSION = 1"
definition PROTOCOL_ID :: rstring where "PROTOCOL_ID = lit ''tari-cc-private-ballot/private-transport/v1''"
definition HPKE_SUITE_ID :: rstring where
  "HPKE_SUITE_ID = lit ''DHKEM(X25519,HKDF-SHA256)/HKDF-SHA256/ChaCha20Poly1305''"
definition MAX_ENDPOINTS :: nat where "MAX_ENDPOINTS = 8"
definition MAX_ENDPOINT_BYTES :: nat where "MAX_ENDPOINT_BYTES = 512"
definition MAX_KEY_ID_BYTES :: nat where "MAX_KEY_ID_BYTES = 128"
definition MAX_ENVELOPE_BYTES :: nat where "MAX_ENVELOPE_BYTES = 1048576"
definition HPKE_INFO :: bytes where "HPKE_INFO = lit ''tari-cc-private-ballot/private-ballot-envelope/v1''"
definition AUTHENTICATED_RECEIPT_VERSION :: u64 where "AUTHENTICATED_RECEIPT_VERSION = 2"
definition AUTHENTICATED_RECEIPT_DOMAIN :: bytes where
  "AUTHENTICATED_RECEIPT_DOMAIN = lit ''tari-cc-private-ballot/transport-receipt/v2'' @ [0]"
definition MAX_RECEIPT_KEY_ID_BYTES :: nat where "MAX_RECEIPT_KEY_ID_BYTES = 128"
definition MAX_AUTHENTICATED_RECEIPT_BYTES :: nat where "MAX_AUTHENTICATED_RECEIPT_BYTES = 4 * 1024"
definition PRODUCTION_TRANSPORT_ROOT_UNPROVISIONED_KEY_ID :: rstring where
  "PRODUCTION_TRANSPORT_ROOT_UNPROVISIONED_KEY_ID = lit ''PRODUCTION_TRANSPORT_ROOT_NOT_YET_PROVISIONED''"

lemmas message_limits = MAX_ENDPOINTS_def MAX_ENDPOINT_BYTES_def MAX_KEY_ID_BYTES_def MAX_ENVELOPE_BYTES_def
  MAX_RECEIPT_KEY_ID_BYTES_def MAX_AUTHENTICATED_RECEIPT_BYTES_def

datatype transport_error =
    InvalidDescriptor | UntrustedRoot | ProductionAuthorityNotProvisioned | DescriptorConflict | UnsupportedRoute
  | InvalidEnvelope | WrongElection | WrongDescriptor | WrongGatewayKey | CryptoFailure | OversizedPayload
  | TransportUnavailable

type_synonym 'a tresult = "('a, transport_error) result"

abbreviation bad_descriptor :: "'a presult \<Rightarrow> 'a tresult" where
  "bad_descriptor \<equiv> map_err (\<lambda>_. InvalidDescriptor)"

abbreviation bad_envelope :: "'a presult \<Rightarrow> 'a tresult" where
  "bad_envelope \<equiv> map_err (\<lambda>_. InvalidEnvelope)"

text \<open>\<open>ed25519_dalek\<close>: verification keys, strict and plain verification, and signing, to 64 bytes.\<close>

record ('vk, 'sk) ed25519 =
  ed_from_bytes :: "bytes32 \<Rightarrow> 'vk option"
  ed_verify_strict :: "'vk \<Rightarrow> bytes \<Rightarrow> bytes \<Rightarrow> bool"
  ed_verify :: "'vk \<Rightarrow> bytes \<Rightarrow> bytes \<Rightarrow> bool"
  ed_sign :: "'sk \<Rightarrow> bytes \<Rightarrow> bytes"

text \<open>
  \<open>hpke\<close> in base mode. A sender takes the randomness of its setup as an argument; \<open>hk_seal\<close> is setup
  followed by the one seal of a context, \<open>hk_open\<close> likewise.
\<close>

record ('pk, 'sk, 'rnd) hpke =
  hk_public_from_bytes :: "bytes32 \<Rightarrow> 'pk option"
  hk_private_from_bytes :: "bytes32 \<Rightarrow> 'sk option"
  hk_encapped_ok :: "bytes32 \<Rightarrow> bool"
  hk_seal :: "'pk \<Rightarrow> 'rnd \<Rightarrow> bytes \<Rightarrow> bytes \<Rightarrow> bytes \<Rightarrow> (bytes32 \<times> bytes) option"
  hk_open :: "'sk \<Rightarrow> bytes32 \<Rightarrow> bytes \<Rightarrow> bytes \<Rightarrow> bytes \<Rightarrow> bytes option"

section \<open>Authority roots\<close>

datatype transport_authority_root_v1 =
    ProductionNotProvisioned rstring
  | Pinned rstring bytes32

primrec root_key_id_of :: "transport_authority_root_v1 \<Rightarrow> rstring" where
  "root_key_id_of (ProductionNotProvisioned key_id) = key_id"
| "root_key_id_of (Pinned key_id _) = key_id"

primrec verifying_key :: "('vk, 'sk) ed25519 \<Rightarrow> transport_authority_root_v1 \<Rightarrow> 'vk tresult" where
  "verifying_key ed (ProductionNotProvisioned _) = Err ProductionAuthorityNotProvisioned"
| "verifying_key ed (Pinned _ public_key) = ok_or UntrustedRoot (ed_from_bytes ed public_key)"

definition production_transport_authority_root_v1 :: transport_authority_root_v1 where
  "production_transport_authority_root_v1 = ProductionNotProvisioned PRODUCTION_TRANSPORT_ROOT_UNPROVISIONED_KEY_ID"

definition provision_production_transport_authority_root_v1 ::
  "('vk, 'sk) ed25519 \<Rightarrow> rstring \<Rightarrow> bytes32 \<Rightarrow> transport_authority_root_v1 tresult" where
  "provision_production_transport_authority_root_v1 ed key_id public_key =
     (if key_id = [] \<or> key_id = PRODUCTION_TRANSPORT_ROOT_UNPROVISIONED_KEY_ID then Err UntrustedRoot
      else if arr_bytes public_key = replicate 32 0 then Err UntrustedRoot
      else and_then (ok_or UntrustedRoot (ed_from_bytes ed public_key)) (\<lambda>_. Ok (Pinned key_id public_key)))"

record transport_authority_root_set_v1 =
  ar_current :: transport_authority_root_v1
  ar_historical :: "rstring \<rightharpoonup> transport_authority_root_v1"
  ar_revoked :: "rstring set"

definition root_set_new :: "transport_authority_root_v1 \<Rightarrow> transport_authority_root_set_v1" where
  "root_set_new current = \<lparr>ar_current = current, ar_historical = Map.empty, ar_revoked = {}\<rparr>"

definition add_historical_root ::
  "transport_authority_root_v1 \<Rightarrow> transport_authority_root_set_v1 \<Rightarrow> transport_authority_root_set_v1 tresult" where
  "add_historical_root root s =
     (if root_key_id_of root = root_key_id_of (ar_current s) \<or> ar_historical s (root_key_id_of root) \<noteq> None then
        Err InvalidDescriptor
      else Ok (s\<lparr>ar_historical := (ar_historical s)(root_key_id_of root \<mapsto> root)\<rparr>))"

definition revoke_root_id :: "rstring \<Rightarrow> transport_authority_root_set_v1 \<Rightarrow> transport_authority_root_set_v1" where
  "revoke_root_id key_id s = s\<lparr>ar_revoked := insert key_id (ar_revoked s)\<rparr>"

definition lookup_root :: "rstring \<Rightarrow> transport_authority_root_set_v1 \<Rightarrow> transport_authority_root_v1 tresult" where
  "lookup_root root_key_id s =
     (if root_key_id \<in> ar_revoked s then Err UntrustedRoot
      else if root_key_id = root_key_id_of (ar_current s) then Ok (ar_current s)
      else ok_or UntrustedRoot (ar_historical s root_key_id))"

definition verify_by_root_id ::
  "('vk, 'sk) ed25519 \<Rightarrow> rstring \<Rightarrow> bytes \<Rightarrow> bytes \<Rightarrow> transport_authority_root_set_v1 \<Rightarrow> unit tresult" where
  "verify_by_root_id ed root_key_id message signature s =
     and_then (lookup_root root_key_id s) (\<lambda>root.
     and_then (verifying_key ed root) (\<lambda>key.
     if ed_verify_strict ed key message signature then Ok () else Err CryptoFailure))"

section \<open>Descriptors\<close>

datatype transport_route_policy_v1 = OfflineOnly | ManagedTorOrOffline | RelayOrOffline

primrec route_code :: "transport_route_policy_v1 \<Rightarrow> u64" where
  "route_code OfflineOnly = 0"
| "route_code ManagedTorOrOffline = 1"
| "route_code RelayOrOffline = 2"

definition route_from_code :: "u64 \<Rightarrow> transport_route_policy_v1 tresult" where
  "route_from_code code =
     (if code = 0 then Ok OfflineOnly
      else if code = 1 then Ok ManagedTorOrOffline
      else if code = 2 then Ok RelayOrOffline
      else Err InvalidDescriptor)"

record padding_policy_v1 =
  pp_id :: rstring
  pp_padded_bytes :: nat

record batch_policy_v1 =
  bo_id :: rstring
  bo_accepted_unique_floor :: u64

record transport_descriptor_v1 =
  td_election_id :: bytes
  td_manifest_hash :: manifest_hash
  td_generation :: u64
  td_route :: transport_route_policy_v1
  td_onion_endpoints :: "rstring list"
  td_relay_endpoints :: "rstring list"
  td_gateway_public_key :: bytes32
  td_gateway_key_id :: rstring
  td_receipt_verification_keys :: "bytes32 list"
  td_padding :: padding_policy_v1
  td_batch :: batch_policy_v1
  td_validity_end_epoch :: "u64 option"
  td_root_key_id :: rstring
  td_signature :: bytes

definition descriptor_validate_fields :: "transport_descriptor_v1 \<Rightarrow> unit tresult" where
  "descriptor_validate_fields d =
     (if td_election_id d = [] \<or> length (td_election_id d) > 128
         \<or> td_gateway_key_id d = [] \<or> length (td_gateway_key_id d) > MAX_KEY_ID_BYTES
         \<or> td_root_key_id d = [] \<or> length (td_root_key_id d) > MAX_KEY_ID_BYTES
         \<or> pp_id (td_padding d) = [] \<or> bo_id (td_batch d) = []
         \<or> pp_padded_bytes (td_padding d) < 4 \<or> pp_padded_bytes (td_padding d) > MAX_ENVELOPE_BYTES
         \<or> length (td_receipt_verification_keys d) > MAX_ENDPOINTS then
        Err InvalidDescriptor
      else if length (td_onion_endpoints d) > MAX_ENDPOINTS \<or> length (td_relay_endpoints d) > MAX_ENDPOINTS
         \<or> list_ex (\<lambda>v. v = [] \<or> length v > MAX_ENDPOINT_BYTES) (td_onion_endpoints d @ td_relay_endpoints d) then
        Err InvalidDescriptor
      else Ok ())"

definition write_text_vec :: "rstring list \<Rightarrow> cbor_writer \<Rightarrow> cbor_writer presult" where
  "write_text_vec values w = and_then (write_array_len (length values) w) (write_all write_text_string values)"

definition write_key_vec :: "bytes32 list \<Rightarrow> cbor_writer \<Rightarrow> cbor_writer presult" where
  "write_key_vec values w =
     and_then (write_array_len (length values) w) (write_all (\<lambda>key. write_byte_string (arr_bytes key)) values)"

definition descriptor_write :: "bool \<Rightarrow> transport_descriptor_v1 \<Rightarrow> cbor_writer \<Rightarrow> cbor_writer tresult" where
  "descriptor_write include_signature d w =
     and_then (descriptor_validate_fields d) (\<lambda>_. bad_descriptor (
     and_then (write_array_len (if include_signature then 17 else 16) w) (\<lambda>w.
     let w = write_unsigned DESCRIPTOR_VERSION w in
     and_then (write_text_string PROTOCOL_ID w) (\<lambda>w.
     and_then (write_byte_string (td_election_id d) w) (\<lambda>w.
     and_then (write_byte_string (arr_bytes (manifest_hash_bytes (td_manifest_hash d))) w) (\<lambda>w.
     let w = write_unsigned (td_generation d) w;
         w = write_unsigned (route_code (td_route d)) w in
     and_then (write_text_vec (td_onion_endpoints d) w) (\<lambda>w.
     and_then (write_text_vec (td_relay_endpoints d) w) (\<lambda>w.
     and_then (write_byte_string (arr_bytes (td_gateway_public_key d)) w) (\<lambda>w.
     and_then (write_text_string (td_gateway_key_id d) w) (\<lambda>w.
     and_then (write_key_vec (td_receipt_verification_keys d) w) (\<lambda>w.
     and_then (write_text_string (pp_id (td_padding d)) w) (\<lambda>w.
     let w = write_unsigned (word_of_nat (pp_padded_bytes (td_padding d))) w in
     and_then (write_text_string (bo_id (td_batch d)) w) (\<lambda>w.
     let w = write_unsigned (bo_accepted_unique_floor (td_batch d)) w;
         w = write_unsigned (case td_validity_end_epoch d of Some e \<Rightarrow> e | None \<Rightarrow> 0) w in
     and_then (write_text_string HPKE_SUITE_ID w) (\<lambda>w.
     and_then (write_text_string (td_root_key_id d) w) (\<lambda>w.
     if include_signature then write_byte_string (td_signature d) w else Ok w)))))))))))))))"

definition descriptor_to_canonical_cbor :: "transport_descriptor_v1 \<Rightarrow> bytes tresult" where
  "descriptor_to_canonical_cbor d = and_then (descriptor_write True d new_writer) (\<lambda>w. Ok (into_bytes w))"

definition unsigned_canonical_cbor :: "transport_descriptor_v1 \<Rightarrow> bytes tresult" where
  "unsigned_canonical_cbor d = and_then (descriptor_write False d new_writer) (\<lambda>w. Ok (into_bytes w))"

definition signing_message :: "transport_descriptor_v1 \<Rightarrow> bytes tresult" where
  "signing_message d = and_then (unsigned_canonical_cbor d) (\<lambda>bs. Ok (domain_separated_input TransportDescriptorV1 bs))"

definition descriptor_fingerprint :: "(bytes \<Rightarrow> bytes32) \<Rightarrow> transport_descriptor_v1 \<Rightarrow> bytes32 tresult" where
  "descriptor_fingerprint blake3 d =
     and_then (descriptor_to_canonical_cbor d) (\<lambda>bs.
     Ok (hash_domain_separated (Blake3HashProviderV1 blake3) TransportDescriptorV1 bs))"

definition sign_descriptor ::
  "('vk, 'sk) ed25519 \<Rightarrow> 'sk \<Rightarrow> transport_descriptor_v1 \<Rightarrow> transport_descriptor_v1 tresult" where
  "sign_descriptor ed signing_key d =
     (let d = d\<lparr>td_signature := replicate 64 0\<rparr> in
      and_then (descriptor_validate_fields d) (\<lambda>_.
      and_then (signing_message d) (\<lambda>message.
      Ok (d\<lparr>td_signature := ed_sign ed signing_key message\<rparr>))))"

definition descriptor_verify ::
  "('vk, 'sk) ed25519 \<Rightarrow> transport_authority_root_v1 \<Rightarrow> manifest_hash \<Rightarrow> transport_descriptor_v1 \<Rightarrow> unit tresult" where
  "descriptor_verify ed root expected_manifest d =
     and_then (descriptor_validate_fields d) (\<lambda>_.
     if td_manifest_hash d \<noteq> expected_manifest \<or> td_root_key_id d \<noteq> root_key_id_of root then Err WrongElection
     else
       and_then (verifying_key ed root) (\<lambda>key.
       and_then (signing_message d) (\<lambda>message.
       if ed_verify_strict ed key message (td_signature d) then Ok () else Err UntrustedRoot)))"

definition verify_descriptor ::
  "('vk, 'sk) ed25519 \<Rightarrow> transport_descriptor_v1 \<Rightarrow> manifest_hash \<Rightarrow> transport_authority_root_set_v1 \<Rightarrow> unit tresult" where
  "verify_descriptor ed d expected_manifest s =
     and_then (lookup_root (td_root_key_id d) s) (\<lambda>root. descriptor_verify ed root expected_manifest d)"

text \<open>A byte string of a fixed length, for the 64-byte signatures; \<open>read_fixed\<close> is the one of 32.\<close>

definition read_fixed_n :: "nat \<Rightarrow> cbor_reader \<Rightarrow> bytes read" where
  "read_fixed_n n r =
     and_then (read_byte_string r) (\<lambda>(bs, r). and_then (if length bs = n then Ok bs else Err InvalidData) (\<lambda>bs. Ok (bs, r)))"

definition read_text_vec :: "cbor_reader \<Rightarrow> rstring list read" where
  "read_text_vec r =
     and_then (read_array_len r) (\<lambda>(len, r).
     if len > MAX_ENDPOINTS then Err InvalidData else read_many read_text_string len r)"

definition read_key_vec :: "cbor_reader \<Rightarrow> bytes32 list read" where
  "read_key_vec r =
     and_then (read_array_len r) (\<lambda>(len, r).
     if len > MAX_ENDPOINTS then Err InvalidData else read_many read_fixed len r)"

definition read_route :: "cbor_reader \<Rightarrow> transport_route_policy_v1 read" where
  "read_route r =
     and_then (read_unsigned r) (\<lambda>(code, r).
     and_then (map_err (\<lambda>_. InvalidData) (route_from_code code)) (\<lambda>route. Ok (route, r)))"

text \<open>Every error of the reader becomes \<open>InvalidDescriptor\<close>, as each call of the source maps it.\<close>

definition read_descriptor :: "cbor_reader \<Rightarrow> transport_descriptor_v1 read" where
  "read_descriptor r =
     and_then (read_array_len r) (\<lambda>(n, r).
     if n \<noteq> 17 then Err InvalidData
     else
       and_then (read_unsigned r) (\<lambda>(version, r).
       and_then (read_text_string r) (\<lambda>(protocol, r).
       if version \<noteq> DESCRIPTOR_VERSION \<or> protocol \<noteq> PROTOCOL_ID then Err InvalidData
       else
         and_then (read_byte_string r) (\<lambda>(election_id, r).
         and_then (read_fixed r) (\<lambda>(manifest_hash, r).
         and_then (read_unsigned r) (\<lambda>(generation, r).
         and_then (read_route r) (\<lambda>(route, r).
         and_then (read_text_vec r) (\<lambda>(onion_endpoints, r).
         and_then (read_text_vec r) (\<lambda>(relay_endpoints, r).
         and_then (read_fixed r) (\<lambda>(gateway_public_key, r).
         and_then (read_text_string r) (\<lambda>(gateway_key_id, r).
         and_then (read_key_vec r) (\<lambda>(receipt_verification_keys, r).
         and_then (read_text_string r) (\<lambda>(padding_id, r).
         and_then (read_unsigned r) (\<lambda>(padded, r).
         and_then (ok_or InvalidData (usize_of_u64 padded)) (\<lambda>padded_bytes.
         and_then (read_text_string r) (\<lambda>(batch_id, r).
         and_then (read_unsigned r) (\<lambda>(accepted_unique_floor, r).
         and_then (read_unsigned r) (\<lambda>(validity, r).
         and_then (read_text_string r) (\<lambda>(suite, r).
         if suite \<noteq> HPKE_SUITE_ID then Err InvalidData
         else
           and_then (read_text_string r) (\<lambda>(root_key_id, r).
           and_then (read_fixed_n 64 r) (\<lambda>(signature, r).
           Ok (\<lparr>td_election_id = election_id, td_manifest_hash = ManifestHash manifest_hash,
                td_generation = generation, td_route = route, td_onion_endpoints = onion_endpoints,
                td_relay_endpoints = relay_endpoints, td_gateway_public_key = gateway_public_key,
                td_gateway_key_id = gateway_key_id, td_receipt_verification_keys = receipt_verification_keys,
                td_padding = \<lparr>pp_id = padding_id, pp_padded_bytes = padded_bytes\<rparr>,
                td_batch = \<lparr>bo_id = batch_id, bo_accepted_unique_floor = accepted_unique_floor\<rparr>,
                td_validity_end_epoch = (if validity \<noteq> 0 then Some validity else None),
                td_root_key_id = root_key_id, td_signature = signature\<rparr>, r))))))))))))))))))))))"

definition descriptor_from_canonical_cbor :: "bytes \<Rightarrow> transport_descriptor_v1 tresult" where
  "descriptor_from_canonical_cbor bytes =
     and_then (bad_descriptor (and_then (read_descriptor (new_reader bytes)) (\<lambda>(d, r). and_then (finish r) (\<lambda>_. Ok d)))) (\<lambda>d.
     and_then (descriptor_validate_fields d) (\<lambda>_.
     and_then (descriptor_to_canonical_cbor d) (\<lambda>reencoded.
     if reencoded \<noteq> bytes then Err InvalidDescriptor else Ok d)))"

section \<open>One descriptor per election and generation\<close>

record descriptor_consistency_store_v1 =
  dc_active :: "(bytes \<times> u64) \<rightharpoonup> bytes32"

definition consistency_new :: descriptor_consistency_store_v1 where
  "consistency_new = \<lparr>dc_active = Map.empty\<rparr>"

definition consistency_accept ::
  "('vk, 'sk) ed25519 \<Rightarrow> (bytes \<Rightarrow> bytes32) \<Rightarrow> transport_descriptor_v1 \<Rightarrow> transport_authority_root_v1 \<Rightarrow> manifest_hash \<Rightarrow>
   descriptor_consistency_store_v1 \<Rightarrow> (bytes32 \<times> descriptor_consistency_store_v1) tresult" where
  "consistency_accept ed blake3 d root manifest store =
     and_then (descriptor_verify ed root manifest d) (\<lambda>_.
     and_then (descriptor_fingerprint blake3 d) (\<lambda>fingerprint.
     let key = (td_election_id d, td_generation d) in
     case dc_active store key of
       Some existing \<Rightarrow> if existing \<noteq> fingerprint then Err DescriptorConflict else Ok (fingerprint, store)
     | None \<Rightarrow> Ok (fingerprint, store\<lparr>dc_active := (dc_active store)(key \<mapsto> fingerprint)\<rparr>)))"

definition verify_and_accept_descriptor ::
  "('vk, 'sk) ed25519 \<Rightarrow> (bytes \<Rightarrow> bytes32) \<Rightarrow> transport_descriptor_v1 \<Rightarrow> manifest_hash \<Rightarrow> transport_authority_root_set_v1 \<Rightarrow>
   descriptor_consistency_store_v1 \<Rightarrow> (bytes32 \<times> descriptor_consistency_store_v1) tresult" where
  "verify_and_accept_descriptor ed blake3 d expected_manifest roots store =
     and_then (lookup_root (td_root_key_id d) roots) (\<lambda>root.
     and_then (descriptor_verify ed root expected_manifest d) (\<lambda>_.
     consistency_accept ed blake3 d root expected_manifest store))"

section \<open>Ballot envelopes\<close>

record private_ballot_envelope_v1 =
  pe_manifest_hash :: manifest_hash
  pe_descriptor_fingerprint :: bytes32
  pe_gateway_key_id :: rstring
  pe_padding_policy_id :: rstring
  pe_encapsulated_key :: bytes32
  pe_ciphertext :: bytes

record envelope_opening_material_v1 =
  om_encapsulated_key :: bytes32
  om_ciphertext :: bytes
  om_aad :: bytes
  om_padded_bytes :: nat

definition envelope_aad :: "manifest_hash \<Rightarrow> bytes32 \<Rightarrow> rstring \<Rightarrow> rstring \<Rightarrow> bytes tresult" where
  "envelope_aad manifest fingerprint key_id policy = bad_envelope (
     and_then (write_array_len 6 new_writer) (\<lambda>w.
     let w = write_unsigned ENVELOPE_VERSION w in
     and_then (write_text_string PROTOCOL_ID w) (\<lambda>w.
     and_then (write_byte_string (arr_bytes (manifest_hash_bytes manifest)) w) (\<lambda>w.
     and_then (write_byte_string (arr_bytes fingerprint) w) (\<lambda>w.
     and_then (write_text_string key_id w) (\<lambda>w.
     and_then (write_text_string policy w) (\<lambda>w.
     Ok (into_bytes w))))))))"

text \<open>\<open>u32::to_be_bytes\<close> of a length cast to \<open>u32\<close>, and the padded plaintext.\<close>

definition length_prefix :: "nat \<Rightarrow> bytes" where
  "length_prefix n = be_bytes 4 (n mod 2 ^ 32)"

definition pad_payload :: "nat \<Rightarrow> bytes \<Rightarrow> bytes" where
  "pad_payload padded_bytes ballot_bytes =
     length_prefix (length ballot_bytes) @ ballot_bytes @ replicate (padded_bytes - (4 + length ballot_bytes)) 0"

definition envelope_seal ::
  "('pk, 'sk, 'rnd) hpke \<Rightarrow> (bytes \<Rightarrow> bytes32) \<Rightarrow> 'rnd \<Rightarrow> transport_descriptor_v1 \<Rightarrow> bytes \<Rightarrow> private_ballot_envelope_v1 tresult" where
  "envelope_seal H blake3 rnd d ballot_bytes =
     (let padded_bytes = pp_padded_bytes (td_padding d) in
      if (case checked_add_usize (length ballot_bytes) 4 of None \<Rightarrow> True | Some n \<Rightarrow> n > padded_bytes) then
        Err OversizedPayload
      else
        and_then (ok_or InvalidDescriptor (hk_public_from_bytes H (td_gateway_public_key d))) (\<lambda>public_key.
        and_then (descriptor_fingerprint blake3 d) (\<lambda>fingerprint.
        and_then (envelope_aad (td_manifest_hash d) fingerprint (td_gateway_key_id d) (pp_id (td_padding d))) (\<lambda>aad.
        and_then (ok_or CryptoFailure (hk_seal H public_key rnd HPKE_INFO (pad_payload padded_bytes ballot_bytes) aad))
          (\<lambda>(encapsulated_key, ciphertext).
        if length ciphertext > MAX_ENVELOPE_BYTES then Err OversizedPayload
        else
          Ok \<lparr>pe_manifest_hash = td_manifest_hash d, pe_descriptor_fingerprint = fingerprint,
              pe_gateway_key_id = td_gateway_key_id d, pe_padding_policy_id = pp_id (td_padding d),
              pe_encapsulated_key = encapsulated_key, pe_ciphertext = ciphertext\<rparr>)))))"

definition receiver_opening_material ::
  "(bytes \<Rightarrow> bytes32) \<Rightarrow> transport_descriptor_v1 \<Rightarrow> private_ballot_envelope_v1 \<Rightarrow> envelope_opening_material_v1 tresult" where
  "receiver_opening_material blake3 d e =
     (if pe_manifest_hash e \<noteq> td_manifest_hash d then Err WrongElection
      else
        and_then (descriptor_fingerprint blake3 d) (\<lambda>fingerprint.
        if pe_descriptor_fingerprint e \<noteq> fingerprint \<or> pe_gateway_key_id e \<noteq> td_gateway_key_id d
           \<or> pe_padding_policy_id e \<noteq> pp_id (td_padding d) then Err WrongDescriptor
        else if length (pe_ciphertext e) \<noteq> pp_padded_bytes (td_padding d) + 16 then Err InvalidEnvelope
        else
          and_then (envelope_aad (pe_manifest_hash e) (pe_descriptor_fingerprint e) (pe_gateway_key_id e)
            (pe_padding_policy_id e)) (\<lambda>aad.
          Ok \<lparr>om_encapsulated_key = pe_encapsulated_key e, om_ciphertext = pe_ciphertext e, om_aad = aad,
              om_padded_bytes = pp_padded_bytes (td_padding d)\<rparr>)))"

definition private_envelope_to_canonical_cbor :: "private_ballot_envelope_v1 \<Rightarrow> bytes tresult" where
  "private_envelope_to_canonical_cbor e = bad_envelope (
     and_then (write_array_len 7 new_writer) (\<lambda>w.
     let w = write_unsigned ENVELOPE_VERSION w in
     and_then (write_byte_string (arr_bytes (manifest_hash_bytes (pe_manifest_hash e))) w) (\<lambda>w.
     and_then (write_byte_string (arr_bytes (pe_descriptor_fingerprint e)) w) (\<lambda>w.
     and_then (write_text_string (pe_gateway_key_id e) w) (\<lambda>w.
     and_then (write_text_string (pe_padding_policy_id e) w) (\<lambda>w.
     and_then (write_byte_string (arr_bytes (pe_encapsulated_key e)) w) (\<lambda>w.
     and_then (write_byte_string (pe_ciphertext e) w) (\<lambda>w.
     Ok (into_bytes w)))))))))"

definition private_envelope_from_canonical_cbor :: "bytes \<Rightarrow> private_ballot_envelope_v1 tresult" where
  "private_envelope_from_canonical_cbor bytes =
     (if length bytes > MAX_ENVELOPE_BYTES then Err OversizedPayload
      else
        and_then (bad_envelope (read_array_len (new_reader bytes))) (\<lambda>(n, r).
        if n \<noteq> 7 then Err InvalidEnvelope
        else
          and_then (bad_envelope (read_unsigned r)) (\<lambda>(version, r).
          if version \<noteq> ENVELOPE_VERSION then Err InvalidEnvelope
          else
            and_then (bad_descriptor (read_fixed r)) (\<lambda>(manifest_hash, r).
            and_then (bad_descriptor (read_fixed r)) (\<lambda>(fingerprint, r).
            and_then (bad_envelope (read_text_string r)) (\<lambda>(gateway_key_id, r).
            and_then (bad_envelope (read_text_string r)) (\<lambda>(padding_policy_id, r).
            and_then (bad_descriptor (read_fixed r)) (\<lambda>(encapsulated_key, r).
            and_then (bad_envelope (read_byte_string r)) (\<lambda>(ciphertext, r).
            and_then (bad_envelope (finish r)) (\<lambda>_.
            let e = \<lparr>pe_manifest_hash = ManifestHash manifest_hash, pe_descriptor_fingerprint = fingerprint,
                     pe_gateway_key_id = gateway_key_id, pe_padding_policy_id = padding_policy_id,
                     pe_encapsulated_key = encapsulated_key, pe_ciphertext = ciphertext\<rparr> in
            if pe_gateway_key_id e = [] \<or> pe_padding_policy_id e = [] then Err InvalidEnvelope
            else
              and_then (private_envelope_to_canonical_cbor e) (\<lambda>reencoded.
              if reencoded \<noteq> bytes then Err InvalidEnvelope else Ok e)))))))))))"

section \<open>Receipts\<close>

datatype voter_receipt_state_v1 = ReceiptReceived | ReceiptAccepted | ReceiptRejected

datatype retry_status_v1 = NewDelivery | PreviousDeliveryAccepted | PreviousDeliveryRejected | GenericDuplicate

record voter_transport_receipt_v1 =
  vr_state :: voter_receipt_state_v1
  vr_retry_status :: retry_status_v1

record authenticated_transport_receipt_v1 =
  rc_receipt :: voter_transport_receipt_v1
  rc_descriptor_fingerprint :: bytes32
  rc_package_digest :: bytes32
  rc_batch_root :: "bytes32 option"
  rc_key_id :: rstring
  rc_signature :: bytes

primrec receipt_state_code :: "voter_receipt_state_v1 \<Rightarrow> u64" where
  "receipt_state_code ReceiptReceived = 0"
| "receipt_state_code ReceiptAccepted = 1"
| "receipt_state_code ReceiptRejected = 2"

definition receipt_state_from_code :: "u64 \<Rightarrow> voter_receipt_state_v1 tresult" where
  "receipt_state_from_code code =
     (if code = 0 then Ok ReceiptReceived else if code = 1 then Ok ReceiptAccepted
      else if code = 2 then Ok ReceiptRejected else Err InvalidEnvelope)"

primrec retry_status_code :: "retry_status_v1 \<Rightarrow> u64" where
  "retry_status_code NewDelivery = 0"
| "retry_status_code PreviousDeliveryAccepted = 1"
| "retry_status_code PreviousDeliveryRejected = 2"
| "retry_status_code GenericDuplicate = 3"

definition retry_status_from_code :: "u64 \<Rightarrow> retry_status_v1 tresult" where
  "retry_status_from_code code =
     (if code = 0 then Ok NewDelivery else if code = 1 then Ok PreviousDeliveryAccepted
      else if code = 2 then Ok PreviousDeliveryRejected else if code = 3 then Ok GenericDuplicate
      else Err InvalidEnvelope)"

text \<open>The casts \<open>state as u8\<close> and \<open>retry_status as u8\<close> give the positions of the constructors.\<close>

definition receipt_message :: "authenticated_transport_receipt_v1 \<Rightarrow> bytes" where
  "receipt_message c =
     AUTHENTICATED_RECEIPT_DOMAIN
     @ [ucast (receipt_state_code (vr_state (rc_receipt c))), ucast (retry_status_code (vr_retry_status (rc_receipt c)))]
     @ arr_bytes (rc_descriptor_fingerprint c) @ arr_bytes (rc_package_digest c)
     @ (case rc_batch_root c of Some root \<Rightarrow> 1 # arr_bytes root | None \<Rightarrow> [0])
     @ rc_key_id c"

definition sign_receipt ::
  "('vk, 'sk) ed25519 \<Rightarrow> 'sk \<Rightarrow> authenticated_transport_receipt_v1 \<Rightarrow> authenticated_transport_receipt_v1" where
  "sign_receipt ed signing_key c =
     (let c = c\<lparr>rc_signature := replicate 64 0\<rparr> in c\<lparr>rc_signature := ed_sign ed signing_key (receipt_message c)\<rparr>)"

text \<open>The loop over the keys: keys that do not decode are passed over.\<close>

definition receipt_verify_for_descriptor ::
  "('vk, 'sk) ed25519 \<Rightarrow> (bytes \<Rightarrow> bytes32) \<Rightarrow> transport_descriptor_v1 \<Rightarrow> authenticated_transport_receipt_v1 \<Rightarrow> unit tresult" where
  "receipt_verify_for_descriptor ed blake3 d c =
     and_then (descriptor_fingerprint blake3 d) (\<lambda>fingerprint.
     if rc_descriptor_fingerprint c \<noteq> fingerprint then Err WrongDescriptor
     else if list_ex (\<lambda>key_bytes. case ed_from_bytes ed key_bytes of
             None \<Rightarrow> False
           | Some key \<Rightarrow> ed_verify_strict ed key (receipt_message c) (rc_signature c)) (td_receipt_verification_keys d)
     then Ok () else Err CryptoFailure)"

definition receipt_to_canonical_cbor :: "authenticated_transport_receipt_v1 \<Rightarrow> bytes tresult" where
  "receipt_to_canonical_cbor c =
     (if rc_key_id c = [] \<or> length (rc_key_id c) > MAX_RECEIPT_KEY_ID_BYTES then Err InvalidEnvelope
      else bad_envelope (
        and_then (write_array_len 8 new_writer) (\<lambda>w.
        let w = write_unsigned AUTHENTICATED_RECEIPT_VERSION w;
            w = write_unsigned (receipt_state_code (vr_state (rc_receipt c))) w;
            w = write_unsigned (retry_status_code (vr_retry_status (rc_receipt c))) w in
        and_then (write_byte_string (arr_bytes (rc_descriptor_fingerprint c)) w) (\<lambda>w.
        and_then (write_byte_string (arr_bytes (rc_package_digest c)) w) (\<lambda>w.
        and_then (write_byte_string (case rc_batch_root c of Some root \<Rightarrow> arr_bytes root | None \<Rightarrow> []) w) (\<lambda>w.
        and_then (write_text_string (rc_key_id c) w) (\<lambda>w.
        and_then (write_byte_string (rc_signature c) w) (\<lambda>w.
        Ok (into_bytes w)))))))))"

definition batch_root_from_bytes :: "bytes \<Rightarrow> bytes32 option tresult" where
  "batch_root_from_bytes bs =
     (if length bs = 0 then Ok None
      else if length bs = 32 then and_then (ok_or InvalidEnvelope (array32 bs)) (\<lambda>root. Ok (Some root))
      else Err InvalidEnvelope)"

definition receipt_from_canonical_cbor :: "bytes \<Rightarrow> authenticated_transport_receipt_v1 tresult" where
  "receipt_from_canonical_cbor bytes =
     (if length bytes > MAX_AUTHENTICATED_RECEIPT_BYTES then Err OversizedPayload
      else
        and_then (bad_envelope (read_array_len (new_reader bytes))) (\<lambda>(n, r).
        if n \<noteq> 8 then Err InvalidEnvelope
        else
          and_then (bad_envelope (read_unsigned r)) (\<lambda>(version, r).
          if version \<noteq> AUTHENTICATED_RECEIPT_VERSION then Err InvalidEnvelope
          else
            and_then (bad_envelope (read_unsigned r)) (\<lambda>(state_code, r).
            and_then (receipt_state_from_code state_code) (\<lambda>state.
            and_then (bad_envelope (read_unsigned r)) (\<lambda>(status_code, r).
            and_then (retry_status_from_code status_code) (\<lambda>retry_status.
            and_then (bad_descriptor (read_fixed r)) (\<lambda>(fingerprint, r).
            and_then (bad_descriptor (read_fixed r)) (\<lambda>(package_digest, r).
            and_then (bad_envelope (read_byte_string r)) (\<lambda>(batch_root_bytes, r).
            and_then (batch_root_from_bytes batch_root_bytes) (\<lambda>batch_root.
            and_then (bad_envelope (read_text_string r)) (\<lambda>(key_id, r).
            and_then (bad_descriptor (read_fixed_n 64 r)) (\<lambda>(signature, r).
            and_then (bad_envelope (finish r)) (\<lambda>_.
            let c = \<lparr>rc_receipt = \<lparr>vr_state = state, vr_retry_status = retry_status\<rparr>,
                     rc_descriptor_fingerprint = fingerprint, rc_package_digest = package_digest,
                     rc_batch_root = batch_root, rc_key_id = key_id, rc_signature = signature\<rparr> in
            if rc_key_id c = [] \<or> length (rc_key_id c) > MAX_RECEIPT_KEY_ID_BYTES then Err InvalidEnvelope
            else
              and_then (receipt_to_canonical_cbor c) (\<lambda>reencoded.
              if reencoded \<noteq> bytes then Err InvalidEnvelope else Ok c)))))))))))))))"

section \<open>Opening an envelope\<close>

text \<open>The gateway's side (\<open>crates/transport-gateway/src/lib.rs\<close>); the receiver key is its secret bytes.\<close>

definition unpad_authenticated_payload :: "bytes \<Rightarrow> nat \<Rightarrow> bytes tresult" where
  "unpad_authenticated_payload padded expected =
     (if length padded \<noteq> expected \<or> length padded < 4 then Err InvalidEnvelope
      else
        let len = from_be_bytes (take 4 padded) in
        if (case checked_add_usize len 4 of None \<Rightarrow> True | Some stop \<Rightarrow> stop > length padded)
           \<or> list_ex (\<lambda>b. b \<noteq> 0) (drop (4 + len) padded) then Err InvalidEnvelope
        else Ok (take len (drop 4 padded)))"

definition open_envelope_bytes_v1 ::
  "('pk, 'sk, 'rnd) hpke \<Rightarrow> (bytes \<Rightarrow> bytes32) \<Rightarrow> private_ballot_envelope_v1 \<Rightarrow> transport_descriptor_v1 \<Rightarrow> bytes32 \<Rightarrow> bytes tresult" where
  "open_envelope_bytes_v1 H blake3 e d receiver_secret_bytes =
     and_then (receiver_opening_material blake3 d e) (\<lambda>material.
     and_then (ok_or WrongGatewayKey (hk_private_from_bytes H receiver_secret_bytes)) (\<lambda>receiver_secret.
     if \<not> hk_encapped_ok H (om_encapsulated_key material) then Err InvalidEnvelope
     else
       and_then (ok_or CryptoFailure (hk_open H receiver_secret (om_encapsulated_key material) HPKE_INFO
         (om_ciphertext material) (om_aad material))) (\<lambda>padded.
       unpad_authenticated_payload padded (om_padded_bytes material))))"

end
