(* ===== verification/Transport_Codecs.thy ===== *)
theory Transport_Codecs
  imports Transport_Messages
begin

text \<open>
  The canonical encodings of transport descriptors, envelopes and receipts: decoding accepts exactly
  the encodings of well-formed messages. What is signed and what the AEAD binds determine the fields.
\<close>

section \<open>Codecs of the parts\<close>

text \<open>The contract of a codec on slices, whose length always fits a \<open>usize\<close>.\<close>

locale slice_codec =
  fixes decode :: "bytes \<Rightarrow> ('v, 'e) result" and encode :: "'v \<Rightarrow> (bytes, 'e) result" and wf_obj :: "'v \<Rightarrow> bool"
  assumes decode_encode: "wf_obj v \<Longrightarrow> encode v = Ok bs \<Longrightarrow> fits bs \<Longrightarrow> decode bs = Ok v"
    and encode_decode: "decode bs = Ok v \<Longrightarrow> wf_obj v \<and> encode v = Ok bs"
begin

lemma decode_iff: "fits bs \<Longrightarrow> decode bs = Ok v \<longleftrightarrow> wf_obj v \<and> encode v = Ok bs"
  using decode_encode encode_decode by blast

lemma encode_inj: "wf_obj v \<Longrightarrow> wf_obj w \<Longrightarrow> encode v = Ok bs \<Longrightarrow> encode w = Ok bs \<Longrightarrow> fits bs \<Longrightarrow> v = w"
  by (metis decode_encode result.inject(1))

end

context cbor_codec
begin

lemma bounded_seq_codec:
  assumes "len_ok n"
  shows "cbor_codec (\<lambda>r. and_then (read_array_len r) (\<lambda>(len, r). if len > n then Err InvalidData else read_many rd_item len r))
     (enc_seq enc) (\<lambda>vs. length vs \<le> n \<and> list_all ok vs)"
proof unfold_locales
  fix vs pre rest
  assume "length vs \<le> n \<and> list_all ok vs" and "fits (pre @ enc_seq enc vs @ rest)"
  then show "and_then (read_array_len (rd pre (enc_seq enc vs @ rest)))
      (\<lambda>(len, r). if len > n then Err InvalidData else read_many rd_item len r) = Ok (vs, rd (pre @ enc_seq enc vs) rest)"
    using len_ok_le [OF _ assms, of "length vs"] read_many_enc [of vs "pre @ enc_len MAJOR_ARRAY (length vs)" rest]
    by (simp add: enc_seq_def array_c.read_enc)
next
  fix pre bs vs r
  assume "and_then (read_array_len (rd pre bs))
      (\<lambda>(len, r). if len > n then Err InvalidData else read_many rd_item len r) = Ok (vs, r)"
  then show "(length vs \<le> n \<and> list_all ok vs) \<and> (\<exists>rest. bs = enc_seq enc vs @ rest \<and> r = rd (pre @ enc_seq enc vs) rest)"
    by (auto simp: result_inv enc_seq_def dest!: array_c.enc_read enc_read_many split: if_splits)
qed

end

lemma endpoints_ok [simp]: "len_ok MAX_ENDPOINTS"
  by (simp add: message_limits)

interpretation text_vec_c: cbor_codec read_text_vec "enc_seq enc_text"
  "\<lambda>vs. length vs \<le> MAX_ENDPOINTS \<and> list_all (\<lambda>v. len_ok (length v) \<and> utf8_valid v) vs"
  unfolding read_text_vec_def [abs_def] by (rule text_c.bounded_seq_codec) simp

interpretation key_vec_c: cbor_codec read_key_vec "enc_seq (\<lambda>a. enc_bytes (arr_bytes a))"
  "\<lambda>vs. length vs \<le> MAX_ENDPOINTS \<and> list_all (\<lambda>_. True) vs"
  unfolding read_key_vec_def [abs_def] by (rule fixed_c.bounded_seq_codec) simp

interpretation fixed64_c: cbor_codec "read_fixed_n 64" enc_bytes "\<lambda>v. length v = 64"
  unfolding read_fixed_n_def [abs_def]
  by (rule bytes_c.codec_validated [where proj = "\<lambda>v. v" and valid = "\<lambda>v. length v = 64"]) (auto split: if_splits)

lemma route_from_code_iff: "route_from_code c = Ok r \<longleftrightarrow> c = route_code r"
  by (cases r) (auto simp: route_from_code_def split: if_splits)

interpretation route_c: cbor_codec read_route "\<lambda>r. enc_unsigned (route_code r)" "\<lambda>_. True"
  unfolding read_route_def [abs_def]
  by (rule unsigned_c.codec_validated [where proj = route_code and valid = "\<lambda>_. True"])
    (simp_all add: map_err_Ok_iff route_from_code_iff)

section \<open>Descriptors\<close>

definition wf_text :: "rstring \<Rightarrow> bool" where
  "wf_text v \<longleftrightarrow> len_ok (length v) \<and> utf8_valid v"

text \<open>
  A descriptor that passed its checks, with the invariants of the source's types: strings are UTF-8,
  lengths fit 64 bits, the signature has 64 bytes. An expiry of zero stands for no expiry.
\<close>

definition wf_descriptor :: "transport_descriptor_v1 \<Rightarrow> bool" where
  "wf_descriptor d \<longleftrightarrow>
     descriptor_validate_fields d = Ok () \<and> td_validity_end_epoch d \<noteq> Some 0 \<and> length (td_signature d) = 64
     \<and> list_all wf_text (td_onion_endpoints d) \<and> list_all wf_text (td_relay_endpoints d)
     \<and> wf_text (td_gateway_key_id d) \<and> wf_text (td_root_key_id d)
     \<and> wf_text (pp_id (td_padding d)) \<and> wf_text (bo_id (td_batch d))"

definition validity_word :: "u64 option \<Rightarrow> u64" where
  "validity_word v = (case v of Some e \<Rightarrow> e | None \<Rightarrow> 0)"

definition descriptor_body_enc :: "transport_descriptor_v1 \<Rightarrow> bytes" where
  "descriptor_body_enc d =
     enc_unsigned DESCRIPTOR_VERSION @ enc_text PROTOCOL_ID @ enc_bytes (td_election_id d)
     @ enc_bytes (arr_bytes (manifest_hash_bytes (td_manifest_hash d))) @ enc_unsigned (td_generation d)
     @ enc_unsigned (route_code (td_route d)) @ enc_seq enc_text (td_onion_endpoints d)
     @ enc_seq enc_text (td_relay_endpoints d) @ enc_bytes (arr_bytes (td_gateway_public_key d))
     @ enc_text (td_gateway_key_id d) @ enc_seq (\<lambda>a. enc_bytes (arr_bytes a)) (td_receipt_verification_keys d)
     @ enc_text (pp_id (td_padding d)) @ enc_unsigned (word_of_nat (pp_padded_bytes (td_padding d)))
     @ enc_text (bo_id (td_batch d)) @ enc_unsigned (bo_accepted_unique_floor (td_batch d))
     @ enc_unsigned (validity_word (td_validity_end_epoch d)) @ enc_text HPKE_SUITE_ID @ enc_text (td_root_key_id d)"

definition descriptor_enc :: "transport_descriptor_v1 \<Rightarrow> bytes" where
  "descriptor_enc d = enc_len MAJOR_ARRAY 17 @ descriptor_body_enc d @ enc_bytes (td_signature d)"

lemma message_texts [simp]:
  "utf8_valid PROTOCOL_ID" "length PROTOCOL_ID = 43" "utf8_valid HPKE_SUITE_ID" "length HPKE_SUITE_ID = 54"
  by (simp_all add: PROTOCOL_ID_def HPKE_SUITE_ID_def lit_def utf8_valid_ascii)

lemma wf_descriptor_bounds:
  assumes "wf_descriptor d"
  shows "len_ok (length (td_election_id d))" "pp_padded_bytes (td_padding d) \<le> MAX_ENVELOPE_BYTES"
    "length (td_receipt_verification_keys d) \<le> MAX_ENDPOINTS" "length (td_onion_endpoints d) \<le> MAX_ENDPOINTS"
    "length (td_relay_endpoints d) \<le> MAX_ENDPOINTS"
  using assms by (auto simp: wf_descriptor_def descriptor_validate_fields_def message_limits len_ok_def split: if_splits)

lemma write_text_vec_append:
  "length vs \<le> MAX_ENDPOINTS \<Longrightarrow> list_all wf_text vs \<Longrightarrow>
     write_text_vec vs \<lparr>w_output = out\<rparr> = Ok \<lparr>w_output = out @ enc_seq enc_text vs\<rparr>"
  unfolding write_text_vec_def
  by (rule write_seq) (auto simp: list_all_iff wf_text_def intro: len_ok_le [OF _ endpoints_ok])

lemma write_key_vec_append:
  "length vs \<le> MAX_ENDPOINTS \<Longrightarrow>
     write_key_vec vs \<lparr>w_output = out\<rparr> = Ok \<lparr>w_output = out @ enc_seq (\<lambda>a. enc_bytes (arr_bytes a)) vs\<rparr>"
  unfolding write_key_vec_def by (rule write_seq) (auto intro: len_ok_le [OF _ endpoints_ok])

lemma descriptor_write_eq:
  assumes "wf_descriptor d"
  shows "descriptor_write sig d \<lparr>w_output = []\<rparr> =
    Ok \<lparr>w_output = (if sig then descriptor_enc d else enc_len MAJOR_ARRAY 16 @ descriptor_body_enc d)\<rparr>"
  using assms wf_descriptor_bounds [OF assms]
  by (simp add: descriptor_write_def wf_descriptor_def wf_text_def [of "td_gateway_key_id d"]
      wf_text_def [of "td_root_key_id d"] wf_text_def [of "pp_id (td_padding d)"] wf_text_def [of "bo_id (td_batch d)"]
      write_text_vec_append write_key_vec_append descriptor_enc_def descriptor_body_enc_def validity_word_def)

lemma descriptor_to_canonical_cbor_eq: "wf_descriptor d \<Longrightarrow> descriptor_to_canonical_cbor d = Ok (descriptor_enc d)"
  by (simp add: descriptor_to_canonical_cbor_def descriptor_write_eq)

lemma read_descriptor_enc:
  assumes wf: "wf_descriptor d" and fit: "fits (descriptor_enc d)"
  shows "read_descriptor (rd [] (descriptor_enc d)) = Ok (d, rd (descriptor_enc d) [])"
proof -
  have texts: "list_all (\<lambda>v. len_ok (length v) \<and> utf8_valid v) (td_onion_endpoints d)"
    "list_all (\<lambda>v. len_ok (length v) \<and> utf8_valid v) (td_relay_endpoints d)"
    using wf by (auto simp: wf_descriptor_def wf_text_def list_all_iff)
  have padded: "unat (word_of_nat (pp_padded_bytes (td_padding d)) :: u64) = pp_padded_bytes (td_padding d)"
    using wf_descriptor_bounds(2) [OF wf] by (intro unat_len) (simp add: len_ok_def message_limits)
  have validity: "(if validity_word (td_validity_end_epoch d) \<noteq> 0 then Some (validity_word (td_validity_end_epoch d)) else None)
      = td_validity_end_epoch d"
    using wf by (auto simp: validity_word_def wf_descriptor_def split: option.splits)
  show ?thesis
    using fit wf wf_descriptor_bounds [OF wf]
    unfolding read_descriptor_def descriptor_enc_def descriptor_body_enc_def wf_descriptor_def wf_text_def
    by (simp add: array_c.read_enc [of _ "[]", simplified] unsigned_c.read_enc text_c.read_enc bytes_c.read_enc fixed_c.read_enc
        route_c.read_enc text_vec_c.read_enc key_vec_c.read_enc fixed64_c.read_enc_end texts padded validity
        list_all_iff)
qed

lemma descriptor_decode_Ok:
  assumes "descriptor_from_canonical_cbor bs = Ok d"
  shows "wf_descriptor d \<and> descriptor_to_canonical_cbor d = Ok bs"
proof -
  have "descriptor_validate_fields d = Ok () \<and> descriptor_to_canonical_cbor d = Ok bs"
    and read: "\<exists>r. read_descriptor (rd [] bs) = Ok (d, r)"
    using assms by (auto simp: descriptor_from_canonical_cbor_def result_inv map_err_Ok_iff new_reader_rd split: if_splits)
  moreover have "td_validity_end_epoch d \<noteq> Some 0 \<and> length (td_signature d) = 64
     \<and> list_all wf_text (td_onion_endpoints d) \<and> list_all wf_text (td_relay_endpoints d)
     \<and> wf_text (td_gateway_key_id d) \<and> wf_text (td_root_key_id d)
     \<and> wf_text (pp_id (td_padding d)) \<and> wf_text (bo_id (td_batch d))"
    using read
    by (auto simp: read_descriptor_def result_inv wf_text_def [abs_def] split: if_splits
        dest!: array_c.enc_read unsigned_c.enc_read text_c.enc_read bytes_c.enc_read fixed_c.enc_read
        route_c.enc_read text_vec_c.enc_read key_vec_c.enc_read fixed64_c.enc_read)
  ultimately show ?thesis by (simp add: wf_descriptor_def)
qed

interpretation descriptor_codec: slice_codec descriptor_from_canonical_cbor descriptor_to_canonical_cbor wf_descriptor
proof unfold_locales
  fix d bs
  assume wf: "wf_descriptor d" and enc: "descriptor_to_canonical_cbor d = Ok bs" and fit: "fits bs"
  have bs: "bs = descriptor_enc d" using enc by (simp add: descriptor_to_canonical_cbor_eq [OF wf])
  show "descriptor_from_canonical_cbor bs = Ok d"
    using read_descriptor_enc [OF wf] fit enc wf
    by (simp add: bs descriptor_from_canonical_cbor_def new_reader_rd wf_descriptor_def)
qed (rule descriptor_decode_Ok)

section \<open>Envelopes\<close>

definition wf_private_envelope :: "private_ballot_envelope_v1 \<Rightarrow> bool" where
  "wf_private_envelope e \<longleftrightarrow> pe_gateway_key_id e \<noteq> [] \<and> pe_padding_policy_id e \<noteq> []
     \<and> wf_text (pe_gateway_key_id e) \<and> wf_text (pe_padding_policy_id e) \<and> len_ok (length (pe_ciphertext e))"

definition private_envelope_enc :: "private_ballot_envelope_v1 \<Rightarrow> bytes" where
  "private_envelope_enc e =
     enc_len MAJOR_ARRAY 7 @ enc_unsigned ENVELOPE_VERSION
     @ enc_bytes (arr_bytes (manifest_hash_bytes (pe_manifest_hash e))) @ enc_bytes (arr_bytes (pe_descriptor_fingerprint e))
     @ enc_text (pe_gateway_key_id e) @ enc_text (pe_padding_policy_id e) @ enc_bytes (arr_bytes (pe_encapsulated_key e))
     @ enc_bytes (pe_ciphertext e)"

lemma private_envelope_to_canonical_cbor_eq:
  "wf_private_envelope e \<Longrightarrow> private_envelope_to_canonical_cbor e = Ok (private_envelope_enc e)"
  by (simp add: private_envelope_to_canonical_cbor_def private_envelope_enc_def wf_private_envelope_def wf_text_def)

text \<open>An encoding above the envelope limit is not accepted back, whatever the envelope.\<close>

lemma private_envelope_eta:
  "\<lparr>pe_manifest_hash = pe_manifest_hash e, pe_descriptor_fingerprint = pe_descriptor_fingerprint e,
    pe_gateway_key_id = pe_gateway_key_id e, pe_padding_policy_id = pe_padding_policy_id e,
    pe_encapsulated_key = pe_encapsulated_key e, pe_ciphertext = pe_ciphertext e\<rparr> = e"
  by (cases e) simp

lemma private_envelope_decode_enc:
  assumes wf: "wf_private_envelope e" and len: "length (private_envelope_enc e) \<le> MAX_ENVELOPE_BYTES"
  shows "private_envelope_from_canonical_cbor (private_envelope_enc e) = Ok e"
proof -
  have "fits (private_envelope_enc e)" using len by (simp add: fits_def message_limits usize_max_def)
  then show ?thesis
    using wf len private_envelope_to_canonical_cbor_eq [OF wf]
    unfolding private_envelope_from_canonical_cbor_def wf_private_envelope_def wf_text_def
    by (simp add: private_envelope_enc_def new_reader_rd array_c.read_enc [of _ "[]", simplified] unsigned_c.read_enc
        fixed_c.read_enc text_c.read_enc bytes_c.read_enc_end Let_def private_envelope_eta)
qed

lemma private_envelope_decode_Ok:
  assumes "private_envelope_from_canonical_cbor bs = Ok e"
  shows "wf_private_envelope e \<and> private_envelope_to_canonical_cbor e = Ok bs \<and> length bs \<le> MAX_ENVELOPE_BYTES"
proof -
  have "private_envelope_to_canonical_cbor e = Ok bs \<and> pe_gateway_key_id e \<noteq> [] \<and> pe_padding_policy_id e \<noteq> []
      \<and> length bs \<le> MAX_ENVELOPE_BYTES"
    using assms by (auto simp: private_envelope_from_canonical_cbor_def result_inv Let_def split: if_splits)
  moreover have "wf_text (pe_gateway_key_id e) \<and> wf_text (pe_padding_policy_id e) \<and> len_ok (length (pe_ciphertext e))"
    using assms
    by (auto simp: private_envelope_from_canonical_cbor_def result_inv Let_def wf_text_def new_reader_rd split: if_splits
        dest!: array_c.enc_read unsigned_c.enc_read text_c.enc_read bytes_c.enc_read fixed_c.enc_read)
  ultimately show ?thesis by (simp add: wf_private_envelope_def)
qed

interpretation private_envelope_codec: slice_codec private_envelope_from_canonical_cbor
  "\<lambda>e. and_then (private_envelope_to_canonical_cbor e) (\<lambda>bs. if length bs > MAX_ENVELOPE_BYTES then Err OversizedPayload else Ok bs)"
  wf_private_envelope
  by unfold_locales
    (auto simp: result_inv private_envelope_to_canonical_cbor_eq not_less split: if_splits
      intro: private_envelope_decode_enc dest: private_envelope_decode_Ok)

text \<open>The associated data of an envelope determine the election, the descriptor and the policy.\<close>

definition aad_enc :: "manifest_hash \<Rightarrow> bytes32 \<Rightarrow> rstring \<Rightarrow> rstring \<Rightarrow> bytes" where
  "aad_enc m f k p = enc_len MAJOR_ARRAY 6 @ enc_unsigned ENVELOPE_VERSION @ enc_text PROTOCOL_ID
     @ enc_bytes (arr_bytes (manifest_hash_bytes m)) @ enc_bytes (arr_bytes f) @ enc_text k @ enc_text p"

lemma envelope_aad_eq: "wf_text k \<Longrightarrow> wf_text p \<Longrightarrow> envelope_aad m f k p = Ok (aad_enc m f k p)"
  by (simp add: envelope_aad_def aad_enc_def wf_text_def)

section \<open>Receipts\<close>

definition wf_receipt :: "authenticated_transport_receipt_v1 \<Rightarrow> bool" where
  "wf_receipt c \<longleftrightarrow> rc_key_id c \<noteq> [] \<and> length (rc_key_id c) \<le> MAX_RECEIPT_KEY_ID_BYTES \<and> utf8_valid (rc_key_id c)
     \<and> length (rc_signature c) = 64"

definition root_bytes :: "bytes32 option \<Rightarrow> bytes" where
  "root_bytes r = (case r of Some root \<Rightarrow> arr_bytes root | None \<Rightarrow> [])"

definition receipt_enc :: "authenticated_transport_receipt_v1 \<Rightarrow> bytes" where
  "receipt_enc c =
     enc_len MAJOR_ARRAY 8 @ enc_unsigned AUTHENTICATED_RECEIPT_VERSION
     @ enc_unsigned (receipt_state_code (vr_state (rc_receipt c)))
     @ enc_unsigned (retry_status_code (vr_retry_status (rc_receipt c)))
     @ enc_bytes (arr_bytes (rc_descriptor_fingerprint c)) @ enc_bytes (arr_bytes (rc_package_digest c))
     @ enc_bytes (root_bytes (rc_batch_root c)) @ enc_text (rc_key_id c) @ enc_bytes (rc_signature c)"

lemma root_bytes_length: "length (root_bytes r) \<le> 32" "len_ok (length (root_bytes r))"
  by (simp_all add: root_bytes_def len_ok_def split: option.splits)

lemma batch_root_from_bytes_iff: "batch_root_from_bytes bs = Ok r \<longleftrightarrow> bs = root_bytes r"
  by (cases r) (auto simp: batch_root_from_bytes_def root_bytes_def result_inv array32_Some_iff
      split: if_splits option.splits dest: arg_cong [of _ _ length])

lemma receipt_codes:
  "receipt_state_from_code c = Ok s \<longleftrightarrow> c = receipt_state_code s" "retry_status_from_code c = Ok t \<longleftrightarrow> c = retry_status_code t"
  by (cases s; auto simp: receipt_state_from_code_def split: if_splits)
    (cases t; auto simp: retry_status_from_code_def split: if_splits)

lemma receipt_codes_total [simp]:
  "receipt_state_from_code (receipt_state_code s) = Ok s" "retry_status_from_code (retry_status_code t) = Ok t"
  "batch_root_from_bytes (root_bytes r) = Ok r"
  by (simp_all add: receipt_codes batch_root_from_bytes_iff)

lemma receipt_to_canonical_cbor_eq: "wf_receipt c \<Longrightarrow> receipt_to_canonical_cbor c = Ok (receipt_enc c)"
  using root_bytes_length(2) [of "rc_batch_root c"]
  by (simp add: receipt_to_canonical_cbor_def receipt_enc_def wf_receipt_def message_limits len_ok_def Let_def not_less
      flip: root_bytes_def)

lemma length_receipt_enc: "wf_receipt c \<Longrightarrow> length (receipt_enc c) \<le> MAX_AUTHENTICATED_RECEIPT_BYTES"
  using length_enc_len [of 8 MAJOR_ARRAY] length_enc_unsigned [of AUTHENTICATED_RECEIPT_VERSION]
    length_enc_unsigned [of "receipt_state_code (vr_state (rc_receipt c))"]
    length_enc_unsigned [of "retry_status_code (vr_retry_status (rc_receipt c))"]
    length_enc_bytes [of "arr_bytes (rc_descriptor_fingerprint c)"] length_enc_bytes [of "arr_bytes (rc_package_digest c)"]
    length_enc_bytes [of "root_bytes (rc_batch_root c)"] root_bytes_length(1) [of "rc_batch_root c"]
    length_enc_text [of "rc_key_id c"] length_enc_bytes [of "rc_signature c"]
  by (simp add: receipt_enc_def wf_receipt_def message_limits)

lemma receipt_eta:
  "\<lparr>rc_receipt = \<lparr>vr_state = vr_state (rc_receipt c), vr_retry_status = vr_retry_status (rc_receipt c)\<rparr>,
    rc_descriptor_fingerprint = rc_descriptor_fingerprint c, rc_package_digest = rc_package_digest c,
    rc_batch_root = rc_batch_root c, rc_key_id = rc_key_id c, rc_signature = rc_signature c\<rparr> = c"
  by (cases c) simp

lemma receipt_decode_enc:
  assumes wf: "wf_receipt c"
  shows "receipt_from_canonical_cbor (receipt_enc c) = Ok c"
proof -
  have "fits (receipt_enc c)" using length_receipt_enc [OF wf] by (simp add: fits_def message_limits usize_max_def)
  moreover have "len_ok (length (rc_key_id c))" using wf by (simp add: wf_receipt_def message_limits len_ok_def)
  ultimately show ?thesis
    using wf length_receipt_enc [OF wf] receipt_to_canonical_cbor_eq [OF wf] root_bytes_length(2) [of "rc_batch_root c"]
    unfolding receipt_from_canonical_cbor_def wf_receipt_def
    by (simp add: receipt_enc_def new_reader_rd array_c.read_enc [of _ "[]", simplified] unsigned_c.read_enc
        fixed_c.read_enc text_c.read_enc bytes_c.read_enc fixed64_c.read_enc_end Let_def receipt_eta)
qed

lemma receipt_decode_Ok:
  assumes "receipt_from_canonical_cbor bs = Ok c"
  shows "wf_receipt c \<and> receipt_to_canonical_cbor c = Ok bs"
proof -
  have "receipt_to_canonical_cbor c = Ok bs \<and> rc_key_id c \<noteq> [] \<and> length (rc_key_id c) \<le> MAX_RECEIPT_KEY_ID_BYTES"
    using assms by (auto simp: receipt_from_canonical_cbor_def result_inv Let_def split: if_splits)
  moreover have "utf8_valid (rc_key_id c) \<and> length (rc_signature c) = 64"
    using assms
    by (auto simp: receipt_from_canonical_cbor_def result_inv Let_def new_reader_rd split: if_splits
        dest!: array_c.enc_read unsigned_c.enc_read text_c.enc_read bytes_c.enc_read fixed_c.enc_read fixed64_c.enc_read)
  ultimately show ?thesis by (simp add: wf_receipt_def)
qed

interpretation receipt_codec: slice_codec receipt_from_canonical_cbor receipt_to_canonical_cbor wf_receipt
  by unfold_locales (auto simp: receipt_to_canonical_cbor_eq receipt_decode_enc dest: receipt_decode_Ok)

text \<open>What a receipt signs determines everything it says.\<close>

lemma receipt_code_bytes:
  "(ucast (receipt_state_code s) :: u8) = ucast (receipt_state_code s') \<longleftrightarrow> s = s'"
  "(ucast (retry_status_code t) :: u8) = ucast (retry_status_code t') \<longleftrightarrow> t = t'"
  by (cases s; cases s'; simp) (cases t; cases t'; simp)

lemma root_part_inj:
  "(case r of Some root \<Rightarrow> 1 # arr_bytes root | None \<Rightarrow> [0]) @ k =
     (case r' of Some root \<Rightarrow> (1 :: u8) # arr_bytes root | None \<Rightarrow> [0]) @ k' \<Longrightarrow> r = r' \<and> k = k'"
  by (auto split: option.splits)

lemma receipt_message_inj:
  assumes "receipt_message c = receipt_message c'"
  shows "c\<lparr>rc_signature := rc_signature c'\<rparr> = c'"
proof -
  have "rc_receipt c = rc_receipt c'"
    using assms by (auto simp: receipt_message_def receipt_code_bytes intro!: voter_transport_receipt_v1.equality)
  moreover have fp: "rc_descriptor_fingerprint c = rc_descriptor_fingerprint c'" "rc_package_digest c = rc_package_digest c'"
    using assms by (auto simp: receipt_message_def)
  moreover have "rc_batch_root c = rc_batch_root c' \<and> rc_key_id c = rc_key_id c'"
    using assms fp by (intro root_part_inj) (simp add: receipt_message_def)
  ultimately show ?thesis by simp
qed

section \<open>Padding and opening\<close>

lemma unpad_pad:
  assumes "length bs + 4 \<le> n" and "n \<le> MAX_ENVELOPE_BYTES"
  shows "unpad_authenticated_payload (pad_payload n bs) n = Ok bs"
proof -
  have "length bs < 2 ^ 32" using assms by (simp add: message_limits)
  then have len: "from_be_bytes (length_prefix (length bs)) = length bs"
    by (simp add: length_prefix_def from_be_be)
  have pre: "length (length_prefix (length bs)) = 4" by (simp add: length_prefix_def)
  have "take 4 (pad_payload n bs) = length_prefix (length bs)" by (simp add: pad_payload_def pre)
  moreover have "length (pad_payload n bs) = n" using assms pre by (simp add: pad_payload_def)
  moreover have "drop 4 (pad_payload n bs) = bs @ replicate (n - (4 + length bs)) 0" by (simp add: pad_payload_def pre)
  moreover have "drop (4 + length bs) (pad_payload n bs) = replicate (n - (4 + length bs)) 0"
    by (simp add: pad_payload_def pre)
  ultimately show ?thesis
    using assms len
    by (simp add: unpad_authenticated_payload_def checked_add_usize_def usize_max_def message_limits list_ex_iff)
qed

text \<open>
  What the gateway relies on of HPKE: the receiver whose public key the sender used opens what was
  sealed under the same info and associated data, and a ciphertext is 16 bytes longer than its plaintext.
\<close>

definition hpke_correct :: "('pk, 'sk, 'rnd) hpke \<Rightarrow> ('sk \<Rightarrow> 'pk) \<Rightarrow> bool" where
  "hpke_correct H public_of \<longleftrightarrow>
     (\<forall>sk rnd info pt aad enc ct. hk_seal H (public_of sk) rnd info pt aad = Some (enc, ct) \<longrightarrow>
        hk_encapped_ok H enc \<and> hk_open H sk enc info ct aad = Some pt \<and> length ct = length pt + 16)"

lemma open_sealed:
  assumes H: "hpke_correct H public_of"
    and sk: "hk_private_from_bytes H secret = Some sk" and pk: "hk_public_from_bytes H (td_gateway_public_key d) = Some (public_of sk)"
    and seal: "envelope_seal H blake3 rnd d bs = Ok e" and max: "pp_padded_bytes (td_padding d) \<le> MAX_ENVELOPE_BYTES"
  shows "open_envelope_bytes_v1 H blake3 e d secret = Ok bs"
proof -
  let ?n = "pp_padded_bytes (td_padding d)"
  from seal pk obtain fp aad encap ct where
    fit: "length bs + 4 \<le> ?n" and fp: "descriptor_fingerprint blake3 d = Ok fp"
    and aad: "envelope_aad (td_manifest_hash d) fp (td_gateway_key_id d) (pp_id (td_padding d)) = Ok aad"
    and sealed: "hk_seal H (public_of sk) rnd HPKE_INFO (pad_payload ?n bs) aad = Some (encap, ct)"
    and e: "e = \<lparr>pe_manifest_hash = td_manifest_hash d, pe_descriptor_fingerprint = fp,
              pe_gateway_key_id = td_gateway_key_id d, pe_padding_policy_id = pp_id (td_padding d),
              pe_encapsulated_key = encap, pe_ciphertext = ct\<rparr>"
    by (auto simp: envelope_seal_def Let_def result_inv checked_add_usize_def split: if_splits option.splits)
  have "length (pad_payload ?n bs) = ?n" using fit by (simp add: pad_payload_def length_prefix_def)
  with H sealed have "hk_encapped_ok H encap" "hk_open H sk encap HPKE_INFO ct aad = Some (pad_payload ?n bs)" "length ct = ?n + 16"
    unfolding hpke_correct_def by metis+
  then show ?thesis
    using sk fp aad unpad_pad [OF fit max]
    by (simp add: e open_envelope_bytes_v1_def receiver_opening_material_def)
qed


text \<open>What a sender seals under a valid descriptor encodes.\<close>

lemma sealed_wf:
  assumes "wf_descriptor d" and "envelope_seal H blake3 rnd d bs = Ok e"
  shows "wf_private_envelope e"
proof -
  have "td_gateway_key_id d \<noteq> [] \<and> pp_id (td_padding d) \<noteq> [] \<and> wf_text (td_gateway_key_id d) \<and> wf_text (pp_id (td_padding d))"
    using assms(1) by (auto simp: wf_descriptor_def descriptor_validate_fields_def split: if_splits)
  then show ?thesis
    using assms(2) by (auto simp: envelope_seal_def Let_def result_inv wf_private_envelope_def len_ok_def message_limits split: if_splits)
qed

lemma sealed_opens:
  assumes "hpke_correct H public_of" and "hk_private_from_bytes H secret = Some sk"
    and "hk_public_from_bytes H (td_gateway_public_key d) = Some (public_of sk)"
    and "wf_descriptor d" and "and_then (envelope_seal H blake3 rnd d ballot) private_envelope_to_canonical_cbor = Ok bs"
  shows "and_then (private_envelope_from_canonical_cbor bs) (\<lambda>e. open_envelope_bytes_v1 H blake3 e d secret) =
    (if length bs \<le> MAX_ENVELOPE_BYTES then Ok ballot else Err OversizedPayload)"
proof -
  from assms(5) obtain e where e: "envelope_seal H blake3 rnd d ballot = Ok e" "private_envelope_to_canonical_cbor e = Ok bs"
    by (auto simp: result_inv)
  have wf: "wf_private_envelope e" by (rule sealed_wf [OF assms(4) e(1)])
  have "open_envelope_bytes_v1 H blake3 e d secret = Ok ballot"
    by (rule open_sealed [OF assms(1-3) e(1) wf_descriptor_bounds(2) [OF assms(4)]])
  then show ?thesis
    using private_envelope_decode_enc [OF wf] e(2)
    by (auto simp: private_envelope_to_canonical_cbor_eq [OF wf] private_envelope_from_canonical_cbor_def)
qed

section \<open>Pinned descriptors\<close>

text \<open>A sequence of offers to the consistency store; an offer that is refused leaves the store as it was.\<close>

primrec offer_all ::
  "('vk, 'sk) ed25519 \<Rightarrow> (bytes \<Rightarrow> bytes32) \<Rightarrow> (transport_descriptor_v1 \<times> transport_authority_root_v1 \<times> manifest_hash) list \<Rightarrow>
   descriptor_consistency_store_v1 \<Rightarrow> descriptor_consistency_store_v1" where
  "offer_all ed blake3 [] store = store"
| "offer_all ed blake3 (x # xs) store =
     offer_all ed blake3 xs (case consistency_accept ed blake3 (fst x) (fst (snd x)) (snd (snd x)) store of
       Ok (_, store') \<Rightarrow> store' | Err _ \<Rightarrow> store)"

lemma consistency_accept_Ok:
  assumes "consistency_accept ed blake3 d root m store = Ok (fp, store')"
  shows "descriptor_fingerprint blake3 d = Ok fp \<and> dc_active store' (td_election_id d, td_generation d) = Some fp
    \<and> dc_active store \<subseteq>\<^sub>m dc_active store'
    \<and> (dc_active store (td_election_id d, td_generation d) \<noteq> None \<longrightarrow> store' = store \<and> dc_active store (td_election_id d, td_generation d) = Some fp)"
  using assms
  by (auto simp: consistency_accept_def result_inv Let_def map_le_def split: option.splits if_splits)

lemma offer_all_extends: "dc_active store \<subseteq>\<^sub>m dc_active (offer_all ed blake3 xs store)"
proof (induction xs arbitrary: store)
  case (Cons x xs)
  show ?case
  proof (cases "consistency_accept ed blake3 (fst x) (fst (snd x)) (snd (snd x)) store")
    case (Ok y)
    then have "dc_active store \<subseteq>\<^sub>m dc_active (snd y)" using consistency_accept_Ok [of ed blake3 "fst x" _ _ store "fst y" "snd y"] by simp
    then show ?thesis using Cons.IH [of "snd y"] Ok by (auto simp: case_prod_beta intro: map_le_trans)
  next
    case (Err e)
    then show ?thesis using Cons.IH by simp
  qed
qed simp

lemma fingerprint_collision:
  assumes "descriptor_from_canonical_cbor bs = Ok d" and "descriptor_from_canonical_cbor bs' = Ok d'"
    and "descriptor_fingerprint blake3 d = Ok fp" and "descriptor_fingerprint blake3 d' = Ok fp"
  shows "bs = bs' \<or> is_collision blake3 (domain_separated_input TransportDescriptorV1 bs) (domain_separated_input TransportDescriptorV1 bs')"
proof -
  have "descriptor_to_canonical_cbor d = Ok bs" "descriptor_to_canonical_cbor d' = Ok bs'"
    using descriptor_codec.encode_decode assms(1, 2) by blast+
  then have "hash_domain_separated (Blake3HashProviderV1 blake3) TransportDescriptorV1 bs
      = hash_domain_separated (Blake3HashProviderV1 blake3) TransportDescriptorV1 bs'"
    using assms(3, 4) by (simp add: descriptor_fingerprint_def)
  from hash_domain_separated_collision [OF this] show ?thesis by (auto simp: Blake3HashProviderV1_def)
qed

end
