(* ===== verification/Merkle_Batches.thy ===== *)
theory Merkle_Batches
  imports Protocol_Core
begin

text \<open>
  The Merkle trees of sealed transport batches (\<open>crates/transport-gateway/src/lib.rs\<close>): the layers and
  the root, the inclusion proof of a package digest and its verification. A layer of odd length pairs
  its last node with itself. The lemmas show that inclusion proofs are complete and sound and that the
  root of a batch identifies its digests, up to a collision among the inputs that are hashed.
\<close>

section \<open>Layers and roots\<close>

definition leaf_hash :: "(bytes \<Rightarrow> bytes32) \<Rightarrow> bytes32 \<Rightarrow> bytes32" where
  "leaf_hash blake3 d = hash_domain_separated (Blake3HashProviderV1 blake3) TransportBatchLeafV1 (arr_bytes d)"

definition node_hash :: "(bytes \<Rightarrow> bytes32) \<Rightarrow> bytes \<Rightarrow> bytes32" where
  "node_hash blake3 input = hash_domain_separated (Blake3HashProviderV1 blake3) TransportBatchNodeV1 input"

definition pair_input :: "bytes32 list \<Rightarrow> bytes" where
  "pair_input pair = arr_bytes (pair ! 0) @ arr_bytes (if 1 < length pair then pair ! 1 else pair ! 0)"

definition next_merkle_layer :: "(bytes \<Rightarrow> bytes32) \<Rightarrow> bytes32 list \<Rightarrow> bytes32 list" where
  "next_merkle_layer blake3 layer = map (\<lambda>pair. node_hash blake3 (pair_input pair)) (chunks 2 layer)"

lemma chunks2 [simp]:
  "chunks 2 [] = []" "chunks 2 [x] = [[x]]" "chunks 2 (x # y # zs) = [x, y] # chunks 2 zs"
  by (simp_all add: chunks.simps [of 2])

lemma next_merkle_layer_simps [simp]:
  "next_merkle_layer blake3 [] = []"
  "next_merkle_layer blake3 [x] = [node_hash blake3 (arr_bytes x @ arr_bytes x)]"
  "next_merkle_layer blake3 (x # y # zs) =
     node_hash blake3 (arr_bytes x @ arr_bytes y) # next_merkle_layer blake3 zs"
  by (simp_all add: next_merkle_layer_def pair_input_def)

lemma pairs_induct [case_names Nil Single Pair]:
  "P [] \<Longrightarrow> (\<And>x. P [x]) \<Longrightarrow> (\<And>x y zs. P zs \<Longrightarrow> P (x # y # zs)) \<Longrightarrow> P xs"
  by (rule induct_list012)

lemma length_next_layer [simp]: "length (next_merkle_layer blake3 layer) = (length layer + 1) div 2"
  by (induction layer rule: pairs_induct) simp_all

function merkle_loop :: "(bytes \<Rightarrow> bytes32) \<Rightarrow> bytes32 list \<Rightarrow> bytes32 list" where
  "merkle_loop blake3 layer =
     (if length layer > 1 then merkle_loop blake3 (next_merkle_layer blake3 layer) else layer)"
  by pat_completeness auto
termination
  by (relation "measure (\<lambda>(blake3, layer). length layer)") auto

declare merkle_loop.simps [simp del]

definition merkle_root :: "(bytes \<Rightarrow> bytes32) \<Rightarrow> bytes32 list \<Rightarrow> bytes32 option" where
  "merkle_root blake3 leaves =
     (case merkle_loop blake3 leaves of [] \<Rightarrow> None | root # _ \<Rightarrow> Some root)"

section \<open>Sealed batches and inclusion proofs\<close>

record batch_inclusion_proof_v1 =
  ip_package_digest :: bytes32
  ip_root :: bytes32
  ip_siblings :: "(bytes32 \<times> bool) list"

record sealed_transport_batch_v1 =
  sb_batch_id :: u64
  sb_root :: bytes32
  sb_accepted_unique_count :: u64
  sb_reduced_anonymity :: bool
  sb_digests :: "bytes32 list"

fun step_input :: "bytes32 \<times> bool \<Rightarrow> bytes32 \<Rightarrow> bytes" where
  "step_input (sibling, sibling_is_left) current =
     (if sibling_is_left then arr_bytes sibling @ arr_bytes current
      else arr_bytes current @ arr_bytes sibling)"

definition proof_step :: "(bytes \<Rightarrow> bytes32) \<Rightarrow> bytes32 \<times> bool \<Rightarrow> bytes32 \<Rightarrow> bytes32" where
  "proof_step blake3 s current = node_hash blake3 (step_input s current)"

definition inclusion_verify :: "(bytes \<Rightarrow> bytes32) \<Rightarrow> batch_inclusion_proof_v1 \<Rightarrow> bool" where
  "inclusion_verify blake3 p \<longleftrightarrow>
     fold (proof_step blake3) (ip_siblings p) (leaf_hash blake3 (ip_package_digest p)) = ip_root p"

function inclusion_loop ::
  "(bytes \<Rightarrow> bytes32) \<Rightarrow> bytes32 list \<Rightarrow> nat \<Rightarrow> (bytes32 \<times> bool) list \<Rightarrow> (bytes32 \<times> bool) list" where
  "inclusion_loop blake3 layer cursor siblings =
     (if length layer > 1 then
        let sibling_index = (if cursor mod 2 = 0 then min (cursor + 1) (length layer - 1) else cursor - 1) in
        inclusion_loop blake3 (next_merkle_layer blake3 layer) (cursor div 2)
          (siblings @ [(layer ! sibling_index, sibling_index < cursor)])
      else siblings)"
  by pat_completeness auto
termination
  by (relation "measure (\<lambda>(blake3, layer, cursor, siblings). length layer)") auto

declare inclusion_loop.simps [simp del]

definition inclusion_proof ::
  "(bytes \<Rightarrow> bytes32) \<Rightarrow> bytes32 \<Rightarrow> sealed_transport_batch_v1 \<Rightarrow> batch_inclusion_proof_v1 option" where
  "inclusion_proof blake3 package_digest batch =
     (case binary_search_by id package_digest (sb_digests batch) of
        None \<Rightarrow> None
      | Some index \<Rightarrow>
          Some \<lparr>ip_package_digest = package_digest, ip_root = sb_root batch,
                ip_siblings = inclusion_loop blake3 (map (leaf_hash blake3) (sb_digests batch)) index []\<rparr>)"

section \<open>Completeness\<close>

lemma nth_next_layer:
  "i < (length layer + 1) div 2 \<Longrightarrow> next_merkle_layer blake3 layer ! i =
     node_hash blake3 (arr_bytes (layer ! (2 * i)) @ arr_bytes (layer ! min (2 * i + 1) (length layer - 1)))"
proof (induction layer arbitrary: i rule: pairs_induct)
  case (Pair x y zs)
  show ?case
  proof (cases i)
    case (Suc j)
    then have "j < (length zs + 1) div 2" using Pair.prems by simp
    then have "zs \<noteq> []" by auto
    then have "min (2 * i + 1) (length (x # y # zs) - 1) = Suc (Suc (min (2 * j + 1) (length zs - 1)))"
      using Suc by (cases zs) auto
    then show ?thesis using Pair.IH [of j] Suc \<open>j < _\<close> by simp
  qed simp
qed simp_all

lemma proof_step_next_layer:
  assumes "c < length layer" and "1 < length layer"
  defines "k \<equiv> (if c mod 2 = 0 then min (c + 1) (length layer - 1) else c - 1)"
  shows "proof_step blake3 (layer ! k, k < c) (layer ! c) = next_merkle_layer blake3 layer ! (c div 2)"
proof -
  have nxt: "next_merkle_layer blake3 layer ! (c div 2) = node_hash blake3
      (arr_bytes (layer ! (2 * (c div 2))) @ arr_bytes (layer ! min (2 * (c div 2) + 1) (length layer - 1)))"
    using assms(1) by (intro nth_next_layer) linarith
  show ?thesis
  proof (cases "c mod 2 = 0")
    case True
    then have "2 * (c div 2) = c" by presburger
    moreover have "\<not> k < c" using True assms by auto
    ultimately show ?thesis using nxt True by (simp add: k_def proof_step_def)
  next
    case False
    then have "2 * (c div 2) = c - 1" "min (2 * (c div 2) + 1) (length layer - 1) = c" "k < c" "k = c - 1"
      using assms by (presburger, auto simp: k_def, presburger)
    then show ?thesis using nxt by (simp add: proof_step_def)
  qed
qed

lemma inclusion_loop_fold:
  assumes "c < length layer"
  shows "\<exists>sibs. inclusion_loop blake3 layer c acc = acc @ sibs
    \<and> [fold (proof_step blake3) sibs (layer ! c)] = merkle_loop blake3 layer"
  using assms
proof (induction blake3 layer c acc rule: inclusion_loop.induct)
  case (1 blake3 layer c acc)
  show ?case
  proof (cases "1 < length layer")
    case True
    define k where "k = (if c mod 2 = 0 then min (c + 1) (length layer - 1) else c - 1)"
    have "c div 2 < length (next_merkle_layer blake3 layer)" using "1.prems" by simp
    from "1.IH" [OF True refl this] obtain sibs where
      sibs: "inclusion_loop blake3 (next_merkle_layer blake3 layer) (c div 2) (acc @ [(layer ! k, k < c)])
          = (acc @ [(layer ! k, k < c)]) @ sibs"
        "[fold (proof_step blake3) sibs (next_merkle_layer blake3 layer ! (c div 2))]
          = merkle_loop blake3 (next_merkle_layer blake3 layer)"
      unfolding k_def by blast
    have "inclusion_loop blake3 layer c acc = acc @ (layer ! k, k < c) # sibs"
      using sibs(1) True by (subst inclusion_loop.simps) (simp add: Let_def k_def)
    moreover have "[fold (proof_step blake3) ((layer ! k, k < c) # sibs) (layer ! c)] = merkle_loop blake3 layer"
      using sibs(2) True proof_step_next_layer [OF "1.prems" True, of blake3]
      by (subst merkle_loop.simps) (simp add: k_def)
    ultimately show ?thesis by blast
  next
    case False
    then have "layer = [layer ! c]" "c = 0" using "1.prems" by (cases layer; simp)+
    then show ?thesis using False by (subst inclusion_loop.simps, subst merkle_loop.simps) auto
  qed
qed

lemma inclusion_complete:
  assumes "sorted_wrt (<) (sb_digests b)" and "d \<in> set (sb_digests b)"
    and "merkle_root blake3 (map (leaf_hash blake3) (sb_digests b)) = Some (sb_root b)"
  shows "\<exists>p. inclusion_proof blake3 d b = Some p \<and> ip_package_digest p = d \<and> ip_root p = sb_root b
    \<and> inclusion_verify blake3 p"
proof -
  let ?ds = "sb_digests b" and ?leaves = "map (leaf_hash blake3) (sb_digests b)"
  have srt: "sorted (map id ?ds)" using assms(1) by (simp add: strictly_sorted_iff)
  obtain i where i: "binary_search_by id d ?ds = Some i"
    using binary_search_by_iff [OF srt, of d] assms(2) by auto
  have at: "i < length ?ds" "?ds ! i = d" using binary_search_by_Some [OF srt i] by simp_all
  obtain sibs where "inclusion_loop blake3 ?leaves i [] = sibs"
    "[fold (proof_step blake3) sibs (?leaves ! i)] = merkle_loop blake3 ?leaves"
    using inclusion_loop_fold [of i ?leaves blake3 "[]"] at by auto
  then show ?thesis
    using i at assms(3) by (auto simp: inclusion_proof_def inclusion_verify_def merkle_root_def split: list.splits)
qed

section \<open>What is hashed\<close>

definition layer_inputs :: "bytes32 list \<Rightarrow> bytes set" where
  "layer_inputs layer = (\<lambda>pair. domain_separated_input TransportBatchNodeV1 (pair_input pair)) ` set (chunks 2 layer)"

text \<open>The inputs hashed for the tree over some digests: its leaves, and its layers up to the root.\<close>

definition tree_inputs :: "(bytes \<Rightarrow> bytes32) \<Rightarrow> bytes32 list \<Rightarrow> bytes set" where
  "tree_inputs blake3 ds =
     (\<lambda>d. domain_separated_input TransportBatchLeafV1 (arr_bytes d)) ` set ds
     \<union> (\<Union>m \<in> {m. 1 < length ((next_merkle_layer blake3 ^^ m) (map (leaf_hash blake3) ds))}.
          layer_inputs ((next_merkle_layer blake3 ^^ m) (map (leaf_hash blake3) ds)))"

fun path_inputs :: "(bytes \<Rightarrow> bytes32) \<Rightarrow> bytes32 \<Rightarrow> (bytes32 \<times> bool) list \<Rightarrow> bytes list" where
  "path_inputs blake3 current [] = []"
| "path_inputs blake3 current (s # siblings) =
     domain_separated_input TransportBatchNodeV1 (step_input s current)
       # path_inputs blake3 (proof_step blake3 s current) siblings"

text \<open>The inputs hashed when an inclusion proof is verified.\<close>

definition proof_inputs :: "(bytes \<Rightarrow> bytes32) \<Rightarrow> batch_inclusion_proof_v1 \<Rightarrow> bytes set" where
  "proof_inputs blake3 p =
     insert (domain_separated_input TransportBatchLeafV1 (arr_bytes (ip_package_digest p)))
       (set (path_inputs blake3 (leaf_hash blake3 (ip_package_digest p)) (ip_siblings p)))"

definition inputs_collide :: "(bytes \<Rightarrow> bytes32) \<Rightarrow> bytes set \<Rightarrow> bool" where
  "inputs_collide blake3 S \<longleftrightarrow> (\<exists>x \<in> S. \<exists>y \<in> S. is_collision blake3 x y)"

lemma inputs_collide_mono: "inputs_collide blake3 S \<Longrightarrow> S \<subseteq> T \<Longrightarrow> inputs_collide blake3 T"
  unfolding inputs_collide_def by blast

text \<open>Equal hashes of inputs of a collision-free set come from the same domain and content.\<close>

lemma hash_eq_inputs:
  assumes "\<not> inputs_collide blake3 S"
    and "domain_separated_input d x \<in> S" and "domain_separated_input e y \<in> S"
    and "hash_domain_separated (Blake3HashProviderV1 blake3) d x = hash_domain_separated (Blake3HashProviderV1 blake3) e y"
  shows "d = e \<and> x = y"
  using hash_domain_separated_collision [OF assms(4)] assms(1-3)
  by (auto simp: inputs_collide_def Blake3HashProviderV1_def)

text \<open>The same for the two kinds of hashes of a tree.\<close>

lemma tree_hash_eq:
  assumes "\<not> inputs_collide blake3 S"
  shows "domain_separated_input TransportBatchLeafV1 (arr_bytes a) \<in> S \<Longrightarrow>
      domain_separated_input TransportBatchLeafV1 (arr_bytes b) \<in> S \<Longrightarrow> leaf_hash blake3 a = leaf_hash blake3 b \<longleftrightarrow> a = b"
    and "domain_separated_input TransportBatchNodeV1 x \<in> S \<Longrightarrow>
      domain_separated_input TransportBatchNodeV1 y \<in> S \<Longrightarrow> node_hash blake3 x = node_hash blake3 y \<longleftrightarrow> x = y"
    and "domain_separated_input TransportBatchLeafV1 (arr_bytes a) \<in> S \<Longrightarrow>
      domain_separated_input TransportBatchNodeV1 x \<in> S \<Longrightarrow> leaf_hash blake3 a \<noteq> node_hash blake3 x"
  using hash_eq_inputs [OF assms, of TransportBatchLeafV1 "arr_bytes a" TransportBatchLeafV1 "arr_bytes b"]
    hash_eq_inputs [OF assms, of TransportBatchNodeV1 x TransportBatchNodeV1 y]
    hash_eq_inputs [OF assms, of TransportBatchLeafV1 "arr_bytes a" TransportBatchNodeV1 x]
  by (auto simp: leaf_hash_def node_hash_def arr_bytes_inject)

lemma leaf_in_tree: "d \<in> set ds \<Longrightarrow> domain_separated_input TransportBatchLeafV1 (arr_bytes d) \<in> tree_inputs blake3 ds"
  by (auto simp: tree_inputs_def)

lemma layer_in_tree:
  "1 < length ((next_merkle_layer blake3 ^^ m) (map (leaf_hash blake3) ds)) \<Longrightarrow>
     layer_inputs ((next_merkle_layer blake3 ^^ m) (map (leaf_hash blake3) ds)) \<subseteq> tree_inputs blake3 ds"
  by (auto simp: tree_inputs_def)

lemma pair_input_members:
  "pair \<in> set (chunks 2 layer) \<Longrightarrow>
     \<exists>x y. pair_input pair = arr_bytes x @ arr_bytes y \<and> x \<in> set layer \<and> y \<in> set layer"
  by (induction layer rule: pairs_induct) (auto simp: pair_input_def)

lemma arr_bytes_append_eq: "arr_bytes a @ arr_bytes b = arr_bytes c @ arr_bytes d \<longleftrightarrow> a = c \<and> b = d"
  by (simp add: append_eq_append_conv arr_bytes_inject)

lemma path_inputs_snoc:
  "path_inputs blake3 c (ss @ [s]) =
     path_inputs blake3 c ss @ [domain_separated_input TransportBatchNodeV1 (step_input s (fold (proof_step blake3) ss c))]"
  by (induction ss arbitrary: c) simp_all

section \<open>Soundness of inclusion proofs\<close>

lemma next_layer_mem:
  assumes "v \<in> set (next_merkle_layer blake3 layer)"
  obtains x y where "v = node_hash blake3 (arr_bytes x @ arr_bytes y)" "x \<in> set layer" "y \<in> set layer"
    "domain_separated_input TransportBatchNodeV1 (arr_bytes x @ arr_bytes y) \<in> layer_inputs layer"
proof -
  from assms obtain pair where pair: "pair \<in> set (chunks 2 layer)" "v = node_hash blake3 (pair_input pair)"
    by (auto simp: next_merkle_layer_def)
  then obtain x y where "pair_input pair = arr_bytes x @ arr_bytes y" "x \<in> set layer" "y \<in> set layer"
    by (metis pair_input_members)
  with pair that show ?thesis by (metis imageI layer_inputs_def)
qed

lemma chain_in_layer:
  assumes free: "\<not> inputs_collide blake3 S" and tree: "tree_inputs blake3 ds \<subseteq> S"
    and "insert (domain_separated_input TransportBatchLeafV1 (arr_bytes d))
      (set (path_inputs blake3 (leaf_hash blake3 d) sibs)) \<subseteq> S"
    and "fold (proof_step blake3) sibs (leaf_hash blake3 d)
      \<in> set ((next_merkle_layer blake3 ^^ m) (map (leaf_hash blake3) ds))"
    and "\<forall>k < m. 1 < length ((next_merkle_layer blake3 ^^ k) (map (leaf_hash blake3) ds))"
  shows "d \<in> set ds"
  using assms(3-5)
proof (induction m arbitrary: sibs)
  case 0
  then obtain d' where d': "d' \<in> set ds" "fold (proof_step blake3) sibs (leaf_hash blake3 d) = leaf_hash blake3 d'" by auto
  have in': "domain_separated_input TransportBatchLeafV1 (arr_bytes d') \<in> S"
    using tree leaf_in_tree [OF d'(1)] by blast
  show ?case
  proof (cases sibs rule: rev_cases)
    case Nil
    then show ?thesis
      using d' in' "0.prems"(1) tree_hash_eq(1) [OF free] by simp
  next
    case (snoc ss s)
    then show ?thesis
      using d'(2) "0.prems"(1) tree_hash_eq(3) [OF free in', of "step_input s (fold (proof_step blake3) ss (leaf_hash blake3 d))"]
      by (simp add: path_inputs_snoc proof_step_def)
  qed
next
  case (Suc m)
  let ?L = "(next_merkle_layer blake3 ^^ m) (map (leaf_hash blake3) ds)"
  from Suc.prems(2) obtain x y where v: "fold (proof_step blake3) sibs (leaf_hash blake3 d) =
      node_hash blake3 (arr_bytes x @ arr_bytes y)" "x \<in> set ?L" "y \<in> set ?L"
    and inl: "domain_separated_input TransportBatchNodeV1 (arr_bytes x @ arr_bytes y) \<in> layer_inputs ?L"
    by (auto elim: next_layer_mem)
  have "1 < length ?L" using Suc.prems(3) by simp
  then have inS: "domain_separated_input TransportBatchNodeV1 (arr_bytes x @ arr_bytes y) \<in> S"
    using inl tree layer_in_tree by blast
  show ?case
  proof (cases sibs rule: rev_cases)
    case Nil
    then show ?thesis
      using v(1) inS Suc.prems(1) tree_hash_eq(3) [OF free _ inS, of d] by simp
  next
    case (snoc ss s)
    let ?c = "fold (proof_step blake3) ss (leaf_hash blake3 d)"
    have "step_input s ?c = arr_bytes x @ arr_bytes y"
      using v(1) inS Suc.prems(1) snoc tree_hash_eq(2) [OF free _ inS] by (auto simp: proof_step_def path_inputs_snoc)
    then have "?c \<in> set ?L" using v(2,3) by (cases s) (auto simp: arr_bytes_append_eq split: if_splits)
    then show ?thesis using Suc.IH [of ss] Suc.prems(1,3) snoc by (simp add: path_inputs_snoc)
  qed
qed

lemma merkle_loop_iterate:
  "\<exists>m. merkle_loop blake3 layer = (next_merkle_layer blake3 ^^ m) layer
     \<and> (\<forall>k < m. 1 < length ((next_merkle_layer blake3 ^^ k) layer))
     \<and> length (merkle_loop blake3 layer) \<le> 1"
proof (induction blake3 layer rule: merkle_loop.induct)
  case (1 blake3 layer)
  show ?case
  proof (cases "1 < length layer")
    case True
    with 1 obtain m where m: "merkle_loop blake3 (next_merkle_layer blake3 layer)
        = (next_merkle_layer blake3 ^^ m) (next_merkle_layer blake3 layer)"
      "\<forall>k < m. 1 < length ((next_merkle_layer blake3 ^^ k) (next_merkle_layer blake3 layer))"
      "length (merkle_loop blake3 (next_merkle_layer blake3 layer)) \<le> 1" by blast
    have "\<forall>k < Suc m. 1 < length ((next_merkle_layer blake3 ^^ k) layer)"
      using m(2) True by (auto simp: less_Suc_eq_0_disj funpow_swap1)
    moreover have "merkle_loop blake3 layer = (next_merkle_layer blake3 ^^ Suc m) layer"
      using m(1) True by (subst merkle_loop.simps) (simp add: funpow_swap1)
    moreover have "length (merkle_loop blake3 layer) \<le> 1"
      using m(3) True by (subst merkle_loop.simps) simp
    ultimately show ?thesis by blast
  next
    case False
    then show ?thesis by (intro exI [of _ 0]) (simp add: merkle_loop.simps [of blake3 layer])
  qed
qed

lemma merkle_root_iterate:
  assumes "merkle_root blake3 leaves = Some root"
  obtains m where "(next_merkle_layer blake3 ^^ m) leaves = [root]"
    "\<forall>k < m. 1 < length ((next_merkle_layer blake3 ^^ k) leaves)"
proof -
  from merkle_loop_iterate [of blake3 leaves] obtain m where
    m: "merkle_loop blake3 leaves = (next_merkle_layer blake3 ^^ m) leaves"
      "\<forall>k < m. 1 < length ((next_merkle_layer blake3 ^^ k) leaves)" "length (merkle_loop blake3 leaves) \<le> 1" by blast
  have "merkle_loop blake3 leaves = [root]"
    using assms m(3) by (cases "merkle_loop blake3 leaves") (auto simp: merkle_root_def)
  with m that show ?thesis by metis
qed

lemma inclusion_sound:
  assumes "merkle_root blake3 (map (leaf_hash blake3) ds) = Some root"
    and "inclusion_verify blake3 p" and "ip_root p = root"
  shows "ip_package_digest p \<in> set ds \<or> inputs_collide blake3 (tree_inputs blake3 ds \<union> proof_inputs blake3 p)"
proof (cases "inputs_collide blake3 (tree_inputs blake3 ds \<union> proof_inputs blake3 p)")
  case False
  obtain m where "(next_merkle_layer blake3 ^^ m) (map (leaf_hash blake3) ds) = [root]"
    "\<forall>k < m. 1 < length ((next_merkle_layer blake3 ^^ k) (map (leaf_hash blake3) ds))"
    by (rule merkle_root_iterate [OF assms(1)])
  then have "ip_package_digest p \<in> set ds"
    using assms(2,3) chain_in_layer [OF False, of ds "ip_package_digest p" "ip_siblings p" m]
    by (auto simp: proof_inputs_def inclusion_verify_def)
  then show ?thesis ..
qed simp

section \<open>The root identifies the digests\<close>

lemma distinct_next_layer:
  assumes free: "\<not> inputs_collide blake3 S" and "layer_inputs layer \<subseteq> S" and "distinct layer"
  shows "distinct (next_merkle_layer blake3 layer)"
  using assms(2,3)
proof (induction layer rule: pairs_induct)
  case (Pair x y zs)
  have "node_hash blake3 (arr_bytes x @ arr_bytes y) \<notin> set (next_merkle_layer blake3 zs)"
  proof
    assume "node_hash blake3 (arr_bytes x @ arr_bytes y) \<in> set (next_merkle_layer blake3 zs)"
    then obtain x' y' where eq: "node_hash blake3 (arr_bytes x @ arr_bytes y) = node_hash blake3 (arr_bytes x' @ arr_bytes y')"
      and mem: "x' \<in> set zs" "domain_separated_input TransportBatchNodeV1 (arr_bytes x' @ arr_bytes y') \<in> layer_inputs zs"
      by (metis next_layer_mem)
    have "domain_separated_input TransportBatchNodeV1 (arr_bytes x @ arr_bytes y) \<in> S"
      "domain_separated_input TransportBatchNodeV1 (arr_bytes x' @ arr_bytes y') \<in> S"
      using Pair.prems(1) mem(2) by (auto simp: layer_inputs_def pair_input_def)
    from tree_hash_eq(2) [OF free this] eq have "x = x'" by (simp add: arr_bytes_append_eq)
    with mem Pair.prems(2) show False by simp
  qed
  moreover have "distinct (next_merkle_layer blake3 zs)"
    using Pair by (simp add: layer_inputs_def)
  ultimately show ?case by simp
qed simp_all

lemma next_layer_inject:
  assumes free: "\<not> inputs_collide blake3 S" and "layer_inputs l \<subseteq> S" "layer_inputs l' \<subseteq> S"
    and "distinct l" "distinct l'" and "next_merkle_layer blake3 l = next_merkle_layer blake3 l'"
  shows "l = l'"
  using assms(2-)
proof (induction l arbitrary: l' rule: pairs_induct)
  case Nil
  then show ?case by (cases l' rule: remdups_adj.cases) simp_all
next
  case (Single x)
  show ?case
  proof (cases l' rule: remdups_adj.cases)
    case (3 a b zs)
    then have "arr_bytes x @ arr_bytes x = arr_bytes a @ arr_bytes b"
      using Single.prems by (intro tree_hash_eq(2) [OF free, THEN iffD1]) (auto simp: layer_inputs_def pair_input_def)
    then show ?thesis using Single.prems(4) 3 by (auto simp: arr_bytes_append_eq)
  next
    case (2 a)
    then have "arr_bytes x @ arr_bytes x = arr_bytes a @ arr_bytes a"
      using Single.prems by (intro tree_hash_eq(2) [OF free, THEN iffD1]) (auto simp: layer_inputs_def pair_input_def)
    then show ?thesis using 2 by (simp add: arr_bytes_append_eq)
  qed (use Single.prems in simp)
next
  case (Pair x y zs)
  show ?case
  proof (cases l' rule: remdups_adj.cases)
    case (3 a b ws)
    then have "arr_bytes x @ arr_bytes y = arr_bytes a @ arr_bytes b"
      using Pair.prems by (intro tree_hash_eq(2) [OF free, THEN iffD1]) (auto simp: layer_inputs_def pair_input_def)
    moreover have "zs = ws"
      using Pair.prems 3 by (intro Pair.IH) (auto simp: layer_inputs_def)
    ultimately show ?thesis using 3 by (simp add: arr_bytes_append_eq)
  next
    case (2 a)
    then have "arr_bytes x @ arr_bytes y = arr_bytes a @ arr_bytes a"
      using Pair.prems by (intro tree_hash_eq(2) [OF free, THEN iffD1]) (auto simp: layer_inputs_def pair_input_def)
    then show ?thesis using Pair.prems(3) by (auto simp: arr_bytes_append_eq)
  qed (use Pair.prems in simp)
qed

lemma layers_distinct:
  assumes free: "\<not> inputs_collide blake3 S" and tree: "tree_inputs blake3 ds \<subseteq> S" and "distinct ds"
    and "\<forall>k < m. 1 < length ((next_merkle_layer blake3 ^^ k) (map (leaf_hash blake3) ds))"
  shows "distinct ((next_merkle_layer blake3 ^^ m) (map (leaf_hash blake3) ds))"
  using assms(4)
proof (induction m)
  case 0
  have "inj_on (leaf_hash blake3) (set ds)"
  proof (rule inj_onI)
    fix a b assume "a \<in> set ds" "b \<in> set ds" "leaf_hash blake3 a = leaf_hash blake3 b"
    with tree tree_hash_eq(1) [OF free] leaf_in_tree show "a = b" by blast
  qed
  then show ?case using assms(3) by (simp add: distinct_map)
next
  case (Suc m)
  have "layer_inputs ((next_merkle_layer blake3 ^^ m) (map (leaf_hash blake3) ds)) \<subseteq> S"
    using tree layer_in_tree Suc.prems by blast
  then show ?case using distinct_next_layer [OF free] Suc by simp
qed

lemma layers_inject:
  assumes free: "\<not> inputs_collide blake3 S" and "tree_inputs blake3 ds \<subseteq> S" "tree_inputs blake3 ds' \<subseteq> S"
    and "distinct ds" "distinct ds'"
    and "(next_merkle_layer blake3 ^^ m) (map (leaf_hash blake3) ds) = (next_merkle_layer blake3 ^^ m') (map (leaf_hash blake3) ds')"
    and "\<forall>k < m. 1 < length ((next_merkle_layer blake3 ^^ k) (map (leaf_hash blake3) ds))"
    and "\<forall>k < m'. 1 < length ((next_merkle_layer blake3 ^^ k) (map (leaf_hash blake3) ds'))"
    and "ds \<noteq> []"
  shows "ds = ds'"
  using assms(6-8)
proof (induction m arbitrary: m')
  case 0
  show ?case
  proof (cases m')
    case 0
    with "0.prems"(1) have eq: "map (leaf_hash blake3) ds = map (leaf_hash blake3) ds'" by simp
    have "ds ! i = ds' ! i" if "i < length ds" for i
    proof -
      have "leaf_hash blake3 (ds ! i) = leaf_hash blake3 (ds' ! i)"
        using eq that by (metis length_map nth_map)
      moreover have "ds ! i \<in> set ds" "ds' ! i \<in> set ds'" using that eq by (simp, metis length_map nth_mem)
      ultimately show ?thesis
        using assms(2,3) tree_hash_eq(1) [OF free] leaf_in_tree by blast
    qed
    moreover have "length ds = length ds'" using eq by (metis length_map)
    ultimately show ?thesis by (simp add: nth_equalityI)
  next
    case (Suc k)
    let ?L = "(next_merkle_layer blake3 ^^ k) (map (leaf_hash blake3) ds')"
    obtain d where d: "d \<in> set ds" using assms(9) by (cases ds) auto
    then have "leaf_hash blake3 d \<in> set (map (leaf_hash blake3) ds)" by simp
    then have "leaf_hash blake3 d \<in> set (next_merkle_layer blake3 ?L)" using "0.prems"(1) Suc by (simp del: set_map)
    then obtain x y where xy: "leaf_hash blake3 d = node_hash blake3 (arr_bytes x @ arr_bytes y)"
      "domain_separated_input TransportBatchNodeV1 (arr_bytes x @ arr_bytes y) \<in> layer_inputs ?L"
      by (metis next_layer_mem)
    have "domain_separated_input TransportBatchNodeV1 (arr_bytes x @ arr_bytes y) \<in> S"
      using xy(2) assms(3) "0.prems"(3) Suc layer_in_tree [of k blake3 ds'] by blast
    moreover have "domain_separated_input TransportBatchLeafV1 (arr_bytes d) \<in> S"
      using leaf_in_tree [OF d] assms(2) by blast
    ultimately show ?thesis using tree_hash_eq(3) [OF free] xy(1) by blast
  qed
next
  case (Suc m)
  let ?L = "(next_merkle_layer blake3 ^^ m) (map (leaf_hash blake3) ds)"
  have in1: "layer_inputs ?L \<subseteq> S" using assms(2) Suc.prems(2) layer_in_tree [of m blake3 ds] by blast
  show ?case
  proof (cases m')
    case 0
    have "?L \<noteq> []" using Suc.prems(2) by auto
    then obtain v where v: "v \<in> set (next_merkle_layer blake3 ?L)"
      by (cases ?L rule: remdups_adj.cases) auto
    then obtain x y where xy: "v = node_hash blake3 (arr_bytes x @ arr_bytes y)"
      "domain_separated_input TransportBatchNodeV1 (arr_bytes x @ arr_bytes y) \<in> S"
      using in1 by (metis next_layer_mem subsetD)
    have "v \<in> set (map (leaf_hash blake3) ds')" using v Suc.prems(1) 0 by (simp del: set_map)
    then obtain d where "d \<in> set ds'" "v = leaf_hash blake3 d" by auto
    then show ?thesis using xy assms(3) tree_hash_eq(3) [OF free _ xy(2), of d] leaf_in_tree by blast
  next
    case (Suc k)
    let ?L' = "(next_merkle_layer blake3 ^^ k) (map (leaf_hash blake3) ds')"
    have "layer_inputs ?L' \<subseteq> S" using assms(3) Suc.prems(3) Suc layer_in_tree [of k blake3 ds'] by blast
    moreover have "distinct ?L" using Suc.prems(2) by (intro layers_distinct [OF free assms(2,4)]) simp
    moreover have "distinct ?L'" using Suc.prems(3) Suc by (intro layers_distinct [OF free assms(3,5)]) simp
    moreover have "next_merkle_layer blake3 ?L = next_merkle_layer blake3 ?L'" using Suc.prems(1) Suc by simp
    ultimately have "?L = ?L'" using next_layer_inject [OF free in1] by blast
    then show ?thesis using Suc.IH [of k] Suc.prems(2,3) Suc by simp
  qed
qed

lemma merkle_root_binding:
  assumes "merkle_root blake3 (map (leaf_hash blake3) ds) = Some root"
    and "merkle_root blake3 (map (leaf_hash blake3) ds') = Some root" and "distinct ds" "distinct ds'"
  shows "ds = ds' \<or> inputs_collide blake3 (tree_inputs blake3 ds \<union> tree_inputs blake3 ds')"
proof (cases "inputs_collide blake3 (tree_inputs blake3 ds \<union> tree_inputs blake3 ds')")
  case False
  obtain m where m: "(next_merkle_layer blake3 ^^ m) (map (leaf_hash blake3) ds) = [root]"
    "\<forall>k < m. 1 < length ((next_merkle_layer blake3 ^^ k) (map (leaf_hash blake3) ds))"
    by (rule merkle_root_iterate [OF assms(1)])
  obtain m' where m': "(next_merkle_layer blake3 ^^ m') (map (leaf_hash blake3) ds') = [root]"
    "\<forall>k < m'. 1 < length ((next_merkle_layer blake3 ^^ k) (map (leaf_hash blake3) ds'))"
    by (rule merkle_root_iterate [OF assms(2)])
  have "ds \<noteq> []" using assms(1) by (auto simp: merkle_root_def merkle_loop.simps)
  then have "ds = ds'"
    using layers_inject [OF False _ _ assms(3,4), of m m'] m m' by simp
  then show ?thesis ..
qed simp

lemma merkle_root_total: "ds \<noteq> [] \<Longrightarrow> \<exists>root. merkle_root blake3 ds = Some root"
proof -
  assume "ds \<noteq> []"
  obtain m where m: "merkle_loop blake3 ds = (next_merkle_layer blake3 ^^ m) ds"
    using merkle_loop_iterate by blast
  have "(next_merkle_layer blake3 ^^ k) ds \<noteq> []" for k
  proof (induction k)
    case (Suc k)
    then show ?case by (cases "(next_merkle_layer blake3 ^^ k) ds" rule: remdups_adj.cases) auto
  qed (use \<open>ds \<noteq> []\<close> in simp)
  then show ?thesis using m by (auto simp: merkle_root_def split: list.splits)
qed

end
