(* ===== verification/Transport_Gateway.thy ===== *)
theory Transport_Gateway
  imports Transport_Codecs Merkle_Batches Session_Invariants
begin

text \<open>
  The transport gateway (\<open>crates/transport-gateway/src/lib.rs\<close>): the admission gate, delivery of sealed
  envelopes into an election session, retries, batches, the archive binding, the durable state and the
  submission coordinator. An operation that changes the gateway and the session returns its result with
  the changed states, since an error may leave changes behind.
\<close>

section \<open>The admission gate\<close>

datatype transport_admission_state_v1 = GateOpen | GateClosing | GateClosed

record transport_admission_gate_v1 =
  ag_state :: transport_admission_state_v1
  ag_admitted :: "32 word"
  ag_drain_generation :: u64

definition gate_default :: transport_admission_gate_v1 where
  "gate_default = \<lparr>ag_state = GateOpen, ag_admitted = 0, ag_drain_generation = 0\<rparr>"

definition saturating_add_u32 :: "32 word \<Rightarrow> 32 word \<Rightarrow> 32 word" where
  "saturating_add_u32 a b = (if unat a + unat b < 2 ^ 32 then a + b else - 1)"

definition saturating_add_u64 :: "u64 \<Rightarrow> u64 \<Rightarrow> u64" where
  "saturating_add_u64 a b = (if unat a + unat b < 2 ^ 64 then a + b else - 1)"

definition close_if_drained ::
  "transport_admission_gate_v1 \<Rightarrow> gui_election_session_v1 \<Rightarrow>
   unit tresult \<times> transport_admission_gate_v1 \<times> gui_election_session_v1" where
  "close_if_drained g s =
     (if ag_state g = GateClosing \<and> ag_admitted g = 0 then
        case gui_close s of
          Err _ \<Rightarrow> (Err TransportUnavailable, g, s)
        | Ok s \<Rightarrow> (Ok (), g\<lparr>ag_state := GateClosed\<rparr>, s)
      else (Ok (), g, s))"

definition admit :: "gui_election_session_v1 \<Rightarrow> transport_admission_gate_v1 \<Rightarrow> u64 tresult \<times> transport_admission_gate_v1" where
  "admit s g =
     (if ag_state g \<noteq> GateOpen \<or> lifecycle_state_as_str (lc_state (gs_lifecycle s)) \<noteq> lit ''OPEN'' then
        (Err TransportUnavailable, g)
      else (Ok (ag_drain_generation g), g\<lparr>ag_admitted := saturating_add_u32 (ag_admitted g) 1\<rparr>))"

definition gate_begin_close ::
  "transport_admission_gate_v1 \<Rightarrow> gui_election_session_v1 \<Rightarrow>
   unit tresult \<times> transport_admission_gate_v1 \<times> gui_election_session_v1" where
  "gate_begin_close g s =
     (if ag_state g \<noteq> GateOpen then (Err TransportUnavailable, g, s)
      else close_if_drained (g\<lparr>ag_state := GateClosing\<rparr>) s)"

definition finish_admitted ::
  "u64 \<Rightarrow> transport_admission_gate_v1 \<Rightarrow> gui_election_session_v1 \<Rightarrow>
   unit tresult \<times> transport_admission_gate_v1 \<times> gui_election_session_v1" where
  "finish_admitted admission_generation g s =
     (if ag_state g = GateClosed \<or> admission_generation \<noteq> ag_drain_generation g then (Err TransportUnavailable, g, s)
      else if ag_admitted g = 0 then (Err TransportUnavailable, g, s)
      else close_if_drained (g\<lparr>ag_admitted := ag_admitted g - 1\<rparr>) s)"

definition expire_drain ::
  "transport_admission_gate_v1 \<Rightarrow> gui_election_session_v1 \<Rightarrow>
   unit tresult \<times> transport_admission_gate_v1 \<times> gui_election_session_v1" where
  "expire_drain g s =
     close_if_drained (g\<lparr>ag_drain_generation := ag_drain_generation g + 1, ag_admitted := 0\<rparr>) s"

section \<open>The gateway\<close>

record retry_record_v1 =
  rr_package_digest :: bytes32
  rr_receipt :: voter_transport_receipt_v1

datatype retry_retention_v1 = ActiveElection | VerificationGrace | Expired

primrec retention_code :: "retry_retention_v1 \<Rightarrow> u64" where
  "retention_code ActiveElection = 0"
| "retention_code VerificationGrace = 1"
| "retention_code Expired = 2"

definition retention_from_code :: "u64 \<Rightarrow> retry_retention_v1 tresult" where
  "retention_from_code code =
     (if code = 0 then Ok ActiveElection else if code = 1 then Ok VerificationGrace
      else if code = 2 then Ok Expired else Err InvalidDescriptor)"

record transport_gateway_v1 =
  gw_received_count :: u64
  gw_verified_count :: u64
  gw_accepted_unique_count :: u64
  gw_retries :: "(bytes32, retry_record_v1) btree_map"
  gw_admission :: transport_admission_gate_v1
  gw_pending_digests :: "bytes32 list"
  gw_sealed_batches :: "sealed_transport_batch_v1 list"
  gw_next_batch_id :: u64
  gw_retry_retention :: retry_retention_v1

definition gateway_default :: transport_gateway_v1 where
  "gateway_default =
     \<lparr>gw_received_count = 0, gw_verified_count = 0, gw_accepted_unique_count = 0, gw_retries = bt_new,
      gw_admission = gate_default, gw_pending_digests = [], gw_sealed_batches = [], gw_next_batch_id = 0,
      gw_retry_retention = ActiveElection\<rparr>"

definition threshold_met :: "u64 \<Rightarrow> transport_gateway_v1 \<Rightarrow> bool" where
  "threshold_met floor g \<longleftrightarrow> gw_accepted_unique_count g \<ge> floor"

definition begin_retry_verification_grace :: "transport_gateway_v1 \<Rightarrow> transport_gateway_v1" where
  "begin_retry_verification_grace g =
     (if gw_retry_retention g = ActiveElection then g\<lparr>gw_retry_retention := VerificationGrace\<rparr> else g)"

definition expire_retry_retention :: "transport_gateway_v1 \<Rightarrow> transport_gateway_v1" where
  "expire_retry_retention g = g\<lparr>gw_retries := bt_new, gw_retry_retention := Expired\<rparr>"

definition with_gate ::
  "(transport_admission_gate_v1 \<Rightarrow> gui_election_session_v1 \<Rightarrow>
    unit tresult \<times> transport_admission_gate_v1 \<times> gui_election_session_v1) \<Rightarrow>
   transport_gateway_v1 \<Rightarrow> gui_election_session_v1 \<Rightarrow> unit tresult \<times> transport_gateway_v1 \<times> gui_election_session_v1" where
  "with_gate f g s = (let (r, gate, s) = f (gw_admission g) s in (r, g\<lparr>gw_admission := gate\<rparr>, s))"

definition begin_close ::
  "transport_gateway_v1 \<Rightarrow> gui_election_session_v1 \<Rightarrow> unit tresult \<times> transport_gateway_v1 \<times> gui_election_session_v1" where
  "begin_close = with_gate gate_begin_close"

definition expire_close_drain ::
  "transport_gateway_v1 \<Rightarrow> gui_election_session_v1 \<Rightarrow> unit tresult \<times> transport_gateway_v1 \<times> gui_election_session_v1" where
  "expire_close_drain = with_gate expire_drain"

definition gateway_collect :: "bytes \<Rightarrow> transport_gateway_v1 \<Rightarrow> private_ballot_envelope_v1 tresult \<times> transport_gateway_v1" where
  "gateway_collect encoded g =
     (private_envelope_from_canonical_cbor encoded,
      g\<lparr>gw_received_count := saturating_add_u64 (gw_received_count g) 1\<rparr>)"

definition capability_commitment :: "(bytes \<Rightarrow> bytes32) \<Rightarrow> bytes32 \<Rightarrow> bytes32" where
  "capability_commitment blake3 retry_capability =
     hash_domain_separated (Blake3HashProviderV1 blake3) TransportRetryCapabilityV1 (arr_bytes retry_capability)"

definition transport_package_digest :: "(bytes \<Rightarrow> bytes32) \<Rightarrow> bytes \<Rightarrow> bytes32" where
  "transport_package_digest blake3 bs = hash_domain_separated (Blake3HashProviderV1 blake3) BallotPackageV1 bs"

text \<open>The answer to a capability that already has a record.\<close>

definition retry_receipt :: "bytes32 \<Rightarrow> retry_record_v1 \<Rightarrow> voter_transport_receipt_v1" where
  "retry_receipt digest prior =
     (if rr_package_digest prior \<noteq> digest then
        \<lparr>vr_state = ReceiptRejected, vr_retry_status = GenericDuplicate\<rparr>
      else (rr_receipt prior)\<lparr>vr_retry_status :=
        (if vr_state (rr_receipt prior) = ReceiptAccepted then PreviousDeliveryAccepted else PreviousDeliveryRejected)\<rparr>)"

text \<open>The receipt of a package that went through intake, and the counts it changes.\<close>

definition intake_receipt ::
  "gui_ballot_intake_result_v1 \<Rightarrow> bytes32 \<Rightarrow> transport_gateway_v1 \<Rightarrow> voter_transport_receipt_v1 \<times> transport_gateway_v1" where
  "intake_receipt result digest g =
     (if ir_accepted result then
        (\<lparr>vr_state = ReceiptAccepted, vr_retry_status = NewDelivery\<rparr>,
         g\<lparr>gw_accepted_unique_count := saturating_add_u64 (gw_accepted_unique_count g) 1,
           gw_pending_digests := gw_pending_digests g @ [digest]\<rparr>)
      else if ir_category result = IntakeDuplicate then
        (if digest \<in> set (gw_pending_digests g) then
           \<lparr>vr_state = ReceiptAccepted, vr_retry_status = PreviousDeliveryAccepted\<rparr>
         else \<lparr>vr_state = ReceiptRejected, vr_retry_status = GenericDuplicate\<rparr>, g)
      else (\<lparr>vr_state = ReceiptRejected, vr_retry_status = NewDelivery\<rparr>, g))"

definition deliver_admitted ::
  "('pk, 'hsk, 'rnd) hpke \<Rightarrow> ('q, 'pt, 'pp, 'is, 'ts, 'pf, 'tr) triptych_lib \<Rightarrow> (bytes \<Rightarrow> bytes32) \<Rightarrow> bytes \<Rightarrow>
   transport_descriptor_v1 \<Rightarrow> bytes32 \<Rightarrow> bytes32 \<Rightarrow> u64 \<Rightarrow> transport_gateway_v1 \<Rightarrow> gui_election_session_v1 \<Rightarrow>
   (voter_transport_receipt_v1 \<times> bytes32) tresult \<times> transport_gateway_v1 \<times> gui_election_session_v1" where
  "deliver_admitted H L blake3 encoded d receiver_key retry_capability admission_generation g s =
     (let (envelope, g) = gateway_collect encoded g in
      case and_then envelope (\<lambda>e. open_envelope_bytes_v1 H blake3 e d receiver_key) of
        Err e \<Rightarrow> (Err e, g, s)
      | Ok package_bytes \<Rightarrow>
          let package_digest = transport_package_digest blake3 package_bytes;
              commitment = capability_commitment blake3 retry_capability in
          case bt_get (gw_retries g) commitment of
            Some prior \<Rightarrow> (Ok (retry_receipt package_digest prior, package_digest), g, s)
          | None \<Rightarrow>
              if ag_state (gw_admission g) = GateClosed
                 \<or> admission_generation \<noteq> ag_drain_generation (gw_admission g) then
                (Err TransportUnavailable, g, s)
              else
                let g = g\<lparr>gw_verified_count := saturating_add_u64 (gw_verified_count g) 1\<rparr> in
                case intake_ballot_package_bytes L blake3 package_bytes s of
                  Err _ \<Rightarrow> (Err TransportUnavailable, g, s)
                | Ok (result, s) \<Rightarrow>
                    let (receipt, g) = intake_receipt result package_digest g;
                        g = (if gw_retry_retention g \<noteq> Expired then
                               g\<lparr>gw_retries := bt_insert commitment
                                   \<lparr>rr_package_digest = package_digest, rr_receipt = receipt\<rparr> (gw_retries g)\<rparr>
                             else g) in
                    (Ok (receipt, package_digest), g, s))"

definition deliver_and_digest ::
  "('pk, 'hsk, 'rnd) hpke \<Rightarrow> ('q, 'pt, 'pp, 'is, 'ts, 'pf, 'tr) triptych_lib \<Rightarrow> (bytes \<Rightarrow> bytes32) \<Rightarrow> bytes \<Rightarrow>
   transport_descriptor_v1 \<Rightarrow> bytes32 \<Rightarrow> bytes32 \<Rightarrow> transport_gateway_v1 \<Rightarrow> gui_election_session_v1 \<Rightarrow>
   (voter_transport_receipt_v1 \<times> bytes32) tresult \<times> transport_gateway_v1 \<times> gui_election_session_v1" where
  "deliver_and_digest H L blake3 encoded d receiver_key retry_capability g s =
     (case admit s (gw_admission g) of
        (Err e, _) \<Rightarrow> (Err e, g, s)
      | (Ok admission_generation, gate) \<Rightarrow>
          let (result, g, s) = deliver_admitted H L blake3 encoded d receiver_key retry_capability admission_generation
                (g\<lparr>gw_admission := gate\<rparr>) s;
              (finished, g, s) = with_gate (finish_admitted admission_generation) g s in
          (case finished of Err e \<Rightarrow> (Err e, g, s) | Ok _ \<Rightarrow> (result, g, s)))"

definition deliver ::
  "('pk, 'hsk, 'rnd) hpke \<Rightarrow> ('q, 'pt, 'pp, 'is, 'ts, 'pf, 'tr) triptych_lib \<Rightarrow> (bytes \<Rightarrow> bytes32) \<Rightarrow> bytes \<Rightarrow>
   transport_descriptor_v1 \<Rightarrow> bytes32 \<Rightarrow> bytes32 \<Rightarrow> transport_gateway_v1 \<Rightarrow> gui_election_session_v1 \<Rightarrow>
   voter_transport_receipt_v1 tresult \<times> transport_gateway_v1 \<times> gui_election_session_v1" where
  "deliver H L blake3 encoded d receiver_key retry_capability g s =
     (let (result, g, s) = deliver_and_digest H L blake3 encoded d receiver_key retry_capability g s in
      (and_then result (\<lambda>(receipt, _). Ok receipt), g, s))"

section \<open>Batches and the archive binding\<close>

text \<open>\<open>sort_unstable\<close> followed by \<open>dedup\<close>.\<close>

definition sort_dedup :: "bytes32 list \<Rightarrow> bytes32 list" where
  "sort_dedup ds = remdups_adj (sort ds)"

definition seal_pending_batch ::
  "(bytes \<Rightarrow> bytes32) \<Rightarrow> u64 \<Rightarrow> bool \<Rightarrow> transport_gateway_v1 \<Rightarrow> sealed_transport_batch_v1 option \<times> transport_gateway_v1" where
  "seal_pending_batch blake3 floor final_close_batch g =
     (if gw_pending_digests g = [] \<or> (\<not> final_close_batch \<and> length (gw_pending_digests g) < unat floor) then (None, g)
      else
        let digests = sort_dedup (gw_pending_digests g);
            g = g\<lparr>gw_pending_digests := []\<rparr> in
        case merkle_root blake3 (map (leaf_hash blake3) digests) of
          None \<Rightarrow> (None, g)
        | Some root \<Rightarrow>
            let batch = \<lparr>sb_batch_id = gw_next_batch_id g, sb_root = root,
                         sb_accepted_unique_count = word_of_nat (length digests),
                         sb_reduced_anonymity = (length digests < unat floor), sb_digests = digests\<rparr> in
            (Some batch, g\<lparr>gw_next_batch_id := saturating_add_u64 (gw_next_batch_id g) 1,
                           gw_sealed_batches := gw_sealed_batches g @ [batch]\<rparr>))"

definition seed_pending_digests_for_recovery :: "bytes32 list \<Rightarrow> transport_gateway_v1 \<Rightarrow> transport_gateway_v1" where
  "seed_pending_digests_for_recovery digests g = g\<lparr>gw_pending_digests := digests\<rparr>"

definition final_batch_set_commitment :: "(bytes \<Rightarrow> bytes32) \<Rightarrow> transport_gateway_v1 \<Rightarrow> bytes32 option" where
  "final_batch_set_commitment blake3 g =
     (if gw_sealed_batches g = [] then None
      else
        Some (hash_domain_separated (Blake3HashProviderV1 blake3) TransportBatchSetV1
          (concat (map arr_bytes (sort (map sb_root (gw_sealed_batches g)))))))"

definition archive_batch :: "sealed_transport_batch_v1 \<Rightarrow> transport_archive_batch_v1" where
  "archive_batch b =
     \<lparr>ba_batch_id = sb_batch_id b, ba_root = sb_root b, ba_accepted_unique_count = sb_accepted_unique_count b,
      ba_reduced_anonymity = sb_reduced_anonymity b\<rparr>"

definition transport_archive_binding ::
  "(bytes \<Rightarrow> bytes32) \<Rightarrow> transport_descriptor_v1 \<Rightarrow> transport_gateway_v1 \<Rightarrow> transport_archive_binding_v1 option tresult" where
  "transport_archive_binding blake3 d g =
     (if gw_sealed_batches g = [] then Ok None
      else
        and_then (descriptor_fingerprint blake3 d) (\<lambda>fingerprint.
        and_then (map_err (\<lambda>_. InvalidDescriptor) (TransportArchiveBindingV1_new blake3 (td_election_id d)
          (td_manifest_hash d) fingerprint (td_generation d) (map archive_batch (gw_sealed_batches g)))) (\<lambda>binding.
        Ok (Some binding))))"

definition MAX_DURABLE_RETRIES :: nat where "MAX_DURABLE_RETRIES = 65536"
definition MAX_DURABLE_BATCHES :: nat where "MAX_DURABLE_BATCHES = 4096"
definition MAX_DURABLE_PENDING :: nat where "MAX_DURABLE_PENDING = 65536"

definition finalized_transport_archive_binding_from_accepted_digests_v1 ::
  "(bytes \<Rightarrow> bytes32) \<Rightarrow> transport_descriptor_v1 \<Rightarrow> bytes32 list \<Rightarrow> transport_archive_binding_v1 option tresult" where
  "finalized_transport_archive_binding_from_accepted_digests_v1 blake3 d accepted_digests =
     (if accepted_digests = [] then Ok None
      else if length accepted_digests > MAX_DURABLE_PENDING then Err TransportUnavailable
      else
        let g = seed_pending_digests_for_recovery accepted_digests gateway_default;
            (_, g) = seal_pending_batch blake3 (bo_accepted_unique_floor (td_batch d)) True g in
        transport_archive_binding blake3 d g)"

end
