(* ===== verification/Gateway_Durable.thy ===== *)
theory Gateway_Durable
  imports Transport_Gateway
begin

text \<open>
  The durable state of the gateway (\<open>crates/transport-gateway/src/lib.rs\<close>, \<open>durable_state\<close>,
  \<open>decode_durable_state\<close>, \<open>load_durable_state\<close>): what is written, which byte strings are accepted back,
  and that a gateway within the limits is restored. The files themselves are not modelled.
\<close>

section \<open>Writing\<close>

definition DURABLE_STATE_VERSION :: u64 where "DURABLE_STATE_VERSION = 1"
definition DURABLE_STATE_TYPE_ID :: rstring where
  "DURABLE_STATE_TYPE_ID = lit ''TARI_CC_PRIVATE_BALLOT_TRANSPORT_GATEWAY_STATE_V1''"

definition write_retry :: "bytes32 \<times> retry_record_v1 \<Rightarrow> cbor_writer \<Rightarrow> cbor_writer presult" where
  "write_retry entry w =
     and_then (write_array_len 3 w) (\<lambda>w.
     and_then (write_byte_string (arr_bytes (fst entry)) w) (\<lambda>w.
     and_then (write_byte_string (arr_bytes (rr_package_digest (snd entry))) w) (\<lambda>w.
     Ok (write_unsigned (receipt_state_code (vr_state (rr_receipt (snd entry)))) w))))"

definition write_digest :: "bytes32 \<Rightarrow> cbor_writer \<Rightarrow> cbor_writer presult" where
  "write_digest digest w = write_byte_string (arr_bytes digest) w"

definition write_sealed_batch :: "sealed_transport_batch_v1 \<Rightarrow> cbor_writer \<Rightarrow> cbor_writer presult" where
  "write_sealed_batch b w =
     and_then (write_array_len 5 w) (\<lambda>w.
     let w = write_unsigned (sb_batch_id b) w in
     and_then (write_byte_string (arr_bytes (sb_root b)) w) (\<lambda>w.
     let w = write_unsigned (sb_accepted_unique_count b) w;
         w = write_bool (sb_reduced_anonymity b) w in
     and_then (write_array_len (length (sb_digests b)) w) (write_all write_digest (sb_digests b))))"

definition durable_state :: "(bytes \<Rightarrow> bytes32) \<Rightarrow> transport_descriptor_v1 \<Rightarrow> transport_gateway_v1 \<Rightarrow> bytes tresult" where
  "durable_state blake3 d g =
     and_then (descriptor_fingerprint blake3 d) (\<lambda>fingerprint. bad_descriptor (
     and_then (write_array_len 14 new_writer) (\<lambda>w.
     let w = write_unsigned DURABLE_STATE_VERSION w in
     and_then (write_text_string DURABLE_STATE_TYPE_ID w) (\<lambda>w.
     and_then (write_byte_string (td_election_id d) w) (\<lambda>w.
     and_then (write_byte_string (arr_bytes (manifest_hash_bytes (td_manifest_hash d))) w) (\<lambda>w.
     and_then (write_byte_string (arr_bytes fingerprint) w) (\<lambda>w.
     let w = write_unsigned (td_generation d) w;
         w = write_unsigned (gw_received_count g) w;
         w = write_unsigned (gw_verified_count g) w;
         w = write_unsigned (gw_accepted_unique_count g) w;
         w = write_unsigned (gw_next_batch_id g) w;
         w = write_unsigned (retention_code (gw_retry_retention g)) w in
     and_then (write_array_len (length (gw_retries g)) w) (\<lambda>w.
     and_then (write_all write_retry (gw_retries g) w) (\<lambda>w.
     let pending_digests = sort_dedup (gw_pending_digests g) in
     and_then (write_array_len (length pending_digests) w) (\<lambda>w.
     and_then (write_all write_digest pending_digests w) (\<lambda>w.
     and_then (write_array_len (length (gw_sealed_batches g)) w) (\<lambda>w.
     and_then (write_all write_sealed_batch (gw_sealed_batches g) w) (\<lambda>w.
     Ok (into_bytes w))))))))))))))"

section \<open>Reading\<close>

text \<open>The reader of the gateway accepts only the two terminal receipt states.\<close>

definition durable_receipt_state_from_code :: "u64 \<Rightarrow> voter_receipt_state_v1 presult" where
  "durable_receipt_state_from_code code =
     (if code = 1 then Ok ReceiptAccepted else if code = 2 then Ok ReceiptRejected else Err InvalidData)"

definition read_retry :: "cbor_reader \<Rightarrow> (bytes32 \<times> retry_record_v1) read" where
  "read_retry r =
     and_then (read_array_len r) (\<lambda>(n, r).
     if n \<noteq> 3 then Err InvalidData
     else
       and_then (read_fixed r) (\<lambda>(commitment, r).
       and_then (read_fixed r) (\<lambda>(digest, r).
       and_then (read_unsigned r) (\<lambda>(code, r).
       and_then (durable_receipt_state_from_code code) (\<lambda>state.
       Ok ((commitment, \<lparr>rr_package_digest = digest,
             rr_receipt = \<lparr>vr_state = state, vr_retry_status = NewDelivery\<rparr>\<rparr>), r))))))"

fun insert_retries ::
  "(bytes32 \<times> retry_record_v1) list \<Rightarrow> (bytes32, retry_record_v1) btree_map \<Rightarrow> (bytes32, retry_record_v1) btree_map presult" where
  "insert_retries [] m = Ok m"
| "insert_retries ((k, v) # rest) m =
     (if bt_get m k \<noteq> None then Err InvalidData else insert_retries rest (bt_insert k v m))"

definition read_sealed_batch :: "(bytes \<Rightarrow> bytes32) \<Rightarrow> cbor_reader \<Rightarrow> sealed_transport_batch_v1 read" where
  "read_sealed_batch blake3 r =
     and_then (read_array_len r) (\<lambda>(n, r).
     if n \<noteq> 5 then Err InvalidData
     else
       and_then (read_unsigned r) (\<lambda>(batch_id, r).
       and_then (read_fixed r) (\<lambda>(root, r).
       and_then (read_unsigned r) (\<lambda>(accepted, r).
       and_then (read_bool r) (\<lambda>(reduced_anonymity, r).
       and_then (read_array_len r) (\<lambda>(digest_count, r).
       if digest_count = 0 \<or> digest_count > MAX_DURABLE_PENDING then Err InvalidData
       else
         and_then (read_many read_fixed digest_count r) (\<lambda>(digests, r).
         if windows2_any (\<lambda>a b. a \<ge> b) digests \<or> accepted \<noteq> word_of_nat (length digests) then Err InvalidData
         else if merkle_root blake3 (map (leaf_hash blake3) digests) \<noteq> Some root then Err InvalidData
         else
           Ok (\<lparr>sb_batch_id = batch_id, sb_root = root, sb_accepted_unique_count = accepted,
                sb_reduced_anonymity = reduced_anonymity, sb_digests = digests\<rparr>, r))))))))"

definition read_durable_header :: "cbor_reader \<Rightarrow> (bytes \<times> bytes32 \<times> bytes32 \<times> u64) read" where
  "read_durable_header r =
     and_then (read_array_len r) (\<lambda>(n, r).
     if n \<noteq> 14 then Err InvalidData
     else
       and_then (read_unsigned r) (\<lambda>(version, r).
       if version \<noteq> DURABLE_STATE_VERSION then Err InvalidData
       else
         and_then (read_text_string r) (\<lambda>(type_id, r).
         if type_id \<noteq> DURABLE_STATE_TYPE_ID then Err InvalidData
         else
           and_then (read_byte_string r) (\<lambda>(election_id, r).
           and_then (read_fixed r) (\<lambda>(manifest_hash, r).
           and_then (read_fixed r) (\<lambda>(fingerprint, r).
           and_then (read_unsigned r) (\<lambda>(generation, r).
           Ok ((election_id, manifest_hash, fingerprint, generation), r))))))))"

definition check_gateway_counts :: "transport_gateway_v1 \<Rightarrow> bool" where
  "check_gateway_counts g \<longleftrightarrow>
     \<not> windows2_any (\<lambda>a b. sb_batch_id a \<ge> sb_batch_id b) (gw_sealed_batches g)
     \<and> (gw_sealed_batches g = [] \<or> gw_next_batch_id g > sb_batch_id (last (gw_sealed_batches g)))
     \<and> gw_accepted_unique_count g =
         word_of_nat (length (gw_pending_digests g)) + sum_list (map sb_accepted_unique_count (gw_sealed_batches g))
     \<and> gw_verified_count g \<ge> gw_accepted_unique_count g
     \<and> gw_received_count g \<ge> gw_verified_count g"

definition read_retention :: "cbor_reader \<Rightarrow> retry_retention_v1 read" where
  "read_retention r =
     and_then (read_unsigned r) (\<lambda>(code, r).
     and_then (map_err (\<lambda>_. InvalidData) (retention_from_code code)) (\<lambda>retention. Ok (retention, r)))"

definition read_durable_body :: "(bytes \<Rightarrow> bytes32) \<Rightarrow> cbor_reader \<Rightarrow> transport_gateway_v1 presult" where
  "read_durable_body blake3 r =
     and_then (read_unsigned r) (\<lambda>(received_count, r).
     and_then (read_unsigned r) (\<lambda>(verified_count, r).
     and_then (read_unsigned r) (\<lambda>(accepted_unique_count, r).
     and_then (read_unsigned r) (\<lambda>(next_batch_id, r).
     and_then (read_retention r) (\<lambda>(retry_retention, r).
     and_then (read_array_len r) (\<lambda>(retry_count, r).
     if retry_count > MAX_DURABLE_RETRIES then Err InvalidData
     else
       and_then (read_many read_retry retry_count r) (\<lambda>(entries, r).
       and_then (insert_retries entries bt_new) (\<lambda>retries.
       if retry_retention = Expired \<and> retries \<noteq> [] then Err InvalidData
       else
         and_then (read_array_len r) (\<lambda>(pending_count, r).
         if pending_count > MAX_DURABLE_PENDING then Err InvalidData
         else
           and_then (read_many read_fixed pending_count r) (\<lambda>(digests, r).
           let pending_digests = sort digests in
           if windows2_any (\<lambda>a b. a = b) pending_digests then Err InvalidData
           else
             and_then (read_array_len r) (\<lambda>(batch_count, r).
             if batch_count > MAX_DURABLE_BATCHES then Err InvalidData
             else
               and_then (read_many (read_sealed_batch blake3) batch_count r) (\<lambda>(sealed_batches, r).
               and_then (finish r) (\<lambda>_.
               let g = \<lparr>gw_received_count = received_count, gw_verified_count = verified_count,
                        gw_accepted_unique_count = accepted_unique_count, gw_retries = retries,
                        gw_admission = gate_default, gw_pending_digests = pending_digests,
                        gw_sealed_batches = sealed_batches, gw_next_batch_id = next_batch_id,
                        gw_retry_retention = retry_retention\<rparr> in
               if check_gateway_counts g then Ok g else Err InvalidData)))))))))))))"

definition decode_durable_state ::
  "(bytes \<Rightarrow> bytes32) \<Rightarrow> bytes \<Rightarrow> transport_descriptor_v1 \<Rightarrow> transport_gateway_v1 tresult" where
  "decode_durable_state blake3 bytes d =
     and_then (bad_descriptor (read_durable_header (new_reader bytes)))
       (\<lambda>((election_id, manifest_hash, fingerprint, generation), r).
     if election_id \<noteq> td_election_id d \<or> ManifestHash manifest_hash \<noteq> td_manifest_hash d then Err WrongDescriptor
     else
       and_then (descriptor_fingerprint blake3 d) (\<lambda>expected.
       if fingerprint \<noteq> expected \<or> generation \<noteq> td_generation d then Err WrongDescriptor
       else bad_descriptor (read_durable_body blake3 r)))"

text \<open>\<open>load_durable_state\<close> on the bytes that were read from the file.\<close>

definition load_durable_state ::
  "(bytes \<Rightarrow> bytes32) \<Rightarrow> transport_descriptor_v1 \<Rightarrow> bytes \<Rightarrow> transport_gateway_v1 tresult" where
  "load_durable_state blake3 d bytes =
     and_then (decode_durable_state blake3 bytes d) (\<lambda>state.
     and_then (durable_state blake3 d state) (\<lambda>reencoded.
     if reencoded \<noteq> bytes then Err InvalidDescriptor else Ok state))"

section \<open>Codecs of the parts\<close>

definition digest_enc :: "bytes32 \<Rightarrow> bytes" where
  "digest_enc a = enc_bytes (arr_bytes a)"

definition retry_enc :: "bytes32 \<times> retry_record_v1 \<Rightarrow> bytes" where
  "retry_enc entry = enc_len MAJOR_ARRAY 3 @ digest_enc (fst entry) @ digest_enc (rr_package_digest (snd entry))
     @ enc_unsigned (receipt_state_code (vr_state (rr_receipt (snd entry))))"

definition durable_retry :: "retry_record_v1 \<Rightarrow> bool" where
  "durable_retry r \<longleftrightarrow> vr_state (rr_receipt r) \<noteq> ReceiptReceived \<and> vr_retry_status (rr_receipt r) = NewDelivery"

lemma durable_state_code_iff:
  "durable_receipt_state_from_code c = Ok s \<longleftrightarrow> s \<noteq> ReceiptReceived \<and> c = receipt_state_code s"
  by (cases s) (auto simp: durable_receipt_state_from_code_def split: if_splits)

lemma durable_digest_c: "cbor_codec read_fixed digest_enc (\<lambda>_. True)"
  using fixed_c.cbor_codec_axioms by (simp add: digest_enc_def [abs_def])

interpretation retry_c: cbor_codec read_retry retry_enc "\<lambda>entry. durable_retry (snd entry)"
proof unfold_locales
  fix entry pre rest
  assume "durable_retry (snd entry)" and "fits (pre @ retry_enc entry @ rest)"
  then show "read_retry (rd pre (retry_enc entry @ rest)) = Ok (entry, rd (pre @ retry_enc entry) rest)"
    using durable_state_code_iff [of "receipt_state_code (vr_state (rr_receipt (snd entry)))" "vr_state (rr_receipt (snd entry))"]
    by (cases entry; cases "snd entry"; cases "rr_receipt (snd entry)")
      (simp add: read_retry_def retry_enc_def digest_enc_def durable_retry_def array_c.read_enc fixed_c.read_enc unsigned_c.read_enc)
next
  fix pre bs entry r
  assume "read_retry (rd pre bs) = Ok (entry, r)"
  then show "durable_retry (snd entry) \<and> (\<exists>rest. bs = retry_enc entry @ rest \<and> r = rd (pre @ retry_enc entry) rest)"
    by (auto simp: read_retry_def result_inv retry_enc_def digest_enc_def durable_retry_def durable_state_code_iff
        dest!: array_c.enc_read fixed_c.enc_read unsigned_c.enc_read split: if_splits)
qed

definition sealed_batch_enc :: "sealed_transport_batch_v1 \<Rightarrow> bytes" where
  "sealed_batch_enc b = enc_len MAJOR_ARRAY 5 @ enc_unsigned (sb_batch_id b) @ digest_enc (sb_root b)
     @ enc_unsigned (sb_accepted_unique_count b) @ enc_bool (sb_reduced_anonymity b) @ enc_seq digest_enc (sb_digests b)"

text \<open>A batch as sealing builds it: increasing digests, their Merkle root and their number.\<close>

definition wf_sealed_batch :: "(bytes \<Rightarrow> bytes32) \<Rightarrow> sealed_transport_batch_v1 \<Rightarrow> bool" where
  "wf_sealed_batch blake3 b \<longleftrightarrow>
     sb_digests b \<noteq> [] \<and> sorted_wrt (<) (sb_digests b)
     \<and> merkle_root blake3 (map (leaf_hash blake3) (sb_digests b)) = Some (sb_root b)
     \<and> sb_accepted_unique_count b = word_of_nat (length (sb_digests b))"

lemma windows2_ge_iff: "windows2_any (\<lambda>a b. a \<ge> b) xs \<longleftrightarrow> \<not> sorted_wrt (<) (xs :: 'a::linorder list)"
proof -
  have "transp ((<) :: 'a \<Rightarrow> 'a \<Rightarrow> bool)" by (rule transpI) (rule less_trans)
  from windows2_any_sorted_wrt [OF this, of xs] show ?thesis by (auto simp: not_less)
qed

lemma digests_read:
  "fits (pre @ concat (map digest_enc ds) @ rest) \<Longrightarrow>
     read_many read_fixed (length ds) (rd pre (concat (map digest_enc ds) @ rest)) =
       Ok (ds, rd (pre @ concat (map digest_enc ds)) rest)"
  using cbor_codec.read_many_enc [OF durable_digest_c, of ds pre rest] by (simp add: list_all_iff)

lemma digests_readD:
  "read_many read_fixed n (rd pre bs) = Ok (ds, r) \<Longrightarrow>
     length ds = n \<and> (\<exists>rest. bs = concat (map digest_enc ds) @ rest \<and> r = rd (pre @ concat (map digest_enc ds)) rest)"
  using cbor_codec.enc_read_many [OF durable_digest_c] by blast

lemma durable_limits_ok [simp]: "len_ok MAX_DURABLE_PENDING" "len_ok MAX_DURABLE_RETRIES" "len_ok MAX_DURABLE_BATCHES"
  by (simp_all add: MAX_DURABLE_PENDING_def MAX_DURABLE_RETRIES_def MAX_DURABLE_BATCHES_def)

interpretation sealed_batch_c: cbor_codec "read_sealed_batch blake3" sealed_batch_enc
  "\<lambda>b. wf_sealed_batch blake3 b \<and> length (sb_digests b) \<le> MAX_DURABLE_PENDING" for blake3
proof unfold_locales
  fix b pre rest
  assume wf: "wf_sealed_batch blake3 b \<and> length (sb_digests b) \<le> MAX_DURABLE_PENDING"
    and fit: "fits (pre @ sealed_batch_enc b @ rest)"
  have n: "len_ok (length (sb_digests b))" using wf len_ok_le [OF _ durable_limits_ok(1)] by blast
  from wf fit n show "read_sealed_batch blake3 (rd pre (sealed_batch_enc b @ rest)) = Ok (b, rd (pre @ sealed_batch_enc b) rest)"
    by (cases b) (simp add: read_sealed_batch_def sealed_batch_enc_def enc_seq_def wf_sealed_batch_def windows2_ge_iff
        array_c.read_enc unsigned_c.read_enc cbor_codec.read_enc [OF durable_digest_c] bool_c.read_enc digests_read)
next
  fix pre bs b r
  assume "read_sealed_batch blake3 (rd pre bs) = Ok (b, r)"
  then show "(wf_sealed_batch blake3 b \<and> length (sb_digests b) \<le> MAX_DURABLE_PENDING)
      \<and> (\<exists>rest. bs = sealed_batch_enc b @ rest \<and> r = rd (pre @ sealed_batch_enc b) rest)"
    by (auto simp: read_sealed_batch_def result_inv sealed_batch_enc_def enc_seq_def wf_sealed_batch_def windows2_ge_iff
        split: if_splits dest!: array_c.enc_read unsigned_c.enc_read cbor_codec.enc_read [OF durable_digest_c] bool_c.enc_read digests_readD)
qed

lemma retention_code_iff: "retention_from_code c = Ok r \<longleftrightarrow> c = retention_code r"
  by (cases r) (auto simp: retention_from_code_def split: if_splits)

interpretation retention_c: cbor_codec read_retention "\<lambda>r. enc_unsigned (retention_code r)" "\<lambda>_. True"
  unfolding read_retention_def [abs_def]
  by (rule unsigned_c.codec_validated [where proj = retention_code and valid = "\<lambda>_. True"])
    (simp_all add: map_err_Ok_iff retention_code_iff)

section \<open>What is restored\<close>

text \<open>
  The gateway that a load gives back: the gate is the default one, the retry statuses are those of a new
  delivery, and the pending digests are sorted.
\<close>

definition durable_record :: "retry_record_v1 \<Rightarrow> retry_record_v1" where
  "durable_record r = r\<lparr>rr_receipt := (rr_receipt r)\<lparr>vr_retry_status := NewDelivery\<rparr>\<rparr>"

definition restored :: "transport_gateway_v1 \<Rightarrow> transport_gateway_v1" where
  "restored g = g\<lparr>gw_retries := map (\<lambda>(k, r). (k, durable_record r)) (gw_retries g), gw_admission := gate_default,
     gw_pending_digests := sort_dedup (gw_pending_digests g)\<rparr>"

definition durable_ok :: "(bytes \<Rightarrow> bytes32) \<Rightarrow> transport_gateway_v1 \<Rightarrow> bool" where
  "durable_ok blake3 g \<longleftrightarrow>
     bt_inv (gw_retries g) \<and> (\<forall>e \<in> set (gw_retries g). vr_state (rr_receipt (snd e)) \<noteq> ReceiptReceived)
     \<and> (gw_retry_retention g = Expired \<longrightarrow> gw_retries g = [])
     \<and> length (gw_retries g) \<le> MAX_DURABLE_RETRIES \<and> length (gw_pending_digests g) \<le> MAX_DURABLE_PENDING
     \<and> length (gw_sealed_batches g) \<le> MAX_DURABLE_BATCHES
     \<and> (\<forall>b \<in> set (gw_sealed_batches g). wf_sealed_batch blake3 b \<and> length (sb_digests b) \<le> MAX_DURABLE_PENDING)
     \<and> check_gateway_counts (restored g)"

definition durable_body_enc :: "transport_gateway_v1 \<Rightarrow> bytes" where
  "durable_body_enc g =
     enc_unsigned (gw_received_count g) @ enc_unsigned (gw_verified_count g) @ enc_unsigned (gw_accepted_unique_count g)
     @ enc_unsigned (gw_next_batch_id g) @ enc_unsigned (retention_code (gw_retry_retention g))
     @ enc_seq retry_enc (gw_retries g) @ enc_seq digest_enc (sort_dedup (gw_pending_digests g))
     @ enc_seq sealed_batch_enc (gw_sealed_batches g)"

definition durable_header_enc :: "transport_descriptor_v1 \<Rightarrow> bytes32 \<Rightarrow> bytes" where
  "durable_header_enc d fp =
     enc_len MAJOR_ARRAY 14 @ enc_unsigned DURABLE_STATE_VERSION @ enc_text DURABLE_STATE_TYPE_ID @ enc_bytes (td_election_id d)
     @ digest_enc (manifest_hash_bytes (td_manifest_hash d)) @ digest_enc fp @ enc_unsigned (td_generation d)"

lemma durable_text [simp]: "utf8_valid DURABLE_STATE_TYPE_ID" "length DURABLE_STATE_TYPE_ID = 49"
  by (simp_all add: DURABLE_STATE_TYPE_ID_def lit_def utf8_valid_ascii)

lemma sorted_remdups_adj_distinct: "sorted (xs :: 'a::linorder list) \<Longrightarrow> distinct (remdups_adj xs)"
  by (induction xs rule: remdups_adj.induct) (auto simp: antisym)

lemma sort_dedup_strict: "sorted_wrt (<) (sort_dedup ds)"
  by (simp add: sort_dedup_def strictly_sorted_iff sorted_remdups_adj sorted_remdups_adj_distinct)

lemma set_sort_dedup [simp]: "set (sort_dedup ds) = set ds"
  by (simp add: sort_dedup_def)

lemma length_sort_dedup: "length (sort_dedup ds) \<le> length ds"
  using remdups_adj_length [of "sort ds"] by (simp add: sort_dedup_def)

lemma sort_dedup_idem: "sorted_wrt (<) ds \<Longrightarrow> sort_dedup ds = ds"
  by (simp add: sort_dedup_def strictly_sorted_iff sorted_sort_id remdups_adj_distinct)

lemma write_retry_append: "write_retry e \<lparr>w_output = out\<rparr> = Ok \<lparr>w_output = out @ retry_enc e\<rparr>"
  by (simp add: write_retry_def retry_enc_def digest_enc_def)

lemma write_digest_append: "write_digest a \<lparr>w_output = out\<rparr> = Ok \<lparr>w_output = out @ digest_enc a\<rparr>"
  by (simp add: write_digest_def digest_enc_def)

lemma write_sealed_batch_append:
  "len_ok (length (sb_digests b)) \<Longrightarrow>
     write_sealed_batch b \<lparr>w_output = out\<rparr> = Ok \<lparr>w_output = out @ sealed_batch_enc b\<rparr>"
  using write_all_append [of "sb_digests b" write_digest digest_enc] write_digest_append
  by (simp add: write_sealed_batch_def sealed_batch_enc_def enc_seq_def digest_enc_def [of "sb_root b"])

lemma durable_state_eq:
  assumes "descriptor_fingerprint blake3 d = Ok fp" and "len_ok (length (td_election_id d))"
    and "len_ok (length (gw_retries g))" "len_ok (length (gw_pending_digests g))" "len_ok (length (gw_sealed_batches g))"
    and "\<forall>b \<in> set (gw_sealed_batches g). len_ok (length (sb_digests b))"
  shows "durable_state blake3 d g = Ok (durable_header_enc d fp @ durable_body_enc g)"
proof -
  let ?ps = "sort_dedup (gw_pending_digests g)"
  have "len_ok (length ?ps)" using len_ok_le [OF length_sort_dedup assms(4)] .
  moreover have "write_all write_retry (gw_retries g) \<lparr>w_output = out\<rparr> = Ok \<lparr>w_output = out @ concat (map retry_enc (gw_retries g))\<rparr>" for out
    by (rule write_all_append) (rule write_retry_append)
  moreover have "write_all write_digest ?ps \<lparr>w_output = out\<rparr> = Ok \<lparr>w_output = out @ concat (map digest_enc ?ps)\<rparr>" for out
    by (rule write_all_append) (rule write_digest_append)
  moreover have "write_all write_sealed_batch (gw_sealed_batches g) \<lparr>w_output = out\<rparr>
      = Ok \<lparr>w_output = out @ concat (map sealed_batch_enc (gw_sealed_batches g))\<rparr>" for out
    using assms(6) by (intro write_all_append write_sealed_batch_append) blast
  ultimately show ?thesis
    using assms by (simp add: durable_state_def durable_header_enc_def durable_body_enc_def enc_seq_def digest_enc_def Let_def)
qed

lemma insert_retries_sorted:
  assumes "sorted_wrt (<) (map fst (m @ es))"
  shows "insert_retries es m = Ok (m @ es)"
  using assms
proof (induction es arbitrary: m)
  case (Cons e es)
  obtain k v where e: "e = (k, v)" by (cases e)
  have lt: "\<forall>x \<in> set m. fst x < k" using Cons.prems e by (auto simp: sorted_wrt_append)
  then have "bt_get m k = None" by (auto simp: bt_get_def map_of_eq_None_iff)
  moreover have "bt_insert k v m = m @ [(k, v)]"
    using lt by (induction m) auto
  ultimately show ?case using Cons.IH [of "m @ [(k, v)]"] Cons.prems e by simp
qed simp

lemma read_durable_header_enc:
  assumes "len_ok (length (td_election_id d))" and "fits (durable_header_enc d fp @ rest)"
  shows "read_durable_header (rd [] (durable_header_enc d fp @ rest)) =
    Ok ((td_election_id d, manifest_hash_bytes (td_manifest_hash d), fp, td_generation d), rd (durable_header_enc d fp) rest)"
  using assms
  by (simp add: read_durable_header_def durable_header_enc_def array_c.read_enc [of _ "[]", simplified] unsigned_c.read_enc
      text_c.read_enc bytes_c.read_enc cbor_codec.read_enc [OF durable_digest_c])

lemma retries_read:
  assumes "\<forall>e \<in> set es. vr_state (rr_receipt (snd e)) \<noteq> ReceiptReceived"
    and "fits (pre @ concat (map retry_enc es) @ rest)"
  shows "read_many read_retry (length es) (rd pre (concat (map retry_enc es) @ rest)) =
    Ok (map (\<lambda>(k, r). (k, durable_record r)) es, rd (pre @ concat (map retry_enc es)) rest)"
proof -
  let ?f = "\<lambda>(k, r). (k, durable_record r)"
  have enc: "map retry_enc (map ?f es) = map retry_enc es"
    by (auto simp: retry_enc_def durable_record_def)
  have ok: "list_all (\<lambda>entry. durable_retry (snd entry)) (map ?f es)"
    using assms(1) by (auto simp: list_all_iff durable_retry_def durable_record_def)
  from retry_c.read_many_enc [OF ok, of pre rest] assms(2) show ?thesis by (simp only: enc length_map)
qed

lemma read_durable_body_enc:
  assumes ok: "durable_ok blake3 g" and fit: "fits (pre @ durable_body_enc g)"
  shows "read_durable_body blake3 (rd pre (durable_body_enc g)) = Ok (restored g)"
proof -
  let ?rs = "map (\<lambda>(k, r). (k, durable_record r)) (gw_retries g)" and ?ps = "sort_dedup (gw_pending_digests g)"
  have lens: "length (gw_retries g) \<le> MAX_DURABLE_RETRIES" "length ?ps \<le> MAX_DURABLE_PENDING"
    "length (gw_sealed_batches g) \<le> MAX_DURABLE_BATCHES"
    using ok length_sort_dedup [of "gw_pending_digests g"] by (auto simp: durable_ok_def)
  then have lenok: "len_ok (length (gw_retries g))" "len_ok (length ?ps)" "len_ok (length (gw_sealed_batches g))"
    using len_ok_le durable_limits_ok by blast+
  have rs: "insert_retries ?rs bt_new = Ok ?rs"
    using ok insert_retries_sorted [of "[]" ?rs] by (simp add: durable_ok_def bt_inv_def bt_new_def case_prod_beta comp_def)
  have terminal: "\<forall>e \<in> set (gw_retries g). vr_state (rr_receipt (snd e)) \<noteq> ReceiptReceived" using ok by (simp add: durable_ok_def)
  have exp: "\<not> (gw_retry_retention g = Expired \<and> ?rs \<noteq> [])" using ok by (auto simp: durable_ok_def)
  have ps: "sort ?ps = ?ps" "\<not> windows2_any (\<lambda>a b. a = b) ?ps"
    using sort_dedup_strict [of "gw_pending_digests g"] windows2_any_eq_iff [of ?ps] by (simp_all add: strictly_sorted_iff sorted_sort_id)
  have batches: "read_many (read_sealed_batch blake3) (length (gw_sealed_batches g))
      (rd pre (concat (map sealed_batch_enc (gw_sealed_batches g)))) =
    Ok (gw_sealed_batches g, rd (pre @ concat (map sealed_batch_enc (gw_sealed_batches g))) [])"
    if "fits (pre @ concat (map sealed_batch_enc (gw_sealed_batches g)))" for pre
    using sealed_batch_c.read_many_enc [of blake3 "gw_sealed_batches g" pre "[]"] ok that
    by (auto simp: durable_ok_def list_all_iff)
  have eq: "restored g = \<lparr>gw_received_count = gw_received_count g, gw_verified_count = gw_verified_count g,
      gw_accepted_unique_count = gw_accepted_unique_count g, gw_retries = ?rs, gw_admission = gate_default,
      gw_pending_digests = ?ps, gw_sealed_batches = gw_sealed_batches g, gw_next_batch_id = gw_next_batch_id g,
      gw_retry_retention = gw_retry_retention g\<rparr>"
    by (cases g) (simp add: restored_def)
  have counts: "check_gateway_counts (restored g)" using ok by (simp add: durable_ok_def)
  show ?thesis
    using fit lens lenok exp
    unfolding read_durable_body_def durable_body_enc_def enc_seq_def
    by (simp add: unsigned_c.read_enc retention_c.read_enc array_c.read_enc retries_read [OF terminal] rs digests_read ps batches
        Let_def counts [unfolded eq] eq del: Product_Type.case_prod_conv not_less)
qed

lemma restored_body [simp]: "durable_body_enc (restored g) = durable_body_enc g"
proof -
  have "retry_enc (case x of (k, r) \<Rightarrow> (k, durable_record r)) = retry_enc x" for x
    by (auto simp: retry_enc_def durable_record_def split: prod.splits)
  then show ?thesis
    by (simp add: durable_body_enc_def restored_def enc_seq_def sort_dedup_idem sort_dedup_strict comp_def)
qed

lemma durable_ok_lens:
  assumes "durable_ok blake3 g"
  shows "len_ok (length (gw_retries g))" "len_ok (length (gw_pending_digests g))" "len_ok (length (gw_sealed_batches g))"
    "\<forall>b \<in> set (gw_sealed_batches g). len_ok (length (sb_digests b))"
  using assms len_ok_le durable_limits_ok unfolding durable_ok_def by blast+

lemma restored_durable:
  assumes "descriptor_fingerprint blake3 d = Ok fp" and "len_ok (length (td_election_id d))" and "durable_ok blake3 g"
  shows "durable_state blake3 d g = Ok (durable_header_enc d fp @ durable_body_enc g)"
    and "durable_state blake3 d (restored g) = Ok (durable_header_enc d fp @ durable_body_enc g)"
proof -
  note lens = durable_ok_lens [OF assms(3)]
  show "durable_state blake3 d g = Ok (durable_header_enc d fp @ durable_body_enc g)"
    by (rule durable_state_eq [OF assms(1, 2) lens])
  have "len_ok (length (gw_pending_digests (restored g)))"
    using len_ok_le [OF length_sort_dedup lens(2)] by (simp add: restored_def)
  with lens have "durable_state blake3 d (restored g) = Ok (durable_header_enc d fp @ durable_body_enc (restored g))"
    by (intro durable_state_eq [OF assms(1, 2)]) (simp_all add: restored_def)
  then show "durable_state blake3 d (restored g) = Ok (durable_header_enc d fp @ durable_body_enc g)" by simp
qed

text \<open>A gateway within the limits is restored from what it saves.\<close>

lemma load_saved:
  assumes fp: "descriptor_fingerprint blake3 d = Ok fp" and eid: "len_ok (length (td_election_id d))"
    and ok: "durable_ok blake3 g" and save: "durable_state blake3 d g = Ok bs" and fit: "fits bs"
  shows "load_durable_state blake3 d bs = Ok (restored g)"
proof -
  have bs: "bs = durable_header_enc d fp @ durable_body_enc g" using save restored_durable(1) [OF fp eid ok] by simp
  have "decode_durable_state blake3 bs d = Ok (restored g)"
    using fit read_durable_header_enc [OF eid, of fp] read_durable_body_enc [OF ok] fp
    by (simp add: bs decode_durable_state_def new_reader_rd)
  then show ?thesis using restored_durable(2) [OF fp eid ok] bs by (simp add: load_durable_state_def)
qed

text \<open>Saving does not check the limits that loading does.\<close>

lemma load_too_many_retries:
  assumes fp: "descriptor_fingerprint blake3 d = Ok fp" and eid: "len_ok (length (td_election_id d))"
    and many: "MAX_DURABLE_RETRIES < length (gw_retries g)" and len: "len_ok (length (gw_retries g))"
    and save: "durable_state blake3 d g = Ok (durable_header_enc d fp @ durable_body_enc g)"
    and fit: "fits (durable_header_enc d fp @ durable_body_enc g)"
  shows "load_durable_state blake3 d (durable_header_enc d fp @ durable_body_enc g) = Err InvalidDescriptor"
proof -
  have "read_durable_body blake3 (rd pre (durable_body_enc g)) = Err InvalidData" if "fits (pre @ durable_body_enc g)" for pre
    using that many len
    by (simp add: read_durable_body_def durable_body_enc_def enc_seq_def unsigned_c.read_enc retention_c.read_enc array_c.read_enc)
  then show ?thesis
    using fit fp read_durable_header_enc [OF eid, of fp]
    by (simp add: load_durable_state_def decode_durable_state_def new_reader_rd)
qed

lemma load_Ok_counts:
  assumes "load_durable_state blake3 d bs = Ok g"
  shows "check_gateway_counts g \<and> gw_admission g = gate_default"
proof -
  have "\<exists>r. read_durable_body blake3 r = Ok g"
    using assms by (auto simp: load_durable_state_def decode_durable_state_def result_inv split: if_splits)
  then show ?thesis
    by (auto simp: read_durable_body_def Let_def result_inv split: if_splits)
qed

text \<open>The size of a saved state with no batches.\<close>

lemma length_digest_enc: "length (digest_enc a) \<le> 35"
  using length_enc_bytes [of "arr_bytes a"] by (simp add: digest_enc_def)

lemma length_retry_enc: "length (retry_enc e) \<le> 82"
  using length_enc_len [of 3 MAJOR_ARRAY] length_digest_enc [of "fst e"] length_digest_enc [of "rr_package_digest (snd e)"]
    length_enc_unsigned [of "receipt_state_code (vr_state (rr_receipt (snd e)))"]
  by (simp add: retry_enc_def)

lemma length_enc_len_any: "length (enc_len m n) \<le> 9"
  by (simp add: enc_len_def length_enc_arg)

lemma durable_retries_fit:
  assumes "wf_descriptor d" and "length (gw_retries g) < 2 ^ 32"
    and "length (gw_pending_digests g) < 2 ^ 32" and "gw_sealed_batches g = []"
  shows "fits (durable_header_enc d fp @ durable_body_enc g)"
proof -
  have "length (td_election_id d) \<le> 128"
    using assms(1) by (auto simp: wf_descriptor_def descriptor_validate_fields_def split: if_splits)
  then have header: "length (durable_header_enc d fp) \<le> 1000"
    using length_enc_len [of 14 MAJOR_ARRAY] length_enc_unsigned [of DURABLE_STATE_VERSION] length_enc_text [of DURABLE_STATE_TYPE_ID]
      length_enc_bytes [of "td_election_id d"] length_digest_enc [of "manifest_hash_bytes (td_manifest_hash d)"]
      length_digest_enc [of fp] length_enc_unsigned [of "td_generation d"]
    by (simp add: durable_header_enc_def)
  have "length (concat (map retry_enc (gw_retries g))) \<le> length (gw_retries g) * 82"
    by (rule length_concat_map_le) (rule length_retry_enc)
  moreover have "length (concat (map digest_enc (sort_dedup (gw_pending_digests g)))) \<le> length (sort_dedup (gw_pending_digests g)) * 35"
    by (rule length_concat_map_le) (rule length_digest_enc)
  ultimately have "length (durable_body_enc g) \<le> 100 + 2 ^ 32 * 117"
    using assms(2-4) length_sort_dedup [of "gw_pending_digests g"] length_enc_unsigned [of "gw_received_count g"] length_enc_unsigned [of "gw_verified_count g"]
      length_enc_unsigned [of "gw_accepted_unique_count g"] length_enc_unsigned [of "gw_next_batch_id g"]
      length_enc_unsigned [of "retention_code (gw_retry_retention g)"] length_enc_len_any [of MAJOR_ARRAY "length (gw_retries g)"]
      length_enc_len_any [of MAJOR_ARRAY "length (sort_dedup (gw_pending_digests g))"] length_enc_len_any [of MAJOR_ARRAY 0]
    by (simp add: durable_body_enc_def enc_seq_def)
  with header show ?thesis by (simp add: fits_def usize_max_def)
qed

end
