(* ===== verification/Gateway_Invariants.thy ===== *)
theory Gateway_Invariants
  imports Gateway_Durable
begin

text \<open>
  The states that a gateway and its session can reach by deliveries, closing, sealing, retention changes,
  restarts from the durable state and the organizer's own work on the session, and what holds of them:
  the accepted digests are distinct, each is the digest of an accepted ballot of the session, and the
  counts agree.
\<close>

section \<open>Accepted packages of a session\<close>

definition accepted_digests :: "gui_election_session_v1 \<Rightarrow> bytes32 list" where
  "accepted_digests s = map (\<lambda>e. package_digest_bytes (bd_package_digest e))
     (filter (\<lambda>e. is_accepted (bd_outcome e)) (vt_decisions (gs_transcript s)))"

lemma is_accepted_iff: "is_accepted out \<longleftrightarrow> out = Accepted"
  by (cases out) simp_all

lemma transport_digest: "transport_package_digest blake3 bs = package_digest_bytes (package_digest blake3 bs)"
  by (simp add: transport_package_digest_def package_digest_def)

lemma package_digest_bytes_inject: "package_digest_bytes x = package_digest_bytes y \<Longrightarrow> x = y"
  by (cases x; cases y) simp

text \<open>The nullifier of every accepted package has been seen, so the same bytes are never accepted twice.\<close>

definition accepted_seen ::
  "('q, 'pt, 'pp, 'is, 'ts, 'pf, 'tr) triptych_lib \<Rightarrow> (bytes \<Rightarrow> bytes32) \<Rightarrow> gui_election_session_v1 \<Rightarrow> bool" where
  "accepted_seen L blake3 s \<longleftrightarrow>
     (\<forall>i < length (gs_packages s). is_accepted (bd_outcome (vt_decisions (gs_transcript s) ! i)) \<longrightarrow>
        (\<exists>v. gui_verdict L blake3 (gs_artifacts s) (gs_verifier s) (gs_packages s ! i) = Ok v
           \<and> vp_nullifier (vb_proof v) \<in> bl_seen_nullifiers (gs_ledger s)))"

lemma gui_inv_lengths:
  assumes "gui_inv L blake3 s"
  shows "length (vt_decisions (gs_transcript s)) = length (gs_packages s)"
    "length (vt_submissions (gs_transcript s)) = length (gs_packages s)"
  using assms unfolding gui_inv_def by (metis length_map)+

lemma process_detail:
  assumes inv: "gui_inv L blake3 s"
    and p: "process_intake_package_with_digest L blake3 bs (package_digest blake3 bs) s = Ok (r, s')"
  shows "\<exists>q outcome. r = intake_result (package_digest blake3 bs) outcome
    \<and> vt_decisions (gs_transcript s') = vt_decisions (gs_transcript s)
        @ [\<lparr>bd_sequence = q, bd_package_digest = package_digest blake3 bs, bd_outcome = outcome\<rparr>]
    \<and> gs_packages s' = gs_packages s @ [bs] \<and> bl_seen_nullifiers (gs_ledger s) \<subseteq> bl_seen_nullifiers (gs_ledger s')
    \<and> (is_accepted outcome \<longrightarrow> (\<exists>v. gui_verdict L blake3 (gs_artifacts s) (gs_verifier s) bs = Ok v
        \<and> vp_nullifier (vb_proof v) \<notin> bl_seen_nullifiers (gs_ledger s)
        \<and> vp_nullifier (vb_proof v) \<in> bl_seen_nullifiers (gs_ledger s')))"
proof -
  let ?d = "package_digest blake3 bs" and ?v = "gui_verdict L blake3 (gs_artifacts s) (gs_verifier s) bs"
  define out where "out = (case ?v of Ok v \<Rightarrow> (case accept_verified (gs_lifecycle s) v (gs_ledger s) of
      Ok l \<Rightarrow> (Accepted, l) | Err c \<Rightarrow> (Rejected c, gs_ledger s)) | Err c \<Rightarrow> (Rejected c, gs_ledger s))"
  from p obtain q t1 t2 where sub: "record_submission ?d True (gs_transcript s) = Ok (q, t1)"
    and dec: "record_decision q ?d (fst out) t1 = Ok t2" and r: "r = intake_result ?d (fst out)"
    and s': "gs_transcript s' = t2" "gs_ledger s' = snd out" "gs_packages s' = gs_packages s @ [bs]"
    unfolding process_intake_verdict Let_def out_def [symmetric]
    by (auto simp: result_inv conclude_intake_def record_private_intake_digest_index_entry_def Let_def case_prod_beta
        split: option.splits)
  have t1: "transcript_inv t1" "vt_decisions t1 = vt_decisions (gs_transcript s)"
    using inv record_submission_inv [OF _ sub] sub by (auto simp: gui_inv_def record_submission_def result_inv)
  have "vt_decisions t2 = vt_decisions (gs_transcript s) @ [\<lparr>bd_sequence = q, bd_package_digest = ?d, bd_outcome = fst out\<rparr>]"
    using dec t1 by (simp add: record_decision_Ok_iff [OF t1(1)])
  moreover have "bl_seen_nullifiers (gs_ledger s) \<subseteq> bl_seen_nullifiers (snd out)"
    by (auto simp: out_def accept_verified_Ok_iff split: result.splits)
  moreover have "is_accepted (fst out) \<longrightarrow> (\<exists>v. ?v = Ok v \<and> vp_nullifier (vb_proof v) \<notin> bl_seen_nullifiers (gs_ledger s)
      \<and> vp_nullifier (vb_proof v) \<in> bl_seen_nullifiers (snd out))"
    by (auto simp: out_def accept_verified_Ok_iff split: result.splits)
  ultimately show ?thesis using r s' by (intro exI [of _ q] exI [of _ "fst out"]) simp
qed

lemma accepted_seen_process:
  assumes inv: "gui_inv L blake3 s" and seen: "accepted_seen L blake3 s"
    and p: "process_intake_package_with_digest L blake3 bs (package_digest blake3 bs) s = Ok (r, s')"
  shows "accepted_seen L blake3 s'"
proof -
  from process_detail [OF inv p] obtain q outcome where
    dec: "vt_decisions (gs_transcript s') = vt_decisions (gs_transcript s)
        @ [\<lparr>bd_sequence = q, bd_package_digest = package_digest blake3 bs, bd_outcome = outcome\<rparr>]"
    and pk: "gs_packages s' = gs_packages s @ [bs]" and mono: "bl_seen_nullifiers (gs_ledger s) \<subseteq> bl_seen_nullifiers (gs_ledger s')"
    and acc: "is_accepted outcome \<longrightarrow> (\<exists>v. gui_verdict L blake3 (gs_artifacts s) (gs_verifier s) bs = Ok v
        \<and> vp_nullifier (vb_proof v) \<in> bl_seen_nullifiers (gs_ledger s'))"
    by blast
  show ?thesis
    using seen dec pk mono acc process_frame [OF p] gui_inv_lengths(1) [OF inv]
    by (auto simp: accepted_seen_def less_Suc_eq nth_append)
qed

lemma gui_reachable_seen:
  assumes "gui_reachable L nfc blake3 s"
  shows "accepted_seen L blake3 s"
  using assms
proof (induction rule: gui_reachable.induct)
  case (gr_new mb rb cb a s)
  from gui_session_new_Ok [OF gr_new(2)] show ?case by (simp add: accepted_seen_def)
next
  case (gr_intake s bs r s')
  then show ?case using intake_process accepted_seen_process gui_reachable_inv by blast
next
  case (gr_reconcile s bs r s')
  then show ?case using reconcile_process accepted_seen_process gui_reachable_inv by blast
qed (auto simp: lifecycle_ops accepted_seen_def remember_validated_inbox_file_def split: if_splits)

lemma accepted_fresh:
  assumes inv: "gui_inv L blake3 s" and seen: "accepted_seen L blake3 s"
    and p: "process_intake_package_with_digest L blake3 bs (package_digest blake3 bs) s = Ok (r, s')"
    and acc: "ir_accepted r" and inj: "inj_on (package_digest blake3) (set (gs_packages s'))"
  shows "accepted_digests s' = accepted_digests s @ [transport_package_digest blake3 bs]
    \<and> transport_package_digest blake3 bs \<notin> set (accepted_digests s)"
proof -
  from process_detail [OF inv p] obtain q outcome where r: "r = intake_result (package_digest blake3 bs) outcome"
    and dec: "vt_decisions (gs_transcript s') = vt_decisions (gs_transcript s)
        @ [\<lparr>bd_sequence = q, bd_package_digest = package_digest blake3 bs, bd_outcome = outcome\<rparr>]"
    and pk: "gs_packages s' = gs_packages s @ [bs]"
    and v: "is_accepted outcome \<longrightarrow> (\<exists>v. gui_verdict L blake3 (gs_artifacts s) (gs_verifier s) bs = Ok v
        \<and> vp_nullifier (vb_proof v) \<notin> bl_seen_nullifiers (gs_ledger s))"
    by blast
  have outcome: "is_accepted outcome" using acc r by (auto simp: intake_result_def Let_def split: if_splits option.splits)
  have "package_digest blake3 bs \<noteq> bd_package_digest e"
    if e: "e \<in> set (vt_decisions (gs_transcript s))" "is_accepted (bd_outcome e)" for e
  proof
    assume eq: "package_digest blake3 bs = bd_package_digest e"
    from e obtain i where i: "i < length (vt_decisions (gs_transcript s))" "e = vt_decisions (gs_transcript s) ! i"
      by (auto simp: in_set_conv_nth)
    have n: "i < length (gs_packages s)" using i gui_inv_lengths(1) [OF inv] by simp
    have "map bd_package_digest (vt_decisions (gs_transcript s)) = map (package_digest blake3) (gs_packages s)"
      using inv by (simp add: gui_inv_def)
    then have "bd_package_digest e = package_digest blake3 (gs_packages s ! i)" using i n by (metis nth_map)
    then have "gs_packages s ! i = bs" using eq inj pk n by (auto simp: inj_on_def)
    moreover obtain w where "gui_verdict L blake3 (gs_artifacts s) (gs_verifier s) (gs_packages s ! i) = Ok w"
      "vp_nullifier (vb_proof w) \<in> bl_seen_nullifiers (gs_ledger s)"
      using seen n e(2) i(2) by (auto simp: accepted_seen_def)
    ultimately show False using v outcome by auto
  qed
  then have "transport_package_digest blake3 bs \<notin> set (accepted_digests s)"
    by (auto simp: accepted_digests_def transport_digest dest!: package_digest_bytes_inject)
  then show ?thesis using dec outcome by (simp add: accepted_digests_def transport_digest)
qed

section \<open>Reachable gateways\<close>

inductive session_step ::
  "('q, 'pt, 'pp, 'is, 'ts, 'pf, 'tr) triptych_lib \<Rightarrow> (bytes \<Rightarrow> bytes32) \<Rightarrow>
   gui_election_session_v1 \<Rightarrow> gui_election_session_v1 \<Rightarrow> bool" for L blake3 where
  ss_open: "gui_open s = Ok s' \<Longrightarrow> session_step L blake3 s s'"
| ss_close: "gui_close s = Ok s' \<Longrightarrow> session_step L blake3 s s'"
| ss_mark_verified: "gui_mark_verified s = Ok s' \<Longrightarrow> session_step L blake3 s s'"
| ss_finalize: "gui_finalize s = Ok s' \<Longrightarrow> session_step L blake3 s s'"
| ss_intake: "intake_ballot_package_bytes L blake3 bs s = Ok (r, s') \<Longrightarrow> session_step L blake3 s s'"
| ss_reconcile: "reconcile_accepted_package_bytes_from_inbox L blake3 bs s = Ok (r, s') \<Longrightarrow> session_step L blake3 s s'"
| ss_remember: "session_step L blake3 s (remember_validated_inbox_file d n m s)"

lemma session_step_reachable: "gui_reachable L nfc blake3 s \<Longrightarrow> session_step L blake3 s s' \<Longrightarrow> gui_reachable L nfc blake3 s'"
  by (auto elim!: session_step.cases intro: gr_open gr_close gr_mark_verified gr_finalize gr_intake gr_reconcile gr_remember)

text \<open>A session only ever gains packages and decisions.\<close>

definition grows :: "gui_election_session_v1 \<Rightarrow> gui_election_session_v1 \<Rightarrow> bool" where
  "grows s s' \<longleftrightarrow> (\<exists>ps. gs_packages s' = gs_packages s @ ps)
     \<and> (\<exists>ds. vt_decisions (gs_transcript s') = vt_decisions (gs_transcript s) @ ds)"

lemma grows_digests: "grows s s' \<Longrightarrow> set (accepted_digests s) \<subseteq> set (accepted_digests s')"
  by (auto simp: grows_def accepted_digests_def)

lemma grows_packages: "grows s s' \<Longrightarrow> set (gs_packages s) \<subseteq> set (gs_packages s') \<and> length (gs_packages s) \<le> length (gs_packages s')"
  by (auto simp: grows_def)

lemma process_grows:
  assumes "gui_inv L blake3 s" and "process_intake_package_with_digest L blake3 bs (package_digest blake3 bs) s = Ok (r, s')"
  shows "grows s s'"
  using process_detail [OF assms] by (auto simp: grows_def)

lemma session_step_grows:
  assumes inv: "gui_inv L blake3 s" and "session_step L blake3 s s'"
  shows "grows s s'"
  using assms(2)
proof (cases rule: session_step.cases)
  case (ss_intake bs r)
  then show ?thesis using intake_process process_grows [OF inv] by blast
next
  case (ss_reconcile bs r)
  from reconcile_process [OF ss_reconcile] process_grows [OF inv] show ?thesis by (auto simp: grows_def)
qed (auto simp: grows_def lifecycle_ops remember_validated_inbox_file_def split: if_splits)

definition durable_limits :: "transport_gateway_v1 \<Rightarrow> bool" where
  "durable_limits g \<longleftrightarrow>
     length (gw_retries g) \<le> MAX_DURABLE_RETRIES \<and> length (gw_pending_digests g) \<le> MAX_DURABLE_PENDING
     \<and> length (gw_sealed_batches g) \<le> MAX_DURABLE_BATCHES
     \<and> (\<forall>b \<in> set (gw_sealed_batches g). length (sb_digests b) \<le> MAX_DURABLE_PENDING)"

text \<open>A restart loads the state that was saved; beyond the limits the saved state does not load.\<close>

inductive gateway_step ::
  "('pk, 'hsk, 'rnd) hpke \<Rightarrow> ('q, 'pt, 'pp, 'is, 'ts, 'pf, 'tr) triptych_lib \<Rightarrow> (bytes \<Rightarrow> bytes32) \<Rightarrow>
   transport_descriptor_v1 \<Rightarrow> bytes32 \<Rightarrow> transport_gateway_v1 \<Rightarrow> gui_election_session_v1 \<Rightarrow>
   transport_gateway_v1 \<Rightarrow> gui_election_session_v1 \<Rightarrow> bool" for H L blake3 d key where
  gy_session: "session_step L blake3 s s' \<Longrightarrow> gateway_step H L blake3 d key g s g s'"
| gy_deliver: "deliver_and_digest H L blake3 encoded d key capability g s = (r, g', s') \<Longrightarrow>
    gateway_step H L blake3 d key g s g' s'"
| gy_begin_close: "begin_close g s = (u, g', s') \<Longrightarrow> gateway_step H L blake3 d key g s g' s'"
| gy_expire_drain: "expire_close_drain g s = (u, g', s') \<Longrightarrow> gateway_step H L blake3 d key g s g' s'"
| gy_seal: "seal_pending_batch blake3 floor final g = (b, g') \<Longrightarrow> gateway_step H L blake3 d key g s g' s"
| gy_grace: "gateway_step H L blake3 d key g s (begin_retry_verification_grace g) s"
| gy_expire_retention: "gateway_step H L blake3 d key g s (expire_retry_retention g) s"
| gy_restart: "durable_limits g \<Longrightarrow> durable_state blake3 d g = Ok bs \<Longrightarrow> fits bs \<Longrightarrow>
    load_durable_state blake3 d bs = Ok g' \<Longrightarrow> gateway_step H L blake3 d key g s g' s"

inductive gateway_steps ::
  "('pk, 'hsk, 'rnd) hpke \<Rightarrow> ('q, 'pt, 'pp, 'is, 'ts, 'pf, 'tr) triptych_lib \<Rightarrow> (bytes \<Rightarrow> bytes32) \<Rightarrow>
   transport_descriptor_v1 \<Rightarrow> bytes32 \<Rightarrow> transport_gateway_v1 \<Rightarrow> gui_election_session_v1 \<Rightarrow>
   transport_gateway_v1 \<Rightarrow> gui_election_session_v1 \<Rightarrow> bool" for H L blake3 d key where
  gys_refl: "gateway_steps H L blake3 d key g s g s"
| gys_step: "gateway_steps H L blake3 d key g s g1 s1 \<Longrightarrow> gateway_step H L blake3 d key g1 s1 g2 s2 \<Longrightarrow>
    gateway_steps H L blake3 d key g s g2 s2"

text \<open>A gateway starts empty, on a session of any reachable state.\<close>

definition gateway_reachable ::
  "('pk, 'hsk, 'rnd) hpke \<Rightarrow> ('q, 'pt, 'pp, 'is, 'ts, 'pf, 'tr) triptych_lib \<Rightarrow> (nat list \<Rightarrow> nat list) \<Rightarrow>
   (bytes \<Rightarrow> bytes32) \<Rightarrow> transport_descriptor_v1 \<Rightarrow> bytes32 \<Rightarrow> transport_gateway_v1 \<Rightarrow> gui_election_session_v1 \<Rightarrow> bool" where
  "gateway_reachable H L nfc blake3 d key g s \<longleftrightarrow>
     (\<exists>s0. gui_reachable L nfc blake3 s0 \<and> gateway_steps H L blake3 d key gateway_default s0 g s)"

lemma gateway_reachable_induct [consumes 1, case_names start step]:
  assumes "gateway_reachable H L nfc blake3 d key g s"
    and "\<And>s. gui_reachable L nfc blake3 s \<Longrightarrow> P gateway_default s"
    and "\<And>g s g' s'. gateway_reachable H L nfc blake3 d key g s \<Longrightarrow> P g s \<Longrightarrow> gateway_step H L blake3 d key g s g' s' \<Longrightarrow> P g' s'"
  shows "P g s"
proof -
  from assms(1) obtain s0 where s0: "gui_reachable L nfc blake3 s0" and "gateway_steps H L blake3 d key gateway_default s0 g s"
    by (auto simp: gateway_reachable_def)
  from this(2) s0 show ?thesis
  proof (induction gateway_default s0 g s rule: gateway_steps.induct)
    case (gys_step s g1 s1 g2 s2)
    then show ?case using assms(3) unfolding gateway_reachable_def by blast
  qed (rule assms(2))
qed

section \<open>What a delivery does\<close>

definition counted :: "bool \<Rightarrow> transport_gateway_v1 \<Rightarrow> transport_gateway_v1" where
  "counted verified g = g\<lparr>gw_received_count := saturating_add_u64 (gw_received_count g) 1,
     gw_verified_count := (if verified then saturating_add_u64 (gw_verified_count g) 1 else gw_verified_count g)\<rparr>"

definition remember_retry :: "bytes32 \<Rightarrow> bytes32 \<Rightarrow> voter_transport_receipt_v1 \<Rightarrow> transport_gateway_v1 \<Rightarrow> transport_gateway_v1" where
  "remember_retry commitment digest receipt g =
     (if gw_retry_retention g \<noteq> Expired then
        g\<lparr>gw_retries := bt_insert commitment \<lparr>rr_package_digest = digest, rr_receipt = receipt\<rparr> (gw_retries g)\<rparr>
      else g)"

lemma counted_same: "g\<lparr>gw_received_count := saturating_add_u64 (gw_received_count g) 1\<rparr> = counted False g"
  "g\<lparr>gw_received_count := saturating_add_u64 (gw_received_count g) 1,
     gw_verified_count := saturating_add_u64 (gw_verified_count g) 1\<rparr> = counted True g"
  by (simp_all add: counted_def)

lemma lifecycle_open: "lifecycle_state_as_str st = lit ''OPEN'' \<longleftrightarrow> st = Open"
  by (cases st) (simp_all add: lit_def)

definition admitted_gate :: "transport_gateway_v1 \<Rightarrow> transport_gateway_v1" where
  "admitted_gate g = g\<lparr>gw_admission := (gw_admission g)\<lparr>ag_admitted := 1\<rparr>\<rparr>"

lemma intake_receipt_gate:
  "intake_receipt result digest (counted v (admitted_gate g)) =
     (fst (intake_receipt result digest (counted v g)), admitted_gate (snd (intake_receipt result digest (counted v g))))"
  "gw_admission (snd (intake_receipt result digest (counted v g))) = gw_admission g"
  by (simp_all add: intake_receipt_def counted_def admitted_gate_def)

text \<open>A delivery through an idle gate: the gate is the same before and after.\<close>

lemma deliver_gate:
  assumes idle: "ag_admitted (gw_admission g) = 0"
    and op: "ag_state (gw_admission g) = GateOpen" "lc_state (gs_lifecycle s) = Open"
    and d: "deliver_admitted H L blake3 encoded d key capability (ag_drain_generation (gw_admission g)) (admitted_gate g) s = (r, g1, s1)"
    and gate: "gw_admission g1 = (gw_admission g)\<lparr>ag_admitted := 1\<rparr>"
  shows "deliver_and_digest H L blake3 encoded d key capability g s = (r, g1\<lparr>gw_admission := gw_admission g\<rparr>, s1)"
proof -
  have "admit s (gw_admission g) = (Ok (ag_drain_generation (gw_admission g)), (gw_admission g)\<lparr>ag_admitted := 1\<rparr>)"
    using op idle by (simp add: admit_def saturating_add_u32_def lifecycle_open)
  moreover have "with_gate (finish_admitted (ag_drain_generation (gw_admission g))) g1 s1 = (Ok (), g1\<lparr>gw_admission := gw_admission g\<rparr>, s1)"
    using op(1) idle gate by (simp add: with_gate_def finish_admitted_def close_if_drained_def)
  ultimately show ?thesis using d by (simp add: deliver_and_digest_def admitted_gate_def)
qed

lemma deliver_refused:
  "ag_state (gw_admission g) \<noteq> GateOpen \<or> lc_state (gs_lifecycle s) \<noteq> Open \<Longrightarrow>
     deliver_and_digest H L blake3 encoded d key capability g s = (Err TransportUnavailable, g, s)"
  by (auto simp: deliver_and_digest_def admit_def lifecycle_open)

abbreviation opened ::
  "('pk, 'hsk, 'rnd) hpke \<Rightarrow> (bytes \<Rightarrow> bytes32) \<Rightarrow> bytes \<Rightarrow> transport_descriptor_v1 \<Rightarrow> bytes32 \<Rightarrow> bytes tresult" where
  "opened H blake3 encoded d key \<equiv>
     and_then (private_envelope_from_canonical_cbor encoded) (\<lambda>e. open_envelope_bytes_v1 H blake3 e d key)"

text \<open>The outcome of a delivery that is admitted, by what the envelope, the retry record and the intake give.\<close>

definition delivered ::
  "('pk, 'hsk, 'rnd) hpke \<Rightarrow> ('q, 'pt, 'pp, 'is, 'ts, 'pf, 'tr) triptych_lib \<Rightarrow> (bytes \<Rightarrow> bytes32) \<Rightarrow> bytes \<Rightarrow>
   transport_descriptor_v1 \<Rightarrow> bytes32 \<Rightarrow> bytes32 \<Rightarrow> transport_gateway_v1 \<Rightarrow> gui_election_session_v1 \<Rightarrow>
   (voter_transport_receipt_v1 \<times> bytes32) tresult \<times> transport_gateway_v1 \<times> gui_election_session_v1" where
  "delivered H L blake3 encoded d key capability g s =
    (case opened H blake3 encoded d key of
       Err e \<Rightarrow> (Err e, counted False g, s)
     | Ok pkg \<Rightarrow>
         let digest = transport_package_digest blake3 pkg; commitment = capability_commitment blake3 capability in
         case bt_get (gw_retries g) commitment of
           Some prior \<Rightarrow> (Ok (retry_receipt digest prior, digest), counted False g, s)
         | None \<Rightarrow>
             case intake_ballot_package_bytes L blake3 pkg s of
               Err _ \<Rightarrow> (Err TransportUnavailable, counted True g, s)
             | Ok (result, s1) \<Rightarrow>
                 let (receipt, g1) = intake_receipt result digest (counted True g) in
                 (Ok (receipt, digest), remember_retry commitment digest receipt g1, s1))"

lemma deliver_open:
  assumes idle: "ag_admitted (gw_admission g) = 0"
    and op: "ag_state (gw_admission g) = GateOpen" "lc_state (gs_lifecycle s) = Open"
  shows "deliver_and_digest H L blake3 encoded d key capability g s = delivered H L blake3 encoded d key capability g s"
proof -
  obtain r g1 s1 where eq: "delivered H L blake3 encoded d key capability g s = (r, g1, s1)" by (metis prod_cases3)
  have gate: "gw_admission g1 = gw_admission g"
    using eq intake_receipt_gate(2) [of _ _ True g]
    by (auto simp: delivered_def Let_def case_prod_beta remember_retry_def counted_def split: result.splits option.splits if_splits)
  have "deliver_admitted H L blake3 encoded d key capability (ag_drain_generation (gw_admission g)) (admitted_gate g) s =
      (r, admitted_gate g1, s1)"
    using eq op intake_receipt_gate(1) [of _ _ True g]
    by (auto simp: delivered_def deliver_admitted_def gateway_collect_def Let_def case_prod_beta remember_retry_def counted_def
        admitted_gate_def split: result.splits option.splits if_splits)
  from deliver_gate [OF idle op this] gate eq show ?thesis by (simp add: admitted_gate_def)
qed

section \<open>The sessions of a reachable gateway\<close>

lemma delivered_session:
  "delivered H L blake3 encoded d key capability g s = (r, g', s') \<Longrightarrow>
     s' = s \<or> (\<exists>pkg result. intake_ballot_package_bytes L blake3 pkg s = Ok (result, s'))"
  by (auto simp: delivered_def Let_def case_prod_beta split: result.splits option.splits prod.splits)

lemma close_session:
  "close_if_drained gate s = (u, gate', s') \<Longrightarrow> s' = s \<or> gui_close s = Ok s'"
  "gate_begin_close gate s = (u, gate', s') \<Longrightarrow> s' = s \<or> gui_close s = Ok s'"
  "expire_drain gate s = (u, gate', s') \<Longrightarrow> s' = s \<or> gui_close s = Ok s'"
  by (auto simp: gate_begin_close_def expire_drain_def close_if_drained_def split: if_splits result.splits)

lemma close_idle:
  "ag_admitted gate = 0 \<Longrightarrow> gate_begin_close gate s = (u, gate', s') \<Longrightarrow> ag_admitted gate' = 0"
  "expire_drain gate s = (u, gate', s') \<Longrightarrow> ag_admitted gate' = 0"
  by (auto simp: gate_begin_close_def expire_drain_def close_if_drained_def split: if_splits result.splits)

lemma with_gate_eq:
  "with_gate f g s = (u, g', s') \<longleftrightarrow> (\<exists>gate. f (gw_admission g) s = (u, gate, s') \<and> g' = g\<lparr>gw_admission := gate\<rparr>)"
  by (auto simp: with_gate_def Let_def split: prod.splits)

lemma load_gate: "load_durable_state blake3 d bs = Ok g \<Longrightarrow> ag_admitted (gw_admission g) = 0"
  using load_Ok_counts by (simp add: gate_default_def)

lemma idle_updates [simp]:
  "gw_admission (counted v g) = gw_admission g" "gw_admission (remember_retry c dg r g) = gw_admission g"
  "gw_admission (begin_retry_verification_grace g) = gw_admission g" "gw_admission (expire_retry_retention g) = gw_admission g"
  "gw_admission (snd (seal_pending_batch blake3 floor final g)) = gw_admission g"
  by (simp_all add: counted_def remember_retry_def begin_retry_verification_grace_def expire_retry_retention_def
      seal_pending_batch_def Let_def split: option.split)

lemma delivered_idle:
  "delivered H L blake3 encoded d key capability g s = (r, g', s') \<Longrightarrow> gw_admission g' = gw_admission g"
  using intake_receipt_gate(2) [of _ _ True g]
  by (auto simp: delivered_def Let_def case_prod_beta split: result.splits option.splits prod.splits)

lemma deliver_step:
  assumes "deliver_and_digest H L blake3 encoded d key capability g s = (r, g', s')" and "ag_admitted (gw_admission g) = 0"
  shows "(r = Err TransportUnavailable \<and> g' = g \<and> s' = s) \<or> delivered H L blake3 encoded d key capability g s = (r, g', s')"
  using assms deliver_open [OF assms(2)] deliver_refused [of g s H L blake3 encoded d key capability] by (metis prod.inject)

lemma gateway_step_idle:
  assumes "gateway_step H L blake3 d key g s g' s'" and "gui_reachable L nfc blake3 s" "ag_admitted (gw_admission g) = 0"
  shows "gui_reachable L nfc blake3 s' \<and> ag_admitted (gw_admission g') = 0"
  using assms
proof (induction rule: gateway_step.induct)
  case (gy_deliver encoded capability g s r g' s')
  then show ?case using deliver_step [OF gy_deliver(1)] delivered_session delivered_idle gr_intake by metis
next
  case (gy_begin_close g s u g' s')
  then show ?case using close_session(2) close_idle(1) gr_close by (auto simp: begin_close_def with_gate_eq) blast+
next
  case (gy_expire_drain g s u g' s')
  then show ?case using close_session(3) close_idle(2) gr_close by (auto simp: expire_close_drain_def with_gate_eq) blast+
next
  case (gy_seal floor final g b g' s)
  then show ?case by (metis idle_updates(5) snd_conv)
qed (auto simp: load_gate session_step_reachable)

lemma gateway_idle:
  assumes "gateway_reachable H L nfc blake3 d key g s"
  shows "gui_reachable L nfc blake3 s \<and> ag_admitted (gw_admission g) = 0"
  using assms
  by (induction rule: gateway_reachable_induct) (auto simp: gateway_default_def gate_default_def dest: gateway_step_idle)

section \<open>The invariant\<close>

definition all_digests :: "transport_gateway_v1 \<Rightarrow> bytes32 list" where
  "all_digests g = gw_pending_digests g @ concat (map sb_digests (gw_sealed_batches g))"

definition retry_ok :: "bytes32 set \<Rightarrow> retry_record_v1 \<Rightarrow> bool" where
  "retry_ok ds r \<longleftrightarrow> vr_state (rr_receipt r) \<noteq> ReceiptReceived
     \<and> (vr_state (rr_receipt r) = ReceiptAccepted \<longrightarrow> rr_package_digest r \<in> ds)"

definition digests_inv :: "transport_gateway_v1 \<Rightarrow> gui_election_session_v1 \<Rightarrow> bool" where
  "digests_inv g s \<longleftrightarrow> distinct (all_digests g) \<and> set (all_digests g) \<subseteq> set (accepted_digests s)"

definition counts_inv :: "transport_gateway_v1 \<Rightarrow> bool" where
  "counts_inv g \<longleftrightarrow> gw_accepted_unique_count g = word_of_nat (length (all_digests g))
     \<and> gw_accepted_unique_count g \<le> gw_verified_count g \<and> gw_verified_count g \<le> gw_received_count g"

definition batches_inv :: "(bytes \<Rightarrow> bytes32) \<Rightarrow> transport_gateway_v1 \<Rightarrow> bool" where
  "batches_inv blake3 g \<longleftrightarrow> (\<forall>b \<in> set (gw_sealed_batches g). wf_sealed_batch blake3 b)
     \<and> map sb_batch_id (gw_sealed_batches g) = map word_of_nat [0..<length (gw_sealed_batches g)]
     \<and> gw_next_batch_id g = word_of_nat (length (gw_sealed_batches g))"

definition retries_inv :: "transport_gateway_v1 \<Rightarrow> bool" where
  "retries_inv g \<longleftrightarrow> bt_inv (gw_retries g) \<and> (\<forall>e \<in> set (gw_retries g). retry_ok (set (all_digests g)) (snd e))
     \<and> (gw_retry_retention g = Expired \<longrightarrow> gw_retries g = [])"

definition gateway_inv :: "(bytes \<Rightarrow> bytes32) \<Rightarrow> transport_gateway_v1 \<Rightarrow> gui_election_session_v1 \<Rightarrow> bool" where
  "gateway_inv blake3 g s \<longleftrightarrow> digests_inv g s \<and> counts_inv g \<and> batches_inv blake3 g \<and> retries_inv g"

lemmas gateway_inv_defs = gateway_inv_def digests_inv_def counts_inv_def batches_inv_def retries_inv_def

lemma all_digests_simps [simp]:
  "all_digests (g\<lparr>gw_received_count := n\<rparr>) = all_digests g" "all_digests (g\<lparr>gw_verified_count := n\<rparr>) = all_digests g"
  "all_digests (g\<lparr>gw_accepted_unique_count := n\<rparr>) = all_digests g" "all_digests (g\<lparr>gw_retries := m\<rparr>) = all_digests g"
  "all_digests (g\<lparr>gw_admission := gate\<rparr>) = all_digests g" "all_digests (g\<lparr>gw_next_batch_id := n\<rparr>) = all_digests g"
  "all_digests (g\<lparr>gw_retry_retention := k\<rparr>) = all_digests g"
  by (simp_all add: all_digests_def)

lemma accepted_digests_length: "length (accepted_digests s) \<le> length (vt_decisions (gs_transcript s))"
  by (simp add: accepted_digests_def)

lemma all_digests_length:
  assumes "digests_inv g s" and "gui_inv L blake3 s"
  shows "length (all_digests g) \<le> length (gs_packages s)"
proof -
  have "length (all_digests g) = card (set (all_digests g))" using assms(1) by (simp add: digests_inv_def distinct_card)
  also have "\<dots> \<le> card (set (accepted_digests s))" using assms(1) by (auto simp: digests_inv_def intro: card_mono)
  also have "\<dots> \<le> length (accepted_digests s)" by (rule card_length)
  finally show ?thesis using accepted_digests_length [of s] gui_inv_lengths(1) [OF assms(2)] by simp
qed

lemma batches_length:
  assumes "batches_inv blake3 g"
  shows "length (gw_sealed_batches g) \<le> length (all_digests g)"
proof -
  have "\<forall>b \<in> set bs. sb_digests b \<noteq> [] \<Longrightarrow> length bs \<le> length (concat (map sb_digests bs))" for bs
  proof (induction bs)
    case (Cons b bs)
    then obtain x xs where "sb_digests b = x # xs" by (auto simp: neq_Nil_conv)
    with Cons show ?case by simp
  qed simp
  then show ?thesis using assms by (fastforce simp: batches_inv_def wf_sealed_batch_def all_digests_def)
qed

lemma saturating_add_mono: "a \<le> b \<Longrightarrow> saturating_add_u64 a 1 \<le> saturating_add_u64 b 1" "a \<le> saturating_add_u64 a 1"
  using unsigned_less [of a, where 'a = nat] unsigned_less [of b, where 'a = nat]
  by (auto simp: saturating_add_u64_def word_le_nat_alt unat_word_ariths unsigned_minus_1_eq_mask mask_eq_exp_minus_1)

lemma saturating_add_of_nat: "n + 1 < 2 ^ 64 \<Longrightarrow> saturating_add_u64 (word_of_nat n) 1 = word_of_nat (n + 1)"
  by (simp add: saturating_add_u64_def unat_of_nat)

lemma gateway_inv_default: "gateway_inv blake3 gateway_default s"
  by (simp add: gateway_inv_defs gateway_default_def all_digests_def bt_new_def bt_inv_def)

lemma gateway_inv_session: "gateway_inv blake3 g s \<Longrightarrow> grows s s' \<Longrightarrow> gateway_inv blake3 g s'"
  using grows_digests by (fastforce simp: gateway_inv_def digests_inv_def)

lemma gateway_inv_counted:
  assumes "gateway_inv blake3 g s"
  shows "gateway_inv blake3 (counted v g) s"
proof -
  have "counts_inv (counted v g)"
    using assms saturating_add_mono by (auto simp: gateway_inv_defs counted_def intro: order_trans)
  then show ?thesis using assms by (auto simp: gateway_inv_def digests_inv_def batches_inv_def retries_inv_def counted_def)
qed

lemma gateway_inv_retention:
  assumes "gateway_inv blake3 g s"
  shows "gateway_inv blake3 (begin_retry_verification_grace g) s" "gateway_inv blake3 (expire_retry_retention g) s"
    "gateway_inv blake3 (g\<lparr>gw_admission := gate\<rparr>) s"
  using assms unfolding gateway_inv_defs
  by (auto simp: begin_retry_verification_grace_def expire_retry_retention_def bt_new_def bt_inv_def)

lemma retries_inv_remember:
  assumes "retries_inv g" and "retry_ok (set (all_digests g)) \<lparr>rr_package_digest = dg, rr_receipt = r\<rparr>"
  shows "retries_inv (remember_retry c dg r g)"
proof -
  have "set (bt_insert c x m) \<subseteq> insert (c, x) (set m)" for x and m :: "(bytes32, retry_record_v1) btree_map"
    by (induction m) (auto split: if_splits)
  then have "snd e = \<lparr>rr_package_digest = dg, rr_receipt = r\<rparr> \<or> e \<in> set (gw_retries g)"
    if "e \<in> set (bt_insert c \<lparr>rr_package_digest = dg, rr_receipt = r\<rparr> (gw_retries g))" for e
    using that by fastforce
  then have "\<forall>e \<in> set (bt_insert c \<lparr>rr_package_digest = dg, rr_receipt = r\<rparr> (gw_retries g)). retry_ok (set (all_digests g)) (snd e)"
    using assms unfolding retries_inv_def by metis
  then show ?thesis using assms bt_inv_insert [of "gw_retries g" c] by (auto simp: retries_inv_def remember_retry_def)
qed

lemma gateway_inv_remember:
  assumes "gateway_inv blake3 g s" and "retry_ok (set (all_digests g)) \<lparr>rr_package_digest = dg, rr_receipt = r\<rparr>"
  shows "gateway_inv blake3 (remember_retry c dg r g) s"
  using assms retries_inv_remember [of g dg r c] unfolding gateway_inv_def
  by (auto simp: digests_inv_def counts_inv_def batches_inv_def remember_retry_def)


lemma all_digests_pending:
  "all_digests (g\<lparr>gw_pending_digests := ds\<rparr>) = ds @ concat (map sb_digests (gw_sealed_batches g))"
  by (simp add: all_digests_def)

lemma retry_ok_mono: "retry_ok A r \<Longrightarrow> A \<subseteq> B \<Longrightarrow> retry_ok B r"
  by (auto simp: retry_ok_def)

text \<open>An accepted package adds its digest; the count does not saturate, since there are fewer than 2 to the 64 packages.\<close>

lemma gateway_inv_accept:
  assumes inv: "gateway_inv blake3 g s" and len: "length (all_digests g) + 1 < 2 ^ 64"
    and fresh: "dg \<notin> set (all_digests g)" "insert dg (set (all_digests g)) \<subseteq> set (accepted_digests s')"
    and room: "gw_accepted_unique_count g < gw_verified_count g"
  shows "gateway_inv blake3 (g\<lparr>gw_accepted_unique_count := saturating_add_u64 (gw_accepted_unique_count g) 1,
      gw_pending_digests := gw_pending_digests g @ [dg]\<rparr>) s'"
proof -
  let ?g = "g\<lparr>gw_accepted_unique_count := saturating_add_u64 (gw_accepted_unique_count g) 1,
      gw_pending_digests := gw_pending_digests g @ [dg]\<rparr>"
  have all: "all_digests ?g = gw_pending_digests g @ dg # concat (map sb_digests (gw_sealed_batches g))"
    by (simp add: all_digests_def)
  then have set: "set (all_digests ?g) = insert dg (set (all_digests g))" "length (all_digests ?g) = length (all_digests g) + 1"
    by (auto simp: all_digests_def)
  have n: "unat (gw_accepted_unique_count g) = length (all_digests g)"
    using inv len by (simp add: gateway_inv_defs unat_of_nat)
  have add: "saturating_add_u64 (gw_accepted_unique_count g) 1 = word_of_nat (length (all_digests g) + 1)"
    using inv saturating_add_of_nat [OF len] by (simp add: gateway_inv_defs)
  have m: "unat (word_of_nat m :: u64) = m" if "m < 2 ^ 64" for m using that by (simp add: unat_of_nat)
  have "saturating_add_u64 (gw_accepted_unique_count g) 1 \<le> gw_verified_count g"
    using room n by (simp only: add word_le_nat_alt word_less_nat_alt m [OF len])
  then have "counts_inv ?g" using inv add set(2) by (simp add: gateway_inv_defs)
  moreover have "digests_inv ?g s'"
    using inv fresh set(1) by (auto simp: gateway_inv_defs all all_digests_def)
  moreover have "retries_inv ?g"
    using inv set(1) retry_ok_mono [of "set (all_digests g)" _ "set (all_digests ?g)"]
    by (simp add: gateway_inv_defs) blast
  ultimately show ?thesis using inv by (simp add: gateway_inv_def batches_inv_def)
qed

lemma intake_receipt_inv:
  assumes inv: "gateway_inv blake3 g s" and gui: "gui_inv L blake3 s" "accepted_seen L blake3 s"
    and p: "process_intake_package_with_digest L blake3 pkg (package_digest blake3 pkg) s = Ok (result, s')"
    and inj: "inj_on (package_digest blake3) (set (gs_packages s'))" and len: "length (gs_packages s') < 2 ^ 64"
    and ir: "intake_receipt result (transport_package_digest blake3 pkg) (counted True g) = (receipt, g1)"
  shows "gateway_inv blake3 g1 s' \<and>
    retry_ok (set (all_digests g1)) \<lparr>rr_package_digest = transport_package_digest blake3 pkg, rr_receipt = receipt\<rparr>"
proof (cases "ir_accepted result")
  case False
  have "gateway_inv blake3 (counted True g) s'"
    using gateway_inv_session [OF gateway_inv_counted [OF inv] process_grows [OF gui(1) p]] .
  then show ?thesis using ir False by (auto simp: intake_receipt_def retry_ok_def all_digests_def split: if_splits)
next
  case True
  let ?dg = "transport_package_digest blake3 pkg" and ?c = "counted True g"
  from accepted_fresh [OF gui p True inj] have fresh: "accepted_digests s' = accepted_digests s @ [?dg]" "?dg \<notin> set (accepted_digests s)"
    by auto
  have all: "all_digests ?c = all_digests g" by (simp add: counted_def)
  have sub: "set (all_digests g) \<subseteq> set (accepted_digests s)" using inv by (simp add: gateway_inv_defs)
  have "length (all_digests g) \<le> length (gs_packages s)" using all_digests_length [OF _ gui(1)] inv by (simp add: gateway_inv_def)
  then have n: "length (all_digests ?c) + 1 < 2 ^ 64" using len process_frame [OF p] all by simp
  have acc: "gw_accepted_unique_count g = word_of_nat (length (all_digests g))" "gw_accepted_unique_count g \<le> gw_verified_count g"
    using inv by (auto simp: gateway_inv_defs)
  have "gw_accepted_unique_count ?c < gw_verified_count ?c"
    using acc n all unsigned_less [of "gw_verified_count g", where 'a = nat]
    by (auto simp: counted_def saturating_add_u64_def word_le_nat_alt word_less_nat_alt unat_of_nat unat_word_ariths
        unsigned_minus_1_eq_mask mask_eq_exp_minus_1)
  then have "gateway_inv blake3 (?c\<lparr>gw_accepted_unique_count := saturating_add_u64 (gw_accepted_unique_count ?c) 1,
      gw_pending_digests := gw_pending_digests ?c @ [?dg]\<rparr>) s'"
    using fresh sub all n by (intro gateway_inv_accept [OF gateway_inv_counted [OF inv]]) auto
  then show ?thesis using ir True by (auto simp: intake_receipt_def retry_ok_def all_digests_def)
qed

lemma gateway_inv_delivered:
  assumes inv: "gateway_inv blake3 g s" and gui: "gui_inv L blake3 s" "accepted_seen L blake3 s"
    and d: "delivered H L blake3 encoded d key capability g s = (r, g', s')"
    and inj: "inj_on (package_digest blake3) (set (gs_packages s'))" and len: "length (gs_packages s') < 2 ^ 64"
  shows "gateway_inv blake3 g' s'"
proof (cases "\<exists>v. g' = counted v g \<and> s' = s")
  case True
  then show ?thesis using gateway_inv_counted [OF inv] by auto
next
  case False
  then obtain pkg result receipt g1 where p: "intake_ballot_package_bytes L blake3 pkg s = Ok (result, s')"
    and ir: "intake_receipt result (transport_package_digest blake3 pkg) (counted True g) = (receipt, g1)"
    and g': "g' = remember_retry (capability_commitment blake3 capability) (transport_package_digest blake3 pkg) receipt g1"
    using d by (auto simp: delivered_def Let_def split: result.splits option.splits prod.splits)
  from intake_receipt_inv [OF inv gui conjunct2 [OF intake_process [OF p]] inj len ir] gateway_inv_remember
  show ?thesis unfolding g' by blast
qed

section \<open>Sealing and restarting\<close>

lemma sort_dedup_distinct: "distinct ds \<Longrightarrow> sort_dedup ds = sort ds"
  by (simp add: sort_dedup_def remdups_adj_distinct)

lemma sort_dedup_set: "set xs = set ys \<Longrightarrow> sort_dedup xs = sort_dedup ys"
  using sort_dedup_strict by (intro strict_sorted_equal) auto

lemma seal_pending_Some:
  assumes "seal_pending_batch blake3 floor final g = (Some b, g')"
  shows "sb_digests b = sort_dedup (gw_pending_digests g)"
    "merkle_root blake3 (map (leaf_hash blake3) (sb_digests b)) = Some (sb_root b)"
    "sb_batch_id b = gw_next_batch_id g" "sb_accepted_unique_count b = word_of_nat (length (sort_dedup (gw_pending_digests g)))"
    "sb_reduced_anonymity b = (length (sort_dedup (gw_pending_digests g)) < unat floor)"
    "gw_sealed_batches g' = gw_sealed_batches g @ [b]"
  using assms by (auto simp: seal_pending_batch_def Let_def split: if_splits option.splits)

lemma seal_pending_total:
  assumes "gw_pending_digests g \<noteq> []" and "final \<or> unat floor \<le> length (gw_pending_digests g)"
  shows "\<exists>b g'. seal_pending_batch blake3 floor final g = (Some b, g')"
proof -
  have "sort_dedup (gw_pending_digests g) \<noteq> []" using assms(1) by (metis set_sort_dedup set_empty)
  then obtain root where "merkle_root blake3 (map (leaf_hash blake3) (sort_dedup (gw_pending_digests g))) = Some root"
    using merkle_root_total [of "map (leaf_hash blake3) (sort_dedup (gw_pending_digests g))" blake3] by auto
  then show ?thesis using assms by (auto simp: seal_pending_batch_def Let_def)
qed

lemma seed_pending: "gw_pending_digests (seed_pending_digests_for_recovery ds g) = ds"
  by (simp add: seed_pending_digests_for_recovery_def)

lemma gateway_inv_seal:
  assumes inv: "gateway_inv blake3 g s" and len: "length (all_digests g) < 2 ^ 64"
    and seal: "seal_pending_batch blake3 floor final g = (b, g')"
  shows "gateway_inv blake3 g' s \<and> set (all_digests g') = set (all_digests g)"
proof (cases "gw_pending_digests g = [] \<or> (\<not> final \<and> length (gw_pending_digests g) < unat floor)")
  case True
  then show ?thesis using seal inv by (auto simp: seal_pending_batch_def)
next
  case False
  let ?ds = "sort (gw_pending_digests g)" and ?n = "length (gw_sealed_batches g)"
  have "distinct (gw_pending_digests g)" using inv by (simp add: gateway_inv_defs all_digests_def)
  then have ds: "sort_dedup (gw_pending_digests g) = ?ds" "sorted_wrt (<) ?ds"
    using sort_dedup_distinct sort_dedup_strict [of "gw_pending_digests g"] by auto
  obtain root where root: "merkle_root blake3 (map (leaf_hash blake3) ?ds) = Some root"
    using merkle_root_total [of "map (leaf_hash blake3) ?ds"] False by auto
  define batch where "batch = \<lparr>sb_batch_id = gw_next_batch_id g, sb_root = root,
    sb_accepted_unique_count = word_of_nat (length ?ds), sb_reduced_anonymity = (length ?ds < unat floor), sb_digests = ?ds\<rparr>"
  have g': "g' = g\<lparr>gw_pending_digests := [], gw_next_batch_id := saturating_add_u64 (gw_next_batch_id g) 1,
      gw_sealed_batches := gw_sealed_batches g @ [batch]\<rparr>"
    using seal False root ds(1) by (auto simp: seal_pending_batch_def batch_def Let_def)
  have all: "set (all_digests g') = set (all_digests g)" "distinct (all_digests g')" "length (all_digests g') = length (all_digests g)"
    using inv ds(2) by (auto simp: g' all_digests_def batch_def gateway_inv_defs)
  have "length (all_digests g) = length (gw_pending_digests g) + length (concat (map sb_digests (gw_sealed_batches g)))"
    by (simp add: all_digests_def)
  moreover have "?n \<le> length (concat (map sb_digests (gw_sealed_batches g)))"
    using batches_length [of blake3 "g\<lparr>gw_pending_digests := []\<rparr>"] inv
    by (simp add: gateway_inv_def batches_inv_def all_digests_def)
  moreover have "0 < length (gw_pending_digests g)" using False by simp
  ultimately have "?n + 1 < 2 ^ 64" using len by linarith
  then have "saturating_add_u64 (word_of_nat ?n) 1 = word_of_nat (?n + 1)" by (rule saturating_add_of_nat)
  moreover have "wf_sealed_batch blake3 batch"
    using ds(2) root False by (simp add: wf_sealed_batch_def batch_def)
  ultimately have "batches_inv blake3 g'"
    using inv by (simp add: gateway_inv_def batches_inv_def g' batch_def)
  then show ?thesis using inv all by (auto simp: gateway_inv_def digests_inv_def counts_inv_def retries_inv_def g')
qed

lemma word_of_nat_less: "i < j \<Longrightarrow> j < 2 ^ 64 \<Longrightarrow> (word_of_nat i :: u64) < word_of_nat j"
  by (simp add: word_less_nat_alt unat_of_nat)

lemma batch_ids_increase:
  assumes "batches_inv blake3 g" and "length (gw_sealed_batches g) < 2 ^ 64"
  shows "\<not> windows2_any (\<lambda>a b. sb_batch_id a \<ge> sb_batch_id b) (gw_sealed_batches g)
    \<and> (gw_sealed_batches g = [] \<or> gw_next_batch_id g > sb_batch_id (last (gw_sealed_batches g)))"
proof -
  let ?bs = "gw_sealed_batches g"
  have id: "sb_batch_id (?bs ! i) = word_of_nat i" if "i < length ?bs" for i
    using assms(1) that by (metis batches_inv_def add_0 diff_zero length_upt nth_map nth_upt)
  have "sorted_wrt (\<lambda>a b. sb_batch_id a < sb_batch_id b) ?bs"
    unfolding sorted_wrt_iff_nth_less using id word_of_nat_less assms(2) by (metis less_trans)
  moreover have "transp (\<lambda>a b :: sealed_transport_batch_v1. sb_batch_id a < sb_batch_id b)" by (rule transpI) (rule less_trans)
  ultimately have "\<not> windows2_any (\<lambda>a b. sb_batch_id a \<ge> sb_batch_id b) ?bs"
    using windows2_any_sorted_wrt [of "\<lambda>a b. sb_batch_id a < sb_batch_id b" ?bs] by (simp add: not_less)
  moreover have "sb_batch_id (last ?bs) < gw_next_batch_id g" if "?bs \<noteq> []"
    using that assms id [of "length ?bs - 1"] word_of_nat_less [of "length ?bs - 1" "length ?bs"]
    by (simp add: last_conv_nth batches_inv_def)
  ultimately show ?thesis by blast
qed

lemma sum_batch_counts:
  "\<forall>b \<in> set bs. wf_sealed_batch blake3 b \<Longrightarrow>
     sum_list (map sb_accepted_unique_count bs) = word_of_nat (length (concat (map sb_digests bs)))"
  by (induction bs) (auto simp: wf_sealed_batch_def)

lemma length_restored_pending: "distinct (gw_pending_digests g) \<Longrightarrow> length (sort_dedup (gw_pending_digests g)) = length (gw_pending_digests g)"
  by (simp add: sort_dedup_distinct)

text \<open>A reachable state within the limits can be saved and loaded.\<close>

lemma inv_durable_ok:
  assumes inv: "gateway_inv blake3 g s" and len: "length (all_digests g) < 2 ^ 64" and lim: "durable_limits g"
  shows "durable_ok blake3 g"
proof -
  have bl: "length (gw_sealed_batches g) < 2 ^ 64" using batches_length [of blake3 g] inv len by (simp add: gateway_inv_def)
  have "length (sort_dedup (gw_pending_digests g)) = length (gw_pending_digests g)"
    using inv by (simp add: gateway_inv_def digests_inv_def all_digests_def length_restored_pending)
  moreover have "gw_accepted_unique_count g = word_of_nat (length (gw_pending_digests g))
      + sum_list (map sb_accepted_unique_count (gw_sealed_batches g))"
    using inv sum_batch_counts [of "gw_sealed_batches g" blake3] by (simp add: gateway_inv_def counts_inv_def batches_inv_def all_digests_def)
  ultimately have "check_gateway_counts (restored g)"
    using inv batch_ids_increase [OF _ bl, of blake3] by (auto simp: check_gateway_counts_def restored_def gateway_inv_def counts_inv_def)
  then show ?thesis using inv lim
    by (auto simp: durable_ok_def gateway_inv_def retries_inv_def retry_ok_def batches_inv_def durable_limits_def)
qed

lemma gateway_inv_restored:
  assumes inv: "gateway_inv blake3 g s"
  shows "gateway_inv blake3 (restored g) s"
proof -
  have all: "set (all_digests (restored g)) = set (all_digests g)" "length (all_digests (restored g)) = length (all_digests g)"
    "distinct (all_digests (restored g))"
    using inv by (auto simp: restored_def all_digests_def gateway_inv_def digests_inv_def sort_dedup_distinct)
  have "retry_ok A (durable_record r) \<longleftrightarrow> retry_ok A r" for A r by (simp add: retry_ok_def durable_record_def)
  then have "retries_inv (restored g)"
    using inv all(1) by (auto simp: gateway_inv_def retries_inv_def bt_inv_def restored_def case_prod_beta comp_def)
  then show ?thesis
    using inv all by (auto simp: gateway_inv_def digests_inv_def counts_inv_def batches_inv_def) (auto simp: restored_def)
qed

lemma write_byte_string_len: "write_byte_string bs w = Ok w' \<Longrightarrow> len_ok (length bs)"
  by (auto simp: write_byte_string_def result_inv u64_of_usize_def len_ok_def split: if_splits)

lemma restart_restored:
  assumes inv: "gateway_inv blake3 g s" and len: "length (all_digests g) < 2 ^ 64" and lim: "durable_limits g"
    and save: "durable_state blake3 d g = Ok bs" and fit: "fits bs"
  shows "load_durable_state blake3 d bs = Ok (restored g)"
proof -
  from save obtain fp where "descriptor_fingerprint blake3 d = Ok fp" and "len_ok (length (td_election_id d))"
    by (auto simp: durable_state_def result_inv Let_def dest: write_byte_string_len)
  from load_saved [OF this inv_durable_ok [OF inv len lim] save fit] show ?thesis .
qed

lemma inv_bound:
  "gateway_inv blake3 g s \<Longrightarrow> gui_reachable L nfc blake3 s \<Longrightarrow> length (gs_packages s) < 2 ^ 64 \<Longrightarrow> length (all_digests g) < 2 ^ 64"
  using all_digests_length [OF _ gui_reachable_inv] by (fastforce simp: gateway_inv_def)

lemma gateway_step_grows:
  assumes "gateway_step H L blake3 d key g s g' s'" and "gui_inv L blake3 s" "ag_admitted (gw_admission g) = 0"
  shows "grows s s'"
proof -
  have same: "grows s s'" if "gui_close s = Ok s' \<or> s' = s" for s s'
    using that by (auto simp: grows_def lifecycle_ops split: if_splits)
  show ?thesis using assms
  proof (induction rule: gateway_step.induct)
    case (gy_deliver encoded capability g s r g' s')
    then show ?case using deliver_step [OF gy_deliver(1)] delivered_session intake_process process_grows same by metis
  next
    case (gy_begin_close g s u g' s')
    then show ?case using close_session(2) same by (auto simp: begin_close_def with_gate_eq) blast
  next
    case (gy_expire_drain g s u g' s')
    then show ?case using close_session(3) same by (auto simp: expire_close_drain_def with_gate_eq) blast
  qed (auto simp: same session_step_grows)
qed

lemma gateway_step_inv:
  assumes step: "gateway_step H L blake3 d key g s g' s'" and inv: "gateway_inv blake3 g s"
    and re: "gui_reachable L nfc blake3 s" and idle: "ag_admitted (gw_admission g) = 0"
    and inj: "inj_on (package_digest blake3) (set (gs_packages s'))" and len: "length (gs_packages s') < 2 ^ 64"
  shows "gateway_inv blake3 g' s'"
proof -
  note gr = gateway_step_grows [OF step gui_reachable_inv [OF re] idle]
  have small: "length (all_digests g) < 2 ^ 64" using grows_packages [OF gr] len by (intro inv_bound [OF inv re]) simp
  show ?thesis using step inv re idle inj len gr small
  proof (induction rule: gateway_step.induct)
    case (gy_session s s' g)
    then show ?case using gateway_inv_session by blast
  next
    case (gy_deliver encoded capability g s r g' s')
    then show ?case using deliver_step [OF gy_deliver(1)] gateway_inv_delivered gui_reachable_inv gui_reachable_seen by metis
  next
    case (gy_begin_close g s u g' s')
    then show ?case using gateway_inv_session [OF gateway_inv_retention(3)] by (auto simp: begin_close_def with_gate_eq)
  next
    case (gy_expire_drain g s u g' s')
    then show ?case using gateway_inv_session [OF gateway_inv_retention(3)] by (auto simp: expire_close_drain_def with_gate_eq)
  next
    case (gy_seal floor final g b g' s)
    then show ?case using gateway_inv_seal by blast
  next
    case (gy_restart g bs g' s)
    then show ?case using restart_restored gateway_inv_restored by (metis result.inject(1))
  qed (auto intro: gateway_inv_retention)
qed

lemma gateway_step_down:
  assumes "gateway_reachable H L nfc blake3 d key g s" and "gateway_step H L blake3 d key g s g' s'"
    and "inj_on (package_digest blake3) (set (gs_packages s'))" and "length (gs_packages s') < 2 ^ 64"
  shows "inj_on (package_digest blake3) (set (gs_packages s))" "length (gs_packages s) < 2 ^ 64"
proof -
  have "grows s s'" using gateway_step_grows [OF assms(2)] gateway_idle [OF assms(1)] gui_reachable_inv by blast
  then show "inj_on (package_digest blake3) (set (gs_packages s))" "length (gs_packages s) < 2 ^ 64"
    using grows_packages assms(3, 4) inj_on_subset by fastforce+
qed

text \<open>The invariant holds as long as no two packages of the session share a digest.\<close>

lemma gateway_reachable_inv:
  assumes "gateway_reachable H L nfc blake3 d key g s"
    and "inj_on (package_digest blake3) (set (gs_packages s))" and "length (gs_packages s) < 2 ^ 64"
  shows "gateway_inv blake3 g s \<and> length (all_digests g) < 2 ^ 64"
proof -
  have "gateway_inv blake3 g s" using assms
  proof (induction rule: gateway_reachable_induct)
    case (step g s g' s')
    from step(3) gateway_step_down [OF step(1, 2, 4, 5)] gateway_step_inv [OF step(2)] gateway_idle [OF step(1)] step(4, 5)
    show ?case by blast
  qed (rule gateway_inv_default)
  then show ?thesis using inv_bound gateway_idle [OF assms(1)] assms(3) by blast
qed

section \<open>Accepted receipts\<close>

lemma delivered_accepted:
  assumes d: "delivered H L blake3 encoded d key capability g s = (Ok (receipt, digest), g', s')"
    and acc: "vr_state receipt = ReceiptAccepted" and inv: "retries_inv g"
  shows "digest \<in> set (all_digests g') \<and> (\<exists>pkg. opened H blake3 encoded d key = Ok pkg \<and> digest = transport_package_digest blake3 pkg)"
proof -
  from d obtain pkg where pkg: "opened H blake3 encoded d key = Ok pkg" "digest = transport_package_digest blake3 pkg"
    by (auto simp: delivered_def Let_def split: result.splits option.splits prod.splits)
  have "digest \<in> set (all_digests g')"
  proof (cases "bt_get (gw_retries g) (capability_commitment blake3 capability)")
    case (Some prior)
    then have r: "receipt = retry_receipt digest prior" "g' = counted False g" using d pkg by (auto simp: delivered_def Let_def)
    have "retry_ok (set (all_digests g)) prior"
      using Some inv map_of_SomeD [of "gw_retries g"] by (fastforce simp: bt_get_def retries_inv_def)
    then show ?thesis using acc r by (auto simp: retry_receipt_def retry_ok_def counted_def split: if_splits)
  next
    case None
    then show ?thesis using d pkg acc
      by (auto simp: delivered_def Let_def intake_receipt_def remember_retry_def counted_def all_digests_def
          split: result.splits prod.splits if_splits)
  qed
  with pkg show ?thesis by blast
qed

text \<open>A capability that was used with a package is answered from its record from then on.\<close>

lemma delivered_records:
  assumes "delivered H L blake3 encoded d key capability g s = (Ok (receipt, digest), g', s')"
    and "gw_retry_retention g \<noteq> Expired" and "bt_get (gw_retries g) (capability_commitment blake3 capability) = None"
  shows "bt_get (gw_retries g') (capability_commitment blake3 capability) = Some \<lparr>rr_package_digest = digest, rr_receipt = receipt\<rparr>"
  using assms
  by (auto simp: delivered_def Let_def intake_receipt_def remember_retry_def counted_def bt_get_def map_of_bt_insert
      split: result.splits prod.splits if_splits)

lemma deliver_Ok_opened:
  assumes "deliver_and_digest H L blake3 encoded d key capability g s = (Ok (receipt, digest), g', s')"
  shows "\<exists>pkg. opened H blake3 encoded d key = Ok pkg \<and> digest = transport_package_digest blake3 pkg"
proof -
  obtain gen gate g1 s1 where "deliver_admitted H L blake3 encoded d key capability gen (g\<lparr>gw_admission := gate\<rparr>) s = (Ok (receipt, digest), g1, s1)"
    using assms by (auto simp: deliver_and_digest_def Let_def split: prod.splits result.splits)
  then show ?thesis
    by (auto simp: deliver_admitted_def gateway_collect_def Let_def split: result.splits option.splits prod.splits if_splits)
qed

lemma deliver_again:
  assumes re: "gateway_reachable H L nfc blake3 d key g s"
    and first: "deliver_and_digest H L blake3 encoded d key capability g s = (Ok (receipt, digest), g1, s1)"
    and new: "vr_retry_status receipt = NewDelivery" and kept: "gw_retry_retention g \<noteq> Expired"
    and again: "opened H blake3 encoded' d key = Ok pkg"
  shows "deliver_and_digest H L blake3 encoded' d key capability g1 s1 =
    (Ok (retry_receipt (transport_package_digest blake3 pkg) \<lparr>rr_package_digest = digest, rr_receipt = receipt\<rparr>,
       transport_package_digest blake3 pkg), counted False g1, s1)"
proof -
  note idle = conjunct2 [OF gateway_idle [OF re]]
  have del: "delivered H L blake3 encoded d key capability g s = (Ok (receipt, digest), g1, s1)"
    using deliver_step [OF first idle] by auto
  have op: "ag_state (gw_admission g) = GateOpen" "lc_state (gs_lifecycle s) = Open"
    using deliver_refused [of g s H L blake3 encoded d key capability] first by fastforce+
  have "bt_get (gw_retries g) (capability_commitment blake3 capability) = None"
    using del new by (auto simp: delivered_def retry_receipt_def Let_def split: result.splits option.splits if_splits)
  from delivered_records [OF del kept this] have
    rec: "bt_get (gw_retries g1) (capability_commitment blake3 capability) = Some \<lparr>rr_package_digest = digest, rr_receipt = receipt\<rparr>" .
  have gate: "gw_admission g1 = gw_admission g" by (rule delivered_idle [OF del])
  have "lc_state (gs_lifecycle s1) = Open"
    using delivered_session [OF del] op(2) by (auto dest!: intake_process process_frame)
  then show ?thesis using rec again op(1) idle gate by (simp add: deliver_open delivered_def Let_def)
qed

section \<open>After closing\<close>

lemma with_state_not_open:
  "session_step L blake3 s s' \<Longrightarrow> lc_state (gs_lifecycle s) \<notin> {Draft, Frozen, Open} \<Longrightarrow> lc_state (gs_lifecycle s') \<notin> {Draft, Frozen, Open}"
  by (erule session_step.cases)
    (auto simp: lifecycle_ops remember_validated_inbox_file_def split: if_splits dest!: intake_process reconcile_process process_frame)

lemma gateway_step_ended:
  assumes "gateway_step H L blake3 d key g s g' s'" and "lc_state (gs_lifecycle s) \<notin> {Draft, Frozen, Open}"
  shows "lc_state (gs_lifecycle s') \<notin> {Draft, Frozen, Open}"
  using assms
proof (induction rule: gateway_step.induct)
  case (gy_deliver encoded capability g s r g' s')
  then show ?case using deliver_refused [of g s H L blake3 encoded d key capability] by auto
next
  case (gy_begin_close g s u g' s')
  then show ?case using close_session(2) by (fastforce simp: begin_close_def with_gate_eq dest!: gui_advance(1))
next
  case (gy_expire_drain g s u g' s')
  then show ?case using close_session(3) by (fastforce simp: expire_close_drain_def with_gate_eq dest!: gui_advance(1))
qed (auto dest: with_state_not_open)

lemma gateway_steps_ended:
  "gateway_steps H L blake3 d key g s g' s' \<Longrightarrow> lc_state (gs_lifecycle s) \<notin> {Draft, Frozen, Open} \<Longrightarrow>
     lc_state (gs_lifecycle s') \<notin> {Draft, Frozen, Open}"
  by (induction rule: gateway_steps.induct) (use gateway_step_ended in blast)+

end
