(* ===== verification/Submission.thy ===== *)
theory Submission
  imports Gateway_Invariants
begin

text \<open>
  The submission side of the gateway crate (\<open>crates/transport-gateway/src/lib.rs\<close>): saving the durable
  state through a temporary file, receipts signed by the gateway, and the coordinator that seals a
  ballot, hands it to the selected carrier and delivers it.
\<close>

section \<open>Saving the durable state\<close>

text \<open>
  The two files of the state: the state file and the temporary file beside it. What the file system
  does is a parameter: whether the path has a parent, whether the directory, the creation, the write
  and the rename succeed, and how many bytes a write that fails has left behind.
\<close>

record state_files =
  sf_state :: "bytes option"
  sf_temporary :: "bytes option"

record save_io =
  io_has_parent :: bool
  io_create_dir :: bool
  io_open :: bool
  io_failed_write :: "nat option"
  io_rename :: bool

definition save_durable_state ::
  "save_io \<Rightarrow> (bytes \<Rightarrow> bytes32) \<Rightarrow> transport_descriptor_v1 \<Rightarrow> transport_gateway_v1 \<Rightarrow> state_files \<Rightarrow> unit tresult \<times> state_files" where
  "save_durable_state io blake3 d g files =
     (case durable_state blake3 d g of
        Err e \<Rightarrow> (Err e, files)
      | Ok state \<Rightarrow>
          if \<not> io_has_parent io then (Err InvalidDescriptor, files)
          else if \<not> io_create_dir io then (Err TransportUnavailable, files)
          else if sf_temporary files \<noteq> None \<or> \<not> io_open io then (Err TransportUnavailable, files)
          else
            case io_failed_write io of
              Some n \<Rightarrow> (Err TransportUnavailable, files\<lparr>sf_temporary := Some (take n state)\<rparr>)
            | None \<Rightarrow>
                if \<not> io_rename io then (Err TransportUnavailable, files\<lparr>sf_temporary := Some state\<rparr>)
                else (Ok (), files\<lparr>sf_state := Some state, sf_temporary := None\<rparr>))"

section \<open>Receipts of the gateway\<close>

record signed_transport_receipt_v1 =
  sg_receipt :: voter_transport_receipt_v1
  sg_package_digest :: bytes32
  sg_batch_root :: "bytes32 option"
  sg_key_id :: rstring
  sg_signature :: bytes

definition signed_message :: "signed_transport_receipt_v1 \<Rightarrow> bytes" where
  "signed_message c =
     lit ''tari-cc-private-ballot/transport-receipt/v1'' @ [0]
     @ [ucast (receipt_state_code (vr_state (sg_receipt c))), ucast (retry_status_code (vr_retry_status (sg_receipt c)))]
     @ arr_bytes (sg_package_digest c)
     @ (case sg_batch_root c of Some root \<Rightarrow> 1 # arr_bytes root | None \<Rightarrow> [0])
     @ sg_key_id c"

definition signed_sign ::
  "('vk, 'sk) ed25519 \<Rightarrow> voter_transport_receipt_v1 \<Rightarrow> bytes32 \<Rightarrow> bytes32 option \<Rightarrow> rstring \<Rightarrow> 'sk \<Rightarrow> signed_transport_receipt_v1" where
  "signed_sign ed receipt digest batch_root key_id key =
     (let c = \<lparr>sg_receipt = receipt, sg_package_digest = digest, sg_batch_root = batch_root, sg_key_id = key_id,
               sg_signature = replicate 64 0\<rparr> in
      c\<lparr>sg_signature := ed_sign ed key (signed_message c)\<rparr>)"

definition signed_verify :: "('vk, 'sk) ed25519 \<Rightarrow> 'vk \<Rightarrow> signed_transport_receipt_v1 \<Rightarrow> unit tresult" where
  "signed_verify ed key c = (if ed_verify ed key (signed_message c) (sg_signature c) then Ok () else Err CryptoFailure)"

text \<open>The loop over the keys of the descriptor; a key that does not decode ends it.\<close>

primrec verify_with_keys :: "('vk, 'sk) ed25519 \<Rightarrow> signed_transport_receipt_v1 \<Rightarrow> bytes32 list \<Rightarrow> unit tresult" where
  "verify_with_keys ed c [] = Err CryptoFailure"
| "verify_with_keys ed c (bytes # keys) =
     and_then (ok_or InvalidDescriptor (ed_from_bytes ed bytes)) (\<lambda>key.
     case signed_verify ed key c of Ok _ \<Rightarrow> Ok () | Err _ \<Rightarrow> verify_with_keys ed c keys)"

definition signed_verify_for_descriptor ::
  "('vk, 'sk) ed25519 \<Rightarrow> transport_descriptor_v1 \<Rightarrow> signed_transport_receipt_v1 \<Rightarrow> unit tresult" where
  "signed_verify_for_descriptor ed d c = verify_with_keys ed c (td_receipt_verification_keys d)"

definition receiver_key_from_secret_bytes :: "('pk, 'hsk, 'rnd) hpke \<Rightarrow> bytes32 \<Rightarrow> bytes32 tresult" where
  "receiver_key_from_secret_bytes H secret =
     and_then (ok_or WrongGatewayKey (hk_private_from_bytes H secret)) (\<lambda>_. Ok secret)"

section \<open>The coordinator\<close>

datatype voter_private_route_v1 = ManagedTor | SplitTrustRelay | OfflineExport

record private_submission_result_v1 =
  sr_route :: voter_private_route_v1
  sr_receipt :: voter_transport_receipt_v1
  sr_reduced_anonymity :: bool

text \<open>A carrier, with its own state.\<close>

record 'c private_submission_carrier_v1 =
  pc_send_managed_tor :: "transport_descriptor_v1 \<Rightarrow> bytes \<Rightarrow> 'c \<Rightarrow> unit tresult \<times> 'c"
  pc_send_split_trust_relay :: "transport_descriptor_v1 \<Rightarrow> bytes \<Rightarrow> 'c \<Rightarrow> unit tresult \<times> 'c"

record private_submission_coordinator_v1 =
  co_roots :: transport_authority_root_set_v1
  co_descriptor :: "transport_descriptor_v1 option"
  co_receiver_key :: "bytes32 option"
  co_gateway :: transport_gateway_v1
  co_consistency :: descriptor_consistency_store_v1
  co_persistence :: "state_files option"
  co_retry_memory :: "(bytes32 \<times> bytes32) option"

definition production_unprovisioned :: private_submission_coordinator_v1 where
  "production_unprovisioned =
     \<lparr>co_roots = root_set_new production_transport_authority_root_v1, co_descriptor = None, co_receiver_key = None,
      co_gateway = gateway_default, co_consistency = consistency_new, co_persistence = None, co_retry_memory = None\<rparr>"

definition with_test_configuration ::
  "(bytes \<Rightarrow> bytes32) \<Rightarrow> transport_authority_root_v1 \<Rightarrow> transport_descriptor_v1 \<Rightarrow> bytes32 \<Rightarrow> state_files option \<Rightarrow>
   private_submission_coordinator_v1 tresult" where
  "with_test_configuration blake3 root d receiver_key persistence =
     and_then (case persistence of
         Some files \<Rightarrow> (case sf_state files of Some bs \<Rightarrow> load_durable_state blake3 d bs | None \<Rightarrow> Ok gateway_default)
       | None \<Rightarrow> Ok gateway_default) (\<lambda>gateway.
     Ok \<lparr>co_roots = root_set_new root, co_descriptor = Some d, co_receiver_key = Some receiver_key,
         co_gateway = gateway, co_consistency = consistency_new, co_persistence = persistence, co_retry_memory = None\<rparr>)"

definition online_configured :: "private_submission_coordinator_v1 \<Rightarrow> bool" where
  "online_configured c \<longleftrightarrow> co_descriptor c \<noteq> None \<and> co_receiver_key c \<noteq> None"

text \<open>The fresh capability is drawn from the operating system; it is an argument.\<close>

definition retry_capability_for ::
  "(bytes \<Rightarrow> bytes32) \<Rightarrow> bytes32 \<Rightarrow> bytes \<Rightarrow> private_submission_coordinator_v1 \<Rightarrow> bytes32 \<times> private_submission_coordinator_v1" where
  "retry_capability_for blake3 fresh ballot_bytes c =
     (let digest = hash_domain_separated (Blake3HashProviderV1 blake3) BallotPackageV1 ballot_bytes in
      case co_retry_memory c of
        Some (prior_digest, capability) \<Rightarrow>
          if prior_digest = digest then (capability, c) else (fresh, c\<lparr>co_retry_memory := Some (digest, fresh)\<rparr>)
      | None \<Rightarrow> (fresh, c\<lparr>co_retry_memory := Some (digest, fresh)\<rparr>))"

definition persist_if_configured ::
  "save_io \<Rightarrow> (bytes \<Rightarrow> bytes32) \<Rightarrow> transport_descriptor_v1 \<Rightarrow> private_submission_coordinator_v1 \<Rightarrow>
   unit tresult \<times> private_submission_coordinator_v1" where
  "persist_if_configured io blake3 d c =
     (case co_persistence c of
        None \<Rightarrow> (Ok (), c)
      | Some files \<Rightarrow>
          let (result, files) = save_durable_state io blake3 d (co_gateway c) files in
          (result, c\<lparr>co_persistence := Some files\<rparr>))"

definition route_supported :: "voter_private_route_v1 \<Rightarrow> transport_route_policy_v1 \<Rightarrow> bool" where
  "route_supported route policy \<longleftrightarrow>
     (route = ManagedTor \<and> policy = ManagedTorOrOffline) \<or> (route = SplitTrustRelay \<and> policy = RelayOrOffline)"

text \<open>The checks before anything is sent: the descriptor, its election, the route.\<close>

definition submission_checks ::
  "('vk, 'sk) ed25519 \<Rightarrow> (bytes \<Rightarrow> bytes32) \<Rightarrow> voter_private_route_v1 \<Rightarrow> gui_election_session_v1 \<Rightarrow>
   private_submission_coordinator_v1 \<Rightarrow> (transport_descriptor_v1 \<times> bytes32) tresult \<times> private_submission_coordinator_v1" where
  "submission_checks ed blake3 route s c =
     (case co_descriptor c of
        None \<Rightarrow> (Err UntrustedRoot, c)
      | Some d \<Rightarrow>
          case co_receiver_key c of
            None \<Rightarrow> (Err UntrustedRoot, c)
          | Some key \<Rightarrow>
              case verify_and_accept_descriptor ed blake3 d (ga_manifest_hash (gs_artifacts s)) (co_roots c) (co_consistency c) of
                Err e \<Rightarrow> (Err e, c)
              | Ok (_, store) \<Rightarrow>
                  let c = c\<lparr>co_consistency := store\<rparr> in
                  if td_election_id d \<noteq> election_id_bytes (manifest_election_id (ga_manifest (gs_artifacts s))) then
                    (Err WrongElection, c)
                  else if \<not> route_supported route (td_route d) then (Err UnsupportedRoute, c)
                  else (Ok (d, key), c))"

definition carry ::
  "'c private_submission_carrier_v1 \<Rightarrow> voter_private_route_v1 \<Rightarrow> transport_descriptor_v1 \<Rightarrow> bytes \<Rightarrow> 'c \<Rightarrow> unit tresult \<times> 'c" where
  "carry carrier route d encoded cs =
     (case route of
        ManagedTor \<Rightarrow> pc_send_managed_tor carrier d encoded cs
      | SplitTrustRelay \<Rightarrow> pc_send_split_trust_relay carrier d encoded cs
      | OfflineExport \<Rightarrow> (Err TransportUnavailable, cs))"

text \<open>The delivery, the save and the answer.\<close>

definition deliver_and_persist ::
  "('pk, 'hsk, 'rnd) hpke \<Rightarrow> ('q, 'pt, 'pp, 'is, 'ts, 'pf, 'tr) triptych_lib \<Rightarrow> (bytes \<Rightarrow> bytes32) \<Rightarrow> save_io \<Rightarrow>
   voter_private_route_v1 \<Rightarrow> bytes \<Rightarrow> transport_descriptor_v1 \<Rightarrow> bytes32 \<Rightarrow> bytes32 \<Rightarrow>
   private_submission_coordinator_v1 \<Rightarrow> gui_election_session_v1 \<Rightarrow>
   private_submission_result_v1 tresult \<times> private_submission_coordinator_v1 \<times> gui_election_session_v1" where
  "deliver_and_persist H L blake3 io route encoded d key capability c s =
     (let (result, g, s) = deliver H L blake3 encoded d key capability (co_gateway c) s;
          c = c\<lparr>co_gateway := g\<rparr> in
      case result of
        Err e \<Rightarrow> (Err e, c, s)
      | Ok receipt \<Rightarrow>
          let (saved, c) = persist_if_configured io blake3 d c in
          case saved of
            Err e \<Rightarrow> (Err e, c, s)
          | Ok _ \<Rightarrow>
              (Ok \<lparr>sr_route = route, sr_receipt = receipt,
                   sr_reduced_anonymity = (\<not> threshold_met (bo_accepted_unique_floor (td_batch d)) (co_gateway c))\<rparr>, c, s))"

definition submit ::
  "('pk, 'hsk, 'rnd) hpke \<Rightarrow> ('q, 'pt, 'pp, 'is, 'ts, 'pf, 'tr) triptych_lib \<Rightarrow> ('vk, 'sk) ed25519 \<Rightarrow> (bytes \<Rightarrow> bytes32) \<Rightarrow>
   save_io \<Rightarrow> 'rnd \<Rightarrow> bytes32 \<Rightarrow> 'c private_submission_carrier_v1 \<Rightarrow> voter_private_route_v1 \<Rightarrow> bytes \<Rightarrow>
   private_submission_coordinator_v1 \<Rightarrow> gui_election_session_v1 \<Rightarrow> 'c \<Rightarrow>
   private_submission_result_v1 tresult \<times> private_submission_coordinator_v1 \<times> gui_election_session_v1 \<times> 'c" where
  "submit H L ed blake3 io rnd fresh carrier route ballot_bytes c s cs =
     (if route = OfflineExport then (Err TransportUnavailable, c, s, cs)
      else
        let (retry_capability, c) = retry_capability_for blake3 fresh ballot_bytes c in
        case submission_checks ed blake3 route s c of
          (Err e, c) \<Rightarrow> (Err e, c, s, cs)
        | (Ok (d, receiver_key), c) \<Rightarrow>
            case and_then (envelope_seal H blake3 rnd d ballot_bytes) private_envelope_to_canonical_cbor of
              Err e \<Rightarrow> (Err e, c, s, cs)
            | Ok encoded \<Rightarrow>
                case carry carrier route d encoded cs of
                  (Err e, cs) \<Rightarrow> (Err e, c, s, cs)
                | (Ok _, cs) \<Rightarrow>
                    let (result, c, s) = deliver_and_persist H L blake3 io route encoded d receiver_key retry_capability c s in
                    (result, c, s, cs))"

section \<open>What a save leaves\<close>

text \<open>The state file holds the old state or the new one, whatever fails.\<close>

lemma save_atomic:
  assumes "save_durable_state io blake3 d g files = (r, files')"
  shows "sf_state files' = sf_state files \<or> (r = Ok () \<and> (\<exists>bs. durable_state blake3 d g = Ok bs \<and> sf_state files' = Some bs))"
  using assms by (auto simp: save_durable_state_def split: result.splits option.splits if_splits)

text \<open>A temporary file that was left behind makes every later save fail.\<close>

lemma save_blocked:
  assumes "sf_temporary files \<noteq> None"
  shows "\<exists>e. save_durable_state io blake3 d g files = (Err e, files)"
  using assms by (auto simp: save_durable_state_def split: result.splits)

section \<open>Which carrier is used\<close>

lemma submit_carrier:
  assumes "route = ManagedTor \<Longrightarrow> pc_send_managed_tor carrier' = pc_send_managed_tor carrier"
    and "route = SplitTrustRelay \<Longrightarrow> pc_send_split_trust_relay carrier' = pc_send_split_trust_relay carrier"
  shows "submit H L ed blake3 io rnd fresh carrier' route ballot c s cs = submit H L ed blake3 io rnd fresh carrier route ballot c s cs"
proof -
  have "carry carrier' route = carry carrier route"
    using assms by (cases route) (simp_all add: carry_def fun_eq_iff)
  then show ?thesis by (simp only: submit_def)
qed

lemma unprovisioned_refuses:
  "\<exists>c' e. submit H L ed blake3 io rnd fresh carrier route ballot production_unprovisioned s cs = (Err e, c', s, cs)
     \<and> co_gateway c' = gateway_default"
  by (auto simp: submit_def submission_checks_def retry_capability_for_def production_unprovisioned_def Let_def)

section \<open>A whole submission\<close>

lemma retry_capability_again:
  assumes "retry_capability_for blake3 fresh bs c = (k, c')"
  shows "retry_capability_for blake3 fresh' bs c' = (k, c')" "co_gateway c' = co_gateway c" "co_descriptor c' = co_descriptor c"
    "co_receiver_key c' = co_receiver_key c" "co_roots c' = co_roots c" "co_persistence c' = co_persistence c"
    "co_consistency c' = co_consistency c"
  using assms by (auto simp: retry_capability_for_def Let_def split: option.splits prod.splits if_splits)

lemma deliver_and_persist_Ok:
  assumes "deliver_and_persist H L blake3 io route encoded d key capability c s = (Ok res, c1, s1)"
  shows "\<exists>digest. deliver_and_digest H L blake3 encoded d key capability (co_gateway c) s = (Ok (sr_receipt res, digest), co_gateway c1, s1)"
    "co_descriptor c1 = co_descriptor c" "co_receiver_key c1 = co_receiver_key c" "co_retry_memory c1 = co_retry_memory c"
proof -
  have p: "co_gateway c' = co_gateway c \<and> co_descriptor c' = co_descriptor c \<and> co_receiver_key c' = co_receiver_key c
      \<and> co_retry_memory c' = co_retry_memory c" if "persist_if_configured io blake3 d c = (r, c')" for c c' r
    using that by (auto simp: persist_if_configured_def Let_def split: option.splits prod.splits)
  show "\<exists>digest. deliver_and_digest H L blake3 encoded d key capability (co_gateway c) s = (Ok (sr_receipt res, digest), co_gateway c1, s1)"
    "co_descriptor c1 = co_descriptor c" "co_receiver_key c1 = co_receiver_key c" "co_retry_memory c1 = co_retry_memory c"
    using assms
    by (auto simp: deliver_and_persist_def deliver_def Let_def result_inv dest!: p split: prod.splits result.splits)
qed

lemma submit_Ok:
  assumes "submit H L ed blake3 io rnd fresh carrier route ballot c s cs = (Ok res, c1, s1, cs1)"
    and "co_descriptor c = Some d" and "co_receiver_key c = Some key"
  obtains encoded capability digest where
    "and_then (envelope_seal H blake3 rnd d ballot) private_envelope_to_canonical_cbor = Ok encoded"
    "fst (retry_capability_for blake3 fresh ballot c) = capability"
    "fst (retry_capability_for blake3 fresh' ballot c1) = capability"
    "deliver_and_digest H L blake3 encoded d key capability (co_gateway c) s = (Ok (sr_receipt res, digest), co_gateway c1, s1)"
    "co_descriptor c1 = Some d" "co_receiver_key c1 = Some key"
proof -
  obtain k c' where k: "retry_capability_for blake3 fresh ballot c = (k, c')" by fastforce
  note again = retry_capability_again [OF k]
  from assms obtain c2 encoded cs2 where
    chk: "submission_checks ed blake3 route s c' = (Ok (d, key), c2)"
    and enc: "and_then (envelope_seal H blake3 rnd d ballot) private_envelope_to_canonical_cbor = Ok encoded"
    and del: "deliver_and_persist H L blake3 io route encoded d key k c2 s = (Ok res, c1, s1)"
    using again by (auto simp: submit_def k submission_checks_def Let_def split: if_splits prod.splits result.splits option.splits)
  have c2: "co_gateway c2 = co_gateway c" "co_descriptor c2 = Some d" "co_receiver_key c2 = Some key" "co_retry_memory c2 = co_retry_memory c'"
    using chk again assms(2, 3) by (auto simp: submission_checks_def Let_def split: option.splits result.splits prod.splits if_splits)
  note d = deliver_and_persist_Ok [OF del]
  have "fst (retry_capability_for blake3 fresh' ballot c1) = fst (retry_capability_for blake3 fresh' ballot c')"
    using d(4) c2(4) by (simp add: retry_capability_for_def Let_def split: option.split prod.split)
  then show ?thesis using that enc k d c2 again(1) by (metis fst_conv)
qed

text \<open>The same ballot submitted again is answered from its record.\<close>

lemma submit_again:
  assumes H: "hpke_correct H public_of" "hk_private_from_bytes H key = Some sk"
      "hk_public_from_bytes H (td_gateway_public_key d) = Some (public_of sk)" "wf_descriptor d"
    and re: "gateway_reachable H L nfc blake3 d key (co_gateway c) s"
    and c: "co_descriptor c = Some d" "co_receiver_key c = Some key" "gw_retry_retention (co_gateway c) \<noteq> Expired"
    and s1: "submit H L ed blake3 io rnd fresh carrier route ballot c s cs = (Ok res, c1, s1, cs1)"
    and new: "vr_retry_status (sr_receipt res) = NewDelivery"
    and s2: "submit H L ed blake3 io' rnd' fresh' carrier' route' ballot c1 s1 cs2 = (Ok res', c2, s2, cs3)"
  shows "s2 = s1 \<and> sr_receipt res' = (sr_receipt res)\<lparr>vr_retry_status :=
    (if vr_state (sr_receipt res) = ReceiptAccepted then PreviousDeliveryAccepted else PreviousDeliveryRejected)\<rparr>"
proof -
  from submit_Ok [OF s1 c(1, 2), of fresh'] obtain encoded k digest where
    enc: "and_then (envelope_seal H blake3 rnd d ballot) private_envelope_to_canonical_cbor = Ok encoded"
    and k: "fst (retry_capability_for blake3 fresh' ballot c1) = k"
    and del: "deliver_and_digest H L blake3 encoded d key k (co_gateway c) s = (Ok (sr_receipt res, digest), co_gateway c1, s1)"
    and c1: "co_descriptor c1 = Some d" "co_receiver_key c1 = Some key" by blast
  obtain encoded' digest' where
    enc': "and_then (envelope_seal H blake3 rnd' d ballot) private_envelope_to_canonical_cbor = Ok encoded'"
    and del': "deliver_and_digest H L blake3 encoded' d key k (co_gateway c1) s1 = (Ok (sr_receipt res', digest'), co_gateway c2, s2)"
    by (rule submit_Ok [OF s2 c1, of fresh']) (simp only: k)
  have op: "opened H blake3 encoded d key = Ok ballot" and op': "opened H blake3 encoded' d key = Ok ballot"
    using sealed_opens [OF H enc] sealed_opens [OF H enc'] deliver_Ok_opened [OF del] deliver_Ok_opened [OF del']
    by (metis result.distinct(1))+
  have "digest = transport_package_digest blake3 ballot" using deliver_Ok_opened [OF del] op by simp
  with deliver_again [OF re del new c(3) op'] del' show ?thesis by (auto simp: retry_receipt_def)
qed

end
