(* ===== verification/Example_Transport.thy ===== *)
theory Example_Transport
  imports Submission Example_Session
begin

text \<open>
  A transport for the example election: a descriptor, an encryption that leaves the plaintext readable,
  and a gateway that receives, accepts and seals the example vote.
\<close>

section \<open>The example descriptor and envelope\<close>

definition toy_hpke :: "(unit, unit, unit) hpke" where
  "toy_hpke = \<lparr>hk_public_from_bytes = (\<lambda>_. Some ()), hk_private_from_bytes = (\<lambda>_. Some ()), hk_encapped_ok = (\<lambda>_. True),
     hk_seal = (\<lambda>_ _ _ plaintext _. Some (zero32, plaintext @ replicate 16 0)),
     hk_open = (\<lambda>_ _ _ ciphertext _. Some (take (length ciphertext - 16) ciphertext))\<rparr>"

lemma toy_hpke_correct: "hpke_correct toy_hpke id"
  by (simp add: hpke_correct_def toy_hpke_def)

definition xt_descriptor :: transport_descriptor_v1 where
  "xt_descriptor = \<lparr>td_election_id = [7], td_manifest_hash = ManifestHash zero32, td_generation = 1, td_route = ManagedTorOrOffline,
     td_onion_endpoints = [], td_relay_endpoints = [], td_gateway_public_key = zero32, td_gateway_key_id = lit ''gateway'',
     td_receipt_verification_keys = [zero32], td_padding = \<lparr>pp_id = lit ''pad'', pp_padded_bytes = 2048\<rparr>,
     td_batch = \<lparr>bo_id = lit ''batch'', bo_accepted_unique_floor = 3\<rparr>, td_validity_end_epoch = None,
     td_root_key_id = lit ''root'', td_signature = replicate 64 0\<rparr>"

lemma xt_descriptor_wf: "wf_descriptor xt_descriptor"
  by (simp add: wf_descriptor_def xt_descriptor_def descriptor_validate_fields_def message_limits wf_text_def len_ok_def
      lit_def utf8_valid_ascii)

lemma xt_fingerprint: "descriptor_fingerprint zero_digest xt_descriptor = Ok zero32"
  by (simp add: descriptor_fingerprint_def descriptor_to_canonical_cbor_eq [OF xt_descriptor_wf] flip: const_hash_def)

definition xt_envelope :: private_ballot_envelope_v1 where
  "xt_envelope = \<lparr>pe_manifest_hash = ManifestHash zero32, pe_descriptor_fingerprint = zero32,
     pe_gateway_key_id = lit ''gateway'', pe_padding_policy_id = lit ''pad'', pe_encapsulated_key = zero32,
     pe_ciphertext = pad_payload 2048 ex_vote_bytes @ replicate 16 0\<rparr>"

definition xt_encoded :: bytes where
  "xt_encoded = private_envelope_enc xt_envelope"

lemma xt_texts: "wf_text (lit ''gateway'')" "wf_text (lit ''pad'')"
  by (simp_all add: wf_text_def len_ok_def lit_def utf8_valid_ascii)

lemma xt_padded: "length (pad_payload 2048 ex_vote_bytes) = 2048"
  using xs_vote_size by (simp add: pad_payload_def length_prefix_def)

lemma xt_envelope_wf: "wf_private_envelope xt_envelope"
  using xt_texts by (simp add: wf_private_envelope_def xt_envelope_def xt_padded len_ok_def lit_def)

lemma xt_seal: "envelope_seal toy_hpke zero_digest () xt_descriptor ex_vote_bytes = Ok xt_envelope"
proof -
  have pad: "pp_padded_bytes (td_padding xt_descriptor) = 2048" by (simp add: xt_descriptor_def)
  have "\<exists>aad. envelope_aad (td_manifest_hash xt_descriptor) zero32 (td_gateway_key_id xt_descriptor) (pp_id (td_padding xt_descriptor)) = Ok aad"
    using xt_texts by (simp add: xt_descriptor_def envelope_aad_eq)
  then show ?thesis
    using xs_vote_size
    by (auto simp: envelope_seal_def Let_def checked_add_usize_def usize_max_def pad xt_fingerprint toy_hpke_def xt_padded message_limits)
      (simp_all add: xt_envelope_def xt_descriptor_def)
qed

lemma xt_encoded_size: "length xt_encoded \<le> MAX_ENVELOPE_BYTES"
  using length_enc_len [of 7 MAJOR_ARRAY] length_enc_unsigned [of ENVELOPE_VERSION] length_enc_bytes [of "arr_bytes zero32"]
    length_enc_text [of "lit ''gateway''"] length_enc_text [of "lit ''pad''"]
    length_enc_bytes [of "pad_payload 2048 ex_vote_bytes @ replicate 16 0"]
  by (simp add: xt_encoded_def private_envelope_enc_def xt_envelope_def xt_padded message_limits lit_def)

lemma xt_opened: "opened toy_hpke zero_digest xt_encoded xt_descriptor zero32 = Ok ex_vote_bytes"
proof -
  have "open_envelope_bytes_v1 toy_hpke zero_digest xt_envelope xt_descriptor zero32 = Ok ex_vote_bytes"
    by (rule open_sealed [OF toy_hpke_correct _ _ xt_seal]) (simp_all add: toy_hpke_def xt_descriptor_def message_limits)
  then show ?thesis
    using private_envelope_decode_enc [OF xt_envelope_wf] xt_encoded_size by (simp add: xt_encoded_def)
qed

section \<open>The example gateway\<close>

definition xt_receipt :: voter_transport_receipt_v1 where
  "xt_receipt = \<lparr>vr_state = ReceiptAccepted, vr_retry_status = NewDelivery\<rparr>"

definition xt_gateway :: transport_gateway_v1 where
  "xt_gateway = gateway_default\<lparr>gw_received_count := 1, gw_verified_count := 1, gw_accepted_unique_count := 1,
     gw_retries := [(zero32, \<lparr>rr_package_digest = zero32, rr_receipt = xt_receipt\<rparr>)], gw_pending_digests := [zero32]\<rparr>"

lemma xt_hashes: "transport_package_digest zero_digest bs = zero32" "capability_commitment zero_digest c = zero32"
  by (simp_all add: transport_package_digest_def capability_commitment_def flip: const_hash_def)

lemma xt_idle: "ag_admitted (gw_admission gateway_default) = 0" "ag_state (gw_admission gateway_default) = GateOpen"
  "gw_admission xt_gateway = gate_default"
  by (simp_all add: gateway_default_def gate_default_def xt_gateway_def)

lemma xt_deliver:
  "deliver_and_digest toy_hpke toy_lib zero_digest xt_encoded xt_descriptor zero32 zero32 gateway_default xs_open
   = (Ok (xt_receipt, zero32), xt_gateway, xs_voted)"
  by (simp add: deliver_open xt_idle xs_states delivered_def xt_opened xt_hashes)
    (simp add: xs_intake gateway_default_def bt_new_def bt_get_def intake_result_def intake_receipt_def counted_def remember_retry_def
      saturating_add_u64_def xt_gateway_def xt_receipt_def)

lemma xt_start: "gateway_reachable toy_hpke toy_lib id zero_digest xt_descriptor zero32 gateway_default xs_open"
  unfolding gateway_reachable_def using xs_reachable(1) gys_refl by blast

lemma xt_reachable: "gateway_reachable toy_hpke toy_lib id zero_digest xt_descriptor zero32 xt_gateway xs_voted"
  unfolding gateway_reachable_def
  using xs_reachable(1) gys_step [OF gys_refl gy_deliver [OF xt_deliver]] by blast

lemma xt_fresh: "inj_on (package_digest zero_digest) (set (gs_packages xs_voted))" "length (gs_packages xs_voted) < 2 ^ 64"
  by (simp_all add: xs_states)

lemma xt_limits: "durable_limits xt_gateway"
  by (simp add: durable_limits_def xt_gateway_def gateway_default_def MAX_DURABLE_RETRIES_def MAX_DURABLE_PENDING_def MAX_DURABLE_BATCHES_def)

lemma xt_durable_fits: "fits (durable_header_enc xt_descriptor zero32 @ durable_body_enc xt_gateway)"
  by (rule durable_retries_fit [OF xt_descriptor_wf]) (simp_all add: gateway_default_def xt_gateway_def)

lemma xt_seals: "\<exists>b g'. seal_pending_batch zero_digest 3 True xt_gateway = (Some b, g')"
  by (rule seal_pending_total) (simp_all add: xt_gateway_def)

section \<open>Signatures\<close>

text \<open>A signature scheme in which every 64-byte string signs every message.\<close>

definition toy_ed :: "(unit, unit) ed25519" where
  "toy_ed = \<lparr>ed_from_bytes = (\<lambda>_. Some ()), ed_verify_strict = (\<lambda>_ _ signature. length signature = 64),
     ed_verify = (\<lambda>_ _ signature. length signature = 64), ed_sign = (\<lambda>_ _. replicate 64 0)\<rparr>"

definition xt_root :: transport_authority_root_v1 where
  "xt_root = Pinned (lit ''root'') zero32"

definition xt_authenticated :: authenticated_transport_receipt_v1 where
  "xt_authenticated = \<lparr>rc_receipt = xt_receipt, rc_descriptor_fingerprint = zero32, rc_package_digest = zero32,
     rc_batch_root = None, rc_key_id = lit ''key'', rc_signature = []\<rparr>"

lemma xt_keys: "td_receipt_verification_keys xt_descriptor = [zero32]"
  by (simp add: xt_descriptor_def)

lemma xt_descriptor_fits: "fits (descriptor_enc xt_descriptor)"
  using length_enc_len [of 17 MAJOR_ARRAY] length_enc_unsigned [of DESCRIPTOR_VERSION] length_enc_text [of PROTOCOL_ID]
    length_enc_bytes [of "[7]"] length_enc_bytes [of "arr_bytes zero32"] length_enc_unsigned [of 1] length_enc_unsigned [of 0]
    length_enc_len [of 0 MAJOR_ARRAY] length_enc_len [of 1 MAJOR_ARRAY] length_enc_text [of "lit ''gateway''"]
    length_enc_text [of "lit ''pad''"] length_enc_unsigned [of 2048] length_enc_text [of "lit ''batch''"] length_enc_unsigned [of 3]
    length_enc_text [of HPKE_SUITE_ID] length_enc_text [of "lit ''root''"] length_enc_bytes [of "replicate 64 0"]
  by (simp add: descriptor_enc_def descriptor_body_enc_def xt_descriptor_def enc_seq_def validity_word_def fits_def usize_max_def lit_def)

lemma xt_accepted:
  "\<exists>store1. consistency_accept toy_ed zero_digest xt_descriptor xt_root (ManifestHash zero32) consistency_new = Ok (zero32, store1)
    \<and> consistency_accept toy_ed zero_digest xt_descriptor xt_root (ManifestHash zero32) store1 = Ok (zero32, store1)"
proof -
  have "\<exists>m. signing_message xt_descriptor = Ok m"
    using descriptor_write_eq [OF xt_descriptor_wf, of False]
    by (auto simp: signing_message_def unsigned_canonical_cbor_def new_writer_def)
  then have "descriptor_verify toy_ed xt_root (ManifestHash zero32) xt_descriptor = Ok ()"
    using xt_descriptor_wf by (auto simp: descriptor_verify_def wf_descriptor_def toy_ed_def xt_root_def) (simp_all add: xt_descriptor_def)
  then show ?thesis by (simp add: consistency_accept_def xt_fingerprint consistency_new_def Let_def)
qed

section \<open>A coordinator\<close>

definition xt_coordinator :: private_submission_coordinator_v1 where
  "xt_coordinator = \<lparr>co_roots = root_set_new xt_root, co_descriptor = Some xt_descriptor, co_receiver_key = Some zero32,
     co_gateway = gateway_default, co_consistency = consistency_new, co_persistence = None, co_retry_memory = None\<rparr>"

definition xt_carrier :: "unit private_submission_carrier_v1" where
  "xt_carrier = \<lparr>pc_send_managed_tor = (\<lambda>_ _ _. (Ok (), ())), pc_send_split_trust_relay = (\<lambda>_ _ _. (Err TransportUnavailable, ()))\<rparr>"

definition xt_io :: save_io where
  "xt_io = \<lparr>io_has_parent = True, io_create_dir = True, io_open = True, io_failed_write = None, io_rename = True\<rparr>"

lemma xt_lookup: "lookup_root (td_root_key_id xt_descriptor) (root_set_new xt_root) = Ok xt_root"
  by (simp add: lookup_root_def root_set_new_def xt_root_def xt_descriptor_def)

definition xt_store :: descriptor_consistency_store_v1 where
  "xt_store = \<lparr>dc_active = [([7], 1) \<mapsto> zero32]\<rparr>"

lemma xt_verified: "descriptor_verify toy_ed xt_root (ManifestHash zero32) xt_descriptor = Ok ()"
  using xt_accepted by (auto simp: consistency_accept_def result_inv)

lemma xt_verify_and_accept:
  assumes "store = consistency_new \<or> store = xt_store"
  shows "verify_and_accept_descriptor toy_ed zero_digest xt_descriptor (ManifestHash zero32) (root_set_new xt_root) store = Ok (zero32, xt_store)"
  using assms
  by (auto simp: verify_and_accept_descriptor_def xt_lookup xt_verified consistency_accept_def xt_fingerprint Let_def)
    (auto simp: xt_descriptor_def xt_store_def consistency_new_def)

lemma xt_checks:
  assumes "co_descriptor c = Some xt_descriptor" "co_receiver_key c = Some zero32" "co_roots c = root_set_new xt_root"
    "co_consistency c = consistency_new \<or> co_consistency c = xt_store" "gs_artifacts s = xs_artifacts"
  shows "submission_checks toy_ed zero_digest ManagedTor s c = (Ok (xt_descriptor, zero32), c\<lparr>co_consistency := xt_store\<rparr>)"
proof -
  have "td_election_id xt_descriptor = election_id_bytes (manifest_election_id ex_manifest)" "td_route xt_descriptor = ManagedTorOrOffline"
    by (simp_all add: xt_descriptor_def ex_manifest_def)
  then show ?thesis
    using assms by (auto simp: submission_checks_def xs_artifacts_def route_supported_def xt_verify_and_accept)
qed

lemma xt_encode: "and_then (envelope_seal toy_hpke zero_digest () xt_descriptor ex_vote_bytes) private_envelope_to_canonical_cbor = Ok xt_encoded"
  by (simp add: xt_seal private_envelope_to_canonical_cbor_eq [OF xt_envelope_wf] xt_encoded_def)

definition xt_submitted :: private_submission_coordinator_v1 where
  "xt_submitted = xt_coordinator\<lparr>co_gateway := xt_gateway, co_consistency := xt_store, co_retry_memory := Some (zero32, zero32)\<rparr>"

lemma xt_submit:
  "submit toy_hpke toy_lib toy_ed zero_digest xt_io () zero32 xt_carrier ManagedTor ex_vote_bytes xt_coordinator xs_open ()
   = (Ok \<lparr>sr_route = ManagedTor, sr_receipt = xt_receipt, sr_reduced_anonymity = True\<rparr>, xt_submitted, xs_voted, ())"
proof -
  have k: "retry_capability_for zero_digest zero32 ex_vote_bytes xt_coordinator = (zero32, xt_coordinator\<lparr>co_retry_memory := Some (zero32, zero32)\<rparr>)"
    by (simp add: retry_capability_for_def xt_coordinator_def flip: const_hash_def)
  have "submission_checks toy_ed zero_digest ManagedTor xs_open (xt_coordinator\<lparr>co_retry_memory := Some (zero32, zero32)\<rparr>) =
      (Ok (xt_descriptor, zero32), xt_coordinator\<lparr>co_retry_memory := Some (zero32, zero32), co_consistency := xt_store\<rparr>)"
    using xt_checks [of "xt_coordinator\<lparr>co_retry_memory := Some (zero32, zero32)\<rparr>" xs_open] by (simp add: xt_coordinator_def xs_open_def)
  moreover have "co_gateway xt_coordinator = gateway_default" "co_persistence xt_coordinator = None" by (simp_all add: xt_coordinator_def)
  moreover have "\<not> threshold_met (bo_accepted_unique_floor (td_batch xt_descriptor)) xt_gateway"
    by (simp add: threshold_met_def xt_descriptor_def xt_gateway_def word_le_nat_alt)
  ultimately show ?thesis
    by (simp add: submit_def k xt_encode carry_def xt_carrier_def deliver_and_persist_def deliver_def xt_deliver persist_if_configured_def
        xt_submitted_def)
qed

lemma xt_redeliver:
  "\<exists>r g. deliver_and_digest toy_hpke toy_lib zero_digest xt_encoded xt_descriptor zero32 zero32 xt_gateway xs_voted = (Ok r, g, xs_voted)"
proof -
  have "bt_get (gw_retries xt_gateway) zero32 \<noteq> None" by (simp add: xt_gateway_def bt_get_def)
  then show ?thesis
    by (auto simp: deliver_open xt_idle(3) gate_default_def xs_states delivered_def xt_opened xt_hashes)
qed

lemma xt_resubmit:
  "\<exists>res c2 s2. submit toy_hpke toy_lib toy_ed zero_digest xt_io () zero32 xt_carrier ManagedTor ex_vote_bytes xt_submitted xs_voted ()
     = (Ok res, c2, s2, ())"
proof -
  obtain r g where rg: "deliver_and_digest toy_hpke toy_lib zero_digest xt_encoded xt_descriptor zero32 zero32 xt_gateway xs_voted = (Ok r, g, xs_voted)"
    using xt_redeliver by blast
  have k: "retry_capability_for zero_digest zero32 ex_vote_bytes xt_submitted = (zero32, xt_submitted)"
    by (simp add: retry_capability_for_def xt_submitted_def flip: const_hash_def)
  have "submission_checks toy_ed zero_digest ManagedTor xs_voted xt_submitted =
      (Ok (xt_descriptor, zero32), xt_submitted\<lparr>co_consistency := xt_store\<rparr>)"
    by (rule xt_checks) (simp_all add: xt_submitted_def xt_coordinator_def xs_voted_def xs_open_def)
  moreover have "co_gateway xt_submitted = xt_gateway" "co_persistence xt_submitted = None"
    by (simp_all add: xt_submitted_def xt_coordinator_def)
  ultimately show ?thesis
    using rg by (simp add: submit_def k xt_encode carry_def xt_carrier_def deliver_and_persist_def deliver_def persist_if_configured_def
        case_prod_beta)
qed

end
