(* ===== verification/Transport_Properties.thy ===== *)
theory Transport_Properties
  imports Example_Transport
begin

text \<open>
  Properties of the private transport: what a gateway counts, seals, answers and restores, the sealed
  envelopes, the Merkle batches and the signed messages, each with a witness on the example transport.
\<close>

section \<open>What a gateway accepts\<close>

text \<open>
  C10: In every state that a gateway and its session reach by deliveries, closing,
  sealing, retention changes, restarts and the organizer's own operations, the digests that wait or are
  sealed are pairwise distinct, each belongs to an accepted ballot of the session, and their number is
  the accepted count, which is at most the verified count and that at most the received count. Each
  sealed batch holds increasing digests under their Merkle root, and the batch ids are 0, 1, 2 and so on.
  This rests on the packages of the session having distinct digests.
\<close>

theorem gateway_accepts_once:
  assumes "gateway_reachable H L nfc blake3 d key g s"
    and "inj_on (package_digest blake3) (set (gs_packages s))" and "length (gs_packages s) < 2 ^ 64"
  shows "let digests = gw_pending_digests g @ concat (map sb_digests (gw_sealed_batches g)) in
      distinct digests \<and> unat (gw_accepted_unique_count g) = length digests
    \<and> set digests \<subseteq> {package_digest_bytes (bd_package_digest e) |e. e \<in> set (vt_decisions (gs_transcript s)) \<and> bd_outcome e = Accepted}
    \<and> gw_accepted_unique_count g \<le> gw_verified_count g \<and> gw_verified_count g \<le> gw_received_count g
    \<and> (\<forall>i < length (gw_sealed_batches g). let b = gw_sealed_batches g ! i in sb_batch_id b = word_of_nat i
        \<and> sorted_wrt (<) (sb_digests b) \<and> merkle_root blake3 (map (leaf_hash blake3) (sb_digests b)) = Some (sb_root b))"
proof -
  from gateway_reachable_inv [OF assms] have inv: "gateway_inv blake3 g s" and len: "length (all_digests g) < 2 ^ 64" by auto
  have n: "unat (gw_accepted_unique_count g) = length (all_digests g)"
    using inv len by (simp add: gateway_inv_defs unat_of_nat)
  have "sb_batch_id (gw_sealed_batches g ! i) = word_of_nat i" if "i < length (gw_sealed_batches g)" for i
    using inv that unfolding gateway_inv_def batches_inv_def by (metis add_0 diff_zero length_upt nth_map nth_upt)
  then show ?thesis
    using inv n nth_mem [of _ "gw_sealed_batches g"] unfolding Let_def all_digests_def [symmetric]
    by (auto simp: gateway_inv_defs accepted_digests_def wf_sealed_batch_def is_accepted_iff)
qed

theorem gateway_accepts_once_witness:
  "distinct (gw_pending_digests xt_gateway) \<and> unat (gw_accepted_unique_count xt_gateway) = length (gw_pending_digests xt_gateway)"
  using gateway_accepts_once [OF xt_reachable xt_fresh] by (simp add: Let_def xt_gateway_def gateway_default_def)

text \<open>
  C11: When a reachable gateway answers a delivery with an accepted receipt, the
  envelope opened to a package with the digest of the answer, the session holds an accepted decision on
  that digest, and the digest waits to be sealed or is in a sealed batch. This covers first deliveries,
  repeated ones and those answered from a retry record.
\<close>

theorem accepted_receipt_sound:
  assumes "gateway_reachable H L nfc blake3 d key g s"
    and "deliver_and_digest H L blake3 encoded d key capability g s = (Ok (receipt, digest), g', s')"
    and "vr_state receipt = ReceiptAccepted"
    and "inj_on (package_digest blake3) (set (gs_packages s'))" and "length (gs_packages s') < 2 ^ 64"
  shows "(\<exists>e pkg. private_envelope_from_canonical_cbor encoded = Ok e \<and> open_envelope_bytes_v1 H blake3 e d key = Ok pkg
        \<and> digest = transport_package_digest blake3 pkg)
    \<and> (\<exists>x \<in> set (vt_decisions (gs_transcript s')). package_digest_bytes (bd_package_digest x) = digest \<and> bd_outcome x = Accepted)
    \<and> (digest \<in> set (gw_pending_digests g') \<or> (\<exists>b \<in> set (gw_sealed_batches g'). digest \<in> set (sb_digests b)))"
proof -
  have re': "gateway_reachable H L nfc blake3 d key g' s'"
    using assms(1) gys_step [OF _ gy_deliver [OF assms(2)]] unfolding gateway_reachable_def by blast
  from gateway_reachable_inv [OF re' assms(4, 5)] have inv: "gateway_inv blake3 g' s'" by blast
  have "delivered H L blake3 encoded d key capability g s = (Ok (receipt, digest), g', s')"
    using deliver_step [OF assms(2)] gateway_idle [OF assms(1)] by auto
  moreover have "retries_inv g"
    using gateway_reachable_inv [OF assms(1) gateway_step_down [OF assms(1) gy_deliver [OF assms(2)] assms(4, 5)]]
    by (simp add: gateway_inv_def)
  ultimately have "digest \<in> set (all_digests g')" and op: "\<exists>pkg. opened H blake3 encoded d key = Ok pkg \<and> digest = transport_package_digest blake3 pkg"
    using delivered_accepted assms(3) by blast+
  moreover from this inv have "digest \<in> set (accepted_digests s')" by (auto simp: gateway_inv_defs)
  ultimately show ?thesis
    by (auto simp: all_digests_def accepted_digests_def result_inv is_accepted_iff)
qed

theorem accepted_receipt_sound_witness:
  "\<exists>x \<in> set (vt_decisions (gs_transcript xs_voted)). bd_outcome x = Accepted"
  using accepted_receipt_sound [OF xt_start xt_deliver _ xt_fresh] by (auto simp: xt_receipt_def)

lemma gateway_reachable_steps:
  assumes "gateway_reachable H L nfc blake3 d key g s" and "gateway_steps H L blake3 d key g s g' s'"
  shows "gateway_reachable H L nfc blake3 d key g' s'"
  using assms(2, 1)
proof (induction rule: gateway_steps.induct)
  case (gys_step g s g1 s1 g2 s2)
  then show ?case unfolding gateway_reachable_def using gateway_steps.gys_step by blast
qed

lemma restored_record: "bt_get (gw_retries (restored g)) k = map_option durable_record (bt_get (gw_retries g) k)"
  by (simp add: restored_def bt_get_def map_of_map case_prod_beta)

text \<open>A retry record survives every step of the gateway but the expiry of the records.\<close>

lemma record_kept_step:
  assumes "gateway_reachable H L nfc blake3 d key g s" and "gateway_step H L blake3 d key g s g' s'"
    and "inj_on (package_digest blake3) (set (gs_packages s'))" and "length (gs_packages s') < 2 ^ 64"
    and "gw_retry_retention g' \<noteq> Expired" and "bt_get (gw_retries g) k = Some r"
  shows "\<exists>r'. bt_get (gw_retries g') k = Some r' \<and> rr_package_digest r' = rr_package_digest r
    \<and> vr_state (rr_receipt r') = vr_state (rr_receipt r)"
  using assms(2) assms(1) assms(3-)
proof (induction rule: gateway_step.induct)
  case (gy_deliver encoded capability g s x g' s')
  from gateway_idle [OF gy_deliver.prems(1)] have "ag_admitted (gw_admission g) = 0" by simp
  from deliver_step [OF gy_deliver.hyps this] gy_deliver.prems(5) show ?case
    by (auto simp: delivered_def Let_def intake_receipt_def remember_retry_def counted_def bt_get_def map_of_bt_insert
        split: result.splits option.splits prod.splits if_splits)
next
  case (gy_restart g bs g' s)
  from gateway_reachable_inv [OF gy_restart.prems(1-3)] have inv: "gateway_inv blake3 g s" "length (all_digests g) < 2 ^ 64" by auto
  from restart_restored [OF inv gy_restart.hyps(1-3)] gy_restart.hyps(4) have "g' = restored g" by simp
  with gy_restart.prems(5) show ?case by (simp add: restored_record durable_record_def)
qed (auto simp: begin_close_def expire_close_drain_def with_gate_eq seal_pending_batch_def begin_retry_verification_grace_def
    expire_retry_retention_def Let_def split: if_splits option.splits)

lemma retention_expired_stays:
  assumes "gateway_reachable H L nfc blake3 d key g s" and "gateway_step H L blake3 d key g s g' s'"
    and "inj_on (package_digest blake3) (set (gs_packages s'))" and "length (gs_packages s') < 2 ^ 64"
    and "gw_retry_retention g = Expired"
  shows "gw_retry_retention g' = Expired"
  using assms(2) assms(1) assms(3-)
proof (induction rule: gateway_step.induct)
  case (gy_deliver encoded capability g s x g' s')
  from gateway_idle [OF gy_deliver.prems(1)] have "ag_admitted (gw_admission g) = 0" by simp
  from deliver_step [OF gy_deliver.hyps this] gy_deliver.prems(4) show ?case
    by (auto simp: delivered_def Let_def intake_receipt_def remember_retry_def counted_def
        split: result.splits option.splits prod.splits if_splits)
next
  case (gy_restart g bs g' s)
  from gateway_reachable_inv [OF gy_restart.prems(1-3)] have inv: "gateway_inv blake3 g s" "length (all_digests g) < 2 ^ 64" by auto
  from restart_restored [OF inv gy_restart.hyps(1-3)] gy_restart.hyps(4) have "g' = restored g" by simp
  with gy_restart.prems(4) show ?case by (simp add: restored_def)
qed (auto simp: begin_close_def expire_close_drain_def with_gate_eq seal_pending_batch_def begin_retry_verification_grace_def
    expire_retry_retention_def Let_def split: if_splits option.splits)

lemma record_kept:
  assumes "gateway_steps H L blake3 d key g s g' s'" and "gateway_reachable H L nfc blake3 d key g s"
    and "inj_on (package_digest blake3) (set (gs_packages s'))" and "length (gs_packages s') < 2 ^ 64"
    and "gw_retry_retention g' \<noteq> Expired" and "bt_get (gw_retries g) k = Some r"
  shows "gateway_reachable H L nfc blake3 d key g' s' \<and> (\<exists>r'. bt_get (gw_retries g') k = Some r'
    \<and> rr_package_digest r' = rr_package_digest r \<and> vr_state (rr_receipt r') = vr_state (rr_receipt r))"
  using assms
proof (induction rule: gateway_steps.induct)
  case (gys_step g s g1 s1 g2 s2)
  have re1: "gateway_reachable H L nfc blake3 d key g1 s1"
    using gys_step.prems(1) gys_step.hyps(1) gateway_reachable_steps by blast
  note down = gateway_step_down [OF re1 gys_step.hyps(2) gys_step.prems(2, 3)]
  have "gw_retry_retention g1 \<noteq> Expired"
    using retention_expired_stays [OF re1 gys_step.hyps(2) gys_step.prems(2, 3)] gys_step.prems(4) by blast
  from gys_step.IH [OF gys_step.prems(1) down this gys_step.prems(5)] obtain r1 where
    r1: "bt_get (gw_retries g1) k = Some r1" "rr_package_digest r1 = rr_package_digest r"
      "vr_state (rr_receipt r1) = vr_state (rr_receipt r)" by blast
  from record_kept_step [OF re1 gys_step.hyps(2) gys_step.prems(2-4) r1(1)] r1
    gateway_reachable_steps [OF re1 gateway_steps.gys_step [OF gys_refl gys_step.hyps(2)]] show ?case by auto
qed simp

text \<open>
  C18: A capability that brought a package to a decision decides nothing again. After any further
  steps of the gateway and its session, restarts included, and as long as the retry records have not
  expired, an envelope that opens to the same package and comes with that capability gets the first
  answer, marked as previously accepted or previously rejected, and one that opens to another package
  is rejected as a duplicate; a gateway that is not open refuses both. Neither changes the session,
  and of the gateway only the received count.
\<close>

theorem capability_decides_once:
  assumes "gateway_reachable H L nfc blake3 d key g s"
    and "deliver_and_digest H L blake3 encoded d key capability g s = (Ok (receipt, digest), g1, s1)"
    and "vr_retry_status receipt = NewDelivery" and "gw_retry_retention g \<noteq> Expired"
    and "gateway_steps H L blake3 d key g1 s1 g2 s2" and "gw_retry_retention g2 \<noteq> Expired"
    and "inj_on (package_digest blake3) (set (gs_packages s2))" and "length (gs_packages s2) < 2 ^ 64"
    and "private_envelope_from_canonical_cbor encoded' = Ok e" and "open_envelope_bytes_v1 H blake3 e d key = Ok pkg"
  shows "deliver_and_digest H L blake3 encoded' d key capability g2 s2 =
    (if ag_state (gw_admission g2) = GateOpen \<and> lc_state (gs_lifecycle s2) = Open then
       (Ok (if transport_package_digest blake3 pkg = digest
            then \<lparr>vr_state = vr_state receipt, vr_retry_status =
              (if vr_state receipt = ReceiptAccepted then PreviousDeliveryAccepted else PreviousDeliveryRejected)\<rparr>
            else \<lparr>vr_state = ReceiptRejected, vr_retry_status = GenericDuplicate\<rparr>,
          transport_package_digest blake3 pkg),
        g2\<lparr>gw_received_count := saturating_add_u64 (gw_received_count g2) 1\<rparr>, s2)
     else (Err TransportUnavailable, g2, s2))"
proof -
  let ?k = "capability_commitment blake3 capability"
  have del: "delivered H L blake3 encoded d key capability g s = (Ok (receipt, digest), g1, s1)"
    using deliver_step [OF assms(2)] gateway_idle [OF assms(1)] by auto
  have "bt_get (gw_retries g) ?k = None"
    using del assms(3) by (auto simp: delivered_def retry_receipt_def Let_def split: result.splits option.splits if_splits)
  from delivered_records [OF del assms(4) this]
  have rec: "bt_get (gw_retries g1) ?k = Some \<lparr>rr_package_digest = digest, rr_receipt = receipt\<rparr>" .
  have re1: "gateway_reachable H L nfc blake3 d key g1 s1"
    by (rule gateway_reachable_steps [OF assms(1) gys_step [OF gys_refl gy_deliver [OF assms(2)]]])
  from record_kept [OF assms(5) re1 assms(7, 8, 6) rec] obtain r where
    re2: "gateway_reachable H L nfc blake3 d key g2 s2"
    and r: "bt_get (gw_retries g2) ?k = Some r" "rr_package_digest r = digest" "vr_state (rr_receipt r) = vr_state receipt" by auto
  have receipt: "retry_receipt dg r = (if dg = digest then \<lparr>vr_state = vr_state receipt, vr_retry_status =
      (if vr_state receipt = ReceiptAccepted then PreviousDeliveryAccepted else PreviousDeliveryRejected)\<rparr>
    else \<lparr>vr_state = ReceiptRejected, vr_retry_status = GenericDuplicate\<rparr>)" for dg
    using r by (cases "rr_receipt r") (simp add: retry_receipt_def)
  show ?thesis
  proof (cases "ag_state (gw_admission g2) = GateOpen \<and> lc_state (gs_lifecycle s2) = Open")
    case True
    note deliver = deliver_open [OF conjunct2 [OF gateway_idle [OF re2]] conjunct1 [OF True] conjunct2 [OF True]]
    have "delivered H L blake3 encoded' d key capability g2 s2 =
        (Ok (retry_receipt (transport_package_digest blake3 pkg) r, transport_package_digest blake3 pkg), counted False g2, s2)"
      using r(1) assms(9, 10) by (simp add: delivered_def Let_def)
    then show ?thesis unfolding if_P [OF True] deliver receipt by (simp add: counted_def)
  next
    case False
    then show ?thesis by (simp add: deliver_refused)
  qed
qed

text \<open>The example gateway, saved and loaded again after its first delivery.\<close>

lemma xt_restart: "gateway_steps toy_hpke toy_lib zero_digest xt_descriptor zero32 xt_gateway xs_voted xt_gateway xs_voted"
proof -
  let ?bs = "durable_header_enc xt_descriptor zero32 @ durable_body_enc xt_gateway"
  have save: "durable_state zero_digest xt_descriptor xt_gateway = Ok ?bs"
    by (rule durable_state_eq [OF xt_fingerprint])
      (simp_all add: xt_descriptor_def len_ok_def xt_gateway_def gateway_default_def)
  from gateway_reachable_inv [OF xt_reachable xt_fresh] have inv: "gateway_inv zero_digest xt_gateway xs_voted"
    "length (all_digests xt_gateway) < 2 ^ 64" by auto
  have "restored xt_gateway = xt_gateway"
    by (simp add: restored_def durable_record_def xt_gateway_def gateway_default_def xt_receipt_def sort_dedup_def)
  with restart_restored [OF inv xt_limits save xt_durable_fits]
  have "load_durable_state zero_digest xt_descriptor ?bs = Ok xt_gateway" by simp
  from gys_step [OF gys_refl gy_restart [OF xt_limits save xt_durable_fits this]] show ?thesis .
qed

theorem capability_decides_once_witness:
  "\<exists>g3. deliver_and_digest toy_hpke toy_lib zero_digest xt_encoded xt_descriptor zero32 zero32 xt_gateway xs_voted
     = (Ok (\<lparr>vr_state = ReceiptAccepted, vr_retry_status = PreviousDeliveryAccepted\<rparr>, zero32), g3, xs_voted)"
proof -
  from xt_opened obtain e where e: "private_envelope_from_canonical_cbor xt_encoded = Ok e"
    "open_envelope_bytes_v1 toy_hpke zero_digest e xt_descriptor zero32 = Ok ex_vote_bytes" by (auto simp: result_inv)
  have "vr_retry_status xt_receipt = NewDelivery" "gw_retry_retention gateway_default \<noteq> Expired"
    "gw_retry_retention xt_gateway \<noteq> Expired"
    by (simp_all add: xt_receipt_def xt_gateway_def gateway_default_def)
  from capability_decides_once [OF xt_start xt_deliver this(1, 2) xt_restart this(3) xt_fresh e] show ?thesis
    by (simp add: xt_idle(3) gate_default_def xs_states xt_hashes xt_receipt_def)
qed

section \<open>Closing\<close>

text \<open>
  C17: Once a reachable gateway has closed, the session is closed, and in
  every state that follows, restarts of the gateway included, a delivery is refused and changes neither
  the gateway nor the session.
\<close>

theorem closed_gateway_stays_closed:
  assumes "gateway_reachable H L nfc blake3 d key g s" and "begin_close g s = (Ok (), g1, s1)"
    and "gateway_steps H L blake3 d key g1 s1 g2 s2"
  shows "lc_state (gs_lifecycle s1) = Closed \<and> ag_state (gw_admission g1) = GateClosed
    \<and> deliver_and_digest H L blake3 encoded d key capability g2 s2 = (Err TransportUnavailable, g2, s2)"
proof -
  have closed: "lc_state (gs_lifecycle s1) = Closed \<and> ag_state (gw_admission g1) = GateClosed"
    using assms(2) gateway_idle [OF assms(1)]
    by (auto simp: begin_close_def with_gate_eq gate_begin_close_def close_if_drained_def dest!: gui_advance(1)
        split: if_splits result.splits)
  with gateway_steps_ended [OF assms(3)] have "lc_state (gs_lifecycle s2) \<noteq> Open" by auto
  with closed show ?thesis using deliver_refused by blast
qed

theorem closed_gateway_stays_closed_witness:
  "\<exists>g1. begin_close xt_gateway xs_voted = (Ok (), g1, xs_closed)
    \<and> deliver_and_digest toy_hpke toy_lib zero_digest xt_encoded xt_descriptor zero32 zero32 g1 xs_closed
      = (Err TransportUnavailable, g1, xs_closed)"
proof -
  have "gui_close xs_voted = Ok xs_closed"
    by (simp add: lifecycle_ops xs_closed_def with_state_def xs_voted_def xs_open_def ex_lifecycle_def)
  then obtain g1 where g1: "begin_close xt_gateway xs_voted = (Ok (), g1, xs_closed)"
    by (auto simp: begin_close_def with_gate_def gate_begin_close_def close_if_drained_def xt_idle(3) gate_default_def)
  from closed_gateway_stays_closed [OF xt_reachable g1 gys_refl] g1 show ?thesis by blast
qed

section \<open>Restarts\<close>

text \<open>
  C16: The durable state that a reachable gateway saves while it is within the
  limits of the format loads again under the same descriptor, and the loaded gateway has the same counts,
  batches, next batch id and retention, the same retry records up to their retry status, the same pending
  digests in increasing order, and an open gate with nothing admitted.
\<close>

theorem gateway_restart_restores:
  assumes "gateway_reachable H L nfc blake3 d key g s"
    and "inj_on (package_digest blake3) (set (gs_packages s))" and "length (gs_packages s) < 2 ^ 64"
    and "length (gw_retries g) \<le> MAX_DURABLE_RETRIES" and "length (gw_pending_digests g) \<le> MAX_DURABLE_PENDING"
    and "length (gw_sealed_batches g) \<le> MAX_DURABLE_BATCHES"
    and "\<forall>b \<in> set (gw_sealed_batches g). length (sb_digests b) \<le> MAX_DURABLE_PENDING"
    and "durable_state blake3 d g = Ok bs" and "fits bs"
  shows "load_durable_state blake3 d bs = Ok (g\<lparr>
      gw_retries := map (\<lambda>(k, r). (k, r\<lparr>rr_receipt := (rr_receipt r)\<lparr>vr_retry_status := NewDelivery\<rparr>\<rparr>)) (gw_retries g),
      gw_admission := gate_default, gw_pending_digests := sort (gw_pending_digests g)\<rparr>)"
proof -
  from gateway_reachable_inv [OF assms(1-3)] have inv: "gateway_inv blake3 g s" "length (all_digests g) < 2 ^ 64" by auto
  have "durable_limits g" using assms(4-7) by (simp add: durable_limits_def)
  from restart_restored [OF inv this assms(8, 9)] have load: "load_durable_state blake3 d bs = Ok (restored g)" .
  have "sort_dedup (gw_pending_digests g) = sort (gw_pending_digests g)"
    using inv(1) by (simp add: gateway_inv_defs all_digests_def sort_dedup_distinct)
  then show ?thesis using load by (simp add: restored_def durable_record_def)
qed

theorem gateway_restart_restores_witness:
  "\<exists>bs. durable_state zero_digest xt_descriptor xt_gateway = Ok bs \<and> load_durable_state zero_digest xt_descriptor bs = Ok xt_gateway"
proof -
  let ?bs = "durable_header_enc xt_descriptor zero32 @ durable_body_enc xt_gateway"
  have save: "durable_state zero_digest xt_descriptor xt_gateway = Ok ?bs"
    by (rule durable_state_eq [OF xt_fingerprint])
      (simp_all add: xt_descriptor_def len_ok_def xt_gateway_def gateway_default_def)
  have "load_durable_state zero_digest xt_descriptor ?bs = Ok (xt_gateway\<lparr>
      gw_retries := map (\<lambda>(k, r). (k, r\<lparr>rr_receipt := (rr_receipt r)\<lparr>vr_retry_status := NewDelivery\<rparr>\<rparr>)) (gw_retries xt_gateway),
      gw_admission := gate_default, gw_pending_digests := sort (gw_pending_digests xt_gateway)\<rparr>)"
    using xt_limits by (intro gateway_restart_restores [OF xt_reachable xt_fresh _ _ _ _ save xt_durable_fits]) (simp_all add: durable_limits_def)
  then show ?thesis using save by (simp add: xt_gateway_def gateway_default_def xt_receipt_def)
qed

text \<open>
  A gateway with more than 65,536 retry records still saves its state, but the
  saved state is refused when it is loaded.
\<close>

lemma gateway_outgrows_its_state:
  assumes "wf_descriptor d" and "MAX_DURABLE_RETRIES < length (gw_retries g)" and "length (gw_retries g) < 2 ^ 32"
    and "length (gw_pending_digests g) < 2 ^ 32" and "gw_sealed_batches g = []"
  shows "\<exists>bs. durable_state blake3 d g = Ok bs \<and> load_durable_state blake3 d bs = Err InvalidDescriptor"
proof -
  obtain fp where fp: "descriptor_fingerprint blake3 d = Ok fp"
    by (simp add: descriptor_fingerprint_def descriptor_to_canonical_cbor_eq [OF assms(1)])
  have len: "len_ok (length (gw_retries g))" using assms(3) by (simp add: len_ok_def)
  have save: "durable_state blake3 d g = Ok (durable_header_enc d fp @ durable_body_enc g)"
    using len assms(4, 5) by (intro durable_state_eq [OF fp wf_descriptor_bounds(1) [OF assms(1)]]) (simp_all add: len_ok_def)
  have "load_durable_state blake3 d (durable_header_enc d fp @ durable_body_enc g) = Err InvalidDescriptor"
    by (rule load_too_many_retries [OF fp wf_descriptor_bounds(1) [OF assms(1)] assms(2) len save
      durable_retries_fit [OF assms(1, 3-5)]])
  with save show ?thesis by blast
qed

section \<open>Sealed envelopes\<close>

text \<open>
  C19: Under the correctness of HPKE, a ballot that a voter seals for a descriptor is
  what the gateway with the matching secret key opens from the encoded envelope, byte for byte; the only
  exception is an encoding above the envelope limit, which the gateway refuses as oversized.
\<close>

theorem sealed_envelope_opens:
  assumes "hpke_correct H public_of" and "hk_private_from_bytes H secret = Some sk"
    and "hk_public_from_bytes H (td_gateway_public_key d) = Some (public_of sk)"
    and "wf_descriptor d" and "envelope_seal H blake3 rnd d ballot = Ok e"
  shows "\<exists>bs. private_envelope_to_canonical_cbor e = Ok bs
    \<and> and_then (private_envelope_from_canonical_cbor bs) (\<lambda>e. open_envelope_bytes_v1 H blake3 e d secret) =
        (if length bs \<le> MAX_ENVELOPE_BYTES then Ok ballot else Err OversizedPayload)"
  using private_envelope_to_canonical_cbor_eq [OF sealed_wf [OF assms(4, 5)]] sealed_opens [OF assms(1-4), of blake3 rnd ballot] assms(5)
  by simp

theorem sealed_envelope_opens_witness:
  "\<exists>bs. private_envelope_to_canonical_cbor xt_envelope = Ok bs
    \<and> and_then (private_envelope_from_canonical_cbor bs) (\<lambda>e. open_envelope_bytes_v1 toy_hpke zero_digest e xt_descriptor zero32) =
        Ok ex_vote_bytes"
  using sealed_envelope_opens [OF toy_hpke_correct _ _ xt_descriptor_wf xt_seal, of zero32 "()"] xt_encoded_size
  by (simp add: toy_hpke_def private_envelope_to_canonical_cbor_eq [OF xt_envelope_wf] xt_encoded_def)

section \<open>Batches\<close>

text \<open>
  C20: When a gateway seals its pending digests, every one of them has an inclusion proof
  that verifies against the batch root; and a proof that verifies against that root is for one of them,
  unless the tree and the proof exhibit a collision of the hash function.
\<close>

theorem batch_inclusion_exact:
  assumes "seal_pending_batch blake3 floor final g = (Some b, g')"
  shows "(\<forall>dg \<in> set (gw_pending_digests g). \<exists>p. inclusion_proof blake3 dg b = Some p \<and> ip_package_digest p = dg
        \<and> ip_root p = sb_root b \<and> inclusion_verify blake3 p)
    \<and> (\<forall>p. inclusion_verify blake3 p \<and> ip_root p = sb_root b \<longrightarrow>
        ip_package_digest p \<in> set (gw_pending_digests g)
        \<or> inputs_collide blake3 (tree_inputs blake3 (sort_dedup (gw_pending_digests g)) \<union> proof_inputs blake3 p))"
proof -
  note sealed = seal_pending_Some [OF assms]
  show ?thesis
    using inclusion_complete [of b _ blake3] inclusion_sound [of blake3 "sb_digests b" "sb_root b"] sealed
    by (auto simp: sort_dedup_strict)
qed

theorem batch_inclusion_exact_witness:
  "\<exists>b g' p. seal_pending_batch zero_digest 3 True xt_gateway = (Some b, g') \<and> inclusion_proof zero_digest zero32 b = Some p
    \<and> inclusion_verify zero_digest p"
proof -
  obtain b g' where b: "seal_pending_batch zero_digest 3 True xt_gateway = (Some b, g')"
    using xt_seals by blast
  from batch_inclusion_exact [OF b] b show ?thesis by (auto simp: xt_gateway_def)
qed

text \<open>
  Two batches that any gateways sealed with the same root hold the same digests, unless
  their two trees exhibit a collision of the hash function.
\<close>

lemma batch_root_binds:
  assumes "seal_pending_batch blake3 floor final g = (Some b, g1)" and "seal_pending_batch blake3 floor' final' g' = (Some b', g1')"
    and "sb_root b = sb_root b'"
  shows "set (gw_pending_digests g) = set (gw_pending_digests g')
    \<or> inputs_collide blake3 (tree_inputs blake3 (sort_dedup (gw_pending_digests g)) \<union> tree_inputs blake3 (sort_dedup (gw_pending_digests g')))"
proof -
  have "distinct (sort_dedup ds)" for ds using sort_dedup_strict [of ds] by (simp add: strictly_sorted_iff)
  then show ?thesis
    using merkle_root_binding [of blake3 "sb_digests b" "sb_root b" "sb_digests b'"] seal_pending_Some [OF assms(1)]
      seal_pending_Some [OF assms(2)] assms(3) set_sort_dedup by metis
qed

text \<open>
  C21: The archive binding that recovery builds from the accepted digests of a
  finished election, in any order and with any repetitions, is the binding that the live gateway gives
  when it seals the same digests as its only, final batch.
\<close>

theorem recovered_binding_is_live_binding:
  assumes "seal_pending_batch blake3 (bo_accepted_unique_floor (td_batch d)) True g = (Some b, g')"
    and "gw_sealed_batches g = []" and "gw_next_batch_id g = 0"
    and "set digests = set (gw_pending_digests g)" and "length digests \<le> MAX_DURABLE_PENDING"
  shows "finalized_transport_archive_binding_from_accepted_digests_v1 blake3 d digests = transport_archive_binding blake3 d g'"
proof -
  have ne: "gw_pending_digests g \<noteq> []" using assms(1) by (auto simp: seal_pending_batch_def split: if_splits)
  then have "digests \<noteq> []" using assms(4) by auto
  moreover obtain b1 g1 where s1: "seal_pending_batch blake3 (bo_accepted_unique_floor (td_batch d)) True
      (seed_pending_digests_for_recovery digests gateway_default) = (Some b1, g1)"
    using seal_pending_total [of _ True] \<open>digests \<noteq> []\<close> by (metis seed_pending_digests_for_recovery_def seed_pending)
  moreover have "gw_sealed_batches g1 = gw_sealed_batches g'"
    using seal_pending_Some [OF s1] seal_pending_Some [OF assms(1)] assms(2-4) sort_dedup_set [of digests "gw_pending_digests g"]
    by (auto simp: seed_pending_digests_for_recovery_def gateway_default_def intro!: sealed_transport_batch_v1.equality)
  ultimately show ?thesis
    using assms(5) by (simp add: finalized_transport_archive_binding_from_accepted_digests_v1_def transport_archive_binding_def)
qed

theorem recovered_binding_is_live_binding_witness:
  "\<exists>b g'. seal_pending_batch zero_digest 3 True xt_gateway = (Some b, g')
    \<and> finalized_transport_archive_binding_from_accepted_digests_v1 zero_digest xt_descriptor [zero32, zero32]
      = transport_archive_binding zero_digest xt_descriptor g'"
proof -
  have f: "bo_accepted_unique_floor (td_batch xt_descriptor) = 3" by (simp add: xt_descriptor_def)
  obtain b g' where b: "seal_pending_batch zero_digest 3 True xt_gateway = (Some b, g')"
    using xt_seals by blast
  from recovered_binding_is_live_binding [OF b [folded f], of "[zero32, zero32]"] b show ?thesis
    by (auto simp: xt_gateway_def gateway_default_def MAX_DURABLE_PENDING_def)
qed

section \<open>Descriptors and receipts\<close>

text \<open>
  Decoding accepts exactly the canonical encodings of well-formed transport descriptors, so
  a descriptor has one encoding and an encoding one descriptor.
\<close>

lemma descriptor_codec_exact:
  assumes "fits bs"
  shows "descriptor_from_canonical_cbor bs = Ok d \<longleftrightarrow> wf_descriptor d \<and> descriptor_to_canonical_cbor d = Ok bs"
  using assms by (rule descriptor_codec.decode_iff)

text \<open>
  C36: Once a store has accepted a descriptor, then after any further offers, every
  descriptor it accepts for the same election and generation has the same fingerprint and leaves the
  store as it is; two decoded descriptors accepted that way are the same bytes, unless the hash inputs
  of their fingerprints collide.
\<close>

theorem one_descriptor_per_generation:
  assumes "consistency_accept ed blake3 d root manifest store = Ok (fingerprint, store1)"
    and "consistency_accept ed blake3 d' root' manifest' (offer_all ed blake3 offers store1) = Ok (fingerprint', store2)"
    and "td_election_id d' = td_election_id d" and "td_generation d' = td_generation d"
    and "descriptor_from_canonical_cbor bs = Ok d" and "descriptor_from_canonical_cbor bs' = Ok d'"
  shows "fingerprint' = fingerprint \<and> store2 = offer_all ed blake3 offers store1
    \<and> (bs = bs' \<or> is_collision blake3 (domain_separated_input TransportDescriptorV1 bs) (domain_separated_input TransportDescriptorV1 bs'))"
proof -
  let ?k = "(td_election_id d, td_generation d)"
  have "dc_active store1 ?k = Some fingerprint" using consistency_accept_Ok [OF assms(1)] by blast
  then have "dc_active (offer_all ed blake3 offers store1) ?k = Some fingerprint"
    using offer_all_extends [of store1 ed blake3 offers] by (metis domI map_le_def)
  then have "fingerprint' = fingerprint" "store2 = offer_all ed blake3 offers store1"
    using consistency_accept_Ok [OF assms(2)] assms(3, 4) by auto
  then show ?thesis
    using fingerprint_collision [OF assms(5, 6)] consistency_accept_Ok [OF assms(1)] consistency_accept_Ok [OF assms(2)] by blast
qed

theorem one_descriptor_per_generation_witness:
  "\<exists>store1. consistency_accept toy_ed zero_digest xt_descriptor xt_root (ManifestHash zero32) consistency_new = Ok (zero32, store1)
    \<and> offer_all toy_ed zero_digest [(xt_descriptor, xt_root, ManifestHash zero32)] store1 = store1"
proof -
  obtain store1 where s: "consistency_accept toy_ed zero_digest xt_descriptor xt_root (ManifestHash zero32) consistency_new = Ok (zero32, store1)"
    "consistency_accept toy_ed zero_digest xt_descriptor xt_root (ManifestHash zero32) store1 = Ok (zero32, store1)"
    using xt_accepted by blast
  have dec: "descriptor_from_canonical_cbor (descriptor_enc xt_descriptor) = Ok xt_descriptor"
    using descriptor_codec.decode_encode [OF xt_descriptor_wf descriptor_to_canonical_cbor_eq [OF xt_descriptor_wf] xt_descriptor_fits] .
  from one_descriptor_per_generation [OF s(1) _ _ _ dec dec, of xt_root "ManifestHash zero32" "[]"] s
  show ?thesis by (intro exI [of _ store1]) simp
qed

text \<open>
  Two receipts have the same signed message exactly when they agree in everything but the
  signature, so a signature on one receipt is never one on a receipt with another state, retry status,
  descriptor, package, batch root or key id.
\<close>

lemma receipt_message_binds:
  "receipt_message c = receipt_message c' \<longleftrightarrow> c\<lparr>rc_signature := rc_signature c'\<rparr> = c'"
proof
  assume "c\<lparr>rc_signature := rc_signature c'\<rparr> = c'"
  then show "receipt_message c = receipt_message c'" by (cases c; cases c') (simp add: receipt_message_def)
qed (rule receipt_message_inj)

text \<open>
  Under the correctness of the signature scheme, a receipt that is signed with a key whose
  public key the descriptor lists verifies for that descriptor, also when other listed keys do not
  decode, and it does so again after it was encoded and decoded.
\<close>

lemma signed_receipt_verifies:
  assumes "\<forall>m. ed_verify_strict ed vk m (ed_sign ed sk m)" and "\<forall>m. length (ed_sign ed sk m) = 64"
    and "public \<in> set (td_receipt_verification_keys d)" and "ed_from_bytes ed public = Some vk"
    and "descriptor_fingerprint blake3 d = Ok (rc_descriptor_fingerprint c)"
    and "rc_key_id c \<noteq> []" and "length (rc_key_id c) \<le> MAX_RECEIPT_KEY_ID_BYTES" and "utf8_valid (rc_key_id c)"
  shows "\<exists>bs. receipt_to_canonical_cbor (sign_receipt ed sk c) = Ok bs
    \<and> and_then (receipt_from_canonical_cbor bs) (receipt_verify_for_descriptor ed blake3 d) = Ok ()"
proof -
  let ?c = "sign_receipt ed sk c"
  have wf: "wf_receipt ?c" using assms(2, 6-8) by (simp add: wf_receipt_def sign_receipt_def Let_def)
  have msg: "receipt_message ?c = receipt_message (c\<lparr>rc_signature := replicate 64 0\<rparr>)"
    by (simp add: receipt_message_def sign_receipt_def Let_def)
  have "ed_verify_strict ed vk (receipt_message ?c) (rc_signature ?c)"
    unfolding msg using assms(1) by (simp add: sign_receipt_def Let_def)
  then have "receipt_verify_for_descriptor ed blake3 d ?c = Ok ()"
    using assms(3-5) by (auto simp: receipt_verify_for_descriptor_def list_ex_iff intro!: bexI [of _ public])
      (simp add: sign_receipt_def Let_def)
  then show ?thesis
    using receipt_to_canonical_cbor_eq [OF wf] receipt_decode_enc [OF wf] by simp
qed

section \<open>Submissions\<close>

text \<open>
  A voter who submits the same ballot again right away on the same coordinator, over any route and with
  any new randomness, gets the first answer marked as previously accepted or rejected, if the second
  submission comes through, and the session does not change: the coordinator reuses the capability of
  its last ballot and the gateway answers from its record.
\<close>

lemma resubmission_answered_once:
  assumes "hpke_correct H public_of" and "hk_private_from_bytes H key = Some sk"
    and "hk_public_from_bytes H (td_gateway_public_key d) = Some (public_of sk)" and "wf_descriptor d"
    and "gateway_reachable H L nfc blake3 d key (co_gateway c) s"
    and "co_descriptor c = Some d" and "co_receiver_key c = Some key" and "gw_retry_retention (co_gateway c) \<noteq> Expired"
    and "submit H L ed blake3 io rnd fresh carrier route ballot c s cs = (Ok res, c1, s1, cs1)"
    and "vr_retry_status (sr_receipt res) = NewDelivery"
    and "submit H L ed blake3 io' rnd' fresh' carrier' route' ballot c1 s1 cs2 = (Ok res', c2, s2, cs3)"
  shows "s2 = s1 \<and> sr_receipt res' = \<lparr>vr_state = vr_state (sr_receipt res), vr_retry_status =
    (if vr_state (sr_receipt res) = ReceiptAccepted then PreviousDeliveryAccepted else PreviousDeliveryRejected)\<rparr>"
  using submit_again [OF assms] by (cases "sr_receipt res") simp

text \<open>
  C40: A submission uses the carrier operation of the selected route and no other: its result and
  its effects do not depend on what the other operation would do, so there is no fallback. The offline
  route and a coordinator without a provisioned root send nothing at all.
\<close>

theorem selected_route_only:
  "submit H L ed blake3 io rnd fresh (carrier\<lparr>pc_send_split_trust_relay := relay\<rparr>) ManagedTor ballot c s cs
     = submit H L ed blake3 io rnd fresh carrier ManagedTor ballot c s cs
   \<and> submit H L ed blake3 io rnd fresh (carrier\<lparr>pc_send_managed_tor := tor\<rparr>) SplitTrustRelay ballot c s cs
     = submit H L ed blake3 io rnd fresh carrier SplitTrustRelay ballot c s cs
   \<and> submit H L ed blake3 io rnd fresh carrier OfflineExport ballot c s cs = (Err TransportUnavailable, c, s, cs)
   \<and> (\<exists>c' e. submit H L ed blake3 io rnd fresh carrier route ballot production_unprovisioned s cs = (Err e, c', s, cs)
        \<and> co_gateway c' = gateway_default)"
proof -
  have "submit H L ed blake3 io rnd fresh carrier OfflineExport ballot c s cs = (Err TransportUnavailable, c, s, cs)"
    by (simp add: submit_def)
  then show ?thesis by (intro conjI submit_carrier unprovisioned_refuses) simp_all
qed

text \<open>
  C39: Whatever file-system call fails while the gateway's state is saved, the state file holds
  its old content or, when the save succeeds, exactly the new state. A temporary file that a failed
  save left behind makes every later save fail and leaves both files as they are.
\<close>

theorem save_leaves_old_or_new:
  assumes "save_durable_state io blake3 d g files = (r, files')"
  shows "(case r of
       Ok _ \<Rightarrow> (\<exists>bs. durable_state blake3 d g = Ok bs \<and> sf_state files' = Some bs \<and> sf_temporary files' = None)
     | Err _ \<Rightarrow> sf_state files' = sf_state files)
   \<and> (sf_temporary files' \<noteq> None \<longrightarrow> (\<exists>e. save_durable_state io' blake3 d' g' files' = (Err e, files')))"
proof -
  have "case r of Ok _ \<Rightarrow> (\<exists>bs. durable_state blake3 d g = Ok bs \<and> sf_state files' = Some bs \<and> sf_temporary files' = None)
      | Err _ \<Rightarrow> sf_state files' = sf_state files"
    using assms by (auto simp: save_durable_state_def split: result.splits option.splits if_splits)
  then show ?thesis using save_blocked by blast
qed

theorem save_leaves_old_or_new_witness:
  "\<exists>files' e. save_durable_state (xt_io\<lparr>io_failed_write := Some 3\<rparr>) zero_digest xt_descriptor xt_gateway
      \<lparr>sf_state = None, sf_temporary = None\<rparr> = (Err TransportUnavailable, files')
    \<and> sf_state files' = None \<and> save_durable_state xt_io zero_digest xt_descriptor xt_gateway files' = (Err e, files')"
proof -
  have "\<exists>bs. durable_state zero_digest xt_descriptor xt_gateway = Ok bs"
    using durable_state_eq [OF xt_fingerprint, of xt_gateway]
    by (simp add: xt_descriptor_def len_ok_def xt_gateway_def gateway_default_def)
  then obtain t where save: "save_durable_state (xt_io\<lparr>io_failed_write := Some 3\<rparr>) zero_digest xt_descriptor xt_gateway
      \<lparr>sf_state = None, sf_temporary = None\<rparr> = (Err TransportUnavailable, \<lparr>sf_state = None, sf_temporary = Some t\<rparr>)"
    by (auto simp: save_durable_state_def xt_io_def)
  from save_leaves_old_or_new [OF save, of xt_io xt_descriptor xt_gateway] save show ?thesis by auto
qed

end
