(* ===== verification/Gui_Governance.thy ===== *)
theory Gui_Governance
  imports Election_Session
begin

text \<open>
  Governance sources in the organizer's application (\<open>crates/gui-core/src/governance.rs\<close> and
  \<open>hex.rs\<close>): the immutable source pins, the digest of a governance document, reading it with bounds,
  and matching it against the bound pin. The messages shown to the user are left out.
\<close>

section \<open>Hex\<close>

definition hex_nibble :: "u8 \<Rightarrow> u8 option" where
  "hex_nibble b =
     (if 0x30 \<le> b \<and> b \<le> 0x39 then Some (b - 0x30)
      else if 0x61 \<le> b \<and> b \<le> 0x66 then Some (b - 0x61 + 10)
      else if 0x41 \<le> b \<and> b \<le> 0x46 then Some (b - 0x41 + 10)
      else None)"

fun hex_pairs :: "rstring \<Rightarrow> bytes option" where
  "hex_pairs (h # l # text) =
     (case hex_nibble h of
        None \<Rightarrow> None
      | Some high \<Rightarrow>
          (case hex_nibble l of
             None \<Rightarrow> None
           | Some low \<Rightarrow> map_option (\<lambda>out. (push_bit 4 high OR low) # out) (hex_pairs text)))"
| "hex_pairs _ = Some []"

definition from_hex :: "rstring \<Rightarrow> bytes option" where
  "from_hex text = (if length text mod 2 \<noteq> 0 then None else hex_pairs text)"

section \<open>Source pins\<close>

record gui_governance_source_pin_v1 =
  gg_normalized :: rstring
  gg_kind :: governance_source_pin_kind
  gg_format_valid :: bool
  gg_digest_hex :: "rstring option"
  gg_git_sha_hex :: "rstring option"

definition gg_is_content_digest :: "gui_governance_source_pin_v1 \<Rightarrow> bool" where
  "gg_is_content_digest pin \<longleftrightarrow> gg_kind pin = Blake3Digest \<and> gg_format_valid pin"

definition gg_is_git_commit :: "gui_governance_source_pin_v1 \<Rightarrow> bool" where
  "gg_is_git_commit pin \<longleftrightarrow> gg_kind pin = GitCommit \<and> gg_format_valid pin"

text \<open>The two branches of the code's \<open>unrecognized\<close> differ in nothing, not even in their message.\<close>

definition gg_unrecognized :: "rstring \<Rightarrow> gui_governance_source_pin_v1" where
  "gg_unrecognized normalized =
     \<lparr>gg_normalized = normalized, gg_kind = Unrecognized, gg_format_valid = False, gg_digest_hex = None,
      gg_git_sha_hex = None\<rparr>"

definition classify_blake3 :: "rstring \<Rightarrow> gui_governance_source_pin_v1" where
  "classify_blake3 hex_part =
     (let normalized_hex = to_ascii_lowercase hex_part;
          normalized = GOVERNANCE_PIN_PREFIX_BLAKE3 @ normalized_hex in
      if length hex_part = BLAKE3_DIGEST_HEX_LEN \<and> is_lowercase_hex normalized_hex then
        \<lparr>gg_normalized = normalized, gg_kind = Blake3Digest, gg_format_valid = True,
         gg_digest_hex = Some normalized_hex, gg_git_sha_hex = None\<rparr>
      else gg_unrecognized normalized)"

definition classify_git :: "rstring \<Rightarrow> gui_governance_source_pin_v1" where
  "classify_git hex_part =
     (let normalized_hex = to_ascii_lowercase hex_part;
          normalized = GOVERNANCE_PIN_PREFIX_GIT @ normalized_hex in
      if length hex_part = GIT_SHA_HEX_LEN \<and> is_lowercase_hex normalized_hex then
        \<lparr>gg_normalized = normalized, gg_kind = GitCommit, gg_format_valid = True,
         gg_digest_hex = None, gg_git_sha_hex = Some normalized_hex\<rparr>
      else gg_unrecognized normalized)"

definition gui_validate_governance_source_pin :: "rstring \<Rightarrow> gui_governance_source_pin_v1" where
  "gui_validate_governance_source_pin revision =
     (if length revision > MAX_GOVERNANCE_REVISION_BYTES then gg_unrecognized revision
      else if starts_with revision GOVERNANCE_PIN_PREFIX_BLAKE3 then
        classify_blake3 (drop (length GOVERNANCE_PIN_PREFIX_BLAKE3) revision)
      else if starts_with revision GOVERNANCE_PIN_PREFIX_GIT then
        classify_git (drop (length GOVERNANCE_PIN_PREFIX_GIT) revision)
      else gg_unrecognized revision)"

section \<open>Documents\<close>

definition governance_document_digest_for_bytes :: "(bytes \<Rightarrow> bytes32) \<Rightarrow> bytes \<Rightarrow> bytes32" where
  "governance_document_digest_for_bytes blake3 bs =
     hash_domain_separated (Blake3HashProviderV1 blake3) ArchiveFileV1 bs"

definition content_digest_pin_for_bytes :: "(bytes \<Rightarrow> bytes32) \<Rightarrow> bytes \<Rightarrow> rstring" where
  "content_digest_pin_for_bytes blake3 bs =
     GOVERNANCE_PIN_PREFIX_BLAKE3 @ to_lower_hex (governance_document_digest_for_bytes blake3 bs)"

record gui_governance_document_digest_v1 =
  dd_display_filename :: rstring
  dd_bytes :: u64
  dd_digest_algorithm_id :: rstring
  dd_digest_hex :: rstring

text \<open>\<open>char::is_control\<close> (the category Cc) and the UTF-8 encoding of a scalar value.\<close>

definition is_control :: "nat \<Rightarrow> bool" where
  "is_control c \<longleftrightarrow> c \<le> 31 \<or> (127 \<le> c \<and> c \<le> 159)"

definition utf8_of_char :: "nat \<Rightarrow> bytes" where
  "utf8_of_char c =
     (if c < 128 then [word_of_nat c]
      else if c < 2048 then [word_of_nat (192 + c div 64), word_of_nat (128 + c mod 64)]
      else if c < 65536 then
        [word_of_nat (224 + c div 4096), word_of_nat (128 + c div 64 mod 64), word_of_nat (128 + c mod 64)]
      else
        [word_of_nat (240 + c div 262144), word_of_nat (128 + c div 4096 mod 64),
         word_of_nat (128 + c div 64 mod 64), word_of_nat (128 + c mod 64)])"

text \<open>The argument is \<open>Path::file_name\<close>, already made text by \<open>to_string_lossy\<close>.\<close>

definition safe_display_filename :: "rstring option \<Rightarrow> rstring" where
  "safe_display_filename file_name =
     (let leaf = (case file_name of Some name \<Rightarrow> name | None \<Rightarrow> lit ''governance-document'');
          sanitized = take 255 (filter (\<lambda>c. c \<notin> {0x5c, 0x2f, 0} \<and> \<not> is_control c) (chars leaf)) in
      if sanitized = [] then lit ''governance-document'' else concat (map utf8_of_char sanitized))"

text \<open>
  What the file system says of the document's path: the length in the metadata, and what the read
  that follows returns, which may be another length when the file changes in between.
\<close>

datatype document_node =
    DocumentFile (metadata_len: nat) (read_bytes: "bytes option")
  | DocumentSymlink
  | DocumentDirectory
  | DocumentOther

definition file_not_found :: "string \<Rightarrow> gui_core_error" where
  "file_not_found ctx = gui_error ''GUI_FILE_NOT_FOUND'' FileIo ctx"

definition io_failure :: "string \<Rightarrow> gui_core_error" where
  "io_failure ctx = gui_error ''GUI_IO_ERROR'' FileIo ctx"

definition governance_document_symlink :: gui_core_error where
  "governance_document_symlink = gui_error ''GUI_GOVERNANCE_DOCUMENT_SYMLINK'' InvalidInput ''governance-document''"

definition governance_document_is_directory :: gui_core_error where
  "governance_document_is_directory =
     gui_error ''GUI_GOVERNANCE_DOCUMENT_IS_DIRECTORY'' InvalidInput ''governance-document''"

definition governance_document_too_large :: gui_core_error where
  "governance_document_too_large = gui_error ''GUI_GOVERNANCE_DOCUMENT_TOO_LARGE'' InvalidInput ''governance-document''"

definition document_digest_meta ::
  "(bytes \<Rightarrow> bytes32) \<Rightarrow> rstring option \<Rightarrow> bytes \<Rightarrow> gui_governance_document_digest_v1" where
  "document_digest_meta blake3 file_name bs =
     \<lparr>dd_display_filename = safe_display_filename file_name, dd_bytes = u64_or_max (length bs),
      dd_digest_algorithm_id = BLAKE3_256_HASH_ALGORITHM_ID_V1,
      dd_digest_hex = to_lower_hex (governance_document_digest_for_bytes blake3 bs)\<rparr>"

definition read_governance_document ::
  "(bytes \<Rightarrow> bytes32) \<Rightarrow> rstring option \<Rightarrow> (document_node, io_error) result \<Rightarrow>
   (bytes \<times> gui_governance_document_digest_v1) gresult" where
  "read_governance_document blake3 file_name node =
     and_then (map_err (\<lambda>e. if e = NotFound then file_not_found ''governance-document''
                            else io_failure ''governance-document'') node) (\<lambda>metadata.
     case metadata of
       DocumentSymlink \<Rightarrow> Err governance_document_symlink
     | DocumentDirectory \<Rightarrow> Err governance_document_is_directory
     | DocumentOther \<Rightarrow> Err (io_failure ''governance-document'')
     | DocumentFile len data \<Rightarrow>
         if len > MAX_GOVERNANCE_DOCUMENT_BYTES then Err governance_document_too_large
         else
           and_then (ok_or (io_failure ''governance-document'') data) (\<lambda>bs.
           if length bs > MAX_GOVERNANCE_DOCUMENT_BYTES then Err governance_document_too_large
           else Ok (bs, document_digest_meta blake3 file_name bs)))"

text \<open>The code repeats the same checks and the same read here.\<close>

definition compute_governance_document_digest ::
  "(bytes \<Rightarrow> bytes32) \<Rightarrow> rstring option \<Rightarrow> (document_node, io_error) result \<Rightarrow>
   gui_governance_document_digest_v1 gresult" where
  "compute_governance_document_digest blake3 file_name node =
     and_then (read_governance_document blake3 file_name node) (\<lambda>(bs, meta). Ok meta)"

section \<open>Matching\<close>

datatype gui_governance_match_status_v1 =
  DocMatched | DocMismatch | DocOperatorAttested | DocUnverifiedReference | DocNotApplicable

primrec match_status_as_str :: "gui_governance_match_status_v1 \<Rightarrow> rstring" where
  "match_status_as_str DocMatched = lit ''MATCHED''"
| "match_status_as_str DocMismatch = lit ''MISMATCH''"
| "match_status_as_str DocOperatorAttested = lit ''OPERATOR_ATTESTED''"
| "match_status_as_str DocUnverifiedReference = lit ''UNVERIFIED_REFERENCE''"
| "match_status_as_str DocNotApplicable = lit ''NOT_APPLICABLE''"

definition is_cryptographically_matched :: "gui_governance_match_status_v1 \<Rightarrow> bool" where
  "is_cryptographically_matched status \<longleftrightarrow> status = DocMatched"

record gui_governance_document_status_v1 =
  gd_governance_source_revision :: rstring
  gd_pin :: gui_governance_source_pin_v1
  gd_document :: "gui_governance_document_digest_v1 option"
  gd_status :: gui_governance_match_status_v1

definition match_governance_document ::
  "rstring \<Rightarrow> gui_governance_document_digest_v1 option \<Rightarrow> gui_governance_document_status_v1" where
  "match_governance_document revision document =
     (let pin = gui_validate_governance_source_pin revision;
          status = (case (gg_kind pin, gg_digest_hex pin, document) of
              (Blake3Digest, Some digest_hex, Some doc) \<Rightarrow>
                if digest_hex = dd_digest_hex doc then DocMatched else DocMismatch
            | (Blake3Digest, Some _, None) \<Rightarrow> DocUnverifiedReference
            | (GitCommit, _, Some _) \<Rightarrow> DocOperatorAttested
            | (GitCommit, _, None) \<Rightarrow> DocUnverifiedReference
            | _ \<Rightarrow> DocNotApplicable) in
      \<lparr>gd_governance_source_revision = revision, gd_pin = pin, gd_document = document, gd_status = status\<rparr>)"

section \<open>What the pins mean\<close>

text \<open>The application and the archive verifier classify a revision alike.\<close>

lemma gui_pin_archive_pin:
  "gg_kind (gui_validate_governance_source_pin r) = gp_kind (validate_governance_source_pin r)
   \<and> gg_format_valid (gui_validate_governance_source_pin r) = gp_format_valid (validate_governance_source_pin r)
   \<and> gg_digest_hex (gui_validate_governance_source_pin r) = gp_digest_hex (validate_governance_source_pin r)"
  by (simp add: gui_validate_governance_source_pin_def validate_governance_source_pin_def classify_blake3_def
      classify_git_def gg_unrecognized_def unrecognized_pin_def Let_def)

lemma gui_content_digest:
  "gg_is_content_digest (gui_validate_governance_source_pin r) = is_content_digest (validate_governance_source_pin r)"
  using gui_pin_archive_pin [of r] by (simp add: gg_is_content_digest_def is_content_digest_def)

lemma content_digest_hex:
  "is_content_digest (validate_governance_source_pin r) \<Longrightarrow> \<exists>h. gp_digest_hex (validate_governance_source_pin r) = Some h"
  by (auto simp: validate_governance_source_pin_def unrecognized_pin_def is_content_digest_def Let_def split: if_splits)

lemma hex_digit_lower:
  assumes "n < 16"
  shows "(0x30 \<le> hex_digit n \<and> hex_digit n \<le> 0x39) \<or> (0x61 \<le> hex_digit n \<and> hex_digit n \<le> 0x66)"
    and "hex_nibble (hex_digit n) = Some n"
proof -
  have "unat n \<in> set [0..<16]" using assms by (simp add: word_less_nat_alt)
  then have "n \<in> set (map word_of_nat [0..<16])" by (metis image_eqI set_map of_nat_unat ucast_id)
  then have "n \<in> {0, 1, 2, 3, 4, 5, 6, 7, 8, 9, 10, 11, 12, 13, 14, 15}" by (simp add: upt_rec)
  then show "(0x30 \<le> hex_digit n \<and> hex_digit n \<le> 0x39) \<or> (0x61 \<le> hex_digit n \<and> hex_digit n \<le> 0x66)"
    and "hex_nibble (hex_digit n) = Some n"
    by (auto simp: hex_digit_def lit_def hex_nibble_def)
qed

lemma nibbles:
  fixes b :: u8
  shows "drop_bit 4 b < 16" "b AND 0x0f < 16" "push_bit 4 (drop_bit 4 b) OR (b AND 0x0f) = b"
proof -
  show "drop_bit 4 b < 16"
    using unsigned_less [of b, where 'a = nat] by (simp add: word_less_nat_alt drop_bit_eq_div unat_div)
  show "b AND 0x0f < 16"
    using word_and_le1 [of b "0x0f"] by (simp add: word_le_nat_alt word_less_nat_alt)
  have "b AND 0x0f = take_bit 4 b" by (simp add: take_bit_eq_mask mask_eq_exp_minus_1)
  then show "push_bit 4 (drop_bit 4 b) OR (b AND 0x0f) = b"
    by (simp only:) (rule bit_word_eqI, auto simp: bit_simps)
qed

lemma length_to_lower_hex [simp]: "length (to_lower_hex_slice bs) = 2 * length bs"
  by (induction bs) (auto simp: to_lower_hex_slice_def)

text \<open>Decoding hex inverts its rendering.\<close>

lemma from_hex_to_lower_hex: "from_hex (to_lower_hex_slice bs) = Some bs"
proof -
  have "hex_pairs (to_lower_hex_slice bs) = Some bs"
    by (induction bs) (simp_all add: to_lower_hex_slice_def hex_digit_lower nibbles)
  then show ?thesis by (simp add: from_hex_def)
qed

lemma to_lower_hex_inject: "to_lower_hex a = to_lower_hex b \<longleftrightarrow> a = b"
  using from_hex_to_lower_hex by (metis array32_arr_bytes option.inject to_lower_hex_def)

lemma lower_hex_valid: "is_lowercase_hex (to_lower_hex_slice bs)"
  by (induction bs) (auto simp: is_lowercase_hex_def to_lower_hex_slice_def hex_digit_lower(1) nibbles)

lemma lower_hex_fixed: "is_lowercase_hex s \<Longrightarrow> to_ascii_lowercase s = s"
proof (induction s)
  case (Cons b s)
  then have "(0x30 \<le> b \<and> b \<le> 0x39) \<or> (0x61 \<le> b \<and> b \<le> 0x66)" by (simp add: is_lowercase_hex_def)
  then have "\<not> (0x41 \<le> b \<and> b \<le> 0x5a)" by (auto simp: word_le_nat_alt)
  with Cons show ?case by (simp add: to_ascii_lowercase_def is_lowercase_hex_def ascii_lower_def)
qed (simp add: to_ascii_lowercase_def)

text \<open>The pin made from a document is a content pin of exactly its digest.\<close>

lemma content_pin_valid:
  "gui_validate_governance_source_pin (content_digest_pin_for_bytes blake3 bs) =
     \<lparr>gg_normalized = content_digest_pin_for_bytes blake3 bs, gg_kind = Blake3Digest, gg_format_valid = True,
      gg_digest_hex = Some (to_lower_hex (governance_document_digest_for_bytes blake3 bs)), gg_git_sha_hex = None\<rparr>"
  using lower_hex_valid lower_hex_fixed
  by (simp add: gui_validate_governance_source_pin_def content_digest_pin_for_bytes_def classify_blake3_def
      starts_with_def to_lower_hex_def BLAKE3_DIGEST_HEX_LEN_def limits_def GOVERNANCE_PIN_PREFIX_BLAKE3_def lit_def Let_def)

text \<open>
  A document matches the pin of another only when the two have the same digest: the same bytes, or a
  collision of the hash on the two framed documents.
\<close>

lemma content_pin_match:
  "gd_status (match_governance_document (content_digest_pin_for_bytes blake3 bs)
      (Some (document_digest_meta blake3 file_name bs'))) =
    (if governance_document_digest_for_bytes blake3 bs = governance_document_digest_for_bytes blake3 bs'
     then DocMatched else DocMismatch)"
  by (simp add: match_governance_document_def content_pin_valid document_digest_meta_def to_lower_hex_inject)

lemma matched_iff:
  "gd_status (match_governance_document r d) = DocMatched \<longleftrightarrow>
     gg_is_content_digest (gui_validate_governance_source_pin r)
     \<and> (\<exists>doc. d = Some doc \<and> gg_digest_hex (gui_validate_governance_source_pin r) = Some (dd_digest_hex doc))"
  by (auto simp: match_governance_document_def gg_is_content_digest_def gui_validate_governance_source_pin_def
      classify_blake3_def classify_git_def gg_unrecognized_def Let_def split: option.splits)

lemma read_document_bounded:
  assumes "read_governance_document blake3 file_name node = Ok (bs, meta)"
  shows "length bs \<le> MAX_GOVERNANCE_DOCUMENT_BYTES \<and> unat (dd_bytes meta) = length bs
    \<and> dd_digest_hex meta = to_lower_hex (governance_document_digest_for_bytes blake3 bs)"
proof (cases node)
  case (Ok doc)
  with assms show ?thesis
    by (cases doc) (auto simp: read_governance_document_def document_digest_meta_def result_inv u64_or_max_def
        u64_of_usize_def MAX_GOVERNANCE_DOCUMENT_BYTES_def unat_of_nat)
qed (use assms in \<open>simp add: read_governance_document_def\<close>)

end
