(* ===== verification/Archive_Writer.thy ===== *)
theory Archive_Writer
  imports Gui_Governance
begin

text \<open>
  The archive writer (\<open>crates/gui-core/src/archive_writer.rs\<close>): it assembles the content files of a
  session, their catalog and the archive manifest, and writes them into a fresh directory, each file
  through a temporary file and a rename, the archive manifest last. The target directory is the tree of
  the archive verifier; which calls to the file system fail is a parameter.
\<close>

section \<open>Changing a directory tree\<close>

definition put_child :: "rstring \<Rightarrow> fs_node \<Rightarrow> (rstring \<times> fs_node) list \<Rightarrow> (rstring \<times> fs_node) list" where
  "put_child name node es = (name, node) # filter (\<lambda>e. fst e \<noteq> name) es"

text \<open>A node is put under an existing directory, in place of what was there; or removed.\<close>

fun put_node :: "rstring list \<Rightarrow> fs_node \<Rightarrow> fs_node \<Rightarrow> (fs_node, io_error) result" where
  "put_node [c] n (DirNode l es) = Ok (DirNode l (put_child c n es))"
| "put_node (c # d # cs) n (DirNode l es) =
     (case map_of es c of
        None \<Rightarrow> Err NotFound
      | Some t \<Rightarrow> and_then (put_node (d # cs) n t) (\<lambda>t. Ok (DirNode l (put_child c t es))))"
| "put_node path n t = Err OtherIo"

fun remove_node :: "rstring list \<Rightarrow> fs_node \<Rightarrow> (fs_node, io_error) result" where
  "remove_node [c] (DirNode l es) =
     (case map_of es c of
        Some (FileNode r bs) \<Rightarrow> Ok (DirNode l (filter (\<lambda>e. fst e \<noteq> c) es))
      | Some _ \<Rightarrow> Err OtherIo
      | None \<Rightarrow> Err NotFound)"
| "remove_node (c # d # cs) (DirNode l es) =
     (case map_of es c of
        None \<Rightarrow> Err NotFound
      | Some t \<Rightarrow> and_then (remove_node (d # cs) t) (\<lambda>t. Ok (DirNode l (put_child c t es))))"
| "remove_node path t = Err OtherIo"

text \<open>
  \<open>OpenOptions::create_new\<close> with the bytes that reach the file, \<open>remove_file\<close>, \<open>rename\<close> of a file and
  \<open>create_dir\<close>. What the writer creates is readable and can be listed.
\<close>

definition create_new_file :: "rstring list \<Rightarrow> bytes \<Rightarrow> fs_node \<Rightarrow> (fs_node, io_error) result" where
  "create_new_file path bs t =
     (if is_ok (lookup_node path t) then Err OtherIo else put_node path (FileNode True bs) t)"

definition rename_file :: "rstring list \<Rightarrow> rstring list \<Rightarrow> fs_node \<Rightarrow> (fs_node, io_error) result" where
  "rename_file src dst t =
     and_then (lookup_node src t) (\<lambda>node.
     and_then (remove_node src t) (put_node dst node))"

definition create_dir :: "rstring list \<Rightarrow> fs_node \<Rightarrow> (fs_node, io_error) result" where
  "create_dir path t =
     (if is_ok (lookup_node path t) then Err OtherIo else put_node path (DirNode True []) t)"

section \<open>Errors and results\<close>

definition archive_target_not_empty :: gui_core_error where
  "archive_target_not_empty = gui_error ''GUI_ARCHIVE_TARGET_NOT_EMPTY'' FileIo ''archive-directory''"

definition archive_target_invalid :: gui_core_error where
  "archive_target_invalid = gui_error ''GUI_ARCHIVE_TARGET_INVALID'' FileIo ''archive-directory''"

definition archive_not_finalized :: gui_core_error where
  "archive_not_finalized =
     gui_error ''GUI_ARCHIVE_NOT_FINALIZED'' InvalidLifecycleTransitionCategory ''archive-finality''"

definition governance_digest_mismatch :: gui_core_error where
  "governance_digest_mismatch = gui_error ''GUI_GOVERNANCE_DIGEST_MISMATCH'' BindingMismatch ''governance-document''"

definition transport_binding_mismatch :: gui_core_error where
  "transport_binding_mismatch =
     gui_error ''GUI_TRANSPORT_ARCHIVE_BINDING_MISMATCH'' InvalidInput ''transport-archive-binding''"

record gui_archive_file_summary_v1 =
  af_path :: rstring
  af_digest_hex :: rstring
  af_bytes :: u64

record gui_archive_write_result_v1 =
  aw_directory :: rstring
  aw_archive_hash_hex :: rstring
  aw_election_manifest_hash_hex :: rstring
  aw_files :: "gui_archive_file_summary_v1 list"
  aw_archive_manifest_path :: rstring

datatype archive_finality_mode = Legacy | FinalizedMode

section \<open>The file system's answers\<close>

text \<open>
  For one atomic write: whether the temporary file can be opened, after how many bytes a failing
  write, flush or sync stops (none when all three succeed), whether the rename succeeds, and whether
  the clean-up after a failure does. A process that dies in the middle leaves what a failing clean-up
  leaves.
\<close>

record file_io =
  fio_open :: bool
  fio_failed_write :: "nat option"
  fio_rename :: bool
  fio_remove :: bool

record archive_io =
  aio_create_target :: bool
  aio_create_dir :: "rstring \<Rightarrow> bool"
  aio_file :: "rstring \<Rightarrow> file_io"

definition path_components :: "rstring \<Rightarrow> rstring list" where
  "path_components path = split_at_byte SLASH path"

definition tmp_path :: "rstring list \<Rightarrow> rstring list" where
  "tmp_path path = butlast path @ [last path @ lit ''.tmp'']"

definition write_file_atomic :: "file_io \<Rightarrow> rstring list \<Rightarrow> bytes \<Rightarrow> fs_node \<Rightarrow> unit gresult \<times> fs_node" where
  "write_file_atomic io path bs t =
     (if is_ok (lookup_node path t) then (Err archive_target_not_empty, t)
      else
        let tmp = tmp_path path;
            cleanup = (\<lambda>t. if fio_remove io then (case remove_node tmp t of Ok t' \<Rightarrow> t' | Err _ \<Rightarrow> t) else t);
            failed = (\<lambda>t. (Err (io_failure ''archive-file''), cleanup t)) in
        if \<not> fio_open io then failed t
        else
          case create_new_file tmp (case fio_failed_write io of Some n \<Rightarrow> take n bs | None \<Rightarrow> bs) t of
            Err _ \<Rightarrow> failed t
          | Ok t1 \<Rightarrow>
              if fio_failed_write io \<noteq> None \<or> \<not> fio_rename io then failed t1
              else
                case rename_file tmp path t1 of
                  Err _ \<Rightarrow> failed t1
                | Ok t2 \<Rightarrow> (Ok (), t2))"

definition prepare_target_directory ::
  "bool \<Rightarrow> (fs_node, io_error) result \<Rightarrow> fs_node gresult" where
  "prepare_target_directory can_create root =
     (case root of
        Ok (DirNode l es) \<Rightarrow>
          if \<not> l then Err (io_failure ''archive-directory'')
          else if es \<noteq> [] then Err archive_target_not_empty
          else Ok (DirNode l es)
      | Ok _ \<Rightarrow> Err archive_target_invalid
      | Err NotFound \<Rightarrow> if can_create then Ok (DirNode True []) else Err (io_failure ''archive-directory'')
      | Err OtherIo \<Rightarrow> Err (io_failure ''archive-directory''))"

section \<open>Assembling the archive\<close>

text \<open>The decimal digits of \<open>{:08}\<close>: at least eight, filled with zeros on the left.\<close>

fun decimal :: "nat \<Rightarrow> rstring" where
  "decimal n = (if n < 10 then [48 + word_of_nat n] else decimal (n div 10) @ [48 + word_of_nat (n mod 10)])"

declare decimal.simps [simp del]

definition padded_decimal :: "nat \<Rightarrow> nat \<Rightarrow> rstring" where
  "padded_decimal width n = replicate (width - length (decimal n)) 48 @ decimal n"

definition submission_archive_path :: "nat \<Rightarrow> rstring" where
  "submission_archive_path index =
     SUBMISSIONS_ARCHIVE_DIR @ SLASH # padded_decimal 8 index @ lit ''.cbor''"

record assembled_archive =
  as_files :: file_map
  as_manifest :: archive_manifest_v1
  as_hash :: archive_hash_v1
  as_manifest_bytes :: bytes

definition session_files :: "bytes \<Rightarrow> bytes \<Rightarrow> bytes \<Rightarrow> bytes list \<Rightarrow> bytes option \<Rightarrow> file_map" where
  "session_files manifest_bytes candidate_bytes registry_bytes packages document =
     (let files = bt_insert VOTER_REGISTRY_ARCHIVE_PATH registry_bytes
            (bt_insert CANDIDATE_SET_ARCHIVE_PATH candidate_bytes
              (bt_insert ELECTION_MANIFEST_ARCHIVE_PATH manifest_bytes bt_new));
          files = fold (\<lambda>(index, package). bt_insert (submission_archive_path index) package)
            (enumerate 0 packages) files in
      case document of
        Some doc_bytes \<Rightarrow> bt_insert GOVERNANCE_DOCUMENT_ARCHIVE_PATH doc_bytes files
      | None \<Rightarrow> files)"

definition insert_binding ::
  "(bytes \<Rightarrow> bytes32) \<Rightarrow> gui_election_artifacts_v1 \<Rightarrow> transport_archive_binding_v1 option \<Rightarrow> file_map \<Rightarrow> file_map gresult" where
  "insert_binding blake3 artifacts transport_binding files =
     (case transport_binding of
        None \<Rightarrow> Ok files
      | Some binding \<Rightarrow>
          if tb_manifest_hash binding \<noteq> ga_manifest_hash artifacts
             \<or> tb_election_id binding \<noteq> election_id_bytes (manifest_election_id (ga_manifest artifacts)) then
            Err transport_binding_mismatch
          else
            and_then (gui_err ''transport-archive-binding'' (binding_to_canonical_cbor blake3 binding)) (\<lambda>bs.
            Ok (bt_insert TRANSPORT_ARCHIVE_BINDING_PATH_V1 bs files)))"

text \<open>The gate on the governance document: a content pin must be that of the bytes written.\<close>

definition governance_gate ::
  "(bytes \<Rightarrow> bytes32) \<Rightarrow> gui_election_artifacts_v1 \<Rightarrow> bytes option \<Rightarrow> unit gresult" where
  "governance_gate blake3 artifacts document =
     (case document of
        None \<Rightarrow> Ok ()
      | Some doc_bytes \<Rightarrow>
          (let pin = gui_validate_governance_source_pin (manifest_governance_source_revision (ga_manifest artifacts)) in
           case gg_digest_hex pin of
             Some pin_hex \<Rightarrow>
               if gg_is_content_digest pin
                  \<and> to_lower_hex (governance_document_digest_for_bytes blake3 doc_bytes) \<noteq> pin_hex then
                 Err governance_digest_mismatch
               else Ok ()
           | None \<Rightarrow> Ok ()))"

definition assemble_archive ::
  "(bytes \<Rightarrow> bytes32) \<Rightarrow> gui_election_session_v1 \<Rightarrow> bytes option \<Rightarrow> transport_archive_binding_v1 option \<Rightarrow>
   archive_finality_mode \<Rightarrow> assembled_archive gresult" where
  "assemble_archive blake3 s document transport_binding finality =
     (let provider = Blake3HashProviderV1 blake3; artifacts = gs_artifacts s in
      and_then (gui_err ''manifest'' (manifest_to_canonical_cbor (ga_manifest artifacts))) (\<lambda>manifest_bytes.
      and_then (gui_err ''candidates'' (candidate_set_to_canonical_cbor (ga_candidates artifacts))) (\<lambda>candidate_bytes.
      and_then (gui_err ''registry'' (registry_to_canonical_cbor (ga_registry artifacts))) (\<lambda>registry_bytes.
      and_then (insert_binding blake3 artifacts transport_binding
        (session_files manifest_bytes candidate_bytes registry_bytes (gs_packages s) document)) (\<lambda>files.
      and_then (governance_gate blake3 artifacts document) (\<lambda>_.
      and_then (collect_results (\<lambda>(path, bs).
          and_then (gui_err ''archive-catalog'' (ArchivePathV1_new path)) (\<lambda>archive_path.
          Ok (entry_for_bytes archive_path provider bs))) files) (\<lambda>entries.
      and_then (gui_err ''archive-catalog'' (ArchiveFileCatalogV1_new entries)) (\<lambda>catalog.
      and_then (gui_err ''archive-manifest''
        (case finality of
           Legacy \<Rightarrow> archive_manifest_for_provider (ga_manifest_hash artifacts) catalog provider
         | FinalizedMode \<Rightarrow> archive_manifest_finalized_for_provider (ga_manifest_hash artifacts) catalog provider))
        (\<lambda>archive_manifest.
      and_then (gui_err ''archive-manifest'' (archive_manifest_canonical_hash provider archive_manifest)) (\<lambda>archive_hash.
      and_then (gui_err ''archive-manifest'' (archive_manifest_to_canonical_cbor archive_manifest)) (\<lambda>manifest_bytes.
      Ok \<lparr>as_files = files, as_manifest = archive_manifest, as_hash = archive_hash,
          as_manifest_bytes = manifest_bytes\<rparr>)))))))))))"

section \<open>Writing\<close>

text \<open>One step of the writer that may fail, and the loop over the files.\<close>

definition make_directory :: "archive_io \<Rightarrow> string \<Rightarrow> bool \<Rightarrow> fs_node \<Rightarrow> unit gresult \<times> fs_node" where
  "make_directory io name needed t =
     (if \<not> needed then (Ok (), t)
      else
        case (if aio_create_dir io (lit name) then create_dir [lit name] t else Err OtherIo) of
          Err _ \<Rightarrow> (Err (io_failure ''archive-directory''), t)
        | Ok t' \<Rightarrow> (Ok (), t'))"

definition io_then ::
  "'a gresult \<times> fs_node \<Rightarrow> (fs_node \<Rightarrow> 'b gresult \<times> fs_node) \<Rightarrow> 'b gresult \<times> fs_node" where
  "io_then m f = (case m of (Ok _, t) \<Rightarrow> f t | (Err e, t) \<Rightarrow> (Err e, t))"

fun write_files :: "archive_io \<Rightarrow> (rstring \<times> bytes) list \<Rightarrow> fs_node \<Rightarrow> unit gresult \<times> fs_node" where
  "write_files io [] t = (Ok (), t)"
| "write_files io ((path, bs) # files) t =
     io_then (write_file_atomic (aio_file io path) (path_components path) bs t) (write_files io files)"

definition emit_archive ::
  "archive_io \<Rightarrow> gui_election_session_v1 \<Rightarrow> bytes option \<Rightarrow> transport_archive_binding_v1 option \<Rightarrow> assembled_archive \<Rightarrow>
   fs_node \<Rightarrow> unit gresult \<times> fs_node" where
  "emit_archive io s document transport_binding a t =
     io_then (make_directory io ''submissions'' (gs_packages s \<noteq> []) t) (\<lambda>t.
     io_then (make_directory io ''governance'' (document \<noteq> None) t) (\<lambda>t.
     io_then (make_directory io ''transport'' (transport_binding \<noteq> None) t) (\<lambda>t.
     io_then (write_files io (as_files a) t) (\<lambda>t.
     write_file_atomic (aio_file io ARCHIVE_MANIFEST_CANONICAL_PATH)
       (path_components ARCHIVE_MANIFEST_CANONICAL_PATH) (as_manifest_bytes a) t))))"

definition file_summary :: "file_map \<Rightarrow> archive_file_entry_v1 \<Rightarrow> gui_archive_file_summary_v1" where
  "file_summary files e =
     \<lparr>af_path = entry_path e, af_digest_hex = to_lower_hex (archive_file_digest_bytes (fe_digest e)),
      af_bytes = (case bt_get files (entry_path e) of Some bs \<Rightarrow> word_of_nat (length bs) | None \<Rightarrow> 0)\<rparr>"

definition write_result :: "rstring \<Rightarrow> gui_election_session_v1 \<Rightarrow> assembled_archive \<Rightarrow> gui_archive_write_result_v1" where
  "write_result target_dir s a =
     \<lparr>aw_directory = target_dir,
      aw_archive_hash_hex = to_lower_hex (archive_hash_bytes (as_hash a)),
      aw_election_manifest_hash_hex = to_lower_hex (manifest_hash_bytes (ga_manifest_hash (gs_artifacts s))),
      aw_files = map (file_summary (as_files a)) (fc_entries (am_files (as_manifest a))),
      aw_archive_manifest_path = ARCHIVE_MANIFEST_CANONICAL_PATH\<rparr>"

definition write_archive_directory_v1_with_optional_binding ::
  "(bytes \<Rightarrow> bytes32) \<Rightarrow> archive_io \<Rightarrow> rstring \<Rightarrow> gui_election_session_v1 \<Rightarrow> bytes option \<Rightarrow>
   transport_archive_binding_v1 option \<Rightarrow> archive_finality_mode \<Rightarrow> (fs_node, io_error) result \<Rightarrow>
   gui_archive_write_result_v1 gresult \<times> (fs_node, io_error) result" where
  "write_archive_directory_v1_with_optional_binding blake3 io target_dir s document transport_binding finality root =
     (if finality = FinalizedMode \<and> lc_state (gs_lifecycle s) \<noteq> Finalized then (Err archive_not_finalized, root)
      else
        case prepare_target_directory (aio_create_target io) root of
          Err e \<Rightarrow> (Err e, root)
        | Ok t \<Rightarrow>
            (case assemble_archive blake3 s document transport_binding finality of
               Err e \<Rightarrow> (Err e, Ok t)
             | Ok a \<Rightarrow>
                 (case emit_archive io s document transport_binding a t of
                    (Err e, t') \<Rightarrow> (Err e, Ok t')
                  | (Ok _, t') \<Rightarrow> (Ok (write_result target_dir s a), Ok t'))))"

section \<open>The public operations\<close>

definition write_archive_directory_v1_with_governance_document where
  "write_archive_directory_v1_with_governance_document blake3 io target_dir s document =
     write_archive_directory_v1_with_optional_binding blake3 io target_dir s document None Legacy"

definition write_archive_directory_v1 where
  "write_archive_directory_v1 blake3 io target_dir s =
     write_archive_directory_v1_with_governance_document blake3 io target_dir s None"

definition write_archive_directory_v1_with_transport_binding where
  "write_archive_directory_v1_with_transport_binding blake3 io target_dir s binding =
     write_archive_directory_v1_with_optional_binding blake3 io target_dir s None (Some binding) Legacy"

definition write_finalized_archive_v1 where
  "write_finalized_archive_v1 blake3 io target_dir s =
     write_archive_directory_v1_with_optional_binding blake3 io target_dir s None None FinalizedMode"

definition write_finalized_archive_v1_with_governance_document where
  "write_finalized_archive_v1_with_governance_document blake3 io target_dir s document =
     write_archive_directory_v1_with_optional_binding blake3 io target_dir s document None FinalizedMode"

definition write_finalized_archive_v1_with_governance_document_and_transport_binding where
  "write_finalized_archive_v1_with_governance_document_and_transport_binding blake3 io target_dir s document binding =
     write_archive_directory_v1_with_optional_binding blake3 io target_dir s document (Some binding) FinalizedMode"

definition write_finalized_archive_v1_with_transport_binding where
  "write_finalized_archive_v1_with_transport_binding blake3 io target_dir s binding =
     write_archive_directory_v1_with_optional_binding blake3 io target_dir s None (Some binding) FinalizedMode"

section \<open>The application's view of verification\<close>

text \<open>
  \<open>crates/gui-core/src/archive_verify.rs\<close>: the archive crate's report is rebuilt in the types of the
  application, and its errors are renamed.
\<close>

record gui_archive_file_check_v1 =
  gf_path :: rstring
  gf_present :: bool
  gf_digest_ok :: bool

datatype gui_governance_archive_pin_fact_v1 =
  GuiMatched | GuiMismatch | GuiMissing | GuiOperatorAttested | GuiNotApplicable

record gui_archive_verification_v1 =
  gv_verified :: bool
  gv_finalized :: bool
  gv_failure_stage :: "rstring option"
  gv_failure_code :: "rstring option"
  gv_file_count :: nat
  gv_files :: "gui_archive_file_check_v1 list"
  gv_ballot_package_count :: nat
  gv_accepted_count :: nat
  gv_rejected_count :: nat
  gv_transcript_complete :: bool
  gv_tally :: "gui_tally_summary_v1 option"
  gv_archive_hash_hex :: "rstring option"
  gv_recomputed_archive_hash_hex :: "rstring option"
  gv_archive_hash_consistent :: bool
  gv_election_manifest_hash_hex :: "rstring option"
  gv_election_manifest_schema_version :: "u16 option"
  gv_proposal_question :: "rstring option"
  gv_election_id_hex :: "rstring option"
  gv_ballot_kind_id :: "rstring option"
  gv_ballot_confidentiality_id :: "rstring option"
  gv_proof_suite_id :: "rstring option"
  gv_registry_commitment_hex :: "rstring option"
  gv_option_set_commitment_hex :: "rstring option"
  gv_eligible_voter_count :: "u64 option"
  gv_governance_source_matches_pin :: gui_governance_archive_pin_fact_v1
  gv_transport_binding_present :: bool
  gv_transport_binding_verified :: bool
  gv_transport_batch_set_commitment_hex :: "rstring option"
  gv_transport_accepted_count :: "u64 option"
  gv_transport_reduced_anonymity :: "bool option"

definition map_file_check :: "archive_directory_file_check_v1 \<Rightarrow> gui_archive_file_check_v1" where
  "map_file_check check =
     \<lparr>gf_path = fk_path check, gf_present = fk_present check, gf_digest_ok = fk_digest_ok check\<rparr>"

primrec map_governance_pin :: "archive_governance_pin_fact_v1 \<Rightarrow> gui_governance_archive_pin_fact_v1" where
  "map_governance_pin Matched = GuiMatched"
| "map_governance_pin Mismatch = GuiMismatch"
| "map_governance_pin Missing = GuiMissing"
| "map_governance_pin OperatorAttested = GuiOperatorAttested"
| "map_governance_pin NotApplicable = GuiNotApplicable"

definition map_tally :: "archive_tally_summary_v1 \<Rightarrow> gui_tally_summary_v1" where
  "map_tally tally =
     \<lparr>gt_accepted_ballots = ts_accepted_ballots tally,
      gt_abstentions = ts_abstentions tally,
      gt_counts = map (\<lambda>c.
        \<lparr>gc_candidate_id_hex = tc_candidate_id_hex c, gc_candidate_id_text = tc_candidate_id_text c,
         gc_display_name = tc_display_name c, gc_approvals = tc_approvals c\<rparr>) (ts_counts tally),
      gt_leading = (case ts_leading tally of
          ArchiveNoApprovals \<Rightarrow> GuiNoApprovals
        | ArchiveSingleLeader candidate_id_hex display_name approvals \<Rightarrow>
            GuiSingleLeader candidate_id_hex display_name approvals
        | ArchiveTie candidate_ids_hex approvals \<Rightarrow> GuiTie candidate_ids_hex approvals)\<rparr>"

definition map_verification :: "archive_directory_verification_v1 \<Rightarrow> gui_archive_verification_v1" where
  "map_verification result =
     \<lparr>gv_verified = dv_verified result,
      gv_finalized = dv_finalized result,
      gv_failure_stage = dv_failure_stage result,
      gv_failure_code = dv_failure_code result,
      gv_file_count = dv_file_count result,
      gv_files = map map_file_check (dv_files result),
      gv_ballot_package_count = dv_ballot_package_count result,
      gv_accepted_count = dv_accepted_count result,
      gv_rejected_count = dv_rejected_count result,
      gv_transcript_complete = dv_transcript_complete result,
      gv_tally = map_option map_tally (dv_tally result),
      gv_archive_hash_hex = dv_archive_hash_hex result,
      gv_recomputed_archive_hash_hex = dv_recomputed_archive_hash_hex result,
      gv_archive_hash_consistent = dv_archive_hash_consistent result,
      gv_election_manifest_hash_hex = dv_election_manifest_hash_hex result,
      gv_election_manifest_schema_version = dv_election_manifest_schema_version result,
      gv_proposal_question = dv_proposal_question result,
      gv_election_id_hex = dv_election_id_hex result,
      gv_ballot_kind_id = dv_ballot_kind_id result,
      gv_ballot_confidentiality_id = dv_ballot_confidentiality_id result,
      gv_proof_suite_id = dv_proof_suite_id result,
      gv_registry_commitment_hex = dv_registry_commitment_hex result,
      gv_option_set_commitment_hex = dv_option_set_commitment_hex result,
      gv_eligible_voter_count = dv_eligible_voter_count result,
      gv_governance_source_matches_pin = map_governance_pin (dv_governance_source_matches_pin result),
      gv_transport_binding_present = dv_transport_binding_present result,
      gv_transport_binding_verified = dv_transport_binding_verified result,
      gv_transport_batch_set_commitment_hex = dv_transport_batch_set_commitment_hex result,
      gv_transport_accepted_count = dv_transport_accepted_count result,
      gv_transport_reduced_anonymity = dv_transport_reduced_anonymity result\<rparr>"

primrec map_archive_verifier_error :: "archive_verifier_error \<Rightarrow> gui_core_error" where
  "map_archive_verifier_error FileNotFound = file_not_found ''archive-directory''"
| "map_archive_verifier_error IoFailure = io_failure ''archive-directory''"
| "map_archive_verifier_error ProtocolLimitExceededIo = gui_error ''PROTOCOL_LIMIT_EXCEEDED'' InvalidInput ''archive-file''"

definition gui_verify_archive_directory_v1 ::
  "('q, 'pt, 'pp, 'is, 'ts, 'pf, 'tr) triptych_lib \<Rightarrow> (nat list \<Rightarrow> nat list) \<Rightarrow> (bytes \<Rightarrow> bytes32) \<Rightarrow>
   (fs_node, io_error) result \<Rightarrow> gui_archive_verification_v1 gresult" where
  "gui_verify_archive_directory_v1 L nfc blake3 root =
     and_then (map_err map_archive_verifier_error (verify_archive_directory_v1 L nfc blake3 root)) (\<lambda>result.
     Ok (map_verification result))"

text \<open>A tally replayed from an archive is displayed as the session displays the same tally.\<close>

lemma map_tally_summarize: "map_tally (summarize_tally tally candidates) = gui_summarize_tally tally candidates"
  by (simp add: map_tally_def summarize_tally_def gui_summarize_tally_def Let_def split: leading_result.splits)

end
