(* ===== verification/Archive_Tree.thy ===== *)
theory Archive_Tree
  imports Archive_Writer
begin

text \<open>
  What the writer's operations do to a directory tree, seen as the map from paths to the contents of
  files and the set of directories: frame lemmas for each operation, for one atomic write and for the
  loop over the files.
\<close>

section \<open>The files and directories of a tree\<close>

definition file_at :: "rstring list \<Rightarrow> fs_node \<Rightarrow> bytes option" where
  "file_at p t = (case lookup_node p t of Ok (FileNode r bs) \<Rightarrow> Some bs | _ \<Rightarrow> None)"

definition dir_at :: "rstring list \<Rightarrow> fs_node \<Rightarrow> bool" where
  "dir_at p t \<longleftrightarrow> (\<exists>l es. lookup_node p t = Ok (DirNode l es))"

text \<open>Trees in which every name is used once, every directory can be listed and every file read.\<close>

fun good_tree :: "fs_node \<Rightarrow> bool" where
  "good_tree (FileNode r bs) = r"
| "good_tree (DirNode l es) = (l \<and> distinct (map fst es) \<and> (\<forall>(name, n) \<in> set es. good_tree n))"
| "good_tree OtherNode = False"

lemma tree_at_simps [simp]:
  "file_at [] (DirNode l es) = None" "file_at [] (FileNode r bs) = Some bs" "file_at (c # cs) (FileNode r bs) = None"
  "dir_at [] (DirNode l es)" "\<not> dir_at p (FileNode r bs)"
  "file_at (c # cs) (DirNode l es) = (case map_of es c of None \<Rightarrow> None | Some n \<Rightarrow> file_at cs n)"
  "dir_at (c # cs) (DirNode l es) = (case map_of es c of None \<Rightarrow> False | Some n \<Rightarrow> dir_at cs n)"
proof -
  show "\<not> dir_at p (FileNode r bs)" by (cases p) (simp_all add: dir_at_def)
qed (simp_all add: file_at_def dir_at_def split: option.splits)

lemma file_at_leaf: "p \<noteq> [] \<Longrightarrow> file_at p (FileNode r bs) = None" "file_at p OtherNode = None"
  by (cases p; simp add: file_at_def)+

lemma lookup_file_at: "good_tree t \<Longrightarrow> file_at p t = Some bs \<longleftrightarrow> lookup_node p t = Ok (FileNode True bs)"
proof (induction p t rule: lookup_node.induct)
  case (1 n)
  then show ?case by (cases n) (auto simp: file_at_def)
next
  case (2 c cs l es)
  then show ?case by (cases "map_of es c") (auto dest: map_of_SomeD)
qed (simp_all add: file_at_def)

lemma lookup_missing:
  assumes "good_tree t"
  shows "is_ok (lookup_node p t) \<longleftrightarrow> file_at p t \<noteq> None \<or> dir_at p t"
  using assms
proof (induction p t rule: lookup_node.induct)
  case (1 n)
  then show ?case by (cases n) (auto simp: is_ok_def)
next
  case (2 c cs l es)
  then show ?case by (cases "map_of es c") (auto simp: is_ok_def dest: map_of_SomeD)
qed (simp_all add: is_ok_def)

lemma map_of_put_child [simp]: "map_of (put_child c n es) = (map_of es)(c \<mapsto> n)"
proof -
  have "map_of (filter (\<lambda>e. fst e \<noteq> c) es) x = (if x = c then None else map_of es x)" for x
    by (induction es) auto
  then show ?thesis by (auto simp: put_child_def)
qed

lemma good_put_child:
  "good_tree (DirNode l es) \<Longrightarrow> good_tree n \<Longrightarrow> good_tree (DirNode l (put_child c n es))"
  by (auto simp: put_child_def distinct_map_filter)

lemma good_child: "good_tree (DirNode l es) \<Longrightarrow> map_of es c = Some n \<Longrightarrow> good_tree n"
  by (auto dest: map_of_SomeD)

lemma put_file:
  assumes "good_tree t" and "dir_at (butlast p) t" and "p \<noteq> []" and "\<not> dir_at p t"
  shows "\<exists>t'. put_node p (FileNode True bs) t = Ok t' \<and> good_tree t'
    \<and> (\<forall>q. file_at q t' = (if q = p then Some bs else file_at q t)) \<and> (\<forall>q. dir_at q t' = dir_at q t)"
  using assms
proof (induction p "FileNode True bs" t rule: put_node.induct)
  case (1 c l es)
  have "file_at q (DirNode l (put_child c (FileNode True bs) es)) = (if q = [c] then Some bs else file_at q (DirNode l es))
    \<and> dir_at q (DirNode l (put_child c (FileNode True bs) es)) = dir_at q (DirNode l es)" for q
  proof (cases q)
    case (Cons x xs)
    show ?thesis
    proof (cases "map_of es c")
      case (Some n)
      with 1 have "\<exists>b. n = FileNode True b" by (cases n) (auto dest: map_of_SomeD)
      with Cons Some show ?thesis by (cases xs) auto
    qed (cases xs; auto simp: Cons)
  qed simp
  with good_put_child [OF 1(1), of "FileNode True bs" c] show ?case by (auto simp del: good_tree.simps(2))
next
  case (2 c d cs l es)
  then obtain n where n: "map_of es c = Some n" by (cases "map_of es c") auto
  with 2 good_child obtain t' where
    t': "put_node (d # cs) (FileNode True bs) n = Ok t'" "good_tree t'"
    and f: "\<forall>q. file_at q t' = (if q = d # cs then Some bs else file_at q n)" "\<forall>q. dir_at q t' = dir_at q n"
    by auto
  have "file_at q (DirNode l (put_child c t' es)) = (if q = c # d # cs then Some bs else file_at q (DirNode l es))
    \<and> dir_at q (DirNode l (put_child c t' es)) = dir_at q (DirNode l es)" for q
    using f n by (cases q) auto
  with good_put_child [OF 2(2) t'(2), of c] n t' show ?case by (auto simp del: good_tree.simps(2))
qed auto

lemma put_dir:
  assumes "good_tree t" and "dir_at (butlast p) t" and "p \<noteq> []" and "\<not> is_ok (lookup_node p t)"
  shows "\<exists>t'. put_node p (DirNode True []) t = Ok t' \<and> good_tree t'
    \<and> (\<forall>q. file_at q t' = file_at q t) \<and> (\<forall>q. dir_at q t' = (q = p \<or> dir_at q t))"
  using assms
proof (induction p "DirNode True []" t rule: put_node.induct)
  case (1 c l es)
  then have n: "map_of es c = None" by (cases "map_of es c") (auto simp: is_ok_def)
  have "file_at q (DirNode l (put_child c (DirNode True []) es)) = file_at q (DirNode l es)
    \<and> dir_at q (DirNode l (put_child c (DirNode True []) es)) = (q = [c] \<or> dir_at q (DirNode l es))" for q
  proof (cases q)
    case (Cons x xs)
    with n show ?thesis by (cases xs) auto
  qed simp
  with good_put_child [OF 1(1), of "DirNode True []" c] show ?case by (auto simp del: good_tree.simps(2), simp)
next
  case (2 c d cs l es)
  then obtain n where n: "map_of es c = Some n" by (cases "map_of es c") auto
  with 2 good_child obtain t' where
    t': "put_node (d # cs) (DirNode True []) n = Ok t'" "good_tree t'"
    and f: "\<forall>q. file_at q t' = file_at q n" "\<forall>q. dir_at q t' = (q = d # cs \<or> dir_at q n)"
    by auto
  have "file_at q (DirNode l (put_child c t' es)) = file_at q (DirNode l es)
    \<and> dir_at q (DirNode l (put_child c t' es)) = (q = c # d # cs \<or> dir_at q (DirNode l es))" for q
    using f n by (cases q) auto
  with good_put_child [OF 2(2) t'(2), of c] n t' show ?case by (auto simp del: good_tree.simps(2))
qed auto

lemma remove_file:
  assumes "good_tree t" and "file_at p t \<noteq> None" and "p \<noteq> []"
  shows "\<exists>t'. remove_node p t = Ok t' \<and> good_tree t'
    \<and> (\<forall>q. file_at q t' = (if q = p then None else file_at q t)) \<and> (\<forall>q. dir_at q t' = dir_at q t)"
  using assms
proof (induction p t rule: remove_node.induct)
  case (1 c l es)
  then obtain r b where n: "map_of es c = Some (FileNode r b)"
    by (cases "map_of es c") (auto simp: file_at_def split: option.splits result.splits fs_node.splits)
  have m: "map_of (filter (\<lambda>e. fst e \<noteq> c) es) x = (if x = c then None else map_of es x)" for x
    by (induction es) auto
  have "file_at q (DirNode l (filter (\<lambda>e. fst e \<noteq> c) es)) = (if q = [c] then None else file_at q (DirNode l es))
    \<and> dir_at q (DirNode l (filter (\<lambda>e. fst e \<noteq> c) es)) = dir_at q (DirNode l es)" for q
  proof (cases q)
    case (Cons x xs)
    with n m show ?thesis by (cases xs) auto
  qed simp
  with 1(1) n show ?case by (auto simp: distinct_map_filter)
next
  case (2 c d cs l es)
  then obtain n where n: "map_of es c = Some n" by (cases "map_of es c") auto
  with 2 good_child obtain t' where
    t': "remove_node (d # cs) n = Ok t'" "good_tree t'"
    and f: "\<forall>q. file_at q t' = (if q = d # cs then None else file_at q n)" "\<forall>q. dir_at q t' = dir_at q n"
    by auto
  have "file_at q (DirNode l (put_child c t' es)) = (if q = c # d # cs then None else file_at q (DirNode l es))
    \<and> dir_at q (DirNode l (put_child c t' es)) = dir_at q (DirNode l es)" for q
    using f n by (cases q) auto
  with good_put_child [OF 2(2) t'(2), of c] n t' show ?case by (auto simp del: good_tree.simps(2))
qed (auto simp: file_at_leaf)


lemma remove_node_Ok: "remove_node p t = Ok t' \<Longrightarrow> p \<noteq> [] \<and> file_at p t \<noteq> None"
proof (induction p t arbitrary: t' rule: remove_node.induct)
  case (1 c l es)
  then show ?case by (auto split: option.splits fs_node.splits)
next
  case (2 c d cs l es)
  then show ?case by (auto simp: result_inv split: option.splits)
qed auto

section \<open>Atomic writes\<close>

text \<open>Two trees with the same directories and, outside some paths, the same files.\<close>

definition same_except :: "rstring list set \<Rightarrow> fs_node \<Rightarrow> fs_node \<Rightarrow> bool" where
  "same_except ps t t' \<longleftrightarrow>
     good_tree t' \<and> (\<forall>q. dir_at q t' = dir_at q t) \<and> (\<forall>q. q \<notin> ps \<longrightarrow> file_at q t' = file_at q t)"

lemma same_except_refl: "good_tree t \<Longrightarrow> same_except ps t t"
  by (simp add: same_except_def)

lemma same_except_trans: "same_except ps t t' \<Longrightarrow> same_except ps' t' t'' \<Longrightarrow> same_except (ps \<union> ps') t t''"
  by (simp add: same_except_def)

lemma same_except_mono: "same_except ps t t' \<Longrightarrow> ps \<subseteq> ps' \<Longrightarrow> same_except ps' t t'"
  by (auto simp: same_except_def)

lemma create_new_file_effect:
  assumes "good_tree t" and "dir_at (butlast p) t" and "p \<noteq> []" and "\<not> is_ok (lookup_node p t)"
  shows "\<exists>t'. create_new_file p bs t = Ok t' \<and> same_except {p} t t' \<and> file_at p t' = Some bs"
  using assms put_file [OF assms(1-3), of bs] lookup_missing [OF assms(1), of p]
  by (auto simp: create_new_file_def same_except_def)

lemma rename_file_effect:
  assumes "good_tree t" and "file_at src t = Some bs" and "src \<noteq> []" and "dst \<noteq> []" and "src \<noteq> dst"
    and "dir_at (butlast dst) t" and "\<not> dir_at dst t"
  shows "\<exists>t'. rename_file src dst t = Ok t' \<and> same_except {src, dst} t t'
    \<and> file_at dst t' = Some bs \<and> file_at src t' = None"
proof -
  from remove_file [OF assms(1) _ assms(3)] assms(2) obtain t1 where t1: "remove_node src t = Ok t1" "good_tree t1"
    "\<forall>q. file_at q t1 = (if q = src then None else file_at q t)" "\<forall>q. dir_at q t1 = dir_at q t" by auto
  from put_file [OF t1(2) _ assms(4), of bs] assms(6, 7) t1(4) obtain t' where
    "put_node dst (FileNode True bs) t1 = Ok t'" "good_tree t'"
    "\<forall>q. file_at q t' = (if q = dst then Some bs else file_at q t1)" "\<forall>q. dir_at q t' = dir_at q t1" by auto
  moreover have "lookup_node src t = Ok (FileNode True bs)" using assms(1, 2) lookup_file_at by blast
  ultimately show ?thesis using t1 assms(5) by (simp add: rename_file_def same_except_def)
qed

lemma remove_node_effect:
  assumes "good_tree t"
  shows "same_except {p} t (case remove_node p t of Ok t' \<Rightarrow> t' | Err _ \<Rightarrow> t)"
proof (cases "remove_node p t")
  case (Ok t')
  with remove_file [OF assms, of p] remove_node_Ok [OF Ok] show ?thesis by (auto simp: same_except_def)
qed (simp add: same_except_refl assms)

lemma tmp_path_neq: "p \<noteq> [] \<Longrightarrow> tmp_path p \<noteq> p" "tmp_path p \<noteq> []" "butlast (tmp_path p) = butlast p"
proof -
  show "tmp_path p \<noteq> p" if "p \<noteq> []"
  proof
    assume "tmp_path p = p"
    then have "last p @ lit ''.tmp'' = last p" by (metis last_snoc tmp_path_def)
    then show False by (simp add: lit_def)
  qed
qed (simp_all add: tmp_path_def butlast_append)

definition perfect_io :: "file_io \<Rightarrow> bool" where
  "perfect_io io \<longleftrightarrow> fio_open io \<and> fio_failed_write io = None \<and> fio_rename io"

text \<open>
  One atomic write at a free path: the file appears with all its bytes or not at all; a failure can
  leave nothing behind but the temporary file.
\<close>

lemma write_file_atomic_effect:
  assumes t: "good_tree t" and p: "p \<noteq> []" "dir_at (butlast p) t"
    and free: "\<not> is_ok (lookup_node p t)" "\<not> is_ok (lookup_node (tmp_path p) t)"
    and w: "write_file_atomic io p bs t = (r, t')"
  shows "(r = Ok () \<and> same_except {p} t t' \<and> file_at p t' = Some bs)
    \<or> (\<not> is_ok r \<and> \<not> perfect_io io \<and> same_except {tmp_path p} t t')"
proof -
  let ?tmp = "tmp_path p" and ?bs = "case fio_failed_write io of Some n \<Rightarrow> take n bs | None \<Rightarrow> bs"
  define cleanup where "cleanup = (\<lambda>t. if fio_remove io then (case remove_node ?tmp t of Ok t' \<Rightarrow> t' | Err _ \<Rightarrow> t) else t)"
  have clean: "same_except {?tmp} t1 (cleanup t1)" if "good_tree t1" for t1
    using remove_node_effect [OF that, of ?tmp] same_except_refl [OF that] by (simp add: cleanup_def)
  from create_new_file_effect [OF t _ tmp_path_neq(2) free(2), of ?bs] p(2) obtain t1 where
    t1: "create_new_file ?tmp ?bs t = Ok t1" "same_except {?tmp} t t1" "file_at ?tmp t1 = Some ?bs"
    by (auto simp: tmp_path_neq)
  have good1: "good_tree t1" using t1(2) by (simp add: same_except_def)
  have dirs: "dir_at (butlast p) t1" "\<not> dir_at p t1"
    using t1(2) p(2) free(1) lookup_missing [OF t, of p] by (auto simp: same_except_def)
  have late: "same_except {?tmp} t (cleanup t1)"
    using same_except_trans [OF t1(2) clean [OF good1]] by simp
  from rename_file_effect [OF good1 t1(3) tmp_path_neq(2) p(1) tmp_path_neq(1) [OF p(1)] dirs] obtain t2 where
    t2: "rename_file ?tmp p t1 = Ok t2" "same_except {?tmp, p} t1 t2" "file_at p t2 = Some ?bs" "file_at ?tmp t2 = None"
    by auto
  have "file_at ?tmp t = None" using free(2) lookup_missing [OF t, of ?tmp] by auto
  with same_except_trans [OF t1(2) t2(2)] t2(4) have "file_at q t2 = file_at q t" if "q \<noteq> p" for q
    using that by (cases "q = ?tmp") (auto simp: same_except_def)
  with same_except_trans [OF t1(2) t2(2)] have fin: "same_except {p} t t2" by (simp add: same_except_def)
  have "write_file_atomic io p bs t =
      (if \<not> fio_open io then (Err (io_failure ''archive-file''), cleanup t)
       else if fio_failed_write io \<noteq> None \<or> \<not> fio_rename io then (Err (io_failure ''archive-file''), cleanup t1)
       else (Ok (), t2))"
    using free(1) t1(1) t2(1) by (simp add: write_file_atomic_def cleanup_def)
  with w fin t2(3) late clean [OF t] show ?thesis
    by (auto simp: perfect_io_def is_ok_def split: if_splits)
qed

section \<open>Writing all files\<close>

definition free_at :: "rstring list \<Rightarrow> fs_node \<Rightarrow> bool" where
  "free_at p t \<longleftrightarrow> file_at p t = None \<and> \<not> dir_at p t"

lemma free_at_lookup: "good_tree t \<Longrightarrow> free_at p t \<longleftrightarrow> \<not> is_ok (lookup_node p t)"
  by (auto simp: free_at_def lookup_missing)

text \<open>A list of files that can be written: parents there, targets and temporary names free and apart.\<close>

definition writable_files :: "rstring list list \<Rightarrow> fs_node \<Rightarrow> bool" where
  "writable_files ps t \<longleftrightarrow>
     good_tree t \<and> distinct ps
     \<and> (\<forall>p \<in> set ps. p \<noteq> [] \<and> dir_at (butlast p) t \<and> free_at p t \<and> free_at (tmp_path p) t \<and> tmp_path p \<notin> set ps)"

lemma writable_files_step:
  assumes "writable_files (p # ps) t" and "same_except {p} t t'"
  shows "writable_files ps t'"
proof -
  have "q \<noteq> p" "tmp_path q \<noteq> p" if "q \<in> set ps" for q
    using assms(1) that by (auto simp: writable_files_def)
  then show ?thesis using assms by (auto simp: writable_files_def same_except_def free_at_def)
qed

lemma write_files_effect:
  assumes "writable_files (map (path_components \<circ> fst) files) t" and "write_files io files t = (r, t')"
  defines "ps \<equiv> (path_components \<circ> fst) ` set files"
  shows "(r = Ok () \<and> same_except ps t t' \<and> (\<forall>(path, bs) \<in> set files. file_at (path_components path) t' = Some bs))
    \<or> (\<not> is_ok r \<and> (\<exists>(path, bs) \<in> set files. \<not> perfect_io (aio_file io path)) \<and> same_except (ps \<union> tmp_path ` ps) t t')"
  using assms(1, 2) unfolding ps_def
proof (induction io files t rule: write_files.induct)
  case (1 io t)
  then show ?case by (simp add: same_except_refl writable_files_def)
next
  case (2 io path bs files t)
  let ?p = "path_components path"
  obtain r1 t1 where w: "write_file_atomic (aio_file io path) ?p bs t = (r1, t1)" by force
  have good: "good_tree t" and "?p \<noteq> []" "dir_at (butlast ?p) t" "free_at ?p t" "free_at (tmp_path ?p) t"
    and fresh: "?p \<notin> (path_components \<circ> fst) ` set files"
    using 2(2) by (auto simp: writable_files_def)
  then have "(r1 = Ok () \<and> same_except {?p} t t1 \<and> file_at ?p t1 = Some bs)
      \<or> (\<not> is_ok r1 \<and> \<not> perfect_io (aio_file io path) \<and> same_except {tmp_path ?p} t t1)"
    using write_file_atomic_effect [OF good _ _ _ _ w] by (simp add: free_at_lookup)
  then show ?case
  proof
    assume ok: "r1 = Ok () \<and> same_except {?p} t t1 \<and> file_at ?p t1 = Some bs"
    with 2(3) w have rest: "write_files io files t1 = (r, t')" by (simp add: io_then_def)
    have "writable_files (map (path_components \<circ> fst) files) t1"
      using writable_files_step [OF 2(2) [unfolded list.map comp_apply fst_conv]] ok by (simp add: comp_def)
    from 2(1) [OF this rest] ok show ?thesis
    proof (elim disjE conjE)
      assume h: "r = Ok ()" "same_except ((path_components \<circ> fst) ` set files) t1 t'"
        "\<forall>(path, bs) \<in> set files. file_at (path_components path) t' = Some bs"
      have "file_at ?p t' = file_at ?p t1" using h(2) fresh by (auto simp: same_except_def)
      with h ok same_except_trans [of "{?p}" t t1 _ t'] show ?thesis by auto
    next
      assume h: "same_except ((path_components \<circ> fst) ` set files \<union> tmp_path ` (path_components \<circ> fst) ` set files) t1 t'"
        "\<not> is_ok r" "\<exists>(path, bs) \<in> set files. \<not> perfect_io (aio_file io path)"
      have "same_except ({?p} \<union> ((path_components \<circ> fst) ` set files \<union> tmp_path ` (path_components \<circ> fst) ` set files)) t t'"
        using same_except_trans [OF _ h(1)] ok by blast
      then have "same_except ((path_components \<circ> fst) ` set ((path, bs) # files)
          \<union> tmp_path ` (path_components \<circ> fst) ` set ((path, bs) # files)) t t'"
        by (rule same_except_mono) auto
      with h(2, 3) show ?thesis by auto
    qed
  next
    assume err: "\<not> is_ok r1 \<and> \<not> perfect_io (aio_file io path) \<and> same_except {tmp_path ?p} t t1"
    then obtain e where e: "r1 = Err e" by (cases r1) (auto simp: is_ok_def)
    with 2(3) w have "r = Err e" "t' = t1" by (simp_all add: io_then_def)
    moreover have "same_except ((path_components \<circ> fst) ` set ((path, bs) # files)
          \<union> tmp_path ` (path_components \<circ> fst) ` set ((path, bs) # files)) t t1"
      using err by (auto intro: same_except_mono)
    ultimately show ?thesis using err by (auto simp: is_ok_def)
  qed
qed

section \<open>What the verifier finds in a tree\<close>

lemma good_tree_listable: "good_tree t \<Longrightarrow> all_listable t"
  by (induction t rule: all_listable.induct) auto

lemma tree_files_file_at: "good_tree t \<Longrightarrow> q \<in> tree_files p t \<longleftrightarrow> (\<exists>q'. q = p @ q' \<and> file_at q' t \<noteq> None)"
proof (induction p t rule: tree_files.induct)
  case (1 p r bs)
  show ?case by (auto simp: file_at_leaf intro: exI [of _ "[]"]) (metis append.right_neutral file_at_leaf(1) option.distinct(1))
next
  case (2 p l es)
  have dist: "distinct (map fst es)" using 2(2) by simp
  have "q \<in> tree_files p (DirNode l es) \<longleftrightarrow> (\<exists>name n. map_of es name = Some n \<and> q \<in> tree_files (p @ [name]) n)"
    using dist by (auto simp: Bex_def split_paired_Ex)
  also have "\<dots> \<longleftrightarrow> (\<exists>name n q'. map_of es name = Some n \<and> q = p @ name # q' \<and> file_at q' n \<noteq> None)"
  proof -
    have "q \<in> tree_files (p @ [name]) n \<longleftrightarrow> (\<exists>q'. q = p @ name # q' \<and> file_at q' n \<noteq> None)" if "map_of es name = Some n" for name n
      using 2(1) [OF map_of_SomeD [OF that] refl] good_child [OF 2(2) that] by simp
    then show ?thesis by blast
  qed
  also have "\<dots> \<longleftrightarrow> (\<exists>q'. q = p @ q' \<and> file_at q' (DirNode l es) \<noteq> None)"
  proof
    assume "\<exists>q'. q = p @ q' \<and> file_at q' (DirNode l es) \<noteq> None"
    then obtain q' where q': "q = p @ q'" "file_at q' (DirNode l es) \<noteq> None" by blast
    then obtain c cs where "q' = c # cs" by (cases q') auto
    with q' show "\<exists>name n q'. map_of es name = Some n \<and> q = p @ name # q' \<and> file_at q' n \<noteq> None"
      by (cases "map_of es c") auto
  next
    assume "\<exists>name n q'. map_of es name = Some n \<and> q = p @ name # q' \<and> file_at q' n \<noteq> None"
    then obtain name n q' where "map_of es name = Some n" "q = p @ name # q'" "file_at q' n \<noteq> None" by blast
    then show "\<exists>q'. q = p @ q' \<and> file_at q' (DirNode l es) \<noteq> None" by (intro exI [of _ "name # q'"]) simp
  qed
  finally show ?case .
qed simp

lemma read_limited_file_at:
  assumes "good_tree t"
  shows "read_limited limit p t = Ok bs \<longleftrightarrow> file_at p t = Some bs \<and> length bs \<le> limit"
proof (cases "lookup_node p t")
  case (Ok n)
  show ?thesis
  proof (cases n)
    case (FileNode r b)
    then have "r" using lookup_file_at [OF assms, of p b] Ok by (simp add: file_at_def)
    then show ?thesis using FileNode Ok by (auto simp: read_limited_def file_at_def)
  qed (auto simp: read_limited_def file_at_def Ok)
qed (auto simp: read_limited_def file_at_def)

lemma join_path_components: "join_path (path_components p) = p"
proof -
  have "join_segments cs = SLASH # join_path cs" if "cs \<noteq> []" for cs
    using that by (induction cs rule: join_path.induct) (auto simp: join_segments_def)
  from this [of "split_at_byte SLASH p"] join_split [of p] show ?thesis by (simp add: path_components_def)
qed

lemma path_components_inject: "path_components p = path_components q \<longleftrightarrow> p = q"
  by (simp add: path_components_def split_at_byte_inject)

lemma path_components_nonempty [simp]: "path_components p \<noteq> []"
  by (simp add: path_components_def)

end
