(* ===== verification/Writer_Contents.thy ===== *)
theory Writer_Contents
  imports Archive_Tree Session_Invariants Archive_Soundness
begin

text \<open>
  What an assembled archive contains: the paths of its files and their order, its catalog, and what the
  verifier's lookups in the file map give.
\<close>

section \<open>Numbers in paths\<close>

text \<open>The last \<open>k\<close> decimal digits, most significant first.\<close>

primrec digits :: "nat \<Rightarrow> nat \<Rightarrow> rstring" where
  "digits 0 n = []"
| "digits (Suc k) n = digits k (n div 10) @ [48 + word_of_nat (n mod 10)]"

lemma length_digits [simp]: "length (digits k n) = k"
  by (induction k arbitrary: n) auto

lemma digits_zero: "digits k 0 = replicate k 48"
  by (induction k) (auto simp: replicate_append_same)

lemma padded_decimal_digits: "n < 10 ^ k \<Longrightarrow> 0 < k \<Longrightarrow> padded_decimal k n = digits k n"
proof (induction n arbitrary: k rule: decimal.induct)
  case (1 n)
  then obtain j where k: "k = Suc j" by (cases k) auto
  show ?case
  proof (cases "n < 10")
    case True
    then show ?thesis by (simp add: padded_decimal_def decimal.simps k digits_zero)
  next
    case False
    with 1(2) k have j: "n div 10 < 10 ^ j" "0 < j" by (cases j; simp)+
    have "padded_decimal j (n div 10) = digits j (n div 10)" using 1(1) [OF False j] .
    moreover have "padded_decimal k n = padded_decimal j (n div 10) @ [48 + word_of_nat (n mod 10)]"
      using False by (simp add: padded_decimal_def decimal.simps [of n] k)
    ultimately show ?thesis by (simp add: k)
  qed
qed

lemma list_less_append:
  fixes xs :: "'a::linorder list"
  shows "length xs = length ys \<Longrightarrow> xs @ us < ys @ vs \<longleftrightarrow> xs < ys \<or> xs = ys \<and> us < vs"
  by (induction xs ys rule: list_induct2) auto

lemma digit_less: "a < 10 \<Longrightarrow> b < 10 \<Longrightarrow> (48 + word_of_nat a :: u8) < 48 + word_of_nat b \<longleftrightarrow> a < b"
  by (simp add: word_less_nat_alt unat_word_ariths unat_of_nat)

lemma div_mod_less: "(m::nat) < n \<longleftrightarrow> m div d < n div d \<or> m div d = n div d \<and> m mod d < n mod d"
proof (cases "m div d = n div d")
  case True
  then show ?thesis by (metis add_less_cancel_left mult_div_mod_eq order_less_irrefl)
next
  case False
  have "m < n \<Longrightarrow> m div d \<le> n div d" by (simp add: div_le_mono)
  moreover have "\<not> m < n \<Longrightarrow> n div d \<le> m div d" by (simp add: div_le_mono)
  ultimately show ?thesis using False by linarith
qed

lemma digits_less: "m < 10 ^ k \<Longrightarrow> n < 10 ^ k \<Longrightarrow> digits k m < digits k n \<longleftrightarrow> m < n"
proof (induction k arbitrary: m n)
  case (Suc k)
  have mn: "m div 10 < 10 ^ k" "n div 10 < 10 ^ k" using Suc.prems by auto
  have "digits (Suc k) m < digits (Suc k) n \<longleftrightarrow> m div 10 < n div 10 \<or> digits k (m div 10) = digits k (n div 10) \<and> m mod 10 < n mod 10"
    using Suc.IH [OF mn] by (auto simp: list_less_append digit_less)
  also have "digits k (m div 10) = digits k (n div 10) \<longleftrightarrow> m div 10 = n div 10"
    using Suc.IH [OF mn] Suc.IH [OF mn(2) mn(1)] by (metis nat_neq_iff order_less_irrefl)
  also have "m div 10 < n div 10 \<or> m div 10 = n div 10 \<and> m mod 10 < n mod 10 \<longleftrightarrow> m < n" by (rule div_mod_less [symmetric])
  finally show ?case .
qed simp

lemma digits_range: "set (digits k n) \<subseteq> {48..57}"
proof (induction k arbitrary: n)
  case (Suc k)
  have "(48::u8) + word_of_nat (n mod 10) \<in> {48..57}"
    by (simp add: word_le_nat_alt unat_word_ariths unat_of_nat)
  with Suc show ?case by auto
qed simp

text \<open>Below ten to the eight, the order of the paths is the order of the packages.\<close>

lemma submission_path_digits:
  "i < 10 ^ 8 \<Longrightarrow> submission_archive_path i = SUBMISSIONS_ARCHIVE_DIR @ SLASH # digits 8 i @ lit ''.cbor''"
  by (simp add: submission_archive_path_def padded_decimal_digits)

lemma submission_path_less:
  "i < 10 ^ 8 \<Longrightarrow> j < 10 ^ 8 \<Longrightarrow> submission_archive_path i < submission_archive_path j \<longleftrightarrow> i < j"
  using digits_less [of i 8 j] by (auto simp: submission_path_digits list_less_append)

lemma submission_path_inject:
  "i < 10 ^ 8 \<Longrightarrow> j < 10 ^ 8 \<Longrightarrow> submission_archive_path i = submission_archive_path j \<longleftrightarrow> i = j"
  using submission_path_less [of i j] submission_path_less [of j i] by (metis nat_neq_iff order_less_irrefl)

section \<open>Paths of the content files\<close>

definition is_submission :: "rstring \<Rightarrow> bool" where
  "is_submission p \<longleftrightarrow> starts_with p (SUBMISSIONS_ARCHIVE_DIR @ [SLASH])"

lemmas archive_path_defs = ELECTION_MANIFEST_ARCHIVE_PATH_def CANDIDATE_SET_ARCHIVE_PATH_def
  VOTER_REGISTRY_ARCHIVE_PATH_def GOVERNANCE_DOCUMENT_ARCHIVE_PATH_def TRANSPORT_ARCHIVE_BINDING_PATH_V1_def
  ARCHIVE_MANIFEST_CANONICAL_PATH_def SUBMISSIONS_ARCHIVE_DIR_def

lemma submission_path_is_submission [simp]: "is_submission (submission_archive_path i)"
  by (simp add: is_submission_def submission_archive_path_def starts_with_def)

lemma fixed_path_not_submission [simp]:
  "\<not> is_submission ELECTION_MANIFEST_ARCHIVE_PATH" "\<not> is_submission CANDIDATE_SET_ARCHIVE_PATH"
  "\<not> is_submission VOTER_REGISTRY_ARCHIVE_PATH" "\<not> is_submission GOVERNANCE_DOCUMENT_ARCHIVE_PATH"
  "\<not> is_submission TRANSPORT_ARCHIVE_BINDING_PATH_V1"
  by (simp_all add: is_submission_def starts_with_def archive_path_defs lit_def SLASH_def)

lemma fixed_path_neq_submission [simp]:
  "\<not> is_submission p \<Longrightarrow> p \<noteq> submission_archive_path i" "\<not> is_submission p \<Longrightarrow> submission_archive_path i \<noteq> p"
  by auto

lemma fixed_paths_distinct [simp]:
  "distinct [ELECTION_MANIFEST_ARCHIVE_PATH, CANDIDATE_SET_ARCHIVE_PATH, VOTER_REGISTRY_ARCHIVE_PATH,
     GOVERNANCE_DOCUMENT_ARCHIVE_PATH, TRANSPORT_ARCHIVE_BINDING_PATH_V1]"
  by (simp add: archive_path_defs lit_def)

lemma split_no_separator: "c \<notin> set s \<Longrightarrow> split_at_byte c s = [s]"
  by (induction s) auto

lemma fixed_path_components [simp]:
  "path_components ELECTION_MANIFEST_ARCHIVE_PATH = [ELECTION_MANIFEST_ARCHIVE_PATH]"
  "path_components CANDIDATE_SET_ARCHIVE_PATH = [CANDIDATE_SET_ARCHIVE_PATH]"
  "path_components VOTER_REGISTRY_ARCHIVE_PATH = [VOTER_REGISTRY_ARCHIVE_PATH]"
  "path_components ARCHIVE_MANIFEST_CANONICAL_PATH = [ARCHIVE_MANIFEST_CANONICAL_PATH]"
  "path_components GOVERNANCE_DOCUMENT_ARCHIVE_PATH = [lit ''governance'', lit ''source.bin'']"
  "path_components TRANSPORT_ARCHIVE_BINDING_PATH_V1 = [lit ''transport'', lit ''archive-binding-v1.cbor'']"
  by (simp_all add: path_components_def archive_path_defs lit_def SLASH_def)

lemma submission_path_components:
  assumes "i < 10 ^ 8"
  shows "path_components (submission_archive_path i) = [lit ''submissions'', digits 8 i @ lit ''.cbor'']"
proof -
  have "SLASH \<notin> set (digits 8 i)" using digits_range [of 8 i] by (auto simp: SLASH_def word_le_nat_alt)
  then have "split_at_byte SLASH (digits 8 i @ lit ''.cbor'') = [digits 8 i @ lit ''.cbor'']"
    by (intro split_no_separator) (simp add: SLASH_def lit_def)
  moreover have "split_at_byte SLASH (lit ''submissions'') = [lit ''submissions'']"
    by (simp add: SLASH_def lit_def)
  ultimately show ?thesis
    using assms by (simp add: path_components_def submission_path_digits SUBMISSIONS_ARCHIVE_DIR_def split_at_byte_append)
qed

section \<open>The file map of an archive\<close>

text \<open>The files of an archive as one map, from the parts the writer has.\<close>

definition archive_map ::
  "bytes \<Rightarrow> bytes \<Rightarrow> bytes \<Rightarrow> bytes list \<Rightarrow> bytes option \<Rightarrow> bytes option \<Rightarrow> file_map" where
  "archive_map mb cb rb packages document binding =
     (case binding of
        None \<Rightarrow> session_files mb cb rb packages document
      | Some bs \<Rightarrow> bt_insert TRANSPORT_ARCHIVE_BINDING_PATH_V1 bs (session_files mb cb rb packages document))"

abbreviation insert_packages :: "nat \<Rightarrow> bytes list \<Rightarrow> file_map \<Rightarrow> file_map" where
  "insert_packages n ps \<equiv> fold (\<lambda>(index, package). bt_insert (submission_archive_path index) package) (enumerate n ps)"

lemma insert_packages_inv: "bt_inv m \<Longrightarrow> bt_inv (insert_packages n ps m)"
  by (induction ps arbitrary: n m) (simp_all add: bt_inv_insert)

lemma insert_packages_keys:
  "set (map fst (insert_packages n ps m)) = set (map fst m) \<union> submission_archive_path ` {n..<n + length ps}"
proof (induction ps arbitrary: n m)
  case (Cons p ps)
  have "{n..<n + length (p # ps)} = insert n {Suc n..<Suc n + length ps}" by auto
  with Cons [of "Suc n"] set_bt_insert_keys [of "submission_archive_path n" p m] show ?case
    by (simp del: set_map)
qed simp

lemma insert_packages_other:
  "bt_inv m \<Longrightarrow> (\<And>i. n \<le> i \<Longrightarrow> i < n + length ps \<Longrightarrow> k \<noteq> submission_archive_path i) \<Longrightarrow>
     bt_get (insert_packages n ps m) k = bt_get m k"
proof (induction ps arbitrary: n m)
  case (Cons p ps)
  have "bt_get (insert_packages (Suc n) ps (bt_insert (submission_archive_path n) p m)) k
      = bt_get (bt_insert (submission_archive_path n) p m) k"
    using Cons.prems by (intro Cons.IH) (auto simp: bt_inv_insert)
  with Cons.prems(1) Cons.prems(2) [of n] show ?case by (simp add: bt.get_ins)
qed simp

lemma insert_packages_package:
  "bt_inv m \<Longrightarrow> n + length ps \<le> 10 ^ 8 \<Longrightarrow> i < length ps \<Longrightarrow>
     bt_get (insert_packages n ps m) (submission_archive_path (n + i)) = Some (ps ! i)"
proof (induction ps arbitrary: n m i)
  case (Cons p ps)
  have inv: "bt_inv (bt_insert (submission_archive_path n) p m)" by (simp add: bt_inv_insert Cons.prems(1))
  show ?case
  proof (cases i)
    case 0
    have "bt_get (insert_packages (Suc n) ps (bt_insert (submission_archive_path n) p m)) (submission_archive_path n)
        = bt_get (bt_insert (submission_archive_path n) p m) (submission_archive_path n)"
      using Cons.prems(2) by (intro insert_packages_other inv) (auto simp: submission_path_inject)
    with 0 Cons.prems(1) show ?thesis by (simp add: bt.get_ins)
  next
    case (Suc j)
    with Cons.IH [OF inv, of "Suc n" j] Cons.prems show ?thesis by simp
  qed
qed simp

lemma archive_map_inv: "bt_inv (archive_map mb cb rb ps document binding)"
  by (auto simp: archive_map_def session_files_def Let_def bt.inv_new intro!: bt_inv_insert insert_packages_inv
      split: option.splits)

lemma archive_map_keys:
  "set (map fst (archive_map mb cb rb ps document binding)) =
     {ELECTION_MANIFEST_ARCHIVE_PATH, CANDIDATE_SET_ARCHIVE_PATH, VOTER_REGISTRY_ARCHIVE_PATH}
     \<union> submission_archive_path ` {0..<length ps}
     \<union> (if document \<noteq> None then {GOVERNANCE_DOCUMENT_ARCHIVE_PATH} else {})
     \<union> (if binding \<noteq> None then {TRANSPORT_ARCHIVE_BINDING_PATH_V1} else {})"
  by (auto simp: archive_map_def session_files_def Let_def set_bt_insert_keys insert_packages_keys bt_new_def
      simp del: set_map split: option.splits)

text \<open>What the verifier's lookups find.\<close>

lemma archive_map_get:
  "bt_get (archive_map mb cb rb ps document binding) ELECTION_MANIFEST_ARCHIVE_PATH = Some mb"
  "bt_get (archive_map mb cb rb ps document binding) CANDIDATE_SET_ARCHIVE_PATH = Some cb"
  "bt_get (archive_map mb cb rb ps document binding) VOTER_REGISTRY_ARCHIVE_PATH = Some rb"
  "bt_get (archive_map mb cb rb ps document binding) GOVERNANCE_DOCUMENT_ARCHIVE_PATH = document"
  "bt_get (archive_map mb cb rb ps document binding) TRANSPORT_ARCHIVE_BINDING_PATH_V1 = binding"
  "length ps \<le> 10 ^ 8 \<Longrightarrow> i < length ps \<Longrightarrow>
     bt_get (archive_map mb cb rb ps document binding) (submission_archive_path i) = Some (ps ! i)"
  using fixed_paths_distinct insert_packages_package [of _ 0 ps i]
  by (auto simp: archive_map_def session_files_def Let_def bt.get_ins bt.get_new bt_inv_insert bt.inv_new
      insert_packages_inv insert_packages_other simp del: fixed_paths_distinct split: option.splits)

text \<open>The submissions of an archive, in path order, are the packages in their order of arrival.\<close>

lemma archive_map_submissions:
  assumes "length ps \<le> 10 ^ 8"
  shows "filter is_submission (map fst (archive_map mb cb rb ps document binding)) =
    map submission_archive_path [0..<length ps]"
proof -
  let ?ks = "map fst (archive_map mb cb rb ps document binding)"
  have "sorted_wrt (<) (filter is_submission ?ks)"
    using archive_map_inv by (auto simp: bt_inv_def intro: sorted_wrt_filter)
  moreover have "sorted_wrt (<) (map submission_archive_path [0..<length ps])"
    using assms by (auto simp: sorted_wrt_iff_nth_less submission_path_less)
  moreover have "set (filter is_submission ?ks) = set (map submission_archive_path [0..<length ps])"
    unfolding set_filter archive_map_keys by (auto split: if_splits)
  ultimately show ?thesis by (metis sorted_distinct_set_unique strictly_sorted_iff)
qed

section \<open>The assembled archive\<close>

lemma binding_encoded_decodes:
  assumes "binding_to_canonical_cbor blake3 b = Ok bs"
  shows "binding_from_canonical_cbor blake3 bs = Ok b"
proof -
  from assms obtain b' where new: "TransportArchiveBindingV1_new blake3 (tb_election_id b) (tb_manifest_hash b)
      (tb_descriptor_fingerprint b) (tb_descriptor_generation b) (tb_batches b) = Ok b'"
    and eq: "tb_batches b' = tb_batches b" "tb_final_batch_set_commitment b' = tb_final_batch_set_commitment b"
    by (auto simp: binding_to_canonical_cbor_def verify_commitment_def result_inv split: if_splits)
  then have "b' = b" by (auto simp: TransportArchiveBindingV1_new_Ok_iff)
  then have "wf_binding blake3 b" using binding_new_wf [OF new] by simp
  with assms binding_decode_enc [of blake3 b] show ?thesis by (simp add: binding_to_canonical_cbor_eq)
qed

text \<open>The binding file of an archive: the encoding of a binding that belongs to the election.\<close>

definition binding_file ::
  "(bytes \<Rightarrow> bytes32) \<Rightarrow> gui_election_artifacts_v1 \<Rightarrow> transport_archive_binding_v1 option \<Rightarrow> bytes option \<Rightarrow> bool" where
  "binding_file blake3 a tb file \<longleftrightarrow>
     (case tb of
        None \<Rightarrow> file = None
      | Some b \<Rightarrow> (\<exists>bs. file = Some bs \<and> binding_from_canonical_cbor blake3 bs = Ok b
          \<and> tb_manifest_hash b = ga_manifest_hash a
          \<and> tb_election_id b = election_id_bytes (manifest_election_id (ga_manifest a))))"

definition catalog_entry :: "(bytes \<Rightarrow> bytes32) \<Rightarrow> rstring \<times> bytes \<Rightarrow> archive_file_entry_v1" where
  "catalog_entry blake3 f = entry_for_bytes (ArchivePathV1 (fst f)) (Blake3HashProviderV1 blake3) (snd f)"

lemma entry_path_catalog_entry [simp]: "entry_path (catalog_entry blake3 f) = fst f"
  by (simp add: entry_path_def catalog_entry_def entry_for_bytes_def)

lemma insert_binding_Ok:
  assumes "insert_binding blake3 a tb (session_files mb cb rb ps document) = Ok files"
  shows "\<exists>file. files = archive_map mb cb rb ps document file \<and> binding_file blake3 a tb file"
proof (cases tb)
  case None
  with assms show ?thesis by (intro exI [of _ None]) (simp add: insert_binding_def archive_map_def binding_file_def)
next
  case (Some b)
  with assms obtain bs where "binding_to_canonical_cbor blake3 b = Ok bs"
    "files = bt_insert TRANSPORT_ARCHIVE_BINDING_PATH_V1 bs (session_files mb cb rb ps document)"
    "tb_manifest_hash b = ga_manifest_hash a" "tb_election_id b = election_id_bytes (manifest_election_id (ga_manifest a))"
    by (auto simp: insert_binding_def result_inv split: if_splits)
  with Some binding_encoded_decodes show ?thesis
    by (intro exI [of _ "Some bs"]) (auto simp: archive_map_def binding_file_def)
qed

lemma collect_catalog_entries:
  assumes "collect_results (\<lambda>(path, bs).
      and_then (gui_err ''archive-catalog'' (ArchivePathV1_new path)) (\<lambda>archive_path.
      Ok (entry_for_bytes archive_path (Blake3HashProviderV1 blake3) bs))) files = Ok entries"
  shows "entries = map (catalog_entry blake3) files \<and> list_all (\<lambda>e. wf_archive_path (fe_path e)) entries"
proof -
  from assms have all: "list_all2 (\<lambda>f e. e = catalog_entry blake3 f \<and> wf_archive_path (fe_path e)) files entries"
    unfolding collect_results_Ok_iff
    by (rule list_all2_mono) (auto simp: result_inv catalog_entry_def entry_for_bytes_def)
  then show ?thesis by (induction rule: list_all2_induct) auto
qed

lemma sorted_catalog_entries:
  assumes "bt_inv files"
  shows "sort_key fe_path (map (catalog_entry blake3) files) = map (catalog_entry blake3) files"
proof -
  have "sorted (map ArchivePathV1 (map fst files))"
    using assms unfolding bt_inv_def strictly_sorted_iff
    by (simp add: sorted_map less_eq_archive_path_v1_def)
  then show ?thesis
    by (intro sort_key_sorted_id) (simp add: catalog_entry_def entry_for_bytes_def comp_def)
qed

lemma blake3_algorithm [simp]:
  "hp_algorithm_id (Blake3HashProviderV1 blake3) = BLAKE3_256_HASH_ALGORITHM_ID_V1"
  "utf8_valid BLAKE3_256_HASH_ALGORITHM_ID_V1"
  by (simp_all add: Blake3HashProviderV1_def BLAKE3_256_HASH_ALGORITHM_ID_V1_def lit_def utf8_valid_ascii)

definition assembled_from ::
  "(bytes \<Rightarrow> bytes32) \<Rightarrow> manifest_hash \<Rightarrow> archive_finality_mode \<Rightarrow> assembled_archive \<Rightarrow> bool" where
  "assembled_from blake3 h finality a \<longleftrightarrow>
     wf_archive_manifest (as_manifest a)
     \<and> fc_entries (am_files (as_manifest a)) = map (catalog_entry blake3) (as_files a)
     \<and> am_election_manifest_hash (as_manifest a) = h
     \<and> am_hash_algorithm_id (as_manifest a) = BLAKE3_256_HASH_ALGORITHM_ID_V1
     \<and> is_finalized_archive_manifest (as_manifest a) = (finality = FinalizedMode)
     \<and> archive_manifest_canonical_hash (Blake3HashProviderV1 blake3) (as_manifest a) = Ok (as_hash a)
     \<and> archive_manifest_to_canonical_cbor (as_manifest a) = Ok (as_manifest_bytes a)"

lemma assemble_Ok:
  assumes "assemble_archive blake3 s document tb finality = Ok a"
    and art: "artifacts_from nfc blake3 (gs_artifacts s) mb rb cb"
  shows "\<exists>file. as_files a = archive_map mb cb rb (gs_packages s) document file
    \<and> binding_file blake3 (gs_artifacts s) tb file
    \<and> governance_gate blake3 (gs_artifacts s) document = Ok ()
    \<and> assembled_from blake3 (ga_manifest_hash (gs_artifacts s)) finality a"
proof -
  let ?p = "Blake3HashProviderV1 blake3"
  from assms obtain files entries catalog m where
    ins: "insert_binding blake3 (gs_artifacts s) tb (session_files mb cb rb (gs_packages s) document) = Ok files"
    and gate: "governance_gate blake3 (gs_artifacts s) document = Ok ()"
    and col: "collect_results (\<lambda>(path, bs).
      and_then (gui_err ''archive-catalog'' (ArchivePathV1_new path)) (\<lambda>archive_path.
      Ok (entry_for_bytes archive_path ?p bs))) files = Ok entries"
    and cat: "ArchiveFileCatalogV1_new entries = Ok catalog"
    and m: "(case finality of
           Legacy \<Rightarrow> archive_manifest_for_provider (ga_manifest_hash (gs_artifacts s)) catalog ?p
         | FinalizedMode \<Rightarrow> archive_manifest_finalized_for_provider (ga_manifest_hash (gs_artifacts s)) catalog ?p) = Ok m"
    and h: "archive_manifest_canonical_hash ?p m = Ok (as_hash a)"
    and e: "archive_manifest_to_canonical_cbor m = Ok (as_manifest_bytes a)"
    and a: "as_files a = files" "as_manifest a = m"
    by (auto simp: assemble_archive_def artifacts_from_def result_inv Let_def)
  from insert_binding_Ok [OF ins] obtain bf where
    fs: "files = archive_map mb cb rb (gs_packages s) document bf" "binding_file blake3 (gs_artifacts s) tb bf" by blast
  note entries = collect_catalog_entries [OF col]
  have wf: "wf_file_catalog catalog" using ArchiveFileCatalogV1_new_wf [OF cat] entries by blast
  have "fc_entries catalog = map (catalog_entry blake3) files"
    using cat entries sorted_catalog_entries [of files] fs(1) archive_map_inv
    by (simp add: ArchiveFileCatalogV1_new_Ok_iff)
  moreover have "am_files m = catalog" "am_election_manifest_hash m = ga_manifest_hash (gs_artifacts s)"
    "am_hash_algorithm_id m = BLAKE3_256_HASH_ALGORITHM_ID_V1" "wf_archive_manifest m"
    "is_finalized_archive_manifest m = (finality = FinalizedMode)"
    using m wf by (cases finality; auto simp: archive_manifest_for_provider_def ArchiveManifestV1_new_def
        archive_manifest_finalized_for_provider_def archive_manifest_new_Ok_iff wf_archive_manifest_def
        is_finalized_archive_manifest_def)+
  ultimately show ?thesis using fs gate h e a by (auto simp: assembled_from_def)
qed

text \<open>The catalog limit keeps the number of packages far below what eight digits can name.\<close>

lemma assembled_package_count:
  assumes "assembled_from blake3 h finality a" and "as_files a = archive_map mb cb rb ps document file"
  shows "length ps \<le> MAX_ARCHIVE_FILES"
proof -
  let ?n = "min (length ps) (10 ^ 8)"
  have "length (as_files a) \<le> MAX_ARCHIVE_FILES"
    using assms(1) by (auto simp: assembled_from_def wf_archive_manifest_def wf_file_catalog_def)
  moreover have "card (set (map fst (as_files a))) \<le> length (as_files a)"
    by (metis card_length length_map)
  moreover have "submission_archive_path ` {0..<?n} \<subseteq> set (map fst (as_files a))"
    unfolding assms(2) archive_map_keys by auto
  then have "card (submission_archive_path ` {0..<?n}) \<le> card (set (map fst (as_files a)))"
    by (intro card_mono) simp_all
  moreover have "inj_on submission_archive_path {0..<?n}"
    by (auto simp: inj_on_def submission_path_inject)
  then have "card (submission_archive_path ` {0..<?n}) = ?n" by (simp add: card_image)
  ultimately have "?n \<le> MAX_ARCHIVE_FILES" by linarith
  then show ?thesis by (simp add: limits_def min_def split: if_splits)
qed

end
