(* ===== verification/Writer_Soundness.thy ===== *)
theory Writer_Soundness
  imports Writer_Contents
begin

text \<open>
  What the archive writer leaves on disk, and what the archive verifier says of it: a write that
  succeeds leaves exactly the assembled archive, which verifies and replays to the session; a write that
  fails leaves no archive manifest.
\<close>

section \<open>The directories\<close>

text \<open>A tree with the given directories and no file.\<close>

definition bare :: "rstring list set \<Rightarrow> fs_node \<Rightarrow> bool" where
  "bare D t \<longleftrightarrow> good_tree t \<and> (\<forall>q. file_at q t = None) \<and> (\<forall>q. dir_at q t \<longleftrightarrow> q \<in> D)"

lemma bare_empty: "bare {[]} (DirNode True [])"
proof -
  have "file_at q (DirNode True []) = None \<and> (dir_at q (DirNode True []) \<longleftrightarrow> q \<in> {[]})" for q by (cases q) auto
  then show ?thesis by (simp add: bare_def)
qed

lemma make_directory_effect:
  assumes "bare D t" and "[] \<in> D" and "[lit name] \<notin> D"
  obtains t' where "make_directory io name needed t = (Ok (), t')" "bare (if needed then insert [lit name] D else D) t'"
  | e where "make_directory io name needed t = (Err e, t)" "\<not> aio_create_dir io (lit name)"
proof (cases "needed \<and> aio_create_dir io (lit name)")
  case True
  have free: "\<not> is_ok (lookup_node [lit name] t)"
    using assms lookup_missing [of t "[lit name]"] by (simp add: bare_def)
  with put_dir [of t "[lit name]"] assms obtain t' where "put_node [lit name] (DirNode True []) t = Ok t'" "good_tree t'"
    "\<forall>q. file_at q t' = file_at q t" "\<forall>q. dir_at q t' = (q = [lit name] \<or> dir_at q t)"
    by (auto simp: bare_def)
  with True free assms that(1) [of t'] show thesis by (simp add: make_directory_def create_dir_def bare_def)
next
  case False
  with assms that show thesis by (cases needed) (simp_all add: make_directory_def)
qed

definition archive_dirs :: "bytes list \<Rightarrow> bytes option \<Rightarrow> bytes option \<Rightarrow> rstring list set" where
  "archive_dirs ps document binding =
     {[]} \<union> (if ps \<noteq> [] then {[lit ''submissions'']} else {})
     \<union> (if document \<noteq> None then {[lit ''governance'']} else {})
     \<union> (if binding \<noteq> None then {[lit ''transport'']} else {})"

lemma make_directories_effect:
  fixes io ps document binding
  defines "mk \<equiv> (\<lambda>f. io_then (make_directory io ''submissions'' (ps \<noteq> []) (DirNode True [])) (\<lambda>t.
     io_then (make_directory io ''governance'' (document \<noteq> None) t) (\<lambda>t.
     io_then (make_directory io ''transport'' (binding \<noteq> None) t) f)))"
  obtains t where "bare (archive_dirs ps document binding) t" "\<And>f. mk f = f t"
  | D t e where "bare D t" "\<And>f. mk f = (Err e, t)" "\<exists>name. \<not> aio_create_dir io name"
proof -
  have names: "lit ''submissions'' \<noteq> lit ''governance''" "lit ''submissions'' \<noteq> lit ''transport''"
    "lit ''governance'' \<noteq> lit ''transport''" by (simp_all add: lit_def)
  let ?D1 = "if ps \<noteq> [] then insert [lit ''submissions''] {[]} else {[]}"
  let ?D2 = "if document \<noteq> None then insert [lit ''governance''] ?D1 else ?D1"
  have D: "(if binding \<noteq> None then insert [lit ''transport''] ?D2 else ?D2) = archive_dirs ps document binding"
    by (auto simp: archive_dirs_def)
  from bare_empty show thesis
  proof (rule make_directory_effect [of _ _ "''submissions''" io "ps \<noteq> []"])
    fix t1 assume t1: "make_directory io ''submissions'' (ps \<noteq> []) (DirNode True []) = (Ok (), t1)" "bare ?D1 t1"
    from t1(2) show thesis
    proof (rule make_directory_effect [of _ _ "''governance''" io "document \<noteq> None"])
      fix t2 assume t2: "make_directory io ''governance'' (document \<noteq> None) t1 = (Ok (), t2)" "bare ?D2 t2"
      from t2(2) show thesis
      proof (rule make_directory_effect [of _ _ "''transport''" io "binding \<noteq> None"])
        fix t3 assume "make_directory io ''transport'' (binding \<noteq> None) t2 = (Ok (), t3)"
          "bare (if binding \<noteq> None then insert [lit ''transport''] ?D2 else ?D2) t3"
        with t1 t2 D that(1) [of t3] show thesis by (simp add: mk_def io_then_def)
      next
        fix e assume "make_directory io ''transport'' (binding \<noteq> None) t2 = (Err e, t2)" "\<not> aio_create_dir io (lit ''transport'')"
        with t1 t2 that(2) [of ?D2 t2 e] show thesis by (auto simp: mk_def io_then_def)
      qed (use names in auto)
    next
      fix e assume "make_directory io ''governance'' (document \<noteq> None) t1 = (Err e, t1)" "\<not> aio_create_dir io (lit ''governance'')"
      with t1 that(2) [of ?D1 t1 e] show thesis by (auto simp: mk_def io_then_def)
    qed (use names in auto)
  next
    fix e assume "make_directory io ''submissions'' (ps \<noteq> []) (DirNode True []) = (Err e, DirNode True [])"
      "\<not> aio_create_dir io (lit ''submissions'')"
    with bare_empty that(2) [of "{[]}" "DirNode True []" e] show thesis by (auto simp: mk_def io_then_def)
  qed auto
qed

section \<open>The files\<close>

text \<open>The names of the files have a dot and do not end like a temporary name; those of directories have none.\<close>

definition file_name :: "rstring list \<Rightarrow> bool" where
  "file_name q \<longleftrightarrow> q \<noteq> [] \<and> DOT \<in> set (last q) \<and> last (last q) \<noteq> 0x70"

lemma tmp_path_last: "last (tmp_path q) = last q @ lit ''.tmp''"
  by (simp add: tmp_path_def)

lemma tmp_not_file_name: "\<not> file_name (tmp_path q)"
  by (simp add: file_name_def tmp_path_last lit_def)

lemma dirs_not_file_name:
  assumes "q \<in> archive_dirs ps document binding"
  shows "\<not> file_name q" "tmp_path p \<noteq> q"
proof -
  from assms consider "q = []" | "q \<noteq> []" "DOT \<notin> set (last q)"
    by (auto simp: archive_dirs_def DOT_def lit_def split: if_splits)
  note c = this
  show "\<not> file_name q" using c by cases (auto simp: file_name_def)
  show "tmp_path p \<noteq> q" using c tmp_path_last [of p] tmp_path_neq(2) [of p] by cases (auto simp: DOT_def lit_def)
qed

lemma content_paths:
  assumes "length ps \<le> 10 ^ 8" and "k \<in> set (map fst (archive_map mb cb rb ps document binding))"
  shows "file_name (path_components k) \<and> butlast (path_components k) \<in> archive_dirs ps document binding"
  using assms(2) unfolding archive_map_keys
proof (elim UnE)
  assume "k \<in> submission_archive_path ` {0..<length ps}"
  then obtain i where i: "k = submission_archive_path i" "i < length ps" by auto
  then have "path_components k = [lit ''submissions'', digits 8 i @ lit ''.cbor'']"
    using assms(1) by (simp add: submission_path_components)
  moreover have "ps \<noteq> []" using i(2) by auto
  ultimately show ?thesis by (simp add: file_name_def archive_dirs_def lit_def DOT_def)
qed (auto simp: file_name_def archive_dirs_def lit_def DOT_def ELECTION_MANIFEST_ARCHIVE_PATH_def
    CANDIDATE_SET_ARCHIVE_PATH_def VOTER_REGISTRY_ARCHIVE_PATH_def path_components_def SLASH_def
    GOVERNANCE_DOCUMENT_ARCHIVE_PATH_def TRANSPORT_ARCHIVE_BINDING_PATH_V1_def split: if_splits)

lemma content_path_names:
  assumes "length ps \<le> 10 ^ 8" and "q \<in> (path_components \<circ> fst) ` set (archive_map mb cb rb ps document binding)"
  shows "file_name q \<and> butlast q \<in> archive_dirs ps document binding"
proof -
  from assms(2) obtain k where "k \<in> set (map fst (archive_map mb cb rb ps document binding))" "q = path_components k" by auto
  with content_paths [OF assms(1)] show ?thesis by blast
qed

lemma content_writable:
  assumes "length ps \<le> 10 ^ 8" and "bare (archive_dirs ps document binding) t"
  shows "writable_files (map (path_components \<circ> fst) (archive_map mb cb rb ps document binding)) t"
proof -
  let ?m = "archive_map mb cb rb ps document binding"
  have "distinct (map fst ?m)" using archive_map_inv [of mb cb rb ps document binding] by (auto simp: bt_inv_def strictly_sorted_iff)
  then have "distinct (map (path_components \<circ> fst) ?m)"
    by (simp add: distinct_map inj_on_def path_components_inject)
  moreover have "p \<noteq> [] \<and> dir_at (butlast p) t \<and> free_at p t \<and> free_at (tmp_path p) t
      \<and> tmp_path p \<notin> (path_components \<circ> fst) ` set ?m" if p: "p \<in> (path_components \<circ> fst) ` set ?m" for p
  proof -
    note name = content_path_names [OF assms(1), THEN conjunct1]
    have "butlast p \<in> archive_dirs ps document binding" using content_path_names [OF assms(1) p] by simp
    moreover have "p \<notin> archive_dirs ps document binding" "tmp_path p \<notin> archive_dirs ps document binding"
      using name [OF p] dirs_not_file_name by blast+
    moreover have "tmp_path p \<notin> (path_components \<circ> fst) ` set ?m" using name tmp_not_file_name by blast
    ultimately show ?thesis using assms(2) name [OF p] by (simp add: bare_def free_at_def file_name_def)
  qed
  ultimately show ?thesis using assms(2) by (simp add: writable_files_def bare_def)
qed

text \<open>
  The tree after the writer: on success the files are those of the archive and its manifest, each with
  all its bytes; on failure there is no archive manifest.
\<close>

definition archive_tree :: "file_map \<Rightarrow> bytes \<Rightarrow> fs_node \<Rightarrow> bool" where
  "archive_tree files manifest_bytes t \<longleftrightarrow>
     good_tree t \<and> dir_at [] t
     \<and> (\<forall>q bs. file_at q t = Some bs \<longleftrightarrow>
          (q = [ARCHIVE_MANIFEST_CANONICAL_PATH] \<and> bs = manifest_bytes)
          \<or> (\<exists>path. q = path_components path \<and> (path, bs) \<in> set files))"

definition perfect_archive_io :: "archive_io \<Rightarrow> bool" where
  "perfect_archive_io io \<longleftrightarrow>
     aio_create_target io \<and> (\<forall>name. aio_create_dir io name) \<and> (\<forall>path. perfect_io (aio_file io path))"

lemma written_files_iff:
  assumes "bt_inv files" and "\<forall>(path, bs) \<in> set files. file_at (path_components path) t' = Some bs"
    and "same_except ((path_components \<circ> fst) ` set files) t t'" and "\<And>q. file_at q t = None"
  shows "file_at q t' = Some bs \<longleftrightarrow> (\<exists>path. q = path_components path \<and> (path, bs) \<in> set files)"
proof (cases "q \<in> (path_components \<circ> fst) ` set files")
  case True
  then obtain path b where pb: "q = path_components path" "(path, b) \<in> set files" by auto
  have "distinct (map fst files)" using assms(1) by (simp add: bt_inv_def strictly_sorted_iff)
  then have "(\<exists>path'. q = path_components path' \<and> (path', bs) \<in> set files) \<longleftrightarrow> bs = b"
    using pb path_components_inject by (metis eq_key_imp_eq_value)
  moreover have "file_at q t' = Some b" using assms(2) pb by auto
  ultimately show ?thesis by auto
next
  case False
  then have "\<nexists>path. q = path_components path \<and> (path, bs) \<in> set files" by force
  moreover have "file_at q t' = None" using assms(3, 4) False by (simp add: same_except_def)
  ultimately show ?thesis by simp
qed

text \<open>The files and then the manifest, written below the directories.\<close>

lemma write_content_effect:
  assumes inv: "bt_inv files" and t: "bare D t" "[] \<in> D"
    and w: "writable_files (map (path_components \<circ> fst) files) t"
    and am: "writable_files [[ARCHIVE_MANIFEST_CANONICAL_PATH]] t" "[ARCHIVE_MANIFEST_CANONICAL_PATH] \<notin> (path_components \<circ> fst) ` set files"
      "tmp_path [ARCHIVE_MANIFEST_CANONICAL_PATH] \<notin> (path_components \<circ> fst) ` set files"
      "[ARCHIVE_MANIFEST_CANONICAL_PATH] \<notin> tmp_path ` (path_components \<circ> fst) ` set files"
    and emit: "io_then (write_files io files t)
       (write_file_atomic (aio_file io ARCHIVE_MANIFEST_CANONICAL_PATH) [ARCHIVE_MANIFEST_CANONICAL_PATH] mb) = (r, t')"
  shows "(r = Ok () \<and> archive_tree files mb t')
    \<or> (\<not> is_ok r \<and> \<not> perfect_archive_io io \<and> good_tree t' \<and> file_at [ARCHIVE_MANIFEST_CANONICAL_PATH] t' = None)"
proof -
  let ?am = "[ARCHIVE_MANIFEST_CANONICAL_PATH]" and ?ps = "(path_components \<circ> fst) ` set files"
  obtain r1 t1 where w1: "write_files io files t = (r1, t1)" by force
  from write_files_effect [OF w w1] show ?thesis
  proof (elim disjE conjE)
    assume ok: "r1 = Ok ()" "same_except ?ps t t1" "\<forall>(path, bs) \<in> set files. file_at (path_components path) t1 = Some bs"
    have good: "good_tree t1" "dir_at (butlast ?am) t1" "free_at ?am t1" "free_at (tmp_path ?am) t1"
      using ok(2) am t by (auto simp: same_except_def writable_files_def free_at_def bare_def)
    from emit w1 ok(1) have w2: "write_file_atomic (aio_file io ARCHIVE_MANIFEST_CANONICAL_PATH) ?am mb t1 = (r, t')"
      by (simp add: io_then_def)
    from write_file_atomic_effect [OF good(1) _ good(2) _ _ w2] good
    have "(r = Ok () \<and> same_except {?am} t1 t' \<and> file_at ?am t' = Some mb)
        \<or> (\<not> is_ok r \<and> \<not> perfect_io (aio_file io ARCHIVE_MANIFEST_CANONICAL_PATH) \<and> same_except {tmp_path ?am} t1 t')"
      by (simp add: free_at_lookup)
    then show ?thesis
    proof
      assume w3: "r = Ok () \<and> same_except {?am} t1 t' \<and> file_at ?am t' = Some mb"
      have "file_at q t' = Some bs \<longleftrightarrow> (q = ?am \<and> bs = mb) \<or> (\<exists>path. q = path_components path \<and> (path, bs) \<in> set files)" for q bs
      proof (cases "q = ?am")
        case True
        then have "\<nexists>path. q = path_components path \<and> (path, bs) \<in> set files" using am(2) by force
        with True w3 show ?thesis by auto
      next
        case False
        with w3 written_files_iff [OF inv ok(3, 2), of q bs] t(1) show ?thesis by (auto simp: same_except_def bare_def)
      qed
      moreover have "good_tree t'" "dir_at [] t'" using w3 good by (simp_all add: same_except_def)
      ultimately show ?thesis using w3 by (simp add: archive_tree_def)
    next
      assume "\<not> is_ok r \<and> \<not> perfect_io (aio_file io ARCHIVE_MANIFEST_CANONICAL_PATH) \<and> same_except {tmp_path ?am} t1 t'"
      moreover have "?am \<noteq> tmp_path ?am" using tmp_path_neq(1) [of ?am] by (metis list.distinct(1))
      ultimately show ?thesis using good(3) by (auto simp: same_except_def free_at_def perfect_archive_io_def)
    qed
  next
    assume err: "\<not> is_ok r1" "\<exists>(path, bs) \<in> set files. \<not> perfect_io (aio_file io path)"
      "same_except (?ps \<union> tmp_path ` ?ps) t t1"
    then obtain e where "r1 = Err e" by (cases r1) (auto simp: is_ok_def)
    with emit w1 have "r = Err e" "t' = t1" by (simp_all add: io_then_def)
    moreover have "?am \<notin> ?ps \<union> tmp_path ` ?ps" using am(2, 4) by (simp del: o_apply image_comp)
    then have "good_tree t1" "file_at ?am t1 = None"
      using err(3) t(1) by (simp_all add: same_except_def bare_def del: o_apply image_comp)
    ultimately show ?thesis using err(2) by (auto simp: is_ok_def perfect_archive_io_def)
  qed
qed

lemma emit_archive_effect:
  assumes files: "as_files a = archive_map mb cb rb (gs_packages s) document binding"
    and len: "length (gs_packages s) \<le> 10 ^ 8" and tb: "binding \<noteq> None \<longleftrightarrow> tb \<noteq> None"
    and scope: "ARCHIVE_MANIFEST_CANONICAL_PATH \<notin> set (map fst (as_files a))"
    and emit: "emit_archive io s document tb a (DirNode True []) = (r, t')"
  shows "(r = Ok () \<and> archive_tree (as_files a) (as_manifest_bytes a) t')
    \<or> (\<not> is_ok r \<and> \<not> perfect_archive_io io \<and> good_tree t' \<and> file_at [ARCHIVE_MANIFEST_CANONICAL_PATH] t' = None)"
proof -
  let ?am = "[ARCHIVE_MANIFEST_CANONICAL_PATH]" and ?ps = "(path_components \<circ> fst) ` set (as_files a)"
    and ?D = "archive_dirs (gs_packages s) document binding"
  have name: "file_name ?am" by (simp add: file_name_def ARCHIVE_MANIFEST_CANONICAL_PATH_def lit_def DOT_def)
  have names: "file_name q" if "q \<in> ?ps" for q using content_path_names [OF len] that unfolding files by blast
  have root: "[] \<in> ?D" by (simp add: archive_dirs_def)
  have apart: "?am \<notin> ?ps" "tmp_path ?am \<notin> ?ps" "?am \<notin> tmp_path ` ?ps"
  proof -
    show "?am \<notin> ?ps"
    proof
      assume "?am \<in> ?ps"
      then obtain k b where k: "(k, b) \<in> set (as_files a)" "?am = path_components k" by auto
      then have "k = ARCHIVE_MANIFEST_CANONICAL_PATH"
        using path_components_inject [of k ARCHIVE_MANIFEST_CANONICAL_PATH] by simp
      with k(1) scope show False by force
    qed
    show "tmp_path ?am \<notin> ?ps" using names tmp_not_file_name by metis
    show "?am \<notin> tmp_path ` ?ps" using name tmp_not_file_name by (metis imageE)
  qed
  show ?thesis
  proof (rule make_directories_effect [of "gs_packages s" document binding io])
    fix t assume t: "bare ?D t"
      and mk: "\<And>f. io_then (make_directory io ''submissions'' (gs_packages s \<noteq> []) (DirNode True [])) (\<lambda>t.
         io_then (make_directory io ''governance'' (document \<noteq> None) t) (\<lambda>t.
         io_then (make_directory io ''transport'' (binding \<noteq> None) t) f)) = (f t :: unit gresult \<times> fs_node)"
    have "?am \<notin> ?D" "tmp_path ?am \<notin> ?D" using dirs_not_file_name name by blast+
    then have am: "writable_files [?am] t"
      using t root tmp_path_neq(1) [of ?am] by (simp add: writable_files_def bare_def free_at_def)
    have "io_then (write_files io (as_files a) t)
       (write_file_atomic (aio_file io ARCHIVE_MANIFEST_CANONICAL_PATH) ?am (as_manifest_bytes a)) = (r, t')"
      using emit mk tb by (simp add: emit_archive_def)
    with t root am apart content_writable [OF len t, of mb cb rb] archive_map_inv show ?thesis
      unfolding files by (intro write_content_effect [of _ ?D t io _ r t'])
  next
    fix D t e assume "bare D t" "\<exists>name. \<not> aio_create_dir io name"
      and "\<And>f. io_then (make_directory io ''submissions'' (gs_packages s \<noteq> []) (DirNode True [])) (\<lambda>t.
         io_then (make_directory io ''governance'' (document \<noteq> None) t) (\<lambda>t.
         io_then (make_directory io ''transport'' (binding \<noteq> None) t) f)) = ((Err e, t) :: unit gresult \<times> fs_node)"
    with emit tb show ?thesis
      by (auto simp: emit_archive_def bare_def is_ok_def perfect_archive_io_def)
  qed
qed

section \<open>The archive on disk\<close>

definition file_limit :: "rstring \<Rightarrow> nat" where
  "file_limit path =
     (if path = GOVERNANCE_DOCUMENT_ARCHIVE_PATH then MAX_GOVERNANCE_DOCUMENT_BYTES else MAX_CANONICAL_OBJECT_BYTES)"

lemma read_archive_file:
  assumes "archive_tree files mb t" and "(path, bs) \<in> set files" and "length bs \<le> file_limit path"
  shows "read_bounded_archive_file t path = Ok bs"
  using assms read_limited_file_at [of t] unfolding read_bounded_archive_file_def archive_tree_def file_limit_def
  by (auto simp: path_components_def)

lemma archive_tree_listed:
  assumes tree: "archive_tree files mb t" and scope: "\<forall>path \<in> set (map fst files). \<not> excluded_path path"
  shows "listed (tree_files [] t) = set (map fst files)"
proof -
  have t: "good_tree t" and at: "\<And>q bs. file_at q t = Some bs \<longleftrightarrow> (q = [ARCHIVE_MANIFEST_CANONICAL_PATH] \<and> bs = mb)
      \<or> (\<exists>path. q = path_components path \<and> (path, bs) \<in> set files)"
    using tree unfolding archive_tree_def by blast+
  have "q \<in> tree_files [] t \<longleftrightarrow> q = [ARCHIVE_MANIFEST_CANONICAL_PATH] \<or> q \<in> path_components ` fst ` set files" for q
  proof -
    have "q \<in> tree_files [] t \<longleftrightarrow> (\<exists>bs. file_at q t = Some bs)"
      using tree_files_file_at [OF t, of q "[]"] by auto
    also have "\<dots> \<longleftrightarrow> q = [ARCHIVE_MANIFEST_CANONICAL_PATH] \<or> (\<exists>path bs. q = path_components path \<and> (path, bs) \<in> set files)"
      unfolding at by blast
    also have "(\<exists>path bs. q = path_components path \<and> (path, bs) \<in> set files) \<longleftrightarrow> q \<in> path_components ` fst ` set files"
      by (auto simp: image_iff Bex_def)
    finally show ?thesis .
  qed
  then have "tree_files [] t = insert [ARCHIVE_MANIFEST_CANONICAL_PATH] (path_components ` fst ` set files)" by blast
  moreover have "excluded_path ARCHIVE_MANIFEST_CANONICAL_PATH" by (simp add: excluded_path_def)
  moreover have "join_path [ARCHIVE_MANIFEST_CANONICAL_PATH] = ARCHIVE_MANIFEST_CANONICAL_PATH" by simp
  moreover have "listed (path_components ` fst ` set files) = fst ` set files"
    using scope by (force simp: listed_def image_image join_path_components)
  ultimately show ?thesis by simp
qed

lemma archive_tree_identity:
  assumes a: "assembled_from blake3 h finality a" and tree: "archive_tree (as_files a) (as_manifest_bytes a) t"
    and bound: "\<forall>(path, bs) \<in> set (as_files a). length bs \<le> file_limit path"
  shows "archive_identity blake3 t (as_manifest a) \<and> archive_files t (as_manifest a) = as_files a"
proof -
  let ?m = "as_manifest a" and ?p = "Blake3HashProviderV1 blake3"
  have wf: "wf_archive_manifest ?m" and es: "fc_entries (am_files ?m) = map (catalog_entry blake3) (as_files a)"
    and alg: "am_hash_algorithm_id ?m = BLAKE3_256_HASH_ALGORITHM_ID_V1"
    and enc: "archive_manifest_to_canonical_cbor ?m = Ok (as_manifest_bytes a)"
    using a by (auto simp: assembled_from_def)
  have t: "good_tree t" "dir_at [] t" and am: "file_at [ARCHIVE_MANIFEST_CANONICAL_PATH] t = Some (as_manifest_bytes a)"
    using tree unfolding archive_tree_def by blast+
  have dir: "is_dir t" using t(2) by (auto simp: dir_at_def is_dir_def)
  have "length (as_manifest_bytes a) \<le> MAX_CANONICAL_OBJECT_BYTES"
    using enc wf by (auto simp: archive_manifest_to_canonical_cbor_eq split: if_splits)
  then have manifest: "read_bounded [ARCHIVE_MANIFEST_CANONICAL_PATH] t = Ok (as_manifest_bytes a)"
    using am read_limited_file_at [OF t(1)] by (simp add: read_bounded_def)
  have decode: "archive_manifest_from_canonical_cbor (as_manifest_bytes a) = Ok ?m"
    using archive_manifest_codec.decode_encode [OF wf enc] .
  have "\<not> excluded_path (entry_path e)" if "e \<in> set (fc_entries (am_files ?m))" for e
    using wf that by (auto simp: wf_archive_manifest_def catalog_in_scope_def excluded_path_def entry_path_def)
  then have scope: "\<forall>path \<in> set (map fst (as_files a)). \<not> excluded_path path" using es by force
  have read: "read_bounded_archive_file t (fst f) = Ok (snd f)" if "f \<in> set (as_files a)" for f
    using read_archive_file [OF tree, of "fst f" "snd f"] bound that by auto
  have disk: "entry_on_disk ?p t e" if "e \<in> set (fc_entries (am_files ?m))" for e
    using that es read by (auto simp: entry_on_disk_def) (simp add: catalog_entry_def entry_for_bytes_def)
  have "entry_path ` set (fc_entries (am_files ?m)) = set (map fst (as_files a))"
    unfolding es by (auto simp: image_image)
  then have "archive_identity blake3 t ?m"
    using dir good_tree_listable [OF t(1)] manifest decode alg disk archive_tree_listed [OF tree scope]
    unfolding archive_identity_def by simp
  moreover have "archive_files t ?m = as_files a"
    unfolding archive_files_def es using read by (simp add: file_content_def comp_def) (rule map_idI, simp)
  ultimately show ?thesis by blast
qed

section \<open>The replay of an archived session\<close>

text \<open>The replay session of the archive crate that an organizer's session corresponds to.\<close>

definition archive_artifacts :: "gui_election_artifacts_v1 \<Rightarrow> archive_election_artifacts_v1" where
  "archive_artifacts a =
     \<lparr>ea_manifest = ga_manifest a, ea_registry = ga_registry a, ea_candidates = ga_candidates a,
      ea_manifest_hash = ga_manifest_hash a, ea_registry_commitment = ga_registry_commitment a\<rparr>"

definition archive_session :: "gui_election_session_v1 \<Rightarrow> archive_replay_session_v1" where
  "archive_session s =
     \<lparr>ss_artifacts = archive_artifacts (gs_artifacts s), ss_verifier = gs_verifier s, ss_lifecycle = gs_lifecycle s,
      ss_ledger = gs_ledger s, ss_transcript = gs_transcript s\<rparr>"

lemma artifacts_archive:
  assumes "gui_artifacts_from_bytes nfc blake3 mb rb cb = Ok a"
  shows "artifacts_from_bytes nfc blake3 mb rb cb = Ok (archive_artifacts a)"
  using assms by (auto simp: gui_artifacts_from_bytes_def artifacts_from_bytes_def archive_artifacts_def Let_def result_inv
      split: if_splits)

lemma session_new_archive:
  "gui_session_new c blake3 a = Ok s \<Longrightarrow> session_new c blake3 (archive_artifacts a) = Ok (archive_session s)"
  by (auto simp: gui_session_new_def session_new_def archive_session_def archive_artifacts_def result_inv)

lemma session_open_archive: "gui_open s = Ok s' \<Longrightarrow> session_open (archive_session s) = Ok (archive_session s')"
  by (auto simp: gui_open_def lifecycle_op_def session_open_def archive_session_def result_inv)

lemma intake_archive:
  assumes "intake_ballot_package_bytes L blake3 bs s = Ok (r, s')"
  shows "intake_ballot L blake3 bs (archive_session s) = Ok (archive_session s')"
proof -
  have "process_intake_package_with_digest L blake3 bs (package_digest blake3 bs) s = Ok (r, s')"
    using intake_process [OF assms] by simp
  then show ?thesis
    by (cases "ingest_approval_ballot_package_v1 bs (ga_manifest (gs_artifacts s)) (ga_candidates (gs_artifacts s))
          (gs_lifecycle s) (Blake3HashProviderV1 blake3) (TariTriptychPrototypeVerifierV1 L (gs_verifier s)) (gs_ledger s)")
      (auto simp: process_intake_package_with_digest_def intake_ballot_def archive_session_def archive_artifacts_def
        conclude_intake_def record_private_intake_digest_index_entry_def Let_def result_inv split: option.splits)
qed

lemma intake_all_archive:
  "intake_all L blake3 ps s = Ok s' \<Longrightarrow>
     replay_serial_for_test L blake3 ps (archive_session s) = Ok (archive_session s')"
proof (induction ps arbitrary: s)
  case (Cons p ps)
  then obtain r s1 where "intake_ballot_package_bytes L blake3 p s = Ok (r, s1)" "intake_all L blake3 ps s1 = Ok s'"
    by (auto simp: result_inv)
  with Cons.IH intake_archive show ?case by fastforce
qed simp

text \<open>Replaying the packages of a session the archive's way gives its ledger and its transcript.\<close>

lemma session_archive_replay:
  assumes "gui_reachable L nfc blake3 s"
  obtains s0 s1 z where "session_new (tl_dalek_v4 L) blake3 (archive_artifacts (gs_artifacts s)) = Ok s0" "session_open s0 = Ok s1"
    "replay_serial_for_test L blake3 (gs_packages s) s1 = Ok z"
    "ss_artifacts z = archive_artifacts (gs_artifacts s)" "ss_ledger z = gs_ledger s" "ss_transcript z = gs_transcript s"
  using gui_reachable_replays [OF assms]
proof (cases rule: replays_cases)
  case (frozen g0 c)
  have g0: "gs_packages g0 = []" "lc_state (gs_lifecycle g0) = Frozen" using gui_session_new_Ok [OF frozen(1)] by simp_all
  note open0 = session_open_archive [OF gui_open_frozen [OF g0(2)]]
  have "gs_packages s = []" using g0(1) by (subst frozen(3)) simp
  moreover have "gs_ledger s = gs_ledger g0" "gs_transcript s = gs_transcript g0" by (subst frozen(3), simp)+
  moreover have "gs_artifacts g0 = gs_artifacts s" using gui_session_new_Ok [OF frozen(1)] by simp
  ultimately show thesis
    using that [OF session_new_archive [OF frozen(1)] open0] by (simp add: archive_session_def)
next
  case (running g0 g1 g2 st c)
  have "gs_artifacts g2 = gs_artifacts s" "gs_ledger g2 = gs_ledger s" "gs_transcript g2 = gs_transcript s"
    by (subst running(7), simp)+
  with that [OF session_new_archive [OF running(1)] session_open_archive [OF running(2)] intake_all_archive [OF running(3)]]
  show thesis by (simp add: archive_session_def)
qed

section \<open>The stages of the verifier on a written archive\<close>

lemma stage_keeps_hash:
  "stage_artifacts nfc blake3 m files r = Ok (r', a) \<Longrightarrow> dv_archive_hash_hex r' = dv_archive_hash_hex r"
  "stage_transport blake3 files a r = Ok r' \<Longrightarrow> dv_archive_hash_hex r' = dv_archive_hash_hex r"
  "stage_governance m a r = Ok r' \<Longrightarrow> dv_archive_hash_hex r' = dv_archive_hash_hex r"
  "stage_replay c blake3 m files a replay r = Ok (r', s) \<Longrightarrow> dv_archive_hash_hex r' = dv_archive_hash_hex r"
  by (auto simp: stage_artifacts_def record_artifacts_def stage_transport_def stage_governance_def stage_replay_def
      Let_def result_inv split: if_splits option.splits)

lemma stage_archive_hash_match:
  assumes "archive_identity blake3 t m" and "archive_manifest_canonical_hash (Blake3HashProviderV1 blake3) m = Ok h"
    and "am_election_manifest_hash m = mh"
  shows "\<exists>rep. stage_archive_hash blake3 \<lparr>ei_archive_hash = h, ei_archive_manifest = m, ei_files = archive_files t m,
        ei_result = r0\<rparr> mh r = Ok rep
    \<and> dv_verified rep \<and> dv_finalized rep = is_finalized_archive_manifest m \<and> dv_archive_hash_hex rep = dv_archive_hash_hex r
    \<and> dv_accepted_count rep = dv_accepted_count r \<and> dv_rejected_count rep = dv_rejected_count r
    \<and> dv_tally rep = dv_tally r"
proof -
  have "m\<lparr>am_election_manifest_hash := mh\<rparr> = m" using assms(3) by auto
  with rebuild_manifest_eq [OF assms(1), of mh] assms(2) show ?thesis by (simp add: stage_archive_hash_def)
qed

lemma assembled_paths:
  assumes "assembled_from blake3 h finality a"
  shows "catalog_paths (as_manifest a) = map fst (as_files a)"
  using assms catalog_paths_eq [of "as_manifest a"] by (auto simp: assembled_from_def comp_def)

lemma archive_map_bytes [simp]:
  "file_bytes (archive_map mb cb rb ps document binding) ELECTION_MANIFEST_ARCHIVE_PATH = mb"
  "file_bytes (archive_map mb cb rb ps document binding) CANDIDATE_SET_ARCHIVE_PATH = cb"
  "file_bytes (archive_map mb cb rb ps document binding) VOTER_REGISTRY_ARCHIVE_PATH = rb"
  by (simp_all add: file_bytes_def archive_map_get)

lemma written_stage_artifacts:
  assumes a: "assembled_from blake3 h finality a" "as_files a = archive_map mb cb rb ps document binding"
    and art: "artifacts_from nfc blake3 g mb rb cb"
  shows "stage_artifacts nfc blake3 (as_manifest a) (as_files a) r =
    Ok (record_artifacts (archive_artifacts g) r, archive_artifacts g)"
proof -
  have "\<forall>p \<in> set [ELECTION_MANIFEST_ARCHIVE_PATH, VOTER_REGISTRY_ARCHIVE_PATH, CANDIDATE_SET_ARCHIVE_PATH].
      p \<in> set (catalog_paths (as_manifest a))"
    unfolding assembled_paths [OF a(1)] a(2) archive_map_keys by simp
  moreover have "artifacts_from_bytes nfc blake3 mb rb cb = Ok (archive_artifacts g)"
    using art artifacts_archive by (simp add: artifacts_from_def)
  ultimately show ?thesis unfolding a(2) by (simp add: stage_artifacts_def list_ex_iff)
qed

lemma written_stage_transport:
  assumes "binding_file blake3 g tb binding"
  shows "\<exists>r'. stage_transport blake3 (archive_map mb cb rb ps document binding) (archive_artifacts g) r = Ok r'"
  using assms by (cases tb) (auto simp: binding_file_def stage_transport_def archive_map_get archive_artifacts_def Let_def)

lemma find_document_entry:
  assumes "assembled_from blake3 h finality a" and "as_files a = archive_map mb cb rb ps (Some doc) binding"
  shows "\<exists>e. find (\<lambda>e. entry_path e = GOVERNANCE_DOCUMENT_ARCHIVE_PATH) (fc_entries (am_files (as_manifest a))) = Some e
    \<and> archive_file_digest_bytes (fe_digest e) = governance_document_digest_for_bytes blake3 doc"
proof -
  let ?es = "fc_entries (am_files (as_manifest a))"
  have es: "?es = map (catalog_entry blake3) (as_files a)" using assms(1) by (simp add: assembled_from_def)
  have d: "distinct (map fst (as_files a))"
    unfolding assms(2) using archive_map_inv by (auto simp: bt_inv_def strictly_sorted_iff)
  have doc: "(GOVERNANCE_DOCUMENT_ARCHIVE_PATH, doc) \<in> set (as_files a)"
    using archive_map_get(4) [of mb cb rb ps "Some doc" binding] unfolding assms(2) bt_get_def by (rule map_of_SomeD)
  then have "\<exists>e \<in> set ?es. entry_path e = GOVERNANCE_DOCUMENT_ARCHIVE_PATH"
    unfolding es by (auto intro!: bexI [of _ "(GOVERNANCE_DOCUMENT_ARCHIVE_PATH, doc)"])
  then obtain e where e: "find (\<lambda>e. entry_path e = GOVERNANCE_DOCUMENT_ARCHIVE_PATH) ?es = Some e"
    by (cases "find (\<lambda>e. entry_path e = GOVERNANCE_DOCUMENT_ARCHIVE_PATH) ?es") (auto simp: find_None_iff)
  then have "e \<in> set ?es" "entry_path e = GOVERNANCE_DOCUMENT_ARCHIVE_PATH" by (auto simp: find_Some_iff)
  then obtain f where "f \<in> set (as_files a)" "e = catalog_entry blake3 f" "fst f = GOVERNANCE_DOCUMENT_ARCHIVE_PATH"
    unfolding es by auto
  with d doc have "e = catalog_entry blake3 (GOVERNANCE_DOCUMENT_ARCHIVE_PATH, doc)"
    by (metis eq_key_imp_eq_value prod.collapse)
  with e show ?thesis
    by (simp add: catalog_entry_def entry_for_bytes_def digest_for_bytes_def governance_document_digest_for_bytes_def)
qed

text \<open>
  The gate of the writer and the stage of the verifier agree, provided that a content pin comes with its
  document.
\<close>

lemma written_stage_governance:
  assumes a: "assembled_from blake3 h finality a" "as_files a = archive_map mb cb rb ps document binding"
    and gate: "governance_gate blake3 g document = Ok ()"
    and pin: "is_content_digest (validate_governance_source_pin (manifest_governance_source_revision (ga_manifest g)))
      \<Longrightarrow> document \<noteq> None"
  shows "\<exists>r'. stage_governance (as_manifest a) (archive_artifacts g) r = Ok r'"
proof -
  let ?r = "manifest_governance_source_revision (ga_manifest g)"
  show ?thesis
  proof (cases "is_content_digest (validate_governance_source_pin ?r)")
    case True
    from pin [OF True] obtain doc where doc: "document = Some doc" by blast
    from content_digest_hex [OF True] obtain hex where hex: "gp_digest_hex (validate_governance_source_pin ?r) = Some hex" by blast
    have "to_lower_hex (governance_document_digest_for_bytes blake3 doc) = hex"
      using gate doc True hex gui_pin_archive_pin [of ?r] gui_content_digest [of ?r]
      by (auto simp: governance_gate_def Let_def split: if_splits)
    with find_document_entry [OF a(1) a(2) [unfolded doc]] True hex show ?thesis
      by (auto simp: stage_governance_def archive_artifacts_def Let_def)
  qed (auto simp: stage_governance_def archive_artifacts_def Let_def)
qed

lemma written_submissions:
  assumes "assembled_from blake3 h finality a" and "as_files a = archive_map mb cb rb ps document binding"
  shows "map (file_bytes (as_files a)) (submission_paths (as_manifest a)) = ps"
proof -
  have n: "length ps \<le> 10 ^ 8" using assembled_package_count [OF assms] by (simp add: limits_def)
  have "submission_paths (as_manifest a) = map submission_archive_path [0..<length ps]"
    unfolding submission_paths_def assembled_paths [OF assms(1)] assms(2) is_submission_def [symmetric]
    by (rule archive_map_submissions [OF n])
  then show ?thesis
    using archive_map_get(6) [OF n] unfolding assms(2)
    by (auto simp: file_bytes_def intro!: nth_equalityI)
qed

section \<open>A written archive verifies\<close>

lemma written_stage_replay:
  assumes sound: "triptych_batch_sound L" and reach: "gui_reachable L nfc blake3 s"
    and a: "assembled_from blake3 h finality a" "as_files a = archive_map mb cb rb (gs_packages s) document binding"
  shows "\<exists>r' z t. stage_replay (tl_dalek_v4 L) blake3 (as_manifest a) (as_files a) (archive_artifacts (gs_artifacts s))
      (\<lambda>session packages. replay_batched L blake3 packages session) r = Ok (r', z)
    \<and> ea_manifest_hash (ss_artifacts z) = ga_manifest_hash (gs_artifacts s)
    \<and> dv_accepted_count r' = accepted_count (gs_transcript s) \<and> dv_rejected_count r' = rejected_count (gs_transcript s)
    \<and> gui_direct_tally s = Ok t \<and> dv_tally r' = Some (summarize_tally t (ga_candidates (gs_artifacts s)))"
proof -
  from session_archive_replay [OF reach] obtain s0 s1 z where
    z: "session_new (tl_dalek_v4 L) blake3 (archive_artifacts (gs_artifacts s)) = Ok s0" "session_open s0 = Ok s1"
    "replay_serial_for_test L blake3 (gs_packages s) s1 = Ok z"
    "ss_artifacts z = archive_artifacts (gs_artifacts s)" "ss_ledger z = gs_ledger s" "ss_transcript z = gs_transcript s" .
  have "length (gs_packages s) < 2 ^ 64" using assembled_package_count [OF a] by (simp add: limits_def)
  from reachable_direct_tally [OF reach this] obtain t where
    t: "tally_from_ballots (ga_candidates (gs_artifacts s)) (map ab_payload (bl_accepted_ballots (gs_ledger s))) = Ok t" by blast
  have "validate_complete (gs_transcript s) = Ok ()"
    using gui_reachable_inv [OF reach] validate_complete_iff [of "gs_transcript s"]
    by (simp add: gui_inv_def next_undecided_submission_def)
  then show ?thesis
    using z t written_submissions [OF a]
    by (simp add: stage_replay_def replay_batched_serial [OF sound] direct_tally_def gui_direct_tally_def
        archive_artifacts_def)
qed

lemma assembled_archive_verifies:
  assumes sound: "triptych_batch_sound L" and reach: "gui_reachable L nfc blake3 s"
    and asm: "assemble_archive blake3 s document tb finality = Ok a"
    and tree: "archive_tree (as_files a) (as_manifest_bytes a) t"
    and bound: "\<forall>(path, bs) \<in> set (as_files a). length bs \<le> file_limit path"
    and pin: "is_content_digest (validate_governance_source_pin
        (manifest_governance_source_revision (ga_manifest (gs_artifacts s)))) \<Longrightarrow> document \<noteq> None"
  shows "\<exists>rep tally. verify_archive_directory_v1 L nfc blake3 (Ok t) = Ok rep \<and> dv_verified rep
    \<and> dv_finalized rep = (finality = FinalizedMode)
    \<and> dv_archive_hash_hex rep = Some (to_lower_hex (archive_hash_bytes (as_hash a)))
    \<and> dv_accepted_count rep = accepted_count (gs_transcript s) \<and> dv_rejected_count rep = rejected_count (gs_transcript s)
    \<and> gui_direct_tally s = Ok tally \<and> dv_tally rep = Some (summarize_tally tally (ga_candidates (gs_artifacts s)))"
proof -
  let ?m = "as_manifest a" and ?g = "archive_artifacts (gs_artifacts s)" and ?r0 = "established_report (as_manifest a) (as_hash a)"
  from gui_reachable_artifacts [OF reach] obtain mb rb cb where art: "artifacts_from nfc blake3 (gs_artifacts s) mb rb cb" by blast
  from assemble_Ok [OF asm art] obtain bf where files: "as_files a = archive_map mb cb rb (gs_packages s) document bf"
    and bf: "binding_file blake3 (gs_artifacts s) tb bf" and gate: "governance_gate blake3 (gs_artifacts s) document = Ok ()"
    and a: "assembled_from blake3 (ga_manifest_hash (gs_artifacts s)) finality a" by blast
  have id: "archive_identity blake3 t ?m" and af: "archive_files t ?m = as_files a"
    using archive_tree_identity [OF a tree bound] by blast+
  have hash: "archive_manifest_canonical_hash (Blake3HashProviderV1 blake3) ?m = Ok (as_hash a)"
    and mh: "am_election_manifest_hash ?m = ga_manifest_hash (gs_artifacts s)"
    and fin: "is_finalized_archive_manifest ?m = (finality = FinalizedMode)" using a by (simp_all add: assembled_from_def)
  let ?ei = "\<lparr>ei_archive_hash = as_hash a, ei_archive_manifest = ?m, ei_files = archive_files t ?m, ei_result = ?r0\<rparr>"
  have s1: "stage_artifacts nfc blake3 ?m (as_files a) ?r0 = Ok (record_artifacts ?g ?r0, ?g)"
    by (rule written_stage_artifacts [OF a files art])
  from written_stage_transport [OF bf] obtain r2 where
    s2: "stage_transport blake3 (as_files a) ?g (record_artifacts ?g ?r0) = Ok r2" unfolding files by blast
  from written_stage_governance [OF a files gate pin] obtain r3 where s3: "stage_governance ?m ?g r2 = Ok r3" by blast
  from written_stage_replay [OF sound reach a files] obtain r4 z tally where
    s4: "stage_replay (tl_dalek_v4 L) blake3 ?m (as_files a) ?g (\<lambda>session packages. replay_batched L blake3 packages session) r3 = Ok (r4, z)"
    and z: "ea_manifest_hash (ss_artifacts z) = ga_manifest_hash (gs_artifacts s)"
      "dv_accepted_count r4 = accepted_count (gs_transcript s)" "dv_rejected_count r4 = rejected_count (gs_transcript s)"
      "gui_direct_tally s = Ok tally" "dv_tally r4 = Some (summarize_tally tally (ga_candidates (gs_artifacts s)))" by blast
  have "dv_archive_hash_hex r4 = Some (to_lower_hex (archive_hash_bytes (as_hash a)))"
    using stage_keeps_hash(1) [OF s1] stage_keeps_hash(2) [OF s2] stage_keeps_hash(3) [OF s3] stage_keeps_hash(4) [OF s4]
    by (simp add: established_report_def)
  moreover have "verify_archive_directory_v1 L nfc blake3 (Ok t) = stage_archive_hash blake3 ?ei (ga_manifest_hash (gs_artifacts s)) r4"
    using s1 s2 s3 s4 z(1) establish_complete [OF id hash]
    by (simp add: verify_archive_directory_v1_def finish_verification_def finish_verification_replaying_def af Let_def)
  ultimately show ?thesis using stage_archive_hash_match [OF id hash mh, of ?r0 r4] z fin by auto
qed

section \<open>Outcomes of a write\<close>

definition target_free :: "(fs_node, io_error) result \<Rightarrow> bool" where
  "target_free root \<longleftrightarrow> root = Err NotFound \<or> root = Ok (DirNode True [])"

lemma prepare_target_Ok: "prepare_target_directory c root = Ok t \<Longrightarrow> t = DirNode True [] \<and> target_free root"
  by (auto simp: prepare_target_directory_def target_free_def split: result.splits fs_node.splits io_error.splits if_splits)

lemma prepare_target_free: "target_free root \<Longrightarrow> prepare_target_directory True root = Ok (DirNode True [])"
  by (auto simp: prepare_target_directory_def target_free_def)

text \<open>What the emission of an assembled archive of a reachable session leaves.\<close>

lemma emit_assembled:
  assumes reach: "gui_reachable L nfc blake3 s" and asm: "assemble_archive blake3 s document tb finality = Ok a"
    and emit: "emit_archive io s document tb a (DirNode True []) = (r, t)"
  shows "(r = Ok () \<and> archive_tree (as_files a) (as_manifest_bytes a) t)
    \<or> (\<not> is_ok r \<and> \<not> perfect_archive_io io \<and> good_tree t \<and> file_at [ARCHIVE_MANIFEST_CANONICAL_PATH] t = None)"
proof -
  from gui_reachable_artifacts [OF reach] obtain mb rb cb where art: "artifacts_from nfc blake3 (gs_artifacts s) mb rb cb" by blast
  from assemble_Ok [OF asm art] obtain bf where files: "as_files a = archive_map mb cb rb (gs_packages s) document bf"
    and bf: "binding_file blake3 (gs_artifacts s) tb bf"
    and a: "assembled_from blake3 (ga_manifest_hash (gs_artifacts s)) finality a" by blast
  have "length (gs_packages s) \<le> 10 ^ 8" using assembled_package_count [OF a files] by (simp add: limits_def)
  moreover have "bf \<noteq> None \<longleftrightarrow> tb \<noteq> None" using bf by (cases tb) (auto simp: binding_file_def)
  moreover have "catalog_in_scope (am_files (as_manifest a))"
    "fc_entries (am_files (as_manifest a)) = map (catalog_entry blake3) (as_files a)"
    using a by (simp_all add: assembled_from_def wf_archive_manifest_def)
  then have "\<forall>f \<in> set (as_files a). fst f \<noteq> ARCHIVE_MANIFEST_CANONICAL_PATH"
    by (simp add: catalog_in_scope_def catalog_entry_def entry_for_bytes_def)
  then have "ARCHIVE_MANIFEST_CANONICAL_PATH \<notin> set (map fst (as_files a))" by auto
  ultimately show ?thesis by (rule emit_archive_effect [OF files _ _ _ emit])
qed

lemma write_archive_cases:
  assumes "write_archive_directory_v1_with_optional_binding blake3 io dir s document tb finality root = (r, root')"
  obtains (refused) e where "r = Err e" "root' = root"
  | (unassembled) e where "r = Err e" "root' = Ok (DirNode True [])" "assemble_archive blake3 s document tb finality = Err e"
  | (emitted) a r1 t where "target_free root" "assemble_archive blake3 s document tb finality = Ok a"
      "emit_archive io s document tb a (DirNode True []) = (r1, t)" "root' = Ok t"
      "r = (case r1 of Ok _ \<Rightarrow> Ok (write_result dir s a) | Err e \<Rightarrow> Err e)"
proof (cases "finality = FinalizedMode \<and> lc_state (gs_lifecycle s) \<noteq> Finalized")
  case True
  with assms have "r = Err archive_not_finalized" "root' = root"
    by (auto simp: write_archive_directory_v1_with_optional_binding_def)
  then show thesis by (rule refused)
next
  case gate: False
  show thesis
  proof (cases "prepare_target_directory (aio_create_target io) root")
    case (Err e)
    with assms gate refused show thesis by (auto simp: write_archive_directory_v1_with_optional_binding_def)
  next
    case prep: (Ok t0)
    then have t0: "t0 = DirNode True []" "target_free root" using prepare_target_Ok by blast+
    show thesis
    proof (cases "assemble_archive blake3 s document tb finality")
      case (Err e)
      with assms gate prep t0 unassembled show thesis by (auto simp: write_archive_directory_v1_with_optional_binding_def)
    next
      case asm: (Ok a)
      obtain r1 t where emit: "emit_archive io s document tb a (DirNode True []) = (r1, t)" by force
      with assms gate prep t0(1) asm emitted [OF t0(2) asm emit] show thesis
        by (cases r1) (auto simp: write_archive_directory_v1_with_optional_binding_def)
    qed
  qed
qed

lemma write_archive_Ok:
  assumes reach: "gui_reachable L nfc blake3 s"
    and w: "write_archive_directory_v1_with_optional_binding blake3 io dir s document tb finality root = (Ok w, root')"
  shows "\<exists>a t. assemble_archive blake3 s document tb finality = Ok a \<and> root' = Ok t \<and> w = write_result dir s a
    \<and> archive_tree (as_files a) (as_manifest_bytes a) t \<and> target_free root"
  using w
proof (cases rule: write_archive_cases)
  case (emitted a r1 t)
  then have "r1 = Ok ()" "w = write_result dir s a" by (cases r1; simp)+
  with emitted emit_assembled [OF reach emitted(2, 3)] show ?thesis by (auto simp: is_ok_def)
qed simp_all

text \<open>Without an archive manifest there is nothing to verify.\<close>

lemma no_manifest_not_verified:
  assumes "good_tree t" and "file_at [ARCHIVE_MANIFEST_CANONICAL_PATH] t = None"
    and "verify_archive_directory_v1 L nfc blake3 (Ok t) = Ok rep"
  shows "\<not> dv_verified rep"
proof -
  have "read_bounded [ARCHIVE_MANIFEST_CANONICAL_PATH] t \<noteq> Ok bs" for bs
    using assms(1, 2) read_limited_file_at [OF assms(1)] by (simp add: read_bounded_def)
  then obtain e where "read_bounded [ARCHIVE_MANIFEST_CANONICAL_PATH] t = Err e"
    by (cases "read_bounded [ARCHIVE_MANIFEST_CANONICAL_PATH] t") auto
  with assms(3) show ?thesis
    by (auto simp: verify_archive_directory_v1_def establish_identity_and_catalog_def fail_def split: if_splits)
qed

lemma write_archive_Err:
  assumes reach: "gui_reachable L nfc blake3 s"
    and w: "write_archive_directory_v1_with_optional_binding blake3 io dir s document tb finality root = (Err e, root')"
    and ver: "verify_archive_directory_v1 L' nfc' blake3' root' = Ok rep"
  shows "root' = root \<or> \<not> dv_verified rep"
  using w
proof (cases rule: write_archive_cases)
  case (unassembled e')
  with no_manifest_not_verified [of "DirNode True []" L' nfc' blake3' rep] ver show ?thesis by simp
next
  case (emitted a r1 t)
  then have "\<not> is_ok r1" by (cases r1) (auto simp: is_ok_def)
  with emit_assembled [OF reach emitted(2, 3)] no_manifest_not_verified [of t L' nfc' blake3' rep] ver emitted(4) show ?thesis
    by (auto simp: is_ok_def)
qed simp

text \<open>When the file system does not fail, a free target and an archive that can be assembled are enough.\<close>

lemma write_archive_succeeds:
  assumes reach: "gui_reachable L nfc blake3 s" and io: "perfect_archive_io io" and free: "target_free root"
    and fin: "finality = FinalizedMode \<Longrightarrow> lc_state (gs_lifecycle s) = Finalized"
    and asm: "assemble_archive blake3 s document tb finality = Ok a"
  shows "\<exists>t. write_archive_directory_v1_with_optional_binding blake3 io dir s document tb finality root =
    (Ok (write_result dir s a), Ok t)"
proof -
  obtain r t where emit: "emit_archive io s document tb a (DirNode True []) = (r, t)" by force
  have "r = Ok ()" using emit_assembled [OF reach asm emit] io by blast
  with emit asm fin prepare_target_free [OF free] io show ?thesis
    by (auto simp: write_archive_directory_v1_with_optional_binding_def perfect_archive_io_def)
qed

end
