(* ===== verification/Writer_Capacity.thy ===== *)
theory Writer_Capacity
  imports Writer_Soundness
begin

text \<open>
  How many packages an archive can hold: the catalog lies in the archive manifest, whose canonical form
  is bounded, so the exact size of the manifest decides which sessions can be archived.
\<close>

section \<open>Sizes\<close>

lemma length_enc_len_exact:
  "n < 24 \<Longrightarrow> length (enc_len m n) = 1" "24 \<le> n \<Longrightarrow> n < 256 \<Longrightarrow> length (enc_len m n) = 2"
  "256 \<le> n \<Longrightarrow> n < 65536 \<Longrightarrow> length (enc_len m n) = 3"
  by (simp_all add: enc_len_def enc_arg_def encode_argument_def word_le_nat_alt word_less_nat_alt unat_of_nat)

definition entry_size :: "rstring \<Rightarrow> nat" where
  "entry_size path = 1 + (if length path < 24 then 1 else 2) + length path + 34"

lemma length_file_entry:
  assumes "length (archive_path_str (fe_path e)) < 256"
  shows "length (file_entry_enc e) = entry_size (archive_path_str (fe_path e))"
  using assms length_enc_len_exact(1, 2) [of "length (archive_path_str (fe_path e))" MAJOR_TEXT_STRING]
  by (simp add: file_entry_enc_def archive_consts enc_text_def enc_bytes_def length_enc_len_exact entry_size_def)

lemma submission_path_length: "i < 10 ^ 8 \<Longrightarrow> length (submission_archive_path i) = 25"
  by (simp add: submission_path_digits SUBMISSIONS_ARCHIVE_DIR_def lit_def)

lemma fixed_path_length:
  "length ELECTION_MANIFEST_ARCHIVE_PATH = 22" "length CANDIDATE_SET_ARCHIVE_PATH = 18" "length VOTER_REGISTRY_ARCHIVE_PATH = 19"
  by (simp_all add: archive_path_defs lit_def)

text \<open>The catalog of a session without document and binding.\<close>

lemma plain_map_size:
  assumes "length ps \<le> 10 ^ 8"
  shows "length (archive_map mb cb rb ps None None) = length ps + 3"
    and "sum_list (map (entry_size \<circ> fst) (archive_map mb cb rb ps None None)) = 167 + 62 * length ps"
proof -
  let ?ks = "map fst (archive_map mb cb rb ps None None)"
    and ?F = "{ELECTION_MANIFEST_ARCHIVE_PATH, CANDIDATE_SET_ARCHIVE_PATH, VOTER_REGISTRY_ARCHIVE_PATH}"
    and ?S = "submission_archive_path ` {0..<length ps}"
  have d: "distinct ?ks" using archive_map_inv by (auto simp: bt_inv_def strictly_sorted_iff)
  have ks: "set ?ks = ?F \<union> ?S" unfolding archive_map_keys by simp
  have disj: "?F \<inter> ?S = {}" by auto
  have F: "distinct [ELECTION_MANIFEST_ARCHIVE_PATH, CANDIDATE_SET_ARCHIVE_PATH, VOTER_REGISTRY_ARCHIVE_PATH]"
    using fixed_paths_distinct by (simp del: fixed_paths_distinct)
  have inj: "inj_on submission_archive_path {0..<length ps}"
    using assms by (auto simp: inj_on_def submission_path_inject)
  have "card (set ?ks) = card ?F + card ?S" unfolding ks by (intro card_Un_disjoint disj) simp_all
  also have "card ?F = 3" using F by simp
  also have "card ?S = length ps" using inj by (simp add: card_image)
  finally show "length (archive_map mb cb rb ps None None) = length ps + 3"
    using distinct_card [OF d] by simp
  have "sum_list (map entry_size ?ks) = sum entry_size (set ?ks)" by (rule sum_list_distinct_conv_sum_set [OF d])
  also have "\<dots> = sum entry_size ?F + sum entry_size ?S" unfolding ks by (intro sum.union_disjoint disj) simp_all
  also have "sum entry_size ?F = 167" using F by (simp add: entry_size_def fixed_path_length)
  also have "sum entry_size ?S = (\<Sum>i = 0..<length ps. entry_size (submission_archive_path i))"
    using inj by (simp add: sum.reindex)
  also have "\<dots> = (\<Sum>i = 0..<length ps. 62)"
    using assms by (intro sum.cong) (simp_all add: entry_size_def submission_path_length)
  finally show "sum_list (map (entry_size \<circ> fst) (archive_map mb cb rb ps None None)) = 167 + 62 * length ps"
    by (simp add: comp_def)
qed

definition manifest_size :: "archive_finality_mode \<Rightarrow> nat \<Rightarrow> nat" where
  "manifest_size finality n =
     (case finality of Legacy \<Rightarrow> 241 | FinalizedMode \<Rightarrow> 251) + length (enc_len MAJOR_ARRAY (n + 3)) + 62 * n"

lemma length_plain_manifest:
  assumes n: "length ps \<le> 10 ^ 8"
    and m: "m = \<lparr>am_version = (case finality of Legacy \<Rightarrow> 1 | FinalizedMode \<Rightarrow> 2), am_election_manifest_hash = h,
      am_hash_algorithm_id = BLAKE3_256_HASH_ALGORITHM_ID_V1,
      am_final_lifecycle_state = (case finality of Legacy \<Rightarrow> None | FinalizedMode \<Rightarrow> Some ARCHIVE_FINAL_LIFECYCLE_STATE_FINALIZED_V1),
      am_files = \<lparr>fc_entries = map (catalog_entry blake3) (archive_map mb cb rb ps None None)\<rparr>\<rparr>"
  shows "length (archive_manifest_enc m) = manifest_size finality (length ps)"
proof -
  let ?m = "archive_map mb cb rb ps None None"
  have "length (fst f) < 256" if "f \<in> set ?m" for f
  proof -
    from that have "fst f \<in> set (map fst ?m)" by simp
    then show ?thesis unfolding archive_map_keys using n by (auto simp: fixed_path_length submission_path_length)
  qed
  then have "map (length \<circ> file_entry_enc \<circ> catalog_entry blake3) ?m = map (entry_size \<circ> fst) ?m"
    by (intro map_cong) (simp_all add: catalog_entry_def entry_for_bytes_def length_file_entry)
  then have "length (concat (map file_entry_enc (map (catalog_entry blake3) ?m))) = sum_list (map (entry_size \<circ> fst) ?m)"
    unfolding length_concat map_map by (simp only: comp_assoc)
  then have "length (concat (map file_entry_enc (map (catalog_entry blake3) ?m))) = 167 + 62 * length ps"
    using plain_map_size(2) [OF n, of mb cb rb] by simp
  moreover have "length BLAKE3_256_HASH_ALGORITHM_ID_V1 = 36" by (simp add: BLAKE3_256_HASH_ALGORITHM_ID_V1_def lit_def)
  moreover have "length (enc_unsigned 1) = 1" "length (enc_unsigned 2) = 1"
    by (simp_all add: enc_unsigned_def enc_arg_def encode_argument_def)
  ultimately show ?thesis
    using plain_map_size(1) [OF n, of mb cb rb]
    by (cases finality) (simp_all add: m archive_manifest_enc_def archive_header_enc_def archive_manifest_header_def enc_seq_def
      archive_consts enc_text_def enc_bytes_def length_enc_len_exact manifest_size_def)
qed

section \<open>Assembling always succeeds within the capacity\<close>

definition plain_path :: "rstring \<Rightarrow> bool" where
  "plain_path k \<longleftrightarrow> wf_archive_path (ArchivePathV1 k) \<and> to_ascii_lowercase k = k
     \<and> k \<noteq> ARCHIVE_MANIFEST_CANONICAL_PATH \<and> \<not> starts_with k ARCHIVE_SIGNATURE_PATH_PREFIX"

lemmas path_check_defs = wf_archive_path_def is_allowed_path_byte_def validate_segment_def is_windows_reserved_name_def
  to_ascii_uppercase_def ascii_upper_def to_ascii_lowercase_def ascii_lower_def ends_with_single starts_with_def
  ARCHIVE_SIGNATURE_PATH_PREFIX_def limits_def SLASH_def DOT_def lit_def

lemma fixed_plain_paths:
  "plain_path ELECTION_MANIFEST_ARCHIVE_PATH" "plain_path CANDIDATE_SET_ARCHIVE_PATH" "plain_path VOTER_REGISTRY_ARCHIVE_PATH"
  by (simp_all add: plain_path_def archive_path_defs path_check_defs)

lemma digits_bytes:
  assumes "b \<in> set (digits k n)"
  shows "is_allowed_path_byte b \<and> ascii_lower b = b \<and> ascii_upper b = b \<and> b \<noteq> DOT"
proof -
  have "b \<in> {48..57}" using digits_range assms by blast
  then have "48 \<le> unat b \<and> unat b \<le> 57" by (simp add: word_le_nat_alt)
  then show ?thesis
    by (auto simp: is_allowed_path_byte_def ascii_lower_def ascii_upper_def word_le_nat_alt DOT_def)
qed

lemma reserved_name_length: "is_windows_reserved_name v \<Longrightarrow> length v \<le> 4"
  by (auto simp: is_windows_reserved_name_def lit_def)

lemma submission_plain_path:
  assumes "i < 10 ^ 8"
  shows "plain_path (submission_archive_path i)"
proof -
  let ?p = "submission_archive_path i" and ?seg = "digits 8 i @ lit ''.cbor''"
  have comps: "split_at_byte SLASH ?p = [lit ''submissions'', ?seg]"
    using submission_path_components [OF assms] by (simp add: path_components_def)
  obtain d ds where d: "digits 8 i = d # ds" by (cases "digits 8 i") (auto dest: arg_cong [of _ _ length])
  have stem: "takeWhile (\<lambda>b. b \<noteq> DOT) ?seg = digits 8 i"
    using digits_bytes [of _ 8 i] by (subst takeWhile_append2) (auto simp: lit_def DOT_def)
  have upper: "to_ascii_uppercase (digits 8 i) = digits 8 i"
    using digits_bytes [of _ 8 i] by (simp add: to_ascii_uppercase_def map_idI)
  have "\<not> is_windows_reserved_name (digits 8 i)"
    using reserved_name_length [of "digits 8 i"] by auto
  then have seg: "validate_segment ?seg = Ok ()"
    unfolding validate_segment_def stem Let_def upper
    by (simp add: ends_with_single d lit_def DOT_def)
  have bytes: "set ?p \<subseteq> set (digits 8 i) \<union> set (lit ''submissions/.cbor'')"
    unfolding submission_path_digits [OF assms] by (auto simp: SUBMISSIONS_ARCHIVE_DIR_def SLASH_def lit_def)
  have fixed: "is_allowed_path_byte b \<and> ascii_lower b = b" if "b \<in> set (lit ''submissions/.cbor'')" for b
    using that by (auto simp: is_allowed_path_byte_def ascii_lower_def lit_def SLASH_def DOT_def)
  have "list_all is_allowed_path_byte ?p" "to_ascii_lowercase ?p = ?p"
    using bytes fixed digits_bytes [of _ 8 i] unfolding list_all_iff to_ascii_lowercase_def by (blast, intro map_idI, blast)
  moreover have "validate_segment (lit ''submissions'') = Ok ()" by (simp add: path_check_defs)
  moreover have "length ?p = 25" by (rule submission_path_length [OF assms])
  ultimately have "wf_archive_path (ArchivePathV1 ?p)"
    using comps seg by (auto simp: wf_archive_path_def limits_def)
  moreover have "?p \<noteq> ARCHIVE_MANIFEST_CANONICAL_PATH" "\<not> starts_with ?p ARCHIVE_SIGNATURE_PATH_PREFIX"
    by (simp_all add: submission_path_digits [OF assms] SUBMISSIONS_ARCHIVE_DIR_def ARCHIVE_MANIFEST_CANONICAL_PATH_def
        ARCHIVE_SIGNATURE_PATH_PREFIX_def starts_with_def lit_def)
  ultimately show ?thesis using \<open>to_ascii_lowercase ?p = ?p\<close> by (simp add: plain_path_def)
qed

lemma plain_map_paths:
  assumes "length ps \<le> 10 ^ 8" and "k \<in> set (map fst (archive_map mb cb rb ps None None))"
  shows "plain_path k"
  using assms unfolding archive_map_keys by (auto simp: fixed_plain_paths submission_plain_path)

text \<open>The manifest that a session's archive has when neither document nor binding is added.\<close>

definition plain_manifest :: "(bytes \<Rightarrow> bytes32) \<Rightarrow> archive_finality_mode \<Rightarrow> manifest_hash \<Rightarrow> file_map \<Rightarrow> archive_manifest_v1" where
  "plain_manifest blake3 finality h files =
     \<lparr>am_version = (case finality of Legacy \<Rightarrow> 1 | FinalizedMode \<Rightarrow> 2), am_election_manifest_hash = h,
      am_hash_algorithm_id = BLAKE3_256_HASH_ALGORITHM_ID_V1,
      am_final_lifecycle_state = (case finality of Legacy \<Rightarrow> None | FinalizedMode \<Rightarrow> Some ARCHIVE_FINAL_LIFECYCLE_STATE_FINALIZED_V1),
      am_files = \<lparr>fc_entries = map (catalog_entry blake3) files\<rparr>\<rparr>"

lemma algorithm_not_empty: "\<not> trim_is_empty BLAKE3_256_HASH_ALGORITHM_ID_V1"
proof -
  have "list_all (\<lambda>b. unat b < 128) BLAKE3_256_HASH_ALGORITHM_ID_V1" by (simp add: BLAKE3_256_HASH_ALGORITHM_ID_V1_def lit_def)
  then have "chars BLAKE3_256_HASH_ALGORITHM_ID_V1 = map unat BLAKE3_256_HASH_ALGORITHM_ID_V1"
    by (simp add: chars_def utf8_decode_ascii)
  then show ?thesis by (simp add: trim_is_empty_iff BLAKE3_256_HASH_ALGORITHM_ID_V1_def lit_def is_whitespace_def)
qed

lemma plain_manifest_new:
  assumes "catalog_in_scope \<lparr>fc_entries = map (catalog_entry blake3) files\<rparr>"
  shows "(case finality of
       Legacy \<Rightarrow> archive_manifest_for_provider h \<lparr>fc_entries = map (catalog_entry blake3) files\<rparr> (Blake3HashProviderV1 blake3)
     | FinalizedMode \<Rightarrow> archive_manifest_finalized_for_provider h \<lparr>fc_entries = map (catalog_entry blake3) files\<rparr> (Blake3HashProviderV1 blake3))
     = Ok (plain_manifest blake3 finality h files)"
proof -
  have "length BLAKE3_256_HASH_ALGORITHM_ID_V1 \<le> MAX_HASH_ALGORITHM_ID_BYTES"
    by (simp add: BLAKE3_256_HASH_ALGORITHM_ID_V1_def lit_def limits_def)
  with assms algorithm_not_empty show ?thesis
    by (cases finality) (simp_all add: archive_manifest_for_provider_def archive_manifest_finalized_for_provider_def
      ArchiveManifestV1_new_def archive_manifest_new_Ok_iff plain_manifest_def version_state_ok_def archive_consts)
qed

lemma plain_catalog:
  fixes mb cb rb ps blake3
  assumes len: "length ps + 3 \<le> MAX_ARCHIVE_FILES"
  defines "files \<equiv> archive_map mb cb rb ps None None"
  shows "collect_results (\<lambda>(path, bs). and_then (gui_err ''archive-catalog'' (ArchivePathV1_new path)) (\<lambda>archive_path.
        Ok (entry_for_bytes archive_path (Blake3HashProviderV1 blake3) bs))) files = Ok (map (catalog_entry blake3) files)"
    and "ArchiveFileCatalogV1_new (map (catalog_entry blake3) files) = Ok \<lparr>fc_entries = map (catalog_entry blake3) files\<rparr>"
    and "catalog_in_scope \<lparr>fc_entries = map (catalog_entry blake3) files\<rparr>"
proof -
  have n: "length ps \<le> 10 ^ 8" using len by (simp add: limits_def)
  have plain: "plain_path (fst f)" if "f \<in> set files" for f
    using plain_map_paths [OF n, of "fst f" mb cb rb] that by (auto simp: files_def)
  show "collect_results (\<lambda>(path, bs). and_then (gui_err ''archive-catalog'' (ArchivePathV1_new path)) (\<lambda>archive_path.
        Ok (entry_for_bytes archive_path (Blake3HashProviderV1 blake3) bs))) files = Ok (map (catalog_entry blake3) files)"
  proof (rule collect_results_all)
    fix f assume "f \<in> set files"
    then have "ArchivePathV1_new (fst f) = Ok (ArchivePathV1 (fst f))" using plain by (simp add: result_inv plain_path_def)
    then show "(case f of (path, bs) \<Rightarrow> and_then (gui_err ''archive-catalog'' (ArchivePathV1_new path)) (\<lambda>archive_path.
        Ok (entry_for_bytes archive_path (Blake3HashProviderV1 blake3) bs))) = Ok (catalog_entry blake3 f)"
      by (simp add: catalog_entry_def case_prod_beta)
  qed
  have keys: "map (\<lambda>e. portable_collision_key (fe_path e)) (map (catalog_entry blake3) files) = map fst files"
    using plain by (auto simp: portable_collision_key_def plain_path_def catalog_entry_def entry_for_bytes_def)
  have "bt_inv files" unfolding files_def by (rule archive_map_inv)
  then have "distinct (map fst files)" by (simp add: bt_inv_def strictly_sorted_iff)
  with keys sorted_catalog_entries [OF \<open>bt_inv files\<close>] plain_map_size(1) [OF n, of mb cb rb] len
  show "ArchiveFileCatalogV1_new (map (catalog_entry blake3) files) = Ok \<lparr>fc_entries = map (catalog_entry blake3) files\<rparr>"
    unfolding ArchiveFileCatalogV1_new_Ok_iff keys by (auto simp: files_def)
  show "catalog_in_scope \<lparr>fc_entries = map (catalog_entry blake3) files\<rparr>"
    using plain by (simp add: catalog_in_scope_def plain_path_def catalog_entry_def entry_for_bytes_def)
qed

definition ARCHIVE_PACKAGE_CAPACITY :: nat where
  "ARCHIVE_PACKAGE_CAPACITY = 16908"

lemma manifest_size_capacity:
  "n < 65533 \<Longrightarrow> manifest_size finality n \<le> MAX_CANONICAL_OBJECT_BYTES \<longleftrightarrow> n \<le> ARCHIVE_PACKAGE_CAPACITY"
proof -
  assume n: "n < 65533"
  have "length (enc_len MAJOR_ARRAY (n + 3)) \<le> 3" using length_enc_len [of "n + 3"] n by simp
  moreover have "length (enc_len MAJOR_ARRAY (n + 3)) = 3" if "253 \<le> n"
    using length_enc_len_exact(3) [of "n + 3" MAJOR_ARRAY] that n by simp
  ultimately show ?thesis
    by (cases "253 \<le> n"; cases finality) (auto simp: manifest_size_def limits_def ARCHIVE_PACKAGE_CAPACITY_def)
qed

lemma assemble_plain:
  fixes finality
  assumes art: "artifacts_from nfc blake3 (gs_artifacts s) mb rb cb" and len: "length (gs_packages s) + 3 \<le> MAX_ARCHIVE_FILES"
  defines "m \<equiv> plain_manifest blake3 finality (ga_manifest_hash (gs_artifacts s)) (archive_map mb cb rb (gs_packages s) None None)"
  shows "is_ok (assemble_archive blake3 s None None finality) \<longleftrightarrow> length (archive_manifest_enc m) \<le> MAX_CANONICAL_OBJECT_BYTES"
proof -
  let ?files = "archive_map mb cb rb (gs_packages s) None None" and ?p = "Blake3HashProviderV1 blake3"
  note cat = plain_catalog [OF len, of blake3 mb cb rb]
  note new = plain_manifest_new [OF cat(3), where finality = finality and h = "ga_manifest_hash (gs_artifacts s)"]
  have ins: "insert_binding blake3 (gs_artifacts s) None (session_files mb cb rb (gs_packages s) None) = Ok ?files"
    by (simp add: insert_binding_def archive_map_def)
  have "wf_file_catalog \<lparr>fc_entries = map (catalog_entry blake3) ?files\<rparr>"
    using ArchiveFileCatalogV1_new_wf [OF cat(2)] collect_catalog_entries [OF cat(1)] by blast
  moreover have "length BLAKE3_256_HASH_ALGORITHM_ID_V1 \<le> MAX_HASH_ALGORITHM_ID_BYTES"
    by (simp add: BLAKE3_256_HASH_ALGORITHM_ID_V1_def lit_def limits_def)
  ultimately have wf: "wf_archive_manifest m"
    using cat(3) algorithm_not_empty
    by (cases finality) (simp_all add: m_def plain_manifest_def wf_archive_manifest_def version_state_ok_def archive_consts)
  have hash: "archive_manifest_canonical_hash ?p m = and_then (archive_manifest_to_canonical_cbor m)
      (\<lambda>bs. Ok (ArchiveHashV1 (hash_domain_separated ?p ArchiveManifestV1 bs)))"
    by (simp add: archive_manifest_canonical_hash_def validate_hash_provider_def m_def plain_manifest_def)
  have "assemble_archive blake3 s None None finality =
      and_then (gui_err ''archive-manifest'' (archive_manifest_canonical_hash ?p m)) (\<lambda>h.
      and_then (gui_err ''archive-manifest'' (archive_manifest_to_canonical_cbor m)) (\<lambda>bs.
      Ok \<lparr>as_files = ?files, as_manifest = m, as_hash = h, as_manifest_bytes = bs\<rparr>))"
    using art ins cat(1, 2) new
    by (simp add: assemble_archive_def artifacts_from_def governance_gate_def Let_def flip: m_def)
  then show ?thesis using wf by (simp add: hash archive_manifest_to_canonical_cbor_eq is_ok_def)
qed

lemma assemble_plain_iff:
  assumes "gui_reachable L nfc blake3 s"
  shows "is_ok (assemble_archive blake3 s None None finality) \<longleftrightarrow> length (gs_packages s) \<le> ARCHIVE_PACKAGE_CAPACITY"
proof -
  from gui_reachable_artifacts [OF assms] obtain mb rb cb where art: "artifacts_from nfc blake3 (gs_artifacts s) mb rb cb" by blast
  let ?n = "length (gs_packages s)" and ?h = "ga_manifest_hash (gs_artifacts s)"
  let ?files = "archive_map mb cb rb (gs_packages s) None None"
  have iff: "is_ok (assemble_archive blake3 s None None finality) \<longleftrightarrow> ?n \<le> ARCHIVE_PACKAGE_CAPACITY"
    if len: "?n + 3 \<le> MAX_ARCHIVE_FILES"
  proof -
    have "?n \<le> 10 ^ 8" "?n < 65533 \<or> ?n = 65533" using len by (auto simp: limits_def)
    then show ?thesis
      using assemble_plain [OF art len, of finality] manifest_size_capacity [of ?n finality]
        length_plain_manifest [OF _ plain_manifest_def [of blake3 finality ?h ?files]]
      by (auto simp: manifest_size_def limits_def ARCHIVE_PACKAGE_CAPACITY_def)
  qed
  have "?n + 3 \<le> MAX_ARCHIVE_FILES" if "assemble_archive blake3 s None None finality = Ok a" for a
  proof -
    from assemble_Ok [OF that art] have files: "as_files a = ?files" and a: "assembled_from blake3 ?h finality a"
      by (auto simp: binding_file_def)
    have "length (as_files a) \<le> MAX_ARCHIVE_FILES"
      using a by (auto simp: assembled_from_def wf_archive_manifest_def wf_file_catalog_def)
    with assembled_package_count [OF a files] plain_map_size(1) [of "gs_packages s" mb cb rb] files
    show ?thesis by (simp add: limits_def)
  qed
  moreover have "?n + 3 \<le> MAX_ARCHIVE_FILES" if "?n \<le> ARCHIVE_PACKAGE_CAPACITY"
    using that by (simp add: limits_def ARCHIVE_PACKAGE_CAPACITY_def)
  ultimately show ?thesis using iff by (auto simp: is_ok_iff)
qed

end
