(* ===== verification/Writer_Properties.thy ===== *)
theory Writer_Properties
  imports Writer_Capacity Example_Session
begin

text \<open>
  Properties of the archive writer together with the archive verifier, each with a witness on the
  example session.
\<close>

section \<open>The example session, archived\<close>

definition xw_io :: archive_io where
  "xw_io = \<lparr>aio_create_target = True, aio_create_dir = (\<lambda>_. True),
     aio_file = (\<lambda>_. \<lparr>fio_open = True, fio_failed_write = None, fio_rename = True, fio_remove = True\<rparr>)\<rparr>"

lemma xw_perfect: "perfect_archive_io xw_io"
  by (simp add: xw_io_def perfect_archive_io_def perfect_io_def)

text \<open>A file system on which the archive manifest cannot be renamed into place, and nothing is cleaned up.\<close>

definition xw_faulty :: archive_io where
  "xw_faulty = xw_io\<lparr>aio_file := (\<lambda>path. \<lparr>fio_open = True, fio_failed_write = None,
     fio_rename = (path \<noteq> ARCHIVE_MANIFEST_CANONICAL_PATH), fio_remove = False\<rparr>)\<rparr>"

lemma xw_pin: "\<not> is_content_digest (validate_governance_source_pin
    (manifest_governance_source_revision (ga_manifest (gs_artifacts xs_closed))))"
  by (simp add: xs_closed_def xs_voted_def xs_open_def xs_artifacts_def ex_manifest_fields validate_governance_source_pin_def
      starts_with_def GOVERNANCE_PIN_PREFIX_BLAKE3_def GOVERNANCE_PIN_PREFIX_GIT_def lit_def unrecognized_pin_def
      is_content_digest_def)

lemma xw_written:
  "\<exists>w t. write_archive_directory_v1_with_optional_binding zero_digest xw_io (lit ''a'') xs_closed None None Legacy (Err NotFound) =
     (Ok w, Ok t)"
proof -
  from assemble_plain_iff [OF xs_reachable(3), of Legacy] obtain a where
    "assemble_archive zero_digest xs_closed None None Legacy = Ok a"
    by (auto simp: is_ok_iff xs_states ARCHIVE_PACKAGE_CAPACITY_def)
  from write_archive_succeeds [OF xs_reachable(3) xw_perfect _ _ this, where root = "Err NotFound" and dir = "lit ''a''"]
  show ?thesis by (simp add: target_free_def) blast
qed

section \<open>Sizes of the written files\<close>

lemma artifact_sizes:
  assumes "artifacts_from nfc blake3 g mb rb cb"
  shows "length mb \<le> MAX_CANONICAL_OBJECT_BYTES" "length rb \<le> MAX_CANONICAL_OBJECT_BYTES"
    "length cb \<le> MAX_CANONICAL_OBJECT_BYTES"
proof -
  from assms obtain m r c where "manifest_from_canonical_cbor nfc mb = Ok m" "registry_from_canonical_cbor rb = Ok r"
    "candidate_set_from_canonical_cbor cb = Ok c"
    by (auto simp: artifacts_from_def gui_artifacts_from_bytes_def Let_def result_inv split: if_splits)
  then show "length mb \<le> MAX_CANONICAL_OBJECT_BYTES" "length rb \<le> MAX_CANONICAL_OBJECT_BYTES"
    "length cb \<le> MAX_CANONICAL_OBJECT_BYTES"
    by (auto simp: manifest_from_canonical_cbor_def registry_from_canonical_cbor_def candidate_set_from_canonical_cbor_def
        split: if_splits)
qed

lemma archive_map_cases:
  assumes "(path, bs) \<in> set (archive_map mb cb rb ps document binding)" and "length ps \<le> 10 ^ 8"
  shows "(path \<noteq> GOVERNANCE_DOCUMENT_ARCHIVE_PATH \<and> (bs \<in> {mb, cb, rb} \<union> set ps \<or> binding = Some bs))
    \<or> (path = GOVERNANCE_DOCUMENT_ARCHIVE_PATH \<and> document = Some bs)"
proof -
  have "distinct (map fst (archive_map mb cb rb ps document binding))"
    using archive_map_inv by (auto simp: bt_inv_def strictly_sorted_iff)
  then have get: "bt_get (archive_map mb cb rb ps document binding) path = Some bs"
    using assms(1) by (simp add: bt_get_def)
  have "path \<in> set (map fst (archive_map mb cb rb ps document binding))" using assms(1) by force
  then consider "path \<in> {ELECTION_MANIFEST_ARCHIVE_PATH, CANDIDATE_SET_ARCHIVE_PATH, VOTER_REGISTRY_ARCHIVE_PATH}"
    | i where "path = submission_archive_path i" "i < length ps"
    | "path = GOVERNANCE_DOCUMENT_ARCHIVE_PATH" | "path = TRANSPORT_ARCHIVE_BINDING_PATH_V1"
    unfolding archive_map_keys by (auto split: if_splits)
  then show ?thesis
  proof cases
    case 2
    with get archive_map_get(6) [OF assms(2)] show ?thesis using fixed_path_neq_submission by (auto simp: image_iff)
  qed (use get fixed_paths_distinct in \<open>auto simp: archive_map_get\<close>)
qed

lemma assembled_files_bounded:
  assumes reach: "gui_reachable L nfc blake3 s" and asm: "assemble_archive blake3 s document tb finality = Ok a"
    and ps: "\<forall>package \<in> set (gs_packages s). length package \<le> MAX_CANONICAL_OBJECT_BYTES"
    and doc: "\<forall>doc. document = Some doc \<longrightarrow> length doc \<le> MAX_GOVERNANCE_DOCUMENT_BYTES"
  shows "\<forall>(path, bs) \<in> set (as_files a). length bs \<le> file_limit path"
proof -
  from gui_reachable_artifacts [OF reach] obtain mb rb cb where art: "artifacts_from nfc blake3 (gs_artifacts s) mb rb cb" by blast
  from assemble_Ok [OF asm art] obtain bf where files: "as_files a = archive_map mb cb rb (gs_packages s) document bf"
    and bf: "binding_file blake3 (gs_artifacts s) tb bf"
    and a: "assembled_from blake3 (ga_manifest_hash (gs_artifacts s)) finality a" by blast
  have n: "length (gs_packages s) \<le> 10 ^ 8" using assembled_package_count [OF a files] by (simp add: limits_def)
  have b: "length bs \<le> MAX_CANONICAL_OBJECT_BYTES" if "bf = Some bs" for bs
    using bf that by (cases tb) (auto simp: binding_file_def binding_from_canonical_cbor_def split: if_splits)
  have "length bs \<le> file_limit path" if "(path, bs) \<in> set (as_files a)" for path bs
    using archive_map_cases [OF that [unfolded files] n] artifact_sizes [OF art] ps doc b by (auto simp: file_limit_def)
  then show ?thesis by auto
qed

section \<open>A content pin without its document\<close>

lemma no_document_entry:
  assumes "assembled_from blake3 h finality a" and "as_files a = archive_map mb cb rb ps None binding"
  shows "find (\<lambda>e. entry_path e = GOVERNANCE_DOCUMENT_ARCHIVE_PATH) (fc_entries (am_files (as_manifest a))) = None"
proof -
  have "fc_entries (am_files (as_manifest a)) = map (catalog_entry blake3) (as_files a)"
    using assms(1) by (simp add: assembled_from_def)
  moreover have "GOVERNANCE_DOCUMENT_ARCHIVE_PATH \<notin> set (map fst (as_files a))"
    unfolding assms(2) archive_map_keys using fixed_paths_distinct fixed_path_neq_submission
    by (auto simp: image_iff simp del: set_map split: if_splits)
  ultimately show ?thesis by (force simp: find_None_iff)
qed

text \<open>
  The writer accepts a content pin without its document, with or without finality; the verifier then
  stops at the governance stage, so such a written archive never verifies.
\<close>

lemma pin_without_document_fails:
  assumes reach: "gui_reachable L nfc blake3 s"
    and w: "write_archive_directory_v1_with_optional_binding blake3 io dir s None tb finality root = (Ok w, root')"
    and ps: "\<forall>package \<in> set (gs_packages s). length package \<le> MAX_CANONICAL_OBJECT_BYTES"
    and pin: "is_content_digest (validate_governance_source_pin (manifest_governance_source_revision (ga_manifest (gs_artifacts s))))"
  shows "\<exists>report. verify_archive_directory_v1 L nfc blake3 root' = Ok report \<and> \<not> dv_verified report
    \<and> dv_failure_stage report = Some STAGE_GOVERNANCE_PIN"
proof -
  from write_archive_Ok [OF reach w] obtain a t where asm: "assemble_archive blake3 s None tb finality = Ok a"
    and t: "root' = Ok t" "archive_tree (as_files a) (as_manifest_bytes a) t" by blast
  from gui_reachable_artifacts [OF reach] obtain mb rb cb where art: "artifacts_from nfc blake3 (gs_artifacts s) mb rb cb" by blast
  from assemble_Ok [OF asm art] obtain bf where files: "as_files a = archive_map mb cb rb (gs_packages s) None bf"
    and bf: "binding_file blake3 (gs_artifacts s) tb bf"
    and a: "assembled_from blake3 (ga_manifest_hash (gs_artifacts s)) finality a" by blast
  have bound: "\<forall>(path, bs) \<in> set (as_files a). length bs \<le> file_limit path"
    by (rule assembled_files_bounded [OF reach asm ps]) simp
  have id: "archive_identity blake3 t (as_manifest a)" and af: "archive_files t (as_manifest a) = as_files a"
    using archive_tree_identity [OF a t(2) bound] by blast+
  have hash: "archive_manifest_canonical_hash (Blake3HashProviderV1 blake3) (as_manifest a) = Ok (as_hash a)"
    using a by (simp add: assembled_from_def)
  note s1 = written_stage_artifacts [OF a files art, of "established_report (as_manifest a) (as_hash a)"]
  from written_stage_transport [OF bf] obtain r2 where
    s2: "stage_transport blake3 (as_files a) (archive_artifacts (gs_artifacts s))
      (record_artifacts (archive_artifacts (gs_artifacts s)) (established_report (as_manifest a) (as_hash a))) = Ok r2"
    unfolding files by blast
  from content_digest_hex [OF pin] no_document_entry [OF a files] pin obtain r3 where
    s3: "stage_governance (as_manifest a) (archive_artifacts (gs_artifacts s)) r2 = Err r3"
    and r3: "\<not> dv_verified r3" "dv_failure_stage r3 = Some STAGE_GOVERNANCE_PIN"
    by (auto simp: stage_governance_def archive_artifacts_def Let_def fail_def)
  with s1 s2 establish_complete [OF id hash] show ?thesis unfolding t(1)
    by (simp add: verify_archive_directory_v1_def finish_verification_def finish_verification_replaying_def af Let_def)
qed

section \<open>What is written verifies\<close>

text \<open>
  C5: An archive that the writer has completed from a reachable session, in any of its variants, is
  read by the archive verifier without an error when every package and the document are within the
  sizes the verifier reads. If the manifest pins a content digest and the archive was written
  without the document, the report is a failure at the governance stage; in every other case it is
  reported as verified, with the hash the writer returned, the finality of the manifest, the
  counts of the session and, in the application's view, the tally summary of the session itself.
\<close>

theorem written_archive_verifies:
  assumes "triptych_batch_sound L" and "gui_reachable L nfc blake3 s"
    and "write_archive_directory_v1_with_optional_binding blake3 io dir s document binding finality root = (Ok w, root')"
    and "\<forall>package \<in> set (gs_packages s). length package \<le> MAX_CANONICAL_OBJECT_BYTES"
    and "\<forall>doc. document = Some doc \<longrightarrow> length doc \<le> MAX_GOVERNANCE_DOCUMENT_BYTES"
  shows "\<exists>report. verify_archive_directory_v1 L nfc blake3 root' = Ok report
    \<and> gui_verify_archive_directory_v1 L nfc blake3 root' = Ok (map_verification report)
    \<and> (if document = None \<and> is_content_digest (validate_governance_source_pin
            (manifest_governance_source_revision (ga_manifest (gs_artifacts s))))
       then \<not> dv_verified report \<and> dv_failure_stage report = Some STAGE_GOVERNANCE_PIN
       else dv_verified report
         \<and> dv_finalized report = (finality = FinalizedMode)
         \<and> dv_archive_hash_hex report = Some (aw_archive_hash_hex w)
         \<and> dv_accepted_count report = accepted_count (gs_transcript s)
         \<and> dv_rejected_count report = rejected_count (gs_transcript s)
         \<and> (\<exists>tally. gui_direct_tally s = Ok tally
              \<and> gv_tally (map_verification report) = Some (gui_summarize_tally tally (ga_candidates (gs_artifacts s)))))"
proof (cases "document = None \<and> is_content_digest (validate_governance_source_pin
    (manifest_governance_source_revision (ga_manifest (gs_artifacts s))))")
  case True
  from pin_without_document_fails [OF assms(2) _ assms(4)] assms(3) True obtain report where
    "verify_archive_directory_v1 L nfc blake3 root' = Ok report" "\<not> dv_verified report"
    "dv_failure_stage report = Some STAGE_GOVERNANCE_PIN" by blast
  with True show ?thesis by (simp add: gui_verify_archive_directory_v1_def)
next
  case False
  from write_archive_Ok [OF assms(2, 3)] obtain a t where asm: "assemble_archive blake3 s document binding finality = Ok a"
    and t: "root' = Ok t" "w = write_result dir s a" "archive_tree (as_files a) (as_manifest_bytes a) t" by blast
  have "\<forall>(path, bs) \<in> set (as_files a). length bs \<le> file_limit path"
    by (rule assembled_files_bounded [OF assms(2) asm assms(4, 5)])
  from assembled_archive_verifies [OF assms(1, 2) asm t(3) this] False show ?thesis
    unfolding t(1, 2) if_not_P [OF False]
    by (auto simp: write_result_def gui_verify_archive_directory_v1_def map_verification_def map_tally_summarize)
qed

lemma written_archive_verifies_witness:
  "\<exists>w t report. write_archive_directory_v1_with_optional_binding zero_digest xw_io (lit ''a'') xs_closed None None Legacy (Err NotFound)
      = (Ok w, Ok t)
    \<and> verify_archive_directory_v1 toy_lib id zero_digest (Ok t) = Ok report \<and> dv_verified report
    \<and> dv_archive_hash_hex report = Some (aw_archive_hash_hex w)"
proof -
  from xw_written obtain w t where w: "write_archive_directory_v1_with_optional_binding zero_digest xw_io (lit ''a'') xs_closed
      None None Legacy (Err NotFound) = (Ok w, Ok t)" by blast
  have "\<forall>package \<in> set (gs_packages xs_closed). length package \<le> MAX_CANONICAL_OBJECT_BYTES"
    using xs_vote_size by (simp add: xs_states limits_def)
  from written_archive_verifies [OF toy_lib_sound xs_reachable(3) w this] xw_pin w show ?thesis by auto
qed

section \<open>A failed write is never mistaken for an archive\<close>

lemma write_archive_unfree:
  assumes "\<not> target_free root"
    and "write_archive_directory_v1_with_optional_binding blake3 io dir s document tb finality root = (r, root')"
  shows "\<not> is_ok r \<and> root' = root"
proof -
  from assms(1) prepare_target_Ok obtain e where "prepare_target_directory (aio_create_target io) root = Err e"
    by (cases "prepare_target_directory (aio_create_target io) root") auto
  with assms(2) show ?thesis by (auto simp: write_archive_directory_v1_with_optional_binding_def is_ok_def split: if_splits)
qed

text \<open>
  C22: The writer never touches a target that exists and is not an empty directory. And
  when it fails, on whatever operation of the file system, then it has either changed nothing or left a
  directory that the verifier, under any curve, normalization and hash, does not report as verified.
\<close>

theorem failed_write_not_verified:
  assumes "gui_reachable L nfc blake3 s"
    and "write_archive_directory_v1_with_optional_binding blake3 io dir s document binding finality root = (r, root')"
  shows "(\<not> target_free root \<longrightarrow> \<not> is_ok r \<and> root' = root)
    \<and> (\<not> is_ok r \<longrightarrow> root' = root \<or> (\<forall>L' nfc' blake3' report.
        verify_archive_directory_v1 (L' :: ('q, 'pt, 'pp, 'is, 'ts, 'pf, 'tr) triptych_lib) nfc' blake3' root' = Ok report
        \<longrightarrow> \<not> dv_verified report))"
proof (cases r)
  case (Ok w)
  with write_archive_unfree [OF _ assms(2)] show ?thesis by (auto simp: is_ok_def)
next
  case (Err e)
  have "root' = root \<or> \<not> dv_verified report"
    if "verify_archive_directory_v1 (L' :: ('q, 'pt, 'pp, 'is, 'ts, 'pf, 'tr) triptych_lib) nfc' blake3' root' = Ok report"
    for L' nfc' blake3' report
    by (rule write_archive_Err [OF assms(1) assms(2) [unfolded Err] that])
  with write_archive_unfree [OF _ assms(2)] Err show ?thesis by (auto simp: is_ok_def)
qed

lemma failed_write_not_verified_witness:
  "\<exists>r root'. write_archive_directory_v1_with_optional_binding zero_digest xw_faulty (lit ''a'') xs_closed None None Legacy
      (Ok (DirNode True [(lit ''x'', FileNode True [])])) = (r, root')
    \<and> \<not> is_ok r \<and> root' = Ok (DirNode True [(lit ''x'', FileNode True [])])"
  using failed_write_not_verified [OF xs_reachable(3),
      where io = xw_faulty and root = "Ok (DirNode True [(lit ''x'', FileNode True [])])" and dir = "lit ''a''" and document = None
      and binding = None and finality = Legacy]
  by (cases "write_archive_directory_v1_with_optional_binding zero_digest xw_faulty (lit ''a'') xs_closed None None Legacy
      (Ok (DirNode True [(lit ''x'', FileNode True [])]))") (simp add: target_free_def)

section \<open>How many packages fit\<close>

text \<open>
  C23: On a file system that does not fail and a free target, the writer without document and
  binding archives a reachable session exactly when it recorded at most 16,908 packages, accepted and rejected
  together: the manifest of a larger archive exceeds the bound on canonical objects.
\<close>

theorem archive_capacity:
  assumes "gui_reachable L nfc blake3 s" and "perfect_archive_io io" and "target_free root"
    and "finality = FinalizedMode \<longrightarrow> lc_state (gs_lifecycle s) = Finalized"
  shows "is_ok (fst (write_archive_directory_v1_with_optional_binding blake3 io dir s None None finality root))
    \<longleftrightarrow> length (gs_packages s) \<le> ARCHIVE_PACKAGE_CAPACITY"
  unfolding assemble_plain_iff [OF assms(1), symmetric, of finality]
proof
  assume "is_ok (fst (write_archive_directory_v1_with_optional_binding blake3 io dir s None None finality root))"
  then show "is_ok (assemble_archive blake3 s None None finality)"
    by (cases "assemble_archive blake3 s None None finality")
      (auto simp: write_archive_directory_v1_with_optional_binding_def is_ok_def split: if_splits result.splits)
next
  assume "is_ok (assemble_archive blake3 s None None finality)"
  then obtain a where "assemble_archive blake3 s None None finality = Ok a" by (auto simp: is_ok_iff)
  from write_archive_succeeds [OF assms(1-3) _ this, of dir] assms(4)
  show "is_ok (fst (write_archive_directory_v1_with_optional_binding blake3 io dir s None None finality root))"
    by (auto simp: is_ok_def)
qed

lemma archive_capacity_witness:
  "is_ok (fst (write_archive_directory_v1_with_optional_binding zero_digest xw_io (lit ''a'') xs_closed None None Legacy (Err NotFound)))"
  using archive_capacity [OF xs_reachable(3) xw_perfect, of "Err NotFound" Legacy "lit ''a''"]
  by (simp add: target_free_def xs_states ARCHIVE_PACKAGE_CAPACITY_def)

end
