(* ===== verification/Intake_Inbox.thy ===== *)
theory Intake_Inbox
  imports Gui_Governance Archive_Writer Transport_Gateway
begin

text \<open>
  The durable hand-off of privately accepted packages (\<open>crates/gui-core/src/private_intake_inbox.rs\<close>): one
  process appends the packages it accepted to a directory, content-addressed by their digest, and the
  organizer's session later ingests them. What each inspection and read of a file gives is an argument, an
  observation per file name, so that files may change while they are read; for appending, the directory
  is a store from names to files in which every operation can fail.
\<close>

section \<open>Errors and limits\<close>

definition MAX_BALLOT_PACKAGE_BYTES_V1 :: nat where
  "MAX_BALLOT_PACKAGE_BYTES_V1 = MAX_CANONICAL_OBJECT_BYTES"

definition MAX_WORKSPACE_PACKAGE_COUNT_V1 :: nat where
  "MAX_WORKSPACE_PACKAGE_COUNT_V1 = MAX_REGISTRY_MEMBERS * 2"

definition MAX_PRIVATE_INTAKE_INBOX_FILES_V1 :: nat where
  "MAX_PRIVATE_INTAKE_INBOX_FILES_V1 = MAX_WORKSPACE_PACKAGE_COUNT_V1"

definition DIGEST_HEX_BYTES :: nat where "DIGEST_HEX_BYTES = 64"

definition INBOX_PACKAGE_FILE_SUFFIX :: rstring where "INBOX_PACKAGE_FILE_SUFFIX = lit ''.package''"

definition PRIVATE_INTAKE_INBOX_DIRECTORY_NAME :: rstring where
  "PRIVATE_INTAKE_INBOX_DIRECTORY_NAME = lit ''private-intake-inbox''"

definition inbox_error :: "string \<Rightarrow> gui_error_category \<Rightarrow> gui_core_error" where
  "inbox_error code category = gui_error code category ''private-intake-inbox''"

definition unsafe_inbox_path :: gui_core_error where
  "unsafe_inbox_path = inbox_error ''GUI_PRIVATE_INTAKE_INBOX_UNSAFE_PATH'' InvalidInput"

definition too_many_inbox_files :: gui_core_error where
  "too_many_inbox_files = inbox_error ''GUI_PRIVATE_INTAKE_INBOX_TOO_MANY_FILES'' InvalidInput"

definition inbox_package_too_large :: gui_core_error where
  "inbox_package_too_large = inbox_error ''GUI_PRIVATE_INTAKE_INBOX_PACKAGE_TOO_LARGE'' InvalidInput"

definition inbox_file_changed :: gui_core_error where
  "inbox_file_changed = inbox_error ''GUI_PRIVATE_INTAKE_INBOX_FILE_CHANGED_DURING_READ'' ArchiveIntegrity"

definition inbox_digest_mismatch :: gui_core_error where
  "inbox_digest_mismatch = inbox_error ''GUI_PRIVATE_INTAKE_INBOX_DIGEST_MISMATCH'' ArchiveIntegrity"

definition existing_package_mismatch :: gui_core_error where
  "existing_package_mismatch = inbox_error ''GUI_PRIVATE_INTAKE_INBOX_EXISTING_PACKAGE_MISMATCH'' ArchiveIntegrity"

definition inbox_invalid_filename :: gui_core_error where
  "inbox_invalid_filename = inbox_error ''GUI_PRIVATE_INTAKE_INBOX_INVALID_FILENAME'' InvalidInput"

section \<open>Names\<close>

text \<open>The directory of an election, as the two components below the data root.\<close>

definition private_intake_inbox_directory_v1 :: "rstring \<Rightarrow> rstring list gresult" where
  "private_intake_inbox_directory_v1 manifest_hash_hex =
     (if length manifest_hash_hex \<noteq> DIGEST_HEX_BYTES \<or> \<not> is_lowercase_hex manifest_hash_hex then
        Err (inbox_error ''GUI_PRIVATE_INTAKE_INBOX_INVALID_ELECTION'' InvalidInput)
      else Ok [PRIVATE_INTAKE_INBOX_DIRECTORY_NAME, lit ''election-'' @ manifest_hash_hex])"

definition ballot_package_digest_hex_v1 :: "(bytes \<Rightarrow> bytes32) \<Rightarrow> bytes \<Rightarrow> rstring" where
  "ballot_package_digest_hex_v1 blake3 package_bytes =
     to_lower_hex (hash_domain_separated (Blake3HashProviderV1 blake3) BallotPackageV1 package_bytes)"

definition parse_inbox_package_filename :: "rstring \<Rightarrow> rstring option" where
  "parse_inbox_package_filename name =
     (if \<not> ends_with name INBOX_PACKAGE_FILE_SUFFIX then None
      else
        let stem = take (length name - length INBOX_PACKAGE_FILE_SUFFIX) name in
        if length stem \<noteq> DIGEST_HEX_BYTES \<or> \<not> is_lowercase_hex stem then None else Some stem)"

definition inbox_hex_nibble :: "u8 \<Rightarrow> u8 option" where
  "inbox_hex_nibble b =
     (if 0x30 \<le> b \<and> b \<le> 0x39 then Some (b - 0x30)
      else if 0x61 \<le> b \<and> b \<le> 0x66 then Some (b - 0x61 + 10)
      else None)"

fun inbox_hex_pairs :: "rstring \<Rightarrow> bytes option" where
  "inbox_hex_pairs (h # l # text) =
     (case inbox_hex_nibble h of
        None \<Rightarrow> None
      | Some high \<Rightarrow>
          (case inbox_hex_nibble l of
             None \<Rightarrow> None
           | Some low \<Rightarrow> map_option (\<lambda>out. (push_bit 4 high OR low) # out) (inbox_hex_pairs text)))"
| "inbox_hex_pairs _ = Some []"

definition inbox_digest_from_filename :: "rstring \<Rightarrow> ballot_package_digest_v1 option" where
  "inbox_digest_from_filename digest_hex =
     (if length digest_hex \<noteq> DIGEST_HEX_BYTES then None
      else map_option (\<lambda>bs. BallotPackageDigestV1 (mk32 bs)) (inbox_hex_pairs digest_hex))"

section \<open>Inspecting and reading a file\<close>

record inbox_metadata =
  im_is_file :: bool
  im_reparse :: bool
  im_len :: u64
  im_modified :: "nat option"

record inbox_file_identity_v1 =
  fi_byte_len :: u64
  fi_modified :: "nat option"

text \<open>
  What one pass sees of a file: its metadata before the cache is asked, before and after the read, and
  the bytes of the read.
\<close>

record inbox_observation =
  ob_inspected :: "(inbox_metadata, io_error) result"
  ob_before :: "(inbox_metadata, io_error) result"
  ob_read :: "bytes option"
  ob_after :: "(inbox_metadata, io_error) result"

definition inspect_bounded_package_file :: "(inbox_metadata, io_error) result \<Rightarrow> inbox_file_identity_v1 gresult" where
  "inspect_bounded_package_file metadata =
     and_then (map_err (\<lambda>e. if e = NotFound then file_not_found ''private-intake-inbox''
                            else io_failure ''private-intake-inbox'') metadata) (\<lambda>m.
     if \<not> im_is_file m \<or> im_reparse m then Err unsafe_inbox_path
     else if unat (im_len m) > MAX_BALLOT_PACKAGE_BYTES_V1 then Err inbox_package_too_large
     else Ok \<lparr>fi_byte_len = im_len m, fi_modified = im_modified m\<rparr>)"

definition read_bounded_package_file :: "inbox_observation \<Rightarrow> (bytes \<times> inbox_file_identity_v1) gresult" where
  "read_bounded_package_file ob =
     and_then (inspect_bounded_package_file (ob_before ob)) (\<lambda>before.
     and_then (ok_or (io_failure ''private-intake-inbox'') (ob_read ob)) (\<lambda>bs.
     and_then (inspect_bounded_package_file (ob_after ob)) (\<lambda>after.
     if before \<noteq> after \<or> u64_of_usize (length bs) \<noteq> Some (fi_byte_len after) then Err inbox_file_changed
     else Ok (bs, after))))"

definition verify_existing_inbox_package :: "inbox_observation \<Rightarrow> bytes \<Rightarrow> unit gresult" where
  "verify_existing_inbox_package ob expected_bytes =
     and_then (read_bounded_package_file ob) (\<lambda>(existing, _).
     if existing \<noteq> expected_bytes then Err existing_package_mismatch else Ok ())"

section \<open>Directories\<close>

record directory_metadata =
  dm_is_dir :: bool
  dm_reparse :: bool

record directory_answers =
  da_metadata :: "(directory_metadata, io_error) result"
  da_create :: bool
  da_created :: "(directory_metadata, io_error) result"

definition direct_directory :: "directory_metadata \<Rightarrow> unit gresult" where
  "direct_directory m = (if \<not> dm_is_dir m \<or> dm_reparse m then Err unsafe_inbox_path else Ok ())"

definition ensure_direct_directory :: "directory_answers \<Rightarrow> unit gresult" where
  "ensure_direct_directory da =
     (case da_metadata da of
        Ok m \<Rightarrow> direct_directory m
      | Err NotFound \<Rightarrow>
          if \<not> da_create da then Err (io_failure ''private-intake-inbox'')
          else and_then (map_err (\<lambda>_. io_failure ''private-intake-inbox'') (da_created da)) direct_directory
      | Err OtherIo \<Rightarrow> Err (io_failure ''private-intake-inbox''))"

definition ensure_private_intake_inbox_directory_v1 ::
  "directory_answers \<Rightarrow> directory_answers \<Rightarrow> rstring \<Rightarrow> rstring list gresult" where
  "ensure_private_intake_inbox_directory_v1 inbox_root election_root manifest_hash_hex =
     and_then (ensure_direct_directory inbox_root) (\<lambda>_.
     and_then (private_intake_inbox_directory_v1 manifest_hash_hex) (\<lambda>election_dir.
     and_then (ensure_direct_directory election_root) (\<lambda>_.
     Ok election_dir)))"

section \<open>Appending a package\<close>

text \<open>
  The directory as a store. An entry that is not a regular file may still lead to one, through a link.
\<close>

datatype inbox_node =
    InboxFile bytes "nat option"
  | InboxOther bool

type_synonym inbox_store = "rstring \<rightharpoonup> inbox_node"

fun node_metadata :: "inbox_node option \<Rightarrow> (inbox_metadata, io_error) result" where
  "node_metadata None = Err NotFound"
| "node_metadata (Some (InboxFile bs modified)) =
     Ok \<lparr>im_is_file = True, im_reparse = False, im_len = u64_or_max (length bs), im_modified = modified\<rparr>"
| "node_metadata (Some (InboxOther _)) =
     Ok \<lparr>im_is_file = False, im_reparse = False, im_len = 0, im_modified = None\<rparr>"

fun node_bytes :: "inbox_node option \<Rightarrow> bytes option" where
  "node_bytes (Some (InboxFile bs _)) = Some bs"
| "node_bytes _ = None"

text \<open>The observation of an entry that does not change meanwhile.\<close>

definition steady :: "inbox_node option \<Rightarrow> inbox_observation" where
  "steady node = \<lparr>ob_inspected = node_metadata node, ob_before = node_metadata node, ob_read = node_bytes node,
     ob_after = node_metadata node\<rparr>"

text \<open>
  The answers of the file system to one append, and what other processes do to the directory after the
  inspection of the final name, between the write and the rename of the temporary file, and before the
  file under the final name is read back. The name of the temporary file depends on the package alone, so
  another process that appends the same package works on the same temporary file.
\<close>

record append_io =
  ap_directory :: directory_answers
  ap_stat :: bool
  ap_remove_stale :: bool
  ap_file :: file_io
  ap_modified :: "nat option"
  ap_before :: "inbox_store \<Rightarrow> inbox_store"
  ap_race :: "inbox_store \<Rightarrow> inbox_store"
  ap_after :: "inbox_store \<Rightarrow> inbox_store"

definition write_create_new_sync ::
  "file_io \<Rightarrow> nat option \<Rightarrow> rstring \<Rightarrow> bytes \<Rightarrow> inbox_store \<Rightarrow> unit gresult \<times> inbox_store" where
  "write_create_new_sync io modified path bs store =
     (if \<not> fio_open io \<or> store path \<noteq> None then (Err (io_failure ''private-intake-inbox''), store)
      else
        case fio_failed_write io of
          Some n \<Rightarrow>
            (Err (io_failure ''private-intake-inbox''),
             if fio_remove io then store else store(path \<mapsto> InboxFile (take n bs) modified))
        | None \<Rightarrow> (Ok (), store(path \<mapsto> InboxFile bs modified)))"

definition leads_to_file :: "inbox_node option \<Rightarrow> bool" where
  "leads_to_file node = (case node of Some (InboxFile _ _) \<Rightarrow> True | Some (InboxOther b) \<Rightarrow> b | None \<Rightarrow> False)"

definition package_file_name :: "(bytes \<Rightarrow> bytes32) \<Rightarrow> bytes \<Rightarrow> rstring" where
  "package_file_name blake3 package_bytes = ballot_package_digest_hex_v1 blake3 package_bytes @ INBOX_PACKAGE_FILE_SUFFIX"

definition append_accepted_ballot_package_to_inbox_v1 ::
  "(bytes \<Rightarrow> bytes32) \<Rightarrow> append_io \<Rightarrow> bytes \<Rightarrow> inbox_store \<Rightarrow> bool gresult \<times> inbox_store" where
  "append_accepted_ballot_package_to_inbox_v1 blake3 io package_bytes store =
     (if length package_bytes > MAX_BALLOT_PACKAGE_BYTES_V1 then (Err inbox_package_too_large, store)
      else
        case ensure_direct_directory (ap_directory io) of
          Err e \<Rightarrow> (Err e, store)
        | Ok _ \<Rightarrow>
            let final_path = package_file_name blake3 package_bytes;
                tmp_path = final_path @ lit ''.tmp'';
                checked = (\<lambda>new store. (map_ok (\<lambda>_. new)
                  (verify_existing_inbox_package (steady (store final_path)) package_bytes), store)) in
            if \<not> ap_stat io then (Err (io_failure ''private-intake-inbox''), store)
            else
              case store final_path of
                Some (InboxOther _) \<Rightarrow> (Err unsafe_inbox_path, store)
              | Some (InboxFile _ _) \<Rightarrow> checked False (ap_after io store)
              | None \<Rightarrow>
                  let store = ap_before io store in
                  (case write_create_new_sync (ap_file io) (ap_modified io) tmp_path package_bytes
                          (if ap_remove_stale io then store(tmp_path := None) else store) of
                     (Err e, store) \<Rightarrow> (Err e, store)
                   | (Ok _, store) \<Rightarrow>
                       let store = ap_race io store in
                       if fio_rename (ap_file io) \<and> store tmp_path \<noteq> None then
                         checked True (ap_after io (store(final_path := store tmp_path, tmp_path := None)))
                       else
                         let cleaned = (if fio_remove (ap_file io) then store(tmp_path := None) else store) in
                         if leads_to_file (store final_path) then checked False (ap_after io cleaned)
                         else (Err (io_failure ''private-intake-inbox''), cleaned)))"

section \<open>Ingesting the inbox\<close>

record gui_private_intake_sync_summary_v1 =
  sy_discovered :: nat
  sy_newly_accepted :: nat
  sy_duplicates :: nat
  sy_rejected :: nat

definition empty_sync_summary :: gui_private_intake_sync_summary_v1 where
  "empty_sync_summary = \<lparr>sy_discovered = 0, sy_newly_accepted = 0, sy_duplicates = 0, sy_rejected = 0\<rparr>"

definition saturating_succ :: "nat \<Rightarrow> nat" where
  "saturating_succ n = min (n + 1) usize_max"

definition update_sync_summary ::
  "gui_ballot_intake_result_v1 \<Rightarrow> gui_private_intake_sync_summary_v1 \<Rightarrow> gui_private_intake_sync_summary_v1" where
  "update_sync_summary result summary =
     (if ir_accepted result then summary\<lparr>sy_newly_accepted := saturating_succ (sy_newly_accepted summary)\<rparr>
      else if ir_category result = IntakeDuplicate then summary\<lparr>sy_duplicates := saturating_succ (sy_duplicates summary)\<rparr>
      else summary\<lparr>sy_rejected := saturating_succ (sy_rejected summary)\<rparr>)"

text \<open>
  A listing of the directory: none when it cannot be opened, and of each entry none when it cannot be
  read, and no name when that is not text.
\<close>

type_synonym directory_listing = "rstring option option list option"

fun list_package_names :: "nat \<Rightarrow> rstring option option list \<Rightarrow> rstring list gresult" where
  "list_package_names inspected [] = Ok []"
| "list_package_names inspected (None # entries) = Err (io_failure ''private-intake-inbox'')"
| "list_package_names inspected (Some None # entries) = list_package_names inspected entries"
| "list_package_names inspected (Some (Some name) # entries) =
     (if parse_inbox_package_filename name = None then list_package_names inspected entries
      else if inspected + 1 > MAX_PRIVATE_INTAKE_INBOX_FILES_V1 then Err too_many_inbox_files
      else map_ok ((#) name) (list_package_names (inspected + 1) entries))"

text \<open>The check of the directory, in which a missing one is an empty one, and the names in it.\<close>

definition inbox_names ::
  "(directory_metadata, io_error) result \<Rightarrow> directory_listing \<Rightarrow> rstring list option gresult" where
  "inbox_names metadata listing =
     (case metadata of
        Ok m \<Rightarrow>
          if \<not> dm_is_dir m \<or> dm_reparse m then Err unsafe_inbox_path
          else and_then (ok_or (io_failure ''private-intake-inbox'') listing) (\<lambda>entries.
               map_ok Some (list_package_names 0 entries))
      | Err NotFound \<Rightarrow> Ok None
      | Err OtherIo \<Rightarrow> Err (io_failure ''private-intake-inbox''))"

definition ingest_inbox_file ::
  "('q, 'pt, 'pp, 'is, 'ts, 'pf, 'tr) triptych_lib \<Rightarrow> (bytes \<Rightarrow> bytes32) \<Rightarrow> inbox_observation \<Rightarrow> rstring \<Rightarrow>
   gui_election_session_v1 \<Rightarrow> (gui_ballot_intake_result_v1 \<times> gui_election_session_v1) gresult" where
  "ingest_inbox_file L blake3 ob digest_hex s =
     and_then (ok_or inbox_invalid_filename (inbox_digest_from_filename digest_hex)) (\<lambda>expected_digest.
     and_then (inspect_bounded_package_file (ob_inspected ob)) (\<lambda>identity.
     and_then (case fi_modified identity of
                 None \<Rightarrow> Ok None
               | Some modified \<Rightarrow> reconcile_cached_inbox_digest expected_digest (fi_byte_len identity) modified s) (\<lambda>cached.
     case cached of
       Some result \<Rightarrow> Ok (result, s)
     | None \<Rightarrow>
         and_then (read_bounded_package_file ob) (\<lambda>(package_bytes, validated_identity).
         if ballot_package_digest_hex_v1 blake3 package_bytes \<noteq> digest_hex then Err inbox_digest_mismatch
         else
           and_then (reconcile_accepted_package_bytes_from_inbox L blake3 package_bytes s) (\<lambda>(result, s).
           Ok (result, case fi_modified validated_identity of
                         None \<Rightarrow> s
                       | Some modified \<Rightarrow>
                           remember_validated_inbox_file expected_digest (fi_byte_len validated_identity) modified s))))))"

fun ingest_inbox_files ::
  "('q, 'pt, 'pp, 'is, 'ts, 'pf, 'tr) triptych_lib \<Rightarrow> (bytes \<Rightarrow> bytes32) \<Rightarrow> (rstring \<Rightarrow> inbox_observation) \<Rightarrow> rstring list \<Rightarrow>
   gui_private_intake_sync_summary_v1 \<Rightarrow> gui_election_session_v1 \<Rightarrow>
   gui_private_intake_sync_summary_v1 gresult \<times> gui_election_session_v1" where
  "ingest_inbox_files L blake3 observe [] summary s = (Ok summary, s)"
| "ingest_inbox_files L blake3 observe (digest_hex # digests) summary s =
     (case ingest_inbox_file L blake3 (observe (digest_hex @ INBOX_PACKAGE_FILE_SUFFIX)) digest_hex s of
        Err e \<Rightarrow> (Err e, s)
      | Ok (result, s) \<Rightarrow>
          ingest_inbox_files L blake3 observe digests
            (update_sync_summary result (summary\<lparr>sy_discovered := saturating_succ (sy_discovered summary)\<rparr>)) s)"

definition ingest_private_intake_inbox_into_session_v1 ::
  "('q, 'pt, 'pp, 'is, 'ts, 'pf, 'tr) triptych_lib \<Rightarrow> (bytes \<Rightarrow> bytes32) \<Rightarrow> (directory_metadata, io_error) result \<Rightarrow>
   directory_listing \<Rightarrow> (rstring \<Rightarrow> inbox_observation) \<Rightarrow> gui_election_session_v1 \<Rightarrow>
   gui_private_intake_sync_summary_v1 gresult \<times> gui_election_session_v1" where
  "ingest_private_intake_inbox_into_session_v1 L blake3 metadata listing observe s =
     (case inbox_names metadata listing of
        Err e \<Rightarrow> (Err e, s)
      | Ok None \<Rightarrow> (Ok empty_sync_summary, s)
      | Ok (Some names) \<Rightarrow>
          ingest_inbox_files L blake3 observe (sort (List.map_filter parse_inbox_package_filename names)) empty_sync_summary s)"

section \<open>The accepted digests\<close>

definition read_accepted_digest :: "(bytes \<Rightarrow> bytes32) \<Rightarrow> (rstring \<Rightarrow> inbox_observation) \<Rightarrow> rstring \<Rightarrow> bytes32 gresult" where
  "read_accepted_digest blake3 observe name =
     and_then (ok_or (io_failure ''private-intake-inbox'') (parse_inbox_package_filename name)) (\<lambda>digest_hex.
     and_then (ok_or inbox_invalid_filename (inbox_digest_from_filename digest_hex)) (\<lambda>expected.
     and_then (read_bounded_package_file (observe name)) (\<lambda>(package_bytes, _).
     if ballot_package_digest_hex_v1 blake3 package_bytes \<noteq> digest_hex then Err inbox_digest_mismatch
     else Ok (package_digest_bytes expected))))"

definition read_accepted_package_digests_v1 ::
  "(bytes \<Rightarrow> bytes32) \<Rightarrow> (directory_metadata, io_error) result \<Rightarrow> directory_listing \<Rightarrow> (rstring \<Rightarrow> inbox_observation) \<Rightarrow>
   bytes32 list gresult" where
  "read_accepted_package_digests_v1 blake3 metadata listing observe =
     and_then (inbox_names metadata listing) (\<lambda>names.
     case names of
       None \<Rightarrow> Ok []
     | Some names \<Rightarrow> map_ok sort_dedup (collect_results (read_accepted_digest blake3 observe) names))"

end
