(* ===== verification/Inbox_Soundness.thy ===== *)
theory Inbox_Soundness
  imports Intake_Inbox
begin

text \<open>
  Lemmas about the inbox: names and digests correspond, an intact file is ingested as the reconciliation of
  its bytes whatever the cache holds, a pass over the inbox is the reconciliation of its packages in digest
  order, and appending keeps the store content-addressed under every fault.
\<close>

section \<open>Names\<close>

lemma inbox_hex_nibble_digit: "x < 16 \<Longrightarrow> inbox_hex_nibble (hex_digit x) = Some x"
  using hex_digit_lower [of x] by (auto simp: inbox_hex_nibble_def hex_nibble_def)

lemma inbox_hex_pairs_slice: "inbox_hex_pairs (to_lower_hex_slice bs) = Some bs"
  by (induction bs) (simp_all add: to_lower_hex_slice_def inbox_hex_nibble_digit nibbles)

lemma length_lower_hex [simp]: "length (to_lower_hex d) = 64"
  by (simp add: to_lower_hex_def)

lemma digest_from_lower_hex [simp]: "inbox_digest_from_filename (to_lower_hex d) = Some (BallotPackageDigestV1 d)"
  by (simp add: inbox_digest_from_filename_def DIGEST_HEX_BYTES_def) (simp add: to_lower_hex_def inbox_hex_pairs_slice)

lemma ends_with_append [simp]: "ends_with (s @ suf) suf"
  by (simp add: ends_with_def starts_with_def)

lemma parse_package_name [simp]:
  "parse_inbox_package_filename (to_lower_hex d @ INBOX_PACKAGE_FILE_SUFFIX) = Some (to_lower_hex d)"
  using lower_hex_valid [of "arr_bytes d"]
  by (simp add: parse_inbox_package_filename_def DIGEST_HEX_BYTES_def flip: to_lower_hex_def)

lemma parse_name_inv: "parse_inbox_package_filename name = Some h \<Longrightarrow> name = h @ INBOX_PACKAGE_FILE_SUFFIX"
  by (auto simp: parse_inbox_package_filename_def ends_with_def starts_with_def Let_def take_rev split: if_splits)
    (metis append_take_drop_id)

lemma tmp_name_no_package: "parse_inbox_package_filename (h @ INBOX_PACKAGE_FILE_SUFFIX @ lit ''.tmp'') = None"
  by (simp add: parse_inbox_package_filename_def ends_with_def starts_with_def INBOX_PACKAGE_FILE_SUFFIX_def lit_def)

section \<open>Intact files\<close>

abbreviation content_digest :: "(bytes \<Rightarrow> bytes32) \<Rightarrow> bytes \<Rightarrow> bytes32" where
  "content_digest blake3 bs \<equiv> hash_domain_separated (Blake3HashProviderV1 blake3) BallotPackageV1 bs"

lemma digest_hex_inject: "ballot_package_digest_hex_v1 blake3 a = to_lower_hex d \<longleftrightarrow> content_digest blake3 a = d"
  by (simp add: ballot_package_digest_hex_v1_def to_lower_hex_inject)

lemma file_metadata_bounded:
  assumes "length bs \<le> MAX_BALLOT_PACKAGE_BYTES_V1"
  shows "inspect_bounded_package_file (node_metadata (Some (InboxFile bs modified))) =
      Ok \<lparr>fi_byte_len = u64_or_max (length bs), fi_modified = modified\<rparr>"
    and "u64_of_usize (length bs) = Some (u64_or_max (length bs))"
proof -
  have "length bs < 2 ^ 64" using assms by (simp add: MAX_BALLOT_PACKAGE_BYTES_V1_def limits_def)
  with assms show "inspect_bounded_package_file (node_metadata (Some (InboxFile bs modified))) =
      Ok \<lparr>fi_byte_len = u64_or_max (length bs), fi_modified = modified\<rparr>"
    and "u64_of_usize (length bs) = Some (u64_or_max (length bs))"
    by (simp_all add: inspect_bounded_package_file_def) (simp add: u64_or_max_def u64_of_usize_def)
qed

lemma read_steady:
  assumes "length bs \<le> MAX_BALLOT_PACKAGE_BYTES_V1"
  shows "read_bounded_package_file (steady (Some (InboxFile bs modified))) =
    Ok (bs, \<lparr>fi_byte_len = u64_or_max (length bs), fi_modified = modified\<rparr>)"
  using file_metadata_bounded [OF assms] by (simp add: read_bounded_package_file_def steady_def)

lemma read_bounded_Ok:
  assumes "read_bounded_package_file ob = Ok (bs, i)"
  shows "ob_read ob = Some bs \<and> length bs \<le> MAX_BALLOT_PACKAGE_BYTES_V1"
proof -
  from assms have "ob_read ob = Some bs" "u64_of_usize (length bs) = Some (fi_byte_len i)"
    and i: "inspect_bounded_package_file (ob_after ob) = Ok i"
    by (auto simp: read_bounded_package_file_def result_inv split: if_splits)
  moreover from i have "unat (fi_byte_len i) \<le> MAX_BALLOT_PACKAGE_BYTES_V1"
    by (auto simp: inspect_bounded_package_file_def result_inv split: if_splits)
  moreover have "unat (word_of_nat (length bs) :: u64) = length bs" if "length bs < 2 ^ 64"
    using that by (simp add: unat_of_nat take_bit_nat_eq_self)
  ultimately show ?thesis by (auto simp: u64_of_usize_def split: if_splits)
qed

section \<open>Reconciling without the cache\<close>

definition set_cache ::
  "(ballot_package_digest_v1 \<rightharpoonup> private_inbox_file_validation_v1) \<Rightarrow> gui_election_session_v1 \<Rightarrow> gui_election_session_v1" where
  "set_cache c s = s\<lparr>gs_inbox_cache := c\<rparr>"

lemma set_cache_simps [simp]:
  "gs_artifacts (set_cache c s) = gs_artifacts s" "gs_lifecycle (set_cache c s) = gs_lifecycle s"
  "gs_ledger (set_cache c s) = gs_ledger s" "gs_transcript (set_cache c s) = gs_transcript s"
  "gs_packages (set_cache c s) = gs_packages s" "gs_digest_index (set_cache c s) = gs_digest_index s"
  "gs_verifier (set_cache c s) = gs_verifier s" "gs_inbox_cache (set_cache c s) = c"
  "set_cache c (set_cache c' s) = set_cache c s" "set_cache (gs_inbox_cache s) s = s"
  by (simp_all add: set_cache_def)

lemma set_cache_with_state: "set_cache c s = with_state (lc_state (gs_lifecycle s)) c s"
  by (simp add: set_cache_def with_state_def)

lemma gui_inv_set_cache [simp]: "gui_inv L blake3 (set_cache c s) \<longleftrightarrow> gui_inv L blake3 s"
  by (simp add: set_cache_with_state gui_inv_with_state)

lemma earliest_set_cache [simp]: "earliest_decision d (set_cache c s) = earliest_decision d s"
  by (simp add: earliest_decision_def)

lemma remember_set_cache: "remember_validated_inbox_file d n m s = set_cache ((gs_inbox_cache s)(d \<mapsto> \<lparr>fv_byte_len = n, fv_modified = m\<rparr>)) s"
  by (simp add: remember_validated_inbox_file_def set_cache_def)

lemma process_set_cache:
  assumes "lc_state (gs_lifecycle s) \<in> {Open, Closed}"
  shows "process_intake_package_with_digest L blake3 bs (package_digest blake3 bs) (set_cache c s) =
     map_ok (\<lambda>(r, s'). (r, set_cache c s')) (process_intake_package_with_digest L blake3 bs (package_digest blake3 bs) s)"
  unfolding set_cache_with_state [of c s] process_state [OF assms assms]
  by (cases "process_intake_package_with_digest L blake3 bs (package_digest blake3 bs) s")
    (auto dest!: process_frame simp: set_cache_with_state)

lemma indexed_set_cache [simp]:
  "indexed_inbox_reconciliation_result d (set_cache c s) = indexed_inbox_reconciliation_result d s"
  by (cases "gs_digest_index s d") (simp_all add: indexed_inbox_reconciliation_result_def)

lemma reconcile_set_cache:
  assumes "lc_state (gs_lifecycle s) \<in> {Open, Closed}"
  shows "reconcile_accepted_package_bytes_from_inbox L blake3 bs (set_cache c s) =
     map_ok (\<lambda>(r, s'). (r, set_cache c s')) (reconcile_accepted_package_bytes_from_inbox L blake3 bs s)"
  using process_set_cache [OF assms] ensure_inbox_Ok [OF assms] ensure_inbox_Ok [of "set_cache c s"] assms
  by (cases "indexed_inbox_reconciliation_result (package_digest blake3 bs) s")
    (auto simp: reconcile_accepted_package_bytes_from_inbox_def split: option.splits)

text \<open>A reconciliation ends with a decision for the package, and an accepted answer is a new ballot.\<close>

lemma process_decision:
  assumes "process_intake_package_with_digest L blake3 bs d s = Ok (r, s')"
  shows "\<exists>e. vt_decisions (gs_transcript s') = vt_decisions (gs_transcript s) @ [e] \<and> r = intake_result d (bd_outcome e)"
proof -
  from assms obtain q t1 outcome ledger where sub: "record_submission d True (gs_transcript s) = Ok (q, t1)"
    and c: "conclude_intake q d outcome ledger t1 bs s = Ok s'" and r: "r = intake_result d outcome"
    by (auto simp: process_intake_package_with_digest_def result_inv Let_def case_prod_beta)
  from c obtain t2 where dec: "record_decision q d outcome t1 = Ok t2" and t2: "gs_transcript s' = t2"
    by (auto simp: conclude_intake_def record_private_intake_digest_index_entry_def Let_def result_inv split: option.splits)
  have "vt_decisions t1 = vt_decisions (gs_transcript s)" using sub by (auto simp: record_submission_def result_inv)
  moreover have "vt_decisions t2 = vt_decisions t1 @ [\<lparr>bd_sequence = q, bd_package_digest = d, bd_outcome = outcome\<rparr>]"
    using dec by (auto simp: record_decision_def result_inv)
  ultimately show ?thesis using r t2 by simp
qed

lemma reconcile_effect:
  assumes inv: "gui_inv L blake3 s" and st: "lc_state (gs_lifecycle s) \<in> {Open, Closed}"
    and len: "length (gs_packages s) < 2 ^ 64"
  shows "\<exists>r s'. reconcile_accepted_package_bytes_from_inbox L blake3 bs s = Ok (r, s') \<and> gui_inv L blake3 s'
    \<and> lc_state (gs_lifecycle s') = lc_state (gs_lifecycle s)
    \<and> earliest_decision (package_digest blake3 bs) s' \<noteq> None
    \<and> (\<forall>d. earliest_decision d s \<noteq> None \<longrightarrow> earliest_decision d s' \<noteq> None)
    \<and> length (gs_packages s') \<le> length (gs_packages s) + 1
    \<and> length (bl_accepted_ballots (gs_ledger s')) = length (bl_accepted_ballots (gs_ledger s)) + of_bool (ir_accepted r)"
proof (cases "earliest_decision (package_digest blake3 bs) s")
  case (Some e)
  then show ?thesis
    using reconcile_decided [OF inv st, of bs] inv by (auto simp: intake_result_def repeated_outcome_def Let_def split: option.splits)
next
  case None
  let ?d = "package_digest blake3 bs"
  from process_total [OF inv len, of bs] obtain outcome s' where
    p: "process_intake_package_with_digest L blake3 bs ?d s = Ok (intake_result ?d outcome, s')" and inv': "gui_inv L blake3 s'"
    and e: "earliest_decision ?d s' \<noteq> None" by auto
  from process_decision [OF p] obtain e where
    dec: "vt_decisions (gs_transcript s') = vt_decisions (gs_transcript s) @ [e]" "intake_result ?d outcome = intake_result ?d (bd_outcome e)"
    by blast
  have acc: "ir_accepted (intake_result ?d x) = is_accepted x" for x
    by (auto simp: intake_result_def Let_def split: option.splits)
  have "accepted_count (gs_transcript s') = accepted_count (gs_transcript s) + of_bool (is_accepted (bd_outcome e))"
    by (simp add: accepted_count_def dec(1))
  moreover have "earliest_decision d s' \<noteq> None" if "earliest_decision d s \<noteq> None" for d
    using that by (auto simp: earliest_decision_def dec(1) find_snoc)
  moreover have "reconcile_accepted_package_bytes_from_inbox L blake3 bs s = Ok (intake_result ?d outcome, s')"
    using p None ensure_inbox_Ok [OF st] indexed_result_search [OF inv]
    by (simp add: reconcile_accepted_package_bytes_from_inbox_def)
  ultimately show ?thesis
    using inv inv' e process_frame [OF p] acc [of outcome] acc [of "bd_outcome e"] dec(2) unfolding gui_inv_def by auto
qed

section \<open>A pass over the inbox\<close>

text \<open>The specification of a pass: the packages reconciled one after the other.\<close>

fun reconcile_all ::
  "('q, 'pt, 'pp, 'is, 'ts, 'pf, 'tr) triptych_lib \<Rightarrow> (bytes \<Rightarrow> bytes32) \<Rightarrow> bytes list \<Rightarrow>
   gui_election_session_v1 \<Rightarrow> (gui_ballot_intake_result_v1 list \<times> gui_election_session_v1) gresult" where
  "reconcile_all L blake3 [] s = Ok ([], s)"
| "reconcile_all L blake3 (package # packages) s =
     and_then (reconcile_accepted_package_bytes_from_inbox L blake3 package s) (\<lambda>(r, s).
     map_ok (\<lambda>(rs, s). (r # rs, s)) (reconcile_all L blake3 packages s))"

lemma ingest_intact_file:
  assumes inv: "gui_inv L blake3 s" and st: "lc_state (gs_lifecycle s) \<in> {Open, Closed}" and len: "length (gs_packages s) < 2 ^ 64"
    and bs: "length bs \<le> MAX_BALLOT_PACKAGE_BYTES_V1"
  shows "\<exists>r s' c. reconcile_accepted_package_bytes_from_inbox L blake3 bs s = Ok (r, s')
    \<and> ingest_inbox_file L blake3 (steady (Some (InboxFile bs m))) (ballot_package_digest_hex_v1 blake3 bs) s = Ok (r, set_cache c s')"
proof -
  let ?d = "package_digest blake3 bs" and ?hex = "ballot_package_digest_hex_v1 blake3 bs"
  from reconcile_effect [OF inv st len, of bs] obtain r s' where
    rec: "reconcile_accepted_package_bytes_from_inbox L blake3 bs s = Ok (r, s')" by blast
  have d: "inbox_digest_from_filename ?hex = Some ?d" by (simp add: ballot_package_digest_hex_v1_def package_digest_def)
  have id: "inspect_bounded_package_file (ob_inspected (steady (Some (InboxFile bs m)))) =
      Ok \<lparr>fi_byte_len = u64_or_max (length bs), fi_modified = m\<rparr>"
    using file_metadata_bounded [OF bs] by (simp add: steady_def)
  define cached where "cached = (case m of None \<Rightarrow> Ok None
    | Some t \<Rightarrow> reconcile_cached_inbox_digest ?d (u64_or_max (length bs)) t s)"
  have "cached = Ok None \<or> cached = indexed_inbox_reconciliation_result ?d s"
    using ensure_inbox_Ok [OF st] by (auto simp: cached_def reconcile_cached_inbox_digest_def split: option.splits)
  then consider "cached = Ok None" | e where "earliest_decision ?d s = Some e" "cached = Ok (Some (intake_result ?d (repeated_outcome (bd_outcome e))))"
    using indexed_result_search [OF inv, of ?d] by (cases "earliest_decision ?d s") auto
  then show ?thesis
  proof cases
    case 1
    then show ?thesis
      using rec d id read_steady [OF bs, of m]
      by (intro exI [of _ r] exI [of _ s'] exI [of _ "case m of None \<Rightarrow> gs_inbox_cache s'
          | Some t \<Rightarrow> (gs_inbox_cache s')(?d \<mapsto> \<lparr>fv_byte_len = u64_or_max (length bs), fv_modified = t\<rparr>)"])
        (auto simp: ingest_inbox_file_def cached_def remember_set_cache split: option.splits)
  next
    case (2 e)
    then show ?thesis
      using rec d id reconcile_decided [OF inv st 2(1)]
      by (intro exI [of _ r] exI [of _ s'] exI [of _ "gs_inbox_cache s"])
        (cases m; auto simp: ingest_inbox_file_def cached_def)
  qed
qed

lemma reconcile_all_set_cache:
  "gui_inv L blake3 s \<Longrightarrow> lc_state (gs_lifecycle s) \<in> {Open, Closed} \<Longrightarrow> length (gs_packages s) + length ps \<le> 2 ^ 64 \<Longrightarrow>
   reconcile_all L blake3 ps (set_cache c s) = map_ok (\<lambda>(rs, s'). (rs, set_cache c s')) (reconcile_all L blake3 ps s)"
proof (induction ps arbitrary: s)
  case (Cons p ps)
  then have "length (gs_packages s) < 2 ^ 64" by simp
  from reconcile_effect [OF Cons.prems(1, 2) this, of p] obtain r s1 where
    r: "reconcile_accepted_package_bytes_from_inbox L blake3 p s = Ok (r, s1)" "gui_inv L blake3 s1"
    "lc_state (gs_lifecycle s1) = lc_state (gs_lifecycle s)" "length (gs_packages s1) \<le> length (gs_packages s) + 1" by blast
  with Cons.IH [OF r(2)] Cons.prems reconcile_set_cache [OF Cons.prems(2), of L blake3 p c] show ?case
    by (cases "reconcile_all L blake3 ps s1") auto
qed simp

lemma reconcile_all_effect:
  "gui_inv L blake3 s \<Longrightarrow> lc_state (gs_lifecycle s) \<in> {Open, Closed} \<Longrightarrow> length (gs_packages s) + length ps \<le> 2 ^ 64 \<Longrightarrow>
   \<exists>rs s'. reconcile_all L blake3 ps s = Ok (rs, s') \<and> gui_inv L blake3 s' \<and> length rs = length ps
     \<and> lc_state (gs_lifecycle s') = lc_state (gs_lifecycle s) \<and> length (gs_packages s') \<le> length (gs_packages s) + length ps
     \<and> (\<forall>d. earliest_decision d s \<noteq> None \<or> d \<in> package_digest blake3 ` set ps \<longrightarrow> earliest_decision d s' \<noteq> None)
     \<and> length (bl_accepted_ballots (gs_ledger s')) = length (bl_accepted_ballots (gs_ledger s)) + length (filter ir_accepted rs)"
proof (induction ps arbitrary: s)
  case (Cons p ps)
  then have "length (gs_packages s) < 2 ^ 64" by simp
  from reconcile_effect [OF Cons.prems(1, 2) this, of p] obtain r s1 where
    r: "reconcile_accepted_package_bytes_from_inbox L blake3 p s = Ok (r, s1)" "gui_inv L blake3 s1"
    "lc_state (gs_lifecycle s1) = lc_state (gs_lifecycle s)" "length (gs_packages s1) \<le> length (gs_packages s) + 1"
    "earliest_decision (package_digest blake3 p) s1 \<noteq> None" "\<forall>d. earliest_decision d s \<noteq> None \<longrightarrow> earliest_decision d s1 \<noteq> None"
    "length (bl_accepted_ballots (gs_ledger s1)) = length (bl_accepted_ballots (gs_ledger s)) + of_bool (ir_accepted r)" by blast
  from Cons.IH [OF r(2)] Cons.prems r(3, 4) obtain rs s' where
    rs: "reconcile_all L blake3 ps s1 = Ok (rs, s')" "gui_inv L blake3 s'" "length rs = length ps"
    "lc_state (gs_lifecycle s') = lc_state (gs_lifecycle s1)" "length (gs_packages s') \<le> length (gs_packages s1) + length ps"
    "\<forall>d. earliest_decision d s1 \<noteq> None \<or> d \<in> package_digest blake3 ` set ps \<longrightarrow> earliest_decision d s' \<noteq> None"
    "length (bl_accepted_ballots (gs_ledger s')) = length (bl_accepted_ballots (gs_ledger s1)) + length (filter ir_accepted rs)"
    by auto
  show ?case using r rs by (intro exI [of _ "r # rs"] exI [of _ s']) auto
qed simp

lemma reconcile_all_decided:
  "gui_inv L blake3 s \<Longrightarrow> lc_state (gs_lifecycle s) \<in> {Open, Closed} \<Longrightarrow>
   \<forall>p \<in> set ps. earliest_decision (package_digest blake3 p) s \<noteq> None \<Longrightarrow>
   \<exists>rs. reconcile_all L blake3 ps s = Ok (rs, s) \<and> filter ir_accepted rs = []"
proof (induction ps)
  case (Cons p ps)
  then obtain e rs where "earliest_decision (package_digest blake3 p) s = Some e" "reconcile_all L blake3 ps s = Ok (rs, s)"
    "filter ir_accepted rs = []" by auto
  with reconcile_decided [OF Cons.prems(1, 2), of p e] show ?case
    by (auto simp: intake_result_def repeated_outcome_def Let_def split: option.splits)
qed simp

definition summarize ::
  "gui_ballot_intake_result_v1 list \<Rightarrow> gui_private_intake_sync_summary_v1 \<Rightarrow> gui_private_intake_sync_summary_v1" where
  "summarize = fold (\<lambda>r y. update_sync_summary r (y\<lparr>sy_discovered := saturating_succ (sy_discovered y)\<rparr>))"

lemma summarize_counts:
  "sy_discovered y + length rs \<le> usize_max \<Longrightarrow>
   sy_newly_accepted y + sy_duplicates y + sy_rejected y = sy_discovered y \<Longrightarrow>
   sy_discovered (summarize rs y) = sy_discovered y + length rs
   \<and> sy_newly_accepted (summarize rs y) = sy_newly_accepted y + length (filter ir_accepted rs)
   \<and> sy_newly_accepted (summarize rs y) + sy_duplicates (summarize rs y) + sy_rejected (summarize rs y)
       = sy_discovered (summarize rs y)"
proof (induction rs arbitrary: y)
  case (Cons r rs)
  define y' where "y' = update_sync_summary r (y\<lparr>sy_discovered := saturating_succ (sy_discovered y)\<rparr>)"
  have y': "sy_discovered y' = sy_discovered y + 1" "sy_newly_accepted y' = sy_newly_accepted y + of_bool (ir_accepted r)"
    "sy_newly_accepted y' + sy_duplicates y' + sy_rejected y' = sy_discovered y'"
    using Cons.prems by (auto simp: y'_def update_sync_summary_def saturating_succ_def)
  have "summarize (r # rs) y = summarize rs y'" by (simp add: summarize_def y'_def)
  with Cons.IH [of y'] y' Cons.prems show ?case by simp
qed (simp add: summarize_def)

lemma ingest_files_reconcile:
  "gui_inv L blake3 s \<Longrightarrow> lc_state (gs_lifecycle s) \<in> {Open, Closed} \<Longrightarrow> length (gs_packages s) + length ps \<le> 2 ^ 64 \<Longrightarrow>
   \<forall>p \<in> set ps. length p \<le> MAX_BALLOT_PACKAGE_BYTES_V1 \<and> (\<exists>m. observe (package_file_name blake3 p) = steady (Some (InboxFile p m))) \<Longrightarrow>
   reconcile_all L blake3 ps s = Ok (rs, s') \<Longrightarrow>
   \<exists>c. ingest_inbox_files L blake3 observe (map (ballot_package_digest_hex_v1 blake3) ps) y s = (Ok (summarize rs y), set_cache c s')"
proof (induction ps arbitrary: s s' rs y)
  case Nil
  then show ?case by (auto simp: summarize_def intro!: exI [of _ "gs_inbox_cache s"])
next
  case (Cons p ps)
  from Cons.prems obtain m where p: "length p \<le> MAX_BALLOT_PACKAGE_BYTES_V1"
    "observe (package_file_name blake3 p) = steady (Some (InboxFile p m))" and len: "length (gs_packages s) < 2 ^ 64" by auto
  from ingest_intact_file [OF Cons.prems(1, 2) len p(1), of m] obtain r s1 c where
    r: "reconcile_accepted_package_bytes_from_inbox L blake3 p s = Ok (r, s1)"
    "ingest_inbox_file L blake3 (steady (Some (InboxFile p m))) (ballot_package_digest_hex_v1 blake3 p) s = Ok (r, set_cache c s1)"
    by blast
  from reconcile_effect [OF Cons.prems(1, 2) len, of p] r(1) have s1: "gui_inv L blake3 s1"
    "lc_state (gs_lifecycle s1) = lc_state (gs_lifecycle s)" "length (gs_packages s1) \<le> length (gs_packages s) + 1" by auto
  from Cons.prems(5) r(1) obtain rs1 where rs: "reconcile_all L blake3 ps s1 = Ok (rs1, s')" "rs = r # rs1"
    by (auto simp: result_inv)
  then have all: "reconcile_all L blake3 ps (set_cache c s1) = Ok (rs1, set_cache c s')"
    using reconcile_all_set_cache [OF s1(1)] s1 Cons.prems by simp
  have "\<exists>c'. ingest_inbox_files L blake3 observe (map (ballot_package_digest_hex_v1 blake3) ps)
      (update_sync_summary r (y\<lparr>sy_discovered := saturating_succ (sy_discovered y)\<rparr>)) (set_cache c s1) =
      (Ok (summarize rs1 (update_sync_summary r (y\<lparr>sy_discovered := saturating_succ (sy_discovered y)\<rparr>))), set_cache c' (set_cache c s'))"
    by (rule Cons.IH [OF _ _ _ _ all]) (use s1 Cons.prems in auto)
  then show ?case using r(2) p(2) rs(2) by (auto simp: package_file_name_def summarize_def)
qed

text \<open>Whatever is observed and whatever fails, a pass only takes steps that the session offers.\<close>

lemma ingest_file_reachable:
  assumes "gui_reachable L nfc blake3 s" and "ingest_inbox_file L blake3 ob h s = Ok (r, s')"
  shows "gui_reachable L nfc blake3 s'"
proof -
  from assms(2) obtain d cached where step: "(case cached of
       Some result \<Rightarrow> Ok (result, s)
     | None \<Rightarrow>
         and_then (read_bounded_package_file ob) (\<lambda>(bs, i).
         if ballot_package_digest_hex_v1 blake3 bs \<noteq> h then Err inbox_digest_mismatch
         else
           and_then (reconcile_accepted_package_bytes_from_inbox L blake3 bs s) (\<lambda>(r, s).
           Ok (r, case fi_modified i of None \<Rightarrow> s
                  | Some m \<Rightarrow> remember_validated_inbox_file d (fi_byte_len i) m s)))) = Ok (r, s')"
    unfolding ingest_inbox_file_def and_then_Ok_iff by blast
  show ?thesis
  proof (cases cached)
    case None
    with step obtain bs s1 where rec: "reconcile_accepted_package_bytes_from_inbox L blake3 bs s = Ok (r, s1)"
      and s': "s' = s1 \<or> (\<exists>n m. s' = remember_validated_inbox_file d n m s1)"
      apply (auto simp: result_inv split: prod.splits option.splits)
      subgoal premises p for a b ba y
        using p(2) [OF p(6)] by blast
      done
    have "gui_reachable L nfc blake3 s1" by (rule gr_reconcile [OF assms(1) rec])
    with s' show ?thesis by (auto intro: gr_remember)
  qed (use step assms(1) in simp)
qed

lemma ingest_files_reachable:
  "gui_reachable L nfc blake3 s \<Longrightarrow> gui_reachable L nfc blake3 (snd (ingest_inbox_files L blake3 observe hs y s))"
  by (induction hs arbitrary: y s) (auto split: result.splits dest: ingest_file_reachable)

lemma ingest_reachable:
  "gui_reachable L nfc blake3 s \<Longrightarrow>
   gui_reachable L nfc blake3 (snd (ingest_private_intake_inbox_into_session_v1 L blake3 metadata listing observe s))"
  by (auto simp: ingest_private_intake_inbox_into_session_v1_def ingest_files_reachable split: result.splits option.splits)

section \<open>Listings\<close>

abbreviation is_package_name :: "rstring \<Rightarrow> bool" where
  "is_package_name name \<equiv> parse_inbox_package_filename name \<noteq> None"

lemma list_package_names_all:
  "inspected + length (filter is_package_name names) \<le> MAX_PRIVATE_INTAKE_INBOX_FILES_V1 \<Longrightarrow>
   list_package_names inspected (map (\<lambda>n. Some (Some n)) names) = Ok (filter is_package_name names)"
  by (induction names arbitrary: inspected) (auto split: if_splits)

text \<open>A store whose package files are complete and named by their contents, and a listing of it.\<close>

definition content_addressed :: "(bytes \<Rightarrow> bytes32) \<Rightarrow> inbox_store \<Rightarrow> bool" where
  "content_addressed blake3 store \<longleftrightarrow>
     (\<forall>name node. store name = Some node \<and> is_package_name name \<longrightarrow>
        (\<exists>bs m. node = InboxFile bs m \<and> name = package_file_name blake3 bs \<and> length bs \<le> MAX_BALLOT_PACKAGE_BYTES_V1))"

definition lists_store :: "rstring list \<Rightarrow> inbox_store \<Rightarrow> bool" where
  "lists_store names store \<longleftrightarrow>
     distinct names \<and> set names = dom store \<and> length (filter is_package_name names) \<le> MAX_PRIVATE_INTAKE_INBOX_FILES_V1"

abbreviation listing :: "rstring list \<Rightarrow> directory_listing" where
  "listing names \<equiv> Some (map (\<lambda>n. Some (Some n)) names)"

abbreviation direct :: "(directory_metadata, io_error) result" where
  "direct \<equiv> Ok \<lparr>dm_is_dir = True, dm_reparse = False\<rparr>"

lemma inbox_names_listing:
  "lists_store names store \<Longrightarrow> inbox_names direct (listing names) = Ok (Some (filter is_package_name names))"
  using list_package_names_all [of 0 names] by (simp add: inbox_names_def lists_store_def)

lemma package_name_parse [simp]:
  "parse_inbox_package_filename (package_file_name blake3 bs) = Some (ballot_package_digest_hex_v1 blake3 bs)"
  by (simp add: package_file_name_def ballot_package_digest_hex_v1_def)

text \<open>The packages of a store, in the order of their digests.\<close>

definition stored_packages :: "(bytes \<Rightarrow> bytes32) \<Rightarrow> inbox_store \<Rightarrow> bytes list \<Rightarrow> bool" where
  "stored_packages blake3 store ps \<longleftrightarrow>
     sorted (map (ballot_package_digest_hex_v1 blake3) ps) \<and> distinct (map (ballot_package_digest_hex_v1 blake3) ps)
     \<and> (\<forall>p \<in> set ps. length p \<le> MAX_BALLOT_PACKAGE_BYTES_V1 \<and> (\<exists>m. store (package_file_name blake3 p) = Some (InboxFile p m)))
     \<and> (\<forall>name. is_package_name name \<and> store name \<noteq> None \<longrightarrow> name \<in> package_file_name blake3 ` set ps)"

lemma map_filter_filter: "List.map_filter f xs = map (\<lambda>x. the (f x)) (filter (\<lambda>x. f x \<noteq> None) xs)"
  by (induction xs) (auto simp: List.map_filter_def)

lemma listed_packages:
  assumes ca: "content_addressed blake3 store" and ls: "lists_store names store"
  obtains ps where "stored_packages blake3 store ps" "length ps = length (filter is_package_name names)"
    "sort (List.map_filter parse_inbox_package_filename (filter is_package_name names)) = map (ballot_package_digest_hex_v1 blake3) ps"
    "set (filter is_package_name names) = package_file_name blake3 ` set ps"
proof -
  define hs where "hs = sort (map (\<lambda>n. the (parse_inbox_package_filename n)) (filter is_package_name names))"
  define ps where "ps = map (\<lambda>h. the (node_bytes (store (h @ INBOX_PACKAGE_FILE_SUFFIX)))) hs"
  have node: "\<exists>bs m. store n = Some (InboxFile bs m) \<and> n = package_file_name blake3 bs \<and> length bs \<le> MAX_BALLOT_PACKAGE_BYTES_V1"
    if "n \<in> set (filter is_package_name names)" for n
  proof -
    from that ls obtain x where "store n = Some x" by (auto simp: lists_store_def)
    with that ca show ?thesis unfolding content_addressed_def by auto
  qed
  have h: "\<exists>bs m. h = ballot_package_digest_hex_v1 blake3 bs \<and> store (package_file_name blake3 bs) = Some (InboxFile bs m)
      \<and> length bs \<le> MAX_BALLOT_PACKAGE_BYTES_V1" if "h \<in> set hs" for h
  proof -
    from that obtain n where "n \<in> set (filter is_package_name names)" "h = the (parse_inbox_package_filename n)"
      unfolding hs_def by auto
    with node [of n] show ?thesis by fastforce
  qed
  have hex: "map (ballot_package_digest_hex_v1 blake3) ps = hs"
    unfolding ps_def map_map comp_def by (rule map_idI) (use h in \<open>fastforce simp: package_file_name_def\<close>)
  have inj: "inj_on (\<lambda>n. the (parse_inbox_package_filename n)) (set (filter is_package_name names))"
    by (rule inj_onI) (use parse_name_inv in \<open>auto; metis\<close>)
  have dist: "distinct hs" using ls inj by (simp add: hs_def distinct_map lists_store_def)
  have files: "\<forall>p \<in> set ps. length p \<le> MAX_BALLOT_PACKAGE_BYTES_V1 \<and> (\<exists>m. store (package_file_name blake3 p) = Some (InboxFile p m))"
    using h by (fastforce simp: ps_def package_file_name_def)
  have all: "n \<in> package_file_name blake3 ` set ps" if "n \<in> set (filter is_package_name names)" for n
  proof -
    from node [OF that] obtain bs m where bs: "store n = Some (InboxFile bs m)" "n = package_file_name blake3 bs" by blast
    then have "ballot_package_digest_hex_v1 blake3 bs \<in> set hs" using that by (force simp: hs_def)
    then have "bs \<in> set ps" using bs by (force simp: ps_def package_file_name_def)
    with bs show ?thesis by blast
  qed
  have "package_file_name blake3 ` set ps \<subseteq> set (filter is_package_name names)"
    using files ls by (fastforce simp: lists_store_def)
  with all have names: "set (filter is_package_name names) = package_file_name blake3 ` set ps" by blast
  show thesis
  proof
    show "stored_packages blake3 store ps"
      unfolding stored_packages_def hex using dist files all ls by (auto simp: hs_def lists_store_def)
    show "length ps = length (filter is_package_name names)" by (simp add: ps_def hs_def)
    show "sort (List.map_filter parse_inbox_package_filename (filter is_package_name names)) = map (ballot_package_digest_hex_v1 blake3) ps"
      unfolding hex by (simp add: hs_def map_filter_filter)
  qed (rule names)
qed

section \<open>Appending\<close>

text \<open>
  A change of the directory that keeps every package file and adds only complete packages, each under the
  name of its digest.
\<close>

definition complete_entry :: "(bytes \<Rightarrow> bytes32) \<Rightarrow> bytes set \<Rightarrow> rstring \<Rightarrow> inbox_node option \<Rightarrow> bool" where
  "complete_entry blake3 ps name node \<longleftrightarrow>
     (\<exists>p \<in> ps. \<exists>m. name = package_file_name blake3 p \<and> length p \<le> MAX_BALLOT_PACKAGE_BYTES_V1 \<and> node = Some (InboxFile p m))"

definition inbox_grows :: "(bytes \<Rightarrow> bytes32) \<Rightarrow> bytes set \<Rightarrow> inbox_store \<Rightarrow> inbox_store \<Rightarrow> bool" where
  "inbox_grows blake3 ps store store' \<longleftrightarrow>
     (\<forall>name. is_package_name name \<longrightarrow>
        store' name = store name \<or> (store name = None \<and> complete_entry blake3 ps name (store' name)))"

text \<open>
  Other processes that append complete packages of \<open>others\<close> and, between the write and the rename of this
  package's temporary file, leave that file alone. This rules out a second process in the middle of
  appending the same package (see \<open>shared_temporary_file\<close> below).
\<close>

definition fair_race :: "(bytes \<Rightarrow> bytes32) \<Rightarrow> bytes set \<Rightarrow> append_io \<Rightarrow> bytes \<Rightarrow> bool" where
  "fair_race blake3 others io bs \<longleftrightarrow>
     (\<forall>store. inbox_grows blake3 others store (ap_before io store)
        \<and> inbox_grows blake3 others store (ap_race io store)
        \<and> inbox_grows blake3 others store (ap_after io store)
        \<and> ap_race io store (package_file_name blake3 bs @ lit ''.tmp'') = store (package_file_name blake3 bs @ lit ''.tmp''))"

lemma inbox_grows_refl: "inbox_grows blake3 ps store store"
  by (simp add: inbox_grows_def)

lemma inbox_grows_trans:
  "inbox_grows blake3 ps a b \<Longrightarrow> inbox_grows blake3 ps b c \<Longrightarrow> inbox_grows blake3 ps a c"
  unfolding inbox_grows_def complete_entry_def by (metis option.distinct(1))

lemma inbox_grows_mono: "inbox_grows blake3 ps a b \<Longrightarrow> ps \<subseteq> qs \<Longrightarrow> inbox_grows blake3 qs a b"
  unfolding inbox_grows_def complete_entry_def by (meson subsetD)

lemma inbox_grows_other: "(\<And>n. is_package_name n \<Longrightarrow> b n = a n) \<Longrightarrow> inbox_grows blake3 ps a b"
  by (simp add: inbox_grows_def)

lemma inbox_grows_add:
  assumes "inbox_grows blake3 ps a b" and "a (package_file_name blake3 bs) = None" and "bs \<in> ps"
    and "length bs \<le> MAX_BALLOT_PACKAGE_BYTES_V1"
  shows "inbox_grows blake3 ps a (b(package_file_name blake3 bs \<mapsto> InboxFile bs m))"
  using assms by (auto simp: inbox_grows_def complete_entry_def)

lemma verify_steady:
  "verify_existing_inbox_package (steady node) bs = Ok () \<Longrightarrow> \<exists>m. node = Some (InboxFile bs m)"
proof -
  assume "verify_existing_inbox_package (steady node) bs = Ok ()"
  then obtain i where "read_bounded_package_file (steady node) = Ok (bs, i)"
    by (auto simp: verify_existing_inbox_package_def result_inv split: if_splits)
  from read_bounded_Ok [OF this] have "node_bytes node = Some bs" by (simp add: steady_def)
  then show ?thesis by (cases node rule: node_bytes.cases) auto
qed

lemma write_create_new_effect:
  assumes "write_create_new_sync io m path bs store = (r, store')"
  shows "(\<forall>n. n \<noteq> path \<longrightarrow> store' n = store n) \<and> (is_ok r \<longrightarrow> store' path = Some (InboxFile bs m))"
  using assms by (auto simp: write_create_new_sync_def split: if_splits option.splits)

text \<open>What one append leaves behind: the directory only grows, and an acknowledged package is in it.\<close>

lemma append_effect:
  assumes app: "append_accepted_ballot_package_to_inbox_v1 blake3 io bs store = (r, store')" and fair: "fair_race blake3 others io bs"
  defines "final \<equiv> package_file_name blake3 bs"
  shows "inbox_grows blake3 (insert bs others) store store' \<and> (is_ok r \<longrightarrow> (\<exists>m. store' final = Some (InboxFile bs m)))"
proof -
  let ?tmp = "final @ lit ''.tmp''" and ?ps = "insert bs others"
  have tmp: "parse_inbox_package_filename ?tmp = None" "?tmp \<noteq> final"
    using tmp_name_no_package by (auto simp: final_def package_file_name_def lit_def)
  have env: "inbox_grows blake3 ?ps st (ap_before io st)" "inbox_grows blake3 ?ps st (ap_race io st)"
    "inbox_grows blake3 ?ps st (ap_after io st)" "ap_race io st ?tmp = st ?tmp" for st
    using fair inbox_grows_mono [of blake3 others _ _ ?ps] by (auto simp: fair_race_def final_def)
  show ?thesis
  proof (cases "length bs \<le> MAX_BALLOT_PACKAGE_BYTES_V1 \<and> ensure_direct_directory (ap_directory io) = Ok () \<and> ap_stat io \<and> store final = None")
    case False
    then have "(store' = store \<or> store' = ap_after io store)
        \<and> (is_ok r \<longrightarrow> verify_existing_inbox_package (steady (store' final)) bs = Ok ())"
      using app unfolding final_def
      by (cases "ensure_direct_directory (ap_directory io)")
        (auto simp: append_accepted_ballot_package_to_inbox_v1_def Let_def is_ok_iff result_inv split: if_splits option.splits inbox_node.splits)
    with verify_steady env(3) [of store] inbox_grows_refl show ?thesis by metis
  next
    case True
    define st0 where "st0 = (if ap_remove_stale io then (ap_before io store)(?tmp := None) else ap_before io store)"
    obtain r1 st1 where w: "write_create_new_sync (ap_file io) (ap_modified io) ?tmp bs st0 = (r1, st1)" by force
    have "st1 n = ap_before io store n" if "is_package_name n" for n
    proof -
      have "n \<noteq> ?tmp" using that tmp(1) by auto
      with write_create_new_effect [OF w] show ?thesis by (auto simp: st0_def)
    qed
    then have "inbox_grows blake3 ?ps (ap_before io store) st1" by (rule inbox_grows_other)
    then have g1: "inbox_grows blake3 ?ps store st1" by (rule inbox_grows_trans [OF env(1)])
    show ?thesis
    proof (cases r1)
      case (Err e)
      with app True w have "store' = st1 \<and> \<not> is_ok r"
        by (auto simp: append_accepted_ballot_package_to_inbox_v1_def Let_def st0_def simp flip: final_def)
      with g1 show ?thesis by blast
    next
      case (Ok u)
      define st2 where "st2 = ap_race io st1"
      have t: "st2 ?tmp = Some (InboxFile bs (ap_modified io))"
        using write_create_new_effect [OF w] Ok env(4) by (simp add: st2_def)
      have g2: "inbox_grows blake3 ?ps store st2" unfolding st2_def by (rule inbox_grows_trans [OF g1 env(2)])
      define st3 where "st3 = (if fio_rename (ap_file io) then st2(final := st2 ?tmp, ?tmp := None)
        else if fio_remove (ap_file io) then st2(?tmp := None) else st2)"
      have step: "(store' = st3 \<or> store' = ap_after io st3)
          \<and> (is_ok r \<longrightarrow> verify_existing_inbox_package (steady (store' final)) bs = Ok ())"
        using app True w Ok t
        by (auto simp: append_accepted_ballot_package_to_inbox_v1_def Let_def is_ok_iff result_inv st0_def [symmetric]
            st2_def [symmetric] st3_def split: if_splits simp flip: final_def)
      have "inbox_grows blake3 ?ps store (st2(final \<mapsto> InboxFile bs (ap_modified io)))"
        unfolding final_def by (rule inbox_grows_add [OF g2]) (use True in \<open>simp_all add: final_def\<close>)
      then have "inbox_grows blake3 ?ps store st3"
        using g2 t tmp by (auto simp: st3_def inbox_grows_def)
      with step env(3) [of st3] inbox_grows_trans verify_steady show ?thesis by metis
    qed
  qed
qed

fun append_all ::
  "(bytes \<Rightarrow> bytes32) \<Rightarrow> (append_io \<times> bytes) list \<Rightarrow> inbox_store \<Rightarrow> bool gresult list \<times> inbox_store" where
  "append_all blake3 [] store = ([], store)"
| "append_all blake3 ((io, package) # offers) store =
     (case append_accepted_ballot_package_to_inbox_v1 blake3 io package store of
        (r, store) \<Rightarrow> (case append_all blake3 offers store of (rs, store) \<Rightarrow> (r # rs, store)))"

lemma grows_content_addressed:
  assumes "content_addressed blake3 store" and "inbox_grows blake3 ps store store'"
  shows "content_addressed blake3 store'"
  using assms unfolding content_addressed_def inbox_grows_def complete_entry_def by (metis option.inject)

lemma append_all_effect:
  "append_all blake3 offers store = (rs, store') \<Longrightarrow> \<forall>(io, bs) \<in> set offers. fair_race blake3 others io bs \<Longrightarrow>
   inbox_grows blake3 (snd ` set offers \<union> others) store store' \<and> length rs = length offers
   \<and> (\<forall>i < length rs. is_ok (rs ! i) \<longrightarrow> store' (package_file_name blake3 (snd (offers ! i))) \<noteq> None)"
proof (induction blake3 offers store arbitrary: rs rule: append_all.induct)
  case (2 blake3 io p offers store)
  let ?ps = "snd ` set ((io, p) # offers) \<union> others"
  obtain r st1 where a: "append_accepted_ballot_package_to_inbox_v1 blake3 io p store = (r, st1)" by force
  from 2(2) a obtain rs1 where rs: "append_all blake3 offers st1 = (rs1, store')" "rs = r # rs1"
    by (auto split: prod.splits)
  have fair: "fair_race blake3 others io p" "\<forall>(io, bs) \<in> set offers. fair_race blake3 others io bs" using 2(3) by auto
  note st1 = append_effect [OF a fair(1)]
  note IH = 2(1) [OF a [symmetric] rs(1) fair(2)]
  have g1: "inbox_grows blake3 ?ps store st1" using st1 by (elim conjE inbox_grows_mono) auto
  have g2: "inbox_grows blake3 ?ps st1 store'" using IH by (elim conjE inbox_grows_mono) auto
  have ack: "store' (package_file_name blake3 p) \<noteq> None" if "is_ok r"
  proof -
    from st1 that obtain m where "st1 (package_file_name blake3 p) = Some (InboxFile p m)" by blast
    moreover have "is_package_name (package_file_name blake3 p)" by simp
    ultimately show ?thesis using g2 unfolding inbox_grows_def by (metis option.distinct(1))
  qed
  show ?case
  proof (intro conjI allI impI)
    show "inbox_grows blake3 ?ps store store'" by (rule inbox_grows_trans [OF g1 g2])
  next
    fix i assume "i < length rs" "is_ok (rs ! i)"
    then show "store' (package_file_name blake3 (snd (((io, p) # offers) ! i))) \<noteq> None"
      using ack IH rs(2) by (cases i) auto
  qed (use IH rs(2) in simp)
qed (simp add: inbox_grows_refl)

end
