(* ===== verification/Inbox_Properties.thy ===== *)
theory Inbox_Properties
  imports Inbox_Soundness Gateway_Invariants Example_Session
begin

text \<open>
  Properties of the private-intake inbox together with the session that ingests it, each with a witness on
  the example session.
\<close>

section \<open>An example inbox\<close>

definition xi_store :: inbox_store where
  "xi_store = [package_file_name zero_digest ex_vote_bytes \<mapsto> InboxFile ex_vote_bytes (Some 7)]"

definition xi_io :: append_io where
  "xi_io = \<lparr>ap_directory = \<lparr>da_metadata = direct, da_create = True, da_created = direct\<rparr>, ap_stat = True, ap_remove_stale = False,
     ap_file = \<lparr>fio_open = True, fio_failed_write = None, fio_rename = True, fio_remove = True\<rparr>,
     ap_modified = Some 7, ap_before = id, ap_race = id, ap_after = id\<rparr>"

lemma xi_size: "length ex_vote_bytes \<le> MAX_BALLOT_PACKAGE_BYTES_V1"
  using xs_vote_size by (simp add: MAX_BALLOT_PACKAGE_BYTES_V1_def limits_def)

lemma xi_content_addressed: "content_addressed zero_digest xi_store"
  using xi_size by (auto simp: content_addressed_def xi_store_def split: if_splits)

lemma xi_lists: "lists_store [package_file_name zero_digest ex_vote_bytes] xi_store"
  by (simp add: lists_store_def xi_store_def MAX_PRIVATE_INTAKE_INBOX_FILES_V1_def MAX_WORKSPACE_PACKAGE_COUNT_V1_def limits_def)

section \<open>One pass\<close>

lemma ingest_store:
  assumes inv: "gui_inv L blake3 s" and st: "lc_state (gs_lifecycle s) \<in> {Open, Closed}"
    and ps: "stored_packages blake3 store ps" and names: "inbox_names direct (listing names) = Ok (Some ns)"
    and hs: "sort (List.map_filter parse_inbox_package_filename ns) = map (ballot_package_digest_hex_v1 blake3) ps"
    and len: "length (gs_packages s) + length ps \<le> 2 ^ 64" and rs: "reconcile_all L blake3 ps s = Ok (rs, s')"
  shows "\<exists>c. ingest_private_intake_inbox_into_session_v1 L blake3 direct (listing names) (\<lambda>n. steady (store n)) s
    = (Ok (summarize rs empty_sync_summary), set_cache c s')"
proof -
  have "\<forall>p \<in> set ps. length p \<le> MAX_BALLOT_PACKAGE_BYTES_V1 \<and>
      (\<exists>m. steady (store (package_file_name blake3 p)) = steady (Some (InboxFile p m)))"
    using ps by (auto simp: stored_packages_def) (metis)
  from ingest_files_reconcile [OF inv st len this rs] names hs show ?thesis
    by (simp add: ingest_private_intake_inbox_into_session_v1_def)
qed

lemma ingest_order:
  assumes "lists_store names store" and "lists_store names' store"
  shows "ingest_private_intake_inbox_into_session_v1 L blake3 direct (listing names') observe s
      = ingest_private_intake_inbox_into_session_v1 L blake3 direct (listing names) observe s"
proof -
  have "mset names' = mset names" using assms by (simp add: lists_store_def flip: set_eq_iff_mset_eq_distinct)
  then have "mset (List.map_filter parse_inbox_package_filename (filter is_package_name names')) =
      mset (List.map_filter parse_inbox_package_filename (filter is_package_name names))"
    by (simp add: map_filter_filter mset_filter)
  then have "sort (List.map_filter parse_inbox_package_filename (filter is_package_name names')) =
      sort (List.map_filter parse_inbox_package_filename (filter is_package_name names))"
    by (intro properties_for_sort) simp_all
  with inbox_names_listing [OF assms(1)] inbox_names_listing [OF assms(2)] show ?thesis
    by (simp add: ingest_private_intake_inbox_into_session_v1_def)
qed

lemma stored_decided:
  assumes "stored_packages blake3 store ps" and "\<forall>p \<in> set ps. earliest_decision (package_digest blake3 p) s \<noteq> None"
    and "store (package_file_name blake3 bs) = Some (InboxFile bs m)"
  shows "package_digest blake3 bs \<in> bd_package_digest ` set (vt_decisions (gs_transcript s))"
proof -
  have "package_file_name blake3 bs \<in> package_file_name blake3 ` set ps"
    using assms(1, 3) unfolding stored_packages_def by (metis option.distinct(1) package_name_parse)
  then obtain p where p: "p \<in> set ps" "package_file_name blake3 bs = package_file_name blake3 p" by blast
  then have d: "package_digest blake3 bs = package_digest blake3 p"
    by (simp add: package_file_name_def ballot_package_digest_hex_v1_def to_lower_hex_inject package_digest_def)
  from assms(2) p(1) obtain e where "earliest_decision (package_digest blake3 p) s = Some e" by fastforce
  then have "e \<in> set (vt_decisions (gs_transcript s))" "bd_package_digest e = package_digest blake3 p"
    by (auto simp: earliest_decision_def find_Some_iff)
  with d show ?thesis by force
qed

text \<open>
  C13: A pass over an inbox whose package files are complete and named by their contents
  succeeds, while voting is open or in the drain after it, whatever the validation cache holds: it
  decides every package of the inbox, its counts add up, and the session gains exactly as many ballots as
  the pass reports newly accepted. The order in which the directory lists the files makes no difference, and
  a second pass accepts nothing and changes nothing but the cache.
\<close>

theorem inbox_sync_complete:
  assumes "gui_reachable L nfc blake3 s" and "lc_state (gs_lifecycle s) \<in> {Open, Closed}"
    and "content_addressed blake3 store" and "lists_store names store"
    and "length (gs_packages s) + 2 * MAX_PRIVATE_INTAKE_INBOX_FILES_V1 \<le> 2 ^ 64"
  shows "\<exists>summary s'.
    ingest_private_intake_inbox_into_session_v1 L blake3 direct (listing names) (\<lambda>n. steady (store n)) s = (Ok summary, s')
    \<and> gui_reachable L nfc blake3 s'
    \<and> (\<forall>bs m. store (package_file_name blake3 bs) = Some (InboxFile bs m) \<longrightarrow>
        package_digest blake3 bs \<in> bd_package_digest ` set (vt_decisions (gs_transcript s')))
    \<and> sy_discovered summary = length (filter is_package_name names)
    \<and> sy_newly_accepted summary + sy_duplicates summary + sy_rejected summary = sy_discovered summary
    \<and> length (bl_accepted_ballots (gs_ledger s')) = length (bl_accepted_ballots (gs_ledger s)) + sy_newly_accepted summary
    \<and> (\<forall>names'. lists_store names' store \<longrightarrow>
        ingest_private_intake_inbox_into_session_v1 L blake3 direct (listing names') (\<lambda>n. steady (store n)) s = (Ok summary, s'))
    \<and> (\<exists>again s2.
        ingest_private_intake_inbox_into_session_v1 L blake3 direct (listing names) (\<lambda>n. steady (store n)) s' = (Ok again, s2)
        \<and> sy_newly_accepted again = 0 \<and> s2\<lparr>gs_inbox_cache := Map.empty\<rparr> = s'\<lparr>gs_inbox_cache := Map.empty\<rparr>)"
proof -
  let ?ns = "filter is_package_name names"
  note inv = gui_reachable_inv [OF assms(1)] and names = inbox_names_listing [OF assms(4)]
  from listed_packages [OF assms(3, 4)] obtain ps where ps: "stored_packages blake3 store ps" "length ps = length ?ns"
    "sort (List.map_filter parse_inbox_package_filename ?ns) = map (ballot_package_digest_hex_v1 blake3) ps"
    "set ?ns = package_file_name blake3 ` set ps" .
  have len: "length ps \<le> MAX_PRIVATE_INTAKE_INBOX_FILES_V1" using assms(4) ps(2) by (simp add: lists_store_def)
  then have len0: "length (gs_packages s) + length ps \<le> 2 ^ 64" using assms(5) by simp
  from reconcile_all_effect [OF inv assms(2) len0] obtain rs s1 where
    rs: "reconcile_all L blake3 ps s = Ok (rs, s1)" "gui_inv L blake3 s1" "length rs = length ps"
    "lc_state (gs_lifecycle s1) = lc_state (gs_lifecycle s)" "length (gs_packages s1) \<le> length (gs_packages s) + length ps"
    "\<forall>d. earliest_decision d s \<noteq> None \<or> d \<in> package_digest blake3 ` set ps \<longrightarrow> earliest_decision d s1 \<noteq> None"
    "length (bl_accepted_ballots (gs_ledger s1)) = length (bl_accepted_ballots (gs_ledger s)) + length (filter ir_accepted rs)"
    by blast
  from ingest_store [OF inv assms(2) ps(1) names ps(3) len0 rs(1)] obtain c where
    run: "ingest_private_intake_inbox_into_session_v1 L blake3 direct (listing names) (\<lambda>n. steady (store n)) s
      = (Ok (summarize rs empty_sync_summary), set_cache c s1)" by blast
  have max: "length rs \<le> usize_max" using len rs(3) by (simp add: usize_max_def MAX_PRIVATE_INTAKE_INBOX_FILES_V1_def MAX_WORKSPACE_PACKAGE_COUNT_V1_def limits_def)
  note counts = summarize_counts [of empty_sync_summary rs]
  have decided: "\<forall>p \<in> set ps. earliest_decision (package_digest blake3 p) (set_cache c s1) \<noteq> None" using rs(6) by simp
  have inv1: "gui_inv L blake3 (set_cache c s1)" "lc_state (gs_lifecycle (set_cache c s1)) \<in> {Open, Closed}"
    "length (gs_packages (set_cache c s1)) + length ps \<le> 2 ^ 64" using rs assms(2, 5) len by auto
  from reconcile_all_decided [OF inv1(1, 2) decided] obtain rs2 where
    rs2: "reconcile_all L blake3 ps (set_cache c s1) = Ok (rs2, set_cache c s1)" "filter ir_accepted rs2 = []" by blast
  from reconcile_all_effect [OF inv1] rs2(1) have "length rs2 = length ps" by auto
  moreover from ingest_store [OF inv1(1, 2) ps(1) names ps(3) inv1(3) rs2(1)] obtain c2 where
    again: "ingest_private_intake_inbox_into_session_v1 L blake3 direct (listing names) (\<lambda>n. steady (store n)) (set_cache c s1)
      = (Ok (summarize rs2 empty_sync_summary), set_cache c2 s1)" by auto
  moreover have "gui_reachable L nfc blake3 (set_cache c s1)"
    using ingest_reachable [OF assms(1), of direct "listing names" "\<lambda>n. steady (store n)"] run by simp
  moreover have "sy_newly_accepted (summarize rs2 empty_sync_summary) = 0"
    using summarize_counts [of empty_sync_summary rs2] max rs(3) rs2(2) \<open>length rs2 = length ps\<close> by (simp add: empty_sync_summary_def)
  moreover have "sy_discovered (summarize rs empty_sync_summary) = length ?ns"
    "length (filter ir_accepted rs) = sy_newly_accepted (summarize rs empty_sync_summary)"
    "sy_newly_accepted (summarize rs empty_sync_summary) + sy_duplicates (summarize rs empty_sync_summary)
      + sy_rejected (summarize rs empty_sync_summary) = sy_discovered (summarize rs empty_sync_summary)"
    using counts max rs(3) ps(2) by (simp_all add: empty_sync_summary_def)
  moreover have "set_cache c2 s1\<lparr>gs_inbox_cache := Map.empty\<rparr> = set_cache c s1\<lparr>gs_inbox_cache := Map.empty\<rparr>"
    by (simp add: set_cache_def)
  moreover have "ingest_private_intake_inbox_into_session_v1 L blake3 direct (listing names') (\<lambda>n. steady (store n)) s
      = (Ok (summarize rs empty_sync_summary), set_cache c s1)" if "lists_store names' store" for names'
    by (simp add: ingest_order [OF assms(4) that] run)
  ultimately show ?thesis
    using run rs(7) stored_decided [OF ps(1) decided]
    by (intro exI [of _ "summarize rs empty_sync_summary"] exI [of _ "set_cache c s1"]) simp
qed

lemma inbox_sync_complete_witness:
  "\<exists>summary s'. ingest_private_intake_inbox_into_session_v1 toy_lib zero_digest direct
      (listing [package_file_name zero_digest ex_vote_bytes]) (\<lambda>n. steady (xi_store n)) xs_open = (Ok summary, s')
    \<and> sy_discovered summary = 1 \<and> package_digest zero_digest ex_vote_bytes \<in> bd_package_digest ` set (vt_decisions (gs_transcript s'))"
proof -
  have "length (gs_packages xs_open) + 2 * MAX_PRIVATE_INTAKE_INBOX_FILES_V1 \<le> 2 ^ 64"
    by (simp add: xs_states MAX_PRIVATE_INTAKE_INBOX_FILES_V1_def MAX_WORKSPACE_PACKAGE_COUNT_V1_def limits_def)
  from inbox_sync_complete [OF xs_reachable(1) _ xi_content_addressed xi_lists this] obtain summary s' where
    "ingest_private_intake_inbox_into_session_v1 toy_lib zero_digest direct
      (listing [package_file_name zero_digest ex_vote_bytes]) (\<lambda>n. steady (xi_store n)) xs_open = (Ok summary, s')"
    "\<forall>bs m. xi_store (package_file_name zero_digest bs) = Some (InboxFile bs m) \<longrightarrow>
        package_digest zero_digest bs \<in> bd_package_digest ` set (vt_decisions (gs_transcript s'))"
    "sy_discovered summary = length (filter is_package_name [package_file_name zero_digest ex_vote_bytes])"
    by (auto simp: xs_states)
  then show ?thesis by (auto simp: xi_store_def)
qed

section \<open>What was acknowledged is recovered\<close>

lemma read_stored_digest:
  assumes "store (package_file_name blake3 bs) = Some (InboxFile bs m)" and "length bs \<le> MAX_BALLOT_PACKAGE_BYTES_V1"
  shows "read_accepted_digest blake3 (\<lambda>n. steady (store n)) (package_file_name blake3 bs) = Ok (content_digest blake3 bs)"
  using assms read_steady [OF assms(2)]
  by (simp add: read_accepted_digest_def) (simp add: ballot_package_digest_hex_v1_def)

lemma read_digests_store:
  assumes ca: "content_addressed blake3 store" and ls: "lists_store names store" and ps: "stored_packages blake3 store ps"
    and names: "set (filter is_package_name names) = package_file_name blake3 ` set ps"
  shows "read_accepted_package_digests_v1 blake3 direct (listing names) (\<lambda>n. steady (store n))
    = Ok (sort_dedup (map (content_digest blake3) ps))"
proof -
  define f where "f n = content_digest blake3 (the (node_bytes (store n)))" for n
  have f: "read_accepted_digest blake3 (\<lambda>n. steady (store n)) n = Ok (f n)" if "n \<in> set (filter is_package_name names)" for n
  proof -
    from that names obtain p where p: "p \<in> set ps" "n = package_file_name blake3 p" by blast
    with ps obtain m where "store n = Some (InboxFile p m)" "length p \<le> MAX_BALLOT_PACKAGE_BYTES_V1"
      unfolding stored_packages_def by blast
    with p(2) read_stored_digest [of store blake3 p m] show ?thesis by (simp add: f_def)
  qed
  have "f (package_file_name blake3 p) = content_digest blake3 p" if "p \<in> set ps" for p
    using ps that by (auto simp: f_def stored_packages_def)
  then have "set (map f (filter is_package_name names)) = set (map (content_digest blake3) ps)"
    unfolding set_map names by (force simp: image_image)
  from sort_dedup_set [OF this] collect_results_all [where xs = "filter is_package_name names", OF f] inbox_names_listing [OF ls]
  show ?thesis by (simp add: read_accepted_package_digests_v1_def)
qed

text \<open>
  C12: However the file system fails during the appends, and whatever complete packages other
  processes append meanwhile, the inbox afterwards holds no partial package under a package name, and
  the digests that recovery reads from it, in strictly ascending order, contain that of every package
  whose append was acknowledged and none of a package that nobody offered. The appends must have their
  temporary files to themselves: no other process is in the middle of appending the same package.
\<close>

theorem inbox_recovers_acknowledged:
  assumes "append_all blake3 offers Map.empty = (rs, store)"
    and "\<forall>(io, package) \<in> set offers. fair_race blake3 others io package"
    and "lists_store names store"
  shows "content_addressed blake3 store \<and> (\<exists>ds.
    read_accepted_package_digests_v1 blake3 direct (listing names) (\<lambda>n. steady (store n)) = Ok ds
    \<and> sorted_wrt (<) ds \<and> set ds \<subseteq> content_digest blake3 ` (snd ` set offers \<union> others)
    \<and> (\<forall>i < length offers. is_ok (rs ! i) \<longrightarrow> content_digest blake3 (snd (offers ! i)) \<in> set ds))"
proof -
  note st = append_all_effect [OF assms(1, 2)]
  have ca: "content_addressed blake3 store"
    by (rule grows_content_addressed [of _ Map.empty]) (use st in \<open>auto simp: content_addressed_def\<close>)
  from listed_packages [OF ca assms(3)] obtain ps where ps: "stored_packages blake3 store ps"
    "set (filter is_package_name names) = package_file_name blake3 ` set ps" .
  have eq: "package_file_name blake3 a = package_file_name blake3 b \<longleftrightarrow> content_digest blake3 a = content_digest blake3 b" for a b
    by (simp add: package_file_name_def ballot_package_digest_hex_v1_def to_lower_hex_inject)
  have "content_digest blake3 p \<in> content_digest blake3 ` (snd ` set offers \<union> others)" if "p \<in> set ps" for p
  proof -
    have "store (package_file_name blake3 p) \<noteq> None" using ps(1) that by (auto simp: stored_packages_def)
    moreover have "is_package_name (package_file_name blake3 p)" by simp
    ultimately have "complete_entry blake3 (snd ` set offers \<union> others) (package_file_name blake3 p) (store (package_file_name blake3 p))"
      using st unfolding inbox_grows_def by metis
    then obtain q where "q \<in> snd ` set offers \<union> others" "package_file_name blake3 p = package_file_name blake3 q"
      unfolding complete_entry_def by blast
    then show ?thesis using eq by blast
  qed
  moreover have "content_digest blake3 (snd (offers ! i)) \<in> content_digest blake3 ` set ps"
    if "i < length offers" "is_ok (rs ! i)" for i
  proof -
    have "package_file_name blake3 (snd (offers ! i)) \<in> package_file_name blake3 ` set ps"
      using st that ps(1) unfolding stored_packages_def by (metis option.distinct(1) package_name_parse)
    then show ?thesis using eq by blast
  qed
  ultimately show ?thesis
    using read_digests_store [OF ca assms(3) ps] ca sort_dedup_strict [of "map (content_digest blake3) ps"] by auto
qed

lemma inbox_recovers_acknowledged_witness:
  "append_all zero_digest [(xi_io, ex_vote_bytes)] Map.empty = ([Ok True], xi_store)
    \<and> read_accepted_package_digests_v1 zero_digest direct (listing [package_file_name zero_digest ex_vote_bytes])
        (\<lambda>n. steady (xi_store n)) = Ok [zero32]"
proof -
  have run: "append_all zero_digest [(xi_io, ex_vote_bytes)] Map.empty = ([Ok True], xi_store)"
    using xi_size read_steady [OF xi_size, of "Some 7"]
    by (simp add: append_accepted_ballot_package_to_inbox_v1_def xi_io_def ensure_direct_directory_def direct_directory_def
        write_create_new_sync_def verify_existing_inbox_package_def xi_store_def Let_def lit_def)
  have "content_digest zero_digest ex_vote_bytes = zero32"
    using xs_digest [of ex_vote_bytes] by (simp add: package_digest_def)
  moreover have "\<forall>(io, package) \<in> set [(xi_io, ex_vote_bytes)]. fair_race zero_digest {} io package"
    by (simp add: xi_io_def fair_race_def inbox_grows_refl)
  from inbox_recovers_acknowledged [OF run this xi_lists] obtain ds where
    ds: "read_accepted_package_digests_v1 zero_digest direct (listing [package_file_name zero_digest ex_vote_bytes])
        (\<lambda>n. steady (xi_store n)) = Ok ds" "sorted_wrt (<) ds" "set ds \<subseteq> {content_digest zero_digest ex_vote_bytes}"
      "content_digest zero_digest ex_vote_bytes \<in> set ds" by auto
  have "distinct ds" using ds(2) by (simp add: strict_sorted_iff)
  with ds(3, 4) have "ds = [content_digest zero_digest ex_vote_bytes]" by (cases ds; cases "tl ds") auto
  ultimately show ?thesis using run ds(1) by simp
qed

section \<open>Two processes appending the same package\<close>

text \<open>
  The temporary file of a package has a fixed name, and every append first removes it. So a second
  process that starts to append the same package takes the first one's temporary file away and writes a
  new one; what it has written by then is what the first process renames. The first append fails with a
  mismatch, the partial file stays under the final name, and every later append of the package fails.
\<close>

lemma shared_temporary_file:
  assumes size: "length bs \<le> MAX_BALLOT_PACKAGE_BYTES_V1" and n: "n < length bs"
    and io: "ensure_direct_directory (ap_directory io) = Ok ()" "ap_stat io" "ap_before io = id" "ap_after io = id"
      "ap_remove_stale io" "fio_open (ap_file io)" "fio_failed_write (ap_file io) = None" "fio_rename (ap_file io)"
    and second: "\<And>store. ap_race io store = snd (write_create_new_sync
        \<lparr>fio_open = True, fio_failed_write = Some n, fio_rename = False, fio_remove = False\<rparr> m
        (package_file_name blake3 bs @ lit ''.tmp'') bs (store(package_file_name blake3 bs @ lit ''.tmp'' := None)))"
    and empty: "store (package_file_name blake3 bs) = None"
  shows "\<exists>store'. append_accepted_ballot_package_to_inbox_v1 blake3 io bs store = (Err existing_package_mismatch, store')
    \<and> store' (package_file_name blake3 bs) = Some (InboxFile (take n bs) m)
    \<and> (\<forall>io'. ap_after io' = id \<longrightarrow> (\<exists>e. append_accepted_ballot_package_to_inbox_v1 blake3 io' bs store' = (Err e, store')))"
proof -
  let ?final = "package_file_name blake3 bs"
  let ?tmp = "?final @ lit ''.tmp''"
  let ?store' = "store(?final \<mapsto> InboxFile (take n bs) m, ?tmp := None)"
  have tmp: "?tmp \<noteq> ?final" by (simp add: lit_def)
  have "length (take n bs) \<le> MAX_BALLOT_PACKAGE_BYTES_V1" using size by simp
  note read = read_steady [OF this, of m]
  have "take n bs \<noteq> bs" using n by (metis length_take min.strict_order_iff min.commute nat_neq_iff)
  then have bad: "verify_existing_inbox_package (steady (Some (InboxFile (take n bs) m))) bs = Err existing_package_mismatch"
    by (simp add: verify_existing_inbox_package_def read)
  have "append_accepted_ballot_package_to_inbox_v1 blake3 io bs store = (Err existing_package_mismatch, ?store')"
    using size io empty second tmp bad
    by (simp add: append_accepted_ballot_package_to_inbox_v1_def write_create_new_sync_def Let_def fun_upd_twist)
  moreover have "\<exists>e. append_accepted_ballot_package_to_inbox_v1 blake3 io' bs ?store' = (Err e, ?store')"
    if "ap_after io' = id" for io'
    using size that tmp bad
    by (cases "ensure_direct_directory (ap_directory io')") (simp_all add: append_accepted_ballot_package_to_inbox_v1_def Let_def)
  moreover have "?store' ?final = Some (InboxFile (take n bs) m)" using tmp by simp
  ultimately show ?thesis by blast
qed

end
