(* ===== verification/Anchor_Record.thy ===== *)
theory Anchor_Record
  imports Gui_Governance
begin

text \<open>
  Anchor records (\<open>crates/anchor/src/{record,canonical,digest}.rs\<close>): the record that binds a network, an
  election manifest and a finished archive, its canonical form and its domain-separated digest; and the
  text form in which the digest is put on the ledger with the bounded identifiers of its transaction
  (\<open>crates/anchor-transport/src/{payload,identifiers}.rs\<close>).
\<close>

section \<open>Records\<close>

definition OOTLE_ANCHOR_RECORD_TYPE_ID_V1 :: rstring where
  "OOTLE_ANCHOR_RECORD_TYPE_ID_V1 = lit ''TARI_CC_PRIVATE_BALLOT_OOTLE_ANCHOR_V1''"

definition OOTLE_ANCHOR_PURPOSE_ID_V1 :: rstring where
  "OOTLE_ANCHOR_PURPOSE_ID_V1 = lit ''NON_BINDING_APPROVAL_PILOT_ARCHIVE_ANCHOR''"

definition MAX_OOTLE_NETWORK_ID_BYTES :: nat where "MAX_OOTLE_NETWORK_ID_BYTES = 32"
definition MAX_OOTLE_ANCHOR_RECORD_BYTES :: nat where "MAX_OOTLE_ANCHOR_RECORD_BYTES = 512"
definition OOTLE_ANCHOR_RECORD_FIELD_COUNT_V1 :: nat where "OOTLE_ANCHOR_RECORD_FIELD_COUNT_V1 = 6"

lemmas anchor_consts = OOTLE_ANCHOR_RECORD_TYPE_ID_V1_def OOTLE_ANCHOR_PURPOSE_ID_V1_def
  MAX_OOTLE_NETWORK_ID_BYTES_def MAX_OOTLE_ANCHOR_RECORD_BYTES_def OOTLE_ANCHOR_RECORD_FIELD_COUNT_V1_def
  BLAKE3_256_HASH_ALGORITHM_ID_V1_def

definition is_ascii_alphanumeric :: "u8 \<Rightarrow> bool" where
  "is_ascii_alphanumeric b \<longleftrightarrow>
     (0x30 \<le> b \<and> b \<le> 0x39) \<or> (0x41 \<le> b \<and> b \<le> 0x5a) \<or> (0x61 \<le> b \<and> b \<le> 0x7a)"

definition is_network_byte :: "u8 \<Rightarrow> bool" where
  "is_network_byte b \<longleftrightarrow> is_ascii_alphanumeric b \<or> b = 0x2d \<or> b = 0x5f"

datatype ootle_network_id_v1 = OotleNetworkIdV1 (network_id_str: rstring)

definition OotleNetworkIdV1_new :: "rstring \<Rightarrow> ootle_network_id_v1 presult" where
  "OotleNetworkIdV1_new v =
     (if v = [] then Err InvalidData
      else if length v > MAX_OOTLE_NETWORK_ID_BYTES then Err ProtocolLimitExceeded
      else if \<not> list_all is_network_byte v then Err InvalidData
      else Ok (OotleNetworkIdV1 v))"

record ootle_anchor_record_v1 =
  ar_network :: ootle_network_id_v1
  ar_election_manifest_hash :: manifest_hash
  ar_archive_hash :: archive_hash_v1

definition OotleAnchorRecordV1_new ::
  "ootle_network_id_v1 \<Rightarrow> manifest_hash \<Rightarrow> archive_hash_v1 \<Rightarrow> ootle_anchor_record_v1" where
  "OotleAnchorRecordV1_new network election_manifest_hash archive_hash =
     \<lparr>ar_network = network, ar_election_manifest_hash = election_manifest_hash, ar_archive_hash = archive_hash\<rparr>"

definition anchor_record_for_provider ::
  "ootle_network_id_v1 \<Rightarrow> manifest_hash \<Rightarrow> archive_hash_v1 \<Rightarrow> hash_provider \<Rightarrow> ootle_anchor_record_v1 presult" where
  "anchor_record_for_provider network election_manifest_hash archive_hash provider =
     (if hp_algorithm_id provider \<noteq> BLAKE3_256_HASH_ALGORITHM_ID_V1 then Err UnsupportedHashAlgorithm
      else Ok (OotleAnchorRecordV1_new network election_manifest_hash archive_hash))"

section \<open>Canonical form\<close>

definition anchor_to_canonical_cbor :: "ootle_anchor_record_v1 \<Rightarrow> bytes presult" where
  "anchor_to_canonical_cbor a =
     and_then (write_array_len OOTLE_ANCHOR_RECORD_FIELD_COUNT_V1 new_writer) (\<lambda>w.
     and_then (write_text_string OOTLE_ANCHOR_RECORD_TYPE_ID_V1 w) (\<lambda>w.
     and_then (write_text_string (network_id_str (ar_network a)) w) (\<lambda>w.
     and_then (write_byte_string (arr_bytes (manifest_hash_bytes (ar_election_manifest_hash a))) w) (\<lambda>w.
     and_then (write_byte_string (arr_bytes (archive_hash_bytes (ar_archive_hash a))) w) (\<lambda>w.
     and_then (write_text_string BLAKE3_256_HASH_ALGORITHM_ID_V1 w) (\<lambda>w.
     and_then (write_text_string OOTLE_ANCHOR_PURPOSE_ID_V1 w) (\<lambda>w.
     let encoded = into_bytes w in
     if length encoded > MAX_OOTLE_ANCHOR_RECORD_BYTES then Err ProtocolLimitExceeded
     else Ok encoded)))))))"

definition anchor_read_digest :: "cbor_reader \<Rightarrow> bytes32 read" where
  "anchor_read_digest r =
     and_then (read_byte_string r) (\<lambda>(bs, r).
     and_then (ok_or InvalidCbor (array32 bs)) (\<lambda>a. Ok (a, r)))"

definition anchor_from_canonical_cbor :: "bytes \<Rightarrow> ootle_anchor_record_v1 presult" where
  "anchor_from_canonical_cbor encoded =
     (if length encoded > MAX_OOTLE_ANCHOR_RECORD_BYTES then Err ProtocolLimitExceeded
      else
        and_then (read_array_len (new_reader encoded)) (\<lambda>(n, r).
        if n \<noteq> OOTLE_ANCHOR_RECORD_FIELD_COUNT_V1 then Err InvalidCbor
        else
        and_then (read_text_string r) (\<lambda>(record_type, r).
        if record_type \<noteq> OOTLE_ANCHOR_RECORD_TYPE_ID_V1 then Err UnsupportedProtocolVersion
        else
        and_then (read_text_string r) (\<lambda>(text, r).
        and_then (OotleNetworkIdV1_new text) (\<lambda>network.
        and_then (anchor_read_digest r) (\<lambda>(manifest_hash, r).
        and_then (anchor_read_digest r) (\<lambda>(archive_hash, r).
        and_then (read_text_string r) (\<lambda>(algorithm, r).
        if algorithm \<noteq> BLAKE3_256_HASH_ALGORITHM_ID_V1 then Err UnsupportedHashAlgorithm
        else
        and_then (read_text_string r) (\<lambda>(purpose, r).
        if purpose \<noteq> OOTLE_ANCHOR_PURPOSE_ID_V1 then Err InvalidData
        else
        and_then (finish r) (\<lambda>_.
        Ok (OotleAnchorRecordV1_new network (ManifestHash manifest_hash) (ArchiveHashV1 archive_hash))))))))))))"

section \<open>The digest\<close>

definition OOTLE_ANCHOR_HASH_FRAME_PREFIX :: bytes where
  "OOTLE_ANCHOR_HASH_FRAME_PREFIX = lit ''TARI_CC_PRIVATE_BALLOT_OOTLE_ANCHOR_FRAME_V1''"

definition OOTLE_ANCHOR_RECORD_DOMAIN_LABEL_V1 :: rstring where
  "OOTLE_ANCHOR_RECORD_DOMAIN_LABEL_V1 = lit ''tari-cc-private-ballot/ootle-anchor-record/v1''"

datatype ootle_anchor_record_hash_v1 = OotleAnchorRecordHashV1 (anchor_hash_bytes: bytes32)

definition anchor_domain_input :: "bytes \<Rightarrow> bytes" where
  "anchor_domain_input canonical_record_bytes =
     OOTLE_ANCHOR_HASH_FRAME_PREFIX @ [0] @ OOTLE_ANCHOR_RECORD_DOMAIN_LABEL_V1 @ [0] @ canonical_record_bytes"

definition anchor_validate_hash_provider :: "hash_provider \<Rightarrow> unit presult" where
  "anchor_validate_hash_provider provider =
     (if hp_algorithm_id provider \<noteq> BLAKE3_256_HASH_ALGORITHM_ID_V1 then Err UnsupportedHashAlgorithm else Ok ())"

definition anchor_canonical_hash ::
  "hash_provider \<Rightarrow> ootle_anchor_record_v1 \<Rightarrow> ootle_anchor_record_hash_v1 presult" where
  "anchor_canonical_hash provider a =
     and_then (anchor_validate_hash_provider provider) (\<lambda>_.
     and_then (anchor_to_canonical_cbor a) (\<lambda>encoded.
     Ok (OotleAnchorRecordHashV1 (hp_hash provider (anchor_domain_input encoded)))))"

definition anchor_verify_hash ::
  "hash_provider \<Rightarrow> ootle_anchor_record_hash_v1 \<Rightarrow> ootle_anchor_record_v1 \<Rightarrow> unit presult" where
  "anchor_verify_hash provider expected a =
     and_then (anchor_canonical_hash provider a) (\<lambda>h.
     if h \<noteq> expected then Err ArchiveManifestHashMismatch else Ok ())"

section \<open>Log payloads\<close>

definition ANCHOR_LOG_PAYLOAD_PREFIX_V1 :: rstring where
  "ANCHOR_LOG_PAYLOAD_PREFIX_V1 = OOTLE_ANCHOR_RECORD_TYPE_ID_V1"

definition ANCHOR_LOG_PAYLOAD_SEPARATOR :: rstring where "ANCHOR_LOG_PAYLOAD_SEPARATOR = lit '':''"

definition ANCHOR_LOG_PAYLOAD_DIGEST_HEX_LEN :: nat where "ANCHOR_LOG_PAYLOAD_DIGEST_HEX_LEN = 64"

definition ANCHOR_LOG_PAYLOAD_CANDIDATE_PREFIX_V1 :: rstring where
  "ANCHOR_LOG_PAYLOAD_CANDIDATE_PREFIX_V1 = lit ''TARI_CC_PRIVATE_BALLOT_OOTLE_ANCHOR_V1:''"

datatype anchor_log_payload_error =
    PayloadEmpty | WrongPrefix | MissingSeparator | DigestLength | NonLowercaseHexDigit

datatype anchor_log_payload_v1 = AnchorLogPayloadV1 (payload_digest: ootle_anchor_record_hash_v1)

definition exact_encoded_len :: nat where
  "exact_encoded_len = length ANCHOR_LOG_PAYLOAD_PREFIX_V1 + 1 + ANCHOR_LOG_PAYLOAD_DIGEST_HEX_LEN"

definition to_encoded_string :: "anchor_log_payload_v1 \<Rightarrow> rstring" where
  "to_encoded_string p =
     ANCHOR_LOG_PAYLOAD_PREFIX_V1 @ ANCHOR_LOG_PAYLOAD_SEPARATOR @ to_lower_hex (anchor_hash_bytes (payload_digest p))"

text \<open>\<open>str::strip_prefix\<close>.\<close>

definition strip_prefix :: "rstring \<Rightarrow> rstring \<Rightarrow> rstring option" where
  "strip_prefix s p = (if starts_with s p then Some (drop (length p) s) else None)"

definition lower_hex_value :: "u8 \<Rightarrow> u8 option" where
  "lower_hex_value b =
     (if 0x30 \<le> b \<and> b \<le> 0x39 then Some (b - 0x30)
      else if 0x61 \<le> b \<and> b \<le> 0x66 then Some (b - 0x61 + 10)
      else None)"

fun lower_hex_pairs :: "rstring \<Rightarrow> bytes option" where
  "lower_hex_pairs (h # l # text) =
     (case lower_hex_value h of
        None \<Rightarrow> None
      | Some high \<Rightarrow>
          (case lower_hex_value l of
             None \<Rightarrow> None
           | Some low \<Rightarrow> map_option (\<lambda>out. (push_bit 4 high OR low) # out) (lower_hex_pairs text)))"
| "lower_hex_pairs _ = Some []"

definition payload_parse :: "rstring \<Rightarrow> (anchor_log_payload_v1, anchor_log_payload_error) result" where
  "payload_parse input =
     (if input = [] then Err PayloadEmpty
      else
        and_then (ok_or WrongPrefix (strip_prefix input ANCHOR_LOG_PAYLOAD_PREFIX_V1)) (\<lambda>after_prefix.
        and_then (ok_or MissingSeparator (strip_prefix after_prefix ANCHOR_LOG_PAYLOAD_SEPARATOR)) (\<lambda>hex.
        if length hex \<noteq> ANCHOR_LOG_PAYLOAD_DIGEST_HEX_LEN then Err DigestLength
        else
          and_then (ok_or NonLowercaseHexDigit (lower_hex_pairs hex)) (\<lambda>digest.
          Ok (AnchorLogPayloadV1 (OotleAnchorRecordHashV1 (mk32 digest)))))))"

section \<open>Identifiers\<close>

definition MAX_ANCHOR_IDENTIFIER_BYTES :: nat where "MAX_ANCHOR_IDENTIFIER_BYTES = 128"

datatype anchor_identifier_error = IdentifierEmpty | IdentifierTooLong | ForbiddenCharacter

definition validate_anchor_identifier :: "rstring \<Rightarrow> (unit, anchor_identifier_error) result" where
  "validate_anchor_identifier v =
     (if v = [] then Err IdentifierEmpty
      else if length v > MAX_ANCHOR_IDENTIFIER_BYTES then Err IdentifierTooLong
      else if list_ex (\<lambda>c. is_control c \<or> is_whitespace c) (chars v) then Err ForbiddenCharacter
      else Ok ())"

datatype anchor_request_id = AnchorRequestId (request_id_str: rstring)
datatype anchor_transaction_id = AnchorTransactionId (transaction_id_str: rstring)
datatype anchor_account_reference = AnchorAccountReference (account_str: rstring)

definition AnchorRequestId_new :: "rstring \<Rightarrow> (anchor_request_id, anchor_identifier_error) result" where
  "AnchorRequestId_new v = and_then (validate_anchor_identifier v) (\<lambda>_. Ok (AnchorRequestId v))"

definition AnchorTransactionId_new :: "rstring \<Rightarrow> (anchor_transaction_id, anchor_identifier_error) result" where
  "AnchorTransactionId_new v = and_then (validate_anchor_identifier v) (\<lambda>_. Ok (AnchorTransactionId v))"

definition AnchorAccountReference_new :: "rstring \<Rightarrow> (anchor_account_reference, anchor_identifier_error) result" where
  "AnchorAccountReference_new v = and_then (validate_anchor_identifier v) (\<lambda>_. Ok (AnchorAccountReference v))"

instantiation anchor_request_id :: linorder
begin
definition less_eq_anchor_request_id :: "anchor_request_id \<Rightarrow> anchor_request_id \<Rightarrow> bool" where
  "less_eq_anchor_request_id a b \<longleftrightarrow> request_id_str a \<le> request_id_str b"
definition less_anchor_request_id :: "anchor_request_id \<Rightarrow> anchor_request_id \<Rightarrow> bool" where
  "less_anchor_request_id a b \<longleftrightarrow> request_id_str a < request_id_str b"
instance
  by standard (auto simp: less_eq_anchor_request_id_def less_anchor_request_id_def
      intro: anchor_request_id.expand)
end

section \<open>The codec of records\<close>

definition wf_network_id :: "ootle_network_id_v1 \<Rightarrow> bool" where
  "wf_network_id n \<longleftrightarrow> network_id_str n \<noteq> [] \<and> length (network_id_str n) \<le> MAX_OOTLE_NETWORK_ID_BYTES
     \<and> list_all is_network_byte (network_id_str n)"

lemma OotleNetworkIdV1_new_Ok_iff [result_inv]:
  "OotleNetworkIdV1_new v = Ok n \<longleftrightarrow> wf_network_id n \<and> v = network_id_str n"
  by (cases n) (auto simp: OotleNetworkIdV1_new_def wf_network_id_def)

text \<open>Text of ASCII bytes is valid UTF-8, and each byte is a character.\<close>

lemma ascii_decode: "list_all (\<lambda>b. unat b < 128) bs \<Longrightarrow> utf8_decode bs = Some (map unat bs)"
  by (induction bs) simp_all

lemma network_byte_ascii: "is_network_byte b \<Longrightarrow> unat b < 128"
  by (auto simp: is_network_byte_def is_ascii_alphanumeric_def word_le_nat_alt)

lemma wf_network_text:
  assumes "wf_network_id n"
  shows "utf8_valid (network_id_str n)" "length (network_id_str n) \<le> 32"
  using assms ascii_decode [of "network_id_str n"] network_byte_ascii
  by (auto simp: wf_network_id_def utf8_valid_def list_all_iff anchor_consts)

lemma anchor_texts:
  "utf8_valid OOTLE_ANCHOR_RECORD_TYPE_ID_V1" "length OOTLE_ANCHOR_RECORD_TYPE_ID_V1 = 38"
  "utf8_valid OOTLE_ANCHOR_PURPOSE_ID_V1" "length OOTLE_ANCHOR_PURPOSE_ID_V1 = 41"
  "utf8_valid BLAKE3_256_HASH_ALGORITHM_ID_V1" "length BLAKE3_256_HASH_ALGORITHM_ID_V1 = 36"
  by (simp_all add: anchor_consts lit_def utf8_valid_def)

interpretation anchor_digest_c: cbor_codec anchor_read_digest "\<lambda>a. enc_bytes (arr_bytes a)" "\<lambda>_. True"
  unfolding anchor_read_digest_def [abs_def]
  by (rule bytes_c.codec_validated [where proj = arr_bytes and valid = "\<lambda>_. True"])
    (auto simp: result_inv array32_Some_iff)

definition anchor_enc :: "ootle_anchor_record_v1 \<Rightarrow> bytes" where
  "anchor_enc a =
     enc_len MAJOR_ARRAY OOTLE_ANCHOR_RECORD_FIELD_COUNT_V1 @ enc_text OOTLE_ANCHOR_RECORD_TYPE_ID_V1
     @ enc_text (network_id_str (ar_network a))
     @ enc_bytes (arr_bytes (manifest_hash_bytes (ar_election_manifest_hash a)))
     @ enc_bytes (arr_bytes (archive_hash_bytes (ar_archive_hash a)))
     @ enc_text BLAKE3_256_HASH_ALGORITHM_ID_V1 @ enc_text OOTLE_ANCHOR_PURPOSE_ID_V1"

text \<open>The largest record takes exactly 224 bytes, far below the bound of the decoder.\<close>

lemma length_enc_arg_short: "length (enc_arg m v) = (if v < 24 then 1 else 2)" if "v < 256"
  using that by (simp add: enc_arg_def encode_argument_def word_less_nat_alt word_le_nat_alt)

lemma length_enc_short:
  assumes "length v < 256"
  shows "length (enc_text v) = (if length v < 24 then 1 else 2) + length v"
    "length (enc_bytes v) = (if length v < 24 then 1 else 2) + length v"
proof -
  have "unat (word_of_nat (length v) :: u64) = length v" using assms by (simp add: unat_len len_ok_def)
  then show "length (enc_text v) = (if length v < 24 then 1 else 2) + length v"
    "length (enc_bytes v) = (if length v < 24 then 1 else 2) + length v"
    using assms length_enc_arg_short [of "word_of_nat (length v)"]
    by (simp_all add: enc_text_def enc_bytes_def enc_len_def word_less_nat_alt)
qed

lemma length_anchor_enc:
  assumes "wf_network_id (ar_network a)"
  shows "length (anchor_enc a) = (if length (network_id_str (ar_network a)) < 24 then 191 else 192)
    + length (network_id_str (ar_network a))"
proof -
  have "length (enc_len MAJOR_ARRAY 6) = 1" using length_enc_arg_short [of 6] by (simp add: enc_len_def)
  then show ?thesis
    using wf_network_text(2) [OF assms] by (simp add: anchor_enc_def length_enc_short anchor_texts anchor_consts(5))
qed

lemma length_anchor_enc_le:
  assumes "wf_network_id (ar_network a)"
  shows "length (anchor_enc a) \<le> 224" "length (anchor_enc a) \<le> MAX_OOTLE_ANCHOR_RECORD_BYTES"
  using length_anchor_enc [OF assms] wf_network_text(2) [OF assms] by (auto simp: anchor_consts)

lemma anchor_to_canonical_cbor_eq:
  assumes "wf_network_id (ar_network a)"
  shows "anchor_to_canonical_cbor a = Ok (anchor_enc a)"
proof -
  have "len_ok (length (network_id_str (ar_network a)))" "len_ok OOTLE_ANCHOR_RECORD_FIELD_COUNT_V1"
    using wf_network_text(2) [OF assms] by (simp_all add: len_ok_def anchor_consts)
  then show ?thesis
    using length_anchor_enc_le(2) [OF assms]
    by (simp add: anchor_to_canonical_cbor_def anchor_enc_def anchor_texts)
qed

lemma anchor_decode_enc:
  assumes "wf_network_id (ar_network a)"
  shows "anchor_from_canonical_cbor (anchor_enc a) = Ok a"
proof -
  have fit: "fits (anchor_enc a)" using length_anchor_enc_le(1) [OF assms] by (simp add: fits_def usize_max_def)
  have new: "OotleNetworkIdV1_new (network_id_str (ar_network a)) = Ok (ar_network a)" using assms by (simp add: result_inv)
  have len: "len_ok (length (network_id_str (ar_network a)))" "len_ok OOTLE_ANCHOR_RECORD_FIELD_COUNT_V1"
    using wf_network_text(2) [OF assms] by (auto simp: len_ok_def anchor_consts)
  show ?thesis
    using length_anchor_enc_le(2) [OF assms] fit new len wf_network_text(1) [OF assms]
    unfolding anchor_from_canonical_cbor_def new_reader_rd
    by (simp add: anchor_enc_def array_c.read_enc [where pre = "[]", simplified] text_c.read_enc anchor_texts
        anchor_digest_c.read_enc text_c.read_enc_end OotleAnchorRecordV1_new_def)
qed

lemma anchor_decode_Ok:
  assumes "anchor_from_canonical_cbor bs = Ok a"
  shows "wf_network_id (ar_network a) \<and> anchor_enc a = bs"
  using assms
  by (auto simp: anchor_from_canonical_cbor_def new_reader_rd result_inv anchor_enc_def OotleAnchorRecordV1_new_def
      dest!: array_c.enc_read text_c.enc_read anchor_digest_c.enc_read split: if_splits)

interpretation anchor_codec: object_codec anchor_from_canonical_cbor anchor_to_canonical_cbor "\<lambda>a. wf_network_id (ar_network a)"
  by unfold_locales (auto simp: anchor_to_canonical_cbor_eq anchor_decode_enc dest!: anchor_decode_Ok)

text \<open>
  Equal digests mean equal records or a collision on their frames; and no frame of an anchor record is a
  frame of another object of the protocol.
\<close>

lemma anchor_hash_binds:
  assumes "wf_network_id (ar_network a)" "wf_network_id (ar_network b)"
    and "anchor_canonical_hash provider a = Ok h" "anchor_canonical_hash provider b = Ok h"
  shows "a = b \<or> is_collision (hp_hash provider) (anchor_domain_input (anchor_enc a)) (anchor_domain_input (anchor_enc b))"
proof -
  have "hp_hash provider (anchor_domain_input (anchor_enc a)) = hp_hash provider (anchor_domain_input (anchor_enc b))"
    using assms by (auto simp: anchor_canonical_hash_def anchor_to_canonical_cbor_eq result_inv)
  moreover have "anchor_enc a = anchor_enc b \<Longrightarrow> a = b"
    using anchor_decode_enc [OF assms(1)] anchor_decode_enc [OF assms(2)] by (metis result.inject(1))
  ultimately show ?thesis by (auto simp: is_collision_def anchor_domain_input_def)
qed

lemma anchor_frame_separate: "anchor_domain_input x \<noteq> domain_separated_input d y"
proof -
  have "OOTLE_ANCHOR_HASH_FRAME_PREFIX ! 23 = 0x4f \<and> length OOTLE_ANCHOR_HASH_FRAME_PREFIX = 44"
    "HASH_FRAME_PREFIX ! 23 = 0x48 \<and> length HASH_FRAME_PREFIX = 36"
    by (simp_all add: OOTLE_ANCHOR_HASH_FRAME_PREFIX_def HASH_FRAME_PREFIX_def lit_def)
  then have "anchor_domain_input x ! 23 = 0x4f" "domain_separated_input d y ! 23 = 0x48"
    by (simp_all add: anchor_domain_input_def domain_separated_input_def nth_append)
  then have "anchor_domain_input x ! 23 \<noteq> domain_separated_input d y ! 23" by simp
  then show ?thesis by metis
qed

section \<open>The text form\<close>

lemma lower_hex_pairs_slice: "lower_hex_pairs (to_lower_hex_slice bs) = Some bs"
proof -
  have "lower_hex_value (hex_digit n) = Some n" if "n < 16" for n
    using hex_digit_lower [OF that] by (auto simp: lower_hex_value_def hex_nibble_def split: if_splits)
  then show ?thesis by (induction bs) (simp_all add: to_lower_hex_slice_def nibbles)
qed

lemma lower_hex_value_digit:
  assumes "lower_hex_value b = Some n"
  shows "n < 16 \<and> hex_digit n = b"
proof -
  have "(48 \<le> unat b \<and> unat b < 58) \<or> (97 \<le> unat b \<and> unat b < 103)"
    using assms by (auto simp: lower_hex_value_def word_le_nat_alt split: if_splits)
  then have "unat b \<in> set ([48..<58] @ [97..<103])" unfolding set_append set_upt Un_iff atLeastLessThan_iff .
  moreover have "b = word_of_nat (unat b)" by simp
  ultimately obtain k where k: "k \<in> set ([48..<58] @ [97..<103])" "b = word_of_nat k" by blast
  have "\<forall>k \<in> set ([48..<58] @ [97..<103]). \<forall>n. lower_hex_value (word_of_nat k) = Some n \<longrightarrow>
      n < 16 \<and> hex_digit n = word_of_nat k"
    by (simp add: upt_rec lower_hex_value_def hex_digit_def lit_def)
  with k assms show ?thesis by blast
qed

lemma nibble_halves:
  fixes h l :: u8
  assumes "h < 16" "l < 16"
  shows "drop_bit 4 (push_bit 4 h OR l) = h" "(push_bit 4 h OR l) AND 0x0f = l"
proof -
  have small: "take_bit 4 w = w" if "w < 16" for w :: u8
    using that by (simp add: take_bit_eq_mod word_less_nat_alt mod_word_less)
  have bits: "bit h n \<Longrightarrow> n < 4" "bit l n \<Longrightarrow> n < 4" for n
    using assms bit_take_bit_iff [of 4 h n] bit_take_bit_iff [of 4 l n] by (simp_all add: small)
  show "drop_bit 4 (push_bit 4 h OR l) = h"
    by (rule bit_word_eqI) (use bits in \<open>auto simp: bit_simps\<close>)
  have "(push_bit 4 h OR l) AND mask 4 = l"
    by (rule bit_word_eqI) (use bits in \<open>auto simp: bit_simps\<close>)
  then show "(push_bit 4 h OR l) AND 0x0f = l" by (simp add: mask_eq_exp_minus_1)
qed

lemma lower_hex_pairs_Some:
  "length s = 2 * k \<Longrightarrow> lower_hex_pairs s = Some bs \<Longrightarrow> s = to_lower_hex_slice bs \<and> length bs = k"
proof (induction s arbitrary: k bs rule: lower_hex_pairs.induct)
  case (1 h l rest)
  then obtain k' where k': "k = Suc k'" by (cases k) auto
  with "1.prems" obtain high low out where p: "lower_hex_value h = Some high" "lower_hex_value l = Some low"
    "lower_hex_pairs rest = Some out" "bs = (push_bit 4 high OR low) # out" "length rest = 2 * k'"
    by (auto split: option.splits)
  note d = lower_hex_value_digit [OF p(1)] lower_hex_value_digit [OF p(2)]
  have "to_lower_hex_slice bs = h # l # to_lower_hex_slice out"
    using d p(4) nibble_halves by (simp add: to_lower_hex_slice_def)
  with "1.IH" [OF p(1) p(2) p(5) p(3)] k' show ?case using p(4) by simp
qed (auto simp: to_lower_hex_slice_def)

text \<open>The parser accepts exactly the canonical strings.\<close>

lemma payload_parse_iff: "payload_parse s = Ok p \<longleftrightarrow> s = to_encoded_string p"
proof -
  have strip: "strip_prefix x y = Some z \<longleftrightarrow> x = y @ z" for x y z
    by (auto simp: strip_prefix_def starts_with_def) (metis append_take_drop_id)
  have mk: "to_lower_hex_slice bs = to_lower_hex (mk32 bs)" if "length bs = 32" for bs
    using that by (simp add: to_lower_hex_def arr_bytes_mk32)
  have ne: "ANCHOR_LOG_PAYLOAD_PREFIX_V1 \<noteq> []" by (simp add: ANCHOR_LOG_PAYLOAD_PREFIX_V1_def anchor_consts lit_def)
  show ?thesis
  proof
    assume "payload_parse s = Ok p"
    then obtain hex digest where h: "s = ANCHOR_LOG_PAYLOAD_PREFIX_V1 @ ANCHOR_LOG_PAYLOAD_SEPARATOR @ hex" "length hex = 64"
      "lower_hex_pairs hex = Some digest" "p = AnchorLogPayloadV1 (OotleAnchorRecordHashV1 (mk32 digest))"
      by (auto simp: payload_parse_def result_inv strip ANCHOR_LOG_PAYLOAD_DIGEST_HEX_LEN_def split: if_splits)
    with lower_hex_pairs_Some [of hex 32 digest] mk show "s = to_encoded_string p" by (simp add: to_encoded_string_def)
  next
    assume s: "s = to_encoded_string p"
    then show "payload_parse s = Ok p"
      using ne lower_hex_pairs_slice [of "arr_bytes (anchor_hash_bytes (payload_digest p))"] length_to_lower_hex [of "arr_bytes (anchor_hash_bytes (payload_digest p))"]
      by (simp add: payload_parse_def to_encoded_string_def strip result_inv ANCHOR_LOG_PAYLOAD_DIGEST_HEX_LEN_def to_lower_hex_def to_lower_hex_def)
  qed
qed

end
