(* ===== verification/Anchor_Transport.thy ===== *)
theory Anchor_Transport
  imports Anchor_Record
begin

text \<open>
  The observable side of an anchor transaction (\<open>crates/anchor-transport/src/{model,event,verification,agreement}.rs\<close>):
  receipts, the identity of the event template, the verification of a receipt by its logs or its events, and the
  agreement of two observations.
\<close>

section \<open>States and receipts\<close>

datatype anchor_max_fee_v1 = AnchorMaxFeeV1 (max_fee_value: u64)

datatype anchor_lifecycle_state =
    AnchorPrepared | AnchorApproved | AnchorRejectedByApprover | AnchorSubmitted | AnchorFinalizedAccept
  | AnchorFinalizedFeeOnly | AnchorFinalizedReject | AnchorUnknown

datatype anchor_final_status_v1 = StatusAccepted | StatusFeeOnlyAccepted | StatusRejected

datatype anchor_log_level_v1 = LevelError | LevelWarn | LevelInfo | LevelDebug

datatype anchor_receipt_source_kind_v1 = WalletdSource | IndependentIndexer

record anchor_log_entry_v1 =
  le_level :: anchor_log_level_v1
  le_message :: rstring

record anchor_event_proof_v2 =
  ep_template_address :: rstring
  ep_topic :: rstring
  ep_metadata :: "(rstring \<times> rstring) list"
  ep_event_index :: u16
  ep_receipt_epoch :: u64
  ep_intent_commitment :: bytes32

record anchor_receipt_v1 =
  rc_transaction_id :: anchor_transaction_id
  rc_network :: ootle_network_id_v1
  rc_final_status :: anchor_final_status_v1
  rc_logs :: "anchor_log_entry_v1 list"
  rc_rejection_reason :: "rstring option"
  rc_ledger_position :: "u64 option"
  rc_source :: anchor_receipt_source_kind_v1
  rc_event_proofs_v2 :: "anchor_event_proof_v2 list"

datatype anchor_query_outcome_v1 =
    OutcomeNotFound | OutcomeNotFinalized | OutcomeFinalized anchor_receipt_v1 | OutcomeUnknown

section \<open>The event template\<close>

definition ANCHOR_EVENT_TOPIC_SUFFIX_V1 :: rstring where
  "ANCHOR_EVENT_TOPIC_SUFFIX_V1 = lit ''TARI_CC_PRIVATE_BALLOT_OOTLE_ANCHOR_V1''"
definition ANCHOR_EVENT_DIGEST_KEY_V1 :: rstring where "ANCHOR_EVENT_DIGEST_KEY_V1 = lit ''anchor_digest''"
definition ANCHOR_EVENT_FUNCTION_V1 :: rstring where "ANCHOR_EVENT_FUNCTION_V1 = lit ''publish_anchor''"
definition ANCHOR_TEMPLATE_MODULE_V2 :: rstring where
  "ANCHOR_TEMPLATE_MODULE_V2 = lit ''tari_private_ballot_anchor_v2''"
definition ANCHOR_TEMPLATE_RECEIPT_TOPIC_PREFIX_V2 :: rstring where
  "ANCHOR_TEMPLATE_RECEIPT_TOPIC_PREFIX_V2 = lit ''TariPrivateBallotAnchorV2''"
definition ANCHOR_EVENT_TOPIC_SUFFIX_V2 :: rstring where
  "ANCHOR_EVENT_TOPIC_SUFFIX_V2 = lit ''TARI_CC_PRIVATE_BALLOT_OOTLE_ANCHOR_V2''"
definition ANCHOR_EVENT_FUNCTION_V2 :: rstring where "ANCHOR_EVENT_FUNCTION_V2 = lit ''publish_anchor_v2''"
definition ANCHOR_EVENT_DIGEST_KEY_V2 :: rstring where "ANCHOR_EVENT_DIGEST_KEY_V2 = lit ''anchor_digest_v2''"
definition ANCHOR_EVENT_NETWORK_KEY_V2 :: rstring where "ANCHOR_EVENT_NETWORK_KEY_V2 = lit ''network''"
definition ANCHOR_EVENT_ELECTION_ID_KEY_V2 :: rstring where "ANCHOR_EVENT_ELECTION_ID_KEY_V2 = lit ''election_id''"
definition ANCHOR_EVENT_PUBLIC_SUMMARY_KEY_V2 :: rstring where
  "ANCHOR_EVENT_PUBLIC_SUMMARY_KEY_V2 = lit ''public_summary''"
definition OOTLE_MAX_EPOCH_WINDOW_V1 :: u64 where "OOTLE_MAX_EPOCH_WINDOW_V1 = 2160"
definition MAX_ANCHOR_EVENT_METADATA_FIELDS_V2 :: nat where "MAX_ANCHOR_EVENT_METADATA_FIELDS_V2 = 8"
definition MAX_ANCHOR_EVENT_METADATA_BYTES_V2 :: nat where "MAX_ANCHOR_EVENT_METADATA_BYTES_V2 = 256 * 1024"

datatype anchor_event_binding_error =
    InvalidTemplateAddress | InvalidModule | InvalidFunction | InvalidEventTopic | InvalidEpochWindow

definition AnchorEventProofV2_new ::
  "rstring \<Rightarrow> rstring \<Rightarrow> (rstring \<times> rstring) list \<Rightarrow> u16 \<Rightarrow> u64 \<Rightarrow> bytes32 \<Rightarrow>
   (anchor_event_proof_v2, anchor_event_binding_error) result" where
  "AnchorEventProofV2_new template_address topic metadata event_index receipt_epoch intent_commitment =
     (if template_address = [] \<or> topic = [] \<or> length metadata > MAX_ANCHOR_EVENT_METADATA_FIELDS_V2
         \<or> list_ex (\<lambda>(key, v). key = [] \<or> length key > MAX_ANCHOR_EVENT_METADATA_BYTES_V2
              \<or> length v > MAX_ANCHOR_EVENT_METADATA_BYTES_V2) metadata then Err InvalidEventTopic
      else Ok \<lparr>ep_template_address = template_address, ep_topic = topic, ep_metadata = metadata,
               ep_event_index = event_index, ep_receipt_epoch = receipt_epoch,
               ep_intent_commitment = intent_commitment\<rparr>)"

datatype anchor_event_payload_v2 = AnchorEventPayloadV2 (event_payload_digest: ootle_anchor_record_hash_v1)

definition event_digest_hex :: "anchor_event_payload_v2 \<Rightarrow> rstring" where
  "event_digest_hex p = to_lower_hex (anchor_hash_bytes (event_payload_digest p))"

record anchor_event_payload_v3 =
  e3_digest :: bytes32
  e3_network :: rstring
  e3_election_id :: rstring
  e3_public_summary :: rstring

definition AnchorEventPayloadV3_new ::
  "bytes32 \<Rightarrow> rstring \<Rightarrow> rstring \<Rightarrow> rstring \<Rightarrow> (anchor_event_payload_v3, anchor_event_binding_error) result" where
  "AnchorEventPayloadV3_new digest network election_id public_summary =
     (if network = [] \<or> length network > 32 \<or> \<not> list_all is_network_byte network then Err InvalidEventTopic
      else if election_id = [] \<or> length election_id > 128 \<or> list_ex (\<lambda>b. b < 0x20) election_id then Err InvalidEventTopic
      else if public_summary = [] \<or> length public_summary > MAX_ANCHOR_EVENT_METADATA_BYTES_V2
              \<or> list_ex (\<lambda>b. b < 0x20 \<and> b \<noteq> 0x0a) public_summary then Err InvalidEventTopic
      else Ok \<lparr>e3_digest = digest, e3_network = network, e3_election_id = election_id,
               e3_public_summary = public_summary\<rparr>)"

definition is_ascii_whitespace :: "u8 \<Rightarrow> bool" where
  "is_ascii_whitespace b \<longleftrightarrow> b = 0x20 \<or> b = 0x09 \<or> b = 0x0a \<or> b = 0x0c \<or> b = 0x0d"

definition template_address_valid :: "rstring \<Rightarrow> bool" where
  "template_address_valid a \<longleftrightarrow>
     9 \<le> length a \<and> length a \<le> 128 \<and> starts_with a (lit ''template_'') \<and> \<not> list_ex is_ascii_whitespace a"

record anchor_template_binding_v1 =
  tm_template_address :: rstring
  tm_module :: rstring
  tm_function :: rstring
  tm_full_event_topic :: rstring
  tm_artifact_digest :: bytes32

definition AnchorTemplateBindingV1_new ::
  "rstring \<Rightarrow> rstring \<Rightarrow> rstring \<Rightarrow> rstring \<Rightarrow> bytes32 \<Rightarrow>
   (anchor_template_binding_v1, anchor_event_binding_error) result" where
  "AnchorTemplateBindingV1_new template_address module func full_event_topic artifact_digest =
     (if \<not> template_address_valid template_address then Err InvalidTemplateAddress
      else if module = [] \<or> length module > 128
              \<or> \<not> list_all (\<lambda>b. is_ascii_alphanumeric b \<or> b = 0x5f) module then Err InvalidModule
      else if func \<noteq> ANCHOR_EVENT_FUNCTION_V1 then Err InvalidFunction
      else if full_event_topic \<noteq> module @ lit ''.'' @ ANCHOR_EVENT_TOPIC_SUFFIX_V1 \<or> length full_event_topic > 255 then
        Err InvalidEventTopic
      else Ok \<lparr>tm_template_address = template_address, tm_module = module, tm_function = func,
               tm_full_event_topic = full_event_topic, tm_artifact_digest = artifact_digest\<rparr>)"

record anchor_template_binding_v2 =
  t2_template_address :: rstring
  t2_artifact_digest :: bytes32

definition AnchorTemplateBindingV2_new ::
  "rstring \<Rightarrow> rstring \<Rightarrow> rstring \<Rightarrow> rstring \<Rightarrow> bytes32 \<Rightarrow>
   (anchor_template_binding_v2, anchor_event_binding_error) result" where
  "AnchorTemplateBindingV2_new template_address module func full_event_topic artifact_digest =
     (if \<not> template_address_valid template_address then Err InvalidTemplateAddress
      else if module \<noteq> ANCHOR_TEMPLATE_MODULE_V2 then Err InvalidModule
      else if func \<noteq> ANCHOR_EVENT_FUNCTION_V2 then Err InvalidFunction
      else if full_event_topic \<noteq> ANCHOR_TEMPLATE_MODULE_V2 @ lit ''.'' @ ANCHOR_EVENT_TOPIC_SUFFIX_V2 then
        Err InvalidEventTopic
      else Ok \<lparr>t2_template_address = template_address, t2_artifact_digest = artifact_digest\<rparr>)"

definition canonical_receipt_event_topic :: rstring where
  "canonical_receipt_event_topic = ANCHOR_TEMPLATE_RECEIPT_TOPIC_PREFIX_V2 @ lit ''.'' @ ANCHOR_EVENT_TOPIC_SUFFIX_V2"

record anchor_epoch_binding_v1 =
  eb_observed_epoch :: u64
  eb_max_epoch :: u64

definition from_observed_epoch ::
  "u64 \<Rightarrow> u64 \<Rightarrow> (anchor_epoch_binding_v1, anchor_event_binding_error) result" where
  "from_observed_epoch observed_epoch max_epoch_delta =
     (if max_epoch_delta = 0 \<or> max_epoch_delta > OOTLE_MAX_EPOCH_WINDOW_V1 then Err InvalidEpochWindow
      else
        and_then (ok_or InvalidEpochWindow (checked_add_u64 observed_epoch max_epoch_delta)) (\<lambda>max_epoch.
        Ok \<lparr>eb_observed_epoch = observed_epoch, eb_max_epoch = max_epoch\<rparr>))"

definition AnchorEpochBindingV1_new ::
  "u64 \<Rightarrow> u64 \<Rightarrow> (anchor_epoch_binding_v1, anchor_event_binding_error) result" where
  "AnchorEpochBindingV1_new observed_epoch max_epoch =
     (if max_epoch < observed_epoch then Err InvalidEpochWindow
      else from_observed_epoch observed_epoch (max_epoch - observed_epoch))"

section \<open>Verification\<close>

datatype anchor_receipt_verification_error =
    WrongTransaction | WrongNetwork | ReceiptNotFinalized | FeeOnlyAcceptance | RejectedTransaction
  | MissingAnchorLog | MalformedAnchorLog | WrongAnchorDigest | DuplicateAnchorLogs | ConflictingAnchorLogs
  | MissingAnchorEvent | WrongEventTemplate | WrongEventTopic | MalformedAnchorEvent | UnexpectedEventMetadata
  | DuplicateAnchorEvents

primrec verification_error_as_str :: "anchor_receipt_verification_error \<Rightarrow> rstring" where
  "verification_error_as_str WrongTransaction = lit ''ANCHOR_RECEIPT_WRONG_TRANSACTION''"
| "verification_error_as_str WrongNetwork = lit ''ANCHOR_RECEIPT_WRONG_NETWORK''"
| "verification_error_as_str ReceiptNotFinalized = lit ''ANCHOR_RECEIPT_NOT_FINALIZED''"
| "verification_error_as_str FeeOnlyAcceptance = lit ''ANCHOR_RECEIPT_FEE_ONLY_ACCEPTANCE''"
| "verification_error_as_str RejectedTransaction = lit ''ANCHOR_RECEIPT_REJECTED_TRANSACTION''"
| "verification_error_as_str MissingAnchorLog = lit ''ANCHOR_RECEIPT_MISSING_ANCHOR_LOG''"
| "verification_error_as_str MalformedAnchorLog = lit ''ANCHOR_RECEIPT_MALFORMED_ANCHOR_LOG''"
| "verification_error_as_str WrongAnchorDigest = lit ''ANCHOR_RECEIPT_WRONG_ANCHOR_DIGEST''"
| "verification_error_as_str DuplicateAnchorLogs = lit ''ANCHOR_RECEIPT_DUPLICATE_ANCHOR_LOGS''"
| "verification_error_as_str ConflictingAnchorLogs = lit ''ANCHOR_RECEIPT_CONFLICTING_ANCHOR_LOGS''"
| "verification_error_as_str MissingAnchorEvent = lit ''ANCHOR_RECEIPT_MISSING_ANCHOR_EVENT''"
| "verification_error_as_str WrongEventTemplate = lit ''ANCHOR_RECEIPT_WRONG_EVENT_TEMPLATE''"
| "verification_error_as_str WrongEventTopic = lit ''ANCHOR_RECEIPT_WRONG_EVENT_TOPIC''"
| "verification_error_as_str MalformedAnchorEvent = lit ''ANCHOR_RECEIPT_MALFORMED_ANCHOR_EVENT''"
| "verification_error_as_str UnexpectedEventMetadata = lit ''ANCHOR_RECEIPT_UNEXPECTED_EVENT_METADATA''"
| "verification_error_as_str DuplicateAnchorEvents = lit ''ANCHOR_RECEIPT_DUPLICATE_ANCHOR_EVENTS''"

type_synonym 'a vresult = "('a, anchor_receipt_verification_error) result"

record verified_anchor_evidence_v1 =
  va_transaction_id :: anchor_transaction_id
  va_network :: ootle_network_id_v1
  va_anchor_digest :: ootle_anchor_record_hash_v1
  va_ledger_position :: "u64 option"
  va_source :: anchor_receipt_source_kind_v1

record verified_anchor_evidence_v2 =
  v2_transaction_id :: anchor_transaction_id
  v2_network :: ootle_network_id_v1
  v2_anchor_digest :: bytes32
  v2_ledger_position :: "u64 option"
  v2_source :: anchor_receipt_source_kind_v1

text \<open>The checks that open every verification: transaction, network and full acceptance.\<close>

definition receipt_checks :: "anchor_transaction_id \<Rightarrow> ootle_network_id_v1 \<Rightarrow> anchor_receipt_v1 \<Rightarrow> unit vresult" where
  "receipt_checks expected_transaction expected_network receipt =
     (if rc_transaction_id receipt \<noteq> expected_transaction then Err WrongTransaction
      else if rc_network receipt \<noteq> expected_network then Err WrongNetwork
      else case rc_final_status receipt of
          StatusAccepted \<Rightarrow> Ok ()
        | StatusFeeOnlyAccepted \<Rightarrow> Err FeeOnlyAcceptance
        | StatusRejected \<Rightarrow> Err RejectedTransaction)"

text \<open>The strict parse of every log that starts with the candidate prefix, with the error of the caller.\<close>

fun project_anchor_logs :: "'e \<Rightarrow> anchor_log_entry_v1 list \<Rightarrow> (anchor_log_payload_v1 list, 'e) result" where
  "project_anchor_logs malformed [] = Ok []"
| "project_anchor_logs malformed (entry # logs) =
     (if \<not> starts_with (le_message entry) ANCHOR_LOG_PAYLOAD_CANDIDATE_PREFIX_V1 then project_anchor_logs malformed logs
      else
        and_then (map_err (\<lambda>_. malformed) (payload_parse (le_message entry))) (\<lambda>payload.
        map_ok ((#) payload) (project_anchor_logs malformed logs)))"

definition parse_project_anchor_logs :: "anchor_receipt_v1 \<Rightarrow> anchor_log_payload_v1 list vresult" where
  "parse_project_anchor_logs receipt = project_anchor_logs MalformedAnchorLog (rc_logs receipt)"

definition single_log :: "anchor_log_payload_v1 \<Rightarrow> anchor_log_payload_v1 list \<Rightarrow> anchor_log_payload_v1 vresult" where
  "single_log expected_payload parsed =
     (case parsed of
        [] \<Rightarrow> Err MissingAnchorLog
      | [single] \<Rightarrow> if payload_digest single \<noteq> payload_digest expected_payload then Err WrongAnchorDigest else Ok single
      | first # rest \<Rightarrow> Err (if list_all (\<lambda>payload. payload = first) rest then DuplicateAnchorLogs else ConflictingAnchorLogs))"

definition verify_anchor_receipt ::
  "anchor_transaction_id \<Rightarrow> ootle_network_id_v1 \<Rightarrow> anchor_log_payload_v1 \<Rightarrow> anchor_receipt_v1 \<Rightarrow>
   verified_anchor_evidence_v1 vresult" where
  "verify_anchor_receipt expected_transaction expected_network expected_payload receipt =
     and_then (receipt_checks expected_transaction expected_network receipt) (\<lambda>_.
     and_then (parse_project_anchor_logs receipt) (\<lambda>parsed.
     and_then (single_log expected_payload parsed) (\<lambda>single.
     Ok \<lparr>va_transaction_id = rc_transaction_id receipt, va_network = rc_network receipt,
         va_anchor_digest = payload_digest single, va_ledger_position = rc_ledger_position receipt,
         va_source = rc_source receipt\<rparr>)))"

definition verify_query_outcome ::
  "anchor_transaction_id \<Rightarrow> ootle_network_id_v1 \<Rightarrow> anchor_log_payload_v1 \<Rightarrow> anchor_query_outcome_v1 \<Rightarrow>
   verified_anchor_evidence_v1 vresult" where
  "verify_query_outcome expected_transaction expected_network expected_payload outcome =
     (case outcome of
        OutcomeFinalized receipt \<Rightarrow> verify_anchor_receipt expected_transaction expected_network expected_payload receipt
      | _ \<Rightarrow> Err ReceiptNotFinalized)"

text \<open>
  The loop over the events of a receipt, for a template address, a topic and the metadata key of the
  digest, and the choice of the only candidate.
\<close>

fun event_candidates ::
  "rstring \<Rightarrow> rstring \<Rightarrow> rstring \<Rightarrow> anchor_event_proof_v2 list \<Rightarrow> anchor_event_proof_v2 list vresult" where
  "event_candidates address topic key [] = Ok []"
| "event_candidates address topic key (event # events) =
     (let has_digest_key = list_ex (\<lambda>(k, _). k = key) (ep_metadata event) in
      if ep_template_address event = address \<and> ep_topic event \<noteq> topic then Err WrongEventTopic
      else if ep_topic event = topic \<and> ep_template_address event \<noteq> address then Err WrongEventTemplate
      else if ep_topic event = topic \<or> has_digest_key then map_ok ((#) event) (event_candidates address topic key events)
      else event_candidates address topic key events)"

definition single_event ::
  "rstring \<Rightarrow> rstring \<Rightarrow> anchor_event_proof_v2 list \<Rightarrow> anchor_event_proof_v2 vresult" where
  "single_event address topic candidates =
     (case candidates of
        [event] \<Rightarrow>
          if ep_template_address event \<noteq> address then Err WrongEventTemplate
          else if ep_topic event \<noteq> topic then Err WrongEventTopic
          else Ok event
      | [] \<Rightarrow> Err MissingAnchorEvent
      | _ \<Rightarrow> Err DuplicateAnchorEvents)"

definition verify_v39_event_receipt ::
  "anchor_transaction_id \<Rightarrow> ootle_network_id_v1 \<Rightarrow> anchor_template_binding_v1 \<Rightarrow> anchor_event_payload_v2 \<Rightarrow>
   anchor_receipt_v1 \<Rightarrow> verified_anchor_evidence_v1 vresult" where
  "verify_v39_event_receipt expected_transaction expected_network expected_template expected_payload receipt =
     and_then (receipt_checks expected_transaction expected_network receipt) (\<lambda>_.
     and_then (event_candidates (tm_template_address expected_template) (tm_full_event_topic expected_template)
         ANCHOR_EVENT_DIGEST_KEY_V1 (rc_event_proofs_v2 receipt)) (\<lambda>candidates.
     and_then (single_event (tm_template_address expected_template) (tm_full_event_topic expected_template) candidates) (\<lambda>event.
     case ep_metadata event of
       [(key, digest)] \<Rightarrow>
         if key \<noteq> ANCHOR_EVENT_DIGEST_KEY_V1 then Err MalformedAnchorEvent
         else if digest \<noteq> event_digest_hex expected_payload then Err WrongAnchorDigest
         else Ok \<lparr>va_transaction_id = rc_transaction_id receipt, va_network = rc_network receipt,
                  va_anchor_digest = event_payload_digest expected_payload,
                  va_ledger_position = rc_ledger_position receipt, va_source = rc_source receipt\<rparr>
     | _ \<Rightarrow> Err UnexpectedEventMetadata)))"

fun check_metadata :: "(rstring \<times> rstring) list \<Rightarrow> (rstring \<times> rstring) list \<Rightarrow> unit vresult" where
  "check_metadata metadata [] = Ok ()"
| "check_metadata metadata ((key, v) # expected) =
     (if length (filter (\<lambda>(actual, _). actual = key) metadata) \<noteq> 1 then Err MalformedAnchorEvent
      else if \<not> list_ex (\<lambda>(actual, observed). actual = key \<and> observed = v) metadata then
        Err (if key = ANCHOR_EVENT_DIGEST_KEY_V2 then WrongAnchorDigest else MalformedAnchorEvent)
      else check_metadata metadata expected)"

definition expected_metadata :: "anchor_event_payload_v3 \<Rightarrow> (rstring \<times> rstring) list" where
  "expected_metadata p =
     [(ANCHOR_EVENT_DIGEST_KEY_V2, to_lower_hex (e3_digest p)),
      (ANCHOR_EVENT_NETWORK_KEY_V2, e3_network p),
      (ANCHOR_EVENT_ELECTION_ID_KEY_V2, e3_election_id p),
      (ANCHOR_EVENT_PUBLIC_SUMMARY_KEY_V2, e3_public_summary p)]"

definition verify_v2_event_receipt ::
  "anchor_transaction_id \<Rightarrow> ootle_network_id_v1 \<Rightarrow> anchor_template_binding_v2 \<Rightarrow> anchor_event_payload_v3 \<Rightarrow>
   anchor_receipt_v1 \<Rightarrow> verified_anchor_evidence_v2 vresult" where
  "verify_v2_event_receipt expected_transaction expected_network expected_template expected_payload receipt =
     and_then (receipt_checks expected_transaction expected_network receipt) (\<lambda>_.
     and_then (event_candidates (t2_template_address expected_template) canonical_receipt_event_topic
         ANCHOR_EVENT_DIGEST_KEY_V2 (rc_event_proofs_v2 receipt)) (\<lambda>candidates.
     and_then (single_event (t2_template_address expected_template) canonical_receipt_event_topic candidates) (\<lambda>event.
     if length (ep_metadata event) \<noteq> 4 then Err UnexpectedEventMetadata
     else
       and_then (check_metadata (ep_metadata event) (expected_metadata expected_payload)) (\<lambda>_.
       Ok \<lparr>v2_transaction_id = rc_transaction_id receipt, v2_network = rc_network receipt,
           v2_anchor_digest = e3_digest expected_payload, v2_ledger_position = rc_ledger_position receipt,
           v2_source = rc_source receipt\<rparr>))))"

section \<open>Agreement of two observations\<close>

datatype anchor_observation_agreement_error =
    TransactionIdMismatch | NetworkMismatch | FinalStatusMismatch | FeeOnlyVersusFullMismatch
  | AnchorLogPresenceMismatch | AnchorDigestMismatch | LogSequenceMismatch | AgreementMalformedAnchorLog

definition final_status_disagreement ::
  "anchor_final_status_v1 \<Rightarrow> anchor_final_status_v1 \<Rightarrow> anchor_observation_agreement_error" where
  "final_status_disagreement walletd indexer =
     (case (walletd, indexer) of
        (StatusAccepted, StatusFeeOnlyAccepted) \<Rightarrow> FeeOnlyVersusFullMismatch
      | (StatusFeeOnlyAccepted, StatusAccepted) \<Rightarrow> FeeOnlyVersusFullMismatch
      | _ \<Rightarrow> FinalStatusMismatch)"

definition collect_project_anchor_logs ::
  "anchor_receipt_v1 \<Rightarrow> (anchor_log_payload_v1 list, anchor_observation_agreement_error) result" where
  "collect_project_anchor_logs receipt = project_anchor_logs AgreementMalformedAnchorLog (rc_logs receipt)"

definition compare_receipt_observations ::
  "anchor_receipt_v1 \<Rightarrow> anchor_receipt_v1 \<Rightarrow> (unit, anchor_observation_agreement_error) result" where
  "compare_receipt_observations walletd indexer =
     (if rc_transaction_id walletd \<noteq> rc_transaction_id indexer then Err TransactionIdMismatch
      else if rc_network walletd \<noteq> rc_network indexer then Err NetworkMismatch
      else if rc_final_status walletd \<noteq> rc_final_status indexer then
        Err (final_status_disagreement (rc_final_status walletd) (rc_final_status indexer))
      else
        and_then (collect_project_anchor_logs walletd) (\<lambda>walletd_logs.
        and_then (collect_project_anchor_logs indexer) (\<lambda>indexer_logs.
        if (walletd_logs = []) \<noteq> (indexer_logs = []) then Err AnchorLogPresenceMismatch
        else if walletd_logs \<noteq> indexer_logs then Err AnchorDigestMismatch
        else if rc_logs walletd \<noteq> rc_logs indexer then Err LogSequenceMismatch
        else Ok ())))"

section \<open>What the verification accepts\<close>

lemma receipt_checks_Ok_iff [result_inv]:
  "receipt_checks transaction network r = Ok u \<longleftrightarrow>
     rc_transaction_id r = transaction \<and> rc_network r = network \<and> rc_final_status r = StatusAccepted"
  by (auto simp: receipt_checks_def split: anchor_final_status_v1.splits)

definition is_candidate_log :: "anchor_log_entry_v1 \<Rightarrow> bool" where
  "is_candidate_log entry \<longleftrightarrow> starts_with (le_message entry) ANCHOR_LOG_PAYLOAD_CANDIDATE_PREFIX_V1"

lemma project_anchor_logs_Ok_iff:
  "project_anchor_logs e logs = Ok ps \<longleftrightarrow> map le_message (filter is_candidate_log logs) = map to_encoded_string ps"
  by (induction logs arbitrary: ps)
    (auto simp: is_candidate_log_def result_inv payload_parse_iff Cons_eq_map_conv map_eq_Cons_conv)

lemma to_encoded_string_inject [simp]: "to_encoded_string p = to_encoded_string q \<longleftrightarrow> p = q"
  by (metis payload_parse_iff result.inject(1))

text \<open>By its logs, a receipt is accepted exactly when its only project log is the expected payload.\<close>

lemma verify_anchor_receipt_Ok_iff:
  "verify_anchor_receipt transaction network payload r = Ok e \<longleftrightarrow>
     rc_transaction_id r = transaction \<and> rc_network r = network \<and> rc_final_status r = StatusAccepted
     \<and> map le_message (filter is_candidate_log (rc_logs r)) = [to_encoded_string payload]
     \<and> e = \<lparr>va_transaction_id = transaction, va_network = network, va_anchor_digest = payload_digest payload,
            va_ledger_position = rc_ledger_position r, va_source = rc_source r\<rparr>"
proof -
  have single: "single_log payload parsed = Ok q \<longleftrightarrow> parsed = [payload] \<and> q = payload" for parsed q
    by (cases parsed; cases "tl parsed"; cases payload; cases "hd parsed") (auto simp: single_log_def)
  show ?thesis
    by (auto simp: verify_anchor_receipt_def parse_project_anchor_logs_def result_inv single project_anchor_logs_Ok_iff)
qed

definition is_candidate_event :: "rstring \<Rightarrow> rstring \<Rightarrow> anchor_event_proof_v2 \<Rightarrow> bool" where
  "is_candidate_event topic key event \<longleftrightarrow> ep_topic event = topic \<or> key \<in> fst ` set (ep_metadata event)"

lemma event_candidates_Ok_iff:
  "event_candidates address topic key events = Ok cs \<longleftrightarrow>
     (\<forall>event \<in> set events. ep_template_address event = address \<longleftrightarrow> ep_topic event = topic)
     \<and> cs = filter (is_candidate_event topic key) events"
proof (induction events arbitrary: cs)
  case (Cons event events)
  have "list_ex (\<lambda>(k, _). k = key) (ep_metadata event) \<longleftrightarrow> key \<in> fst ` set (ep_metadata event)"
    by (force simp: list_ex_iff)
  with Cons show ?case by (auto simp: Let_def result_inv is_candidate_event_def)
qed auto

lemma single_event_Ok_iff [result_inv]:
  "single_event address topic cs = Ok event \<longleftrightarrow>
     cs = [event] \<and> ep_template_address event = address \<and> ep_topic event = topic"
  by (auto simp: single_event_def split: list.splits)

text \<open>The event of a receipt that proves an anchor: alone of its kind, from the template and with the topic.\<close>

definition proves_by_event :: "rstring \<Rightarrow> rstring \<Rightarrow> rstring \<Rightarrow> anchor_receipt_v1 \<Rightarrow> anchor_event_proof_v2 \<Rightarrow> bool" where
  "proves_by_event address topic key r event \<longleftrightarrow>
     filter (is_candidate_event topic key) (rc_event_proofs_v2 r) = [event]
     \<and> ep_template_address event = address \<and> ep_topic event = topic
     \<and> (\<forall>e \<in> set (rc_event_proofs_v2 r). ep_template_address e = address \<longleftrightarrow> ep_topic e = topic)"

lemma verify_v39_Ok_iff:
  "verify_v39_event_receipt transaction network template payload r = Ok e \<longleftrightarrow>
     rc_transaction_id r = transaction \<and> rc_network r = network \<and> rc_final_status r = StatusAccepted
     \<and> (\<exists>event. proves_by_event (tm_template_address template) (tm_full_event_topic template) ANCHOR_EVENT_DIGEST_KEY_V1 r event
          \<and> ep_metadata event = [(ANCHOR_EVENT_DIGEST_KEY_V1, event_digest_hex payload)])
     \<and> e = \<lparr>va_transaction_id = transaction, va_network = network, va_anchor_digest = event_payload_digest payload,
            va_ledger_position = rc_ledger_position r, va_source = rc_source r\<rparr>"
proof -
  have pick: "(case metadata of [(key, digest)] \<Rightarrow> if key \<noteq> k then Err MalformedAnchorEvent
       else if digest \<noteq> d then Err WrongAnchorDigest else Ok v
     | _ \<Rightarrow> Err UnexpectedEventMetadata) = Ok e \<longleftrightarrow> metadata = [(k, d)] \<and> e = v"
    for metadata k d v and e :: verified_anchor_evidence_v1
    by (cases metadata; cases "hd metadata"; cases "tl metadata") auto
  show ?thesis
    unfolding verify_v39_event_receipt_def
    by (auto simp: result_inv pick event_candidates_Ok_iff proves_by_event_def)
qed

text \<open>
  The check of the four metadata entries of a version-two event accepts exactly the expected entries, in any
  order and nothing beside them.
\<close>

lemma check_metadata_Ok_iff:
  "check_metadata metadata expected = Ok u \<longleftrightarrow>
     (\<forall>(key, v) \<in> set expected. filter (\<lambda>(k, _). k = key) metadata = [(key, v)])"
proof (induction expected)
  case (Cons kv expected)
  obtain key v where kv: "kv = (key, v)" by fastforce
  have "(length (filter (\<lambda>(k, _). k = key) metadata) = 1 \<and> list_ex (\<lambda>(k, w). k = key \<and> w = v) metadata)
      \<longleftrightarrow> filter (\<lambda>(k, _). k = key) metadata = [(key, v)]"
    (is "?l = 1 \<and> ?e \<longleftrightarrow> ?f = _")
  proof -
    have "?e \<longleftrightarrow> (key, v) \<in> set ?f" by (auto simp: list_ex_iff)
    then show ?thesis by (cases ?f; cases "tl ?f") auto
  qed
  with Cons kv show ?case by auto
qed simp

lemma metadata_keys_distinct: "distinct (map fst (expected_metadata p))"
  by (simp add: expected_metadata_def ANCHOR_EVENT_DIGEST_KEY_V2_def ANCHOR_EVENT_NETWORK_KEY_V2_def
      ANCHOR_EVENT_ELECTION_ID_KEY_V2_def ANCHOR_EVENT_PUBLIC_SUMMARY_KEY_V2_def lit_def)

lemma metadata_exact:
  assumes "distinct (map fst expected)" and "length metadata = length expected"
  shows "(\<forall>(key, v) \<in> set expected. filter (\<lambda>(k, _). k = key) metadata = [(key, v)]) \<longleftrightarrow> mset metadata = mset expected"
proof
  assume f: "\<forall>(key, v) \<in> set expected. filter (\<lambda>(k, _). k = key) metadata = [(key, v)]"
  have "set expected \<subseteq> set metadata"
  proof
    fix kv assume "kv \<in> set expected"
    with f have "filter (\<lambda>(k, _). k = fst kv) metadata = [kv]" by (cases kv) auto
    then show "kv \<in> set metadata" by (metis filter_is_subset list.set_intros(1) subsetD)
  qed
  moreover have d: "distinct expected" using assms(1) by (simp add: distinct_map)
  ultimately have "mset expected \<subseteq># mset_set (set metadata)"
    by (metis List.finite_set mset_set_set subset_imp_msubset_mset_set)
  then have "mset expected \<subseteq># mset metadata"
    by (metis mset_set_set_mset_msubset set_mset_mset subset_mset.order_trans)
  then show "mset metadata = mset expected"
    using assms(2) by (metis mset_subset_size nat_less_le size_mset subset_mset.le_less)
next
  assume m: "mset metadata = mset expected"
  show "\<forall>(key, v) \<in> set expected. filter (\<lambda>(k, _). k = key) metadata = [(key, v)]"
  proof clarify
    fix key v assume kv: "(key, v) \<in> set expected"
    have "filter (\<lambda>(k, _). k = key) expected = [(key, v)]"
      using assms(1) kv by (induction expected) (auto simp: filter_empty_conv image_iff)
    then have "mset (filter (\<lambda>(k, _). k = key) metadata) = {#(key, v)#}" using m by (metis mset_filter mset_single_iff)
    then show "filter (\<lambda>(k, _). k = key) metadata = [(key, v)]" unfolding mset_single_iff .
  qed
qed

lemma verify_v2_Ok_iff:
  "verify_v2_event_receipt transaction network template payload r = Ok e \<longleftrightarrow>
     rc_transaction_id r = transaction \<and> rc_network r = network \<and> rc_final_status r = StatusAccepted
     \<and> (\<exists>event. proves_by_event (t2_template_address template) canonical_receipt_event_topic ANCHOR_EVENT_DIGEST_KEY_V2 r event
          \<and> mset (ep_metadata event) = mset (expected_metadata payload))
     \<and> e = \<lparr>v2_transaction_id = transaction, v2_network = network, v2_anchor_digest = e3_digest payload,
            v2_ledger_position = rc_ledger_position r, v2_source = rc_source r\<rparr>"
proof -
  have "length metadata = 4 \<and> check_metadata metadata (expected_metadata payload) = Ok () \<longleftrightarrow>
      mset metadata = mset (expected_metadata payload)" for metadata
  proof (cases "length metadata = 4")
    case True
    then have "length metadata = length (expected_metadata payload)" by (simp add: expected_metadata_def)
    with True metadata_exact [OF metadata_keys_distinct this] show ?thesis by (simp add: check_metadata_Ok_iff)
  next
    case False
    then show ?thesis using mset_eq_length [of metadata "expected_metadata payload"] by (auto simp: expected_metadata_def)
  qed
  note eq = this [symmetric]
  show ?thesis
    unfolding eq
    by (auto simp: verify_v2_event_receipt_def result_inv event_candidates_Ok_iff proves_by_event_def split: if_splits)
qed

text \<open>
  Two observations agree exactly when they have the same transaction, network, status and logs, with
  well-formed project logs. The events, which carry the anchors of the current protocol, are not compared.
\<close>

lemma compare_receipts_Ok_iff:
  "compare_receipt_observations w i = Ok u \<longleftrightarrow>
     rc_transaction_id w = rc_transaction_id i \<and> rc_network w = rc_network i \<and> rc_final_status w = rc_final_status i
     \<and> rc_logs w = rc_logs i \<and> is_ok (collect_project_anchor_logs w)"
  by (cases "collect_project_anchor_logs w"; cases "collect_project_anchor_logs i")
    (auto simp: compare_receipt_observations_def collect_project_anchor_logs_def is_ok_iff)

lemma agreement_ignores_events:
  "compare_receipt_observations (w\<lparr>rc_event_proofs_v2 := es\<rparr>) i = compare_receipt_observations w i"
  by (simp add: compare_receipt_observations_def collect_project_anchor_logs_def)

text \<open>An accepted epoch window is not empty, bounded, and does not wrap around.\<close>

lemma epoch_window:
  "AnchorEpochBindingV1_new observed latest = Ok b \<longleftrightarrow>
     b = \<lparr>eb_observed_epoch = observed, eb_max_epoch = latest\<rparr>
     \<and> unat observed < unat latest \<and> unat latest \<le> unat observed + 2160"
proof (cases "latest < observed")
  case False
  then have le: "observed \<le> latest" by simp
  then have d: "unat (latest - observed) = unat latest - unat observed" "unat observed \<le> unat latest"
    by (simp_all add: unat_sub word_le_nat_alt)
  moreover have "checked_add_u64 observed (latest - observed) = Some latest"
    using d by (auto simp: checked_add_u64_def) (use unsigned_less [of latest, where 'a = nat] in auto)
  moreover have "latest - observed = 0 \<longleftrightarrow> latest = observed" by simp
  ultimately show ?thesis
    using False by (auto simp: AnchorEpochBindingV1_new_def from_observed_epoch_def OOTLE_MAX_EPOCH_WINDOW_V1_def word_less_nat_alt
        intro: word_unat_eq_iff [THEN iffD2])
qed (auto simp: AnchorEpochBindingV1_new_def word_less_nat_alt)

end
