(* ===== verification/Walletd_Coordinator.thy ===== *)
theory Walletd_Coordinator
  imports Anchor_Transport Ordered_Map
begin

text \<open>
  The coordinator of wallet-daemon requests (\<open>crates/ootle-walletd-anchor-adapter/src\<close>): the frozen binding of a
  request, the local registry with its snapshots, and the operations that prepare, approve, reject, submit and
  recover a request through a narrow client. The daemon is a client record over a state of its own, so that it may
  answer anything; the unsigned Ootle transaction, a third-party type, is a parameter, and what its inspection
  returned is an argument.
\<close>

section \<open>Bindings and errors\<close>

datatype walletd_request_id = WalletdRequestId (walletd_id_value: int)

datatype ootle_anchor_inspection_fingerprint_v1 = OotleAnchorInspectionFingerprintV1 (fingerprint_bytes: bytes32)

text \<open>The construction error that \<open>UnsafeUnsignedTransaction\<close> wraps is left out.\<close>

datatype walletd_anchor_adapter_error =
    WalletdUnavailable | TransportFailure | MalformedResponse | RequestCreationRejected | RequestNotFound
  | ApprovalRejected | RequestAlreadyApproved | RequestAlreadyRejected | RequestExpired | WalletdBindingMismatch
  | WalletdNetworkMismatch | AccountMismatch | PayloadMismatch | FeeMismatch | FingerprintMismatch
  | MissingObservedFingerprint | RequestIdMismatch | UnsafeUnsignedTransaction | UnsupportedWalletdApi rstring
  | FeeComponentInvalid | RequestNotApproved | SubmitTimeout | MalformedSubmitResponse
  | SubmittedButTransactionIdMissing | AlreadySubmitted | SubmissionStateUnknown | ConflictingTransactionId
  | InsufficientFeesPaid u64 u64 | StatusUnavailable | CallerSuppliedTransactionId

primrec walletd_error_as_str :: "walletd_anchor_adapter_error \<Rightarrow> rstring" where
  "walletd_error_as_str WalletdUnavailable = lit ''WALLETD_UNAVAILABLE''"
| "walletd_error_as_str TransportFailure = lit ''WALLETD_TRANSPORT_FAILURE''"
| "walletd_error_as_str MalformedResponse = lit ''WALLETD_MALFORMED_RESPONSE''"
| "walletd_error_as_str RequestCreationRejected = lit ''WALLETD_REQUEST_CREATION_REJECTED''"
| "walletd_error_as_str RequestNotFound = lit ''WALLETD_REQUEST_NOT_FOUND''"
| "walletd_error_as_str ApprovalRejected = lit ''WALLETD_APPROVAL_REJECTED''"
| "walletd_error_as_str RequestAlreadyApproved = lit ''WALLETD_REQUEST_ALREADY_APPROVED''"
| "walletd_error_as_str RequestAlreadyRejected = lit ''WALLETD_REQUEST_ALREADY_REJECTED''"
| "walletd_error_as_str RequestExpired = lit ''WALLETD_REQUEST_EXPIRED''"
| "walletd_error_as_str WalletdBindingMismatch = lit ''WALLETD_BINDING_MISMATCH''"
| "walletd_error_as_str WalletdNetworkMismatch = lit ''WALLETD_NETWORK_MISMATCH''"
| "walletd_error_as_str AccountMismatch = lit ''WALLETD_ACCOUNT_MISMATCH''"
| "walletd_error_as_str PayloadMismatch = lit ''WALLETD_PAYLOAD_MISMATCH''"
| "walletd_error_as_str FeeMismatch = lit ''WALLETD_FEE_MISMATCH''"
| "walletd_error_as_str FingerprintMismatch = lit ''WALLETD_FINGERPRINT_MISMATCH''"
| "walletd_error_as_str MissingObservedFingerprint = lit ''WALLETD_MISSING_OBSERVED_FINGERPRINT''"
| "walletd_error_as_str RequestIdMismatch = lit ''WALLETD_REQUEST_ID_MISMATCH''"
| "walletd_error_as_str UnsafeUnsignedTransaction = lit ''WALLETD_UNSAFE_UNSIGNED_TRANSACTION''"
| "walletd_error_as_str (UnsupportedWalletdApi detail) = lit ''WALLETD_UNSUPPORTED_API''"
| "walletd_error_as_str FeeComponentInvalid = lit ''WALLETD_FEE_COMPONENT_INVALID''"
| "walletd_error_as_str RequestNotApproved = lit ''WALLETD_REQUEST_NOT_APPROVED''"
| "walletd_error_as_str SubmitTimeout = lit ''WALLETD_SUBMIT_TIMEOUT''"
| "walletd_error_as_str MalformedSubmitResponse = lit ''WALLETD_MALFORMED_SUBMIT_RESPONSE''"
| "walletd_error_as_str SubmittedButTransactionIdMissing = lit ''WALLETD_SUBMITTED_BUT_TRANSACTION_ID_MISSING''"
| "walletd_error_as_str AlreadySubmitted = lit ''WALLETD_ALREADY_SUBMITTED''"
| "walletd_error_as_str SubmissionStateUnknown = lit ''WALLETD_SUBMISSION_STATE_UNKNOWN''"
| "walletd_error_as_str ConflictingTransactionId = lit ''WALLETD_CONFLICTING_TRANSACTION_ID''"
| "walletd_error_as_str (InsufficientFeesPaid paid required) = lit ''WALLETD_INSUFFICIENT_FEES_PAID''"
| "walletd_error_as_str StatusUnavailable = lit ''WALLETD_STATUS_UNAVAILABLE''"
| "walletd_error_as_str CallerSuppliedTransactionId = lit ''WALLETD_CALLER_SUPPLIED_TRANSACTION_ID''"

type_synonym 'a wresult = "('a, walletd_anchor_adapter_error) result"

record walletd_anchor_binding_v1 =
  wb_network :: ootle_network_id_v1
  wb_account :: anchor_account_reference
  wb_anchor_digest :: ootle_anchor_record_hash_v1
  wb_payload :: anchor_log_payload_v1
  wb_max_fee :: anchor_max_fee_v1
  wb_fingerprint :: ootle_anchor_inspection_fingerprint_v1
  wb_template_binding :: "anchor_template_binding_v1 option"
  wb_epoch_binding :: "anchor_epoch_binding_v1 option"

definition ensure_matches :: "walletd_anchor_binding_v1 \<Rightarrow> walletd_anchor_binding_v1 \<Rightarrow> unit wresult" where
  "ensure_matches stored supplied =
     (if wb_network stored \<noteq> wb_network supplied then Err WalletdNetworkMismatch
      else if wb_account stored \<noteq> wb_account supplied then Err AccountMismatch
      else if wb_payload stored \<noteq> wb_payload supplied then Err PayloadMismatch
      else if wb_anchor_digest stored \<noteq> wb_anchor_digest supplied then Err PayloadMismatch
      else if wb_max_fee stored \<noteq> wb_max_fee supplied then Err FeeMismatch
      else if wb_fingerprint stored \<noteq> wb_fingerprint supplied then Err FingerprintMismatch
      else if wb_template_binding stored \<noteq> wb_template_binding supplied
              \<or> wb_epoch_binding stored \<noteq> wb_epoch_binding supplied then Err PayloadMismatch
      else Ok ())"

lemma ensure_matches_Ok_iff [result_inv]: "ensure_matches a b = Ok u \<longleftrightarrow> a = b"
  by (auto simp: ensure_matches_def)

section \<open>The registry\<close>

datatype walletd_effective_status_v1 =
    WalletdPending | WalletdApproved | WalletdRejected | WalletdSubmitting | WalletdSubmitted | WalletdExpired

datatype walletd_request_decision_v1 = DecisionPrepared | DecisionApproved | DecisionRejected | DecisionExpired

datatype walletd_submission_state_v1 = NotSubmitted | TimedOutUnknown | SubmissionSubmitted

record walletd_request_record =
  wr_walletd_request_id :: walletd_request_id
  wr_binding :: walletd_anchor_binding_v1
  wr_decision :: walletd_request_decision_v1
  wr_submission :: walletd_submission_state_v1
  wr_transaction_id :: "anchor_transaction_id option"
  wr_last_effective_status :: "walletd_effective_status_v1 option"
  wr_retry_count :: u32
  wr_sequence :: u64
  wr_last_diagnostic :: "rstring option"

record walletd_anchor_snapshot_v1 =
  ws_project_request_id :: anchor_request_id
  ws_walletd_request_id :: walletd_request_id
  ws_binding :: walletd_anchor_binding_v1
  ws_decision :: walletd_request_decision_v1
  ws_submission :: walletd_submission_state_v1
  ws_transaction_id :: "anchor_transaction_id option"
  ws_last_effective_status :: "walletd_effective_status_v1 option"
  ws_retry_count :: u32
  ws_sequence :: u64
  ws_last_diagnostic :: "rstring option"

record local_walletd_anchor_registry =
  lw_records :: "(anchor_request_id, walletd_request_record) btree_map"
  lw_by_walletd :: "(int, anchor_request_id) btree_map"
  lw_sequence_counter :: u64

definition walletd_registry_new :: local_walletd_anchor_registry where
  "walletd_registry_new = \<lparr>lw_records = bt_new, lw_by_walletd = bt_new, lw_sequence_counter = 0\<rparr>"

definition register_prepared ::
  "anchor_request_id \<Rightarrow> walletd_request_id \<Rightarrow> walletd_anchor_binding_v1 \<Rightarrow> local_walletd_anchor_registry \<Rightarrow>
   local_walletd_anchor_registry" where
  "register_prepared project_request_id walletd_request_id binding reg =
     \<lparr>lw_records = bt_insert project_request_id
        \<lparr>wr_walletd_request_id = walletd_request_id, wr_binding = binding, wr_decision = DecisionPrepared,
         wr_submission = NotSubmitted, wr_transaction_id = None, wr_last_effective_status = None,
         wr_retry_count = 0, wr_sequence = lw_sequence_counter reg, wr_last_diagnostic = None\<rparr> (lw_records reg),
      lw_by_walletd = bt_insert (walletd_id_value walletd_request_id) project_request_id (lw_by_walletd reg),
      lw_sequence_counter = lw_sequence_counter reg + 1\<rparr>"

definition walletd_record :: "local_walletd_anchor_registry \<Rightarrow> anchor_request_id \<Rightarrow> walletd_request_record option" where
  "walletd_record reg project_request_id = bt_get (lw_records reg) project_request_id"

text \<open>\<open>records.get_mut\<close> and an update of the record it finds.\<close>

definition update_record ::
  "(walletd_request_record \<Rightarrow> walletd_request_record) \<Rightarrow> anchor_request_id \<Rightarrow> local_walletd_anchor_registry \<Rightarrow>
   local_walletd_anchor_registry" where
  "update_record f project_request_id reg =
     (case walletd_record reg project_request_id of
        None \<Rightarrow> reg
      | Some record \<Rightarrow> reg\<lparr>lw_records := bt_insert project_request_id (f record) (lw_records reg)\<rparr>)"

definition set_decision where
  "set_decision project_request_id decision = update_record (wr_decision_update (\<lambda>_. decision)) project_request_id"

definition set_diagnostic where
  "set_diagnostic project_request_id diagnostic =
     update_record (wr_last_diagnostic_update (\<lambda>_. Some diagnostic)) project_request_id"

definition set_last_effective_status where
  "set_last_effective_status project_request_id status =
     update_record (wr_last_effective_status_update (\<lambda>_. Some status)) project_request_id"

definition mark_submitted where
  "mark_submitted project_request_id transaction_id =
     update_record (\<lambda>record. record\<lparr>wr_submission := SubmissionSubmitted, wr_transaction_id := Some transaction_id\<rparr>)
       project_request_id"

definition mark_timed_out_unknown where
  "mark_timed_out_unknown project_request_id =
     update_record (\<lambda>record. if wr_submission record \<noteq> SubmissionSubmitted
       then record\<lparr>wr_submission := TimedOutUnknown\<rparr> else record) project_request_id"

definition reset_submission_not_submitted where
  "reset_submission_not_submitted project_request_id =
     update_record (\<lambda>record. if wr_submission record \<noteq> SubmissionSubmitted
       then record\<lparr>wr_submission := NotSubmitted\<rparr> else record) project_request_id"

definition saturating_succ_u32 :: "u32 \<Rightarrow> u32" where
  "saturating_succ_u32 n = (if n = - 1 then n else n + 1)"

definition increment_retry where
  "increment_retry project_request_id =
     update_record (\<lambda>record. record\<lparr>wr_retry_count := saturating_succ_u32 (wr_retry_count record)\<rparr>) project_request_id"

definition contains_walletd_request :: "local_walletd_anchor_registry \<Rightarrow> walletd_request_id \<Rightarrow> bool" where
  "contains_walletd_request reg walletd_request_id \<longleftrightarrow>
     bt_get (lw_by_walletd reg) (walletd_id_value walletd_request_id) \<noteq> None"

definition record_snapshot :: "anchor_request_id \<Rightarrow> walletd_request_record \<Rightarrow> walletd_anchor_snapshot_v1" where
  "record_snapshot project_request_id record =
     \<lparr>ws_project_request_id = project_request_id, ws_walletd_request_id = wr_walletd_request_id record,
      ws_binding = wr_binding record, ws_decision = wr_decision record, ws_submission = wr_submission record,
      ws_transaction_id = wr_transaction_id record, ws_last_effective_status = wr_last_effective_status record,
      ws_retry_count = wr_retry_count record, ws_sequence = wr_sequence record,
      ws_last_diagnostic = wr_last_diagnostic record\<rparr>"

definition walletd_snapshot :: "local_walletd_anchor_registry \<Rightarrow> anchor_request_id \<Rightarrow> walletd_anchor_snapshot_v1 option" where
  "walletd_snapshot reg project_request_id =
     map_option (record_snapshot project_request_id) (walletd_record reg project_request_id)"

definition walletd_snapshots :: "local_walletd_anchor_registry \<Rightarrow> walletd_anchor_snapshot_v1 list" where
  "walletd_snapshots reg = List.map_filter (walletd_snapshot reg) (map fst (lw_records reg))"

definition snapshot_record :: "walletd_anchor_snapshot_v1 \<Rightarrow> walletd_request_record" where
  "snapshot_record s =
     \<lparr>wr_walletd_request_id = ws_walletd_request_id s, wr_binding = ws_binding s, wr_decision = ws_decision s,
      wr_submission = ws_submission s, wr_transaction_id = ws_transaction_id s,
      wr_last_effective_status = ws_last_effective_status s, wr_retry_count = ws_retry_count s,
      wr_sequence = ws_sequence s, wr_last_diagnostic = ws_last_diagnostic s\<rparr>"

text \<open>The running maximum of the imported sequences.\<close>

definition highest_sequence :: "u64 \<Rightarrow> u64 option \<Rightarrow> u64 option" where
  "highest_sequence n highest = Some (case highest of None \<Rightarrow> n | Some current \<Rightarrow> max current n)"

definition next_sequence :: "u64 option \<Rightarrow> u64" where
  "next_sequence highest = (case highest of None \<Rightarrow> 0 | Some n \<Rightarrow> n + 1)"

definition walletd_registry_from_snapshots :: "walletd_anchor_snapshot_v1 list \<Rightarrow> local_walletd_anchor_registry" where
  "walletd_registry_from_snapshots snapshots =
     (let reg = fold (\<lambda>s reg. reg\<lparr>
            lw_by_walletd := bt_insert (walletd_id_value (ws_walletd_request_id s)) (ws_project_request_id s) (lw_by_walletd reg),
            lw_records := bt_insert (ws_project_request_id s) (snapshot_record s) (lw_records reg)\<rparr>)
          snapshots walletd_registry_new in
      reg\<lparr>lw_sequence_counter := next_sequence (fold (\<lambda>s. highest_sequence (ws_sequence s)) snapshots None)\<rparr>)"

section \<open>Requests and the client\<close>

record 'w walletd_create_anchor_request_v1 =
  cr_project_request_id :: anchor_request_id
  cr_binding :: walletd_anchor_binding_v1
  cr_client_reference :: "rstring option"
  cr_wire :: 'w

record ootle_walletd_anchor_preparation_v1 =
  op_network :: ootle_network_id_v1
  op_fee_account :: anchor_account_reference
  op_max_fee :: anchor_max_fee_v1
  op_client_reference :: "rstring option"
  op_anchor_digest :: ootle_anchor_record_hash_v1
  op_template_binding :: anchor_template_binding_v1
  op_epoch_binding :: anchor_epoch_binding_v1

record anchor_build_evidence =
  be_fingerprint :: ootle_anchor_inspection_fingerprint_v1
  be_instruction_count :: nat
  be_fee_instructions_present :: bool

definition PROJECT_REQUEST_ID_DOMAIN_V1 :: bytes where
  "PROJECT_REQUEST_ID_DOMAIN_V1 = lit ''tari-cc-private-ballot/ootle-walletd-anchor-adapter/project-request-id/v1''"

definition project_request_frame :: "walletd_anchor_binding_v1 \<Rightarrow> bytes" where
  "project_request_frame b =
     PROJECT_REQUEST_ID_DOMAIN_V1 @ [0] @ network_id_str (wb_network b) @ [0] @ account_str (wb_account b) @ [0]
     @ arr_bytes (anchor_hash_bytes (wb_anchor_digest b)) @ [0] @ arr_bytes (fingerprint_bytes (wb_fingerprint b))
     @ (case wb_template_binding b of
          None \<Rightarrow> []
        | Some t \<Rightarrow> [0] @ tm_template_address t @ [0] @ tm_module t @ [0] @ tm_function t @ [0] @ tm_full_event_topic t
            @ [0] @ arr_bytes (tm_artifact_digest t))
     @ (case wb_epoch_binding b of
          None \<Rightarrow> []
        | Some e \<Rightarrow> [0] @ be_bytes 8 (unat (eb_observed_epoch e)) @ be_bytes 8 (unat (eb_max_epoch e)))"

definition derive_project_request_id :: "(bytes \<Rightarrow> bytes32) \<Rightarrow> walletd_anchor_binding_v1 \<Rightarrow> anchor_request_id" where
  "derive_project_request_id blake3 b = AnchorRequestId (to_lower_hex (blake3 (project_request_frame b)))"

definition preparation_binding ::
  "ootle_walletd_anchor_preparation_v1 \<Rightarrow> ootle_anchor_inspection_fingerprint_v1 \<Rightarrow> walletd_anchor_binding_v1" where
  "preparation_binding p fingerprint =
     \<lparr>wb_network = op_network p, wb_account = op_fee_account p, wb_anchor_digest = op_anchor_digest p,
      wb_payload = AnchorLogPayloadV1 (op_anchor_digest p), wb_max_fee = op_max_fee p, wb_fingerprint = fingerprint,
      wb_template_binding = Some (op_template_binding p), wb_epoch_binding = Some (op_epoch_binding p)\<rparr>"

text \<open>
  The create request for a build result; \<open>inspection\<close> is the fingerprint that inspecting its unsigned
  transaction again returned, or the error, and \<open>wire\<close> the request of the daemon's client library.
\<close>

definition create_request ::
  "(bytes \<Rightarrow> bytes32) \<Rightarrow> string \<Rightarrow> ootle_walletd_anchor_preparation_v1 \<Rightarrow> anchor_build_evidence \<Rightarrow>
   ootle_anchor_inspection_fingerprint_v1 wresult \<Rightarrow> 'w \<Rightarrow> 'w walletd_create_anchor_request_v1 wresult" where
  "create_request blake3 detail preparation evidence inspection wire =
     and_then inspection (\<lambda>fingerprint.
     if fingerprint \<noteq> be_fingerprint evidence then Err (UnsupportedWalletdApi (lit detail))
     else
       let binding = preparation_binding preparation fingerprint in
       Ok \<lparr>cr_project_request_id = derive_project_request_id blake3 binding, cr_binding = binding,
           cr_client_reference = op_client_reference preparation, cr_wire = wire\<rparr>)"

definition build_walletd_create_request where
  "build_walletd_create_request blake3 =
     create_request blake3 ''build-result fingerprint inconsistent with re-inspection''"

definition build_fee_bearing_walletd_create_request where
  "build_fee_bearing_walletd_create_request blake3 =
     create_request blake3 ''build-result fingerprint inconsistent with fee-aware re-inspection''"

record walletd_create_outcome_v1 =
  co_walletd_request_id :: walletd_request_id
  co_expires_at :: int

record walletd_decision_outcome_v1 =
  do_walletd_request_id :: walletd_request_id
  do_status :: walletd_effective_status_v1

record walletd_request_status_v1 =
  rs_walletd_request_id :: walletd_request_id
  rs_status :: walletd_effective_status_v1
  rs_transaction_id :: "anchor_transaction_id option"
  rs_observed_fingerprint :: "ootle_anchor_inspection_fingerprint_v1 option"

record walletd_submit_outcome_v1 =
  so_walletd_request_id :: walletd_request_id
  so_transaction_id :: anchor_transaction_id

text \<open>The trait \<open>WalletdAnchorClient\<close>; a command carries nothing but the request identifier.\<close>

record ('w, 'c) walletd_anchor_client =
  wc_create :: "'w walletd_create_anchor_request_v1 \<Rightarrow> 'c \<Rightarrow> walletd_create_outcome_v1 wresult \<times> 'c"
  wc_approve :: "walletd_request_id \<Rightarrow> 'c \<Rightarrow> walletd_decision_outcome_v1 wresult \<times> 'c"
  wc_reject :: "walletd_request_id \<Rightarrow> 'c \<Rightarrow> walletd_decision_outcome_v1 wresult \<times> 'c"
  wc_get :: "walletd_request_id \<Rightarrow> 'c \<Rightarrow> walletd_request_status_v1 wresult \<times> 'c"
  wc_submit :: "walletd_request_id \<Rightarrow> 'c \<Rightarrow> walletd_submit_outcome_v1 wresult \<times> 'c"

record prepared_walletd_anchor_request_v1 =
  pw_project_request_id :: anchor_request_id
  pw_walletd_request_id :: walletd_request_id
  pw_binding :: walletd_anchor_binding_v1
  pw_instruction_count :: nat
  pw_fee_present :: bool
  pw_expires_at :: int
  pw_state :: anchor_lifecycle_state

record walletd_decided_request =
  wd_project_request_id :: anchor_request_id
  wd_walletd_request_id :: walletd_request_id
  wd_binding :: walletd_anchor_binding_v1
  wd_state :: anchor_lifecycle_state

record submitted_walletd_anchor_request_v1 =
  sw_project_request_id :: anchor_request_id
  sw_walletd_request_id :: walletd_request_id
  sw_transaction_id :: anchor_transaction_id
  sw_binding :: walletd_anchor_binding_v1
  sw_state :: anchor_lifecycle_state

datatype walletd_recovery_state_v1 =
    RecoverySubmitted anchor_transaction_id | NotSubmittedRetryable | SubmissionInProgress | RecoveryPending
  | RecoveryRejectedByApprover | RecoveryExpired

record recovered_walletd_anchor_request_v1 =
  rw_project_request_id :: anchor_request_id
  rw_walletd_request_id :: walletd_request_id
  rw_binding :: walletd_anchor_binding_v1
  rw_state :: walletd_recovery_state_v1

text \<open>\<open>WalletdDecisionRequestV1\<close> and \<open>WalletdSubmitRequestV1\<close>, which have the same fields.\<close>

record walletd_bound_request =
  bq_project_request_id :: anchor_request_id
  bq_walletd_request_id :: walletd_request_id
  bq_binding :: walletd_anchor_binding_v1

definition for_prepared :: "prepared_walletd_anchor_request_v1 \<Rightarrow> walletd_bound_request" where
  "for_prepared p = \<lparr>bq_project_request_id = pw_project_request_id p, bq_walletd_request_id = pw_walletd_request_id p,
     bq_binding = pw_binding p\<rparr>"

definition for_approved :: "walletd_decided_request \<Rightarrow> walletd_bound_request" where
  "for_approved a = \<lparr>bq_project_request_id = wd_project_request_id a, bq_walletd_request_id = wd_walletd_request_id a,
     bq_binding = wd_binding a\<rparr>"

section \<open>The coordinator\<close>

definition record_and_return ::
  "anchor_request_id \<Rightarrow> walletd_anchor_adapter_error \<Rightarrow> local_walletd_anchor_registry \<Rightarrow>
   'a wresult \<times> local_walletd_anchor_registry" where
  "record_and_return project_request_id error reg =
     (Err error, set_diagnostic project_request_id (walletd_error_as_str error) reg)"

text \<open>The part of \<open>verify_decision\<close> and \<open>verify_bound_record\<close>: the stored record, if the request is bound to it.\<close>

definition verify_bound_record ::
  "walletd_bound_request \<Rightarrow> local_walletd_anchor_registry \<Rightarrow>
   walletd_request_record wresult \<times> local_walletd_anchor_registry" where
  "verify_bound_record q reg =
     (case walletd_record reg (bq_project_request_id q) of
        None \<Rightarrow> (Err RequestNotFound, reg)
      | Some record \<Rightarrow>
          if wr_walletd_request_id record \<noteq> bq_walletd_request_id q then
            record_and_return (bq_project_request_id q) RequestIdMismatch reg
          else
            case ensure_matches (wr_binding record) (bq_binding q) of
              Err error \<Rightarrow> record_and_return (bq_project_request_id q) error reg
            | Ok _ \<Rightarrow> (Ok record, reg))"

definition apply_client_error ::
  "anchor_request_id \<Rightarrow> walletd_anchor_adapter_error \<Rightarrow> local_walletd_anchor_registry \<Rightarrow> local_walletd_anchor_registry" where
  "apply_client_error project_request_id error reg =
     (let reg = set_diagnostic project_request_id (walletd_error_as_str error) reg in
      case error of
        RequestExpired \<Rightarrow> set_decision project_request_id DecisionExpired reg
      | RequestAlreadyRejected \<Rightarrow> set_decision project_request_id DecisionRejected reg
      | RequestAlreadyApproved \<Rightarrow> set_decision project_request_id DecisionApproved reg
      | _ \<Rightarrow> reg)"

definition prepare_fee_bearing_prebuilt ::
  "('w, 'c) walletd_anchor_client \<Rightarrow> anchor_build_evidence \<Rightarrow> 'w walletd_create_anchor_request_v1 \<Rightarrow>
   local_walletd_anchor_registry \<Rightarrow> 'c \<Rightarrow>
   prepared_walletd_anchor_request_v1 wresult \<times> local_walletd_anchor_registry \<times> 'c" where
  "prepare_fee_bearing_prebuilt W evidence create reg c =
     (case wc_create W create c of
        (Err error, c) \<Rightarrow> (Err error, reg, c)
      | (Ok outcome, c) \<Rightarrow>
          (Ok \<lparr>pw_project_request_id = cr_project_request_id create, pw_walletd_request_id = co_walletd_request_id outcome,
               pw_binding = cr_binding create, pw_instruction_count = be_instruction_count evidence,
               pw_fee_present = be_fee_instructions_present evidence, pw_expires_at = co_expires_at outcome,
               pw_state = AnchorPrepared\<rparr>,
           register_prepared (cr_project_request_id create) (co_walletd_request_id outcome) (cr_binding create) reg, c))"

text \<open>\<open>prepare\<close> and \<open>prepare_fee_bearing\<close>: the build result and the create request are the ones just built.\<close>

definition walletd_prepare ::
  "('w, 'c) walletd_anchor_client \<Rightarrow> (anchor_build_evidence \<times> 'w walletd_create_anchor_request_v1) wresult \<Rightarrow>
   local_walletd_anchor_registry \<Rightarrow> 'c \<Rightarrow>
   prepared_walletd_anchor_request_v1 wresult \<times> local_walletd_anchor_registry \<times> 'c" where
  "walletd_prepare W built reg c =
     (case built of
        Err error \<Rightarrow> (Err error, reg, c)
      | Ok (evidence, create) \<Rightarrow> prepare_fee_bearing_prebuilt W evidence create reg c)"

definition submitted_request ::
  "walletd_bound_request \<Rightarrow> anchor_transaction_id \<Rightarrow> walletd_anchor_binding_v1 \<Rightarrow> submitted_walletd_anchor_request_v1" where
  "submitted_request q transaction_id binding =
     \<lparr>sw_project_request_id = bq_project_request_id q, sw_walletd_request_id = bq_walletd_request_id q,
      sw_transaction_id = transaction_id, sw_binding = binding, sw_state = AnchorSubmitted\<rparr>"

text \<open>What a failed submit call leaves in the registry.\<close>

definition apply_submit_error ::
  "anchor_request_id \<Rightarrow> walletd_anchor_adapter_error \<Rightarrow> local_walletd_anchor_registry \<Rightarrow> local_walletd_anchor_registry" where
  "apply_submit_error project_request_id error reg =
     (let reg = set_diagnostic project_request_id (walletd_error_as_str error) reg in
      case error of
        SubmitTimeout \<Rightarrow> mark_timed_out_unknown project_request_id reg
      | MalformedSubmitResponse \<Rightarrow> mark_timed_out_unknown project_request_id reg
      | AlreadySubmitted \<Rightarrow> mark_timed_out_unknown project_request_id reg
      | other \<Rightarrow> apply_client_error project_request_id other reg)"

definition submit_call ::
  "('w, 'c) walletd_anchor_client \<Rightarrow> walletd_bound_request \<Rightarrow> walletd_request_record \<Rightarrow>
   local_walletd_anchor_registry \<Rightarrow> 'c \<Rightarrow>
   submitted_walletd_anchor_request_v1 wresult \<times> local_walletd_anchor_registry \<times> 'c" where
  "submit_call W q record reg c =
     (let project_request_id = bq_project_request_id q in
      case wc_submit W (bq_walletd_request_id q) c of
        (Ok outcome, c) \<Rightarrow>
          (Ok (submitted_request q (so_transaction_id outcome) (wr_binding record)),
           set_last_effective_status project_request_id WalletdSubmitted
             (mark_submitted project_request_id (so_transaction_id outcome) reg), c)
      | (Err error, c) \<Rightarrow> (Err error, apply_submit_error project_request_id error reg, c))"

definition walletd_submit ::
  "('w, 'c) walletd_anchor_client \<Rightarrow> walletd_bound_request \<Rightarrow> local_walletd_anchor_registry \<Rightarrow> 'c \<Rightarrow>
   submitted_walletd_anchor_request_v1 wresult \<times> local_walletd_anchor_registry \<times> 'c" where
  "walletd_submit W q reg c =
     (case verify_bound_record q reg of
        (Err error, reg) \<Rightarrow> (Err error, reg, c)
      | (Ok record, reg) \<Rightarrow>
          let refuse = (\<lambda>error. case record_and_return (bq_project_request_id q) error reg of (r, reg) \<Rightarrow> (r, reg, c)) in
          (case wr_submission record of
             SubmissionSubmitted \<Rightarrow>
               (case wr_transaction_id record of
                  Some transaction_id \<Rightarrow> (Ok (submitted_request q transaction_id (wr_binding record)), reg, c)
                | None \<Rightarrow> refuse SubmissionStateUnknown)
           | TimedOutUnknown \<Rightarrow> refuse SubmissionStateUnknown
           | NotSubmitted \<Rightarrow>
               (case wr_decision record of
                  DecisionApproved \<Rightarrow> submit_call W q record reg c
                | DecisionPrepared \<Rightarrow> refuse RequestNotApproved
                | DecisionRejected \<Rightarrow> refuse RequestAlreadyRejected
                | DecisionExpired \<Rightarrow> refuse RequestExpired)))"

text \<open>The state that a status lookup leads to; \<open>record\<close> is the one stored before.\<close>

definition recovery_state ::
  "anchor_request_id \<Rightarrow> walletd_request_record \<Rightarrow> walletd_request_status_v1 \<Rightarrow> local_walletd_anchor_registry \<Rightarrow>
   walletd_recovery_state_v1 wresult \<times> local_walletd_anchor_registry" where
  "recovery_state project_request_id record status reg =
     (case rs_status status of
        WalletdSubmitted \<Rightarrow>
          (case rs_transaction_id status of
             None \<Rightarrow> record_and_return project_request_id SubmittedButTransactionIdMissing reg
           | Some observed_id \<Rightarrow>
               if wr_transaction_id record \<noteq> None \<and> wr_transaction_id record \<noteq> Some observed_id then
                 record_and_return project_request_id ConflictingTransactionId reg
               else (Ok (RecoverySubmitted observed_id), mark_submitted project_request_id observed_id reg))
      | WalletdApproved \<Rightarrow>
          if wr_transaction_id record \<noteq> None then record_and_return project_request_id ConflictingTransactionId reg
          else
            let reg = reset_submission_not_submitted project_request_id reg in
            (Ok NotSubmittedRetryable,
             if wr_submission record = TimedOutUnknown then increment_retry project_request_id reg else reg)
      | WalletdSubmitting \<Rightarrow> (Ok SubmissionInProgress, mark_timed_out_unknown project_request_id reg)
      | WalletdPending \<Rightarrow> (Ok RecoveryPending, reg)
      | WalletdRejected \<Rightarrow> (Ok RecoveryRejectedByApprover, set_decision project_request_id DecisionRejected reg)
      | WalletdExpired \<Rightarrow> (Ok RecoveryExpired, set_decision project_request_id DecisionExpired reg))"

definition walletd_recover ::
  "('w, 'c) walletd_anchor_client \<Rightarrow> walletd_bound_request \<Rightarrow> local_walletd_anchor_registry \<Rightarrow> 'c \<Rightarrow>
   recovered_walletd_anchor_request_v1 wresult \<times> local_walletd_anchor_registry \<times> 'c" where
  "walletd_recover W q reg c =
     (let project_request_id = bq_project_request_id q in
      case verify_bound_record q reg of
        (Err error, reg) \<Rightarrow> (Err error, reg, c)
      | (Ok record, reg) \<Rightarrow>
          (case wc_get W (bq_walletd_request_id q) c of
             (Err error, c) \<Rightarrow> (Err error, set_diagnostic project_request_id (walletd_error_as_str error) reg, c)
           | (Ok status, c) \<Rightarrow>
               let refuse = (\<lambda>error. case record_and_return project_request_id error reg of (r, reg) \<Rightarrow> (r, reg, c)) in
               (case rs_observed_fingerprint status of
                  None \<Rightarrow> refuse MissingObservedFingerprint
                | Some observed \<Rightarrow>
                    if observed \<noteq> wb_fingerprint (wr_binding record) then refuse FingerprintMismatch
                    else
                      case recovery_state project_request_id record status
                             (set_last_effective_status project_request_id (rs_status status) reg) of
                        (Err error, reg) \<Rightarrow> (Err error, reg, c)
                      | (Ok state, reg) \<Rightarrow>
                          (Ok \<lparr>rw_project_request_id = project_request_id, rw_walletd_request_id = bq_walletd_request_id q,
                               rw_binding = wr_binding record, rw_state = state\<rparr>, reg, c))))"

definition decided_request ::
  "walletd_bound_request \<Rightarrow> walletd_anchor_binding_v1 \<Rightarrow> anchor_lifecycle_state \<Rightarrow> walletd_decided_request" where
  "decided_request q binding state =
     \<lparr>wd_project_request_id = bq_project_request_id q, wd_walletd_request_id = bq_walletd_request_id q,
      wd_binding = binding, wd_state = state\<rparr>"

definition walletd_approve ::
  "('w, 'c) walletd_anchor_client \<Rightarrow> walletd_bound_request \<Rightarrow> local_walletd_anchor_registry \<Rightarrow> 'c \<Rightarrow>
   walletd_decided_request wresult \<times> local_walletd_anchor_registry \<times> 'c" where
  "walletd_approve W q reg c =
     (let project_request_id = bq_project_request_id q in
      case verify_bound_record q reg of
        (Err error, reg) \<Rightarrow> (Err error, reg, c)
      | (Ok record, reg) \<Rightarrow>
          (case wr_decision record of
             DecisionApproved \<Rightarrow> (Err RequestAlreadyApproved, reg, c)
           | DecisionRejected \<Rightarrow> (Err RequestAlreadyRejected, reg, c)
           | DecisionExpired \<Rightarrow> (Err RequestExpired, reg, c)
           | DecisionPrepared \<Rightarrow>
               (case wc_approve W (bq_walletd_request_id q) c of
                  (Err error, c) \<Rightarrow> (Err error, apply_client_error project_request_id error reg, c)
                | (Ok outcome, c) \<Rightarrow>
                    let refuse = (\<lambda>error reg. case record_and_return project_request_id error reg of (r, reg) \<Rightarrow> (r, reg, c)) in
                    (case do_status outcome of
                       WalletdApproved \<Rightarrow>
                         (Ok (decided_request q (wr_binding record) AnchorApproved),
                          set_decision project_request_id DecisionApproved reg, c)
                     | WalletdRejected \<Rightarrow> refuse ApprovalRejected (set_decision project_request_id DecisionRejected reg)
                     | WalletdExpired \<Rightarrow> refuse RequestExpired (set_decision project_request_id DecisionExpired reg)
                     | _ \<Rightarrow> refuse (UnsupportedWalletdApi (lit ''approve returned a non-approval status'')) reg))))"

definition walletd_reject ::
  "('w, 'c) walletd_anchor_client \<Rightarrow> walletd_bound_request \<Rightarrow> local_walletd_anchor_registry \<Rightarrow> 'c \<Rightarrow>
   walletd_decided_request wresult \<times> local_walletd_anchor_registry \<times> 'c" where
  "walletd_reject W q reg c =
     (let project_request_id = bq_project_request_id q in
      case verify_bound_record q reg of
        (Err error, reg) \<Rightarrow> (Err error, reg, c)
      | (Ok record, reg) \<Rightarrow>
          (case wr_decision record of
             DecisionRejected \<Rightarrow> (Ok (decided_request q (wr_binding record) AnchorRejectedByApprover), reg, c)
           | DecisionApproved \<Rightarrow> (Err RequestAlreadyApproved, reg, c)
           | DecisionExpired \<Rightarrow> (Err RequestExpired, reg, c)
           | DecisionPrepared \<Rightarrow>
               (case wc_reject W (bq_walletd_request_id q) c of
                  (Err error, c) \<Rightarrow> (Err error, apply_client_error project_request_id error reg, c)
                | (Ok outcome, c) \<Rightarrow>
                    let refuse = (\<lambda>error reg. case record_and_return project_request_id error reg of (r, reg) \<Rightarrow> (r, reg, c)) in
                    (case do_status outcome of
                       WalletdRejected \<Rightarrow>
                         (Ok (decided_request q (wr_binding record) AnchorRejectedByApprover),
                          set_decision project_request_id DecisionRejected reg, c)
                     | WalletdApproved \<Rightarrow>
                         refuse RequestAlreadyApproved (set_decision project_request_id DecisionApproved reg)
                     | WalletdExpired \<Rightarrow> refuse RequestExpired (set_decision project_request_id DecisionExpired reg)
                     | _ \<Rightarrow> refuse (UnsupportedWalletdApi (lit ''reject returned a non-rejection status'')) reg))))"

definition query_status ::
  "('w, 'c) walletd_anchor_client \<Rightarrow> anchor_request_id \<Rightarrow> local_walletd_anchor_registry \<Rightarrow> 'c \<Rightarrow>
   walletd_request_status_v1 wresult \<times> 'c" where
  "query_status W project_request_id reg c =
     (case walletd_record reg project_request_id of
        None \<Rightarrow> (Err RequestNotFound, c)
      | Some record \<Rightarrow>
          (case wc_get W (wr_walletd_request_id record) c of
             (Err error, c) \<Rightarrow> (Err error, c)
           | (Ok status, c) \<Rightarrow>
               (if rs_transaction_id status \<noteq> None then
                  Err (UnsupportedWalletdApi (lit ''status reported a transaction id before submission''))
                else Ok status, c)))"

end
