(* ===== verification/Receipt_Coordinator.thy ===== *)
theory Receipt_Coordinator
  imports Walletd_Coordinator
begin

text \<open>
  The retrieval of receipts (\<open>crates/ootle-receipt-anchor-adapter/src/{query,state,retrieve,address,client}.rs\<close>): the
  query bound to a submitted request, the registry of query states with its snapshots, one query with its
  verification, and the comparison of the daemon's observation with the indexer's. The indexer is a client record; the
  rendering of Ootle addresses is a parameter.
\<close>

section \<open>Queries\<close>

datatype receipt_query_binding_error =
    QueryTransactionIdMismatch | QueryWalletdRequestIdMismatch | QueryProjectRequestIdMismatch | QueryNetworkMismatch
  | QueryAnchorDigestMismatch | QueryPayloadMismatch | QueryFingerprintMismatch | QueryTemplateMismatch
  | QueryEpochMismatch

record anchor_receipt_query_v1 =
  aq_project_request_id :: anchor_request_id
  aq_walletd_request_id :: walletd_request_id
  aq_transaction_id :: anchor_transaction_id
  aq_network :: ootle_network_id_v1
  aq_account :: anchor_account_reference
  aq_anchor_digest :: ootle_anchor_record_hash_v1
  aq_payload :: anchor_log_payload_v1
  aq_fingerprint :: ootle_anchor_inspection_fingerprint_v1
  aq_template_binding :: "anchor_template_binding_v1 option"
  aq_epoch_binding :: "anchor_epoch_binding_v1 option"

definition from_submitted :: "submitted_walletd_anchor_request_v1 \<Rightarrow> anchor_receipt_query_v1" where
  "from_submitted s =
     (let b = sw_binding s in
      \<lparr>aq_project_request_id = sw_project_request_id s, aq_walletd_request_id = sw_walletd_request_id s,
       aq_transaction_id = sw_transaction_id s, aq_network = wb_network b, aq_account = wb_account b,
       aq_anchor_digest = wb_anchor_digest b, aq_payload = wb_payload b, aq_fingerprint = wb_fingerprint b,
       aq_template_binding = wb_template_binding b, aq_epoch_binding = wb_epoch_binding b\<rparr>)"

definition ensure_matches_submitted ::
  "anchor_receipt_query_v1 \<Rightarrow> submitted_walletd_anchor_request_v1 \<Rightarrow> (unit, receipt_query_binding_error) result" where
  "ensure_matches_submitted q s =
     (let b = sw_binding s in
      if aq_project_request_id q \<noteq> sw_project_request_id s then Err QueryProjectRequestIdMismatch
      else if aq_walletd_request_id q \<noteq> sw_walletd_request_id s then Err QueryWalletdRequestIdMismatch
      else if aq_transaction_id q \<noteq> sw_transaction_id s then Err QueryTransactionIdMismatch
      else if aq_network q \<noteq> wb_network b then Err QueryNetworkMismatch
      else if aq_anchor_digest q \<noteq> wb_anchor_digest b then Err QueryAnchorDigestMismatch
      else if aq_payload q \<noteq> wb_payload b then Err QueryPayloadMismatch
      else if aq_fingerprint q \<noteq> wb_fingerprint b then Err QueryFingerprintMismatch
      else if aq_template_binding q \<noteq> wb_template_binding b then Err QueryTemplateMismatch
      else if aq_epoch_binding q \<noteq> wb_epoch_binding b then Err QueryEpochMismatch
      else if aq_account q \<noteq> wb_account b then Err QueryPayloadMismatch
      else Ok ())"

lemma ensure_matches_submitted_Ok_iff [result_inv]: "ensure_matches_submitted q s = Ok u \<longleftrightarrow> q = from_submitted s"
  by (cases q) (auto simp: ensure_matches_submitted_def from_submitted_def Let_def)

section \<open>Addresses\<close>

datatype receipt_identifier_error = ReceiptIdEmpty | ReceiptIdWrongLength | ReceiptIdNonLowercaseHexDigit

definition TRANSACTION_ID_HEX_LEN :: nat where "TRANSACTION_ID_HEX_LEN = 64"

definition transaction_id_to_ootle :: "anchor_transaction_id \<Rightarrow> (bytes32, receipt_identifier_error) result" where
  "transaction_id_to_ootle transaction_id =
     (let text = transaction_id_str transaction_id in
      if text = [] then Err ReceiptIdEmpty
      else if length text \<noteq> TRANSACTION_ID_HEX_LEN then Err ReceiptIdWrongLength
      else and_then (ok_or ReceiptIdNonLowercaseHexDigit (lower_hex_pairs text)) (\<lambda>decoded. Ok (mk32 decoded)))"

text \<open>How the pinned Ootle types render a transaction identifier and its receipt address.\<close>

record ootle_addresses =
  oa_transaction_id_hex :: "bytes32 \<Rightarrow> rstring"
  oa_receipt_address_display :: "bytes32 \<Rightarrow> rstring"
  oa_receipt_object_key_hex :: "bytes32 \<Rightarrow> rstring"

record anchor_receipt_address_evidence_v1 =
  ae_project_transaction_id :: anchor_transaction_id
  ae_ootle_transaction_id_hex :: rstring
  ae_receipt_address_display :: rstring
  ae_receipt_object_key_hex :: rstring
  ae_network :: ootle_network_id_v1

definition derive_receipt_address_evidence ::
  "ootle_addresses \<Rightarrow> anchor_transaction_id \<Rightarrow> ootle_network_id_v1 \<Rightarrow>
   (anchor_receipt_address_evidence_v1, receipt_identifier_error) result" where
  "derive_receipt_address_evidence A transaction_id network =
     and_then (transaction_id_to_ootle transaction_id) (\<lambda>ootle_id.
     Ok \<lparr>ae_project_transaction_id = transaction_id, ae_ootle_transaction_id_hex = oa_transaction_id_hex A ootle_id,
         ae_receipt_address_display = oa_receipt_address_display A ootle_id,
         ae_receipt_object_key_hex = oa_receipt_object_key_hex A ootle_id, ae_network = network\<rparr>)"

section \<open>The registry\<close>

datatype anchor_receipt_query_state_v1 =
    SubmittedNotQueried | ReceiptNotFound | ReceiptPending | ReceiptUnknown | ReceiptFinalizedAccept
  | ReceiptFinalizedFeeOnly | ReceiptFinalizedReject | ReceiptVerificationFailed

record receipt_query_record =
  qr_query :: anchor_receipt_query_v1
  qr_state :: anchor_receipt_query_state_v1
  qr_last_final_status :: "anchor_final_status_v1 option"
  qr_verified :: bool
  qr_sequence :: u64
  qr_last_diagnostic :: "rstring option"

text \<open>A snapshot of a record has the fields of the record.\<close>

type_synonym anchor_receipt_query_snapshot_v1 = receipt_query_record

record local_receipt_query_registry =
  lr_records :: "(anchor_request_id, receipt_query_record) btree_map"
  lr_sequence_counter :: u64

definition receipt_registry_new :: local_receipt_query_registry where
  "receipt_registry_new = \<lparr>lr_records = bt_new, lr_sequence_counter = 0\<rparr>"

definition register_submitted ::
  "anchor_receipt_query_v1 \<Rightarrow> local_receipt_query_registry \<Rightarrow> local_receipt_query_registry" where
  "register_submitted q reg =
     (if bt_get (lr_records reg) (aq_project_request_id q) \<noteq> None then reg
      else
        \<lparr>lr_records = bt_insert (aq_project_request_id q)
           \<lparr>qr_query = q, qr_state = SubmittedNotQueried, qr_last_final_status = None, qr_verified = False,
            qr_sequence = lr_sequence_counter reg, qr_last_diagnostic = None\<rparr> (lr_records reg),
         lr_sequence_counter = lr_sequence_counter reg + 1\<rparr>)"

definition set_outcome ::
  "anchor_request_id \<Rightarrow> anchor_receipt_query_state_v1 \<Rightarrow> anchor_final_status_v1 option \<Rightarrow> bool \<Rightarrow> rstring option \<Rightarrow>
   local_receipt_query_registry \<Rightarrow> local_receipt_query_registry" where
  "set_outcome project_request_id state last_final_status verified diagnostic reg =
     (case bt_get (lr_records reg) project_request_id of
        None \<Rightarrow> reg
      | Some record \<Rightarrow>
          reg\<lparr>lr_records := bt_insert project_request_id
            (record\<lparr>qr_state := state,
               qr_last_final_status := (if last_final_status \<noteq> None then last_final_status else qr_last_final_status record),
               qr_verified := verified, qr_last_diagnostic := diagnostic\<rparr>) (lr_records reg)\<rparr>)"

definition receipt_snapshots :: "local_receipt_query_registry \<Rightarrow> anchor_receipt_query_snapshot_v1 list" where
  "receipt_snapshots reg = List.map_filter (bt_get (lr_records reg)) (map fst (lr_records reg))"

definition receipt_registry_from_snapshots :: "anchor_receipt_query_snapshot_v1 list \<Rightarrow> local_receipt_query_registry" where
  "receipt_registry_from_snapshots snapshots =
     \<lparr>lr_records = fold (\<lambda>s. bt_insert (aq_project_request_id (qr_query s)) s) snapshots bt_new,
      lr_sequence_counter = next_sequence (fold (\<lambda>s. highest_sequence (qr_sequence s)) snapshots None)\<rparr>"

section \<open>One query\<close>

datatype indexer_receipt_transport_error = IndexerUnavailable | IndexerTimeout | IndexerMalformedResponse | IndexerUnsupportedApi

primrec transport_error_as_str :: "indexer_receipt_transport_error \<Rightarrow> rstring" where
  "transport_error_as_str IndexerUnavailable = lit ''INDEXER_RECEIPT_UNAVAILABLE''"
| "transport_error_as_str IndexerTimeout = lit ''INDEXER_RECEIPT_TIMEOUT''"
| "transport_error_as_str IndexerMalformedResponse = lit ''INDEXER_RECEIPT_MALFORMED_RESPONSE''"
| "transport_error_as_str IndexerUnsupportedApi = lit ''INDEXER_RECEIPT_UNSUPPORTED_API''"

datatype indexer_receipt_fetch_v1 = FetchFinalized anchor_receipt_v1 | FetchPending | FetchNotFound

type_synonym indexer_answer = "(indexer_receipt_fetch_v1, indexer_receipt_transport_error) result"

record 'd indexer_anchor_receipt_client =
  ix_fetch :: "anchor_receipt_query_v1 \<Rightarrow> 'd \<Rightarrow> indexer_answer \<times> 'd"

record verified_indexer_anchor_v1 =
  vi_evidence :: verified_anchor_evidence_v1
  vi_payload :: anchor_log_payload_v1
  vi_address_evidence :: anchor_receipt_address_evidence_v1
  vi_final_status :: anchor_final_status_v1
  vi_event_proof :: "anchor_event_proof_v2 option"

record anchor_receipt_query_report_v1 =
  qp_state :: anchor_receipt_query_state_v1
  qp_outcome :: anchor_query_outcome_v1
  qp_address_evidence :: anchor_receipt_address_evidence_v1
  qp_receipt :: "anchor_receipt_v1 option"
  qp_verified :: "verified_indexer_anchor_v1 option"
  qp_final_status :: "anchor_final_status_v1 option"
  qp_diagnostic :: "rstring option"

definition is_verified_success :: "anchor_receipt_query_report_v1 \<Rightarrow> bool" where
  "is_verified_success report \<longleftrightarrow> qp_verified report \<noteq> None"

datatype receipt_retrieval_error =
    RetrievalBinding receipt_query_binding_error | RetrievalIdentifier receipt_identifier_error

definition receipt_verification ::
  "anchor_receipt_query_v1 \<Rightarrow> anchor_receipt_v1 \<Rightarrow> verified_anchor_evidence_v1 vresult" where
  "receipt_verification q receipt =
     (case aq_template_binding q of
        Some template \<Rightarrow>
          verify_v39_event_receipt (aq_transaction_id q) (aq_network q) template
            (AnchorEventPayloadV2 (aq_anchor_digest q)) receipt
      | None \<Rightarrow> verify_query_outcome (aq_transaction_id q) (aq_network q) (aq_payload q) (OutcomeFinalized receipt))"

definition receipt_event_proof :: "anchor_receipt_query_v1 \<Rightarrow> anchor_receipt_v1 \<Rightarrow> anchor_event_proof_v2 option" where
  "receipt_event_proof q receipt =
     (case aq_template_binding q of
        None \<Rightarrow> None
      | Some template \<Rightarrow>
          find (\<lambda>event. ep_template_address event = tm_template_address template
                  \<and> ep_topic event = tm_full_event_topic template) (rc_event_proofs_v2 receipt))"

definition finalized_report ::
  "anchor_receipt_query_v1 \<Rightarrow> anchor_receipt_address_evidence_v1 \<Rightarrow> anchor_receipt_v1 \<Rightarrow> anchor_receipt_query_report_v1" where
  "finalized_report q address_evidence receipt =
     (let report = (\<lambda>state verified diagnostic.
            \<lparr>qp_state = state, qp_outcome = OutcomeFinalized receipt, qp_address_evidence = address_evidence,
             qp_receipt = Some receipt, qp_verified = verified, qp_final_status = Some (rc_final_status receipt),
             qp_diagnostic = diagnostic\<rparr>) in
      case receipt_verification q receipt of
        Ok evidence \<Rightarrow>
          report ReceiptFinalizedAccept
            (Some \<lparr>vi_evidence = evidence, vi_payload = aq_payload q, vi_address_evidence = address_evidence,
                   vi_final_status = StatusAccepted, vi_event_proof = receipt_event_proof q receipt\<rparr>) None
      | Err FeeOnlyAcceptance \<Rightarrow> report ReceiptFinalizedFeeOnly None None
      | Err RejectedTransaction \<Rightarrow> report ReceiptFinalizedReject None None
      | Err other \<Rightarrow> report ReceiptVerificationFailed None (Some (verification_error_as_str other)))"

definition open_report ::
  "anchor_receipt_query_state_v1 \<Rightarrow> anchor_query_outcome_v1 \<Rightarrow> anchor_receipt_address_evidence_v1 \<Rightarrow> rstring option \<Rightarrow>
   anchor_receipt_query_report_v1" where
  "open_report state outcome address_evidence diagnostic =
     \<lparr>qp_state = state, qp_outcome = outcome, qp_address_evidence = address_evidence, qp_receipt = None,
      qp_verified = None, qp_final_status = None, qp_diagnostic = diagnostic\<rparr>"

definition receipt_register ::
  "anchor_receipt_query_v1 \<Rightarrow> submitted_walletd_anchor_request_v1 \<Rightarrow> local_receipt_query_registry \<Rightarrow>
   (local_receipt_query_registry, receipt_retrieval_error) result" where
  "receipt_register q submitted reg =
     and_then (map_err RetrievalBinding (ensure_matches_submitted q submitted)) (\<lambda>_.
     Ok (register_submitted q reg))"

definition query_report ::
  "anchor_receipt_query_v1 \<Rightarrow> anchor_receipt_address_evidence_v1 \<Rightarrow> indexer_answer \<Rightarrow> anchor_receipt_query_report_v1" where
  "query_report q address_evidence answer =
     (case answer of
        Ok (FetchFinalized receipt) \<Rightarrow> finalized_report q address_evidence receipt
      | Ok FetchPending \<Rightarrow> open_report ReceiptPending OutcomeNotFinalized address_evidence None
      | Ok FetchNotFound \<Rightarrow> open_report ReceiptNotFound OutcomeNotFound address_evidence None
      | Err error \<Rightarrow> open_report ReceiptUnknown OutcomeUnknown address_evidence (Some (transport_error_as_str error)))"

definition receipt_query ::
  "ootle_addresses \<Rightarrow> 'd indexer_anchor_receipt_client \<Rightarrow> anchor_receipt_query_v1 \<Rightarrow>
   submitted_walletd_anchor_request_v1 \<Rightarrow> local_receipt_query_registry \<Rightarrow> 'd \<Rightarrow>
   (anchor_receipt_query_report_v1, receipt_retrieval_error) result \<times> local_receipt_query_registry \<times> 'd" where
  "receipt_query A I q submitted reg d =
     (case and_then (map_err RetrievalBinding (ensure_matches_submitted q submitted)) (\<lambda>_.
             map_err RetrievalIdentifier (derive_receipt_address_evidence A (aq_transaction_id q) (aq_network q))) of
        Err error \<Rightarrow> (Err error, reg, d)
      | Ok address_evidence \<Rightarrow>
          let reg = register_submitted q reg in
          case ix_fetch I q d of
            (answer, d) \<Rightarrow>
              let report = query_report q address_evidence answer in
              (Ok report,
               set_outcome (aq_project_request_id q) (qp_state report) (qp_final_status report) (is_verified_success report)
                 (qp_diagnostic report) reg, d))"

section \<open>Agreement\<close>

datatype anchor_receipt_agreement_error =
    WrongWalletdSource | WrongIndexerSource | ExpectedTransactionMismatch | ExpectedNetworkMismatch
  | ObservationError anchor_observation_agreement_error

definition compare_walletd_and_indexer ::
  "anchor_transaction_id \<Rightarrow> ootle_network_id_v1 \<Rightarrow> anchor_receipt_v1 \<Rightarrow> anchor_receipt_v1 \<Rightarrow>
   (unit, anchor_receipt_agreement_error) result" where
  "compare_walletd_and_indexer expected_transaction expected_network walletd indexer =
     (if rc_source walletd \<noteq> WalletdSource then Err WrongWalletdSource
      else if rc_source indexer \<noteq> IndependentIndexer then Err WrongIndexerSource
      else if rc_transaction_id walletd \<noteq> expected_transaction \<or> rc_transaction_id indexer \<noteq> expected_transaction then
        Err ExpectedTransactionMismatch
      else if rc_network walletd \<noteq> expected_network \<or> rc_network indexer \<noteq> expected_network then
        Err ExpectedNetworkMismatch
      else map_err ObservationError (compare_receipt_observations walletd indexer))"

end
