(* ===== verification/Anchor_Lifecycle.thy ===== *)
theory Anchor_Lifecycle
  imports Receipt_Coordinator
begin

text \<open>
  The lifecycle of one anchor (\<open>crates/ootle-anchor-lifecycle/src\<close>): the polling policy, the phases, the step
  reports, the recovery snapshot with its validation, and the orchestrator that drives the coordinator of wallet
  requests and the coordinator of receipts, one step per call. The coordinators are the registries they own; every
  step returns its report or error together with the changed orchestrator, since an error may leave changes behind.
\<close>

section \<open>The polling policy\<close>

record backoff_schedule =
  bs_max_query_attempts :: u32

record polling_policy =
  pp_schedule :: backoff_schedule
  pp_attempts_consumed :: u32

definition BackoffSchedule_new :: "u32 \<Rightarrow> backoff_schedule" where
  "BackoffSchedule_new n = \<lparr>bs_max_query_attempts = n\<rparr>"

definition schedule_contains :: "backoff_schedule \<Rightarrow> u32 \<Rightarrow> bool" where
  "schedule_contains s attempt_index \<longleftrightarrow> attempt_index \<noteq> 0 \<and> attempt_index \<le> bs_max_query_attempts s"

definition PollingPolicy_new :: "u32 \<Rightarrow> polling_policy" where
  "PollingPolicy_new n = \<lparr>pp_schedule = BackoffSchedule_new n, pp_attempts_consumed = 0\<rparr>"

definition from_consumed :: "u32 \<Rightarrow> u32 \<Rightarrow> polling_policy" where
  "from_consumed n attempts_consumed =
     \<lparr>pp_schedule = BackoffSchedule_new n,
      pp_attempts_consumed = (if attempts_consumed > n then n else attempts_consumed)\<rparr>"

definition max_query_attempts :: "polling_policy \<Rightarrow> u32" where
  "max_query_attempts p = bs_max_query_attempts (pp_schedule p)"

definition next_attempt_index :: "polling_policy \<Rightarrow> u32" where
  "next_attempt_index p = saturating_succ_u32 (pp_attempts_consumed p)"

definition attempts_remaining :: "polling_policy \<Rightarrow> u32" where
  "attempts_remaining p =
     (if pp_attempts_consumed p \<le> max_query_attempts p then max_query_attempts p - pp_attempts_consumed p else 0)"

definition is_exhausted :: "polling_policy \<Rightarrow> bool" where
  "is_exhausted p \<longleftrightarrow> pp_attempts_consumed p \<ge> max_query_attempts p"

definition may_query :: "polling_policy \<Rightarrow> bool" where
  "may_query p \<longleftrightarrow> \<not> is_exhausted p"

definition consume_one :: "polling_policy \<Rightarrow> bool \<times> polling_policy" where
  "consume_one p =
     (if is_exhausted p then (False, p)
      else
        let p = p\<lparr>pp_attempts_consumed := saturating_succ_u32 (pp_attempts_consumed p)\<rparr> in
        (\<not> is_exhausted p, p))"

section \<open>Phases and reports\<close>

datatype unified_anchor_lifecycle_phase =
    PhaseNotPrepared | PhasePrepared | PhaseApproved | PhaseRejectedByApprover | PhaseSubmitted
  | PhasePollingInProgress | PhaseFinalizedAccept | PhaseFinalizedFeeOnly | PhaseFinalizedReject
  | PhaseFinalizedVerificationFailed | PhaseFinalizedDisagreement | PhaseUnknown

primrec to_anchor_lifecycle_state :: "unified_anchor_lifecycle_phase \<Rightarrow> anchor_lifecycle_state option" where
  "to_anchor_lifecycle_state PhaseNotPrepared = None"
| "to_anchor_lifecycle_state PhasePrepared = Some AnchorPrepared"
| "to_anchor_lifecycle_state PhaseApproved = Some AnchorApproved"
| "to_anchor_lifecycle_state PhaseRejectedByApprover = Some AnchorRejectedByApprover"
| "to_anchor_lifecycle_state PhaseSubmitted = Some AnchorSubmitted"
| "to_anchor_lifecycle_state PhasePollingInProgress = Some AnchorSubmitted"
| "to_anchor_lifecycle_state PhaseFinalizedAccept = Some AnchorFinalizedAccept"
| "to_anchor_lifecycle_state PhaseFinalizedFeeOnly = Some AnchorFinalizedFeeOnly"
| "to_anchor_lifecycle_state PhaseFinalizedReject = Some AnchorFinalizedReject"
| "to_anchor_lifecycle_state PhaseFinalizedVerificationFailed = Some AnchorUnknown"
| "to_anchor_lifecycle_state PhaseFinalizedDisagreement = Some AnchorUnknown"
| "to_anchor_lifecycle_state PhaseUnknown = Some AnchorUnknown"

primrec phase_is_terminal :: "unified_anchor_lifecycle_phase \<Rightarrow> bool" where
  "phase_is_terminal PhaseNotPrepared = False"
| "phase_is_terminal PhasePrepared = False"
| "phase_is_terminal PhaseApproved = False"
| "phase_is_terminal PhaseRejectedByApprover = True"
| "phase_is_terminal PhaseSubmitted = False"
| "phase_is_terminal PhasePollingInProgress = False"
| "phase_is_terminal PhaseFinalizedAccept = True"
| "phase_is_terminal PhaseFinalizedFeeOnly = True"
| "phase_is_terminal PhaseFinalizedReject = True"
| "phase_is_terminal PhaseFinalizedVerificationFailed = True"
| "phase_is_terminal PhaseFinalizedDisagreement = True"
| "phase_is_terminal PhaseUnknown = False"

definition is_terminal_success :: "unified_anchor_lifecycle_phase \<Rightarrow> bool" where
  "is_terminal_success phase \<longleftrightarrow> phase = PhaseFinalizedAccept"

datatype lifecycle_recovery_outcome =
    RecoveredSubmitted | RecoveredNotSubmittedRetryable | RecoveredSubmissionInProgress | RecoveredPending
  | RecoveredRejectedByApprover | RecoveredExpired

datatype lifecycle_receipt_query_outcome =
    PolledSubmittedNotQueried | PolledReceiptNotFound | PolledReceiptPending | PolledReceiptUnknown
  | PolledReceiptFinalizedAccept | PolledReceiptFinalizedFeeOnly | PolledReceiptFinalizedReject
  | PolledReceiptVerificationFailed

datatype lifecycle_step_outcome =
    OutcomePrepared | OutcomeApproved | OutcomeRejectedByApprover | OutcomeSubmitted
  | OutcomeRecovered lifecycle_recovery_outcome | OutcomePolled lifecycle_receipt_query_outcome
  | OutcomeAgreementOk | OutcomeAgreementDisagreed | OutcomeIdempotentNoOp | OutcomePolicyExhausted

primrec recovery_outcome_from :: "walletd_recovery_state_v1 \<Rightarrow> lifecycle_recovery_outcome" where
  "recovery_outcome_from (RecoverySubmitted t) = RecoveredSubmitted"
| "recovery_outcome_from NotSubmittedRetryable = RecoveredNotSubmittedRetryable"
| "recovery_outcome_from SubmissionInProgress = RecoveredSubmissionInProgress"
| "recovery_outcome_from RecoveryPending = RecoveredPending"
| "recovery_outcome_from RecoveryRejectedByApprover = RecoveredRejectedByApprover"
| "recovery_outcome_from RecoveryExpired = RecoveredExpired"

primrec query_outcome_from :: "anchor_receipt_query_state_v1 \<Rightarrow> lifecycle_receipt_query_outcome" where
  "query_outcome_from SubmittedNotQueried = PolledSubmittedNotQueried"
| "query_outcome_from ReceiptNotFound = PolledReceiptNotFound"
| "query_outcome_from ReceiptPending = PolledReceiptPending"
| "query_outcome_from ReceiptUnknown = PolledReceiptUnknown"
| "query_outcome_from ReceiptFinalizedAccept = PolledReceiptFinalizedAccept"
| "query_outcome_from ReceiptFinalizedFeeOnly = PolledReceiptFinalizedFeeOnly"
| "query_outcome_from ReceiptFinalizedReject = PolledReceiptFinalizedReject"
| "query_outcome_from ReceiptVerificationFailed = PolledReceiptVerificationFailed"

record lifecycle_step_report =
  sr_phase :: unified_anchor_lifecycle_phase
  sr_outcome :: lifecycle_step_outcome
  sr_attempts_consumed :: u32
  sr_attempts_remaining :: u32
  sr_diagnostic :: "rstring option"

section \<open>The orchestrator\<close>

datatype lifecycle_error =
    LifecycleWalletd walletd_anchor_adapter_error | LifecycleReceipt receipt_retrieval_error
  | LifecycleAgreement anchor_receipt_agreement_error
  | LifecycleNotPrepared | LifecycleNotApproved | LifecycleNotSubmitted | LifecycleNotRecoverable

record cached_receipt_report =
  ca_transaction_id :: anchor_transaction_id
  ca_network :: ootle_network_id_v1
  ca_indexer_receipt :: "anchor_receipt_v1 option"

record anchor_lifecycle_orchestrator =
  lo_walletd :: local_walletd_anchor_registry
  lo_receipt :: local_receipt_query_registry
  lo_policy :: polling_policy
  lo_phase :: unified_anchor_lifecycle_phase
  lo_prepared :: "prepared_walletd_anchor_request_v1 option"
  lo_approved :: "walletd_decided_request option"
  lo_submitted :: "submitted_walletd_anchor_request_v1 option"
  lo_query :: "anchor_receipt_query_v1 option"
  lo_cached_receipt :: "cached_receipt_report option"
  lo_diagnostic :: "rstring option"

type_synonym lifecycle_result = "(lifecycle_step_report, lifecycle_error) result"

definition orchestrator_new :: "polling_policy \<Rightarrow> anchor_lifecycle_orchestrator" where
  "orchestrator_new policy =
     \<lparr>lo_walletd = walletd_registry_new, lo_receipt = receipt_registry_new, lo_policy = policy,
      lo_phase = PhaseNotPrepared, lo_prepared = None, lo_approved = None, lo_submitted = None, lo_query = None,
      lo_cached_receipt = None, lo_diagnostic = None\<rparr>"

definition lifecycle_report :: "anchor_lifecycle_orchestrator \<Rightarrow> lifecycle_step_outcome \<Rightarrow> lifecycle_step_report" where
  "lifecycle_report o' outcome =
     \<lparr>sr_phase = lo_phase o', sr_outcome = outcome, sr_attempts_consumed = pp_attempts_consumed (lo_policy o'),
      sr_attempts_remaining = attempts_remaining (lo_policy o'), sr_diagnostic = lo_diagnostic o'\<rparr>"

definition idempotent_no_op :: "anchor_lifecycle_orchestrator \<Rightarrow> lifecycle_step_report" where
  "idempotent_no_op o' = lifecycle_report o' OutcomeIdempotentNoOp"

text \<open>The first snapshot of the registry as a bound request (the restart path of the steps).\<close>

definition request_from_snapshot :: "anchor_lifecycle_orchestrator \<Rightarrow> (walletd_bound_request, lifecycle_error) result" where
  "request_from_snapshot o' =
     (case walletd_snapshots (lo_walletd o') of
        [] \<Rightarrow> Err LifecycleNotPrepared
      | s # _ \<Rightarrow> Ok \<lparr>bq_project_request_id = ws_project_request_id s, bq_walletd_request_id = ws_walletd_request_id s,
                    bq_binding = ws_binding s\<rparr>)"

definition decision_request :: "anchor_lifecycle_orchestrator \<Rightarrow> (walletd_bound_request, lifecycle_error) result" where
  "decision_request o' =
     (case lo_prepared o' of Some prepared \<Rightarrow> Ok (for_prepared prepared) | None \<Rightarrow> request_from_snapshot o')"

definition submit_request :: "anchor_lifecycle_orchestrator \<Rightarrow> (walletd_bound_request, lifecycle_error) result" where
  "submit_request o' =
     (case lo_approved o' of Some approved \<Rightarrow> Ok (for_approved approved) | None \<Rightarrow> request_from_snapshot o')"

text \<open>
  \<open>prepare_fee_bearing\<close> and \<open>prepare_fee_bearing_prebuilt\<close>: \<open>built\<close> is the evidence and the create request, built
  from the request of the caller or given by the caller, or the error of building it.
\<close>

definition lifecycle_prepare ::
  "('w, 'c) walletd_anchor_client \<Rightarrow> (anchor_build_evidence \<times> 'w walletd_create_anchor_request_v1) wresult \<Rightarrow>
   anchor_lifecycle_orchestrator \<Rightarrow> 'c \<Rightarrow> lifecycle_result \<times> anchor_lifecycle_orchestrator \<times> 'c" where
  "lifecycle_prepare W built o' c =
     (if phase_is_terminal (lo_phase o') then (Ok (idempotent_no_op o'), o', c)
      else
        case walletd_prepare W built (lo_walletd o') c of
          (Err error, reg, c) \<Rightarrow> (Err (LifecycleWalletd error), o'\<lparr>lo_walletd := reg\<rparr>, c)
        | (Ok prepared, reg, c) \<Rightarrow>
            let o' = o'\<lparr>lo_walletd := reg, lo_prepared := Some prepared, lo_approved := None, lo_submitted := None,
                        lo_query := None, lo_cached_receipt := None, lo_diagnostic := None, lo_phase := PhasePrepared\<rparr> in
            (Ok (lifecycle_report o' OutcomePrepared), o', c))"

definition lifecycle_approve ::
  "('w, 'c) walletd_anchor_client \<Rightarrow> anchor_lifecycle_orchestrator \<Rightarrow> 'c \<Rightarrow>
   lifecycle_result \<times> anchor_lifecycle_orchestrator \<times> 'c" where
  "lifecycle_approve W o' c =
     (if phase_is_terminal (lo_phase o') then (Ok (idempotent_no_op o'), o', c)
      else if lo_phase o' \<noteq> PhasePrepared \<and> lo_phase o' \<noteq> PhaseApproved then (Err LifecycleNotPrepared, o', c)
      else
        case decision_request o' of
          Err error \<Rightarrow> (Err error, o', c)
        | Ok decision \<Rightarrow>
            (case walletd_approve W decision (lo_walletd o') c of
               (Err error, reg, c) \<Rightarrow> (Err (LifecycleWalletd error), o'\<lparr>lo_walletd := reg\<rparr>, c)
             | (Ok approved, reg, c) \<Rightarrow>
                 let o' = o'\<lparr>lo_walletd := reg, lo_approved := Some approved, lo_diagnostic := None,
                             lo_phase := PhaseApproved\<rparr> in
                 (Ok (lifecycle_report o' OutcomeApproved), o', c)))"

definition lifecycle_reject ::
  "('w, 'c) walletd_anchor_client \<Rightarrow> anchor_lifecycle_orchestrator \<Rightarrow> 'c \<Rightarrow>
   lifecycle_result \<times> anchor_lifecycle_orchestrator \<times> 'c" where
  "lifecycle_reject W o' c =
     (if lo_phase o' = PhaseRejectedByApprover then (Ok (idempotent_no_op o'), o', c)
      else if lo_phase o' \<noteq> PhasePrepared then (Err LifecycleNotPrepared, o', c)
      else
        case decision_request o' of
          Err error \<Rightarrow> (Err error, o', c)
        | Ok decision \<Rightarrow>
            (case walletd_reject W decision (lo_walletd o') c of
               (Err error, reg, c) \<Rightarrow> (Err (LifecycleWalletd error), o'\<lparr>lo_walletd := reg\<rparr>, c)
             | (Ok _, reg, c) \<Rightarrow>
                 let o' = o'\<lparr>lo_walletd := reg, lo_diagnostic := None, lo_phase := PhaseRejectedByApprover\<rparr> in
                 (Ok (lifecycle_report o' OutcomeRejectedByApprover), o', c)))"

definition lifecycle_register_submitted ::
  "submitted_walletd_anchor_request_v1 \<Rightarrow> anchor_lifecycle_orchestrator \<Rightarrow>
   (anchor_lifecycle_orchestrator, lifecycle_error) result" where
  "lifecycle_register_submitted submitted o' =
     (let query = from_submitted submitted in
      and_then (map_err LifecycleReceipt (receipt_register query submitted (lo_receipt o'))) (\<lambda>reg.
      Ok (o'\<lparr>lo_receipt := reg, lo_submitted := Some submitted, lo_query := Some query, lo_cached_receipt := None\<rparr>)))"

text \<open>The errors of a submit after which the daemon may hold the transaction.\<close>

definition is_timeout :: "walletd_anchor_adapter_error \<Rightarrow> bool" where
  "is_timeout error \<longleftrightarrow>
     error = SubmitTimeout \<or> error = MalformedSubmitResponse \<or> error = AlreadySubmitted \<or> error = SubmissionStateUnknown"

definition lifecycle_submit ::
  "('w, 'c) walletd_anchor_client \<Rightarrow> anchor_lifecycle_orchestrator \<Rightarrow> 'c \<Rightarrow>
   lifecycle_result \<times> anchor_lifecycle_orchestrator \<times> 'c" where
  "lifecycle_submit W o' c =
     (if phase_is_terminal (lo_phase o') then (Ok (idempotent_no_op o'), o', c)
      else if lo_phase o' = PhaseSubmitted \<or> lo_phase o' = PhasePollingInProgress then (Ok (idempotent_no_op o'), o', c)
      else if lo_phase o' \<noteq> PhaseApproved then (Err LifecycleNotApproved, o', c)
      else
        case submit_request o' of
          Err error \<Rightarrow> (Err error, o', c)
        | Ok q \<Rightarrow>
            (case walletd_submit W q (lo_walletd o') c of
               (Ok submitted, reg, c) \<Rightarrow>
                 (case lifecycle_register_submitted submitted (o'\<lparr>lo_walletd := reg\<rparr>) of
                    Err error \<Rightarrow> (Err error, o'\<lparr>lo_walletd := reg\<rparr>, c)
                  | Ok o' \<Rightarrow>
                      let o' = o'\<lparr>lo_diagnostic := None, lo_phase := PhaseSubmitted\<rparr> in
                      (Ok (lifecycle_report o' OutcomeSubmitted), o', c))
             | (Err error, reg, c) \<Rightarrow>
                 let o' = o'\<lparr>lo_walletd := reg, lo_diagnostic := Some (walletd_error_as_str error)\<rparr> in
                 (Err (LifecycleWalletd error), if is_timeout error then o'\<lparr>lo_phase := PhaseUnknown\<rparr> else o', c)))"

text \<open>What a recovered state makes of the orchestrator; \<open>q\<close> is the request that was recovered.\<close>

definition apply_recovered ::
  "('w, 'c) walletd_anchor_client \<Rightarrow> walletd_bound_request \<Rightarrow> walletd_recovery_state_v1 \<Rightarrow>
   anchor_lifecycle_orchestrator \<Rightarrow> 'c \<Rightarrow> lifecycle_error option \<times> anchor_lifecycle_orchestrator \<times> 'c" where
  "apply_recovered W q state o' c =
     (case state of
        RecoverySubmitted _ \<Rightarrow>
          (case walletd_submit W q (lo_walletd o') c of
             (Err error, reg, c) \<Rightarrow> (Some (LifecycleWalletd error), o'\<lparr>lo_walletd := reg\<rparr>, c)
           | (Ok submitted, reg, c) \<Rightarrow>
               (case lifecycle_register_submitted submitted (o'\<lparr>lo_walletd := reg\<rparr>) of
                  Err error \<Rightarrow> (Some error, o'\<lparr>lo_walletd := reg\<rparr>, c)
                | Ok o' \<Rightarrow> (None, o'\<lparr>lo_phase := PhaseSubmitted, lo_diagnostic := None\<rparr>, c)))
      | NotSubmittedRetryable \<Rightarrow> (None, o'\<lparr>lo_phase := PhaseApproved, lo_diagnostic := None\<rparr>, c)
      | RecoveryRejectedByApprover \<Rightarrow> (None, o'\<lparr>lo_phase := PhaseRejectedByApprover, lo_diagnostic := None\<rparr>, c)
      | _ \<Rightarrow> (None, o'\<lparr>lo_phase := PhaseUnknown, lo_diagnostic := None\<rparr>, c))"

definition lifecycle_recover ::
  "('w, 'c) walletd_anchor_client \<Rightarrow> anchor_lifecycle_orchestrator \<Rightarrow> 'c \<Rightarrow>
   lifecycle_result \<times> anchor_lifecycle_orchestrator \<times> 'c" where
  "lifecycle_recover W o' c =
     (if phase_is_terminal (lo_phase o') then (Ok (idempotent_no_op o'), o', c)
      else if lo_phase o' \<noteq> PhaseUnknown then (Err LifecycleNotRecoverable, o', c)
      else
        case submit_request o' of
          Err error \<Rightarrow> (Err error, o', c)
        | Ok q \<Rightarrow>
            (case walletd_recover W q (lo_walletd o') c of
               (Err error, reg, c) \<Rightarrow> (Err (LifecycleWalletd error), o'\<lparr>lo_walletd := reg\<rparr>, c)
             | (Ok recovered, reg, c) \<Rightarrow>
                 (case apply_recovered W q (rw_state recovered) (o'\<lparr>lo_walletd := reg\<rparr>) c of
                    (Some error, o', c) \<Rightarrow> (Err error, o', c)
                  | (None, o', c) \<Rightarrow>
                      (Ok (lifecycle_report o' (OutcomeRecovered (recovery_outcome_from (rw_state recovered)))), o', c))))"

definition phase_from_receipt_report :: "anchor_receipt_query_report_v1 \<Rightarrow> unified_anchor_lifecycle_phase" where
  "phase_from_receipt_report report =
     (case qp_state report of
        ReceiptFinalizedAccept \<Rightarrow>
          if is_verified_success report then PhaseFinalizedAccept else PhaseFinalizedVerificationFailed
      | ReceiptFinalizedFeeOnly \<Rightarrow> PhaseFinalizedFeeOnly
      | ReceiptFinalizedReject \<Rightarrow> PhaseFinalizedReject
      | ReceiptVerificationFailed \<Rightarrow> PhaseFinalizedVerificationFailed
      | _ \<Rightarrow> PhasePollingInProgress)"

definition POLL_EXHAUSTED :: rstring where "POLL_EXHAUSTED = lit ''POLL_EXHAUSTED''"

text \<open>What the report of one query makes of the orchestrator, the attempt being consumed.\<close>

definition apply_poll ::
  "anchor_receipt_query_v1 \<Rightarrow> anchor_receipt_query_report_v1 \<Rightarrow> anchor_lifecycle_orchestrator \<Rightarrow>
   anchor_lifecycle_orchestrator" where
  "apply_poll query report o' =
     (let o' = o'\<lparr>lo_policy := snd (consume_one (lo_policy o'))\<rparr>;
          o' = (case qp_receipt report of
                  None \<Rightarrow> o'
                | Some receipt \<Rightarrow>
                    o'\<lparr>lo_cached_receipt := Some \<lparr>ca_transaction_id = aq_transaction_id query,
                       ca_network = aq_network query, ca_indexer_receipt = Some receipt\<rparr>\<rparr>);
          phase = phase_from_receipt_report report in
      if phase_is_terminal phase then o'\<lparr>lo_phase := phase, lo_diagnostic := None\<rparr>
      else if is_exhausted (lo_policy o') then
        o'\<lparr>lo_phase := PhaseUnknown, lo_diagnostic := Some POLL_EXHAUSTED\<rparr>
      else o'\<lparr>lo_phase := PhasePollingInProgress, lo_diagnostic := qp_diagnostic report\<rparr>)"

definition advance_one_poll ::
  "ootle_addresses \<Rightarrow> 'd indexer_anchor_receipt_client \<Rightarrow> anchor_lifecycle_orchestrator \<Rightarrow> 'd \<Rightarrow>
   lifecycle_result \<times> anchor_lifecycle_orchestrator \<times> 'd" where
  "advance_one_poll A I o' d =
     (if phase_is_terminal (lo_phase o') then (Ok (idempotent_no_op o'), o', d)
      else if lo_phase o' \<noteq> PhaseSubmitted \<and> lo_phase o' \<noteq> PhasePollingInProgress \<and> lo_phase o' \<noteq> PhaseUnknown then
        (Err LifecycleNotSubmitted, o', d)
      else if is_exhausted (lo_policy o') then
        let o' = o'\<lparr>lo_phase := PhaseUnknown, lo_diagnostic := Some POLL_EXHAUSTED\<rparr> in
        (Ok (lifecycle_report o' OutcomePolicyExhausted), o', d)
      else
        case (lo_query o', lo_submitted o') of
          (Some query, Some submitted) \<Rightarrow>
            (case receipt_query A I query submitted (lo_receipt o') d of
               (Err error, reg, d) \<Rightarrow> (Err (LifecycleReceipt error), o'\<lparr>lo_receipt := reg\<rparr>, d)
             | (Ok report, reg, d) \<Rightarrow>
                 let o' = apply_poll query report (o'\<lparr>lo_receipt := reg\<rparr>) in
                 (Ok (lifecycle_report o' (OutcomePolled (query_outcome_from (qp_state report)))), o', d))
        | _ \<Rightarrow> (Err LifecycleNotSubmitted, o', d))"

primrec observation_error_as_str :: "anchor_observation_agreement_error \<Rightarrow> rstring" where
  "observation_error_as_str TransactionIdMismatch = lit ''ANCHOR_AGREEMENT_TRANSACTION_ID_MISMATCH''"
| "observation_error_as_str NetworkMismatch = lit ''ANCHOR_AGREEMENT_NETWORK_MISMATCH''"
| "observation_error_as_str FinalStatusMismatch = lit ''ANCHOR_AGREEMENT_FINAL_STATUS_MISMATCH''"
| "observation_error_as_str FeeOnlyVersusFullMismatch = lit ''ANCHOR_AGREEMENT_FEE_ONLY_VERSUS_FULL_MISMATCH''"
| "observation_error_as_str AnchorLogPresenceMismatch = lit ''ANCHOR_AGREEMENT_ANCHOR_LOG_PRESENCE_MISMATCH''"
| "observation_error_as_str AnchorDigestMismatch = lit ''ANCHOR_AGREEMENT_ANCHOR_DIGEST_MISMATCH''"
| "observation_error_as_str LogSequenceMismatch = lit ''ANCHOR_AGREEMENT_LOG_SEQUENCE_MISMATCH''"
| "observation_error_as_str AgreementMalformedAnchorLog = lit ''ANCHOR_AGREEMENT_MALFORMED_ANCHOR_LOG''"

primrec agreement_error_as_str :: "anchor_receipt_agreement_error \<Rightarrow> rstring" where
  "agreement_error_as_str WrongWalletdSource = lit ''RECEIPT_AGREEMENT_WRONG_WALLETD_SOURCE''"
| "agreement_error_as_str WrongIndexerSource = lit ''RECEIPT_AGREEMENT_WRONG_INDEXER_SOURCE''"
| "agreement_error_as_str ExpectedTransactionMismatch = lit ''RECEIPT_AGREEMENT_EXPECTED_TRANSACTION_MISMATCH''"
| "agreement_error_as_str ExpectedNetworkMismatch = lit ''RECEIPT_AGREEMENT_EXPECTED_NETWORK_MISMATCH''"
| "agreement_error_as_str (ObservationError inner) = observation_error_as_str inner"

definition check_agreement ::
  "anchor_receipt_v1 \<Rightarrow> anchor_lifecycle_orchestrator \<Rightarrow>
   lifecycle_result \<times> anchor_lifecycle_orchestrator" where
  "check_agreement walletd_observation o' =
     (if phase_is_terminal (lo_phase o') then (Ok (idempotent_no_op o'), o')
      else
        case lo_cached_receipt o' of
          None \<Rightarrow> (Err LifecycleNotSubmitted, o')
        | Some cached \<Rightarrow>
            (case ca_indexer_receipt cached of
               None \<Rightarrow> (Err LifecycleNotSubmitted, o')
             | Some indexer_receipt \<Rightarrow>
                 (case compare_walletd_and_indexer (ca_transaction_id cached) (ca_network cached) walletd_observation
                         indexer_receipt of
                    Ok _ \<Rightarrow>
                      let o' = o'\<lparr>lo_diagnostic := None\<rparr> in (Ok (lifecycle_report o' OutcomeAgreementOk), o')
                  | Err error \<Rightarrow>
                      (Err (LifecycleAgreement error),
                       o'\<lparr>lo_diagnostic := Some (agreement_error_as_str error), lo_phase := PhaseFinalizedDisagreement\<rparr>))))"

section \<open>Recovery snapshots\<close>

datatype lifecycle_reconstruction_error =
    SnapshotRequestMismatch | MissingSubmittedHandle | PhaseStateMismatch | SubmittedHandleWithoutWalletdSnapshot
  | ReconTransactionIdMismatch | ReconBindingMismatch | DuplicateIdentifier | TooManySnapshots | PolicyInconsistent

record anchor_lifecycle_recovery_snapshot =
  rn_walletd_snapshots :: "walletd_anchor_snapshot_v1 list"
  rn_receipt_snapshots :: "anchor_receipt_query_snapshot_v1 list"
  rn_submitted :: "submitted_walletd_anchor_request_v1 option"
  rn_policy :: polling_policy
  rn_phase :: unified_anchor_lifecycle_phase
  rn_diagnostic :: "rstring option"

definition lifecycle_snapshot :: "anchor_lifecycle_orchestrator \<Rightarrow> anchor_lifecycle_recovery_snapshot" where
  "lifecycle_snapshot o' =
     \<lparr>rn_walletd_snapshots = walletd_snapshots (lo_walletd o'), rn_receipt_snapshots = receipt_snapshots (lo_receipt o'),
      rn_submitted = lo_submitted o', rn_policy = lo_policy o', rn_phase = lo_phase o', rn_diagnostic = lo_diagnostic o'\<rparr>"

definition first_of :: "'a list \<Rightarrow> 'a option" where
  "first_of xs = (case xs of [] \<Rightarrow> None | x # _ \<Rightarrow> Some x)"

type_synonym 'a recon = "('a, lifecycle_reconstruction_error) result"

definition validate_submitted_handle ::
  "walletd_anchor_snapshot_v1 option \<Rightarrow> submitted_walletd_anchor_request_v1 option \<Rightarrow> unit recon" where
  "validate_submitted_handle walletd submitted =
     (case submitted of
        None \<Rightarrow> Ok ()
      | Some s \<Rightarrow>
          (case walletd of
             None \<Rightarrow> Err SubmittedHandleWithoutWalletdSnapshot
           | Some w \<Rightarrow>
               if ws_project_request_id w \<noteq> sw_project_request_id s \<or> ws_walletd_request_id w \<noteq> sw_walletd_request_id s then
                 Err DuplicateIdentifier
               else if ws_binding w \<noteq> sw_binding s then Err ReconBindingMismatch
               else if ws_transaction_id w \<noteq> Some (sw_transaction_id s) then Err ReconTransactionIdMismatch
               else Ok ()))"

definition validate_receipt_query ::
  "anchor_receipt_query_snapshot_v1 option \<Rightarrow> submitted_walletd_anchor_request_v1 option \<Rightarrow> unit recon" where
  "validate_receipt_query receipt submitted =
     (case receipt of
        None \<Rightarrow> Ok ()
      | Some r \<Rightarrow>
          (case submitted of
             None \<Rightarrow> Err MissingSubmittedHandle
           | Some s \<Rightarrow>
               let q = qr_query r; b = sw_binding s in
               if aq_project_request_id q \<noteq> sw_project_request_id s \<or> aq_walletd_request_id q \<noteq> sw_walletd_request_id s
                  \<or> aq_transaction_id q \<noteq> sw_transaction_id s \<or> aq_network q \<noteq> wb_network b \<or> aq_account q \<noteq> wb_account b
                  \<or> aq_anchor_digest q \<noteq> wb_anchor_digest b \<or> aq_payload q \<noteq> wb_payload b
                  \<or> aq_fingerprint q \<noteq> wb_fingerprint b then Err ReconBindingMismatch
               else Ok ()))"

text \<open>A submitted handle with the registry state of a submitted request, which three of the phases require.\<close>

definition expect_submitted ::
  "walletd_anchor_snapshot_v1 option \<Rightarrow> submitted_walletd_anchor_request_v1 option \<Rightarrow>
   lifecycle_reconstruction_error \<Rightarrow> unit recon" where
  "expect_submitted walletd submitted id_error =
     (case submitted of
        None \<Rightarrow> Err PhaseStateMismatch
      | Some s \<Rightarrow>
          (case walletd of
             None \<Rightarrow> Err SubmittedHandleWithoutWalletdSnapshot
           | Some w \<Rightarrow>
               if ws_submission w \<noteq> SubmissionSubmitted then Err PhaseStateMismatch
               else if ws_transaction_id w \<noteq> Some (sw_transaction_id s) then Err id_error
               else Ok ()))"

definition expect_decision ::
  "walletd_anchor_snapshot_v1 option \<Rightarrow> (walletd_anchor_snapshot_v1 \<Rightarrow> bool) \<Rightarrow> bool \<Rightarrow> unit recon" where
  "expect_decision walletd expected nothing_later =
     (case walletd of
        None \<Rightarrow> Err PhaseStateMismatch
      | Some w \<Rightarrow> if \<not> expected w then Err PhaseStateMismatch else if \<not> nothing_later then Err PhaseStateMismatch else Ok ())"

definition expect_receipt ::
  "anchor_receipt_query_snapshot_v1 option \<Rightarrow> (anchor_receipt_query_snapshot_v1 \<Rightarrow> bool) \<Rightarrow> unit recon" where
  "expect_receipt receipt expected =
     (case receipt of None \<Rightarrow> Err PhaseStateMismatch | Some r \<Rightarrow> if expected r then Ok () else Err PhaseStateMismatch)"

definition resumable_receipt :: "anchor_receipt_query_state_v1 \<Rightarrow> bool" where
  "resumable_receipt state \<longleftrightarrow> state \<in> {ReceiptNotFound, ReceiptPending, ReceiptUnknown, SubmittedNotQueried}"

definition validate_phase ::
  "walletd_anchor_snapshot_v1 option \<Rightarrow> anchor_receipt_query_snapshot_v1 option \<Rightarrow>
   submitted_walletd_anchor_request_v1 option \<Rightarrow> polling_policy \<Rightarrow> unified_anchor_lifecycle_phase \<Rightarrow> unit recon" where
  "validate_phase walletd receipt submitted policy phase =
     (let nothing_later = (submitted = None \<and> receipt = None);
          finalized = (\<lambda>expected. if submitted = None \<or> receipt = None then Err PhaseStateMismatch
                                 else expect_receipt receipt expected) in
      case phase of
        PhaseNotPrepared \<Rightarrow>
          if walletd \<noteq> None \<or> receipt \<noteq> None \<or> submitted \<noteq> None then Err PhaseStateMismatch else Ok ()
      | PhasePrepared \<Rightarrow>
          expect_decision walletd (\<lambda>w. ws_decision w = DecisionPrepared \<and> ws_submission w = NotSubmitted) nothing_later
      | PhaseApproved \<Rightarrow>
          expect_decision walletd (\<lambda>w. ws_decision w = DecisionApproved \<and> ws_submission w = NotSubmitted) nothing_later
      | PhaseRejectedByApprover \<Rightarrow> expect_decision walletd (\<lambda>w. ws_decision w = DecisionRejected) nothing_later
      | PhaseSubmitted \<Rightarrow>
          and_then (expect_submitted walletd submitted ReconTransactionIdMismatch) (\<lambda>_.
          case receipt of
            None \<Rightarrow> Ok ()
          | Some r \<Rightarrow> if qr_state r \<noteq> SubmittedNotQueried \<or> qr_verified r then Err PhaseStateMismatch else Ok ())
      | PhasePollingInProgress \<Rightarrow>
          and_then (expect_submitted walletd submitted ReconTransactionIdMismatch) (\<lambda>_.
          and_then (expect_receipt receipt (\<lambda>r. resumable_receipt (qr_state r) \<and> \<not> qr_verified r)) (\<lambda>_.
          if pp_attempts_consumed policy = 0 then Err PolicyInconsistent else Ok ()))
      | PhaseUnknown \<Rightarrow>
          if submitted \<noteq> None then
            and_then (expect_submitted walletd submitted PhaseStateMismatch) (\<lambda>_.
            case receipt of None \<Rightarrow> Ok () | Some r \<Rightarrow> if qr_verified r then Err PhaseStateMismatch else Ok ())
          else expect_decision walletd (\<lambda>w. ws_submission w = TimedOutUnknown) (receipt = None)
      | PhaseFinalizedAccept \<Rightarrow>
          and_then (expect_submitted walletd submitted PhaseStateMismatch) (\<lambda>_.
          expect_receipt receipt (\<lambda>r. qr_state r = ReceiptFinalizedAccept \<and> qr_verified r
                                     \<and> qr_last_final_status r = Some StatusAccepted))
      | PhaseFinalizedFeeOnly \<Rightarrow> finalized (\<lambda>r. qr_state r = ReceiptFinalizedFeeOnly \<and> \<not> qr_verified r)
      | PhaseFinalizedReject \<Rightarrow> finalized (\<lambda>r. qr_state r = ReceiptFinalizedReject \<and> \<not> qr_verified r)
      | PhaseFinalizedVerificationFailed \<Rightarrow>
          finalized (\<lambda>r. (qr_state r = ReceiptVerificationFailed \<or> qr_state r = ReceiptFinalizedAccept) \<and> \<not> qr_verified r)
      | PhaseFinalizedDisagreement \<Rightarrow> if submitted = None \<or> receipt = None then Err PhaseStateMismatch else Ok ())"

definition validate_reconstruction ::
  "walletd_anchor_snapshot_v1 list \<Rightarrow> anchor_receipt_query_snapshot_v1 list \<Rightarrow>
   submitted_walletd_anchor_request_v1 option \<Rightarrow> polling_policy \<Rightarrow> unified_anchor_lifecycle_phase \<Rightarrow> unit recon" where
  "validate_reconstruction wss rss submitted policy phase =
     (if length wss > 1 \<or> length rss > 1 then Err TooManySnapshots
      else
        and_then (validate_submitted_handle (first_of wss) submitted) (\<lambda>_.
        and_then (validate_receipt_query (first_of rss) submitted) (\<lambda>_.
        validate_phase (first_of wss) (first_of rss) submitted policy phase)))"

definition orchestrator_from_snapshots ::
  "walletd_anchor_snapshot_v1 list \<Rightarrow> anchor_receipt_query_snapshot_v1 list \<Rightarrow>
   submitted_walletd_anchor_request_v1 option \<Rightarrow> polling_policy \<Rightarrow> unified_anchor_lifecycle_phase \<Rightarrow> rstring option \<Rightarrow>
   anchor_lifecycle_orchestrator recon" where
  "orchestrator_from_snapshots wss rss submitted policy phase diagnostic =
     (if (case (first_of wss, first_of rss) of
            (Some w, Some r) \<Rightarrow> ws_project_request_id w \<noteq> aq_project_request_id (qr_query r) | _ \<Rightarrow> False) then
        Err SnapshotRequestMismatch
      else if rss \<noteq> [] \<and> submitted = None then Err MissingSubmittedHandle
      else
        and_then (validate_reconstruction wss rss submitted policy phase) (\<lambda>_.
        Ok \<lparr>lo_walletd = walletd_registry_from_snapshots wss,
            lo_receipt = receipt_registry_from_snapshots rss, lo_policy = policy, lo_phase = phase,
            lo_prepared = None, lo_approved = None, lo_submitted = submitted,
            lo_query = map_option from_submitted submitted, lo_cached_receipt = None, lo_diagnostic = diagnostic\<rparr>))"

definition orchestrator_from_snapshot :: "anchor_lifecycle_recovery_snapshot \<Rightarrow> anchor_lifecycle_orchestrator recon" where
  "orchestrator_from_snapshot s =
     orchestrator_from_snapshots (rn_walletd_snapshots s) (rn_receipt_snapshots s) (rn_submitted s) (rn_policy s)
       (rn_phase s) (rn_diagnostic s)"

end
