(* ===== verification/Walletd_Runs.thy ===== *)
theory Walletd_Runs
  imports Walletd_Coordinator
begin

text \<open>
  Runs of the coordinator of wallet-daemon requests: every operation in any order and with any request, restarts
  from the snapshots of the registry included, against a daemon that answers as it likes and changes its state on
  its own. The calls that reach the daemon are logged by a client that wraps the given one, the newest call first.
\<close>

section \<open>Logged calls\<close>

datatype 'w walletd_call =
    CallCreate "'w walletd_create_anchor_request_v1" "walletd_create_outcome_v1 wresult"
  | CallApprove walletd_request_id "walletd_decision_outcome_v1 wresult"
  | CallReject walletd_request_id "walletd_decision_outcome_v1 wresult"
  | CallGet walletd_request_id "walletd_request_status_v1 wresult"
  | CallSubmit walletd_request_id "walletd_submit_outcome_v1 wresult"

definition log_call :: "('a \<Rightarrow> 'c \<Rightarrow> 'r \<times> 'c) \<Rightarrow> ('a \<Rightarrow> 'r \<Rightarrow> 'e) \<Rightarrow> 'a \<Rightarrow> 'c \<times> 'e list \<Rightarrow> 'r \<times> 'c \<times> 'e list" where
  "log_call f entry a s = (case f a (fst s) of (r, c) \<Rightarrow> (r, c, entry a r # snd s))"

definition logged :: "('w, 'c) walletd_anchor_client \<Rightarrow> ('w, 'c \<times> 'w walletd_call list) walletd_anchor_client" where
  "logged W = \<lparr>wc_create = log_call (wc_create W) CallCreate, wc_approve = log_call (wc_approve W) CallApprove,
     wc_reject = log_call (wc_reject W) CallReject, wc_get = log_call (wc_get W) CallGet,
     wc_submit = log_call (wc_submit W) CallSubmit\<rparr>"

text \<open>
  A request is sealed once a submit call for it succeeded; it is in doubt after a submit call whose outcome the
  coordinator cannot tell, until a lookup reports it approved and not submitted. \<open>reported\<close>: the daemon named the
  transaction, in the answer to a submit or to a lookup.
\<close>

definition ambiguous :: "walletd_anchor_adapter_error \<Rightarrow> bool" where
  "ambiguous error \<longleftrightarrow> error \<in> {SubmitTimeout, MalformedSubmitResponse, AlreadySubmitted}"

definition sealed :: "walletd_request_id \<Rightarrow> 'w walletd_call list \<Rightarrow> bool" where
  "sealed w l \<longleftrightarrow> (\<exists>out. CallSubmit w (Ok out) \<in> set l)"

definition doubts :: "walletd_request_id \<Rightarrow> 'w walletd_call \<Rightarrow> bool" where
  "doubts w x \<longleftrightarrow> (\<exists>e. x = CallSubmit w (Err e) \<and> ambiguous e)"

definition clears :: "walletd_request_id \<Rightarrow> 'w walletd_call \<Rightarrow> bool" where
  "clears w x \<longleftrightarrow> (\<exists>status. x = CallGet w (Ok status) \<and> rs_status status = WalletdApproved)"

primrec in_doubt :: "walletd_request_id \<Rightarrow> 'w walletd_call list \<Rightarrow> bool" where
  "in_doubt w [] = False"
| "in_doubt w (x # l) = (doubts w x \<or> \<not> clears w x \<and> in_doubt w l)"

definition reported :: "walletd_request_id \<Rightarrow> anchor_transaction_id \<Rightarrow> 'w walletd_call list \<Rightarrow> bool" where
  "reported w t l \<longleftrightarrow>
     (\<exists>out. CallSubmit w (Ok out) \<in> set l \<and> so_transaction_id out = t)
     \<or> (\<exists>status. CallGet w (Ok status) \<in> set l \<and> rs_status status = WalletdSubmitted \<and> rs_transaction_id status = Some t)"

definition submits :: "walletd_request_id \<Rightarrow> 'w walletd_call \<Rightarrow> bool" where
  "submits w x \<longleftrightarrow> (\<exists>r. x = CallSubmit w r)"

primrec safe_log :: "'w walletd_call list \<Rightarrow> bool" where
  "safe_log [] = True"
| "safe_log (x # l) = (safe_log l \<and> (\<forall>w. submits w x \<longrightarrow> \<not> sealed w l \<and> \<not> in_doubt w l))"

fun created :: "'w walletd_call list \<Rightarrow> walletd_request_id list" where
  "created [] = []"
| "created (CallCreate create (Ok out) # l) = co_walletd_request_id out # created l"
| "created (x # l) = created l"

section \<open>Runs\<close>

text \<open>What the coordinator relies on: the daemon never gives an identifier to two requests.\<close>

definition fresh_identifiers :: "'w walletd_call list \<Rightarrow> bool" where
  "fresh_identifiers l \<longleftrightarrow> distinct (created l)"

type_synonym ('w, 'c) walletd_state = "local_walletd_anchor_registry \<times> 'c \<times> 'w walletd_call list"

inductive walletd_run :: "('w, 'c) walletd_anchor_client \<Rightarrow> ('w, 'c) walletd_state \<Rightarrow> bool" for W where
  start: "walletd_run W (walletd_registry_new, c, [])"
| daemon: "walletd_run W (reg, c, l) \<Longrightarrow> walletd_run W (reg, c', l)"
| prepare: "walletd_run W (reg, s) \<Longrightarrow> walletd_prepare (logged W) built reg s = (r, reg', s') \<Longrightarrow>
    fresh_identifiers (snd s') \<Longrightarrow> walletd_run W (reg', s')"
| approve: "walletd_run W (reg, s) \<Longrightarrow> walletd_approve (logged W) q reg s = (r, reg', s') \<Longrightarrow> walletd_run W (reg', s')"
| reject: "walletd_run W (reg, s) \<Longrightarrow> walletd_reject (logged W) q reg s = (r, reg', s') \<Longrightarrow> walletd_run W (reg', s')"
| submit: "walletd_run W (reg, s) \<Longrightarrow> walletd_submit (logged W) q reg s = (r, reg', s') \<Longrightarrow> walletd_run W (reg', s')"
| recover: "walletd_run W (reg, s) \<Longrightarrow> walletd_recover (logged W) q reg s = (r, reg', s') \<Longrightarrow> walletd_run W (reg', s')"
| status: "walletd_run W (reg, s) \<Longrightarrow> query_status (logged W) p reg s = (r, s') \<Longrightarrow> walletd_run W (reg, s')"
| restart: "walletd_run W (reg, s) \<Longrightarrow> walletd_run W (walletd_registry_from_snapshots (walletd_snapshots reg), s)"

section \<open>Updates of the registry\<close>

lemma bt_insert_insert [simp]: "bt_insert k v (bt_insert k w m) = bt_insert k v m"
  by (induction m) auto

lemma bt_get_insert [simp]: "bt_get (bt_insert k v m) j = (if j = k then Some v else bt_get m j)"
  by (simp add: bt_get_def map_of_bt_insert)

lemma update_record_twice [simp]: "update_record f p (update_record g p reg) = update_record (f \<circ> g) p reg"
  by (simp add: update_record_def walletd_record_def split: option.splits)

lemma walletd_record_update [simp]:
  "walletd_record (update_record f p reg) j = (if j = p then map_option f (walletd_record reg p) else walletd_record reg j)"
  by (simp add: update_record_def walletd_record_def split: option.splits)

lemmas registry_updates = set_decision_def set_diagnostic_def set_last_effective_status_def mark_submitted_def
  mark_timed_out_unknown_def reset_submission_not_submitted_def increment_retry_def

lemma ensure_matches_self [simp]: "ensure_matches b b = Ok ()"
  by (simp add: ensure_matches_def)

lemma verify_bound_record_Ok:
  "verify_bound_record q reg = (Ok record, reg') \<longleftrightarrow>
     reg' = reg \<and> walletd_record reg (bq_project_request_id q) = Some record
     \<and> wr_walletd_request_id record = bq_walletd_request_id q \<and> wr_binding record = bq_binding q"
  by (auto simp: verify_bound_record_def record_and_return_def result_inv split: option.splits result.splits)

lemma verify_bound_record_Err:
  "verify_bound_record q reg = (Err e, reg') \<Longrightarrow>
     reg' = reg \<or> (\<exists>d. reg' = set_diagnostic (bq_project_request_id q) d reg)"
  by (auto simp: verify_bound_record_def record_and_return_def split: option.splits result.splits if_splits)

section \<open>What runs keep\<close>

text \<open>What a record of the registry says of the calls.\<close>

definition record_ok :: "'w walletd_call list \<Rightarrow> walletd_request_record \<Rightarrow> bool" where
  "record_ok l r \<longleftrightarrow>
     wr_walletd_request_id r \<in> set (created l)
     \<and> (sealed (wr_walletd_request_id r) l \<longrightarrow> wr_submission r = SubmissionSubmitted)
     \<and> (in_doubt (wr_walletd_request_id r) l \<longrightarrow> wr_submission r \<noteq> NotSubmitted)
     \<and> (wr_submission r = SubmissionSubmitted \<longleftrightarrow> wr_transaction_id r \<noteq> None)
     \<and> (\<forall>t. wr_transaction_id r = Some t \<longrightarrow> reported (wr_walletd_request_id r) t l)"

definition request_ids :: "local_walletd_anchor_registry \<Rightarrow> anchor_request_id \<Rightarrow> walletd_request_id option" where
  "request_ids reg p = map_option wr_walletd_request_id (walletd_record reg p)"

definition registry_ok :: "local_walletd_anchor_registry \<Rightarrow> 'w walletd_call list \<Rightarrow> bool" where
  "registry_ok reg l \<longleftrightarrow>
     bt_inv (lw_records reg) \<and> safe_log l \<and> (\<forall>w. (\<exists>x \<in> set l. submits w x) \<longrightarrow> w \<in> set (created l))
     \<and> (\<forall>p r. walletd_record reg p = Some r \<longrightarrow> record_ok l r)
     \<and> inj_on (request_ids reg) (dom (request_ids reg))"

primrec call_id :: "'w walletd_call \<Rightarrow> walletd_request_id option" where
  "call_id (CallCreate create r) = None"
| "call_id (CallApprove w r) = Some w"
| "call_id (CallReject w r) = Some w"
| "call_id (CallGet w r) = Some w"
| "call_id (CallSubmit w r) = Some w"

lemmas call_defs = sealed_def doubts_def clears_def submits_def reported_def

lemma created_call [simp]: "call_id x = Some w \<Longrightarrow> created (x # l) = created l"
  by (cases x) auto

lemma record_ok_other:
  "record_ok l r \<Longrightarrow> call_id x = Some w \<Longrightarrow> wr_walletd_request_id r \<noteq> w \<Longrightarrow> record_ok (x # l) r"
  by (auto simp: record_ok_def call_defs)

lemma record_ok_quiet:
  "record_ok l r \<Longrightarrow> call_id x = Some w \<Longrightarrow> \<not> submits w x \<Longrightarrow> record_ok (x # l) r"
  by (auto simp: record_ok_def call_defs)

lemma registry_okD:
  assumes "registry_ok reg l" and "walletd_record reg p = Some r"
  shows "record_ok l r"
  using assms by (auto simp: registry_ok_def)

lemma bt_inv_update: "bt_inv (lw_records reg) \<Longrightarrow> bt_inv (lw_records (update_record f p reg))"
  by (simp add: update_record_def bt.inv_ins split: option.splits)

lemma request_ids_update:
  "(\<And>r. walletd_record reg p = Some r \<Longrightarrow> wr_walletd_request_id (f r) = wr_walletd_request_id r) \<Longrightarrow>
     request_ids (update_record f p reg) = request_ids reg"
  by (rule ext) (auto simp: request_ids_def map_option_case split: option.splits)

lemma request_ids_inj:
  assumes "registry_ok reg l" "walletd_record reg p = Some r" "walletd_record reg p' = Some r'"
    and "wr_walletd_request_id r = wr_walletd_request_id r'"
  shows "p = p'"
  using assms by (auto simp: registry_ok_def request_ids_def dest!: inj_onD [of _ _ p p'])

lemma registry_ok_update:
  assumes ok: "registry_ok reg l"
    and f: "\<And>r. walletd_record reg p = Some r \<Longrightarrow> wr_walletd_request_id (f r) = wr_walletd_request_id r \<and> record_ok l (f r)"
  shows "registry_ok (update_record f p reg) l"
proof -
  have "record_ok l r" if "walletd_record (update_record f p reg) j = Some r" for j r
    using that f registry_okD [OF ok, of j] by (auto split: if_splits)
  moreover have "request_ids (update_record f p reg) = request_ids reg"
    by (rule request_ids_update) (use f in simp)
  ultimately show ?thesis
    using ok by (simp add: registry_ok_def bt_inv_update del: walletd_record_update)
qed

text \<open>A call about one request and the update of its record.\<close>

lemma registry_ok_log:
  assumes ok: "registry_ok reg l" and x: "call_id x = Some w" and r: "walletd_record reg p = Some r"
    and w: "wr_walletd_request_id r = w"
    and safe: "submits w x \<Longrightarrow> \<not> sealed w l \<and> \<not> in_doubt w l"
    and f: "wr_walletd_request_id (f r) = w" "record_ok (x # l) (f r)"
  shows "registry_ok (update_record f p reg) (x # l)"
proof -
  have other: "record_ok (x # l) s" if "walletd_record reg j = Some s" "j \<noteq> p" for j s
  proof (rule record_ok_other [OF registry_okD [OF ok that(1)] x])
    show "wr_walletd_request_id s \<noteq> w" using request_ids_inj [OF ok that(1) r] that(2) w by auto
  qed
  have records: "record_ok (x # l) s" if "walletd_record (update_record f p reg) j = Some s" for j s
    using that f r other [of j s] by (auto split: if_splits)
  have ids: "request_ids (update_record f p reg) = request_ids reg"
    by (rule request_ids_update) (use f r w in simp)
  have only: "submits v x \<Longrightarrow> v = w" for v
    using x by (auto simp: submits_def)
  have unsettled: "submits v x \<Longrightarrow> \<not> sealed v l \<and> \<not> in_doubt v l" for v
    using only safe by blast
  have "w \<in> set (created l)"
    using registry_okD [OF ok r] w by (simp add: record_ok_def)
  then have calls: "v \<in> set (created (x # l))" if "\<exists>y \<in> set (x # l). submits v y" for v
    using that ok x only by (auto simp: registry_ok_def)
  show ?thesis
    unfolding registry_ok_def ids
  proof (intro conjI allI impI)
    show "safe_log (x # l)" using ok unsettled by (simp add: registry_ok_def)
    show "record_ok (x # l) s" if "walletd_record (update_record f p reg) j = Some s" for j s
      by (rule records [OF that])
    show "v \<in> set (created (x # l))" if "\<exists>y \<in> set (x # l). submits v y" for v
      by (rule calls [OF that])
  qed (use ok in \<open>simp_all add: registry_ok_def bt_inv_update\<close>)
qed

section \<open>The operations keep the invariant\<close>

lemma logged_simps [simp]:
  "wc_create (logged W) = log_call (wc_create W) CallCreate"
  "wc_approve (logged W) = log_call (wc_approve W) CallApprove"
  "wc_reject (logged W) = log_call (wc_reject W) CallReject"
  "wc_get (logged W) = log_call (wc_get W) CallGet"
  "wc_submit (logged W) = log_call (wc_submit W) CallSubmit"
  by (simp_all add: logged_def)

text \<open>An update that leaves the identifier, the submission and the transaction of a record alone.\<close>

definition minor :: "(walletd_request_record \<Rightarrow> walletd_request_record) \<Rightarrow> bool" where
  "minor f \<longleftrightarrow> (\<forall>r. wr_walletd_request_id (f r) = wr_walletd_request_id r \<and> wr_submission (f r) = wr_submission r
     \<and> wr_transaction_id (f r) = wr_transaction_id r)"

lemma record_ok_minor: "minor f \<Longrightarrow> record_ok l (f r) = record_ok l r"
  by (simp add: record_ok_def minor_def)

lemma minor_updates [simp]:
  "minor (wr_decision_update d)" "minor (wr_last_diagnostic_update d')" "minor (wr_last_effective_status_update e)"
  "minor (\<lambda>r. r\<lparr>wr_retry_count := k r\<rparr>)" "minor f \<Longrightarrow> minor g \<Longrightarrow> minor (f \<circ> g)"
  by (simp_all add: minor_def)

lemma registry_ok_minor:
  assumes ok: "registry_ok reg l" and "minor f"
  shows "registry_ok (update_record f p reg) l"
  by (rule registry_ok_update [OF ok])
    (use assms registry_okD [OF ok] in \<open>simp add: record_ok_minor, simp add: minor_def\<close>)

lemma registry_ok_quiet:
  assumes ok: "registry_ok reg l" and "minor f" and r: "walletd_record reg p = Some r"
    and x: "call_id x = Some (wr_walletd_request_id r)" and quiet: "\<not> submits (wr_walletd_request_id r) x"
  shows "registry_ok (update_record f p reg) (x # l)"
proof (rule registry_ok_log [OF ok x r refl])
  show "record_ok (x # l) (f r)"
    using record_ok_quiet [OF registry_okD [OF ok r] x quiet] assms(2) by (simp add: record_ok_minor)
qed (use assms in \<open>simp_all add: minor_def\<close>)

lemma update_record_id [simp]: "update_record (\<lambda>r. r) p reg = reg" if "bt_inv (lw_records reg)"
proof -
  have "bt_insert p r (lw_records reg) = lw_records reg" if "bt_get (lw_records reg) p = Some r" for r
    using that by (intro bt.entries_ext bt.inv_ins \<open>bt_inv _\<close>) (auto simp: bt.get_ins \<open>bt_inv _\<close>)
  then show ?thesis by (simp add: update_record_def walletd_record_def split: option.splits)
qed

lemma registry_ok_call_only:
  assumes ok: "registry_ok reg l" and r: "walletd_record reg p = Some r"
    and x: "call_id x = Some (wr_walletd_request_id r)" and quiet: "\<not> submits (wr_walletd_request_id r) x"
  shows "registry_ok reg (x # l)"
proof -
  have "update_record (\<lambda>r. r) p reg = reg" using ok by (simp add: registry_ok_def)
  then show ?thesis using registry_ok_quiet [OF ok _ r x quiet, of "\<lambda>r. r"] by (simp add: minor_def)
qed

lemma registry_ok_verify_Err:
  "registry_ok reg l \<Longrightarrow> verify_bound_record q reg = (Err e, reg') \<Longrightarrow> registry_ok reg' l"
  using verify_bound_record_Err by (fastforce simp: set_diagnostic_def registry_ok_minor)

lemma apply_client_error_minor: "\<exists>f. minor f \<and> apply_client_error p e reg = update_record f p reg"
  by (cases e) (auto simp: apply_client_error_def registry_updates simp del: fun_upd_apply intro!: exI conjI)

lemma apply_submit_error_update:
  "\<exists>f. apply_submit_error p e reg = update_record f p reg
     \<and> (\<forall>r. wr_walletd_request_id (f r) = wr_walletd_request_id r \<and> wr_transaction_id (f r) = wr_transaction_id r
          \<and> wr_submission (f r) = (if ambiguous e \<and> wr_submission r \<noteq> SubmissionSubmitted then TimedOutUnknown
                                   else wr_submission r))"
proof (cases "ambiguous e")
  case True
  then have "apply_submit_error p e reg = mark_timed_out_unknown p (set_diagnostic p (walletd_error_as_str e) reg)"
    by (auto simp: ambiguous_def apply_submit_error_def)
  then show ?thesis
    using True by (simp add: registry_updates) (intro exI conjI, rule refl, auto)
next
  case False
  obtain f where f: "minor f" "apply_client_error p e (set_diagnostic p (walletd_error_as_str e) reg) =
    update_record f p (set_diagnostic p (walletd_error_as_str e) reg)"
    using apply_client_error_minor by blast
  have "apply_submit_error p e reg = apply_client_error p e (set_diagnostic p (walletd_error_as_str e) reg)"
    using False by (cases e) (auto simp: ambiguous_def apply_submit_error_def)
  then show ?thesis
    using f False by (auto simp: registry_updates minor_def intro!: exI)
qed

lemma submit_call_ok:
  assumes ok: "registry_ok reg l" and r: "walletd_record reg (bq_project_request_id q) = Some r"
    and w: "wr_walletd_request_id r = bq_walletd_request_id q" and unsent: "wr_submission r = NotSubmitted"
    and call: "submit_call (logged W) q r reg (c, l) = (res, reg', c', l')"
  shows "registry_ok reg' l'"
proof -
  obtain answer c1 where a: "wc_submit W (bq_walletd_request_id q) c = (answer, c1)" by fastforce
  let ?x = "CallSubmit (bq_walletd_request_id q) answer" and ?p = "bq_project_request_id q"
  have r_ok: "record_ok l r" by (rule registry_okD [OF ok r])
  have "\<exists>f. reg' = update_record f ?p reg \<and> l' = ?x # l \<and> wr_walletd_request_id (f r) = wr_walletd_request_id r
    \<and> record_ok (?x # l) (f r)"
  proof (cases answer)
    case (Ok out)
    then show ?thesis
      using call a r_ok w unsent
      by (auto simp: submit_call_def log_call_def registry_updates record_ok_def call_defs intro!: exI)
  next
    case (Err e)
    obtain f where f: "apply_submit_error ?p e reg = update_record f ?p reg"
      "wr_walletd_request_id (f r) = wr_walletd_request_id r" "wr_transaction_id (f r) = wr_transaction_id r"
      "wr_submission (f r) = (if ambiguous e then TimedOutUnknown else NotSubmitted)"
      using apply_submit_error_update [of ?p e reg] unsent by auto
    then have "record_ok (?x # l) (f r)"
      using r_ok w unsent Err by (auto simp: record_ok_def call_defs)
    then show ?thesis
      using call a Err f by (auto simp: submit_call_def log_call_def intro!: exI [of _ f])
  qed
  then obtain f where f: "reg' = update_record f ?p reg" "l' = ?x # l"
    "wr_walletd_request_id (f r) = wr_walletd_request_id r" "record_ok (?x # l) (f r)" by blast
  have "\<not> sealed (bq_walletd_request_id q) l \<and> \<not> in_doubt (bq_walletd_request_id q) l"
    using r_ok w unsent by (auto simp: record_ok_def)
  then show ?thesis
    using registry_ok_log [OF ok _ r w, of ?x f] f w by simp
qed

lemma submit_ok:
  assumes ok: "registry_ok reg l" and op: "walletd_submit (logged W) q reg (c, l) = (res, reg', c', l')"
  shows "registry_ok reg' l'"
proof (cases "verify_bound_record q reg")
  case (Pair v reg1)
  show ?thesis
  proof (cases v)
    case (Err e)
    then show ?thesis
      using op Pair ok by (auto simp: walletd_submit_def dest: registry_ok_verify_Err)
  next
    case (Ok r)
    then have r: "reg1 = reg" "walletd_record reg (bq_project_request_id q) = Some r"
      "wr_walletd_request_id r = bq_walletd_request_id q"
      using Pair by (simp_all add: verify_bound_record_Ok)
    have diag: "registry_ok (set_diagnostic p d reg) l" for p d
      by (simp add: set_diagnostic_def registry_ok_minor [OF ok])
    show ?thesis
      using op Pair Ok r ok diag submit_call_ok [OF ok r(2,3)]
      by (auto simp: walletd_submit_def record_and_return_def Let_def
          split: walletd_submission_state_v1.splits option.splits walletd_request_decision_v1.splits)
  qed
qed

lemma status_ok:
  assumes ok: "registry_ok reg l" and op: "query_status (logged W) p reg (c, l) = (res, c', l')"
  shows "registry_ok reg l'"
proof (cases "walletd_record reg p")
  case None
  then show ?thesis using op ok by (simp add: query_status_def)
next
  case (Some r)
  then show ?thesis
    using op registry_ok_call_only [OF ok Some]
    by (auto simp: query_status_def log_call_def submits_def split: prod.splits result.splits)
qed

lemma recovery_state_update:
  assumes "recovery_state p r status reg = (res, reg')" and inv: "bt_inv (lw_records reg)"
  shows "\<exists>f. reg' = update_record f p reg \<and> (\<forall>s. wr_walletd_request_id (f s) = wr_walletd_request_id s)
    \<and> (minor f
        \<or> (\<exists>t. rs_status status = WalletdSubmitted \<and> rs_transaction_id status = Some t
             \<and> (\<forall>s. wr_submission (f s) = SubmissionSubmitted \<and> wr_transaction_id (f s) = Some t))
        \<or> rs_status status = WalletdApproved \<and> wr_transaction_id r = None
          \<and> (\<forall>s. wr_transaction_id (f s) = wr_transaction_id s
               \<and> wr_submission (f s) = (if wr_submission s \<noteq> SubmissionSubmitted then NotSubmitted else wr_submission s))
        \<or> (\<forall>s. wr_transaction_id (f s) = wr_transaction_id s
             \<and> wr_submission (f s) = (if wr_submission s \<noteq> SubmissionSubmitted then TimedOutUnknown else wr_submission s)))"
    (is "\<exists>f. ?P f")
proof -
  have diag: "\<exists>f. reg' = update_record f p reg \<and> minor f" if "reg' = set_diagnostic p d reg" for d
    using that by (auto simp: set_diagnostic_def)
  show ?thesis
  proof (cases "rs_status status")
    case WalletdApproved
    show ?thesis
    proof (cases "wr_transaction_id r")
      case None
      have "reg' = update_record (\<lambda>s. (if wr_submission r = TimedOutUnknown
             then (\<lambda>s. s\<lparr>wr_retry_count := saturating_succ_u32 (wr_retry_count s)\<rparr>) else id)
            (if wr_submission s \<noteq> SubmissionSubmitted then s\<lparr>wr_submission := NotSubmitted\<rparr> else s)) p reg"
        using assms WalletdApproved None
        by (auto simp: recovery_state_def registry_updates Let_def comp_def split: if_splits)
      then show ?thesis using WalletdApproved None by (intro exI conjI) (assumption, auto)
    next
      case (Some t)
      then show ?thesis using assms WalletdApproved diag
        by (fastforce simp: recovery_state_def record_and_return_def minor_def)
    qed
  next
    case WalletdSubmitted
    show ?thesis
    proof (cases "\<exists>t. rs_transaction_id status = Some t \<and> reg' = mark_submitted p t reg")
      case True
      then obtain t where t: "rs_transaction_id status = Some t" "reg' = mark_submitted p t reg" by blast
      then show ?thesis using WalletdSubmitted unfolding mark_submitted_def
        by (intro exI conjI) (assumption, auto)
    next
      case False
      then show ?thesis using assms WalletdSubmitted diag
        by (fastforce simp: recovery_state_def record_and_return_def minor_def split: option.splits if_splits)
    qed
  next
    case WalletdSubmitting
    then have "reg' = mark_timed_out_unknown p reg" using assms by (simp add: recovery_state_def)
    then show ?thesis unfolding mark_timed_out_unknown_def by (intro exI conjI) (assumption, auto)
  next
    case WalletdPending
    then have "reg' = update_record (\<lambda>r. r) p reg" using assms by (simp add: recovery_state_def)
    then show ?thesis by (intro exI conjI) (assumption, auto simp: minor_def)
  qed (use assms in \<open>auto simp: recovery_state_def registry_updates minor_def\<close>)
qed

lemma recover_call_ok:
  assumes ok: "registry_ok reg l" and r: "walletd_record reg (bq_project_request_id q) = Some r"
    and w: "wr_walletd_request_id r = bq_walletd_request_id q"
    and state: "recovery_state (bq_project_request_id q) r status
      (set_last_effective_status (bq_project_request_id q) e reg) = (res, reg')"
  shows "registry_ok reg' (CallGet (bq_walletd_request_id q) (Ok status) # l)" (is "registry_ok _ (?x # l)")
proof -
  let ?p = "bq_project_request_id q" and ?g = "wr_last_effective_status_update (\<lambda>_. Some e)"
  have inv: "bt_inv (lw_records (set_last_effective_status ?p e reg))"
    using ok by (simp add: registry_ok_def set_last_effective_status_def bt_inv_update)
  have r_ok: "record_ok l r" by (rule registry_okD [OF ok r])
  obtain f where f: "reg' = update_record (f \<circ> ?g) ?p reg" "\<And>s. wr_walletd_request_id (f s) = wr_walletd_request_id s"
    and alt: "minor f
        \<or> (\<exists>t. rs_status status = WalletdSubmitted \<and> rs_transaction_id status = Some t
             \<and> (\<forall>s. wr_submission (f s) = SubmissionSubmitted \<and> wr_transaction_id (f s) = Some t))
        \<or> rs_status status = WalletdApproved \<and> wr_transaction_id r = None
          \<and> (\<forall>s. wr_transaction_id (f s) = wr_transaction_id s
               \<and> wr_submission (f s) = (if wr_submission s \<noteq> SubmissionSubmitted then NotSubmitted else wr_submission s))
        \<or> (\<forall>s. wr_transaction_id (f s) = wr_transaction_id s
             \<and> wr_submission (f s) = (if wr_submission s \<noteq> SubmissionSubmitted then TimedOutUnknown else wr_submission s))"
    using recovery_state_update [OF state inv] by (auto simp: set_last_effective_status_def)
  have "record_ok (?x # l) ((f \<circ> ?g) r)"
    using alt
  proof (elim disjE exE conjE)
    assume "minor f"
    then show ?thesis
      using record_ok_quiet [OF r_ok, of ?x] w by (simp add: record_ok_minor submits_def)
  qed (use r_ok f(2) w in \<open>auto simp: record_ok_def call_defs split: if_splits\<close>)
  then show ?thesis
    using registry_ok_log [OF ok _ r w, of ?x "f \<circ> ?g"] f w by (simp add: submits_def)
qed

lemma recover_ok:
  assumes ok: "registry_ok reg l" and op: "walletd_recover (logged W) q reg (c, l) = (res, reg', c', l')"
  shows "registry_ok reg' l'"
proof (cases "verify_bound_record q reg")
  case (Pair v reg1)
  show ?thesis
  proof (cases v)
    case (Err e)
    then show ?thesis
      using op Pair ok by (auto simp: walletd_recover_def Let_def dest: registry_ok_verify_Err)
  next
    case (Ok r)
    then have r: "reg1 = reg" "walletd_record reg (bq_project_request_id q) = Some r"
      "wr_walletd_request_id r = bq_walletd_request_id q"
      using Pair by (simp_all add: verify_bound_record_Ok)
    obtain answer c1 where a: "wc_get W (bq_walletd_request_id q) c = (answer, c1)" by fastforce
    have diag: "registry_ok (set_diagnostic (bq_project_request_id q) d reg) (CallGet (bq_walletd_request_id q) answer # l)" for d
      using registry_ok_quiet [OF ok _ r(2), of "wr_last_diagnostic_update (\<lambda>_. Some d)" "CallGet (bq_walletd_request_id q) answer"]
        r(3) by (simp add: set_diagnostic_def submits_def)
    show ?thesis
      using op Pair Ok r(1) a diag recover_call_ok [OF ok r(2,3)]
      by (auto simp: walletd_recover_def record_and_return_def log_call_def Let_def
          split: result.splits option.splits if_splits prod.splits)
  qed
qed

lemma approve_reject_ok:
  assumes ok: "registry_ok reg l"
    and op: "walletd_approve (logged W) q reg (c, l) = (res, reg', c', l')
      \<or> walletd_reject (logged W) q reg (c, l) = (res, reg', c', l')"
  shows "registry_ok reg' l'"
proof (cases "verify_bound_record q reg")
  case (Pair v reg1)
  let ?p = "bq_project_request_id q" and ?w = "bq_walletd_request_id q"
  show ?thesis
  proof (cases v)
    case (Err e)
    then show ?thesis
      using op Pair ok by (auto simp: walletd_approve_def walletd_reject_def Let_def dest: registry_ok_verify_Err)
  next
    case (Ok r)
    then have r: "reg1 = reg" "walletd_record reg ?p = Some r" "wr_walletd_request_id r = ?w"
      using Pair by (simp_all add: verify_bound_record_Ok)
    obtain a1 c1 a2 c2 where a: "wc_approve W ?w c = (a1, c1)" "wc_reject W ?w c = (a2, c2)" by (meson surj_pair)
    have call: "registry_ok (update_record f ?p reg) (x # l)"
      if "minor f" "call_id x = Some ?w" "\<not> submits ?w x" for f x
      using registry_ok_quiet [OF ok that(1) r(2), of x] that r(3) by simp
    have minor: "\<exists>f. minor f \<and> set_decision ?p d reg = update_record f ?p reg"
      "\<exists>f. minor f \<and> set_diagnostic ?p t (set_decision ?p d reg) = update_record f ?p reg"
      "\<exists>f. minor f \<and> set_diagnostic ?p t reg = update_record f ?p reg" for d t
      by (auto simp: registry_updates intro!: exI)
    have calls: "registry_ok (set_decision ?p d reg) (x # l)"
      "registry_ok (set_diagnostic ?p t (set_decision ?p d reg)) (x # l)"
      "registry_ok (set_diagnostic ?p t reg) (x # l)"
      "registry_ok (apply_client_error ?p e reg) (x # l)"
      if "call_id x = Some ?w" "\<not> submits ?w x" for d t e x
      using minor(1) [of d] minor(2) [of t d] minor(3) [of t] apply_client_error_minor [of ?p e reg] call that
      by auto
    show ?thesis
      using op Pair Ok r(1) a ok calls
      by (auto simp: walletd_approve_def walletd_reject_def record_and_return_def log_call_def submits_def Let_def
          split: result.splits walletd_request_decision_v1.splits walletd_effective_status_v1.splits)
  qed
qed

lemma created_mono: "set (created l) \<subseteq> set (created (x # l))"
proof (cases x)
  case (CallCreate create r)
  then show ?thesis by (cases r) auto
qed auto

lemma record_ok_create: "record_ok l r \<Longrightarrow> record_ok (CallCreate create answer # l) r"
  using created_mono [of l "CallCreate create answer"] by (auto simp: record_ok_def call_defs)

lemma in_doubt_submitted: "in_doubt w l \<Longrightarrow> \<exists>x \<in> set l. submits w x"
  by (induction l) (auto simp: call_defs)

lemma prepare_ok:
  assumes ok: "registry_ok reg l" and op: "walletd_prepare (logged W) built reg (c, l) = (res, reg', c', l')"
    and fresh: "fresh_identifiers l'"
  shows "registry_ok reg' l'"
proof (cases built)
  case (Err e)
  then show ?thesis using op ok by (simp add: walletd_prepare_def)
next
  case (Ok b)
  obtain evidence create where b: "b = (evidence, create)" by fastforce
  obtain answer c1 where a: "wc_create W create c = (answer, c1)" by fastforce
  let ?x = "CallCreate create answer"
  have l': "l' = ?x # l"
    using op Ok b a by (auto simp: walletd_prepare_def prepare_fee_bearing_prebuilt_def log_call_def split: result.splits)
  have log: "safe_log (?x # l)" "\<forall>w. (\<exists>y \<in> set (?x # l). submits w y) \<longrightarrow> w \<in> set (created (?x # l))"
    using ok created_mono [of l ?x] by (auto simp: registry_ok_def submits_def)
  show ?thesis
  proof (cases answer)
    case (Err e)
    then have "reg' = reg"
      using op Ok b a by (simp add: walletd_prepare_def prepare_fee_bearing_prebuilt_def log_call_def)
    then show ?thesis
      using ok log l' by (auto simp: registry_ok_def intro: record_ok_create)
  next
    case answer: (Ok out)
    let ?p = "cr_project_request_id create" and ?w = "co_walletd_request_id out"
    have reg': "reg' = register_prepared ?p ?w (cr_binding create) reg"
      using op Ok b a answer by (simp add: walletd_prepare_def prepare_fee_bearing_prebuilt_def log_call_def)
    have new: "?w \<notin> set (created l)"
      using fresh l' answer by (simp add: fresh_identifiers_def)
    then have unused: "\<not> sealed ?w l" "\<not> in_doubt ?w l"
      using ok in_doubt_submitted [of ?w l] by (auto simp: registry_ok_def sealed_def submits_def)
    have ids: "request_ids reg' = (request_ids reg)(?p \<mapsto> ?w)"
      by (rule ext) (simp add: request_ids_def reg' register_prepared_def walletd_record_def)
    have "wr_walletd_request_id r \<noteq> ?w" if "walletd_record reg j = Some r" for j r
      using registry_okD [OF ok that] new by (auto simp: record_ok_def)
    then have "?w \<notin> ran (request_ids reg)"
      by (auto simp: ran_def request_ids_def)
    then have inj: "inj_on (request_ids reg') (dom (request_ids reg'))"
      using ok unfolding ids registry_ok_def by (auto simp: inj_on_def ran_def dom_def)
    have "record_ok l' r" if "walletd_record reg' j = Some r" for j r
      using that registry_okD [OF ok, of j] unused record_ok_create [of l _ create answer] l' answer
      by (auto simp: reg' register_prepared_def walletd_record_def record_ok_def call_defs split: if_splits)
    then show ?thesis
      using ok log l' inj by (auto simp: registry_ok_def reg' register_prepared_def bt.inv_ins)
  qed
qed

text \<open>A restart rebuilds the records.\<close>

lemma bt_rebuild:
  fixes m :: "('k::linorder, 'v) btree_map"
  assumes "bt_inv m"
  shows "fold (\<lambda>(k, v). bt_insert k v) m bt_new = m"
proof -
  have fold: "bt_inv (fold (\<lambda>(k, v). bt_insert k v) xs m0)
      \<and> bt_get (fold (\<lambda>(k, v). bt_insert k v) xs m0) = bt_get m0 ++ map_of (rev xs)" if "bt_inv m0" for xs m0
    using that by (induction xs arbitrary: m0) (auto simp: bt.inv_ins bt.get_ins map_add_def fun_eq_iff split: option.splits)
  have "distinct (map fst m)" using assms by (simp add: bt_inv_def strictly_sorted_iff)
  then have "map_of (rev m) = map_of m"
    by (subst map_of_inject_set) (simp_all add: rev_map [symmetric])
  moreover have "bt_get (bt_new :: ('k, 'v) btree_map) = Map.empty" by (simp add: bt_get_def bt_new_def fun_eq_iff)
  ultimately have "bt_get (fold (\<lambda>(k, v). bt_insert k v) m bt_new) = bt_get m"
    using fold [OF bt.inv_new, of m] by (simp add: bt_get_def [abs_def])
  then show ?thesis
    using fold [OF bt.inv_new, of m] assms by (intro bt.entries_ext) auto
qed

lemma record_snapshot_simps [simp]:
  "snapshot_record (record_snapshot p r) = r" "ws_project_request_id (record_snapshot p r) = p"
  "ws_walletd_request_id (record_snapshot p r) = wr_walletd_request_id r"
  by (simp_all add: snapshot_record_def record_snapshot_def)

lemma walletd_snapshots_eq:
  assumes "bt_inv (lw_records reg)"
  shows "walletd_snapshots reg = map (\<lambda>(p, r). record_snapshot p r) (lw_records reg)"
proof -
  have "distinct (map fst (lw_records reg))" using assms by (simp add: bt_inv_def strictly_sorted_iff)
  then have "bt_get (lw_records reg) (fst e) = Some (snd e)" if "e \<in> set (lw_records reg)" for e
    using that by (simp add: bt_get_def)
  then have "walletd_snapshot reg (fst e) = Some (record_snapshot (fst e) (snd e))" if "e \<in> set (lw_records reg)" for e
    using that by (simp add: walletd_snapshot_def walletd_record_def)
  then show ?thesis
    by (simp add: walletd_snapshots_def List.map_filter_def comp_def case_prod_unfold)
qed

lemma lw_records_rebuilt:
  assumes "bt_inv (lw_records reg)"
  shows "lw_records (walletd_registry_from_snapshots (walletd_snapshots reg)) = lw_records reg"
proof -
  have "lw_records (fold (\<lambda>s reg. reg\<lparr>
      lw_by_walletd := bt_insert (walletd_id_value (ws_walletd_request_id s)) (ws_project_request_id s) (lw_by_walletd reg),
      lw_records := bt_insert (ws_project_request_id s) (snapshot_record s) (lw_records reg)\<rparr>)
      (map (\<lambda>(p, r). record_snapshot p r) xs) reg0) = fold (\<lambda>(k, v). bt_insert k v) xs (lw_records reg0)" for xs and reg0 :: local_walletd_anchor_registry
    by (induction xs arbitrary: reg0) auto
  then show ?thesis
    using bt_rebuild [OF assms]
    by (simp add: walletd_registry_from_snapshots_def walletd_snapshots_eq [OF assms] walletd_registry_new_def Let_def)
qed

lemma restart_ok: "registry_ok reg l \<Longrightarrow> registry_ok (walletd_registry_from_snapshots (walletd_snapshots reg)) l"
  by (simp add: registry_ok_def request_ids_def [abs_def] lw_records_rebuilt walletd_record_def)

section \<open>What holds in every run\<close>

lemma walletd_run_ok: "walletd_run W st \<Longrightarrow> registry_ok (fst st) (snd (snd st))"
proof (induction rule: walletd_run.induct)
  case (start c)
  show ?case
    by (simp add: registry_ok_def walletd_registry_new_def walletd_record_def bt.inv_new bt.get_new request_ids_def dom_def)
qed (auto intro: prepare_ok approve_reject_ok submit_ok recover_ok status_ok restart_ok)

lemma in_doubt_append:
  "in_doubt w (l1 @ x # l2) \<or> (\<exists>y \<in> set l1. clears w y)" if "doubts w x"
  using that by (induction l1) auto

lemma safe_log_suffix: "safe_log (l1 @ l2) \<Longrightarrow> safe_log l2"
  by (induction l1) auto

text \<open>Two submit calls for one request: the daemon has refused the first, or a lookup in between cleared it.\<close>

lemma safe_log_resubmit:
  assumes "safe_log (later @ CallSubmit w r' # between @ CallSubmit w r # earlier)"
  shows "\<exists>e. r = Err e \<and> (ambiguous e \<longrightarrow> (\<exists>status. CallGet w (Ok status) \<in> set between \<and> rs_status status = WalletdApproved))"
proof -
  have "safe_log (CallSubmit w r' # between @ CallSubmit w r # earlier)"
    using safe_log_suffix [OF assms] .
  then have free: "\<not> sealed w (between @ CallSubmit w r # earlier)" "\<not> in_doubt w (between @ CallSubmit w r # earlier)"
    by (simp_all add: submits_def)
  from free(1) obtain e where r: "r = Err e" by (cases r) (auto simp: sealed_def)
  then show ?thesis
    using free(2) in_doubt_append [of w "CallSubmit w r" between earlier] by (auto simp: doubts_def clears_def)
qed

end
