(* ===== verification/Anchor_Runs.thy ===== *)
theory Anchor_Runs
  imports Anchor_Lifecycle Walletd_Runs
begin

text \<open>
  Runs of the orchestrator of an anchor: every step in any order, restarts from its own snapshot included, against a
  wallet daemon and an indexer that answer as they like. The calls of both are logged, the newest first.
\<close>

section \<open>What the coordinator of wallet requests leaves alone\<close>

text \<open>The daemon's identifier and the frozen binding of each request.\<close>

definition bindings :: "local_walletd_anchor_registry \<Rightarrow> anchor_request_id \<Rightarrow>
    (walletd_request_id \<times> walletd_anchor_binding_v1) option" where
  "bindings reg p = map_option (\<lambda>r. (wr_walletd_request_id r, wr_binding r)) (walletd_record reg p)"

lemma bindings_update [simp]:
  "(\<And>r. wr_walletd_request_id (f r) = wr_walletd_request_id r \<and> wr_binding (f r) = wr_binding r) \<Longrightarrow>
     bindings (update_record f p reg) = bindings reg"
  by (rule ext) (auto simp: bindings_def option.map_comp comp_def)

lemma bindings_updates [simp]:
  "bindings (set_decision p d reg) = bindings reg" "bindings (set_diagnostic p t reg) = bindings reg"
  "bindings (set_last_effective_status p e reg) = bindings reg" "bindings (mark_submitted p i reg) = bindings reg"
  "bindings (mark_timed_out_unknown p reg) = bindings reg" "bindings (reset_submission_not_submitted p reg) = bindings reg"
  "bindings (increment_retry p reg) = bindings reg"
  by (simp_all add: registry_updates)

lemma bindings_client_error [simp]: "bindings (apply_client_error p e reg) = bindings reg"
  by (cases e) (simp_all add: apply_client_error_def)

lemma bindings_submit_error [simp]: "bindings (apply_submit_error p e reg) = bindings reg"
  by (cases e) (simp_all add: apply_submit_error_def)

lemma verify_bindings: "verify_bound_record q reg = (v, reg') \<Longrightarrow> bindings reg' = bindings reg"
  by (auto simp: verify_bound_record_def record_and_return_def split: option.splits result.splits if_splits)

text \<open>The requests that the daemon has created.\<close>

definition creates :: "'w walletd_call list \<Rightarrow> ('w walletd_create_anchor_request_v1 \<times> walletd_create_outcome_v1) set" where
  "creates l = {(create, out). CallCreate create (Ok out) \<in> set l}"

lemma creates_Cons [simp]:
  "creates (CallCreate create (Ok out) # l) = insert (create, out) (creates l)"
  "creates (CallCreate create (Err e) # l) = creates l"
  "call_id x = Some w \<Longrightarrow> creates (x # l) = creates l"
  by (auto simp: creates_def)

definition grows :: "'w walletd_call list \<Rightarrow> 'w walletd_call list \<Rightarrow> bool" where
  "grows l l' \<longleftrightarrow> set l \<subseteq> set l' \<and> creates l' = creates l \<and> created l' = created l"

lemma grows_refl [simp]: "grows l l" and grows_call [simp]: "call_id x = Some w \<Longrightarrow> grows l (x # l)"
  by (auto simp: grows_def)

lemma reported_grows: "grows l l' \<Longrightarrow> reported w t l \<Longrightarrow> reported w t l'"
  by (auto simp: grows_def reported_def)

text \<open>Only preparing a request changes what is bound and what is created, and no operation loses a call.\<close>

lemma submit_frame:
  "walletd_submit (logged W) q reg (c, l) = (r, reg', c', l') \<Longrightarrow> bindings reg' = bindings reg \<and> grows l l'"
  by (auto simp: walletd_submit_def submit_call_def record_and_return_def log_call_def Let_def dest!: verify_bindings
      split: prod.splits result.splits walletd_submission_state_v1.splits option.splits
        walletd_request_decision_v1.splits)

lemma recovery_state_frame: "recovery_state p r status reg = (v, reg') \<Longrightarrow> bindings reg' = bindings reg"
  by (auto simp: recovery_state_def record_and_return_def Let_def
      split: walletd_effective_status_v1.splits option.splits if_splits)

lemma recover_frame:
  "walletd_recover (logged W) q reg (c, l) = (r, reg', c', l') \<Longrightarrow> bindings reg' = bindings reg \<and> grows l l'"
  by (auto simp: walletd_recover_def record_and_return_def log_call_def Let_def
      dest!: verify_bindings recovery_state_frame
      split: prod.splits result.splits option.splits if_splits)

lemma approve_frame:
  "walletd_approve (logged W) q reg (c, l) = (r, reg', c', l') \<Longrightarrow> bindings reg' = bindings reg \<and> grows l l'"
  by (auto simp: walletd_approve_def record_and_return_def log_call_def Let_def dest!: verify_bindings
      split: prod.splits result.splits walletd_request_decision_v1.splits walletd_effective_status_v1.splits)

lemma reject_frame:
  "walletd_reject (logged W) q reg (c, l) = (r, reg', c', l') \<Longrightarrow> bindings reg' = bindings reg \<and> grows l l'"
  by (auto simp: walletd_reject_def record_and_return_def log_call_def Let_def dest!: verify_bindings
      split: prod.splits result.splits walletd_request_decision_v1.splits walletd_effective_status_v1.splits)

lemma prepare_frame:
  assumes "walletd_prepare (logged W) built reg (c, l) = (r, reg', c', l')"
  shows "case r of Err e \<Rightarrow> reg' = reg \<and> grows l l'
    | Ok prepared \<Rightarrow> \<exists>evidence create out. built = Ok (evidence, create)
         \<and> l' = CallCreate create (Ok out) # l
         \<and> reg' = register_prepared (cr_project_request_id create) (co_walletd_request_id out) (cr_binding create) reg
         \<and> pw_project_request_id prepared = cr_project_request_id create
         \<and> pw_walletd_request_id prepared = co_walletd_request_id out \<and> pw_binding prepared = cr_binding create"
  using assms
  by (auto simp: walletd_prepare_def prepare_fee_bearing_prebuilt_def log_call_def grows_def
      split: result.splits prod.splits)

lemma submit_result:
  assumes "walletd_submit (logged W) q reg (c, l) = (Ok s, reg', c', l')"
  shows "sw_project_request_id s = bq_project_request_id q \<and> sw_walletd_request_id s = bq_walletd_request_id q
    \<and> (\<exists>r. walletd_record reg' (bq_project_request_id q) = Some r \<and> wr_walletd_request_id r = bq_walletd_request_id q
         \<and> wr_binding r = sw_binding s \<and> wr_submission r = SubmissionSubmitted
         \<and> wr_transaction_id r = Some (sw_transaction_id s))"
  using assms
  by (auto simp: walletd_submit_def submit_call_def submitted_request_def record_and_return_def log_call_def Let_def
      verify_bound_record_Ok registry_updates
      split: prod.splits result.splits walletd_submission_state_v1.splits option.splits walletd_request_decision_v1.splits)

section \<open>One query\<close>

type_synonym indexer_call = "anchor_receipt_query_v1 \<times> indexer_answer"

definition logged_indexer :: "'d indexer_anchor_receipt_client \<Rightarrow> ('d \<times> indexer_call list) indexer_anchor_receipt_client" where
  "logged_indexer I = \<lparr>ix_fetch = log_call (ix_fetch I) Pair\<rparr>"

text \<open>An answer of the indexer that proves the anchor of a query.\<close>

definition proving_answer :: "anchor_receipt_query_v1 \<Rightarrow> indexer_answer \<Rightarrow> bool" where
  "proving_answer q answer \<longleftrightarrow> (\<exists>receipt evidence. answer = Ok (FetchFinalized receipt) \<and> receipt_verification q receipt = Ok evidence)"

lemma finalized_report_verified:
  "qp_verified (finalized_report q ev receipt) \<noteq> None \<longleftrightarrow> (\<exists>e. receipt_verification q receipt = Ok e)"
proof (cases "receipt_verification q receipt")
  case (Err e)
  then show ?thesis by (cases e) (simp_all add: finalized_report_def Let_def)
qed (simp add: finalized_report_def Let_def)

lemma query_report_verified: "is_verified_success (query_report q ev answer) \<longleftrightarrow> proving_answer q answer"
  using finalized_report_verified [of q ev]
  by (auto simp: is_verified_success_def query_report_def open_report_def proving_answer_def
      split: result.splits indexer_receipt_fetch_v1.splits)

lemma query_report_accept: "qp_state (query_report q ev answer) = ReceiptFinalizedAccept \<longleftrightarrow> proving_answer q answer"
proof -
  have "qp_state (finalized_report q ev receipt) = ReceiptFinalizedAccept \<longleftrightarrow> (\<exists>e. receipt_verification q receipt = Ok e)"
    for receipt
  proof (cases "receipt_verification q receipt")
    case (Err e)
    then show ?thesis by (cases e) (simp_all add: finalized_report_def Let_def)
  qed (simp add: finalized_report_def Let_def)
  then show ?thesis
    by (auto simp: query_report_def open_report_def proving_answer_def split: result.splits indexer_receipt_fetch_v1.splits)
qed

lemma receipt_query_frame:
  assumes "receipt_query A (logged_indexer I) q s reg (d, k) = (r, reg', d', k')"
  shows "(\<exists>e. r = Err e \<and> reg' = reg \<and> k' = k)
    \<or> (\<exists>answer ev. r = Ok (query_report q ev answer) \<and> k' = (q, answer) # k \<and> q = from_submitted s
         \<and> reg' = set_outcome (aq_project_request_id q) (qp_state (query_report q ev answer))
              (qp_final_status (query_report q ev answer)) (proving_answer q answer)
              (qp_diagnostic (query_report q ev answer)) (register_submitted q reg))"
  using assms
  by (auto simp: receipt_query_def logged_indexer_def log_call_def result_inv query_report_verified Let_def
      split: result.splits prod.splits)

section \<open>Runs\<close>

record ('w, 'c, 'd) anchor_state =
  as_orchestrator :: anchor_lifecycle_orchestrator
  as_daemon :: 'c
  as_calls :: "'w walletd_call list"
  as_indexer :: 'd
  as_queries :: "indexer_call list"

text \<open>A step of the orchestrator with the daemon, as a step of the whole state.\<close>

definition with_daemon ::
  "('w, 'c, 'd) anchor_state \<Rightarrow>
   (anchor_lifecycle_orchestrator \<Rightarrow> 'c \<times> 'w walletd_call list \<Rightarrow>
     lifecycle_result \<times> anchor_lifecycle_orchestrator \<times> 'c \<times> 'w walletd_call list) \<Rightarrow> ('w, 'c, 'd) anchor_state" where
  "with_daemon st f =
     (case f (as_orchestrator st) (as_daemon st, as_calls st) of
        (_, o', c, l) \<Rightarrow> st\<lparr>as_orchestrator := o', as_daemon := c, as_calls := l\<rparr>)"

definition with_indexer ::
  "('w, 'c, 'd) anchor_state \<Rightarrow>
   (anchor_lifecycle_orchestrator \<Rightarrow> 'd \<times> indexer_call list \<Rightarrow>
     lifecycle_result \<times> anchor_lifecycle_orchestrator \<times> 'd \<times> indexer_call list) \<Rightarrow> ('w, 'c, 'd) anchor_state" where
  "with_indexer st f =
     (case f (as_orchestrator st) (as_indexer st, as_queries st) of
        (_, o', d, k) \<Rightarrow> st\<lparr>as_orchestrator := o', as_indexer := d, as_queries := k\<rparr>)"

record ('w, 'c, 'd) anchor_environment =
  an_blake3 :: "bytes \<Rightarrow> bytes32"
  an_addresses :: ootle_addresses
  an_daemon :: "('w, 'c) walletd_anchor_client"
  an_indexer :: "'d indexer_anchor_receipt_client"

inductive anchor_run :: "('w, 'c, 'd) anchor_environment \<Rightarrow> polling_policy \<Rightarrow> ('w, 'c, 'd) anchor_state \<Rightarrow> bool"
  for N policy where
  start: "anchor_run N policy \<lparr>as_orchestrator = orchestrator_new policy, as_daemon = c, as_calls = [], as_indexer = d,
    as_queries = []\<rparr>"
| outside: "anchor_run N policy st \<Longrightarrow> anchor_run N policy (st\<lparr>as_daemon := c, as_indexer := d\<rparr>)"
| prepare: "anchor_run N policy st \<Longrightarrow>
    built = map_ok (Pair evidence) (create_request (an_blake3 N) detail preparation evidence inspection wire) \<Longrightarrow>
    st' = with_daemon st (lifecycle_prepare (logged (an_daemon N)) built) \<Longrightarrow> fresh_identifiers (as_calls st') \<Longrightarrow>
    anchor_run N policy st'"
| approve: "anchor_run N policy st \<Longrightarrow> anchor_run N policy (with_daemon st (lifecycle_approve (logged (an_daemon N))))"
| reject: "anchor_run N policy st \<Longrightarrow> anchor_run N policy (with_daemon st (lifecycle_reject (logged (an_daemon N))))"
| submit: "anchor_run N policy st \<Longrightarrow> anchor_run N policy (with_daemon st (lifecycle_submit (logged (an_daemon N))))"
| recover: "anchor_run N policy st \<Longrightarrow> anchor_run N policy (with_daemon st (lifecycle_recover (logged (an_daemon N))))"
| poll: "anchor_run N policy st \<Longrightarrow>
    anchor_run N policy (with_indexer st (advance_one_poll (an_addresses N) (logged_indexer (an_indexer N))))"
| agree: "anchor_run N policy st \<Longrightarrow>
    anchor_run N policy (st\<lparr>as_orchestrator := snd (check_agreement observation (as_orchestrator st))\<rparr>)"
| restart: "anchor_run N policy st \<Longrightarrow> orchestrator_from_snapshot (lifecycle_snapshot (as_orchestrator st)) = Ok o' \<Longrightarrow>
    anchor_run N policy (st\<lparr>as_orchestrator := o'\<rparr>)"

section \<open>What runs keep\<close>

definition requested ::
  "'w walletd_call list \<Rightarrow> anchor_request_id \<Rightarrow> walletd_request_id \<Rightarrow> walletd_anchor_binding_v1 \<Rightarrow> bool" where
  "requested l p w b \<longleftrightarrow> (\<exists>(create, out) \<in> creates l.
     cr_project_request_id create = p \<and> co_walletd_request_id out = w \<and> cr_binding create = b)"

text \<open>What the registry and the handle of the submitted request say of the calls.\<close>

definition adapter_bound :: "walletd_anchor_binding_v1 \<Rightarrow> bool" where
  "adapter_bound b \<longleftrightarrow> (\<exists>preparation fingerprint. b = preparation_binding preparation fingerprint)"

definition handles_ok :: "anchor_lifecycle_orchestrator \<Rightarrow> 'w walletd_call list \<Rightarrow> bool" where
  "handles_ok o' l \<longleftrightarrow>
     registry_ok (lo_walletd o') l
     \<and> (\<forall>p w b. requested l p w b \<longrightarrow> adapter_bound b)
     \<and> (\<forall>p w b. bindings (lo_walletd o') p = Some (w, b) \<longrightarrow> requested l p w b)
     \<and> (\<forall>s. lo_submitted o' = Some s \<longrightarrow>
          requested l (sw_project_request_id s) (sw_walletd_request_id s) (sw_binding s)
          \<and> reported (sw_walletd_request_id s) (sw_transaction_id s) l)
     \<and> lo_query o' = map_option from_submitted (lo_submitted o')"

text \<open>The attempts are counted by the queries that reached the indexer.\<close>

definition attempts_ok :: "polling_policy \<Rightarrow> anchor_lifecycle_orchestrator \<Rightarrow> indexer_call list \<Rightarrow> bool" where
  "attempts_ok policy o' k \<longleftrightarrow>
     pp_schedule (lo_policy o') = pp_schedule policy
     \<and> unat (pp_attempts_consumed (lo_policy o')) = unat (pp_attempts_consumed policy) + length k
     \<and> pp_attempts_consumed (lo_policy o') \<le> max_query_attempts policy"

definition phase_ok :: "anchor_lifecycle_orchestrator \<Rightarrow> indexer_call list \<Rightarrow> bool" where
  "phase_ok o' k \<longleftrightarrow>
     (lo_phase o' = PhaseFinalizedAccept \<longrightarrow>
        (\<exists>s answer. lo_submitted o' = Some s \<and> (from_submitted s, answer) \<in> set k \<and> proving_answer (from_submitted s) answer))
     \<and> lo_phase o' \<noteq> PhaseFinalizedDisagreement
     \<and> (lo_cached_receipt o' \<noteq> None \<longrightarrow> phase_is_terminal (lo_phase o'))"

definition anchor_ok :: "polling_policy \<Rightarrow> ('w, 'c, 'd) anchor_state \<Rightarrow> bool" where
  "anchor_ok policy st \<longleftrightarrow>
     handles_ok (as_orchestrator st) (as_calls st) \<and> attempts_ok policy (as_orchestrator st) (as_queries st)
     \<and> phase_ok (as_orchestrator st) (as_queries st)"

lemma requested_grows: "grows l l' \<Longrightarrow> requested l p w b = requested l' p w b"
  by (simp add: requested_def grows_def)

lemma handles_ok_grows:
  assumes "handles_ok o' l" "registry_ok reg' l'" "bindings reg' = bindings (lo_walletd o')" "grows l l'"
    and "lo_walletd o'' = reg'" "lo_submitted o'' = lo_submitted o'" "lo_query o'' = lo_query o'"
  shows "handles_ok o'' l'"
  using assms reported_grows [OF assms(4)] by (auto simp: handles_ok_def requested_grows [OF assms(4), symmetric])

text \<open>The handle that a successful submit returns.\<close>

lemma handles_ok_submitted:
  assumes ok: "handles_ok o' l" and op: "walletd_submit (logged W) q (lo_walletd o') (c, l) = (Ok s, reg', c', l')"
    and new: "lo_walletd o'' = reg'" "lo_submitted o'' = Some s" "lo_query o'' = Some (from_submitted s)"
  shows "handles_ok o'' l'"
proof -
  have frame: "bindings reg' = bindings (lo_walletd o')" "grows l l'" using submit_frame [OF op] by auto
  have reg: "registry_ok reg' l'" using submit_ok [OF _ op] ok by (simp add: handles_ok_def)
  obtain r where r: "walletd_record reg' (sw_project_request_id s) = Some r"
    "wr_walletd_request_id r = sw_walletd_request_id s" "wr_binding r = sw_binding s"
    "wr_transaction_id r = Some (sw_transaction_id s)"
    using submit_result [OF op] by auto
  have b: "bindings reg' (sw_project_request_id s) = Some (sw_walletd_request_id s, sw_binding s)"
    using r by (simp add: bindings_def)
  have "reported (sw_walletd_request_id s) (sw_transaction_id s) l'"
    using registry_okD [OF reg r(1)] r(2,4) by (auto simp: record_ok_def)
  then show ?thesis
    using ok reg frame new b by (auto simp: handles_ok_def requested_grows [OF frame(2), symmetric])
qed

section \<open>The steps keep it\<close>

definition step_ok ::
  "anchor_lifecycle_orchestrator \<Rightarrow> 'w walletd_call list \<Rightarrow> anchor_lifecycle_orchestrator \<Rightarrow> 'w walletd_call list \<Rightarrow> bool" where
  "step_ok o' l o'' l' \<longleftrightarrow> lo_policy o'' = lo_policy o'
     \<and> (handles_ok o' l \<longrightarrow> handles_ok o'' l') \<and> (\<forall>k. phase_ok o' k \<longrightarrow> phase_ok o'' k)"

lemma step_ok_refl [simp]: "step_ok o' l o' l"
  by (simp add: step_ok_def)

text \<open>A change of the wallet registry that keeps the handle, in a phase that is not terminal.\<close>

lemma step_ok_registry:
  assumes "\<not> phase_is_terminal (lo_phase o')"
    and "registry_ok (lo_walletd o') l \<Longrightarrow> registry_ok (lo_walletd o'') l'"
    and "bindings (lo_walletd o'') = bindings (lo_walletd o')" "grows l l'"
    and "lo_submitted o'' = lo_submitted o'" "lo_query o'' = lo_query o'" "lo_policy o'' = lo_policy o'"
    and "lo_cached_receipt o'' = lo_cached_receipt o'"
    and "lo_phase o'' \<noteq> PhaseFinalizedAccept" "lo_phase o'' \<noteq> PhaseFinalizedDisagreement"
  shows "step_ok o' l o'' l'"
proof -
  have "handles_ok o'' l'" if ok: "handles_ok o' l"
    by (rule handles_ok_grows [OF ok assms(2) assms(3,4) refl assms(5,6)]) (use ok in \<open>simp add: handles_ok_def\<close>)
  moreover have "phase_ok o'' k" if "phase_ok o' k" for k
    using that assms(1,8-) by (auto simp: phase_ok_def)
  ultimately show ?thesis using assms(7) by (simp add: step_ok_def)
qed

lemma step_ok_submitted:
  assumes "\<not> phase_is_terminal (lo_phase o')"
    and "walletd_submit (logged W) q (lo_walletd o') (c, l) = (Ok s, reg', c', l')"
    and "lo_walletd o'' = reg'" "lo_submitted o'' = Some s" "lo_query o'' = Some (from_submitted s)"
    and "lo_policy o'' = lo_policy o'" "lo_cached_receipt o'' = None" "lo_phase o'' = PhaseSubmitted"
  shows "step_ok o' l o'' l'"
  using assms handles_ok_submitted [OF _ assms(2-5)] by (auto simp: step_ok_def phase_ok_def)

lemma step_ok_trans: "step_ok o1 l1 o2 l2 \<Longrightarrow> step_ok o2 l2 o3 l3 \<Longrightarrow> step_ok o1 l1 o3 l3"
  by (auto simp: step_ok_def)

lemma lifecycle_register_submitted_eq [simp]:
  "lifecycle_register_submitted s o' =
     Ok (o'\<lparr>lo_receipt := register_submitted (from_submitted s) (lo_receipt o'), lo_submitted := Some s,
            lo_query := Some (from_submitted s), lo_cached_receipt := None\<rparr>)"
proof -
  have "ensure_matches_submitted (from_submitted s) s = Ok ()" by (simp add: ensure_matches_submitted_Ok_iff)
  then show ?thesis by (simp add: lifecycle_register_submitted_def receipt_register_def Let_def)
qed

lemma approve_step: "lifecycle_approve (logged W) o' (c, l) = (r, o'', c', l') \<Longrightarrow> step_ok o' l o'' l'"
  by (auto simp: lifecycle_approve_def Let_def split: if_splits result.splits prod.splits
      dest: approve_frame intro!: step_ok_registry intro: approve_reject_ok)

lemma reject_step: "lifecycle_reject (logged W) o' (c, l) = (r, o'', c', l') \<Longrightarrow> step_ok o' l o'' l'"
  by (auto simp: lifecycle_reject_def Let_def split: if_splits result.splits prod.splits
      dest: reject_frame intro!: step_ok_registry intro: approve_reject_ok)

text \<open>What a submit makes of the orchestrator, from the submit step and from recovery.\<close>

lemma submitted_step:
  assumes op: "walletd_submit (logged W) q (lo_walletd o') (c, l) = (v, reg', c', l')" and "\<not> phase_is_terminal (lo_phase o')"
  shows "case v of
      Ok s \<Rightarrow> step_ok o' l (o'\<lparr>lo_walletd := reg', lo_receipt := register_submitted (from_submitted s) (lo_receipt o'),
                lo_submitted := Some s, lo_query := Some (from_submitted s), lo_cached_receipt := None,
                lo_diagnostic := None, lo_phase := PhaseSubmitted\<rparr>) l'
        \<and> step_ok o' l (o'\<lparr>lo_walletd := reg', lo_receipt := register_submitted (from_submitted s) (lo_receipt o'),
                lo_submitted := Some s, lo_query := Some (from_submitted s), lo_cached_receipt := None,
                lo_phase := PhaseSubmitted, lo_diagnostic := None\<rparr>) l'
    | Err e \<Rightarrow> step_ok o' l (o'\<lparr>lo_walletd := reg'\<rparr>) l'
        \<and> step_ok o' l (o'\<lparr>lo_walletd := reg', lo_diagnostic := d\<rparr>) l'
        \<and> step_ok o' l (o'\<lparr>lo_walletd := reg', lo_diagnostic := d, lo_phase := PhaseUnknown\<rparr>) l'"
proof (cases v)
  case (Ok s)
  with op have "walletd_submit (logged W) q (lo_walletd o') (c, l) = (Ok s, reg', c', l')" by simp
  then show ?thesis
    unfolding Ok result.case by (intro conjI) (rule step_ok_submitted [OF assms(2)], assumption, simp_all)+
next
  case (Err e)
  then show ?thesis
    using assms submit_frame [OF op] submit_ok [OF _ op] by (auto intro!: step_ok_registry)
qed

lemma submit_step:
  assumes "lifecycle_submit (logged W) o' (c, l) = (r, o'', c', l')"
  shows "step_ok o' l o'' l'"
proof (cases "lo_phase o' = PhaseApproved")
  case False
  then show ?thesis using assms by (auto simp: lifecycle_submit_def split: if_splits)
next
  case True
  show ?thesis
  proof (cases "submit_request o'")
    case (Err e)
    then show ?thesis using assms True by (auto simp: lifecycle_submit_def)
  next
    case (Ok q)
    obtain v reg1 c1 l1 where v: "walletd_submit (logged W) q (lo_walletd o') (c, l) = (v, reg1, c1, l1)"
      by (metis surj_pair)
    show ?thesis
      using assms True Ok v submitted_step [OF v, of "lo_diagnostic o''"]
      by (auto simp: lifecycle_submit_def Let_def split: result.splits if_splits)
  qed
qed

lemma recovered_step:
  assumes "apply_recovered (logged W) q state o' (c, l) = (e, o'', c', l')" and "\<not> phase_is_terminal (lo_phase o')"
  shows "step_ok o' l o'' l'"
proof (cases "\<exists>t. state = RecoverySubmitted t")
  case True
  then obtain t where t: "state = RecoverySubmitted t" by blast
  obtain v reg1 c1 l1 where v: "walletd_submit (logged W) q (lo_walletd o') (c, l) = (v, reg1, c1, l1)"
    by (metis surj_pair)
  show ?thesis
    using assms t v submitted_step [OF v assms(2), of None]
    by (auto simp: apply_recovered_def split: result.splits)
next
  case False
  then show ?thesis
    using assms by (cases state) (auto simp: apply_recovered_def intro!: step_ok_registry)
qed

lemma recover_step:
  assumes "lifecycle_recover (logged W) o' (c, l) = (r, o'', c', l')"
  shows "step_ok o' l o'' l'"
proof (cases "lo_phase o' = PhaseUnknown")
  case False
  then show ?thesis using assms by (auto simp: lifecycle_recover_def split: if_splits)
next
  case True
  show ?thesis
  proof (cases "submit_request o'")
    case (Err e)
    then show ?thesis using assms True by (auto simp: lifecycle_recover_def)
  next
    case (Ok q)
    obtain v reg1 c1 l1 where v: "walletd_recover (logged W) q (lo_walletd o') (c, l) = (v, reg1, c1, l1)"
      by (metis surj_pair)
    have first: "step_ok o' l (o'\<lparr>lo_walletd := reg1\<rparr>) l1"
      by (rule step_ok_registry) (use True recover_frame [OF v] recover_ok [OF _ v] in auto)
    show ?thesis
    proof (cases v)
      case (Err e)
      then show ?thesis using assms True Ok v first by (auto simp: lifecycle_recover_def)
    next
      case rec: (Ok recovered)
      obtain e o2 c2 l2 where e: "apply_recovered (logged W) q (rw_state recovered) (o'\<lparr>lo_walletd := reg1\<rparr>) (c1, l1) = (e, o2, c2, l2)"
        by (metis surj_pair)
      have "step_ok o' l o2 l2"
        using step_ok_trans [OF first recovered_step [OF e]] True by simp
      then show ?thesis
        using assms True Ok v rec e by (auto simp: lifecycle_recover_def split: option.splits)
    qed
  qed
qed

lemma bindings_register [simp]: "bindings (register_prepared p w b reg) = (bindings reg)(p \<mapsto> (w, b))"
  by (rule ext) (simp add: bindings_def register_prepared_def walletd_record_def)

lemma prepare_step:
  assumes "lifecycle_prepare (logged W) built o' (c, l) = (r, o'', c', l')" and fresh: "fresh_identifiers l'"
    and bound: "\<And>evidence create. built = Ok (evidence, create) \<Longrightarrow> adapter_bound (cr_binding create)"
  shows "step_ok o' l o'' l'"
proof (cases "phase_is_terminal (lo_phase o')")
  case True
  then show ?thesis using assms by (simp add: lifecycle_prepare_def)
next
  case False
  obtain v reg1 c1 l1 where v: "walletd_prepare (logged W) built (lo_walletd o') (c, l) = (v, reg1, c1, l1)"
    by (metis surj_pair)
  show ?thesis
  proof (cases v)
    case (Err e)
    then have o'': "o'' = o'\<lparr>lo_walletd := reg1\<rparr>" "l' = l1"
      using assms False v by (auto simp: lifecycle_prepare_def)
    show ?thesis
      unfolding o'' by (rule step_ok_registry)
        (use False prepare_frame [OF v] prepare_ok [OF _ v] fresh o'' Err in auto)
  next
    case (Ok prepared)
    then have o'': "o'' = o'\<lparr>lo_walletd := reg1, lo_prepared := Some prepared, lo_approved := None, lo_submitted := None,
        lo_query := None, lo_cached_receipt := None, lo_diagnostic := None, lo_phase := PhasePrepared\<rparr>" "l' = l1"
      using assms False v by (auto simp: lifecycle_prepare_def Let_def)
    obtain evidence create out where new: "built = Ok (evidence, create)" "l1 = CallCreate create (Ok out) # l"
      "reg1 = register_prepared (cr_project_request_id create) (co_walletd_request_id out) (cr_binding create) (lo_walletd o')"
      using prepare_frame [OF v] Ok by auto
    have "handles_ok o'' l'" if "handles_ok o' l"
      using that prepare_ok [OF _ v] fresh o'' new(2,3) bound [OF new(1)] by (auto simp: handles_ok_def requested_def)
    then show ?thesis
      by (auto simp: step_ok_def phase_ok_def o'')
  qed
qed

lemma consume_one_policy:
  assumes "\<not> is_exhausted p"
  shows "pp_schedule (snd (consume_one p)) = pp_schedule p"
    "unat (pp_attempts_consumed (snd (consume_one p))) = Suc (unat (pp_attempts_consumed p))"
    "pp_attempts_consumed (snd (consume_one p)) \<le> max_query_attempts p"
proof -
  have less: "pp_attempts_consumed p < max_query_attempts p" using assms by (simp add: is_exhausted_def)
  then have not_max: "pp_attempts_consumed p \<noteq> - 1" by (metis word_order.extremum_strict word_n1_ge)
  have eq: "snd (consume_one p) = p\<lparr>pp_attempts_consumed := pp_attempts_consumed p + 1\<rparr>"
    using assms not_max by (simp add: consume_one_def saturating_succ_u32_def Let_def)
  have "1 + pp_attempts_consumed p \<noteq> 0" using not_max unfolding eq_neg_iff_add_eq_0 add.commute [of 1] .
  then have suc: "unat (pp_attempts_consumed p + 1) = Suc (unat (pp_attempts_consumed p))"
    using unatSuc [of "pp_attempts_consumed p"] by (simp add: add.commute)
  show "pp_schedule (snd (consume_one p)) = pp_schedule p"
    "unat (pp_attempts_consumed (snd (consume_one p))) = Suc (unat (pp_attempts_consumed p))"
    "pp_attempts_consumed (snd (consume_one p)) \<le> max_query_attempts p"
    using less suc by (simp_all add: eq inc_le)
qed

lemma query_report_receipt:
  "qp_receipt (query_report q ev answer) \<noteq> None \<longrightarrow> phase_is_terminal (phase_from_receipt_report (query_report q ev answer))"
proof (cases "\<exists>receipt. answer = Ok (FetchFinalized receipt)")
  case True
  then obtain receipt where receipt: "answer = Ok (FetchFinalized receipt)" by blast
  show ?thesis
  proof (cases "receipt_verification q receipt")
    case (Err e)
    then show ?thesis using receipt
      by (cases e) (simp_all add: query_report_def finalized_report_def phase_from_receipt_report_def Let_def)
  qed (simp add: receipt query_report_def finalized_report_def phase_from_receipt_report_def is_verified_success_def Let_def)
next
  case False
  then show ?thesis
    by (auto simp: query_report_def open_report_def split: result.splits indexer_receipt_fetch_v1.splits)
qed

lemma phase_accept:
  "phase_from_receipt_report (query_report q ev answer) = PhaseFinalizedAccept \<Longrightarrow> proving_answer q answer"
  "phase_from_receipt_report report \<noteq> PhaseFinalizedDisagreement"
  by (auto simp: phase_from_receipt_report_def query_report_verified
      split: anchor_receipt_query_state_v1.splits if_splits)

text \<open>What one poll changes: nothing but the phase, or one query with its report.\<close>

definition polled ::
  "anchor_lifecycle_orchestrator \<Rightarrow> submitted_walletd_anchor_request_v1 \<Rightarrow> anchor_receipt_address_evidence_v1 \<Rightarrow>
   indexer_answer \<Rightarrow> anchor_lifecycle_orchestrator" where
  "polled o' s ev answer =
     (let q = from_submitted s; report = query_report q ev answer in
      apply_poll q report (o'\<lparr>lo_receipt := set_outcome (sw_project_request_id s) (qp_state report)
        (qp_final_status report) (proving_answer q answer) (qp_diagnostic report) (register_submitted q (lo_receipt o'))\<rparr>))"

lemma from_submitted_id [simp]: "aq_project_request_id (from_submitted s) = sw_project_request_id s"
  by (simp add: from_submitted_def Let_def)

lemma poll_cases:
  assumes "advance_one_poll A (logged_indexer I) o' (d, k) = (r, o'', d', k')"
  shows "(k' = k \<and> o'' = o')
    \<or> (k' = k \<and> \<not> phase_is_terminal (lo_phase o') \<and> o'' = o'\<lparr>lo_phase := PhaseUnknown, lo_diagnostic := Some POLL_EXHAUSTED\<rparr>)
    \<or> (\<exists>s answer ev. \<not> phase_is_terminal (lo_phase o') \<and> \<not> is_exhausted (lo_policy o') \<and> lo_submitted o' = Some s
         \<and> k' = (from_submitted s, answer) # k \<and> o'' = polled o' s ev answer)"
proof (cases "phase_is_terminal (lo_phase o') \<or> is_exhausted (lo_policy o') \<or> lo_query o' = None \<or> lo_submitted o' = None")
  case True
  then show ?thesis
    using assms by (auto simp: advance_one_poll_def Let_def split: if_splits option.splits)
next
  case False
  then obtain q s where q: "lo_query o' = Some q" "lo_submitted o' = Some s" by auto
  obtain v reg1 d1 k1 where v: "receipt_query A (logged_indexer I) q s (lo_receipt o') (d, k) = (v, reg1, d1, k1)"
    by (metis surj_pair)
  from receipt_query_frame [OF v] show ?thesis
  proof (elim disjE exE conjE)
    fix e assume "v = Err e" "reg1 = lo_receipt o'" "k1 = k"
    then show ?thesis
      using assms False q v by (auto simp: advance_one_poll_def split: if_splits)
  next
    fix answer ev
    assume ok: "v = Ok (query_report q ev answer)" "k1 = (q, answer) # k" "q = from_submitted s"
      and reg1: "reg1 = set_outcome (aq_project_request_id q) (qp_state (query_report q ev answer))
        (qp_final_status (query_report q ev answer)) (proving_answer q answer)
        (qp_diagnostic (query_report q ev answer)) (register_submitted q (lo_receipt o'))"
    have "k' = k \<and> o'' = o' \<or> (k' = k1 \<and> o'' = polled o' s ev answer)"
      using assms False q v ok(1,3) reg1
      by (auto simp: advance_one_poll_def polled_def Let_def split: if_splits)
    then show ?thesis using False q ok by blast
  qed
qed

lemma polled_simps [simp]:
  "lo_walletd (polled o' s ev answer) = lo_walletd o'" "lo_submitted (polled o' s ev answer) = lo_submitted o'"
  "lo_query (polled o' s ev answer) = lo_query o'" "lo_policy (polled o' s ev answer) = snd (consume_one (lo_policy o'))"
  "lo_phase (polled o' s ev answer) =
     (let phase = phase_from_receipt_report (query_report (from_submitted s) ev answer) in
      if phase_is_terminal phase then phase
      else if is_exhausted (snd (consume_one (lo_policy o'))) then PhaseUnknown else PhasePollingInProgress)"
  by (simp_all add: polled_def apply_poll_def Let_def split: option.splits)

lemma polled_cached:
  "lo_cached_receipt (polled o' s ev answer) \<noteq> None \<Longrightarrow> lo_cached_receipt o' = None \<Longrightarrow>
     phase_is_terminal (lo_phase (polled o' s ev answer))"
  using query_report_receipt [of "from_submitted s" ev answer]
  by (auto simp: polled_def apply_poll_def Let_def split: option.splits if_splits)

lemma poll_ok:
  assumes op: "advance_one_poll A (logged_indexer I) o' (d, k) = (r, o'', d', k')"
    and ok: "handles_ok o' l" "attempts_ok policy o' k" "phase_ok o' k"
  shows "handles_ok o'' l \<and> attempts_ok policy o'' k' \<and> phase_ok o'' k'"
  using poll_cases [OF op]
proof (elim disjE exE conjE)
  fix s answer ev
  assume k': "k' = (from_submitted s, answer) # k" and o'': "o'' = polled o' s ev answer"
    and run: "\<not> phase_is_terminal (lo_phase o')" "\<not> is_exhausted (lo_policy o')" "lo_submitted o' = Some s"
  have "handles_ok o'' l" using ok(1) by (simp add: handles_ok_def o'')
  moreover have "attempts_ok policy o'' k'"
    using ok(2) consume_one_policy [OF run(2)] by (simp add: attempts_ok_def o'' k' max_query_attempts_def)
  moreover have "phase_ok o'' k'"
    using ok(3) run phase_accept(1) [of "from_submitted s" ev answer] phase_accept(2) polled_cached [of o' s ev answer]
    by (auto simp: phase_ok_def o'' k' Let_def split: if_splits)
  ultimately show ?thesis by blast
qed (use ok in \<open>auto simp: handles_ok_def attempts_ok_def phase_ok_def\<close>)

lemma agree_ok: "phase_ok o' k \<Longrightarrow> snd (check_agreement observation o') = o'"
  by (auto simp: check_agreement_def phase_ok_def split: option.splits)

lemma bindings_rebuilt:
  "bt_inv (lw_records reg) \<Longrightarrow> bindings (walletd_registry_from_snapshots (walletd_snapshots reg)) = bindings reg"
  by (rule ext) (simp add: bindings_def walletd_record_def lw_records_rebuilt)

lemma from_snapshot_Ok:
  assumes "orchestrator_from_snapshot (lifecycle_snapshot o') = Ok o''"
  shows "lo_walletd o'' = walletd_registry_from_snapshots (walletd_snapshots (lo_walletd o'))"
    "lo_receipt o'' = receipt_registry_from_snapshots (receipt_snapshots (lo_receipt o'))"
    "lo_policy o'' = lo_policy o'" "lo_phase o'' = lo_phase o'" "lo_submitted o'' = lo_submitted o'"
    "lo_query o'' = map_option from_submitted (lo_submitted o')" "lo_cached_receipt o'' = None"
  using assms
  by (auto simp: orchestrator_from_snapshot_def orchestrator_from_snapshots_def lifecycle_snapshot_def result_inv
      split: if_splits)

lemma lifecycle_restart_ok:
  assumes "orchestrator_from_snapshot (lifecycle_snapshot o') = Ok o''"
  shows "step_ok o' l o'' l"
  using from_snapshot_Ok [OF assms] restart_ok [of "lo_walletd o'" l] bindings_rebuilt [of "lo_walletd o'"]
  by (auto simp: step_ok_def handles_ok_def phase_ok_def registry_ok_def)

lemma with_daemon_ok:
  assumes "anchor_ok policy st" and "\<And>r o'' c l. f (as_orchestrator st) (as_daemon st, as_calls st) = (r, o'', c, l) \<Longrightarrow>
     step_ok (as_orchestrator st) (as_calls st) o'' l"
  shows "anchor_ok policy (with_daemon st f)"
proof -
  obtain r o'' c l where f: "f (as_orchestrator st) (as_daemon st, as_calls st) = (r, o'', c, l)" by (metis surj_pair)
  then show ?thesis
    using assms(1) assms(2) [OF f] by (auto simp: anchor_ok_def with_daemon_def step_ok_def attempts_ok_def)
qed

lemma anchor_run_ok:
  assumes "anchor_run N policy st" and "pp_attempts_consumed policy \<le> max_query_attempts policy"
  shows "anchor_ok policy st"
  using assms(1)
proof induction
  case (start c d)
  show ?case
    using assms(2)
    by (simp add: anchor_ok_def handles_ok_def attempts_ok_def phase_ok_def orchestrator_new_def registry_ok_def
        walletd_registry_new_def walletd_record_def bt.inv_new bt.get_new request_ids_def bindings_def dom_def
        requested_def creates_def)
next
  case (prepare st built evidence detail preparation inspection wire st')
  obtain r o'' c l where f: "lifecycle_prepare (logged (an_daemon N)) built (as_orchestrator st) (as_daemon st, as_calls st) = (r, o'', c, l)"
    by (metis surj_pair)
  have "step_ok (as_orchestrator st) (as_calls st) o'' l"
    by (rule prepare_step [OF f])
      (use prepare f in \<open>auto simp: with_daemon_def result_inv create_request_def adapter_bound_def Let_def split: if_splits\<close>)
  then show ?case
    unfolding \<open>st' = _\<close> by (intro with_daemon_ok prepare.IH) (simp add: f)
next
  case (poll st)
  obtain r o'' d k where f: "advance_one_poll (an_addresses N) (logged_indexer (an_indexer N)) (as_orchestrator st)
    (as_indexer st, as_queries st) = (r, o'', d, k)" by (metis surj_pair)
  show ?case
    using poll.IH poll_ok [OF f] by (auto simp: anchor_ok_def with_indexer_def f)
next
  case (agree st observation)
  then show ?case using agree_ok by (auto simp: anchor_ok_def)
next
  case (restart st o')
  then show ?case
    using lifecycle_restart_ok [OF restart.hyps(2), of "as_calls st"] by (auto simp: anchor_ok_def step_ok_def attempts_ok_def)
next
  case (outside st c d)
  then show ?case by (simp add: anchor_ok_def)
qed (blast intro: with_daemon_ok approve_step reject_step submit_step recover_step)+

end
