(* ===== verification/Anchor_Properties.thy ===== *)
theory Anchor_Properties
  imports Anchor_Runs Example_Election
begin

text \<open>
  Properties of anchoring: no transaction is submitted blindly a second time, what a receipt has to show to count as
  verified, and what stands behind an anchor that the orchestrator reports as accepted. The example is a daemon whose
  first submit times out and an indexer whose first answer is that the receipt is pending.
\<close>

section \<open>The example\<close>

definition xa_template :: anchor_template_binding_v1 where
  "xa_template = \<lparr>tm_template_address = lit ''template_1'', tm_module = lit ''anchor'', tm_function = ANCHOR_EVENT_FUNCTION_V1,
     tm_full_event_topic = lit ''anchor.'' @ ANCHOR_EVENT_TOPIC_SUFFIX_V1, tm_artifact_digest = zero32\<rparr>"

definition xa_fingerprint :: ootle_anchor_inspection_fingerprint_v1 where
  "xa_fingerprint = OotleAnchorInspectionFingerprintV1 zero32"

definition xa_preparation :: ootle_walletd_anchor_preparation_v1 where
  "xa_preparation = \<lparr>op_network = OotleNetworkIdV1 (lit ''testnet''), op_fee_account = AnchorAccountReference (lit ''account''),
     op_max_fee = AnchorMaxFeeV1 100, op_client_reference = None, op_anchor_digest = OotleAnchorRecordHashV1 zero32,
     op_template_binding = xa_template, op_epoch_binding = \<lparr>eb_observed_epoch = 1, eb_max_epoch = 2\<rparr>\<rparr>"

definition xa_binding :: walletd_anchor_binding_v1 where
  "xa_binding = preparation_binding xa_preparation xa_fingerprint"

definition xa_id :: anchor_request_id where
  "xa_id = derive_project_request_id (\<lambda>_. zero32) xa_binding"

definition xa_w :: walletd_request_id where "xa_w = WalletdRequestId 5"

definition xa_tx :: anchor_transaction_id where "xa_tx = AnchorTransactionId (to_lower_hex zero32)"

definition xa_evidence :: anchor_build_evidence where
  "xa_evidence = \<lparr>be_fingerprint = xa_fingerprint, be_instruction_count = 1, be_fee_instructions_present = True\<rparr>"

definition xa_create :: "unit walletd_create_anchor_request_v1" where
  "xa_create = \<lparr>cr_project_request_id = xa_id, cr_binding = xa_binding, cr_client_reference = None, cr_wire = ()\<rparr>"

definition xa_request :: walletd_bound_request where
  "xa_request = \<lparr>bq_project_request_id = xa_id, bq_walletd_request_id = xa_w, bq_binding = xa_binding\<rparr>"

definition xa_created :: walletd_create_outcome_v1 where
  "xa_created = \<lparr>co_walletd_request_id = xa_w, co_expires_at = 0\<rparr>"

definition xa_approval :: walletd_decision_outcome_v1 where
  "xa_approval = \<lparr>do_walletd_request_id = xa_w, do_status = WalletdApproved\<rparr>"

definition xa_status :: walletd_request_status_v1 where
  "xa_status = \<lparr>rs_walletd_request_id = xa_w, rs_status = WalletdApproved, rs_transaction_id = None,
     rs_observed_fingerprint = Some xa_fingerprint\<rparr>"

definition xa_outcome :: walletd_submit_outcome_v1 where
  "xa_outcome = \<lparr>so_walletd_request_id = xa_w, so_transaction_id = xa_tx\<rparr>"

definition xa_daemon :: "(unit, nat) walletd_anchor_client" where
  "xa_daemon =
     \<lparr>wc_create = \<lambda>_ c. (Ok xa_created, c), wc_approve = \<lambda>_ c. (Ok xa_approval, c),
      wc_reject = \<lambda>_ c. (Err TransportFailure, c), wc_get = \<lambda>_ c. (Ok xa_status, c),
      wc_submit = \<lambda>_ c. if c = 0 then (Err SubmitTimeout, 1) else (Ok xa_outcome, c)\<rparr>"


lemmas xa_calls = xa_daemon_def xa_created_def xa_approval_def xa_status_def xa_outcome_def log_call_def

lemma xa_built:
  "map_ok (Pair xa_evidence) (create_request (\<lambda>_. zero32) [] xa_preparation xa_evidence (Ok xa_fingerprint) ()) =
     Ok (xa_evidence, xa_create)"
  by (simp add: create_request_def xa_evidence_def xa_create_def xa_id_def xa_binding_def xa_preparation_def Let_def)

text \<open>The record of the request, by its decision and its submission.\<close>

definition xa_record :: "walletd_request_decision_v1 \<Rightarrow> walletd_submission_state_v1 \<Rightarrow> local_walletd_anchor_registry \<Rightarrow> bool" where
  "xa_record dec sub reg \<longleftrightarrow> (\<exists>r. walletd_record reg xa_id = Some r \<and> wr_walletd_request_id r = xa_w
     \<and> wr_binding r = xa_binding \<and> wr_decision r = dec \<and> wr_submission r = sub \<and> wr_transaction_id r = None)"

lemma xa_verify:
  assumes "xa_record dec sub reg"
  obtains r where "verify_bound_record xa_request reg = (Ok r, reg)" "walletd_record reg xa_id = Some r"
    "wr_walletd_request_id r = xa_w" "wr_binding r = xa_binding" "wr_decision r = dec" "wr_submission r = sub"
    "wr_transaction_id r = None"
  using assms by (auto simp: xa_record_def verify_bound_record_Ok xa_request_def)

lemma xa_prepare:
  "\<exists>reg p. walletd_prepare (logged xa_daemon) (Ok (xa_evidence, xa_create)) walletd_registry_new (c, l)
       = (Ok p, reg, c, CallCreate xa_create (Ok xa_created) # l)
     \<and> for_prepared p = xa_request \<and> xa_record DecisionPrepared NotSubmitted reg"
  by (auto simp: walletd_prepare_def prepare_fee_bearing_prebuilt_def xa_calls for_prepared_def xa_request_def xa_create_def
      xa_record_def register_prepared_def walletd_record_def)

lemma xa_approve:
  assumes "xa_record DecisionPrepared NotSubmitted reg"
  shows "\<exists>reg'. walletd_approve (logged xa_daemon) xa_request reg (c, l)
       = (Ok (decided_request xa_request xa_binding AnchorApproved), reg', c, CallApprove xa_w (Ok xa_approval) # l)
     \<and> xa_record DecisionApproved NotSubmitted reg'"
  by (rule xa_verify [OF assms])
    (simp add: walletd_approve_def xa_calls xa_request_def xa_record_def registry_updates)

lemma xa_timeout:
  assumes "xa_record DecisionApproved NotSubmitted reg"
  shows "\<exists>reg'. walletd_submit (logged xa_daemon) xa_request reg (0, l)
       = (Err SubmitTimeout, reg', 1, CallSubmit xa_w (Err SubmitTimeout) # l)
     \<and> xa_record DecisionApproved TimedOutUnknown reg'"
  by (rule xa_verify [OF assms])
    (simp add: walletd_submit_def submit_call_def xa_calls xa_request_def xa_record_def registry_updates
      apply_submit_error_def Let_def)

lemma xa_recover:
  assumes "xa_record DecisionApproved TimedOutUnknown reg"
  shows "\<exists>reg' r. walletd_recover (logged xa_daemon) xa_request reg (c, l)
       = (Ok r, reg', c, CallGet xa_w (Ok xa_status) # l)
     \<and> rw_state r = NotSubmittedRetryable \<and> xa_record DecisionApproved NotSubmitted reg'"
  by (rule xa_verify [OF assms])
    (simp add: walletd_recover_def recovery_state_def xa_calls xa_request_def xa_record_def registry_updates
      xa_binding_def preparation_binding_def Let_def)

lemma xa_submit:
  assumes "xa_record DecisionApproved NotSubmitted reg"
  shows "\<exists>reg'. walletd_submit (logged xa_daemon) xa_request reg (1, l)
       = (Ok (submitted_request xa_request xa_tx xa_binding), reg', 1, CallSubmit xa_w (Ok xa_outcome) # l)"
  by (rule xa_verify [OF assms])
    (simp add: walletd_submit_def submit_call_def xa_calls xa_request_def Let_def)

section \<open>No blind resubmission\<close>


lemma xa_fresh: "fresh_identifiers [CallCreate xa_create (Ok xa_created)]"
  by (simp add: fresh_identifiers_def)



section \<open>What a receipt has to show\<close>

text \<open>
  A query for a submitted request succeeds exactly when the indexer answers with a finalized receipt of the
  transaction of that request, on its network and fully accepted, that shows the anchor: for a request bound to a template by
  the only event of the template, with its topic and exactly the digest as metadata; for one without a template by the
  only project log, which is the payload of the request.
\<close>

lemma receipt_verified_exact:
  assumes "receipt_query A I q s reg d = (Ok report, reg', d')"
  shows "is_verified_success report \<longleftrightarrow> (\<exists>receipt. fst (ix_fetch I q d) = Ok (FetchFinalized receipt)
    \<and> rc_transaction_id receipt = sw_transaction_id s \<and> rc_network receipt = wb_network (sw_binding s)
    \<and> rc_final_status receipt = StatusAccepted
    \<and> (case wb_template_binding (sw_binding s) of
         Some template \<Rightarrow> \<exists>event. proves_by_event (tm_template_address template) (tm_full_event_topic template)
             ANCHOR_EVENT_DIGEST_KEY_V1 receipt event
           \<and> ep_metadata event = [(ANCHOR_EVENT_DIGEST_KEY_V1,
               event_digest_hex (AnchorEventPayloadV2 (wb_anchor_digest (sw_binding s))))]
       | None \<Rightarrow> map le_message (filter is_candidate_log (rc_logs receipt)) = [to_encoded_string (wb_payload (sw_binding s))]))"
proof -
  from assms obtain ev where q: "q = from_submitted s" and report: "report = query_report q ev (fst (ix_fetch I q d))"
    by (auto simp: receipt_query_def result_inv Let_def split: result.splits prod.splits)
  show ?thesis
    unfolding report query_report_verified proving_answer_def
    by (auto simp: q from_submitted_def receipt_verification_def Let_def verify_v39_Ok_iff verify_query_outcome_def
        verify_anchor_receipt_Ok_iff split: option.splits)
qed

section \<open>An accepted anchor\<close>

text \<open>
  C25: In every run of the orchestrator, with the steps in any order, restarts from its own
  snapshot, and any answers of the daemon and the indexer, the indexer is asked at most as often as the policy
  allows and every question is counted. And when the phase is that of an accepted anchor, then the daemon created a request
  that the adapter had bound to a template and a digest, it named a transaction for that request, and the indexer
  answered a query for it with a finalized, fully accepted receipt of that transaction on the bound network
  whose only event of the bound template and topic carries exactly the bound digest. Assumed of the daemon is
  that it never gives the same identifier to two requests it creates.
\<close>

theorem anchor_accept_sound:
  assumes "anchor_run N (PollingPolicy_new n) st"
  shows "length (as_queries st) = unat (pp_attempts_consumed (lo_policy (as_orchestrator st)))
    \<and> length (as_queries st) \<le> unat n
    \<and> (lo_phase (as_orchestrator st) = PhaseFinalizedAccept \<longrightarrow>
        (\<exists>create out t template q receipt event.
           CallCreate create (Ok out) \<in> set (as_calls st)
           \<and> wb_template_binding (cr_binding create) = Some template
           \<and> reported (co_walletd_request_id out) t (as_calls st)
           \<and> (q, Ok (FetchFinalized receipt)) \<in> set (as_queries st) \<and> aq_transaction_id q = t
           \<and> rc_transaction_id receipt = t \<and> rc_network receipt = wb_network (cr_binding create)
           \<and> rc_final_status receipt = StatusAccepted
           \<and> proves_by_event (tm_template_address template) (tm_full_event_topic template) ANCHOR_EVENT_DIGEST_KEY_V1
               receipt event
           \<and> ep_metadata event = [(ANCHOR_EVENT_DIGEST_KEY_V1,
               event_digest_hex (AnchorEventPayloadV2 (wb_anchor_digest (cr_binding create))))]))"
proof -
  have ok: "anchor_ok (PollingPolicy_new n) st"
    by (rule anchor_run_ok [OF assms]) (simp add: PollingPolicy_new_def)
  let ?o = "as_orchestrator st"
  have attempts: "length (as_queries st) = unat (pp_attempts_consumed (lo_policy ?o))" "length (as_queries st) \<le> unat n"
    using ok by (simp_all add: anchor_ok_def attempts_ok_def PollingPolicy_new_def max_query_attempts_def
        BackoffSchedule_new_def word_le_nat_alt)
  show ?thesis
  proof (intro conjI impI attempts)
    assume "lo_phase ?o = PhaseFinalizedAccept"
    with ok obtain s answer where s: "lo_submitted ?o = Some s" and asked: "(from_submitted s, answer) \<in> set (as_queries st)"
      and proof_: "proving_answer (from_submitted s) answer" by (auto simp: anchor_ok_def phase_ok_def)
    from ok s have req: "requested (as_calls st) (sw_project_request_id s) (sw_walletd_request_id s) (sw_binding s)"
      and rep: "reported (sw_walletd_request_id s) (sw_transaction_id s) (as_calls st)"
      and bound: "adapter_bound (sw_binding s)"
      by (auto simp: anchor_ok_def handles_ok_def)
    from req obtain create out where create: "CallCreate create (Ok out) \<in> set (as_calls st)"
      "co_walletd_request_id out = sw_walletd_request_id s" "cr_binding create = sw_binding s"
      by (auto simp: requested_def creates_def)
    from bound obtain template where template: "wb_template_binding (sw_binding s) = Some template"
      by (auto simp: adapter_bound_def preparation_binding_def)
    from proof_ template obtain receipt event where "answer = Ok (FetchFinalized receipt)"
      "rc_transaction_id receipt = sw_transaction_id s" "rc_network receipt = wb_network (sw_binding s)"
      "rc_final_status receipt = StatusAccepted"
      "proves_by_event (tm_template_address template) (tm_full_event_topic template) ANCHOR_EVENT_DIGEST_KEY_V1 receipt event"
      "ep_metadata event = [(ANCHOR_EVENT_DIGEST_KEY_V1,
         event_digest_hex (AnchorEventPayloadV2 (wb_anchor_digest (sw_binding s))))]"
      by (auto simp: proving_answer_def receipt_verification_def from_submitted_def Let_def verify_v39_Ok_iff)
    with create rep asked template show "\<exists>create out t template q receipt event.
           CallCreate create (Ok out) \<in> set (as_calls st)
           \<and> wb_template_binding (cr_binding create) = Some template
           \<and> reported (co_walletd_request_id out) t (as_calls st)
           \<and> (q, Ok (FetchFinalized receipt)) \<in> set (as_queries st) \<and> aq_transaction_id q = t
           \<and> rc_transaction_id receipt = t \<and> rc_network receipt = wb_network (cr_binding create)
           \<and> rc_final_status receipt = StatusAccepted
           \<and> proves_by_event (tm_template_address template) (tm_full_event_topic template) ANCHOR_EVENT_DIGEST_KEY_V1
               receipt event
           \<and> ep_metadata event = [(ANCHOR_EVENT_DIGEST_KEY_V1,
               event_digest_hex (AnchorEventPayloadV2 (wb_anchor_digest (cr_binding create))))]"
      by (intro exI [of _ create] exI [of _ out] exI [of _ "sw_transaction_id s"] exI [of _ template]
          exI [of _ "from_submitted s"] exI [of _ receipt] exI [of _ event])
        (simp add: from_submitted_def Let_def)
  qed
qed

text \<open>
  The example as a run of the orchestrator: the first submit times out, recovery finds the request approved, the second
  submit succeeds; the first poll finds the receipt pending, the second finds it finalized.
\<close>

definition xa_receipt :: anchor_receipt_v1 where
  "xa_receipt = \<lparr>rc_transaction_id = xa_tx, rc_network = op_network xa_preparation, rc_final_status = StatusAccepted,
     rc_logs = [], rc_rejection_reason = None, rc_ledger_position = None, rc_source = IndependentIndexer,
     rc_event_proofs_v2 = [\<lparr>ep_template_address = tm_template_address xa_template,
       ep_topic = tm_full_event_topic xa_template,
       ep_metadata = [(ANCHOR_EVENT_DIGEST_KEY_V1, event_digest_hex (AnchorEventPayloadV2 (op_anchor_digest xa_preparation)))],
       ep_event_index = 0, ep_receipt_epoch = 1, ep_intent_commitment = zero32\<rparr>]\<rparr>"

definition xa_indexer :: "nat indexer_anchor_receipt_client" where
  "xa_indexer = \<lparr>ix_fetch = \<lambda>_ d. if d = 0 then (Ok FetchPending, 1) else (Ok (FetchFinalized xa_receipt), d)\<rparr>"

definition xa_environment :: "(unit, nat, nat) anchor_environment" where
  "xa_environment = \<lparr>an_blake3 = \<lambda>_. zero32, an_addresses = \<lparr>oa_transaction_id_hex = \<lambda>_. [],
     oa_receipt_address_display = \<lambda>_. [], oa_receipt_object_key_hex = \<lambda>_. []\<rparr>, an_daemon = xa_daemon, an_indexer = xa_indexer\<rparr>"

definition xa_policy :: polling_policy where "xa_policy = PollingPolicy_new 3"

definition xa_submitted :: submitted_walletd_anchor_request_v1 where
  "xa_submitted = submitted_request xa_request xa_tx xa_binding"

text \<open>The states of the run before and after the submission.\<close>

definition xa_before ::
  "unified_anchor_lifecycle_phase \<Rightarrow> walletd_request_decision_v1 \<Rightarrow> walletd_submission_state_v1 \<Rightarrow> nat \<Rightarrow>
   unit walletd_call list \<Rightarrow> (unit, nat, nat) anchor_state \<Rightarrow> bool" where
  "xa_before phase dec sub c l st \<longleftrightarrow>
     anchor_run xa_environment xa_policy st
     \<and> lo_phase (as_orchestrator st) = phase \<and> lo_policy (as_orchestrator st) = xa_policy
     \<and> map_option for_prepared (lo_prepared (as_orchestrator st)) = Some xa_request
     \<and> (dec = DecisionApproved \<longrightarrow> map_option for_approved (lo_approved (as_orchestrator st)) = Some xa_request)
     \<and> xa_record dec sub (lo_walletd (as_orchestrator st))
     \<and> as_daemon st = c \<and> as_calls st = l \<and> as_indexer st = 0 \<and> as_queries st = []"

definition xa_after ::
  "unified_anchor_lifecycle_phase \<Rightarrow> u32 \<Rightarrow> nat \<Rightarrow> indexer_call list \<Rightarrow> (unit, nat, nat) anchor_state \<Rightarrow> bool" where
  "xa_after phase n d k st \<longleftrightarrow>
     anchor_run xa_environment xa_policy st
     \<and> lo_phase (as_orchestrator st) = phase \<and> lo_policy (as_orchestrator st) = xa_policy\<lparr>pp_attempts_consumed := n\<rparr>
     \<and> lo_submitted (as_orchestrator st) = Some xa_submitted
     \<and> lo_query (as_orchestrator st) = Some (from_submitted xa_submitted)
     \<and> as_indexer st = d \<and> as_queries st = k"

lemma xa_run_prepare: "\<exists>st. xa_before PhasePrepared DecisionPrepared NotSubmitted 0 [CallCreate xa_create (Ok xa_created)] st"
proof -
  let ?st = "\<lparr>as_orchestrator = orchestrator_new xa_policy, as_daemon = 0, as_calls = [], as_indexer = 0, as_queries = []\<rparr>"
  have env: "an_daemon xa_environment = xa_daemon" "an_blake3 xa_environment = (\<lambda>_. zero32)"
    by (simp_all add: xa_environment_def)
  obtain reg p where p: "walletd_prepare (logged xa_daemon) (Ok (xa_evidence, xa_create)) walletd_registry_new (0, [])
      = (Ok p, reg, 0, [CallCreate xa_create (Ok xa_created)])" "for_prepared p = xa_request"
    "xa_record DecisionPrepared NotSubmitted reg"
    using xa_prepare [of 0 "[]"] by blast
  let ?st' = "with_daemon ?st (lifecycle_prepare (logged (an_daemon xa_environment)) (Ok (xa_evidence, xa_create)))"
  have st': "?st' = ?st\<lparr>as_orchestrator := (orchestrator_new xa_policy)\<lparr>lo_walletd := reg, lo_prepared := Some p,
      lo_phase := PhasePrepared\<rparr>, as_calls := [CallCreate xa_create (Ok xa_created)]\<rparr>"
    using p(1) by (simp add: with_daemon_def lifecycle_prepare_def orchestrator_new_def env Let_def)
  have "fresh_identifiers (as_calls ?st')" unfolding st' by (simp add: xa_fresh)
  then have "anchor_run xa_environment xa_policy ?st'"
    by (rule anchor_run.prepare [OF anchor_run.start xa_built [folded env(2), symmetric] refl])
  note run = this [unfolded st']
  show ?thesis
    unfolding xa_before_def by (intro exI conjI, rule run) (use p in \<open>simp_all add: orchestrator_new_def\<close>)
qed

lemma xa_run_approve:
  assumes "xa_before PhasePrepared DecisionPrepared NotSubmitted 0 l st"
  shows "\<exists>st'. xa_before PhaseApproved DecisionApproved NotSubmitted 0 (CallApprove xa_w (Ok xa_approval) # l) st'"
proof -
  from assms have "xa_record DecisionPrepared NotSubmitted (lo_walletd (as_orchestrator st))" by (simp add: xa_before_def)
  from xa_approve [OF this, of 0 l] assms anchor_run.approve [of xa_environment xa_policy st]
  have "xa_before PhaseApproved DecisionApproved NotSubmitted 0 (CallApprove xa_w (Ok xa_approval) # l)
      (with_daemon st (lifecycle_approve (logged (an_daemon xa_environment))))"
    by (auto simp: xa_before_def with_daemon_def lifecycle_approve_def decision_request_def xa_environment_def
        decided_request_def for_approved_def xa_request_def Let_def)
  then show ?thesis by blast
qed

lemma xa_run_timeout:
  assumes "xa_before PhaseApproved DecisionApproved NotSubmitted 0 l st"
  shows "\<exists>st'. xa_before PhaseUnknown DecisionApproved TimedOutUnknown 1 (CallSubmit xa_w (Err SubmitTimeout) # l) st'"
proof -
  from assms have "xa_record DecisionApproved NotSubmitted (lo_walletd (as_orchestrator st))" by (simp add: xa_before_def)
  from xa_timeout [OF this, of l] assms anchor_run.submit [of xa_environment xa_policy st]
  have "xa_before PhaseUnknown DecisionApproved TimedOutUnknown 1 (CallSubmit xa_w (Err SubmitTimeout) # l)
      (with_daemon st (lifecycle_submit (logged (an_daemon xa_environment))))"
    by (auto simp: xa_before_def with_daemon_def lifecycle_submit_def submit_request_def xa_environment_def is_timeout_def Let_def)
  then show ?thesis by blast
qed

lemma xa_run_recover:
  assumes "xa_before PhaseUnknown DecisionApproved TimedOutUnknown 1 l st"
  shows "\<exists>st'. xa_before PhaseApproved DecisionApproved NotSubmitted 1 (CallGet xa_w (Ok xa_status) # l) st'"
proof -
  from assms have "xa_record DecisionApproved TimedOutUnknown (lo_walletd (as_orchestrator st))" by (simp add: xa_before_def)
  from xa_recover [OF this, of 1 l] assms anchor_run.recover [of xa_environment xa_policy st]
  have "xa_before PhaseApproved DecisionApproved NotSubmitted 1 (CallGet xa_w (Ok xa_status) # l)
      (with_daemon st (lifecycle_recover (logged (an_daemon xa_environment))))"
    by (auto simp: xa_before_def with_daemon_def lifecycle_recover_def submit_request_def xa_environment_def apply_recovered_def)
  then show ?thesis by blast
qed

lemma xa_run_submit:
  assumes "xa_before PhaseApproved DecisionApproved NotSubmitted 1 l st"
  shows "\<exists>st'. xa_after PhaseSubmitted 0 0 [] st'"
proof -
  from assms have "xa_record DecisionApproved NotSubmitted (lo_walletd (as_orchestrator st))" by (simp add: xa_before_def)
  from xa_submit [OF this, of l] assms anchor_run.submit [of xa_environment xa_policy st]
  have "xa_after PhaseSubmitted 0 0 [] (with_daemon st (lifecycle_submit (logged (an_daemon xa_environment))))"
    by (auto simp: xa_before_def xa_after_def with_daemon_def lifecycle_submit_def submit_request_def xa_environment_def
        xa_submitted_def xa_policy_def PollingPolicy_new_def Let_def)
  then show ?thesis by blast
qed

lemma xa_address: "\<exists>ev. derive_receipt_address_evidence A xa_tx network = Ok ev"
proof -
  have "length (to_lower_hex zero32) = 64" by (simp add: to_lower_hex_def)
  moreover from this have "to_lower_hex zero32 \<noteq> []" by force
  ultimately show ?thesis
    by (simp add: derive_receipt_address_evidence_def transaction_id_to_ootle_def xa_tx_def TRANSACTION_ID_HEX_LEN_def
        lower_hex_pairs_slice to_lower_hex_def)
qed

lemma xa_query:
  "\<exists>ev reg'. receipt_query A (logged_indexer xa_indexer) (from_submitted xa_submitted) xa_submitted reg (d, k) =
     (let answer = (if d = 0 then Ok FetchPending else Ok (FetchFinalized xa_receipt)) in
      (Ok (query_report (from_submitted xa_submitted) ev answer), reg', max d 1, (from_submitted xa_submitted, answer) # k))"
proof -
  have "aq_transaction_id (from_submitted xa_submitted) = xa_tx"
    by (simp add: from_submitted_def xa_submitted_def submitted_request_def Let_def)
  moreover obtain ev where "derive_receipt_address_evidence A xa_tx (aq_network (from_submitted xa_submitted)) = Ok ev"
    using xa_address by blast
  moreover have "ensure_matches_submitted (from_submitted xa_submitted) xa_submitted = Ok ()"
    by (simp add: ensure_matches_submitted_Ok_iff)
  ultimately show ?thesis
    by (auto simp: receipt_query_def logged_indexer_def log_call_def xa_indexer_def Let_def)
qed

lemma xa_proves: "proving_answer (from_submitted xa_submitted) (Ok (FetchFinalized xa_receipt))"
  by (simp add: proving_answer_def receipt_verification_def from_submitted_def xa_submitted_def submitted_request_def
      xa_binding_def preparation_binding_def xa_preparation_def xa_receipt_def verify_v39_Ok_iff proves_by_event_def
      is_candidate_event_def Let_def)

lemma xa_first_poll:
  assumes "xa_after PhaseSubmitted 0 0 [] st"
  shows "\<exists>st'. xa_after PhasePollingInProgress 1 1 [(from_submitted xa_submitted, Ok FetchPending)] st'"
proof -
  let ?f = "advance_one_poll (an_addresses xa_environment) (logged_indexer (an_indexer xa_environment))"
  obtain ev reg' where "receipt_query (an_addresses xa_environment) (logged_indexer xa_indexer) (from_submitted xa_submitted)
      xa_submitted (lo_receipt (as_orchestrator st)) (0, []) =
    (Ok (query_report (from_submitted xa_submitted) ev (Ok FetchPending)), reg', 1, [(from_submitted xa_submitted, Ok FetchPending)])"
    using xa_query [of "an_addresses xa_environment" "lo_receipt (as_orchestrator st)" 0 "[]"] by (auto simp: Let_def)
  moreover have "an_indexer xa_environment = xa_indexer" by (simp add: xa_environment_def)
  ultimately have "xa_after PhasePollingInProgress 1 1 [(from_submitted xa_submitted, Ok FetchPending)] (with_indexer st ?f)"
    using assms anchor_run.poll [of xa_environment xa_policy st]
    by (simp add: xa_after_def with_indexer_def advance_one_poll_def is_exhausted_def max_query_attempts_def xa_policy_def
        PollingPolicy_new_def BackoffSchedule_new_def apply_poll_def query_report_def open_report_def
        phase_from_receipt_report_def consume_one_def saturating_succ_u32_def word_le_nat_alt Let_def)
  then show ?thesis by blast
qed

lemma xa_second_poll:
  assumes "xa_after PhasePollingInProgress 1 1 k st"
  shows "\<exists>st'. xa_after PhaseFinalizedAccept 2 1 ((from_submitted xa_submitted, Ok (FetchFinalized xa_receipt)) # k) st'"
proof -
  let ?f = "advance_one_poll (an_addresses xa_environment) (logged_indexer (an_indexer xa_environment))"
  let ?answer = "Ok (FetchFinalized xa_receipt) :: indexer_answer"
  obtain ev reg' where "receipt_query (an_addresses xa_environment) (logged_indexer xa_indexer) (from_submitted xa_submitted)
      xa_submitted (lo_receipt (as_orchestrator st)) (1, k) =
    (Ok (query_report (from_submitted xa_submitted) ev ?answer), reg', 1, (from_submitted xa_submitted, ?answer) # k)"
    using xa_query [of "an_addresses xa_environment" "lo_receipt (as_orchestrator st)" 1 k] by (auto simp: Let_def)
  moreover have "an_indexer xa_environment = xa_indexer" by (simp add: xa_environment_def)
  moreover have "phase_from_receipt_report (query_report (from_submitted xa_submitted) ev ?answer) = PhaseFinalizedAccept"
    using xa_proves by (simp add: phase_from_receipt_report_def query_report_verified
        query_report_accept [THEN iffD2])
  ultimately have "xa_after PhaseFinalizedAccept 2 1 ((from_submitted xa_submitted, ?answer) # k) (with_indexer st ?f)"
    using assms anchor_run.poll [of xa_environment xa_policy st]
    by (auto simp: xa_after_def with_indexer_def advance_one_poll_def is_exhausted_def max_query_attempts_def xa_policy_def
        PollingPolicy_new_def BackoffSchedule_new_def apply_poll_def consume_one_def saturating_succ_u32_def word_le_nat_alt Let_def
        split: option.splits)
  then show ?thesis by blast
qed

theorem anchor_accept_sound_witness:
  "\<exists>st. anchor_run xa_environment (PollingPolicy_new 3) st \<and> lo_phase (as_orchestrator st) = PhaseFinalizedAccept
     \<and> length (as_queries st) = 2
     \<and> (\<exists>create out t template event. CallCreate create (Ok out) \<in> set (as_calls st)
          \<and> wb_template_binding (cr_binding create) = Some template \<and> reported (co_walletd_request_id out) t (as_calls st) \<and> rc_transaction_id xa_receipt = t
          \<and> proves_by_event (tm_template_address template) (tm_full_event_topic template) ANCHOR_EVENT_DIGEST_KEY_V1
              xa_receipt event)"
proof -
  from xa_run_prepare xa_run_approve xa_run_timeout xa_run_recover xa_run_submit xa_first_poll xa_second_poll
  obtain st where st: "xa_after PhaseFinalizedAccept 2 1
      [(from_submitted xa_submitted, Ok (FetchFinalized xa_receipt)), (from_submitted xa_submitted, Ok FetchPending)] st" by metis
  then have run: "anchor_run xa_environment (PollingPolicy_new 3) st" by (simp add: xa_after_def xa_policy_def)
  have q: "as_queries st = [(from_submitted xa_submitted, Ok (FetchFinalized xa_receipt)), (from_submitted xa_submitted, Ok FetchPending)]"
    and phase: "lo_phase (as_orchestrator st) = PhaseFinalizedAccept" using st by (simp_all add: xa_after_def)
  from mp [OF conjunct2 [OF conjunct2 [OF anchor_accept_sound [OF run]]] phase] obtain create out t template q receipt event where
    a: "CallCreate create (Ok out) \<in> set (as_calls st)" "wb_template_binding (cr_binding create) = Some template" "reported (co_walletd_request_id out) t (as_calls st)"
      "(q, Ok (FetchFinalized receipt)) \<in> set (as_queries st)" "rc_transaction_id receipt = t"
      "proves_by_event (tm_template_address template) (tm_full_event_topic template) ANCHOR_EVENT_DIGEST_KEY_V1 receipt event"
    by blast
  then have "receipt = xa_receipt" using \<open>as_queries st = _\<close> by auto
  with a run phase \<open>as_queries st = _\<close> show ?thesis by (intro exI conjI) auto
qed

end
