(* ===== verification/Spec2Isabelle.thy ===== *)
theory Spec2Isabelle
  imports Encoding_Properties Election_Properties Archive_Properties Session_Properties Transport_Properties
    Writer_Properties Inbox_Properties Anchor_Properties
begin

text \<open>
  A model of the core of the private-ballot workspace (\<open>src/crates\<close>): a pilot for anonymous
  approval ballots. An election is described by a \<^emph>\<open>manifest\<close> that commits to a
  \<^emph>\<open>registry\<close> of governance keys and to a \<^emph>\<open>candidate set\<close>. A voter sends a
  \<^emph>\<open>package\<close>: an approval payload with a linkable ring proof (Triptych) over the registry.
  The verifier decodes the package strictly, rebuilds the proof statement from the frozen manifest,
  verifies the proof, and accepts at most one ballot per nullifier; the tally counts the payloads of
  the accepted ballots. An \<^emph>\<open>archive\<close> is a directory with the manifest, the registry, the candidate
  set and all submitted packages, catalogued with their digests; anybody can verify it by replaying
  the packages. The organizer runs an election as a \<^emph>\<open>session\<close>, which takes packages in, records every
  decision and can be rebuilt from its packages. Voters may send packages through a private transport:
  a \<^emph>\<open>descriptor\<close> signed by an authority root names a \<^emph>\<open>gateway\<close>; the package is padded and sealed to the
  gateway's key, and the gateway opens it, hands it to the session, answers with a receipt and seals the
  accepted digests in Merkle batches that the archive binds. The packages a gateway process has accepted reach
  the session through an \<^emph>\<open>inbox\<close> directory, and the archive of the session is written by the application.
  The hash of an archive can be \<^emph>\<open>anchored\<close> on the Ootle ledger: a record of it is published as an event by a
  transaction that a wallet daemon submits, and the receipt that an indexer returns is verified.

  \<^bold>\<open>Theories and the code they model.\<close>

  \<^item> \<open>Ballot_Prelude\<close>: results, checked machine arithmetic, windows and binary search as Rust's
    standard library has them. \<open>Rust_Text\<close>: UTF-8, characters and trimming. \<open>Ordered_Map\<close>: the
    interface of \<open>BTreeMap\<close> as a locale, and sorted association lists as its implementation.
  \<^item> \<open>Protocol_Core\<close>: \<open>crates/protocol/src/{lib,limits,commitment,hashing,scope}.rs\<close>.
    \<open>Cbor\<close>: \<open>protocol/src/cbor.rs\<close>, with the locales \<open>cbor_codec\<close> (what a field encoder and its reader
    promise each other) and \<open>object_codec\<close> (a whole-object decoder that accepts exactly the encodings
    of well-formed objects). \<open>Proof_Statement\<close>: \<open>protocol/src/proof_statement.rs\<close>.
  \<^item> \<open>Registry\<close>: \<open>crates/registry/src\<close>. \<open>Candidates\<close>: \<open>crates/ballot/src/{lib,canonical}.rs\<close>.
    \<open>Election_Manifest\<close>: \<open>ballot/src/{manifest,manifest_canonical,manifest_scope}.rs\<close>.
    \<open>Lifecycle\<close>: \<open>ballot/src/lifecycle.rs\<close>. \<open>Ballot_Package\<close>: \<open>ballot/src/package.rs\<close>. Each interprets
    the codec locales on its own definitions.
  \<^item> \<open>Proof_Verifier\<close>: \<open>crates/crypto/src/{verification,test_only_verifier}.rs\<close>, with the contract of
    a proof verifier as the locales \<open>proof_verifier\<close> and \<open>batch_proof_verifier\<close>.
    \<open>Triptych\<close>: \<open>crypto/src/{ristretto,triptych_adapter,triptych_prototype,triptych_verifier}.rs\<close> and
    \<open>verifier/src/triptych_registry.rs\<close>, which interprets that contract.
  \<^item> \<open>Ingestion\<close>: \<open>crates/verifier/src\<close> (statement reconstruction, verification, ledger, single and
    batch ingestion). \<open>Tally\<close>: \<open>crates/tally/src/lib.rs\<close>.
  \<^item> The archive, \<open>crates/archive/src\<close>. \<open>Archive_Files\<close>: \<open>file_entry.rs\<close> (portable paths, digests, the
    catalog). \<open>Archive_Manifest\<close>: \<open>manifest.rs\<close>. \<open>Transport_Binding\<close>: \<open>transport_binding.rs\<close>.
    \<open>Replay_Transcript\<close>: \<open>replay.rs\<close>. \<open>Archive_Directory\<close>, \<open>Archive_Replay\<close>, \<open>Archive_Verifier\<close>: the
    directory access, the replay session and the verification stages of \<open>verifier.rs\<close>, one definition per
    stage, each returning the updated report or the failing one. \<open>Archive_Memo\<close>:
    \<open>verification_memo.rs\<close> as a step relation over concurrent requests in which every critical section
    is one step. \<open>Archive_Soundness\<close>: what an established identity and a verified report say.
  \<^item> The organizer's session, \<open>crates/gui-core/src\<close>. \<open>Election_Session\<close>: \<open>session.rs\<close>, \<open>artifacts.rs\<close>,
    \<open>intake.rs\<close>, \<open>summary.rs\<close>, \<open>tally.rs\<close>, \<open>participation.rs\<close> and the parts of \<open>error.rs\<close> they use.
    \<open>Historical_Replay\<close>: \<open>historical_replay.rs\<close> and the parallel reconstruction of \<open>session.rs\<close>, with the
    worker threads as interleaved atomic steps under a schedule. \<open>Replay_Budget\<close>: several reconstructions that
    share the process-wide worker budget, as a step relation (\<open>replay_step\<close>) in which a request for permits sleeps
    on the condition variable while none is free and a release notifies the sleepers. \<open>Session_Invariants\<close>: the
    reachable sessions, what they keep, and how they are rebuilt.
  \<^item> The private transport. \<open>Transport_Messages\<close>: \<open>gui-core/src/transport.rs\<close> (authority roots, descriptors,
    the consistency store, envelopes, receipts). \<open>Transport_Codecs\<close>: their codecs, as interpretations of the
    locale \<open>slice_codec\<close>. From \<open>crates/transport-gateway/src/lib.rs\<close>: \<open>Merkle_Batches\<close> (roots and inclusion
    proofs), \<open>Transport_Gateway\<close> (admission gate, deliveries, retries, batches, archive binding),
    \<open>Gateway_Durable\<close> (the saved state), \<open>Gateway_Invariants\<close> (the states that a gateway and its session
    reach together: \<open>gateway_step\<close> has one rule per operation, a restart and the organizer's own work
    included), \<open>Submission\<close> (saving through a temporary file, gateway-signed receipts, the coordinator).
  \<^item> The files of the organizer, also \<open>crates/gui-core/src\<close>. \<open>Gui_Governance\<close>: \<open>governance.rs\<close> and \<open>hex.rs\<close>.
    \<open>Archive_Writer\<close>: \<open>archive_writer.rs\<close> and \<open>archive_verify.rs\<close>, with the target directory as a tree in which
    each file operation may fail as an \<open>archive_io\<close> record says; \<open>Archive_Tree\<close> (lookups in the trees the
    writer builds), \<open>Writer_Contents\<close> (the files of an assembled archive), \<open>Writer_Soundness\<close> (what the
    verifier sees of a complete and of an interrupted archive) and \<open>Writer_Capacity\<close> (the size of its manifest)
    hold the lemmas. \<open>Intake_Inbox\<close>: \<open>private_intake_inbox.rs\<close>, appends over a store whose operations may fail
    (\<open>append_io\<close>) and in which other processes may change the directory in any way between the operations, and
    reads as observations of files that may change meanwhile; \<open>Inbox_Soundness\<close> holds its lemmas.
  \<^item> Anchoring. \<open>Anchor_Record\<close>: \<open>crates/anchor/src\<close> and \<open>anchor-transport/src/{payload,identifiers}.rs\<close> (the
    record, its codec and digest, the log payload). \<open>Anchor_Transport\<close>:
    \<open>anchor-transport/src/{model,event,verification,agreement}.rs\<close> (receipts, bindings, their verification).
    \<open>Walletd_Coordinator\<close>: \<open>crates/ootle-walletd-anchor-adapter/src\<close> and \<open>Receipt_Coordinator\<close>:
    \<open>crates/ootle-receipt-anchor-adapter/src\<close>, each a registry of requests with snapshots and the operations on it.
    \<open>Anchor_Lifecycle\<close>: \<open>crates/ootle-anchor-lifecycle/src\<close>, the orchestrator that drives both. \<open>Walletd_Runs\<close> and
    \<open>Anchor_Runs\<close>: runs of the coordinator and of the orchestrator (\<open>walletd_run\<close>, \<open>anchor_run\<close>) with every call of
    the daemon and the indexer logged, and what they keep.
  \<^item> \<open>Example_Election\<close>, \<open>Example_Archive\<close>, \<open>Example_Session\<close>, \<open>Example_Transport\<close>: one concrete election, its
    archive, a session and a gateway for it, used by the witnesses. \<open>Encoding_Properties\<close>,
    \<open>Election_Properties\<close>, \<open>Archive_Properties\<close>, \<open>Session_Properties\<close>, \<open>Transport_Properties\<close>,
    \<open>Writer_Properties\<close>, \<open>Inbox_Properties\<close>, \<open>Anchor_Properties\<close>: the properties.

  \<^bold>\<open>Conventions.\<close> A Rust \<open>Result\<close> is \<open>result\<close> with the \<open>ValidationCode\<close> of the error; the
  static English messages of \<open>ProtocolError\<close> are left out. \<open>&mut self\<close> methods take the state and
  return it updated. \<open>u8\<close> to \<open>u64\<close> are words; \<open>usize\<close> is a natural number with \<open>usize_max = 2 ^ 64 - 1\<close>
  wherever the code checks for overflow; a \<open>String\<close> is its UTF-8 bytes. Readers carry the input and the
  offset as the code's reader does; that an input slice is at most \<open>usize_max\<close> bytes long is the
  predicate \<open>fits\<close>, which every object decoder's size check implies. The loops of the code over slices
  are structural recursions; the exponent search of \<open>ring_exponent_v1\<close> is a \<open>function\<close> with a
  termination proof (the power it compares with the registry size doubles until it overflows 32 bits),
  the traversal of the directory is a \<open>function\<close> over its stack of pending directories whose total
  size shrinks, and the Merkle layers halve; so no fuel occurs in the development. The worker pool runs under
  a schedule, a list of worker numbers: a schedule that ends early gives \<open>None\<close>, and every schedule can be
  completed; a reconstruction that has not got its permit gives \<open>None\<close> as well, and its waiting is a state of
  \<open>replay_step\<close>. A gateway operation returns its result with the changed gateway and session, since an error
  may leave changes behind. An intake that fails after the lifecycle check is modelled as leaving the
  session as it was; that failure needs \<open>2 ^ 64\<close> recorded packages.

  \<^bold>\<open>Parameters.\<close> Code that is not part of the repository's own sources is an argument: the
  BLAKE3 function (a \<open>hash_provider\<close> record), Unicode normalisation (\<open>nfc\<close>), the Ristretto curve
  (\<open>curve\<close>), the Triptych proof system with its Merlin transcripts (\<open>triptych_lib\<close>), Ed25519 (\<open>ed25519\<close>),
  HPKE with the randomness of the sender (\<open>hpke\<close>), fresh retry capabilities, the carriers and the outcome
  of each file operation of a save (\<open>save_io\<close>), of an archive (\<open>archive_io\<close>) and of an append (\<open>append_io\<close>),
  the wallet daemon and the indexer (client records over a state of their own, so that they may answer anything),
  the inspection of an unsigned Ootle transaction and the rendering of Ootle addresses. The laws assumed of them, each as a named hypothesis where it
  is used, are \<open>triptych_batch_sound\<close> (batch verification accepts exactly when each member verifies),
  \<open>hpke_correct\<close> (what is sealed to a key opens with its secret key, 16 bytes longer) and that a signature
  of a key verifies under its public key, and that the wallet daemon never gives an identifier to two requests
  (\<open>fresh_identifiers\<close>, a premise of the runs). The invariant of the gateway assumes that no two packages of the
  session have the same digest. The binding theorems assume nothing of the hash
  function: they conclude that two objects are equal or that it collides on the framed encodings of
  those very objects (\<open>encodings_collide\<close>, \<open>archives_collide\<close>). The archive directory is a finite tree
  (\<open>fs_node\<close>) that does not change during one verification, with text names, unreadable files,
  unlistable directories and nodes that are neither; between two requests to the memo it may change
  arbitrarily. The count of transport submissions is summed modulo \<open>2 ^ 64\<close>, as a release build does.

  \<^bold>\<open>What is shown.\<close> Encodings: every canonical decoder (arguments, registry, candidate set,
  payload, manifest, package, proof envelope) accepts exactly the bytes the encoder produces for the
  well-formed objects, so objects have one encoding; hash frames, transcripts and scope preimages are
  injective; commitments bind up to collisions; valid packages never exceed the object limit.
  Election: the lifecycle moves forward one state at a time and never changes what was frozen; the
  ledger holds one ballot per nullifier; nothing enters it but ballots bound to the frozen election
  with a verified proof; batch verification agrees with individual verification at the level of proofs
  and of packages; the tally counts exactly the approvals of the accepted ballots, independent of
  their order, and its leading result is the set of maximal candidates.
  Archive: accepted paths stay inside the directory and never collide on a case-insensitive file system;
  a verified report means that the directory is exactly the catalogued archive and that its counts and
  tally are those of ingesting the archived packages one by one; the batched verifier is the serial one;
  a replay of any bytes decides every package; the archive hash identifies the archive; the memo stays
  within its capacity, answers as the plain verifier does and leaves no request waiting for nobody.
  Session: a session is rebuilt exactly from its snapshot, serially or in parallel under any interleaving, also when
  several reconstructions compete for the worker budget, of which no permit is lost and for which none waits for ever;
  the digest index is the linear search it replaced; reconciling a package twice changes nothing; nothing
  is disclosed before the close, and the participation figures are exact.
  Transport: what a voter seals is what the gateway opens; the digests a gateway holds are distinct digests
  of accepted ballots and agree with its counts through deliveries, closing, sealing and restarts; an
  accepted receipt means an accepted ballot; a retry capability decides one package and answers it again as before,
  also after a restart, until the records expire; after the close
  every delivery is refused; saved states load again within the limits of the format; batch roots and
  inclusion proofs identify the sealed digests; one descriptor is accepted per election and generation.
  Files of the organizer: an archive that the writer completes from a reachable session verifies, with the
  hash, the counts and the tally of the session, when its files are within the sizes the verifier reads, except that
  an archive written without the document of a content pin is refused; a write that fails leaves nothing that verifies, whatever
  operation failed; a session can be archived without document and binding exactly up to 16,908 packages. As long as no two
  processes append the same package at the same time (\<open>shared_temporary_file\<close> shows what happens then), the inbox
  never shows a partial package, its recovered digests contain every acknowledged package and nothing that
  was not offered; a pass over it decides every package, whatever the order of the listing, and is
  idempotent.
  Anchoring: no request of the daemon is submitted again after an outcome that could not be told, unless a lookup
  reported it as not submitted; the indexer is asked at most as often as the policy allows; an anchor reported as
  accepted has behind it a request bound to its digest, a transaction the daemon named, and a receipt whose event
  carries that digest.

  \<^bold>\<open>Not modelled.\<close> The prover (\<open>crypto/src/triptych_prover.rs\<close>, randomness and the vendored prover),
  instrumentation counters, lock poisoning other than that of the worker budget, panicking threads, the
  vendored \<open>third_party/tari-triptych\<close>; of the transport, the collector, the service loop, provisioning and the
  network crate (sockets, threads, Tor processes, key files); of \<open>gui-core\<close>, the file-backed workspace, the voter
  session with its credentials, the status views and the session cache; of anchoring, the
  application around the orchestrator, the construction and inspection of Ootle transactions, the conversion of Ootle receipts and the network adapters;
  the command line, the desktop crate and the TypeScript front end.
\<close>

end
